(* ===== verification/Tp_Prelude.thy ===== *)
theory Tp_Prelude
  imports Main "HOL-Library.Word"
begin

text \<open>
  Shared vocabulary of the development: the machine integers of the C sources as words, the
  error values that \<open>TP_SET_ERR\<close> and \<open>return -1\<close> produce, guards in the order the code
  writes them, and the list and word lemmas that more than one component uses.
\<close>

unbundle bit_operations_syntax

section \<open>Machine types\<close>

type_synonym u8 = "8 word"
type_synonym u16 = "16 word"
type_synonym u32 = "32 word"
type_synonym u64 = "64 word"
type_synonym bytes = "u8 list"

text \<open>\<open>TP_NULL_U32\<close> and \<open>TP_NULL_U64\<close> of tp_types.h: the all-ones sentinels.\<close>

definition TP_NULL_U32 :: u32 where
  "TP_NULL_U32 = 0xFFFFFFFF"

definition TP_NULL_U64 :: u64 where
  "TP_NULL_U64 = 0xFFFFFFFFFFFFFFFF"

definition TP_SUPERBLOCK_SIZE_BYTES :: u32 where
  "TP_SUPERBLOCK_SIZE_BYTES = 64"

definition TP_HEADER_SLOT_BYTES :: u32 where
  "TP_HEADER_SLOT_BYTES = 256"

definition TP_LAYOUT_VERSION :: u32 where
  "TP_LAYOUT_VERSION = 1"

definition TP_URI_MAX_LENGTH :: nat where
  "TP_URI_MAX_LENGTH = 4096"

definition TP_MAX_DIMS :: nat where
  "TP_MAX_DIMS = 8"

section \<open>Results\<close>

text \<open>
  A function of the C sources that returns \<open>-1\<close> returns \<open>Inl\<close> here, with the
  errno and the message that \<open>TP_SET_ERR\<close> records. \<open>FAIL\<close> is a plain \<open>return -1\<close>
  that records nothing. \<open>UB\<close> is not a return of the code: it marks a signed arithmetic
  overflow, which C leaves undefined, so that a theorem about a result has to rule it out.
\<close>

datatype tp_error =
    EINVAL string
  | ENOMEM string
  | EACCES string
  | EAGAIN string
  | ERRNO string
  | FAIL
  | UB string

type_synonym 'a res = "tp_error + 'a"

text \<open>
  \<open>guard c e k\<close> is \<open>if (c) { TP_SET_ERR(e); return -1; } k\<close>.
\<close>

definition guard :: "bool \<Rightarrow> tp_error \<Rightarrow> 'a res \<Rightarrow> 'a res" where
  "guard c e k = (if c then Inl e else k)"

definition bind_res :: "'a res \<Rightarrow> ('a \<Rightarrow> 'b res) \<Rightarrow> 'b res" where
  "bind_res r f = (case r of Inl e \<Rightarrow> Inl e | Inr x \<Rightarrow> f x)"

named_theorems res_simps \<open>how guards and sequencing reach a success or an error\<close>

lemma guard_False [simp]: "guard False e k = k"
  by (simp add: guard_def)

lemma guard_True [simp]: "guard True e k = Inl e"
  by (simp add: guard_def)

lemma guard_Inr [res_simps]: "guard c e k = Inr x \<longleftrightarrow> \<not> c \<and> k = Inr x"
  by (simp add: guard_def)

lemma guard_Inl [res_simps]: "guard c e k = Inl e' \<longleftrightarrow> (c \<and> e = e') \<or> (\<not> c \<and> k = Inl e')"
  by (auto simp: guard_def)

lemma bind_res_simps [simp]:
  "bind_res (Inl e) f = Inl e"
  "bind_res (Inr x) f = f x"
  by (simp_all add: bind_res_def)

lemma bind_res_Inr [res_simps]: "bind_res r f = Inr y \<longleftrightarrow> (\<exists>x. r = Inr x \<and> f x = Inr y)"
  by (cases r) auto

lemma bind_res_Inl [res_simps]:
  "bind_res r f = Inl e \<longleftrightarrow> r = Inl e \<or> (\<exists>x. r = Inr x \<and> f x = Inl e)"
  by (cases r) auto

lemma guard_cong [cong]: "c = c' \<Longrightarrow> e = e' \<Longrightarrow> (\<not> c' \<Longrightarrow> k = k') \<Longrightarrow> guard c e k = guard c' e' k'"
  by (simp add: guard_def)

text \<open>Signed arithmetic at a fixed width: the mathematical value, if it is representable.\<close>

definition in_int64 :: "int \<Rightarrow> bool" where
  "in_int64 i \<longleftrightarrow> - (2 ^ 63) \<le> i \<and> i < 2 ^ 63"

definition in_int32 :: "int \<Rightarrow> bool" where
  "in_int32 i \<longleftrightarrow> - (2 ^ 31) \<le> i \<and> i < 2 ^ 31"

section \<open>Searching an array from the front\<close>

text \<open>
  The loops \<open>for (i = 0; i < n; i++) if (p(&a[i])) return &a[i];\<close> return the first match.
  A pointer into the array is its index here, so that a later write through the pointer is an
  update of the list at that index.
\<close>

fun find_index :: "('a \<Rightarrow> bool) \<Rightarrow> 'a list \<Rightarrow> nat option" where
  "find_index p [] = None"
| "find_index p (x # xs) = (if p x then Some 0 else map_option Suc (find_index p xs))"

lemma find_index_Some:
  "find_index p xs = Some i \<Longrightarrow> i < length xs \<and> p (xs ! i) \<and> (\<forall>j<i. \<not> p (xs ! j))"
  by (induction xs arbitrary: i) (auto split: if_splits simp: nth_Cons' less_Suc_eq_0_disj)

lemma find_index_None [simp]: "find_index p xs = None \<longleftrightarrow> (\<forall>x\<in>set xs. \<not> p x)"
  by (induction xs) auto

lemma find_index_less [dest]: "find_index p xs = Some i \<Longrightarrow> i < length xs"
  by (drule find_index_Some) simp

lemma find_index_sat: "find_index p xs = Some i \<Longrightarrow> p (xs ! i)"
  by (drule find_index_Some) simp

lemma find_index_SomeI:
  assumes "i < length xs" "p (xs ! i)" "\<And>j. j < i \<Longrightarrow> \<not> p (xs ! j)"
  shows "find_index p xs = Some i"
proof (cases "find_index p xs")
  case None
  then show ?thesis using assms(1,2) by auto
next
  case (Some k)
  note k = find_index_Some [OF Some]
  have "\<not> k < i" using assms(3) k by blast
  moreover have "\<not> i < k" using assms(2) k by blast
  ultimately show ?thesis using Some by simp
qed

lemma option_eqI: "(\<And>x. a = Some x \<longleftrightarrow> b = Some x) \<Longrightarrow> a = b"
  by (cases a; cases b) auto

section \<open>Word lemmas\<close>

lemma unat_minus_le: "(b :: 'a::len word) \<le> a \<Longrightarrow> unat (a - b) = unat a - unat b"
  by (simp add: unat_sub)

lemma word_less_plus_1: "(x :: 'a::len word) \<noteq> - 1 \<Longrightarrow> x < x + 1"
  by (metis inc_less_eq_triv_imp linorder_less_linear word_le_less_eq)

text \<open>Widening casts keep the value, and narrowing back returns the original.\<close>

lemma take_bit_nat_below: "k \<le> m \<Longrightarrow> (x :: nat) < 2 ^ k \<Longrightarrow> take_bit m x = x"
  by (meson order_less_le_trans one_le_numeral power_increasing take_bit_nat_eq_self)

lemma unat_widen [simp]:
  "unat (ucast (a :: u8) :: u64) = unat a"
  "unat (ucast (b :: u16) :: u64) = unat b"
  "unat (ucast (c :: u32) :: u64) = unat c"
  using unsigned_less [of a, where ?'a = nat] unsigned_less [of b, where ?'a = nat]
    unsigned_less [of c, where ?'a = nat]
  by (simp_all add: unsigned_ucast_eq take_bit_nat_below [of 8] take_bit_nat_below [of 16]
      take_bit_nat_below [of 32])

lemma unat_bounds [simp]:
  "unat (a :: u8) < 256" "unat (b :: u16) < 65536" "unat (c :: u32) < 4294967296"
  "unat (d :: u64) < 18446744073709551616"
  using unsigned_less [of a, where ?'a = nat] unsigned_less [of b, where ?'a = nat]
    unsigned_less [of c, where ?'a = nat] unsigned_less [of d, where ?'a = nat]
  by simp_all

lemma narrow_widen [simp]:
  "(ucast (ucast (a :: u8) :: u64) :: u8) = a"
  "(ucast (ucast (b :: u16) :: u64) :: u16) = b"
  "(ucast (ucast (c :: u32) :: u64) :: u32) = c"
  by (rule bit_word_eqI, simp add: bit_simps)+

lemma widen_inject [simp]:
  "(ucast (a :: u8) :: u64) = ucast a' \<longleftrightarrow> a = a'"
  "(ucast (b :: u16) :: u64) = ucast b' \<longleftrightarrow> b = b'"
  "(ucast (c :: u32) :: u64) = ucast c' \<longleftrightarrow> c = c'"
  by (metis narrow_widen(1), metis narrow_widen(2), metis narrow_widen(3))

lemma take_bit_of_lt: "unat (v :: u64) < 2 ^ k \<Longrightarrow> take_bit k v = v"
  by (metis take_bit_nat_eq_self unat_eq_nat_uint unsigned_take_bit_eq unsigned_word_eqI)

text \<open>The C idiom for a power of two, and masking with one less.\<close>

lemma nat_power_of_two: "0 < x \<Longrightarrow> x AND (x - 1) = 0 \<Longrightarrow> \<exists>k. x = 2 ^ k" for x :: nat
proof (induction x rule: less_induct)
  case (less x)
  show ?case
  proof (cases "even x")
    case True
    then obtain y where y: "x = 2 * y" by blast
    with less.prems(1) have "0 < y" by simp
    then obtain z where z: "y = Suc z" by (cases y) auto
    have "2 * (y AND (y - 1)) = x AND (x - 1)"
      by (subst (2) and_rec) (simp add: y z)
    with less.prems(2) have "y AND (y - 1) = 0" by simp
    with less.IH [of y] y \<open>0 < y\<close> obtain k where "y = 2 ^ k" by auto
    then show ?thesis using y by (intro exI [of _ "Suc k"]) simp
  next
    case False
    then obtain y where y: "x = 2 * y + 1" by (elim oddE)
    have "x AND (x - 1) = 2 * y" by (subst and_rec) (simp add: y)
    then show ?thesis using less.prems(2) y by (intro exI [of _ 0]) simp
  qed
qed

lemma unat_and_pred:
  fixes n s :: "'a::len word"
  assumes "n \<noteq> 0" "n AND (n - 1) = 0"
  shows "unat (s AND (n - 1)) = unat s mod unat n"
proof -
  from assms(2) have "unat n AND unat (n - 1) = 0" by (simp flip: unsigned_and_eq)
  then have "0 < unat n" "unat n AND (unat n - 1) = 0" using assms(1) by (simp_all add: unat_gt_0 unat_minus_one)
  then obtain k where k: "unat n = 2 ^ k" using nat_power_of_two by blast
  then have "unat (n - 1) = mask k" using assms(1) by (simp add: unat_minus_one mask_eq_exp_minus_1)
  then show ?thesis using k
    by (simp only: unsigned_and_eq) (simp add: take_bit_eq_mask [symmetric] take_bit_eq_mod)
qed

text \<open>Signed readings.\<close>

lemma sint_u64_small: "uint (w :: u64) < 2 ^ 63 \<Longrightarrow> sint w = uint w"
  using uint_ge_0 [of w] unfolding sint_uint by (intro signed_take_bit_int_eq_self) (simp_all add: order_trans [of _ 0] del: uint_ge_0)

lemma sint_u32_bounds: "- (2 ^ 31) \<le> sint (w :: u32)" "sint (w :: u32) < 2 ^ 31"
  using sint_greater_eq [of w] sint_less [of w] by simp_all

lemma sint_u64_bounds: "- (2 ^ 63) \<le> sint (w :: u64)" "sint (w :: u64) < 2 ^ 63"
  using sint_greater_eq [of w] sint_less [of w] by simp_all

lemma uint_word_of_int_u64: "0 \<le> i \<Longrightarrow> i < 2 ^ 64 \<Longrightarrow> uint (word_of_int i :: u64) = i"
  by (simp add: unsigned_of_int take_bit_int_eq_self)

lemma uint_u64_bounds: "0 \<le> uint (a :: u64)" "uint (a :: u64) < 2 ^ 64"
  using unsigned_less [of a, where ?'a = int] by simp_all

lemma uint_add_u64: "uint (a :: u64) + uint b < 2 ^ 64 \<Longrightarrow> uint (a + b) = uint a + uint b"
  by (simp add: uint_plus_if_size word_size)

lemma uint_widen_u32 [simp]: "uint (ucast (a :: u32) :: u64) = uint a"
  using unsigned_less [of a, where ?'a = int]
  by (simp add: unsigned_ucast_eq take_bit_int_eq_self)

lemma in_int64_sum:
  assumes "0 \<le> a" "a < 2 ^ 62" "- (2 ^ 62) \<le> d" "d < 2 ^ 62"
  shows "in_int64 (a + d)" "in_int64 (- d)" "a + d < 2 ^ 64" "- d < 2 ^ 64" "a + d < 0 \<Longrightarrow> 0 \<le> - d"
  using assms by (simp_all add: in_int64_def)

end
