(* ===== verification/Tp_Merge_Map.thy ===== *)
theory Tp_Merge_Map
  imports Tp_Prelude
begin

text \<open>
  Merge maps (src/src/common/tp_merge_map.c): the rules that say how the inputs of a joined stream
  line up, and the registry that keeps the latest announced map of each output stream. The
  registry is shown to refine a finite map from output streams to their current merge map.
\<close>

section \<open>Rules and maps\<close>

text \<open>Values of the C enumerations; a decoded field may also hold a value outside them.\<close>

definition TP_MERGE_RULE_OFFSET :: u32 where "TP_MERGE_RULE_OFFSET = 0"
definition TP_MERGE_RULE_WINDOW :: u32 where "TP_MERGE_RULE_WINDOW = 1"
definition TP_MERGE_TIME_OFFSET_NS :: u32 where "TP_MERGE_TIME_OFFSET_NS = 0"
definition TP_MERGE_TIME_WINDOW_NS :: u32 where "TP_MERGE_TIME_WINDOW_NS = 1"
definition TP_TIMESTAMP_SOURCE_FRAME_DESCRIPTOR :: u32 where "TP_TIMESTAMP_SOURCE_FRAME_DESCRIPTOR = 1"
definition TP_TIMESTAMP_SOURCE_SLOT_HEADER :: u32 where "TP_TIMESTAMP_SOURCE_SLOT_HEADER = 2"

lemmas merge_enum_defs = TP_MERGE_RULE_OFFSET_def TP_MERGE_RULE_WINDOW_def
  TP_MERGE_TIME_OFFSET_NS_def TP_MERGE_TIME_WINDOW_NS_def
  TP_TIMESTAMP_SOURCE_FRAME_DESCRIPTOR_def TP_TIMESTAMP_SOURCE_SLOT_HEADER_def

record tp_sequence_merge_rule =
  sr_input_stream_id :: u32
  sr_rule_type :: u32
  sr_offset :: u32 \<comment> \<open>int32_t, read with \<open>sint\<close>\<close>
  sr_window_size :: u32

record tp_timestamp_merge_rule =
  tr_input_stream_id :: u32
  tr_rule_type :: u32
  tr_timestamp_source :: u32
  tr_offset_ns :: u64 \<comment> \<open>int64_t, read with \<open>sint\<close>\<close>
  tr_window_ns :: u64

text \<open>
  \<open>rules\<close> and \<open>rule_count\<close> together are a list; \<open>None\<close> is a NULL \<open>rules\<close> pointer.
\<close>

record tp_sequence_merge_map =
  sm_out_stream_id :: u32
  sm_epoch :: u64
  sm_stale_timeout_ns :: u64
  sm_rules :: "tp_sequence_merge_rule list option"

record tp_timestamp_merge_map =
  tm_out_stream_id :: u32
  tm_epoch :: u64
  tm_stale_timeout_ns :: u64
  tm_clock_domain :: u8
  tm_lateness_ns :: u64
  tm_rules :: "tp_timestamp_merge_rule list option"

definition rule_list :: "'r list option \<Rightarrow> 'r list" where
  "rule_list rs = (case rs of None \<Rightarrow> [] | Some l \<Rightarrow> l)"

lemma rule_list_simps [simp]: "rule_list (Some l) = l" "rule_list None = []"
  by (simp_all add: rule_list_def)

definition tp_sequence_rule_valid :: "tp_sequence_merge_rule \<Rightarrow> bool" where
  "tp_sequence_rule_valid r =
     (if sr_rule_type r = TP_MERGE_RULE_OFFSET then True
      else if sr_rule_type r = TP_MERGE_RULE_WINDOW then sr_window_size r \<noteq> 0
      else False)"

definition tp_timestamp_rule_valid :: "tp_timestamp_merge_rule \<Rightarrow> bool" where
  "tp_timestamp_rule_valid r =
     (if tr_timestamp_source r \<noteq> TP_TIMESTAMP_SOURCE_FRAME_DESCRIPTOR \<and>
         tr_timestamp_source r \<noteq> TP_TIMESTAMP_SOURCE_SLOT_HEADER then False
      else if tr_rule_type r = TP_MERGE_TIME_OFFSET_NS then True
      else if tr_rule_type r = TP_MERGE_TIME_WINDOW_NS then tr_window_ns r \<noteq> 0
      else False)"

section \<open>The registry\<close>

definition TP_MERGE_MAP_SEQUENCE :: u32 where "TP_MERGE_MAP_SEQUENCE = 1"
definition TP_MERGE_MAP_TIMESTAMP :: u32 where "TP_MERGE_MAP_TIMESTAMP = 2"

text \<open>
  An entry owns a copy of the announced rules; the \<open>rules\<close> pointer of its map points to that
  copy, so both fields hold the same list.
\<close>

record tp_merge_map_entry =
  me_in_use :: bool
  me_kind :: u32
  me_out_stream_id :: u32
  me_epoch :: u64
  me_last_announce_ns :: u64
  me_sequence_rules :: "tp_sequence_merge_rule list option"
  me_timestamp_rules :: "tp_timestamp_merge_rule list option"
  me_rule_count :: nat
  me_sequence_map :: tp_sequence_merge_map
  me_timestamp_map :: tp_timestamp_merge_map

text \<open>The array \<open>entries\<close> of \<open>capacity\<close> elements; a closed registry has none.\<close>

record tp_merge_map_registry =
  mr_entries :: "tp_merge_map_entry list"

text \<open>\<open>memset(entry, 0, sizeof(*entry))\<close>, after the owned rule arrays are freed.\<close>

definition zero_entry :: tp_merge_map_entry where
  "zero_entry =
     \<lparr>me_in_use = False, me_kind = 0, me_out_stream_id = 0, me_epoch = 0, me_last_announce_ns = 0,
      me_sequence_rules = None, me_timestamp_rules = None, me_rule_count = 0,
      me_sequence_map = \<lparr>sm_out_stream_id = 0, sm_epoch = 0, sm_stale_timeout_ns = 0, sm_rules = None\<rparr>,
      me_timestamp_map = \<lparr>tm_out_stream_id = 0, tm_epoch = 0, tm_stale_timeout_ns = 0, tm_clock_domain = 0,
        tm_lateness_ns = 0, tm_rules = None\<rparr>\<rparr>"

definition tp_merge_map_entry_clear :: "tp_merge_map_entry \<Rightarrow> tp_merge_map_entry" where
  "tp_merge_map_entry_clear entry = zero_entry"

text \<open>
  \<open>aeron_alloc n\<close> is the allocator of the Aeron library applied to an array of \<open>n\<close>
  entries: the array it returns, or \<open>None\<close> when it fails.
\<close>

definition tp_merge_map_registry_init ::
  "(nat \<Rightarrow> tp_merge_map_entry list option) \<Rightarrow> nat \<Rightarrow> tp_merge_map_registry res" where
  "tp_merge_map_registry_init aeron_alloc capacity =
     guard (capacity = 0) (EINVAL ''tp_merge_map_registry_init: invalid input'')
       (case aeron_alloc capacity of
          None \<Rightarrow> Inl FAIL
        | Some entries \<Rightarrow> Inr \<lparr>mr_entries = entries\<rparr>)"

definition tp_merge_map_registry_close :: "tp_merge_map_registry \<Rightarrow> tp_merge_map_registry" where
  "tp_merge_map_registry_close registry = registry\<lparr>mr_entries := []\<rparr>"

definition tp_merge_map_registry_find_entry ::
  "tp_merge_map_registry \<Rightarrow> u32 \<Rightarrow> u32 \<Rightarrow> u64 \<Rightarrow> nat option" where
  "tp_merge_map_registry_find_entry registry kind out_stream_id epoch =
     find_index (\<lambda>entry. me_in_use entry \<and> me_kind entry = kind \<and>
         me_out_stream_id entry = out_stream_id \<and> me_epoch entry = epoch)
       (mr_entries registry)"

text \<open>
  The loop of \<open>tp_merge_map_registry_find_slot\<close>: the index of the entry in use for this stream
  and epoch, or else the first free entry, which \<open>slot\<close> remembers.
\<close>

fun find_slot_loop ::
  "u32 \<Rightarrow> u32 \<Rightarrow> u64 \<Rightarrow> nat \<Rightarrow> nat option \<Rightarrow> tp_merge_map_entry list \<Rightarrow> nat option" where
  "find_slot_loop kind out_stream_id epoch i slot [] = slot"
| "find_slot_loop kind out_stream_id epoch i slot (entry # entries) =
     (if me_in_use entry then
        (if me_kind entry = kind \<and> me_out_stream_id entry = out_stream_id \<and> me_epoch entry = epoch
         then Some i
         else find_slot_loop kind out_stream_id epoch (Suc i) slot entries)
      else find_slot_loop kind out_stream_id epoch (Suc i)
             (case slot of None \<Rightarrow> Some i | Some k \<Rightarrow> Some k) entries)"

definition tp_merge_map_registry_find_slot ::
  "tp_merge_map_registry \<Rightarrow> u32 \<Rightarrow> u32 \<Rightarrow> u64 \<Rightarrow> nat option" where
  "tp_merge_map_registry_find_slot registry kind out_stream_id epoch =
     find_slot_loop kind out_stream_id epoch 0 None (mr_entries registry)"

definition tp_merge_map_registry_invalidate_stream ::
  "tp_merge_map_registry \<Rightarrow> u32 \<Rightarrow> u32 \<Rightarrow> u64 \<Rightarrow> tp_merge_map_registry" where
  "tp_merge_map_registry_invalidate_stream registry kind out_stream_id epoch =
     registry\<lparr>mr_entries := map (\<lambda>entry.
       if me_in_use entry \<and> me_kind entry = kind \<and> me_out_stream_id entry = out_stream_id \<and>
          me_epoch entry \<noteq> epoch
       then tp_merge_map_entry_clear entry else entry) (mr_entries registry)\<rparr>"

text \<open>
  The rules of an empty map are not copied, and the stored pointer is NULL. \<open>alloc_ok\<close>: the
  allocation of the rule array succeeds. The registry is returned on the error paths too, since
  the older epochs of the stream, and the reserved entry, are cleared before they are reached.
\<close>

definition stored_rules :: "'r list \<Rightarrow> 'r list option" where
  "stored_rules rules = (if rules = [] then None else Some rules)"

definition tp_merge_map_registry_upsert_sequence ::
  "bool \<Rightarrow> tp_merge_map_registry \<Rightarrow> tp_sequence_merge_map \<Rightarrow> u64 \<Rightarrow> tp_merge_map_registry \<times> unit res" where
  "tp_merge_map_registry_upsert_sequence alloc_ok registry mm now_ns =
     (case sm_rules mm of
        None \<Rightarrow> (registry, Inl (EINVAL ''tp_merge_map_registry_upsert_sequence: null input''))
      | Some rules \<Rightarrow>
        (let registry = tp_merge_map_registry_invalidate_stream registry TP_MERGE_MAP_SEQUENCE
               (sm_out_stream_id mm) (sm_epoch mm)
         in case tp_merge_map_registry_find_slot registry TP_MERGE_MAP_SEQUENCE
               (sm_out_stream_id mm) (sm_epoch mm) of
           None \<Rightarrow> (registry, Inl (ENOMEM ''tp_merge_map_registry_upsert_sequence: registry full''))
         | Some i \<Rightarrow>
           (let entry = tp_merge_map_entry_clear (mr_entries registry ! i)
            in if rules \<noteq> [] \<and> \<not> alloc_ok
               then (registry\<lparr>mr_entries := (mr_entries registry)[i := entry]\<rparr>, Inl FAIL)
               else (registry\<lparr>mr_entries := (mr_entries registry)[i := entry
                       \<lparr>me_in_use := True, me_kind := TP_MERGE_MAP_SEQUENCE,
                        me_out_stream_id := sm_out_stream_id mm, me_epoch := sm_epoch mm,
                        me_last_announce_ns := now_ns, me_sequence_rules := stored_rules rules,
                        me_rule_count := length rules,
                        me_sequence_map := mm\<lparr>sm_rules := stored_rules rules\<rparr>\<rparr>]\<rparr>, Inr ()))))"

definition tp_merge_map_registry_upsert_timestamp ::
  "bool \<Rightarrow> tp_merge_map_registry \<Rightarrow> tp_timestamp_merge_map \<Rightarrow> u64 \<Rightarrow> tp_merge_map_registry \<times> unit res" where
  "tp_merge_map_registry_upsert_timestamp alloc_ok registry mm now_ns =
     (case tm_rules mm of
        None \<Rightarrow> (registry, Inl (EINVAL ''tp_merge_map_registry_upsert_timestamp: null input''))
      | Some rules \<Rightarrow>
        (let registry = tp_merge_map_registry_invalidate_stream registry TP_MERGE_MAP_TIMESTAMP
               (tm_out_stream_id mm) (tm_epoch mm)
         in case tp_merge_map_registry_find_slot registry TP_MERGE_MAP_TIMESTAMP
               (tm_out_stream_id mm) (tm_epoch mm) of
           None \<Rightarrow> (registry, Inl (ENOMEM ''tp_merge_map_registry_upsert_timestamp: registry full''))
         | Some i \<Rightarrow>
           (let entry = tp_merge_map_entry_clear (mr_entries registry ! i)
            in if rules \<noteq> [] \<and> \<not> alloc_ok
               then (registry\<lparr>mr_entries := (mr_entries registry)[i := entry]\<rparr>, Inl FAIL)
               else (registry\<lparr>mr_entries := (mr_entries registry)[i := entry
                       \<lparr>me_in_use := True, me_kind := TP_MERGE_MAP_TIMESTAMP,
                        me_out_stream_id := tm_out_stream_id mm, me_epoch := tm_epoch mm,
                        me_last_announce_ns := now_ns, me_timestamp_rules := stored_rules rules,
                        me_rule_count := length rules,
                        me_timestamp_map := mm\<lparr>tm_rules := stored_rules rules\<rparr>\<rparr>]\<rparr>, Inr ()))))"

definition tp_merge_map_registry_find_sequence ::
  "tp_merge_map_registry \<Rightarrow> u32 \<Rightarrow> u64 \<Rightarrow> tp_sequence_merge_map option" where
  "tp_merge_map_registry_find_sequence registry out_stream_id epoch =
     map_option (\<lambda>i. me_sequence_map (mr_entries registry ! i))
       (tp_merge_map_registry_find_entry registry TP_MERGE_MAP_SEQUENCE out_stream_id epoch)"

definition tp_merge_map_registry_find_timestamp ::
  "tp_merge_map_registry \<Rightarrow> u32 \<Rightarrow> u64 \<Rightarrow> tp_timestamp_merge_map option" where
  "tp_merge_map_registry_find_timestamp registry out_stream_id epoch =
     map_option (\<lambda>i. me_timestamp_map (mr_entries registry ! i))
       (tp_merge_map_registry_find_entry registry TP_MERGE_MAP_TIMESTAMP out_stream_id epoch)"

section \<open>The registry invariant\<close>

definition serves :: "u32 \<Rightarrow> u32 \<Rightarrow> tp_merge_map_entry \<Rightarrow> bool" where
  "serves kind s entry \<longleftrightarrow> me_in_use entry \<and> me_kind entry = kind \<and> me_out_stream_id entry = s"

text \<open>An entry in use describes the map it holds.\<close>

definition entry_consistent :: "tp_merge_map_entry \<Rightarrow> bool" where
  "entry_consistent entry \<longleftrightarrow>
     (me_kind entry = TP_MERGE_MAP_SEQUENCE \<and> sm_out_stream_id (me_sequence_map entry) = me_out_stream_id entry \<and>
        sm_epoch (me_sequence_map entry) = me_epoch entry \<and> sm_rules (me_sequence_map entry) = me_sequence_rules entry \<and>
        me_rule_count entry = length (rule_list (me_sequence_rules entry))) \<or>
     (me_kind entry = TP_MERGE_MAP_TIMESTAMP \<and> tm_out_stream_id (me_timestamp_map entry) = me_out_stream_id entry \<and>
        tm_epoch (me_timestamp_map entry) = me_epoch entry \<and> tm_rules (me_timestamp_map entry) = me_timestamp_rules entry \<and>
        me_rule_count entry = length (rule_list (me_timestamp_rules entry)))"

text \<open>No two entries in use are for the same kind and stream, and every one is consistent.\<close>

definition entries_ok :: "tp_merge_map_entry list \<Rightarrow> bool" where
  "entries_ok es \<longleftrightarrow>
     (\<forall>i<length es. \<forall>j<length es. me_in_use (es ! i) \<and> me_in_use (es ! j) \<and> me_kind (es ! i) = me_kind (es ! j) \<and>
        me_out_stream_id (es ! i) = me_out_stream_id (es ! j) \<longrightarrow> i = j) \<and>
     (\<forall>entry\<in>set es. me_in_use entry \<longrightarrow> entry_consistent entry)"

definition registry_ok :: "tp_merge_map_registry \<Rightarrow> bool" where
  "registry_ok registry \<longleftrightarrow> entries_ok (mr_entries registry)"

text \<open>The abstract state: the entry that currently serves a stream.\<close>

definition stream_entry :: "u32 \<Rightarrow> tp_merge_map_entry list \<Rightarrow> u32 \<Rightarrow> tp_merge_map_entry option" where
  "stream_entry kind es s = List.find (serves kind s) es"

lemma not_in_use_zero [simp]: "\<not> me_in_use zero_entry"
  by (simp add: zero_entry_def)

lemma not_in_use_clear [simp]: "\<not> me_in_use (tp_merge_map_entry_clear entry)"
  by (simp add: tp_merge_map_entry_clear_def)

lemma not_serves_clear [simp]: "\<not> serves kind s (tp_merge_map_entry_clear entry)"
  by (simp add: serves_def)

lemma entries_ok_first:
  assumes "entries_ok es" "i < length es" "serves kind s (es ! i)" "j < i"
  shows "\<not> serves kind s (es ! j)"
proof
  assume "serves kind s (es ! j)"
  with assms have "j = i" by (auto simp: entries_ok_def serves_def)
  with assms(4) show False by simp
qed

lemma stream_entry_Some:
  "entries_ok es \<Longrightarrow> stream_entry kind es s = Some x \<longleftrightarrow> x \<in> set es \<and> serves kind s x"
proof
  assume "stream_entry kind es s = Some x"
  then show "x \<in> set es \<and> serves kind s x"
    by (auto simp: stream_entry_def find_Some_iff)
next
  assume ok: "entries_ok es" and x: "x \<in> set es \<and> serves kind s x"
  then obtain i where i: "i < length es" "es ! i = x" by (auto simp: in_set_conv_nth)
  have "\<not> serves kind s (es ! j)" if "j < i" for j
    using entries_ok_first [OF ok i(1)] x i(2) that by blast
  with i x show "stream_entry kind es s = Some x"
    by (auto simp: stream_entry_def find_Some_iff)
qed

lemma stream_entry_None: "stream_entry kind es s = None \<longleftrightarrow> (\<forall>x\<in>set es. \<not> serves kind s x)"
  by (auto simp: stream_entry_def find_None_iff)

lemma find_slot_loop_eq:
  "find_slot_loop kind s e i slot es =
     (case find_index (\<lambda>x. serves kind s x \<and> me_epoch x = e) es of
        Some j \<Rightarrow> Some (i + j)
      | None \<Rightarrow> (case slot of Some k \<Rightarrow> Some k
                 | None \<Rightarrow> map_option (\<lambda>j. i + j) (find_index (\<lambda>x. \<not> me_in_use x) es)))"
  by (induction es arbitrary: i slot)
    (auto simp: serves_def option.map_comp comp_def simp del: find_index_None split: option.splits
      intro!: option.map_cong0)

definition invalidated :: "u32 \<Rightarrow> u32 \<Rightarrow> u64 \<Rightarrow> tp_merge_map_entry list \<Rightarrow> tp_merge_map_entry list" where
  "invalidated kind s e es =
     map (\<lambda>x. if serves kind s x \<and> me_epoch x \<noteq> e then tp_merge_map_entry_clear x else x) es"

lemma mr_entries_invalidate [simp]:
  "mr_entries (tp_merge_map_registry_invalidate_stream registry kind s e) =
     invalidated kind s e (mr_entries registry)"
  by (simp add: tp_merge_map_registry_invalidate_stream_def invalidated_def serves_def conj_assoc)

lemma length_invalidated [simp]: "length (invalidated kind s e es) = length es"
  by (simp add: invalidated_def)

lemma invalidated_in_use:
  "i < length es \<Longrightarrow> me_in_use (invalidated kind s e es ! i) \<longleftrightarrow>
     me_in_use (es ! i) \<and> (serves kind s (es ! i) \<longrightarrow> me_epoch (es ! i) = e)"
  by (auto simp: invalidated_def)

lemma invalidated_same:
  "i < length es \<Longrightarrow> me_in_use (invalidated kind s e es ! i) \<Longrightarrow> invalidated kind s e es ! i = es ! i"
  by (auto simp: invalidated_def split: if_splits)

lemma invalidated_ok: "entries_ok es \<Longrightarrow> entries_ok (invalidated kind s e es)"
  unfolding entries_ok_def
  by (auto simp: invalidated_same all_set_conv_all_nth) (metis invalidated_in_use invalidated_same)+

lemma invalidated_epoch: "x \<in> set (invalidated kind s e es) \<Longrightarrow> serves kind s x \<Longrightarrow> me_epoch x = e"
  by (auto simp: invalidated_def)

lemma invalidated_other:
  "(kind', s') \<noteq> (kind, s) \<Longrightarrow> x \<in> set (invalidated kind s e es) \<and> serves kind' s' x \<longleftrightarrow> x \<in> set es \<and> serves kind' s' x"
  by (auto simp: invalidated_def serves_def image_iff)

lemma stream_entry_invalidated_other:
  "entries_ok es \<Longrightarrow> (kind', s') \<noteq> (kind, s) \<Longrightarrow>
   stream_entry kind' (invalidated kind s e es) s' = stream_entry kind' es s'"
  by (rule option_eqI) (simp add: stream_entry_Some invalidated_ok invalidated_other [of kind' s' kind s])

text \<open>
  \<open>slot_for kind s es i\<close>: entry \<open>i\<close> may be given to the stream, because it is free or
  already serves the stream, and no other entry serves it.
\<close>

definition slot_for :: "u32 \<Rightarrow> u32 \<Rightarrow> tp_merge_map_entry list \<Rightarrow> nat \<Rightarrow> bool" where
  "slot_for kind s es i \<longleftrightarrow> i < length es \<and> (me_in_use (es ! i) \<longrightarrow> serves kind s (es ! i)) \<and>
     (\<forall>j<length es. serves kind s (es ! j) \<longrightarrow> j = i)"

lemma find_slot_slot_for:
  assumes "entries_ok es" "find_slot_loop kind s e 0 None (invalidated kind s e es) = Some i"
  shows "slot_for kind s (invalidated kind s e es) i"
proof -
  let ?es = "invalidated kind s e es"
  let ?own = "\<lambda>x. serves kind s x \<and> me_epoch x = e"
  have ok: "entries_ok ?es" using assms(1) by (rule invalidated_ok)
  consider (own) "find_index ?own ?es = Some i"
    | (free) "find_index ?own ?es = None" "find_index (\<lambda>x. \<not> me_in_use x) ?es = Some i"
    using assms(2) by (auto simp: find_slot_loop_eq simp del: find_index_None split: option.splits)
  then show ?thesis
  proof cases
    case own
    with ok find_index_Some [OF own] show ?thesis by (auto simp: slot_for_def entries_ok_def serves_def)
  next
    case free
    with find_index_Some [OF free(2)] show ?thesis
      by (auto simp: slot_for_def) (metis invalidated_epoch length_invalidated nth_mem)
  qed
qed

lemma find_slot_None:
  "find_slot_loop kind s e 0 None (invalidated kind s e es) = None \<longleftrightarrow>
     (\<forall>x\<in>set es. me_in_use x \<and> \<not> serves kind s x)"
proof -
  let ?es = "invalidated kind s e es"
  have "find_slot_loop kind s e 0 None ?es = None \<longleftrightarrow>
      find_index (\<lambda>x. serves kind s x \<and> me_epoch x = e) ?es = None \<and> find_index (\<lambda>x. \<not> me_in_use x) ?es = None"
    by (simp add: find_slot_loop_eq del: find_index_None split: option.splits)
  also have "\<dots> \<longleftrightarrow> (\<forall>x\<in>set es. me_in_use x \<and> \<not> serves kind s x)"
    unfolding find_index_None invalidated_def list_all_iff [symmetric] list.pred_map
    by (auto simp: list_all_iff)
  finally show ?thesis .
qed

lemma entries_ok_update:
  assumes "entries_ok es" "slot_for kind s es i" "serves kind s x \<and> entry_consistent x \<or> \<not> me_in_use x"
  shows "entries_ok (es[i := x])"
proof -
  have i: "i < length es" "me_in_use (es ! i) \<Longrightarrow> serves kind s (es ! i)"
      "\<And>j. j < length es \<Longrightarrow> serves kind s (es ! j) \<Longrightarrow> j = i"
    using assms(2) by (auto simp: slot_for_def)
  have "me_in_use (es[i := x] ! a) \<and> me_in_use (es[i := x] ! b) \<and> me_kind (es[i := x] ! a) = me_kind (es[i := x] ! b) \<and>
      me_out_stream_id (es[i := x] ! a) = me_out_stream_id (es[i := x] ! b) \<longrightarrow> a = b"
    if "a < length es" "b < length es" for a b
  proof -
    have unique: "me_in_use (es ! a) \<and> me_in_use (es ! b) \<and> me_kind (es ! a) = me_kind (es ! b) \<and>
        me_out_stream_id (es ! a) = me_out_stream_id (es ! b) \<longrightarrow> a = b"
      using assms(1) that unfolding entries_ok_def by blast
    have other: "serves kind s (es ! a) \<longrightarrow> a = i" "serves kind s (es ! b) \<longrightarrow> b = i"
      using i(3) that by blast+
    consider "a = i" "b = i" | "a = i" "b \<noteq> i" | "a \<noteq> i" "b = i" | "a \<noteq> i" "b \<noteq> i" by blast
    then show ?thesis
    proof cases
      case 2
      then have "\<not> serves kind s (es ! b)" using other(2) by blast
      with 2 assms(3) i(1) show ?thesis by (auto simp: serves_def)
    next
      case 3
      then have "\<not> serves kind s (es ! a)" using other(1) by blast
      with 3 assms(3) i(1) show ?thesis by (auto simp: serves_def)
    qed (use unique in simp_all)
  qed
  moreover have "me_in_use y \<longrightarrow> entry_consistent y" if "y \<in> set (es[i := x])" for y
    using set_update_subset_insert [of es i x] that assms(1,3) by (auto simp: entries_ok_def)
  ultimately show ?thesis unfolding entries_ok_def by simp
qed

lemma stream_entry_update:
  assumes "entries_ok es" "slot_for kind s es i" "serves kind s x \<and> entry_consistent x \<or> \<not> me_in_use x"
  shows "stream_entry kind' (es[i := x]) s' =
    (if kind' = kind \<and> s' = s then (if me_in_use x then Some x else None) else stream_entry kind' es s')"
proof (rule option_eqI)
  fix y
  note ok = entries_ok_update [OF assms]
  have i: "i < length es" "me_in_use (es ! i) \<longrightarrow> serves kind s (es ! i)"
    using assms(2) by (auto simp: slot_for_def)
  have mem: "y \<in> set (es[i := x]) \<longleftrightarrow> y = x \<or> (\<exists>j<length es. j \<noteq> i \<and> es ! j = y)"
    using i(1) by (auto simp: in_set_conv_nth nth_list_update)
  show "stream_entry kind' (es[i := x]) s' = Some y \<longleftrightarrow>
    (if kind' = kind \<and> s' = s then (if me_in_use x then Some x else None) else stream_entry kind' es s') = Some y"
  proof (cases "kind' = kind \<and> s' = s")
    case True
    have "\<not> serves kind s y" if "j < length es" "j \<noteq> i" "es ! j = y" for j
      using assms(2) that by (auto simp: slot_for_def)
    with True assms(3) show ?thesis unfolding stream_entry_Some [OF ok] mem by (auto simp: serves_def)
  next
    case False
    then have "serves kind' s' z \<Longrightarrow> \<not> serves kind s z" for z by (auto simp: serves_def)
    with False i assms(3) show ?thesis
      unfolding stream_entry_Some [OF ok] mem using stream_entry_Some [OF assms(1), of kind' s' y]
      by (auto simp: in_set_conv_nth serves_def)
  qed
qed

lemmas upsert_facts = stream_entry_update entries_ok_update find_slot_slot_for invalidated_ok
  stream_entry_invalidated_other

text \<open>The effect of either upsert on the entries: what the stream is served by afterwards.\<close>

lemma reserve_stream_entry:
  assumes "entries_ok es" "find_slot_loop kind s e 0 None (invalidated kind s e es) = Some i"
    and "serves kind s x \<and> entry_consistent x \<or> \<not> me_in_use x"
  shows "entries_ok ((invalidated kind s e es)[i := x])"
    and "stream_entry kind' ((invalidated kind s e es)[i := x]) s' =
      (if kind' = kind \<and> s' = s then (if me_in_use x then Some x else None) else stream_entry kind' es s')"
  using stream_entry_update [OF invalidated_ok [OF assms(1)] find_slot_slot_for [OF assms(1,2)] assms(3)]
    entries_ok_update [OF invalidated_ok [OF assms(1)] find_slot_slot_for [OF assms(1,2)] assms(3)]
    stream_entry_invalidated_other [OF assms(1), of kind' s' kind s e]
  by auto

lemma full_stream_entry:
  assumes "entries_ok es" "find_slot_loop kind s e 0 None (invalidated kind s e es) = None"
  shows "stream_entry kind' (invalidated kind s e es) s' = (if kind' = kind \<and> s' = s then None else stream_entry kind' es s')"
proof -
  have "invalidated kind s e es = es"
    using assms(2) unfolding find_slot_None by (auto simp: invalidated_def intro: map_idI)
  with assms(2) show ?thesis unfolding find_slot_None by (auto simp: stream_entry_None)
qed

section \<open>Refinement to a map of streams\<close>

definition current_sequence :: "tp_merge_map_registry \<Rightarrow> u32 \<Rightarrow> tp_sequence_merge_map option" where
  "current_sequence registry s =
     map_option me_sequence_map (stream_entry TP_MERGE_MAP_SEQUENCE (mr_entries registry) s)"

definition current_timestamp :: "tp_merge_map_registry \<Rightarrow> u32 \<Rightarrow> tp_timestamp_merge_map option" where
  "current_timestamp registry s =
     map_option me_timestamp_map (stream_entry TP_MERGE_MAP_TIMESTAMP (mr_entries registry) s)"

definition stored_sequence :: "tp_sequence_merge_map \<Rightarrow> tp_sequence_merge_map" where
  "stored_sequence mm = mm\<lparr>sm_rules := stored_rules (rule_list (sm_rules mm))\<rparr>"

definition stored_timestamp :: "tp_timestamp_merge_map \<Rightarrow> tp_timestamp_merge_map" where
  "stored_timestamp mm = mm\<lparr>tm_rules := stored_rules (rule_list (tm_rules mm))\<rparr>"

text \<open>
  What an upsert does to the map of one kind: a stream gets the announced map, loses its map when
  the announce fails after older epochs were invalidated, or keeps it when the announce is
  rejected outright.
\<close>

definition announce_spec :: "u32 \<Rightarrow> 'm \<Rightarrow> bool \<Rightarrow> unit res \<Rightarrow> (u32 \<Rightarrow> 'm option) \<Rightarrow> u32 \<Rightarrow> 'm option" where
  "announce_spec s m rejected r f =
     (case r of Inr _ \<Rightarrow> f(s \<mapsto> m) | Inl _ \<Rightarrow> if rejected then f else f(s := None))"

lemma length_stored_rules [simp]: "rule_list (stored_rules rules) = rules"
  by (simp add: stored_rules_def)

lemma kinds_differ [simp]: "TP_MERGE_MAP_SEQUENCE \<noteq> TP_MERGE_MAP_TIMESTAMP"
    "TP_MERGE_MAP_TIMESTAMP \<noteq> TP_MERGE_MAP_SEQUENCE"
  by (simp_all add: TP_MERGE_MAP_SEQUENCE_def TP_MERGE_MAP_TIMESTAMP_def)

lemma upsert_sequence_step:
  assumes "registry_ok r" "tp_merge_map_registry_upsert_sequence a r mm t = (r', res)"
  shows "registry_ok r' \<and> current_timestamp r' = current_timestamp r \<and>
    current_sequence r' = announce_spec (sm_out_stream_id mm) (stored_sequence mm) (sm_rules mm = None) res (current_sequence r)"
proof (cases "sm_rules mm")
  case None
  with assms show ?thesis
    by (auto simp: tp_merge_map_registry_upsert_sequence_def announce_spec_def)
next
  case (Some rules)
  let ?s = "sm_out_stream_id mm" and ?e = "sm_epoch mm" and ?k = TP_MERGE_MAP_SEQUENCE
  have ok: "entries_ok (mr_entries r)" using assms(1) by (simp add: registry_ok_def)
  show ?thesis
  proof (cases "find_slot_loop ?k ?s ?e 0 None (invalidated ?k ?s ?e (mr_entries r))")
    case None
    with assms(2) Some have "res = Inl (ENOMEM ''tp_merge_map_registry_upsert_sequence: registry full'')"
      "mr_entries r' = invalidated ?k ?s ?e (mr_entries r)"
      by (auto simp: tp_merge_map_registry_upsert_sequence_def tp_merge_map_registry_find_slot_def Let_def)
    with Some None ok show ?thesis
      by (auto simp: registry_ok_def current_sequence_def current_timestamp_def announce_spec_def
          full_stream_entry invalidated_ok)
  next
    case (Some i)
    with assms(2) \<open>sm_rules mm = Some rules\<close> obtain x where
      x: "mr_entries r' = (invalidated ?k ?s ?e (mr_entries r))[i := x]"
      and disj: "serves ?k ?s x \<and> entry_consistent x \<and> me_sequence_map x = stored_sequence mm \<and> res = Inr () \<or>
        \<not> me_in_use x \<and> res = Inl FAIL"
      by (auto simp: tp_merge_map_registry_upsert_sequence_def tp_merge_map_registry_find_slot_def Let_def
          serves_def entry_consistent_def stored_sequence_def split: if_splits)
    have x': "serves ?k ?s x \<and> entry_consistent x \<or> \<not> me_in_use x" using disj by blast
    note step = reserve_stream_entry [OF ok Some x']
    show ?thesis using disj step \<open>sm_rules mm = Some rules\<close>
      by (auto simp: registry_ok_def current_sequence_def current_timestamp_def announce_spec_def x serves_def)
  qed
qed

lemma upsert_timestamp_step:
  assumes "registry_ok r" "tp_merge_map_registry_upsert_timestamp a r mm t = (r', res)"
  shows "registry_ok r' \<and> current_sequence r' = current_sequence r \<and>
    current_timestamp r' = announce_spec (tm_out_stream_id mm) (stored_timestamp mm) (tm_rules mm = None) res (current_timestamp r)"
proof (cases "tm_rules mm")
  case None
  with assms show ?thesis
    by (auto simp: tp_merge_map_registry_upsert_timestamp_def announce_spec_def)
next
  case (Some rules)
  let ?s = "tm_out_stream_id mm" and ?e = "tm_epoch mm" and ?k = TP_MERGE_MAP_TIMESTAMP
  have ok: "entries_ok (mr_entries r)" using assms(1) by (simp add: registry_ok_def)
  show ?thesis
  proof (cases "find_slot_loop ?k ?s ?e 0 None (invalidated ?k ?s ?e (mr_entries r))")
    case None
    with assms(2) Some have "res = Inl (ENOMEM ''tp_merge_map_registry_upsert_timestamp: registry full'')"
      "mr_entries r' = invalidated ?k ?s ?e (mr_entries r)"
      by (auto simp: tp_merge_map_registry_upsert_timestamp_def tp_merge_map_registry_find_slot_def Let_def)
    with Some None ok show ?thesis
      by (auto simp: registry_ok_def current_sequence_def current_timestamp_def announce_spec_def
          full_stream_entry invalidated_ok)
  next
    case (Some i)
    with assms(2) \<open>tm_rules mm = Some rules\<close> obtain x where
      x: "mr_entries r' = (invalidated ?k ?s ?e (mr_entries r))[i := x]"
      and disj: "serves ?k ?s x \<and> entry_consistent x \<and> me_timestamp_map x = stored_timestamp mm \<and> res = Inr () \<or>
        \<not> me_in_use x \<and> res = Inl FAIL"
      by (auto simp: tp_merge_map_registry_upsert_timestamp_def tp_merge_map_registry_find_slot_def Let_def
          serves_def entry_consistent_def stored_timestamp_def split: if_splits)
    have x': "serves ?k ?s x \<and> entry_consistent x \<or> \<not> me_in_use x" using disj by blast
    note step = reserve_stream_entry [OF ok Some x']
    show ?thesis using disj step \<open>tm_rules mm = Some rules\<close>
      by (auto simp: registry_ok_def current_sequence_def current_timestamp_def announce_spec_def x serves_def)
  qed
qed

lemma find_entry_stream_entry:
  assumes "entries_ok (mr_entries r)"
  shows "map_option (\<lambda>i. mr_entries r ! i) (tp_merge_map_registry_find_entry r kind s e) =
    (case stream_entry kind (mr_entries r) s of Some x \<Rightarrow> if me_epoch x = e then Some x else None | None \<Rightarrow> None)"
    (is "?found = ?current")
proof (rule option_eqI)
  fix x
  have "?current = Some x \<longleftrightarrow> stream_entry kind (mr_entries r) s = Some x \<and> me_epoch x = e"
    by (auto split: option.splits)
  also have "\<dots> \<longleftrightarrow> x \<in> set (mr_entries r) \<and> serves kind s x \<and> me_epoch x = e"
    using stream_entry_Some [OF assms, of kind s x] by blast
  also have "\<dots> \<longleftrightarrow> ?found = Some x"
  proof
    assume x: "x \<in> set (mr_entries r) \<and> serves kind s x \<and> me_epoch x = e"
    then obtain i where i: "i < length (mr_entries r)" "mr_entries r ! i = x" by (auto simp: in_set_conv_nth)
    have "find_index (\<lambda>x. serves kind s x \<and> me_epoch x = e) (mr_entries r) = Some i"
      by (rule find_index_SomeI) (use i x entries_ok_first [OF assms i(1)] in auto)
    with i show "?found = Some x" by (simp add: tp_merge_map_registry_find_entry_def serves_def)
  next
    assume "?found = Some x"
    then show "x \<in> set (mr_entries r) \<and> serves kind s x \<and> me_epoch x = e"
      by (auto simp: tp_merge_map_registry_find_entry_def serves_def dest!: find_index_Some)
  qed
  finally show "?found = Some x \<longleftrightarrow> ?current = Some x" by simp
qed

text \<open>A lookup returns the current map of the stream when it is of the epoch asked for.\<close>

definition at_epoch :: "('m \<Rightarrow> u64) \<Rightarrow> u64 \<Rightarrow> 'm option \<Rightarrow> 'm option" where
  "at_epoch ep e mo = (case mo of Some m \<Rightarrow> if ep m = e then Some m else None | None \<Rightarrow> None)"

lemma sequence_entry_epoch:
  "registry_ok r \<Longrightarrow> stream_entry TP_MERGE_MAP_SEQUENCE (mr_entries r) s = Some x \<Longrightarrow> sm_epoch (me_sequence_map x) = me_epoch x"
  using stream_entry_Some [of "mr_entries r" TP_MERGE_MAP_SEQUENCE s x]
  by (auto simp: registry_ok_def entries_ok_def serves_def entry_consistent_def)

lemma timestamp_entry_epoch:
  "registry_ok r \<Longrightarrow> stream_entry TP_MERGE_MAP_TIMESTAMP (mr_entries r) s = Some x \<Longrightarrow> tm_epoch (me_timestamp_map x) = me_epoch x"
  using stream_entry_Some [of "mr_entries r" TP_MERGE_MAP_TIMESTAMP s x]
  by (auto simp: registry_ok_def entries_ok_def serves_def entry_consistent_def)

lemma find_sequence_current:
  assumes "registry_ok r"
  shows "tp_merge_map_registry_find_sequence r s e = at_epoch sm_epoch e (current_sequence r s)"
proof -
  have "tp_merge_map_registry_find_sequence r s e = map_option me_sequence_map
      (map_option (\<lambda>i. mr_entries r ! i) (tp_merge_map_registry_find_entry r TP_MERGE_MAP_SEQUENCE s e))"
    by (simp add: tp_merge_map_registry_find_sequence_def option.map_comp comp_def)
  also have "\<dots> = at_epoch sm_epoch e (current_sequence r s)"
    using assms find_entry_stream_entry [of r] sequence_entry_epoch [OF assms, of s]
    by (auto simp: registry_ok_def current_sequence_def at_epoch_def split: option.splits)
  finally show ?thesis .
qed

lemma find_timestamp_current:
  assumes "registry_ok r"
  shows "tp_merge_map_registry_find_timestamp r s e = at_epoch tm_epoch e (current_timestamp r s)"
proof -
  have "tp_merge_map_registry_find_timestamp r s e = map_option me_timestamp_map
      (map_option (\<lambda>i. mr_entries r ! i) (tp_merge_map_registry_find_entry r TP_MERGE_MAP_TIMESTAMP s e))"
    by (simp add: tp_merge_map_registry_find_timestamp_def option.map_comp comp_def)
  also have "\<dots> = at_epoch tm_epoch e (current_timestamp r s)"
    using assms find_entry_stream_entry [of r] timestamp_entry_epoch [OF assms, of s]
    by (auto simp: registry_ok_def current_timestamp_def at_epoch_def split: option.splits)
  finally show ?thesis .
qed

section \<open>The store interface\<close>

text \<open>
  A run of announces, each with the outcome of its allocation and its time, all of them accepted.
\<close>

fun announce_run :: "(bool \<Rightarrow> 'r \<Rightarrow> 'm \<Rightarrow> u64 \<Rightarrow> 'r \<times> unit res) \<Rightarrow> 'r \<Rightarrow> (bool \<times> 'm \<times> u64) list \<Rightarrow> 'r option" where
  "announce_run ups r [] = Some r"
| "announce_run ups r ((a, m, t) # xs) =
     (case ups a r m t of (r', Inr _) \<Rightarrow> announce_run ups r' xs | (r', Inl _) \<Rightarrow> None)"

text \<open>What clients of the registry rely on, for either kind of map.\<close>

locale announce_store =
  fixes inv :: "'r \<Rightarrow> bool"
    and upsert :: "bool \<Rightarrow> 'r \<Rightarrow> 'm \<Rightarrow> u64 \<Rightarrow> 'r \<times> unit res"
    and lookup :: "'r \<Rightarrow> u32 \<Rightarrow> u64 \<Rightarrow> 'm option"
    and current :: "'r \<Rightarrow> u32 \<Rightarrow> 'm option"
    and stream :: "'m \<Rightarrow> u32"
    and ep :: "'m \<Rightarrow> u64"
    and stored :: "'m \<Rightarrow> 'm"
    and rejected :: "'m \<Rightarrow> bool"
  assumes upsert_step: "inv r \<Longrightarrow> upsert a r m t = (r', res) \<Longrightarrow>
      inv r' \<and> current r' = announce_spec (stream m) (stored m) (rejected m) res (current r)"
    and lookup_current: "inv r \<Longrightarrow> lookup r s e = at_epoch ep e (current r s)"
    and ep_stored: "ep (stored m) = ep m"
begin

lemma run_current:
  "inv r \<Longrightarrow> announce_run upsert r xs = Some r' \<Longrightarrow>
   inv r' \<and> current r' s = (case List.find (\<lambda>m. stream m = s) (rev (map (fst \<circ> snd) xs)) of
      Some m \<Rightarrow> Some (stored m) | None \<Rightarrow> current r s)"
proof (induction xs arbitrary: r)
  case Nil
  then show ?case by simp
next
  case (Cons x xs)
  obtain a m t where x: "x = (a, m, t)" by (cases x) auto
  from Cons.prems(2) x obtain r1 where r1: "upsert a r m t = (r1, Inr ())" "announce_run upsert r1 xs = Some r'"
    by (auto split: prod.splits sum.splits)
  note step = upsert_step [OF Cons.prems(1) r1(1)]
  have find: "List.find P (ys @ zs) = (case List.find P ys of None \<Rightarrow> List.find P zs | Some y \<Rightarrow> Some y)" for P and ys zs :: "'m list"
    by (induction ys) auto
  show ?case
    using Cons.IH [OF conjunct1 [OF step] r1(2)] step
    by (auto simp: x find announce_spec_def split: option.splits)
qed

text \<open>The last announce of a stream wins, and no other epoch of that stream is found.\<close>

lemma last_announce_wins:
  assumes "inv r" "announce_run upsert r xs = Some r'"
    and "List.find (\<lambda>m. stream m = s) (rev (map (fst \<circ> snd) xs)) = Some m"
  shows "lookup r' s e = (if e = ep m then Some (stored m) else None)"
  using run_current [OF assms(1,2), of s] assms(3) lookup_current [of r' s e]
  by (auto simp: at_epoch_def ep_stored)

end

interpretation seq_store: announce_store registry_ok tp_merge_map_registry_upsert_sequence
  tp_merge_map_registry_find_sequence current_sequence sm_out_stream_id sm_epoch stored_sequence
  "\<lambda>mm. sm_rules mm = None"
  by unfold_locales (auto simp: upsert_sequence_step find_sequence_current stored_sequence_def)

interpretation ts_store: announce_store registry_ok tp_merge_map_registry_upsert_timestamp
  tp_merge_map_registry_find_timestamp current_timestamp tm_out_stream_id tm_epoch stored_timestamp
  "\<lambda>mm. tm_rules mm = None"
  by unfold_locales (auto simp: upsert_timestamp_step find_timestamp_current stored_timestamp_def)

lemma entries_ok_unused: "\<forall>x\<in>set es. \<not> me_in_use x \<Longrightarrow> entries_ok es"
  by (auto simp: entries_ok_def)

lemma slot_for_stream:
  "find_slot_loop kind s e 0 None (invalidated kind s e es) \<noteq> None \<longleftrightarrow> (\<exists>x\<in>set es. me_in_use x \<longrightarrow> serves kind s x)"
  unfolding find_slot_None by blast

lemma upsert_sequence_accepts:
  "snd (tp_merge_map_registry_upsert_sequence a r mm t) = Inr () \<longleftrightarrow>
     sm_rules mm \<noteq> None \<and> (sm_rules mm = Some [] \<or> a) \<and>
     (\<exists>x\<in>set (mr_entries r). me_in_use x \<longrightarrow> serves TP_MERGE_MAP_SEQUENCE (sm_out_stream_id mm) x)"
  unfolding slot_for_stream [symmetric, of _ _ _ "sm_epoch mm"]
  by (auto simp: tp_merge_map_registry_upsert_sequence_def tp_merge_map_registry_find_slot_def Let_def
      split: option.splits)

lemma upsert_timestamp_accepts:
  "snd (tp_merge_map_registry_upsert_timestamp a r mm t) = Inr () \<longleftrightarrow>
     tm_rules mm \<noteq> None \<and> (tm_rules mm = Some [] \<or> a) \<and>
     (\<exists>x\<in>set (mr_entries r). me_in_use x \<longrightarrow> serves TP_MERGE_MAP_TIMESTAMP (tm_out_stream_id mm) x)"
  unfolding slot_for_stream [symmetric, of _ _ _ "tm_epoch mm"]
  by (auto simp: tp_merge_map_registry_upsert_timestamp_def tp_merge_map_registry_find_slot_def Let_def
      split: option.splits)

section \<open>Properties of the registry\<close>

text \<open>Concrete values for the instances of the properties below.\<close>

definition sample_sequence_map :: "u64 \<Rightarrow> tp_sequence_merge_map" where
  "sample_sequence_map e = \<lparr>sm_out_stream_id = 7, sm_epoch = e, sm_stale_timeout_ns = TP_NULL_U64,
     sm_rules = Some [\<lparr>sr_input_stream_id = 1, sr_rule_type = 0, sr_offset = 3, sr_window_size = 0\<rparr>,
                      \<lparr>sr_input_stream_id = 2, sr_rule_type = 1, sr_offset = 0, sr_window_size = 4\<rparr>]\<rparr>"

definition sample_timestamp_map :: "u64 \<Rightarrow> tp_timestamp_merge_map" where
  "sample_timestamp_map e = \<lparr>tm_out_stream_id = 7, tm_epoch = e, tm_stale_timeout_ns = TP_NULL_U64,
     tm_clock_domain = 1, tm_lateness_ns = 100,
     tm_rules = Some [\<lparr>tr_input_stream_id = 1, tr_rule_type = 0, tr_timestamp_source = 1, tr_offset_ns = 5, tr_window_ns = 0\<rparr>,
                      \<lparr>tr_input_stream_id = 2, tr_rule_type = 1, tr_timestamp_source = 2, tr_offset_ns = 0, tr_window_ns = 9\<rparr>]\<rparr>"

definition sample_registry :: tp_merge_map_registry where
  "sample_registry = \<lparr>mr_entries = [zero_entry, zero_entry]\<rparr>"

lemma sample_registry_ok: "registry_ok sample_registry"
  by (simp add: sample_registry_def registry_ok_def entries_ok_unused)

text \<open>The states a registry goes through: initialised, announced to, closed.\<close>

inductive registry_reach ::
  "(nat \<Rightarrow> tp_merge_map_entry list option) \<Rightarrow> tp_merge_map_registry \<Rightarrow> bool" for aeron_alloc where
  reach_init: "tp_merge_map_registry_init aeron_alloc n = Inr r \<Longrightarrow> registry_reach aeron_alloc r"
| reach_sequence: "registry_reach aeron_alloc r \<Longrightarrow>
    registry_reach aeron_alloc (fst (tp_merge_map_registry_upsert_sequence a r sm t))"
| reach_timestamp: "registry_reach aeron_alloc r \<Longrightarrow>
    registry_reach aeron_alloc (fst (tp_merge_map_registry_upsert_timestamp a r tm t))"
| reach_close: "registry_reach aeron_alloc r \<Longrightarrow> registry_reach aeron_alloc (tp_merge_map_registry_close r)"

text \<open>
  Whatever announces of either kind a registry receives, in any order and with any allocation
  failures, no two of its entries in use are for the same kind and output stream, and every entry
  in use agrees with the map it holds. \<open>aeron_alloc\<close> zero-fills what it returns, as the Aeron
  allocator documents.
\<close>

theorem registry_reach_ok:
  assumes "registry_reach aeron_alloc r"
    and zero_filled: "\<And>n es. aeron_alloc n = Some es \<Longrightarrow> \<forall>x\<in>set es. \<not> me_in_use x"
  shows "registry_ok r"
  using assms(1)
proof induction
  case (reach_init n r)
  then show ?case
    using zero_filled
    by (auto simp: tp_merge_map_registry_init_def registry_ok_def res_simps split: option.splits
        intro: entries_ok_unused)
next
  case (reach_sequence r a sm t)
  then show ?case using upsert_sequence_step [of r a sm t] by (metis surjective_pairing)
next
  case (reach_timestamp r a tm t)
  then show ?case using upsert_timestamp_step [of r a tm t] by (metis surjective_pairing)
next
  case (reach_close r)
  then show ?case by (simp add: tp_merge_map_registry_close_def registry_ok_def entries_ok_def)
qed

text \<open>
  After an announce of a sequence map, the stream has exactly the announced map under the
  announced epoch if the announce was accepted, and no map under any epoch if it failed for lack
  of a slot or of memory; other streams and all timestamp maps are untouched. The announce is
  accepted precisely when it carries rules, their allocation succeeds (an empty list needs none),
  and an entry is free or already serves the stream.
\<close>

theorem registry_upsert_sequence:
  assumes "registry_ok r" "tp_merge_map_registry_upsert_sequence a r mm t = (r', res)"
  shows "tp_merge_map_registry_find_sequence r' s e =
      (if s \<noteq> sm_out_stream_id mm \<or> sm_rules mm = None then tp_merge_map_registry_find_sequence r s e
       else if res = Inr () \<and> e = sm_epoch mm then Some (stored_sequence mm) else None) \<and>
    tp_merge_map_registry_find_timestamp r' s e = tp_merge_map_registry_find_timestamp r s e \<and>
    (res = Inr () \<longleftrightarrow> sm_rules mm \<noteq> None \<and> (sm_rules mm = Some [] \<or> a) \<and>
       (\<exists>x\<in>set (mr_entries r). me_in_use x \<longrightarrow> serves TP_MERGE_MAP_SEQUENCE (sm_out_stream_id mm) x))"
proof -
  note step = upsert_sequence_step [OF assms]
  have acc: "res = Inr () \<longleftrightarrow> sm_rules mm \<noteq> None \<and> (sm_rules mm = Some [] \<or> a) \<and>
       (\<exists>x\<in>set (mr_entries r). me_in_use x \<longrightarrow> serves TP_MERGE_MAP_SEQUENCE (sm_out_stream_id mm) x)"
    using upsert_sequence_accepts [of a r mm t] assms(2) by simp
  moreover have "tp_merge_map_registry_find_sequence r' s e =
      (if s \<noteq> sm_out_stream_id mm \<or> sm_rules mm = None then tp_merge_map_registry_find_sequence r s e
       else if res = Inr () \<and> e = sm_epoch mm then Some (stored_sequence mm) else None)"
    using step acc assms(1)
    by (auto simp: find_sequence_current announce_spec_def at_epoch_def stored_sequence_def split: sum.splits)
  ultimately show ?thesis using step assms(1) by (simp add: find_timestamp_current)
qed

text \<open>
  The same for timestamp maps.
\<close>

theorem registry_upsert_timestamp:
  assumes "registry_ok r" "tp_merge_map_registry_upsert_timestamp a r mm t = (r', res)"
  shows "tp_merge_map_registry_find_timestamp r' s e =
      (if s \<noteq> tm_out_stream_id mm \<or> tm_rules mm = None then tp_merge_map_registry_find_timestamp r s e
       else if res = Inr () \<and> e = tm_epoch mm then Some (stored_timestamp mm) else None) \<and>
    tp_merge_map_registry_find_sequence r' s e = tp_merge_map_registry_find_sequence r s e \<and>
    (res = Inr () \<longleftrightarrow> tm_rules mm \<noteq> None \<and> (tm_rules mm = Some [] \<or> a) \<and>
       (\<exists>x\<in>set (mr_entries r). me_in_use x \<longrightarrow> serves TP_MERGE_MAP_TIMESTAMP (tm_out_stream_id mm) x))"
proof -
  note step = upsert_timestamp_step [OF assms]
  have acc: "res = Inr () \<longleftrightarrow> tm_rules mm \<noteq> None \<and> (tm_rules mm = Some [] \<or> a) \<and>
       (\<exists>x\<in>set (mr_entries r). me_in_use x \<longrightarrow> serves TP_MERGE_MAP_TIMESTAMP (tm_out_stream_id mm) x)"
    using upsert_timestamp_accepts [of a r mm t] assms(2) by simp
  moreover have "tp_merge_map_registry_find_timestamp r' s e =
      (if s \<noteq> tm_out_stream_id mm \<or> tm_rules mm = None then tp_merge_map_registry_find_timestamp r s e
       else if res = Inr () \<and> e = tm_epoch mm then Some (stored_timestamp mm) else None)"
    using step acc assms(1)
    by (auto simp: find_timestamp_current announce_spec_def at_epoch_def stored_timestamp_def split: sum.splits)
  ultimately show ?thesis using step assms(1) by (simp add: find_sequence_current)
qed

text \<open>
  After any run of accepted sequence announces, a lookup finds, for each stream that was
  announced, its last announced map and only under that map's epoch.
\<close>

theorem registry_last_sequence_wins:
  assumes "registry_ok r" "announce_run tp_merge_map_registry_upsert_sequence r xs = Some r'"
    and "List.find (\<lambda>mm. sm_out_stream_id mm = s) (rev (map (fst \<circ> snd) xs)) = Some mm"
  shows "tp_merge_map_registry_find_sequence r' s e = (if e = sm_epoch mm then Some (stored_sequence mm) else None)"
  using assms by (rule seq_store.last_announce_wins)

end
