(* ===== verification/Tp_Sbe.thy ===== *)
theory Tp_Sbe
  imports Tp_Prelude
begin

text \<open>
  The message flyweights. The C code reads and writes wire messages through accessors that the
  SBE tool generates at build time from the files under schemas/; the generated code is not part
  of the repository, so the codec of a message is a parameter of the model: a value of the record
  \<open>sbe\<close>, whose fields are the generated constants and accessors that the sources call. The
  locale \<open>sbe_codec\<close> states what the sources rely on. A codec that lays the fields out in
  little-endian order at consecutive offsets, as the schemas prescribe, is an instance.
\<close>

section \<open>The generated accessors as a parameter\<close>

text \<open>
  A field of a message: of the message header, of the block, an element of a fixed-length array,
  the number of entries of the repeating group, or a field of its \<open>i\<close>-th entry. Fields carry
  their schema name.
\<close>

datatype sbe_field =
    Hdr string
  | Fld string
  | Arr string nat
  | GrpCount
  | GrpFld nat string

record sbe =
  sbe_header_length :: nat
  sbe_block_length :: u16
  sbe_template_id :: u16
  sbe_schema_id :: u16
  sbe_schema_version :: u16
  sbe_get :: "sbe_field \<Rightarrow> bytes \<Rightarrow> u64"
  sbe_set :: "sbe_field \<Rightarrow> u64 \<Rightarrow> bytes \<Rightarrow> bytes"
  sbe_enum :: "string \<Rightarrow> u64 \<Rightarrow> bool"
  sbe_null :: "string \<Rightarrow> u64"
  sbe_group_init :: "u16 \<Rightarrow> bytes \<Rightarrow> bytes"
  sbe_group_wrap :: "bytes \<Rightarrow> bool"
  sbe_group_next :: "nat \<Rightarrow> bytes \<Rightarrow> bool"
  sbe_position :: "nat \<Rightarrow> nat"

text \<open>
  \<open>sbe_enum nm v\<close>: the accessor of the enumeration field \<open>nm\<close> returns true on the raw
  value \<open>v\<close>. \<open>sbe_null nm\<close>: the null value of the optional field \<open>nm\<close>.
  \<open>sbe_group_init n\<close>: the group's wrap_for_encode with \<open>n\<close> entries.
  \<open>sbe_group_wrap b\<close>: its wrap_for_decode does not return NULL. \<open>sbe_group_next i b\<close>:
  the \<open>i\<close>-th call of its next function does not return NULL. \<open>sbe_position n\<close>:
  the message's position after \<open>n\<close> entries.
\<close>

text \<open>
  Writing the message header: the four setter calls that every encoder makes, in their order.
\<close>

definition sbe_put_header :: "sbe \<Rightarrow> bytes \<Rightarrow> bytes" where
  "sbe_put_header C b =
     (let b = sbe_set C (Hdr ''blockLength'') (ucast (sbe_block_length C)) b;
          b = sbe_set C (Hdr ''templateId'') (ucast (sbe_template_id C)) b;
          b = sbe_set C (Hdr ''schemaId'') (ucast (sbe_schema_id C)) b
      in sbe_set C (Hdr ''version'') (ucast (sbe_schema_version C)) b)"

text \<open>
  Runs of setter calls on the block and on one group entry, and the loops over a repeating group:
  the encoders check each entry and then write its fields, the decoders call next and then read
  the entry.
\<close>

definition sbe_put_block :: "sbe \<Rightarrow> (string \<times> u64) list \<Rightarrow> bytes \<Rightarrow> bytes" where
  "sbe_put_block C kvs b = fold (\<lambda>(nm, v). sbe_set C (Fld nm) v) kvs b"

definition sbe_put_entry :: "sbe \<Rightarrow> nat \<Rightarrow> (string \<times> u64) list \<Rightarrow> bytes \<Rightarrow> bytes" where
  "sbe_put_entry C i kvs b = fold (\<lambda>(nm, v). sbe_set C (GrpFld i nm) v) kvs b"

fun sbe_put_group ::
  "sbe \<Rightarrow> ('r \<Rightarrow> bool) \<Rightarrow> tp_error \<Rightarrow> ('r \<Rightarrow> (string \<times> u64) list) \<Rightarrow> nat \<Rightarrow> 'r list \<Rightarrow> bytes \<Rightarrow> bytes res"
where
  "sbe_put_group C valid e flds i [] b = Inr b"
| "sbe_put_group C valid e flds i (r # rs) b =
     guard (\<not> valid r) e
       (sbe_put_group C valid e flds (Suc i) rs (sbe_put_entry C i (flds r) b))"

fun sbe_get_group ::
  "sbe \<Rightarrow> tp_error \<Rightarrow> (nat \<Rightarrow> bytes \<Rightarrow> 'r res) \<Rightarrow> nat \<Rightarrow> nat \<Rightarrow> bytes \<Rightarrow> 'r list res"
where
  "sbe_get_group C e entry i 0 b = Inr []"
| "sbe_get_group C e entry i (Suc n) b =
     guard (\<not> sbe_group_next C i b) e
       (bind_res (entry i b) (\<lambda>r.
         bind_res (sbe_get_group C e entry (Suc i) n b) (\<lambda>rs. Inr (r # rs))))"

lemma sbe_get_group_map:
  assumes "\<And>k. k < length rs \<Longrightarrow> sbe_group_next C (i + k) b \<and> entry (i + k) b = Inr (rs ! k)"
  shows "sbe_get_group C e entry i (length rs) b = Inr rs"
  using assms
proof (induction rs arbitrary: i)
  case Nil
  then show ?case by simp
next
  case (Cons r rs)
  have "sbe_get_group C e entry (Suc i) (length rs) b = Inr rs"
    by (rule Cons.IH) (use Cons.prems [of "Suc _"] in auto)
  then show ?case using Cons.prems [of 0] by simp
qed

lemma sbe_get_group_Inr:
  "sbe_get_group C e entry i n b = Inr rs \<Longrightarrow> length rs = n \<and> (\<forall>k<n. entry (i + k) b = Inr (rs ! k))"
proof (induction n arbitrary: i rs)
  case 0
  then show ?case by simp
next
  case (Suc n)
  from Suc.prems obtain r rs' where r: "rs = r # rs'" "entry i b = Inr r"
      "sbe_get_group C e entry (Suc i) n b = Inr rs'"
    by (auto simp: res_simps)
  from Suc.IH [OF r(3)] r show ?case by (auto simp: nth_Cons' less_Suc_eq_0_disj)
qed

lemma sbe_get_group_all:
  assumes "sbe_get_group C e entry i n b = Inr rs" "\<And>k r. entry k b = Inr r \<Longrightarrow> P r"
  shows "length rs = n \<and> (\<forall>r\<in>set rs. P r)"
  using sbe_get_group_Inr [OF assms(1)] assms(2) by (metis in_set_conv_nth)

text \<open>
  The checks at the head of every decoder: \<open>Inr None\<close> is the return value 1, a message of
  another schema or template.
\<close>

definition decode_message :: "sbe \<Rightarrow> string \<Rightarrow> bytes \<Rightarrow> 'a option res \<Rightarrow> 'a option res" where
  "decode_message C fn b k =
     guard (length b < sbe_header_length C) (EINVAL (fn @ '': buffer too short''))
     (let template_id = ucast (sbe_get C (Hdr ''templateId'') b) :: u16;
          schema_id = ucast (sbe_get C (Hdr ''schemaId'') b) :: u16;
          version = ucast (sbe_get C (Hdr ''version'') b) :: u16;
          block_length = ucast (sbe_get C (Hdr ''blockLength'') b) :: u16
      in if schema_id \<noteq> sbe_schema_id C \<or> template_id \<noteq> sbe_template_id C then Inr None
         else guard (version > sbe_schema_version C) (EINVAL (fn @ '': unsupported schema version''))
           (guard (block_length \<noteq> sbe_block_length C) (EINVAL (fn @ '': block length mismatch'')) k))"

definition header_ok :: "sbe \<Rightarrow> bytes \<Rightarrow> bool" where
  "header_ok C b \<longleftrightarrow> sbe_header_length C \<le> length b \<and>
     sbe_get C (Hdr ''blockLength'') b = ucast (sbe_block_length C) \<and>
     sbe_get C (Hdr ''templateId'') b = ucast (sbe_template_id C) \<and>
     sbe_get C (Hdr ''schemaId'') b = ucast (sbe_schema_id C) \<and>
     sbe_get C (Hdr ''version'') b = ucast (sbe_schema_version C)"

lemma decode_message_ok: "header_ok C b \<Longrightarrow> decode_message C fn b k = k"
  by (simp add: header_ok_def decode_message_def Let_def)

lemma unat_of_nat_u16: "n \<le> 65535 \<Longrightarrow> unat (of_nat n :: u16) = n"
  by (simp add: unat_of_nat)

section \<open>What the sources rely on\<close>

locale sbe_codec =
  fixes C :: sbe
    and width :: "sbe_field \<Rightarrow> nat"
    and known :: "sbe_field \<Rightarrow> bool"
    and extent :: "sbe_field \<Rightarrow> nat"
  assumes get_set_same:
      "known f \<Longrightarrow> extent f \<le> length b \<Longrightarrow> unat v < 2 ^ width f \<Longrightarrow> sbe_get C f (sbe_set C f v b) = v"
    and get_set_other:
      "known f \<or> f = GrpCount \<Longrightarrow> known g \<Longrightarrow> f \<noteq> g \<Longrightarrow> sbe_get C f (sbe_set C g v b) = sbe_get C f b"
    and length_set: "length (sbe_set C f v b) = length b"
    and length_init: "length (sbe_group_init C n b) = length b"
    and init_count:
      "sbe_position C 0 \<le> length b \<Longrightarrow> sbe_get C GrpCount (sbe_group_init C n b) = ucast n"
    and init_other: "known f \<Longrightarrow> sbe_get C f (sbe_group_init C n b) = sbe_get C f b"
    and init_wrap: "sbe_position C 0 \<le> length b \<Longrightarrow> sbe_group_wrap C (sbe_group_init C n b)"
    and init_next:
      "i < unat n \<Longrightarrow> sbe_position C (Suc i) \<le> length b \<Longrightarrow> sbe_group_next C i (sbe_group_init C n b)"
    and set_wrap: "known f \<Longrightarrow> sbe_group_wrap C (sbe_set C f v b) = sbe_group_wrap C b"
    and set_next: "known f \<Longrightarrow> sbe_group_next C i (sbe_set C f v b) = sbe_group_next C i b"
    and not_known_count: "\<not> known GrpCount"
    and known_header:
      "known (Hdr ''blockLength'')" "known (Hdr ''templateId'')"
      "known (Hdr ''schemaId'')" "known (Hdr ''version'')"
    and width_header:
      "width (Hdr ''blockLength'') = 16" "width (Hdr ''templateId'') = 16"
      "width (Hdr ''schemaId'') = 16" "width (Hdr ''version'') = 16"
    and extent_header: "known (Hdr nm) \<Longrightarrow> extent (Hdr nm) \<le> sbe_header_length C"
    and header_position: "sbe_header_length C \<le> sbe_position C 0"
    and extent_block: "known (Fld nm) \<Longrightarrow> extent (Fld nm) \<le> sbe_position C 0"
    and extent_array: "known (Arr nm i) \<Longrightarrow> extent (Arr nm i) \<le> sbe_position C 0"
    and extent_entry: "known (GrpFld i nm) \<Longrightarrow> extent (GrpFld i nm) \<le> sbe_position C (Suc i)"
    and position_mono: "m \<le> k \<Longrightarrow> sbe_position C m \<le> sbe_position C k"
begin

lemma length_put_header: "length (sbe_put_header C b) = length b"
  by (simp add: sbe_put_header_def Let_def length_set)

lemma get_put_header_other:
  "known f \<Longrightarrow> (\<forall>nm. f \<noteq> Hdr nm) \<Longrightarrow> sbe_get C f (sbe_put_header C b) = sbe_get C f b"
  by (simp add: sbe_put_header_def Let_def get_set_other known_header)

text \<open>A decoder finds in the header what the encoder put there.\<close>

lemma get_put_header:
  assumes "sbe_header_length C \<le> length b"
  shows "sbe_get C (Hdr ''blockLength'') (sbe_put_header C b) = ucast (sbe_block_length C)"
    and "sbe_get C (Hdr ''templateId'') (sbe_put_header C b) = ucast (sbe_template_id C)"
    and "sbe_get C (Hdr ''schemaId'') (sbe_put_header C b) = ucast (sbe_schema_id C)"
    and "sbe_get C (Hdr ''version'') (sbe_put_header C b) = ucast (sbe_schema_version C)"
  using assms extent_header [OF known_header(1)] extent_header [OF known_header(2)]
    extent_header [OF known_header(3)] extent_header [OF known_header(4)]
  by (simp_all add: sbe_put_header_def Let_def get_set_other get_set_same length_set
      known_header width_header order_trans)

text \<open>
  What a whole message holds after it is written. \<open>kept b b' F\<close>: the flds in \<open>F\<close>, the
  group's dimensions and the length are the same in both buffers.
\<close>

definition kept :: "bytes \<Rightarrow> bytes \<Rightarrow> sbe_field set \<Rightarrow> bool" where
  "kept b b' F \<longleftrightarrow> length b' = length b \<and> sbe_group_wrap C b' = sbe_group_wrap C b \<and>
     (\<forall>i. sbe_group_next C i b' = sbe_group_next C i b) \<and>
     (\<forall>f\<in>F. known f \<or> f = GrpCount \<longrightarrow> sbe_get C f b' = sbe_get C f b)"

lemma kept_refl: "kept b b F"
  by (simp add: kept_def)

lemma kept_trans: "kept a b F \<Longrightarrow> kept b c F \<Longrightarrow> kept a c F"
  by (simp add: kept_def)

lemma kept_mono: "kept a b F \<Longrightarrow> G \<subseteq> F \<Longrightarrow> kept a b G"
  by (auto simp: kept_def)

lemma kept_set: "known g \<Longrightarrow> g \<notin> F \<Longrightarrow> kept b (sbe_set C g v b) F"
  by (auto simp: kept_def length_set set_wrap set_next intro!: get_set_other)

lemma kept_get: "kept b b' F \<Longrightarrow> f \<in> F \<Longrightarrow> known f \<or> f = GrpCount \<Longrightarrow> sbe_get C f b' = sbe_get C f b"
  by (auto simp: kept_def)

lemma kept_fold:
  "\<forall>(nm, v)\<in>set kvs. known (g nm) \<and> g nm \<notin> F \<Longrightarrow> kept b (fold (\<lambda>(nm, v). sbe_set C (g nm) v) kvs b) F"
proof (induction kvs arbitrary: b)
  case (Cons kv kvs)
  obtain nm v where kv: "kv = (nm, v)" by force
  have "kept b (sbe_set C (g nm) v b) F" using Cons.prems kv by (simp add: kept_set)
  moreover have "kept (sbe_set C (g nm) v b) (fold (\<lambda>(nm, v). sbe_set C (g nm) v) kvs (sbe_set C (g nm) v b)) F"
    using Cons by simp
  ultimately show ?case by (simp add: kv kept_trans)
qed (simp add: kept_refl)

lemma get_fold:
  assumes "distinct (map fst kvs)" "inj g"
    and "\<forall>(nm, v)\<in>set kvs. known (g nm) \<and> extent (g nm) \<le> length b \<and> unat v < 2 ^ width (g nm)"
    and "(nm, v) \<in> set kvs"
  shows "sbe_get C (g nm) (fold (\<lambda>(nm, v). sbe_set C (g nm) v) kvs b) = v"
  using assms
proof (induction kvs arbitrary: b)
  case (Cons kv kvs)
  obtain m w where kv: "kv = (m, w)" by force
  let ?b = "sbe_set C (g m) w b"
  show ?case
  proof (cases "(nm, v) = (m, w)")
    case True
    have "kept ?b (fold (\<lambda>(nm, v). sbe_set C (g nm) v) kvs ?b) {g m}"
      using Cons.prems kv by (intro kept_fold) (force simp: inj_eq)
    then have "sbe_get C (g m) (fold (\<lambda>(nm, v). sbe_set C (g nm) v) kvs ?b) = sbe_get C (g m) ?b"
      using Cons.prems kv by (intro kept_get) auto
    also have "\<dots> = w" using Cons.prems kv by (intro get_set_same) auto
    finally show ?thesis using True kv by simp
  next
    case False
    then show ?thesis using Cons kv by (auto simp: length_set)
  qed
qed simp

definition entry_ok :: "nat \<Rightarrow> (string \<times> u64) list \<Rightarrow> bool" where
  "entry_ok i kvs \<longleftrightarrow> distinct (map fst kvs) \<and>
     (\<forall>(nm, v)\<in>set kvs. known (GrpFld i nm) \<and> unat v < 2 ^ width (GrpFld i nm))"

lemma kept_entry:
  "entry_ok i kvs \<Longrightarrow> (\<forall>nm. GrpFld i nm \<notin> F) \<Longrightarrow> kept b (sbe_put_entry C i kvs b) F"
  unfolding sbe_put_entry_def by (rule kept_fold) (auto simp: entry_ok_def)

lemma get_entry:
  "entry_ok i kvs \<Longrightarrow> sbe_position C (Suc i) \<le> length b \<Longrightarrow> (nm, v) \<in> set kvs \<Longrightarrow>
   sbe_get C (GrpFld i nm) (sbe_put_entry C i kvs b) = v"
  unfolding sbe_put_entry_def
  by (rule get_fold) (auto simp: entry_ok_def inj_def intro: order_trans [OF extent_entry])

lemma put_group:
  assumes "\<forall>r\<in>set rs. valid r" "\<And>k. k < length rs \<Longrightarrow> entry_ok (i + k) (flds (rs ! k))"
    and "sbe_position C (i + length rs) \<le> length b" "F = {f. \<forall>j nm. f = GrpFld j nm \<longrightarrow> j < i}"
  shows "\<exists>b'. sbe_put_group C valid e flds i rs b = Inr b' \<and> kept b b' F \<and>
    (\<forall>k<length rs. \<forall>(nm, v)\<in>set (flds (rs ! k)). sbe_get C (GrpFld (i + k) nm) b' = v)"
  using assms
proof (induction rs arbitrary: i b F)
  case Nil
  then show ?case by (simp add: kept_refl)
next
  case (Cons r rs)
  let ?b = "sbe_put_entry C i (flds r) b"
  let ?G = "{f. \<forall>j nm. f = GrpFld j nm \<longrightarrow> j < Suc i}"
  have ok: "entry_ok i (flds r)" using Cons.prems(2) [of 0] by simp
  have k1: "kept b ?b F" using ok Cons.prems(4) by (intro kept_entry) auto
  then have len: "length ?b = length b" by (simp add: kept_def)
  have "\<exists>b'. sbe_put_group C valid e flds (Suc i) rs ?b = Inr b' \<and> kept ?b b' ?G \<and>
    (\<forall>k<length rs. \<forall>(nm, v)\<in>set (flds (rs ! k)). sbe_get C (GrpFld (Suc i + k) nm) b' = v)"
    by (rule Cons.IH) (use Cons.prems len Cons.prems(2) [of "Suc _"] in auto)
  then obtain b' where b': "sbe_put_group C valid e flds (Suc i) rs ?b = Inr b'" "kept ?b b' ?G"
    "\<forall>k<length rs. \<forall>(nm, v)\<in>set (flds (rs ! k)). sbe_get C (GrpFld (Suc i + k) nm) b' = v"
    by blast
  have pos: "sbe_position C (Suc i) \<le> length b"
    using Cons.prems(3) position_mono [of "Suc i" "i + length (r # rs)"] by simp
  have "sbe_get C (GrpFld i nm) b' = v" if "(nm, v) \<in> set (flds r)" for nm v
  proof -
    have "sbe_get C (GrpFld i nm) b' = sbe_get C (GrpFld i nm) ?b"
      using b'(2) ok that by (intro kept_get) (auto simp: entry_ok_def)
    with get_entry [OF ok pos that] show ?thesis by simp
  qed
  moreover have "kept b b' F"
    using k1 kept_mono [OF b'(2), of F] Cons.prems(4) by (auto intro: kept_trans less_SucI)
  ultimately show ?case using b' Cons.prems(1) by (fastforce simp: less_Suc_eq_0_disj nth_Cons')
qed

definition block_ok :: "(string \<times> u64) list \<Rightarrow> bool" where
  "block_ok kvs \<longleftrightarrow> distinct (map fst kvs) \<and>
     (\<forall>(nm, v)\<in>set kvs. known (Fld nm) \<and> unat v < 2 ^ width (Fld nm))"

text \<open>A message without a group, read back after its block has been written.\<close>

lemma block_written:
  assumes "block_ok kvs" "\<forall>(nm, v)\<in>set kvs. extent (Fld nm) \<le> length b" "sbe_header_length C \<le> length b"
  shows "length (sbe_put_block C kvs (sbe_put_header C b)) = length b"
    and "header_ok C (sbe_put_block C kvs (sbe_put_header C b))"
    and "(nm, v) \<in> set kvs \<Longrightarrow> sbe_get C (Fld nm) (sbe_put_block C kvs (sbe_put_header C b)) = v"
proof -
  let ?h = "sbe_put_header C b" and ?m = "sbe_put_block C kvs (sbe_put_header C b)"
  have k: "kept ?h ?m {f. \<exists>nm. f = Hdr nm}"
    unfolding sbe_put_block_def using assms(1) by (intro kept_fold) (auto simp: block_ok_def)
  then show len: "length ?m = length b" by (simp add: kept_def length_put_header)
  have hdr: "sbe_get C (Hdr nm) ?m = sbe_get C (Hdr nm) ?h" if "known (Hdr nm)" for nm
    using kept_get [OF k, of "Hdr nm"] that by simp
  from get_put_header [OF assms(3)] assms(3) len show "header_ok C ?m"
    by (simp add: header_ok_def hdr known_header)
  assume "(nm, v) \<in> set kvs"
  then show "sbe_get C (Fld nm) ?m = v"
    unfolding sbe_put_block_def using assms
    by (intro get_fold) (auto simp: block_ok_def inj_def length_put_header)
qed

text \<open>The header and the block of a message, read back after the group has been written.\<close>

lemma put_message:
  assumes "block_ok kvs" "sbe_position C 0 \<le> length b"
    and "kept (sbe_group_init C n (sbe_put_block C kvs (sbe_put_header C b))) b' {f. \<forall>j nm. f \<noteq> GrpFld j nm}"
  shows "length b' = length b"
    and "sbe_get C (Hdr ''blockLength'') b' = ucast (sbe_block_length C)"
    and "sbe_get C (Hdr ''templateId'') b' = ucast (sbe_template_id C)"
    and "sbe_get C (Hdr ''schemaId'') b' = ucast (sbe_schema_id C)"
    and "sbe_get C (Hdr ''version'') b' = ucast (sbe_schema_version C)"
    and "\<And>nm v. (nm, v) \<in> set kvs \<Longrightarrow> sbe_get C (Fld nm) b' = v"
    and "sbe_get C GrpCount b' = ucast n"
    and "sbe_group_wrap C b'"
    and "\<And>i. i < unat n \<Longrightarrow> sbe_position C (Suc i) \<le> length b \<Longrightarrow> sbe_group_next C i b'"
proof -
  let ?h = "sbe_put_header C b" and ?m = "sbe_put_block C kvs (sbe_put_header C b)"
  let ?F = "{f. \<forall>j nm. f \<noteq> GrpFld j nm}"
  have kb: "kept ?h ?m {f. \<exists>nm. f = Hdr nm}"
    unfolding sbe_put_block_def using assms(1) by (intro kept_fold) (auto simp: block_ok_def)
  have len: "length ?m = length b" using kb by (simp add: kept_def length_put_header)
  show "length b' = length b" using assms(3) len by (simp add: kept_def length_init)
  have hdr: "sbe_get C (Hdr nm) b' = sbe_get C (Hdr nm) ?h" if "known (Hdr nm)" for nm
    using kept_get [OF assms(3), of "Hdr nm"] kept_get [OF kb, of "Hdr nm"] that
    by (simp add: init_other)
  note got = get_put_header [OF order_trans [OF header_position assms(2)]]
  show "sbe_get C (Hdr ''blockLength'') b' = ucast (sbe_block_length C)"
    "sbe_get C (Hdr ''templateId'') b' = ucast (sbe_template_id C)"
    "sbe_get C (Hdr ''schemaId'') b' = ucast (sbe_schema_id C)"
    "sbe_get C (Hdr ''version'') b' = ucast (sbe_schema_version C)"
    using got by (simp_all add: hdr known_header)
  show "sbe_get C (Fld nm) b' = v" if "(nm, v) \<in> set kvs" for nm v
  proof -
    have "sbe_get C (Fld nm) ?m = v"
      unfolding sbe_put_block_def using assms that
      by (intro get_fold) (auto simp: block_ok_def inj_def length_put_header intro: order_trans [OF extent_block])
    moreover have "known (Fld nm)" using assms(1) that by (auto simp: block_ok_def)
    ultimately show ?thesis using kept_get [OF assms(3), of "Fld nm"] by (simp add: init_other)
  qed
  show "sbe_get C GrpCount b' = ucast n"
    using kept_get [OF assms(3), of GrpCount] assms(2) len by (simp add: init_count)
  show "sbe_group_wrap C b'" using assms(2,3) len by (simp add: kept_def init_wrap)
  show "sbe_group_next C i b'" if "i < unat n" "sbe_position C (Suc i) \<le> length b" for i
    using assms(3) len that by (simp add: kept_def init_next)
qed

text \<open>
  \<open>message_holds b len kvs flds rs\<close>: the buffer holds a message with the codec's own header, the
  block values \<open>kvs\<close> and one group entry per element of \<open>rs\<close>.
\<close>

definition message_holds ::
  "bytes \<Rightarrow> nat \<Rightarrow> (string \<times> u64) list \<Rightarrow> ('r \<Rightarrow> (string \<times> u64) list) \<Rightarrow> 'r list \<Rightarrow> bool" where
  "message_holds b len kvs flds rs \<longleftrightarrow> length b = len \<and>
     header_ok C b \<and>
     (\<forall>(nm, v)\<in>set kvs. sbe_get C (Fld nm) b = v) \<and>
     unat (sbe_get C GrpCount b) = length rs \<and> sbe_group_wrap C b \<and>
     (\<forall>i<length rs. sbe_group_next C i b \<and> (\<forall>(nm, v)\<in>set (flds (rs ! i)). sbe_get C (GrpFld i nm) b = v))"

lemma write_message:
  assumes "block_ok kvs" "\<forall>r\<in>set rs. valid r \<and> (\<forall>i. entry_ok i (flds r))"
    and "length rs \<le> 65535" "sbe_position C (length rs) \<le> length b"
  shows "\<exists>b'. sbe_put_group C valid e flds 0 rs
      (sbe_group_init C (of_nat (length rs)) (sbe_put_block C kvs (sbe_put_header C b))) = Inr b' \<and>
    message_holds b' (length b) kvs flds rs"
proof -
  let ?n = "of_nat (length rs) :: u16"
  let ?m = "sbe_group_init C ?n (sbe_put_block C kvs (sbe_put_header C b))"
  have fit: "sbe_position C k \<le> length b" if "k \<le> length rs" for k
    using position_mono [OF that] assms(4) by simp
  have lm: "length ?m = length b"
    using put_message(1) [OF assms(1) fit [of 0] kept_refl] by simp
  obtain b' where b': "sbe_put_group C valid e flds 0 rs ?m = Inr b'"
    and kept: "kept ?m b' {f. \<forall>j nm. f = GrpFld j nm \<longrightarrow> j < 0}"
    and entries: "\<forall>k<length rs. \<forall>(nm, v)\<in>set (flds (rs ! k)). sbe_get C (GrpFld (0 + k) nm) b' = v"
    using put_group [of rs valid 0 flds ?m _ e] assms(2,4) lm by fastforce
  have "kept ?m b' {f. \<forall>j nm. f \<noteq> GrpFld j nm}" using kept by simp
  note msg = put_message [OF assms(1) fit [of 0] this]
  have "header_ok C b'"
    using msg header_position fit [of 0] by (auto simp: header_ok_def)
  then show ?thesis
    using b' msg entries assms(3) fit by (auto simp: message_holds_def unat_of_nat_u16)
qed

end

text \<open>A codec whose accessors read the bytes of their field and no others.\<close>

locale message_codec = sbe_codec +
  assumes get_take: "known f \<Longrightarrow> extent f \<le> n \<Longrightarrow> sbe_get C f (take n b) = sbe_get C f b"
begin

lemma header_ok_take: "header_ok C b \<Longrightarrow> sbe_header_length C \<le> n \<Longrightarrow> header_ok C (take n b)"
  using get_take [OF known_header(1) order_trans [OF extent_header [OF known_header(1)]]]
    get_take [OF known_header(2) order_trans [OF extent_header [OF known_header(2)]]]
    get_take [OF known_header(3) order_trans [OF extent_header [OF known_header(3)]]]
    get_take [OF known_header(4) order_trans [OF extent_header [OF known_header(4)]]]
  by (simp add: header_ok_def)

end

section \<open>The little-endian layout of the schemas\<close>

text \<open>Entries of a block: name, bytes per element, number of elements.\<close>

type_synonym sbe_block = "(string \<times> nat \<times> nat) list"

fun le_bytes :: "nat \<Rightarrow> u64 \<Rightarrow> bytes" where
  "le_bytes 0 v = []"
| "le_bytes (Suc n) v = ucast v # le_bytes n (drop_bit 8 v)"

fun le_val :: "bytes \<Rightarrow> u64" where
  "le_val [] = 0"
| "le_val (x # xs) = ucast x OR push_bit 8 (le_val xs)"

definition le_read :: "nat \<Rightarrow> nat \<Rightarrow> bytes \<Rightarrow> u64" where
  "le_read off w b = le_val (take w (drop off b))"

definition le_write :: "nat \<Rightarrow> nat \<Rightarrow> u64 \<Rightarrow> bytes \<Rightarrow> bytes" where
  "le_write off w v b =
     (if off + w \<le> length b then take off b @ le_bytes w v @ drop (off + w) b else b)"

fun block_size :: "sbe_block \<Rightarrow> nat" where
  "block_size [] = 0"
| "block_size ((nm, w, n) # es) = w * n + block_size es"

fun block_find :: "nat \<Rightarrow> sbe_block \<Rightarrow> string \<Rightarrow> (nat \<times> nat \<times> nat) option" where
  "block_find off [] nm = None"
| "block_find off ((nm', w, n) # es) nm =
     (if nm = nm' then Some (off, w, n) else block_find (off + w * n) es nm)"

record sbe_layout =
  ly_template :: u16
  ly_schema :: u16
  ly_version :: u16
  ly_block :: sbe_block
  ly_group :: sbe_block
  ly_enums :: "(string \<times> u64 list) list"
  ly_nulls :: "(string \<times> u64) list"

definition header_block :: sbe_block where
  "header_block = [(''blockLength'', 2, 1), (''templateId'', 2, 1), (''schemaId'', 2, 1), (''version'', 2, 1)]"

definition group_start :: "sbe_layout \<Rightarrow> nat" where
  "group_start L = 8 + block_size (ly_block L)"

definition entry_start :: "sbe_layout \<Rightarrow> nat \<Rightarrow> nat" where
  "entry_start L i = group_start L + 4 + i * block_size (ly_group L)"

text \<open>Offset and width in bytes of a field; none for a field the schema does not have.\<close>

definition scalar :: "(nat \<times> nat \<times> nat) option \<Rightarrow> (nat \<times> nat) option" where
  "scalar r = (case r of Some (off, w, n) \<Rightarrow> if n = 1 then Some (off, w) else None | None \<Rightarrow> None)"

fun locate :: "sbe_layout \<Rightarrow> sbe_field \<Rightarrow> (nat \<times> nat) option" where
  "locate L (Hdr nm) = scalar (block_find 0 header_block nm)"
| "locate L (Fld nm) = scalar (block_find 8 (ly_block L) nm)"
| "locate L (Arr nm i) =
     (case block_find 8 (ly_block L) nm of
        Some (off, w, n) \<Rightarrow> if n \<noteq> 1 \<and> i < n then Some (off + i * w, w) else None
      | None \<Rightarrow> None)"
| "locate L GrpCount = Some (group_start L + 2, 2)"
| "locate L (GrpFld i nm) = scalar (block_find (entry_start L i) (ly_group L) nm)"

definition le_get :: "sbe_layout \<Rightarrow> sbe_field \<Rightarrow> bytes \<Rightarrow> u64" where
  "le_get L f b = (case locate L f of Some (off, w) \<Rightarrow> le_read off w b | None \<Rightarrow> 0)"

definition le_set :: "sbe_layout \<Rightarrow> sbe_field \<Rightarrow> u64 \<Rightarrow> bytes \<Rightarrow> bytes" where
  "le_set L f v b = (case locate L f of Some (off, w) \<Rightarrow> le_write off w v b | None \<Rightarrow> b)"

definition le_codec :: "sbe_layout \<Rightarrow> sbe" where
  "le_codec L =
     \<lparr>sbe_header_length = 8,
      sbe_block_length = of_nat (block_size (ly_block L)),
      sbe_template_id = ly_template L,
      sbe_schema_id = ly_schema L,
      sbe_schema_version = ly_version L,
      sbe_get = le_get L,
      sbe_set = le_set L,
      sbe_enum = (\<lambda>nm v. case map_of (ly_enums L) nm of Some vs \<Rightarrow> v \<in> set vs | None \<Rightarrow> True),
      sbe_null = (\<lambda>nm. case map_of (ly_nulls L) nm of Some v \<Rightarrow> v | None \<Rightarrow> 0),
      sbe_group_init = (\<lambda>n b. le_write (group_start L + 2) 2 (ucast n)
         (le_write (group_start L) 2 (of_nat (block_size (ly_group L))) b)),
      sbe_group_wrap = (\<lambda>b. group_start L + 4 \<le> length b),
      sbe_group_next = (\<lambda>i b. i < unat (le_read (group_start L + 2) 2 b) \<and>
         group_start L + 4 + Suc i * unat (le_read (group_start L) 2 b) \<le> length b),
      sbe_position = (\<lambda>n. group_start L + 4 + n * block_size (ly_group L))\<rparr>"

definition le_width :: "sbe_layout \<Rightarrow> sbe_field \<Rightarrow> nat" where
  "le_width L f = (case locate L f of Some (off, w) \<Rightarrow> 8 * w | None \<Rightarrow> 0)"

definition le_known :: "sbe_layout \<Rightarrow> sbe_field \<Rightarrow> bool" where
  "le_known L f \<longleftrightarrow> f \<noteq> GrpCount \<and> locate L f \<noteq> None"

definition le_extent :: "sbe_layout \<Rightarrow> sbe_field \<Rightarrow> nat" where
  "le_extent L f = (case locate L f of Some (off, w) \<Rightarrow> off + w | None \<Rightarrow> 0)"

text \<open>The size of a group entry fits the 16-bit field that announces it.\<close>

definition layout_ok :: "sbe_layout \<Rightarrow> bool" where
  "layout_ok L \<longleftrightarrow> block_size (ly_group L) < 2 ^ 16"

subsection \<open>Bytes\<close>

lemma length_le_bytes [simp]: "length (le_bytes n v) = n"
  by (induction n arbitrary: v) auto

lemma length_le_write [simp]: "length (le_write off w v b) = length b"
  by (auto simp: le_write_def)

lemma le_val_le_bytes: "le_val (le_bytes n v) = take_bit (8 * n) v"
proof (induction n arbitrary: v)
  case 0
  then show ?case by simp
next
  case (Suc n)
  have "le_val (le_bytes (Suc n) v) = ucast (ucast v :: u8) OR push_bit 8 (take_bit (8 * n) (drop_bit 8 v))"
    by (simp add: Suc.IH)
  also have "\<dots> = take_bit (8 * Suc n) v"
    by (rule bit_word_eqI) (auto simp: bit_simps)
  finally show ?case .
qed

lemma le_read_write_same:
  "off + w \<le> length b \<Longrightarrow> unat v < 2 ^ (8 * w) \<Longrightarrow> le_read off w (le_write off w v b) = v"
  by (simp add: le_read_def le_write_def le_val_le_bytes take_bit_of_lt)

lemma le_read_write_disjoint:
  assumes "off + w \<le> off' \<or> off' + w' \<le> off"
  shows "le_read off w (le_write off' w' v b) = le_read off w b"
proof (cases "off' + w' \<le> length b")
  case True
  have "take w (drop off (take off' b @ le_bytes w' v @ drop (off' + w') b)) = take w (drop off b)"
    by (rule nth_equalityI) (use assms True in \<open>auto simp: nth_append\<close>)
  with True show ?thesis by (simp add: le_read_def le_write_def)
next
  case False
  then show ?thesis by (simp add: le_write_def)
qed

subsection \<open>Fields do not overlap\<close>

lemma block_find_bounds:
  "block_find off es nm = Some (p, w, n) \<Longrightarrow> off \<le> p \<and> p + w * n \<le> off + block_size es"
  by (induction off es nm rule: block_find.induct) (auto split: if_splits)

lemma block_find_disjoint:
  "block_find off es a = Some (p, w, n) \<Longrightarrow> block_find off es b = Some (q, v, m) \<Longrightarrow> a \<noteq> b \<Longrightarrow>
   p + w * n \<le> q \<or> q + v * m \<le> p"
  by (induction off es a rule: block_find.induct)
    (auto split: if_splits dest: block_find_bounds)

lemma scalar_Some [simp]: "scalar r = Some (off, w) \<longleftrightarrow> r = Some (off, w, 1)"
  by (auto simp: scalar_def split: option.splits if_splits)

lemma entry_start_Suc: "entry_start L (Suc i) = entry_start L i + block_size (ly_group L)"
  by (simp add: entry_start_def)

lemma entry_start_mono: "i \<le> j \<Longrightarrow> entry_start L i \<le> entry_start L j"
  by (simp add: entry_start_def)

lemma locate_Hdr: "locate L (Hdr nm) = Some (p, w) \<Longrightarrow> p + w \<le> 8"
  by (auto simp: header_block_def split: if_splits)

lemma locate_block:
  "locate L f = Some (p, w) \<Longrightarrow> f = Fld nm \<or> f = Arr nm i \<Longrightarrow> 8 \<le> p \<and> p + w \<le> group_start L"
proof (elim disjE)
  assume "locate L f = Some (p, w)" "f = Fld nm"
  then show ?thesis by (auto dest: block_find_bounds simp: group_start_def)
next
  assume *: "locate L f = Some (p, w)" "f = Arr nm i"
  then obtain off n where o: "block_find 8 (ly_block L) nm = Some (off, w, n)" "i < n" "p = off + i * w"
    by (auto split: option.splits if_splits)
  have "i * w + w \<le> w * n" using o(2) by (metis Suc_leI add.commute mult.commute mult_Suc mult_le_mono2)
  with block_find_bounds [OF o(1)] o(3) show ?thesis by (simp add: group_start_def)
qed

lemma locate_GrpFld:
  "locate L (GrpFld i nm) = Some (p, w) \<Longrightarrow> entry_start L i \<le> p \<and> p + w \<le> entry_start L (Suc i)"
  by (auto dest!: block_find_bounds simp: entry_start_Suc)

lemma arr_disjoint: "i \<noteq> j \<Longrightarrow> i * w + w \<le> j * w \<or> j * w + w \<le> i * (w :: nat)"
  by (metis Suc_leI add.commute linorder_neqE_nat mult_Suc mult_le_mono1)

lemma arr_inside: "i < n \<Longrightarrow> i * w + w \<le> w * (n :: nat)"
  by (metis Suc_leI add.commute mult.commute mult_Suc mult_le_mono2)

lemma block_disjoint:
  assumes "locate L f = Some (p, w)" "locate L g = Some (q, v)" "f \<noteq> g"
    and "(\<exists>a. f = Fld a) \<or> (\<exists>a i. f = Arr a i)" "(\<exists>b. g = Fld b) \<or> (\<exists>b j. g = Arr b j)"
  shows "p + w \<le> q \<or> q + v \<le> p"
proof -
  let ?B = "block_find 8 (ly_block L)"
  from assms(1,4) obtain a off n i where a: "?B a = Some (off, w, n)" "p = off + i * w" "i < n"
      "f = (if n = 1 then Fld a else Arr a i)"
    by (fastforce split: option.splits if_splits)
  from assms(2,5) obtain b off' m j where b: "?B b = Some (off', v, m)" "q = off' + j * v" "j < m"
      "g = (if m = 1 then Fld b else Arr b j)"
    by (fastforce split: option.splits if_splits)
  show ?thesis
  proof (cases "a = b")
    case True
    with a b have "off' = off" "v = w" "m = n" by auto
    moreover from this True a b assms(3) have "i \<noteq> j" by (auto split: if_splits)
    ultimately show ?thesis using a b arr_disjoint [of i j w] by auto
  next
    case False
    from block_find_disjoint [OF a(1) b(1) False] arr_inside [OF a(3), of w] arr_inside [OF b(3), of v]
    show ?thesis using a b by auto
  qed
qed

lemma group_disjoint:
  assumes "locate L (GrpFld i a) = Some (p, w)" "locate L (GrpFld j b) = Some (q, v)" "(i, a) \<noteq> (j, b)"
  shows "p + w \<le> q \<or> q + v \<le> p"
proof (cases "i = j")
  case True
  with assms show ?thesis by (auto dest: block_find_disjoint)
next
  case False
  then consider "Suc i \<le> j" | "Suc j \<le> i" by linarith
  then show ?thesis
    using locate_GrpFld [OF assms(1)] locate_GrpFld [OF assms(2)]
    by cases (meson entry_start_mono order_trans)+
qed

lemma header_disjoint:
  "locate L (Hdr a) = Some (p, w) \<Longrightarrow> locate L (Hdr b) = Some (q, v) \<Longrightarrow> a \<noteq> b \<Longrightarrow>
   p + w \<le> q \<or> q + v \<le> p"
  by (auto dest: block_find_disjoint)

lemma locate_region:
  "locate L f = Some (p, w) \<Longrightarrow>
   (case f of Hdr _ \<Rightarrow> p + w \<le> 8 | Fld _ \<Rightarrow> 8 \<le> p \<and> p + w \<le> group_start L
      | Arr _ _ \<Rightarrow> 8 \<le> p \<and> p + w \<le> group_start L
      | GrpCount \<Rightarrow> p = group_start L + 2 \<and> w = 2
      | GrpFld _ _ \<Rightarrow> group_start L + 4 \<le> p)"
proof (cases f)
  case (GrpFld i nm)
  assume "locate L f = Some (p, w)"
  moreover have "group_start L + 4 \<le> entry_start L i" by (simp add: entry_start_def)
  ultimately show ?thesis using GrpFld locate_GrpFld [of L i nm p w] by simp
qed (use locate_Hdr locate_block in \<open>auto simp del: locate.simps simp: locate.simps(4)\<close>)

lemma group_start_ge: "8 \<le> group_start L"
  by (simp add: group_start_def)

lemma locate_disjoint:
  assumes "locate L f = Some (p, w)" "locate L g = Some (q, v)" "f \<noteq> g"
  shows "p + w \<le> q \<or> q + v \<le> p"
proof -
  define block where "block h \<longleftrightarrow> (\<exists>a. h = Fld a) \<or> (\<exists>a i. h = Arr a i)" for h
  consider (block) "block f" "block g"
    | (grp) i a j b where "f = GrpFld i a" "g = GrpFld j b"
    | (hdr) a b where "f = Hdr a" "g = Hdr b"
    | (apart) "\<not> (block f \<and> block g)" "\<And>i a j b. \<not> (f = GrpFld i a \<and> g = GrpFld j b)"
        "\<And>a b. \<not> (f = Hdr a \<and> g = Hdr b)"
    by blast
  then show ?thesis
  proof cases
    case block
    with block_disjoint [OF assms] show ?thesis by (simp add: block_def)
  next
    case grp
    with assms group_disjoint [of L i a p w j b q v] show ?thesis by blast
  next
    case hdr
    with assms header_disjoint [of L a p w b q v] show ?thesis by blast
  next
    case apart
    with locate_region [OF assms(1)] locate_region [OF assms(2)] group_start_ge [of L] assms(3)
    show ?thesis by (cases f; cases g) (auto simp: block_def)
  qed
qed

lemma locate_dimension:
  "locate L f = Some (p, w) \<Longrightarrow> f \<noteq> GrpCount \<Longrightarrow> p + w \<le> group_start L \<or> group_start L + 4 \<le> p"
  using locate_region [of L f p w] group_start_ge [of L] by (cases f) auto

subsection \<open>The layout of a schema is a codec\<close>

lemma sbe_codec_le:
  assumes "layout_ok L"
  shows "sbe_codec (le_codec L) (le_width L) (le_known L) (le_extent L)"
proof -
  have pos: "sbe_position (le_codec L) n = entry_start L n" for n
    by (simp add: le_codec_def entry_start_def)
  have gsize: "unat (of_nat (block_size (ly_group L)) :: u64) = block_size (ly_group L)"
    using assms by (simp add: layout_ok_def unat_of_nat take_bit_nat_below [of 16] flip: take_bit_eq_mod)
  note defs = le_codec_def le_get_def le_set_def
  show ?thesis
  proof unfold_locales
    fix f and b :: bytes and v :: u64 assume "le_known L f" "le_extent L f \<le> length b" "unat v < 2 ^ le_width L f"
    then show "sbe_get (le_codec L) f (sbe_set (le_codec L) f v b) = v"
      by (auto simp: defs le_known_def le_width_def le_extent_def le_read_write_same)
  next
    fix f g v b assume "le_known L f \<or> f = GrpCount" "le_known L g" "f \<noteq> g"
    then show "sbe_get (le_codec L) f (sbe_set (le_codec L) g v b) = sbe_get (le_codec L) f b"
      by (auto simp: defs le_known_def simp del: locate.simps split: option.splits
          intro!: le_read_write_disjoint dest: locate_disjoint)
  next
    fix n :: u16 and b :: bytes assume *: "sbe_position (le_codec L) 0 \<le> length b"
    have "le_read (group_start L + 2) 2 (le_write (group_start L + 2) 2 (ucast n) c) = ucast n"
      if "length c = length b" for c
      using * that by (intro le_read_write_same) (auto simp: pos entry_start_def)
    then show "sbe_get (le_codec L) GrpCount (sbe_group_init (le_codec L) n b) = ucast n"
      by (simp add: defs)
  next
    fix f and n :: u16 and b assume "le_known L f"
    then obtain p w where *: "locate L f = Some (p, w)" "f \<noteq> GrpCount"
      by (auto simp: le_known_def)
    have "le_read p w (le_write (group_start L + 2) 2 (ucast n) c) = le_read p w c"
      and "le_read p w (le_write (group_start L) 2 v c) = le_read p w c" for v c
      using locate_dimension [OF *] by (auto intro!: le_read_write_disjoint)
    then show "sbe_get (le_codec L) f (sbe_group_init (le_codec L) n b) = sbe_get (le_codec L) f b"
      by (simp add: defs *)
  next
    fix i and b :: bytes and n :: u16
    assume *: "i < unat n" "sbe_position (le_codec L) (Suc i) \<le> length b"
    let ?c = "le_write (group_start L) 2 (of_nat (block_size (ly_group L))) b"
    have fit: "group_start L + 4 \<le> length b" using *(2) by (simp add: pos entry_start_def)
    have "le_read (group_start L + 2) 2 (le_write (group_start L + 2) 2 (ucast n) ?c) = ucast n"
      using fit by (intro le_read_write_same) auto
    moreover have "le_read (group_start L) 2 (le_write (group_start L + 2) 2 (ucast n) ?c)
        = of_nat (block_size (ly_group L))"
      using fit assms gsize
      by (subst le_read_write_disjoint) (auto simp: layout_ok_def intro!: le_read_write_same)
    ultimately show "sbe_group_next (le_codec L) i (sbe_group_init (le_codec L) n b)"
      using * gsize by (simp add: le_codec_def entry_start_def)
  next
    fix f v b i assume "le_known L f"
    then obtain p w where *: "locate L f = Some (p, w)" "f \<noteq> GrpCount"
      by (auto simp: le_known_def)
    have "le_read (group_start L + 2) 2 (le_write p w v b) = le_read (group_start L + 2) 2 b"
      by (rule le_read_write_disjoint) (use locate_dimension [OF *] in linarith)
    moreover have "le_read (group_start L) 2 (le_write p w v b) = le_read (group_start L) 2 b"
      by (rule le_read_write_disjoint) (use locate_dimension [OF *] in linarith)
    ultimately show "sbe_group_next (le_codec L) i (sbe_set (le_codec L) f v b) = sbe_group_next (le_codec L) i b"
      by (simp add: defs *)
  next
    fix nm assume "le_known L (Hdr nm)"
    then show "le_extent L (Hdr nm) \<le> sbe_header_length (le_codec L)"
      using locate_Hdr
      by (auto simp: le_known_def le_extent_def le_codec_def simp del: locate.simps)
  next
    fix nm assume "le_known L (Fld nm)"
    then show "le_extent L (Fld nm) \<le> sbe_position (le_codec L) 0"
      by (auto simp: le_known_def le_extent_def pos entry_start_def simp del: locate.simps)
        (drule locate_region, simp)
  next
    fix nm i assume "le_known L (Arr nm i)"
    then show "le_extent L (Arr nm i) \<le> sbe_position (le_codec L) 0"
      by (auto simp: le_known_def le_extent_def pos entry_start_def simp del: locate.simps)
        (drule locate_region, simp)
  next
    fix nm i assume "le_known L (GrpFld i nm)"
    then show "le_extent L (GrpFld i nm) \<le> sbe_position (le_codec L) (Suc i)"
      using locate_GrpFld by (auto simp: le_known_def le_extent_def pos simp del: locate.simps)
  qed (simp_all add: le_codec_def le_set_def le_known_def le_width_def header_block_def
      group_start_def scalar_def split: option.splits)
qed

lemma le_get_take: "le_extent L f \<le> n \<Longrightarrow> sbe_get (le_codec L) f (take n b) = sbe_get (le_codec L) f b"
  by (auto simp: le_codec_def le_get_def le_extent_def le_read_def drop_take min_def split: option.splits)

lemma message_codec_le: "layout_ok L \<Longrightarrow> message_codec (le_codec L) (le_width L) (le_known L) (le_extent L)"
  by (intro message_codec.intro sbe_codec_le message_codec_axioms.intro le_get_take)

lemmas layout_eval = le_known_def le_width_def le_extent_def le_codec_def layout_ok_def scalar_def
  TP_NULL_U64_def

end
