(* ===== verification/Tp_Merge_Codec.thy ===== *)
theory Tp_Merge_Codec
  imports Tp_Merge_Map Tp_Sbe
begin

text \<open>
  The wire form of merge maps (src/src/common/tp_merge_map.c): the announce and request messages,
  their encoders and decoders over the generated codec, and their round trips.
\<close>

section \<open>Encoders and decoders\<close>

text \<open>The fields of one rule in the order of the setter calls.\<close>

definition sequence_rule_fields :: "sbe \<Rightarrow> tp_sequence_merge_rule \<Rightarrow> (string \<times> u64) list" where
  "sequence_rule_fields C r =
     [(''inputStreamId'', ucast (sr_input_stream_id r)), (''ruleType'', ucast (sr_rule_type r))] @
     (if sr_rule_type r = TP_MERGE_RULE_OFFSET
      then [(''offset'', ucast (sr_offset r)), (''windowSize'', sbe_null C ''windowSize'')]
      else [(''windowSize'', ucast (sr_window_size r)), (''offset'', sbe_null C ''offset'')])"

definition timestamp_rule_fields :: "sbe \<Rightarrow> tp_timestamp_merge_rule \<Rightarrow> (string \<times> u64) list" where
  "timestamp_rule_fields C r =
     [(''inputStreamId'', ucast (tr_input_stream_id r)), (''ruleType'', ucast (tr_rule_type r)),
      (''timestampSource'', ucast (tr_timestamp_source r))] @
     (if tr_rule_type r = TP_MERGE_TIME_OFFSET_NS
      then [(''offsetNs'', tr_offset_ns r), (''windowNs'', sbe_null C ''windowNs'')]
      else [(''windowNs'', tr_window_ns r), (''offsetNs'', sbe_null C ''offsetNs'')])"

text \<open>An optional 64-bit field is written as the schema's null value when it is \<open>TP_NULL_U64\<close>.\<close>

definition optional_u64 :: "sbe \<Rightarrow> string \<Rightarrow> u64 \<Rightarrow> u64" where
  "optional_u64 C nm v = (if v = TP_NULL_U64 then sbe_null C nm else v)"

definition tp_sequence_merge_map_encode ::
  "sbe \<Rightarrow> bytes \<Rightarrow> tp_sequence_merge_map \<Rightarrow> (bytes \<times> nat) res" where
  "tp_sequence_merge_map_encode C buffer mm =
     guard (length (rule_list (sm_rules mm)) > 65535)
       (EINVAL ''tp_sequence_merge_map_encode: rule count too large'')
     (let n = length (rule_list (sm_rules mm));
          b = sbe_put_header C buffer;
          b = sbe_put_block C
                [(''outStreamId'', ucast (sm_out_stream_id mm)), (''epoch'', sm_epoch mm),
                 (''staleTimeoutNs'', optional_u64 C ''staleTimeoutNs'' (sm_stale_timeout_ns mm))] b;
          b = sbe_group_init C (of_nat n) b
      in bind_res
           (sbe_put_group C tp_sequence_rule_valid (EINVAL ''tp_sequence_merge_map_encode: invalid rule'')
              (sequence_rule_fields C) 0 (rule_list (sm_rules mm)) b)
           (\<lambda>b. Inr (b, sbe_position C n)))"

definition decode_sequence_rule :: "sbe \<Rightarrow> nat \<Rightarrow> bytes \<Rightarrow> tp_sequence_merge_rule res" where
  "decode_sequence_rule C i b =
     (let fn = ''tp_sequence_merge_map_decode'';
          rule_type = sbe_get C (GrpFld i ''ruleType'') b;
          rt = ucast rule_type :: u32;
          input = ucast (sbe_get C (GrpFld i ''inputStreamId'') b) :: u32;
          offset = ucast (sbe_get C (GrpFld i ''offset'') b) :: u32;
          window = ucast (sbe_get C (GrpFld i ''windowSize'') b) :: u32;
          offset_null = ucast (sbe_null C ''offset'') :: u32;
          window_null = ucast (sbe_null C ''windowSize'') :: u32
      in guard (\<not> sbe_enum C ''ruleType'' rule_type) (EINVAL (fn @ '': invalid rule type''))
        (if rt = TP_MERGE_RULE_OFFSET then
           guard (offset = offset_null \<or> window \<noteq> window_null) (EINVAL (fn @ '': invalid offset rule''))
             (Inr \<lparr>sr_input_stream_id = input, sr_rule_type = rt, sr_offset = offset, sr_window_size = 0\<rparr>)
         else if rt = TP_MERGE_RULE_WINDOW then
           guard (window = window_null \<or> offset \<noteq> offset_null) (EINVAL (fn @ '': invalid window rule''))
             (guard (window = 0) (EINVAL (fn @ '': window size invalid''))
               (Inr \<lparr>sr_input_stream_id = input, sr_rule_type = rt, sr_offset = 0, sr_window_size = window\<rparr>))
         else Inl (EINVAL (fn @ '': unknown rule type''))))"

definition null_to_tp :: "sbe \<Rightarrow> string \<Rightarrow> u64 \<Rightarrow> u64" where
  "null_to_tp C nm v = (if v = sbe_null C nm then TP_NULL_U64 else v)"

definition tp_sequence_merge_map_decode ::
  "sbe \<Rightarrow> bytes \<Rightarrow> nat \<Rightarrow> tp_sequence_merge_map option res" where
  "tp_sequence_merge_map_decode C b max_rules =
     decode_message C ''tp_sequence_merge_map_decode'' b
     (guard (\<not> sbe_group_wrap C b) (EINVAL ''tp_sequence_merge_map_decode: rules truncated'')
     (let rule_count = unat (sbe_get C GrpCount b) in
      guard (rule_count > max_rules) (EINVAL ''tp_sequence_merge_map_decode: rule capacity exceeded'')
      (bind_res
        (sbe_get_group C (EINVAL ''tp_sequence_merge_map_decode: rules truncated'')
           (decode_sequence_rule C) 0 rule_count b)
        (\<lambda>rules. Inr (Some
           \<lparr>sm_out_stream_id = ucast (sbe_get C (Fld ''outStreamId'') b),
            sm_epoch = sbe_get C (Fld ''epoch'') b,
            sm_stale_timeout_ns = null_to_tp C ''staleTimeoutNs'' (sbe_get C (Fld ''staleTimeoutNs'') b),
            sm_rules = Some rules\<rparr>)))))"

text \<open>The request messages carry an output stream and an epoch, and no group.\<close>

definition tp_sequence_merge_map_request_encode ::
  "sbe \<Rightarrow> bytes \<Rightarrow> u32 \<Rightarrow> u64 \<Rightarrow> (bytes \<times> nat) res" where
  "tp_sequence_merge_map_request_encode C buffer out_stream_id epoch =
     Inr (sbe_put_block C [(''outStreamId'', ucast out_stream_id), (''epoch'', epoch)] (sbe_put_header C buffer),
          unat (sbe_block_length C) + sbe_header_length C)"

definition tp_sequence_merge_map_request_decode :: "sbe \<Rightarrow> bytes \<Rightarrow> (u32 \<times> u64) option res" where
  "tp_sequence_merge_map_request_decode C b =
     decode_message C ''tp_sequence_merge_map_request_decode'' b
       (Inr (Some (ucast (sbe_get C (Fld ''outStreamId'') b), sbe_get C (Fld ''epoch'') b)))"

definition tp_timestamp_merge_map_encode ::
  "sbe \<Rightarrow> bytes \<Rightarrow> tp_timestamp_merge_map \<Rightarrow> (bytes \<times> nat) res" where
  "tp_timestamp_merge_map_encode C buffer mm =
     guard (length (rule_list (tm_rules mm)) > 65535)
       (EINVAL ''tp_timestamp_merge_map_encode: rule count too large'')
     (let n = length (rule_list (tm_rules mm));
          b = sbe_put_header C buffer;
          b = sbe_put_block C
                [(''outStreamId'', ucast (tm_out_stream_id mm)), (''epoch'', tm_epoch mm),
                 (''clockDomain'', ucast (tm_clock_domain mm)),
                 (''staleTimeoutNs'', optional_u64 C ''staleTimeoutNs'' (tm_stale_timeout_ns mm)),
                 (''latenessNs'', optional_u64 C ''latenessNs'' (tm_lateness_ns mm))] b;
          b = sbe_group_init C (of_nat n) b
      in bind_res
           (sbe_put_group C tp_timestamp_rule_valid (EINVAL ''tp_timestamp_merge_map_encode: invalid rule'')
              (timestamp_rule_fields C) 0 (rule_list (tm_rules mm)) b)
           (\<lambda>b. Inr (b, sbe_position C n)))"

definition decode_timestamp_rule :: "sbe \<Rightarrow> nat \<Rightarrow> bytes \<Rightarrow> tp_timestamp_merge_rule res" where
  "decode_timestamp_rule C i b =
     (let fn = ''tp_timestamp_merge_map_decode'';
          rule_type = sbe_get C (GrpFld i ''ruleType'') b;
          source = sbe_get C (GrpFld i ''timestampSource'') b;
          rt = ucast rule_type :: u32;
          input = ucast (sbe_get C (GrpFld i ''inputStreamId'') b) :: u32;
          offset = sbe_get C (GrpFld i ''offsetNs'') b;
          window = sbe_get C (GrpFld i ''windowNs'') b;
          offset_null = sbe_null C ''offsetNs'';
          window_null = sbe_null C ''windowNs''
      in guard (\<not> sbe_enum C ''ruleType'' rule_type) (EINVAL (fn @ '': invalid rule type''))
        (guard (\<not> sbe_enum C ''timestampSource'' source) (EINVAL (fn @ '': invalid timestamp source''))
        (if rt = TP_MERGE_TIME_OFFSET_NS then
           guard (offset = offset_null \<or> window \<noteq> window_null) (EINVAL (fn @ '': invalid offset rule''))
             (Inr \<lparr>tr_input_stream_id = input, tr_rule_type = rt, tr_timestamp_source = ucast source,
                   tr_offset_ns = offset, tr_window_ns = 0\<rparr>)
         else if rt = TP_MERGE_TIME_WINDOW_NS then
           guard (window = window_null \<or> offset \<noteq> offset_null) (EINVAL (fn @ '': invalid window rule''))
             (guard (window = 0) (EINVAL (fn @ '': window size invalid''))
               (Inr \<lparr>tr_input_stream_id = input, tr_rule_type = rt, tr_timestamp_source = ucast source,
                     tr_offset_ns = 0, tr_window_ns = window\<rparr>))
         else Inl (EINVAL (fn @ '': unknown rule type'')))))"

definition tp_timestamp_merge_map_decode ::
  "sbe \<Rightarrow> bytes \<Rightarrow> nat \<Rightarrow> tp_timestamp_merge_map option res" where
  "tp_timestamp_merge_map_decode C b max_rules =
     decode_message C ''tp_timestamp_merge_map_decode'' b
     (guard (\<not> sbe_enum C ''clockDomain'' (sbe_get C (Fld ''clockDomain'') b))
        (EINVAL ''tp_timestamp_merge_map_decode: invalid clock domain'')
     (guard (\<not> sbe_group_wrap C b) (EINVAL ''tp_timestamp_merge_map_decode: rules truncated'')
     (let rule_count = unat (sbe_get C GrpCount b) in
      guard (rule_count > max_rules) (EINVAL ''tp_timestamp_merge_map_decode: rule capacity exceeded'')
      (bind_res
        (sbe_get_group C (EINVAL ''tp_timestamp_merge_map_decode: rules truncated'')
           (decode_timestamp_rule C) 0 rule_count b)
        (\<lambda>rules. Inr (Some
           \<lparr>tm_out_stream_id = ucast (sbe_get C (Fld ''outStreamId'') b),
            tm_epoch = sbe_get C (Fld ''epoch'') b,
            tm_stale_timeout_ns = null_to_tp C ''staleTimeoutNs'' (sbe_get C (Fld ''staleTimeoutNs'') b),
            tm_clock_domain = ucast (sbe_get C (Fld ''clockDomain'') b),
            tm_lateness_ns = null_to_tp C ''latenessNs'' (sbe_get C (Fld ''latenessNs'') b),
            tm_rules = Some rules\<rparr>))))))"

definition tp_timestamp_merge_map_request_encode ::
  "sbe \<Rightarrow> bytes \<Rightarrow> u32 \<Rightarrow> u64 \<Rightarrow> (bytes \<times> nat) res" where
  "tp_timestamp_merge_map_request_encode C buffer out_stream_id epoch =
     Inr (sbe_put_block C [(''outStreamId'', ucast out_stream_id), (''epoch'', epoch)] (sbe_put_header C buffer),
          unat (sbe_block_length C) + sbe_header_length C)"

definition tp_timestamp_merge_map_request_decode :: "sbe \<Rightarrow> bytes \<Rightarrow> (u32 \<times> u64) option res" where
  "tp_timestamp_merge_map_request_decode C b =
     decode_message C ''tp_timestamp_merge_map_request_decode'' b
       (Inr (Some (ucast (sbe_get C (Fld ''outStreamId'') b), sbe_get C (Fld ''epoch'') b)))"

section \<open>Round trips\<close>

text \<open>A decoded rule carries only the parameter its type uses; the other one is zero.\<close>

definition sequence_rule_wire :: "tp_sequence_merge_rule \<Rightarrow> tp_sequence_merge_rule" where
  "sequence_rule_wire r = (if sr_rule_type r = TP_MERGE_RULE_OFFSET then r\<lparr>sr_window_size := 0\<rparr> else r\<lparr>sr_offset := 0\<rparr>)"

definition timestamp_rule_wire :: "tp_timestamp_merge_rule \<Rightarrow> tp_timestamp_merge_rule" where
  "timestamp_rule_wire r = (if tr_rule_type r = TP_MERGE_TIME_OFFSET_NS then r\<lparr>tr_window_ns := 0\<rparr> else r\<lparr>tr_offset_ns := 0\<rparr>)"

text \<open>
  The rules an encoder may be given if a decoder is to accept them: valid, and with a parameter
  that is not the null value of its field.
\<close>

definition sequence_rule_wireable :: "sbe \<Rightarrow> tp_sequence_merge_rule \<Rightarrow> bool" where
  "sequence_rule_wireable C r \<longleftrightarrow> tp_sequence_rule_valid r \<and>
     (if sr_rule_type r = TP_MERGE_RULE_OFFSET then sr_offset r \<noteq> ucast (sbe_null C ''offset'')
      else sr_window_size r \<noteq> ucast (sbe_null C ''windowSize''))"

definition timestamp_rule_wireable :: "sbe \<Rightarrow> tp_timestamp_merge_rule \<Rightarrow> bool" where
  "timestamp_rule_wireable C r \<longleftrightarrow> tp_timestamp_rule_valid r \<and>
     (if tr_rule_type r = TP_MERGE_TIME_OFFSET_NS then tr_offset_ns r \<noteq> sbe_null C ''offsetNs''
      else tr_window_ns r \<noteq> sbe_null C ''windowNs'')"

lemma null_to_tp_optional:
  "sbe_null C nm = TP_NULL_U64 \<Longrightarrow> null_to_tp C nm (optional_u64 C nm v) = v"
  by (simp add: null_to_tp_def optional_u64_def)

lemma decode_sequence_rule_of:
  assumes "\<forall>(nm, v)\<in>set (sequence_rule_fields C r). sbe_get C (GrpFld i nm) b = v"
    and "sequence_rule_wireable C r" "sbe_enum C ''ruleType'' 0" "sbe_enum C ''ruleType'' 1"
  shows "decode_sequence_rule C i b = Inr (sequence_rule_wire r)"
  using assms
  by (auto simp: decode_sequence_rule_def sequence_rule_fields_def sequence_rule_wireable_def Let_def
      tp_sequence_rule_valid_def sequence_rule_wire_def merge_enum_defs split: if_splits)

lemma decode_timestamp_rule_of:
  assumes "\<forall>(nm, v)\<in>set (timestamp_rule_fields C r). sbe_get C (GrpFld i nm) b = v"
    and "timestamp_rule_wireable C r" "sbe_enum C ''ruleType'' 0" "sbe_enum C ''ruleType'' 1"
    and "sbe_enum C ''timestampSource'' 1" "sbe_enum C ''timestampSource'' 2"
  shows "decode_timestamp_rule C i b = Inr (timestamp_rule_wire r)"
  using assms
  by (auto simp: decode_timestamp_rule_def timestamp_rule_fields_def timestamp_rule_wireable_def Let_def
      tp_timestamp_rule_valid_def timestamp_rule_wire_def merge_enum_defs split: if_splits)

text \<open>The contract of the sequence announce message's codec.\<close>

locale sequence_map_codec = sbe_codec +
  assumes block_fields: "known (Fld ''outStreamId'')" "known (Fld ''epoch'')" "known (Fld ''staleTimeoutNs'')"
    and block_widths: "width (Fld ''outStreamId'') = 32" "width (Fld ''epoch'') = 64" "width (Fld ''staleTimeoutNs'') = 64"
    and rule_fields: "known (GrpFld i ''inputStreamId'')" "known (GrpFld i ''ruleType'')"
      "known (GrpFld i ''offset'')" "known (GrpFld i ''windowSize'')"
    and rule_widths: "width (GrpFld i ''inputStreamId'') = 32" "width (GrpFld i ''ruleType'') = 8"
      "width (GrpFld i ''offset'') = 32" "width (GrpFld i ''windowSize'') = 32"
    and rule_types: "sbe_enum C ''ruleType'' 0" "sbe_enum C ''ruleType'' 1"
    and nulls: "unat (sbe_null C ''offset'') < 2 ^ 32" "unat (sbe_null C ''windowSize'') < 2 ^ 32"
      "sbe_null C ''staleTimeoutNs'' = TP_NULL_U64"
begin

lemma rule_entry_ok: "tp_sequence_rule_valid r \<Longrightarrow> entry_ok i (sequence_rule_fields C r)"
  using nulls
  by (auto simp: entry_ok_def sequence_rule_fields_def rule_fields rule_widths tp_sequence_rule_valid_def
      merge_enum_defs split: if_splits)

definition sequence_block :: "tp_sequence_merge_map \<Rightarrow> (string \<times> u64) list" where
  "sequence_block mm = [(''outStreamId'', ucast (sm_out_stream_id mm)), (''epoch'', sm_epoch mm),
     (''staleTimeoutNs'', optional_u64 C ''staleTimeoutNs'' (sm_stale_timeout_ns mm))]"

lemma encodes:
  assumes "\<forall>r\<in>set (rule_list (sm_rules mm)). tp_sequence_rule_valid r"
    and "length (rule_list (sm_rules mm)) \<le> 65535"
    and "sbe_position C (length (rule_list (sm_rules mm))) \<le> length buffer"
  shows "\<exists>b. tp_sequence_merge_map_encode C buffer mm = Inr (b, sbe_position C (length (rule_list (sm_rules mm)))) \<and>
    message_holds b (length buffer) (sequence_block mm) (sequence_rule_fields C) (rule_list (sm_rules mm))"
proof -
  have kvs: "block_ok (sequence_block mm)" by (simp add: block_ok_def block_fields block_widths sequence_block_def)
  have valid: "\<forall>r\<in>set (rule_list (sm_rules mm)). tp_sequence_rule_valid r \<and> (\<forall>i. entry_ok i (sequence_rule_fields C r))"
    using assms(1) rule_entry_ok by simp
  obtain b where "sbe_put_group C tp_sequence_rule_valid
      (EINVAL ''tp_sequence_merge_map_encode: invalid rule'') (sequence_rule_fields C) 0 (rule_list (sm_rules mm))
      (sbe_group_init C (of_nat (length (rule_list (sm_rules mm)))) (sbe_put_block C (sequence_block mm) (sbe_put_header C buffer))) = Inr b"
    and "message_holds b (length buffer) (sequence_block mm) (sequence_rule_fields C) (rule_list (sm_rules mm))"
    using write_message [OF kvs valid assms(2,3)] by blast
  with assms(2) show ?thesis by (auto simp: tp_sequence_merge_map_encode_def sequence_block_def Let_def)
qed

lemma encode_decode:
  fixes mm :: tp_sequence_merge_map
  defines "rules \<equiv> rule_list (sm_rules mm)"
  assumes "\<forall>r\<in>set rules. sequence_rule_wireable C r"
    and "length rules \<le> 65535" "length rules \<le> max_rules"
    and "sbe_position C (length rules) \<le> length buffer"
  shows "\<exists>b. tp_sequence_merge_map_encode C buffer mm = Inr (b, sbe_position C (length rules)) \<and>
    length b = length buffer \<and>
    tp_sequence_merge_map_decode C b max_rules =
      Inr (Some (mm\<lparr>sm_rules := Some (map sequence_rule_wire rules)\<rparr>))"
proof -
  have valid: "\<forall>r\<in>set rules. tp_sequence_rule_valid r" using assms(2) by (simp add: sequence_rule_wireable_def)
  obtain b where b: "tp_sequence_merge_map_encode C buffer mm = Inr (b, sbe_position C (length rules))"
    "message_holds b (length buffer) (sequence_block mm) (sequence_rule_fields C) rules"
    using encodes [OF valid [unfolded rules_def] assms(3,5) [unfolded rules_def]] by (auto simp: rules_def)
  have rules: "sbe_get_group C (EINVAL ''tp_sequence_merge_map_decode: rules truncated'')
      (decode_sequence_rule C) 0 (length (map sequence_rule_wire rules)) b = Inr (map sequence_rule_wire rules)"
    by (rule sbe_get_group_map)
      (use b(2) assms(2) decode_sequence_rule_of rule_types in \<open>auto simp: message_holds_def\<close>)
  have "tp_sequence_merge_map_decode C b max_rules =
      Inr (Some (mm\<lparr>sm_rules := Some (map sequence_rule_wire rules)\<rparr>))"
    using b(2) rules assms(4) nulls(3)
    by (simp add: tp_sequence_merge_map_decode_def message_holds_def null_to_tp_optional
        decode_message_ok sequence_block_def)
  with b show ?thesis by (auto simp: message_holds_def)
qed

lemma null_offset:
  assumes "sm_rules mm = Some (r # rs)" "\<forall>x\<in>set (r # rs). tp_sequence_rule_valid x"
    and "sr_rule_type r = TP_MERGE_RULE_OFFSET" "sr_offset r = ucast (sbe_null C ''offset'')"
    and "length (r # rs) \<le> 65535" "length (r # rs) \<le> max_rules"
    and "sbe_position C (length (r # rs)) \<le> length buffer"
  shows "\<exists>b. tp_sequence_merge_map_encode C buffer mm = Inr (b, sbe_position C (length (r # rs))) \<and>
    tp_sequence_merge_map_decode C b max_rules = Inl (EINVAL ''tp_sequence_merge_map_decode: invalid offset rule'')"
proof -
  have rl: "rule_list (sm_rules mm) = r # rs" using assms(1) by simp
  obtain b where b: "tp_sequence_merge_map_encode C buffer mm = Inr (b, sbe_position C (length (r # rs)))"
    "message_holds b (length buffer) (sequence_block mm) (sequence_rule_fields C) (r # rs)"
    using encodes [of mm, unfolded rl, OF assms(2,5,7)] by blast
  have "\<forall>(nm, v)\<in>set (sequence_rule_fields C r). sbe_get C (GrpFld 0 nm) b = v"
    using b(2) by (auto simp: message_holds_def)
  then have "decode_sequence_rule C 0 b = Inl (EINVAL ''tp_sequence_merge_map_decode: invalid offset rule'')"
    using assms(3,4) rule_types
    by (auto simp: decode_sequence_rule_def sequence_rule_fields_def Let_def merge_enum_defs)
  then have "tp_sequence_merge_map_decode C b max_rules = Inl (EINVAL ''tp_sequence_merge_map_decode: invalid offset rule'')"
    using b(2) assms(6) by (auto simp: tp_sequence_merge_map_decode_def message_holds_def decode_message_ok)
  with b(1) show ?thesis by blast
qed

end

text \<open>The contract of the timestamp announce message's codec.\<close>

locale timestamp_map_codec = sbe_codec +
  assumes block_fields: "known (Fld ''outStreamId'')" "known (Fld ''epoch'')" "known (Fld ''staleTimeoutNs'')"
      "known (Fld ''clockDomain'')" "known (Fld ''latenessNs'')"
    and block_widths: "width (Fld ''outStreamId'') = 32" "width (Fld ''epoch'') = 64" "width (Fld ''staleTimeoutNs'') = 64"
      "width (Fld ''clockDomain'') = 8" "width (Fld ''latenessNs'') = 64"
    and rule_fields: "known (GrpFld i ''inputStreamId'')" "known (GrpFld i ''ruleType'')"
      "known (GrpFld i ''timestampSource'')" "known (GrpFld i ''offsetNs'')" "known (GrpFld i ''windowNs'')"
    and rule_widths: "width (GrpFld i ''inputStreamId'') = 32" "width (GrpFld i ''ruleType'') = 8"
      "width (GrpFld i ''timestampSource'') = 8" "width (GrpFld i ''offsetNs'') = 64" "width (GrpFld i ''windowNs'') = 64"
    and enums: "sbe_enum C ''ruleType'' 0" "sbe_enum C ''ruleType'' 1"
      "sbe_enum C ''timestampSource'' 1" "sbe_enum C ''timestampSource'' 2"
    and nulls: "sbe_null C ''staleTimeoutNs'' = TP_NULL_U64" "sbe_null C ''latenessNs'' = TP_NULL_U64"
begin

lemma rule_entry_ok: "tp_timestamp_rule_valid r \<Longrightarrow> entry_ok i (timestamp_rule_fields C r)"
  by (auto simp: entry_ok_def timestamp_rule_fields_def rule_fields rule_widths tp_timestamp_rule_valid_def
      merge_enum_defs split: if_splits)

lemma encode_decode:
  fixes mm :: tp_timestamp_merge_map
  defines "rules \<equiv> rule_list (tm_rules mm)"
  assumes "\<forall>r\<in>set rules. timestamp_rule_wireable C r"
    and "length rules \<le> 65535" "length rules \<le> max_rules"
    and "sbe_position C (length rules) \<le> length buffer"
    and "sbe_enum C ''clockDomain'' (ucast (tm_clock_domain mm))"
  shows "\<exists>b. tp_timestamp_merge_map_encode C buffer mm = Inr (b, sbe_position C (length rules)) \<and>
    length b = length buffer \<and>
    tp_timestamp_merge_map_decode C b max_rules =
      Inr (Some (mm\<lparr>tm_rules := Some (map timestamp_rule_wire rules)\<rparr>))"
proof -
  let ?kvs = "[(''outStreamId'', ucast (tm_out_stream_id mm)), (''epoch'', tm_epoch mm),
    (''clockDomain'', ucast (tm_clock_domain mm)),
    (''staleTimeoutNs'', optional_u64 C ''staleTimeoutNs'' (tm_stale_timeout_ns mm)),
    (''latenessNs'', optional_u64 C ''latenessNs'' (tm_lateness_ns mm))]"
  have kvs: "block_ok ?kvs" by (simp add: block_ok_def block_fields block_widths)
  have valid: "\<forall>r\<in>set rules. tp_timestamp_rule_valid r \<and> (\<forall>i. entry_ok i (timestamp_rule_fields C r))"
    using assms(2) rule_entry_ok by (simp add: timestamp_rule_wireable_def)
  obtain b where b: "sbe_put_group C tp_timestamp_rule_valid
      (EINVAL ''tp_timestamp_merge_map_encode: invalid rule'') (timestamp_rule_fields C) 0 rules
      (sbe_group_init C (of_nat (length rules)) (sbe_put_block C ?kvs (sbe_put_header C buffer))) = Inr b"
    and msg: "message_holds b (length buffer) ?kvs (timestamp_rule_fields C) rules"
    using write_message [OF kvs valid assms(3,5)] by blast
  have rules: "sbe_get_group C (EINVAL ''tp_timestamp_merge_map_decode: rules truncated'')
      (decode_timestamp_rule C) 0 (length (map timestamp_rule_wire rules)) b = Inr (map timestamp_rule_wire rules)"
    by (rule sbe_get_group_map)
      (use msg assms(2) decode_timestamp_rule_of enums in \<open>auto simp: message_holds_def\<close>)
  have "tp_timestamp_merge_map_encode C buffer mm = Inr (b, sbe_position C (length rules))"
    using b assms(3) by (simp add: tp_timestamp_merge_map_encode_def rules_def Let_def)
  moreover have "tp_timestamp_merge_map_decode C b max_rules =
      Inr (Some (mm\<lparr>tm_rules := Some (map timestamp_rule_wire rules)\<rparr>))"
    using msg rules assms(4,6) nulls
    by (simp add: tp_timestamp_merge_map_decode_def message_holds_def null_to_tp_optional
        decode_message_ok)
  ultimately show ?thesis using msg by (auto simp: message_holds_def)
qed

end

text \<open>The contract of the two request messages' codecs.\<close>

locale map_request_codec = sbe_codec +
  assumes request_fields: "known (Fld ''outStreamId'')" "known (Fld ''epoch'')"
    and request_widths: "width (Fld ''outStreamId'') = 32" "width (Fld ''epoch'') = 64"
    and request_extents: "extent (Fld ''outStreamId'') \<le> sbe_header_length C + unat (sbe_block_length C)"
      "extent (Fld ''epoch'') \<le> sbe_header_length C + unat (sbe_block_length C)"
begin

lemma request_written:
  fixes s :: u32 and e :: u64 and buffer :: bytes
  defines "b \<equiv> sbe_put_block C [(''outStreamId'', ucast s), (''epoch'', e)] (sbe_put_header C buffer)"
  assumes "sbe_header_length C + unat (sbe_block_length C) \<le> length buffer"
  shows "header_ok C b" "sbe_get C (Fld ''outStreamId'') b = ucast s" "sbe_get C (Fld ''epoch'') b = e"
proof -
  have ok: "block_ok [(''outStreamId'', ucast s), (''epoch'', e)]"
    by (simp add: block_ok_def request_fields request_widths)
  have ext: "\<forall>(nm, v)\<in>set [(''outStreamId'', ucast s), (''epoch'', e)]. extent (Fld nm) \<le> length buffer"
    "sbe_header_length C \<le> length buffer"
    using assms(2) request_extents by auto
  show "header_ok C b" "sbe_get C (Fld ''outStreamId'') b = ucast s" "sbe_get C (Fld ''epoch'') b = e"
    unfolding b_def using block_written [OF ok ext] by simp_all
qed

end

section \<open>The layouts of the join-barrier schema\<close>

definition sequence_map_layout :: sbe_layout where
  "sequence_map_layout =
     \<lparr>ly_template = 1, ly_schema = 903, ly_version = 1,
      ly_block = [(''outStreamId'', 4, 1), (''epoch'', 8, 1), (''staleTimeoutNs'', 8, 1)],
      ly_group = [(''inputStreamId'', 4, 1), (''ruleType'', 1, 1), (''offset'', 4, 1), (''windowSize'', 4, 1)],
      ly_enums = [(''ruleType'', [0, 1, 255])],
      ly_nulls = [(''staleTimeoutNs'', 0xFFFFFFFFFFFFFFFF), (''offset'', 0x80000000), (''windowSize'', 0xFFFFFFFF)]\<rparr>"

definition timestamp_map_layout :: sbe_layout where
  "timestamp_map_layout =
     \<lparr>ly_template = 3, ly_schema = 903, ly_version = 1,
      ly_block = [(''outStreamId'', 4, 1), (''epoch'', 8, 1), (''staleTimeoutNs'', 8, 1),
        (''clockDomain'', 1, 1), (''latenessNs'', 8, 1)],
      ly_group = [(''inputStreamId'', 4, 1), (''ruleType'', 1, 1), (''timestampSource'', 1, 1),
        (''offsetNs'', 8, 1), (''windowNs'', 8, 1)],
      ly_enums = [(''ruleType'', [0, 1, 255]), (''timestampSource'', [1, 2, 255]), (''clockDomain'', [1, 2, 255])],
      ly_nulls = [(''staleTimeoutNs'', 0xFFFFFFFFFFFFFFFF), (''latenessNs'', 0xFFFFFFFFFFFFFFFF),
        (''offsetNs'', 0x8000000000000000), (''windowNs'', 0xFFFFFFFFFFFFFFFF)]\<rparr>"

definition sequence_request_layout :: sbe_layout where
  "sequence_request_layout =
     \<lparr>ly_template = 2, ly_schema = 903, ly_version = 1,
      ly_block = [(''outStreamId'', 4, 1), (''epoch'', 8, 1)], ly_group = [], ly_enums = [], ly_nulls = []\<rparr>"

definition timestamp_request_layout :: sbe_layout where
  "timestamp_request_layout = sequence_request_layout\<lparr>ly_template := 4\<rparr>"

interpretation seq_map: sequence_map_codec "le_codec sequence_map_layout" "le_width sequence_map_layout"
  "le_known sequence_map_layout" "le_extent sequence_map_layout"
  by (intro sequence_map_codec.intro sbe_codec_le sequence_map_codec_axioms.intro)
    (simp_all add: layout_eval sequence_map_layout_def)

interpretation ts_map: timestamp_map_codec "le_codec timestamp_map_layout" "le_width timestamp_map_layout"
  "le_known timestamp_map_layout" "le_extent timestamp_map_layout"
  by (intro timestamp_map_codec.intro sbe_codec_le timestamp_map_codec_axioms.intro)
    (simp_all add: layout_eval timestamp_map_layout_def)

interpretation seq_req: map_request_codec "le_codec sequence_request_layout" "le_width sequence_request_layout"
  "le_known sequence_request_layout" "le_extent sequence_request_layout"
  by (intro map_request_codec.intro sbe_codec_le map_request_codec_axioms.intro)
    (simp_all add: layout_eval sequence_request_layout_def)

interpretation ts_req: map_request_codec "le_codec timestamp_request_layout" "le_width timestamp_request_layout"
  "le_known timestamp_request_layout" "le_extent timestamp_request_layout"
  by (intro map_request_codec.intro sbe_codec_le map_request_codec_axioms.intro)
    (simp_all add: layout_eval timestamp_request_layout_def sequence_request_layout_def)

section \<open>Properties of the wire form\<close>

text \<open>
  A sequence map that is encoded into a large enough buffer is decoded to the same map, whatever
  the buffer held before; of each rule the parameter its type does not use is read back as zero.
  The map may have up to 65535 rules, each valid and with a parameter other than the null value of
  its field.
\<close>

theorem sequence_map_roundtrip:
  assumes "sequence_map_codec C width known extent"
    and "\<forall>r\<in>set (rule_list (sm_rules mm)). sequence_rule_wireable C r"
    and "length (rule_list (sm_rules mm)) \<le> 65535" "length (rule_list (sm_rules mm)) \<le> max_rules"
    and "sbe_position C (length (rule_list (sm_rules mm))) \<le> length buffer"
  shows "\<exists>b. tp_sequence_merge_map_encode C buffer mm = Inr (b, sbe_position C (length (rule_list (sm_rules mm)))) \<and>
    length b = length buffer \<and>
    tp_sequence_merge_map_decode C b max_rules =
      Inr (Some (mm\<lparr>sm_rules := Some (map sequence_rule_wire (rule_list (sm_rules mm)))\<rparr>))"
  using assms by (rule sequence_map_codec.encode_decode)

text \<open>
  The same for timestamp maps, whose clock domain is one the schema knows.
\<close>

theorem timestamp_map_roundtrip:
  assumes "timestamp_map_codec C width known extent"
    and "\<forall>r\<in>set (rule_list (tm_rules mm)). timestamp_rule_wireable C r"
    and "length (rule_list (tm_rules mm)) \<le> 65535" "length (rule_list (tm_rules mm)) \<le> max_rules"
    and "sbe_position C (length (rule_list (tm_rules mm))) \<le> length buffer"
    and "sbe_enum C ''clockDomain'' (ucast (tm_clock_domain mm))"
  shows "\<exists>b. tp_timestamp_merge_map_encode C buffer mm = Inr (b, sbe_position C (length (rule_list (tm_rules mm)))) \<and>
    length b = length buffer \<and>
    tp_timestamp_merge_map_decode C b max_rules =
      Inr (Some (mm\<lparr>tm_rules := Some (map timestamp_rule_wire (rule_list (tm_rules mm)))\<rparr>))"
  using assms by (rule timestamp_map_codec.encode_decode)

text \<open>
  Requests for a map of either kind are decoded to the stream and epoch that were encoded.
\<close>

theorem map_request_roundtrip:
  assumes "map_request_codec C width known extent"
    and "sbe_header_length C + unat (sbe_block_length C) \<le> length buffer"
  shows "(\<exists>b. tp_sequence_merge_map_request_encode C buffer s e = Inr (b, unat (sbe_block_length C) + sbe_header_length C) \<and>
      tp_sequence_merge_map_request_decode C b = Inr (Some (s, e))) \<and>
    (\<exists>b. tp_timestamp_merge_map_request_encode C buffer s e = Inr (b, unat (sbe_block_length C) + sbe_header_length C) \<and>
      tp_timestamp_merge_map_request_decode C b = Inr (Some (s, e)))"
  using map_request_codec.request_written [OF assms, of s e]
  by (simp add: tp_sequence_merge_map_request_encode_def tp_sequence_merge_map_request_decode_def
      tp_timestamp_merge_map_request_encode_def tp_timestamp_merge_map_request_decode_def decode_message_ok)

lemma decode_sequence_rule_valid: "decode_sequence_rule C i b = Inr r \<Longrightarrow> tp_sequence_rule_valid r"
  by (auto simp: decode_sequence_rule_def tp_sequence_rule_valid_def Let_def res_simps split: if_splits)

text \<open>
  Whatever bytes arrive, a sequence map that the decoder delivers has no more rules than the
  caller has room for, and each of them is valid; the decoder trusts nothing else of the message.
\<close>

theorem sequence_map_decode_sound:
  assumes "tp_sequence_merge_map_decode C b max_rules = Inr (Some mm)"
  shows "\<exists>rules. sm_rules mm = Some rules \<and> length rules \<le> max_rules \<and> (\<forall>r\<in>set rules. tp_sequence_rule_valid r)"
proof -
  from assms obtain rules where
    "sbe_get_group C (EINVAL ''tp_sequence_merge_map_decode: rules truncated'')
       (decode_sequence_rule C) 0 (unat (sbe_get C GrpCount b)) b = Inr rules"
    "sm_rules mm = Some rules" "unat (sbe_get C GrpCount b) \<le> max_rules"
    by (auto simp: tp_sequence_merge_map_decode_def decode_message_def Let_def res_simps split: if_splits)
  with sbe_get_group_all [OF this(1), of tp_sequence_rule_valid] decode_sequence_rule_valid show ?thesis by auto
qed

text \<open>
  The encoder and the decoder do not agree on every valid rule: a map that starts with an offset
  rule whose offset is the null value of the field (the smallest 32-bit integer) passes the
  encoder's check and is encoded, but the decoder rejects the message.
\<close>

theorem sequence_map_null_offset_rejected:
  assumes "sequence_map_codec C width known extent"
    and "sm_rules mm = Some (r # rs)" "\<forall>x\<in>set (r # rs). tp_sequence_rule_valid x"
    and "sr_rule_type r = TP_MERGE_RULE_OFFSET" "sr_offset r = ucast (sbe_null C ''offset'')"
    and "length (r # rs) \<le> 65535" "length (r # rs) \<le> max_rules"
    and "sbe_position C (length (r # rs)) \<le> length buffer"
  shows "\<exists>b. tp_sequence_merge_map_encode C buffer mm = Inr (b, sbe_position C (length (r # rs))) \<and>
    tp_sequence_merge_map_decode C b max_rules = Inl (EINVAL ''tp_sequence_merge_map_decode: invalid offset rule'')"
  using assms by (rule sequence_map_codec.null_offset)

end
