(* ===== verification/Tp_Join_Barrier.thy ===== *)
theory Tp_Join_Barrier
  imports Tp_Merge_Map
begin

text \<open>
  The join barrier (src/src/common/tp_join_barrier.c): per-input progress cursors, the rules of
  the active merge map, and the readiness tests for a sequence, a timestamp and a latest-value
  join. Signed arithmetic of the readiness tests is done on the mathematical value, with a
  \<open>UB\<close> outcome where the C addition would overflow; unsigned arithmetic wraps.
\<close>

section \<open>State\<close>

definition TP_JOIN_BARRIER_SEQUENCE :: u32 where "TP_JOIN_BARRIER_SEQUENCE = 1"
definition TP_JOIN_BARRIER_TIMESTAMP :: u32 where "TP_JOIN_BARRIER_TIMESTAMP = 2"
definition TP_JOIN_BARRIER_LATEST_VALUE :: u32 where "TP_JOIN_BARRIER_LATEST_VALUE = 3"
definition TP_LATEST_ORDERING_SEQUENCE :: u32 where "TP_LATEST_ORDERING_SEQUENCE = 1"
definition TP_LATEST_ORDERING_TIMESTAMP :: u32 where "TP_LATEST_ORDERING_TIMESTAMP = 2"

lemmas barrier_enum_defs = TP_JOIN_BARRIER_SEQUENCE_def TP_JOIN_BARRIER_TIMESTAMP_def
  TP_JOIN_BARRIER_LATEST_VALUE_def TP_LATEST_ORDERING_SEQUENCE_def TP_LATEST_ORDERING_TIMESTAMP_def

record tp_join_input_state =
  js_stream_id :: u32
  js_timestamp_source :: u32
  js_observed_seq :: u64
  js_processed_seq :: u64
  js_observed_time_ns :: u64
  js_processed_time_ns :: u64
  js_min_seq_in_epoch :: u64
  js_last_observed_update_ns :: u64
  js_last_processed_update_ns :: u64
  js_has_observed_seq :: bool
  js_has_processed_seq :: bool
  js_has_observed_time :: bool
  js_has_processed_time :: bool
  js_has_min_seq_in_epoch :: bool
  js_latest_valid :: bool

record tp_latest_selection =
  ls_stream_id :: u32
  ls_seq :: u64
  ls_timestamp_ns :: u64
  ls_timestamp_source :: u32

text \<open>The three arrays have \<open>rule_capacity\<close> elements; freed arrays are empty.\<close>

record tp_join_barrier =
  jb_type :: u32
  jb_out_stream_id :: u32
  jb_epoch :: u64
  jb_stale_timeout_ns :: u64
  jb_lateness_ns :: u64
  jb_last_out_time_ns :: u64
  jb_clock_domain :: u8
  jb_allow_stale :: bool
  jb_require_processed :: bool
  jb_has_last_out_time :: bool
  jb_latest_ordering :: u32
  jb_rule_capacity :: nat
  jb_rule_count :: nat
  jb_sequence_rules :: "tp_sequence_merge_rule list"
  jb_timestamp_rules :: "tp_timestamp_merge_rule list"
  jb_state :: "tp_join_input_state list"

text \<open>Elements after \<open>memset(..., 0, ...)\<close>.\<close>

definition zero_input_state :: tp_join_input_state where
  "zero_input_state =
     \<lparr>js_stream_id = 0, js_timestamp_source = 0, js_observed_seq = 0, js_processed_seq = 0,
      js_observed_time_ns = 0, js_processed_time_ns = 0, js_min_seq_in_epoch = 0,
      js_last_observed_update_ns = 0, js_last_processed_update_ns = 0, js_has_observed_seq = False,
      js_has_processed_seq = False, js_has_observed_time = False, js_has_processed_time = False,
      js_has_min_seq_in_epoch = False, js_latest_valid = False\<rparr>"

definition zero_sequence_rule :: tp_sequence_merge_rule where
  "zero_sequence_rule = \<lparr>sr_input_stream_id = 0, sr_rule_type = 0, sr_offset = 0, sr_window_size = 0\<rparr>"

definition zero_timestamp_rule :: tp_timestamp_merge_rule where
  "zero_timestamp_rule = \<lparr>tr_input_stream_id = 0, tr_rule_type = 0, tr_timestamp_source = 0, tr_offset_ns = 0, tr_window_ns = 0\<rparr>"

definition tp_join_barrier_clear :: "tp_join_barrier \<Rightarrow> tp_join_barrier" where
  "tp_join_barrier_clear barrier = barrier
     \<lparr>jb_out_stream_id := 0, jb_epoch := 0, jb_stale_timeout_ns := TP_NULL_U64, jb_lateness_ns := TP_NULL_U64,
      jb_last_out_time_ns := 0, jb_clock_domain := 0, jb_has_last_out_time := False, jb_rule_count := 0,
      jb_sequence_rules := map (\<lambda>_. zero_sequence_rule) (jb_sequence_rules barrier),
      jb_timestamp_rules := map (\<lambda>_. zero_timestamp_rule) (jb_timestamp_rules barrier),
      jb_state := map (\<lambda>_. zero_input_state) (jb_state barrier)\<rparr>"

text \<open>
  The allocator of the Aeron library, once for each array: what it returns for \<open>n\<close>
  elements, or \<open>None\<close>.
\<close>

definition tp_join_barrier_init ::
  "(nat \<Rightarrow> tp_sequence_merge_rule list option) \<Rightarrow> (nat \<Rightarrow> tp_timestamp_merge_rule list option) \<Rightarrow>
   (nat \<Rightarrow> tp_join_input_state list option) \<Rightarrow> u32 \<Rightarrow> nat \<Rightarrow> tp_join_barrier res" where
  "tp_join_barrier_init alloc_sequence alloc_timestamp alloc_state ty rule_capacity =
     guard (rule_capacity = 0) (EINVAL ''tp_join_barrier_init: invalid input'')
     (case alloc_sequence rule_capacity of None \<Rightarrow> Inl FAIL | Some srs \<Rightarrow>
      (case alloc_timestamp rule_capacity of None \<Rightarrow> Inl FAIL | Some trs \<Rightarrow>
       (case alloc_state rule_capacity of None \<Rightarrow> Inl FAIL | Some states \<Rightarrow>
         Inr \<lparr>jb_type = ty, jb_out_stream_id = 0, jb_epoch = 0, jb_stale_timeout_ns = TP_NULL_U64,
              jb_lateness_ns = TP_NULL_U64, jb_last_out_time_ns = 0, jb_clock_domain = 0,
              jb_allow_stale = False, jb_require_processed = False, jb_has_last_out_time = False,
              jb_latest_ordering = TP_LATEST_ORDERING_SEQUENCE, jb_rule_capacity = rule_capacity,
              jb_rule_count = 0, jb_sequence_rules = srs, jb_timestamp_rules = trs, jb_state = states\<rparr>)))"

definition tp_join_barrier_close :: "tp_join_barrier \<Rightarrow> tp_join_barrier" where
  "tp_join_barrier_close barrier =
     \<lparr>jb_type = 0, jb_out_stream_id = 0, jb_epoch = 0, jb_stale_timeout_ns = 0, jb_lateness_ns = 0,
      jb_last_out_time_ns = 0, jb_clock_domain = 0, jb_allow_stale = False, jb_require_processed = False,
      jb_has_last_out_time = False, jb_latest_ordering = 0, jb_rule_capacity = 0, jb_rule_count = 0,
      jb_sequence_rules = [], jb_timestamp_rules = [], jb_state = []\<rparr>"

definition tp_join_barrier_set_allow_stale :: "tp_join_barrier \<Rightarrow> bool \<Rightarrow> tp_join_barrier" where
  "tp_join_barrier_set_allow_stale barrier v = barrier\<lparr>jb_allow_stale := v\<rparr>"

definition tp_join_barrier_set_require_processed :: "tp_join_barrier \<Rightarrow> bool \<Rightarrow> tp_join_barrier" where
  "tp_join_barrier_set_require_processed barrier v = barrier\<lparr>jb_require_processed := v\<rparr>"

definition tp_join_barrier_set_latest_ordering :: "tp_join_barrier \<Rightarrow> u32 \<Rightarrow> tp_join_barrier" where
  "tp_join_barrier_set_latest_ordering barrier v = barrier\<lparr>jb_latest_ordering := v\<rparr>"

section \<open>Applying a merge map\<close>

text \<open>The loading loops write the elements \<open>0, 1, ...\<close> of the arrays, one rule each.\<close>

fun tp_join_barrier_load_sequence_rules ::
  "nat \<Rightarrow> tp_sequence_merge_rule list \<Rightarrow> tp_join_barrier \<Rightarrow> tp_join_barrier" where
  "tp_join_barrier_load_sequence_rules i [] barrier = barrier"
| "tp_join_barrier_load_sequence_rules i (r # rs) barrier =
     tp_join_barrier_load_sequence_rules (Suc i) rs
       (barrier\<lparr>jb_sequence_rules := (jb_sequence_rules barrier)[i := r],
                jb_state := (jb_state barrier)[i := (jb_state barrier ! i)
                  \<lparr>js_stream_id := sr_input_stream_id r, js_latest_valid := False\<rparr>]\<rparr>)"

fun tp_join_barrier_load_timestamp_rules ::
  "nat \<Rightarrow> tp_timestamp_merge_rule list \<Rightarrow> tp_join_barrier \<Rightarrow> tp_join_barrier" where
  "tp_join_barrier_load_timestamp_rules i [] barrier = barrier"
| "tp_join_barrier_load_timestamp_rules i (r # rs) barrier =
     tp_join_barrier_load_timestamp_rules (Suc i) rs
       (barrier\<lparr>jb_timestamp_rules := (jb_timestamp_rules barrier)[i := r],
                jb_state := (jb_state barrier)[i := (jb_state barrier ! i)
                  \<lparr>js_stream_id := tr_input_stream_id r, js_timestamp_source := tr_timestamp_source r,
                   js_latest_valid := False\<rparr>]\<rparr>)"

definition tp_join_barrier_apply_sequence_map ::
  "tp_join_barrier \<Rightarrow> tp_sequence_merge_map \<Rightarrow> tp_join_barrier res" where
  "tp_join_barrier_apply_sequence_map barrier mm =
     guard (sm_rules mm = None) (EINVAL ''tp_join_barrier_apply_sequence_map: invalid input'')
     (guard (length (rule_list (sm_rules mm)) > jb_rule_capacity barrier)
        (EINVAL ''tp_join_barrier_apply_sequence_map: rule capacity exceeded'')
     (guard (jb_type barrier \<noteq> TP_JOIN_BARRIER_SEQUENCE)
        (EINVAL ''tp_join_barrier_apply_sequence_map: barrier type mismatch'')
     (let barrier = tp_join_barrier_clear barrier;
          barrier = barrier\<lparr>jb_out_stream_id := sm_out_stream_id mm, jb_epoch := sm_epoch mm,
            jb_stale_timeout_ns := sm_stale_timeout_ns mm, jb_last_out_time_ns := 0,
            jb_has_last_out_time := False, jb_rule_count := length (rule_list (sm_rules mm))\<rparr>
      in Inr (tp_join_barrier_load_sequence_rules 0 (rule_list (sm_rules mm)) barrier))))"

definition tp_join_barrier_apply_timestamp_map ::
  "tp_join_barrier \<Rightarrow> tp_timestamp_merge_map \<Rightarrow> tp_join_barrier res" where
  "tp_join_barrier_apply_timestamp_map barrier mm =
     guard (tm_rules mm = None) (EINVAL ''tp_join_barrier_apply_timestamp_map: invalid input'')
     (guard (length (rule_list (tm_rules mm)) > jb_rule_capacity barrier)
        (EINVAL ''tp_join_barrier_apply_timestamp_map: rule capacity exceeded'')
     (guard (jb_type barrier \<noteq> TP_JOIN_BARRIER_TIMESTAMP)
        (EINVAL ''tp_join_barrier_apply_timestamp_map: barrier type mismatch'')
     (let barrier = tp_join_barrier_clear barrier;
          barrier = barrier\<lparr>jb_out_stream_id := tm_out_stream_id mm, jb_epoch := tm_epoch mm,
            jb_stale_timeout_ns := tm_stale_timeout_ns mm,
            jb_lateness_ns := (if tm_lateness_ns mm = TP_NULL_U64 then 0 else tm_lateness_ns mm),
            jb_clock_domain := tm_clock_domain mm, jb_last_out_time_ns := 0,
            jb_has_last_out_time := False, jb_rule_count := length (rule_list (tm_rules mm))\<rparr>
      in Inr (tp_join_barrier_load_timestamp_rules 0 (rule_list (tm_rules mm)) barrier))))"

definition tp_join_barrier_apply_latest_value_sequence_map ::
  "tp_join_barrier \<Rightarrow> tp_sequence_merge_map \<Rightarrow> tp_join_barrier res" where
  "tp_join_barrier_apply_latest_value_sequence_map barrier mm =
     guard (sm_rules mm = None) (EINVAL ''tp_join_barrier_apply_latest_value_sequence_map: invalid input'')
     (guard (length (rule_list (sm_rules mm)) > jb_rule_capacity barrier)
        (EINVAL ''tp_join_barrier_apply_latest_value_sequence_map: rule capacity exceeded'')
     (guard (jb_type barrier \<noteq> TP_JOIN_BARRIER_LATEST_VALUE)
        (EINVAL ''tp_join_barrier_apply_latest_value_sequence_map: barrier type mismatch'')
     (let barrier = tp_join_barrier_clear barrier;
          barrier = barrier\<lparr>jb_out_stream_id := sm_out_stream_id mm, jb_epoch := sm_epoch mm,
            jb_stale_timeout_ns := sm_stale_timeout_ns mm, jb_last_out_time_ns := 0,
            jb_has_last_out_time := False, jb_rule_count := length (rule_list (sm_rules mm))\<rparr>
      in Inr (tp_join_barrier_load_sequence_rules 0 (rule_list (sm_rules mm)) barrier))))"

definition tp_join_barrier_apply_latest_value_timestamp_map ::
  "tp_join_barrier \<Rightarrow> tp_timestamp_merge_map \<Rightarrow> tp_join_barrier res" where
  "tp_join_barrier_apply_latest_value_timestamp_map barrier mm =
     guard (tm_rules mm = None) (EINVAL ''tp_join_barrier_apply_latest_value_timestamp_map: invalid input'')
     (guard (length (rule_list (tm_rules mm)) > jb_rule_capacity barrier)
        (EINVAL ''tp_join_barrier_apply_latest_value_timestamp_map: rule capacity exceeded'')
     (guard (jb_type barrier \<noteq> TP_JOIN_BARRIER_LATEST_VALUE)
        (EINVAL ''tp_join_barrier_apply_latest_value_timestamp_map: barrier type mismatch'')
     (let barrier = tp_join_barrier_clear barrier;
          barrier = barrier\<lparr>jb_out_stream_id := tm_out_stream_id mm, jb_epoch := tm_epoch mm,
            jb_stale_timeout_ns := tm_stale_timeout_ns mm,
            jb_lateness_ns := (if tm_lateness_ns mm = TP_NULL_U64 then 0 else tm_lateness_ns mm),
            jb_clock_domain := tm_clock_domain mm, jb_last_out_time_ns := 0,
            jb_has_last_out_time := False, jb_rule_count := length (rule_list (tm_rules mm))\<rparr>
      in Inr (tp_join_barrier_load_timestamp_rules 0 (rule_list (tm_rules mm)) barrier))))"

section \<open>Progress updates\<close>

definition tp_join_barrier_find_state :: "tp_join_barrier \<Rightarrow> u32 \<Rightarrow> nat option" where
  "tp_join_barrier_find_state barrier stream_id =
     find_index (\<lambda>state. js_stream_id state = stream_id) (take (jb_rule_count barrier) (jb_state barrier))"

definition put_state :: "tp_join_barrier \<Rightarrow> nat \<Rightarrow> tp_join_input_state \<Rightarrow> tp_join_barrier" where
  "put_state barrier i state = barrier\<lparr>jb_state := (jb_state barrier)[i := state]\<rparr>"

text \<open>The updates change nothing on an error path, so an error carries no barrier.\<close>

definition tp_join_barrier_update_observed_seq ::
  "tp_join_barrier \<Rightarrow> u32 \<Rightarrow> u64 \<Rightarrow> u64 \<Rightarrow> tp_join_barrier res" where
  "tp_join_barrier_update_observed_seq barrier stream_id seq now_ns =
     (case tp_join_barrier_find_state barrier stream_id of
        None \<Rightarrow> Inl (EINVAL ''tp_join_barrier_update_observed_seq: stream not tracked'')
      | Some i \<Rightarrow>
        (let state = jb_state barrier ! i
         in guard (js_has_observed_seq state \<and> seq < js_observed_seq state)
              (EINVAL ''tp_join_barrier_update_observed_seq: seq regression'')
            (let state = state\<lparr>js_observed_seq := seq, js_has_observed_seq := True\<rparr>;
                 state = (if \<not> js_has_min_seq_in_epoch state
                          then state\<lparr>js_min_seq_in_epoch := seq, js_has_min_seq_in_epoch := True\<rparr> else state);
                 state = state\<lparr>js_latest_valid := True, js_last_observed_update_ns := now_ns\<rparr>
             in Inr (put_state barrier i state))))"

definition tp_join_barrier_update_processed_seq ::
  "tp_join_barrier \<Rightarrow> u32 \<Rightarrow> u64 \<Rightarrow> u64 \<Rightarrow> tp_join_barrier res" where
  "tp_join_barrier_update_processed_seq barrier stream_id seq now_ns =
     (case tp_join_barrier_find_state barrier stream_id of
        None \<Rightarrow> Inl (EINVAL ''tp_join_barrier_update_processed_seq: stream not tracked'')
      | Some i \<Rightarrow>
        (let state = jb_state barrier ! i
         in guard (js_has_processed_seq state \<and> seq < js_processed_seq state)
              (EINVAL ''tp_join_barrier_update_processed_seq: seq regression'')
            (Inr (put_state barrier i
               (state\<lparr>js_processed_seq := seq, js_has_processed_seq := True, js_last_processed_update_ns := now_ns\<rparr>)))))"

definition tp_join_barrier_validate_timestamp_update ::
  "tp_join_barrier \<Rightarrow> tp_join_input_state \<Rightarrow> u32 \<Rightarrow> u8 \<Rightarrow> 'a res \<Rightarrow> 'a res" where
  "tp_join_barrier_validate_timestamp_update barrier state source clock_domain k =
     guard (jb_clock_domain barrier \<noteq> 0 \<and> clock_domain \<noteq> jb_clock_domain barrier)
       (EINVAL ''tp_join_barrier: clock domain mismatch'')
     (guard (js_timestamp_source state \<noteq> 0 \<and> source \<noteq> js_timestamp_source state)
       (EINVAL ''tp_join_barrier: timestamp source mismatch'') k)"

definition tp_join_barrier_update_observed_time ::
  "tp_join_barrier \<Rightarrow> u32 \<Rightarrow> u64 \<Rightarrow> u32 \<Rightarrow> u8 \<Rightarrow> u64 \<Rightarrow> tp_join_barrier res" where
  "tp_join_barrier_update_observed_time barrier stream_id timestamp_ns source clock_domain now_ns =
     (case tp_join_barrier_find_state barrier stream_id of
        None \<Rightarrow> Inl (EINVAL ''tp_join_barrier_update_observed_time: stream not tracked'')
      | Some i \<Rightarrow>
        (let state = jb_state barrier ! i
         in tp_join_barrier_validate_timestamp_update barrier state source clock_domain
            (if timestamp_ns = TP_NULL_U64 then Inr barrier
             else guard (js_has_observed_time state \<and> timestamp_ns < js_observed_time_ns state)
                    (EINVAL ''tp_join_barrier_update_observed_time: time regression'')
                  (Inr (put_state barrier i
                     (state\<lparr>js_observed_time_ns := timestamp_ns, js_has_observed_time := True,
                            js_latest_valid := True, js_last_observed_update_ns := now_ns\<rparr>))))))"

definition tp_join_barrier_update_processed_time ::
  "tp_join_barrier \<Rightarrow> u32 \<Rightarrow> u64 \<Rightarrow> u32 \<Rightarrow> u8 \<Rightarrow> u64 \<Rightarrow> tp_join_barrier res" where
  "tp_join_barrier_update_processed_time barrier stream_id timestamp_ns source clock_domain now_ns =
     (case tp_join_barrier_find_state barrier stream_id of
        None \<Rightarrow> Inl (EINVAL ''tp_join_barrier_update_processed_time: stream not tracked'')
      | Some i \<Rightarrow>
        (let state = jb_state barrier ! i
         in tp_join_barrier_validate_timestamp_update barrier state source clock_domain
            (if timestamp_ns = TP_NULL_U64 then Inr barrier
             else guard (js_has_processed_time state \<and> timestamp_ns < js_processed_time_ns state)
                    (EINVAL ''tp_join_barrier_update_processed_time: time regression'')
                  (Inr (put_state barrier i
                     (state\<lparr>js_processed_time_ns := timestamp_ns, js_has_processed_time := True,
                            js_last_processed_update_ns := now_ns\<rparr>))))))"

definition tp_join_barrier_invalidate_latest :: "tp_join_barrier \<Rightarrow> u32 \<Rightarrow> tp_join_barrier res" where
  "tp_join_barrier_invalidate_latest barrier stream_id =
     (case tp_join_barrier_find_state barrier stream_id of
        None \<Rightarrow> Inl (EINVAL ''tp_join_barrier_invalidate_latest: stream not tracked'')
      | Some i \<Rightarrow> Inr (put_state barrier i ((jb_state barrier ! i)\<lparr>js_latest_valid := False\<rparr>)))"

section \<open>Readiness\<close>

text \<open>The difference \<open>now_ns - last_observed_update_ns\<close> is unsigned and wraps.\<close>

definition tp_join_barrier_is_stale :: "tp_join_barrier \<Rightarrow> tp_join_input_state \<Rightarrow> u64 \<Rightarrow> bool" where
  "tp_join_barrier_is_stale barrier state now_ns =
     (if \<not> jb_allow_stale barrier \<or> jb_stale_timeout_ns barrier = TP_NULL_U64 then False
      else if js_last_observed_update_ns state = 0 then False
      else now_ns - js_last_observed_update_ns state > jb_stale_timeout_ns barrier)"

text \<open>
  \<open>stream_ids\<close> is \<open>None\<close> for a NULL array. The result is \<open>*out_count\<close> and the ids
  written to the array.
\<close>

definition tp_join_barrier_collect_stale_inputs ::
  "tp_join_barrier \<Rightarrow> u64 \<Rightarrow> unit option \<Rightarrow> nat \<Rightarrow> (nat \<times> u32 list) res" where
  "tp_join_barrier_collect_stale_inputs barrier now_ns stream_ids capacity =
     (if \<not> jb_allow_stale barrier \<or> jb_stale_timeout_ns barrier = TP_NULL_U64 \<or> jb_rule_count barrier = 0
      then Inr (0, [])
      else
        (let states = take (jb_rule_count barrier) (jb_state barrier);
             count = length (filter (\<lambda>state. tp_join_barrier_is_stale barrier state now_ns) states)
         in if stream_ids = None \<or> capacity = 0 then Inr (count, [])
            else guard (capacity < count) (EINVAL ''tp_join_barrier_collect_stale_inputs: capacity too small'')
              (let ids = map js_stream_id (filter (\<lambda>state. tp_join_barrier_is_stale barrier state now_ns) states)
               in Inr (length ids, ids))))"

text \<open>
  The body of the loop of \<open>tp_join_barrier_is_ready_sequence\<close> for an input that is not
  stale: \<open>Inr True\<close> goes on to the next rule, \<open>Inr False\<close> is \<open>return 0\<close>.
\<close>

definition ready_sequence_rule ::
  "tp_join_barrier \<Rightarrow> u64 \<Rightarrow> tp_sequence_merge_rule \<Rightarrow> tp_join_input_state \<Rightarrow> bool res" where
  "ready_sequence_rule barrier out_seq rule state =
     (let check = (\<lambda>required_seq :: u64.
            if js_observed_seq state < required_seq then Inr False
            else if jb_require_processed barrier \<and>
                    (\<not> js_has_processed_seq state \<or> js_processed_seq state < required_seq) then Inr False
            else Inr True)
      in if \<not> js_has_observed_seq state then Inr False
         else if sr_rule_type rule = TP_MERGE_RULE_OFFSET then
           (let required_seq = sint out_seq + sint (sr_offset rule)
            in guard (\<not> in_int64 required_seq) (UB ''required_seq'')
               (if required_seq < 0 then Inr False else check (word_of_int required_seq)))
         else if sr_rule_type rule = TP_MERGE_RULE_WINDOW then
           (if sr_window_size rule = 0 then Inr False
            else if out_seq + 1 < ucast (sr_window_size rule) then Inr False
            else check out_seq)
         else Inl (EINVAL ''tp_join_barrier_is_ready_sequence: invalid rule''))"

fun ready_sequence_loop ::
  "tp_join_barrier \<Rightarrow> u64 \<Rightarrow> u64 \<Rightarrow> (tp_sequence_merge_rule \<times> tp_join_input_state) list \<Rightarrow> bool res" where
  "ready_sequence_loop barrier out_seq now_ns [] = Inr True"
| "ready_sequence_loop barrier out_seq now_ns ((rule, state) # rest) =
     (if tp_join_barrier_is_stale barrier state now_ns then ready_sequence_loop barrier out_seq now_ns rest
      else bind_res (ready_sequence_rule barrier out_seq rule state)
        (\<lambda>ready. if ready then ready_sequence_loop barrier out_seq now_ns rest else Inr False))"

definition tp_join_barrier_is_ready_sequence :: "tp_join_barrier \<Rightarrow> u64 \<Rightarrow> u64 \<Rightarrow> bool res" where
  "tp_join_barrier_is_ready_sequence barrier out_seq now_ns =
     guard (jb_type barrier \<noteq> TP_JOIN_BARRIER_SEQUENCE)
       (EINVAL ''tp_join_barrier_is_ready_sequence: invalid barrier'')
     (if jb_rule_count barrier = 0 then Inr False
      else ready_sequence_loop barrier out_seq now_ns
        (zip (take (jb_rule_count barrier) (jb_sequence_rules barrier))
             (take (jb_rule_count barrier) (jb_state barrier))))"

definition tp_join_barrier_timestamp_ready_for_rule ::
  "tp_join_barrier \<Rightarrow> tp_join_input_state \<Rightarrow> tp_timestamp_merge_rule \<Rightarrow> u64 \<Rightarrow> bool res" where
  "tp_join_barrier_timestamp_ready_for_rule barrier state rule out_time_ns =
     (let lateness = (if jb_lateness_ns barrier = TP_NULL_U64 then 0 else jb_lateness_ns barrier);
          check = (\<lambda>required_time :: u64.
            if js_observed_time_ns state + lateness < required_time then Inr False
            else if jb_require_processed barrier \<and>
                    (\<not> js_has_processed_time state \<or> js_processed_time_ns state + lateness < required_time)
            then Inr False
            else Inr True)
      in if \<not> js_has_observed_time state then Inr False
         else if tr_rule_type rule = TP_MERGE_TIME_OFFSET_NS then
           (let required_time = sint out_time_ns + sint (tr_offset_ns rule)
            in guard (\<not> in_int64 required_time) (UB ''required_time'')
               (if required_time < 0 then
                  guard (sint (tr_offset_ns rule) < 0 \<and> \<not> in_int64 (- sint (tr_offset_ns rule))) (UB ''-offset_ns'')
                  (let threshold = (if sint (tr_offset_ns rule) < 0
                                    then lateness + word_of_int (- sint (tr_offset_ns rule)) else lateness)
                   in if out_time_ns < threshold then Inr False else check 0)
                else check (word_of_int required_time)))
         else if tr_rule_type rule = TP_MERGE_TIME_WINDOW_NS then
           (if tr_window_ns rule = 0 then Inl FAIL
            else if out_time_ns < tr_window_ns rule then Inr False
            else check out_time_ns)
         else Inl FAIL)"

fun ready_timestamp_loop ::
  "tp_join_barrier \<Rightarrow> u64 \<Rightarrow> u64 \<Rightarrow> (tp_timestamp_merge_rule \<times> tp_join_input_state) list \<Rightarrow> bool res" where
  "ready_timestamp_loop barrier out_time_ns now_ns [] = Inr True"
| "ready_timestamp_loop barrier out_time_ns now_ns ((rule, state) # rest) =
     (if tp_join_barrier_is_stale barrier state now_ns then ready_timestamp_loop barrier out_time_ns now_ns rest
      else bind_res (tp_join_barrier_timestamp_ready_for_rule barrier state rule out_time_ns)
        (\<lambda>ready. if ready then ready_timestamp_loop barrier out_time_ns now_ns rest else Inr False))"

text \<open>The output time is recorded before the rules are examined, whatever they say.\<close>

definition tp_join_barrier_is_ready_timestamp ::
  "tp_join_barrier \<Rightarrow> u64 \<Rightarrow> u8 \<Rightarrow> u64 \<Rightarrow> tp_join_barrier \<times> bool res" where
  "tp_join_barrier_is_ready_timestamp barrier out_time_ns clock_domain now_ns =
     (if jb_type barrier \<noteq> TP_JOIN_BARRIER_TIMESTAMP
      then (barrier, Inl (EINVAL ''tp_join_barrier_is_ready_timestamp: invalid barrier''))
      else if jb_rule_count barrier = 0 then (barrier, Inr False)
      else if jb_clock_domain barrier \<noteq> 0 \<and> clock_domain \<noteq> jb_clock_domain barrier
      then (barrier, Inl (EINVAL ''tp_join_barrier_is_ready_timestamp: clock domain mismatch''))
      else if jb_has_last_out_time barrier \<and> out_time_ns < jb_last_out_time_ns barrier
      then (barrier, Inl (EINVAL ''tp_join_barrier_is_ready_timestamp: out_time regression''))
      else
        (let barrier = barrier\<lparr>jb_last_out_time_ns := out_time_ns, jb_has_last_out_time := True\<rparr>
         in (barrier, ready_timestamp_loop barrier out_time_ns now_ns
              (zip (take (jb_rule_count barrier) (jb_timestamp_rules barrier))
                   (take (jb_rule_count barrier) (jb_state barrier))))))"

fun ready_latest_loop ::
  "tp_join_barrier \<Rightarrow> u64 \<Rightarrow> u8 \<Rightarrow> u64 \<Rightarrow> tp_join_input_state list \<Rightarrow> bool res" where
  "ready_latest_loop barrier out_time_ns clock_domain now_ns [] = Inr True"
| "ready_latest_loop barrier out_time_ns clock_domain now_ns (state # rest) =
     (if tp_join_barrier_is_stale barrier state now_ns
      then ready_latest_loop barrier out_time_ns clock_domain now_ns rest
      else if jb_latest_ordering barrier = TP_LATEST_ORDERING_SEQUENCE \<and> \<not> js_has_observed_seq state then Inr False
      else if jb_latest_ordering barrier = TP_LATEST_ORDERING_TIMESTAMP \<and> \<not> js_has_observed_time state then Inr False
      else guard (jb_clock_domain barrier \<noteq> 0 \<and> clock_domain \<noteq> jb_clock_domain barrier)
             (EINVAL ''tp_join_barrier_is_ready_latest: clock domain mismatch'')
        (guard (jb_latest_ordering barrier = TP_LATEST_ORDERING_TIMESTAMP \<and> js_timestamp_source state = 0)
             (EINVAL ''tp_join_barrier_is_ready_latest: timestamp source missing'')
        (if \<not> js_latest_valid state then Inr False
         else if \<not> js_has_observed_seq state \<and> \<not> js_has_observed_time state then Inr False
         else if jb_clock_domain barrier \<noteq> 0 \<and> \<not> js_has_observed_time state then Inr False
         else if \<not> js_has_min_seq_in_epoch state then Inr False
         else if js_has_observed_seq state \<and> js_observed_seq state < js_min_seq_in_epoch state then Inr False
         else if js_has_observed_time state \<and> js_observed_time_ns state > 0 \<and> out_time_ns = 0 then Inr False
         else ready_latest_loop barrier out_time_ns clock_domain now_ns rest)))"

definition tp_join_barrier_is_ready_latest ::
  "tp_join_barrier \<Rightarrow> u64 \<Rightarrow> u64 \<Rightarrow> u8 \<Rightarrow> u64 \<Rightarrow> tp_join_barrier \<times> bool res" where
  "tp_join_barrier_is_ready_latest barrier out_seq out_time_ns clock_domain now_ns =
     (let loop = (\<lambda>barrier. ready_latest_loop barrier out_time_ns clock_domain now_ns
             (take (jb_rule_count barrier) (jb_state barrier)))
      in if jb_type barrier \<noteq> TP_JOIN_BARRIER_LATEST_VALUE
         then (barrier, Inl (EINVAL ''tp_join_barrier_is_ready_latest: invalid barrier''))
         else if jb_rule_count barrier = 0 then (barrier, Inr False)
         else if jb_latest_ordering barrier = TP_LATEST_ORDERING_TIMESTAMP then
           (if jb_clock_domain barrier = 0
            then (barrier, Inl (EINVAL ''tp_join_barrier_is_ready_latest: timestamp ordering requires clock domain''))
            else if jb_has_last_out_time barrier \<and> out_time_ns < jb_last_out_time_ns barrier
            then (barrier, Inl (EINVAL ''tp_join_barrier_is_ready_latest: out_time regression''))
            else (let barrier = barrier\<lparr>jb_last_out_time_ns := out_time_ns, jb_has_last_out_time := True\<rparr>
                  in (barrier, loop barrier)))
         else (barrier, loop barrier))"

fun collect_latest_loop :: "tp_join_barrier \<Rightarrow> tp_join_input_state list \<Rightarrow> tp_latest_selection list res" where
  "collect_latest_loop barrier [] = Inr []"
| "collect_latest_loop barrier (state # rest) =
     guard (\<not> js_latest_valid state \<or> \<not> js_has_min_seq_in_epoch state)
       (EINVAL ''tp_join_barrier_collect_latest: latest not ready'')
     (guard (jb_latest_ordering barrier = TP_LATEST_ORDERING_SEQUENCE \<and> \<not> js_has_observed_seq state)
       (EINVAL ''tp_join_barrier_collect_latest: missing sequence'')
     (guard (jb_latest_ordering barrier = TP_LATEST_ORDERING_TIMESTAMP \<and> \<not> js_has_observed_time state)
       (EINVAL ''tp_join_barrier_collect_latest: missing timestamp'')
     (guard (jb_latest_ordering barrier = TP_LATEST_ORDERING_TIMESTAMP \<and> js_timestamp_source state = 0)
       (EINVAL ''tp_join_barrier_collect_latest: timestamp source missing'')
     (bind_res (collect_latest_loop barrier rest)
       (\<lambda>selections. Inr
          (\<lparr>ls_stream_id = js_stream_id state, ls_seq = js_observed_seq state,
            ls_timestamp_ns = js_observed_time_ns state, ls_timestamp_source = js_timestamp_source state\<rparr> # selections))))))"

definition tp_join_barrier_collect_latest :: "tp_join_barrier \<Rightarrow> nat \<Rightarrow> tp_latest_selection list res" where
  "tp_join_barrier_collect_latest barrier capacity =
     guard (jb_type barrier \<noteq> TP_JOIN_BARRIER_LATEST_VALUE)
       (EINVAL ''tp_join_barrier_collect_latest: invalid barrier'')
     (guard (jb_rule_count barrier > capacity) (EINVAL ''tp_join_barrier_collect_latest: capacity too small'')
     (guard (jb_latest_ordering barrier = TP_LATEST_ORDERING_TIMESTAMP \<and> jb_clock_domain barrier = 0)
       (EINVAL ''tp_join_barrier_collect_latest: timestamp ordering requires clock domain'')
     (collect_latest_loop barrier (take (jb_rule_count barrier) (jb_state barrier)))))"

section \<open>Calls and runs\<close>

text \<open>The calls a client makes on a barrier; a call that fails leaves the barrier as it is.\<close>

datatype barrier_call =
    ApplySequence tp_sequence_merge_map
  | ApplyTimestamp tp_timestamp_merge_map
  | ApplyLatestSequence tp_sequence_merge_map
  | ApplyLatestTimestamp tp_timestamp_merge_map
  | SetAllowStale bool
  | SetRequireProcessed bool
  | SetLatestOrdering u32
  | ObservedSeq u32 u64 u64
  | ProcessedSeq u32 u64 u64
  | ObservedTime u32 u64 u32 u8 u64
  | ProcessedTime u32 u64 u32 u8 u64
  | InvalidateLatest u32
  | ReadyTimestamp u64 u8 u64
  | ReadyLatest u64 u64 u8 u64

definition or_unchanged :: "'s \<Rightarrow> 's res \<Rightarrow> 's" where
  "or_unchanged s r = (case r of Inr s' \<Rightarrow> s' | Inl _ \<Rightarrow> s)"

fun barrier_step :: "barrier_call \<Rightarrow> tp_join_barrier \<Rightarrow> tp_join_barrier" where
  "barrier_step (ApplySequence mm) b = or_unchanged b (tp_join_barrier_apply_sequence_map b mm)"
| "barrier_step (ApplyTimestamp tm) b = or_unchanged b (tp_join_barrier_apply_timestamp_map b tm)"
| "barrier_step (ApplyLatestSequence mm) b = or_unchanged b (tp_join_barrier_apply_latest_value_sequence_map b mm)"
| "barrier_step (ApplyLatestTimestamp tm) b = or_unchanged b (tp_join_barrier_apply_latest_value_timestamp_map b tm)"
| "barrier_step (SetAllowStale v) b = tp_join_barrier_set_allow_stale b v"
| "barrier_step (SetRequireProcessed v) b = tp_join_barrier_set_require_processed b v"
| "barrier_step (SetLatestOrdering w) b = tp_join_barrier_set_latest_ordering b w"
| "barrier_step (ObservedSeq s q t) b = or_unchanged b (tp_join_barrier_update_observed_seq b s q t)"
| "barrier_step (ProcessedSeq s q t) b = or_unchanged b (tp_join_barrier_update_processed_seq b s q t)"
| "barrier_step (ObservedTime s q src cd t) b = or_unchanged b (tp_join_barrier_update_observed_time b s q src cd t)"
| "barrier_step (ProcessedTime s q src cd t) b = or_unchanged b (tp_join_barrier_update_processed_time b s q src cd t)"
| "barrier_step (InvalidateLatest s) b = or_unchanged b (tp_join_barrier_invalidate_latest b s)"
| "barrier_step (ReadyTimestamp q cd t) b = fst (tp_join_barrier_is_ready_timestamp b q cd t)"
| "barrier_step (ReadyLatest sq q cd t) b = fst (tp_join_barrier_is_ready_latest b sq q cd t)"

text \<open>Calls that report progress or ask for readiness, and do not reconfigure the barrier.\<close>

fun progress_call :: "barrier_call \<Rightarrow> bool" where
  "progress_call (ObservedSeq s q t) = True"
| "progress_call (ProcessedSeq s q t) = True"
| "progress_call (ObservedTime s q src cd t) = True"
| "progress_call (ProcessedTime s q src cd t) = True"
| "progress_call (InvalidateLatest s) = True"
| "progress_call (ReadyTimestamp q cd t) = True"
| "progress_call (ReadyLatest sq q cd t) = True"
| "progress_call c = False"

lemma or_unchanged_simps [simp]: "or_unchanged s (Inl e) = s" "or_unchanged s (Inr s') = s'"
  by (simp_all add: or_unchanged_def)

lemma or_unchanged_cases:
  "P s \<Longrightarrow> (\<And>s'. r = Inr s' \<Longrightarrow> P s') \<Longrightarrow> P (or_unchanged s r)"
  by (cases r) auto

section \<open>The invariant\<close>

definition input_ok :: "tp_join_input_state \<Rightarrow> bool" where
  "input_ok state \<longleftrightarrow> js_has_min_seq_in_epoch state = js_has_observed_seq state \<and>
     (js_has_observed_seq state \<longrightarrow> js_min_seq_in_epoch state \<le> js_observed_seq state)"

definition barrier_ok :: "tp_join_barrier \<Rightarrow> bool" where
  "barrier_ok b \<longleftrightarrow> length (jb_sequence_rules b) = jb_rule_capacity b \<and>
     length (jb_timestamp_rules b) = jb_rule_capacity b \<and> length (jb_state b) = jb_rule_capacity b \<and>
     jb_rule_count b \<le> jb_rule_capacity b \<and> (\<forall>state\<in>set (jb_state b). input_ok state)"

lemma find_state_Some:
  "tp_join_barrier_find_state b s = Some i \<Longrightarrow>
   i < length (jb_state b) \<and> i < jb_rule_count b \<and> js_stream_id (jb_state b ! i) = s"
  by (auto simp: tp_join_barrier_find_state_def dest!: find_index_Some)

lemma put_state_ok: "barrier_ok b \<Longrightarrow> input_ok state \<Longrightarrow> barrier_ok (put_state b i state)"
  using set_update_subset_insert [of "jb_state b" i state] by (auto simp: barrier_ok_def put_state_def)

lemma state_ok: "barrier_ok b \<Longrightarrow> tp_join_barrier_find_state b s = Some i \<Longrightarrow> input_ok (jb_state b ! i)"
  by (auto simp: barrier_ok_def dest!: find_state_Some)

text \<open>How an accepted update reaches the new barrier.\<close>

lemmas update_defs = tp_join_barrier_update_observed_seq_def tp_join_barrier_update_processed_seq_def
  tp_join_barrier_update_observed_time_def tp_join_barrier_update_processed_time_def
  tp_join_barrier_invalidate_latest_def tp_join_barrier_validate_timestamp_update_def Let_def

lemma update_ok:
  assumes "barrier_ok b"
  shows "tp_join_barrier_update_observed_seq b s q t = Inr b' \<Longrightarrow> barrier_ok b'"
    and "tp_join_barrier_update_processed_seq b s q t = Inr b' \<Longrightarrow> barrier_ok b'"
    and "tp_join_barrier_update_observed_time b s q src cd t = Inr b' \<Longrightarrow> barrier_ok b'"
    and "tp_join_barrier_update_processed_time b s q src cd t = Inr b' \<Longrightarrow> barrier_ok b'"
    and "tp_join_barrier_invalidate_latest b s = Inr b' \<Longrightarrow> barrier_ok b'"
proof -
  note st = state_ok [OF assms, of s]
  show "tp_join_barrier_update_observed_seq b s q t = Inr b' \<Longrightarrow> barrier_ok b'"
    using assms st by (fastforce simp: update_defs res_simps input_ok_def split: option.splits intro!: put_state_ok)
  show "tp_join_barrier_update_processed_seq b s q t = Inr b' \<Longrightarrow> barrier_ok b'"
    using assms st by (fastforce simp: update_defs res_simps input_ok_def split: option.splits intro!: put_state_ok)
  show "tp_join_barrier_update_observed_time b s q src cd t = Inr b' \<Longrightarrow> barrier_ok b'"
    using assms st by (fastforce simp: update_defs res_simps input_ok_def split: option.splits if_splits intro!: put_state_ok)
  show "tp_join_barrier_update_processed_time b s q src cd t = Inr b' \<Longrightarrow> barrier_ok b'"
    using assms st by (fastforce simp: update_defs res_simps input_ok_def split: option.splits if_splits intro!: put_state_ok)
  show "tp_join_barrier_invalidate_latest b s = Inr b' \<Longrightarrow> barrier_ok b'"
    using assms st by (fastforce simp: update_defs res_simps input_ok_def split: option.splits intro!: put_state_ok)
qed

lemma input_ok_zero [simp]: "input_ok zero_input_state"
  by (simp add: input_ok_def zero_input_state_def)

lemma clear_ok: "barrier_ok b \<Longrightarrow> barrier_ok (tp_join_barrier_clear b)"
  by (auto simp: barrier_ok_def tp_join_barrier_clear_def)

lemma load_sequence_ok:
  "barrier_ok b \<Longrightarrow> i + length rs \<le> jb_rule_capacity b \<Longrightarrow>
   barrier_ok (tp_join_barrier_load_sequence_rules i rs b)"
proof (induction i rs b rule: tp_join_barrier_load_sequence_rules.induct)
  case (2 i r rs b)
  let ?st = "(jb_state b ! i)\<lparr>js_stream_id := sr_input_stream_id r, js_latest_valid := False\<rparr>"
  have "input_ok ?st" using "2.prems" by (auto simp: barrier_ok_def input_ok_def)
  with "2.prems" set_update_subset_insert [of "jb_state b" i ?st] show ?case
    by (auto simp: barrier_ok_def intro!: "2.IH" [unfolded barrier_ok_def])
qed simp

lemma load_timestamp_ok:
  "barrier_ok b \<Longrightarrow> i + length rs \<le> jb_rule_capacity b \<Longrightarrow>
   barrier_ok (tp_join_barrier_load_timestamp_rules i rs b)"
proof (induction i rs b rule: tp_join_barrier_load_timestamp_rules.induct)
  case (2 i r rs b)
  let ?st = "(jb_state b ! i)\<lparr>js_stream_id := tr_input_stream_id r, js_timestamp_source := tr_timestamp_source r, js_latest_valid := False\<rparr>"
  have "input_ok ?st" using "2.prems" by (auto simp: barrier_ok_def input_ok_def)
  with "2.prems" set_update_subset_insert [of "jb_state b" i ?st] show ?case
    by (auto simp: barrier_ok_def intro!: "2.IH" [unfolded barrier_ok_def])
qed simp

lemmas apply_defs = tp_join_barrier_apply_sequence_map_def tp_join_barrier_apply_timestamp_map_def
  tp_join_barrier_apply_latest_value_sequence_map_def tp_join_barrier_apply_latest_value_timestamp_map_def Let_def

lemma apply_ok:
  assumes "barrier_ok b"
  shows "tp_join_barrier_apply_sequence_map b mm = Inr b' \<Longrightarrow> barrier_ok b'"
    and "tp_join_barrier_apply_latest_value_sequence_map b mm = Inr b' \<Longrightarrow> barrier_ok b'"
    and "tp_join_barrier_apply_timestamp_map b tm = Inr b' \<Longrightarrow> barrier_ok b'"
    and "tp_join_barrier_apply_latest_value_timestamp_map b tm = Inr b' \<Longrightarrow> barrier_ok b'"
  using clear_ok [OF assms]
  by (auto simp: apply_defs res_simps barrier_ok_def tp_join_barrier_clear_def
      intro!: load_sequence_ok [unfolded barrier_ok_def] load_timestamp_ok [unfolded barrier_ok_def])

lemma setters_ok:
  assumes "barrier_ok b"
  shows "barrier_ok (tp_join_barrier_set_allow_stale b v)" "barrier_ok (tp_join_barrier_set_require_processed b v)"
    "barrier_ok (tp_join_barrier_set_latest_ordering b w)"
  using assms
  by (simp_all add: barrier_ok_def tp_join_barrier_set_allow_stale_def
      tp_join_barrier_set_require_processed_def tp_join_barrier_set_latest_ordering_def)

lemma ready_ok:
  assumes "barrier_ok b"
  shows "barrier_ok (fst (tp_join_barrier_is_ready_timestamp b q cd t))"
    and "barrier_ok (fst (tp_join_barrier_is_ready_latest b sq q cd t))"
  using assms
  by (simp_all add: tp_join_barrier_is_ready_timestamp_def tp_join_barrier_is_ready_latest_def barrier_ok_def Let_def)

lemma barrier_step_ok: "barrier_ok b \<Longrightarrow> barrier_ok (barrier_step c b)"
  by (cases c) (auto intro!: or_unchanged_cases [of barrier_ok] setters_ok ready_ok intro: update_ok apply_ok)

section \<open>Progress never goes back\<close>

text \<open>One cursor, with the flag that says whether it was ever set.\<close>

definition cursor_le :: "bool \<Rightarrow> u64 \<Rightarrow> bool \<Rightarrow> u64 \<Rightarrow> bool" where
  "cursor_le has x has' x' \<longleftrightarrow> (has \<longrightarrow> has' \<and> x \<le> x')"

definition input_le :: "tp_join_input_state \<Rightarrow> tp_join_input_state \<Rightarrow> bool" where
  "input_le s s' \<longleftrightarrow> js_stream_id s' = js_stream_id s \<and> js_timestamp_source s' = js_timestamp_source s \<and>
     cursor_le (js_has_observed_seq s) (js_observed_seq s) (js_has_observed_seq s') (js_observed_seq s') \<and>
     cursor_le (js_has_processed_seq s) (js_processed_seq s) (js_has_processed_seq s') (js_processed_seq s') \<and>
     cursor_le (js_has_observed_time s) (js_observed_time_ns s) (js_has_observed_time s') (js_observed_time_ns s') \<and>
     cursor_le (js_has_processed_time s) (js_processed_time_ns s) (js_has_processed_time s') (js_processed_time_ns s') \<and>
     (js_has_min_seq_in_epoch s \<longrightarrow> js_has_min_seq_in_epoch s' \<and> js_min_seq_in_epoch s' = js_min_seq_in_epoch s)"

definition barrier_le :: "tp_join_barrier \<Rightarrow> tp_join_barrier \<Rightarrow> bool" where
  "barrier_le b b' \<longleftrightarrow>
     (\<exists>states has_last last. b' = b\<lparr>jb_state := states, jb_has_last_out_time := has_last, jb_last_out_time_ns := last\<rparr> \<and>
        list_all2 input_le (jb_state b) states \<and>
        cursor_le (jb_has_last_out_time b) (jb_last_out_time_ns b) has_last last)"

lemma cursor_le_refl [simp]: "cursor_le h x h x"
  by (simp add: cursor_le_def)

lemma cursor_le_trans: "cursor_le h x h' x' \<Longrightarrow> cursor_le h' x' h'' x'' \<Longrightarrow> cursor_le h x h'' x''"
  by (auto simp: cursor_le_def)

lemma input_le_refl [simp]: "input_le s s"
  by (simp add: input_le_def)

lemma input_le_trans: "input_le s s' \<Longrightarrow> input_le s' s'' \<Longrightarrow> input_le s s''"
  unfolding input_le_def by (auto intro: cursor_le_trans)

lemma inputs_le_trans: "list_all2 input_le xs ys \<Longrightarrow> list_all2 input_le ys zs \<Longrightarrow> list_all2 input_le xs zs"
  by (rule list_all2_trans [OF input_le_trans])

lemma barrier_le_refl [simp]: "barrier_le b b"
  unfolding barrier_le_def
  by (rule exI [of _ "jb_state b"], rule exI [of _ "jb_has_last_out_time b"], rule exI [of _ "jb_last_out_time_ns b"])
    (simp add: list.rel_refl)

lemma barrier_le_trans: "barrier_le b b' \<Longrightarrow> barrier_le b' b'' \<Longrightarrow> barrier_le b b''"
  unfolding barrier_le_def by (force intro: cursor_le_trans inputs_le_trans)

lemma put_state_le:
  assumes "i < length (jb_state b)" "input_le (jb_state b ! i) state"
  shows "barrier_le b (put_state b i state)"
proof -
  have "list_all2 input_le (jb_state b) ((jb_state b)[i := state])"
    by (rule list_all2_all_nthI) (use assms in \<open>auto simp: nth_list_update\<close>)
  then show ?thesis unfolding barrier_le_def put_state_def
    by (intro exI [of _ "(jb_state b)[i := state]"] exI [of _ "jb_has_last_out_time b"] exI [of _ "jb_last_out_time_ns b"]) simp
qed

lemma update_le:
  assumes "barrier_ok b"
  shows "tp_join_barrier_update_observed_seq b s q t = Inr b' \<Longrightarrow> barrier_le b b'"
    and "tp_join_barrier_update_processed_seq b s q t = Inr b' \<Longrightarrow> barrier_le b b'"
    and "tp_join_barrier_update_observed_time b s q src cd t = Inr b' \<Longrightarrow> barrier_le b b'"
    and "tp_join_barrier_update_processed_time b s q src cd t = Inr b' \<Longrightarrow> barrier_le b b'"
    and "tp_join_barrier_invalidate_latest b s = Inr b' \<Longrightarrow> barrier_le b b'"
  by (auto simp: update_defs res_simps input_le_def cursor_le_def not_less
      split: option.splits if_splits dest!: find_state_Some intro!: put_state_le)

lemma ready_le:
  "barrier_le b (fst (tp_join_barrier_is_ready_timestamp b q cd t))"
  "barrier_le b (fst (tp_join_barrier_is_ready_latest b sq q cd t))"
proof -
  have "barrier_le b (b\<lparr>jb_last_out_time_ns := q, jb_has_last_out_time := True\<rparr>)"
    if "\<not> (jb_has_last_out_time b \<and> q < jb_last_out_time_ns b)"
    unfolding barrier_le_def
    by (rule exI [of _ "jb_state b"], rule exI [of _ True], rule exI [of _ q])
      (use that in \<open>auto simp: cursor_le_def not_less list.rel_refl\<close>)
  then show "barrier_le b (fst (tp_join_barrier_is_ready_timestamp b q cd t))"
    "barrier_le b (fst (tp_join_barrier_is_ready_latest b sq q cd t))"
    by (simp_all add: tp_join_barrier_is_ready_timestamp_def tp_join_barrier_is_ready_latest_def Let_def)
qed

lemma progress_le: "barrier_ok b \<Longrightarrow> progress_call c \<Longrightarrow> barrier_le b (barrier_step c b)"
  by (cases c) (auto intro!: or_unchanged_cases [of "barrier_le b"] ready_le intro: update_le)

lemma progress_run_le:
  "barrier_ok b \<Longrightarrow> \<forall>c\<in>set cs. progress_call c \<Longrightarrow> barrier_le b (fold barrier_step cs b)"
proof (induction cs arbitrary: b)
  case (Cons c cs)
  then show ?case
    using barrier_le_trans [OF progress_le [of b c] Cons.IH [OF barrier_step_ok [of b c]]] by simp
qed simp

section \<open>Readiness against the specification\<close>

text \<open>
  The input sequence a rule requires for an output sequence (section 6 of the join barrier
  specification), as a number; \<open>None\<close> when the rule cannot be ready.
\<close>

definition required_in_seq :: "tp_sequence_merge_rule \<Rightarrow> int \<Rightarrow> int option" where
  "required_in_seq r out =
     (if sr_rule_type r = TP_MERGE_RULE_OFFSET
      then (if out + sint (sr_offset r) < 0 then None else Some (out + sint (sr_offset r)))
      else (if out + 1 < uint (sr_window_size r) then None else Some out))"

definition input_reached_seq :: "bool \<Rightarrow> tp_join_input_state \<Rightarrow> int \<Rightarrow> bool" where
  "input_reached_seq processed s q \<longleftrightarrow> q \<le> uint (js_observed_seq s) \<and>
     (processed \<longrightarrow> js_has_processed_seq s \<and> q \<le> uint (js_processed_seq s))"

definition sequence_rule_ready :: "tp_join_barrier \<Rightarrow> int \<Rightarrow> tp_sequence_merge_rule \<Rightarrow> tp_join_input_state \<Rightarrow> bool" where
  "sequence_rule_ready b out r s \<longleftrightarrow> js_has_observed_seq s \<and>
     (case required_in_seq r out of None \<Rightarrow> False | Some q \<Rightarrow> input_reached_seq (jb_require_processed b) s q)"

lemma ready_sequence_rule_spec:
  assumes "tp_sequence_rule_valid r" "uint out < 2 ^ 62"
  shows "ready_sequence_rule b out r s = Inr (sequence_rule_ready b (uint out) r s)"
proof (cases "sr_rule_type r = TP_MERGE_RULE_OFFSET")
  case True
  define q where "q = uint out + sint (sr_offset r)"
  have out: "sint out + sint (sr_offset r) = q" "uint out + sint (sr_offset r) = q"
    using sint_u64_small [of out] assms(2) by (simp_all add: q_def)
  have "in_int64 q" "q < 2 ^ 64"
    using in_int64_sum [OF uint_u64_bounds(1) assms(2), of "sint (sr_offset r)"] sint_u32_bounds [of "sr_offset r"]
    by (simp_all add: q_def)
  with True out show ?thesis
    by (auto simp: ready_sequence_rule_def sequence_rule_ready_def required_in_seq_def input_reached_seq_def Let_def
        word_less_def uint_word_of_int_u64 not_less)
next
  case False
  have "uint (out + 1) = uint out + 1" using assms(2) by (subst uint_add_u64) auto
  with False assms(1) show ?thesis
    by (auto simp: ready_sequence_rule_def sequence_rule_ready_def required_in_seq_def input_reached_seq_def Let_def
        tp_sequence_rule_valid_def word_less_def not_less split: if_splits)
qed

lemma ready_sequence_loop_eq:
  assumes "\<forall>(r, s)\<in>set xs. ready_sequence_rule b out r s = Inr (P r s)"
  shows "ready_sequence_loop b out now xs = Inr (\<forall>(r, s)\<in>set xs. tp_join_barrier_is_stale b s now \<or> P r s)"
  using assms by (induction xs) auto

lemma set_zip_take: "length xs = length ys \<Longrightarrow> n \<le> length xs \<Longrightarrow>
    (\<forall>(x, y)\<in>set (zip (take n xs) (take n ys)). P x y) \<longleftrightarrow> (\<forall>i<n. P (xs ! i) (ys ! i))"
  by (force simp: set_zip)

text \<open>The same for timestamps (section 8.1).\<close>

definition lateness_of :: "tp_join_barrier \<Rightarrow> u64" where
  "lateness_of b = (if jb_lateness_ns b = TP_NULL_U64 then 0 else jb_lateness_ns b)"

definition required_in_time :: "tp_timestamp_merge_rule \<Rightarrow> int \<Rightarrow> int option" where
  "required_in_time r out =
     (if tr_rule_type r = TP_MERGE_TIME_OFFSET_NS
      then (if out + sint (tr_offset_ns r) < 0 then None else Some (out + sint (tr_offset_ns r)))
      else (if out < uint (tr_window_ns r) then None else Some out))"

definition timestamp_rule_ready :: "tp_join_barrier \<Rightarrow> int \<Rightarrow> tp_timestamp_merge_rule \<Rightarrow> tp_join_input_state \<Rightarrow> bool" where
  "timestamp_rule_ready b out r s \<longleftrightarrow> js_has_observed_time s \<and>
     (case required_in_time r out of None \<Rightarrow> False | Some q \<Rightarrow>
        q - uint (lateness_of b) \<le> uint (js_observed_time_ns s) \<and>
        (jb_require_processed b \<longrightarrow> js_has_processed_time s \<and> q - uint (lateness_of b) \<le> uint (js_processed_time_ns s)))"

definition times_in_range :: "tp_join_barrier \<Rightarrow> tp_join_input_state \<Rightarrow> tp_timestamp_merge_rule \<Rightarrow> bool" where
  "times_in_range b s r \<longleftrightarrow> uint (lateness_of b) < 2 ^ 62 \<and> uint (js_observed_time_ns s) < 2 ^ 63 \<and>
     uint (js_processed_time_ns s) < 2 ^ 63 \<and> - (2 ^ 62) \<le> sint (tr_offset_ns r) \<and> sint (tr_offset_ns r) < 2 ^ 62"

lemma late_time: "uint (lateness_of b) < 2 ^ 62 \<Longrightarrow> uint (x :: u64) < 2 ^ 63 \<Longrightarrow>
    uint (x + lateness_of b) = uint x + uint (lateness_of b)"
  by (rule uint_add_u64) simp

lemma offset_threshold:
  assumes "uint out < 2 ^ 62" "times_in_range b s r" "uint out + sint (tr_offset_ns r) < 0"
  shows "out < lateness_of b + word_of_int (- sint (tr_offset_ns r))"
proof -
  have "uint (word_of_int (- sint (tr_offset_ns r)) :: u64) = - sint (tr_offset_ns r)"
    using assms(2,3) in_int64_sum(4,5) [OF uint_u64_bounds(1) assms(1), of "sint (tr_offset_ns r)"]
    by (intro uint_word_of_int_u64) (simp_all add: times_in_range_def)
  moreover have "uint out < uint (lateness_of b) + - sint (tr_offset_ns r)"
    using assms(3) uint_u64_bounds [of "lateness_of b"] by linarith
  ultimately show ?thesis
    using assms(2) by (subst word_less_def, subst uint_add_u64) (simp_all add: times_in_range_def)
qed

lemma timestamp_ready_for_rule_spec:
  assumes "tp_timestamp_rule_valid r" "uint out < 2 ^ 62" "times_in_range b s r"
  shows "tp_join_barrier_timestamp_ready_for_rule b s r out = Inr (timestamp_rule_ready b (uint out) r s)"
proof (cases "tr_rule_type r = TP_MERGE_TIME_OFFSET_NS")
  case True
  let ?off = "sint (tr_offset_ns r)"
  define q where "q = uint out + ?off"
  have out: "sint out + ?off = q" "uint out + ?off = q"
    using sint_u64_small [of out] assms(2) by (simp_all add: q_def)
  have rng: "in_int64 q" "in_int64 (- ?off)" "q < 2 ^ 64"
    using assms(3) in_int64_sum [OF uint_u64_bounds(1) assms(2), of ?off] by (simp_all add: times_in_range_def q_def)
  note defs = tp_join_barrier_timestamp_ready_for_rule_def timestamp_rule_ready_def required_in_time_def Let_def
  show ?thesis
  proof (cases "q < 0")
    case neg: True
    then have "uint out + ?off < 0" by (simp add: q_def)
    note thr = offset_threshold [OF assms(2,3) this]
    have "?off < 0" using neg uint_u64_bounds(1) [of out] unfolding q_def by linarith
    with neg True out rng thr show ?thesis by (simp add: defs flip: lateness_of_def)
  next
    case False
    with True out rng assms(3) show ?thesis
      by (auto simp: defs word_less_def uint_word_of_int_u64 not_less late_time times_in_range_def simp flip: lateness_of_def)
  qed
next
  case False
  with assms show ?thesis
    by (auto simp: tp_join_barrier_timestamp_ready_for_rule_def timestamp_rule_ready_def required_in_time_def Let_def
        tp_timestamp_rule_valid_def word_less_def not_less late_time times_in_range_def split: if_splits
        simp flip: lateness_of_def)
qed

lemma ready_timestamp_loop_eq:
  assumes "\<forall>(r, s)\<in>set xs. tp_join_barrier_timestamp_ready_for_rule b s r out = Inr (P r s)"
  shows "ready_timestamp_loop b out now xs = Inr (\<forall>(r, s)\<in>set xs. tp_join_barrier_is_stale b s now \<or> P r s)"
  using assms by (induction xs) auto

lemma input_reached_mono:
  "input_le s s' \<Longrightarrow> js_has_observed_seq s \<Longrightarrow> input_reached_seq p s q \<Longrightarrow> input_reached_seq p s' q"
  by (auto simp: input_le_def input_reached_seq_def cursor_le_def word_le_def)

lemma sequence_rule_ready_mono:
  "sequence_rule_ready b out r s \<Longrightarrow> input_le s s' \<Longrightarrow> jb_require_processed b' = jb_require_processed b \<Longrightarrow>
   sequence_rule_ready b' out r s'"
  by (auto simp: sequence_rule_ready_def input_le_def cursor_le_def split: option.splits intro: input_reached_mono)

section \<open>Properties of the barrier\<close>

text \<open>A barrier of each type, for the instances of the properties below.\<close>

definition sample_barrier :: "u32 \<Rightarrow> tp_join_barrier" where
  "sample_barrier ty =
     \<lparr>jb_type = ty, jb_out_stream_id = 0, jb_epoch = 0, jb_stale_timeout_ns = TP_NULL_U64, jb_lateness_ns = TP_NULL_U64,
      jb_last_out_time_ns = 0, jb_clock_domain = 0, jb_allow_stale = False, jb_require_processed = False,
      jb_has_last_out_time = False, jb_latest_ordering = TP_LATEST_ORDERING_SEQUENCE, jb_rule_capacity = 2, jb_rule_count = 0,
      jb_sequence_rules = [zero_sequence_rule, zero_sequence_rule],
      jb_timestamp_rules = [zero_timestamp_rule, zero_timestamp_rule],
      jb_state = [zero_input_state, zero_input_state]\<rparr>"

definition sample_sequence_barrier :: tp_join_barrier where
  "sample_sequence_barrier = fold barrier_step
     [ApplySequence (sample_sequence_map 1), ObservedSeq 1 13 100, ObservedSeq 2 10 100]
     (sample_barrier TP_JOIN_BARRIER_SEQUENCE)"

lemma sample_barrier_ok: "barrier_ok (sample_barrier ty)"
  by (simp add: barrier_ok_def sample_barrier_def)

lemma barrier_run_steps_ok: "barrier_ok b \<Longrightarrow> barrier_ok (fold barrier_step calls b)"
  by (induction calls arbitrary: b) (simp_all add: barrier_step_ok)

definition sequence_map_loaded :: "tp_join_barrier \<Rightarrow> bool" where
  "sequence_map_loaded b \<longleftrightarrow> jb_type b = TP_JOIN_BARRIER_SEQUENCE \<and> jb_rule_count b \<noteq> 0 \<and>
     (\<forall>i<jb_rule_count b. tp_sequence_rule_valid (jb_sequence_rules b ! i))"

lemma is_ready_sequence_eq:
  assumes "barrier_ok b" "sequence_map_loaded b" "uint out < 2 ^ 62"
  shows "tp_join_barrier_is_ready_sequence b out now = Inr (\<forall>i<jb_rule_count b.
    tp_join_barrier_is_stale b (jb_state b ! i) now \<or>
    sequence_rule_ready b (uint out) (jb_sequence_rules b ! i) (jb_state b ! i))"
proof -
  have len: "length (jb_sequence_rules b) = length (jb_state b)" "jb_rule_count b \<le> length (jb_sequence_rules b)"
    using assms(1) by (simp_all add: barrier_ok_def)
  let ?xs = "zip (take (jb_rule_count b) (jb_sequence_rules b)) (take (jb_rule_count b) (jb_state b))"
  have "\<forall>(r, s)\<in>set ?xs. ready_sequence_rule b out r s = Inr (sequence_rule_ready b (uint out) r s)"
    unfolding set_zip_take [OF len] using assms(2,3) ready_sequence_rule_spec by (simp add: sequence_map_loaded_def)
  from ready_sequence_loop_eq [OF this, of now] show ?thesis
    using assms(2) unfolding set_zip_take [OF len]
    by (simp add: tp_join_barrier_is_ready_sequence_def sequence_map_loaded_def)
qed

text \<open>
  C26: whatever calls a barrier receives, its arrays keep their capacity, the active rules fit it,
  and an input has a first sequence of the epoch exactly when it has an observed one, which is
  then not smaller.
\<close>

theorem barrier_run_ok:
  assumes "tp_join_barrier_init alloc_sequence alloc_timestamp alloc_state ty n = Inr b"
    and "\<And>k xs. alloc_sequence k = Some xs \<Longrightarrow> xs = replicate k zero_sequence_rule"
    and "\<And>k xs. alloc_timestamp k = Some xs \<Longrightarrow> xs = replicate k zero_timestamp_rule"
    and "\<And>k xs. alloc_state k = Some xs \<Longrightarrow> xs = replicate k zero_input_state"
  shows "barrier_ok (fold barrier_step calls b)"
proof -
  have "barrier_ok b"
    using assms(1) assms(2-4) [of n]
    by (auto simp: tp_join_barrier_init_def barrier_ok_def res_simps split: option.splits)
  then show ?thesis by (rule barrier_run_steps_ok)
qed

theorem barrier_run_ok_witness:
  "\<exists>b. tp_join_barrier_init (\<lambda>k. Some (replicate k zero_sequence_rule)) (\<lambda>k. Some (replicate k zero_timestamp_rule))
      (\<lambda>k. Some (replicate k zero_input_state)) TP_JOIN_BARRIER_SEQUENCE 2 = Inr b \<and>
    barrier_ok (fold barrier_step [ApplySequence (sample_sequence_map 1), ObservedSeq 1 7 100] b)"
proof -
  obtain b where b: "tp_join_barrier_init (\<lambda>k. Some (replicate k zero_sequence_rule)) (\<lambda>k. Some (replicate k zero_timestamp_rule))
      (\<lambda>k. Some (replicate k zero_input_state)) TP_JOIN_BARRIER_SEQUENCE 2 = Inr b"
    by (simp add: tp_join_barrier_init_def)
  from barrier_run_ok [OF this, of "[ApplySequence (sample_sequence_map 1), ObservedSeq 1 7 100]"] b show ?thesis by auto
qed

text \<open>
  C36: a sequence barrier with valid rules is ready for an output sequence exactly when every input
  that is not stale has been observed, and processed where that is required, up to the sequence
  its rule demands; the test never fails and never reaches undefined arithmetic for outputs below
  2^62.
\<close>

theorem is_ready_sequence_spec:
  assumes "barrier_ok b" "sequence_map_loaded b" "uint out < 2 ^ 62"
  shows "tp_join_barrier_is_ready_sequence b out now = Inr (\<forall>i<jb_rule_count b.
    tp_join_barrier_is_stale b (jb_state b ! i) now \<or>
    js_has_observed_seq (jb_state b ! i) \<and>
    (\<exists>q. required_in_seq (jb_sequence_rules b ! i) (uint out) = Some q \<and> q \<le> uint (js_observed_seq (jb_state b ! i)) \<and>
       (jb_require_processed b \<longrightarrow> js_has_processed_seq (jb_state b ! i) \<and> q \<le> uint (js_processed_seq (jb_state b ! i)))))"
  unfolding is_ready_sequence_eq [OF assms] sequence_rule_ready_def input_reached_seq_def
  by (auto split: option.splits)

theorem is_ready_sequence_spec_witness:
  "tp_join_barrier_is_ready_sequence sample_sequence_barrier 10 200 = Inr True \<and>
   tp_join_barrier_is_ready_sequence sample_sequence_barrier 11 200 = Inr False"
proof -
  have ok: "barrier_ok sample_sequence_barrier"
    unfolding sample_sequence_barrier_def by (intro barrier_run_steps_ok sample_barrier_ok)
  have loaded: "sequence_map_loaded sample_sequence_barrier" by code_simp
  have vals: "jb_rule_count sample_sequence_barrier = 2" "\<not> jb_require_processed sample_sequence_barrier"
    "\<not> tp_join_barrier_is_stale sample_sequence_barrier (jb_state sample_sequence_barrier ! 0) 200"
    "js_has_observed_seq (jb_state sample_sequence_barrier ! 0)" "js_has_observed_seq (jb_state sample_sequence_barrier ! 1)"
    "js_observed_seq (jb_state sample_sequence_barrier ! 0) = 13" "js_observed_seq (jb_state sample_sequence_barrier ! 1) = 10"
    "required_in_seq (jb_sequence_rules sample_sequence_barrier ! 0) 10 = Some 13"
    "required_in_seq (jb_sequence_rules sample_sequence_barrier ! 1) 10 = Some 10"
    "required_in_seq (jb_sequence_rules sample_sequence_barrier ! 0) 11 = Some 14"
    by code_simp+
  have idx: "(\<forall>i<2. P i) \<longleftrightarrow> P 0 \<and> P (1 :: nat)" for P by (auto simp: less_2_cases_iff)
  show ?thesis
    using is_ready_sequence_spec [OF ok loaded, of 10 200] is_ready_sequence_spec [OF ok loaded, of 11 200] vals
    by (simp add: idx)
qed

text \<open>
  Readiness is stable: while stale inputs are not skipped, a sequence barrier that is ready for
  an output sequence stays ready for it through any progress reports, invalidations and readiness
  queries, accepted or rejected.
\<close>

theorem is_ready_sequence_stable:
  assumes "barrier_ok b" "sequence_map_loaded b" "uint out < 2 ^ 62" "\<not> jb_allow_stale b"
    and "\<forall>c\<in>set calls. progress_call c"
    and "tp_join_barrier_is_ready_sequence b out now = Inr True"
  shows "tp_join_barrier_is_ready_sequence (fold barrier_step calls b) out now' = Inr True"
proof -
  let ?b = "fold barrier_step calls b"
  have le: "barrier_le b ?b" using progress_run_le assms(1,5) by blast
  have ok: "barrier_ok ?b" using assms(1) by (rule barrier_run_steps_ok)
  from le obtain states where st: "list_all2 input_le (jb_state b) (jb_state ?b)"
    and eq: "jb_rule_count ?b = jb_rule_count b" "jb_sequence_rules ?b = jb_sequence_rules b"
      "jb_type ?b = jb_type b" "jb_require_processed ?b = jb_require_processed b"
    by (auto simp: barrier_le_def)
  have loaded: "sequence_map_loaded ?b" using assms(2) eq by (simp add: sequence_map_loaded_def)
  have not_stale: "\<not> tp_join_barrier_is_stale b s now" for s
    using assms(4) by (simp add: tp_join_barrier_is_stale_def)
  have "sequence_rule_ready ?b (uint out) (jb_sequence_rules ?b ! i) (jb_state ?b ! i)" if "i < jb_rule_count b" for i
  proof -
    have "sequence_rule_ready b (uint out) (jb_sequence_rules b ! i) (jb_state b ! i)"
      using assms(6) that not_stale unfolding is_ready_sequence_eq [OF assms(1-3)] by auto
    moreover have "input_le (jb_state b ! i) (jb_state ?b ! i)"
      using st that assms(1) by (auto simp: list_all2_conv_all_nth barrier_ok_def)
    ultimately show ?thesis using sequence_rule_ready_mono eq by simp
  qed
  then show ?thesis unfolding is_ready_sequence_eq [OF ok loaded assms(3)] using eq by simp
qed

text \<open>
  A timestamp barrier whose clock domain matches and whose output time does not go back records
  the output time and is ready exactly when, for every input that is not stale, the observed time
  (and the processed time where required) is no more than the lateness budget behind the time its
  rule demands. Times are below 2^63 nanoseconds, and offsets and lateness below 2^62.
\<close>

theorem is_ready_timestamp_spec:
  assumes "barrier_ok b" "jb_type b = TP_JOIN_BARRIER_TIMESTAMP" "jb_rule_count b \<noteq> 0"
    and "jb_clock_domain b = 0 \<or> clock_domain = jb_clock_domain b"
    and "jb_has_last_out_time b \<longrightarrow> jb_last_out_time_ns b \<le> out"
    and "\<forall>i<jb_rule_count b. tp_timestamp_rule_valid (jb_timestamp_rules b ! i) \<and>
      times_in_range b (jb_state b ! i) (jb_timestamp_rules b ! i)"
    and "uint out < 2 ^ 62"
  shows "tp_join_barrier_is_ready_timestamp b out clock_domain now =
    (b\<lparr>jb_last_out_time_ns := out, jb_has_last_out_time := True\<rparr>,
     Inr (\<forall>i<jb_rule_count b. tp_join_barrier_is_stale b (jb_state b ! i) now \<or>
       timestamp_rule_ready b (uint out) (jb_timestamp_rules b ! i) (jb_state b ! i)))"
proof -
  let ?b = "b\<lparr>jb_last_out_time_ns := out, jb_has_last_out_time := True\<rparr>"
  let ?xs = "zip (take (jb_rule_count b) (jb_timestamp_rules b)) (take (jb_rule_count b) (jb_state b))"
  have len: "length (jb_timestamp_rules b) = length (jb_state b)" "jb_rule_count b \<le> length (jb_timestamp_rules b)"
    using assms(1) by (simp_all add: barrier_ok_def)
  have same: "tp_join_barrier_is_stale ?b s now = tp_join_barrier_is_stale b s now"
    "timestamp_rule_ready ?b q r s = timestamp_rule_ready b q r s" "times_in_range ?b s r = times_in_range b s r" for s q r
    by (simp_all add: tp_join_barrier_is_stale_def timestamp_rule_ready_def times_in_range_def lateness_of_def
        split: option.splits)
  have "\<forall>(r, s)\<in>set ?xs. tp_join_barrier_timestamp_ready_for_rule ?b s r out = Inr (timestamp_rule_ready ?b (uint out) r s)"
    unfolding set_zip_take [OF len] using assms(6,7) timestamp_ready_for_rule_spec [of _ out ?b] same(3) by simp
  from ready_timestamp_loop_eq [OF this, of now] show ?thesis
    using assms(2-5) unfolding set_zip_take [OF len] same
    by (auto simp: tp_join_barrier_is_ready_timestamp_def Let_def not_less)
qed

definition sample_timestamp_barrier :: tp_join_barrier where
  "sample_timestamp_barrier = fold barrier_step
     [ApplyTimestamp (sample_timestamp_map 1), ObservedTime 1 950 1 1 100, ObservedTime 2 900 2 1 100]
     (sample_barrier TP_JOIN_BARRIER_TIMESTAMP)"

text \<open>
  Output times never go back: once a timestamp query has been evaluated, any later query with a
  smaller output time is rejected, whatever progress reports and queries came between.
\<close>

theorem out_time_monotone:
  assumes "barrier_ok b" "tp_join_barrier_is_ready_timestamp b out cd now = (b', Inr ready)" "jb_rule_count b \<noteq> 0"
    and "\<forall>c\<in>set calls. progress_call c" "out' < out"
  shows "\<exists>e. tp_join_barrier_is_ready_timestamp (fold barrier_step calls b') out' cd now' =
    (fold barrier_step calls b', Inl e)"
proof -
  let ?b = "fold barrier_step calls b'"
  have b': "b' = b\<lparr>jb_last_out_time_ns := out, jb_has_last_out_time := True\<rparr>"
    using assms(2,3) by (auto simp: tp_join_barrier_is_ready_timestamp_def Let_def split: if_splits)
  then have ok: "barrier_ok b'" using assms(1) by (simp add: barrier_ok_def)
  from progress_run_le [OF this assms(4)] b'
  have "jb_has_last_out_time ?b" "out \<le> jb_last_out_time_ns ?b" "jb_rule_count ?b = jb_rule_count b"
    by (auto simp: barrier_le_def cursor_le_def)
  with assms(3,5) show ?thesis by (auto simp: tp_join_barrier_is_ready_timestamp_def)
qed

lemma ready_latest_loop_collect:
  "ready_latest_loop b out cd now states = Inr True \<Longrightarrow> \<forall>s\<in>set states. \<not> tp_join_barrier_is_stale b s now \<Longrightarrow>
   collect_latest_loop b states = Inr (map (\<lambda>s. \<lparr>ls_stream_id = js_stream_id s, ls_seq = js_observed_seq s,
     ls_timestamp_ns = js_observed_time_ns s, ls_timestamp_source = js_timestamp_source s\<rparr>) states)"
  by (induction states) (auto simp: res_simps split: if_splits)

text \<open>
  When a latest-value barrier is ready and none of its inputs is stale, collecting succeeds and
  returns, for each rule in order, the stream with its latest observed sequence and time.
\<close>

theorem ready_latest_collects:
  assumes "tp_join_barrier_is_ready_latest b out_seq out_time cd now = (b', Inr True)"
    and "\<forall>s\<in>set (take (jb_rule_count b) (jb_state b)). \<not> tp_join_barrier_is_stale b s now"
    and "jb_rule_count b \<le> capacity"
  shows "tp_join_barrier_collect_latest b' capacity =
    Inr (map (\<lambda>s. \<lparr>ls_stream_id = js_stream_id s, ls_seq = js_observed_seq s, ls_timestamp_ns = js_observed_time_ns s,
      ls_timestamp_source = js_timestamp_source s\<rparr>) (take (jb_rule_count b) (jb_state b)))"
proof -
  have b': "b' = b \<or> b' = b\<lparr>jb_last_out_time_ns := out_time, jb_has_last_out_time := True\<rparr>"
    and ty: "jb_type b = TP_JOIN_BARRIER_LATEST_VALUE"
    and dom: "\<not> (jb_latest_ordering b = TP_LATEST_ORDERING_TIMESTAMP \<and> jb_clock_domain b = 0)"
    and loop: "ready_latest_loop b' out_time cd now (take (jb_rule_count b') (jb_state b')) = Inr True"
    using assms(1) by (auto simp: tp_join_barrier_is_ready_latest_def Let_def split: if_splits)
  have eq: "jb_rule_count b' = jb_rule_count b" "jb_state b' = jb_state b" "jb_type b' = jb_type b"
    "jb_latest_ordering b' = jb_latest_ordering b" "jb_clock_domain b' = jb_clock_domain b"
    "tp_join_barrier_is_stale b' s now = tp_join_barrier_is_stale b s now" for s
    using b' by (auto simp: tp_join_barrier_is_stale_def)
  have "\<forall>s\<in>set (take (jb_rule_count b') (jb_state b')). \<not> tp_join_barrier_is_stale b' s now"
    unfolding eq using assms(2) .
  from ready_latest_loop_collect [OF loop this] show ?thesis
    using ty dom assms(3) by (auto simp: tp_join_barrier_collect_latest_def eq)
qed

definition sample_latest_barrier :: tp_join_barrier where
  "sample_latest_barrier = fold barrier_step
     [ApplyLatestSequence (sample_sequence_map 1\<lparr>sm_stale_timeout_ns := 50\<rparr>), SetAllowStale True,
      ObservedSeq 1 5 100, ObservedSeq 2 9 100]
     (sample_barrier TP_JOIN_BARRIER_LATEST_VALUE)"

text \<open>
  With a stale input that was invalidated, readiness and collection disagree: the barrier
  reports that it is ready, because stale inputs are skipped, and collecting the latest values then
  fails, because it does not skip them.
\<close>

theorem stale_input_ready_but_not_collected:
  "\<exists>b now. barrier_ok b \<and> tp_join_barrier_is_ready_latest b 0 0 0 now = (b, Inr True) \<and>
     tp_join_barrier_collect_latest b (jb_rule_count b) = Inl (EINVAL ''tp_join_barrier_collect_latest: latest not ready'')"
proof -
  let ?b = "barrier_step (ObservedSeq 1 6 290) (barrier_step (InvalidateLatest 2) sample_latest_barrier)"
  have "barrier_ok ?b"
    unfolding sample_latest_barrier_def by (intro barrier_step_ok barrier_run_steps_ok sample_barrier_ok)
  moreover have "snd (tp_join_barrier_is_ready_latest ?b 0 0 0 300) = Inr True"
    and "fst (tp_join_barrier_is_ready_latest ?b 0 0 0 300) = ?b"
    and "tp_join_barrier_collect_latest ?b (jb_rule_count ?b) =
      Inl (EINVAL ''tp_join_barrier_collect_latest: latest not ready'')"
    by code_simp+
  ultimately show ?thesis by (metis prod.collapse)
qed

text \<open>
  The stale inputs are counted whether or not an array is given, and an array that is large
  enough receives exactly the streams of the stale inputs, in rule order; a smaller one is
  refused.
\<close>

theorem collect_stale_inputs_spec:
  "let stale = filter (\<lambda>s. tp_join_barrier_is_stale b s now) (take (jb_rule_count b) (jb_state b)) in
    tp_join_barrier_collect_stale_inputs b now None capacity = Inr (length stale, []) \<and>
    (capacity \<noteq> 0 \<longrightarrow> tp_join_barrier_collect_stale_inputs b now (Some ()) capacity =
      (if length stale \<le> capacity then Inr (length stale, map js_stream_id stale)
       else Inl (EINVAL ''tp_join_barrier_collect_stale_inputs: capacity too small'')))"
  by (auto simp: tp_join_barrier_collect_stale_inputs_def tp_join_barrier_is_stale_def Let_def)

end
