(* ===== verification/Tp_Tensor.thy ===== *)
theory Tp_Tensor
  imports Tp_Prelude
begin

text \<open>
  Tensor headers (src/src/common/tp_tensor.c): element sizes, and the inference and validation of
  strides. An \<open>int32_t\<close> is a 32-bit word read with \<open>sint\<close>; a product that does not fit
  is the \<open>UB\<close> outcome. A validated layout keeps distinct elements apart, except where the
  innermost stride is shorter than an element, which the code does not reject.
\<close>

section \<open>Data\<close>

record tp_tensor_header =
  th_dtype :: u16 \<comment> \<open>int16_t\<close>
  th_major_order :: u16 \<comment> \<open>int16_t\<close>
  th_ndims :: u8
  th_progress_unit :: u8
  th_progress_stride_bytes :: u32
  th_dims :: "u32 list" \<comment> \<open>int32_t[TP_MAX_DIMS]\<close>
  th_strides :: "u32 list" \<comment> \<open>int32_t[TP_MAX_DIMS]\<close>

definition majorOrder_ROW :: u16 where "majorOrder_ROW = 1"
definition majorOrder_COLUMN :: u16 where "majorOrder_COLUMN = 2"
definition progressUnit_NONE :: u8 where "progressUnit_NONE = 0"
definition progressUnit_ROWS :: u8 where "progressUnit_ROWS = 1"
definition progressUnit_COLUMNS :: u8 where "progressUnit_COLUMNS = 2"

lemmas tensor_enum_defs = majorOrder_ROW_def majorOrder_COLUMN_def progressUnit_NONE_def
  progressUnit_ROWS_def progressUnit_COLUMNS_def

text \<open>
  The enumerators of the schema's Dtype: UINT8 = 1, INT8 = 2, UINT16 = 3, INT16 = 4, UINT32 = 5,
  INT32 = 6, UINT64 = 7, INT64 = 8, FLOAT32 = 9, FLOAT64 = 10, BOOLEAN = 11, BYTES = 13, BIT = 14.
\<close>

definition tp_dtype_size_bytes :: "u16 \<Rightarrow> nat" where
  "tp_dtype_size_bytes dtype =
     (if dtype = 1 \<or> dtype = 2 \<or> dtype = 11 \<or> dtype = 13 \<or> dtype = 14 then 1
      else if dtype = 3 \<or> dtype = 4 then 2
      else if dtype = 5 \<or> dtype = 6 \<or> dtype = 9 then 4
      else if dtype = 7 \<or> dtype = 8 \<or> dtype = 10 then 8
      else 0)"

section \<open>Strides\<close>

text \<open>
  One iteration of either loop of \<open>tp_tensor_fill_strides\<close>: the stride of dimension
  \<open>i\<close> is inferred from, or checked against, the next inner dimension \<open>j\<close>.
\<close>

definition fill_stride_at :: "nat \<Rightarrow> nat \<Rightarrow> tp_tensor_header \<Rightarrow> tp_tensor_header res" where
  "fill_stride_at i j h =
     (let dim = (if sint (th_dims h ! j) > 0 then sint (th_dims h ! j) else 1);
          expected = sint (th_strides h ! j) * dim
      in guard (\<not> in_int32 expected) (UB ''strides[i + 1] * dim'')
         (if th_strides h ! i = 0 then Inr (h\<lparr>th_strides := (th_strides h)[i := word_of_int expected]\<rparr>)
          else guard (sint (th_strides h ! i) < expected) FAIL (Inr h)))"

fun fill_strides_loop :: "(nat \<times> nat) list \<Rightarrow> tp_tensor_header \<Rightarrow> tp_tensor_header res" where
  "fill_strides_loop [] h = Inr h"
| "fill_strides_loop ((i, j) # rest) h = bind_res (fill_stride_at i j h) (fill_strides_loop rest)"

definition tp_tensor_fill_strides :: "tp_tensor_header \<Rightarrow> nat \<Rightarrow> tp_tensor_header res" where
  "tp_tensor_fill_strides h elem_size =
     (let n = unat (th_ndims h)
      in if th_major_order h = majorOrder_ROW then
           guard (n = 0) FAIL
           (let h = (if th_strides h ! (n - 1) = 0
                     then h\<lparr>th_strides := (th_strides h)[n - 1 := of_nat elem_size]\<rparr> else h)
            in fill_strides_loop (map (\<lambda>i. (i, Suc i)) (rev [0..<n - 1])) h)
         else if th_major_order h = majorOrder_COLUMN then
           guard (n = 0) FAIL
           (let h = (if th_strides h ! 0 = 0
                     then h\<lparr>th_strides := (th_strides h)[0 := of_nat elem_size]\<rparr> else h)
            in fill_strides_loop (map (\<lambda>i. (i, i - 1)) [1..<n]) h)
         else Inl FAIL)"

definition tp_tensor_validate_progress :: "tp_tensor_header \<Rightarrow> bool" where
  "tp_tensor_validate_progress h =
     (if th_progress_unit h = progressUnit_NONE then True
      else if th_progress_stride_bytes h = 0 then False
      else if th_progress_unit h = progressUnit_ROWS then
        (if th_ndims h = 0 then False else th_strides h ! 0 = th_progress_stride_bytes h)
      else if th_progress_unit h = progressUnit_COLUMNS then
        (if th_ndims h < 2 then False else th_strides h ! 1 = th_progress_stride_bytes h)
      else False)"

text \<open>
  The loop over the dimensions and strides that are in use: the first negative one is reported.
\<close>

fun check_dims_loop :: "(u32 \<times> u32) list \<Rightarrow> 'a res \<Rightarrow> 'a res" where
  "check_dims_loop [] k = k"
| "check_dims_loop ((d, s) # rest) k =
     guard (sint d < 0) (EINVAL ''tp_tensor_header_validate: invalid dims'')
     (guard (sint s < 0) (EINVAL ''tp_tensor_header_validate: negative stride'') (check_dims_loop rest k))"

text \<open>
  The header with its inferred strides. On an error the C function may leave some strides filled
  in; every caller then discards the header.
\<close>

definition tp_tensor_header_validate :: "tp_tensor_header \<Rightarrow> tp_tensor_header res" where
  "tp_tensor_header_validate h =
     guard (th_ndims h = 0 \<or> unat (th_ndims h) > TP_MAX_DIMS)
       (EINVAL ''tp_tensor_header_validate: invalid ndims'')
     (let elem_size = tp_dtype_size_bytes (th_dtype h)
      in guard (elem_size = 0) (EINVAL ''tp_tensor_header_validate: invalid dtype'')
       (check_dims_loop (take (unat (th_ndims h)) (zip (th_dims h) (th_strides h)))
         (case tp_tensor_fill_strides h elem_size of
            Inl (UB m) \<Rightarrow> Inl (UB m)
          | Inl _ \<Rightarrow> Inl (EINVAL ''tp_tensor_header_validate: strides inconsistent with major order'')
          | Inr h' \<Rightarrow>
              guard (\<not> tp_tensor_validate_progress h')
                (EINVAL ''tp_tensor_header_validate: invalid progress stride'') (Inr h'))))"

text \<open>The producer clears the unused dimensions before it validates.\<close>

definition clear_from :: "nat \<Rightarrow> u32 list \<Rightarrow> u32 list" where
  "clear_from n xs = map (\<lambda>i. if n \<le> i \<and> i < TP_MAX_DIMS then 0 else xs ! i) [0..<length xs]"

definition tp_prepare_tensor_header :: "tp_tensor_header \<Rightarrow> tp_tensor_header res" where
  "tp_prepare_tensor_header tensor =
     tp_tensor_header_validate
       (tensor\<lparr>th_dims := clear_from (unat (th_ndims tensor)) (th_dims tensor),
               th_strides := clear_from (unat (th_ndims tensor)) (th_strides tensor)\<rparr>)"

section \<open>What validation establishes\<close>

text \<open>The header's arrays have the length of their C type.\<close>

definition header_shape :: "tp_tensor_header \<Rightarrow> bool" where
  "header_shape h \<longleftrightarrow> length (th_dims h) = TP_MAX_DIMS \<and> length (th_strides h) = TP_MAX_DIMS"

definition dim_at :: "tp_tensor_header \<Rightarrow> nat \<Rightarrow> int" where
  "dim_at h i = sint (th_dims h ! i)"

definition stride_at :: "tp_tensor_header \<Rightarrow> nat \<Rightarrow> int" where
  "stride_at h i = sint (th_strides h ! i)"

text \<open>Dimension \<open>i\<close> steps over all of dimension \<open>j\<close>.\<close>

definition steps_over :: "tp_tensor_header \<Rightarrow> nat \<Rightarrow> nat \<Rightarrow> bool" where
  "steps_over h i j \<longleftrightarrow> stride_at h j * max 1 (dim_at h j) \<le> stride_at h i"

lemma sint_word_of_int_int32: "in_int32 i \<Longrightarrow> sint (word_of_int i :: u32) = i"
  by (simp add: in_int32_def signed_of_int signed_take_bit_int_eq_self)

lemma sint_zero_iff: "sint (w :: u32) = 0 \<longleftrightarrow> w = 0"
  by (metis signed_0 signed_word_eqI)

lemma fill_stride_at_Inr:
  assumes "fill_stride_at i j h = Inr h'" "i < length (th_strides h)" "i \<noteq> j"
  shows "\<exists>v. h' = h\<lparr>th_strides := (th_strides h)[i := v]\<rparr> \<and> (th_strides h ! i \<noteq> 0 \<longrightarrow> v = th_strides h ! i) \<and>
    steps_over h' i j"
proof -
  let ?e = "stride_at h j * max 1 (dim_at h j)"
  have e: "sint (th_strides h ! j) * (if 0 < sint (th_dims h ! j) then sint (th_dims h ! j) else 1) = ?e"
    by (auto simp: stride_at_def dim_at_def max_def)
  have r: "in_int32 ?e" and cases: "(if th_strides h ! i = 0 then h' = h\<lparr>th_strides := (th_strides h)[i := word_of_int ?e]\<rparr>
      else ?e \<le> stride_at h i \<and> h' = h)"
    using assms(1) by (auto simp: fill_stride_at_def Let_def res_simps e stride_at_def split: if_splits)
  show ?thesis
  proof (cases "th_strides h ! i = 0")
    case True
    with cases assms(2,3) sint_word_of_int_int32 [OF r] show ?thesis
      by (auto simp: steps_over_def stride_at_def dim_at_def)
  next
    case False
    with cases assms(2) show ?thesis
      by (intro exI [of _ "th_strides h ! i"]) (auto simp: steps_over_def)
  qed
qed

text \<open>Each dimension is settled before it is used to infer an outer one, and then left alone.\<close>

fun loop_order :: "(nat \<times> nat) list \<Rightarrow> bool" where
  "loop_order [] \<longleftrightarrow> True"
| "loop_order ((i, j) # rest) \<longleftrightarrow> i \<noteq> j \<and> i < TP_MAX_DIMS \<and> j < TP_MAX_DIMS \<and> (\<forall>(i', j')\<in>set rest. i' \<noteq> i \<and> i' \<noteq> j) \<and> loop_order rest"

definition keeps :: "tp_tensor_header \<Rightarrow> tp_tensor_header \<Rightarrow> nat set \<Rightarrow> bool" where
  "keeps h h' I \<longleftrightarrow> th_dtype h' = th_dtype h \<and> th_major_order h' = th_major_order h \<and> th_ndims h' = th_ndims h \<and>
     th_progress_unit h' = th_progress_unit h \<and> th_progress_stride_bytes h' = th_progress_stride_bytes h \<and>
     th_dims h' = th_dims h \<and> header_shape h' \<and>
     (\<forall>k. k \<notin> I \<or> th_strides h ! k \<noteq> 0 \<longrightarrow> th_strides h' ! k = th_strides h ! k)"

lemma fill_strides_loop_Inr:
  "fill_strides_loop ijs h = Inr h' \<Longrightarrow> loop_order ijs \<Longrightarrow> header_shape h \<Longrightarrow>
   keeps h h' (fst ` set ijs) \<and> (\<forall>(i, j)\<in>set ijs. steps_over h' i j)"
proof (induction ijs arbitrary: h)
  case Nil
  then show ?case by (simp add: keeps_def)
next
  case (Cons ij ijs)
  obtain i j where ij: "ij = (i, j)" by force
  from Cons.prems ij obtain h1 where h1: "fill_stride_at i j h = Inr h1" "fill_strides_loop ijs h1 = Inr h'"
    by (auto simp: res_simps)
  have i: "i < length (th_strides h)" "i \<noteq> j" using Cons.prems(2,3) ij by (auto simp: header_shape_def)
  obtain v where v: "h1 = h\<lparr>th_strides := (th_strides h)[i := v]\<rparr>" "th_strides h ! i \<noteq> 0 \<longrightarrow> v = th_strides h ! i"
      "steps_over h1 i j"
    using fill_stride_at_Inr [OF h1(1) i] by blast
  have IH: "keeps h1 h' (fst ` set ijs)" "\<forall>(i, j)\<in>set ijs. steps_over h' i j"
    using Cons.IH [OF h1(2)] Cons.prems(2,3) v(1) ij by (auto simp: header_shape_def)
  have same: "th_strides h' ! i = th_strides h1 ! i" "th_strides h' ! j = th_strides h1 ! j"
    using IH(1) Cons.prems(2) ij by (fastforce simp: keeps_def)+
  have "th_dims h' = th_dims h1" using IH(1) by (simp add: keeps_def)
  with same v(3) have "steps_over h' i j" by (simp add: steps_over_def stride_at_def dim_at_def)
  moreover have "keeps h h' (fst ` set (ij # ijs))"
    using IH(1) v i ij unfolding keeps_def by (auto simp: nth_list_update split: if_splits)
  ultimately show ?case using IH(2) ij by auto
qed

section \<open>Layouts that keep elements apart\<close>

text \<open>
  Dimensions with their strides, outermost first: each stride spans the next inner dimension, and
  the innermost spans one element of \<open>e\<close> bytes.
\<close>

fun nested :: "int \<Rightarrow> (int \<times> int) list \<Rightarrow> bool" where
  "nested e [] \<longleftrightarrow> True"
| "nested e [(d, s)] \<longleftrightarrow> e \<le> s"
| "nested e ((d, s) # (d', s') # rest) \<longleftrightarrow> s' * max 1 d' \<le> s \<and> nested e ((d', s') # rest)"

definition offset_in :: "int list \<Rightarrow> (int \<times> int) list \<Rightarrow> int" where
  "offset_in idx L = sum_list (map2 (\<lambda>i (d, s). i * s) idx L)"

definition index_in :: "int list \<Rightarrow> (int \<times> int) list \<Rightarrow> bool" where
  "index_in idx L \<longleftrightarrow> list_all2 (\<lambda>i (d, s). 0 \<le> i \<and> i < d) idx L"

lemma offset_in_simps [simp]:
  "offset_in [] L = 0" "offset_in idx [] = 0"
  "offset_in (i # idx) ((d, s) # L) = i * s + offset_in idx L"
  by (simp_all add: offset_in_def)

lemma index_in_simps [simp]:
  "index_in [] []" "index_in (i # idx) ((d, s) # L) \<longleftrightarrow> 0 \<le> i \<and> i < d \<and> index_in idx L"
  "\<not> index_in [] (x # L)" "\<not> index_in (i # idx) []"
  by (simp_all add: index_in_def)

lemma nested_stride: "nested e ((d, s) # L) \<Longrightarrow> 0 \<le> e \<Longrightarrow> e \<le> s"
proof (induction e "(d, s) # L" arbitrary: d s L rule: nested.induct)
  case (3 e d s d' s' rest)
  then have "e \<le> s'" by simp
  with "3.prems"(2) have "s' * 1 \<le> s' * max 1 d'" by (intro mult_left_mono) simp_all
  with \<open>e \<le> s'\<close> "3.prems"(1) show ?case by simp
qed simp

text \<open>An element of a nested layout lies within the span of the outermost dimension.\<close>

lemma offset_bounds:
  "nested e ((d, s) # L) \<Longrightarrow> 0 \<le> e \<Longrightarrow> index_in idx ((d, s) # L) \<Longrightarrow>
   0 \<le> offset_in idx ((d, s) # L) \<and> offset_in idx ((d, s) # L) + e \<le> s * d"
proof (induction L arbitrary: d s idx)
  case Nil
  then obtain i where i: "idx = [i]" "0 \<le> i" "i < d" by (cases idx) (auto simp: index_in_def)
  have "i * s + s \<le> s * d"
    using Nil i mult_left_mono [of "i + 1" d s] by (simp add: algebra_simps)
  with Nil i show ?case by simp
next
  case (Cons ds L)
  obtain d' s' where ds: "ds = (d', s')" by force
  from Cons.prems(3) obtain i idx' where i: "idx = i # idx'" "0 \<le> i" "i < d" "index_in idx' ((d', s') # L)"
    by (cases idx) (auto simp: ds)
  have IH: "0 \<le> offset_in idx' ((d', s') # L)" "offset_in idx' ((d', s') # L) + e \<le> s' * d'"
    using Cons.IH [of d' s' idx'] Cons.prems i ds by auto
  have "0 \<le> s'" using nested_stride [of e d' s' L] Cons.prems ds by simp
  then have "s' * d' \<le> s' * max 1 d'" by (intro mult_left_mono) auto
  then have le: "s' * d' \<le> s" using Cons.prems(1) ds by simp
  have "0 \<le> s" using nested_stride [OF Cons.prems(1,2)] Cons.prems(2) by simp
  then have "i * s + s \<le> s * d" using i mult_left_mono [of "i + 1" d s] by (simp add: algebra_simps)
  with IH le \<open>0 \<le> s\<close> i ds show ?case by simp
qed

text \<open>Distinct elements are at least one element size apart.\<close>

lemma offsets_apart:
  "nested e L \<Longrightarrow> 0 \<le> e \<Longrightarrow> index_in idx L \<Longrightarrow> index_in jdx L \<Longrightarrow> idx \<noteq> jdx \<Longrightarrow>
   e \<le> \<bar>offset_in idx L - offset_in jdx L\<bar>"
proof (induction L arbitrary: idx jdx)
  case Nil
  then show ?case by (auto simp: index_in_def)
next
  case (Cons ds L)
  obtain d s where ds: "ds = (d, s)" by force
  from Cons.prems ds obtain i ks j js where ij: "idx = i # ks" "jdx = j # js"
    by (cases idx; cases jdx) auto
  have "0 \<le> s" using nested_stride Cons.prems ds by fastforce
  have inner: "0 \<le> offset_in ks L \<and> offset_in ks L + e \<le> s" if "index_in ks L" for ks
  proof (cases L)
    case Nil
    with Cons.prems ds show ?thesis by auto
  next
    case (Cons ds' L')
    obtain d' s' where ds': "ds' = (d', s')" by force
    have n: "nested e ((d', s') # L')" "s' * max 1 d' \<le> s" using \<open>nested e (ds # L)\<close> ds Cons ds' by auto
    have "0 \<le> s'" using nested_stride [OF n(1)] \<open>0 \<le> e\<close> by simp
    then have "s' * d' \<le> s' * max 1 d'" by (intro mult_left_mono) auto
    with offset_bounds [OF n(1) \<open>0 \<le> e\<close>, of ks] that Cons ds' n(2) show ?thesis by simp
  qed
  show ?case
  proof (cases "i = j")
    case True
    have "nested e L" using Cons.prems(1) ds by (cases L) auto
    with Cons True ij ds show ?thesis by simp
  next
    case False
    have "s \<le> \<bar>(i - j) * s\<bar>"
      using False \<open>0 \<le> s\<close> mult_right_mono [of 1 "\<bar>i - j\<bar>" s] by (simp add: abs_mult)
    moreover have "\<bar>offset_in ks L - offset_in js L\<bar> + e \<le> s"
      using inner [of ks] inner [of js] Cons.prems ij ds by auto
    moreover have "offset_in idx (ds # L) - offset_in jdx (ds # L) = (i - j) * s + (offset_in ks L - offset_in js L)"
      by (simp add: ij ds algebra_simps)
    ultimately show ?thesis by linarith
  qed
qed

text \<open>The layout of a header, outermost dimension first.\<close>

definition layout_of :: "tp_tensor_header \<Rightarrow> (int \<times> int) list" where
  "layout_of h =
     (let l = map (\<lambda>k. (dim_at h k, stride_at h k)) [0..<unat (th_ndims h)]
      in if th_major_order h = majorOrder_ROW then l else rev l)"

definition element_offset :: "tp_tensor_header \<Rightarrow> int list \<Rightarrow> int" where
  "element_offset h idx = (\<Sum>k<unat (th_ndims h). idx ! k * stride_at h k)"

definition element_index :: "tp_tensor_header \<Rightarrow> int list \<Rightarrow> bool" where
  "element_index h idx \<longleftrightarrow> length idx = unat (th_ndims h) \<and> (\<forall>k<unat (th_ndims h). 0 \<le> idx ! k \<and> idx ! k < dim_at h k)"

definition innermost_stride :: "tp_tensor_header \<Rightarrow> int" where
  "innermost_stride h = stride_at h (if th_major_order h = majorOrder_ROW then unat (th_ndims h) - 1 else 0)"

definition layout_index :: "tp_tensor_header \<Rightarrow> int list \<Rightarrow> int list" where
  "layout_index h idx = (if th_major_order h = majorOrder_ROW then idx else rev idx)"

lemma sum_list_nth: "length xs = n \<Longrightarrow> sum_list xs = (\<Sum>k<n. (xs ! k :: int))"
  by (simp add: sum_list_sum_nth atLeast0LessThan)

lemma offset_layout:
  assumes "length idx = unat (th_ndims h)"
  shows "offset_in (layout_index h idx) (layout_of h) = element_offset h idx"
proof -
  let ?l = "map (\<lambda>k. (dim_at h k, stride_at h k)) [0..<unat (th_ndims h)]"
  have row: "sum_list (map2 (\<lambda>i (d, s). i * s) idx ?l) = element_offset h idx"
    using assms by (subst sum_list_nth [where n = "unat (th_ndims h)"]) (auto simp: element_offset_def)
  have "sum_list (map2 (\<lambda>i (d, s). i * s) (rev idx) (rev ?l)) = sum_list (map2 (\<lambda>i (d, s). i * s) idx ?l)"
    using assms by (simp add: zip_rev rev_map [symmetric] del: rev_map)
  with row show ?thesis by (simp add: offset_in_def layout_of_def layout_index_def Let_def)
qed

lemma index_layout: "element_index h idx \<Longrightarrow> index_in (layout_index h idx) (layout_of h)"
  by (auto simp: element_index_def index_in_def layout_of_def layout_index_def Let_def list_all2_conv_all_nth rev_nth)

lemma nested_nth:
  "nested e L \<longleftrightarrow> (L \<noteq> [] \<longrightarrow> e \<le> snd (last L)) \<and>
     (\<forall>k. Suc k < length L \<longrightarrow> snd (L ! Suc k) * max 1 (fst (L ! Suc k)) \<le> snd (L ! k))"
  by (induction e L rule: nested.induct) (auto simp: nth_Cons' less_Suc_eq_0_disj split: if_splits)

lemma loop_order_row: "n < TP_MAX_DIMS \<Longrightarrow> loop_order (map (\<lambda>i. (i, Suc i)) (rev [0..<n]))"
  by (induction n) (auto dest: Suc_lessD)

lemma loop_order_column: "n \<le> TP_MAX_DIMS \<Longrightarrow> loop_order (map (\<lambda>i. (i, i - 1)) [Suc m..<n])"
proof (induction "n - m" arbitrary: m)
  case (Suc k)
  have IH: "loop_order (map (\<lambda>i. (i, i - 1)) [Suc (Suc m)..<n])"
    by (rule Suc.hyps(1)) (use Suc in auto)
  then show ?case
  proof (cases "Suc m < n")
    case True
    then have "[Suc m..<n] = Suc m # [Suc (Suc m)..<n]" by (rule upt_conv_Cons)
    with IH True Suc.prems show ?thesis by auto
  qed simp
qed simp

lemma keeps_trans: "keeps h h1 I \<Longrightarrow> keeps h1 h2 J \<Longrightarrow> keeps h h2 (I \<union> J)"
  unfolding keeps_def by simp

lemma keeps_seed:
  "header_shape h \<Longrightarrow> keeps h (if th_strides h ! k = 0 then h\<lparr>th_strides := (th_strides h)[k := v]\<rparr> else h) {k}"
  by (auto simp: keeps_def header_shape_def)

text \<open>What a successful inference leaves: given strides are kept, and the layout is nested.\<close>

lemma fill_strides_row:
  assumes "tp_tensor_fill_strides h e = Inr h'" "header_shape h" "unat (th_ndims h) \<le> TP_MAX_DIMS"
    and "th_major_order h = majorOrder_ROW" "e' \<le> innermost_stride h'"
  shows "keeps h h' UNIV \<and> nested e' (layout_of h') \<and> 0 < unat (th_ndims h) \<and>
    innermost_stride h' = (if innermost_stride h = 0 then sint (of_nat e :: u32) else innermost_stride h)"
proof -
  let ?n = "unat (th_ndims h)"
  let ?h = "if th_strides h ! (?n - 1) = 0 then h\<lparr>th_strides := (th_strides h)[?n - 1 := of_nat e]\<rparr> else h"
  from assms(1,4) have n: "?n \<noteq> 0" and loop: "fill_strides_loop (map (\<lambda>i. (i, Suc i)) (rev [0..<?n - 1])) ?h = Inr h'"
    by (auto simp: tp_tensor_fill_strides_def Let_def res_simps)
  have seed: "keeps h ?h {?n - 1}" using assms(2) by (rule keeps_seed)
  have "header_shape ?h" using seed unfolding keeps_def by blast
  then have k: "keeps ?h h' (fst ` set (map (\<lambda>i. (i, Suc i)) (rev [0..<?n - 1])))"
      "\<forall>(i, j)\<in>set (map (\<lambda>i. (i, Suc i)) (rev [0..<?n - 1])). steps_over h' i j"
    using fill_strides_loop_Inr [OF loop loop_order_row] n assms(3) by auto
  have kept: "keeps h h' UNIV" using keeps_trans [OF seed k(1)] by (auto simp: keeps_def)
  then have nd: "th_ndims h' = th_ndims h" "th_major_order h' = majorOrder_ROW"
    using assms(4) by (auto simp: keeps_def)
  have "nested e' (layout_of h')"
    using n k(2) assms(5)
    by (auto simp: nested_nth layout_of_def nd Let_def steps_over_def last_map innermost_stride_def)
  moreover have "th_strides h' ! (?n - 1) = th_strides ?h ! (?n - 1)"
    using k(1) n unfolding keeps_def by (auto simp: image_image)
  then have "innermost_stride h' = (if innermost_stride h = 0 then sint (of_nat e :: u32) else innermost_stride h)"
    using n assms(2-4) by (auto simp: innermost_stride_def nd stride_at_def sint_zero_iff header_shape_def)
  ultimately show ?thesis using kept n by simp
qed

lemma fill_strides_column:
  assumes "tp_tensor_fill_strides h e = Inr h'" "header_shape h" "unat (th_ndims h) \<le> TP_MAX_DIMS"
    and "th_major_order h = majorOrder_COLUMN" "e' \<le> innermost_stride h'"
  shows "keeps h h' UNIV \<and> nested e' (layout_of h') \<and> 0 < unat (th_ndims h) \<and>
    innermost_stride h' = (if innermost_stride h = 0 then sint (of_nat e :: u32) else innermost_stride h)"
proof -
  let ?n = "unat (th_ndims h)"
  let ?h = "if th_strides h ! 0 = 0 then h\<lparr>th_strides := (th_strides h)[0 := of_nat e]\<rparr> else h"
  from assms(1,4) have n: "?n \<noteq> 0" and loop: "fill_strides_loop (map (\<lambda>i. (i, i - 1)) [Suc 0..<?n]) ?h = Inr h'"
    by (auto simp: tp_tensor_fill_strides_def Let_def res_simps tensor_enum_defs)
  have seed: "keeps h ?h {0}" using assms(2) by (rule keeps_seed)
  have "header_shape ?h" using seed unfolding keeps_def by blast
  then have k: "keeps ?h h' (fst ` set (map (\<lambda>i. (i, i - 1)) [Suc 0..<?n]))"
      "\<forall>(i, j)\<in>set (map (\<lambda>i. (i, i - 1)) [Suc 0..<?n]). steps_over h' i j"
    using fill_strides_loop_Inr [OF loop loop_order_column] assms(3) by auto
  have kept: "keeps h h' UNIV" using keeps_trans [OF seed k(1)] by (auto simp: keeps_def)
  then have nd: "th_ndims h' = th_ndims h" "th_major_order h' = majorOrder_COLUMN"
    using assms(4) by (auto simp: keeps_def)
  have steps: "stride_at h' (?n - Suc (Suc i)) * max 1 (dim_at h' (?n - Suc (Suc i))) \<le> stride_at h' (?n - Suc i)"
    if "Suc i < ?n" for i
  proof -
    have "(?n - Suc i, ?n - Suc i - 1) \<in> set (map (\<lambda>i. (i, i - 1)) [Suc 0..<?n])" using that by auto
    with k(2) have "steps_over h' (?n - Suc i) (?n - Suc i - 1)" by blast
    then show ?thesis by (simp add: steps_over_def)
  qed
  have "nested e' (layout_of h')"
    using n assms(5) steps
    by (auto simp: nested_nth layout_of_def nd Let_def last_rev hd_map rev_nth innermost_stride_def tensor_enum_defs)
  moreover have "0 \<notin> fst ` set (map (\<lambda>i. (i, i - 1)) [Suc 0..<?n])" by auto
  then have "th_strides h' ! 0 = th_strides ?h ! 0" using k(1) unfolding keeps_def by blast
  then have "innermost_stride h' = (if innermost_stride h = 0 then sint (of_nat e :: u32) else innermost_stride h)"
    using n assms(2-4) by (auto simp: innermost_stride_def nd stride_at_def sint_zero_iff header_shape_def tensor_enum_defs TP_MAX_DIMS_def)
  ultimately show ?thesis using kept n by simp
qed

lemma nested_all: "nested e L \<Longrightarrow> 0 \<le> e \<Longrightarrow> (d, s) \<in> set L \<Longrightarrow> e \<le> s"
proof (induction e L rule: nested.induct)
  case (3 e d1 s1 d2 s2 rest)
  then show ?case using nested_stride [of e d1 s1 "(d2, s2) # rest"] by auto
qed auto

lemma check_dims_loop_Inr:
  "check_dims_loop ds k = Inr x \<longleftrightarrow> (\<forall>(d, s)\<in>set ds. 0 \<le> sint d \<and> 0 \<le> sint s) \<and> k = Inr x"
  by (induction ds k rule: check_dims_loop.induct) (auto simp: res_simps)

lemma elem_size_le: "tp_dtype_size_bytes t \<le> 8"
  by (simp add: tp_dtype_size_bytes_def)

lemma sint_elem_size: "sint (of_nat (tp_dtype_size_bytes t) :: u32) = int (tp_dtype_size_bytes t)"
  by (simp add: tp_dtype_size_bytes_def)

text \<open>
  What \<open>tp_tensor_header_validate\<close> establishes of the header it delivers.
\<close>

definition header_valid :: "tp_tensor_header \<Rightarrow> bool" where
  "header_valid h \<longleftrightarrow> header_shape h \<and> 0 < unat (th_ndims h) \<and> unat (th_ndims h) \<le> TP_MAX_DIMS \<and>
     tp_dtype_size_bytes (th_dtype h) \<noteq> 0 \<and>
     (th_major_order h = majorOrder_ROW \<or> th_major_order h = majorOrder_COLUMN) \<and>
     (\<forall>k<unat (th_ndims h). 0 \<le> dim_at h k \<and> 0 < stride_at h k) \<and>
     nested 1 (layout_of h) \<and> tp_tensor_validate_progress h"

lemma in_layout: "k < unat (th_ndims h) \<Longrightarrow> (dim_at h k, stride_at h k) \<in> set (layout_of h)"
  by (auto simp: layout_of_def Let_def)

lemma validate_Inr:
  assumes "tp_tensor_header_validate h = Inr h'" "header_shape h"
  shows "header_valid h' \<and> keeps h h' UNIV \<and>
    innermost_stride h' = (if innermost_stride h = 0 then int (tp_dtype_size_bytes (th_dtype h)) else innermost_stride h) \<and>
    (\<forall>e. e \<le> innermost_stride h' \<longrightarrow> nested e (layout_of h'))"
proof -
  let ?n = "unat (th_ndims h)" and ?e = "tp_dtype_size_bytes (th_dtype h)"
  from assms(1) have nd: "?n \<noteq> 0" "?n \<le> TP_MAX_DIMS" and e: "?e \<noteq> 0"
    and fill: "tp_tensor_fill_strides h ?e = Inr h'" and prog: "tp_tensor_validate_progress h'"
    and pos: "\<forall>(d, s)\<in>set (take ?n (zip (th_dims h) (th_strides h))). 0 \<le> sint d \<and> 0 \<le> sint s"
    by (auto simp: tp_tensor_header_validate_def Let_def res_simps check_dims_loop_Inr unat_eq_zero
        split: sum.splits tp_error.splits)
  have at: "0 \<le> dim_at h k" "0 \<le> stride_at h k" if "k < ?n" for k
  proof -
    have "(th_dims h ! k, th_strides h ! k) \<in> set (take ?n (zip (th_dims h) (th_strides h)))"
      using that nd(2) assms(2) by (auto simp: in_set_conv_nth header_shape_def intro!: exI [of _ k])
    with pos show "0 \<le> dim_at h k" "0 \<le> stride_at h k" by (auto simp: dim_at_def stride_at_def)
  qed
  have major: "th_major_order h = majorOrder_ROW \<or> th_major_order h = majorOrder_COLUMN"
    using fill by (auto simp: tp_tensor_fill_strides_def Let_def split: if_splits)
  have facts: "keeps h h' UNIV \<and> nested e' (layout_of h') \<and>
      innermost_stride h' = (if innermost_stride h = 0 then int ?e else innermost_stride h)"
    if "e' \<le> innermost_stride h'" for e'
    using major fill_strides_row [OF fill assms(2) nd(2) _ that] fill_strides_column [OF fill assms(2) nd(2) _ that]
    by (auto simp: sint_elem_size)
  have "0 \<le> innermost_stride h" using at nd(1) by (simp add: innermost_stride_def)
  then have one: "1 \<le> innermost_stride h'" using facts [OF order_refl] e by (auto split: if_splits)
  have kept: "keeps h h' UNIV" using facts one by blast
  then have same: "th_ndims h' = th_ndims h" "th_dims h' = th_dims h" "th_dtype h' = th_dtype h"
      "th_major_order h' = th_major_order h" "header_shape h'" by (auto simp: keeps_def)
  have "0 < stride_at h' k" if "k < ?n" for k
    using nested_all [OF conjunct1 [OF conjunct2 [OF facts [OF one]]], of "dim_at h' k" "stride_at h' k"]
      in_layout [of k h'] that same(1) by simp
  then have "header_valid h'"
    using nd e major facts [OF one] prog at same by (simp add: header_valid_def dim_at_def)
  with facts one show ?thesis by auto
qed

lemma fill_stride_at_done:
  assumes "steps_over h i j" "0 < stride_at h i" "0 \<le> stride_at h j"
  shows "fill_stride_at i j h = Inr h"
proof -
  have "0 \<le> stride_at h j * max 1 (dim_at h j)" using assms(3) by simp
  moreover have "stride_at h j * max 1 (dim_at h j) < 2 ^ 31"
    using assms(1) sint_u32_bounds(2) [of "th_strides h ! i"] by (simp add: steps_over_def stride_at_def)
  moreover have "sint (th_strides h ! j) * (if 0 < sint (th_dims h ! j) then sint (th_dims h ! j) else 1)
      = stride_at h j * max 1 (dim_at h j)" by (auto simp: stride_at_def dim_at_def max_def)
  ultimately show ?thesis
    using assms(1,2) by (auto simp: fill_stride_at_def Let_def in_int32_def steps_over_def stride_at_def)
qed

lemma fill_strides_loop_done:
  "\<forall>(i, j)\<in>set ijs. steps_over h i j \<and> 0 < stride_at h i \<and> 0 \<le> stride_at h j \<Longrightarrow> fill_strides_loop ijs h = Inr h"
  by (induction ijs) (auto simp: fill_stride_at_done)

lemma header_valid_steps:
  assumes "header_valid h"
  shows "th_major_order h = majorOrder_ROW \<Longrightarrow> Suc i < unat (th_ndims h) \<Longrightarrow> steps_over h i (Suc i)"
    and "th_major_order h = majorOrder_COLUMN \<Longrightarrow> Suc i < unat (th_ndims h) \<Longrightarrow> steps_over h (Suc i) i"
proof -
  let ?n = "unat (th_ndims h)"
  have L: "snd (layout_of h ! Suc k) * max 1 (fst (layout_of h ! Suc k)) \<le> snd (layout_of h ! k)"
    if "Suc k < ?n" for k
    using assms that unfolding header_valid_def nested_nth by (auto simp: layout_of_def Let_def)
  show "th_major_order h = majorOrder_ROW \<Longrightarrow> Suc i < ?n \<Longrightarrow> steps_over h i (Suc i)"
    using L [of i] by (simp add: layout_of_def Let_def steps_over_def)
  show "th_major_order h = majorOrder_COLUMN \<Longrightarrow> Suc i < ?n \<Longrightarrow> steps_over h (Suc i) i"
    using L [of "?n - Suc (Suc i)"]
    by (simp add: layout_of_def Let_def steps_over_def rev_nth tensor_enum_defs Suc_diff_Suc)
qed

lemma validate_done:
  assumes "header_valid h"
  shows "tp_tensor_header_validate h = Inr h"
proof -
  let ?n = "unat (th_ndims h)"
  have v: "?n \<noteq> 0" "?n \<le> TP_MAX_DIMS" "header_shape h" "tp_dtype_size_bytes (th_dtype h) \<noteq> 0" "tp_tensor_validate_progress h"
    "\<forall>k<?n. 0 \<le> dim_at h k \<and> 0 < stride_at h k"
    using assms by (auto simp: header_valid_def)
  have nz: "th_strides h ! k \<noteq> 0" if "k < ?n" for k using v(6) that by (auto simp: stride_at_def)
  have le: "stride_at h k \<ge> 0" if "k < ?n" for k using v(6) that by (auto intro: less_imp_le)
  have fill: "tp_tensor_fill_strides h e = Inr h" for e
  proof (cases "th_major_order h = majorOrder_ROW")
    case True
    have "fill_strides_loop (map (\<lambda>i. (i, Suc i)) (rev [0..<?n - 1])) h = Inr h"
      by (rule fill_strides_loop_done) (use header_valid_steps(1) [OF assms True] v(6) le in auto)
    with True v(1) nz show ?thesis by (simp add: tp_tensor_fill_strides_def Let_def)
  next
    case False
    then have col: "th_major_order h = majorOrder_COLUMN" using assms by (auto simp: header_valid_def)
    have "steps_over h i (i - 1) \<and> 0 < stride_at h i \<and> 0 \<le> stride_at h (i - 1)" if "i \<in> {1..<?n}" for i
      using header_valid_steps(2) [OF assms col, of "i - 1"] v(6) le that by auto
    then have "fill_strides_loop (map (\<lambda>i. (i, i - 1)) [1..<?n]) h = Inr h"
      by (intro fill_strides_loop_done) auto
    with col False v(1) nz show ?thesis by (simp add: tp_tensor_fill_strides_def Let_def)
  qed
  have "\<forall>(d, s)\<in>set (take ?n (zip (th_dims h) (th_strides h))). 0 \<le> sint d \<and> 0 \<le> sint s"
    using v(6) le by (auto simp: in_set_conv_nth dim_at_def stride_at_def)
  with v fill show ?thesis
    by (simp add: tp_tensor_header_validate_def Let_def check_dims_loop_Inr unat_eq_zero [symmetric])
qed

section \<open>Properties of tensor headers\<close>

text \<open>A 2 x 3 tensor of 64-bit floats in either order, strides to be inferred.\<close>

definition sample_tensor :: "u16 \<Rightarrow> tp_tensor_header" where
  "sample_tensor order_v =
     \<lparr>th_dtype = 10, th_major_order = order_v, th_ndims = 2, th_progress_unit = 0, th_progress_stride_bytes = 0,
      th_dims = [2, 3, 0, 0, 0, 0, 0, 0], th_strides = [0, 0, 0, 0, 0, 0, 0, 0]\<rparr>"

text \<open>
  C38: a header that validation accepts, and whose innermost stride is inferred or at least one
  element long, describes a layout without overlap: two distinct elements start at least one
  element size apart, and no element starts before the payload.
\<close>

theorem tensor_elements_apart:
  assumes "tp_tensor_header_validate h = Inr h'" "header_shape h"
    and "innermost_stride h = 0 \<or> int (tp_dtype_size_bytes (th_dtype h)) \<le> innermost_stride h"
    and "element_index h' idx" "element_index h' jdx" "idx \<noteq> jdx"
  shows "int (tp_dtype_size_bytes (th_dtype h)) \<le> \<bar>element_offset h' idx - element_offset h' jdx\<bar> \<and> 0 \<le> element_offset h' idx"
proof -
  let ?e = "int (tp_dtype_size_bytes (th_dtype h))"
  note v = validate_Inr [OF assms(1,2)]
  have n: "nested ?e (layout_of h')" using v assms(3) by (auto split: if_splits)
  have len: "length idx = unat (th_ndims h')" "length jdx = unat (th_ndims h')"
    using assms(4,5) by (simp_all add: element_index_def)
  have ne: "layout_index h' idx \<noteq> layout_index h' jdx" using assms(6) by (simp add: layout_index_def)
  have "?e \<le> \<bar>element_offset h' idx - element_offset h' jdx\<bar>"
    using offsets_apart [OF n _ index_layout [OF assms(4)] index_layout [OF assms(5)] ne]
    by (simp add: offset_layout len)
  moreover have "0 \<le> element_offset h' idx"
  proof (cases "layout_of h'")
    case Nil
    then have "unat (th_ndims h') = 0" by (simp add: layout_of_def Let_def split: if_splits)
    then show ?thesis by (simp add: element_offset_def)
  next
    case (Cons ds L)
    with offset_bounds [of ?e "fst ds" "snd ds" L "layout_index h' idx"] n index_layout [OF assms(4)]
    show ?thesis by (simp add: offset_layout [OF len(1), symmetric])
  qed
  ultimately show ?thesis by simp
qed

theorem tensor_elements_apart_witness:
  "\<exists>h'. tp_tensor_header_validate (sample_tensor majorOrder_ROW) = Inr h' \<and>
     8 \<le> \<bar>element_offset h' [1, 2] - element_offset h' [0, 1]\<bar>"
proof -
  let ?h = "sample_tensor majorOrder_ROW"
  let ?h' = "?h\<lparr>th_strides := [24, 8, 0, 0, 0, 0, 0, 0]\<rparr>"
  have v: "tp_tensor_header_validate ?h = Inr ?h'" by code_simp
  have "header_shape ?h" "innermost_stride ?h = 0 \<or> int (tp_dtype_size_bytes (th_dtype ?h)) \<le> innermost_stride ?h"
    "element_index ?h' [1, 2]" "element_index ?h' [0, 1]" "[1, 2] \<noteq> [0, 1 :: int]"
    "tp_dtype_size_bytes (th_dtype ?h) = 8"
    by code_simp+
  with tensor_elements_apart [OF v] v show ?thesis by fastforce
qed

text \<open>
  Validation is idempotent: a header that was validated, with its inferred strides, validates
  again and is not changed. The consumer repeats the producer's validation on the header it reads.
\<close>

theorem tensor_validate_idempotent:
  assumes "tp_tensor_header_validate h = Inr h'" "header_shape h"
  shows "tp_tensor_header_validate h' = Inr h'"
  using validate_Inr [OF assms] by (intro validate_done) blast

text \<open>
  An innermost stride that is shorter than an element is accepted, although two elements then
  overlap: a vector of two 64-bit floats with stride 1.
\<close>

theorem tensor_short_innermost_stride_accepted:
  "\<exists>h idx jdx. header_shape h \<and> tp_tensor_header_validate h = Inr h \<and> element_index h idx \<and> element_index h jdx \<and>
     idx \<noteq> jdx \<and> \<bar>element_offset h idx - element_offset h jdx\<bar> < int (tp_dtype_size_bytes (th_dtype h))"
proof -
  let ?h = "(sample_tensor majorOrder_ROW)\<lparr>th_ndims := 1, th_strides := [1, 0, 0, 0, 0, 0, 0, 0]\<rparr>"
  have "header_shape ?h" "tp_tensor_header_validate ?h = Inr ?h" "element_index ?h [0]" "element_index ?h [1]"
    "[0] \<noteq> [1 :: int]" "\<bar>element_offset ?h [0] - element_offset ?h [1]\<bar> < int (tp_dtype_size_bytes (th_dtype ?h))"
    by code_simp+
  then show ?thesis by blast
qed

text \<open>Dimensions whose product exceeds the stride type reach the signed overflow.\<close>

lemma tensor_stride_overflow:
  "tp_tensor_header_validate ((sample_tensor majorOrder_ROW)\<lparr>th_dims := [2, 0x40000000, 0, 0, 0, 0, 0, 0]\<rparr>) =
     Inl (UB ''strides[i + 1] * dim'')"
  by code_simp

end
