(* ===== verification/Tp_Tensor_Codec.thy ===== *)
theory Tp_Tensor_Codec
  imports Tp_Tensor Tp_Sbe
begin

text \<open>
  The wire form of tensor headers (tp_encode_tensor_header in src/src/client/tp_producer.c and
  tp_tensor_header_decode in src/src/common/tp_tensor.c) and its round trip.
\<close>

section \<open>Wire form\<close>

text \<open>The setter calls of \<open>tp_encode_tensor_header\<close> in their order.\<close>

definition tensor_fields :: "tp_tensor_header \<Rightarrow> (sbe_field \<times> u64) list" where
  "tensor_fields t =
     [(Fld ''dtype'', ucast (th_dtype t)), (Fld ''majorOrder'', ucast (th_major_order t)),
      (Fld ''ndims'', ucast (th_ndims t)), (Fld ''padAlign'', 0),
      (Fld ''progressUnit'', ucast (th_progress_unit t)),
      (Fld ''progressStrideBytes'', ucast (th_progress_stride_bytes t))] @
     concat (map (\<lambda>i. [(Arr ''dims'' i, ucast (th_dims t ! i)), (Arr ''strides'' i, ucast (th_strides t ! i))])
       [0..<TP_MAX_DIMS])"

definition tp_encode_tensor_header :: "sbe \<Rightarrow> nat \<Rightarrow> tp_tensor_header \<Rightarrow> bytes res" where
  "tp_encode_tensor_header C buffer_len tensor =
     guard (buffer_len < sbe_header_length C + unat (sbe_block_length C))
       (EINVAL ''tp_encode_tensor_header: buffer too small'')
     (Inr (fold (\<lambda>(f, v). sbe_set C f v) (tensor_fields tensor) (sbe_put_header C (replicate buffer_len 0))))"

text \<open>
  The array accessors report an index beyond the array, which \<open>i < TP_MAX_DIMS\<close> excludes:
  the schema's arrays have \<open>TP_MAX_DIMS\<close> elements.
\<close>

definition tp_tensor_header_decode :: "sbe \<Rightarrow> bytes \<Rightarrow> tp_tensor_header res" where
  "tp_tensor_header_decode C b =
     guard (length b < unat (sbe_block_length C) + sbe_header_length C)
       (EINVAL ''tp_tensor_header_decode: headerBytes too short'')
     (guard (ucast (sbe_get C (Hdr ''schemaId'') b) \<noteq> sbe_schema_id C)
       (EINVAL ''tp_tensor_header_decode: schema id mismatch'')
     (guard (ucast (sbe_get C (Hdr ''templateId'') b) \<noteq> sbe_template_id C)
       (EINVAL ''tp_tensor_header_decode: template id mismatch'')
     (guard (ucast (sbe_get C (Hdr ''version'') b) \<noteq> sbe_schema_version C)
       (EINVAL ''tp_tensor_header_decode: schema version mismatch'')
     (guard (ucast (sbe_get C (Hdr ''blockLength'') b) \<noteq> sbe_block_length C)
       (EINVAL ''tp_tensor_header_decode: block length mismatch'')
     (guard (\<not> sbe_enum C ''dtype'' (sbe_get C (Fld ''dtype'') b))
       (EINVAL ''tp_tensor_header_decode: invalid dtype'')
     (guard (\<not> sbe_enum C ''majorOrder'' (sbe_get C (Fld ''majorOrder'') b))
       (EINVAL ''tp_tensor_header_decode: invalid major order'')
     (guard (\<not> sbe_enum C ''progressUnit'' (sbe_get C (Fld ''progressUnit'') b))
       (EINVAL ''tp_tensor_header_decode: invalid progress unit'')
     (Inr \<lparr>th_dtype = ucast (sbe_get C (Fld ''dtype'') b),
           th_major_order = ucast (sbe_get C (Fld ''majorOrder'') b),
           th_ndims = ucast (sbe_get C (Fld ''ndims'') b),
           th_progress_unit = ucast (sbe_get C (Fld ''progressUnit'') b),
           th_progress_stride_bytes = ucast (sbe_get C (Fld ''progressStrideBytes'') b),
           th_dims = map (\<lambda>i. ucast (sbe_get C (Arr ''dims'' i) b)) [0..<TP_MAX_DIMS],
           th_strides = map (\<lambda>i. ucast (sbe_get C (Arr ''strides'' i) b)) [0..<TP_MAX_DIMS]\<rparr>))))))))"

section \<open>Round trip\<close>

text \<open>The contract of the tensor header message's codec.\<close>

locale tensor_codec = message_codec +
  assumes tensor_known: "f \<in> fst ` set (tensor_fields t) \<Longrightarrow> known f"
    and tensor_extent: "f \<in> fst ` set (tensor_fields t) \<Longrightarrow> extent f \<le> sbe_header_length C + unat (sbe_block_length C)"
    and tensor_widths: "width (Fld ''dtype'') = 16" "width (Fld ''majorOrder'') = 16" "width (Fld ''ndims'') = 8"
      "width (Fld ''padAlign'') = 8" "width (Fld ''progressUnit'') = 8" "width (Fld ''progressStrideBytes'') = 32"
      "i < TP_MAX_DIMS \<Longrightarrow> width (Arr ''dims'' i) = 32" "i < TP_MAX_DIMS \<Longrightarrow> width (Arr ''strides'' i) = 32"
    and dtypes: "tp_dtype_size_bytes d \<noteq> 0 \<Longrightarrow> sbe_enum C ''dtype'' (ucast d)"
    and major_orders: "sbe_enum C ''majorOrder'' (ucast majorOrder_ROW)" "sbe_enum C ''majorOrder'' (ucast majorOrder_COLUMN)"
    and progress_units: "sbe_enum C ''progressUnit'' (ucast progressUnit_NONE)"
      "sbe_enum C ''progressUnit'' (ucast progressUnit_ROWS)" "sbe_enum C ''progressUnit'' (ucast progressUnit_COLUMNS)"
begin

lemma tensor_fields_fit: "(f, v) \<in> set (tensor_fields t) \<Longrightarrow> unat v < 2 ^ width f"
  by (auto simp: tensor_fields_def tensor_widths)

lemma distinct_tensor_fields: "distinct (map fst (tensor_fields t))"
  by (simp add: tensor_fields_def TP_MAX_DIMS_def upt_rec)

lemma tensor_written:
  fixes t :: tp_tensor_header and n :: nat
  defines "b \<equiv> fold (\<lambda>(f, v). sbe_set C f v) (tensor_fields t) (sbe_put_header C (replicate n 0))"
  assumes "sbe_header_length C + unat (sbe_block_length C) \<le> n"
  shows "length b = n" "header_ok C b" "(f, v) \<in> set (tensor_fields t) \<Longrightarrow> sbe_get C f b = v"
proof -
  let ?h = "sbe_put_header C (replicate n 0)"
  have no_hdr: "\<forall>nm. Hdr nm \<notin> fst ` set (tensor_fields t)" by (auto simp: tensor_fields_def)
  have k: "kept ?h b {f. \<exists>nm. f = Hdr nm}"
    unfolding b_def using kept_fold [of "tensor_fields t" id "{f. \<exists>nm. f = Hdr nm}" ?h] no_hdr tensor_known
    by (force simp: id_def)
  then show len: "length b = n" by (simp add: kept_def length_put_header)
  have hdr: "sbe_get C (Hdr nm) b = sbe_get C (Hdr nm) ?h" if "known (Hdr nm)" for nm
    using kept_get [OF k, of "Hdr nm"] that by simp
  have "sbe_header_length C \<le> length (replicate n (0 :: u8))" using assms(2) by simp
  from get_put_header [OF this] this len show "header_ok C b"
    by (simp add: header_ok_def hdr known_header)
  assume f: "(f, v) \<in> set (tensor_fields t)"
  have "sbe_get C (id f) (fold (\<lambda>(f, v). sbe_set C (id f) v) (tensor_fields t) ?h) = v"
  proof (rule get_fold [OF distinct_tensor_fields _ _ f])
    have "known g \<and> extent g \<le> length ?h \<and> unat w < 2 ^ width g" if g: "(g, w) \<in> set (tensor_fields t)" for g w
    proof -
      have "g \<in> fst ` set (tensor_fields t)" using g by (metis fst_conv image_eqI)
      from tensor_known [OF this] tensor_extent [OF this] tensor_fields_fit [OF g] assms(2) show ?thesis
        by (simp add: length_put_header)
    qed
    then show "\<forall>(g, w)\<in>set (tensor_fields t). known (id g) \<and> extent (id g) \<le> length ?h \<and> unat w < 2 ^ width (id g)"
      by (metis (no_types, lifting) case_prodI2 id_apply)
  qed simp
  then show "sbe_get C f b = v" by (simp add: b_def)
qed

lemma encode_decode:
  assumes "header_valid t" "sbe_header_length C + unat (sbe_block_length C) \<le> n"
  shows "\<exists>b. tp_encode_tensor_header C n t = Inr b \<and> tp_tensor_header_decode C b = Inr t"
proof -
  let ?b = "fold (\<lambda>(f, v). sbe_set C f v) (tensor_fields t) (sbe_put_header C (replicate n 0))"
  note w = tensor_written [where t = t, OF assms(2)]
  have flds: "sbe_get C (Fld ''dtype'') ?b = ucast (th_dtype t)" "sbe_get C (Fld ''majorOrder'') ?b = ucast (th_major_order t)"
    "sbe_get C (Fld ''ndims'') ?b = ucast (th_ndims t)" "sbe_get C (Fld ''progressUnit'') ?b = ucast (th_progress_unit t)"
    "sbe_get C (Fld ''progressStrideBytes'') ?b = ucast (th_progress_stride_bytes t)"
    by (rule w(3), simp add: tensor_fields_def)+
  have arrs: "sbe_get C (Arr ''dims'' i) ?b = ucast (th_dims t ! i)" "sbe_get C (Arr ''strides'' i) ?b = ucast (th_strides t ! i)"
    if "i < TP_MAX_DIMS" for i
    by (rule w(3), use that in \<open>force simp: tensor_fields_def\<close>)+
  have lens: "length (th_dims t) = TP_MAX_DIMS" "length (th_strides t) = TP_MAX_DIMS"
    using assms(1) by (auto simp: header_valid_def header_shape_def)
  have lists: "map (\<lambda>i. ucast (sbe_get C (Arr ''dims'' i) ?b)) [0..<TP_MAX_DIMS] = th_dims t"
    "map (\<lambda>i. ucast (sbe_get C (Arr ''strides'' i) ?b)) [0..<TP_MAX_DIMS] = th_strides t"
    by (rule nth_equalityI; simp add: arrs lens)+
  have enums: "sbe_enum C ''dtype'' (ucast (th_dtype t))" "sbe_enum C ''majorOrder'' (ucast (th_major_order t))"
    "sbe_enum C ''progressUnit'' (ucast (th_progress_unit t))"
    using assms(1) dtypes major_orders progress_units
    by (auto simp: header_valid_def tp_tensor_validate_progress_def split: if_splits)
  have "tp_tensor_header_decode C ?b = Inr t"
    using w(1,2) assms(2) flds lists enums
    by (simp add: tp_tensor_header_decode_def header_ok_def)
  then show ?thesis using assms(2) by (simp add: tp_encode_tensor_header_def)
qed

text \<open>The decoder looks at the header and the block only, whatever follows them in the buffer.\<close>

lemma decode_take: "tp_tensor_header_decode C (take (sbe_header_length C + unat (sbe_block_length C)) b) = tp_tensor_header_decode C b"
proof -
  let ?n = "sbe_header_length C + unat (sbe_block_length C)"
  have flds: "sbe_get C f (take ?n b) = sbe_get C f b" if "f \<in> fst ` set (tensor_fields t)" for f and t :: tp_tensor_header
    using get_take [OF tensor_known tensor_extent] that by blast
  have hdr: "sbe_get C (Hdr nm) (take ?n b) = sbe_get C (Hdr nm) b" if "known (Hdr nm)" for nm
    using get_take [OF that, of ?n] extent_header [OF that] by simp
  have arrs: "sbe_get C (Arr ''dims'' i) (take ?n b) = sbe_get C (Arr ''dims'' i) b"
    "sbe_get C (Arr ''strides'' i) (take ?n b) = sbe_get C (Arr ''strides'' i) b" if "i < TP_MAX_DIMS" for i
    by (rule flds [of _ undefined], use that in \<open>force simp: tensor_fields_def\<close>)+
  have scalars: "sbe_get C (Fld nm) (take ?n b) = sbe_get C (Fld nm) b"
    if "nm \<in> {''dtype'', ''majorOrder'', ''ndims'', ''progressUnit'', ''progressStrideBytes''}" for nm
    by (rule flds [of _ undefined]) (use that in \<open>auto simp: tensor_fields_def\<close>)
  have lists: "map (\<lambda>i. ucast (sbe_get C (Arr ''dims'' i) (take ?n b)) :: u32) [0..<TP_MAX_DIMS] =
      map (\<lambda>i. ucast (sbe_get C (Arr ''dims'' i) b)) [0..<TP_MAX_DIMS]"
    "map (\<lambda>i. ucast (sbe_get C (Arr ''strides'' i) (take ?n b)) :: u32) [0..<TP_MAX_DIMS] =
      map (\<lambda>i. ucast (sbe_get C (Arr ''strides'' i) b)) [0..<TP_MAX_DIMS]"
    by (simp_all add: arrs)
  have len: "length (take ?n b) < unat (sbe_block_length C) + sbe_header_length C \<longleftrightarrow>
      length b < unat (sbe_block_length C) + sbe_header_length C" by auto
  show ?thesis
    unfolding tp_tensor_header_decode_def lists len by (simp only: hdr known_header scalars insert_iff simp_thms)
qed

end

section \<open>The layout of the wire schema\<close>

definition tensor_header_layout :: sbe_layout where
  "tensor_header_layout =
     \<lparr>ly_template = 52, ly_schema = 900, ly_version = 1,
      ly_block = [(''dtype'', 2, 1), (''majorOrder'', 2, 1), (''ndims'', 1, 1), (''padAlign'', 1, 1),
        (''progressUnit'', 1, 1), (''progressStrideBytes'', 4, 1), (''dims'', 4, 8), (''strides'', 4, 8), (''pad'', 1, 109)],
      ly_group = [],
      ly_enums = [(''dtype'', [0, 1, 2, 3, 4, 5, 6, 7, 8, 9, 10, 11, 13, 14, 0x8000]),
        (''majorOrder'', [0, 1, 2, 0x8000]), (''progressUnit'', [0, 1, 2, 255])],
      ly_nulls = []\<rparr>"

lemma tensor_fields_names:
  "f \<in> fst ` set (tensor_fields t) \<Longrightarrow>
   f \<in> {Fld ''dtype'', Fld ''majorOrder'', Fld ''ndims'', Fld ''padAlign'', Fld ''progressUnit'', Fld ''progressStrideBytes''} \<or>
   (\<exists>i<8. f = Arr ''dims'' i \<or> f = Arr ''strides'' i)"
  by (auto simp: tensor_fields_def TP_MAX_DIMS_def)

lemma tensor_layout_locate:
  "locate tensor_header_layout (Fld ''dtype'') = Some (8, 2)" "locate tensor_header_layout (Fld ''majorOrder'') = Some (10, 2)"
  "locate tensor_header_layout (Fld ''ndims'') = Some (12, 1)" "locate tensor_header_layout (Fld ''padAlign'') = Some (13, 1)"
  "locate tensor_header_layout (Fld ''progressUnit'') = Some (14, 1)"
  "locate tensor_header_layout (Fld ''progressStrideBytes'') = Some (15, 4)"
  "i < 8 \<Longrightarrow> locate tensor_header_layout (Arr ''dims'' i) = Some (19 + i * 4, 4)"
  "i < 8 \<Longrightarrow> locate tensor_header_layout (Arr ''strides'' i) = Some (51 + i * 4, 4)"
  by (simp_all add: tensor_header_layout_def scalar_def)

lemma tensor_layout_sizes:
  "sbe_header_length (le_codec tensor_header_layout) = 8" "unat (sbe_block_length (le_codec tensor_header_layout)) = 184"
  by (simp_all add: le_codec_def tensor_header_layout_def)

lemma tensor_layout_widths:
  "le_width tensor_header_layout (Fld ''dtype'') = 16" "le_width tensor_header_layout (Fld ''majorOrder'') = 16"
  "le_width tensor_header_layout (Fld ''ndims'') = 8" "le_width tensor_header_layout (Fld ''padAlign'') = 8"
  "le_width tensor_header_layout (Fld ''progressUnit'') = 8" "le_width tensor_header_layout (Fld ''progressStrideBytes'') = 32"
  "i < 8 \<Longrightarrow> le_width tensor_header_layout (Arr ''dims'' i) = 32"
  "i < 8 \<Longrightarrow> le_width tensor_header_layout (Arr ''strides'' i) = 32"
  by (simp_all add: le_width_def tensor_layout_locate del: locate.simps)

lemma tensor_layout_enums:
  "sbe_enum (le_codec tensor_header_layout) ''majorOrder'' (ucast majorOrder_ROW)"
  "sbe_enum (le_codec tensor_header_layout) ''majorOrder'' (ucast majorOrder_COLUMN)"
  "sbe_enum (le_codec tensor_header_layout) ''progressUnit'' (ucast progressUnit_NONE)"
  "sbe_enum (le_codec tensor_header_layout) ''progressUnit'' (ucast progressUnit_ROWS)"
  "sbe_enum (le_codec tensor_header_layout) ''progressUnit'' (ucast progressUnit_COLUMNS)"
  by (simp_all add: le_codec_def tensor_header_layout_def tensor_enum_defs)

interpretation tensor: tensor_codec "le_codec tensor_header_layout" "le_width tensor_header_layout"
  "le_known tensor_header_layout" "le_extent tensor_header_layout"
proof (intro tensor_codec.intro message_codec_le tensor_codec_axioms.intro)
  show "layout_ok tensor_header_layout" by (simp add: layout_ok_def tensor_header_layout_def)
next
  fix f t assume "f \<in> fst ` set (tensor_fields t)"
  from tensor_fields_names [OF this] show "le_known tensor_header_layout f"
    by (auto simp: le_known_def tensor_layout_locate simp del: locate.simps)
next
  fix f t assume "f \<in> fst ` set (tensor_fields t)"
  from tensor_fields_names [OF this]
  show "le_extent tensor_header_layout f \<le> sbe_header_length (le_codec tensor_header_layout) + unat (sbe_block_length (le_codec tensor_header_layout))"
    unfolding tensor_layout_sizes by (auto simp: le_extent_def tensor_layout_locate simp del: locate.simps)
next
  fix d assume "tp_dtype_size_bytes d \<noteq> 0"
  then have "d \<in> {1, 2, 11, 13, 14, 3, 4, 5, 6, 9, 7, 8, 10}"
    by (auto simp: tp_dtype_size_bytes_def split: if_splits)
  then show "sbe_enum (le_codec tensor_header_layout) ''dtype'' (ucast d)"
    by (auto simp: le_codec_def tensor_header_layout_def)
qed (simp_all add: tensor_layout_widths tensor_layout_enums TP_MAX_DIMS_def)

section \<open>Property of the wire form\<close>

text \<open>
  A tensor header that was prepared by the producer is encoded, decoded to itself by the consumer,
  and accepted again by the consumer's validation with the same strides.
\<close>

theorem tensor_header_roundtrip:
  assumes "tensor_codec C width known extent" "header_shape t" "tp_prepare_tensor_header t = Inr t'"
    and "sbe_header_length C + unat (sbe_block_length C) \<le> n"
  shows "\<exists>b. tp_encode_tensor_header C n t' = Inr b \<and> tp_tensor_header_decode C b = Inr t' \<and>
    tp_tensor_header_validate t' = Inr t'"
proof -
  have "header_valid t'"
    using assms(2,3) validate_Inr [of _ t'] by (auto simp: tp_prepare_tensor_header_def header_shape_def clear_from_def)
  with tensor_codec.encode_decode [OF assms(1) this assms(4)] show ?thesis by (auto simp: validate_done)
qed

end
