(* ===== verification/Tp_Seqlock.thy ===== *)
theory Tp_Seqlock
  imports Tp_Prelude
begin

text \<open>
  The commit protocol of a header slot (include/tensor_pool/common/tp_seqlock.h): the encoding of
  a sequence number in the commit word, and the interleaving of a producer that stores a frame
  (tp_producer_publish_frame, tp_producer_try_claim, tp_producer_queue_claim) with a consumer that
  loads it (tp_consumer_read_frame). Loads and stores interleave one location at a time; the
  memory is sequentially consistent, which the acquire and release operations and the fence of the
  sources are there to justify for the commit word and the data it guards.
\<close>

section \<open>The commit word\<close>

definition tp_seq_in_progress :: "u64 \<Rightarrow> u64" where
  "tp_seq_in_progress seq = push_bit 1 seq OR 0"

definition tp_seq_committed :: "u64 \<Rightarrow> u64" where
  "tp_seq_committed seq = push_bit 1 seq OR 1"

definition tp_seq_is_committed :: "u64 \<Rightarrow> bool" where
  "tp_seq_is_committed seq_commit \<longleftrightarrow> seq_commit AND 1 \<noteq> 0"

definition tp_seq_value :: "u64 \<Rightarrow> u64" where
  "tp_seq_value seq_commit = drop_bit 1 seq_commit"

text \<open>What the protocol needs of the encoding, for the sequence numbers in \<open>range\<close>.\<close>

locale commit_word =
  fixes in_progress :: "'s \<Rightarrow> 'w"
    and committed :: "'s \<Rightarrow> 'w"
    and is_committed :: "'w \<Rightarrow> bool"
    and val :: "'w \<Rightarrow> 's"
    and in_range :: "'s \<Rightarrow> bool"
  assumes committed_is: "is_committed (committed s)"
    and in_progress_is: "\<not> is_committed (in_progress s)"
    and val_committed: "in_range s \<Longrightarrow> val (committed s) = s"
begin

lemma committed_inj: "in_range s \<Longrightarrow> in_range t \<Longrightarrow> committed s = committed t \<longleftrightarrow> s = t"
  using val_committed by metis

lemma in_progress_neq: "in_progress s \<noteq> committed t"
  using committed_is in_progress_is by metis

end

interpretation cw: commit_word tp_seq_in_progress tp_seq_committed tp_seq_is_committed tp_seq_value
  "\<lambda>s. unat s < 2 ^ 63"
proof
  fix s :: u64
  show "tp_seq_is_committed (tp_seq_committed s)"
    by (simp add: tp_seq_is_committed_def tp_seq_committed_def and_one_eq odd_iff_mod_2_eq_one [symmetric] bit_0 [symmetric] bit_simps)
  show "\<not> tp_seq_is_committed (tp_seq_in_progress s)"
    by (simp add: tp_seq_is_committed_def tp_seq_in_progress_def and_one_eq bit_0 [symmetric] even_iff_mod_2_eq_zero [symmetric])
  assume "unat s < 2 ^ 63"
  then have s: "take_bit 63 s = s" by (rule take_bit_of_lt)
  have "tp_seq_value (tp_seq_committed s) = take_bit 63 s"
    by (rule bit_word_eqI) (auto simp: tp_seq_value_def tp_seq_committed_def bit_simps mult.commute [of s 2])
  with s show "tp_seq_value (tp_seq_committed s) = s" by simp
qed

section \<open>Interleaving\<close>

text \<open>
  One header slot and its payload. A location of the slot, of type \<open>'l\<close>, is any datum that
  the commit word guards: a field of the header, a byte of the tensor header or of the payload.
  \<open>sl_frames\<close> is a history variable: what each committed sequence number stood for.
\<close>

datatype writer = Idle | Writing u64

datatype ('l, 'v) reader =
    Waiting
  | Reading u64 u64 "'l \<Rightarrow> 'v option" \<comment> \<open>the sequence asked for, the first load, what was loaded\<close>
  | Accepted u64 "'l \<Rightarrow> 'v option"
  | Dropped u64

record ('l, 'v) slot_state =
  sl_seq_commit :: u64
  sl_data :: "'l \<Rightarrow> 'v"
  sl_writer :: writer
  sl_frames :: "u64 \<Rightarrow> ('l \<Rightarrow> 'v) option"
  sl_reader :: "('l, 'v) reader"

text \<open>
  The producer: \<open>w_begin\<close> is the store of the in-progress word by try_claim, queue_claim and
  publish_frame (the last two may repeat it for a claimed sequence), for a sequence that has not
  been committed; \<open>w_store\<close> is any store to a guarded location in between; \<open>w_commit\<close>
  is the store of the committed word. The consumer: \<open>r_begin\<close> is the first load of the commit
  word, which must be committed; \<open>r_load\<close> any load of a guarded location; \<open>r_accept\<close>
  and \<open>r_drop\<close> the second load and the comparisons that follow it.
\<close>

inductive slot_step :: "('l, 'v) slot_state \<Rightarrow> ('l, 'v) slot_state \<Rightarrow> bool" where
  w_begin: "unat s < 2 ^ 63 \<Longrightarrow> sl_frames st s = None \<Longrightarrow>
    slot_step st (st\<lparr>sl_seq_commit := tp_seq_in_progress s, sl_writer := Writing s\<rparr>)"
| w_store: "sl_writer st = Writing s \<Longrightarrow> slot_step st (st\<lparr>sl_data := (sl_data st)(l := v)\<rparr>)"
| w_commit: "sl_writer st = Writing s \<Longrightarrow>
    slot_step st (st\<lparr>sl_seq_commit := tp_seq_committed s, sl_writer := Idle,
                     sl_frames := (sl_frames st)(s \<mapsto> sl_data st)\<rparr>)"
| r_begin: "tp_seq_is_committed (sl_seq_commit st) \<Longrightarrow>
    slot_step st (st\<lparr>sl_reader := Reading s (sl_seq_commit st) (\<lambda>_. None)\<rparr>)"
| r_begin_drop: "\<not> tp_seq_is_committed (sl_seq_commit st) \<Longrightarrow> slot_step st (st\<lparr>sl_reader := Dropped s\<rparr>)"
| r_load: "sl_reader st = Reading s first seen \<Longrightarrow>
    slot_step st (st\<lparr>sl_reader := Reading s first (seen(l \<mapsto> sl_data st l))\<rparr>)"
| r_accept: "sl_reader st = Reading s first seen \<Longrightarrow> sl_seq_commit st = first \<Longrightarrow>
    tp_seq_is_committed (sl_seq_commit st) \<Longrightarrow> tp_seq_value (sl_seq_commit st) = s \<Longrightarrow>
    slot_step st (st\<lparr>sl_reader := Accepted s seen\<rparr>)"
| r_drop: "sl_reader st = Reading s first seen \<Longrightarrow>
    sl_seq_commit st \<noteq> first \<or> \<not> tp_seq_is_committed (sl_seq_commit st) \<or> tp_seq_value (sl_seq_commit st) \<noteq> s \<Longrightarrow>
    slot_step st (st\<lparr>sl_reader := Dropped s\<rparr>)"

text \<open>A zero-filled slot that nobody has written to.\<close>

definition slot_init :: "('l \<Rightarrow> 'v) \<Rightarrow> ('l, 'v) slot_state" where
  "slot_init d = \<lparr>sl_seq_commit = 0, sl_data = d, sl_writer = Idle, sl_frames = (\<lambda>_. None), sl_reader = Waiting\<rparr>"

inductive slot_reach :: "('l, 'v) slot_state \<Rightarrow> bool" where
  reach_init: "slot_reach (slot_init d)"
| reach_step: "slot_reach st \<Longrightarrow> slot_step st st' \<Longrightarrow> slot_reach st'"

inductive_cases slot_stepE: "slot_step st st'"

section \<open>The invariant\<close>

definition committed_frame :: "('l, 'v) slot_state \<Rightarrow> u64 \<Rightarrow> u64 \<Rightarrow> ('l \<Rightarrow> 'v) \<Rightarrow> bool" where
  "committed_frame st w s c \<longleftrightarrow> unat s < 2 ^ 63 \<and> w = tp_seq_committed s \<and> sl_frames st s = Some c"

text \<open>A committed word stands for the data in the slot; a writer has hidden it first.\<close>

definition writer_inv :: "('l, 'v) slot_state \<Rightarrow> bool" where
  "writer_inv st \<longleftrightarrow>
     (tp_seq_is_committed (sl_seq_commit st) \<longrightarrow> (\<exists>s. committed_frame st (sl_seq_commit st) s (sl_data st))) \<and>
     (\<forall>s. sl_writer st = Writing s \<longrightarrow> unat s < 2 ^ 63 \<and> sl_seq_commit st = tp_seq_in_progress s \<and> sl_frames st s = None) \<and>
     (\<forall>s c. sl_frames st s = Some c \<longrightarrow> unat s < 2 ^ 63)"

text \<open>
  As long as the commit word is the one the reader loaded first, everything it has loaded since
  belongs to that frame. Once the word has changed it never returns.
\<close>

definition reader_inv :: "('l, 'v) slot_state \<Rightarrow> bool" where
  "reader_inv st \<longleftrightarrow>
     (case sl_reader st of
        Reading s first seen \<Rightarrow> (\<exists>t c. committed_frame st first t c \<and>
          (sl_seq_commit st = first \<longrightarrow> (\<forall>l v. seen l = Some v \<longrightarrow> v = c l)))
      | Accepted s seen \<Rightarrow> (\<exists>c. sl_frames st s = Some c \<and> (\<forall>l v. seen l = Some v \<longrightarrow> v = c l))
      | _ \<Rightarrow> True)"

lemmas slot_inv_defs = writer_inv_def reader_inv_def committed_frame_def

lemma slot_step_frames: "slot_step st st' \<Longrightarrow> writer_inv st \<Longrightarrow> sl_frames st s = Some c \<Longrightarrow> sl_frames st' s = Some c"
  by (erule slot_stepE) (auto simp: writer_inv_def)

lemma writer_inv_step: "slot_step st st' \<Longrightarrow> writer_inv st \<Longrightarrow> writer_inv st'"
  by (erule slot_stepE)
    (auto simp: writer_inv_def committed_frame_def cw.committed_is cw.in_progress_is split: if_splits)

lemma reader_inv_step:
  assumes "slot_step st st'" "writer_inv st" "reader_inv st"
  shows "reader_inv st'"
  using assms
proof cases
  case (w_begin s)
  with assms(3) show ?thesis
    by (auto simp: reader_inv_def committed_frame_def cw.in_progress_neq split: reader.splits)
next
  case (w_store s l v)
  then have "sl_seq_commit st = tp_seq_in_progress s" using assms(2) by (simp add: writer_inv_def)
  with w_store assms(3) show ?thesis
    by (auto simp: reader_inv_def committed_frame_def cw.in_progress_neq split: reader.splits)
next
  case (w_commit s)
  then have s: "unat s < 2 ^ 63" "sl_frames st s = None" using assms(2) by (auto simp: writer_inv_def)
  with w_commit assms(3) show ?thesis
    by (fastforce simp: reader_inv_def committed_frame_def cw.committed_inj split: reader.splits)
next
  case (r_begin s)
  with assms(2) show ?thesis by (auto simp: reader_inv_def writer_inv_def committed_frame_def)
next
  case (r_load s first seen l)
  then obtain t c where t: "committed_frame st first t c"
      "sl_seq_commit st = first \<longrightarrow> (\<forall>l v. seen l = Some v \<longrightarrow> v = c l)"
    using assms(3) by (auto simp: reader_inv_def)
  have "sl_data st = c" if "sl_seq_commit st = first"
    using assms(2) t(1) that by (auto simp: writer_inv_def committed_frame_def cw.committed_inj cw.committed_is)
  with t r_load show ?thesis by (auto simp: reader_inv_def committed_frame_def intro!: exI [of _ t])
next
  case (r_accept s first seen)
  with assms(3) show ?thesis
    by (auto simp: reader_inv_def committed_frame_def cw.val_committed)
qed (auto simp: reader_inv_def)

lemma slot_reach_inv: "slot_reach st \<Longrightarrow> writer_inv st \<and> reader_inv st"
proof (induction rule: slot_reach.induct)
  case (reach_init d)
  then show ?case by (simp add: slot_init_def writer_inv_def reader_inv_def tp_seq_is_committed_def)
next
  case (reach_step st st')
  then show ?case using writer_inv_step reader_inv_step by blast
qed

section \<open>Properties of the protocol\<close>



end
