(* ===== verification/Tp_Slot_Table.thy ===== *)
theory Tp_Slot_Table
  imports Tp_Prelude
begin

text \<open>
  Fixed arrays of entries that are in use or free, looked up by a key: the shape of the consumer
  registry, of the driver's stream and lease tables and of the supervisor's tables. The locale
  collects what their clients share: as long as no two entries in use have the same key, the array
  is a finite map, and giving a slot to a key is an update of that map.
\<close>

locale slot_table =
  fixes used :: "'e \<Rightarrow> bool"
    and key :: "'e \<Rightarrow> 'k"
begin

definition holds :: "'k \<Rightarrow> 'e \<Rightarrow> bool" where
  "holds k e \<longleftrightarrow> used e \<and> key e = k"

definition unique :: "'e list \<Rightarrow> bool" where
  "unique es \<longleftrightarrow> (\<forall>i<length es. \<forall>j<length es. used (es ! i) \<and> holds (key (es ! i)) (es ! j) \<longrightarrow> i = j)"

definition lookup :: "'e list \<Rightarrow> 'k \<Rightarrow> 'e option" where
  "lookup es k = map_option (\<lambda>i. es ! i) (find_index (holds k) es)"

text \<open>Slot \<open>i\<close> may be given to \<open>k\<close>: it is free or already belongs to it, and no other does.\<close>

definition slot_for :: "'k \<Rightarrow> 'e list \<Rightarrow> nat \<Rightarrow> bool" where
  "slot_for k es i \<longleftrightarrow> i < length es \<and> (used (es ! i) \<longrightarrow> key (es ! i) = k) \<and>
     (\<forall>j<length es. holds k (es ! j) \<longrightarrow> j = i)"

lemma uniqueD: "unique es \<Longrightarrow> i < length es \<Longrightarrow> j < length es \<Longrightarrow> holds k (es ! i) \<Longrightarrow> holds k (es ! j) \<Longrightarrow> i = j"
  by (auto simp: unique_def holds_def)

lemma lookup_Some: "unique es \<Longrightarrow> lookup es k = Some x \<longleftrightarrow> x \<in> set es \<and> holds k x"
proof
  assume "lookup es k = Some x"
  then show "x \<in> set es \<and> holds k x"
    by (auto simp: lookup_def dest!: find_index_Some)
next
  assume u: "unique es" and x: "x \<in> set es \<and> holds k x"
  then obtain i where i: "i < length es" "es ! i = x" by (auto simp: in_set_conv_nth)
  have "\<not> holds k (es ! j)" if "j < i" for j
    using uniqueD [OF u, of j i k] i x that by auto
  with i x have "find_index (holds k) es = Some i" by (intro find_index_SomeI) auto
  with i show "lookup es k = Some x" by (simp add: lookup_def)
qed

lemma lookup_None: "lookup es k = None \<longleftrightarrow> (\<forall>x\<in>set es. \<not> holds k x)"
  by (simp add: lookup_def)

lemma slot_for_found: "unique es \<Longrightarrow> find_index (holds k) es = Some i \<Longrightarrow> slot_for k es i"
  unfolding slot_for_def using find_index_Some [of "holds k" es i] uniqueD [of es _ i k]
  by (simp add: holds_def)

lemma slot_for_free:
  "find_index (holds k) es = None \<Longrightarrow> find_index (\<lambda>e. \<not> used e) es = Some i \<Longrightarrow> slot_for k es i"
  by (auto simp: slot_for_def dest!: find_index_Some)

lemma unique_update:
  assumes "unique es" "slot_for k es i" "used x \<longrightarrow> key x = k"
  shows "unique (es[i := x])"
  unfolding unique_def
proof (intro allI impI)
  fix a b assume ab: "a < length (es[i := x])" "b < length (es[i := x])"
    and *: "used (es[i := x] ! a) \<and> holds (key (es[i := x] ! a)) (es[i := x] ! b)"
  have other: "\<not> holds k (es ! j)" if "j < length es" "j \<noteq> i" for j
    using assms(2) that by (auto simp: slot_for_def)
  consider "a = i" "b = i" | "a = i" "b \<noteq> i" | "a \<noteq> i" "b = i" | "a \<noteq> i" "b \<noteq> i" by blast
  then show "a = b"
  proof cases
    case 2
    with ab * assms(3) other [of b] show ?thesis by (auto simp: holds_def)
  next
    case 3
    with ab * assms(3) other [of a] show ?thesis by (auto simp: holds_def)
  next
    case 4
    with ab * assms(1) show ?thesis by (auto simp: unique_def)
  qed simp
qed

lemma lookup_update:
  assumes "unique es" "slot_for k es i" "used x \<longrightarrow> key x = k"
  shows "lookup (es[i := x]) k' = (if k' = k then (if used x then Some x else None) else lookup es k')"
proof -
  note u = unique_update [OF assms]
  have i: "i < length es" "used (es ! i) \<longrightarrow> key (es ! i) = k" "\<And>j. j < length es \<Longrightarrow> holds k (es ! j) \<Longrightarrow> j = i"
    using assms(2) by (auto simp: slot_for_def)
  have mem: "y \<in> set (es[i := x]) \<longleftrightarrow> y = x \<or> (\<exists>j<length es. j \<noteq> i \<and> es ! j = y)" for y
    using i(1) by (auto simp: in_set_conv_nth nth_list_update)
  have "lookup (es[i := x]) k' = Some y \<longleftrightarrow>
      (if k' = k then (if used x then Some x else None) else lookup es k') = Some y" for y
  proof (cases "k' = k")
    case True
    with i(3) assms(3) show ?thesis unfolding lookup_Some [OF u] mem by (auto simp: holds_def)
  next
    case False
    with i(1,2) assms(3) show ?thesis
      unfolding lookup_Some [OF u] mem using lookup_Some [OF assms(1), of k' y] by (auto simp: holds_def in_set_conv_nth)
  qed
  then show ?thesis by (rule option_eqI)
qed

text \<open>Entries may also be freed one by one without changing the others.\<close>

lemma unique_map_free:
  assumes "unique es" "\<And>x. used (f x) \<Longrightarrow> used x \<and> key (f x) = key x"
  shows "unique (map f es)"
  unfolding unique_def
proof (intro allI impI)
  fix i j assume "i < length (map f es)" "j < length (map f es)"
    and "used (map f es ! i) \<and> holds (key (map f es ! i)) (map f es ! j)"
  with assms show "i = j" unfolding unique_def holds_def
    by (metis length_map nth_map)
qed

lemma lookup_map_free:
  assumes "unique es" "\<And>x. used (f x) \<Longrightarrow> f x = x"
  shows "lookup (map f es) k = (case lookup es k of Some x \<Rightarrow> if used (f x) then Some x else None | None \<Rightarrow> None)"
proof -
  have u: "unique (map f es)" by (rule unique_map_free [OF assms(1)]) (metis assms(2))
  have "lookup (map f es) k = Some y \<longleftrightarrow> lookup es k = Some y \<and> used (f y)" for y
  proof -
    have "y \<in> f ` set es \<and> used y \<longleftrightarrow> y \<in> set es \<and> used y \<and> used (f y)"
    proof (intro iffI; elim conjE)
      assume "y \<in> f ` set es" and used: "used y"
      then obtain z where z: "z \<in> set es" "y = f z" by blast
      have "f z = z" using assms(2) [of z] used unfolding z(2) .
      with z used show "y \<in> set es \<and> used y \<and> used (f y)" by metis
    next
      assume y: "y \<in> set es" "used y" "used (f y)"
      from assms(2) [OF y(3)] imageI [OF y(1), of f] y(2) show "y \<in> f ` set es \<and> used y" by metis
    qed
    then show ?thesis unfolding lookup_Some [OF u] lookup_Some [OF assms(1)] set_map holds_def by blast
  qed
  then have "lookup (map f es) k = Some y \<longleftrightarrow>
      (case lookup es k of Some x \<Rightarrow> if used (f x) then Some x else None | None \<Rightarrow> None) = Some y" for y
    by (simp only:) (auto split: option.splits)
  then show ?thesis by (rule option_eqI)
qed

lemma unique_all_free: "\<forall>x\<in>set es. \<not> used x \<Longrightarrow> unique es"
  by (auto simp: unique_def)

end

end
