(* ===== verification/Tp_Consumer_Registry.thy ===== *)
theory Tp_Consumer_Registry
  imports Tp_Slot_Table
begin

text \<open>
  The producer's view of its consumers: the registry of ConsumerHello settings
  (src/src/client/tp_consumer_registry.c) and the manager that answers hellos, opens per-consumer
  publications and derives the progress policy (src/src/client/tp_consumer_manager.c).
  Opening a publication and sending a message are calls into Aeron and are parameters.
\<close>

section \<open>Data\<close>

definition TP_PROGRESS_INTERVAL_DEFAULT_US :: u32 where "TP_PROGRESS_INTERVAL_DEFAULT_US = 250"
definition TP_PROGRESS_BYTES_DELTA_DEFAULT :: u32 where "TP_PROGRESS_BYTES_DELTA_DEFAULT = 65536"

text \<open>
  A string view is a list of characters, empty when its pointer is NULL or its length 0. A
  publication is the channel and stream it was opened on; \<open>None\<close> is NULL.
\<close>

type_synonym publication = "string \<times> u32"

record tp_consumer_hello =
  ch_stream_id :: u32
  ch_consumer_id :: u32
  ch_supports_shm :: u8
  ch_supports_progress :: u8
  ch_mode :: u8
  ch_max_rate_hz :: u32
  ch_progress_interval_us :: u32
  ch_progress_bytes_delta :: u32
  ch_progress_major_delta_units :: u32
  ch_descriptor_stream_id :: u32
  ch_control_stream_id :: u32
  ch_descriptor_channel :: string
  ch_control_channel :: string

record tp_consumer_request =
  cq_descriptor_requested :: bool
  cq_control_requested :: bool

record tp_progress_policy =
  po_interval_us :: u32
  po_bytes_delta :: u32
  po_major_delta_units :: u32

record tp_consumer_entry =
  ce_in_use :: bool
  ce_consumer_id :: u32
  ce_last_seen_ns :: u64
  ce_mode :: u8
  ce_max_rate_hz :: u32
  ce_supports_progress :: u8
  ce_progress_interval_us :: u32
  ce_progress_bytes_delta :: u32
  ce_progress_major_delta_units :: u32
  ce_descriptor_stream_id :: u32
  ce_descriptor_channel :: string
  ce_control_stream_id :: u32
  ce_control_channel :: string
  ce_last_descriptor_ns :: u64
  ce_descriptor_publication :: "publication option"
  ce_control_publication :: "publication option"

definition zero_consumer_entry :: tp_consumer_entry where
  "zero_consumer_entry =
     \<lparr>ce_in_use = False, ce_consumer_id = 0, ce_last_seen_ns = 0, ce_mode = 0, ce_max_rate_hz = 0,
      ce_supports_progress = 0, ce_progress_interval_us = 0, ce_progress_bytes_delta = 0,
      ce_progress_major_delta_units = 0, ce_descriptor_stream_id = 0, ce_descriptor_channel = [],
      ce_control_stream_id = 0, ce_control_channel = [], ce_last_descriptor_ns = 0,
      ce_descriptor_publication = None, ce_control_publication = None\<rparr>"

record tp_consumer_registry =
  cr_entries :: "tp_consumer_entry list"

section \<open>Registry operations\<close>

text \<open>\<open>None\<close>: the view does not fit and the destination is left as it was.\<close>

definition tp_copy_string_view :: "nat \<Rightarrow> string \<Rightarrow> string option" where
  "tp_copy_string_view dst_len view =
     (if dst_len = 0 then None
      else if length view = 0 then Some []
      else if length view \<ge> dst_len then None
      else Some view)"

definition tp_consumer_request_validate :: "tp_consumer_hello \<Rightarrow> tp_consumer_request res" where
  "tp_consumer_request_validate hello =
     (let descriptor_channel = (length (ch_descriptor_channel hello) > 0);
          descriptor_stream = (ch_descriptor_stream_id hello \<noteq> 0);
          control_channel = (length (ch_control_channel hello) > 0);
          control_stream = (ch_control_stream_id hello \<noteq> 0)
      in guard (descriptor_channel \<noteq> descriptor_stream)
           (EINVAL ''tp_consumer_request_validate: invalid descriptor request'')
         (guard (control_channel \<noteq> control_stream)
           (EINVAL ''tp_consumer_request_validate: invalid control request'')
         (Inr \<lparr>cq_descriptor_requested = (descriptor_channel \<and> descriptor_stream),
               cq_control_requested = (control_channel \<and> control_stream)\<rparr>)))"

definition tp_consumer_registry_init ::
  "(nat \<Rightarrow> tp_consumer_entry list option) \<Rightarrow> nat \<Rightarrow> tp_consumer_registry res" where
  "tp_consumer_registry_init aeron_alloc capacity =
     guard (capacity = 0) (EINVAL ''tp_consumer_registry_init: invalid input'')
       (case aeron_alloc capacity of None \<Rightarrow> Inl FAIL | Some es \<Rightarrow> Inr \<lparr>cr_entries = es\<rparr>)"

definition tp_consumer_registry_close :: "tp_consumer_registry \<Rightarrow> tp_consumer_registry" where
  "tp_consumer_registry_close registry = \<lparr>cr_entries = []\<rparr>"

definition tp_consumer_registry_find :: "tp_consumer_registry \<Rightarrow> u32 \<Rightarrow> nat option" where
  "tp_consumer_registry_find registry consumer_id =
     find_index (\<lambda>entry. ce_in_use entry \<and> ce_consumer_id entry = consumer_id) (cr_entries registry)"

text \<open>The first free entry, cleared and given to the consumer.\<close>

definition tp_consumer_registry_alloc :: "tp_consumer_registry \<Rightarrow> u32 \<Rightarrow> (tp_consumer_registry \<times> nat) option" where
  "tp_consumer_registry_alloc registry consumer_id =
     (case find_index (\<lambda>entry. \<not> ce_in_use entry) (cr_entries registry) of
        None \<Rightarrow> None
      | Some i \<Rightarrow> Some (registry\<lparr>cr_entries := (cr_entries registry)
          [i := zero_consumer_entry\<lparr>ce_in_use := True, ce_consumer_id := consumer_id\<rparr>]\<rparr>, i))"

text \<open>The settings an accepted hello leaves in its entry.\<close>

definition hello_settings :: "tp_consumer_hello \<Rightarrow> tp_consumer_request \<Rightarrow> u64 \<Rightarrow> tp_consumer_entry \<Rightarrow> tp_consumer_entry" where
  "hello_settings hello request now_ns entry =
     (let entry = entry\<lparr>ce_last_seen_ns := now_ns, ce_mode := ch_mode hello, ce_max_rate_hz := ch_max_rate_hz hello,
            ce_supports_progress := ch_supports_progress hello,
            ce_progress_interval_us := ch_progress_interval_us hello,
            ce_progress_bytes_delta := ch_progress_bytes_delta hello,
            ce_progress_major_delta_units := ch_progress_major_delta_units hello,
            ce_descriptor_channel := [], ce_descriptor_stream_id := 0\<rparr>;
          entry = (if cq_descriptor_requested request then
                     (case tp_copy_string_view TP_URI_MAX_LENGTH (ch_descriptor_channel hello) of
                        Some s \<Rightarrow> entry\<lparr>ce_descriptor_channel := s, ce_descriptor_stream_id := ch_descriptor_stream_id hello\<rparr>
                      | None \<Rightarrow> entry)
                   else entry);
          entry = entry\<lparr>ce_control_channel := [], ce_control_stream_id := 0\<rparr>
      in (if cq_control_requested request then
            (case tp_copy_string_view TP_URI_MAX_LENGTH (ch_control_channel hello) of
               Some s \<Rightarrow> entry\<lparr>ce_control_channel := s, ce_control_stream_id := ch_control_stream_id hello\<rparr>
             | None \<Rightarrow> entry)
          else entry))"

text \<open>The registry and the index of the entry (\<open>*out_entry\<close>).\<close>

definition tp_consumer_registry_update ::
  "tp_consumer_registry \<Rightarrow> tp_consumer_hello \<Rightarrow> u64 \<Rightarrow> (tp_consumer_registry \<times> nat) res" where
  "tp_consumer_registry_update registry hello now_ns =
     bind_res (tp_consumer_request_validate hello) (\<lambda>request.
       case (case tp_consumer_registry_find registry (ch_consumer_id hello) of
               Some i \<Rightarrow> Some (registry, i)
             | None \<Rightarrow> tp_consumer_registry_alloc registry (ch_consumer_id hello)) of
         None \<Rightarrow> Inl (ENOMEM ''tp_consumer_registry_update: registry full'')
       | Some (registry, i) \<Rightarrow>
           Inr (registry\<lparr>cr_entries := (cr_entries registry)
                  [i := hello_settings hello request now_ns (cr_entries registry ! i)]\<rparr>, i))"

text \<open>The age \<open>now_ns - last_seen_ns\<close> is unsigned and wraps.\<close>

definition swept_entry :: "u64 \<Rightarrow> u64 \<Rightarrow> tp_consumer_entry \<Rightarrow> tp_consumer_entry" where
  "swept_entry now_ns stale_ns entry =
     (if ce_in_use entry \<and> now_ns - ce_last_seen_ns entry > stale_ns
      then entry\<lparr>ce_descriptor_publication := None, ce_control_publication := None, ce_in_use := False\<rparr>
      else entry)"

definition tp_consumer_registry_sweep :: "tp_consumer_registry \<Rightarrow> u64 \<Rightarrow> u64 \<Rightarrow> tp_consumer_registry \<times> nat" where
  "tp_consumer_registry_sweep registry now_ns stale_ns =
     (registry\<lparr>cr_entries := map (swept_entry now_ns stale_ns) (cr_entries registry)\<rparr>,
      length (filter (\<lambda>entry. ce_in_use entry \<and> now_ns - ce_last_seen_ns entry > stale_ns) (cr_entries registry)))"

text \<open>
  One hint of the aggregation loop: the value so far, and whether any consumer has given one.
\<close>

definition tighter :: "u32 \<times> bool \<Rightarrow> u32 \<Rightarrow> u32 \<times> bool" where
  "tighter acc v =
     (if v \<noteq> TP_NULL_U32 then (if snd acc then (if v < fst acc then v else fst acc) else v, True) else acc)"

fun aggregate_loop ::
  "tp_consumer_entry list \<Rightarrow> (u32 \<times> bool) \<times> (u32 \<times> bool) \<times> (u32 \<times> bool) \<Rightarrow> (u32 \<times> bool) \<times> (u32 \<times> bool) \<times> (u32 \<times> bool)" where
  "aggregate_loop [] acc = acc"
| "aggregate_loop (entry # es) (interval, bytes_delta, major_delta) =
     (if \<not> ce_in_use entry \<or> ce_supports_progress entry = 0
      then aggregate_loop es (interval, bytes_delta, major_delta)
      else aggregate_loop es (tighter interval (ce_progress_interval_us entry),
             tighter bytes_delta (ce_progress_bytes_delta entry), tighter major_delta (ce_progress_major_delta_units entry)))"

definition tp_consumer_registry_aggregate_progress :: "tp_consumer_registry \<Rightarrow> tp_progress_policy" where
  "tp_consumer_registry_aggregate_progress registry =
     (case aggregate_loop (cr_entries registry)
             ((TP_PROGRESS_INTERVAL_DEFAULT_US, False), (TP_PROGRESS_BYTES_DELTA_DEFAULT, False), (0, False)) of
        (interval, bytes_delta, major_delta) \<Rightarrow>
          \<lparr>po_interval_us = fst interval, po_bytes_delta = fst bytes_delta, po_major_delta_units = fst major_delta\<rparr>)"

section \<open>Manager operations\<close>

record tp_consumer_manager =
  cm_registry :: tp_consumer_registry
  cm_progress_policy :: tp_progress_policy
  cm_payload_fallback_uri :: string
  cm_force_no_shm :: bool

record tp_consumer_config_msg =
  cc_stream_id :: u32
  cc_consumer_id :: u32
  cc_use_shm :: u8
  cc_mode :: u8
  cc_descriptor_stream_id :: u32
  cc_control_stream_id :: u32
  cc_payload_fallback_uri :: string
  cc_descriptor_channel :: string
  cc_control_channel :: string

record tp_progress_tracker =
  pt_last_timestamp_ns :: u64
  pt_last_bytes :: u64

text \<open>
  \<open>open_ok channel stream\<close>: Aeron opens the publication. A stream id that is negative as
  \<open>int32_t\<close> is refused before that.
\<close>

definition tp_consumer_manager_add_publication :: "(string \<Rightarrow> u32 \<Rightarrow> bool) \<Rightarrow> string \<Rightarrow> u32 \<Rightarrow> publication option" where
  "tp_consumer_manager_add_publication open_ok channel stream_id =
     (if sint stream_id < 0 then None
      else if open_ok channel stream_id then Some (channel, stream_id) else None)"

definition tp_consumer_manager_init ::
  "(nat \<Rightarrow> tp_consumer_entry list option) \<Rightarrow> nat \<Rightarrow> tp_consumer_manager res" where
  "tp_consumer_manager_init aeron_alloc capacity =
     guard (capacity = 0) (EINVAL ''tp_consumer_manager_init: invalid input'')
     (bind_res (tp_consumer_registry_init aeron_alloc capacity) (\<lambda>registry.
       Inr \<lparr>cm_registry = registry,
            cm_progress_policy = \<lparr>po_interval_us = TP_PROGRESS_INTERVAL_DEFAULT_US,
              po_bytes_delta = TP_PROGRESS_BYTES_DELTA_DEFAULT, po_major_delta_units = 0\<rparr>,
            cm_payload_fallback_uri = [], cm_force_no_shm = False\<rparr>))"

definition tp_consumer_manager_refresh_progress_policy :: "tp_consumer_manager \<Rightarrow> tp_consumer_manager" where
  "tp_consumer_manager_refresh_progress_policy manager =
     manager\<lparr>cm_progress_policy := tp_consumer_registry_aggregate_progress (cm_registry manager)\<rparr>"

text \<open>A C string in an array is non-empty when its first character is not NUL.\<close>

definition c_nonempty :: "string \<Rightarrow> bool" where
  "c_nonempty s \<longleftrightarrow> s \<noteq> [] \<and> hd s \<noteq> CHR 0x00"

text \<open>
  What the hello handler does with one of the two per-consumer publications: the publication
  afterwards, and the channel and stream that the answer reports.
\<close>

definition hello_publication ::
  "(string \<Rightarrow> u32 \<Rightarrow> bool) \<Rightarrow> bool \<Rightarrow> string \<Rightarrow> u32 \<Rightarrow> publication option \<Rightarrow> publication option \<times> string \<times> u32" where
  "hello_publication open_ok requested channel stream_id pub =
     (if requested then
        (let pub = (if pub = None then tp_consumer_manager_add_publication open_ok channel stream_id else pub)
         in if pub \<noteq> None then (pub, channel, stream_id) else (pub, [], 0))
      else (None, [], 0))"

text \<open>
  \<open>send\<close> is the encoding and offer of the ConsumerConfig message
  (tp_producer_send_consumer_config); the message that was sent is part of the result.
\<close>

definition tp_consumer_manager_handle_hello ::
  "(string \<Rightarrow> u32 \<Rightarrow> bool) \<Rightarrow> (tp_consumer_config_msg \<Rightarrow> unit res) \<Rightarrow> tp_consumer_manager \<Rightarrow> tp_consumer_hello \<Rightarrow> u64 \<Rightarrow>
   tp_consumer_manager \<times> tp_consumer_config_msg option \<times> unit res" where
  "tp_consumer_manager_handle_hello open_ok send manager hello now_ns =
     (case tp_consumer_request_validate hello of
        Inl e \<Rightarrow> (manager, None, Inl e)
      | Inr request \<Rightarrow>
        (case tp_consumer_registry_update (cm_registry manager) hello now_ns of
           Inl e \<Rightarrow> (manager, None, Inl e)
         | Inr (registry, i) \<Rightarrow>
           (let entry = cr_entries registry ! i;
                descriptor_requested = (cq_descriptor_requested request \<and> ce_descriptor_stream_id entry \<noteq> 0 \<and>
                  c_nonempty (ce_descriptor_channel entry));
                control_requested = (cq_control_requested request \<and> ce_control_stream_id entry \<noteq> 0 \<and>
                  c_nonempty (ce_control_channel entry));
                (dpub, dchannel, dstream) = hello_publication open_ok descriptor_requested
                  (ce_descriptor_channel entry) (ce_descriptor_stream_id entry) (ce_descriptor_publication entry);
                (cpub, cchannel, cstream) = hello_publication open_ok control_requested
                  (ce_control_channel entry) (ce_control_stream_id entry) (ce_control_publication entry);
                entry = entry\<lparr>ce_descriptor_publication := dpub, ce_control_publication := cpub\<rparr>;
                manager = manager\<lparr>cm_registry := registry\<lparr>cr_entries := (cr_entries registry)[i := entry]\<rparr>\<rparr>;
                config = \<lparr>cc_stream_id = ch_stream_id hello, cc_consumer_id = ch_consumer_id hello,
                  cc_use_shm = (if cm_force_no_shm manager then 0 else ch_supports_shm hello), cc_mode = ch_mode hello,
                  cc_descriptor_stream_id = dstream, cc_control_stream_id = cstream,
                  cc_payload_fallback_uri = (if c_nonempty (cm_payload_fallback_uri manager)
                    then cm_payload_fallback_uri manager else []),
                  cc_descriptor_channel = dchannel, cc_control_channel = cchannel\<rparr>
            in (tp_consumer_manager_refresh_progress_policy manager, Some config, send config))))"

definition tp_consumer_manager_touch :: "tp_consumer_manager \<Rightarrow> u32 \<Rightarrow> u64 \<Rightarrow> tp_consumer_manager res" where
  "tp_consumer_manager_touch manager consumer_id now_ns =
     (case tp_consumer_registry_find (cm_registry manager) consumer_id of
        None \<Rightarrow> Inl (EINVAL ''tp_consumer_manager_touch: unknown consumer'')
      | Some i \<Rightarrow> Inr (manager\<lparr>cm_registry := (cm_registry manager)\<lparr>cr_entries := (cr_entries (cm_registry manager))
          [i := (cr_entries (cm_registry manager) ! i)\<lparr>ce_last_seen_ns := now_ns\<rparr>]\<rparr>\<rparr>))"

definition tp_consumer_manager_sweep :: "tp_consumer_manager \<Rightarrow> u64 \<Rightarrow> u64 \<Rightarrow> tp_consumer_manager \<times> nat" where
  "tp_consumer_manager_sweep manager now_ns stale_ns =
     (case tp_consumer_registry_sweep (cm_registry manager) now_ns stale_ns of
        (registry, cleaned) \<Rightarrow>
          (tp_consumer_manager_refresh_progress_policy (manager\<lparr>cm_registry := registry\<rparr>), cleaned))"

text \<open>The tracker is advanced only when progress is to be published. Sums wrap at 64 bits.\<close>

definition tp_consumer_manager_should_publish_progress ::
  "tp_consumer_manager \<Rightarrow> tp_progress_tracker \<Rightarrow> u64 \<Rightarrow> u64 \<Rightarrow> tp_progress_tracker \<times> bool" where
  "tp_consumer_manager_should_publish_progress manager tracker now_ns payload_bytes_filled =
     (let policy = cm_progress_policy manager;
          interval_ns = ucast (po_interval_us policy) * 1000 :: u64;
          should_publish =
            (if pt_last_timestamp_ns tracker = 0 then True
             else if interval_ns > 0 \<and> now_ns - pt_last_timestamp_ns tracker \<ge> interval_ns then True
             else if po_bytes_delta policy > 0 \<and>
                     payload_bytes_filled \<ge> pt_last_bytes tracker + ucast (po_bytes_delta policy) then True
             else po_major_delta_units policy > 0 \<and>
                     payload_bytes_filled \<ge> pt_last_bytes tracker + ucast (po_major_delta_units policy))
      in (if should_publish then \<lparr>pt_last_timestamp_ns = now_ns, pt_last_bytes = payload_bytes_filled\<rparr> else tracker,
          should_publish))"

section \<open>The registry as a map of consumers\<close>

interpretation ct: slot_table ce_in_use ce_consumer_id .

definition consumer_lookup :: "tp_consumer_registry \<Rightarrow> u32 \<Rightarrow> tp_consumer_entry option" where
  "consumer_lookup r c = map_option (\<lambda>i. cr_entries r ! i) (tp_consumer_registry_find r c)"

lemma consumer_lookup_eq: "consumer_lookup r c = ct.lookup (cr_entries r) c"
  by (simp add: consumer_lookup_def tp_consumer_registry_find_def ct.lookup_def ct.holds_def [abs_def])

lemma find_eq: "tp_consumer_registry_find r c = find_index (ct.holds c) (cr_entries r)"
  by (simp add: tp_consumer_registry_find_def ct.holds_def [abs_def])

lemma hello_settings_key [simp]:
  "ce_in_use (hello_settings h q t e) = ce_in_use e" "ce_consumer_id (hello_settings h q t e) = ce_consumer_id e"
  by (auto simp: hello_settings_def Let_def split: option.splits)

lemma alloc_slot:
  assumes "ct.unique (cr_entries r)" "tp_consumer_registry_find r c = None" "tp_consumer_registry_alloc r c = Some (r1, i)"
  shows "cr_entries r1 = (cr_entries r)[i := zero_consumer_entry\<lparr>ce_in_use := True, ce_consumer_id := c\<rparr>] \<and>
    ct.slot_for c (cr_entries r) i"
  using assms ct.slot_for_free [of c "cr_entries r" i]
  by (auto simp: tp_consumer_registry_alloc_def find_eq split: option.splits)

text \<open>The entry a hello starts from: the consumer's own, or a cleared one.\<close>

definition hello_base :: "tp_consumer_registry \<Rightarrow> u32 \<Rightarrow> tp_consumer_entry" where
  "hello_base r c = (case consumer_lookup r c of Some e \<Rightarrow> e
     | None \<Rightarrow> zero_consumer_entry\<lparr>ce_in_use := True, ce_consumer_id := c\<rparr>)"

lemma registry_update_slot:
  assumes "ct.unique (cr_entries r)" "tp_consumer_registry_update r hello now = Inr (r', i)"
  shows "\<exists>q. tp_consumer_request_validate hello = Inr q \<and> ct.slot_for (ch_consumer_id hello) (cr_entries r) i \<and>
    cr_entries r' = (cr_entries r)[i := hello_settings hello q now (hello_base r (ch_consumer_id hello))]"
proof -
  let ?c = "ch_consumer_id hello"
  define X where "X = (case tp_consumer_registry_find r ?c of Some i \<Rightarrow> Some (r, i) | None \<Rightarrow> tp_consumer_registry_alloc r ?c)"
  from assms(2) obtain q where q: "tp_consumer_request_validate hello = Inr q"
    and u: "(case X of None \<Rightarrow> Inl (ENOMEM ''tp_consumer_registry_update: registry full'')
      | Some (registry, i) \<Rightarrow> Inr (registry\<lparr>cr_entries := (cr_entries registry)
          [i := hello_settings hello q now (cr_entries registry ! i)]\<rparr>, i)) = Inr (r', i)"
    unfolding tp_consumer_registry_update_def bind_res_Inr X_def [symmetric] by blast
  from u obtain r1 where r1: "X = Some (r1, i)"
    and r': "cr_entries r' = (cr_entries r1)[i := hello_settings hello q now (cr_entries r1 ! i)]"
    by (cases X) auto
  note r1 = r1 [unfolded X_def]
  show ?thesis
  proof (cases "tp_consumer_registry_find r ?c")
    case None
    with r1 alloc_slot [OF assms(1) None, of r1 i] have
      "cr_entries r1 = (cr_entries r)[i := zero_consumer_entry\<lparr>ce_in_use := True, ce_consumer_id := ?c\<rparr>]"
      "ct.slot_for ?c (cr_entries r) i" by auto
    with None q r' show ?thesis by (auto simp: hello_base_def consumer_lookup_def ct.slot_for_def)
  next
    case (Some j)
    with r1 have "r1 = r" "j = i" by auto
    with Some q r' ct.slot_for_found [OF assms(1), of ?c i] show ?thesis
      by (auto simp: hello_base_def consumer_lookup_def find_eq)
  qed
qed

lemma hello_base_key: "ct.unique (cr_entries r) \<Longrightarrow> ce_in_use (hello_base r c) \<and> ce_consumer_id (hello_base r c) = c"
  by (auto simp: hello_base_def consumer_lookup_eq ct.lookup_Some ct.holds_def split: option.splits)

lemma registry_update_lookup:
  assumes "ct.unique (cr_entries r)" "tp_consumer_registry_update r hello now = Inr (r', i)"
    and "tp_consumer_request_validate hello = Inr q"
  shows "ct.unique (cr_entries r') \<and> consumer_lookup r' c =
    (if c = ch_consumer_id hello then Some (hello_settings hello q now (hello_base r c)) else consumer_lookup r c)"
proof -
  from registry_update_slot [OF assms(1,2)] assms(3) have
    s: "ct.slot_for (ch_consumer_id hello) (cr_entries r) i"
    and r': "cr_entries r' = (cr_entries r)[i := hello_settings hello q now (hello_base r (ch_consumer_id hello))]"
    by auto
  show ?thesis
    using ct.unique_update [OF assms(1) s] ct.lookup_update [OF assms(1) s] hello_base_key [OF assms(1)]
    by (simp add: consumer_lookup_eq r')
qed

lemma registry_update_accepts:
  assumes "ct.unique (cr_entries r)"
  shows "(\<exists>x. tp_consumer_registry_update r hello now = Inr x) \<longleftrightarrow>
    (\<exists>q. tp_consumer_request_validate hello = Inr q) \<and>
    (\<exists>e\<in>set (cr_entries r). ce_in_use e \<longrightarrow> ce_consumer_id e = ch_consumer_id hello)"
proof -
  let ?c = "ch_consumer_id hello"
  have "(case tp_consumer_registry_find r ?c of Some i \<Rightarrow> Some (r, i) | None \<Rightarrow> tp_consumer_registry_alloc r ?c) = None \<longleftrightarrow>
      (\<forall>e\<in>set (cr_entries r). ce_in_use e \<and> ce_consumer_id e \<noteq> ?c)"
  proof (cases "tp_consumer_registry_find r ?c")
    case None
    then have "\<forall>e\<in>set (cr_entries r). \<not> (ce_in_use e \<and> ce_consumer_id e = ?c)"
      by (simp add: tp_consumer_registry_find_def)
    moreover have "tp_consumer_registry_alloc r ?c = None \<longleftrightarrow> find_index (\<lambda>e. \<not> ce_in_use e) (cr_entries r) = None"
      by (cases "find_index (\<lambda>e. \<not> ce_in_use e) (cr_entries r)")
        (simp_all add: tp_consumer_registry_alloc_def del: find_index_None)
    ultimately show ?thesis using None by auto
  next
    case (Some i)
    then have "i < length (cr_entries r) \<and> ce_in_use (cr_entries r ! i) \<and> ce_consumer_id (cr_entries r ! i) = ?c"
      by (auto simp: tp_consumer_registry_find_def dest!: find_index_Some)
    then show ?thesis using Some by (auto intro!: bexI [of _ "cr_entries r ! i"])
  qed
  then show ?thesis
    by (auto simp: tp_consumer_registry_update_def res_simps bind_res_def split: sum.splits option.splits)
qed

section \<open>Aggregated progress hints\<close>

text \<open>The hints that count: of consumers in use that support progress and gave one.\<close>

definition hints :: "(tp_consumer_entry \<Rightarrow> u32) \<Rightarrow> tp_consumer_entry list \<Rightarrow> u32 list" where
  "hints sel es = concat (map (\<lambda>e. if ce_in_use e \<and> ce_supports_progress e \<noteq> 0 \<and> sel e \<noteq> TP_NULL_U32 then [sel e] else []) es)"

definition least_hint :: "u32 \<Rightarrow> u32 list \<Rightarrow> u32" where
  "least_hint d hs = (if hs = [] then d else Min (set hs))"

lemma hints_update: "hints sel [e] = hints sel [es ! i] \<Longrightarrow> i < length es \<Longrightarrow> hints sel (es[i := e]) = hints sel es"
  by (auto simp: hints_def map_update intro!: arg_cong [of _ _ concat] list_update_same_conv [THEN iffD2])

text \<open>\<open>acc\<close> holds the least of the hints seen so far, or the default.\<close>

definition acc_of :: "u32 \<Rightarrow> u32 list \<Rightarrow> u32 \<times> bool" where
  "acc_of d hs = (least_hint d hs, hs \<noteq> [])"

lemma min_lt: "min a b = (if a < b then a else (b :: u32))"
  by (auto simp: min_def)

lemma tighter_acc: "tighter (acc_of d hs) v = acc_of d (hs @ (if v \<noteq> TP_NULL_U32 then [v] else []))"
proof (cases "hs = []")
  case False
  then have "Min (insert v (set hs)) = (if v < Min (set hs) then v else Min (set hs))"
    unfolding min_lt [symmetric] by (intro Min_insert) simp_all
  with False show ?thesis by (simp add: tighter_def acc_of_def least_hint_def del: Min_insert)
qed (simp add: tighter_def acc_of_def least_hint_def)

lemma aggregate_loop_acc:
  "aggregate_loop es (acc_of d1 h1, acc_of d2 h2, acc_of d3 h3) =
     (acc_of d1 (h1 @ hints ce_progress_interval_us es), acc_of d2 (h2 @ hints ce_progress_bytes_delta es),
      acc_of d3 (h3 @ hints ce_progress_major_delta_units es))"
  by (induction es arbitrary: h1 h2 h3) (auto simp: hints_def tighter_acc)

lemma aggregate_eq:
  "tp_consumer_registry_aggregate_progress r =
     \<lparr>po_interval_us = least_hint TP_PROGRESS_INTERVAL_DEFAULT_US (hints ce_progress_interval_us (cr_entries r)),
      po_bytes_delta = least_hint TP_PROGRESS_BYTES_DELTA_DEFAULT (hints ce_progress_bytes_delta (cr_entries r)),
      po_major_delta_units = least_hint 0 (hints ce_progress_major_delta_units (cr_entries r))\<rparr>"
proof -
  have acc: "(d, False) = acc_of d []" for d by (simp add: acc_of_def least_hint_def)
  show ?thesis unfolding tp_consumer_registry_aggregate_progress_def acc aggregate_loop_acc
    by (simp add: acc_of_def)
qed

section \<open>Runs of the manager\<close>

datatype manager_call = Hello tp_consumer_hello u64 | Touch u32 u64 | Sweep u64 u64

fun manager_step :: "(string \<Rightarrow> u32 \<Rightarrow> bool) \<Rightarrow> (tp_consumer_config_msg \<Rightarrow> unit res) \<Rightarrow> manager_call \<Rightarrow>
    tp_consumer_manager \<Rightarrow> tp_consumer_manager" where
  "manager_step open_ok send (Hello h t) m = fst (tp_consumer_manager_handle_hello open_ok send m h t)"
| "manager_step open_ok send (Touch c t) m = (case tp_consumer_manager_touch m c t of Inr m' \<Rightarrow> m' | Inl _ \<Rightarrow> m)"
| "manager_step open_ok send (Sweep t s) m = fst (tp_consumer_manager_sweep m t s)"

definition manager_ok :: "tp_consumer_manager \<Rightarrow> bool" where
  "manager_ok m \<longleftrightarrow> ct.unique (cr_entries (cm_registry m)) \<and>
     cm_progress_policy m = tp_consumer_registry_aggregate_progress (cm_registry m)"

lemma refresh_ok:
  "ct.unique (cr_entries (cm_registry m)) \<Longrightarrow> manager_ok (tp_consumer_manager_refresh_progress_policy m)"
  by (simp add: manager_ok_def tp_consumer_manager_refresh_progress_policy_def)

lemma handle_hello_registry:
  assumes "tp_consumer_registry_update (cm_registry m) h t = Inr (r, i)" "tp_consumer_request_validate h = Inr q"
  shows "\<exists>dpub cpub. fst (tp_consumer_manager_handle_hello open_ok send m h t) =
    tp_consumer_manager_refresh_progress_policy (m\<lparr>cm_registry := r\<lparr>cr_entries := (cr_entries r)
      [i := (cr_entries r ! i)\<lparr>ce_descriptor_publication := dpub, ce_control_publication := cpub\<rparr>]\<rparr>\<rparr>)"
  unfolding tp_consumer_manager_handle_hello_def using assms
  by (simp add: Let_def split: prod.splits) blast

lemma handle_hello_ok:
  assumes "manager_ok m"
  shows "manager_ok (fst (tp_consumer_manager_handle_hello open_ok send m h t))"
proof (cases "tp_consumer_registry_update (cm_registry m) h t")
  case (Inl e)
  then show ?thesis using assms by (simp add: tp_consumer_manager_handle_hello_def split: sum.splits)
next
  case (Inr ri)
  obtain r i where ri: "ri = (r, i)" by force
  have u: "ct.unique (cr_entries (cm_registry m))" using assms by (simp add: manager_ok_def)
  from registry_update_slot [OF u Inr [unfolded ri]] obtain q where
    q: "tp_consumer_request_validate h = Inr q" "ct.slot_for (ch_consumer_id h) (cr_entries (cm_registry m)) i"
    and r: "cr_entries r = (cr_entries (cm_registry m))[i := hello_settings h q t (hello_base (cm_registry m) (ch_consumer_id h))]"
    by blast
  have "ct.unique ((cr_entries r)[i := (cr_entries r ! i)\<lparr>ce_descriptor_publication := dp, ce_control_publication := cp\<rparr>])" for dp cp
    unfolding r list_update_overwrite
    by (rule ct.unique_update [OF u q(2)]) (use q(2) hello_base_key [OF u] in \<open>auto simp: ct.slot_for_def\<close>)
  with handle_hello_registry [OF Inr [unfolded ri] q(1), of open_ok send] show ?thesis
    by (auto intro!: refresh_ok)
qed

lemma touch_ok:
  assumes "manager_ok m" "tp_consumer_manager_touch m c t = Inr m'"
  shows "manager_ok m'"
proof -
  let ?es = "cr_entries (cm_registry m)"
  from assms(2) obtain i where i: "tp_consumer_registry_find (cm_registry m) c = Some i"
    and m': "m' = m\<lparr>cm_registry := (cm_registry m)\<lparr>cr_entries := ?es[i := (?es ! i)\<lparr>ce_last_seen_ns := t\<rparr>]\<rparr>\<rparr>"
    by (auto simp: tp_consumer_manager_touch_def split: option.splits)
  have u: "ct.unique ?es" using assms(1) by (simp add: manager_ok_def)
  have s: "ct.slot_for c ?es i" using ct.slot_for_found [OF u] i by (simp add: find_eq)
  have l: "i < length ?es" using s by (simp add: ct.slot_for_def)
  have "ct.unique (?es[i := (?es ! i)\<lparr>ce_last_seen_ns := t\<rparr>])"
    by (rule ct.unique_update [OF u s]) (use s in \<open>auto simp: ct.slot_for_def\<close>)
  moreover have "hints sel (?es[i := (?es ! i)\<lparr>ce_last_seen_ns := t\<rparr>]) = hints sel ?es"
    if "sel ((?es ! i)\<lparr>ce_last_seen_ns := t\<rparr>) = sel (?es ! i)" for sel
    by (rule hints_update [OF _ l]) (use that in \<open>simp add: hints_def\<close>)
  ultimately show ?thesis using assms(1) by (simp add: manager_ok_def m' aggregate_eq)
qed

lemma swept_in_use: "ce_in_use (swept_entry t s e) \<longleftrightarrow> ce_in_use e \<and> \<not> t - ce_last_seen_ns e > s"
  by (auto simp: swept_entry_def)

lemma swept_entry_kept: "ce_in_use (swept_entry t s e) \<Longrightarrow> swept_entry t s e = e"
  unfolding swept_in_use by (simp add: swept_entry_def)

lemma sweep_ok: "manager_ok m \<Longrightarrow> manager_ok (fst (tp_consumer_manager_sweep m t s))"
  unfolding tp_consumer_manager_sweep_def tp_consumer_registry_sweep_def
  by (simp, rule refresh_ok, simp, rule ct.unique_map_free) (auto simp: manager_ok_def swept_entry_def split: if_splits)

lemma manager_step_ok: "manager_ok m \<Longrightarrow> manager_ok (manager_step open_ok send c m)"
  by (cases c) (auto simp: handle_hello_ok sweep_ok touch_ok split: sum.splits)

section \<open>Properties of the consumer registry\<close>

text \<open>A hello with a descriptor channel, and a registry of two free entries.\<close>

definition sample_hello :: "u32 \<Rightarrow> string \<Rightarrow> u32 \<Rightarrow> tp_consumer_hello" where
  "sample_hello c channel stream =
     \<lparr>ch_stream_id = 1, ch_consumer_id = c, ch_supports_shm = 1, ch_supports_progress = 1, ch_mode = 1, ch_max_rate_hz = 0,
      ch_progress_interval_us = 100, ch_progress_bytes_delta = TP_NULL_U32, ch_progress_major_delta_units = TP_NULL_U32,
      ch_descriptor_stream_id = stream, ch_control_stream_id = 0, ch_descriptor_channel = channel, ch_control_channel = []\<rparr>"

definition sample_consumers :: tp_consumer_registry where
  "sample_consumers = \<lparr>cr_entries = [zero_consumer_entry, zero_consumer_entry]\<rparr>"

definition sample_manager :: tp_consumer_manager where
  "sample_manager = \<lparr>cm_registry = sample_consumers,
     cm_progress_policy = \<lparr>po_interval_us = TP_PROGRESS_INTERVAL_DEFAULT_US,
       po_bytes_delta = TP_PROGRESS_BYTES_DELTA_DEFAULT, po_major_delta_units = 0\<rparr>,
     cm_payload_fallback_uri = [], cm_force_no_shm = False\<rparr>"

lemma sample_consumers_unique: "ct.unique (cr_entries sample_consumers)"
  by (rule ct.unique_all_free) (simp add: sample_consumers_def zero_consumer_entry_def)

text \<open>
  Whatever hellos, keepalives and sweeps a producer handles, no consumer has two entries, and the
  progress policy is the one aggregated from the current entries.
\<close>

theorem manager_run_ok:
  assumes "tp_consumer_manager_init aeron_alloc n = Inr m"
    and zero_filled: "\<And>k es. aeron_alloc k = Some es \<Longrightarrow> es = replicate k zero_consumer_entry"
  shows "manager_ok (fold (manager_step open_ok send) calls m)"
proof -
  obtain es where es: "cm_registry m = \<lparr>cr_entries = es\<rparr>" "es = replicate n zero_consumer_entry"
    and po: "cm_progress_policy m = \<lparr>po_interval_us = TP_PROGRESS_INTERVAL_DEFAULT_US,
      po_bytes_delta = TP_PROGRESS_BYTES_DELTA_DEFAULT, po_major_delta_units = 0\<rparr>"
    using assms(1) zero_filled [of n]
    by (auto simp: tp_consumer_manager_init_def tp_consumer_registry_init_def res_simps split: option.splits)
  have "hints sel es = []" for sel by (simp add: hints_def es(2) zero_consumer_entry_def concat_eq_Nil_conv)
  then have "manager_ok m"
    using es(2) po by (simp add: manager_ok_def es(1) aggregate_eq least_hint_def ct.unique_all_free zero_consumer_entry_def)
  then show ?thesis by (induction calls arbitrary: m) (simp_all add: manager_step_ok)
qed

text \<open>
  A hello is accepted exactly when its channel and stream requests are consistent and the registry
  has an entry for the consumer or a free one; then the consumer's entry carries the hello's settings
  and every other consumer's entry is as it was.
\<close>

theorem registry_update_spec:
  assumes "ct.unique (cr_entries r)"
  shows "((\<exists>x. tp_consumer_registry_update r hello now = Inr x) \<longleftrightarrow>
      (\<exists>q. tp_consumer_request_validate hello = Inr q) \<and>
      (\<exists>e\<in>set (cr_entries r). ce_in_use e \<longrightarrow> ce_consumer_id e = ch_consumer_id hello)) \<and>
    (\<forall>r' i q. tp_consumer_registry_update r hello now = Inr (r', i) \<and> tp_consumer_request_validate hello = Inr q \<longrightarrow>
      consumer_lookup r' c = (if c = ch_consumer_id hello then Some (hello_settings hello q now (hello_base r c))
        else consumer_lookup r c))"
proof (intro conjI allI impI; (elim conjE)?)
  show "(\<exists>x. tp_consumer_registry_update r hello now = Inr x) \<longleftrightarrow>
      (\<exists>q. tp_consumer_request_validate hello = Inr q) \<and>
      (\<exists>e\<in>set (cr_entries r). ce_in_use e \<longrightarrow> ce_consumer_id e = ch_consumer_id hello)"
    by (rule registry_update_accepts [OF assms])
next
  fix r' i q
  assume "tp_consumer_registry_update r hello now = Inr (r', i)" "tp_consumer_request_validate hello = Inr q"
  from conjunct2 [OF registry_update_lookup [OF assms this]]
  show "consumer_lookup r' c = (if c = ch_consumer_id hello then Some (hello_settings hello q now (hello_base r c))
        else consumer_lookup r c)" .
qed

text \<open>
  A sweep frees exactly the consumers that were last seen more than the stale time ago, in
  64-bit unsigned arithmetic, leaves the others untouched and reports how many it freed.
\<close>

theorem registry_sweep_spec:
  assumes "ct.unique (cr_entries r)" "tp_consumer_registry_sweep r now stale = (r', n)"
  shows "consumer_lookup r' c = (case consumer_lookup r c of
      Some e \<Rightarrow> if now - ce_last_seen_ns e > stale then None else Some e | None \<Rightarrow> None) \<and>
    n = length (filter (\<lambda>e. ce_in_use e \<and> now - ce_last_seen_ns e > stale) (cr_entries r))"
proof -
  have "ct.lookup (map (swept_entry now stale) (cr_entries r)) c =
      (case ct.lookup (cr_entries r) c of Some e \<Rightarrow> if ce_in_use (swept_entry now stale e) then Some e else None | None \<Rightarrow> None)"
    using assms(1) swept_entry_kept by (rule ct.lookup_map_free)
  moreover have "ce_in_use e" if "ct.lookup (cr_entries r) c = Some e" for e
    using that ct.lookup_Some [OF assms(1)] by (simp add: ct.holds_def)
  moreover have "cr_entries r' = map (swept_entry now stale) (cr_entries r)"
    "n = length (filter (\<lambda>e. ce_in_use e \<and> now - ce_last_seen_ns e > stale) (cr_entries r))"
    using assms(2) by (auto simp: tp_consumer_registry_sweep_def)
  ultimately show ?thesis
    unfolding consumer_lookup_eq by (cases "ct.lookup (cr_entries r) c") (simp_all add: swept_in_use)
qed

text \<open>
  The aggregated policy takes, for each of the three hints, the smallest value among the
  progress-capable consumers in use that gave one, and the default when none did.
\<close>

theorem aggregate_progress_least:
  "tp_consumer_registry_aggregate_progress r =
     \<lparr>po_interval_us = least_hint TP_PROGRESS_INTERVAL_DEFAULT_US (hints ce_progress_interval_us (cr_entries r)),
      po_bytes_delta = least_hint TP_PROGRESS_BYTES_DELTA_DEFAULT (hints ce_progress_bytes_delta (cr_entries r)),
      po_major_delta_units = least_hint 0 (hints ce_progress_major_delta_units (cr_entries r))\<rparr>"
  by (rule aggregate_eq)

text \<open>
  A consumer that asks for another descriptor channel is told that it has it, while the
  producer keeps publishing its descriptors on the channel it asked for first.
\<close>

theorem rehello_keeps_old_publication:
  "\<exists>m config r'. tp_consumer_manager_handle_hello (\<lambda>_ _. True) (\<lambda>_. Inr ())
       (fst (tp_consumer_manager_handle_hello (\<lambda>_ _. True) (\<lambda>_. Inr ()) sample_manager (sample_hello 5 ''aeron:ipc?a'' 7) 100))
       (sample_hello 5 ''aeron:ipc?b'' 8) 200 = (m, Some config, Inr r') \<and>
     cc_descriptor_channel config = ''aeron:ipc?b'' \<and> cc_descriptor_stream_id config = 8 \<and>
     map_option ce_descriptor_publication (consumer_lookup (cm_registry m) 5) = Some (Some (''aeron:ipc?a'', 7))"
proof -
  let ?r = "tp_consumer_manager_handle_hello (\<lambda>_ _. True) (\<lambda>_. Inr ())
       (fst (tp_consumer_manager_handle_hello (\<lambda>_ _. True) (\<lambda>_. Inr ()) sample_manager (sample_hello 5 ''aeron:ipc?a'' 7) 100))
       (sample_hello 5 ''aeron:ipc?b'' 8) 200"
  have "map_option cc_descriptor_channel (fst (snd ?r)) = Some ''aeron:ipc?b''"
    "map_option cc_descriptor_stream_id (fst (snd ?r)) = Some 8" "snd (snd ?r) = Inr ()"
    "map_option ce_descriptor_publication (consumer_lookup (cm_registry (fst ?r)) 5) = Some (Some (''aeron:ipc?a'', 7))"
    by code_simp+
  then show ?thesis by (cases ?r) auto
qed

end
