(* ===== verification/Tp_Trace.thy ===== *)
theory Tp_Trace
  imports Tp_Prelude "HOL-Library.Signed_Division"
begin

text \<open>
  The trace id generator (src/src/common/tp_trace.c): a 64-bit id is a millisecond timestamp, a
  node id and a sequence, and several threads draw ids from one generator through a
  compare-and-swap loop. The clock is a parameter: every reading is an argument.
\<close>

section \<open>The generator\<close>

definition TP_TRACE_MAX_NODE_AND_SEQUENCE_BITS :: u8 where "TP_TRACE_MAX_NODE_AND_SEQUENCE_BITS = 22"
definition TP_TRACE_NODE_ID_BITS_DEFAULT :: u8 where "TP_TRACE_NODE_ID_BITS_DEFAULT = 10"
definition TP_TRACE_SEQUENCE_BITS_DEFAULT :: u8 where "TP_TRACE_SEQUENCE_BITS_DEFAULT = 12"

lemmas trace_const_defs = TP_TRACE_MAX_NODE_AND_SEQUENCE_BITS_def TP_TRACE_NODE_ID_BITS_DEFAULT_def
  TP_TRACE_SEQUENCE_BITS_DEFAULT_def

record tp_trace_id_generator =
  tg_timestamp_sequence :: u64
  tg_node_id_bits :: u8
  tg_sequence_bits :: u8
  tg_node_id_and_sequence_bits :: u8
  tg_max_node_id :: u64
  tg_max_sequence :: u64
  tg_node_bits :: u64
  tg_timestamp_offset_ms :: u64

text \<open>The realtime clock in nanoseconds is an \<open>int64_t\<close>; C divides towards zero.\<close>

definition tp_trace_default_clock_ms :: "u64 \<Rightarrow> u64" where
  "tp_trace_default_clock_ms now_realtime_ns = word_of_int (sint now_realtime_ns sdiv 1000000)"

text \<open>A left shift by the width of the type or more is undefined in C.\<close>

definition shift_one :: "u8 \<Rightarrow> u64 res" where
  "shift_one n = (if unat n < 64 then Inr (push_bit (unat n) 1) else Inl (UB ''1ULL << n''))"

text \<open>
  \<open>realtime_ns\<close> is the reading of the realtime clock that the guard takes and \<open>now_ms\<close>
  the one of the generator's own clock.
\<close>

definition tp_trace_id_generator_init ::
  "u64 \<Rightarrow> u64 \<Rightarrow> u8 \<Rightarrow> u8 \<Rightarrow> u64 \<Rightarrow> u64 \<Rightarrow> tp_trace_id_generator res" where
  "tp_trace_id_generator_init realtime_ns now_ms node_id_bits sequence_bits node_id timestamp_offset_ms =
     guard (uint node_id_bits < 0 \<or> uint sequence_bits < 0)
       (EINVAL ''tp_trace_id_generator_init: invalid bit sizes'')
     (let node_id_and_sequence_bits = node_id_bits + sequence_bits in
      guard (node_id_and_sequence_bits > TP_TRACE_MAX_NODE_AND_SEQUENCE_BITS)
        (EINVAL ''tp_trace_id_generator_init: too many bits used'')
      (bind_res (shift_one node_id_bits) (\<lambda>one_node.
       let max_node_id = one_node - 1 in
       guard (node_id > max_node_id) (EINVAL ''tp_trace_id_generator_init: node_id out of range'')
       (guard (timestamp_offset_ms > tp_trace_default_clock_ms realtime_ns)
         (EINVAL ''tp_trace_id_generator_init: timestamp offset in future'')
       (bind_res (shift_one sequence_bits) (\<lambda>one_sequence.
        guard (timestamp_offset_ms > now_ms) (EINVAL ''tp_trace_id_generator_init: offset beyond clock'')
        (Inr \<lparr>tg_timestamp_sequence = 0, tg_node_id_bits = node_id_bits, tg_sequence_bits = sequence_bits,
              tg_node_id_and_sequence_bits = node_id_and_sequence_bits, tg_max_node_id = max_node_id,
              tg_max_sequence = one_sequence - 1, tg_node_bits = push_bit (unat sequence_bits) node_id,
              tg_timestamp_offset_ms = timestamp_offset_ms\<rparr>)))))))"

text \<open>The default clock is read for the guard and again as the generator's clock.\<close>

definition tp_trace_id_generator_init_default :: "u64 \<Rightarrow> u64 \<Rightarrow> u64 \<Rightarrow> tp_trace_id_generator res" where
  "tp_trace_id_generator_init_default realtime_ns realtime_ns2 node_id =
     tp_trace_id_generator_init realtime_ns (tp_trace_default_clock_ms realtime_ns2)
       TP_TRACE_NODE_ID_BITS_DEFAULT TP_TRACE_SEQUENCE_BITS_DEFAULT node_id 0"

text \<open>
  What one round of the loop wants to store, from the word it loaded and the clock it read;
  \<open>None\<close> when the sequence numbers of the millisecond are used up and the loop must go round.
\<close>

definition trace_candidate :: "tp_trace_id_generator \<Rightarrow> u64 \<Rightarrow> u64 \<Rightarrow> u64 option" where
  "trace_candidate g old_timestamp_sequence clock_ms =
     (let timestamp_ms = clock_ms - tg_timestamp_offset_ms g;
          bits = unat (tg_node_id_and_sequence_bits g);
          old_timestamp_ms = drop_bit bits old_timestamp_sequence
      in if timestamp_ms > old_timestamp_ms then Some (push_bit bits timestamp_ms)
         else (let old_sequence = old_timestamp_sequence AND tg_max_sequence g
               in if old_sequence < tg_max_sequence g then Some (old_timestamp_sequence + 1) else None))"

text \<open>
  A call that no other thread disturbs. Each element of the list is one round of the loop: the
  clock reading, and whether the weak compare-and-swap succeeds (it may fail spuriously).
  \<open>None\<close>: still in the loop after those rounds.
\<close>

fun tp_trace_id_generator_next ::
  "tp_trace_id_generator \<Rightarrow> (u64 \<times> bool) list \<Rightarrow> (tp_trace_id_generator \<times> u64) option" where
  "tp_trace_id_generator_next g [] = None"
| "tp_trace_id_generator_next g ((clock_ms, cas) # rounds) =
     (case trace_candidate g (tg_timestamp_sequence g) clock_ms of
        Some new_timestamp_sequence \<Rightarrow>
          if cas then Some (g\<lparr>tg_timestamp_sequence := new_timestamp_sequence\<rparr>, new_timestamp_sequence OR tg_node_bits g)
          else tp_trace_id_generator_next g rounds
      | None \<Rightarrow> tp_trace_id_generator_next g rounds)"

definition tp_trace_id_extract_timestamp :: "tp_trace_id_generator \<Rightarrow> u64 \<Rightarrow> u64" where
  "tp_trace_id_extract_timestamp g trace_id = drop_bit (unat (tg_node_id_and_sequence_bits g)) trace_id"

definition tp_trace_id_extract_node_id :: "tp_trace_id_generator \<Rightarrow> u64 \<Rightarrow> u64" where
  "tp_trace_id_extract_node_id g trace_id = drop_bit (unat (tg_sequence_bits g)) trace_id AND tg_max_node_id g"

definition tp_trace_id_extract_sequence :: "tp_trace_id_generator \<Rightarrow> u64 \<Rightarrow> u64" where
  "tp_trace_id_extract_sequence g trace_id = trace_id AND tg_max_sequence g"

section \<open>Threads\<close>

text \<open>
  The same loop run by any number of threads on one generator, as the atomic steps it is made
  of: the load, the clock reading with the computation of the candidate, and the
  compare-and-swap, which fails when the word has changed and may fail otherwise. \<open>ts_ids\<close>
  is the sequence of returned ids in the order of their compare-and-swaps. \<open>clocks\<close> is the
  set of readings that the clock may return.
\<close>

datatype trace_pc = Looping | Loaded u64 | Trying u64 u64

record trace_state =
  ts_word :: u64
  ts_thread :: "nat \<Rightarrow> trace_pc"
  ts_ids :: "u64 list"

inductive trace_step :: "tp_trace_id_generator \<Rightarrow> u64 set \<Rightarrow> trace_state \<Rightarrow> trace_state \<Rightarrow> bool"
  for g clocks where
  t_load: "ts_thread st t = Looping \<Longrightarrow>
    trace_step g clocks st (st\<lparr>ts_thread := (ts_thread st)(t := Loaded (ts_word st))\<rparr>)"
| t_spin: "ts_thread st t = Loaded old \<Longrightarrow> c \<in> clocks \<Longrightarrow> trace_candidate g old c = None \<Longrightarrow>
    trace_step g clocks st (st\<lparr>ts_thread := (ts_thread st)(t := Looping)\<rparr>)"
| t_try: "ts_thread st t = Loaded old \<Longrightarrow> c \<in> clocks \<Longrightarrow> trace_candidate g old c = Some new \<Longrightarrow>
    trace_step g clocks st (st\<lparr>ts_thread := (ts_thread st)(t := Trying old new)\<rparr>)"
| t_fail: "ts_thread st t = Trying old new \<Longrightarrow>
    trace_step g clocks st (st\<lparr>ts_thread := (ts_thread st)(t := Looping)\<rparr>)"
| t_cas: "ts_thread st t = Trying old new \<Longrightarrow> ts_word st = old \<Longrightarrow>
    trace_step g clocks st (st\<lparr>ts_word := new, ts_thread := (ts_thread st)(t := Looping),
                               ts_ids := ts_ids st @ [new OR tg_node_bits g]\<rparr>)"

inductive trace_reach :: "tp_trace_id_generator \<Rightarrow> u64 set \<Rightarrow> trace_state \<Rightarrow> bool" for g clocks where
  trace_start: "trace_reach g clocks \<lparr>ts_word = tg_timestamp_sequence g, ts_thread = (\<lambda>_. Looping), ts_ids = []\<rparr>"
| trace_next: "trace_reach g clocks st \<Longrightarrow> trace_step g clocks st st' \<Longrightarrow> trace_reach g clocks st'"

inductive_cases trace_stepE: "trace_step g clocks st st'"

section \<open>The layout of an id\<close>

text \<open>
  \<open>gen_ok g n\<close>: the constants of a generator for node \<open>n\<close> are consistent.
  \<open>word_ok g w\<close>: the node field of the stored word is zero.
\<close>

definition gen_ok :: "tp_trace_id_generator \<Rightarrow> u64 \<Rightarrow> bool" where
  "gen_ok g n \<longleftrightarrow>
     unat (tg_node_id_and_sequence_bits g) = unat (tg_node_id_bits g) + unat (tg_sequence_bits g) \<and>
     unat (tg_node_id_and_sequence_bits g) \<le> 22 \<and>
     tg_max_node_id g = mask (unat (tg_node_id_bits g)) \<and> tg_max_sequence g = mask (unat (tg_sequence_bits g)) \<and>
     tg_node_bits g = push_bit (unat (tg_sequence_bits g)) n \<and> unat n < 2 ^ unat (tg_node_id_bits g)"

definition word_ok :: "tp_trace_id_generator \<Rightarrow> u64 \<Rightarrow> bool" where
  "word_ok g w \<longleftrightarrow> unat w mod 2 ^ unat (tg_node_id_and_sequence_bits g) < 2 ^ unat (tg_sequence_bits g)"

text \<open>A reading whose distance from the offset fits above the node and sequence bits.\<close>

definition clock_ok :: "tp_trace_id_generator \<Rightarrow> u64 \<Rightarrow> bool" where
  "clock_ok g c \<longleftrightarrow> unat (c - tg_timestamp_offset_ms g) < 2 ^ (64 - unat (tg_node_id_and_sequence_bits g))"

lemma unat_push_bit_small:
  assumes "unat (w :: u64) < 2 ^ (64 - b)" "b \<le> 64"
  shows "unat (push_bit b w) = unat w * 2 ^ b"
proof -
  have "unat w * 2 ^ b < 2 ^ (64 - b) * 2 ^ b" using assms(1) by simp
  also have "\<dots> = 2 ^ 64" using assms(2) by (simp flip: power_add)
  finally show ?thesis
    unfolding unsigned_push_bit_eq by (simp add: push_bit_eq_mult take_bit_nat_eq_self)
qed

lemma unat_and_mask: "unat ((w :: u64) AND mask k) = unat w mod 2 ^ k"
  unfolding take_bit_eq_mask [symmetric] unsigned_take_bit_eq by (simp add: take_bit_eq_mod)

lemma unat_drop_bit_div: "unat (drop_bit k (w :: u64)) = unat w div 2 ^ k"
  unfolding unat_drop_bit_eq by (simp add: drop_bit_eq_div)

lemma unat_plus_1: "(w :: u64) \<noteq> - 1 \<Longrightarrow> unat (w + 1) = unat w + 1"
  using unatSuc [of w] by (simp add: add.commute [of w] add_eq_0_iff)

lemma unat_mask_u64: "k < 64 \<Longrightarrow> unat (mask k :: u64) = 2 ^ k - 1"
  unfolding take_bit_minus_one_eq_mask [symmetric] unsigned_take_bit_eq unsigned_minus_1_eq_mask
    take_bit_of_mask by (simp add: min_def mask_nat_def)

lemma word_ok_high_bit:
  assumes "word_ok g w" "gen_ok g n" "bit w k" "unat (tg_sequence_bits g) \<le> k"
  shows "unat (tg_node_id_and_sequence_bits g) \<le> k"
proof (rule ccontr)
  let ?b = "unat (tg_node_id_and_sequence_bits g)" and ?s = "unat (tg_sequence_bits g)"
  assume "\<not> ?b \<le> k"
  then have "bit (take_bit ?b (unat w)) k" using assms(3) by (simp add: bit_take_bit_iff bit_unsigned_iff)
  moreover have "take_bit ?s (take_bit ?b (unat w)) = take_bit ?b (unat w)"
    using assms(1) by (simp add: word_ok_def take_bit_nat_eq_self take_bit_eq_mod)
  ultimately show False using assms(4) by (metis bit_take_bit_iff leD)
qed

lemma node_bit:
  assumes "gen_ok g n"
  shows "bit (tg_node_bits g) k \<longleftrightarrow> unat (tg_sequence_bits g) \<le> k \<and> k < unat (tg_node_id_and_sequence_bits g) \<and>
    bit n (k - unat (tg_sequence_bits g))"
proof -
  have "take_bit (unat (tg_node_id_bits g)) n = n"
    using assms by (intro take_bit_of_lt) (simp add: gen_ok_def)
  then have small: "bit n j \<Longrightarrow> j < unat (tg_node_id_bits g)" for j by (metis bit_take_bit_iff)
  have "k < 64" if "k < unat (tg_node_id_and_sequence_bits g)" using assms that by (simp add: gen_ok_def)
  moreover have "tg_node_bits g = push_bit (unat (tg_sequence_bits g)) n"
    "unat (tg_node_id_and_sequence_bits g) = unat (tg_node_id_bits g) + unat (tg_sequence_bits g)"
    using assms by (simp_all add: gen_ok_def)
  ultimately show ?thesis using small [of "k - unat (tg_sequence_bits g)"]
    by (auto simp: bit_push_bit_iff)
qed

lemma node_bits_disjoint:
  assumes "word_ok g w" "gen_ok g n"
  shows "w AND tg_node_bits g = 0"
  by (rule bit_word_eqI) (auto simp: bit_and_iff node_bit [OF assms(2)] dest: word_ok_high_bit [OF assms])

lemma id_fields:
  assumes "word_ok g w" "gen_ok g n"
  shows "tp_trace_id_extract_timestamp g (w OR tg_node_bits g) = drop_bit (unat (tg_node_id_and_sequence_bits g)) w"
    and "tp_trace_id_extract_node_id g (w OR tg_node_bits g) = n"
    and "tp_trace_id_extract_sequence g (w OR tg_node_bits g) = w AND tg_max_sequence g"
proof -
  let ?b = "unat (tg_node_id_and_sequence_bits g)" and ?s = "unat (tg_sequence_bits g)" and ?k = "unat (tg_node_id_bits g)"
  have b: "?b = ?k + ?s" and m: "tg_max_node_id g = mask ?k" "tg_max_sequence g = mask ?s" and l: "?b \<le> 22"
    using assms(2) by (simp_all add: gen_ok_def)
  note bits = word_ok_high_bit [OF assms] node_bit [OF assms(2)]
  show "tp_trace_id_extract_timestamp g (w OR tg_node_bits g) = drop_bit ?b w"
    unfolding tp_trace_id_extract_timestamp_def
    by (rule bit_word_eqI) (auto simp: bit_drop_bit_eq bit_or_iff node_bit [OF assms(2)])
  show "tp_trace_id_extract_sequence g (w OR tg_node_bits g) = w AND tg_max_sequence g"
    unfolding tp_trace_id_extract_sequence_def m
    by (rule bit_word_eqI) (auto simp: bit_and_iff bit_or_iff bit_mask_iff node_bit [OF assms(2)])
  have "take_bit ?k n = n" using assms(2) by (intro take_bit_of_lt) (simp add: gen_ok_def)
  then have n: "bit n j \<Longrightarrow> j < ?k" for j by (metis bit_take_bit_iff)
  show "tp_trace_id_extract_node_id g (w OR tg_node_bits g) = n"
    unfolding tp_trace_id_extract_node_id_def m
  proof (rule bit_word_eqI)
    fix j assume "j < LENGTH(64)"
    have "j < ?k \<Longrightarrow> \<not> bit w (?s + j)" using bits(1) [of "?s + j"] b by auto
    with n [of j] b l show "bit (drop_bit ?s (w OR tg_node_bits g) AND mask ?k) j = bit n j"
      by (auto simp: bit_and_iff bit_drop_bit_eq bit_or_iff bit_mask_iff node_bit [OF assms(2)])
  qed
qed

lemma unat_id: "word_ok g w \<Longrightarrow> gen_ok g n \<Longrightarrow> unat (w OR tg_node_bits g) = unat w + unat (tg_node_bits g)"
proof -
  assume a: "word_ok g w" "gen_ok g n"
  then have "unat w AND unat (tg_node_bits g) = 0"
    using node_bits_disjoint [OF a] by (simp flip: unsigned_and_eq)
  then show ?thesis by (simp add: unsigned_or_eq disjunctive_add_eq_or)
qed

lemma candidate_ok:
  assumes "trace_candidate g w c = Some w'" "word_ok g w" "gen_ok g n" "clock_ok g c"
  shows "word_ok g w' \<and> w < w' \<and>
    (drop_bit (unat (tg_node_id_and_sequence_bits g)) w' = c - tg_timestamp_offset_ms g \<and>
       drop_bit (unat (tg_node_id_and_sequence_bits g)) w < c - tg_timestamp_offset_ms g \<and> w' AND tg_max_sequence g = 0 \<or>
     drop_bit (unat (tg_node_id_and_sequence_bits g)) w' = drop_bit (unat (tg_node_id_and_sequence_bits g)) w \<and>
       w' AND tg_max_sequence g = (w AND tg_max_sequence g) + 1)"
proof -
  let ?b = "unat (tg_node_id_and_sequence_bits g)" and ?s = "unat (tg_sequence_bits g)"
  let ?t = "c - tg_timestamp_offset_ms g"
  have m: "tg_max_sequence g = mask ?s" and l: "?b \<le> 22" "?s \<le> ?b" using assms(3) by (simp_all add: gen_ok_def)
  show ?thesis
  proof (cases "?t > drop_bit ?b w")
    case True
    then have w': "w' = push_bit ?b ?t" using assms(1) by (simp add: trace_candidate_def)
    have u: "unat w' = unat ?t * 2 ^ ?b" unfolding w' using assms(4) l by (intro unat_push_bit_small) (simp_all add: clock_ok_def)
    have "unat w div 2 ^ ?b < unat ?t" using True by (simp add: word_less_nat_alt unat_drop_bit_div)
    then have "unat w < unat w'" unfolding u by (simp add: div_less_iff_less_mult)
    moreover have "drop_bit ?b w' = ?t" by (rule unsigned_word_eqI [where ?'a = nat]) (simp add: unat_drop_bit_div u)
    moreover have "w' AND mask ?s = 0" unfolding w' by (rule bit_word_eqI) (use l in \<open>auto simp: bit_simps\<close>)
    ultimately show ?thesis using True u m by (simp add: word_ok_def word_less_nat_alt)
  next
    case False
    then have w': "w' = w + 1" and lt: "w AND mask ?s < mask ?s"
      using assms(1) m by (simp_all add: trace_candidate_def split: if_splits)
    let ?r = "unat w mod 2 ^ ?b"
    have "?r < 2 ^ ?s" using assms(2) by (simp add: word_ok_def)
    moreover have "?r mod 2 ^ ?s = unat w mod 2 ^ ?s" using l(2) by (simp add: mod_mod_cancel le_imp_power_dvd)
    ultimately have r: "?r = unat w mod 2 ^ ?s" by simp
    moreover have "unat w mod 2 ^ ?s < 2 ^ ?s - 1"
      using lt l by (simp add: word_less_nat_alt unat_and_mask unat_mask_u64)
    ultimately have rl: "?r + 1 < 2 ^ ?s" by simp
    have sb: "(2 :: nat) ^ ?s \<le> 2 ^ ?b" using l(2) by (simp add: power_increasing)
    have "w \<noteq> - 1" using lt by auto
    then have u: "unat w' = unat w + 1" and lt': "w < w'"
      unfolding w' by (simp_all add: word_less_plus_1 unat_plus_1)
    have rb: "Suc ?r \<noteq> 2 ^ ?b" using rl sb by linarith
    have d: "(unat w + 1) mod 2 ^ ?b = ?r + 1" "(unat w + 1) div 2 ^ ?b = unat w div 2 ^ ?b"
      using rb by (simp_all add: mod_Suc div_Suc)
    have e: "(unat w + 1) mod 2 ^ ?s = unat w mod 2 ^ ?s + 1" using rl r by (simp add: mod_Suc)
    have "drop_bit ?b w' = drop_bit ?b w"
      by (rule unsigned_word_eqI [where ?'a = nat]) (simp only: unat_drop_bit_div u d)
    moreover have "w' AND mask ?s = (w AND mask ?s) + 1"
    proof (rule unsigned_word_eqI [where ?'a = nat])
      have "(w AND mask ?s) \<noteq> - 1" using lt by (metis word_order.extremum_strict)
      then have "unat ((w AND mask ?s) + 1) = unat (w AND mask ?s) + 1" by (rule unat_plus_1)
      then show "unat (w' AND mask ?s) = unat ((w AND mask ?s) + 1)" by (simp only: unat_and_mask u e)
    qed
    ultimately show ?thesis using lt' rl d m unfolding word_ok_def u by simp
  qed
qed

section \<open>Reachable generators\<close>

lemma shift_one_Inr: "shift_one n = Inr w \<Longrightarrow> unat n < 64 \<and> w - 1 = mask (unat n)"
  by (auto simp: shift_one_def mask_eq_exp_minus_1 push_bit_of_1 split: if_splits)

lemma init_gen_ok:
  assumes "tp_trace_id_generator_init rt now nb sb n off = Inr g"
  shows "gen_ok g n \<and> word_ok g (tg_timestamp_sequence g) \<and> tg_timestamp_offset_ms g = off"
proof -
  from assms obtain on os where on: "shift_one nb = Inr on" and os: "shift_one sb = Inr os"
    and le: "nb + sb \<le> 22" "n \<le> on - 1"
    and g: "g = \<lparr>tg_timestamp_sequence = 0, tg_node_id_bits = nb, tg_sequence_bits = sb,
              tg_node_id_and_sequence_bits = nb + sb, tg_max_node_id = on - 1,
              tg_max_sequence = os - 1, tg_node_bits = push_bit (unat sb) n, tg_timestamp_offset_ms = off\<rparr>"
    by (auto simp: tp_trace_id_generator_init_def Let_def res_simps trace_const_defs not_less)
  note n64 = shift_one_Inr [OF on] shift_one_Inr [OF os]
  have sum: "unat (nb + sb) = unat nb + unat sb" using n64 by (intro unat_add_lem [THEN iffD1]) simp
  have "unat n \<le> unat (mask (unat nb) :: u64)" using le(2) n64 by (simp add: word_le_nat_alt)
  moreover have "unat (mask (unat nb) :: u64) = 2 ^ unat nb - 1" by (rule unat_mask_u64) (use n64 in simp)
  moreover have "(0 :: nat) < 2 ^ unat nb" by simp
  ultimately have "unat n < 2 ^ unat nb" by linarith
  then show ?thesis using sum le(1) n64 by (simp add: gen_ok_def word_ok_def g word_le_nat_alt)
qed

text \<open>What holds of the shared word, of every thread and of the ids returned so far.\<close>

definition trace_inv :: "tp_trace_id_generator \<Rightarrow> trace_state \<Rightarrow> bool" where
  "trace_inv g st \<longleftrightarrow> word_ok g (ts_word st) \<and>
     (\<forall>t. case ts_thread st t of Looping \<Rightarrow> True | Loaded old \<Rightarrow> word_ok g old | Trying old new \<Rightarrow> word_ok g new \<and> old < new) \<and>
     sorted_wrt (<) (ts_ids st) \<and>
     (\<forall>i\<in>set (ts_ids st). i \<le> ts_word st OR tg_node_bits g \<and> (\<exists>w. word_ok g w \<and> i = w OR tg_node_bits g))"

lemma trace_inv_thread:
  "trace_inv g st \<Longrightarrow> (case pc of Looping \<Rightarrow> True | Loaded old \<Rightarrow> word_ok g old | Trying old new \<Rightarrow> word_ok g new \<and> old < new) \<Longrightarrow>
   trace_inv g (st\<lparr>ts_thread := (ts_thread st)(t := pc)\<rparr>)"
  by (simp add: trace_inv_def)

lemma id_mono:
  assumes "gen_ok g n" "word_ok g w" "word_ok g w'" "w < w'"
  shows "w OR tg_node_bits g < w' OR tg_node_bits g"
  using assms(4) unat_id [OF assms(2,1)] unat_id [OF assms(3,1)] by (simp add: word_less_nat_alt)

lemma trace_inv_step:
  assumes "trace_step g clocks st st'" "trace_inv g st" "gen_ok g n" "\<forall>c\<in>clocks. clock_ok g c"
  shows "trace_inv g st'"
  using assms(1)
proof cases
  case (t_try t old c new)
  have "word_ok g old" using assms(2) t_try(2) by (auto simp: trace_inv_def dest!: spec [of _ t])
  from candidate_ok [OF t_try(4) this assms(3)] assms(4) t_try(3) have "word_ok g new \<and> old < new" by blast
  then show ?thesis unfolding t_try(1) by (intro trace_inv_thread [OF assms(2)]) simp
next
  case (t_cas t old new)
  have new: "word_ok g new" "old < new" and old: "word_ok g old"
    using assms(2) t_cas(2,3) by (auto simp: trace_inv_def dest!: spec [of _ t])
  note lt = id_mono [OF assms(3) old new]
  have ids: "sorted_wrt (<) (ts_ids st)" "\<forall>i\<in>set (ts_ids st). i \<le> old OR tg_node_bits g \<and> (\<exists>w. word_ok g w \<and> i = w OR tg_node_bits g)"
    using assms(2) t_cas(3) by (auto simp: trace_inv_def)
  then have "\<forall>i\<in>set (ts_ids st). i < new OR tg_node_bits g" using lt by (meson order_le_less_trans)
  then have "sorted_wrt (<) (ts_ids st @ [new OR tg_node_bits g])"
    "\<forall>i\<in>set (ts_ids st @ [new OR tg_node_bits g]). i \<le> new OR tg_node_bits g \<and> (\<exists>w. word_ok g w \<and> i = w OR tg_node_bits g)"
    using ids new(1) by (auto simp: sorted_wrt_append less_imp_le)
  then show ?thesis using assms(2) new(1) unfolding t_cas(1) by (simp add: trace_inv_def)
qed (use assms(2) in \<open>auto intro!: trace_inv_thread simp: trace_inv_def\<close>)

lemma trace_reach_inv:
  assumes "trace_reach g clocks st" "gen_ok g n" "word_ok g (tg_timestamp_sequence g)" "\<forall>c\<in>clocks. clock_ok g c"
  shows "trace_inv g st"
  using assms(1)
proof induction
  case trace_start
  then show ?case using assms(3) by (simp add: trace_inv_def)
next
  case (trace_next st st')
  then show ?case using trace_inv_step assms(2,4) by blast
qed

lemma next_Some:
  "tp_trace_id_generator_next g rounds = Some (g', i) \<Longrightarrow>
     \<exists>c w. (c, True) \<in> set rounds \<and> trace_candidate g (tg_timestamp_sequence g) c = Some w \<and>
       g' = g\<lparr>tg_timestamp_sequence := w\<rparr> \<and> i = w OR tg_node_bits g"
  by (induction g rounds rule: tp_trace_id_generator_next.induct) (auto split: option.splits if_splits)

lemma next_None:
  "tp_trace_id_generator_next g rounds = None \<longleftrightarrow>
     (\<forall>(c, cas)\<in>set rounds. cas \<longrightarrow> trace_candidate g (tg_timestamp_sequence g) c = None)"
  by (induction g rounds rule: tp_trace_id_generator_next.induct) (auto split: option.splits)

section \<open>Properties of the generator\<close>

text \<open>
  C37: however many threads draw from a generator and however their steps interleave, the ids they
  get are strictly increasing in the order of their compare-and-swaps, hence never equal, and carry
  the generator's node, as long as the clock does not go before the offset or beyond the bits that
  are left for the timestamp.
\<close>

theorem trace_ids_increasing:
  assumes "tp_trace_id_generator_init rt now node_id_bits sequence_bits node_id offset = Inr g"
    and "\<forall>c\<in>clocks. unat (c - offset) < 2 ^ (64 - unat (tg_node_id_and_sequence_bits g))"
    and "trace_reach g clocks st"
  shows "sorted_wrt (<) (ts_ids st) \<and> distinct (ts_ids st) \<and>
    (\<forall>i\<in>set (ts_ids st). tp_trace_id_extract_node_id g i = node_id)"
proof -
  note g = init_gen_ok [OF assms(1)]
  have "trace_inv g st" by (rule trace_reach_inv [OF assms(3), of node_id]) (use g assms(2) in \<open>simp_all add: clock_ok_def\<close>)
  then have s: "sorted_wrt (<) (ts_ids st)" and w: "\<forall>i\<in>set (ts_ids st). \<exists>w. word_ok g w \<and> i = w OR tg_node_bits g"
    by (auto simp: trace_inv_def)
  moreover have "distinct (ts_ids st)" using s strict_sorted_iff by blast
  moreover have "tp_trace_id_extract_node_id g i = node_id" if "i \<in> set (ts_ids st)" for i
  proof -
    from w that obtain v where "word_ok g v" "i = v OR tg_node_bits g" by blast
    then show ?thesis using id_fields(2) [of g v node_id] g by simp
  qed
  ultimately show ?thesis by blast
qed

definition sample_generator :: tp_trace_id_generator where
  "sample_generator = \<lparr>tg_timestamp_sequence = 0, tg_node_id_bits = 10, tg_sequence_bits = 12,
     tg_node_id_and_sequence_bits = 22, tg_max_node_id = 1023, tg_max_sequence = 4095, tg_node_bits = 20480,
     tg_timestamp_offset_ms = 0\<rparr>"

lemma sample_generator_init: "tp_trace_id_generator_init_default 9000000 9000000 5 = Inr sample_generator"
  by code_simp

text \<open>Two threads load the same word; the first swaps it, the second fails, retries and gets the next id.\<close>

theorem trace_ids_increasing_witness:
  "\<exists>st. trace_reach sample_generator {9} st \<and> length (ts_ids st) = 2 \<and> sorted_wrt (<) (ts_ids st) \<and> distinct (ts_ids st)"
proof -
  let ?w = "0x2400000 :: u64"
  have c: "trace_candidate sample_generator 0 9 = Some ?w" "trace_candidate sample_generator ?w 9 = Some (?w + 1)" by code_simp+
  have i: "tp_trace_id_generator_init 9000000 9 10 12 5 0 = Inr sample_generator" by code_simp
  have k: "\<forall>c\<in>{9 :: u64}. unat (c - 0) < 2 ^ (64 - unat (tg_node_id_and_sequence_bits sample_generator))"
    by (simp add: sample_generator_def)
  let ?st = "\<lambda>w a b ids. \<lparr>ts_word = w, ts_thread = (\<lambda>_. Looping)(0 := a, 1 := b), ts_ids = ids\<rparr>"
  let ?i = "[?w OR tg_node_bits sample_generator, ?w + 1 OR tg_node_bits sample_generator]"
  note step = trace_next [where g = sample_generator and clocks = "{9}"]
  have "trace_reach sample_generator {9} (?st 0 Looping Looping [])"
    using trace_start [of sample_generator "{9}"] by (simp add: sample_generator_def fun_upd_idem)
  from step [OF this t_load [of _ 0]] have "trace_reach sample_generator {9} (?st 0 (Loaded 0) Looping [])" by (simp add: fun_upd_twist)
  from step [OF this t_load [of _ 1]] have "trace_reach sample_generator {9} (?st 0 (Loaded 0) (Loaded 0) [])" by (simp add: fun_upd_twist)
  from step [OF this t_try [of _ 0, OF _ _ c(1)]] have "trace_reach sample_generator {9} (?st 0 (Trying 0 ?w) (Loaded 0) [])" by (simp add: fun_upd_twist)
  from step [OF this t_try [of _ 1, OF _ _ c(1)]] have "trace_reach sample_generator {9} (?st 0 (Trying 0 ?w) (Trying 0 ?w) [])" by (simp add: fun_upd_twist)
  from step [OF this t_cas [of _ 0 0 ?w]] have "trace_reach sample_generator {9} (?st ?w Looping (Trying 0 ?w) [?i ! 0])" by (simp add: fun_upd_twist)
  from step [OF this t_fail [of _ 1]] have "trace_reach sample_generator {9} (?st ?w Looping Looping [?i ! 0])" by (simp add: fun_upd_twist)
  from step [OF this t_load [of _ 1]] have "trace_reach sample_generator {9} (?st ?w Looping (Loaded ?w) [?i ! 0])" by (simp add: fun_upd_twist)
  from step [OF this t_try [of _ 1, OF _ _ c(2)]] have "trace_reach sample_generator {9} (?st ?w Looping (Trying ?w (?w + 1)) [?i ! 0])" by (simp add: fun_upd_twist)
  from step [OF this t_cas [of _ 1]] have r: "trace_reach sample_generator {9} (?st (?w + 1) Looping Looping ?i)" by (simp add: fun_upd_twist)
  from trace_ids_increasing [OF i k r] r show ?thesis by (intro exI [of _ "?st (?w + 1) Looping Looping ?i"]) simp
qed

text \<open>
  C40: a call returns as soon as one of its swaps succeeds in a round where the clock has passed the
  last timestamp or the sequence is not used up, and the id it returns has the generator's node and
  either the clock's timestamp with sequence 0, later than every earlier id, or the last timestamp with
  the next sequence.
\<close>

theorem trace_next_spec:
  assumes "gen_ok g node_id" "word_ok g (tg_timestamp_sequence g)"
    and "\<forall>(c, cas)\<in>set rounds. clock_ok g c"
  defines "last_ms \<equiv> tp_trace_id_extract_timestamp g (tg_timestamp_sequence g)"
    and "last_seq \<equiv> tp_trace_id_extract_sequence g (tg_timestamp_sequence g)"
  shows "((\<exists>r. tp_trace_id_generator_next g rounds = Some r) \<longleftrightarrow>
      (\<exists>(c, cas)\<in>set rounds. cas \<and> (last_ms < c - tg_timestamp_offset_ms g \<or> last_seq < tg_max_sequence g))) \<and>
    (\<forall>g' i. tp_trace_id_generator_next g rounds = Some (g', i) \<longrightarrow>
      word_ok g' (tg_timestamp_sequence g') \<and> tg_timestamp_sequence g < tg_timestamp_sequence g' \<and>
      tp_trace_id_extract_node_id g i = node_id \<and>
      (tp_trace_id_extract_timestamp g i = last_ms \<and> tp_trace_id_extract_sequence g i = last_seq + 1 \<or>
       last_ms < tp_trace_id_extract_timestamp g i \<and> tp_trace_id_extract_sequence g i = 0 \<and>
       (\<exists>(c, cas)\<in>set rounds. tp_trace_id_extract_timestamp g i = c - tg_timestamp_offset_ms g)))"
proof -
  let ?w = "tg_timestamp_sequence g"
  have stuck: "trace_candidate g ?w c = None \<longleftrightarrow> \<not> (last_ms < c - tg_timestamp_offset_ms g \<or> last_seq < tg_max_sequence g)" for c
    by (simp add: trace_candidate_def last_ms_def last_seq_def tp_trace_id_extract_timestamp_def
        tp_trace_id_extract_sequence_def Let_def)
  have "(\<exists>r. tp_trace_id_generator_next g rounds = Some r) \<longleftrightarrow> tp_trace_id_generator_next g rounds \<noteq> None" by simp
  then have "(\<exists>r. tp_trace_id_generator_next g rounds = Some r) \<longleftrightarrow>
      (\<exists>(c, cas)\<in>set rounds. cas \<and> (last_ms < c - tg_timestamp_offset_ms g \<or> last_seq < tg_max_sequence g))"
    unfolding next_None stuck by (auto split: prod.splits)
  moreover have "word_ok g' (tg_timestamp_sequence g') \<and> ?w < tg_timestamp_sequence g' \<and>
      tp_trace_id_extract_node_id g i = node_id \<and>
      (tp_trace_id_extract_timestamp g i = last_ms \<and> tp_trace_id_extract_sequence g i = last_seq + 1 \<or>
       last_ms < tp_trace_id_extract_timestamp g i \<and> tp_trace_id_extract_sequence g i = 0 \<and>
       (\<exists>(c, cas)\<in>set rounds. tp_trace_id_extract_timestamp g i = c - tg_timestamp_offset_ms g))"
    if n: "tp_trace_id_generator_next g rounds = Some (g', i)" for g' i
  proof -
    from next_Some [OF n] obtain c w where w: "(c, True) \<in> set rounds" "trace_candidate g ?w c = Some w"
      "g' = g\<lparr>tg_timestamp_sequence := w\<rparr>" "i = w OR tg_node_bits g" by blast
    have c: "clock_ok g c" using assms(3) w(1) by auto
    note k = candidate_ok [OF w(2) assms(2,1) c]
    have "word_ok g' w" using k by (simp add: w(3) word_ok_def)
    with k id_fields [OF conjunct1 [OF k] assms(1)] w show ?thesis
      by (auto simp: last_ms_def last_seq_def tp_trace_id_extract_timestamp_def tp_trace_id_extract_sequence_def)
  qed
  ultimately show ?thesis by blast
qed

theorem trace_next_spec_witness:
  "\<exists>g' i. tp_trace_id_generator_next sample_generator [(0, True), (9, False), (9, True)] = Some (g', i) \<and>
     tp_trace_id_extract_node_id sample_generator i = 5"
proof -
  have g: "gen_ok sample_generator 5" "word_ok sample_generator (tg_timestamp_sequence sample_generator)"
    using init_gen_ok [OF sample_generator_init [unfolded tp_trace_id_generator_init_default_def]] by simp_all
  have c: "\<forall>(c, cas)\<in>set [(0, True), (9, False), (9, True)]. clock_ok sample_generator c"
    by (simp add: clock_ok_def sample_generator_def)
  show ?thesis using trace_next_spec [OF g c] by (auto simp: sample_generator_def tp_trace_id_extract_sequence_def)
qed

text \<open>
  The bit counts are added as \<open>uint8_t\<close>, so counts whose sum wraps pass the guard and reach
  an undefined shift instead of being refused.
\<close>

lemma trace_init_bits_wrap:
  "tp_trace_id_generator_init 9000000 9 200 60 0 0 = Inl (UB ''1ULL << n'')"
  by code_simp

end
