(* ===== verification/Tp_Frame.thy ===== *)
theory Tp_Frame
  imports Tp_Tensor_Codec Tp_Seqlock
begin

text \<open>
  The shared memory that a producer and its consumers map: the header ring, whose slots are read
  and written through the slot header flyweight (src/src/common/tp_slot.c), and the payload pools.
  A store of the producer is a value, so that the memory can be looked at between two stores.
\<close>

section \<open>Memory\<close>

text \<open>
  The fields of a header slot, as the generated SlotHeader accessors read and write them; the
  commit word is the first eight bytes. \<open>hs_header_bytes\<close> are the bytes after the length
  prefix \<open>hs_header_len\<close> of the variable-length field.
\<close>

record tp_slot =
  hs_seq_commit :: u64
  hs_values_len_bytes :: u32
  hs_payload_slot :: u32
  hs_pool_id :: u16
  hs_payload_offset :: u32
  hs_timestamp_ns :: u64
  hs_meta_version :: u32
  hs_header_len :: u32
  hs_header_bytes :: bytes

text \<open>
  The header region by the byte offset of a slot, and the payload regions by region and byte
  offset. Two mappings of the same region are the same memory.
\<close>

record shm =
  sh_slot :: "nat \<Rightarrow> tp_slot"
  sh_payload :: "nat \<Rightarrow> nat \<Rightarrow> u8"

record tp_payload_pool =
  pl_pool_id :: u16
  pl_nslots :: u32
  pl_stride_bytes :: u32
  pl_region :: nat

text \<open>
  The offset of a slot in its region. The products are products of \<open>uint32_t\<close> and wrap.
\<close>

definition tp_slot_at :: "u32 \<Rightarrow> nat" where
  "tp_slot_at index = unat TP_SUPERBLOCK_SIZE_BYTES + unat (index * TP_HEADER_SLOT_BYTES)"

definition payload_at :: "tp_payload_pool \<Rightarrow> u32 \<Rightarrow> nat" where
  "payload_at pool index = unat TP_SUPERBLOCK_SIZE_BYTES + unat (index * pl_stride_bytes pool)"

text \<open>The slot of a sequence number: \<open>(uint32_t)(seq & (header_nslots - 1))\<close>.\<close>

definition header_index_of :: "u32 \<Rightarrow> u64 \<Rightarrow> u32" where
  "header_index_of nslots seq = ucast (seq AND ucast (nslots - 1))"

definition tp_find_pool :: "tp_payload_pool list \<Rightarrow> u16 \<Rightarrow> tp_payload_pool option" where
  "tp_find_pool pools pool_id = find (\<lambda>pool. pl_pool_id pool = pool_id) pools"

section \<open>Stores\<close>

datatype slot_field =
    F_valuesLenBytes u32
  | F_payloadSlot u32
  | F_poolId u16
  | F_payloadOffset u32
  | F_timestampNs u64
  | F_metaVersion u32
  | F_pad
  | F_headerLength u32
  | F_headerBytes bytes

datatype store =
    StoreCommit nat u64 \<comment> \<open>\<open>tp_atomic_store_u64((uint64_t *)slot, v)\<close>\<close>
  | StoreField nat slot_field
  | StorePayload nat nat bytes \<comment> \<open>\<open>memcpy\<close> to an offset of a payload region\<close>

primrec set_field :: "slot_field \<Rightarrow> tp_slot \<Rightarrow> tp_slot" where
  "set_field (F_valuesLenBytes v) s = s\<lparr>hs_values_len_bytes := v\<rparr>"
| "set_field (F_payloadSlot v) s = s\<lparr>hs_payload_slot := v\<rparr>"
| "set_field (F_poolId v) s = s\<lparr>hs_pool_id := v\<rparr>"
| "set_field (F_payloadOffset v) s = s\<lparr>hs_payload_offset := v\<rparr>"
| "set_field (F_timestampNs v) s = s\<lparr>hs_timestamp_ns := v\<rparr>"
| "set_field (F_metaVersion v) s = s\<lparr>hs_meta_version := v\<rparr>"
| "set_field F_pad s = s"
| "set_field (F_headerLength v) s = s\<lparr>hs_header_len := v\<rparr>"
| "set_field (F_headerBytes b) s = s\<lparr>hs_header_bytes := b\<rparr>"

definition put_bytes :: "nat \<Rightarrow> bytes \<Rightarrow> (nat \<Rightarrow> u8) \<Rightarrow> nat \<Rightarrow> u8" where
  "put_bytes off b m = (\<lambda>i. if off \<le> i \<and> i < off + length b then b ! (i - off) else m i)"

primrec apply_store :: "store \<Rightarrow> shm \<Rightarrow> shm" where
  "apply_store (StoreCommit a v) m = m\<lparr>sh_slot := (sh_slot m)(a := (sh_slot m a)\<lparr>hs_seq_commit := v\<rparr>)\<rparr>"
| "apply_store (StoreField a f) m = m\<lparr>sh_slot := (sh_slot m)(a := set_field f (sh_slot m a))\<rparr>"
| "apply_store (StorePayload r off b) m = m\<lparr>sh_payload := (sh_payload m)(r := put_bytes off b (sh_payload m r))\<rparr>"

definition apply_stores :: "store list \<Rightarrow> shm \<Rightarrow> shm" where
  "apply_stores ss m = fold apply_store ss m"

text \<open>What a reader finds at a pointer into a payload region.\<close>

definition load_payload :: "shm \<Rightarrow> nat \<times> nat \<Rightarrow> nat \<Rightarrow> bytes" where
  "load_payload m p n = map (\<lambda>i. sh_payload m (fst p) (snd p + i)) [0..<n]"

section \<open>Reading a slot\<close>

record tp_slot_view =
  sv_seq_commit :: u64
  sv_values_len_bytes :: u32
  sv_payload_slot :: u32
  sv_pool_id :: u16
  sv_payload_offset :: u32
  sv_timestamp_ns :: u64
  sv_meta_version :: u32
  sv_header_bytes_length :: u32
  sv_header_bytes :: bytes

text \<open>
  \<open>header_bytes_of\<close> is the generated accessor of the variable-length field \<open>headerBytes\<close>;
  it returns NULL when the announced length does not fit the buffer.
\<close>

definition tp_slot_decode :: "(tp_slot \<Rightarrow> bytes option) \<Rightarrow> tp_slot \<Rightarrow> u32 \<Rightarrow> tp_slot_view res" where
  "tp_slot_decode header_bytes_of slot slot_length =
     guard (slot_length < TP_HEADER_SLOT_BYTES) (EINVAL ''tp_slot_decode: slot too small'')
     (case header_bytes_of slot of
        None \<Rightarrow> Inl (EINVAL ''tp_slot_decode: headerBytes missing'')
      | Some header_bytes \<Rightarrow>
          Inr \<lparr>sv_seq_commit = hs_seq_commit slot, sv_values_len_bytes = hs_values_len_bytes slot,
               sv_payload_slot = hs_payload_slot slot, sv_pool_id = hs_pool_id slot,
               sv_payload_offset = hs_payload_offset slot, sv_timestamp_ns = hs_timestamp_ns slot,
               sv_meta_version = hs_meta_version slot, sv_header_bytes_length = hs_header_len slot,
               sv_header_bytes = header_bytes\<rparr>)"

text \<open>
  What the sources rely on: a header of at most 192 bytes, the rest of a slot after its block of
  60 bytes and the length prefix, is returned as it was written.
\<close>

locale slot_accessor =
  fixes header_bytes_of :: "tp_slot \<Rightarrow> bytes option"
  assumes header_bytes_written:
    "unat (hs_header_len slot) = length (hs_header_bytes slot) \<Longrightarrow> length (hs_header_bytes slot) \<le> 192 \<Longrightarrow>
     header_bytes_of slot = Some (hs_header_bytes slot)"
begin

lemma slot_decode_written:
  assumes "unat (hs_header_len slot) = length (hs_header_bytes slot)" "length (hs_header_bytes slot) \<le> 192"
  shows "tp_slot_decode header_bytes_of slot TP_HEADER_SLOT_BYTES =
    Inr \<lparr>sv_seq_commit = hs_seq_commit slot, sv_values_len_bytes = hs_values_len_bytes slot,
         sv_payload_slot = hs_payload_slot slot, sv_pool_id = hs_pool_id slot,
         sv_payload_offset = hs_payload_offset slot, sv_timestamp_ns = hs_timestamp_ns slot,
         sv_meta_version = hs_meta_version slot, sv_header_bytes_length = hs_header_len slot,
         sv_header_bytes = hs_header_bytes slot\<rparr>"
  by (simp add: tp_slot_decode_def header_bytes_written [OF assms])

end

definition slot_header_bytes :: "tp_slot \<Rightarrow> bytes option" where
  "slot_header_bytes slot =
     (if 64 + unat (hs_header_len slot) \<le> unat TP_HEADER_SLOT_BYTES
      then Some (take (unat (hs_header_len slot)) (hs_header_bytes slot)) else None)"

interpretation sbe_slot: slot_accessor slot_header_bytes
  by unfold_locales (simp add: slot_header_bytes_def TP_HEADER_SLOT_BYTES_def)

section \<open>Lemmas on the memory\<close>

lemma apply_stores_simps [simp]:
  "apply_stores [] m = m"
  "apply_stores (s # ss) m = apply_stores ss (apply_store s m)"
  "apply_stores (ss @ ts) m = apply_stores ts (apply_stores ss m)"
  by (simp_all add: apply_stores_def)

lemma put_bytes_other: "i < off \<or> off + length b \<le> i \<Longrightarrow> put_bytes off b m i = m i"
  by (auto simp: put_bytes_def)

lemma load_put_same:
  "length b = n \<Longrightarrow> load_payload (m\<lparr>sh_payload := f(r := put_bytes off b g)\<rparr>) (r, off) n = b"
  by (auto simp: load_payload_def put_bytes_def intro: nth_equalityI)

text \<open>The slot index is in range when the number of slots is not zero.\<close>

lemma unat_header_index:
  assumes "n \<noteq> 0"
  shows "unat (header_index_of n s) < unat n"
proof -
  have "unat (s AND ucast (n - 1)) \<le> unat (ucast (n - 1) :: u64)"
    unfolding word_le_nat_alt [symmetric] by (rule word_and_le1)
  then have le: "unat (s AND ucast (n - 1)) \<le> unat (n - 1)" by simp
  moreover have "unat (n - 1) < unat n" using assms by (simp add: unat_minus_one unat_gt_0)
  moreover have "unat (header_index_of n s) = unat (s AND ucast (n - 1))"
    unfolding header_index_of_def unsigned_ucast_eq
    by (rule take_bit_nat_eq_self) (use order_le_less_trans [OF le unat_bounds(3)] in simp)
  ultimately show ?thesis by simp
qed

text \<open>
  The attach code refuses a slot count that is not a power of two; then the slot of a sequence
  number is its remainder, and two sequence numbers less than a ring apart have different slots.
\<close>

definition tp_is_power_of_two :: "u32 \<Rightarrow> bool" where
  "tp_is_power_of_two v \<longleftrightarrow> v \<noteq> 0 \<and> v AND (v - 1) = 0"

lemma power_of_two_exp:
  assumes "tp_is_power_of_two v"
  obtains k where "k < 32" "unat v = 2 ^ k"
proof -
  have v: "v \<noteq> 0" "v AND (v - 1) = 0" using assms by (simp_all add: tp_is_power_of_two_def)
  then have "unat v AND unat (v - 1) = 0" by (simp flip: unsigned_and_eq)
  then have "0 < unat v" "unat v AND (unat v - 1) = 0" using v(1) by (simp_all add: unat_gt_0 unat_minus_one)
  then obtain k where k: "unat v = 2 ^ k" using nat_power_of_two by blast
  then have "(2 :: nat) ^ k < 2 ^ 32" using unat_bounds(3) [of v] by simp
  then have "k < 32" by (simp only: power_strict_increasing_iff one_less_numeral_iff semiring_norm)
  with k that show ?thesis by blast
qed

lemma header_index_mod:
  assumes "tp_is_power_of_two n"
  shows "unat (header_index_of n s) = unat s mod unat n"
proof -
  obtain k where k: "k < 32" "unat n = 2 ^ k" using power_of_two_exp [OF assms] .
  have "unat (n - 1) = 2 ^ k - 1" using assms k by (simp add: tp_is_power_of_two_def unat_minus_one)
  then have "unat (ucast (n - 1) :: u64) = mask k" by (simp add: mask_eq_exp_minus_1)
  then have "unat (s AND ucast (n - 1)) = unat s mod 2 ^ k"
    by (simp only: unsigned_and_eq) (simp add: take_bit_eq_mask [symmetric] take_bit_eq_mod)
  moreover have "unat s mod 2 ^ k < 2 ^ 32"
    using k(1) by (intro order_less_le_trans [OF mod_less_divisor power_increasing]) simp_all
  ultimately show ?thesis
    unfolding header_index_of_def using k by (simp add: unsigned_ucast_eq take_bit_nat_eq_self)
qed

end
