(* ===== verification/Tp_Descriptor.thy ===== *)
theory Tp_Descriptor
  imports Tp_Sbe
begin

text \<open>
  The FrameDescriptor message: how the producer writes it (tp_producer_publish_descriptor_to in
  src/src/client/tp_producer.c) and how the consumer reads it (tp_consumer_descriptor_handler in
  src/src/client/tp_consumer.c).
\<close>

section \<open>Wire form\<close>

record tp_frame_descriptor =
  fd_seq :: u64
  fd_timestamp_ns :: u64
  fd_meta_version :: u32
  fd_trace_id :: u64

definition descriptor_fields :: "sbe \<Rightarrow> u32 \<Rightarrow> u64 \<Rightarrow> tp_frame_descriptor \<Rightarrow> (string \<times> u64) list" where
  "descriptor_fields C stream_id epoch d =
     (let encoded_timestamp = (if fd_timestamp_ns d = TP_NULL_U64 then sbe_null C ''timestampNs'' else fd_timestamp_ns d);
          encoded_meta_version = (if fd_meta_version d = TP_NULL_U32 then sbe_null C ''metaVersion'' else ucast (fd_meta_version d))
      in [(''streamId'', ucast stream_id), (''epoch'', epoch), (''seq'', fd_seq d), (''timestampNs'', encoded_timestamp),
          (''metaVersion'', encoded_meta_version), (''traceId'', fd_trace_id d)])"

text \<open>The message that is offered: the header and the block of a 256-byte buffer.\<close>

definition descriptor_message :: "sbe \<Rightarrow> u32 \<Rightarrow> u64 \<Rightarrow> tp_frame_descriptor \<Rightarrow> bytes" where
  "descriptor_message C stream_id epoch d =
     take (sbe_header_length C + unat (sbe_block_length C))
       (sbe_put_block C (descriptor_fields C stream_id epoch d) (sbe_put_header C (replicate 256 0)))"

text \<open>
  The head of the consumer's handler: \<open>None\<close> for a fragment that is not a FrameDescriptor. The
  version and the block length of the fragment are not looked at.
\<close>

definition descriptor_decode :: "sbe \<Rightarrow> bytes \<Rightarrow> (u32 \<times> u64 \<times> tp_frame_descriptor) option" where
  "descriptor_decode C b =
     (if length b < sbe_header_length C then None
      else if ucast (sbe_get C (Hdr ''schemaId'') b) \<noteq> sbe_schema_id C \<or>
              ucast (sbe_get C (Hdr ''templateId'') b) \<noteq> sbe_template_id C then None
      else Some (ucast (sbe_get C (Fld ''streamId'') b), sbe_get C (Fld ''epoch'') b,
        \<lparr>fd_seq = sbe_get C (Fld ''seq'') b, fd_timestamp_ns = sbe_get C (Fld ''timestampNs'') b,
         fd_meta_version = ucast (sbe_get C (Fld ''metaVersion'') b), fd_trace_id = sbe_get C (Fld ''traceId'') b\<rparr>))"

section \<open>Round trip\<close>

locale descriptor_codec = message_codec +
  assumes descriptor_known: "nm \<in> {''streamId'', ''epoch'', ''seq'', ''timestampNs'', ''metaVersion'', ''traceId''} \<Longrightarrow>
      known (Fld nm) \<and> extent (Fld nm) \<le> sbe_header_length C + unat (sbe_block_length C)"
    and descriptor_widths: "width (Fld ''streamId'') = 32" "width (Fld ''epoch'') = 64" "width (Fld ''seq'') = 64"
      "width (Fld ''timestampNs'') = 64" "width (Fld ''metaVersion'') = 32" "width (Fld ''traceId'') = 64"
    and descriptor_nulls: "sbe_null C ''timestampNs'' = TP_NULL_U64" "sbe_null C ''metaVersion'' = ucast TP_NULL_U32"
    and descriptor_size: "sbe_header_length C + unat (sbe_block_length C) \<le> 256"
begin

lemma descriptor_roundtrip:
  "descriptor_decode C (descriptor_message C stream_id epoch d) = Some (stream_id, epoch, d)"
proof -
  let ?kvs = "descriptor_fields C stream_id epoch d" and ?n = "sbe_header_length C + unat (sbe_block_length C)"
  let ?b = "sbe_put_block C ?kvs (sbe_put_header C (replicate 256 0))"
  have kvs: "?kvs = [(''streamId'', ucast stream_id), (''epoch'', epoch), (''seq'', fd_seq d), (''timestampNs'', fd_timestamp_ns d),
      (''metaVersion'', ucast (fd_meta_version d)), (''traceId'', fd_trace_id d)]"
    by (simp add: descriptor_fields_def descriptor_nulls)
  have ok: "block_ok ?kvs" unfolding kvs by (simp add: block_ok_def descriptor_known descriptor_widths)
  have ext: "\<forall>(nm, v)\<in>set ?kvs. extent (Fld nm) \<le> length (replicate 256 (0 :: u8))"
    "sbe_header_length C \<le> length (replicate 256 (0 :: u8))"
    using descriptor_size order_trans [OF conjunct2 [OF descriptor_known]] unfolding kvs by auto
  note w = block_written [OF ok ext]
  have flds: "sbe_get C (Fld nm) (take ?n ?b) = v" if "(nm, v) \<in> set ?kvs" for nm v
  proof -
    have "nm \<in> {''streamId'', ''epoch'', ''seq'', ''timestampNs'', ''metaVersion'', ''traceId''}" using that unfolding kvs by auto
    from descriptor_known [OF this] w(3) [OF that] show ?thesis by (simp add: get_take)
  qed
  define m where "m = take ?n ?b"
  have ok: "header_ok C m" unfolding m_def by (rule header_ok_take [OF w(2)]) simp
  have "sbe_get C (Fld nm) m = v" if "(nm, v) \<in> set ?kvs" for nm v unfolding m_def by (rule flds [OF that])
  note got = this [unfolded kvs]
  have "descriptor_decode C m = Some (stream_id, epoch, d)"
    using ok got [of "''streamId''"] got [of "''epoch''"] got [of "''seq''"] got [of "''timestampNs''"]
      got [of "''metaVersion''"] got [of "''traceId''"]
    by (simp add: descriptor_decode_def header_ok_def not_less)
  then show ?thesis by (simp add: m_def descriptor_message_def)
qed

end

definition frame_descriptor_layout :: sbe_layout where
  "frame_descriptor_layout =
     \<lparr>ly_template = 4, ly_schema = 900, ly_version = 1,
      ly_block = [(''streamId'', 4, 1), (''epoch'', 8, 1), (''seq'', 8, 1), (''timestampNs'', 8, 1), (''metaVersion'', 4, 1), (''traceId'', 8, 1)],
      ly_group = [], ly_enums = [],
      ly_nulls = [(''timestampNs'', 0xFFFFFFFFFFFFFFFF), (''metaVersion'', 0xFFFFFFFF), (''traceId'', 0)]\<rparr>"

interpretation fdesc: descriptor_codec "le_codec frame_descriptor_layout" "le_width frame_descriptor_layout"
  "le_known frame_descriptor_layout" "le_extent frame_descriptor_layout"
  by (intro descriptor_codec.intro message_codec_le descriptor_codec_axioms.intro)
    (auto simp: layout_eval frame_descriptor_layout_def TP_NULL_U32_def)

end
