(* ===== verification/Tp_Producer.thy ===== *)
theory Tp_Producer
  imports Tp_Frame Tp_Descriptor Tp_Consumer_Registry Tp_Trace
begin

text \<open>
  The producer's data path (src/src/client/tp_producer.c): choosing a pool, writing a frame into its
  slot in the order of the commit protocol, announcing it with descriptors, and the claims that let
  an application fill a payload in place. The clock, the trace generator's rounds and Aeron's offer
  are parameters, collected in the record \<open>tp_env\<close>.
\<close>

section \<open>State\<close>

record tp_tracelink_entry =
  te_seq :: u64
  te_trace_id :: u64

text \<open>
  The fields of the producer and of its context that the data path uses. A NULL array of trace link
  entries is the empty list; \<open>pr_header_mapped\<close> is \<open>header_region.addr != NULL\<close>.
\<close>

record tp_producer =
  pr_pools :: "tp_payload_pool list"
  pr_stream_id :: u32
  pr_epoch :: u64
  pr_header_nslots :: u32
  pr_header_mapped :: bool
  pr_next_seq :: u64
  pr_use_driver :: bool
  pr_fixed_pool_mode :: bool
  pr_drop_unconnected_descriptors :: bool
  pr_publish_descriptor_timestamp :: bool
  pr_descriptor_publication :: "publication option"
  pr_control_publication :: "publication option"
  pr_consumer_manager :: "tp_consumer_manager option"
  pr_trace_id_generator :: "tp_trace_id_generator option"
  pr_tracelink_entries :: "tp_tracelink_entry list"
  pr_next_attach_ns :: u64
  pr_attach_failures :: u32
  pr_reattach_requested :: bool

text \<open>
  \<open>en_offer\<close> is \<open>aeron_publication_offer\<close> and \<open>en_not_connected\<close> the code it returns
  for a publication without subscribers. The three clock readings are those of the slot timestamp,
  of the descriptor timestamp and of the rate limiter.
\<close>

record tp_env =
  en_tensor :: sbe
  en_descriptor :: sbe
  en_offer :: "publication \<Rightarrow> bytes \<Rightarrow> int"
  en_not_connected :: int
  en_slot_now_ns :: u64
  en_descriptor_now_ns :: u64
  en_now_ns :: u64
  en_trace_rounds :: "(u64 \<times> bool) list"

record tp_frame_metadata =
  fm_timestamp_ns :: u64
  fm_meta_version :: u32

record tp_frame =
  fr_tensor :: tp_tensor_header
  fr_payload :: bytes
  fr_trace_id :: u64

text \<open>A pointer into a payload region is the region and the byte offset.\<close>

record tp_buffer_claim =
  cl_seq :: u64
  cl_header_index :: u32
  cl_pool_id :: u16
  cl_payload_len :: u32
  cl_payload :: "nat \<times> nat"
  cl_trace_id :: u64
  cl_tensor :: tp_tensor_header

definition TP_MODE_RATE_LIMITED :: u8 where "TP_MODE_RATE_LIMITED = 2"
definition TP_ADMIN_ACTION :: int where "TP_ADMIN_ACTION = - 4"

section \<open>Pools and trace ids\<close>

text \<open>The first pool of the smallest stride that holds the payload.\<close>

fun find_pool_loop :: "nat \<Rightarrow> tp_payload_pool list \<Rightarrow> tp_payload_pool option \<Rightarrow> tp_payload_pool option" where
  "find_pool_loop len [] best = best"
| "find_pool_loop len (pool # ps) best =
     (if len \<le> unat (pl_stride_bytes pool) then
        (case best of
           None \<Rightarrow> find_pool_loop len ps (Some pool)
         | Some b \<Rightarrow> find_pool_loop len ps (if pl_stride_bytes pool < pl_stride_bytes b then Some pool else best))
      else find_pool_loop len ps best)"

definition tp_find_pool_for_length :: "tp_producer \<Rightarrow> nat \<Rightarrow> tp_payload_pool option" where
  "tp_find_pool_for_length producer len = find_pool_loop len (pr_pools producer) None"

definition tracelink_index :: "tp_producer \<Rightarrow> u64 \<Rightarrow> nat" where
  "tracelink_index producer seq = unat (seq AND ucast (pr_header_nslots producer - 1))"

definition tp_producer_record_tracelink_descriptor :: "tp_producer \<Rightarrow> u64 \<Rightarrow> u64 \<Rightarrow> tp_producer" where
  "tp_producer_record_tracelink_descriptor producer seq trace_id =
     (if pr_tracelink_entries producer = [] \<or> pr_header_nslots producer = 0 then producer
      else producer\<lparr>pr_tracelink_entries := (pr_tracelink_entries producer)
        [tracelink_index producer seq := \<lparr>te_seq = seq, te_trace_id = trace_id\<rparr>]\<rparr>)"

definition tp_producer_init_tracelink_entries :: "bool \<Rightarrow> tp_producer \<Rightarrow> tp_producer \<times> unit res" where
  "tp_producer_init_tracelink_entries alloc_ok producer =
     (if pr_header_nslots producer = 0 then (producer, Inr ())
      else if \<not> alloc_ok then (producer\<lparr>pr_tracelink_entries := []\<rparr>, Inl FAIL)
      else (producer\<lparr>pr_tracelink_entries := replicate (unat (pr_header_nslots producer)) \<lparr>te_seq = TP_NULL_U64, te_trace_id = 0\<rparr>,
        pr_reattach_requested := False, pr_attach_failures := 0, pr_next_attach_ns := 0\<rparr>, Inr ()))"

definition tp_producer_default_tracelink_validator :: "tp_producer \<Rightarrow> u64 \<Rightarrow> u64 \<Rightarrow> unit res" where
  "tp_producer_default_tracelink_validator producer seq trace_id =
     guard (pr_tracelink_entries producer = [] \<or> pr_header_nslots producer = 0)
       (EINVAL ''tp_producer_tracelink_validate: trace history unavailable'')
     (let entry = pr_tracelink_entries producer ! tracelink_index producer seq in
      guard (te_seq entry \<noteq> seq \<or> te_trace_id entry \<noteq> trace_id)
        (EINVAL ''tp_producer_tracelink_validate: descriptor mismatch'') (Inr ()))"

text \<open>\<open>None\<close>: the generator is still in its loop after the given rounds.\<close>

definition tp_producer_resolve_trace_id ::
  "tp_env \<Rightarrow> tp_producer \<Rightarrow> u64 \<Rightarrow> (tp_producer \<times> u64) res option" where
  "tp_producer_resolve_trace_id env producer requested_trace_id =
     (case pr_trace_id_generator producer of
        Some g \<Rightarrow>
          if requested_trace_id = 0 then
            map_option (\<lambda>(g', trace_id).
                if trace_id = 0 then Inl FAIL else Inr (producer\<lparr>pr_trace_id_generator := Some g'\<rparr>, trace_id))
              (tp_trace_id_generator_next g (en_trace_rounds env))
          else Some (Inr (producer, requested_trace_id))
      | None \<Rightarrow> Some (Inr (producer, requested_trace_id)))"

section \<open>Descriptors\<close>

definition tp_producer_publish_descriptor_to :: "tp_env \<Rightarrow> tp_producer \<Rightarrow> publication \<Rightarrow> tp_frame_descriptor \<Rightarrow> int" where
  "tp_producer_publish_descriptor_to env producer pub d =
     (let result = en_offer env pub (descriptor_message (en_descriptor env) (pr_stream_id producer) (pr_epoch producer) d)
      in if result < 0 then result else 0)"

text \<open>
  What the loop over the consumers has so far: \<open>result\<close>, \<open>published\<close> and
  \<open>published_ok\<close> of the code, and the publications that took the message.
\<close>

record descriptor_acc =
  da_result :: int
  da_published :: bool
  da_published_ok :: bool
  da_sent :: "publication list"

definition offer_descriptor ::
  "tp_env \<Rightarrow> tp_producer \<Rightarrow> tp_frame_descriptor \<Rightarrow> publication \<Rightarrow> descriptor_acc \<Rightarrow> descriptor_acc" where
  "offer_descriptor env producer d pub acc =
     (let offer_result = tp_producer_publish_descriptor_to env producer pub d
      in if offer_result = en_not_connected env \<and> pr_drop_unconnected_descriptors producer
         then acc\<lparr>da_published := True\<rparr>
         else if offer_result < 0 then acc\<lparr>da_result := - 1, da_published := True\<rparr>
         else acc\<lparr>da_published_ok := True, da_published := True, da_sent := da_sent acc @ [pub]\<rparr>)"

text \<open>The rate limiter of one consumer: \<open>None\<close> when the descriptor is skipped.\<close>

definition descriptor_due :: "u64 \<Rightarrow> tp_consumer_entry \<Rightarrow> tp_consumer_entry option" where
  "descriptor_due now_ns entry =
     (if ce_mode entry = TP_MODE_RATE_LIMITED \<and> ce_max_rate_hz entry > 0 then
        (let interval_ns = 1000000000 div ucast (ce_max_rate_hz entry)
         in if interval_ns > 0 \<and> ce_last_descriptor_ns entry \<noteq> 0 \<and> now_ns - ce_last_descriptor_ns entry < interval_ns
            then None else Some (entry\<lparr>ce_last_descriptor_ns := now_ns\<rparr>))
      else Some entry)"

fun descriptor_loop ::
  "tp_env \<Rightarrow> tp_producer \<Rightarrow> tp_frame_descriptor \<Rightarrow> tp_consumer_entry list \<Rightarrow> descriptor_acc \<Rightarrow>
   tp_consumer_entry list \<times> descriptor_acc" where
  "descriptor_loop env producer d [] acc = ([], acc)"
| "descriptor_loop env producer d (entry # es) acc =
     (case (if ce_in_use entry then ce_descriptor_publication entry else None) of
        None \<Rightarrow> apfst ((#) entry) (descriptor_loop env producer d es acc)
      | Some pub \<Rightarrow>
        (case descriptor_due (en_now_ns env) entry of
           None \<Rightarrow> apfst ((#) entry) (descriptor_loop env producer d es acc)
         | Some entry \<Rightarrow> apfst ((#) entry) (descriptor_loop env producer d es (offer_descriptor env producer d pub acc))))"

definition tp_producer_publish_descriptor ::
  "tp_env \<Rightarrow> tp_producer \<Rightarrow> tp_frame_descriptor \<Rightarrow> tp_producer \<times> publication list \<times> unit res" where
  "tp_producer_publish_descriptor env producer d =
     (let acc = \<lparr>da_result = 0, da_published = False, da_published_ok = False, da_sent = []\<rparr>;
          (producer, acc) =
            (case pr_consumer_manager producer of
               None \<Rightarrow> (producer, acc)
             | Some m \<Rightarrow>
                 (case descriptor_loop env producer d (cr_entries (cm_registry m)) acc of
                    (es, acc) \<Rightarrow> (producer\<lparr>pr_consumer_manager :=
                      Some (m\<lparr>cm_registry := (cm_registry m)\<lparr>cr_entries := es\<rparr>\<rparr>)\<rparr>, acc)));
          acc = (case pr_descriptor_publication producer of
                   None \<Rightarrow> acc | Some pub \<Rightarrow> offer_descriptor env producer d pub acc)
      in if \<not> da_published acc
         then (producer, [], Inl (EINVAL ''tp_producer_publish_descriptor: descriptor publication unavailable''))
         else (if da_published_ok acc then tp_producer_record_tracelink_descriptor producer (fd_seq d) (fd_trace_id d)
               else producer,
               da_sent acc, if da_result acc < 0 then Inl FAIL else Inr ()))"

section \<open>Publishing a frame\<close>

definition slot_timestamp :: "tp_env \<Rightarrow> u64 \<Rightarrow> u64" where
  "slot_timestamp env timestamp_ns =
     (if timestamp_ns = 0 \<or> timestamp_ns = TP_NULL_U64 then en_slot_now_ns env else timestamp_ns)"

text \<open>
  The stores of publish_frame before it encodes the tensor header, and those after it, up to the
  commit. Clearing the padding and flushing the payload change nothing that is read.
\<close>

definition frame_head_stores ::
  "tp_payload_pool \<Rightarrow> u32 \<Rightarrow> u64 \<Rightarrow> bytes \<Rightarrow> u16 \<Rightarrow> u64 \<Rightarrow> u32 \<Rightarrow> store list" where
  "frame_head_stores pool header_index seq payload pool_id slot_timestamp_ns meta_version =
     (let slot = tp_slot_at header_index in
      [StoreCommit slot (tp_seq_in_progress seq)] @
      (if length payload > 0 then [StorePayload (pl_region pool) (payload_at pool header_index) payload] else []) @
      [StoreField slot (F_valuesLenBytes (of_nat (length payload))),
       StoreField slot (F_payloadSlot header_index),
       StoreField slot (F_poolId pool_id),
       StoreField slot (F_payloadOffset 0),
       StoreField slot (F_timestampNs slot_timestamp_ns),
       StoreField slot (F_metaVersion meta_version),
       StoreField slot F_pad])"

definition frame_tail_stores :: "u32 \<Rightarrow> u64 \<Rightarrow> bytes \<Rightarrow> store list" where
  "frame_tail_stores header_index seq header_bytes =
     (let slot = tp_slot_at header_index in
      [StoreField slot (F_headerLength (of_nat (length header_bytes))),
       StoreField slot (F_headerBytes header_bytes),
       StoreCommit slot (tp_seq_committed seq)])"

text \<open>
  The producer, the stores in their order, the publications that took the descriptor, and the
  return value. The payload is given by its bytes; its length is a \<open>uint32_t\<close> in the code.
\<close>

definition tp_producer_publish_frame ::
  "tp_env \<Rightarrow> tp_producer \<Rightarrow> u64 \<Rightarrow> tp_tensor_header \<Rightarrow> bytes \<Rightarrow> u16 \<Rightarrow> u64 \<Rightarrow> u32 \<Rightarrow> u64 \<Rightarrow>
   tp_producer \<times> store list \<times> publication list \<times> unit res" where
  "tp_producer_publish_frame env producer seq tensor payload pool_id timestamp_ns meta_version trace_id =
     (if pr_header_nslots producer = 0 \<or> length (pr_pools producer) = 0 \<or> \<not> pr_header_mapped producer
      then (producer, [], [], Inl (EINVAL ''tp_producer_publish_frame: producer not attached''))
      else let header_index = header_index_of (pr_header_nslots producer) seq in
      case tp_find_pool (pr_pools producer) pool_id of
        None \<Rightarrow> (producer, [], [], Inl (EINVAL ''tp_producer_publish_frame: unknown pool id''))
      | Some pool \<Rightarrow>
      if length payload > unat (pl_stride_bytes pool)
      then (producer, [], [], Inl (EINVAL ''tp_producer_publish_frame: payload too large for pool''))
      else case tp_prepare_tensor_header tensor of
        Inl e \<Rightarrow> (producer, [], [], Inl e)
      | Inr prepared_tensor \<Rightarrow>
      let head = frame_head_stores pool header_index seq payload pool_id (slot_timestamp env timestamp_ns) meta_version in
      case tp_encode_tensor_header (en_tensor env) (unat TP_HEADER_SLOT_BYTES) prepared_tensor of
        Inl e \<Rightarrow> (producer, head, [], Inl e)
      | Inr header_bytes \<Rightarrow>
      let header_len = sbe_header_length (en_tensor env) + unat (sbe_block_length (en_tensor env));
          stores = head @ frame_tail_stores header_index seq (take header_len header_bytes);
          descriptor_timestamp_ns = (if pr_publish_descriptor_timestamp producer then en_descriptor_now_ns env else TP_NULL_U64)
      in case tp_producer_publish_descriptor env producer
           \<lparr>fd_seq = seq, fd_timestamp_ns = descriptor_timestamp_ns, fd_meta_version = meta_version, fd_trace_id = trace_id\<rparr> of
           (producer, sent, r) \<Rightarrow> (producer, stores, sent, r))"

text \<open>A missing \<open>meta\<close> argument is \<open>None\<close>. The outer \<open>None\<close> is the trace generator's.\<close>

definition tp_producer_offer_frame ::
  "tp_env \<Rightarrow> tp_producer \<Rightarrow> tp_frame \<Rightarrow> tp_frame_metadata option \<Rightarrow>
   (tp_producer \<times> store list \<times> publication list \<times> u64 res) option" where
  "tp_producer_offer_frame env producer frame meta =
     (if pr_header_nslots producer = 0 \<or> length (pr_pools producer) = 0 \<or> \<not> pr_header_mapped producer
      then Some (producer, [], [], Inl (EINVAL ''tp_producer_offer_frame: producer not attached''))
      else map_option (\<lambda>resolved.
        case resolved of
          Inl e \<Rightarrow> (producer, [], [], Inl e)
        | Inr (producer, trace_id) \<Rightarrow>
        (case tp_find_pool_for_length producer (length (fr_payload frame)) of
           None \<Rightarrow> (producer, [], [], Inl (EINVAL ''tp_producer_offer_frame: no pool for payload length''))
         | Some pool \<Rightarrow>
             (let seq = pr_next_seq producer;
                  producer = producer\<lparr>pr_next_seq := seq + 1\<rparr>;
                  timestamp_ns = (case meta of None \<Rightarrow> TP_NULL_U64 | Some m \<Rightarrow> fm_timestamp_ns m);
                  meta_version = (case meta of None \<Rightarrow> TP_NULL_U32 | Some m \<Rightarrow> fm_meta_version m)
              in case tp_producer_publish_frame env producer seq (fr_tensor frame) (fr_payload frame)
                        (pl_pool_id pool) timestamp_ns meta_version trace_id of
                   (producer, stores, sent, Inl e) \<Rightarrow> (producer, stores, sent, Inl FAIL)
                 | (producer, stores, sent, Inr _) \<Rightarrow> (producer, stores, sent, Inr seq))))
        (tp_producer_resolve_trace_id env producer (fr_trace_id frame)))"

section \<open>Claims\<close>

definition tp_producer_try_claim ::
  "tp_producer \<Rightarrow> nat \<Rightarrow> tp_buffer_claim \<Rightarrow> tp_producer \<times> tp_buffer_claim \<times> store list \<times> u64 res" where
  "tp_producer_try_claim producer len claim =
     (if pr_header_nslots producer = 0 \<or> length (pr_pools producer) = 0 \<or> \<not> pr_header_mapped producer
      then (producer, claim, [], Inl (EINVAL ''tp_producer_try_claim: producer not attached''))
      else case tp_find_pool_for_length producer len of
        None \<Rightarrow> (producer, claim, [], Inl (EINVAL ''tp_producer_try_claim: no pool for payload length''))
      | Some pool \<Rightarrow>
      let seq = pr_next_seq producer;
          header_index = header_index_of (pr_header_nslots producer) seq
      in (producer\<lparr>pr_next_seq := seq + 1\<rparr>,
          claim\<lparr>cl_seq := seq, cl_header_index := header_index, cl_pool_id := pl_pool_id pool,
                cl_payload_len := of_nat len, cl_payload := (pl_region pool, payload_at pool header_index),
                cl_trace_id := 0\<rparr>,
          [StoreCommit (tp_slot_at header_index) (tp_seq_in_progress seq)], Inr seq))"

text \<open>The payload that is committed is what the claimed memory \<open>m\<close> holds.\<close>

definition tp_producer_commit_claim ::
  "tp_env \<Rightarrow> shm \<Rightarrow> tp_producer \<Rightarrow> tp_buffer_claim \<Rightarrow> tp_frame_metadata option \<Rightarrow>
   (tp_producer \<times> tp_buffer_claim \<times> store list \<times> publication list \<times> unit res) option" where
  "tp_producer_commit_claim env m producer claim meta =
     map_option (\<lambda>resolved.
       case resolved of
         Inl e \<Rightarrow> (producer, claim, [], [], Inl e)
       | Inr (producer, trace_id) \<Rightarrow>
           (let timestamp_ns = (case meta of None \<Rightarrow> TP_NULL_U64 | Some x \<Rightarrow> fm_timestamp_ns x);
                meta_version = (case meta of None \<Rightarrow> TP_NULL_U32 | Some x \<Rightarrow> fm_meta_version x);
                claim = claim\<lparr>cl_trace_id := trace_id\<rparr>
            in case tp_producer_publish_frame env producer (cl_seq claim) (cl_tensor claim)
                      (load_payload m (cl_payload claim) (unat (cl_payload_len claim))) (cl_pool_id claim)
                      timestamp_ns meta_version trace_id of
                 (producer, stores, sent, r) \<Rightarrow> (producer, claim, stores, sent, r)))
       (tp_producer_resolve_trace_id env producer (cl_trace_id claim))"

definition tp_producer_abort_claim :: "tp_producer \<Rightarrow> tp_buffer_claim \<Rightarrow> tp_producer \<times> tp_buffer_claim \<times> unit res" where
  "tp_producer_abort_claim producer claim = (producer, claim, Inr ())"

text \<open>
  The return value is the sequence number or \<open>TP_ADMIN_ACTION\<close>. The slot is written through
  \<open>header_region.addr\<close> without a check; without a mapping that is undefined.
\<close>

definition tp_producer_queue_claim ::
  "tp_producer \<Rightarrow> tp_buffer_claim \<Rightarrow> tp_producer \<times> tp_buffer_claim \<times> store list \<times> int res" where
  "tp_producer_queue_claim producer claim =
     (if \<not> pr_fixed_pool_mode producer then (producer, claim, [], Inr TP_ADMIN_ACTION)
      else let seq = pr_next_seq producer;
               producer = producer\<lparr>pr_next_seq := seq + 1\<rparr>;
               claim = claim\<lparr>cl_seq := seq, cl_trace_id := 0\<rparr>
           in if \<not> pr_header_mapped producer then (producer, claim, [], Inl (UB ''header_region.addr''))
              else (producer, claim, [StoreCommit (tp_slot_at (cl_header_index claim)) (tp_seq_in_progress seq)], Inr (sint seq)))"

section \<open>Reattachment\<close>

definition tp_producer_next_backoff_ns :: "u32 \<Rightarrow> u64" where
  "tp_producer_next_backoff_ns failures =
     (let shift = (if failures > 5 then 5 else failures) in push_bit (unat shift) (100 * 1000 * 1000))"

definition tp_producer_schedule_reattach :: "tp_producer \<Rightarrow> u64 \<Rightarrow> tp_producer" where
  "tp_producer_schedule_reattach producer now_ns =
     (if \<not> pr_use_driver producer then producer
      else let failures = pr_attach_failures producer + 1
           in producer\<lparr>pr_reattach_requested := True, pr_attach_failures := failures,
                pr_next_attach_ns := now_ns + tp_producer_next_backoff_ns (failures - 1)\<rparr>)"

definition tp_producer_reattach_due :: "tp_producer \<Rightarrow> u64 \<Rightarrow> bool" where
  "tp_producer_reattach_due producer now_ns \<longleftrightarrow>
     pr_reattach_requested producer \<and> pr_next_attach_ns producer \<le> now_ns"

definition tp_producer_clear_reattach :: "tp_producer \<Rightarrow> tp_producer" where
  "tp_producer_clear_reattach producer =
     producer\<lparr>pr_reattach_requested := False, pr_attach_failures := 0, pr_next_attach_ns := 0\<rparr>"

definition tp_producer_unmap_regions :: "tp_producer \<Rightarrow> tp_producer" where
  "tp_producer_unmap_regions producer =
     producer\<lparr>pr_header_mapped := False, pr_pools := [], pr_tracelink_entries := [], pr_header_nslots := 0,
       pr_epoch := 0, pr_next_seq := 0\<rparr>"

end
