(* ===== verification/Tp_Consumer.thy ===== *)
theory Tp_Consumer
  imports Tp_Frame Tp_Descriptor
begin

text \<open>
  The consumer's data path (src/src/client/tp_consumer.c): the descriptor handler with its gap
  counter, reading a frame under the commit protocol, and the validation of progress messages.
\<close>

section \<open>State\<close>

datatype tp_consumer_state = TP_CONSUMER_STATE_UNMAPPED | TP_CONSUMER_STATE_MAPPED | TP_CONSUMER_STATE_FALLBACK

record tp_consumer =
  co_pools :: "tp_payload_pool list"
  co_stream_id :: u32
  co_epoch :: u64
  co_header_nslots :: u32
  co_state :: tp_consumer_state
  co_use_shm :: bool
  co_shm_mapped :: bool
  co_mapped_epoch :: u64
  co_attach_time_ns :: u64
  co_last_seq_seen :: u64
  co_drops_gap :: u64
  co_drops_late :: u64
  co_last_qos_ns :: u64
  co_use_driver :: bool
  co_next_attach_ns :: u64
  co_attach_failures :: u32
  co_reattach_requested :: bool

definition tp_consumer_unmap_regions :: "tp_consumer \<Rightarrow> tp_consumer" where
  "tp_consumer_unmap_regions consumer =
     consumer\<lparr>co_pools := [], co_header_nslots := 0, co_state := TP_CONSUMER_STATE_UNMAPPED, co_shm_mapped := False,
       co_mapped_epoch := 0, co_attach_time_ns := 0, co_last_seq_seen := 0, co_drops_gap := 0, co_drops_late := 0,
       co_last_qos_ns := 0\<rparr>"

definition tp_consumer_enter_fallback :: "tp_consumer \<Rightarrow> tp_consumer" where
  "tp_consumer_enter_fallback consumer = (tp_consumer_unmap_regions consumer)\<lparr>co_state := TP_CONSUMER_STATE_FALLBACK\<rparr>"

definition tp_consumer_find_pool :: "tp_consumer \<Rightarrow> u16 \<Rightarrow> tp_payload_pool option" where
  "tp_consumer_find_pool consumer pool_id = find (\<lambda>pool. pl_pool_id pool = pool_id) (co_pools consumer)"

section \<open>Descriptors\<close>

text \<open>The consumer and the descriptor that is passed to the application's handler, if any.\<close>

definition tp_consumer_descriptor_handler ::
  "sbe \<Rightarrow> tp_consumer \<Rightarrow> bytes \<Rightarrow> tp_consumer \<times> tp_frame_descriptor option" where
  "tp_consumer_descriptor_handler C consumer buffer =
     (case descriptor_decode C buffer of
        None \<Rightarrow> (consumer, None)
      | Some (stream_id, epoch, view) \<Rightarrow>
          if \<not> co_shm_mapped consumer then (consumer, None)
          else if co_mapped_epoch consumer \<noteq> epoch then (tp_consumer_unmap_regions consumer, None)
          else
            (let consumer =
               (if co_last_seq_seen consumer \<noteq> 0 \<and> fd_seq view > co_last_seq_seen consumer + 1
                then consumer\<lparr>co_drops_gap := co_drops_gap consumer + (fd_seq view - co_last_seq_seen consumer - 1)\<rparr>
                else consumer);
                 consumer =
               (if fd_seq view > co_last_seq_seen consumer then consumer\<lparr>co_last_seq_seen := fd_seq view\<rparr> else consumer)
             in (consumer, Some view)))"

section \<open>Reading a frame\<close>

record tp_frame_view =
  fv_tensor :: tp_tensor_header
  fv_payload :: "nat \<times> nat"
  fv_payload_len :: u32
  fv_pool_id :: u16
  fv_payload_slot :: u32
  fv_timestamp_ns :: u64
  fv_meta_version :: u32

text \<open>
  The memory as it is at the first load of the commit word, while the slot is decoded, and at the
  second load of the commit word. The result is the frame (return value 0), no frame (1) or an
  error (-1); a failing decode or validation of the tensor header is no frame.
\<close>

definition tp_consumer_read_frame ::
  "sbe \<Rightarrow> (tp_slot \<Rightarrow> bytes option) \<Rightarrow> shm \<times> shm \<times> shm \<Rightarrow> tp_consumer \<Rightarrow> u64 \<Rightarrow>
   tp_consumer \<times> tp_frame_view option res" where
  "tp_consumer_read_frame C header_bytes_of mem consumer seq =
     (case mem of (m1, m2, m3) \<Rightarrow>
      if \<not> co_use_shm consumer then (consumer, Inr None)
      else if \<not> co_shm_mapped consumer then (consumer, Inr None)
      else if co_header_nslots consumer = 0
      then (consumer, Inl (EINVAL ''tp_consumer_read_frame: header ring unavailable''))
      else let header_index = header_index_of (co_header_nslots consumer) seq in
      if header_index \<ge> co_header_nslots consumer
      then (consumer, Inl (EINVAL ''tp_consumer_read_frame: header index out of range''))
      else let slot = tp_slot_at header_index; seq_first = hs_seq_commit (sh_slot m1 slot) in
      if \<not> tp_seq_is_committed seq_first
      then (consumer\<lparr>co_drops_late := co_drops_late consumer + 1\<rparr>, Inr None)
      else case tp_slot_decode header_bytes_of (sh_slot m2 slot) TP_HEADER_SLOT_BYTES of
        Inl e \<Rightarrow> (consumer, Inl e)
      | Inr slot_view \<Rightarrow>
      if sv_payload_offset slot_view \<noteq> 0 then (consumer, Inr None)
      else if sv_payload_slot slot_view \<noteq> header_index then (consumer, Inr None)
      else case tp_consumer_find_pool consumer (sv_pool_id slot_view) of
        None \<Rightarrow> (consumer, Inr None)
      | Some pool \<Rightarrow>
      if sv_values_len_bytes slot_view > pl_stride_bytes pool then (consumer, Inr None)
      else if unat (sv_header_bytes_length slot_view) \<noteq> sbe_header_length C + unat (sbe_block_length C)
      then (consumer, Inr None)
      else case bind_res (tp_tensor_header_decode C (sv_header_bytes slot_view)) tp_tensor_header_validate of
        Inl e \<Rightarrow> (consumer, Inr None)
      | Inr tensor \<Rightarrow>
      let out = \<lparr>fv_tensor = tensor, fv_payload = (pl_region pool, payload_at pool (sv_payload_slot slot_view)),
                 fv_payload_len = sv_values_len_bytes slot_view, fv_pool_id = sv_pool_id slot_view,
                 fv_payload_slot = sv_payload_slot slot_view, fv_timestamp_ns = sv_timestamp_ns slot_view,
                 fv_meta_version = sv_meta_version slot_view\<rparr>;
          seq_second = hs_seq_commit (sh_slot m3 slot)
      in if seq_second \<noteq> seq_first \<or> \<not> tp_seq_is_committed seq_second
         then (consumer\<lparr>co_drops_late := co_drops_late consumer + 1\<rparr>, Inr None)
         else if tp_seq_value seq_second \<noteq> seq
         then (consumer\<lparr>co_drops_late := co_drops_late consumer + 1\<rparr>, Inr None)
         else (consumer, Inr (Some out)))"

section \<open>Progress\<close>

record tp_frame_progress =
  fp_stream_id :: u32
  fp_epoch :: u64
  fp_seq :: u64
  fp_payload_bytes_filled :: u64

text \<open>\<open>Inr True\<close>: the progress is consistent with the slot (0); \<open>Inr False\<close>: not (yet) (1).\<close>

definition tp_consumer_validate_progress ::
  "sbe \<Rightarrow> (tp_slot \<Rightarrow> bytes option) \<Rightarrow> shm \<times> shm \<times> shm \<Rightarrow> tp_consumer \<Rightarrow> tp_frame_progress \<Rightarrow> bool res" where
  "tp_consumer_validate_progress C header_bytes_of mem consumer progress =
     (case mem of (m1, m2, m3) \<Rightarrow>
      if \<not> co_shm_mapped consumer then Inr False
      else guard (co_header_nslots consumer = 0) (EINVAL ''tp_consumer_validate_progress: header ring unavailable'')
      (if fp_stream_id progress \<noteq> co_stream_id consumer then Inr False
      else if fp_epoch progress \<noteq> co_epoch consumer then Inr False
      else let header_index = header_index_of (co_header_nslots consumer) (fp_seq progress) in
      guard (header_index \<ge> co_header_nslots consumer) (EINVAL ''tp_consumer_validate_progress: header index out of range'')
      (let slot = tp_slot_at header_index; seq_commit_begin = hs_seq_commit (sh_slot m1 slot) in
      if \<not> tp_seq_is_committed seq_commit_begin then Inr False
      else guard (tp_seq_value seq_commit_begin \<noteq> fp_seq progress) (EINVAL ''tp_consumer_validate_progress: seq mismatch'')
      (bind_res (tp_slot_decode header_bytes_of (sh_slot m2 slot) TP_HEADER_SLOT_BYTES) (\<lambda>slot_view.
      let seq_commit_end = hs_seq_commit (sh_slot m3 slot) in
      if seq_commit_end \<noteq> seq_commit_begin \<or> \<not> tp_seq_is_committed seq_commit_end then Inr False
      else if sv_seq_commit slot_view \<noteq> seq_commit_end then Inr False
      else if \<not> tp_seq_is_committed (sv_seq_commit slot_view) then Inr False
      else guard (tp_seq_value (sv_seq_commit slot_view) \<noteq> fp_seq progress) (EINVAL ''tp_consumer_validate_progress: seq mismatch'')
      (guard (tp_seq_value seq_commit_end \<noteq> fp_seq progress) (EINVAL ''tp_consumer_validate_progress: seq mismatch'')
      (case tp_consumer_find_pool consumer (sv_pool_id slot_view) of
        None \<Rightarrow> Inl (EINVAL ''tp_consumer_validate_progress: pool not found'')
      | Some pool \<Rightarrow>
      guard (sv_values_len_bytes slot_view > pl_stride_bytes pool) (EINVAL ''tp_consumer_validate_progress: payload exceeds stride'')
      (guard (fp_payload_bytes_filled progress > ucast (sv_values_len_bytes slot_view))
        (EINVAL ''tp_consumer_validate_progress: payload bytes exceed values'')
      (guard (unat (sv_header_bytes_length slot_view) \<noteq> sbe_header_length C + unat (sbe_block_length C))
        (EINVAL ''tp_consumer_validate_progress: header bytes length mismatch'')
      (bind_res (tp_tensor_header_decode C (sv_header_bytes slot_view)) (\<lambda>tensor.
       bind_res (tp_tensor_header_validate tensor) (\<lambda>_. Inr True))))))))))))"

definition tp_consumer_get_drop_counts :: "tp_consumer \<Rightarrow> u64 \<times> u64 \<times> u64" where
  "tp_consumer_get_drop_counts consumer =
     (co_drops_gap consumer, co_drops_late consumer, co_last_seq_seen consumer)"

section \<open>Reattachment and liveness\<close>

definition tp_consumer_next_backoff_ns :: "u32 \<Rightarrow> u64" where
  "tp_consumer_next_backoff_ns failures =
     (let shift = (if failures > 5 then 5 else failures) in push_bit (unat shift) (100 * 1000 * 1000))"

definition tp_consumer_schedule_reattach :: "tp_consumer \<Rightarrow> u64 \<Rightarrow> tp_consumer" where
  "tp_consumer_schedule_reattach consumer now_ns =
     (if \<not> co_use_driver consumer then consumer
      else let failures = co_attach_failures consumer + 1
           in consumer\<lparr>co_reattach_requested := True, co_attach_failures := failures,
                co_next_attach_ns := now_ns + tp_consumer_next_backoff_ns (failures - 1)\<rparr>)"

definition tp_consumer_reattach_due :: "tp_consumer \<Rightarrow> u64 \<Rightarrow> bool" where
  "tp_consumer_reattach_due consumer now_ns \<longleftrightarrow>
     co_reattach_requested consumer \<and> co_next_attach_ns consumer \<le> now_ns"

definition tp_consumer_clear_reattach :: "tp_consumer \<Rightarrow> tp_consumer" where
  "tp_consumer_clear_reattach consumer =
     consumer\<lparr>co_reattach_requested := False, co_attach_failures := 0, co_next_attach_ns := 0\<rparr>"

definition TP_ANNOUNCE_FRESHNESS_MULTIPLIER :: u64 where "TP_ANNOUNCE_FRESHNESS_MULTIPLIER = 3"

text \<open>\<open>activity\<close> is the activity timestamp of the header region's superblock, if it can be read.\<close>

definition tp_consumer_check_activity_liveness :: "u64 \<Rightarrow> u64 res \<Rightarrow> tp_consumer \<Rightarrow> u64 \<Rightarrow> tp_consumer" where
  "tp_consumer_check_activity_liveness announce_period_ns activity consumer now_ns =
     (if \<not> co_shm_mapped consumer then consumer
      else if announce_period_ns = 0 then consumer
      else let stale_ns = announce_period_ns * TP_ANNOUNCE_FRESHNESS_MULTIPLIER in
      if co_attach_time_ns consumer \<noteq> 0 \<and> now_ns > co_attach_time_ns consumer \<and>
         now_ns - co_attach_time_ns consumer \<le> stale_ns then consumer
      else case activity of
        Inl e \<Rightarrow> consumer
      | Inr activity_ns \<Rightarrow>
          if activity_ns \<noteq> 0 \<and> now_ns > activity_ns \<and> now_ns - activity_ns > stale_ns
          then tp_consumer_unmap_regions consumer else consumer)"

end
