(* ===== verification/Tp_Data_Path.thy ===== *)
theory Tp_Data_Path
  imports Tp_Producer Tp_Consumer "HOL-Library.Sublist"
begin

text \<open>
  The producer's and the consumer's data paths together: what a consumer that maps the same regions
  reads while and after a producer publishes.
\<close>

section \<open>The memory after a publication\<close>

definition written_slot :: "u32 \<Rightarrow> u64 \<Rightarrow> bytes \<Rightarrow> u16 \<Rightarrow> u64 \<Rightarrow> u32 \<Rightarrow> bytes \<Rightarrow> tp_slot" where
  "written_slot header_index seq payload pool_id timestamp meta header_bytes =
     \<lparr>hs_seq_commit = tp_seq_committed seq, hs_values_len_bytes = of_nat (length payload), hs_payload_slot = header_index,
      hs_pool_id = pool_id, hs_payload_offset = 0, hs_timestamp_ns = timestamp, hs_meta_version = meta,
      hs_header_len = of_nat (length header_bytes), hs_header_bytes = header_bytes\<rparr>"

lemma put_bytes_Nil [simp]: "put_bytes off [] m = m"
  by (rule ext) (auto simp: put_bytes_def)

lemma frame_stores_memory:
  assumes "m' = apply_stores (frame_head_stores pool i seq payload pid ts meta @ frame_tail_stores i seq hb) m"
  shows "sh_slot m' = (sh_slot m)(tp_slot_at i := written_slot i seq payload pid ts meta hb)"
    and "sh_payload m' = (sh_payload m)(pl_region pool := put_bytes (payload_at pool i) payload (sh_payload m (pl_region pool)))"
  unfolding assms frame_head_stores_def frame_tail_stores_def
  by (auto simp: Let_def written_slot_def fun_upd_idem)

text \<open>A call of publish_frame that reports success has written the whole frame.\<close>

lemma publish_frame_Inr:
  assumes "tp_producer_publish_frame env p seq tensor payload pid ts meta trace = (p', stores, sent, Inr u)"
  shows "\<exists>pool prepared hb d. pr_header_nslots p \<noteq> 0 \<and> tp_find_pool (pr_pools p) pid = Some pool \<and>
    length payload \<le> unat (pl_stride_bytes pool) \<and> tp_prepare_tensor_header tensor = Inr prepared \<and>
    tp_encode_tensor_header (en_tensor env) (unat TP_HEADER_SLOT_BYTES) prepared = Inr hb \<and>
    stores = frame_head_stores pool (header_index_of (pr_header_nslots p) seq) seq payload pid (slot_timestamp env ts) meta @
       frame_tail_stores (header_index_of (pr_header_nslots p) seq) seq
         (take (sbe_header_length (en_tensor env) + unat (sbe_block_length (en_tensor env))) hb) \<and>
    tp_producer_publish_descriptor env p d = (p', sent, Inr u)"
  using assms unfolding tp_producer_publish_frame_def
  by (auto simp: Let_def not_less split: if_splits option.splits sum.splits prod.splits)

lemma publish_frame_stores:
  assumes "tp_producer_publish_frame env p seq tensor payload pid ts meta trace = (p', stores, sent, r)"
  shows "stores = [] \<or> (\<exists>pool hb. pr_header_nslots p \<noteq> 0 \<and> tp_find_pool (pr_pools p) pid = Some pool \<and>
    length payload \<le> unat (pl_stride_bytes pool) \<and>
    prefix stores (frame_head_stores pool (header_index_of (pr_header_nslots p) seq) seq payload pid (slot_timestamp env ts) meta @
       frame_tail_stores (header_index_of (pr_header_nslots p) seq) seq hb))"
proof -
  let ?head = "\<lambda>pool. frame_head_stores pool (header_index_of (pr_header_nslots p) seq) seq payload pid (slot_timestamp env ts) meta"
  let ?tail = "frame_tail_stores (header_index_of (pr_header_nslots p) seq) seq"
  have "stores = [] \<or> (\<exists>pool. pr_header_nslots p \<noteq> 0 \<and> tp_find_pool (pr_pools p) pid = Some pool \<and>
    length payload \<le> unat (pl_stride_bytes pool) \<and> (stores = ?head pool \<or> (\<exists>hb. stores = ?head pool @ ?tail hb)))"
    using assms unfolding tp_producer_publish_frame_def
    by (auto simp: Let_def not_less split: if_splits option.splits sum.splits prod.splits)
  then show ?thesis by (metis prefix_order.order_refl prefixI)
qed

section \<open>Reading what was written\<close>

text \<open>
  \<open>maps p c\<close>: the consumer has mapped the regions that the producer writes.
\<close>

definition maps :: "tp_producer \<Rightarrow> tp_consumer \<Rightarrow> bool" where
  "maps p c \<longleftrightarrow> co_use_shm c \<and> co_shm_mapped c \<and> co_header_nslots c = pr_header_nslots p \<and> co_pools c = pr_pools p"

abbreviation still :: "shm \<Rightarrow> shm \<times> shm \<times> shm" where
  "still m \<equiv> (m, m, m)"

lemma header_index_in_range: "n \<noteq> 0 \<Longrightarrow> \<not> n \<le> header_index_of n s"
  using unat_header_index [of n s] by (simp add: word_le_nat_alt not_le)

lemma unat_of_nat_u32: "n < 2 ^ 32 \<Longrightarrow> unat (of_nat n :: u32) = n"
  by (simp add: unat_of_nat)

lemma encode_length:
  assumes "tensor_codec C width known extent" "tp_encode_tensor_header C n t = Inr b"
  shows "sbe_header_length C + unat (sbe_block_length C) \<le> n \<and> length b = n"
proof -
  have n: "sbe_header_length C + unat (sbe_block_length C) \<le> n"
    "b = fold (\<lambda>(f, v). sbe_set C f v) (tensor_fields t) (sbe_put_header C (replicate n 0))"
    using assms(2) by (auto simp: tp_encode_tensor_header_def res_simps not_less)
  with tensor_codec.tensor_written(1) [OF assms(1) n(1), of t] show ?thesis by simp
qed

text \<open>What decoding the slot that a publication leaves gives.\<close>

lemma written_slot_decoded:
  assumes codec: "tensor_codec C width known extent" and acc: "slot_accessor header_bytes_of"
    and size: "sbe_header_length C + unat (sbe_block_length C) \<le> 192"
    and t: "tp_encode_tensor_header C (unat TP_HEADER_SLOT_BYTES) t = Inr hb" "header_valid t"
  shows "\<exists>len header. tp_slot_decode header_bytes_of
      (written_slot i seq payload pid ts meta (take (sbe_header_length C + unat (sbe_block_length C)) hb)) TP_HEADER_SLOT_BYTES =
      Inr \<lparr>sv_seq_commit = tp_seq_committed seq, sv_values_len_bytes = of_nat (length payload), sv_payload_slot = i,
        sv_pool_id = pid, sv_payload_offset = 0, sv_timestamp_ns = ts, sv_meta_version = meta,
        sv_header_bytes_length = len, sv_header_bytes = header\<rparr> \<and>
    unat len = sbe_header_length C + unat (sbe_block_length C) \<and>
    tp_tensor_header_decode C header = Inr t \<and> tp_tensor_header_validate t = Inr t"
proof -
  let ?n = "sbe_header_length C + unat (sbe_block_length C)"
  have hb: "length (take ?n hb) = ?n" using encode_length [OF codec t(1)] by simp
  have n: "unat (of_nat (length (take ?n hb)) :: u32) = ?n" unfolding hb using size by (intro unat_of_nat_u32) simp
  have "tp_slot_decode header_bytes_of (written_slot i seq payload pid ts meta (take ?n hb)) TP_HEADER_SLOT_BYTES =
      Inr \<lparr>sv_seq_commit = tp_seq_committed seq, sv_values_len_bytes = of_nat (length payload), sv_payload_slot = i,
        sv_pool_id = pid, sv_payload_offset = 0, sv_timestamp_ns = ts, sv_meta_version = meta,
        sv_header_bytes_length = of_nat (length (take ?n hb)), sv_header_bytes = take ?n hb\<rparr>"
    by (subst slot_accessor.slot_decode_written [OF acc]) (use n hb size in \<open>simp_all add: written_slot_def\<close>)
  moreover obtain b where b: "tp_encode_tensor_header C (unat TP_HEADER_SLOT_BYTES) t = Inr b" "tp_tensor_header_decode C b = Inr t"
    using tensor_codec.encode_decode [OF codec t(2)] encode_length [OF codec t(1)] by blast
  moreover have "tp_tensor_header_decode C (take ?n hb) = Inr t"
    using b t tensor_codec.decode_take [OF codec] by simp
  ultimately show ?thesis using n validate_done [OF t(2)] by blast
qed

lemma payload_fits:
  assumes "length payload \<le> unat (pl_stride_bytes pool)"
  shows "\<not> of_nat (length payload) > pl_stride_bytes pool" "unat (of_nat (length payload) :: u32) = length payload"
  using assms unat_of_nat_u32 [OF order_le_less_trans [OF assms]] by (simp_all add: word_less_nat_alt not_less)

text \<open>The slot is accepted for its sequence number, and so is the progress that fits its payload.\<close>

lemma read_written_slot:
  assumes codec: "tensor_codec C width known extent" and acc: "slot_accessor header_bytes_of"
    and size: "sbe_header_length C + unat (sbe_block_length C) \<le> 192"
    and t: "tp_encode_tensor_header C (unat TP_HEADER_SLOT_BYTES) t = Inr hb" "header_valid t"
    and c: "co_use_shm c" "co_shm_mapped c" "co_header_nslots c \<noteq> 0" "tp_consumer_find_pool c pid = Some pool"
    and len: "length payload \<le> unat (pl_stride_bytes pool)" and seq: "unat seq < 2 ^ 63"
    and slot: "sh_slot m (tp_slot_at (header_index_of (co_header_nslots c) seq)) =
      written_slot (header_index_of (co_header_nslots c) seq) seq payload pid ts meta
        (take (sbe_header_length C + unat (sbe_block_length C)) hb)"
  shows "tp_consumer_read_frame C header_bytes_of (still m) c seq =
    (c, Inr (Some \<lparr>fv_tensor = t, fv_payload = (pl_region pool, payload_at pool (header_index_of (co_header_nslots c) seq)),
       fv_payload_len = of_nat (length payload), fv_pool_id = pid,
       fv_payload_slot = header_index_of (co_header_nslots c) seq, fv_timestamp_ns = ts, fv_meta_version = meta\<rparr>))" (is ?read)
    and "tp_consumer_validate_progress C header_bytes_of (still m) c
      \<lparr>fp_stream_id = co_stream_id c, fp_epoch = co_epoch c, fp_seq = seq, fp_payload_bytes_filled = filled\<rparr> =
      (if unat filled \<le> length payload then Inr True
       else Inl (EINVAL ''tp_consumer_validate_progress: payload bytes exceed values''))" (is ?progress)
proof -
  let ?n = "sbe_header_length C + unat (sbe_block_length C)"
  let ?i = "header_index_of (co_header_nslots c) seq"
  let ?s = "written_slot ?i seq payload pid ts meta (take ?n hb)"
  obtain ln header where dec: "tp_slot_decode header_bytes_of ?s TP_HEADER_SLOT_BYTES =
      Inr \<lparr>sv_seq_commit = tp_seq_committed seq, sv_values_len_bytes = of_nat (length payload), sv_payload_slot = ?i,
        sv_pool_id = pid, sv_payload_offset = 0, sv_timestamp_ns = ts, sv_meta_version = meta,
        sv_header_bytes_length = ln, sv_header_bytes = header\<rparr>"
    and tensor: "unat ln = ?n" "tp_tensor_header_decode C header = Inr t" "tp_tensor_header_validate t = Inr t"
    using written_slot_decoded [OF codec acc size t] by blast
  note fits = payload_fits [OF len]
  have commit: "hs_seq_commit ?s = tp_seq_committed seq" by (simp add: written_slot_def)
  have val: "tp_seq_value (tp_seq_committed seq) = seq" using seq by (rule cw.val_committed)
  have filled: "filled > ucast (of_nat (length payload) :: u32) \<longleftrightarrow> \<not> unat filled \<le> length payload"
    using fits(2) by (simp add: word_less_nat_alt not_le)
  show ?read
    unfolding tp_consumer_read_frame_def
    by (simp add: c slot dec tensor fits(1) commit header_index_in_range Let_def val cw.committed_is)
  show ?progress
    unfolding tp_consumer_validate_progress_def
    by (simp add: c slot dec tensor fits(1) commit header_index_in_range Let_def val cw.committed_is filled)
qed

section \<open>Slots that do not touch\<close>

text \<open>
  The geometry in which the 32-bit products do not wrap: a power of two of slots, and no region
  larger than 4 GiB. Different pools have different regions.
\<close>

definition geometry_ok :: "tp_producer \<Rightarrow> bool" where
  "geometry_ok p \<longleftrightarrow> tp_is_power_of_two (pr_header_nslots p) \<and> unat (pr_header_nslots p) * 256 \<le> 2 ^ 32 \<and>
     (\<forall>pool\<in>set (pr_pools p). unat (pr_header_nslots p) * unat (pl_stride_bytes pool) \<le> 2 ^ 32) \<and>
     inj_on pl_region (set (pr_pools p))"

lemma unat_mult_small:
  assumes "i < n" "unat n * unat k \<le> 2 ^ 32"
  shows "unat ((i :: u32) * k) = unat i * unat k"
proof (cases "k = 0")
  case False
  then have "unat i * unat k < unat n * unat k" using assms(1) by (simp add: word_less_nat_alt unat_gt_0)
  from order_less_le_trans [OF this assms(2)] have "unat i * unat k < 2 ^ LENGTH(32)" by simp
  then show ?thesis by (rule unat_mult_lem [THEN iffD1])
qed simp

lemma slots_apart:
  assumes "i < n" "j < n" "i \<noteq> j" "unat n * 256 \<le> 2 ^ 32"
  shows "tp_slot_at i \<noteq> tp_slot_at j"
  using assms unat_mult_small [of i n 256] unat_mult_small [of j n 256]
  by (simp add: tp_slot_at_def TP_HEADER_SLOT_BYTES_def word_unat_eq_iff)

lemma payloads_apart:
  assumes "i < n" "j < n" "i \<noteq> j" "unat n * unat (pl_stride_bytes pool) \<le> 2 ^ 32"
  shows "payload_at pool i + unat (pl_stride_bytes pool) \<le> payload_at pool j \<or>
    payload_at pool j + unat (pl_stride_bytes pool) \<le> payload_at pool i"
proof -
  have "unat i < unat j \<or> unat j < unat i" using assms(3) by (meson nat_neq_iff word_unat_eq_iff)
  then have "Suc (unat i) * unat (pl_stride_bytes pool) \<le> unat j * unat (pl_stride_bytes pool) \<or>
    Suc (unat j) * unat (pl_stride_bytes pool) \<le> unat i * unat (pl_stride_bytes pool)"
    by (meson Suc_leI mult_le_mono1)
  then show ?thesis
    using unat_mult_small [OF assms(1,4)] unat_mult_small [OF assms(2,4)] by (auto simp: payload_at_def)
qed

text \<open>Publishing one sequence number leaves the frame of another slot as it was.\<close>

lemma load_put_other:
  assumes "off + n \<le> off' \<or> off' + length b \<le> off"
  shows "load_payload (m\<lparr>sh_payload := f(r := put_bytes off' b (f r))\<rparr>) (r, off) n = load_payload (m\<lparr>sh_payload := f\<rparr>) (r, off) n"
  using assms by (auto simp: load_payload_def put_bytes_def)

lemma load_payload_cong:
  "(\<And>i. i < n \<Longrightarrow> sh_payload m (fst q) (snd q + i) = sh_payload m' (fst q) (snd q + i)) \<Longrightarrow> load_payload m q n = load_payload m' q n"
  by (simp add: load_payload_def)

lemma read_other_slot:
  assumes "sh_slot m' (tp_slot_at (header_index_of (co_header_nslots c) s)) = sh_slot m (tp_slot_at (header_index_of (co_header_nslots c) s))"
  shows "tp_consumer_read_frame C acc (still m') c s = tp_consumer_read_frame C acc (still m) c s"
  unfolding tp_consumer_read_frame_def Let_def prod.case assms ..

text \<open>Where an accepted frame points to.\<close>

lemma read_frame_view:
  assumes "tp_consumer_read_frame C acc mem c s = (c', Inr (Some v))"
  obtains pool where "tp_consumer_find_pool c (fv_pool_id v) = Some pool"
    "fv_payload v = (pl_region pool, payload_at pool (header_index_of (co_header_nslots c) s))"
    "unat (fv_payload_len v) \<le> unat (pl_stride_bytes pool)" "co_header_nslots c \<noteq> 0"
  using assms unfolding tp_consumer_read_frame_def
  by (auto simp: Let_def word_le_nat_alt [symmetric] not_less split: if_splits sum.splits option.splits prod.splits)

section \<open>Runs of offers\<close>

text \<open>What stays as it is while frames are published.\<close>

definition same_regions :: "tp_producer \<Rightarrow> tp_producer \<Rightarrow> bool" where
  "same_regions p p' \<longleftrightarrow> pr_pools p' = pr_pools p \<and> pr_header_nslots p' = pr_header_nslots p"

lemma publish_descriptor_keeps:
  assumes "tp_producer_publish_descriptor env p d = (p', sent, r)"
  shows "same_regions p p'" "pr_next_seq p' = pr_next_seq p"
  using assms unfolding tp_producer_publish_descriptor_def same_regions_def
  by (auto simp: Let_def tp_producer_record_tracelink_descriptor_def split: option.splits prod.splits if_splits)

lemma offer_frame_Inr:
  assumes "tp_producer_offer_frame env p f meta = Some (p', stores, sent, Inr seq)"
  obtains pid pool prepared hb ts where "seq = pr_next_seq p" "pr_next_seq p' = seq + 1" "same_regions p p'"
    "pr_header_nslots p \<noteq> 0" "tp_find_pool (pr_pools p) pid = Some pool" "length (fr_payload f) \<le> unat (pl_stride_bytes pool)"
    "tp_prepare_tensor_header (fr_tensor f) = Inr prepared"
    "tp_encode_tensor_header (en_tensor env) (unat TP_HEADER_SLOT_BYTES) prepared = Inr hb"
    "stores = frame_head_stores pool (header_index_of (pr_header_nslots p) seq) seq (fr_payload f) pid ts
        (case meta of None \<Rightarrow> TP_NULL_U32 | Some x \<Rightarrow> fm_meta_version x) @
       frame_tail_stores (header_index_of (pr_header_nslots p) seq) seq
         (take (sbe_header_length (en_tensor env) + unat (sbe_block_length (en_tensor env))) hb)"
proof -
  let ?ts = "case meta of None \<Rightarrow> TP_NULL_U64 | Some x \<Rightarrow> fm_timestamp_ns x"
  let ?mv = "case meta of None \<Rightarrow> TP_NULL_U32 | Some x \<Rightarrow> fm_meta_version x"
  have nz: "\<not> (pr_header_nslots p = 0 \<or> length (pr_pools p) = 0 \<or> \<not> pr_header_mapped p)"
    using assms unfolding tp_producer_offer_frame_def by (auto split: if_splits)
  note unfolded = assms [unfolded tp_producer_offer_frame_def if_not_P [OF nz]]
  obtain resolved where resolved: "tp_producer_resolve_trace_id env p (fr_trace_id f) = Some resolved"
    using unfolded by auto
  obtain q trace where q: "resolved = Inr (q, trace)"
    using unfolded resolved by (cases resolved) auto
  have keep: "same_regions p q" "pr_next_seq q = pr_next_seq p"
    using resolved q by (auto simp: tp_producer_resolve_trace_id_def same_regions_def split: option.splits if_splits)
  obtain pool where pool: "tp_find_pool_for_length q (length (fr_payload f)) = Some pool"
    using unfolded resolved q by (cases "tp_find_pool_for_length q (length (fr_payload f))") auto
  obtain p1 stores1 sent1 r where pub: "tp_producer_publish_frame env (q\<lparr>pr_next_seq := pr_next_seq q + 1\<rparr>) (pr_next_seq q)
      (fr_tensor f) (fr_payload f) (pl_pool_id pool) ?ts ?mv trace = (p1, stores1, sent1, r)"
    using prod_cases4 by blast
  have "tp_producer_offer_frame env p f meta =
      Some (case r of Inl e \<Rightarrow> (p1, stores1, sent1, Inl FAIL) | Inr u \<Rightarrow> (p1, stores1, sent1, Inr (pr_next_seq q)))"
    unfolding tp_producer_offer_frame_def if_not_P [OF nz] resolved q option.map sum.case prod.case pool option.case(2) Let_def pub ..
  with assms obtain u where r: "r = Inr u" "p1 = p'" "stores1 = stores" "seq = pr_next_seq q" by (cases r) auto
  let ?q = "q\<lparr>pr_next_seq := pr_next_seq q + 1\<rparr>"
  from publish_frame_Inr [OF pub [unfolded r(1-3)]] obtain pl prepared hb d
    where f: "pr_header_nslots ?q \<noteq> 0" "tp_find_pool (pr_pools ?q) (pl_pool_id pool) = Some pl"
      "length (fr_payload f) \<le> unat (pl_stride_bytes pl)" "tp_prepare_tensor_header (fr_tensor f) = Inr prepared"
      "tp_encode_tensor_header (en_tensor env) (unat TP_HEADER_SLOT_BYTES) prepared = Inr hb"
      "stores = frame_head_stores pl (header_index_of (pr_header_nslots ?q) (pr_next_seq q)) (pr_next_seq q) (fr_payload f)
          (pl_pool_id pool) (slot_timestamp env ?ts) ?mv @
        frame_tail_stores (header_index_of (pr_header_nslots ?q) (pr_next_seq q)) (pr_next_seq q)
         (take (sbe_header_length (en_tensor env) + unat (sbe_block_length (en_tensor env))) hb)"
      and d: "tp_producer_publish_descriptor env ?q d = (p', sent1, Inr u)"
    by (elim exE conjE) (rule that)
  have "same_regions p p'" "pr_next_seq p' = seq + 1"
    using publish_descriptor_keeps [OF d] keep r(4) by (simp_all add: same_regions_def)
  moreover have "pr_header_nslots ?q = pr_header_nslots p" "pr_pools ?q = pr_pools p" using keep by (simp_all add: same_regions_def)
  ultimately show ?thesis using f keep(2) r(4) that by metis
qed

text \<open>
  A run of offers, each with its own clock readings, and the memory they leave. \<open>None\<close> when
  one of them is not accepted.
\<close>

type_synonym offer = "tp_env \<times> tp_frame \<times> tp_frame_metadata option"

fun offer_run :: "tp_producer \<Rightarrow> shm \<Rightarrow> offer list \<Rightarrow> (tp_producer \<times> shm \<times> u64 list) option" where
  "offer_run p m [] = Some (p, m, [])"
| "offer_run p m ((env, f, meta) # offers) =
     (case tp_producer_offer_frame env p f meta of
        Some (p', stores, sent, Inr seq) \<Rightarrow>
          map_option (\<lambda>(p'', m'', seqs). (p'', m'', seq # seqs)) (offer_run p' (apply_stores stores m) offers)
      | _ \<Rightarrow> None)"

lemma offer_run_Cons:
  "offer_run p m ((env, f, meta) # offers) = Some (p'', m'', seqs) \<longleftrightarrow>
     (\<exists>p' stores sent seq seqs'. tp_producer_offer_frame env p f meta = Some (p', stores, sent, Inr seq) \<and>
        offer_run p' (apply_stores stores m) offers = Some (p'', m'', seqs') \<and> seqs = seq # seqs')"
  by (auto split: option.splits sum.splits prod.splits)

lemma offer_run_snoc:
  "offer_run p m (offers @ [(env, f, meta)]) = Some (p'', m'', seqs) \<longleftrightarrow>
     (\<exists>p' m' seqs' stores sent seq. offer_run p m offers = Some (p', m', seqs') \<and>
        tp_producer_offer_frame env p' f meta = Some (p'', stores, sent, Inr seq) \<and>
        m'' = apply_stores stores m' \<and> seqs = seqs' @ [seq])"
proof (induction offers arbitrary: p m seqs)
  case Nil
  show ?case unfolding append_Nil offer_run_Cons by auto
next
  case (Cons x offers)
  obtain env' f' meta' where x: "x = (env', f', meta')" by (cases x) auto
  show ?case unfolding x append_Cons offer_run_Cons Cons.IH by auto
qed

text \<open>
  \<open>frame_readable C acc c m s f meta\<close>: the consumer reads the frame \<open>f\<close> under the sequence
  number \<open>s\<close>, with its payload.
\<close>

definition frame_readable ::
  "sbe \<Rightarrow> (tp_slot \<Rightarrow> bytes option) \<Rightarrow> tp_consumer \<Rightarrow> shm \<Rightarrow> u64 \<Rightarrow> tp_frame \<Rightarrow> tp_frame_metadata option \<Rightarrow> bool" where
  "frame_readable C acc c m s f meta \<longleftrightarrow>
     (\<exists>v. tp_consumer_read_frame C acc (still m) c s = (c, Inr (Some v)) \<and>
        load_payload m (fv_payload v) (unat (fv_payload_len v)) = fr_payload f \<and>
        tp_prepare_tensor_header (fr_tensor f) = Inr (fv_tensor v) \<and>
        fv_meta_version v = (case meta of None \<Rightarrow> TP_NULL_U32 | Some x \<Rightarrow> fm_meta_version x))"

lemma prepared_valid: "header_shape t \<Longrightarrow> tp_prepare_tensor_header t = Inr t' \<Longrightarrow> header_valid t'"
  using validate_Inr [of _ t'] by (auto simp: tp_prepare_tensor_header_def header_shape_def clear_from_def)

lemma offer_then_read:
  assumes codec: "tensor_codec C width known extent" and acc: "slot_accessor acc"
    and size: "sbe_header_length C + unat (sbe_block_length C) \<le> 192"
    and env: "en_tensor env = C" and f: "header_shape (fr_tensor f)"
    and maps: "maps p c" and seq: "unat seq < 2 ^ 63"
    and offer: "tp_producer_offer_frame env p f meta = Some (p', stores, sent, Inr seq)"
  shows "frame_readable C acc c (apply_stores stores m) seq f meta"
    and "tp_consumer_validate_progress C acc (still (apply_stores stores m)) c
      \<lparr>fp_stream_id = co_stream_id c, fp_epoch = co_epoch c, fp_seq = seq, fp_payload_bytes_filled = filled\<rparr> =
      (if unat filled \<le> length (fr_payload f) then Inr True
       else Inl (EINVAL ''tp_consumer_validate_progress: payload bytes exceed values''))" (is ?progress)
proof -
  let ?n = "sbe_header_length C + unat (sbe_block_length C)"
  from offer_frame_Inr [OF offer, unfolded env] obtain pid pool prepared hb ts
    where o: "pr_header_nslots p \<noteq> 0" "tp_find_pool (pr_pools p) pid = Some pool" "length (fr_payload f) \<le> unat (pl_stride_bytes pool)"
      "tp_prepare_tensor_header (fr_tensor f) = Inr prepared"
      "tp_encode_tensor_header C (unat TP_HEADER_SLOT_BYTES) prepared = Inr hb"
      and st: "stores = frame_head_stores pool (header_index_of (pr_header_nslots p) seq) seq (fr_payload f) pid ts
        (case meta of None \<Rightarrow> TP_NULL_U32 | Some x \<Rightarrow> fm_meta_version x) @
       frame_tail_stores (header_index_of (pr_header_nslots p) seq) seq (take ?n hb)"
    by metis
  have c: "co_use_shm c" "co_shm_mapped c" "co_header_nslots c \<noteq> 0" "tp_consumer_find_pool c pid = Some pool"
    "co_header_nslots c = pr_header_nslots p"
    using maps o by (auto simp: maps_def tp_consumer_find_pool_def tp_find_pool_def)
  note mem = frame_stores_memory [OF arg_cong [of _ _ "\<lambda>ss. apply_stores ss m", OF st]]
  note len = payload_fits(2) [OF o(3)]
  note written = read_written_slot [OF codec acc size o(5) prepared_valid [OF f o(4)] c(1-4) o(3) seq]
  show ?progress by (rule written(2)) (simp add: mem c(5))
  have read: "tp_consumer_read_frame C acc (still (apply_stores stores m)) c seq =
    (c, Inr (Some \<lparr>fv_tensor = prepared, fv_payload = (pl_region pool, payload_at pool (header_index_of (co_header_nslots c) seq)),
       fv_payload_len = of_nat (length (fr_payload f)), fv_pool_id = pid, fv_payload_slot = header_index_of (co_header_nslots c) seq,
       fv_timestamp_ns = ts, fv_meta_version = (case meta of None \<Rightarrow> TP_NULL_U32 | Some x \<Rightarrow> fm_meta_version x)\<rparr>))"
    by (rule written(1)) (simp add: mem c(5))
  have "load_payload (apply_stores stores m) (pl_region pool, payload_at pool (header_index_of (co_header_nslots c) seq))
      (length (fr_payload f)) = fr_payload f"
    by (auto simp: load_payload_def mem(2) put_bytes_def c(5) intro: nth_equalityI)
  with read len o(4) show "frame_readable C acc c (apply_stores stores m) seq f meta" by (auto simp: frame_readable_def)
qed

lemma offer_keeps_other:
  assumes geo: "geometry_ok p" and maps: "maps p c"
    and offer: "tp_producer_offer_frame env p f meta = Some (p', stores, sent, Inr seq)"
    and other: "unat s mod unat (pr_header_nslots p) \<noteq> unat seq mod unat (pr_header_nslots p)"
    and r: "frame_readable C acc c m s g meta'"
  shows "frame_readable C acc c (apply_stores stores m) s g meta'"
proof -
  let ?n = "pr_header_nslots p" and ?m = "apply_stores stores m"
  let ?i = "header_index_of ?n seq" and ?j = "header_index_of ?n s"
  have p2: "tp_is_power_of_two ?n" "?n \<noteq> 0" using geo by (auto simp: geometry_ok_def tp_is_power_of_two_def)
  have "unat ?i \<noteq> unat ?j"
    using other header_index_mod [OF p2(1), of s] header_index_mod [OF p2(1), of seq] by simp
  then have ij: "?i < ?n" "?j < ?n" "?i \<noteq> ?j" using unat_header_index [OF p2(2)] by (auto simp only: word_less_nat_alt)
  from offer_frame_Inr [OF offer] obtain pid pool hb ts mv
    where o: "tp_find_pool (pr_pools p) pid = Some pool" "length (fr_payload f) \<le> unat (pl_stride_bytes pool)"
      and st: "stores = frame_head_stores pool ?i seq (fr_payload f) pid ts mv @ frame_tail_stores ?i seq hb"
    by metis
  note mem = frame_stores_memory [OF arg_cong [of _ _ "\<lambda>ss. apply_stores ss m", OF st]]
  have n: "co_header_nslots c = ?n" "co_pools c = pr_pools p" using maps by (simp_all add: maps_def)
  have "tp_slot_at ?i \<noteq> tp_slot_at ?j" using geo ij by (intro slots_apart [of _ ?n]) (auto simp: geometry_ok_def)
  then have same: "tp_consumer_read_frame C acc (still ?m) c s = tp_consumer_read_frame C acc (still m) c s"
    by (intro read_other_slot) (simp add: mem n)
  from r obtain v where v: "tp_consumer_read_frame C acc (still m) c s = (c, Inr (Some v))" by (auto simp: frame_readable_def)
  from read_frame_view [OF v] obtain q where q: "find (\<lambda>pool. pl_pool_id pool = fv_pool_id v) (pr_pools p) = Some q"
    "fv_payload v = (pl_region q, payload_at q ?j)" "unat (fv_payload_len v) \<le> unat (pl_stride_bytes q)"
    by (auto simp: tp_consumer_find_pool_def n)
  have mems: "q \<in> set (pr_pools p)" "pool \<in> set (pr_pools p)"
    using q(1) o(1) by (auto simp: tp_find_pool_def find_Some_iff)
  have "load_payload ?m (fv_payload v) (unat (fv_payload_len v)) = load_payload m (fv_payload v) (unat (fv_payload_len v))"
  proof (rule load_payload_cong)
    fix k assume k: "k < unat (fv_payload_len v)"
    show "sh_payload ?m (fst (fv_payload v)) (snd (fv_payload v) + k) = sh_payload m (fst (fv_payload v)) (snd (fv_payload v) + k)"
    proof (cases "pl_region q = pl_region pool")
      case True
      then have qp: "q = pool" using geo mems by (auto simp: geometry_ok_def inj_on_def)
      have "payload_at pool ?i + unat (pl_stride_bytes pool) \<le> payload_at pool ?j \<or>
          payload_at pool ?j + unat (pl_stride_bytes pool) \<le> payload_at pool ?i"
        using geo mems ij by (intro payloads_apart [of _ ?n]) (auto simp: geometry_ok_def)
      then show ?thesis using k q o(2) qp by (auto simp: mem(2) put_bytes_def)
    qed (simp add: mem(2) q(2))
  qed
  with r same v show ?thesis by (auto simp: frame_readable_def)
qed

lemma unat_next_seq: "unat (s :: u64) + 1 \<le> 2 ^ 63 \<Longrightarrow> unat (s + 1) = unat s + 1"
  by (rule unat_plus_1) (auto simp: unsigned_minus_1_eq_mask mask_eq_exp_minus_1)

lemma ring_run:
  assumes codec: "tensor_codec C width known extent" and acc: "slot_accessor acc"
    and size: "sbe_header_length C + unat (sbe_block_length C) \<le> 192"
    and geo: "geometry_ok p" and maps: "maps p c"
    and offers: "\<forall>(env, f, meta)\<in>set offers. en_tensor env = C \<and> header_shape (fr_tensor f)"
    and seq: "unat (pr_next_seq p) + length offers \<le> 2 ^ 63"
    and run: "offer_run p m offers = Some (p', m', seqs)"
  shows "same_regions p p' \<and> unat (pr_next_seq p') = unat (pr_next_seq p) + length offers \<and> length seqs = length offers \<and>
    (\<forall>i<length offers. unat (seqs ! i) = unat (pr_next_seq p) + i \<and>
       (length offers \<le> i + unat (pr_header_nslots p) \<longrightarrow>
         (case offers ! i of (env, f, meta) \<Rightarrow> frame_readable C acc c m' (seqs ! i) f meta)))"
  using offers seq run
proof (induction offers arbitrary: p' m' seqs rule: rev_induct)
  case Nil
  then show ?case by (simp add: same_regions_def)
next
  case (snoc x offers)
  obtain env f meta where x: "x = (env, f, meta)" by (cases x) auto
  let ?k = "length offers" and ?s0 = "unat (pr_next_seq p)" and ?n = "unat (pr_header_nslots p)"
  from snoc.prems(3) obtain q m1 seqs1 stores sent seq where run1: "offer_run p m offers = Some (q, m1, seqs1)"
    and o: "tp_producer_offer_frame env q f meta = Some (p', stores, sent, Inr seq)"
    and m': "m' = apply_stores stores m1" and seqs: "seqs = seqs1 @ [seq]"
    unfolding x offer_run_snoc by blast
  have IH: "same_regions p q" "unat (pr_next_seq q) = ?s0 + ?k" "length seqs1 = ?k"
    "\<forall>i<?k. unat (seqs1 ! i) = ?s0 + i \<and> (?k \<le> i + ?n \<longrightarrow>
       (case offers ! i of (env, f, meta) \<Rightarrow> frame_readable C acc c m1 (seqs1 ! i) f meta))"
    using snoc.IH [OF _ _ run1] snoc.prems(1,2) by auto
  have q: "geometry_ok q" "maps q c" using geo maps IH(1) by (auto simp: same_regions_def geometry_ok_def maps_def)
  have sq: "seq = pr_next_seq q" "same_regions q p'" "pr_next_seq p' = seq + 1"
    using offer_frame_Inr [OF o] by metis+
  have small: "?s0 + ?k + 1 \<le> 2 ^ 63" using snoc.prems(2) by simp
  then have nxt: "unat (pr_next_seq p') = ?s0 + ?k + 1" unfolding sq(3) sq(1) using IH(2) by (subst unat_next_seq) simp_all
  have ef: "en_tensor env = C" "header_shape (fr_tensor f)" using snoc.prems(1) x by auto
  have seq63: "unat seq < 2 ^ 63" using small IH(2) sq(1) by simp
  have last: "frame_readable C acc c m' seq f meta"
    unfolding m' by (rule offer_then_read(1) [OF codec acc size ef q(2) seq63 o])
  have older: "case offers ! i of (env, f, meta) \<Rightarrow> frame_readable C acc c m' (seqs1 ! i) f meta"
    if i: "i < ?k" "?k + 1 \<le> i + ?n" for i
  proof -
    obtain env' f' meta' where y: "offers ! i = (env', f', meta')" by (cases "offers ! i") auto
    have r: "frame_readable C acc c m1 (seqs1 ! i) f' meta'" using IH(4) i y by auto
    have "unat (seqs1 ! i) mod ?n \<noteq> unat seq mod ?n"
    proof
      assume "unat (seqs1 ! i) mod ?n = unat seq mod ?n"
      then have "(?s0 + i) mod ?n = (?s0 + ?k) mod ?n" using IH(2,4) i sq(1) by simp
      then have "?n dvd (?s0 + ?k) - (?s0 + i)" using i(1) by (metis mod_eq_dvd_iff_nat nat_add_left_cancel_le less_imp_le)
      moreover have "0 < ?k - i" "?k - i < ?n" using i by auto
      ultimately show False using i(1) by (auto dest: dvd_imp_le)
    qed
    then have "frame_readable C acc c m' (seqs1 ! i) f' meta'"
      unfolding m' using IH(1) by (intro offer_keeps_other [OF q o _ r]) (simp add: same_regions_def)
    then show ?thesis by (simp add: y)
  qed
  show ?case
    using IH(1,3,4) sq(1,2) nxt last older IH(2)
    by (auto simp: seqs x nth_append same_regions_def less_Suc_eq)
qed

section \<open>Between two stores\<close>

lemma set_field_commit [simp]: "hs_seq_commit (set_field f s) = hs_seq_commit s"
  by (cases f) simp_all

definition plain_store :: "store \<Rightarrow> bool" where
  "plain_store s \<longleftrightarrow> (\<forall>a v. s \<noteq> StoreCommit a v)"

lemma plain_stores_commit:
  "\<forall>s\<in>set ss. plain_store s \<Longrightarrow> hs_seq_commit (sh_slot (apply_stores ss m) a) = hs_seq_commit (sh_slot m a)"
proof (induction ss arbitrary: m)
  case (Cons s ss)
  then have "hs_seq_commit (sh_slot (apply_stores ss (apply_store s m)) a) = hs_seq_commit (sh_slot (apply_store s m) a)" by simp
  also have "\<dots> = hs_seq_commit (sh_slot m a)" using Cons.prems by (cases s) (auto simp: plain_store_def)
  finally show ?case by simp
qed simp

text \<open>
  The stores of a publication are bracketed by the two stores of the commit word, so at any point in
  between the word says that the slot is in progress.
\<close>

lemma frame_stores_bracket:
  "\<exists>mid. frame_head_stores pool i seq payload pid ts meta @ frame_tail_stores i seq hb =
     StoreCommit (tp_slot_at i) (tp_seq_in_progress seq) # mid @ [StoreCommit (tp_slot_at i) (tp_seq_committed seq)] \<and>
     (\<forall>s\<in>set mid. plain_store s)"
  by (auto simp: frame_head_stores_def frame_tail_stores_def Let_def plain_store_def)

lemma bracket_commit:
  assumes "ss = StoreCommit a w # mid @ [StoreCommit a w']" "\<forall>s\<in>set mid. plain_store s" "k \<le> length ss"
  shows "hs_seq_commit (sh_slot (apply_stores (take k ss) m) a) =
    (if k = 0 then hs_seq_commit (sh_slot m a) else if k < length ss then w else w')"
proof (cases k)
  case (Suc j)
  show ?thesis
  proof (cases "j \<le> length mid")
    case True
    then have "take k ss = StoreCommit a w # take j mid" using assms(1) Suc by simp
    moreover have "\<forall>s\<in>set (take j mid). plain_store s" using assms(2) by (meson in_set_takeD)
    ultimately show ?thesis using True assms(1) Suc by (simp add: plain_stores_commit)
  next
    case False
    then have "take k ss = ss" using assms Suc by simp
    then show ?thesis using assms False Suc by simp
  qed
qed simp

lemma read_frame_accepted:
  assumes "tp_consumer_read_frame C acc (m1, m2, m3) c s = (c', Inr (Some v))"
  defines "a \<equiv> tp_slot_at (header_index_of (co_header_nslots c) s)"
  shows "hs_seq_commit (sh_slot m1 a) = hs_seq_commit (sh_slot m3 a)" "tp_seq_is_committed (hs_seq_commit (sh_slot m3 a))"
    "tp_seq_value (hs_seq_commit (sh_slot m3 a)) = s"
  using assms(1) unfolding tp_consumer_read_frame_def a_def
  by (auto simp: Let_def split: if_splits sum.splits option.splits prod.splits)

lemma committed_value: "tp_seq_is_committed w \<Longrightarrow> w = tp_seq_committed (tp_seq_value w)"
proof -
  assume "tp_seq_is_committed w"
  then have "bit w 0" by (simp add: tp_seq_is_committed_def bit_0 and_one_eq odd_iff_mod_2_eq_one)
  then show ?thesis
    by (intro bit_word_eqI) (auto simp: tp_seq_committed_def tp_seq_value_def bit_simps mult.commute [of "drop_bit (Suc 0) w" 2] intro: gr0I)
qed

section \<open>A producer and a consumer of one pool\<close>

definition sample_pool :: tp_payload_pool where
  "sample_pool = \<lparr>pl_pool_id = 1, pl_nslots = 4, pl_stride_bytes = 64, pl_region = 0\<rparr>"

definition sample_producer :: "u64 \<Rightarrow> tp_producer" where
  "sample_producer next_seq =
     \<lparr>pr_pools = [sample_pool], pr_stream_id = 10, pr_epoch = 3, pr_header_nslots = 4, pr_header_mapped = True, pr_next_seq = next_seq,
      pr_use_driver = False, pr_fixed_pool_mode = False, pr_drop_unconnected_descriptors = False,
      pr_publish_descriptor_timestamp = False, pr_descriptor_publication = Some (''aeron:ipc'', 1100),
      pr_control_publication = None, pr_consumer_manager = None, pr_trace_id_generator = None, pr_tracelink_entries = [],
      pr_next_attach_ns = 0, pr_attach_failures = 0, pr_reattach_requested = False\<rparr>"

definition sample_consumer :: tp_consumer where
  "sample_consumer =
     \<lparr>co_pools = [sample_pool], co_stream_id = 10, co_epoch = 3, co_header_nslots = 4, co_state = TP_CONSUMER_STATE_MAPPED,
      co_use_shm = True, co_shm_mapped = True, co_mapped_epoch = 3, co_attach_time_ns = 0, co_last_seq_seen = 0,
      co_drops_gap = 0, co_drops_late = 0, co_last_qos_ns = 0, co_use_driver = False, co_next_attach_ns = 0,
      co_attach_failures = 0, co_reattach_requested = False\<rparr>"

definition sample_env :: tp_env where
  "sample_env =
     \<lparr>en_tensor = le_codec tensor_header_layout, en_descriptor = le_codec frame_descriptor_layout, en_offer = (\<lambda>_ _. 64),
      en_not_connected = - 1, en_slot_now_ns = 500, en_descriptor_now_ns = 600, en_now_ns = 700, en_trace_rounds = []\<rparr>"

definition sample_frame :: "bytes \<Rightarrow> tp_frame" where
  "sample_frame payload = \<lparr>fr_tensor = sample_tensor majorOrder_ROW, fr_payload = payload, fr_trace_id = 7\<rparr>"

definition sample_prepared :: tp_tensor_header where
  "sample_prepared = (sample_tensor majorOrder_ROW)\<lparr>th_strides := [24, 8, 0, 0, 0, 0, 0, 0]\<rparr>"

definition zero_shm :: shm where
  "zero_shm = \<lparr>sh_slot = (\<lambda>_. \<lparr>hs_seq_commit = 0, hs_values_len_bytes = 0, hs_payload_slot = 0, hs_pool_id = 0,
     hs_payload_offset = 0, hs_timestamp_ns = 0, hs_meta_version = 0, hs_header_len = 0, hs_header_bytes = []\<rparr>),
     sh_payload = (\<lambda>_ _. 0)\<rparr>"

lemmas sample_defs = sample_producer_def sample_consumer_def sample_env_def sample_frame_def sample_pool_def

lemma sample_tensor_facts:
  "header_shape (sample_tensor majorOrder_ROW)" "tp_prepare_tensor_header (sample_tensor majorOrder_ROW) = Inr sample_prepared"
  by code_simp+

lemma sample_codec:
  "tensor_codec (en_tensor sample_env) (le_width tensor_header_layout) (le_known tensor_header_layout) (le_extent tensor_header_layout)"
  "sbe_header_length (en_tensor sample_env) + unat (sbe_block_length (en_tensor sample_env)) \<le> 192"
  using tensor.tensor_codec_axioms by (simp_all add: sample_env_def tensor_layout_sizes)

lemma sample_encode: "\<exists>hb. tp_encode_tensor_header (en_tensor sample_env) (unat TP_HEADER_SLOT_BYTES) sample_prepared = Inr hb"
  by (simp add: tp_encode_tensor_header_def sample_env_def tensor_layout_sizes TP_HEADER_SLOT_BYTES_def)

lemma sample_publish:
  assumes "length payload \<le> 64"
  shows "\<exists>stores sent. tp_producer_publish_frame sample_env (sample_producer n) seq (sample_tensor majorOrder_ROW) payload 1 ts meta 7 =
    (sample_producer n, stores, sent, Inr ())"
proof -
  obtain hb where hb: "tp_encode_tensor_header (en_tensor sample_env) (unat TP_HEADER_SLOT_BYTES) sample_prepared = Inr hb"
    using sample_encode by blast
  have pool: "tp_find_pool (pr_pools (sample_producer n)) 1 = Some sample_pool" "unat (pl_stride_bytes sample_pool) = 64"
    "pr_header_nslots (sample_producer n) \<noteq> 0" "length (pr_pools (sample_producer n)) \<noteq> 0" "pr_header_mapped (sample_producer n)"
    by (simp_all add: tp_find_pool_def sample_defs)
  have desc: "\<exists>sent. tp_producer_publish_descriptor sample_env (sample_producer n) d = (sample_producer n, sent, Inr ())" for d
    by (simp add: tp_producer_publish_descriptor_def sample_producer_def offer_descriptor_def tp_producer_publish_descriptor_to_def
        tp_producer_record_tracelink_descriptor_def Let_def) (simp add: sample_env_def)
  show ?thesis
    unfolding tp_producer_publish_frame_def Let_def
    using assms desc [of "\<lparr>fd_seq = seq, fd_timestamp_ns = TP_NULL_U64, fd_meta_version = meta, fd_trace_id = 7\<rparr>"]
    by (auto simp: pool hb sample_tensor_facts(2)) (auto simp: sample_producer_def)
qed

lemma sample_offer:
  assumes "length payload \<le> 64"
  shows "\<exists>stores sent. tp_producer_offer_frame sample_env (sample_producer n) (sample_frame payload) None =
    Some (sample_producer (n + 1), stores, sent, Inr n)"
proof -
  have p: "pr_header_nslots (sample_producer n) \<noteq> 0" "pr_pools (sample_producer n) \<noteq> []" "pr_header_mapped (sample_producer n)"
    "(sample_producer n)\<lparr>pr_next_seq := n + 1\<rparr> = sample_producer (n + 1)" "pr_next_seq (sample_producer n) = n"
    "tp_find_pool_for_length (sample_producer n) (length payload) = Some sample_pool" "pl_pool_id sample_pool = 1"
    "tp_producer_resolve_trace_id sample_env (sample_producer n) 7 = Some (Inr (sample_producer n, 7))"
    using assms by (simp_all add: sample_defs tp_find_pool_for_length_def tp_producer_resolve_trace_id_def)
  obtain stores sent where "tp_producer_publish_frame sample_env (sample_producer (n + 1)) n (sample_tensor majorOrder_ROW) payload 1
      TP_NULL_U64 TP_NULL_U32 7 = (sample_producer (n + 1), stores, sent, Inr ())"
    using sample_publish [OF assms] by blast
  then show ?thesis by (simp add: tp_producer_offer_frame_def sample_frame_def p Let_def)
qed

lemma sample_run:
  "\<forall>b\<in>set bs. length b \<le> 64 \<Longrightarrow> \<exists>m' seqs. offer_run (sample_producer n) m (map (\<lambda>b. (sample_env, sample_frame b, None)) bs) =
     Some (sample_producer (n + of_nat (length bs)), m', seqs)"
proof (induction bs arbitrary: n m)
  case (Cons b bs)
  obtain stores sent where o: "tp_producer_offer_frame sample_env (sample_producer n) (sample_frame b) None =
      Some (sample_producer (n + 1), stores, sent, Inr n)" using sample_offer [of b n] Cons.prems by auto
  from Cons.IH [of "n + 1" "apply_stores stores m"] Cons.prems show ?case by (auto simp: o add.assoc)
qed simp

lemma sample_geometry: "geometry_ok (sample_producer n)" "maps (sample_producer n) sample_consumer"
  by (simp_all add: geometry_ok_def maps_def sample_defs tp_is_power_of_two_def)

section \<open>Properties of the data path\<close>

text \<open>
  C1: after any run of accepted offers, the offers have consecutive sequence numbers, and each of the
  last \<open>header_nslots\<close> frames is read back by a consumer that maps the same regions, with the tensor
  header, the payload bytes and the metadata version that were offered, provided no region is so large
  that a slot offset wraps.
\<close>

theorem ring_window:
  assumes "tensor_codec C width known extent" "slot_accessor header_bytes_of"
    and "sbe_header_length C + unat (sbe_block_length C) \<le> 192"
    and "geometry_ok p" "maps p c"
    and "\<forall>(env, f, meta)\<in>set offers. en_tensor env = C \<and> header_shape (fr_tensor f)"
    and "unat (pr_next_seq p) + length offers \<le> 2 ^ 63"
    and "offer_run p m offers = Some (p', m', seqs)"
  shows "length seqs = length offers \<and>
    (\<forall>i<length offers. unat (seqs ! i) = unat (pr_next_seq p) + i \<and>
       (length offers \<le> i + unat (pr_header_nslots p) \<longrightarrow>
         (case offers ! i of (env, f, meta) \<Rightarrow> frame_readable C header_bytes_of c m' (seqs ! i) f meta)))"
  by (rule conjunct2 [OF conjunct2 [OF ring_run [OF assms]]])

theorem ring_window_witness:
  "\<exists>m'. frame_readable (en_tensor sample_env) slot_header_bytes sample_consumer m' 1 (sample_frame [2]) None \<and>
     frame_readable (en_tensor sample_env) slot_header_bytes sample_consumer m' 4 (sample_frame [5]) None"
proof -
  let ?offers = "map (\<lambda>b. (sample_env, sample_frame b, None)) [[1], [2], [3], [4], [5]]"
  obtain m' seqs where run: "offer_run (sample_producer 0) zero_shm ?offers = Some (sample_producer 5, m', seqs)"
    using sample_run [of "[[1], [2], [3], [4], [5]]" 0 zero_shm] by auto
  have offers: "\<forall>(env, f, meta)\<in>set ?offers. en_tensor env = en_tensor sample_env \<and> header_shape (fr_tensor f)"
    using sample_tensor_facts(1) by (simp add: sample_frame_def)
  have seq: "unat (pr_next_seq (sample_producer 0)) + length ?offers \<le> 2 ^ 63" by (simp add: sample_producer_def)
  note w = ring_window [OF sample_codec(1) sbe_slot.slot_accessor_axioms sample_codec(2) sample_geometry offers seq run]
  have "unat (seqs ! 1) = 1" "unat (seqs ! 4) = 4" "frame_readable (en_tensor sample_env) slot_header_bytes sample_consumer m' (seqs ! 1) (sample_frame [2]) None"
    "frame_readable (en_tensor sample_env) slot_header_bytes sample_consumer m' (seqs ! 4) (sample_frame [5]) None"
    using spec [OF conjunct2 [OF w], of 1] spec [OF conjunct2 [OF w], of 4] by (simp_all add: sample_producer_def)
  moreover have "seqs ! 1 = 1" "seqs ! 4 = 4" using calculation(1,2) by (simp_all add: word_unat_eq_iff)
  ultimately show ?thesis by auto
qed

text \<open>
  C13: while a frame is published, a consumer whose first load, decoding and second load see the memory
  after \<open>k1\<close>, \<open>k2\<close> and \<open>k3\<close> of the producer's stores accepts the new frame only if all three see
  every store, and accepts the frame that the slot held before only if all three see none: it never
  accepts a mixture.
\<close>

theorem publish_not_torn:
  assumes "tp_producer_publish_frame env p seq tensor payload pid ts meta trace = (p', stores, sent, Inr u)"
    and "unat seq < 2 ^ 63" "k1 \<le> k2" "k2 \<le> k3" "k3 \<le> length stores"
    and "header_index_of (pr_header_nslots p) s = header_index_of (pr_header_nslots p) seq"
    and "co_header_nslots c = pr_header_nslots p"
    and fresh: "hs_seq_commit (sh_slot m (tp_slot_at (header_index_of (pr_header_nslots p) seq))) \<noteq> tp_seq_committed seq"
    and "tp_consumer_read_frame C header_bytes_of
      (apply_stores (take k1 stores) m, apply_stores (take k2 stores) m, apply_stores (take k3 stores) m) c s = (c', Inr (Some v))"
  shows "if s = seq then k1 = length stores \<and> k2 = length stores \<and> k3 = length stores else k1 = 0 \<and> k2 = 0 \<and> k3 = 0"
proof -
  let ?a = "tp_slot_at (header_index_of (pr_header_nslots p) seq)"
  let ?w = "\<lambda>k. hs_seq_commit (sh_slot (apply_stores (take k stores) m) ?a)"
  from publish_frame_Inr [OF assms(1)] obtain pool ts' hb
    where st: "stores = frame_head_stores pool (header_index_of (pr_header_nslots p) seq) seq payload pid ts' meta @
      frame_tail_stores (header_index_of (pr_header_nslots p) seq) seq hb" by blast
  obtain mid where mid: "stores = StoreCommit ?a (tp_seq_in_progress seq) # mid @ [StoreCommit ?a (tp_seq_committed seq)]"
    "\<forall>s\<in>set mid. plain_store s"
    using frame_stores_bracket [of pool "header_index_of (pr_header_nslots p) seq" seq payload pid ts' meta hb] st by metis
  have word: "?w k = (if k = 0 then hs_seq_commit (sh_slot m ?a) else if k < length stores then tp_seq_in_progress seq
      else tp_seq_committed seq)" if "k \<le> length stores" for k
    by (rule bracket_commit [OF mid that])
  have r: "?w k1 = ?w k3" "tp_seq_is_committed (?w k3)" "tp_seq_value (?w k3) = s"
    using read_frame_accepted [OF assms(9)] assms(6,7) by simp_all
  have "k1 \<le> length stores" using assms(3-5) by simp
  note ends = word [OF this] word [OF assms(5)] cw.in_progress_is [of seq] cw.val_committed [OF assms(2)]
  show ?thesis
  proof (cases "s = seq")
    case True
    then have "?w k3 = tp_seq_committed seq" using committed_value [OF r(2)] r(3) by simp
    then have "k1 \<noteq> 0" "\<not> k1 < length stores" using r(1) ends fresh cw.in_progress_neq [of seq seq] by (auto split: if_splits)
    with True assms(3-5) show ?thesis by auto
  next
    case False
    then have "k3 = 0" using r(2,3) ends by (auto split: if_splits)
    with False assms(3,4) show ?thesis by simp
  qed
qed

theorem publish_not_torn_witness:
  "\<exists>stores sent k v. tp_producer_publish_frame sample_env (sample_producer 0) 6 (sample_tensor majorOrder_ROW) [1, 2] 1 0 0 7 =
       (sample_producer 0, stores, sent, Inr ()) \<and> k = length stores \<and>
     tp_consumer_read_frame (en_tensor sample_env) slot_header_bytes
       (apply_stores (take k stores) zero_shm, apply_stores (take k stores) zero_shm, apply_stores (take k stores) zero_shm)
       sample_consumer 6 = (sample_consumer, Inr (Some v))"
proof -
  obtain stores sent where pub: "tp_producer_publish_frame sample_env (sample_producer 0) 6 (sample_tensor majorOrder_ROW) [1, 2] 1 0 0 7 =
     (sample_producer 0, stores, sent, Inr ())" using sample_publish [of "[1, 2]"] by fastforce
  let ?C = "en_tensor sample_env" and ?k = "length stores"
  let ?m = "apply_stores (take ?k stores) zero_shm"
  from publish_frame_Inr [OF pub] obtain hb where hb: "tp_encode_tensor_header ?C (unat TP_HEADER_SLOT_BYTES) sample_prepared = Inr hb"
    and st: "stores = frame_head_stores sample_pool (header_index_of 4 6) 6 [1, 2] 1 (slot_timestamp sample_env 0) 0 @
      frame_tail_stores (header_index_of 4 6) 6 (take (sbe_header_length ?C + unat (sbe_block_length ?C)) hb)"
    by (auto simp: tp_find_pool_def sample_producer_def sample_pool_def sample_tensor_facts)
  note mem = frame_stores_memory [OF arg_cong [of _ _ "\<lambda>ss. apply_stores ss zero_shm", OF st]]
  have n: "co_header_nslots sample_consumer = 4" "pr_header_nslots (sample_producer 0) = 4" by (simp_all add: sample_defs)
  have "\<exists>v. tp_consumer_read_frame ?C slot_header_bytes (still ?m) sample_consumer 6 = (sample_consumer, Inr (Some v))"
    by (rule exI, rule read_written_slot(1) [OF sample_codec(1) sbe_slot.slot_accessor_axioms sample_codec(2) hb
        prepared_valid [OF sample_tensor_facts], where pool = sample_pool and payload = "[1, 2]" and pid = 1])
      (simp_all add: mem n, simp_all add: sample_defs tp_consumer_find_pool_def)
  then obtain v where v: "tp_consumer_read_frame ?C slot_header_bytes (still ?m) sample_consumer 6 = (sample_consumer, Inr (Some v))" ..
  have "tp_seq_committed 6 \<noteq> 0" by code_simp
  then have "hs_seq_commit (sh_slot zero_shm (tp_slot_at (header_index_of (pr_header_nslots (sample_producer 0)) 6))) \<noteq> tp_seq_committed 6"
    by (simp add: zero_shm_def)
  from publish_not_torn [OF pub _ order_refl order_refl order_refl refl _ this v] n pub v show ?thesis by auto
qed



text \<open>
  A frame that was read stays valid only until the producer comes round: when the slot is published
  again, the pointer that read_frame returned shows the bytes of the new frame, although the consumer
  accepted the old one. The commit word was checked before the application reads the payload.
\<close>

theorem accepted_payload_overwritten:
  assumes "maps p c" "pr_pools p = [pool]"
    and "tp_consumer_read_frame C header_bytes_of mem c s = (c', Inr (Some v))"
    and "tp_producer_offer_frame env p f meta = Some (p', stores, sent, Inr seq)"
    and "header_index_of (pr_header_nslots p) s = header_index_of (pr_header_nslots p) seq"
  shows "load_payload (apply_stores stores m) (fv_payload v) (length (fr_payload f)) = fr_payload f"
proof -
  let ?i = "header_index_of (pr_header_nslots p) seq"
  from offer_frame_Inr [OF assms(4)] obtain pid q hb ts mv
    where q: "tp_find_pool (pr_pools p) pid = Some q"
      and st: "stores = frame_head_stores q ?i seq (fr_payload f) pid ts mv @ frame_tail_stores ?i seq hb"
    by metis
  have qp: "q = pool" using q assms(2) by (auto simp: tp_find_pool_def split: if_splits)
  note mem = frame_stores_memory [OF arg_cong [of _ _ "\<lambda>ss. apply_stores ss m", OF st]]
  obtain q' where q': "tp_consumer_find_pool c (fv_pool_id v) = Some q'"
    "fv_payload v = (pl_region q', payload_at q' (header_index_of (co_header_nslots c) s))"
    by (rule read_frame_view [OF assms(3)])
  have "q' = pool" using q'(1) assms(1,2) by (auto simp: maps_def tp_consumer_find_pool_def split: if_splits)
  with q'(2) assms(1,5) have "fv_payload v = (pl_region pool, payload_at pool ?i)" by (simp add: maps_def)
  then show ?thesis by (auto simp: load_payload_def mem(2) put_bytes_def qp intro: nth_equalityI)
qed

text \<open>A run of five offers on a ring of four slots: the pointer to frame 0 shows frame 4.\<close>

text \<open>
  With a stride of 2 GiB the 32-bit product that places a payload wraps: frames 0 and 2 of a ring
  of four slots have their payloads at the same offset, although the region has room for four.
\<close>

theorem payload_slots_alias:
  "\<exists>pool. pl_stride_bytes pool = 0x80000000 \<and> header_index_of 4 0 \<noteq> header_index_of 4 2 \<and>
     payload_at pool (header_index_of 4 0) = payload_at pool (header_index_of 4 2)"
  by (rule exI [of _ "\<lparr>pl_pool_id = 1, pl_nslots = 4, pl_stride_bytes = 0x80000000, pl_region = 0\<rparr>"])
    (simp add: payload_at_def header_index_of_def)

text \<open>
  Of a published frame, progress is accepted exactly when it does not claim more bytes than the
  frame has.
\<close>

theorem progress_after_offer:
  assumes "tensor_codec C width known extent" "slot_accessor header_bytes_of"
    and "sbe_header_length C + unat (sbe_block_length C) \<le> 192"
    and "en_tensor env = C" "header_shape (fr_tensor f)" "maps p c" "unat seq < 2 ^ 63"
    and "tp_producer_offer_frame env p f meta = Some (p', stores, sent, Inr seq)"
  shows "tp_consumer_validate_progress C header_bytes_of (still (apply_stores stores m)) c
      \<lparr>fp_stream_id = co_stream_id c, fp_epoch = co_epoch c, fp_seq = seq, fp_payload_bytes_filled = filled\<rparr> =
      (if unat filled \<le> length (fr_payload f) then Inr True
       else Inl (EINVAL ''tp_consumer_validate_progress: payload bytes exceed values''))"
  by (rule offer_then_read(2) [OF assms])

section \<open>Descriptors and gaps\<close>

lemma handler_descriptor:
  assumes "descriptor_codec C width known extent" "co_shm_mapped c" "co_mapped_epoch c = epoch"
    and "co_last_seq_seen c \<noteq> 0" "co_last_seq_seen c < fd_seq d"
  shows "tp_consumer_descriptor_handler C c (descriptor_message C stream_id epoch d) =
    (c\<lparr>co_last_seq_seen := fd_seq d, co_drops_gap := co_drops_gap c + (fd_seq d - co_last_seq_seen c - 1)\<rparr>, Some d)"
proof -
  have "fd_seq d = co_last_seq_seen c + 1" if "\<not> co_last_seq_seen c + 1 < fd_seq d"
    using that assms(5) by (metis inc_le linorder_not_le order_antisym_conv)
  then show ?thesis
    using assms by (auto simp: tp_consumer_descriptor_handler_def descriptor_codec.descriptor_roundtrip [OF assms(1)] Let_def)
qed

text \<open>
  A consumer that receives descriptors with increasing sequence numbers passes each one on as it
  was published, remembers the last, and its gap counter grows by exactly the number of sequence
  numbers that are missing between the last one it had seen and the last one received.
\<close>

theorem descriptor_gap_count:
  assumes "descriptor_codec C width known extent" "co_shm_mapped c" "co_mapped_epoch c = epoch" "co_last_seq_seen c \<noteq> 0"
    and "sorted_wrt (<) (co_last_seq_seen c # map fd_seq ds)"
  shows "let (c', seen) = fold (\<lambda>d (c, seen). case tp_consumer_descriptor_handler C c (descriptor_message C stream_id epoch d) of
           (c', v) \<Rightarrow> (c', seen @ [v])) ds (c, [])
    in seen = map Some ds \<and> co_last_seq_seen c' = last (co_last_seq_seen c # map fd_seq ds) \<and>
      co_drops_gap c' = co_drops_gap c + (co_last_seq_seen c' - co_last_seq_seen c - of_nat (length ds))"
proof -
  let ?step = "\<lambda>d (c, seen). case tp_consumer_descriptor_handler C c (descriptor_message C stream_id epoch d) of (c', v) \<Rightarrow> (c', seen @ [v])"
  have "\<exists>c'. fold ?step ds (c, seen) = (c', seen @ map Some ds) \<and> co_last_seq_seen c' = last (co_last_seq_seen c # map fd_seq ds) \<and>
      co_drops_gap c' = co_drops_gap c + (co_last_seq_seen c' - co_last_seq_seen c - of_nat (length ds))" for seen
    using assms(2-5)
  proof (induction ds arbitrary: c seen)
    case (Cons d ds)
    let ?c = "c\<lparr>co_last_seq_seen := fd_seq d, co_drops_gap := co_drops_gap c + (fd_seq d - co_last_seq_seen c - 1)\<rparr>"
    have d: "co_last_seq_seen c < fd_seq d" "fd_seq d \<noteq> 0" using Cons.prems(4) by auto
    from Cons.IH [of ?c "seen @ [Some d]"] Cons.prems d obtain c' where c':
      "fold ?step ds (?c, seen @ [Some d]) = (c', (seen @ [Some d]) @ map Some ds)"
      "co_last_seq_seen c' = last (fd_seq d # map fd_seq ds)"
      "co_drops_gap c' = co_drops_gap ?c + (co_last_seq_seen c' - fd_seq d - of_nat (length ds))" by auto
    have "fold ?step (d # ds) (c, seen) = (c', seen @ map Some (d # ds))"
      using handler_descriptor [OF assms(1) Cons.prems(1-3) d(1), of stream_id] c'(1) by simp
    then show ?case using c'(2,3) by (auto simp: algebra_simps)
  qed simp
  from this [of "[]"] show ?thesis by auto
qed

end
