(* ===== verification/Tp_Text.thy ===== *)
theory Tp_Text
  imports Tp_Prelude "HOL-Library.Sublist"
begin

text \<open>
  The C library's string functions that the path and URI code uses, on strings without the
  terminating NUL: \<open>strncmp\<close>, \<open>isalnum\<close> in the C locale, and the \<open>%u\<close> conversion
  of \<open>snprintf\<close>. The lemmas say that a decimal numeral determines its number and that a
  path whose components contain no slash determines its components.
\<close>

section \<open>Optional answers of the system\<close>

lemma case_option_Inr [res_simps]:
  "(case x of None \<Rightarrow> Inl e | Some y \<Rightarrow> f y) = Inr z \<longleftrightarrow> (\<exists>y. x = Some y \<and> f y = Inr z)"
  by (cases x) auto

lemma bind_prod_Inr [res_simps]:
  "bind_res r (\<lambda>(x, y). f x y) = Inr z \<longleftrightarrow> (\<exists>x y. r = Inr (x, y) \<and> f x y = Inr z)"
  by (cases r) auto

section \<open>Comparison and character classes\<close>

text \<open>\<open>strncmp(a, b, n) == 0\<close>: the strings agree up to \<open>n\<close> characters or to their common end.\<close>

definition strncmp_eq :: "string \<Rightarrow> string \<Rightarrow> nat \<Rightarrow> bool" where
  "strncmp_eq a b n \<longleftrightarrow> take n a = take n b"

lemma strncmp_eq_key: "strncmp_eq (key @ more) b (length key) \<longleftrightarrow> prefix key b"
  by (auto simp: strncmp_eq_def prefix_def) (metis append_take_drop_id)

lemma strncmp_eq_prefix: "strncmp_eq a b (length b) \<longleftrightarrow> prefix b a"
  by (auto simp: strncmp_eq_def prefix_def) (metis append_take_drop_id)

definition is_digit :: "char \<Rightarrow> bool" where
  "is_digit c \<longleftrightarrow> c \<in> set ''0123456789''"

definition isalnum :: "char \<Rightarrow> bool" where
  "isalnum c \<longleftrightarrow> is_digit c \<or> c \<in> set ''abcdefghijklmnopqrstuvwxyz'' \<or> c \<in> set ''ABCDEFGHIJKLMNOPQRSTUVWXYZ''"

section \<open>Decimal numerals\<close>

definition digit :: "nat \<Rightarrow> char" where
  "digit n = ''0123456789'' ! n"

fun decimal :: "nat \<Rightarrow> string" where
  "decimal n = (if n < 10 then [digit n] else decimal (n div 10) @ [digit (n mod 10)])"

declare decimal.simps [simp del]

lemma digit_is_digit: "n < 10 \<Longrightarrow> is_digit (digit n)"
  unfolding is_digit_def digit_def by (rule nth_mem) simp

lemma digit_inj: "m < 10 \<Longrightarrow> n < 10 \<Longrightarrow> digit m = digit n \<longleftrightarrow> m = n"
  unfolding digit_def by (rule nth_eq_iff_index_eq) simp_all

lemma decimal_digits: "c \<in> set (decimal n) \<Longrightarrow> is_digit c"
proof (induction n rule: decimal.induct)
  case (1 n)
  then show ?case
    by (cases "n < 10") (auto simp: decimal.simps [of n] digit_is_digit)
qed

lemma decimal_not_Nil [simp]: "decimal n \<noteq> []" "[] \<noteq> decimal n"
  by (simp_all add: decimal.simps [of n])

lemma decimal_inj [simp]: "decimal m = decimal n \<longleftrightarrow> m = n"
proof
  show "decimal m = decimal n \<Longrightarrow> m = n"
  proof (induction m arbitrary: n rule: decimal.induct)
    case (1 m)
    consider (small) "m < 10" "n < 10" | (left) "m < 10" "\<not> n < 10" | (right) "\<not> m < 10" "n < 10"
      | (large) "\<not> m < 10" "\<not> n < 10" by blast
    then show ?case
    proof cases
      case large
      then have "m div 10 = n div 10 \<and> m mod 10 = n mod 10"
        using "1.prems" "1.IH" [of "n div 10"]
        by (simp add: decimal.simps [of m] decimal.simps [of n] digit_inj)
      then show ?thesis by (metis div_mult_mod_eq)
    qed (use "1.prems" in \<open>simp_all add: decimal.simps [of m] decimal.simps [of n] digit_inj\<close>)
  qed
qed simp

lemma decimal_clean: "\<not> is_digit c \<Longrightarrow> c \<notin> set (decimal n)"
  using decimal_digits by blast

section \<open>Components of a path\<close>

lemma component_split:
  assumes "a @ c # x = b @ c # y" "c \<notin> set a" "c \<notin> set b"
  shows "a = b" "x = y"
  using assms by (auto simp: append_eq_append_conv2 append_eq_Cons_conv Cons_eq_append_conv)

lemma takeWhile_component: "c \<notin> set a \<Longrightarrow> takeWhile (\<lambda>d. d \<noteq> c) (a @ c # x) = a"
  by (subst takeWhile_append2) auto

lemma dropWhile_component: "c \<notin> set a \<Longrightarrow> dropWhile (\<lambda>d. d \<noteq> c) (a @ c # x) = c # x"
  by (subst dropWhile_append2) auto

lemma takeWhile_last: "c \<notin> set a \<Longrightarrow> takeWhile (\<lambda>d. d \<noteq> c) a = a"
  by (induction a) auto

lemma dropWhile_last: "c \<notin> set a \<Longrightarrow> dropWhile (\<lambda>d. d \<noteq> c) a = []"
  by (induction a) auto

lemma dropWhile_shorter [termination_simp]:
  "xs \<noteq> [] \<Longrightarrow> length (dropWhile p xs) - Suc 0 < length xs"
  using length_dropWhile_le [of p xs] by (cases xs) auto

lemmas component_simps = takeWhile_component dropWhile_component takeWhile_last dropWhile_last

end
