(* ===== verification/Tp_Uri.thy ===== *)
theory Tp_Uri
  imports Tp_Text
begin

text \<open>
  Shared-memory URIs (src/src/common/tp_uri.c): the parser of \<open>shm:file?path=..|require_hugepages=..\<close>
  and the check of a payload fallback URI.
\<close>

section \<open>Parsing\<close>

record tp_shm_uri =
  su_path :: string
  su_require_hugepages :: bool

definition tp_uri_parse_bool :: "string \<Rightarrow> bool option" where
  "tp_uri_parse_bool val =
     (if val = ''true'' then Some True else if val = ''false'' then Some False else None)"

text \<open>
  One parameter: \<open>cursor\<close> is the rest of the URI, whose first \<open>key_len\<close> characters are the
  key, and \<open>val\<close> the text between the equals sign and the separator. The buffers are
  \<open>char path[4096]\<close> and \<open>char value[16]\<close>.
\<close>

definition tp_shm_uri_param :: "string \<Rightarrow> nat \<Rightarrow> string \<Rightarrow> bool \<Rightarrow> tp_shm_uri \<Rightarrow> (bool \<times> tp_shm_uri) res" where
  "tp_shm_uri_param cursor key_len val have_path out =
     (if strncmp_eq cursor ''path'' key_len then
        guard have_path (EINVAL ''tp_shm_uri_parse: duplicate path parameter'')
        (guard (length val \<ge> 4096) (EINVAL ''tp_shm_uri_parse: path too long'')
        (Inr (True, out\<lparr>su_path := val\<rparr>)))
      else if strncmp_eq cursor ''require_hugepages'' key_len then
        guard (length val \<ge> 16) (EINVAL ''tp_shm_uri_parse: require_hugepages too long'')
        (case tp_uri_parse_bool val of
           None \<Rightarrow> Inl (EINVAL ''tp_shm_uri_parse: invalid require_hugepages'')
         | Some flag \<Rightarrow> Inr (have_path, out\<lparr>su_require_hugepages := flag\<rparr>))
      else Inl (EINVAL ''tp_shm_uri_parse: unknown parameter''))"

text \<open>
  The \<open>while (*cursor)\<close> loop. A separator that ends the URI is accepted: the cursor
  then stands on the terminating NUL.
\<close>

fun tp_shm_uri_loop :: "string \<Rightarrow> bool \<Rightarrow> tp_shm_uri \<Rightarrow> (bool \<times> tp_shm_uri) res" where
  "tp_shm_uri_loop cursor have_path out =
     (if cursor = [] then Inr (have_path, out)
      else
        (let param = takeWhile (\<lambda>c. c \<noteq> CHR ''|'') cursor;
             sep = dropWhile (\<lambda>c. c \<noteq> CHR ''|'') cursor;
             key = takeWhile (\<lambda>c. c \<noteq> CHR ''='') param;
             eq = dropWhile (\<lambda>c. c \<noteq> CHR ''='') param;
             val = tl eq
         in guard (eq = []) (EINVAL ''tp_shm_uri_parse: invalid parameter'')
            (guard (key = [] \<or> val = []) (EINVAL ''tp_shm_uri_parse: empty key or value'')
            (bind_res (tp_shm_uri_param cursor (length key) val have_path out)
              (\<lambda>(have_path, out).
                 if sep = [] then Inr (have_path, out) else tp_shm_uri_loop (tl sep) have_path out)))))"

declare tp_shm_uri_loop.simps [simp del]

definition tp_shm_uri_parse :: "string \<Rightarrow> tp_shm_uri res" where
  "tp_shm_uri_parse uri =
     guard (\<not> strncmp_eq uri ''shm:file?'' (length ''shm:file?'')) (EINVAL ''tp_shm_uri_parse: unsupported scheme'')
     (bind_res (tp_shm_uri_loop (drop (length ''shm:file?'') uri) False \<lparr>su_path = [], su_require_hugepages = False\<rparr>)
       (\<lambda>(have_path, out).
          guard (\<not> have_path) (EINVAL ''tp_shm_uri_parse: missing path parameter'')
          (guard (take 1 (su_path out) \<noteq> ''/'') (EINVAL ''tp_shm_uri_parse: path must be absolute'')
          (Inr out))))"

definition tp_payload_fallback_uri_supported :: "string \<Rightarrow> nat \<Rightarrow> bool" where
  "tp_payload_fallback_uri_supported uri uri_len \<longleftrightarrow>
     uri_len = 0 \<or> uri_len \<ge> 6 \<and> strncmp_eq uri ''aeron:'' 6 \<or> uri_len \<ge> 9 \<and> strncmp_eq uri ''bridge://'' 9"

section \<open>What the parser accepts\<close>

text \<open>A parsed path fits its buffer and contains no separator.\<close>

definition path_field_ok :: "bool \<Rightarrow> tp_shm_uri \<Rightarrow> bool" where
  "path_field_ok have_path out \<longleftrightarrow>
     length (su_path out) < 4096 \<and> CHR ''|'' \<notin> set (su_path out) \<and> (have_path \<longrightarrow> su_path out \<noteq> [])"

lemma uri_param_ok:
  assumes "tp_shm_uri_param cursor n val hp out = Inr (hp', out')" "path_field_ok hp out"
    "val \<noteq> []" "CHR ''|'' \<notin> set val"
  shows "path_field_ok hp' out'"
  using assms
  by (auto simp: tp_shm_uri_param_def path_field_ok_def guard_Inr split: if_splits option.splits)

lemma uri_loop_ok:
  "tp_shm_uri_loop cursor hp out = Inr (hp', out') \<Longrightarrow> path_field_ok hp out \<Longrightarrow> path_field_ok hp' out'"
proof (induction cursor hp out rule: tp_shm_uri_loop.induct)
  case (1 cursor hp out)
  let ?param = "takeWhile (\<lambda>c. c \<noteq> CHR ''|'') cursor"
  let ?sep = "dropWhile (\<lambda>c. c \<noteq> CHR ''|'') cursor"
  let ?eq = "dropWhile (\<lambda>c. c \<noteq> CHR ''='') ?param"
  show ?case
  proof (cases "cursor = []")
    case True
    then show ?thesis using "1.prems" by (simp add: tp_shm_uri_loop.simps [of "[]"])
  next
    case False
    then obtain hp1 out1 where p: "tp_shm_uri_param cursor (length (takeWhile (\<lambda>c. c \<noteq> CHR ''='') ?param)) (tl ?eq) hp out
          = Inr (hp1, out1)"
      and nz: "?eq \<noteq> []" "takeWhile (\<lambda>c. c \<noteq> CHR ''='') ?param \<noteq> []" "tl ?eq \<noteq> []"
      and k: "(if ?sep = [] then Inr (hp1, out1) else tp_shm_uri_loop (tl ?sep) hp1 out1) = Inr (hp', out')"
      using "1.prems"(1)
      by (auto simp: tp_shm_uri_loop.simps [of cursor] Let_def guard_Inr bind_res_Inr split: prod.splits)
    have sub: "set (tl ?eq) \<subseteq> set ?param"
      by (rule subsetI) (rule set_dropWhileD, rule list.set_sel(2) [OF nz(1)])
    have "CHR ''|'' \<notin> set (tl ?eq)"
      using sub set_takeWhileD [of "CHR ''|''" _ cursor] by blast
    then have ok: "path_field_ok hp1 out1" using uri_param_ok [OF p "1.prems"(2) nz(3)] by blast
    show ?thesis
    proof (cases "?sep = []")
      case True
      then show ?thesis using k ok by simp
    next
      case sep: False
      show ?thesis
        by (rule "1.IH" [OF False refl refl refl refl refl sep k [unfolded if_not_P [OF sep]] ok])
    qed
  qed
qed

lemma uri_parse_ok:
  assumes "tp_shm_uri_parse uri = Inr out"
  shows "path_field_ok True out" "take 1 (su_path out) = ''/''"
proof -
  obtain hp where l: "tp_shm_uri_loop (drop (length ''shm:file?'') uri) False \<lparr>su_path = [], su_require_hugepages = False\<rparr>
      = Inr (hp, out)" and hp: "hp" and abs: "take 1 (su_path out) = ''/''"
    using assms by (auto simp: tp_shm_uri_parse_def guard_Inr bind_res_Inr split: prod.splits)
  show "path_field_ok True out"
    using uri_loop_ok [OF l] hp by (simp add: path_field_ok_def)
  show "take 1 (su_path out) = ''/''" by (rule abs)
qed

section \<open>Printed URIs\<close>

text \<open>One step of the loop on a well-formed parameter that a separator follows, or that ends the URI.\<close>

lemma uri_loop_param:
  assumes "key \<noteq> []" "val \<noteq> []" "CHR ''|'' \<notin> set key" "CHR ''|'' \<notin> set val" "CHR ''='' \<notin> set key"
  shows "tp_shm_uri_loop (key @ ''='' @ val @ ''|'' @ rest) hp out =
      bind_res (tp_shm_uri_param (key @ ''='' @ val @ ''|'' @ rest) (length key) val hp out)
        (\<lambda>(hp, out). tp_shm_uri_loop rest hp out)"
    and "tp_shm_uri_loop (key @ ''='' @ val) hp out =
      bind_res (tp_shm_uri_param (key @ ''='' @ val) (length key) val hp out) Inr"
proof -
  have split: "takeWhile (\<lambda>c. c \<noteq> CHR ''|'') (key @ ''='' @ val @ ''|'' @ rest) = key @ ''='' @ val"
    "dropWhile (\<lambda>c. c \<noteq> CHR ''|'') (key @ ''='' @ val @ ''|'' @ rest) = CHR ''|'' # rest"
    using takeWhile_component [of "CHR ''|''" "key @ ''='' @ val" rest]
      dropWhile_component [of "CHR ''|''" "key @ ''='' @ val" rest] assms by simp_all
  have last: "takeWhile (\<lambda>c. c \<noteq> CHR ''|'') (key @ ''='' @ val) = key @ ''='' @ val"
    "dropWhile (\<lambda>c. c \<noteq> CHR ''|'') (key @ ''='' @ val) = []"
    using assms by (simp_all add: takeWhile_last dropWhile_last)
  have eq: "takeWhile (\<lambda>c. c \<noteq> CHR ''='') (key @ ''='' @ val) = key"
    "dropWhile (\<lambda>c. c \<noteq> CHR ''='') (key @ ''='' @ val) = ''='' @ val"
    using assms(5) by (simp_all add: component_simps)
  show "tp_shm_uri_loop (key @ ''='' @ val @ ''|'' @ rest) hp out =
      bind_res (tp_shm_uri_param (key @ ''='' @ val @ ''|'' @ rest) (length key) val hp out)
        (\<lambda>(hp, out). tp_shm_uri_loop rest hp out)"
    unfolding tp_shm_uri_loop.simps [of "key @ ''='' @ val @ ''|'' @ rest"] Let_def split eq
    using assms(1,2) by simp
  show "tp_shm_uri_loop (key @ ''='' @ val) hp out =
      bind_res (tp_shm_uri_param (key @ ''='' @ val) (length key) val hp out) Inr"
    unfolding tp_shm_uri_loop.simps [of "key @ ''='' @ val"] Let_def last eq
    using assms(1,2) by (simp add: case_prod_beta)
qed

lemma uri_param_keys:
  "tp_shm_uri_param (''path'' @ rest) (length ''path'') val False out =
     guard (length val \<ge> 4096) (EINVAL ''tp_shm_uri_parse: path too long'') (Inr (True, out\<lparr>su_path := val\<rparr>))"
  "tp_shm_uri_param (''require_hugepages'' @ rest) (length ''require_hugepages'') (if flag then ''true'' else ''false'') hp out =
     Inr (hp, out\<lparr>su_require_hugepages := flag\<rparr>)"
  unfolding tp_shm_uri_param_def strncmp_eq_key by (auto simp: tp_uri_parse_bool_def)

text \<open>
  The text that \<open>tp_driver_build_region_uri\<close> prints is read back as the same path and flag.
\<close>

lemma uri_parse_printed:
  assumes "take 1 path = ''/''" "CHR ''|'' \<notin> set path" "length path < 4096"
  shows "tp_shm_uri_parse (''shm:file?path='' @ path @ ''|require_hugepages='' @ (if flag then ''true'' else ''false'')) =
    Inr \<lparr>su_path = path, su_require_hugepages = flag\<rparr>"
proof -
  let ?flag = "if flag then ''true'' else ''false''"
  let ?more = "''require_hugepages'' @ ''='' @ ?flag"
  let ?rest = "''path'' @ ''='' @ path @ ''|'' @ ?more"
  have ne: "path \<noteq> []" using assms(1) by auto
  have uri: "''shm:file?path='' @ path @ ''|require_hugepages='' @ ?flag = ''shm:file?'' @ ?rest" by simp
  have tail: "tp_shm_uri_loop ?more True out = Inr (True, out\<lparr>su_require_hugepages := flag\<rparr>)" for out
    by (subst uri_loop_param(2)) (simp, simp, simp, simp, simp, subst uri_param_keys(2), simp)
  have "tp_shm_uri_loop ?rest False out = Inr (True, out\<lparr>su_path := path, su_require_hugepages := flag\<rparr>)" for out
    using assms ne tail
    by (subst uri_loop_param(1)) (simp, simp, simp, simp, simp, subst uri_param_keys(1), simp)
  then show ?thesis
    unfolding uri tp_shm_uri_parse_def strncmp_eq_prefix using assms(1) by simp
qed

end
