(* ===== verification/Tp_Shm.thy ===== *)
theory Tp_Shm
  imports Tp_Uri Tp_Sbe
begin

text \<open>
  Mapping shared-memory regions (src/src/common/tp_shm.c). The operating system is a parameter:
  \<open>os n\<close> answers the \<open>n\<close>-th system call of an operation, so that the file system may
  change between two calls. The superblock accessors that the SBE tool generates are a parameter
  too, with their laws in the locale \<open>superblock_codec\<close>.
\<close>

section \<open>Superblock accessors\<close>

definition TP_MAGIC_U64 :: u64 where
  "TP_MAGIC_U64 = 0x544F504C53484D31"

text \<open>
  \<open>sb_region_type\<close> is the accessor of the enumeration, which fails on a value that the schema
  does not list.
\<close>

record sb_codec =
  sb_get :: "string \<Rightarrow> bytes \<Rightarrow> u64"
  sb_set :: "string \<Rightarrow> u64 \<Rightarrow> bytes \<Rightarrow> bytes"
  sb_region_type :: "bytes \<Rightarrow> u16 option"

definition HEADER_RING :: u16 where
  "HEADER_RING = 1"

definition PAYLOAD_POOL :: u16 where
  "PAYLOAD_POOL = 2"

locale superblock_codec =
  fixes K :: sb_codec and width :: "string \<Rightarrow> nat" and known :: "string \<Rightarrow> bool"
  assumes widths: "known ''magic'' \<and> width ''magic'' = 8" "known ''layoutVersion'' \<and> width ''layoutVersion'' = 4"
      "known ''epoch'' \<and> width ''epoch'' = 8" "known ''streamId'' \<and> width ''streamId'' = 4"
      "known ''regionType'' \<and> width ''regionType'' = 2" "known ''poolId'' \<and> width ''poolId'' = 2"
      "known ''nslots'' \<and> width ''nslots'' = 4" "known ''slotBytes'' \<and> width ''slotBytes'' = 4"
      "known ''strideBytes'' \<and> width ''strideBytes'' = 4" "known ''pid'' \<and> width ''pid'' = 8"
      "known ''startTimestampNs'' \<and> width ''startTimestampNs'' = 8"
      "known ''activityTimestampNs'' \<and> width ''activityTimestampNs'' = 8"
    and length_set: "length (sb_set K f v b) = length b"
    and get_set: "known f \<Longrightarrow> 64 \<le> length b \<Longrightarrow> sb_get K f (sb_set K f v b) = take_bit (8 * width f) v"
    and get_set_other: "known f \<Longrightarrow> known g \<Longrightarrow> f \<noteq> g \<Longrightarrow> 64 \<le> length b \<Longrightarrow>
      sb_get K f (sb_set K g v b) = sb_get K f b"
    and get_append: "known f \<Longrightarrow> 64 \<le> length b \<Longrightarrow> sb_get K f (b @ pad) = sb_get K f b"
    and region_type: "64 \<le> length b \<Longrightarrow> ucast (sb_get K ''regionType'' b) \<in> {HEADER_RING, PAYLOAD_POOL} \<Longrightarrow>
      sb_region_type K b = Some (ucast (sb_get K ''regionType'' b))"
begin

lemma fold_set_length: "length (fold (\<lambda>(f, v) b. sb_set K f v b) fs b) = length b"
  by (induction fs arbitrary: b) (auto simp: length_set)

text \<open>A block of distinct fields, written in any order, reads back as written.\<close>

lemma get_fold_other:
  assumes "known f" "f \<notin> fst ` set fs" "\<forall>g \<in> fst ` set fs. known g" "64 \<le> length b"
  shows "sb_get K f (fold (\<lambda>(f, v) b. sb_set K f v b) fs b) = sb_get K f b"
  using assms
proof (induction fs arbitrary: b)
  case (Cons x fs)
  then show ?case by (cases x) (auto simp: length_set get_set_other)
qed simp

lemma get_fold:
  assumes "(f, v) \<in> set fs" "distinct (List.map fst fs)" "\<forall>g \<in> fst ` set fs. known g" "64 \<le> length b"
  shows "sb_get K f (fold (\<lambda>(f, v) b. sb_set K f v b) fs b) = take_bit (8 * width f) v"
  using assms
proof (induction fs arbitrary: b)
  case (Cons x fs)
  obtain g w where x: "x = (g, w)" by (cases x)
  show ?case
  proof (cases "g = f")
    case True
    then have "v = w" "f \<notin> fst ` set fs" using Cons.prems(1,2) x by (auto simp: rev_image_eqI)
    then show ?thesis using Cons.prems(3,4) x True by (simp add: get_fold_other length_set get_set)
  next
    case False
    then show ?thesis using Cons.prems x Cons.IH [of "sb_set K g w b"] by (auto simp: length_set)
  qed
qed simp

end

section \<open>The operating system\<close>

record file_stat =
  st_regular :: bool
  st_dev :: nat
  st_ino :: nat
  st_size :: int
  st_mode :: u32
  st_uid :: u32
  st_gid :: u32

text \<open>
  Every \<open>openat\<close> of the walk carries \<open>O_NOFOLLOW\<close>. \<open>OpenDir\<close> adds
  \<open>O_RDONLY | O_DIRECTORY\<close>, \<open>OpenFile w\<close> the access mode of the mapping.
\<close>

datatype open_mode = OpenDir | OpenFile bool

record os =
  os_realpath :: "string \<Rightarrow> string option"
  os_stat :: "string \<Rightarrow> file_stat option"
  os_statfs :: "string \<Rightarrow> u64 option"
  os_open_root :: "nat option"
  os_openat :: "nat \<Rightarrow> string \<Rightarrow> open_mode \<Rightarrow> nat option"
  os_fstat :: "nat \<Rightarrow> file_stat option"
  os_fstatfs :: "nat \<Rightarrow> u64 option"
  os_mmap :: "nat \<Rightarrow> nat \<Rightarrow> bool \<Rightarrow> bytes option"

definition HUGETLBFS_MAGIC :: u64 where
  "HUGETLBFS_MAGIC = 0x958458f6"

definition NAME_MAX :: nat where
  "NAME_MAX = 255"

section \<open>Opening a path\<close>

record tp_allowed_paths =
  ap_length :: nat
  ap_canonical_paths :: "string option list"
  ap_enforce_permissions :: bool
  ap_expected_uid :: u32
  ap_expected_gid :: u32
  ap_forbidden_mode :: u32

text \<open>The directory test of one allowed base: the next character of the path is a slash or its end.\<close>

definition path_under :: "string \<Rightarrow> string \<Rightarrow> bool" where
  "path_under resolved base \<longleftrightarrow>
     base \<noteq> [] \<and> strncmp_eq resolved base (length base) \<and> take 1 (drop (length base) resolved) \<in> {''/'', []}"

definition tp_shm_validate_path :: "os \<Rightarrow> string \<Rightarrow> tp_allowed_paths \<Rightarrow> unit res" where
  "tp_shm_validate_path os resolved_path allowed =
     guard (ap_canonical_paths allowed \<noteq> [] \<and>
         \<not> list_ex (\<lambda>base. base \<noteq> None \<and> path_under resolved_path (the base)) (ap_canonical_paths allowed))
       (EINVAL ''tp_shm_map: path not in allowlist'')
     (guard (ap_canonical_paths allowed = [] \<and> ap_length allowed > 0) (EINVAL ''tp_shm_map: allowed paths not canonicalized'')
     (case os_stat os resolved_path of
        None \<Rightarrow> Inl (ERRNO ''tp_shm_map: stat failed'')
      | Some st \<Rightarrow> guard (\<not> st_regular st) (EINVAL ''tp_shm_map: not a regular file'') (Inr ())))"

text \<open>
  The walk of \<open>tp_shm_open_no_symlink\<close> from the root descriptor. It returns the descriptor and
  the number of the next system call. When the last \<open>openat\<close> fails, the error that the code
  leaves is the one set after the loop.
\<close>

function tp_shm_open_walk :: "(nat \<Rightarrow> os) \<Rightarrow> nat \<Rightarrow> bool \<Rightarrow> nat \<Rightarrow> string \<Rightarrow> (nat \<times> nat) res" where
  "tp_shm_open_walk os t writable dirfd cursor =
     (let cursor = dropWhile (\<lambda>c. c = CHR ''/'') cursor;
          component = takeWhile (\<lambda>c. c \<noteq> CHR ''/'') cursor;
          nxt = dropWhile (\<lambda>c. c \<noteq> CHR ''/'') cursor
      in if cursor = [] then Inl (EINVAL ''tp_shm_map: path missing file component'')
         else guard (length component = 0 \<or> length component > NAME_MAX) (EINVAL ''tp_shm_map: invalid path component'')
           (if nxt = [] then
              (case os_openat (os t) dirfd component (OpenFile writable) of
                 None \<Rightarrow> Inl (EINVAL ''tp_shm_map: path missing file component'')
               | Some fd \<Rightarrow> Inr (fd, Suc t))
            else
              (case os_openat (os t) dirfd component OpenDir of
                 None \<Rightarrow> Inl (ERRNO ''tp_shm_map: open directory failed'')
               | Some next_fd \<Rightarrow> tp_shm_open_walk os (Suc t) writable next_fd nxt)))"
  by pat_completeness auto

lemma walk_shrinks:
  "dropWhile (\<lambda>c. c = CHR ''/'') cursor \<noteq> [] \<Longrightarrow>
    length (dropWhile (\<lambda>c. c \<noteq> CHR ''/'') (dropWhile (\<lambda>c. c = CHR ''/'') cursor)) < length cursor"
  using hd_dropWhile [of "\<lambda>c. c = CHR ''/''" cursor]
    length_dropWhile_le [of "\<lambda>c. c = CHR ''/''" cursor]
    length_dropWhile_le [of "\<lambda>c. c \<noteq> CHR ''/''" "tl (dropWhile (\<lambda>c. c = CHR ''/'') cursor)"]
  by (cases "dropWhile (\<lambda>c. c = CHR ''/'') cursor") auto

termination tp_shm_open_walk
  by (relation "measure (\<lambda>(_, _, _, _, cursor). length cursor)") (auto intro!: walk_shrinks simp del: dropWhile_eq_Nil_conv)

declare tp_shm_open_walk.simps [simp del]

definition tp_shm_open_no_symlink :: "(nat \<Rightarrow> os) \<Rightarrow> nat \<Rightarrow> string \<Rightarrow> bool \<Rightarrow> (nat \<times> nat) res" where
  "tp_shm_open_no_symlink os t path writable =
     guard (take 1 path \<noteq> ''/'') (EINVAL ''tp_shm_map: path must be absolute'')
     (case os_open_root (os t) of
        None \<Rightarrow> Inl (ERRNO ''tp_shm_map: open root failed'')
      | Some dirfd \<Rightarrow> tp_shm_open_walk os (Suc t) writable dirfd path)"

definition tp_shm_open_canonical :: "(nat \<Rightarrow> os) \<Rightarrow> string \<Rightarrow> tp_allowed_paths \<Rightarrow> bool \<Rightarrow> (nat \<times> nat) res" where
  "tp_shm_open_canonical os path allowed writable =
     (case os_realpath (os 0) path of
        None \<Rightarrow> Inl (ERRNO ''tp_shm_map: realpath failed'')
      | Some resolved_path \<Rightarrow>
          bind_res (tp_shm_validate_path (os 1) resolved_path allowed) (\<lambda>_.
          bind_res (tp_shm_open_no_symlink os 2 path writable) (\<lambda>(fd, t).
            (case os_fstat (os t) fd of
               None \<Rightarrow> Inl (ERRNO ''tp_shm_map: fstat failed'')
             | Some st_fd \<Rightarrow>
                 guard (\<not> st_regular st_fd) (EINVAL ''tp_shm_map: not a regular file'')
                 (case os_stat (os (t + 1)) resolved_path of
                    None \<Rightarrow> Inl (ERRNO ''tp_shm_map: stat failed'')
                  | Some st_path \<Rightarrow>
                      guard (st_dev st_fd \<noteq> st_dev st_path \<or> st_ino st_fd \<noteq> st_ino st_path)
                        (EINVAL ''tp_shm_map: path identity mismatch'')
                      (Inr (fd, t + 2)))))))"

section \<open>Mapping and unmapping\<close>

record tp_shm_region =
  rg_fd :: int
  rg_length :: nat
  rg_addr :: "bytes option"
  rg_uri :: tp_shm_uri
  rg_pid :: u64

definition tp_shm_check_hugepages :: "os \<Rightarrow> nat \<Rightarrow> unit res" where
  "tp_shm_check_hugepages os fd =
     (case os_fstatfs os fd of
        None \<Rightarrow> Inl (ERRNO ''tp_shm_map: fstatfs failed'')
      | Some f_type \<Rightarrow>
          guard (f_type \<noteq> HUGETLBFS_MAGIC) (EINVAL ''tp_shm_map: require_hugepages true but not hugetlbfs'') (Inr ()))"

definition tp_shm_validate_permissions :: "file_stat \<Rightarrow> tp_allowed_paths \<Rightarrow> unit res" where
  "tp_shm_validate_permissions st allowed =
     (if \<not> ap_enforce_permissions allowed then Inr ()
      else
        guard (ap_forbidden_mode allowed \<noteq> 0 \<and> st_mode st AND ap_forbidden_mode allowed \<noteq> 0)
          (EACCES ''tp_shm_map: insecure permissions'')
        (guard (ap_expected_uid allowed \<noteq> TP_NULL_U32 \<and> st_uid st \<noteq> ap_expected_uid allowed)
          (EACCES ''tp_shm_map: unexpected uid'')
        (guard (ap_expected_gid allowed \<noteq> TP_NULL_U32 \<and> st_gid st \<noteq> ap_expected_gid allowed)
          (EACCES ''tp_shm_map: unexpected gid'')
        (Inr ()))))"

text \<open>
  The first \<open>fstatfs\<close>, whose answer only decides a log message, is system call \<open>t\<close>; a
  failure closes the descriptor and leaves the region unmapped.
\<close>

definition tp_shm_map :: "(nat \<Rightarrow> os) \<Rightarrow> string \<Rightarrow> bool \<Rightarrow> tp_allowed_paths \<Rightarrow> tp_shm_region res" where
  "tp_shm_map os uri writable allowed =
     guard (ap_canonical_paths allowed = []) (EINVAL ''tp_shm_map: allowed paths not configured'')
     (bind_res (tp_shm_uri_parse uri) (\<lambda>parsed.
      bind_res (tp_shm_open_canonical os (su_path parsed) allowed writable) (\<lambda>(fd, t).
      bind_res (if su_require_hugepages parsed then tp_shm_check_hugepages (os (t + 1)) fd else Inr ()) (\<lambda>_.
        (case os_fstat (os (t + 2)) fd of
           None \<Rightarrow> Inl (ERRNO ''tp_shm_map: fstat failed'')
         | Some st \<Rightarrow>
             bind_res (tp_shm_validate_permissions st allowed) (\<lambda>_.
             guard (st_size st < int (unat TP_SUPERBLOCK_SIZE_BYTES)) (EINVAL ''tp_shm_map: region too small'')
             (case os_mmap (os (t + 3)) fd (nat (st_size st)) writable of
                None \<Rightarrow> Inl (ERRNO ''tp_shm_map: mmap failed'')
              | Some addr \<Rightarrow>
                  Inr \<lparr>rg_fd = int fd, rg_length = nat (st_size st), rg_addr = Some addr, rg_uri = parsed, rg_pid = 0\<rparr>)))))))"

definition unmapped_region :: tp_shm_region where
  "unmapped_region = \<lparr>rg_fd = - 1, rg_length = 0, rg_addr = None, rg_uri = \<lparr>su_path = [], su_require_hugepages = False\<rparr>,
     rg_pid = 0\<rparr>"

definition tp_shm_unmap :: "bool \<Rightarrow> tp_shm_region \<Rightarrow> tp_shm_region res" where
  "tp_shm_unmap munmap_ok region =
     guard (rg_addr region \<noteq> None \<and> rg_length region \<noteq> 0 \<and> \<not> munmap_ok) (ERRNO ''tp_shm_unmap: munmap failed'')
     (Inr unmapped_region)"

section \<open>Superblocks\<close>

record tp_shm_expected =
  ex_stream_id :: u32
  ex_layout_version :: u32
  ex_epoch :: u64
  ex_region_type :: u16
  ex_pool_id :: u16
  ex_nslots :: u32
  ex_slot_bytes :: u32
  ex_stride_bytes :: u32

text \<open>
  The expectations of \<open>tp_consumer_attach_config\<close> and \<open>tp_producer_attach_config\<close> for the
  header ring and for a payload pool.
\<close>

definition header_expected :: "u32 \<Rightarrow> u64 \<Rightarrow> u32 \<Rightarrow> tp_shm_expected" where
  "header_expected stream_id epoch nslots =
     \<lparr>ex_stream_id = stream_id, ex_layout_version = TP_LAYOUT_VERSION, ex_epoch = epoch, ex_region_type = HEADER_RING,
      ex_pool_id = 0, ex_nslots = nslots, ex_slot_bytes = TP_HEADER_SLOT_BYTES, ex_stride_bytes = TP_NULL_U32\<rparr>"

definition pool_expected :: "u32 \<Rightarrow> u64 \<Rightarrow> u32 \<Rightarrow> u16 \<Rightarrow> u32 \<Rightarrow> tp_shm_expected" where
  "pool_expected stream_id epoch nslots pool_id stride_bytes =
     \<lparr>ex_stream_id = stream_id, ex_layout_version = TP_LAYOUT_VERSION, ex_epoch = epoch, ex_region_type = PAYLOAD_POOL,
      ex_pool_id = pool_id, ex_nslots = nslots, ex_slot_bytes = TP_NULL_U32, ex_stride_bytes = stride_bytes\<rparr>"

definition tp_shm_validate_slot_bytes :: "u32 \<Rightarrow> unit res" where
  "tp_shm_validate_slot_bytes slot_bytes =
     guard (slot_bytes \<noteq> TP_HEADER_SLOT_BYTES) (EINVAL ''tp_shm_validate_superblock: invalid slot bytes'') (Inr ())"

definition tp_shm_check_expected :: "sb_codec \<Rightarrow> bytes \<Rightarrow> u16 \<Rightarrow> tp_shm_expected \<Rightarrow> unit res" where
  "tp_shm_check_expected K addr region_type expected =
     guard (ex_layout_version expected \<noteq> TP_NULL_U32 \<and> ucast (sb_get K ''layoutVersion'' addr) \<noteq> ex_layout_version expected)
       (EINVAL ''tp_shm_validate_superblock: layout version mismatch'')
     (guard (ex_epoch expected \<noteq> TP_NULL_U64 \<and> sb_get K ''epoch'' addr \<noteq> ex_epoch expected)
       (EINVAL ''tp_shm_validate_superblock: epoch mismatch'')
     (guard (ex_stream_id expected \<noteq> TP_NULL_U32 \<and> ucast (sb_get K ''streamId'' addr) \<noteq> ex_stream_id expected)
       (EINVAL ''tp_shm_validate_superblock: stream id mismatch'')
     (guard (ex_region_type expected \<noteq> 0 \<and> region_type \<noteq> ex_region_type expected)
       (EINVAL ''tp_shm_validate_superblock: region type mismatch'')
     (guard (ex_pool_id expected \<noteq> 0 \<and> ucast (sb_get K ''poolId'' addr) \<noteq> ex_pool_id expected)
       (EINVAL ''tp_shm_validate_superblock: pool id mismatch'')
     (guard (ex_nslots expected \<noteq> TP_NULL_U32 \<and> ucast (sb_get K ''nslots'' addr) \<noteq> ex_nslots expected)
       (EINVAL ''tp_shm_validate_superblock: nslots mismatch'')
     (guard (ex_slot_bytes expected \<noteq> TP_NULL_U32 \<and> ucast (sb_get K ''slotBytes'' addr) \<noteq> ex_slot_bytes expected)
       (EINVAL ''tp_shm_validate_superblock: slot bytes mismatch'')
     (guard (ex_stride_bytes expected \<noteq> TP_NULL_U32 \<and> ucast (sb_get K ''strideBytes'' addr) \<noteq> ex_stride_bytes expected)
       (EINVAL ''tp_shm_validate_superblock: stride bytes mismatch'')
     (Inr ()))))))))"

definition tp_shm_validate_superblock :: "sb_codec \<Rightarrow> tp_shm_region \<Rightarrow> tp_shm_expected option \<Rightarrow> unit res" where
  "tp_shm_validate_superblock K region expected =
     (case rg_addr region of
        None \<Rightarrow> Inl (EINVAL ''tp_shm_validate_superblock: region not mapped'')
      | Some addr \<Rightarrow>
          (case sb_region_type K addr of
             None \<Rightarrow> Inl (EINVAL ''tp_shm_validate_superblock: invalid region type'')
           | Some region_type \<Rightarrow>
               guard (sb_get K ''magic'' addr \<noteq> TP_MAGIC_U64) (EINVAL ''tp_shm_validate_superblock: magic mismatch'')
               (bind_res (case expected of None \<Rightarrow> Inr () | Some e \<Rightarrow> tp_shm_check_expected K addr region_type e) (\<lambda>_.
                guard (region_type = PAYLOAD_POOL \<and> (ucast (sb_get K ''strideBytes'' addr) :: u32) = 0)
                  (EINVAL ''tp_shm_validate_superblock: stride bytes must be > 0'')
                (if region_type = HEADER_RING then tp_shm_validate_slot_bytes (ucast (sb_get K ''slotBytes'' addr))
                 else Inr ())))))"

definition tp_shm_update_activity_timestamp :: "sb_codec \<Rightarrow> tp_shm_region \<Rightarrow> u64 \<Rightarrow> tp_shm_region res" where
  "tp_shm_update_activity_timestamp K region now_ns =
     (case rg_addr region of
        None \<Rightarrow> Inl (EINVAL ''tp_shm_update_activity_timestamp: region not mapped'')
      | Some addr \<Rightarrow> Inr (region\<lparr>rg_addr := Some (sb_set K ''activityTimestampNs'' now_ns addr)\<rparr>))"

definition tp_shm_read_activity_timestamp :: "sb_codec \<Rightarrow> tp_shm_region \<Rightarrow> u64 res" where
  "tp_shm_read_activity_timestamp K region =
     (case rg_addr region of
        None \<Rightarrow> Inl (EINVAL ''tp_shm_read_activity_timestamp: region not mapped'')
      | Some addr \<Rightarrow> Inr (sb_get K ''activityTimestampNs'' addr))"

definition tp_shm_read_pid :: "sb_codec \<Rightarrow> tp_shm_region \<Rightarrow> u64 res" where
  "tp_shm_read_pid K region =
     (case rg_addr region of
        None \<Rightarrow> Inl (EINVAL ''tp_shm_read_pid: region not mapped'')
      | Some addr \<Rightarrow> Inr (sb_get K ''pid'' addr))"

definition tp_shm_validate_stride_alignment :: "os \<Rightarrow> string \<Rightarrow> u32 \<Rightarrow> unit res" where
  "tp_shm_validate_stride_alignment os uri stride_bytes =
     guard (stride_bytes < 64 \<or> stride_bytes mod 64 \<noteq> 0)
       (EINVAL ''tp_shm_validate_stride_alignment: stride not aligned to 64 bytes'')
     (bind_res (tp_shm_uri_parse uri) (\<lambda>parsed.
        (case os_statfs os (su_path parsed) of
           None \<Rightarrow> Inl (ERRNO ''tp_shm_validate_stride_alignment: statfs failed'')
         | Some f_type \<Rightarrow>
             guard (su_require_hugepages parsed \<and> f_type \<noteq> HUGETLBFS_MAGIC)
               (EINVAL ''tp_shm_validate_stride_alignment: not hugetlbfs'') (Inr ()))))"

section \<open>The superblock of the schema\<close>

text \<open>
  The fields of \<open>ShmRegionSuperblock\<close> in src/schemas/wire-schema.xml, little-endian and
  packed from the first byte of the region.
\<close>

definition superblock_layout :: sbe_block where
  "superblock_layout = [(''magic'', 8, 1), (''layoutVersion'', 4, 1), (''epoch'', 8, 1), (''streamId'', 4, 1),
     (''regionType'', 2, 1), (''poolId'', 2, 1), (''nslots'', 4, 1), (''slotBytes'', 4, 1), (''strideBytes'', 4, 1),
     (''pid'', 8, 1), (''startTimestampNs'', 8, 1), (''activityTimestampNs'', 8, 1)]"

definition superblock_at :: "string \<Rightarrow> (nat \<times> nat) option" where
  "superblock_at f = scalar (block_find 0 superblock_layout f)"

definition superblock_width :: "string \<Rightarrow> nat" where
  "superblock_width f = (case superblock_at f of None \<Rightarrow> 0 | Some (off, w) \<Rightarrow> w)"

definition le_superblock :: sb_codec where
  "le_superblock =
     \<lparr>sb_get = (\<lambda>f b. case superblock_at f of None \<Rightarrow> 0 | Some (off, w) \<Rightarrow> le_read off w b),
      sb_set = (\<lambda>f v b. case superblock_at f of None \<Rightarrow> b | Some (off, w) \<Rightarrow> le_write off w v b),
      sb_region_type = (\<lambda>b. let v = ucast (le_read 24 2 b) in if v \<in> {HEADER_RING, PAYLOAD_POOL} then Some v else None)\<rparr>"

lemma superblock_at_bounds:
  assumes "superblock_at f = Some (off, w)"
  shows "off + w \<le> 64"
proof -
  have "block_size superblock_layout = 64" by (simp add: superblock_layout_def)
  then show ?thesis using assms block_find_bounds [of 0 superblock_layout f off w 1] by (simp add: superblock_at_def)
qed

lemma superblock_at_disjoint:
  "superblock_at f = Some (off, w) \<Longrightarrow> superblock_at g = Some (off', w') \<Longrightarrow> f \<noteq> g \<Longrightarrow> off + w \<le> off' \<or> off' + w' \<le> off"
  using block_find_disjoint [of 0 superblock_layout f off w 1 g off' w' 1] by (simp add: superblock_at_def)

lemma le_read_write: "off + w \<le> length b \<Longrightarrow> le_read off w (le_write off w v b) = take_bit (8 * w) v"
  by (simp add: le_read_def le_write_def le_val_le_bytes)

lemma le_read_append: "off + w \<le> length b \<Longrightarrow> le_read off w (b @ pad) = le_read off w b"
  by (simp add: le_read_def)

interpretation sbk: superblock_codec le_superblock superblock_width "\<lambda>f. superblock_at f \<noteq> None"
proof
  fix f :: string and v :: u64 and b :: bytes
  show "length (sb_set le_superblock f v b) = length b"
    by (auto simp: le_superblock_def split: option.splits)
next
  fix f :: string and v :: u64 and b :: bytes
  assume f: "superblock_at f \<noteq> None" and b: "64 \<le> length b"
  obtain off w where "superblock_at f = Some (off, w)" using f by auto
  with b show "sb_get le_superblock f (sb_set le_superblock f v b) = take_bit (8 * superblock_width f) v"
    by (auto simp: le_superblock_def superblock_width_def dest: superblock_at_bounds intro!: le_read_write)
next
  fix f g :: string and v :: u64 and b :: bytes
  assume "superblock_at f \<noteq> None" "superblock_at g \<noteq> None" "f \<noteq> g"
  then show "sb_get le_superblock f (sb_set le_superblock g v b) = sb_get le_superblock f b"
    by (auto simp: le_superblock_def dest: superblock_at_disjoint intro!: le_read_write_disjoint)
next
  fix f :: string and b pad :: bytes
  assume f: "superblock_at f \<noteq> None" and b: "64 \<le> length b"
  obtain off w where "superblock_at f = Some (off, w)" using f by auto
  with b show "sb_get le_superblock f (b @ pad) = sb_get le_superblock f b"
    by (auto simp: le_superblock_def dest: superblock_at_bounds intro!: le_read_append)
next
  fix b :: bytes
  assume "ucast (sb_get le_superblock ''regionType'' b) \<in> {HEADER_RING, PAYLOAD_POOL}"
  then show "sb_region_type le_superblock b = Some (ucast (sb_get le_superblock ''regionType'' b))"
    by (auto simp: le_superblock_def superblock_at_def superblock_layout_def scalar_def Let_def)
qed (simp_all add: superblock_at_def superblock_width_def superblock_layout_def scalar_def)

section \<open>What a mapped region is\<close>

lemma open_canonical_Inr:
  assumes "tp_shm_open_canonical os path allowed writable = Inr (fd, t)"
  obtains resolved st_fd st_path where "os_realpath (os 0) path = Some resolved"
    "tp_shm_validate_path (os 1) resolved allowed = Inr ()"
    "os_fstat (os (t - 2)) fd = Some st_fd" "st_regular st_fd"
    "os_stat (os (t - 1)) resolved = Some st_path" "st_dev st_path = st_dev st_fd" "st_ino st_path = st_ino st_fd"
  using assms unfolding tp_shm_open_canonical_def
  by (auto simp: res_simps)

lemma path_under_iff: "path_under resolved base \<longleftrightarrow> base \<noteq> [] \<and> (resolved = base \<or> prefix (base @ ''/'') resolved)"
proof -
  have "strncmp_eq resolved base (length base) \<and> take 1 (drop (length base) resolved) \<in> {''/'', []} \<longleftrightarrow>
    resolved = base \<or> prefix (base @ ''/'') resolved"
  proof (cases "prefix base resolved")
    case True
    then obtain rest where "resolved = base @ rest" by (auto simp: prefix_def)
    then show ?thesis by (cases rest) (auto simp: strncmp_eq_def)
  next
    case False
    then show ?thesis by (auto simp: strncmp_eq_prefix prefix_def)
  qed
  then show ?thesis by (auto simp: path_under_def)
qed

lemma validate_path_Inr:
  assumes "tp_shm_validate_path os resolved allowed = Inr ()" "ap_canonical_paths allowed \<noteq> []"
  obtains base where "Some base \<in> set (ap_canonical_paths allowed)" "path_under resolved base"
  using assms by (auto simp: tp_shm_validate_path_def guard_Inr list_ex_iff split: option.splits)


text \<open>A file system with one region file, used for concrete evaluations.\<close>

definition sample_os :: os where
  "sample_os =
     (let st = \<lparr>st_regular = True, st_dev = 1, st_ino = 42, st_size = 320, st_mode = 0x1A0, st_uid = 1000, st_gid = 1000\<rparr>
      in \<lparr>os_realpath = (\<lambda>p. if p = ''/dev/shm/a/header.ring'' then Some p else None),
          os_stat = (\<lambda>p. if p = ''/dev/shm/a/header.ring'' then Some st else None),
          os_statfs = (\<lambda>p. Some 0x01021994), os_open_root = Some 3, os_openat = (\<lambda>d c m. Some (d + 1)),
          os_fstat = (\<lambda>fd. Some st), os_fstatfs = (\<lambda>fd. Some 0x01021994),
          os_mmap = (\<lambda>fd n w. Some (replicate n 0))\<rparr>)"

definition sample_allowed :: tp_allowed_paths where
  "sample_allowed = \<lparr>ap_length = 1, ap_canonical_paths = [None, Some ''/dev/shm''], ap_enforce_permissions = True,
     ap_expected_uid = 1000, ap_expected_gid = TP_NULL_U32, ap_forbidden_mode = 2\<rparr>"


end
