(* ===== verification/Tp_Driver_Region.thy ===== *)
theory Tp_Driver_Region
  imports Tp_Shm
begin

text \<open>
  The driver's state and its region files (src/src/driver/tp_driver.c, src/include/tensor_pool/driver/tp_driver.h):
  paths and URIs of the regions of an epoch, the files the driver creates for it, and the removal of
  old epochs. Operations that call the operating system are written in a state and error monad,
  whose frame rule says what an operation leaves untouched.
\<close>

section \<open>Operations with effects\<close>

text \<open>
  An operation maps a state to a result and the state it leaves, also when it fails: the C code
  does not undo its effects on an error return.
\<close>

type_synonym ('s, 'a) sx = "'s \<Rightarrow> 'a res \<times> 's"

definition ret :: "'a \<Rightarrow> ('s, 'a) sx" where
  "ret x s = (Inr x, s)"

definition fail :: "tp_error \<Rightarrow> ('s, 'a) sx" where
  "fail e s = (Inl e, s)"

definition andthen :: "('s, 'a) sx \<Rightarrow> ('a \<Rightarrow> ('s, 'b) sx) \<Rightarrow> ('s, 'b) sx" where
  "andthen m f s = (case m s of (Inl e, s') \<Rightarrow> (Inl e, s') | (Inr x, s') \<Rightarrow> f x s')"

definition check :: "bool \<Rightarrow> tp_error \<Rightarrow> ('s, 'a) sx \<Rightarrow> ('s, 'a) sx" where
  "check c e k s = (if c then (Inl e, s) else k s)"

definition modify :: "('s \<Rightarrow> 's) \<Rightarrow> ('s, unit) sx" where
  "modify f s = (Inr (), f s)"

definition of_res :: "'a res \<Rightarrow> ('s, 'a) sx" where
  "of_res r s = (r, s)"

text \<open>A loop over a list that stops at the first failure.\<close>

fun for_each :: "'a list \<Rightarrow> ('a \<Rightarrow> ('s, unit) sx) \<Rightarrow> ('s, unit) sx" where
  "for_each [] f = ret ()"
| "for_each (x # xs) f = andthen (f x) (\<lambda>_. for_each xs f)"

text \<open>The frame rule: a relation between states that every step respects is respected by the operation.\<close>

locale frame =
  fixes R :: "'s \<Rightarrow> 's \<Rightarrow> bool"
  assumes R_refl: "R s s" and R_trans: "R s t \<Longrightarrow> R t u \<Longrightarrow> R s u"
begin

definition keeps :: "('s, 'a) sx \<Rightarrow> bool" where
  "keeps m \<longleftrightarrow> (\<forall>s. R s (snd (m s)))"

lemma keepsD: "keeps m \<Longrightarrow> R s (snd (m s))"
  by (simp add: keeps_def)

lemma keeps_run: "keeps m \<Longrightarrow> m s = (r, t) \<Longrightarrow> R s t"
  using keepsD [of m s] by simp

lemma keeps_ret: "keeps (ret x)"
  by (simp add: keeps_def ret_def R_refl)

lemma keeps_fail: "keeps (fail e)"
  by (simp add: keeps_def fail_def R_refl)

lemma keeps_of_res: "keeps (of_res r)"
  by (simp add: keeps_def of_res_def R_refl)

lemma keeps_modify: "(\<And>s. R s (f s)) \<Longrightarrow> keeps (modify f)"
  by (simp add: keeps_def modify_def)

lemma keeps_check: "keeps k \<Longrightarrow> keeps (check c e k)"
  by (simp add: keeps_def check_def R_refl)

lemma keeps_andthen:
  assumes "keeps m" "\<And>x. keeps (f x)"
  shows "keeps (andthen m f)"
  unfolding keeps_def
proof
  fix s
  obtain r t where m: "m s = (r, t)" by (cases "m s")
  have "R s t" using assms(1) m by (metis keepsD snd_conv)
  moreover have "R t (snd (f x t))" for x using assms(2) by (rule keepsD)
  ultimately show "R s (snd (andthen m f s))"
    using m by (cases r) (auto simp: andthen_def intro: R_trans)
qed

lemma keeps_if: "keeps a \<Longrightarrow> keeps b \<Longrightarrow> keeps (if c then a else b)"
  by simp

lemma keeps_for_each: "(\<And>x. keeps (f x)) \<Longrightarrow> keeps (for_each xs f)"
  by (induction xs) (auto intro: keeps_ret keeps_andthen)

lemmas keeps_intros = keeps_ret keeps_fail keeps_of_res keeps_modify keeps_check keeps_andthen keeps_if keeps_for_each

end

section \<open>State\<close>

record tp_driver_pool_def =
  pd_pool_id :: u16
  pd_stride_bytes :: u32

record tp_driver_profile =
  pf_name :: string
  pf_header_nslots :: u32
  pf_pools :: "tp_driver_pool_def list"

record tp_driver_id_range =
  ir_start :: u32
  ir_end :: u32
  ir_next :: u32

record tp_driver_stream_def =
  sd_stream_id :: u32
  sd_profile :: "tp_driver_profile option"

record tp_driver_config =
  cf_shm_base_dir :: string
  cf_shm_namespace :: string
  cf_require_hugepages :: bool
  cf_allow_dynamic_streams :: bool
  cf_default_profile :: string
  cf_announce_period_ms :: u32
  cf_lease_keepalive_interval_ms :: u32
  cf_lease_expiry_grace_intervals :: u32
  cf_prefault_shm :: bool
  cf_mlock_shm :: bool
  cf_epoch_gc_enabled :: bool
  cf_epoch_gc_keep :: u32
  cf_epoch_gc_min_age_ns :: u64
  cf_epoch_gc_on_startup :: bool
  cf_node_id_reuse_cooldown_ms :: u32
  cf_stream_id_ranges :: "tp_driver_id_range list"
  cf_profiles :: "tp_driver_profile list"
  cf_streams :: "tp_driver_stream_def list"
  cf_supervisor_enabled :: bool

record tp_driver_lease =
  le_lease_id :: u64
  le_expiry_ns :: u64
  le_issued_ns :: u64
  le_stream_id :: u32
  le_client_id :: u32
  le_node_id :: u32
  le_role :: u8

record tp_driver_node_id_cooldown =
  nc_node_id :: u32
  nc_expires_ns :: u64

record tp_driver_stream_state =
  ss_stream_id :: u32
  ss_profile :: "tp_driver_profile option"
  ss_epoch :: u64
  ss_epoch_created_ns :: u64
  ss_last_announce_ns :: u64
  ss_producer_lease_id :: u64
  ss_producer_client_id :: u32
  ss_require_hugepages :: bool

text \<open>
  The messages the driver offers, with the fields that vary: the layout version, the header slot
  size, the clock domain and the shutdown reason it sets are constants. A pool is its id, slots,
  stride and URI.
\<close>

datatype response_code = OK | UNSUPPORTED | INVALID_PARAMS | REJECTED | INTERNAL_ERROR

datatype revoke_reason = DETACHED | EXPIRED | REVOKED

type_synonym pool_entry = "u16 \<times> u32 \<times> u32 \<times> string"

record attach_body =
  ab_lease_id :: u64
  ab_expiry_ns :: u64
  ab_stream_id :: u32
  ab_epoch :: u64
  ab_header_nslots :: u32
  ab_node_id :: u32
  ab_pools :: "pool_entry list"
  ab_header_uri :: string

datatype driver_msg =
    AttachResponse u64 response_code "attach_body option" string
  | DetachResponse u64 response_code string
  | LeaseRevoked u64 u64 u32 u32 u8 revoke_reason string
  | DriverShutdown u64
  | PoolAnnounce u32 u32 u64 u64 u32 "pool_entry list" string

text \<open>
  The driver with the part of its host that it changes: the number of host calls made so far, the
  region files by path, and the messages offered, last first.
\<close>

record driver =
  dr_config :: tp_driver_config
  dr_streams :: "tp_driver_stream_state list"
  dr_leases :: "tp_driver_lease list"
  dr_lease_capacity :: nat
  dr_lease_counter :: u64
  dr_next_announce_ns :: u64
  dr_cooldowns :: "tp_driver_node_id_cooldown list"
  dr_cooldown_capacity :: nat
  dr_calls :: nat
  dr_files :: "string \<Rightarrow> bytes option"
  dr_sent :: "driver_msg list"

text \<open>
  The host: the answer to the \<open>n\<close>-th call. \<open>hs_ok\<close> says whether a fallible call (an
  allocation or a file operation) succeeds, \<open>hs_clock\<close> is \<open>tp_clock_now_ns\<close>,
  \<open>hs_urandom\<close> the eight bytes read from the random device and \<open>hs_stack\<close> the address of a
  local variable. \<open>hs_encodes\<close> says whether the generated encoder accepts a message and
  \<open>hs_offer\<close> is the result of the publication.
\<close>

record host =
  hs_ok :: "nat \<Rightarrow> bool"
  hs_clock :: "nat \<Rightarrow> u64"
  hs_urandom :: "nat \<Rightarrow> u64 option"
  hs_stack :: "nat \<Rightarrow> u64"
  hs_pid :: u64
  hs_user :: "string option"
  hs_statfs :: "nat \<Rightarrow> string \<Rightarrow> u64 option"
  hs_readdir :: "nat \<Rightarrow> string \<Rightarrow> string list option"
  hs_stat_dir :: "nat \<Rightarrow> string \<Rightarrow> (bool \<times> u64) option"
  hs_encodes :: "driver_msg \<Rightarrow> bool"
  hs_offer :: "nat \<Rightarrow> int"

definition ask :: "(nat \<Rightarrow> 'a) \<Rightarrow> driver \<Rightarrow> 'a \<times> driver" where
  "ask f d = (f (dr_calls d), d\<lparr>dr_calls := Suc (dr_calls d)\<rparr>)"

definition asking :: "(nat \<Rightarrow> 'a) \<Rightarrow> (driver, 'a) sx" where
  "asking f d = (Inr (f (dr_calls d)), d\<lparr>dr_calls := Suc (dr_calls d)\<rparr>)"

definition attempt :: "host \<Rightarrow> tp_error \<Rightarrow> (driver, unit) sx" where
  "attempt h e = andthen (asking (hs_ok h)) (\<lambda>ok. check (\<not> ok) e (ret ()))"

section \<open>Paths\<close>

text \<open>\<open>output_len\<close> is the size of the buffer, whose last byte holds the NUL.\<close>

definition path_char :: "char \<Rightarrow> bool" where
  "path_char c \<longleftrightarrow> isalnum c \<or> c = CHR ''-'' \<or> c = CHR ''_''"

definition tp_driver_sanitize_component :: "string \<Rightarrow> nat \<Rightarrow> string" where
  "tp_driver_sanitize_component input output_len =
     List.map (\<lambda>c. if path_char c then c else CHR ''_'') (take (output_len - 1) input)"

definition tp_driver_validate_namespace :: "string \<Rightarrow> bool" where
  "tp_driver_validate_namespace ns \<longleftrightarrow> ns \<noteq> [] \<and> list_all path_char ns"

definition user_component :: "host \<Rightarrow> string" where
  "user_component h =
     (let user_buf = tp_driver_sanitize_component (case hs_user h of Some name \<Rightarrow> name | None \<Rightarrow> ''unknown'') 128
      in if user_buf = [] then ''unknown'' else user_buf)"

definition stream_dir :: "host \<Rightarrow> tp_driver_config \<Rightarrow> u32 \<Rightarrow> string" where
  "stream_dir h config stream_id =
     cf_shm_base_dir config @ ''/tensorpool-'' @ user_component h @ ''/'' @ cf_shm_namespace config @ ''/'' @ decimal (unat stream_id)"

definition tp_driver_build_region_path ::
  "host \<Rightarrow> tp_driver_config \<Rightarrow> u32 \<Rightarrow> u64 \<Rightarrow> u16 \<Rightarrow> u16 \<Rightarrow> nat \<Rightarrow> string res" where
  "tp_driver_build_region_path h config stream_id epoch pool_id region_type path_len =
     guard (take 1 (cf_shm_base_dir config) \<noteq> ''/'') (EINVAL ''tp_driver_build_region_path: shm_base_dir must be absolute'')
     (guard (\<not> tp_driver_validate_namespace (cf_shm_namespace config))
       (EINVAL ''tp_driver_build_region_path: invalid shm namespace'')
     (let file_name = (if region_type = HEADER_RING then ''header.ring'' else decimal (unat pool_id) @ ''.pool'');
          path = stream_dir h config stream_id @ ''/'' @ decimal (unat epoch) @ ''/'' @ file_name
      in guard (length path \<ge> path_len) (EINVAL ''tp_driver_build_region_path: path too long'') (Inr path)))"

definition tp_driver_build_stream_dir :: "host \<Rightarrow> tp_driver_config \<Rightarrow> u32 \<Rightarrow> nat \<Rightarrow> string res" where
  "tp_driver_build_stream_dir h config stream_id path_len =
     guard (take 1 (cf_shm_base_dir config) \<noteq> ''/'') (EINVAL ''tp_driver_build_stream_dir: shm_base_dir must be absolute'')
     (guard (\<not> tp_driver_validate_namespace (cf_shm_namespace config))
       (EINVAL ''tp_driver_build_stream_dir: invalid shm namespace'')
     (guard (length (stream_dir h config stream_id) \<ge> path_len) (EINVAL ''tp_driver_build_stream_dir: path too long'')
       (Inr (stream_dir h config stream_id))))"

definition tp_driver_build_epoch_dir :: "host \<Rightarrow> tp_driver_config \<Rightarrow> u32 \<Rightarrow> u64 \<Rightarrow> nat \<Rightarrow> string res" where
  "tp_driver_build_epoch_dir h config stream_id epoch path_len =
     bind_res (tp_driver_build_stream_dir h config stream_id 4096) (\<lambda>dir.
       guard (length (dir @ ''/'' @ decimal (unat epoch)) \<ge> path_len) (EINVAL ''tp_driver_build_epoch_dir: path too long'')
       (Inr (dir @ ''/'' @ decimal (unat epoch))))"

definition tp_driver_build_region_uri ::
  "host \<Rightarrow> tp_driver_config \<Rightarrow> u32 \<Rightarrow> u64 \<Rightarrow> u16 \<Rightarrow> u16 \<Rightarrow> bool \<Rightarrow> nat \<Rightarrow> string res" where
  "tp_driver_build_region_uri h config stream_id epoch pool_id region_type require_hugepages uri_len =
     bind_res (tp_driver_build_region_path h config stream_id epoch pool_id region_type 4096) (\<lambda>path.
       (let uri = ''shm:file?path='' @ path @ ''|require_hugepages='' @ (if require_hugepages then ''true'' else ''false'')
        in guard (length uri \<ge> uri_len) (EINVAL ''tp_driver_build_region_uri: uri too long'') (Inr uri)))"

end
