(* ===== verification/Tp_Driver_Files.thy ===== *)
theory Tp_Driver_Files
  imports Tp_Driver_Region
begin

text \<open>
  The region files of the driver (src/src/driver/tp_driver.c): creating the files of an epoch and
  removing the directories of old ones. A file is its bytes; directories are not represented, only
  whether the calls on them succeed.
\<close>

section \<open>Creating region files\<close>

definition put_file :: "string \<Rightarrow> bytes \<Rightarrow> (driver, unit) sx" where
  "put_file path content = modify (\<lambda>d. d\<lparr>dr_files := (dr_files d)(path \<mapsto> content)\<rparr>)"

definition tp_driver_mkdir_p :: "host \<Rightarrow> string \<Rightarrow> (driver, unit) sx" where
  "tp_driver_mkdir_p h path =
     check (path = [] \<or> length path \<ge> 4096) FAIL
     (for_each (List.map (\<lambda>i. take i path) (List.filter (\<lambda>i. path ! i = CHR ''/'') [1..<length path]) @ [path])
       (\<lambda>dir. attempt h FAIL))"

text \<open>\<open>mmap\<close>, the \<open>memset\<close> of the whole file, and \<open>mlock\<close>.\<close>

definition tp_driver_prefault_file :: "host \<Rightarrow> string \<Rightarrow> nat \<Rightarrow> bool \<Rightarrow> (driver, unit) sx" where
  "tp_driver_prefault_file h path file_size mlock_enabled =
     andthen (attempt h FAIL) (\<lambda>_.
     andthen (put_file path (replicate file_size 0)) (\<lambda>_.
       if mlock_enabled then attempt h FAIL else ret ()))"

definition region_slot_bytes :: "u16 \<Rightarrow> u32" where
  "region_slot_bytes region_type = (if region_type = HEADER_RING then TP_HEADER_SLOT_BYTES else TP_NULL_U32)"

definition region_file_size :: "u16 \<Rightarrow> u32 \<Rightarrow> u32 \<Rightarrow> nat" where
  "region_file_size region_type nslots stride_bytes =
     unat TP_SUPERBLOCK_SIZE_BYTES +
     unat nslots * unat (if region_type = HEADER_RING then TP_HEADER_SLOT_BYTES else stride_bytes)"

text \<open>The superblock in the order the code sets its fields, on a zeroed buffer.\<close>

definition superblock_fields :: "u32 \<Rightarrow> u64 \<Rightarrow> u16 \<Rightarrow> u16 \<Rightarrow> u32 \<Rightarrow> u32 \<Rightarrow> u64 \<Rightarrow> u64 \<Rightarrow> (string \<times> u64) list" where
  "superblock_fields stream_id epoch pool_id region_type nslots stride_bytes pid now_ns =
     [(''magic'', TP_MAGIC_U64), (''layoutVersion'', ucast TP_LAYOUT_VERSION), (''epoch'', epoch),
      (''streamId'', ucast stream_id), (''regionType'', ucast region_type), (''poolId'', ucast pool_id),
      (''nslots'', ucast nslots), (''slotBytes'', ucast (region_slot_bytes region_type)),
      (''strideBytes'', ucast stride_bytes), (''pid'', pid), (''startTimestampNs'', now_ns),
      (''activityTimestampNs'', now_ns)]"

definition superblock_buffer ::
  "sb_codec \<Rightarrow> u32 \<Rightarrow> u64 \<Rightarrow> u16 \<Rightarrow> u16 \<Rightarrow> u32 \<Rightarrow> u32 \<Rightarrow> u64 \<Rightarrow> u64 \<Rightarrow> bytes" where
  "superblock_buffer K stream_id epoch pool_id region_type nslots stride_bytes pid now_ns =
     fold (\<lambda>(f, v) b. sb_set K f v b)
       (superblock_fields stream_id epoch pool_id region_type nslots stride_bytes pid now_ns)
       (replicate (unat TP_SUPERBLOCK_SIZE_BYTES) 0)"

text \<open>A failed prefault fails the creation only when the memory has to be locked.\<close>

definition prefault_region :: "host \<Rightarrow> tp_driver_config \<Rightarrow> string \<Rightarrow> nat \<Rightarrow> (driver, unit) sx" where
  "prefault_region h config path file_size d =
     (if cf_prefault_shm config then
        (case tp_driver_prefault_file h path file_size (cf_mlock_shm config) d of
           (Inl e, d) \<Rightarrow> (if cf_mlock_shm config
                         then (Inl (ERRNO ''tp_driver_create_region_file: mlock failed''), d) else (Inr (), d))
         | (Inr _, d) \<Rightarrow> (Inr (), d))
      else (Inr (), d))"

text \<open>
  From the open path on: directories, file, superblock. The path that
  \<open>tp_driver_build_region_path\<close> returns is absolute, so it contains the slash that
  \<open>strrchr\<close> looks for.
\<close>

definition write_region_file ::
  "sb_codec \<Rightarrow> host \<Rightarrow> tp_driver_config \<Rightarrow> string \<Rightarrow> u32 \<Rightarrow> u64 \<Rightarrow> u16 \<Rightarrow> u16 \<Rightarrow> u32 \<Rightarrow> u32 \<Rightarrow> (driver, unit) sx" where
  "write_region_file K h config path stream_id epoch pool_id region_type nslots stride_bytes =
     check (CHR ''/'' \<notin> set path) (EINVAL ''tp_driver_create_region_file: invalid path'')
     (andthen (tp_driver_mkdir_p h (rev (tl (dropWhile (\<lambda>c. c \<noteq> CHR ''/'') (rev path))))) (\<lambda>_.
      andthen (attempt h (ERRNO ''tp_driver_create_region_file: open failed'')) (\<lambda>_.
      andthen (put_file path []) (\<lambda>_.
      andthen (attempt h (ERRNO ''tp_driver_create_region_file: ftruncate failed'')) (\<lambda>_.
      andthen (put_file path (replicate (region_file_size region_type nslots stride_bytes) 0)) (\<lambda>_.
      andthen (prefault_region h config path (region_file_size region_type nslots stride_bytes)) (\<lambda>_.
      andthen (asking (hs_clock h)) (\<lambda>now_ns.
      andthen (attempt h (ERRNO ''tp_driver_create_region_file: superblock write failed'')) (\<lambda>_.
      andthen (put_file path
        (superblock_buffer K stream_id epoch pool_id region_type nslots stride_bytes (hs_pid h) now_ns @
         drop (unat TP_SUPERBLOCK_SIZE_BYTES) (replicate (region_file_size region_type nslots stride_bytes) 0))) (\<lambda>_.
        attempt h (ERRNO ''tp_driver_create_region_file: fsync failed'')))))))))))"

definition tp_driver_create_region_file ::
  "sb_codec \<Rightarrow> host \<Rightarrow> u32 \<Rightarrow> u64 \<Rightarrow> u16 \<Rightarrow> u16 \<Rightarrow> u32 \<Rightarrow> u32 \<Rightarrow> (driver, unit) sx" where
  "tp_driver_create_region_file K h stream_id epoch pool_id region_type nslots stride_bytes d =
     (case tp_driver_build_region_path h (dr_config d) stream_id epoch pool_id region_type 4096 of
        Inl e \<Rightarrow> (Inl e, d)
      | Inr path \<Rightarrow>
          write_region_file K h (dr_config d) path stream_id epoch pool_id region_type nslots stride_bytes d)"

section \<open>Removing old epochs\<close>

text \<open>
  \<open>strtoull\<close> in base ten: leading white space, an optional sign, digits; the value is
  clamped to the largest 64-bit number and negated after a minus sign. The second result is the
  text that follows, which is the whole text when there is no digit.
\<close>

definition is_space :: "char \<Rightarrow> bool" where
  "is_space c \<longleftrightarrow> c \<in> set '' '' \<or> of_char c \<in> {9::nat, 10, 11, 12, 13}"

definition digit_value :: "char \<Rightarrow> nat" where
  "digit_value c = of_char c - 48"

definition strtoull :: "string \<Rightarrow> u64 \<times> string" where
  "strtoull s =
     (let s1 = dropWhile is_space s;
          neg = (take 1 s1 = ''-'');
          s2 = (if take 1 s1 \<in> {''-'', ''+''} then tl s1 else s1);
          ds = takeWhile is_digit s2;
          n = foldl (\<lambda>acc c. 10 * acc + digit_value c) 0 ds
      in if ds = [] then (0, s)
         else if n \<ge> 2 ^ 64 then (TP_NULL_U64, dropWhile is_digit s2)
         else ((if neg then - of_nat n else of_nat n), dropWhile is_digit s2))"

text \<open>
  One directory entry: the epoch it names, unless it is hidden, not a number, the current epoch, or
  not a directory.
\<close>

definition gc_entry :: "host \<Rightarrow> string \<Rightarrow> u64 \<Rightarrow> string \<Rightarrow> driver \<Rightarrow> u64 option \<times> driver" where
  "gc_entry h dir_path current entry d =
     (let (epoch, endptr) = strtoull entry; path = dir_path @ ''/'' @ entry
      in if take 1 entry = ''.'' \<or> endptr = entry \<or> endptr \<noteq> [] \<or> epoch = current \<or> length path \<ge> 4096 then (None, d)
         else
           (case ask (\<lambda>n. hs_stat_dir h n path) d of
              (None, d) \<Rightarrow> (None, d)
            | (Some (is_dir, mtime), d) \<Rightarrow> (if is_dir then Some epoch else None, d)))"

text \<open>
  The epochs found in the stream's directory. \<open>cap\<close> is the capacity of the array, which
  doubles; the scan stops when it cannot grow.
\<close>

fun tp_driver_gc_scan :: "host \<Rightarrow> string \<Rightarrow> u64 \<Rightarrow> string list \<Rightarrow> u64 list \<Rightarrow> nat \<Rightarrow> driver \<Rightarrow> u64 list \<times> driver" where
  "tp_driver_gc_scan h dir_path current [] epochs cap d = (epochs, d)"
| "tp_driver_gc_scan h dir_path current (entry # entries) epochs cap d =
     (case gc_entry h dir_path current entry d of
        (None, d) \<Rightarrow> tp_driver_gc_scan h dir_path current entries epochs cap d
      | (Some epoch, d) \<Rightarrow>
          if length epochs = cap then
            (case ask (hs_ok h) d of
               (ok, d) \<Rightarrow>
                 if \<not> ok then (epochs, d)
                 else tp_driver_gc_scan h dir_path current entries (epochs @ [epoch]) (if cap = 0 then 8 else cap * 2) d)
          else tp_driver_gc_scan h dir_path current entries (epochs @ [epoch]) cap d)"

text \<open>\<open>unlink\<close> of a path that was built, when the call succeeds.\<close>

definition unlink_file :: "host \<Rightarrow> string res \<Rightarrow> driver \<Rightarrow> driver" where
  "unlink_file h path d =
     (case path of
        Inl e \<Rightarrow> d
      | Inr p \<Rightarrow> (case ask (hs_ok h) d of (ok, d) \<Rightarrow> if ok then d\<lparr>dr_files := (dr_files d)(p := None)\<rparr> else d))"

definition tp_driver_remove_epoch_dir :: "host \<Rightarrow> u32 \<Rightarrow> tp_driver_profile \<Rightarrow> u64 \<Rightarrow> (driver, unit) sx" where
  "tp_driver_remove_epoch_dir h stream_id profile epoch d =
     andthen (of_res (tp_driver_build_epoch_dir h (dr_config d) stream_id epoch 4096)) (\<lambda>dir_path.
     andthen (modify (\<lambda>d. unlink_file h (tp_driver_build_region_path h (dr_config d) stream_id epoch 0 HEADER_RING 4096) d)) (\<lambda>_.
     andthen (modify (fold (\<lambda>pool d. unlink_file h
         (tp_driver_build_region_path h (dr_config d) stream_id epoch (pd_pool_id pool) PAYLOAD_POOL 4096) d) (pf_pools profile))) (\<lambda>_.
       attempt h FAIL))) d"

definition tp_driver_compare_epoch :: "u64 \<Rightarrow> u64 \<Rightarrow> int" where
  "tp_driver_compare_epoch left right = (if left < right then - 1 else if left > right then 1 else 0)"

fun tp_driver_gc_remove :: "host \<Rightarrow> string \<Rightarrow> u32 \<Rightarrow> tp_driver_profile \<Rightarrow> u64 \<Rightarrow> u64 list \<Rightarrow> driver \<Rightarrow> driver" where
  "tp_driver_gc_remove h dir_path stream_id profile now_ns [] d = d"
| "tp_driver_gc_remove h dir_path stream_id profile now_ns (epoch # epochs) d =
     (if length (dir_path @ ''/'' @ decimal (unat epoch)) \<ge> 4096
      then tp_driver_gc_remove h dir_path stream_id profile now_ns epochs d
      else
        (case ask (\<lambda>n. hs_stat_dir h n (dir_path @ ''/'' @ decimal (unat epoch))) d of
           (None, d) \<Rightarrow> tp_driver_gc_remove h dir_path stream_id profile now_ns epochs d
         | (Some (is_dir, mtime_ns), d) \<Rightarrow>
             if cf_epoch_gc_min_age_ns (dr_config d) > 0 \<and> now_ns - mtime_ns < cf_epoch_gc_min_age_ns (dr_config d)
             then tp_driver_gc_remove h dir_path stream_id profile now_ns epochs d
             else tp_driver_gc_remove h dir_path stream_id profile now_ns epochs
                    (snd (tp_driver_remove_epoch_dir h stream_id profile epoch d))))"

text \<open>
  Sorting with \<open>qsort\<close> under \<open>tp_driver_compare_epoch\<close> is sorting by value. The stream's
  profile is not null: \<open>tp_driver_config_load\<close> gives every configured stream its profile, and
  \<open>tp_driver_add_stream\<close> refuses a null one.
\<close>

definition tp_driver_gc_stream :: "host \<Rightarrow> tp_driver_stream_state \<Rightarrow> driver \<Rightarrow> driver" where
  "tp_driver_gc_stream h stream d =
     (case ask (hs_clock h) d of
        (now_ns, d) \<Rightarrow>
          if \<not> cf_epoch_gc_enabled (dr_config d) \<or> cf_epoch_gc_keep (dr_config d) = 0 then d
          else
            (case tp_driver_build_stream_dir h (dr_config d) (ss_stream_id stream) 4096 of
               Inl e \<Rightarrow> d
             | Inr dir_path \<Rightarrow>
                 (case ask (\<lambda>n. hs_readdir h n dir_path) d of
                    (None, d) \<Rightarrow> d
                  | (Some entries, d) \<Rightarrow>
                      (case tp_driver_gc_scan h dir_path (ss_epoch stream) entries [] 0 d of
                         (epochs, d) \<Rightarrow>
                           (let keep_old = unat (cf_epoch_gc_keep (dr_config d) - 1)
                            in if keep_old \<ge> length epochs then d
                               else tp_driver_gc_remove h dir_path (ss_stream_id stream)
                                      (the (ss_profile stream)) now_ns
                                      (take (length epochs - keep_old) (sort epochs)) d)))))"

section \<open>The files of an epoch\<close>

text \<open>
  The stream is passed by value with the index that the caller holds; the creation time is stored
  after the files exist, and old epochs are removed then.
\<close>

definition tp_driver_create_shm_epoch :: "sb_codec \<Rightarrow> host \<Rightarrow> nat \<Rightarrow> (driver, unit) sx" where
  "tp_driver_create_shm_epoch K h i d =
     (let stream = dr_streams d ! i
      in case ss_profile stream of
           None \<Rightarrow> (Inl FAIL, d)
         | Some profile \<Rightarrow>
             andthen (tp_driver_create_region_file K h (ss_stream_id stream) (ss_epoch stream) 0 HEADER_RING
                        (pf_header_nslots profile) 0) (\<lambda>_.
             andthen (for_each (pf_pools profile) (\<lambda>pool.
                tp_driver_create_region_file K h (ss_stream_id stream) (ss_epoch stream) (pd_pool_id pool) PAYLOAD_POOL
                  (pf_header_nslots profile) (pd_stride_bytes pool))) (\<lambda>_.
             andthen (asking (hs_clock h)) (\<lambda>now.
             andthen (modify (\<lambda>d. d\<lparr>dr_streams := (dr_streams d)[i := (dr_streams d ! i)\<lparr>ss_epoch_created_ns := now\<rparr>]\<rparr>)) (\<lambda>_.
               modify (\<lambda>d. if cf_epoch_gc_enabled (dr_config d) then tp_driver_gc_stream h (dr_streams d ! i) d else d))))) d)"

section \<open>Paths determine their regions\<close>

lemma clean_chars: "path_char c \<Longrightarrow> c \<noteq> CHR ''/'' \<and> c \<noteq> CHR ''|''"
  by (auto simp: path_char_def isalnum_def is_digit_def)

lemma decimal_no_separator: "CHR ''/'' \<notin> set (decimal n)" "CHR ''|'' \<notin> set (decimal n)"
  by (rule decimal_clean, simp add: is_digit_def)+

lemma region_path_Inr:
  "tp_driver_build_region_path h config s e p rt n = Inr path \<longleftrightarrow>
    take 1 (cf_shm_base_dir config) = ''/'' \<and> tp_driver_validate_namespace (cf_shm_namespace config) \<and> length path < n \<and>
    path = stream_dir h config s @ ''/'' @ decimal (unat e) @ ''/'' @
      (if rt = HEADER_RING then ''header.ring'' else decimal (unat p) @ ''.pool'')"
  by (auto simp: tp_driver_build_region_path_def res_simps Let_def)

lemma pool_name_inj: "decimal m @ ''.pool'' = decimal n @ ''.pool'' \<longleftrightarrow> m = n"
  by simp

lemma pool_name_not_header: "decimal n @ ''.pool'' \<noteq> ''header.ring''"
proof
  assume "decimal n @ ''.pool'' = ''header.ring''"
  then have "hd (decimal n @ ''.pool'') = CHR ''h''" by simp
  then have "hd (decimal n) = CHR ''h''" by (simp add: hd_append)
  moreover have "is_digit (hd (decimal n))" by (rule decimal_digits [OF hd_in_set]) simp
  ultimately show False by (simp add: is_digit_def)
qed

lemma region_path_same:
  assumes "tp_driver_build_region_path h config s e p rt n = Inr path"
    "tp_driver_build_region_path h config s' e' p' rt' n' = Inr path"
  shows "s = s' \<and> e = e' \<and> (rt = HEADER_RING \<longleftrightarrow> rt' = HEADER_RING) \<and> (rt \<noteq> HEADER_RING \<longrightarrow> p = p')"
proof -
  let ?name = "\<lambda>rt p. if rt = HEADER_RING then ''header.ring'' else decimal (unat (p :: u16)) @ ''.pool''"
  have eq: "decimal (unat s) @ CHR ''/'' # decimal (unat e) @ CHR ''/'' # ?name rt p =
      decimal (unat s') @ CHR ''/'' # decimal (unat e') @ CHR ''/'' # ?name rt' p'"
    using assms by (simp add: region_path_Inr stream_dir_def)
  note s = component_split [OF eq decimal_no_separator(1) decimal_no_separator(1)]
  note e = component_split [OF s(2) decimal_no_separator(1) decimal_no_separator(1)]
  have "(rt = HEADER_RING \<longleftrightarrow> rt' = HEADER_RING) \<and> (rt \<noteq> HEADER_RING \<longrightarrow> p = p')"
    using e(2) pool_name_not_header [of "unat p"] pool_name_not_header [of "unat p'"]
    by (auto split: if_splits intro: unsigned_word_eqI [where ?'a = nat])
  then show ?thesis using s(1) e(1) by (auto intro: unsigned_word_eqI [where ?'a = nat])
qed

lemma user_component_clean: "CHR ''|'' \<notin> set (user_component h)"
proof -
  have "\<forall>c \<in> set (user_component h). path_char c"
    by (auto simp: user_component_def tp_driver_sanitize_component_def Let_def path_char_def isalnum_def)
  then show ?thesis using clean_chars by blast
qed

lemma region_path_clean:
  assumes "tp_driver_build_region_path h config s e p rt n = Inr path" "CHR ''|'' \<notin> set (cf_shm_base_dir config)"
  shows "CHR ''|'' \<notin> set path" "take 1 path = ''/''"
proof -
  have ns: "CHR ''|'' \<notin> set (cf_shm_namespace config)"
    using assms(1) clean_chars by (auto simp: region_path_Inr tp_driver_validate_namespace_def list_all_iff)
  show "CHR ''|'' \<notin> set path"
    using assms ns user_component_clean [of h] decimal_no_separator(2)
    by (auto simp: region_path_Inr stream_dir_def split: if_splits)
  show "take 1 path = ''/''"
    using assms(1) by (cases "cf_shm_base_dir config") (auto simp: region_path_Inr stream_dir_def)
qed

section \<open>What the file operations touch\<close>

text \<open>Only the host-call counter changes, and files whose path is in \<open>S\<close>.\<close>

definition touches :: "string set \<Rightarrow> driver \<Rightarrow> driver \<Rightarrow> bool" where
  "touches S d d' \<longleftrightarrow> (\<exists>c f. d' = d\<lparr>dr_calls := c, dr_files := f\<rparr> \<and> (\<forall>p. p \<notin> S \<longrightarrow> f p = dr_files d p))"

lemma touches_refl: "touches S d d"
  unfolding touches_def by (rule exI [of _ "dr_calls d"], rule exI [of _ "dr_files d"]) simp

lemma touches_trans: "touches S d d' \<Longrightarrow> touches S d' d'' \<Longrightarrow> touches S d d''"
  unfolding touches_def by (elim exE conjE) auto

interpretation files: frame "touches S" for S
  by unfold_locales (rule touches_refl, rule touches_trans)

lemma touches_same:
  assumes "touches S d d'"
  shows "dr_config d' = dr_config d" "dr_streams d' = dr_streams d" "dr_leases d' = dr_leases d"
    "dr_lease_capacity d' = dr_lease_capacity d" "dr_lease_counter d' = dr_lease_counter d"
    "dr_next_announce_ns d' = dr_next_announce_ns d" "dr_cooldowns d' = dr_cooldowns d"
    "dr_cooldown_capacity d' = dr_cooldown_capacity d" "dr_sent d' = dr_sent d"
    "p \<notin> S \<Longrightarrow> dr_files d' p = dr_files d p"
  using assms unfolding touches_def by auto

lemma touches_mono: "touches S d d' \<Longrightarrow> S \<subseteq> T \<Longrightarrow> touches T d d'"
  unfolding touches_def by blast

lemma touches_calls: "touches S d (d\<lparr>dr_calls := c\<rparr>)"
  unfolding touches_def by (rule exI [of _ c], rule exI [of _ "dr_files d"]) simp

lemma touches_file: "p \<in> S \<Longrightarrow> touches S d (d\<lparr>dr_files := (dr_files d)(p := x)\<rparr>)"
  unfolding touches_def
  by (rule exI [of _ "dr_calls d"], rule exI [of _ "(dr_files d)(p := x)"]) auto

lemma touches_both: "p \<in> S \<Longrightarrow> touches S d (d\<lparr>dr_calls := c, dr_files := (dr_files d)(p := x)\<rparr>)"
  unfolding touches_def by (rule exI [of _ c], rule exI [of _ "(dr_files d)(p := x)"]) auto

lemma touches_ask: "ask f d = (x, d') \<Longrightarrow> touches S d d'"
  by (auto simp: ask_def intro: touches_calls)

lemma keeps_asking: "files.keeps S (asking f)"
  by (simp add: files.keeps_def asking_def touches_calls)

lemma keeps_attempt: "files.keeps S (attempt h e)"
  unfolding attempt_def by (intro files.keeps_intros keeps_asking)

lemma keeps_put_file: "path \<in> S \<Longrightarrow> files.keeps S (put_file path content)"
  unfolding put_file_def by (intro files.keeps_intros touches_file)

lemma keeps_mkdir_p: "files.keeps S (tp_driver_mkdir_p h path)"
  unfolding tp_driver_mkdir_p_def by (intro files.keeps_intros keeps_attempt)

lemma keeps_prefault: "path \<in> S \<Longrightarrow> files.keeps S (tp_driver_prefault_file h path n b)"
  unfolding tp_driver_prefault_file_def by (intro files.keeps_intros keeps_attempt keeps_put_file)

text \<open>The paths of one epoch of a stream.\<close>

definition epoch_paths :: "host \<Rightarrow> tp_driver_config \<Rightarrow> u32 \<Rightarrow> u64 \<Rightarrow> string set" where
  "epoch_paths h config s e = {path. \<exists>p rt. tp_driver_build_region_path h config s e p rt 4096 = Inr path}"

lemma epoch_paths_disjoint: "e \<noteq> e' \<or> s \<noteq> s' \<Longrightarrow> epoch_paths h config s e \<inter> epoch_paths h config s' e' = {}"
  unfolding epoch_paths_def using region_path_same by fastforce

lemma keeps_prefault_region: "path \<in> S \<Longrightarrow> files.keeps S (prefault_region h config path n)"
  unfolding files.keeps_def prefault_region_def
  using files.keeps_run [OF keeps_prefault [of path S h n "cf_mlock_shm config"]]
  by (auto simp: touches_refl split: prod.splits sum.splits)

lemma keeps_write_region:
  "path \<in> S \<Longrightarrow> files.keeps S (write_region_file K h config path s e p rt nslots stride)"
  unfolding write_region_file_def
  by (intro files.keeps_intros keeps_mkdir_p keeps_attempt keeps_put_file keeps_prefault_region keeps_asking)

lemma touches_create_region:
  assumes "\<And>path. tp_driver_build_region_path h (dr_config d) s e p rt 4096 = Inr path \<Longrightarrow> path \<in> S"
    "tp_driver_create_region_file K h s e p rt nslots stride d = (r, d')"
  shows "touches S d d'"
proof (cases "tp_driver_build_region_path h (dr_config d) s e p rt 4096")
  case (Inl e')
  then show ?thesis using assms(2) by (simp add: tp_driver_create_region_file_def touches_refl)
next
  case (Inr q)
  show ?thesis
    using files.keepsD [OF keeps_write_region [of q S K h "dr_config d" s e p rt nslots stride], of d] Inr assms
    by (simp add: tp_driver_create_region_file_def)
qed

lemma andthen_Inr [res_simps]:
  "andthen m f s = (Inr y, s') \<longleftrightarrow> (\<exists>x t. m s = (Inr x, t) \<and> f x t = (Inr y, s'))"
  by (auto simp: andthen_def split: prod.splits sum.splits)

lemma check_Inr [res_simps]: "check c e k s = (Inr x, s') \<longleftrightarrow> \<not> c \<and> k s = (Inr x, s')"
  by (simp add: check_def)

lemma put_file_Inr [res_simps]:
  "put_file path content d = (r, d') \<longleftrightarrow> r = Inr () \<and> d' = d\<lparr>dr_files := (dr_files d)(path \<mapsto> content)\<rparr>"
  by (auto simp: put_file_def modify_def)

lemma attempt_files: "attempt h e d = (r, d') \<Longrightarrow> dr_files d' = dr_files d"
  using files.keeps_run [OF keeps_attempt [of "{}" h e], of d] by (auto simp: touches_def)

lemma write_region_file_Inr:
  assumes "write_region_file K h config path s e p rt nslots stride d = (Inr (), d')"
  shows "\<exists>now_ns. dr_files d' path = Some (superblock_buffer K s e p rt nslots stride (hs_pid h) now_ns @
    drop (unat TP_SUPERBLOCK_SIZE_BYTES) (replicate (region_file_size rt nslots stride) 0))"
  using assms unfolding write_region_file_def andthen_Inr check_Inr put_file_Inr
  by (elim exE conjE) (drule attempt_files, auto)

section \<open>A created region passes the clients' validation\<close>

context superblock_codec
begin

lemma buffer_length: "length (superblock_buffer K s e p rt nslots stride pid now) = 64"
  by (simp add: superblock_buffer_def fold_set_length TP_SUPERBLOCK_SIZE_BYTES_def)

lemma buffer_field:
  assumes "(f, v) \<in> set (superblock_fields s e p rt nslots stride pid now)"
  shows "sb_get K f (superblock_buffer K s e p rt nslots stride pid now @ pad) = take_bit (8 * width f) v"
proof -
  have fields: "\<forall>g \<in> fst ` set (superblock_fields s e p rt nslots stride pid now). known g"
    "distinct (List.map fst (superblock_fields s e p rt nslots stride pid now))"
    using widths by (simp_all add: superblock_fields_def)
  have len: "64 \<le> length (superblock_buffer K s e p rt nslots stride pid now)" by (simp add: buffer_length)
  have "known f" using fields(1) assms by force
  then show ?thesis
    using get_fold [OF assms fields(2,1)] get_append [OF _ len]
    by (simp add: superblock_buffer_def TP_SUPERBLOCK_SIZE_BYTES_def)
qed

lemma buffer_fields:
  fixes s e p rt nslots stride pid now pad
  defines "addr \<equiv> superblock_buffer K s e p rt nslots stride pid now @ pad"
  shows "sb_get K ''magic'' addr = TP_MAGIC_U64" "ucast (sb_get K ''layoutVersion'' addr) = TP_LAYOUT_VERSION"
    "sb_get K ''epoch'' addr = e" "ucast (sb_get K ''streamId'' addr) = s" "ucast (sb_get K ''regionType'' addr) = rt"
    "ucast (sb_get K ''poolId'' addr) = p" "ucast (sb_get K ''nslots'' addr) = nslots"
    "ucast (sb_get K ''slotBytes'' addr) = region_slot_bytes rt" "ucast (sb_get K ''strideBytes'' addr) = stride"
    "sb_get K ''pid'' addr = pid"
proof -
  note f = buffer_field [of _ _ s e p rt nslots stride pid now pad, folded addr_def]
  have u64: "take_bit 64 (x :: u64) = x" for x
    by (rule bit_word_eqI) (auto simp: bit_simps)
  show "sb_get K ''magic'' addr = TP_MAGIC_U64" "sb_get K ''epoch'' addr = e" "sb_get K ''pid'' addr = pid"
    using f [of "''magic''" TP_MAGIC_U64] f [of "''epoch''" e] f [of "''pid''" pid] widths u64
    by (simp_all add: superblock_fields_def)
  have u32: "ucast (take_bit 32 (ucast (x :: u32) :: u64)) = x" for x
    by (rule bit_word_eqI) (auto simp: bit_simps)
  have u16: "ucast (take_bit 16 (ucast (x :: u16) :: u64)) = x" for x
    by (rule bit_word_eqI) (auto simp: bit_simps)
  show "ucast (sb_get K ''layoutVersion'' addr) = TP_LAYOUT_VERSION" "ucast (sb_get K ''streamId'' addr) = s"
    "ucast (sb_get K ''nslots'' addr) = nslots" "ucast (sb_get K ''slotBytes'' addr) = region_slot_bytes rt"
    "ucast (sb_get K ''strideBytes'' addr) = stride"
    using f [of "''layoutVersion''" "ucast TP_LAYOUT_VERSION"] f [of "''streamId''" "ucast s"]
      f [of "''nslots''" "ucast nslots"] f [of "''slotBytes''" "ucast (region_slot_bytes rt)"]
      f [of "''strideBytes''" "ucast stride"] widths u32
    by (simp_all add: superblock_fields_def)
  show "ucast (sb_get K ''regionType'' addr) = rt" "ucast (sb_get K ''poolId'' addr) = p"
    using f [of "''regionType''" "ucast rt"] f [of "''poolId''" "ucast p"] widths u16
    by (simp_all add: superblock_fields_def)
qed

lemma created_valid:
  assumes "rt \<in> {HEADER_RING, PAYLOAD_POOL}" "rt = PAYLOAD_POOL \<longrightarrow> stride \<noteq> 0"
    "rg_addr region = Some (superblock_buffer K s e p rt nslots stride pid now @ pad)"
  shows "tp_shm_validate_superblock K region
    (Some (if rt = HEADER_RING then header_expected s e nslots else pool_expected s e nslots p stride)) = Inr ()"
proof -
  let ?addr = "superblock_buffer K s e p rt nslots stride pid now @ pad"
  have rt: "sb_region_type K ?addr = Some rt"
    using region_type [of ?addr] assms(1) by (simp add: buffer_fields buffer_length)
  show ?thesis
    using assms rt
    by (auto simp: tp_shm_validate_superblock_def tp_shm_check_expected_def header_expected_def pool_expected_def
        buffer_fields region_slot_bytes_def tp_shm_validate_slot_bytes_def HEADER_RING_def PAYLOAD_POOL_def)
qed

end

section \<open>Garbage collection leaves the current epoch alone\<close>

lemma gc_entry_touches: "gc_entry h dir current entry d = (r, d') \<Longrightarrow> touches S d d'"
  by (auto simp: gc_entry_def Let_def ask_def touches_refl touches_calls split: if_splits prod.splits option.splits)

lemma gc_entry_not_current: "gc_entry h dir current entry d = (Some e, d') \<Longrightarrow> e \<noteq> current"
  by (auto simp: gc_entry_def Let_def ask_def split: if_splits prod.splits option.splits)

lemma scan_spec:
  "tp_driver_gc_scan h dir current entries epochs cap d = (es, d') \<Longrightarrow> current \<notin> set epochs \<Longrightarrow>
    touches S d d' \<and> current \<notin> set es"
proof (induction entries arbitrary: epochs cap d)
  case Nil
  then show ?case by (auto simp: touches_refl)
next
  case (Cons entry entries)
  obtain r d1 where r: "gc_entry h dir current entry d = (r, d1)" by (cases "gc_entry h dir current entry d")
  have t1: "touches S d d1" by (rule gc_entry_touches [OF r])
  have t2: "touches S d1 (d1\<lparr>dr_calls := c\<rparr>)" for c by (rule touches_calls)
  have fresh: "current \<notin> set (epochs @ [e])" if "r = Some e" for e
    using Cons.prems(2) gc_entry_not_current [OF r [unfolded that]] by simp
  show ?case
    using Cons.prems r fresh
    by (auto simp: ask_def split: option.splits if_splits dest!: Cons.IH
        intro: touches_trans [OF t1] touches_trans [OF touches_trans [OF t1 t2]] touches_trans [OF t1 t2])
qed

lemma unlink_touches: "(\<And>p. path = Inr p \<Longrightarrow> p \<in> S) \<Longrightarrow> touches S d (unlink_file h path d)"
  by (cases path) (auto simp: unlink_file_def ask_def touches_refl touches_calls touches_both)

lemma unlink_pools_touches:
  assumes "dr_config d = config"
  shows "touches (epoch_paths h config s e) d (fold (\<lambda>pool d. unlink_file h
     (tp_driver_build_region_path h (dr_config d) s e (pd_pool_id pool) PAYLOAD_POOL 4096) d) pools d)"
  using assms
proof (induction pools arbitrary: d)
  case Nil
  then show ?case by (simp add: touches_refl)
next
  case (Cons pool pools)
  let ?d1 = "unlink_file h (tp_driver_build_region_path h (dr_config d) s e (pd_pool_id pool) PAYLOAD_POOL 4096) d"
  have t: "touches (epoch_paths h config s e) d ?d1"
    by (rule unlink_touches) (use Cons.prems in \<open>auto simp: epoch_paths_def\<close>)
  have "dr_config ?d1 = config" using touches_same(1) [OF t] Cons.prems by simp
  then show ?case using Cons.IH [of ?d1] t by (auto intro: touches_trans)
qed

lemma remove_epoch_touches:
  "touches (epoch_paths h (dr_config d) s e) d (snd (tp_driver_remove_epoch_dir h s profile e d))"
proof (cases "tp_driver_build_epoch_dir h (dr_config d) s e 4096")
  case (Inl x)
  then show ?thesis by (simp add: tp_driver_remove_epoch_dir_def andthen_def of_res_def touches_refl)
next
  case (Inr dir)
  let ?S = "epoch_paths h (dr_config d) s e"
  let ?d1 = "unlink_file h (tp_driver_build_region_path h (dr_config d) s e 0 HEADER_RING 4096) d"
  have t1: "touches ?S d ?d1" by (rule unlink_touches) (auto simp: epoch_paths_def)
  note t2 = touches_trans [OF t1 unlink_pools_touches [OF touches_same(1) [OF t1]]]
  show ?thesis
    using Inr touches_trans [OF t2 files.keepsD [OF keeps_attempt]]
    by (simp add: tp_driver_remove_epoch_dir_def andthen_def of_res_def modify_def)
qed

lemma gc_remove_touches:
  "dr_config d = config \<Longrightarrow>
    touches (\<Union>e \<in> set epochs. epoch_paths h config s e) d (tp_driver_gc_remove h dir s profile now epochs d)"
proof (induction epochs arbitrary: d)
  case Nil
  then show ?case by (simp add: touches_refl)
next
  case (Cons e epochs)
  let ?S = "\<Union>e \<in> set (e # epochs). epoch_paths h config s e"
  let ?step = "\<lambda>d. tp_driver_gc_remove h dir s profile now epochs d"
  have rest: "touches ?S d' (?step d')" if "dr_config d' = config" for d'
    by (rule touches_mono [OF Cons.IH [OF that]]) auto
  let ?d1 = "d\<lparr>dr_calls := Suc (dr_calls d)\<rparr>"
  have c1: "dr_config ?d1 = config" using Cons.prems by simp
  have t1: "touches ?S d ?d1" by (rule touches_calls)
  have t2: "touches ?S ?d1 (snd (tp_driver_remove_epoch_dir h s profile e ?d1))"
    by (rule touches_mono [OF remove_epoch_touches]) (use c1 in auto)
  have c2: "dr_config (snd (tp_driver_remove_epoch_dir h s profile e ?d1)) = config"
    using touches_same(1) [OF t2] c1 by simp
  show ?case
    using rest [OF Cons.prems] touches_trans [OF t1 rest [OF c1]] touches_trans [OF t1 touches_trans [OF t2 rest [OF c2]]]
    by (auto simp: ask_def split: option.splits)
qed

lemma gc_stream_touches:
  "touches (\<Union>e \<in> - {ss_epoch stream}. epoch_paths h (dr_config d) (ss_stream_id stream) e) d (tp_driver_gc_stream h stream d)"
proof -
  let ?S = "\<Union>e \<in> - {ss_epoch stream}. epoch_paths h (dr_config d) (ss_stream_id stream) e"
  let ?d1 = "d\<lparr>dr_calls := Suc (dr_calls d)\<rparr>"
  let ?d2 = "d\<lparr>dr_calls := Suc (Suc (dr_calls d))\<rparr>"
  have t1: "touches ?S d ?d1" "touches ?S d ?d2" by (rule touches_calls)+
  have main: "touches ?S d (if keep then d3 else tp_driver_gc_remove h dir (ss_stream_id stream) profile now (take n (sort es)) d3)"
    if scan: "tp_driver_gc_scan h dir (ss_epoch stream) entries [] 0 ?d2 = (es, d3)"
    for keep dir profile now n es d3 entries
  proof -
    have t3: "touches ?S d d3" and cur: "ss_epoch stream \<notin> set es"
      using scan_spec [OF scan, of ?S] touches_trans [OF t1(2)] by simp_all
    have "touches ?S d3 (tp_driver_gc_remove h dir (ss_stream_id stream) profile now (take n (sort es)) d3)"
      by (rule touches_mono [OF gc_remove_touches [OF touches_same(1) [OF t3]]])
        (use cur in \<open>auto dest!: in_set_takeD\<close>)
    with t3 show ?thesis by (auto intro: touches_trans)
  qed
  show ?thesis
    unfolding tp_driver_gc_stream_def
    using t1 main by (auto simp: ask_def Let_def split: sum.splits option.splits prod.splits)
qed

section \<open>The files of an epoch are ready\<close>

text \<open>The file of a region, as the driver leaves it.\<close>

definition region_ready ::
  "sb_codec \<Rightarrow> host \<Rightarrow> driver \<Rightarrow> u32 \<Rightarrow> u64 \<Rightarrow> u16 \<Rightarrow> u16 \<Rightarrow> u32 \<Rightarrow> u32 \<Rightarrow> bool" where
  "region_ready K h d s e p rt nslots stride \<longleftrightarrow>
     (\<exists>path now_ns. tp_driver_build_region_path h (dr_config d) s e p rt 4096 = Inr path \<and>
        dr_files d path = Some (superblock_buffer K s e p rt nslots stride (hs_pid h) now_ns @
          drop (unat TP_SUPERBLOCK_SIZE_BYTES) (replicate (region_file_size rt nslots stride) 0)))"

lemma region_ready_touches:
  assumes "region_ready K h d s e p rt nslots stride" "touches S d d'"
    "\<And>path. tp_driver_build_region_path h (dr_config d) s e p rt 4096 = Inr path \<Longrightarrow> path \<notin> S"
  shows "region_ready K h d' s e p rt nslots stride"
  using assms(1,3) touches_same(1,10) [OF assms(2)] unfolding region_ready_def by metis

lemma region_ready_update:
  "dr_config d' = dr_config d \<Longrightarrow> dr_files d' = dr_files d \<Longrightarrow>
    region_ready K h d' s e p rt nslots stride \<longleftrightarrow> region_ready K h d s e p rt nslots stride"
  by (simp add: region_ready_def)

lemma create_region_ready:
  assumes "tp_driver_create_region_file K h s e p rt nslots stride d = (Inr (), d')"
  shows "region_ready K h d' s e p rt nslots stride"
proof -
  obtain path where path: "tp_driver_build_region_path h (dr_config d) s e p rt 4096 = Inr path"
    and w: "write_region_file K h (dr_config d) path s e p rt nslots stride d = (Inr (), d')"
    using assms by (auto simp: tp_driver_create_region_file_def split: sum.splits)
  have "dr_config d' = dr_config d"
    by (rule touches_same(1) [OF touches_create_region [OF UNIV_I assms]])
  then show ?thesis using write_region_file_Inr [OF w] path by (auto simp: region_ready_def)
qed

lemma create_region_keeps_ready:
  assumes "tp_driver_create_region_file K h s e p' rt' nslots' stride' d = (r, d')"
    "region_ready K h d s e p rt nslots stride" "rt \<noteq> rt' \<or> p \<noteq> p'"
    "rt \<in> {HEADER_RING, PAYLOAD_POOL}" "rt' = PAYLOAD_POOL"
  shows "region_ready K h d' s e p rt nslots stride"
proof -
  let ?S = "{path. tp_driver_build_region_path h (dr_config d) s e p' rt' 4096 = Inr path}"
  have t: "touches ?S d d'" by (rule touches_create_region [OF _ assms(1)]) simp
  have "path \<notin> ?S" if "tp_driver_build_region_path h (dr_config d) s e p rt 4096 = Inr path" for path
    using region_path_same [OF that, of s e p' rt' 4096] assms(3,4,5) by (auto simp: HEADER_RING_def PAYLOAD_POOL_def)
  then show ?thesis by (rule region_ready_touches [OF assms(2) t])
qed

lemma create_pools_ready:
  assumes "for_each pools (\<lambda>pool. tp_driver_create_region_file K h s e (pd_pool_id pool) PAYLOAD_POOL nslots
      (pd_stride_bytes pool)) d = (Inr (), d')" "distinct (List.map pd_pool_id pools)"
  shows "dr_config d' = dr_config d \<and> dr_streams d' = dr_streams d \<and>
    (\<forall>pool \<in> set pools. region_ready K h d' s e (pd_pool_id pool) PAYLOAD_POOL nslots (pd_stride_bytes pool)) \<and>
    (\<forall>p rt n st. region_ready K h d s e p rt n st \<longrightarrow> rt \<in> {HEADER_RING, PAYLOAD_POOL} \<longrightarrow>
      rt = HEADER_RING \<or> p \<notin> pd_pool_id ` set pools \<longrightarrow> region_ready K h d' s e p rt n st)"
  using assms
proof (induction pools arbitrary: d)
  case Nil
  then show ?case by (simp add: ret_def)
next
  case (Cons pool pools)
  obtain d1 where d1: "tp_driver_create_region_file K h s e (pd_pool_id pool) PAYLOAD_POOL nslots (pd_stride_bytes pool) d = (Inr (), d1)"
    and rest: "for_each pools (\<lambda>pool. tp_driver_create_region_file K h s e (pd_pool_id pool) PAYLOAD_POOL nslots
      (pd_stride_bytes pool)) d1 = (Inr (), d')"
    using Cons.prems(1) by (auto simp: res_simps)
  note same = touches_same [OF touches_create_region [OF UNIV_I d1]]
  have IH: "dr_config d' = dr_config d1 \<and> dr_streams d' = dr_streams d1 \<and>
    (\<forall>pool \<in> set pools. region_ready K h d' s e (pd_pool_id pool) PAYLOAD_POOL nslots (pd_stride_bytes pool)) \<and>
    (\<forall>p rt n st. region_ready K h d1 s e p rt n st \<longrightarrow> rt \<in> {HEADER_RING, PAYLOAD_POOL} \<longrightarrow>
      rt = HEADER_RING \<or> p \<notin> pd_pool_id ` set pools \<longrightarrow> region_ready K h d' s e p rt n st)"
    by (rule Cons.IH [OF rest]) (use Cons.prems(2) in simp)
  have first: "region_ready K h d' s e (pd_pool_id pool) PAYLOAD_POOL nslots (pd_stride_bytes pool)"
    using create_region_ready [OF d1] IH Cons.prems(2) by auto
  have others: "region_ready K h d' s e p rt n st" if "region_ready K h d s e p rt n st" "rt \<in> {HEADER_RING, PAYLOAD_POOL}"
    "rt = HEADER_RING \<or> p \<notin> pd_pool_id ` set (pool # pools)" for p rt n st
  proof -
    have "rt \<noteq> PAYLOAD_POOL \<or> p \<noteq> pd_pool_id pool"
      using that(3) by (auto simp: HEADER_RING_def PAYLOAD_POOL_def)
    then have "region_ready K h d1 s e p rt n st"
      by (rule create_region_keeps_ready [OF d1 that(1) _ that(2) refl])
    then show ?thesis using IH that(2,3) by auto
  qed
  show ?case using IH first others same(1,2) by auto
qed

lemma create_epoch_steps:
  assumes "tp_driver_create_shm_epoch K h i d = (Inr (), d')" "ss_profile (dr_streams d ! i) = Some profile"
    "distinct (List.map pd_pool_id (pf_pools profile))" "i < length (dr_streams d)"
  shows "dr_config d' = dr_config d \<and>
    region_ready K h d' (ss_stream_id (dr_streams d ! i)) (ss_epoch (dr_streams d ! i)) 0 HEADER_RING (pf_header_nslots profile) 0 \<and>
    (\<forall>pool \<in> set (pf_pools profile). region_ready K h d' (ss_stream_id (dr_streams d ! i)) (ss_epoch (dr_streams d ! i))
       (pd_pool_id pool) PAYLOAD_POOL (pf_header_nslots profile) (pd_stride_bytes pool))"
proof -
  let ?s = "ss_stream_id (dr_streams d ! i)" and ?e = "ss_epoch (dr_streams d ! i)"
  obtain d1 d2 d3 where d1: "tp_driver_create_region_file K h ?s ?e 0 HEADER_RING (pf_header_nslots profile) 0 d = (Inr (), d1)"
    and d2: "for_each (pf_pools profile) (\<lambda>pool. tp_driver_create_region_file K h ?s ?e (pd_pool_id pool) PAYLOAD_POOL
       (pf_header_nslots profile) (pd_stride_bytes pool)) d1 = (Inr (), d2)"
    and d3: "d3 = d2\<lparr>dr_calls := Suc (dr_calls d2), dr_streams := (dr_streams d2)[i := (dr_streams d2 ! i)\<lparr>ss_epoch_created_ns :=
       hs_clock h (dr_calls d2)\<rparr>]\<rparr>"
    and d': "d' = (if cf_epoch_gc_enabled (dr_config d3) then tp_driver_gc_stream h (dr_streams d3 ! i) d3 else d3)"
    using assms(1,2) by (auto simp: tp_driver_create_shm_epoch_def Let_def res_simps modify_def asking_def)
  note same = touches_same [OF touches_create_region [OF UNIV_I d1]]
  note pools = create_pools_ready [OF d2 assms(3)]
  have eq: "dr_config d3 = dr_config d" "ss_stream_id (dr_streams d3 ! i) = ?s" "ss_epoch (dr_streams d3 ! i) = ?e"
    using pools same(1,2) d3 assms(4) by simp_all
  have upd: "dr_config d3 = dr_config d2" "dr_files d3 = dr_files d2" using d3 by simp_all
  have ready3: "region_ready K h d3 ?s ?e 0 HEADER_RING (pf_header_nslots profile) 0"
    "\<forall>pool \<in> set (pf_pools profile). region_ready K h d3 ?s ?e (pd_pool_id pool) PAYLOAD_POOL (pf_header_nslots profile) (pd_stride_bytes pool)"
    using pools create_region_ready [OF d1] by (auto simp: region_ready_update [OF upd])
  let ?S = "\<Union>e \<in> - {?e}. epoch_paths h (dr_config d3) ?s e"
  have gc: "touches ?S d3 d'"
    using gc_stream_touches [where h = h and stream = "dr_streams d3 ! i" and d = d3] unfolding d' eq(2,3) by (simp add: touches_refl)
  have out: "path \<notin> ?S" if "tp_driver_build_region_path h (dr_config d3) ?s ?e p rt 4096 = Inr path" for p rt path
    using region_path_same [OF that] by (auto simp: epoch_paths_def)
  have kept: "region_ready K h d3 ?s ?e p rt n st \<Longrightarrow> region_ready K h d' ?s ?e p rt n st" for p rt n st
    by (rule region_ready_touches [OF _ gc out])
  show ?thesis
    using kept [OF ready3(1)] ready3(2) kept touches_same(1) [OF gc] eq(1) by simp
qed

lemma region_ready_valid:
  assumes "superblock_codec K width known" "region_ready K h d s e p rt nslots stride"
    "rt \<in> {HEADER_RING, PAYLOAD_POOL}" "rt = PAYLOAD_POOL \<longrightarrow> stride \<noteq> 0"
  shows "\<exists>path content. tp_driver_build_region_path h (dr_config d) s e p rt 4096 = Inr path \<and> dr_files d path = Some content \<and>
    length content = region_file_size rt nslots stride \<and>
    (\<forall>region. rg_addr region = Some content \<longrightarrow> tp_shm_validate_superblock K region
      (Some (if rt = HEADER_RING then header_expected s e nslots else pool_expected s e nslots p stride)) = Inr ())"
proof -
  obtain path now where r: "tp_driver_build_region_path h (dr_config d) s e p rt 4096 = Inr path"
    "dr_files d path = Some (superblock_buffer K s e p rt nslots stride (hs_pid h) now @
      drop (unat TP_SUPERBLOCK_SIZE_BYTES) (replicate (region_file_size rt nslots stride) 0))"
    using assms(2) by (auto simp: region_ready_def)
  have len: "length (superblock_buffer K s e p rt nslots stride (hs_pid h) now @
      drop (unat TP_SUPERBLOCK_SIZE_BYTES) (replicate (region_file_size rt nslots stride) 0)) = region_file_size rt nslots stride"
    by (simp add: superblock_codec.buffer_length [OF assms(1)] region_file_size_def TP_SUPERBLOCK_SIZE_BYTES_def)
  show ?thesis
    by (intro exI conjI, rule r(1), rule r(2), rule len, intro allI impI) (rule superblock_codec.created_valid [OF assms(1,3,4)])
qed

section \<open>Creation succeeds when the host does\<close>

definition succeeds :: "('s, 'a) sx \<Rightarrow> bool" where
  "succeeds m \<longleftrightarrow> (\<forall>s. \<exists>x t. m s = (Inr x, t))"

lemma succeeds_andthen: "succeeds m \<Longrightarrow> (\<And>x. succeeds (f x)) \<Longrightarrow> succeeds (andthen m f)"
  unfolding succeeds_def andthen_def by (metis (mono_tags, lifting) old.prod.case sum.case(2))

lemma succeeds_basic: "succeeds (ret x)" "succeeds (modify f)" "succeeds (put_file path content)" "succeeds (asking g)"
  by (simp_all add: succeeds_def ret_def modify_def put_file_def asking_def)

lemma succeeds_check: "\<not> c \<Longrightarrow> succeeds k \<Longrightarrow> succeeds (check c e k)"
  by (simp add: succeeds_def check_def)

lemma succeeds_for_each: "(\<And>x. succeeds (f x)) \<Longrightarrow> succeeds (for_each xs f)"
  by (induction xs) (auto intro: succeeds_basic succeeds_andthen)

lemma succeeds_attempt: "\<forall>n. hs_ok h n \<Longrightarrow> succeeds (attempt h e)"
  by (simp add: succeeds_def attempt_def andthen_def asking_def check_def ret_def)

lemma succeeds_prefault: "\<forall>n. hs_ok h n \<Longrightarrow> succeeds (prefault_region h config path n)"
proof -
  assume h: "\<forall>n. hs_ok h n"
  have "succeeds (tp_driver_prefault_file h path n b)" for b
    unfolding tp_driver_prefault_file_def
    by (intro succeeds_andthen succeeds_attempt [OF h] succeeds_basic) (simp add: succeeds_attempt [OF h] succeeds_basic)
  then show ?thesis by (auto simp: succeeds_def prefault_region_def split: prod.splits sum.splits) (metis Inl_Inr_False prod.inject)
qed

lemma dirname:
  assumes "CHR ''/'' \<notin> set b"
  shows "rev (tl (dropWhile (\<lambda>c. c \<noteq> CHR ''/'') (rev (a @ CHR ''/'' # b)))) = a"
  using dropWhile_component [of "CHR ''/''" "rev b" "rev a"] assms by simp

lemma create_region_succeeds:
  assumes h: "\<forall>n. hs_ok h n" and path: "tp_driver_build_region_path h (dr_config d) s e p rt 4096 = Inr path"
  shows "\<exists>d'. tp_driver_create_region_file K h s e p rt nslots stride d = (Inr (), d')"
proof -
  let ?a = "stream_dir h (dr_config d) s @ ''/'' @ decimal (unat e)"
  let ?b = "if rt = HEADER_RING then ''header.ring'' else decimal (unat p) @ ''.pool''"
  have len: "length path < 4096" using path unfolding region_path_Inr by (elim conjE)
  have split: "path = ?a @ CHR ''/'' # ?b" using path by (simp add: region_path_Inr)
  have "CHR ''/'' \<notin> set ?b" using decimal_no_separator(1) by simp
  then have dir: "rev (tl (dropWhile (\<lambda>c. c \<noteq> CHR ''/'') (rev path))) = ?a"
    unfolding split by (rule dirname)
  have "succeeds (tp_driver_mkdir_p h ?a)"
    unfolding tp_driver_mkdir_p_def
    by (intro succeeds_check succeeds_for_each succeeds_attempt [OF h]) (use split len in auto)
  moreover have "CHR ''/'' \<in> set path" using split by simp
  ultimately have "succeeds (write_region_file K h (dr_config d) path s e p rt nslots stride)"
    unfolding write_region_file_def dir
    by (intro succeeds_check succeeds_andthen succeeds_attempt [OF h] succeeds_prefault [OF h] succeeds_basic) simp_all
  then show ?thesis using path by (auto simp: succeeds_def tp_driver_create_region_file_def)
qed

lemma create_pools_succeed:
  assumes "\<forall>n. hs_ok h n"
    "\<forall>pool \<in> set pools. \<exists>path. tp_driver_build_region_path h (dr_config d) s e (pd_pool_id pool) PAYLOAD_POOL 4096 = Inr path"
  shows "\<exists>d'. for_each pools (\<lambda>pool. tp_driver_create_region_file K h s e (pd_pool_id pool) PAYLOAD_POOL nslots
      (pd_stride_bytes pool)) d = (Inr (), d')"
  using assms(2)
proof (induction pools arbitrary: d)
  case Nil
  then show ?case by (simp add: ret_def)
next
  case (Cons pool pools)
  obtain path where path: "tp_driver_build_region_path h (dr_config d) s e (pd_pool_id pool) PAYLOAD_POOL 4096 = Inr path"
    using Cons.prems by auto
  obtain d1 where d1: "tp_driver_create_region_file K h s e (pd_pool_id pool) PAYLOAD_POOL nslots (pd_stride_bytes pool) d = (Inr (), d1)"
    using create_region_succeeds [OF assms(1) path, of K nslots "pd_stride_bytes pool"] by (elim exE) (rule that)
  have config: "dr_config d1 = dr_config d" by (rule touches_same(1) [OF touches_create_region [OF UNIV_I d1]])
  show ?case using Cons.IH [of d1] Cons.prems config d1 by (simp add: res_simps)
qed

text \<open>The creation of an epoch does not fail unless a system call does or a path is too long.\<close>

lemma create_epoch_succeeds:
  assumes "\<forall>n. hs_ok h n" "i < length (dr_streams d)" "ss_profile (dr_streams d ! i) = Some profile"
    "\<exists>path. tp_driver_build_region_path h (dr_config d) (ss_stream_id (dr_streams d ! i)) (ss_epoch (dr_streams d ! i)) 0
       HEADER_RING 4096 = Inr path"
    "\<forall>pool \<in> set (pf_pools profile). \<exists>path. tp_driver_build_region_path h (dr_config d) (ss_stream_id (dr_streams d ! i))
       (ss_epoch (dr_streams d ! i)) (pd_pool_id pool) PAYLOAD_POOL 4096 = Inr path"
  shows "\<exists>d'. tp_driver_create_shm_epoch K h i d = (Inr (), d')"
proof -
  let ?s = "ss_stream_id (dr_streams d ! i)" and ?e = "ss_epoch (dr_streams d ! i)"
  obtain path where path: "tp_driver_build_region_path h (dr_config d) ?s ?e 0 HEADER_RING 4096 = Inr path" using assms(4) by (elim exE) (rule that)
  obtain d1 where d1: "tp_driver_create_region_file K h ?s ?e 0 HEADER_RING (pf_header_nslots profile) 0 d = (Inr (), d1)"
    using create_region_succeeds [OF assms(1) path, of K "pf_header_nslots profile" 0] by (elim exE) (rule that)
  note same = touches_same [OF touches_create_region [OF UNIV_I d1]]
  obtain d2 where d2: "for_each (pf_pools profile) (\<lambda>pool. tp_driver_create_region_file K h ?s ?e (pd_pool_id pool) PAYLOAD_POOL
      (pf_header_nslots profile) (pd_stride_bytes pool)) d1 = (Inr (), d2)"
    using create_pools_succeed [OF assms(1) assms(5) [folded same(1)], of K "pf_header_nslots profile"]
    by (elim exE) (rule that)
  show ?thesis
    using assms(3) d1 d2 by (simp add: tp_driver_create_shm_epoch_def Let_def res_simps asking_def modify_def)
qed

text \<open>
  Two regions of a driver never share a file: the path of a region determines its stream, its
  epoch, whether it is the header ring and, for a payload pool, the pool.
\<close>

theorem region_path_inj:
  assumes "tp_driver_build_region_path h config s e p rt 4096 = Inr path"
    "tp_driver_build_region_path h config s' e' p' rt' 4096 = Inr path"
  shows "s = s' \<and> e = e' \<and> (rt = HEADER_RING \<longleftrightarrow> rt' = HEADER_RING) \<and> (rt \<noteq> HEADER_RING \<longrightarrow> p = p')"
  by (rule region_path_same [OF assms])

lemma region_uri_reads:
  assumes "tp_driver_build_region_uri h config s e p rt flag 4096 = Inr uri" "CHR ''|'' \<notin> set (cf_shm_base_dir config)"
  shows "\<exists>path. tp_driver_build_region_path h config s e p rt 4096 = Inr path \<and>
    tp_shm_uri_parse uri = Inr \<lparr>su_path = path, su_require_hugepages = flag\<rparr>"
proof -
  obtain path where path: "tp_driver_build_region_path h config s e p rt 4096 = Inr path"
    and uri: "uri = ''shm:file?path='' @ path @ ''|require_hugepages='' @ (if flag then ''true'' else ''false'')"
    using assms(1) by (auto simp: tp_driver_build_region_uri_def res_simps Let_def)
  have "length path < 4096" using path unfolding region_path_Inr by (elim conjE)
  then show ?thesis
    using uri_parse_printed [OF region_path_clean(2,1) [OF path assms(2)]] path uri by blast
qed

text \<open>
  The URI that the driver announces for a region is one that the clients' parser accepts, and
  it is read as the path of that region's file and the huge-page flag, provided the configured base
  directory contains no parameter separator.
\<close>

theorem region_uri_parses:
  assumes "tp_driver_build_region_uri h config s e p rt flag 4096 = Inr uri" "CHR ''|'' \<notin> set (cf_shm_base_dir config)"
  shows "\<exists>path. tp_driver_build_region_path h config s e p rt 4096 = Inr path \<and>
    tp_shm_uri_parse uri = Inr \<lparr>su_path = path, su_require_hugepages = flag\<rparr>"
  by (rule region_uri_reads [OF assms])

text \<open>
  C17: when the driver reports that it created an epoch, every region of it is there and usable: the
  header ring and each pool has its file at its own path, of the size its slots need, with a
  superblock that the validation of an attaching producer or consumer accepts for this stream, epoch
  and geometry. This holds after the removal of old epochs, which the creation ends with. The pools of
  the profile have distinct ids and non-zero strides.
\<close>

theorem created_epoch_valid:
  assumes "superblock_codec K width known" "tp_driver_create_shm_epoch K h i d = (Inr (), d')"
    "i < length (dr_streams d)" "ss_profile (dr_streams d ! i) = Some profile"
    "distinct (List.map pd_pool_id (pf_pools profile))" "\<forall>pool \<in> set (pf_pools profile). pd_stride_bytes pool \<noteq> 0"
    "s = ss_stream_id (dr_streams d ! i)" "e = ss_epoch (dr_streams d ! i)"
  shows "(\<exists>path content. tp_driver_build_region_path h (dr_config d) s e 0 HEADER_RING 4096 = Inr path \<and>
      dr_files d' path = Some content \<and> length content = region_file_size HEADER_RING (pf_header_nslots profile) 0 \<and>
      (\<forall>region. rg_addr region = Some content \<longrightarrow>
        tp_shm_validate_superblock K region (Some (header_expected s e (pf_header_nslots profile))) = Inr ())) \<and>
    (\<forall>pool \<in> set (pf_pools profile). \<exists>path content.
      tp_driver_build_region_path h (dr_config d) s e (pd_pool_id pool) PAYLOAD_POOL 4096 = Inr path \<and>
      dr_files d' path = Some content \<and>
      length content = region_file_size PAYLOAD_POOL (pf_header_nslots profile) (pd_stride_bytes pool) \<and>
      (\<forall>region. rg_addr region = Some content \<longrightarrow> tp_shm_validate_superblock K region
         (Some (pool_expected s e (pf_header_nslots profile) (pd_pool_id pool) (pd_stride_bytes pool))) = Inr ()))"
proof -
  have ne: "PAYLOAD_POOL \<noteq> HEADER_RING" by (simp add: HEADER_RING_def PAYLOAD_POOL_def)
  note steps = create_epoch_steps [OF assms(2,4,5,3), folded assms(7,8)]
  have header: "region_ready K h d' s e 0 HEADER_RING (pf_header_nslots profile) 0" and config: "dr_config d' = dr_config d"
    using steps by simp_all
  have pools: "region_ready K h d' s e (pd_pool_id pool) PAYLOAD_POOL (pf_header_nslots profile) (pd_stride_bytes pool)"
    "pd_stride_bytes pool \<noteq> 0" if "pool \<in> set (pf_pools profile)" for pool
    using steps assms(6) that by simp_all
  show ?thesis
    using region_ready_valid [OF assms(1) header] region_ready_valid [OF assms(1) pools(1)] pools(2) ne
    unfolding config by simp
qed

section \<open>Concrete evaluations\<close>

definition sample_profile :: tp_driver_profile where
  "sample_profile = \<lparr>pf_name = ''default'', pf_header_nslots = 2, pf_pools = [\<lparr>pd_pool_id = 1, pd_stride_bytes = 64\<rparr>]\<rparr>"

definition sample_config :: tp_driver_config where
  "sample_config = \<lparr>cf_shm_base_dir = ''/dev/shm'', cf_shm_namespace = ''default'', cf_require_hugepages = False,
     cf_allow_dynamic_streams = True, cf_default_profile = ''default'', cf_announce_period_ms = 1000,
     cf_lease_keepalive_interval_ms = 1000, cf_lease_expiry_grace_intervals = 3, cf_prefault_shm = True, cf_mlock_shm = False,
     cf_epoch_gc_enabled = True, cf_epoch_gc_keep = 2, cf_epoch_gc_min_age_ns = 3000000000, cf_epoch_gc_on_startup = False,
     cf_node_id_reuse_cooldown_ms = 1000, cf_stream_id_ranges = [\<lparr>ir_start = 100, ir_end = 101, ir_next = 100\<rparr>],
     cf_profiles = [sample_profile], cf_streams = [\<lparr>sd_stream_id = 7, sd_profile = Some sample_profile\<rparr>],
     cf_supervisor_enabled = False\<rparr>"

definition sample_host :: host where
  "sample_host = \<lparr>hs_ok = (\<lambda>_. True), hs_clock = (\<lambda>n. 1000 + of_nat n), hs_urandom = (\<lambda>n. Some (77 + of_nat n)),
     hs_stack = (\<lambda>_. 0x7000), hs_pid = 4242, hs_user = Some ''tp user'', hs_statfs = (\<lambda>n p. Some 0x01021994),
     hs_readdir = (\<lambda>n p. Some [''.'', ''12'', ''20'']), hs_stat_dir = (\<lambda>n p. Some (True, 500)),
     hs_encodes = (\<lambda>m. True), hs_offer = (\<lambda>n. 1)\<rparr>"

definition sample_stream :: tp_driver_stream_state where
  "sample_stream = \<lparr>ss_stream_id = 7, ss_profile = Some sample_profile, ss_epoch = 20, ss_epoch_created_ns = 0,
     ss_last_announce_ns = 0, ss_producer_lease_id = 0, ss_producer_client_id = 0, ss_require_hugepages = False\<rparr>"

definition sample_driver :: driver where
  "sample_driver = \<lparr>dr_config = sample_config, dr_streams = [sample_stream], dr_leases = [], dr_lease_capacity = 0,
     dr_lease_counter = 0, dr_next_announce_ns = 0, dr_cooldowns = [], dr_cooldown_capacity = 0, dr_calls = 0,
     dr_files = (\<lambda>_. None), dr_sent = []\<rparr>"

lemma sample_path:
  "tp_driver_build_region_path sample_host sample_config 7 20 1 PAYLOAD_POOL 4096 =
     Inr ''/dev/shm/tensorpool-tp_user/default/7/20/1.pool''"
  by code_simp

lemma sample_epoch_created: "\<exists>d'. tp_driver_create_shm_epoch le_superblock sample_host 0 sample_driver = (Inr (), d')"
proof (rule create_epoch_succeeds)
  show "\<forall>n. hs_ok sample_host n" by (simp add: sample_host_def)
  show "0 < length (dr_streams sample_driver)" "ss_profile (dr_streams sample_driver ! 0) = Some sample_profile"
    by (simp_all add: sample_driver_def sample_stream_def)
  show "\<exists>path. tp_driver_build_region_path sample_host (dr_config sample_driver) (ss_stream_id (dr_streams sample_driver ! 0))
      (ss_epoch (dr_streams sample_driver ! 0)) 0 HEADER_RING 4096 = Inr path"
    by (rule exI [of _ "''/dev/shm/tensorpool-tp_user/default/7/20/header.ring''"]) code_simp
  show "\<forall>pool \<in> set (pf_pools sample_profile). \<exists>path. tp_driver_build_region_path sample_host (dr_config sample_driver)
      (ss_stream_id (dr_streams sample_driver ! 0)) (ss_epoch (dr_streams sample_driver ! 0)) (pd_pool_id pool) PAYLOAD_POOL 4096 = Inr path"
    using sample_path by (auto simp: sample_driver_def sample_stream_def sample_profile_def)
qed

theorem created_epoch_valid_witness:
  "\<exists>path content.
     dr_files (snd (tp_driver_create_shm_epoch le_superblock sample_host 0 sample_driver)) path = Some content \<and>
     length content = 192 \<and>
     (\<forall>region. rg_addr region = Some content \<longrightarrow>
        tp_shm_validate_superblock le_superblock region (Some (pool_expected 7 20 2 1 64)) = Inr ())"
proof -
  let ?r = "tp_driver_create_shm_epoch le_superblock sample_host 0 sample_driver"
  have r: "?r = (Inr (), snd ?r)" using sample_epoch_created by (elim exE) simp
  have hyps: "0 < length (dr_streams sample_driver)" "ss_profile (dr_streams sample_driver ! 0) = Some sample_profile"
    "distinct (List.map pd_pool_id (pf_pools sample_profile))" "\<forall>pool \<in> set (pf_pools sample_profile). pd_stride_bytes pool \<noteq> 0"
    "7 = ss_stream_id (dr_streams sample_driver ! 0)" "20 = ss_epoch (dr_streams sample_driver ! 0)"
    by (simp_all add: sample_driver_def sample_stream_def sample_profile_def)
  have "region_file_size PAYLOAD_POOL 2 64 = 192"
    by (simp add: region_file_size_def PAYLOAD_POOL_def HEADER_RING_def TP_SUPERBLOCK_SIZE_BYTES_def)
  then show ?thesis
    using created_epoch_valid [OF sbk.superblock_codec_axioms r hyps] by (auto simp: sample_profile_def)
qed

end
