(* ===== verification/Tp_Driver.thy ===== *)
theory Tp_Driver
  imports Tp_Driver_Files
begin

text \<open>
  The driver's lease and epoch management (src/src/driver/tp_driver.c): attach, keepalive, detach,
  the expiry sweep and the periodic announcements. Every handler is a function on the driver
  state; the host answers its calls in order.
\<close>

section \<open>Identifiers\<close>

definition PRODUCER :: u8 where
  "PRODUCER = 1"

definition CONSUMER :: u8 where
  "CONSUMER = 2"

text \<open>
  \<open>tp_driver_seed_u64\<close>: the random device, or the clock mixed with the process id and a stack
  address, cut to 63 bits and never zero.
\<close>

definition tp_driver_seed_u64 :: "host \<Rightarrow> driver \<Rightarrow> u64 \<times> driver" where
  "tp_driver_seed_u64 h d =
     (case ask (hs_urandom h) d of
        (r, d) \<Rightarrow>
          (case (if r = None \<or> r = Some 0 then
                   (case ask (hs_clock h) d of
                      (now, d) \<Rightarrow> (now XOR push_bit 32 (hs_pid h) XOR hs_stack h (dr_calls d), d))
                 else (the r, d)) of
             (seed, d) \<Rightarrow>
               (let seed = seed AND 0x7FFFFFFFFFFFFFFF in (if seed = 0 then 1 else seed, d))))"

definition seed_counter :: "host \<Rightarrow> driver \<Rightarrow> driver" where
  "seed_counter h d =
     (if dr_lease_counter d = 0
      then (case tp_driver_seed_u64 h d of (seed, d) \<Rightarrow> d\<lparr>dr_lease_counter := seed\<rparr>) else d)"

definition tp_driver_next_lease_id :: "host \<Rightarrow> driver \<Rightarrow> u64 \<times> driver" where
  "tp_driver_next_lease_id h d =
     (let d = seed_counter h d;
          counter = dr_lease_counter d + 1;
          counter = (if counter = 0 then counter + 1 else counter)
      in (counter, d\<lparr>dr_lease_counter := counter\<rparr>))"

definition tp_driver_find_stream :: "driver \<Rightarrow> u32 \<Rightarrow> nat option" where
  "tp_driver_find_stream d stream_id =
     (if stream_id = 0 then None else find_index (\<lambda>s. ss_stream_id s = stream_id) (dr_streams d))"

definition tp_driver_client_id_in_use :: "driver \<Rightarrow> u32 \<Rightarrow> bool" where
  "tp_driver_client_id_in_use d client_id \<longleftrightarrow>
     client_id = 0 \<or> list_ex (\<lambda>lease. le_client_id lease = client_id) (dr_leases d)"

definition tp_driver_node_id_in_use :: "driver \<Rightarrow> u32 \<Rightarrow> bool" where
  "tp_driver_node_id_in_use d node_id \<longleftrightarrow>
     node_id \<noteq> TP_NULL_U32 \<and> list_ex (\<lambda>lease. le_node_id lease = node_id) (dr_leases d)"

text \<open>The removal loop: an expired entry is overwritten by the rest of the array.\<close>

function prune_loop :: "u64 \<Rightarrow> tp_driver_node_id_cooldown list \<Rightarrow> nat \<Rightarrow> tp_driver_node_id_cooldown list" where
  "prune_loop now cs i =
     (if i < length cs then
        if nc_expires_ns (cs ! i) \<le> now then prune_loop now (take i cs @ drop (Suc i) cs) i
        else prune_loop now cs (Suc i)
      else cs)"
  by pat_completeness auto
termination by (relation "measure (\<lambda>(now, cs, i). length cs - i)") auto

declare prune_loop.simps [simp del]

definition tp_driver_prune_node_id_cooldowns :: "u64 \<Rightarrow> driver \<Rightarrow> driver" where
  "tp_driver_prune_node_id_cooldowns now d = d\<lparr>dr_cooldowns := prune_loop now (dr_cooldowns d) 0\<rparr>"

definition tp_driver_node_id_in_cooldown :: "u32 \<Rightarrow> u64 \<Rightarrow> driver \<Rightarrow> bool \<times> driver" where
  "tp_driver_node_id_in_cooldown node_id now d =
     (if node_id = 0 \<or> dr_cooldowns d = [] then (False, d)
      else
        (let d = tp_driver_prune_node_id_cooldowns now d
         in (list_ex (\<lambda>c. nc_node_id c = node_id) (dr_cooldowns d), d)))"

text \<open>The result is ignored by every caller; a failed allocation loses the entry.\<close>

definition tp_driver_record_node_id_cooldown :: "host \<Rightarrow> u32 \<Rightarrow> u64 \<Rightarrow> driver \<Rightarrow> driver" where
  "tp_driver_record_node_id_cooldown h node_id now d =
     (if node_id = 0 \<or> node_id = TP_NULL_U32 \<or> cf_node_id_reuse_cooldown_ms (dr_config d) = 0 then d
      else
        (let d = tp_driver_prune_node_id_cooldowns now d;
             expires_ns = now + ucast (cf_node_id_reuse_cooldown_ms (dr_config d)) * 1000000;
             entry = \<lparr>nc_node_id = node_id, nc_expires_ns = expires_ns\<rparr>
         in (case find_index (\<lambda>c. nc_node_id c = node_id) (dr_cooldowns d) of
               Some i \<Rightarrow> d\<lparr>dr_cooldowns := (dr_cooldowns d)[i := entry]\<rparr>
             | None \<Rightarrow>
                 if length (dr_cooldowns d) + 1 > dr_cooldown_capacity d then
                   (case ask (hs_ok h) d of
                      (ok, d) \<Rightarrow>
                        if \<not> ok then d
                        else d\<lparr>dr_cooldown_capacity := (if dr_cooldown_capacity d = 0 then 8 else dr_cooldown_capacity d * 2),
                               dr_cooldowns := dr_cooldowns d @ [entry]\<rparr>)
                 else d\<lparr>dr_cooldowns := dr_cooldowns d @ [entry]\<rparr>)))"

text \<open>The loop of \<open>tp_driver_next_node_id\<close>: \<open>n\<close> attempts are left of 1024.\<close>

fun node_id_loop :: "host \<Rightarrow> u64 \<Rightarrow> nat \<Rightarrow> driver \<Rightarrow> u32 \<times> driver" where
  "node_id_loop h now 0 d = (TP_NULL_U32, d)"
| "node_id_loop h now (Suc n) d =
     (case tp_driver_seed_u64 h d of
        (r, d) \<Rightarrow>
          (let seed = r XOR dr_lease_counter d XOR of_nat (1024 - Suc n);
               candidate = ucast (seed XOR drop_bit 32 seed)
           in if candidate \<noteq> 0 \<and> candidate \<noteq> TP_NULL_U32 \<and> \<not> tp_driver_node_id_in_use d candidate then
                (case tp_driver_node_id_in_cooldown candidate now d of
                   (True, d) \<Rightarrow> node_id_loop h now n d
                 | (False, d) \<Rightarrow> (candidate, d))
              else node_id_loop h now n d))"

definition tp_driver_next_node_id :: "host \<Rightarrow> driver \<Rightarrow> u32 \<times> driver" where
  "tp_driver_next_node_id h d =
     (case ask (hs_clock h) d of
        (now, d) \<Rightarrow> node_id_loop h now 1024 (tp_driver_prune_node_id_cooldowns now (seed_counter h d)))"

text \<open>
  \<open>tp_driver_allocate_stream_id\<close>: each range is tried from its cursor. \<open>n\<close> counts the
  attempts left of \<open>end - start + 1\<close>.
\<close>

fun range_loop :: "driver \<Rightarrow> tp_driver_id_range \<Rightarrow> u32 \<Rightarrow> nat \<Rightarrow> u32 option" where
  "range_loop d rng cursor 0 = None"
| "range_loop d rng cursor (Suc n) =
     (if tp_driver_find_stream d cursor = None then Some cursor
      else range_loop d rng (if cursor = ir_end rng then ir_start rng else cursor + 1) n)"

fun ranges_loop :: "driver \<Rightarrow> tp_driver_id_range list \<Rightarrow> (u32 \<times> tp_driver_id_range list) option" where
  "ranges_loop d [] = None"
| "ranges_loop d (rng # ranges) =
     (case range_loop d rng (ir_next rng) (Suc (unat (ir_end rng - ir_start rng))) of
        Some cursor \<Rightarrow>
          Some (cursor, rng\<lparr>ir_next := (if cursor = ir_end rng then ir_start rng else cursor + 1)\<rparr> # ranges)
      | None \<Rightarrow> map_option (\<lambda>(cursor, ranges). (cursor, rng # ranges)) (ranges_loop d ranges))"

definition tp_driver_allocate_stream_id :: "driver \<Rightarrow> u32 option \<times> driver" where
  "tp_driver_allocate_stream_id d =
     (case ranges_loop d (cf_stream_id_ranges (dr_config d)) of
        None \<Rightarrow> (None, d)
      | Some (cursor, ranges) \<Rightarrow> (Some cursor, d\<lparr>dr_config := (dr_config d)\<lparr>cf_stream_id_ranges := ranges\<rparr>\<rparr>))"

definition tp_driver_add_stream :: "host \<Rightarrow> u32 \<Rightarrow> tp_driver_profile \<Rightarrow> driver \<Rightarrow> bool \<times> driver" where
  "tp_driver_add_stream h stream_id profile d =
     (case ask (hs_ok h) d of
        (ok, d) \<Rightarrow>
          if \<not> ok then (False, d)
          else
            (True, d\<lparr>dr_streams := dr_streams d @
               [\<lparr>ss_stream_id = stream_id, ss_profile = Some profile, ss_epoch = 0, ss_epoch_created_ns = 0,
                 ss_last_announce_ns = 0, ss_producer_lease_id = 0, ss_producer_client_id = 0,
                 ss_require_hugepages = cf_require_hugepages (dr_config d)\<rparr>]\<rparr>))"

definition tp_driver_add_lease :: "host \<Rightarrow> tp_driver_lease \<Rightarrow> driver \<Rightarrow> bool \<times> driver" where
  "tp_driver_add_lease h lease d =
     (if length (dr_leases d) + 1 > dr_lease_capacity d then
        (case ask (hs_ok h) d of
           (ok, d) \<Rightarrow>
             if \<not> ok then (False, d)
             else (True, d\<lparr>dr_lease_capacity := (if dr_lease_capacity d = 0 then 8 else dr_lease_capacity d * 2),
                           dr_leases := dr_leases d @ [lease]\<rparr>))
      else (True, d\<lparr>dr_leases := dr_leases d @ [lease]\<rparr>))"

definition tp_driver_find_lease :: "driver \<Rightarrow> u64 \<Rightarrow> nat option" where
  "tp_driver_find_lease d lease_id =
     (if lease_id = 0 then None else find_index (\<lambda>lease. le_lease_id lease = lease_id) (dr_leases d))"

definition tp_driver_remove_lease :: "nat \<Rightarrow> driver \<Rightarrow> driver" where
  "tp_driver_remove_lease index d =
     (if index \<ge> length (dr_leases d) then d
      else d\<lparr>dr_leases := take index (dr_leases d) @ drop (Suc index) (dr_leases d)\<rparr>)"

text \<open>Writing through a pointer to a stream.\<close>

definition upd_stream :: "nat \<Rightarrow> (tp_driver_stream_state \<Rightarrow> tp_driver_stream_state) \<Rightarrow> driver \<Rightarrow> driver" where
  "upd_stream i f d = d\<lparr>dr_streams := (dr_streams d)[i := f (dr_streams d ! i)]\<rparr>"

section \<open>Messages\<close>

definition tp_driver_send_control :: "host \<Rightarrow> driver_msg \<Rightarrow> driver \<Rightarrow> int \<times> driver" where
  "tp_driver_send_control h m d =
     (case ask (hs_offer h) d of (r, d) \<Rightarrow> (if r < 0 then r else 0, d\<lparr>dr_sent := m # dr_sent d\<rparr>))"

text \<open>A message that the encoder refuses is not offered.\<close>

definition send_message :: "host \<Rightarrow> driver_msg \<Rightarrow> driver \<Rightarrow> int \<times> driver" where
  "send_message h m d = (if hs_encodes h m then tp_driver_send_control h m d else (- 1, d))"

fun pool_entries :: "host \<Rightarrow> tp_driver_config \<Rightarrow> u32 \<Rightarrow> u64 \<Rightarrow> bool \<Rightarrow> u32 \<Rightarrow> tp_driver_pool_def list \<Rightarrow> pool_entry list res" where
  "pool_entries h config s e flag nslots [] = Inr []"
| "pool_entries h config s e flag nslots (pool # pools) =
     bind_res (tp_driver_build_region_uri h config s e (pd_pool_id pool) PAYLOAD_POOL flag 4096) (\<lambda>uri.
     bind_res (pool_entries h config s e flag nslots pools) (\<lambda>entries.
       Inr ((pd_pool_id pool, nslots, pd_stride_bytes pool, uri) # entries)))"

text \<open>The regions of a stream's current epoch as messages name them: pools, then the header.\<close>

definition region_entries :: "host \<Rightarrow> tp_driver_config \<Rightarrow> tp_driver_stream_state \<Rightarrow> bool \<Rightarrow> (pool_entry list \<times> string) res" where
  "region_entries h config stream flag =
     (let profile = the (ss_profile stream)
      in bind_res (pool_entries h config (ss_stream_id stream) (ss_epoch stream) flag (pf_header_nslots profile) (pf_pools profile)) (\<lambda>pools.
         bind_res (tp_driver_build_region_uri h config (ss_stream_id stream) (ss_epoch stream) 0 HEADER_RING flag 4096) (\<lambda>uri.
           Inr (pools, uri))))"

definition send_attach_error :: "host \<Rightarrow> u64 \<Rightarrow> response_code \<Rightarrow> string \<Rightarrow> driver \<Rightarrow> int \<times> driver" where
  "send_attach_error h correlation_id code error_message d =
     send_message h (AttachResponse correlation_id code None error_message) d"

definition send_attach_ok :: "host \<Rightarrow> u64 \<Rightarrow> tp_driver_stream_state \<Rightarrow> tp_driver_lease \<Rightarrow> bool \<Rightarrow> driver \<Rightarrow> int \<times> driver" where
  "send_attach_ok h correlation_id stream lease require_hugepages d =
     (case region_entries h (dr_config d) stream require_hugepages of
        Inl e \<Rightarrow> (- 1, d)
      | Inr (pools, uri) \<Rightarrow>
          send_message h (AttachResponse correlation_id OK
            (Some \<lparr>ab_lease_id = le_lease_id lease, ab_expiry_ns = le_expiry_ns lease, ab_stream_id = ss_stream_id stream,
              ab_epoch = ss_epoch stream, ab_header_nslots = pf_header_nslots (the (ss_profile stream)),
              ab_node_id = le_node_id lease, ab_pools = pools, ab_header_uri = uri\<rparr>) '''') d)"

definition tp_driver_send_detach_response :: "host \<Rightarrow> u64 \<Rightarrow> response_code \<Rightarrow> string \<Rightarrow> driver \<Rightarrow> int \<times> driver" where
  "tp_driver_send_detach_response h correlation_id code error_message d =
     send_message h (DetachResponse correlation_id code error_message) d"

definition tp_driver_send_lease_revoked :: "host \<Rightarrow> tp_driver_lease \<Rightarrow> revoke_reason \<Rightarrow> string \<Rightarrow> driver \<Rightarrow> int \<times> driver" where
  "tp_driver_send_lease_revoked h lease reason error_message d =
     (case ask (hs_clock h) d of
        (now, d) \<Rightarrow>
          send_message h (LeaseRevoked now (le_lease_id lease) (le_stream_id lease) (le_client_id lease) (le_role lease)
            reason error_message) d)"

definition tp_driver_send_driver_shutdown :: "host \<Rightarrow> driver \<Rightarrow> int \<times> driver" where
  "tp_driver_send_driver_shutdown h d =
     (case ask (hs_clock h) d of (now, d) \<Rightarrow> tp_driver_send_control h (DriverShutdown now) d)"

definition tp_driver_send_announce :: "host \<Rightarrow> nat \<Rightarrow> bool \<Rightarrow> driver \<Rightarrow> int \<times> driver" where
  "tp_driver_send_announce h i require_hugepages d =
     (case ask (hs_clock h) d of
        (now_ns, d) \<Rightarrow>
          (let stream = dr_streams d ! i
           in case region_entries h (dr_config d) stream require_hugepages of
                Inl e \<Rightarrow> (- 1, d)
              | Inr (pools, uri) \<Rightarrow>
                  (let m = PoolAnnounce (ss_stream_id stream) (ss_producer_client_id stream) (ss_epoch stream) now_ns
                             (pf_header_nslots (the (ss_profile stream))) pools uri
                   in if \<not> hs_encodes h m then (- 1, d)
                      else tp_driver_send_control h m (upd_stream i (\<lambda>s. s\<lparr>ss_last_announce_ns := now_ns\<rparr>) d))))"

section \<open>Epochs and expiry\<close>

definition tp_driver_bump_epoch :: "host \<Rightarrow> nat \<Rightarrow> driver \<Rightarrow> driver" where
  "tp_driver_bump_epoch h i d =
     (case ask (hs_clock h) d of
        (now, d) \<Rightarrow> upd_stream i (\<lambda>s. s\<lparr>ss_epoch := (if now \<le> ss_epoch s then ss_epoch s + 1 else now)\<rparr>) d)"

definition tp_driver_release_producer :: "nat option \<Rightarrow> tp_driver_lease \<Rightarrow> driver \<Rightarrow> driver" where
  "tp_driver_release_producer stream lease d =
     (case stream of
        None \<Rightarrow> d
      | Some i \<Rightarrow>
          if ss_producer_lease_id (dr_streams d ! i) = le_lease_id lease
          then upd_stream i (\<lambda>s. s\<lparr>ss_producer_lease_id := 0, ss_producer_client_id := 0\<rparr>) d else d)"

text \<open>The steps that follow the end of a producer lease: a new epoch, its files, and its announcement.\<close>

definition renew_epoch :: "sb_codec \<Rightarrow> host \<Rightarrow> nat \<Rightarrow> driver \<Rightarrow> driver" where
  "renew_epoch K h i d =
     (case tp_driver_create_shm_epoch K h i (tp_driver_bump_epoch h i d) of
        (Inl e, d) \<Rightarrow> d
      | (Inr _, d) \<Rightarrow> snd (tp_driver_send_announce h i (ss_require_hugepages (dr_streams d ! i)) d))"

text \<open>The end of the lease at an index: cooldown of its node id, release, removal.\<close>

definition end_lease :: "host \<Rightarrow> nat \<Rightarrow> nat option \<Rightarrow> u64 \<Rightarrow> driver \<Rightarrow> driver" where
  "end_lease h index stream now d =
     (let lease = dr_leases d ! index;
          d = tp_driver_record_node_id_cooldown h (le_node_id lease) now d
      in tp_driver_remove_lease index (tp_driver_release_producer stream lease d))"

definition lease_expired :: "u64 \<Rightarrow> tp_driver_lease \<Rightarrow> bool" where
  "lease_expired now lease \<longleftrightarrow> le_expiry_ns lease \<noteq> 0 \<and> now > le_expiry_ns lease"

definition expire_lease :: "sb_codec \<Rightarrow> host \<Rightarrow> u64 \<Rightarrow> nat \<Rightarrow> driver \<Rightarrow> driver" where
  "expire_lease K h now index d =
     (let lease = dr_leases d ! index;
          stream = tp_driver_find_stream d (le_stream_id lease);
          is_producer = (le_role lease = PRODUCER);
          d = snd (tp_driver_send_lease_revoked h lease EXPIRED ''lease expired'' d);
          d = end_lease h index stream now d
      in case stream of
           None \<Rightarrow> d
         | Some i \<Rightarrow> if is_producer then renew_epoch K h i d else d)"

section \<open>Requests\<close>

text \<open>
  The fields of the requests that the handlers read. An enumeration is absent when its accessor
  refuses the value.
\<close>

record attach_request =
  ar_correlation_id :: u64
  ar_stream_id :: u32
  ar_client_id :: u32
  ar_role :: "u8 option"
  ar_expected_layout_version :: u32
  ar_publish_mode :: "u8 option"
  ar_require_hugepages :: "u8 option"
  ar_desired_node_id :: u32

record detach_request =
  dt_correlation_id :: u64
  dt_lease_id :: u64
  dt_stream_id :: u32
  dt_client_id :: u32
  dt_role :: "u8 option"

record keepalive_request =
  ka_lease_id :: u64
  ka_stream_id :: u32
  ka_client_id :: u32
  ka_role :: "u8 option"

text \<open>
  Detach. The code computes \<open>is_producer\<close> from its local \<open>role\<close> before the role of the
  request is stored in it, when it is still zero.
\<close>

definition tp_driver_handle_detach :: "sb_codec \<Rightarrow> host \<Rightarrow> detach_request \<Rightarrow> driver \<Rightarrow> int \<times> driver" where
  "tp_driver_handle_detach K h request d =
     (let lease = tp_driver_find_lease d (dt_lease_id request);
          stream = tp_driver_find_stream d (dt_stream_id request);
          is_producer = ((0 :: u8) = PRODUCER)
      in case dt_role request of
           None \<Rightarrow> tp_driver_send_detach_response h (dt_correlation_id request) INVALID_PARAMS ''invalid role'' d
         | Some role \<Rightarrow>
             (case lease of
                None \<Rightarrow> tp_driver_send_detach_response h (dt_correlation_id request) REJECTED ''lease not found'' d
              | Some index \<Rightarrow>
                  if le_stream_id (dr_leases d ! index) \<noteq> dt_stream_id request \<or>
                     le_client_id (dr_leases d ! index) \<noteq> dt_client_id request \<or> le_role (dr_leases d ! index) \<noteq> role
                  then tp_driver_send_detach_response h (dt_correlation_id request) REJECTED ''lease not found'' d
                  else
                    (let bump_epoch = (is_producer \<and> stream \<noteq> None);
                         d = snd (tp_driver_send_lease_revoked h (dr_leases d ! index) DETACHED ''lease detached'' d)
                     in case ask (hs_clock h) d of
                          (now, d) \<Rightarrow>
                            (let d = end_lease h index stream now d;
                                 d = (if bump_epoch then renew_epoch K h (the stream) d else d)
                             in tp_driver_send_detach_response h (dt_correlation_id request) OK [] d))))"

definition lease_expiry :: "tp_driver_config \<Rightarrow> u64 \<Rightarrow> u64" where
  "lease_expiry config now =
     now + (ucast (cf_lease_keepalive_interval_ms config) * 1000000) * ucast (cf_lease_expiry_grace_intervals config)"

definition tp_driver_handle_keepalive :: "host \<Rightarrow> keepalive_request \<Rightarrow> driver \<Rightarrow> driver" where
  "tp_driver_handle_keepalive h request d =
     (case (ka_role request, tp_driver_find_lease d (ka_lease_id request)) of
        (Some role, Some index) \<Rightarrow>
          if le_stream_id (dr_leases d ! index) \<noteq> ka_stream_id request \<or>
             le_client_id (dr_leases d ! index) \<noteq> ka_client_id request \<or> le_role (dr_leases d ! index) \<noteq> role then d
          else
            (case ask (hs_clock h) d of
               (now, d) \<Rightarrow>
                 d\<lparr>dr_leases := (dr_leases d)[index := (dr_leases d ! index)\<lparr>le_expiry_ns := lease_expiry (dr_config d) now\<rparr>]\<rparr>)
      | _ \<Rightarrow> d)"

section \<open>Attach\<close>

definition HP_UNSPECIFIED :: u8 where
  "HP_UNSPECIFIED = 0"

definition HP_STANDARD :: u8 where
  "HP_STANDARD = 1"

definition HP_HUGEPAGES :: u8 where
  "HP_HUGEPAGES = 2"

definition EXISTING_OR_CREATE :: u8 where
  "EXISTING_OR_CREATE = 2"

definition tp_driver_should_require_hugepages :: "tp_driver_config \<Rightarrow> u8 \<Rightarrow> bool" where
  "tp_driver_should_require_hugepages config policy =
     (if policy = HP_HUGEPAGES then True else if policy = HP_STANDARD then False else cf_require_hugepages config)"

definition tp_driver_is_hugepages_dir :: "host \<Rightarrow> string \<Rightarrow> driver \<Rightarrow> int \<times> driver" where
  "tp_driver_is_hugepages_dir h path d =
     (case ask (\<lambda>n. hs_statfs h n path) d of
        (None, d) \<Rightarrow> (- 1, d)
      | (Some f_type, d) \<Rightarrow> (if f_type = HUGETLBFS_MAGIC then 1 else 0, d))"

text \<open>
  The handler answers a refusal with a code and a text; its parts return \<open>Inl\<close> with them, and
  the state they leave.
\<close>

type_synonym refusal = "response_code \<times> string"

definition check_attach :: "attach_request \<Rightarrow> driver \<Rightarrow> refusal option" where
  "check_attach request d =
     (if ar_role request = None then Some (INVALID_PARAMS, ''invalid role'')
      else if ar_client_id request = 0 then Some (INVALID_PARAMS, ''client_id must be non-zero'')
      else if tp_driver_client_id_in_use d (ar_client_id request) then Some (REJECTED, ''client_id already attached'')
      else if ar_expected_layout_version request \<noteq> 0 \<and> ar_expected_layout_version request \<noteq> TP_LAYOUT_VERSION
      then Some (REJECTED, ''layout version mismatch'')
      else None)"

definition create_allowed :: "attach_request \<Rightarrow> bool" where
  "create_allowed request =
     (let publish_mode = (case ar_publish_mode request of Some m \<Rightarrow> m | None \<Rightarrow> 0);
          publish_mode = (if publish_mode = 0 then EXISTING_OR_CREATE else publish_mode)
      in publish_mode = EXISTING_OR_CREATE)"

text \<open>The stream of the request, which may be created on demand with the default profile.\<close>

definition create_stream :: "host \<Rightarrow> attach_request \<Rightarrow> driver \<Rightarrow> (refusal + nat option) \<times> driver" where
  "create_stream h request d =
     (case (if ar_stream_id request = 0 then tp_driver_allocate_stream_id d else (Some (ar_stream_id request), d)) of
        (None, d) \<Rightarrow> (Inl (INVALID_PARAMS, ''no stream ids available''), d)
      | (Some stream_id, d) \<Rightarrow>
          (case (if cf_default_profile (dr_config d) \<noteq> []
                 then find (\<lambda>p. pf_name p = cf_default_profile (dr_config d)) (cf_profiles (dr_config d)) else None) of
             None \<Rightarrow> (Inl (INVALID_PARAMS, ''default profile missing''), d)
           | Some profile \<Rightarrow>
               (case tp_driver_add_stream h stream_id profile d of
                  (ok, d) \<Rightarrow>
                    if ok then (Inr (tp_driver_find_stream d stream_id), d)
                    else (Inl (INTERNAL_ERROR, ''stream allocation failed''), d))))"

definition find_or_create_stream :: "host \<Rightarrow> attach_request \<Rightarrow> driver \<Rightarrow> (refusal + nat option) \<times> driver" where
  "find_or_create_stream h request d =
     (case tp_driver_find_stream d (ar_stream_id request) of
        Some i \<Rightarrow> (Inr (Some i), d)
      | None \<Rightarrow>
          if \<not> create_allowed request \<or> \<not> cf_allow_dynamic_streams (dr_config d)
          then (Inl (REJECTED, ''stream not provisioned''), d)
          else create_stream h request d)"

definition attach_stream :: "host \<Rightarrow> attach_request \<Rightarrow> driver \<Rightarrow> (refusal + nat) \<times> driver" where
  "attach_stream h request d =
     (case find_or_create_stream h request d of
        (Inl r, d) \<Rightarrow> (Inl r, d)
      | (Inr None, d) \<Rightarrow> (Inl (INVALID_PARAMS, ''invalid profile''), d)
      | (Inr (Some i), d) \<Rightarrow>
          if (case ss_profile (dr_streams d ! i) of None \<Rightarrow> True | Some profile \<Rightarrow> pf_pools profile = [])
          then (Inl (INVALID_PARAMS, ''invalid profile''), d)
          else if ar_role request = Some PRODUCER \<and> ss_producer_lease_id (dr_streams d ! i) \<noteq> 0
          then (Inl (REJECTED, ''producer already attached''), d)
          else (Inr i, d))"

text \<open>Huge pages and the requested node id.\<close>

definition attach_pages :: "host \<Rightarrow> attach_request \<Rightarrow> driver \<Rightarrow> (refusal + bool) \<times> driver" where
  "attach_pages h request d =
     (let policy = (case ar_require_hugepages request of Some p \<Rightarrow> p | None \<Rightarrow> HP_UNSPECIFIED);
          require_hugepages = tp_driver_should_require_hugepages (dr_config d) policy
      in if policy \<noteq> HP_UNSPECIFIED \<and> policy \<noteq> HP_STANDARD \<and> policy \<noteq> HP_HUGEPAGES
         then (Inl (INVALID_PARAMS, ''invalid hugepages policy''), d)
         else if require_hugepages then
           (case tp_driver_is_hugepages_dir h (cf_shm_base_dir (dr_config d)) d of
              (ok, d) \<Rightarrow> if ok \<noteq> 1 then (Inl (REJECTED, ''hugepages not available''), d) else (Inr True, d))
         else if policy = HP_STANDARD then
           (case tp_driver_is_hugepages_dir h (cf_shm_base_dir (dr_config d)) d of
              (ok, d) \<Rightarrow> if ok = 1 then (Inl (REJECTED, ''standard pages requested''), d) else (Inr False, d))
         else (Inr False, d))"

definition attach_node_id :: "host \<Rightarrow> attach_request \<Rightarrow> driver \<Rightarrow> refusal option \<times> driver" where
  "attach_node_id h request d =
     (if ar_desired_node_id request = TP_NULL_U32 then (None, d)
      else
        (case ask (hs_clock h) d of
           (now, d) \<Rightarrow>
             if tp_driver_node_id_in_use d (ar_desired_node_id request)
             then (Some (REJECTED, ''desired node_id unavailable''), d)
             else
               (case tp_driver_node_id_in_cooldown (ar_desired_node_id request) now d of
                  (cooling, d) \<Rightarrow> (if cooling then Some (REJECTED, ''desired node_id unavailable'') else None, d))))"

text \<open>A producer always gets a new epoch, a consumer only on a stream that has none yet.\<close>

definition attach_epoch :: "sb_codec \<Rightarrow> host \<Rightarrow> u8 \<Rightarrow> nat \<Rightarrow> bool \<Rightarrow> driver \<Rightarrow> refusal option \<times> driver" where
  "attach_epoch K h role i require_hugepages d =
     (if role = PRODUCER \<or> ss_epoch (dr_streams d ! i) = 0 then
        (case tp_driver_create_shm_epoch K h i
                (upd_stream i (\<lambda>s. s\<lparr>ss_require_hugepages := require_hugepages\<rparr>) (tp_driver_bump_epoch h i d)) of
           (Inl e, d) \<Rightarrow> (Some (INTERNAL_ERROR, ''shm creation failed''), d)
         | (Inr _, d) \<Rightarrow> (None, d))
      else (None, d))"

definition attach_lease :: "host \<Rightarrow> attach_request \<Rightarrow> u8 \<Rightarrow> nat \<Rightarrow> u64 \<Rightarrow> driver \<Rightarrow> (refusal + tp_driver_lease) \<times> driver" where
  "attach_lease h request role i now d =
     (case tp_driver_next_lease_id h d of
        (lease_id, d) \<Rightarrow>
          (case (if ar_desired_node_id request \<noteq> TP_NULL_U32 then (ar_desired_node_id request, d)
                 else tp_driver_next_node_id h d) of
             (node_id, d) \<Rightarrow>
               if node_id = TP_NULL_U32 then (Inl (INTERNAL_ERROR, ''node_id allocation failed''), d)
               else
                 (let lease = \<lparr>le_lease_id = lease_id, le_expiry_ns = lease_expiry (dr_config d) now, le_issued_ns = now,
                        le_stream_id = ss_stream_id (dr_streams d ! i), le_client_id = ar_client_id request,
                        le_node_id = node_id, le_role = role\<rparr>
                  in (case tp_driver_add_lease h lease d of
                        (ok, d) \<Rightarrow>
                          if \<not> ok then (Inl (INTERNAL_ERROR, ''lease allocation failed''), d)
                          else
                            (Inr lease,
                             if role = PRODUCER
                             then upd_stream i (\<lambda>s. s\<lparr>ss_producer_lease_id := lease_id,
                                    ss_producer_client_id := ar_client_id request\<rparr>) d
                             else d)))))"

text \<open>The checks of the handler: the index of the stream, the huge-page flag, and the time of the attach.\<close>

definition attach_admit :: "host \<Rightarrow> attach_request \<Rightarrow> driver \<Rightarrow> (refusal + nat \<times> bool \<times> u64) \<times> driver" where
  "attach_admit h request d =
     (case check_attach request d of
        Some r \<Rightarrow> (Inl r, d)
      | None \<Rightarrow>
          (case attach_stream h request d of
             (Inl r, d) \<Rightarrow> (Inl r, d)
           | (Inr i, d) \<Rightarrow>
               (case attach_pages h request d of
                  (Inl r, d) \<Rightarrow> (Inl r, d)
                | (Inr require_hugepages, d) \<Rightarrow>
                    (case attach_node_id h request d of
                       (Some r, d) \<Rightarrow> (Inl r, d)
                     | (None, d) \<Rightarrow>
                         (case ask (hs_clock h) d of
                            (now, d) \<Rightarrow>
                              (Inr (i, if ss_epoch (dr_streams d ! i) \<noteq> 0 then ss_require_hugepages (dr_streams d ! i)
                                       else require_hugepages, now), d))))))"

text \<open>
  The handler up to its response: the lease it added, with the index of its stream and the
  huge-page flag of the response, or the refusal.
\<close>

definition attach_grant ::
  "sb_codec \<Rightarrow> host \<Rightarrow> attach_request \<Rightarrow> nat \<Rightarrow> bool \<Rightarrow> u64 \<Rightarrow> driver \<Rightarrow> (refusal + tp_driver_lease) \<times> driver" where
  "attach_grant K h request i require_hugepages now d =
     (case attach_epoch K h (the (ar_role request)) i require_hugepages d of
        (Some r, d) \<Rightarrow> (Inl r, d)
      | (None, d) \<Rightarrow> attach_lease h request (the (ar_role request)) i now d)"

definition attach_decide ::
  "sb_codec \<Rightarrow> host \<Rightarrow> attach_request \<Rightarrow> driver \<Rightarrow> (refusal + nat \<times> bool \<times> tp_driver_lease) \<times> driver" where
  "attach_decide K h request d =
     (case attach_admit h request d of
        (Inl r, d) \<Rightarrow> (Inl r, d)
      | (Inr (i, require_hugepages, now), d) \<Rightarrow>
          (case attach_grant K h request i require_hugepages now d of
             (Inl r, d) \<Rightarrow> (Inl r, d)
           | (Inr lease, d) \<Rightarrow> (Inr (i, require_hugepages, lease), d)))"

definition tp_driver_handle_attach :: "sb_codec \<Rightarrow> host \<Rightarrow> attach_request \<Rightarrow> driver \<Rightarrow> int \<times> driver" where
  "tp_driver_handle_attach K h request d =
     (case attach_decide K h request d of
        (Inl (code, msg), d) \<Rightarrow> send_attach_error h (ar_correlation_id request) code msg d
      | (Inr (i, require_hugepages, lease), d) \<Rightarrow>
          (let d = snd (tp_driver_send_announce h i require_hugepages d)
           in send_attach_ok h (ar_correlation_id request) (dr_streams d ! i) lease require_hugepages d))"

section \<open>What the helpers leave alone\<close>

text \<open>
  The identity of a stream: everything but its epoch and its timestamps. A quiet step changes
  neither the leases nor the lease counter nor the identity of a stream.
\<close>

definition stream_key :: "tp_driver_stream_state \<Rightarrow> u32 \<times> tp_driver_profile option \<times> u64 \<times> u32" where
  "stream_key s = (ss_stream_id s, ss_profile s, ss_producer_lease_id s, ss_producer_client_id s)"

definition stream_keys :: "driver \<Rightarrow> (u32 \<times> tp_driver_profile option \<times> u64 \<times> u32) list" where
  "stream_keys d = List.map stream_key (dr_streams d)"

definition quiet :: "driver \<Rightarrow> driver \<Rightarrow> bool" where
  "quiet d d' \<longleftrightarrow> dr_leases d' = dr_leases d \<and> dr_lease_counter d' = dr_lease_counter d \<and>
     dr_config d' = dr_config d \<and> stream_keys d' = stream_keys d"

lemma quiet_refl: "quiet d d"
  by (simp add: quiet_def)

lemma quiet_trans: "quiet d d' \<Longrightarrow> quiet d' d'' \<Longrightarrow> quiet d d''"
  by (simp add: quiet_def)

lemma quiet_leases: "quiet d d' \<Longrightarrow> dr_leases d' = dr_leases d"
  by (simp add: quiet_def)

lemma quiet_touches: "touches S d d' \<Longrightarrow> quiet d d'"
  by (simp add: quiet_def stream_keys_def touches_same)

lemma quiet_calls: "quiet d (d\<lparr>dr_calls := c\<rparr>)"
  by (simp add: quiet_def stream_keys_def)

lemma quiet_upd:
  assumes "stream_key (f (dr_streams d ! i)) = stream_key (dr_streams d ! i)"
  shows "quiet d (upd_stream i f d)"
proof (cases "i < length (dr_streams d)")
  case True
  have "List.map stream_key ((dr_streams d)[i := f (dr_streams d ! i)]) = List.map stream_key (dr_streams d)"
    using assms True by (simp add: map_update list_update_same_conv)
  then show ?thesis by (simp add: quiet_def upd_stream_def stream_keys_def)
qed (simp add: quiet_def upd_stream_def stream_keys_def list_update_beyond)

lemma quiet_ask: "ask f d = (x, d') \<Longrightarrow> quiet d d'"
  by (auto simp: ask_def quiet_calls)

lemma quiet_send: "quiet d (snd (send_message h m d))" "quiet d (snd (tp_driver_send_control h m d))"
  by (auto simp: send_message_def tp_driver_send_control_def ask_def quiet_def stream_keys_def)

lemma quiet_revoked: "quiet d (snd (tp_driver_send_lease_revoked h lease reason msg d))"
  by (auto simp: tp_driver_send_lease_revoked_def ask_def intro: quiet_trans [OF quiet_calls quiet_send(1)])

lemma quiet_announce: "quiet d (snd (tp_driver_send_announce h i flag d))"
proof -
  let ?d1 = "d\<lparr>dr_calls := Suc (dr_calls d)\<rparr>"
  have "quiet d (snd (tp_driver_send_control h m (upd_stream i (\<lambda>s. s\<lparr>ss_last_announce_ns := t\<rparr>) ?d1)))" for m t
    by (rule quiet_trans [OF quiet_calls quiet_trans [OF quiet_upd quiet_send(2)]]) (simp add: stream_key_def)
  then show ?thesis
    by (auto simp: tp_driver_send_announce_def ask_def Let_def quiet_calls split: sum.splits)
qed

lemma quiet_cooldown: "quiet d (tp_driver_record_node_id_cooldown h node_id now d)"
  by (auto simp: tp_driver_record_node_id_cooldown_def Let_def tp_driver_prune_node_id_cooldowns_def ask_def quiet_def
      stream_keys_def split: option.splits)

lemma quiet_prune: "quiet d (tp_driver_prune_node_id_cooldowns now d)"
  by (simp add: tp_driver_prune_node_id_cooldowns_def quiet_def stream_keys_def)

lemma quiet_in_cooldown: "quiet d (snd (tp_driver_node_id_in_cooldown node_id now d))"
  by (simp add: tp_driver_node_id_in_cooldown_def Let_def quiet_refl quiet_prune)

lemma quiet_bump: "quiet d (tp_driver_bump_epoch h i d)"
  by (simp add: tp_driver_bump_epoch_def ask_def)
    (rule quiet_trans [OF quiet_calls quiet_upd], simp add: stream_key_def)

text \<open>
  What the creation of an epoch keeps: any relation that the file operations respect and that does
  not look at the creation time.
\<close>

locale epoch_frame = frame R for R :: "driver \<Rightarrow> driver \<Rightarrow> bool" +
  assumes R_touches: "touches S d d' \<Longrightarrow> R d d'"
    and R_created: "R d (upd_stream i (\<lambda>s. s\<lparr>ss_epoch_created_ns := now\<rparr>) d)"
begin

lemma keeps_region: "keeps (tp_driver_create_region_file K h s e p rt nslots stride)"
  unfolding keeps_def using R_touches [OF touches_create_region [OF UNIV_I]] by (metis prod.collapse)

lemma create_epoch: "R d (snd (tp_driver_create_shm_epoch K h i d))"
proof -
  have "keeps (modify (\<lambda>d. d\<lparr>dr_streams := (dr_streams d)[i := (dr_streams d ! i)\<lparr>ss_epoch_created_ns := now\<rparr>]\<rparr>))" for now
    using R_created by (auto simp: keeps_def modify_def upd_stream_def)
  moreover have "keeps (modify (\<lambda>d. if cf_epoch_gc_enabled (dr_config d) then tp_driver_gc_stream h (dr_streams d ! i) d else d))"
    using R_touches [OF gc_stream_touches] by (auto simp: keeps_def modify_def R_refl)
  moreover have "keeps (asking (hs_clock h))" using R_touches [OF touches_calls] by (simp add: keeps_def asking_def)
  ultimately have "keeps (andthen (tp_driver_create_region_file K h (ss_stream_id stream) (ss_epoch stream) 0 HEADER_RING
        (pf_header_nslots profile) 0) (\<lambda>_.
      andthen (for_each (pf_pools profile) (\<lambda>pool.
        tp_driver_create_region_file K h (ss_stream_id stream) (ss_epoch stream) (pd_pool_id pool) PAYLOAD_POOL
          (pf_header_nslots profile) (pd_stride_bytes pool))) (\<lambda>_.
      andthen (asking (hs_clock h)) (\<lambda>now.
      andthen (modify (\<lambda>d. d\<lparr>dr_streams := (dr_streams d)[i := (dr_streams d ! i)\<lparr>ss_epoch_created_ns := now\<rparr>]\<rparr>)) (\<lambda>_.
        modify (\<lambda>d. if cf_epoch_gc_enabled (dr_config d) then tp_driver_gc_stream h (dr_streams d ! i) d else d))))))" for stream profile
    by (intro keeps_andthen keeps_for_each keeps_region)
  then show ?thesis
    by (auto simp: tp_driver_create_shm_epoch_def Let_def R_refl dest: keepsD split: option.splits)
qed

end

interpretation quietly: epoch_frame quiet
  by unfold_locales (auto intro: quiet_refl quiet_trans quiet_touches quiet_upd simp: stream_key_def)

lemmas quiet_create_epoch = quietly.create_epoch

text \<open>The epochs of the streams change only where the driver bumps them.\<close>

definition epochs :: "driver \<Rightarrow> u64 list" where
  "epochs d = List.map ss_epoch (dr_streams d)"

interpretation epochly: epoch_frame "\<lambda>d d'. epochs d' = epochs d"
proof
  show "epochs (upd_stream i (\<lambda>s. s\<lparr>ss_epoch_created_ns := now\<rparr>) d) = epochs d" for i now d
    by (cases "i < length (dr_streams d)") (simp_all add: epochs_def upd_stream_def map_update list_update_same_conv list_update_beyond)
qed (simp_all add: epochs_def touches_same)

lemma epochs_send: "epochs (snd (send_message h m d)) = epochs d" "epochs (snd (tp_driver_send_control h m d)) = epochs d"
  by (auto simp: send_message_def tp_driver_send_control_def ask_def epochs_def)

lemma epochs_announce: "epochs (snd (tp_driver_send_announce h i flag d)) = epochs d"
proof -
  have "epochs (upd_stream i (\<lambda>s. s\<lparr>ss_last_announce_ns := t\<rparr>) d) = epochs d" for t d
    by (cases "i < length (dr_streams d)") (simp_all add: epochs_def upd_stream_def map_update list_update_same_conv list_update_beyond)
  moreover have "epochs (d\<lparr>dr_calls := c\<rparr>) = epochs d" for c by (simp add: epochs_def)
  ultimately show ?thesis
    by (auto simp: tp_driver_send_announce_def ask_def Let_def epochs_send split: sum.splits)
qed

lemma quiet_renew: "quiet d (renew_epoch K h i d)"
proof -
  obtain r d1 where c: "tp_driver_create_shm_epoch K h i (tp_driver_bump_epoch h i d) = (r, d1)"
    by (cases "tp_driver_create_shm_epoch K h i (tp_driver_bump_epoch h i d)")
  have q: "quiet d d1"
    using quiet_trans [OF quiet_bump quiet_create_epoch, of d K h i h i] c by simp
  show ?thesis
    using q quiet_trans [OF q quiet_announce] c by (cases r) (simp_all add: renew_epoch_def)
qed

lemma end_lease_length: "index < length (dr_leases d) \<Longrightarrow> length (dr_leases (end_lease h index stream now d)) < length (dr_leases d)"
proof -
  assume index: "index < length (dr_leases d)"
  have release: "dr_leases (tp_driver_release_producer stream lease d') = dr_leases d'" for lease d'
    by (auto simp: tp_driver_release_producer_def upd_stream_def split: option.splits)
  show ?thesis
    using index by (simp add: end_lease_def Let_def tp_driver_remove_lease_def release quiet_leases [OF quiet_cooldown])
qed

lemma expire_lease_length:
  assumes "index < length (dr_leases d)"
  shows "length (dr_leases (expire_lease K h now index d)) < length (dr_leases d)"
proof -
  have "index < length (dr_leases (snd (tp_driver_send_lease_revoked h lease EXPIRED ''lease expired'' d)))" for lease
    using assms by (simp add: quiet_leases [OF quiet_revoked])
  from end_lease_length [OF this] show ?thesis
    by (auto simp: expire_lease_def Let_def quiet_leases [OF quiet_revoked] quiet_leases [OF quiet_renew] split: option.splits)
qed

lemma expire_lease_measure:
  "index < length (dr_leases d) \<Longrightarrow> length (dr_leases (expire_lease K h now index d)) - index < length (dr_leases d) - index"
  using expire_lease_length [of index d K h now] by linarith

section \<open>The expiry sweep and the duty cycle\<close>

function expire_loop :: "sb_codec \<Rightarrow> host \<Rightarrow> u64 \<Rightarrow> nat \<Rightarrow> driver \<Rightarrow> driver" where
  "expire_loop K h now i d =
     (if i < length (dr_leases d) then
        if lease_expired now (dr_leases d ! i) then expire_loop K h now i (expire_lease K h now i d)
        else expire_loop K h now (Suc i) d
      else d)"
  by pat_completeness auto
termination
  by (relation "measure (\<lambda>(K, h, now, i, d). length (dr_leases d) - i)") (auto intro: expire_lease_measure)

declare expire_loop.simps [simp del]

definition tp_driver_handle_expired_leases :: "sb_codec \<Rightarrow> host \<Rightarrow> driver \<Rightarrow> driver" where
  "tp_driver_handle_expired_leases K h d = (case ask (hs_clock h) d of (now, d) \<Rightarrow> expire_loop K h now 0 d)"

text \<open>
  The accessors of the control messages: the message header (template, schema, block length,
  version) and the three requests.
\<close>

record driver_codec =
  dc_header_length :: nat
  dc_header :: "bytes \<Rightarrow> u16 \<times> u16 \<times> u16 \<times> u16"
  dc_schema_id :: u16
  dc_schema_version :: u16
  dc_attach_template :: u16
  dc_attach_block :: u16
  dc_attach :: "bytes \<Rightarrow> attach_request"
  dc_detach_template :: u16
  dc_detach_block :: u16
  dc_detach :: "bytes \<Rightarrow> detach_request"
  dc_keepalive_template :: u16
  dc_keepalive_block :: u16
  dc_keepalive :: "bytes \<Rightarrow> keepalive_request"

datatype control_request = Attach attach_request | Detach detach_request | Keepalive keepalive_request

definition control_decode :: "driver_codec \<Rightarrow> bytes \<Rightarrow> control_request option" where
  "control_decode C buffer =
     (if length buffer < dc_header_length C then None
      else
        (let (template_id, schema_id, block_length, version) = dc_header C buffer
         in if schema_id \<noteq> dc_schema_id C \<or> version > dc_schema_version C then None
            else if template_id = dc_attach_template C then
              if block_length \<noteq> dc_attach_block C then None else Some (Attach (dc_attach C buffer))
            else if template_id = dc_detach_template C then
              if block_length \<noteq> dc_detach_block C then None else Some (Detach (dc_detach C buffer))
            else if template_id = dc_keepalive_template C then
              if block_length \<noteq> dc_keepalive_block C then None else Some (Keepalive (dc_keepalive C buffer))
            else None))"

primrec handle_request :: "sb_codec \<Rightarrow> host \<Rightarrow> control_request \<Rightarrow> driver \<Rightarrow> driver" where
  "handle_request K h (Attach request) d = snd (tp_driver_handle_attach K h request d)"
| "handle_request K h (Detach request) d = snd (tp_driver_handle_detach K h request d)"
| "handle_request K h (Keepalive request) d = tp_driver_handle_keepalive h request d"

definition tp_driver_on_control_fragment :: "driver_codec \<Rightarrow> sb_codec \<Rightarrow> host \<Rightarrow> bytes \<Rightarrow> driver \<Rightarrow> driver" where
  "tp_driver_on_control_fragment C K h buffer d =
     (case control_decode C buffer of None \<Rightarrow> d | Some request \<Rightarrow> handle_request K h request d)"

definition announce_stream :: "host \<Rightarrow> nat \<Rightarrow> driver \<Rightarrow> driver" where
  "announce_stream h i d =
     (if ss_epoch (dr_streams d ! i) \<noteq> 0
      then snd (tp_driver_send_announce h i (ss_require_hugepages (dr_streams d ! i)) d) else d)"

definition announce_due :: "host \<Rightarrow> driver \<Rightarrow> driver" where
  "announce_due h d =
     (case ask (hs_clock h) d of
        (now, d) \<Rightarrow>
          (let period_ns = ucast (cf_announce_period_ms (dr_config d)) * 1000000
           in if period_ns > 0 \<and> now \<ge> dr_next_announce_ns d
              then (fold (announce_stream h) [0..<length (dr_streams d)] d)\<lparr>dr_next_announce_ns := now + period_ns\<rparr>
              else d))"

text \<open>
  One duty cycle: the fragments that the poll delivers, at most ten; the supervisor, whose work
  count is a parameter and whose failure ends the cycle; the expiry sweep; the announcements. The
  result is the work count, or -1.
\<close>

definition tp_driver_do_work ::
  "driver_codec \<Rightarrow> sb_codec \<Rightarrow> host \<Rightarrow> bytes list \<Rightarrow> int \<Rightarrow> driver \<Rightarrow> int \<times> driver" where
  "tp_driver_do_work C K h frags work d =
     (let d = fold (tp_driver_on_control_fragment C K h) frags d
      in if cf_supervisor_enabled (dr_config d) \<and> work < 0 then (- 1, d)
         else
           (int (length frags) + (if cf_supervisor_enabled (dr_config d) then work else 0),
            announce_due h (tp_driver_handle_expired_leases K h d)))"

section \<open>Life cycle\<close>

definition config_stream :: "tp_driver_config \<Rightarrow> tp_driver_stream_def \<Rightarrow> tp_driver_stream_state" where
  "config_stream config def =
     \<lparr>ss_stream_id = sd_stream_id def, ss_profile = sd_profile def, ss_epoch = 0, ss_epoch_created_ns = 0,
      ss_last_announce_ns = 0, ss_producer_lease_id = 0, ss_producer_client_id = 0,
      ss_require_hugepages = cf_require_hugepages config\<rparr>"

text \<open>
  \<open>files\<close> are the region files that exist when the driver starts. The two calls that can fail
  are the allocation of the streams and \<open>tp_supervisor_init\<close>.
\<close>

definition tp_driver_init :: "host \<Rightarrow> tp_driver_config \<Rightarrow> (string \<Rightarrow> bytes option) \<Rightarrow> driver res" where
  "tp_driver_init h config files =
     (let config = (if cf_announce_period_ms config = 0 then config\<lparr>cf_announce_period_ms := 1000\<rparr> else config)
      in guard (cf_streams config \<noteq> [] \<and> \<not> hs_ok h 0) (ENOMEM ''tp_driver_init: stream allocation failed'')
        (guard (cf_supervisor_enabled config \<and> \<not> hs_ok h 1) FAIL
         (Inr \<lparr>dr_config = config, dr_streams = List.map (config_stream config) (cf_streams config), dr_leases = [],
           dr_lease_capacity = 0, dr_lease_counter = 0, dr_next_announce_ns = 0, dr_cooldowns = [],
           dr_cooldown_capacity = 0, dr_calls = 2, dr_files = files, dr_sent = []\<rparr>)))"

text \<open>The garbage collection at startup reads the stream; it changes only files.\<close>

definition startup_gc :: "host \<Rightarrow> driver \<Rightarrow> driver" where
  "startup_gc h d =
     (if cf_epoch_gc_on_startup (dr_config d) \<and> cf_epoch_gc_enabled (dr_config d)
      then fold (\<lambda>i d. tp_driver_gc_stream h (dr_streams d ! i) d) [0..<length (dr_streams d)] d else d)"

text \<open>
  The calls that can fail: the Aeron client, the control subscription, the control and announce
  publications and the fragment assembler; last \<open>tp_supervisor_start\<close>.
\<close>

definition tp_driver_start :: "host \<Rightarrow> (driver, unit) sx" where
  "tp_driver_start h =
     andthen (attempt h FAIL) (\<lambda>_.
     andthen (attempt h FAIL) (\<lambda>_.
     andthen (attempt h FAIL) (\<lambda>_.
     andthen (attempt h FAIL) (\<lambda>_.
     andthen (attempt h FAIL) (\<lambda>_.
     andthen (asking (hs_clock h)) (\<lambda>now.
     andthen (modify (\<lambda>d. d\<lparr>dr_next_announce_ns := now\<rparr>)) (\<lambda>_.
     andthen (modify (startup_gc h)) (\<lambda>_ d.
       (if cf_supervisor_enabled (dr_config d) then attempt h FAIL else ret ()) d))))))))"

text \<open>Closing zeroes the driver; \<open>zero_config\<close> is the configuration after that.\<close>

definition zero_config :: tp_driver_config where
  "zero_config = \<lparr>cf_shm_base_dir = [], cf_shm_namespace = [], cf_require_hugepages = False,
     cf_allow_dynamic_streams = False, cf_default_profile = [], cf_announce_period_ms = 0,
     cf_lease_keepalive_interval_ms = 0, cf_lease_expiry_grace_intervals = 0, cf_prefault_shm = False, cf_mlock_shm = False,
     cf_epoch_gc_enabled = False, cf_epoch_gc_keep = 0, cf_epoch_gc_min_age_ns = 0, cf_epoch_gc_on_startup = False,
     cf_node_id_reuse_cooldown_ms = 0, cf_stream_id_ranges = [], cf_profiles = [], cf_streams = [],
     cf_supervisor_enabled = False\<rparr>"

definition tp_driver_close :: "host \<Rightarrow> driver \<Rightarrow> driver" where
  "tp_driver_close h d =
     (snd (tp_driver_send_driver_shutdown h d))\<lparr>dr_config := zero_config, dr_streams := [], dr_leases := [], dr_lease_capacity := 0,
        dr_lease_counter := 0, dr_next_announce_ns := 0, dr_cooldowns := [], dr_cooldown_capacity := 0\<rparr>"

section \<open>Reachable states\<close>

text \<open>The driver runs one duty cycle after the other; a request is handled as it is delivered.\<close>

datatype driver_event = Request control_request | Sweep | AnnounceDue

primrec driver_step :: "sb_codec \<Rightarrow> host \<Rightarrow> driver_event \<Rightarrow> driver \<Rightarrow> driver" where
  "driver_step K h (Request request) d = handle_request K h request d"
| "driver_step K h Sweep d = tp_driver_handle_expired_leases K h d"
| "driver_step K h AnnounceDue d = announce_due h d"

definition driver_run :: "sb_codec \<Rightarrow> host \<Rightarrow> driver_event list \<Rightarrow> driver \<Rightarrow> driver" where
  "driver_run K h events d = fold (driver_step K h) events d"

text \<open>A duty cycle is a run of such events.\<close>

lemma do_work_run:
  "\<exists>events. snd (tp_driver_do_work C K h frags work d) = driver_run K h events d"
proof -
  let ?rs = "List.map Request (List.map_filter (control_decode C) frags)"
  have frags: "fold (tp_driver_on_control_fragment C K h) frags d = driver_run K h ?rs d" for d
    by (induction frags arbitrary: d)
      (auto simp: driver_run_def tp_driver_on_control_fragment_def map_filter_simps split: option.splits)
  have "announce_due h (tp_driver_handle_expired_leases K h (driver_run K h ?rs d)) = driver_run K h (?rs @ [Sweep, AnnounceDue]) d"
    by (simp add: driver_run_def)
  then show ?thesis
    unfolding tp_driver_do_work_def Let_def frags by auto
qed

end
