(* ===== verification/Tp_Driver_Leases.thy ===== *)
theory Tp_Driver_Leases
  imports Tp_Driver
begin

text \<open>
  The lease table of the driver: its invariant, that every request and every sweep keeps it, and
  what attach, keepalive, detach and expiry do to leases and epochs.
\<close>

section \<open>The invariant\<close>

type_synonym skey = "u32 \<times> tp_driver_profile option \<times> u64 \<times> u32"

text \<open>Stream ids are unique, apart from the id zero, which no lookup finds.\<close>

definition unique_ids :: "skey list \<Rightarrow> bool" where
  "unique_ids S \<longleftrightarrow> (\<forall>i<length S. \<forall>j<length S. fst (S ! i) = fst (S ! j) \<longrightarrow> fst (S ! i) \<noteq> 0 \<longrightarrow> i = j)"

definition lease_ok :: "u64 \<Rightarrow> skey list \<Rightarrow> tp_driver_lease \<Rightarrow> bool" where
  "lease_ok c S l \<longleftrightarrow> le_lease_id l \<noteq> 0 \<and> le_lease_id l \<le> c \<and> le_client_id l \<noteq> 0 \<and> le_node_id l \<noteq> TP_NULL_U32 \<and>
     le_stream_id l \<noteq> 0 \<and> le_stream_id l \<in> fst ` set S"

text \<open>
  A stream's producer field names its producer lease, and every producer lease is named by its
  stream. So a stream has at most one producer lease.
\<close>

definition producers_ok :: "tp_driver_lease list \<Rightarrow> skey list \<Rightarrow> bool" where
  "producers_ok L S \<longleftrightarrow>
     (\<forall>l \<in> set L. le_role l = PRODUCER \<longrightarrow>
       (\<forall>(s, pf, pl, pc) \<in> set S. s = le_stream_id l \<longrightarrow> pl = le_lease_id l \<and> pc = le_client_id l)) \<and>
     (\<forall>(s, pf, pl, pc) \<in> set S. pl \<noteq> 0 \<longrightarrow>
       (\<exists>l \<in> set L. le_lease_id l = pl \<and> le_role l = PRODUCER \<and> le_stream_id l = s))"

definition leases_ok :: "tp_driver_lease list \<Rightarrow> u64 \<Rightarrow> skey list \<Rightarrow> bool" where
  "leases_ok L c S \<longleftrightarrow>
     distinct (List.map le_lease_id L) \<and> distinct (List.map le_client_id L) \<and> distinct (List.map le_node_id L) \<and>
     (\<forall>l \<in> set L. lease_ok c S l) \<and> unique_ids S \<and> producers_ok L S"

definition driver_ok :: "driver \<Rightarrow> bool" where
  "driver_ok d \<longleftrightarrow> leases_ok (dr_leases d) (dr_lease_counter d) (stream_keys d)"

lemma quiet_ok: "quiet d d' \<Longrightarrow> driver_ok d' \<longleftrightarrow> driver_ok d"
  by (simp add: driver_ok_def quiet_def)

section \<open>Changes of the table\<close>

lemma set_remove_at: "distinct xs \<Longrightarrow> i < length xs \<Longrightarrow> set (take i xs @ drop (Suc i) xs) = set xs - {xs ! i}"
  by (subst (3) id_take_nth_drop [of i xs]) (auto simp: distinct_conv_nth in_set_conv_nth set_take_disj_set_drop_if_distinct)

lemma distinct_remove_at: "distinct xs \<Longrightarrow> distinct (take i xs @ drop (Suc i) xs)"
  by (auto simp: set_take_disj_set_drop_if_distinct)

lemma distinct_map_remove_at: "distinct (List.map f xs) \<Longrightarrow> distinct (List.map f (take i xs @ drop (Suc i) xs))"
  using distinct_remove_at [of "List.map f xs" i] by (simp add: take_map drop_map)

lemma producers_ok_remove:
  assumes prod: "producers_ok L S" and uniq: "unique_ids S"
    and inj: "\<And>l'. l' \<in> set L \<Longrightarrow> le_lease_id l' = le_lease_id l \<Longrightarrow> l' = l"
    and i: "i < length S" "fst (S ! i) = le_stream_id l" "le_stream_id l \<noteq> 0" and L': "set L' = set L - {l}"
  shows "producers_ok L' (if fst (snd (snd (S ! i))) = le_lease_id l then S[i := (fst (S ! i), fst (snd (S ! i)), 0, 0)] else S)"
    (is "producers_ok L' ?S")
  unfolding producers_ok_def
proof (intro conjI ballI impI)
  fix l' k
  assume l': "l' \<in> set L'" "le_role l' = PRODUCER" and k: "k \<in> set ?S"
  have in_L: "l' \<in> set L" "l' \<noteq> l" using l' L' by auto
  have old: "fst (snd (snd k')) = le_lease_id l' \<and> snd (snd (snd k')) = le_client_id l'"
    if "k' \<in> set S" "fst k' = le_stream_id l'" for k'
    using prod in_L(1) l'(2) that by (cases k') (fastforce simp: producers_ok_def)
  show "case k of (s, pf, pl, pc) \<Rightarrow> s = le_stream_id l' \<longrightarrow> pl = le_lease_id l' \<and> pc = le_client_id l'"
  proof (cases "k \<in> set S")
    case True
    then show ?thesis using old [of k] by (cases k) auto
  next
    case False
    then have rel: "fst (snd (snd (S ! i))) = le_lease_id l" "k = (fst (S ! i), fst (snd (S ! i)), 0, 0)"
      using k set_update_subset_insert [of S i "(fst (S ! i), fst (snd (S ! i)), 0, 0)"] by (auto split: if_splits)
    show ?thesis
      using old [of "S ! i"] rel i(1) inj [OF in_L(1)] in_L(2) by auto
  qed
next
  fix k
  assume k: "k \<in> set ?S"
  then obtain j where j: "j < length S" "k = ?S ! j" by (auto simp: in_set_conv_nth split: if_splits)
  show "case k of (s, pf, pl, pc) \<Rightarrow> pl \<noteq> 0 \<longrightarrow> (\<exists>l' \<in> set L'. le_lease_id l' = pl \<and> le_role l' = PRODUCER \<and> le_stream_id l' = s)"
  proof (cases "fst (snd (snd (S ! i))) = le_lease_id l \<and> j = i")
    case True
    then show ?thesis using j by auto
  next
    case False
    then have kS: "k = S ! j" using j by auto
    have "\<exists>l' \<in> set L. le_lease_id l' = fst (snd (snd k)) \<and> le_role l' = PRODUCER \<and> le_stream_id l' = fst k"
      if "fst (snd (snd k)) \<noteq> 0"
      using prod nth_mem [OF j(1)] kS that by (cases k) (fastforce simp: producers_ok_def)
    moreover have "l' \<noteq> l" if "le_lease_id l' = fst (snd (snd k))" "le_stream_id l' = fst k" for l'
    proof
      assume "l' = l"
      then have "j = i" using uniq j(1) i kS that by (simp add: unique_ids_def)
      then show False using False \<open>l' = l\<close> that kS by simp
    qed
    ultimately show ?thesis using L' by (cases k) fastforce
  qed
qed

lemma leases_ok_remove:
  assumes ok: "leases_ok L c S" and index: "index < length L" and i: "i < length S" "fst (S ! i) = le_stream_id (L ! index)"
  shows "leases_ok (take index L @ drop (Suc index) L) c
    (if fst (snd (snd (S ! i))) = le_lease_id (L ! index) then S[i := (fst (S ! i), fst (snd (S ! i)), 0, 0)] else S)"
    (is "leases_ok ?L c ?S")
proof -
  let ?l = "L ! index"
  have mem: "?l \<in> set L" using index by simp
  have ids: "distinct (List.map le_lease_id L)" and okl: "\<forall>l \<in> set L. lease_ok c S l" and uniq: "unique_ids S"
    and prod: "producers_ok L S"
    using ok by (simp_all add: leases_ok_def)
  have inj: "l' \<in> set L \<Longrightarrow> le_lease_id l' = le_lease_id ?l \<Longrightarrow> l' = ?l" for l'
    using ids mem by (auto simp: distinct_map dest: inj_onD)
  have setL: "set ?L = set L - {?l}"
    using ids index by (intro set_remove_at) (simp_all add: distinct_map)
  have keys: "List.map fst ?S = List.map fst S"
    using i(1) by (auto simp: map_update list_update_same_conv)
  have fst_nth: "fst (?S ! j) = fst (S ! j)" if "j < length S" for j
    by (cases "j = i") (use i(1) that in auto)
  have len: "length ?S = length S" by simp
  have "unique_ids ?S" using uniq fst_nth unfolding unique_ids_def len by simp
  moreover have "lease_ok c ?S l \<longleftrightarrow> lease_ok c S l" for l
    using arg_cong [OF keys, of set] by (simp add: lease_ok_def)
  then have "\<forall>l \<in> set ?L. lease_ok c ?S l" using okl setL by auto
  moreover have "producers_ok ?L ?S"
    by (rule producers_ok_remove [OF prod uniq inj i _ setL]) (use okl mem in \<open>auto simp: lease_ok_def\<close>)
  ultimately show ?thesis
    using ok unfolding leases_ok_def by (intro conjI distinct_map_remove_at) (elim conjE, assumption)+
qed

lemma producers_ok_add:
  assumes prod: "producers_ok L S" and uniq: "unique_ids S"
    and i: "i < length S" "fst (S ! i) = le_stream_id l" "le_stream_id l \<noteq> 0"
    and free: "le_role l = PRODUCER \<Longrightarrow> fst (snd (snd (S ! i))) = 0" and nz: "\<forall>l' \<in> set L. le_lease_id l' \<noteq> 0"
  shows "producers_ok (L @ [l])
    (if le_role l = PRODUCER then S[i := (fst (S ! i), fst (snd (S ! i)), le_lease_id l, le_client_id l)] else S)"
proof (cases "le_role l = PRODUCER")
  case False
  then show ?thesis using prod unfolding producers_ok_def by (auto 0 3)
next
  case True
  let ?S = "S[i := (fst (S ! i), fst (snd (S ! i)), le_lease_id l, le_client_id l)]"
  have other: "le_stream_id l' \<noteq> fst (S ! i)" if "l' \<in> set L" "le_role l' = PRODUCER" for l'
    using prod that nz free [OF True] i(1) nth_mem [OF i(1)] by (cases "S ! i") (fastforce simp: producers_ok_def)
  have nth: "?S ! j = (if j = i then (fst (S ! i), fst (snd (S ! i)), le_lease_id l, le_client_id l) else S ! j)"
    if "j < length S" for j
    using i(1) that by (simp add: nth_list_update)
  have one: "case k of (s, pf, pl, pc) \<Rightarrow> s = le_stream_id l' \<longrightarrow> pl = le_lease_id l' \<and> pc = le_client_id l'"
    if l': "l' \<in> set (L @ [l])" "le_role l' = PRODUCER" and k: "k \<in> set ?S" for l' k
  proof -
    obtain j where j: "j < length S" "k = ?S ! j" using k by (auto simp: in_set_conv_nth)
    show ?thesis
    proof (cases "j = i")
      case True
      then show ?thesis using j nth [OF j(1)] l' other [of l'] i(2) by auto
    next
      case False
      have kS: "k = S ! j" using j nth [OF j(1)] False by simp
      have "l' \<noteq> l" if "fst k = le_stream_id l'"
        using uniq j(1) i that False kS by (auto simp: unique_ids_def)
      then show ?thesis
        using prod l' kS nth_mem [OF j(1)] by (cases k) (fastforce simp: producers_ok_def)
    qed
  qed
  have two: "case k of (s, pf, pl, pc) \<Rightarrow> pl \<noteq> 0 \<longrightarrow>
      (\<exists>l' \<in> set (L @ [l]). le_lease_id l' = pl \<and> le_role l' = PRODUCER \<and> le_stream_id l' = s)" if k: "k \<in> set ?S" for k
  proof -
    obtain j where j: "j < length S" "k = ?S ! j" using k by (auto simp: in_set_conv_nth)
    show ?thesis
    proof (cases "j = i")
      case True
      then show ?thesis using j nth [OF j(1)] i(2) \<open>le_role l = PRODUCER\<close> by auto
    next
      case False
      have kS: "k = S ! j" using j nth [OF j(1)] False by simp
      then show ?thesis using prod nth_mem [OF j(1)] by (cases k) (fastforce simp: producers_ok_def)
    qed
  qed
  show ?thesis unfolding if_P [OF True] producers_ok_def using one two by blast
qed

lemma leases_ok_add:
  assumes ok: "leases_ok L c S" and i: "i < length S" "fst (S ! i) = le_stream_id l" "le_stream_id l \<noteq> 0"
    and fresh: "c < le_lease_id l" "le_client_id l \<noteq> 0" "le_client_id l \<notin> le_client_id ` set L"
      "le_node_id l \<noteq> TP_NULL_U32" "le_node_id l \<notin> le_node_id ` set L"
    and free: "le_role l = PRODUCER \<Longrightarrow> fst (snd (snd (S ! i))) = 0"
  shows "leases_ok (L @ [l]) (le_lease_id l)
    (if le_role l = PRODUCER then S[i := (fst (S ! i), fst (snd (S ! i)), le_lease_id l, le_client_id l)] else S)"
    (is "leases_ok ?L ?c ?S")
proof -
  have okl: "\<forall>l' \<in> set L. lease_ok c S l'" and uniq: "unique_ids S" and prod: "producers_ok L S"
    using ok by (simp_all add: leases_ok_def)
  have new: "le_lease_id l' \<noteq> le_lease_id l" if "l' \<in> set L" for l'
    using okl that fresh(1) by (auto simp: lease_ok_def)
  have keys: "List.map fst ?S = List.map fst S"
    using i(1) by (auto simp: map_update list_update_same_conv)
  have fst_nth: "fst (?S ! j) = fst (S ! j)" if "j < length S" for j
    by (cases "j = i") (use i(1) that in auto)
  have len: "length ?S = length S" by simp
  have "unique_ids ?S" using uniq fst_nth unfolding unique_ids_def len by simp
  moreover have keys_iff: "lease_ok c' ?S l' \<longleftrightarrow> lease_ok c' S l'" for l' c'
    using arg_cong [OF keys, of set] by (simp add: lease_ok_def)
  have "le_stream_id l \<in> fst ` set S" unfolding i(2) [symmetric] by (rule imageI [OF nth_mem [OF i(1)]])
  then have "lease_ok ?c S l" using fresh i(3) by (auto simp: lease_ok_def)
  moreover have "lease_ok ?c S l'" if "l' \<in> set L" for l'
    using okl that fresh(1) by (auto simp: lease_ok_def)
  ultimately have "\<forall>l' \<in> set ?L. lease_ok ?c ?S l'" using keys_iff by auto
  moreover have "producers_ok ?L ?S"
    by (rule producers_ok_add [OF prod uniq i free]) (use okl in \<open>auto simp: lease_ok_def\<close>)
  moreover have "distinct (List.map le_lease_id ?L)" "distinct (List.map le_client_id ?L)" "distinct (List.map le_node_id ?L)"
    using ok imageE [of "le_lease_id l" le_lease_id "set L"] new fresh(3,5) by (simp_all add: leases_ok_def) (metis)
  ultimately show ?thesis using \<open>unique_ids ?S\<close> by (simp add: leases_ok_def)
qed

lemma leases_ok_counter: "leases_ok L c S \<Longrightarrow> c \<le> c' \<Longrightarrow> leases_ok L c' S"
  by (auto simp: leases_ok_def lease_ok_def)

lemma leases_ok_new_stream:
  assumes ok: "leases_ok L c S" and new: "s = 0 \<or> s \<notin> fst ` set S"
  shows "leases_ok L c (S @ [(s, pf, 0, pc)])"
proof -
  have "unique_ids (S @ [(s, pf, 0, pc)])"
    using ok new unfolding leases_ok_def unique_ids_def
    by (auto simp: nth_append less_Suc_eq)
  moreover have "le_stream_id l \<noteq> s" if "l \<in> set L" for l
    using ok new that by (auto simp: leases_ok_def lease_ok_def)
  then have "producers_ok L (S @ [(s, pf, 0, pc)])"
    using ok by (auto simp: leases_ok_def producers_ok_def)
  ultimately show ?thesis using ok by (auto simp: leases_ok_def lease_ok_def)
qed

text \<open>The invariant does not look at the expiry time.\<close>

definition lease_view :: "tp_driver_lease \<Rightarrow> u64 \<times> u32 \<times> u32 \<times> u32 \<times> u8" where
  "lease_view l = (le_lease_id l, le_client_id l, le_node_id l, le_stream_id l, le_role l)"

lemma leases_ok_view:
  "leases_ok L c S \<longleftrightarrow>
     distinct (List.map fst (List.map lease_view L)) \<and> distinct (List.map (fst \<circ> snd) (List.map lease_view L)) \<and>
     distinct (List.map (fst \<circ> snd \<circ> snd) (List.map lease_view L)) \<and> unique_ids S \<and>
     (\<forall>v \<in> set (List.map lease_view L). case v of (l, cl, n, s, r) \<Rightarrow>
        l \<noteq> 0 \<and> l \<le> c \<and> cl \<noteq> 0 \<and> n \<noteq> TP_NULL_U32 \<and> s \<noteq> 0 \<and> s \<in> fst ` set S \<and>
        (r = PRODUCER \<longrightarrow> (\<forall>(s', pf, pl, pc) \<in> set S. s' = s \<longrightarrow> pl = l \<and> pc = cl))) \<and>
     (\<forall>(s', pf, pl, pc) \<in> set S. pl \<noteq> 0 \<longrightarrow>
        (\<exists>v \<in> set (List.map lease_view L). case v of (l, cl, n, s, r) \<Rightarrow> l = pl \<and> r = PRODUCER \<and> s = s'))"
  unfolding leases_ok_def lease_ok_def producers_ok_def lease_view_def
  by (simp add: comp_def ball_conj_distrib conj_ac split_def cong: conj_cong)

lemma leases_ok_expiry:
  assumes "leases_ok L c S" "index < length L"
  shows "leases_ok (L[index := (L ! index)\<lparr>le_expiry_ns := x\<rparr>]) c S"
proof -
  have "List.map lease_view (L[index := (L ! index)\<lparr>le_expiry_ns := x\<rparr>]) = List.map lease_view L"
    using assms(2) by (auto simp: map_update list_update_same_conv lease_view_def)
  then show ?thesis using assms(1) unfolding leases_ok_view by simp
qed

section \<open>The end of a lease\<close>

lemma find_stream_Some:
  "tp_driver_find_stream d s = Some i \<Longrightarrow> i < length (dr_streams d) \<and> ss_stream_id (dr_streams d ! i) = s \<and> s \<noteq> 0"
  by (auto simp: tp_driver_find_stream_def dest: find_index_Some split: if_splits)

lemma find_stream_None: "tp_driver_find_stream d s = None \<longleftrightarrow> s = 0 \<or> s \<notin> fst ` set (stream_keys d)"
  by (auto simp: tp_driver_find_stream_def stream_keys_def stream_key_def image_iff)

lemma find_stream_quiet: "quiet d d' \<Longrightarrow> tp_driver_find_stream d' s = tp_driver_find_stream d s"
proof -
  assume "quiet d d'"
  then have eq: "stream_keys d' = stream_keys d" by (simp add: quiet_def)
  have "List.map ss_stream_id (dr_streams x) = List.map fst (stream_keys x)" for x
    by (simp add: stream_keys_def stream_key_def)
  then have keys: "List.map ss_stream_id (dr_streams d') = List.map ss_stream_id (dr_streams d)" using eq by simp
  have idx: "find_index (\<lambda>st. ss_stream_id st = s) xs = find_index ((=) s) (List.map ss_stream_id xs)" for xs
    by (induction xs) auto
  show ?thesis unfolding tp_driver_find_stream_def idx keys ..
qed

lemma end_lease_ok:
  assumes ok: "driver_ok d" and index: "index < length (dr_leases d)"
    and stream: "stream = tp_driver_find_stream d (le_stream_id (dr_leases d ! index))"
  shows "driver_ok (end_lease h index stream now d)"
proof -
  let ?l = "dr_leases d ! index"
  let ?d1 = "tp_driver_record_node_id_cooldown h (le_node_id ?l) now d"
  have q: "quiet d ?d1" by (rule quiet_cooldown)
  have "lease_ok (dr_lease_counter d) (stream_keys d) ?l"
    using ok index by (simp add: driver_ok_def leases_ok_def)
  then obtain i where i: "stream = Some i" using stream find_stream_None by (metis lease_ok_def not_None_eq)
  have si: "i < length (stream_keys d)" "fst (stream_keys d ! i) = le_stream_id ?l"
    using find_stream_Some stream i by (auto simp: stream_keys_def stream_key_def)
  have keys: "stream_keys ?d1 = stream_keys d" and same: "dr_leases ?d1 = dr_leases d" "dr_lease_counter ?d1 = dr_lease_counter d"
    using q by (simp_all add: quiet_def)
  have pl: "ss_producer_lease_id (dr_streams ?d1 ! i) = fst (snd (snd (stream_keys d ! i)))"
    "ss_stream_id (dr_streams ?d1 ! i) = fst (stream_keys d ! i)" "ss_profile (dr_streams ?d1 ! i) = fst (snd (stream_keys d ! i))"
    using si(1) unfolding keys [symmetric] by (simp_all add: stream_keys_def stream_key_def)
  have "stream_keys (end_lease h index stream now d) =
    (if fst (snd (snd (stream_keys d ! i))) = le_lease_id ?l
     then (stream_keys d)[i := (fst (stream_keys d ! i), fst (snd (stream_keys d ! i)), 0, 0)] else stream_keys d)"
    using keys pl si(1)
    by (simp add: end_lease_def Let_def i tp_driver_release_producer_def tp_driver_remove_lease_def upd_stream_def stream_keys_def
        map_update stream_key_def)
  moreover have "dr_leases (end_lease h index stream now d) = take index (dr_leases d) @ drop (Suc index) (dr_leases d)"
    "dr_lease_counter (end_lease h index stream now d) = dr_lease_counter d"
    using same index by (simp_all add: end_lease_def Let_def i tp_driver_release_producer_def tp_driver_remove_lease_def upd_stream_def)
  ultimately show ?thesis
    using leases_ok_remove [OF ok [unfolded driver_ok_def] index si] by (simp add: driver_ok_def)
qed

lemma expire_lease_ok:
  assumes ok: "driver_ok d" and index: "index < length (dr_leases d)"
  shows "driver_ok (expire_lease K h now index d)"
proof -
  let ?l = "dr_leases d ! index" and ?d1 = "snd (tp_driver_send_lease_revoked h (dr_leases d ! index) EXPIRED ''lease expired'' d)"
  have q: "quiet d ?d1" by (rule quiet_revoked)
  have same: "dr_leases ?d1 = dr_leases d" by (rule quiet_leases [OF q])
  have "driver_ok (end_lease h index (tp_driver_find_stream d (le_stream_id ?l)) now ?d1)"
    by (rule end_lease_ok) (use ok index q same in \<open>simp_all add: quiet_ok find_stream_quiet\<close>)
  then show ?thesis
    by (auto simp: expire_lease_def Let_def quiet_ok [OF quiet_renew] split: option.splits)
qed

lemma expire_loop_ok: "driver_ok d \<Longrightarrow> driver_ok (expire_loop K h now i d)"
proof (induction K h now i d rule: expire_loop.induct)
  case (1 K h now i d)
  show ?case
    using 1 expire_lease_ok by (subst expire_loop.simps) simp
qed

lemma quiet_handle_errors: "quiet d (snd (tp_driver_send_detach_response h corr code msg d))"
  by (simp add: tp_driver_send_detach_response_def quiet_send)

lemma is_producer_false: "((0 :: u8) = PRODUCER) = False"
  by (simp add: PRODUCER_def)

text \<open>Every outcome of a detach request: a response only, or the end of the matching lease.\<close>

lemma handle_detach_cases:
  assumes "tp_driver_handle_detach K h request d = (r, d')"
  obtains (refused) "quiet d d'"
  | (detached) index d1 now d2 where "tp_driver_find_lease d (dt_lease_id request) = Some index"
      "le_stream_id (dr_leases d ! index) = dt_stream_id request" "quiet d d1"
      "d2 = end_lease h index (tp_driver_find_stream d (dt_stream_id request)) now d1" "quiet d2 d'"
      "d' = snd (tp_driver_send_detach_response h (dt_correlation_id request) OK [] d2)"
proof (cases "dt_role request")
  case None
  then show ?thesis
    using assms refused quiet_handle_errors [of d h] by (auto simp: tp_driver_handle_detach_def Let_def) (metis snd_conv)
next
  case (Some role)
  show ?thesis
  proof (cases "tp_driver_find_lease d (dt_lease_id request)")
    case None
    then show ?thesis
      using assms Some refused quiet_handle_errors [of d h] by (auto simp: tp_driver_handle_detach_def Let_def) (metis snd_conv)
  next
    case lease: (Some index)
    let ?l = "dr_leases d ! index"
    show ?thesis
    proof (cases "le_stream_id ?l \<noteq> dt_stream_id request \<or> le_client_id ?l \<noteq> dt_client_id request \<or> le_role ?l \<noteq> role")
      case True
      then show ?thesis
        using assms Some lease refused quiet_handle_errors [of d h] by (auto simp: tp_driver_handle_detach_def Let_def) (metis snd_conv)+
    next
      case False
      let ?d0 = "snd (tp_driver_send_lease_revoked h ?l DETACHED ''lease detached'' d)"
      let ?d1 = "?d0\<lparr>dr_calls := Suc (dr_calls ?d0)\<rparr>"
      let ?d2 = "end_lease h index (tp_driver_find_stream d (dt_stream_id request)) (hs_clock h (dr_calls ?d0)) ?d1"
      have "(r, d') = tp_driver_send_detach_response h (dt_correlation_id request) OK [] ?d2"
        using assms Some lease False by (simp add: tp_driver_handle_detach_def Let_def is_producer_false ask_def)
      then have d': "d' = snd (tp_driver_send_detach_response h (dt_correlation_id request) OK [] ?d2)" by (metis snd_conv)
      show ?thesis
        by (rule detached [OF lease _ quiet_trans [OF quiet_revoked quiet_calls] refl _ d'])
          (use False d' quiet_handle_errors in simp_all)
    qed
  qed
qed

lemma find_lease_Some:
  "tp_driver_find_lease d lease_id = Some index \<Longrightarrow>
    index < length (dr_leases d) \<and> le_lease_id (dr_leases d ! index) = lease_id \<and> lease_id \<noteq> 0"
  by (auto simp: tp_driver_find_lease_def dest: find_index_Some split: if_splits)

lemma handle_detach_ok:
  assumes "driver_ok d" "tp_driver_handle_detach K h request d = (r, d')"
  shows "driver_ok d'"
  using assms(2)
proof (cases rule: handle_detach_cases)
  case refused
  then show ?thesis using assms(1) by (simp add: quiet_ok)
next
  case (detached index d1 now d2)
  have "driver_ok d2"
    unfolding detached(4)
    by (rule end_lease_ok) (use assms(1) detached(1,2,3) find_lease_Some in \<open>simp_all add: quiet_ok find_stream_quiet quiet_leases\<close>)
  then show ?thesis using detached(5) by (simp add: quiet_ok)
qed

lemma handle_keepalive_ok: "driver_ok d \<Longrightarrow> driver_ok (tp_driver_handle_keepalive h request d)"
  by (auto simp: tp_driver_handle_keepalive_def ask_def driver_ok_def stream_keys_def dest!: find_lease_Some
      intro: leases_ok_expiry split: option.splits)

section \<open>Identifiers are fresh\<close>

lemma quiet_seed: "quiet d (snd (tp_driver_seed_u64 h d))"
  by (auto simp: tp_driver_seed_u64_def ask_def Let_def quiet_def stream_keys_def split: prod.splits if_splits)

lemma seed_bounds:
  assumes "tp_driver_seed_u64 h d = (seed, d')"
  shows "seed \<noteq> 0" "unat seed < 2 ^ 63"
proof -
  obtain x where x: "seed = (let s = x AND 0x7FFFFFFFFFFFFFFF in if s = 0 then 1 else s)"
    using assms by (auto simp: tp_driver_seed_u64_def ask_def Let_def split: prod.splits)
  show "seed \<noteq> 0" using x by (simp add: Let_def)
  have "x AND 0x7FFFFFFFFFFFFFFF \<le> (0x7FFFFFFFFFFFFFFF :: u64)" by (rule word_and_le1)
  then have "unat (x AND 0x7FFFFFFFFFFFFFFF) \<le> unat (0x7FFFFFFFFFFFFFFF :: u64)" by (rule word_le_nat_alt [THEN iffD1])
  then have "unat (x AND 0x7FFFFFFFFFFFFFFF) < 2 ^ 63" by simp
  then show "unat seed < 2 ^ 63" using x by (simp add: Let_def)
qed

text \<open>Seeding the counter changes it only from zero.\<close>

lemma seed_counter_spec:
  "dr_leases (seed_counter h d) = dr_leases d" "stream_keys (seed_counter h d) = stream_keys d"
  "dr_streams (seed_counter h d) = dr_streams d" "dr_config (seed_counter h d) = dr_config d"
  "dr_lease_counter d \<le> dr_lease_counter (seed_counter h d)" "dr_lease_counter (seed_counter h d) \<noteq> 0"
  "unat (dr_lease_counter (seed_counter h d)) \<le> max (unat (dr_lease_counter d)) (2 ^ 63 - 1)"
  "dr_lease_counter d \<noteq> 0 \<Longrightarrow> seed_counter h d = d"
proof -
  obtain seed d1 where s: "tp_driver_seed_u64 h d = (seed, d1)" by (cases "tp_driver_seed_u64 h d")
  have q: "quiet d d1" using quiet_seed [of d h] s by simp
  have st: "dr_streams d1 = dr_streams d"
    using s by (auto simp: tp_driver_seed_u64_def ask_def Let_def split: prod.splits if_splits)
  note b = seed_bounds [OF s]
  show "dr_leases (seed_counter h d) = dr_leases d" "stream_keys (seed_counter h d) = stream_keys d"
    "dr_streams (seed_counter h d) = dr_streams d" "dr_config (seed_counter h d) = dr_config d"
    using q s st by (auto simp: seed_counter_def quiet_def stream_keys_def)
  show "dr_lease_counter d \<le> dr_lease_counter (seed_counter h d)" "dr_lease_counter (seed_counter h d) \<noteq> 0"
    "unat (dr_lease_counter (seed_counter h d)) \<le> max (unat (dr_lease_counter d)) (2 ^ 63 - 1)"
    using s b by (auto simp: seed_counter_def)
  show "dr_lease_counter d \<noteq> 0 \<Longrightarrow> seed_counter h d = d" by (simp add: seed_counter_def)
qed

lemma next_lease_id_spec:
  assumes n: "tp_driver_next_lease_id h d = (lease_id, d')" and c: "unat (dr_lease_counter d) < 2 ^ 64 - 1"
  shows "dr_leases d' = dr_leases d" "dr_streams d' = dr_streams d" "dr_config d' = dr_config d" "dr_lease_counter d' = lease_id"
    "dr_lease_counter d < lease_id" "unat lease_id \<le> max (unat (dr_lease_counter d)) (2 ^ 63 - 1) + 1"
proof -
  let ?c = "dr_lease_counter (seed_counter h d)"
  have small: "unat ?c < 2 ^ 64 - 1" using seed_counter_spec(7) [of h d] c by (simp add: max_def split: if_splits)
  have max: "unat (- 1 :: u64) = 2 ^ 64 - 1" by (simp add: unsigned_minus_1_eq_mask mask_eq_exp_minus_1)
  have nm: "?c \<noteq> - 1" using small max by (metis less_irrefl)
  then have nz: "?c + 1 \<noteq> 0" by (metis add_eq_0_iff2 add.commute)
  have u: "unat (?c + 1) = unat ?c + 1" using small by (simp add: unat_word_ariths)
  have r: "lease_id = ?c + 1" "d' = (seed_counter h d)\<lparr>dr_lease_counter := lease_id\<rparr>"
    using n nz by (auto simp: tp_driver_next_lease_id_def Let_def)
  show "dr_leases d' = dr_leases d" "dr_streams d' = dr_streams d" "dr_config d' = dr_config d" "dr_lease_counter d' = lease_id"
    using r seed_counter_spec(1,3,4) [of h d] by simp_all
  show "dr_lease_counter d < lease_id"
    using seed_counter_spec(5) [of d h] word_less_plus_1 [OF nm] r(1) by simp
  show "unat lease_id \<le> max (unat (dr_lease_counter d)) (2 ^ 63 - 1) + 1"
    using seed_counter_spec(7) [of h d] r(1) u by simp
qed

lemma node_id_loop_spec:
  "node_id_loop h now n d = (node_id, d') \<Longrightarrow>
    quiet d d' \<and> dr_streams d' = dr_streams d \<and> (node_id \<noteq> TP_NULL_U32 \<longrightarrow> node_id \<notin> le_node_id ` set (dr_leases d))"
proof (induction n arbitrary: d)
  case 0
  then show ?case by (simp add: quiet_refl)
next
  case (Suc n)
  obtain seed d1 where s: "tp_driver_seed_u64 h d = (seed, d1)" by (cases "tp_driver_seed_u64 h d")
  have q: "quiet d d1" using quiet_seed [of d h] s by simp
  have st: "dr_streams d1 = dr_streams d"
    using s by (auto simp: tp_driver_seed_u64_def ask_def Let_def split: prod.splits if_splits)
  let ?x = "seed XOR dr_lease_counter d1 XOR of_nat (1024 - Suc n)"
  let ?candidate = "ucast (?x XOR drop_bit 32 ?x) :: u32"
  obtain cooling d2 where cd: "tp_driver_node_id_in_cooldown ?candidate now d1 = (cooling, d2)"
    by (cases "tp_driver_node_id_in_cooldown ?candidate now d1")
  have q2: "quiet d d2" using quiet_trans [OF q quiet_in_cooldown [of d1 ?candidate now]] cd by simp
  have st2: "dr_streams d2 = dr_streams d"
    using cd st by (auto simp: tp_driver_node_id_in_cooldown_def tp_driver_prune_node_id_cooldowns_def Let_def split: if_splits)
  have free: "\<not> tp_driver_node_id_in_use d1 ?candidate \<Longrightarrow> ?candidate \<noteq> TP_NULL_U32 \<Longrightarrow> ?candidate \<notin> le_node_id ` set (dr_leases d)"
    using quiet_leases [OF q] by (auto simp: tp_driver_node_id_in_use_def list_ex_iff)
  note step = Suc.prems [unfolded node_id_loop.simps s prod.case Let_def cd]
  show ?case
    using step Suc.IH [of d1] Suc.IH [of d2] q q2 st st2 free quiet_leases [OF q] quiet_leases [OF q2]
    by (auto split: if_splits bool.splits intro: quiet_trans)
qed

lemma next_node_id_spec:
  assumes "tp_driver_next_node_id h d = (node_id, d')" "dr_lease_counter d \<noteq> 0"
  shows "quiet d d' \<and> dr_streams d' = dr_streams d \<and> (node_id \<noteq> TP_NULL_U32 \<longrightarrow> node_id \<notin> le_node_id ` set (dr_leases d))"
proof -
  let ?d1 = "d\<lparr>dr_calls := Suc (dr_calls d)\<rparr>"
  let ?d2 = "tp_driver_prune_node_id_cooldowns (hs_clock h (dr_calls d)) ?d1"
  have "seed_counter h ?d1 = ?d1" by (rule seed_counter_spec(8)) (simp add: assms(2))
  then have loop: "node_id_loop h (hs_clock h (dr_calls d)) 1024 ?d2 = (node_id, d')"
    using assms(1) by (simp add: tp_driver_next_node_id_def ask_def)
  have q: "quiet d ?d2" by (rule quiet_trans [OF quiet_calls quiet_prune])
  have "dr_streams ?d2 = dr_streams d" by (simp add: tp_driver_prune_node_id_cooldowns_def)
  then show ?thesis using node_id_loop_spec [OF loop] q quiet_leases [OF q] by (auto intro: quiet_trans)
qed

section \<open>Attach\<close>

lemma range_loop_free: "range_loop d rng cursor n = Some s \<Longrightarrow> tp_driver_find_stream d s = None"
  by (induction n arbitrary: cursor) (auto split: if_splits)

lemma ranges_loop_free: "ranges_loop d ranges = Some (s, ranges') \<Longrightarrow> tp_driver_find_stream d s = None"
  by (induction ranges arbitrary: ranges') (auto simp del: range_loop.simps split: option.splits dest: range_loop_free)

lemma allocate_spec:
  assumes "tp_driver_allocate_stream_id d = (r, d')"
  shows "dr_leases d' = dr_leases d \<and> dr_lease_counter d' = dr_lease_counter d \<and> dr_streams d' = dr_streams d \<and>
    (\<forall>s. r = Some s \<longrightarrow> tp_driver_find_stream d' s = None)"
  using assms by (auto simp: tp_driver_allocate_stream_id_def tp_driver_find_stream_def dest!: ranges_loop_free split: option.splits)

text \<open>
  Finding or creating the stream keeps the invariant and the leases, and a stream that was already
  there keeps its index and its state.
\<close>

definition grows :: "driver \<Rightarrow> driver \<Rightarrow> bool" where
  "grows d d' \<longleftrightarrow> dr_leases d' = dr_leases d \<and> dr_lease_counter d' = dr_lease_counter d \<and>
     (\<exists>new. dr_streams d' = dr_streams d @ new)"

lemma grows_refl: "grows d d"
  by (simp add: grows_def)

lemma create_stream_spec:
  assumes "create_stream h request d = (r, d')" "driver_ok d" "tp_driver_find_stream d (ar_stream_id request) = None"
  shows "driver_ok d' \<and> grows d d' \<and> (\<forall>i. r = Inr (Some i) \<longrightarrow> i < length (dr_streams d') \<and> ss_stream_id (dr_streams d' ! i) \<noteq> 0)"
proof -
  let ?alloc = "if ar_stream_id request = 0 then tp_driver_allocate_stream_id d else (Some (ar_stream_id request), d)"
  obtain sid d1 where a: "?alloc = (sid, d1)" by (cases ?alloc)
  have a1: "dr_leases d1 = dr_leases d" "dr_lease_counter d1 = dr_lease_counter d" "dr_streams d1 = dr_streams d"
    and free: "sid = Some s \<Longrightarrow> tp_driver_find_stream d1 s = None" for s
    using a assms(3) allocate_spec [of d] by (auto split: if_splits)
  have ok1: "driver_ok d1" "grows d d1" using assms(2) a1 by (simp_all add: driver_ok_def stream_keys_def grows_def)
  have add: "driver_ok d2 \<and> grows d d2" if "tp_driver_add_stream h s profile d1 = (ok, d2)" "sid = Some s" for s profile ok d2
  proof (cases ok)
    case True
    have keys: "stream_keys d2 = stream_keys d1 @ [(s, Some profile, 0, 0)]" "dr_leases d2 = dr_leases d1"
      "dr_lease_counter d2 = dr_lease_counter d1" "grows d d2"
      using that(1) True a1 by (auto simp: tp_driver_add_stream_def ask_def stream_keys_def stream_key_def grows_def split: if_splits)
    have "s = 0 \<or> s \<notin> fst ` set (stream_keys d1)" using free [OF that(2)] by (simp add: find_stream_None)
    then have "driver_ok d2"
      using leases_ok_new_stream [of "dr_leases d1" "dr_lease_counter d1" "stream_keys d1" s "Some profile" 0] ok1(1) keys
      by (simp add: driver_ok_def)
    with keys show ?thesis by simp
  next
    case False
    then show ?thesis
      using that(1) ok1 by (auto simp: tp_driver_add_stream_def ask_def driver_ok_def stream_keys_def grows_def split: if_splits)
  qed
  show ?thesis
    using assms(1) ok1 add unfolding create_stream_def a prod.case
    by (auto split: option.splits prod.splits if_splits dest!: find_stream_Some)
qed

lemma attach_stream_spec:
  assumes "attach_stream h request d = (r, d')" "driver_ok d"
  shows "driver_ok d' \<and> grows d d' \<and>
    (\<forall>i. r = Inr i \<longrightarrow> i < length (dr_streams d') \<and> ss_stream_id (dr_streams d' ! i) \<noteq> 0 \<and>
      ss_profile (dr_streams d' ! i) \<noteq> None \<and>
      (ar_role request = Some PRODUCER \<longrightarrow> ss_producer_lease_id (dr_streams d' ! i) = 0))"
proof -
  obtain q d1 where f: "find_or_create_stream h request d = (q, d1)" by (cases "find_or_create_stream h request d")
  have spec: "driver_ok d1 \<and> grows d d1 \<and>
      (\<forall>i. q = Inr (Some i) \<longrightarrow> i < length (dr_streams d1) \<and> ss_stream_id (dr_streams d1 ! i) \<noteq> 0)"
    using f assms(2) create_stream_spec
    by (auto simp: find_or_create_stream_def grows_refl dest!: find_stream_Some split: option.splits if_splits)
  show ?thesis
    using assms(1) spec unfolding attach_stream_def f prod.case
    by (auto split: sum.splits option.splits if_splits)
qed

lemma quiet_pages: "attach_pages h request d = (r, d') \<Longrightarrow> quiet d d' \<and> dr_streams d' = dr_streams d"
  by (auto simp: attach_pages_def tp_driver_is_hugepages_dir_def ask_def Let_def quiet_refl quiet_calls
      split: option.splits if_splits prod.splits)

lemma attach_node_id_spec:
  assumes "attach_node_id h request d = (r, d')"
  shows "quiet d d' \<and> dr_streams d' = dr_streams d \<and>
    (r = None \<longrightarrow> ar_desired_node_id request \<noteq> TP_NULL_U32 \<longrightarrow> ar_desired_node_id request \<notin> le_node_id ` set (dr_leases d))"
proof -
  have prune: "quiet d (d\<lparr>dr_calls := c, dr_cooldowns := x\<rparr>)" for c x by (simp add: quiet_def stream_keys_def)
  show ?thesis
    using assms prune
    by (auto simp: attach_node_id_def ask_def tp_driver_node_id_in_cooldown_def tp_driver_prune_node_id_cooldowns_def Let_def
        tp_driver_node_id_in_use_def list_ex_iff quiet_refl quiet_calls split: if_splits)
qed

lemma quiet_attach_epoch: "attach_epoch K h role i flag d = (r, d') \<Longrightarrow> quiet d d'"
proof -
  assume a: "attach_epoch K h role i flag d = (r, d')"
  let ?d1 = "upd_stream i (\<lambda>s. s\<lparr>ss_require_hugepages := flag\<rparr>) (tp_driver_bump_epoch h i d)"
  have q: "quiet d ?d1" by (rule quiet_trans [OF quiet_bump quiet_upd]) (simp add: stream_key_def)
  obtain x d2 where c: "tp_driver_create_shm_epoch K h i ?d1 = (x, d2)" by (cases "tp_driver_create_shm_epoch K h i ?d1")
  have "quiet d d2" using quiet_trans [OF q quiet_create_epoch [of ?d1 K h i]] c by simp
  then show ?thesis using a c by (auto simp: attach_epoch_def quiet_refl split: if_splits sum.splits)
qed

lemma attach_lease_spec:
  assumes a: "attach_lease h request role i now d = (r, d')" and ok: "driver_ok d" and c: "unat (dr_lease_counter d) < 2 ^ 64 - 1"
    and i: "i < length (dr_streams d)" "ss_stream_id (dr_streams d ! i) \<noteq> 0"
    and free: "role = PRODUCER \<Longrightarrow> ss_producer_lease_id (dr_streams d ! i) = 0"
    and client: "ar_client_id request \<noteq> 0" "ar_client_id request \<notin> le_client_id ` set (dr_leases d)"
    and node: "ar_desired_node_id request \<noteq> TP_NULL_U32 \<Longrightarrow> ar_desired_node_id request \<notin> le_node_id ` set (dr_leases d)"
  shows "driver_ok d' \<and> unat (dr_lease_counter d') \<le> max (unat (dr_lease_counter d)) (2 ^ 63 - 1) + 1 \<and>
    (case r of Inl _ \<Rightarrow> dr_leases d' = dr_leases d
     | Inr lease \<Rightarrow> dr_leases d' = dr_leases d @ [lease] \<and> dr_lease_counter d < le_lease_id lease \<and>
         le_client_id lease = ar_client_id request \<and> le_role lease = role \<and> le_stream_id lease = ss_stream_id (dr_streams d ! i) \<and>
         le_issued_ns lease = now \<and> le_expiry_ns lease = lease_expiry (dr_config d) now) \<and>
    (\<forall>j. ss_epoch (dr_streams d' ! j) = ss_epoch (dr_streams d ! j) \<and> ss_stream_id (dr_streams d' ! j) = ss_stream_id (dr_streams d ! j)) \<and>
    length (dr_streams d') = length (dr_streams d)"
proof -
  obtain lease_id d1 where l: "tp_driver_next_lease_id h d = (lease_id, d1)" by (cases "tp_driver_next_lease_id h d")
  note n = next_lease_id_spec [OF l c]
  let ?node = "if ar_desired_node_id request \<noteq> TP_NULL_U32 then (ar_desired_node_id request, d1) else tp_driver_next_node_id h d1"
  obtain node_id d2 where nd: "?node = (node_id, d2)" by (cases ?node)
  have c1: "dr_lease_counter d1 \<noteq> 0" using n(4,5) by auto
  have q: "quiet d1 d2" "dr_streams d2 = dr_streams d" and fresh: "node_id \<noteq> TP_NULL_U32 \<Longrightarrow> node_id \<notin> le_node_id ` set (dr_leases d)"
    using nd next_node_id_spec [OF _ c1] node n(1,2) by (auto simp: quiet_refl split: if_splits)
  have same: "dr_leases d2 = dr_leases d" "dr_lease_counter d2 = lease_id" "dr_config d2 = dr_config d" "stream_keys d2 = stream_keys d"
    using q n(1,3,4) by (simp_all add: quiet_def stream_keys_def)
  have ok2: "driver_ok d2"
    using leases_ok_counter [OF ok [unfolded driver_ok_def], of lease_id] n(5) same by (simp add: driver_ok_def)
  let ?lease = "\<lparr>le_lease_id = lease_id, le_expiry_ns = lease_expiry (dr_config d2) now, le_issued_ns = now,
      le_stream_id = ss_stream_id (dr_streams d2 ! i), le_client_id = ar_client_id request, le_node_id = node_id, le_role = role\<rparr>"
  obtain added d3 where ad: "tp_driver_add_lease h ?lease d2 = (added, d3)" by (cases "tp_driver_add_lease h ?lease d2")
  have d3: "dr_streams d3 = dr_streams d" "dr_lease_counter d3 = lease_id" "stream_keys d3 = stream_keys d"
    "dr_leases d3 = (if added then dr_leases d @ [?lease] else dr_leases d)"
    using ad same q(2) by (auto simp: tp_driver_add_lease_def ask_def stream_keys_def split: if_splits)
  let ?upd = "upd_stream i (\<lambda>s. s\<lparr>ss_producer_lease_id := lease_id, ss_producer_client_id := ar_client_id request\<rparr>) d3"
  have keys: "stream_keys ?upd = (stream_keys d)[i := (fst (stream_keys d ! i), fst (snd (stream_keys d ! i)), lease_id, ar_client_id request)]"
    using i(1) d3(1) by (simp add: stream_keys_def upd_stream_def map_update stream_key_def)
  have key: "i < length (stream_keys d)" "fst (stream_keys d ! i) = le_stream_id ?lease"
    "fst (snd (snd (stream_keys d ! i))) = ss_producer_lease_id (dr_streams d ! i)"
    using i(1) q(2) by (simp_all add: stream_keys_def stream_key_def)
  have add_ok: "driver_ok (if role = PRODUCER then ?upd else d3)" if "added" "node_id \<noteq> TP_NULL_U32"
    using leases_ok_add [OF ok [unfolded driver_ok_def] key(1,2), simplified, folded driver_ok_def] that n(5) i(2) q(2) client fresh free key(3)
      keys d3 by (auto simp: driver_ok_def upd_stream_def)
  have kept: "driver_ok d3" if "\<not> added" using that ok2 d3 same by (simp add: driver_ok_def)
  note step = a [unfolded attach_lease_def l prod.case nd Let_def ad]
  have epochs: "ss_epoch (dr_streams ?upd ! j) = ss_epoch (dr_streams d ! j)" "ss_stream_id (dr_streams ?upd ! j) = ss_stream_id (dr_streams d ! j)"
    "length (dr_streams ?upd) = length (dr_streams d)" for j
    using d3(1) i(1) by (simp_all add: upd_stream_def nth_list_update)
  have upd: "dr_leases ?upd = dr_leases d3" "dr_lease_counter ?upd = lease_id" using d3(2) by (simp_all add: upd_stream_def)
  show ?thesis
    using step ok2 kept add_ok n(5,6) same d3 q(2) upd epochs
    by (auto split: if_splits)
qed

lemma epochs_nth: "i < length (dr_streams d) \<Longrightarrow> epochs d ! i = ss_epoch (dr_streams d ! i)"
  by (simp add: epochs_def)

definition bumped :: "u64 \<Rightarrow> u64 \<Rightarrow> u64" where
  "bumped now e = (if now \<le> e then e + 1 else now)"

lemma bumped_increases: "e \<noteq> - 1 \<Longrightarrow> e < bumped now e"
  by (simp add: bumped_def word_less_plus_1 not_le)

lemma attach_epoch_epochs:
  assumes "attach_epoch K h role i flag d = (r, d')" "i < length (dr_streams d)"
  shows "\<exists>now. epochs d' = (if role = PRODUCER \<or> epochs d ! i = 0 then (epochs d)[i := bumped now (epochs d ! i)] else epochs d)"
proof -
  let ?now = "hs_clock h (dr_calls d)"
  let ?d1 = "upd_stream i (\<lambda>s. s\<lparr>ss_require_hugepages := flag\<rparr>) (tp_driver_bump_epoch h i d)"
  have e1: "epochs ?d1 = (epochs d)[i := bumped ?now (epochs d ! i)]"
    using assms(2) by (simp add: epochs_def tp_driver_bump_epoch_def ask_def upd_stream_def map_update bumped_def)
  have e2: "epochs (snd (tp_driver_create_shm_epoch K h i ?d1)) = epochs ?d1" by (rule epochly.create_epoch)
  show ?thesis
  proof (cases "role = PRODUCER \<or> epochs d ! i = 0")
    case True
    then have "d' = snd (tp_driver_create_shm_epoch K h i ?d1)"
      using assms by (auto simp: attach_epoch_def epochs_nth split: if_splits sum.splits prod.splits)
    then show ?thesis using e1 e2 True by auto
  next
    case False
    then show ?thesis using assms by (auto simp: attach_epoch_def epochs_nth)
  qed
qed

lemma attach_admit_spec:
  assumes a: "attach_admit h request d = (r, d')" and ok: "driver_ok d"
  shows "driver_ok d' \<and> grows d d' \<and>
    (case r of Inl _ \<Rightarrow> True
     | Inr (i, flag, now) \<Rightarrow> i < length (dr_streams d') \<and> ss_stream_id (dr_streams d' ! i) \<noteq> 0 \<and>
         ss_profile (dr_streams d' ! i) \<noteq> None \<and> ar_role request \<noteq> None \<and>
         (ar_role request = Some PRODUCER \<longrightarrow> ss_producer_lease_id (dr_streams d' ! i) = 0) \<and>
         ar_client_id request \<noteq> 0 \<and> ar_client_id request \<notin> le_client_id ` set (dr_leases d) \<and>
         (ar_desired_node_id request \<noteq> TP_NULL_U32 \<longrightarrow> ar_desired_node_id request \<notin> le_node_id ` set (dr_leases d)))"
proof (cases "check_attach request d")
  case (Some x)
  then show ?thesis using a ok by (auto simp: attach_admit_def grows_def)
next
  case None
  then have req: "ar_role request \<noteq> None" "ar_client_id request \<noteq> 0" "ar_client_id request \<notin> le_client_id ` set (dr_leases d)"
    by (auto simp: check_attach_def tp_driver_client_id_in_use_def list_ex_iff split: if_splits)
  obtain q1 d1 where s1: "attach_stream h request d = (q1, d1)" by (cases "attach_stream h request d")
  obtain q2 d2 where s2: "attach_pages h request d1 = (q2, d2)" by (cases "attach_pages h request d1")
  obtain q3 d3 where s3: "attach_node_id h request d2 = (q3, d3)" by (cases "attach_node_id h request d2")
  let ?d4 = "d3\<lparr>dr_calls := Suc (dr_calls d3)\<rparr>"
  note st = attach_stream_spec [OF s1 ok]
  have q: "quiet d1 d2" "quiet d1 d3" "quiet d1 ?d4" "dr_streams d2 = dr_streams d1" "dr_streams d3 = dr_streams d1"
    using quiet_pages [OF s2] attach_node_id_spec [OF s3] by (auto intro: quiet_trans quiet_trans [OF _ quiet_calls])
  have ok': "driver_ok d2" "driver_ok d3" "driver_ok ?d4"
    using st quiet_ok [OF q(1)] quiet_ok [OF q(2)] quiet_ok [OF q(3)] by simp_all
  have g: "grows d d1" "grows d d2" "grows d d3" "grows d ?d4" using st q by (simp_all add: grows_def quiet_def)
  have leases: "dr_leases d2 = dr_leases d" using g(2) by (simp add: grows_def)
  show ?thesis
    using a None st ok' g q(4,5) req attach_node_id_spec [OF s3] leases
    unfolding attach_admit_def None option.case s1 prod.case s2 s3 ask_def
    by (auto split: sum.splits option.splits)
qed

lemma epochs_grows:
  assumes "grows d d'" "i < length (dr_streams d)"
  shows "i < length (dr_streams d')" "dr_streams d' ! i = dr_streams d ! i"
  using assms by (auto simp: grows_def nth_append)

text \<open>Every outcome of an attach request up to its response.\<close>

lemma attach_decide_spec:
  assumes a: "attach_decide K h request d = (r, d')" and ok: "driver_ok d" and c: "unat (dr_lease_counter d) < 2 ^ 64 - 1"
  shows "driver_ok d' \<and> unat (dr_lease_counter d') \<le> max (unat (dr_lease_counter d)) (2 ^ 63 - 1) + 1 \<and>
    (case r of Inl _ \<Rightarrow> dr_leases d' = dr_leases d
     | Inr (i, flag, lease) \<Rightarrow> i < length (dr_streams d') \<and> dr_leases d' = dr_leases d @ [lease] \<and>
         dr_lease_counter d < le_lease_id lease \<and> le_client_id lease = ar_client_id request \<and>
         Some (le_role lease) = ar_role request \<and> le_stream_id lease = ss_stream_id (dr_streams d' ! i) \<and>
         (le_role lease = PRODUCER \<longrightarrow> i < length (dr_streams d) \<longrightarrow> ss_epoch (dr_streams d ! i) \<noteq> - 1 \<longrightarrow>
           ss_epoch (dr_streams d ! i) < ss_epoch (dr_streams d' ! i)))"
proof -
  obtain q1 d1 where s1: "attach_admit h request d = (q1, d1)" by (cases "attach_admit h request d")
  note ad = attach_admit_spec [OF s1 ok]
  have base: "dr_leases d1 = dr_leases d" "dr_lease_counter d1 = dr_lease_counter d" using ad by (simp_all add: grows_def)
  show ?thesis
  proof (cases q1)
    case (Inl x)
    then show ?thesis using a s1 ad base by (auto simp: attach_decide_def)
  next
    case (Inr y)
    obtain i flag now where y: "q1 = Inr (i, flag, now)" using Inr by (cases y) auto
    obtain role where role: "ar_role request = Some role" using ad y by auto
    obtain q2 d2 where s2: "attach_epoch K h role i flag d1 = (q2, d2)" by (cases "attach_epoch K h role i flag d1")
    have q: "quiet d1 d2" by (rule quiet_attach_epoch [OF s2])
    have key: "map stream_key (dr_streams d2) = map stream_key (dr_streams d1)" using q by (simp add: quiet_def stream_keys_def)
    have len: "length (dr_streams d2) = length (dr_streams d1)" using arg_cong [OF key, of length] by simp
    have i: "i < length (dr_streams d1)" using ad y by simp
    have "stream_key (dr_streams d2 ! i) = stream_key (dr_streams d1 ! i)"
      using key i len by (metis nth_map)
    then have same: "ss_stream_id (dr_streams d2 ! i) = ss_stream_id (dr_streams d1 ! i)"
      "ss_producer_lease_id (dr_streams d2 ! i) = ss_producer_lease_id (dr_streams d1 ! i)" by (simp_all add: stream_key_def)
    have d2: "driver_ok d2" "dr_leases d2 = dr_leases d" "dr_lease_counter d2 = dr_lease_counter d"
      using quiet_ok [OF q] conjunct1 [OF ad] q [unfolded quiet_def] base by simp_all
    obtain q3 d3 where s3: "attach_lease h request role i now d2 = (q3, d3)" by (cases "attach_lease h request role i now d2")
    have c2: "unat (dr_lease_counter d2) < 2 ^ 64 - 1" and i2: "i < length (dr_streams d2)" "ss_stream_id (dr_streams d2 ! i) \<noteq> 0"
      using c d2(3) i len same(1) ad y by simp_all
    have free: "role = PRODUCER \<Longrightarrow> ss_producer_lease_id (dr_streams d2 ! i) = 0" using ad y role same(2) by simp
    have client: "ar_client_id request \<noteq> 0" "ar_client_id request \<notin> le_client_id ` set (dr_leases d2)"
      using ad y d2(2) by simp_all
    have node: "ar_desired_node_id request \<noteq> TP_NULL_U32 \<Longrightarrow> ar_desired_node_id request \<notin> le_node_id ` set (dr_leases d2)"
      using ad y d2(2) by simp
    note lease = attach_lease_spec [OF s3 d2(1) c2 i2 free client node, unfolded d2]
    obtain clock where ep: "epochs d2 = (if role = PRODUCER \<or> epochs d1 ! i = 0 then (epochs d1)[i := bumped clock (epochs d1 ! i)] else epochs d1)"
      using attach_epoch_epochs [OF s2 i] by blast
    have grown: "ss_epoch (dr_streams d ! i) < ss_epoch (dr_streams d2 ! i)"
      if "role = PRODUCER" "i < length (dr_streams d)" "ss_epoch (dr_streams d ! i) \<noteq> - 1"
    proof -
      have "epochs d1 ! i = ss_epoch (dr_streams d ! i)"
        using epochs_grows [of d d1 i] ad that(2) i by (simp add: epochs_nth)
      moreover have "epochs d2 ! i = bumped clock (epochs d1 ! i)" using ep that(1) i by (simp add: epochs_def)
      ultimately show ?thesis
        using bumped_increases [OF that(3), of clock] i len by (simp add: epochs_nth [of i d2])
    qed
    show ?thesis
    proof (cases q2)
      case (Some x)
      then have "r = Inl x \<and> d' = d2"
        using a by (simp add: attach_decide_def s1 y attach_grant_def role s2)
      then show ?thesis using d2 by simp
    next
      case None
      have r: "(r, d') = (case q3 of Inl x \<Rightarrow> (Inl x, d3) | Inr lease \<Rightarrow> (Inr (i, flag, lease), d3))"
        using a by (simp add: attach_decide_def s1 y attach_grant_def role s2 None s3)
      show ?thesis
      proof (cases q3)
        case (Inl x)
        then show ?thesis using r lease by simp
      next
        case (Inr l)
        then show ?thesis using r lease grown i2(1) role by simp
      qed
    qed
  qed
qed

lemma handle_attach_cases:
  assumes "tp_driver_handle_attach K h request d = (n, d')"
  obtains q d1 where "attach_decide K h request d = (q, d1)" "quiet d1 d'" "epochs d' = epochs d1"
proof -
  obtain q d1 where q: "attach_decide K h request d = (q, d1)" by (cases "attach_decide K h request d")
  have error: "quiet d1 (snd (send_attach_error h c code msg d1)) \<and> epochs (snd (send_attach_error h c code msg d1)) = epochs d1" for c code msg
    by (simp add: send_attach_error_def quiet_send epochs_send)
  have ok: "quiet d2 (snd (send_attach_ok h c st l flag d2)) \<and> epochs (snd (send_attach_ok h c st l flag d2)) = epochs d2" for c st l flag d2
    by (auto simp: send_attach_ok_def quiet_send epochs_send quiet_refl split: sum.splits)
  have "quiet d1 d' \<and> epochs d' = epochs d1"
  proof (cases q)
    case (Inl e)
    obtain code msg where e: "e = (code, msg)" by (cases e)
    then show ?thesis
      using assms error [of "ar_correlation_id request" code msg] by (simp add: tp_driver_handle_attach_def q Inl)
  next
    case (Inr x)
    obtain i flag lease where x: "x = (i, flag, lease)" by (cases x)
    let ?d2 = "snd (tp_driver_send_announce h i flag d1)"
    have d': "d' = snd (send_attach_ok h (ar_correlation_id request) (dr_streams ?d2 ! i) lease flag ?d2)"
      using assms by (simp add: tp_driver_handle_attach_def q Inr x Let_def)
    show ?thesis
      unfolding d' using ok quiet_announce [of d1 h i flag] epochs_announce [of h i flag d1] by (auto intro: quiet_trans)
  qed
  then show ?thesis using that q by blast
qed

section \<open>Every run keeps the invariant\<close>

lemma end_lease_counter: "dr_lease_counter (end_lease h index stream now d) = dr_lease_counter d"
proof -
  have "dr_lease_counter (tp_driver_release_producer stream lease d') = dr_lease_counter d'" for lease d'
    by (auto simp: tp_driver_release_producer_def upd_stream_def split: option.splits)
  then show ?thesis
    using quiet_cooldown by (auto simp: end_lease_def Let_def tp_driver_remove_lease_def quiet_def)
qed

lemma expire_lease_counter: "dr_lease_counter (expire_lease K h now index d) = dr_lease_counter d"
proof -
  have q: "quiet d d' \<Longrightarrow> dr_lease_counter d' = dr_lease_counter d" for d d' by (simp add: quiet_def)
  show ?thesis
    by (auto simp: expire_lease_def Let_def end_lease_counter q [OF quiet_renew] q [OF quiet_revoked] split: option.splits)
qed

lemma expire_loop_counter: "dr_lease_counter (expire_loop K h now i d) = dr_lease_counter d"
proof (induction K h now i d rule: expire_loop.induct)
  case (1 K h now i d)
  show ?case using 1 by (subst expire_loop.simps) (simp add: expire_lease_counter)
qed

lemma quiet_announce_due: "quiet d (announce_due h d)"
proof -
  have one: "quiet d (announce_stream h i d)" for i d
    by (simp add: announce_stream_def quiet_refl quiet_announce)
  have all: "quiet d (fold (announce_stream h) is d)" for d "is"
    by (induction "is" arbitrary: d) (auto simp: quiet_refl intro: quiet_trans [OF one])
  have "quiet d (d\<lparr>dr_next_announce_ns := t\<rparr>)" for d t by (simp add: quiet_def stream_keys_def)
  then show ?thesis
    by (auto simp: announce_due_def ask_def Let_def intro: quiet_calls quiet_trans [OF quiet_trans [OF quiet_calls all]])
qed

lemma driver_step_ok:
  assumes ok: "driver_ok d" and c: "unat (dr_lease_counter d) < 2 ^ 63 + n" and n: "n < 2 ^ 63 - 1"
  shows "driver_ok (driver_step K h e d) \<and> unat (dr_lease_counter (driver_step K h e d)) < 2 ^ 63 + Suc n"
proof (cases e)
  case (Request request)
  show ?thesis
  proof (cases request)
    case (Attach req)
    obtain r d' where r: "tp_driver_handle_attach K h req d = (r, d')" by (cases "tp_driver_handle_attach K h req d")
    obtain q d1 where q: "attach_decide K h req d = (q, d1)" "quiet d1 d'"
      by (rule handle_attach_cases [OF r])
    have "unat (dr_lease_counter d) < 2 ^ 64 - 1" using c n by simp
    note spec = attach_decide_spec [OF q(1) ok this]
    have "unat (dr_lease_counter d1) \<le> max (unat (dr_lease_counter d)) (2 ^ 63 - 1) + 1" using spec by simp
    then have "unat (dr_lease_counter d1) < 2 ^ 63 + Suc n" using c by (simp add: max_def split: if_splits)
    then show ?thesis using Request Attach r q(2) spec quiet_ok [OF q(2)] by (simp add: quiet_def)
  next
    case (Detach req)
    obtain r d' where r: "tp_driver_handle_detach K h req d = (r, d')" by (cases "tp_driver_handle_detach K h req d")
    have "dr_lease_counter d' = dr_lease_counter d"
      using r
    proof (cases rule: handle_detach_cases)
      case refused
      then show ?thesis by (simp add: quiet_def)
    next
      case (detached index d1 now d2)
      then show ?thesis by (simp add: quiet_def end_lease_counter)
    qed
    then show ?thesis using Request Detach r handle_detach_ok [OF ok r] c by simp
  next
    case (Keepalive req)
    have "dr_lease_counter (tp_driver_handle_keepalive h req d) = dr_lease_counter d"
      by (auto simp: tp_driver_handle_keepalive_def ask_def split: option.splits)
    then show ?thesis using Request Keepalive handle_keepalive_ok [OF ok] c by simp
  qed
next
  case Sweep
  have "driver_ok (d\<lparr>dr_calls := Suc (dr_calls d)\<rparr>)" using quiet_ok [OF quiet_calls] ok by simp
  then show ?thesis
    using Sweep c by (simp add: tp_driver_handle_expired_leases_def ask_def expire_loop_ok expire_loop_counter)
next
  case AnnounceDue
  then show ?thesis using ok c quiet_ok [OF quiet_announce_due] quiet_announce_due [of d h] by (simp add: quiet_def)
qed

lemma driver_run_invariant:
  "driver_ok d \<Longrightarrow> unat (dr_lease_counter d) < 2 ^ 63 + n \<Longrightarrow> n + length events < 2 ^ 63 \<Longrightarrow> driver_ok (driver_run K h events d)"
proof (induction events arbitrary: d n)
  case Nil
  then show ?case by (simp add: driver_run_def)
next
  case (Cons e events)
  have "driver_ok (driver_step K h e d) \<and> unat (dr_lease_counter (driver_step K h e d)) < 2 ^ 63 + Suc n"
    by (rule driver_step_ok [OF Cons.prems(1,2)]) (use Cons.prems(3) in simp)
  then show ?case using Cons.IH [of "driver_step K h e d" "Suc n"] Cons.prems(3) by (simp add: driver_run_def)
qed

lemma init_ok:
  assumes "tp_driver_init h config files = Inr d" "distinct (List.map sd_stream_id (cf_streams config))"
  shows "driver_ok d" "dr_lease_counter d = 0"
proof -
  have keys: "stream_keys d = List.map (\<lambda>def. (sd_stream_id def, sd_profile def, 0, 0)) (cf_streams config)"
    "dr_leases d = []" and c: "dr_lease_counter d = 0"
    using assms(1) by (auto simp: tp_driver_init_def Let_def guard_Inr stream_keys_def stream_key_def config_stream_def split: if_splits)
  have "unique_ids (stream_keys d)"
    using assms(2) unfolding keys unique_ids_def by (auto simp: distinct_conv_nth)
  then show "driver_ok d" using keys by (auto simp: driver_ok_def leases_ok_def producers_ok_def)
  show "dr_lease_counter d = 0" by (rule c)
qed

end
