(* ===== verification/Tp_Driver_Lifecycle.thy ===== *)
theory Tp_Driver_Lifecycle
  imports Tp_Driver_Leases
begin

text \<open>
  The life of a lease and of an epoch: what attach grants, what the expiry sweep and a detach take
  away, and when the epoch of a stream changes. The properties of the driver stand here.
\<close>

section \<open>Messages are only added\<close>

definition sent_more :: "driver \<Rightarrow> driver \<Rightarrow> bool" where
  "sent_more d d' \<longleftrightarrow> set (dr_sent d) \<subseteq> set (dr_sent d')"

interpretation sending: epoch_frame sent_more
  by unfold_locales (auto simp: sent_more_def touches_same upd_stream_def)

lemma sent_send: "sent_more d (snd (send_message h m d))" "sent_more d (snd (tp_driver_send_control h m d))"
  by (auto simp: send_message_def tp_driver_send_control_def ask_def sent_more_def)

lemma sent_revoked: "sent_more d (snd (tp_driver_send_lease_revoked h lease reason msg d))"
  by (auto simp: tp_driver_send_lease_revoked_def ask_def send_message_def tp_driver_send_control_def sent_more_def)

lemma sent_announce: "sent_more d (snd (tp_driver_send_announce h i flag d))"
  by (auto simp: tp_driver_send_announce_def ask_def Let_def tp_driver_send_control_def upd_stream_def sent_more_def split: sum.splits)

lemma sent_cooldown: "dr_sent (tp_driver_record_node_id_cooldown h node_id now d) = dr_sent d"
  by (auto simp: tp_driver_record_node_id_cooldown_def Let_def tp_driver_prune_node_id_cooldowns_def ask_def split: option.splits)

lemma sent_end_lease: "dr_sent (end_lease h index stream now d) = dr_sent d"
  by (auto simp: end_lease_def Let_def tp_driver_remove_lease_def tp_driver_release_producer_def upd_stream_def sent_cooldown
      split: option.splits)

lemma sent_renew: "sent_more d (renew_epoch K h i d)"
proof -
  have bump: "sent_more d (tp_driver_bump_epoch h i d)"
    by (simp add: tp_driver_bump_epoch_def ask_def upd_stream_def sent_more_def)
  obtain r d1 where c: "tp_driver_create_shm_epoch K h i (tp_driver_bump_epoch h i d) = (r, d1)"
    by (cases "tp_driver_create_shm_epoch K h i (tp_driver_bump_epoch h i d)")
  have s: "sent_more d d1"
    using sending.R_trans [OF bump sending.create_epoch [of "tp_driver_bump_epoch h i d" K h i]] c by simp
  show ?thesis
    using s sending.R_trans [OF s sent_announce] c by (cases r) (simp_all add: renew_epoch_def)
qed

section \<open>One expired lease\<close>

lemma end_lease_leases:
  assumes "index < length (dr_leases d)"
  shows "dr_leases (end_lease h index stream now d) = take index (dr_leases d) @ drop (Suc index) (dr_leases d)"
proof -
  have "dr_leases (tp_driver_release_producer stream lease d') = dr_leases d'" for lease d'
    by (auto simp: tp_driver_release_producer_def upd_stream_def split: option.splits)
  then show ?thesis
    using assms by (simp add: end_lease_def Let_def tp_driver_remove_lease_def quiet_leases [OF quiet_cooldown])
qed

lemma end_lease_epochs: "epochs (end_lease h index stream now d) = epochs d"
proof -
  have "epochs (tp_driver_record_node_id_cooldown h node_id now d) = epochs d" for node_id
    by (auto simp: tp_driver_record_node_id_cooldown_def Let_def tp_driver_prune_node_id_cooldowns_def ask_def epochs_def split: option.splits)
  moreover have "epochs (tp_driver_release_producer stream lease d') = epochs d'" for lease d'
  proof (cases stream)
    case (Some i)
    then show ?thesis
      by (cases "i < length (dr_streams d')")
        (simp_all add: tp_driver_release_producer_def epochs_def upd_stream_def map_update list_update_same_conv list_update_beyond)
  qed (simp add: tp_driver_release_producer_def)
  moreover have "epochs (tp_driver_remove_lease index d') = epochs d'" for d'
    by (simp add: tp_driver_remove_lease_def epochs_def)
  ultimately show ?thesis by (simp add: end_lease_def Let_def)
qed

lemma quiet_length: "quiet d d' \<Longrightarrow> length (dr_streams d') = length (dr_streams d)"
  unfolding quiet_def stream_keys_def by (elim conjE, drule map_eq_imp_length_eq) simp

lemma end_lease_released:
  assumes "stream = Some i" "i < length (dr_streams d)" "le_lease_id (dr_leases d ! index) \<noteq> 0"
  shows "ss_producer_lease_id (dr_streams (end_lease h index stream now d) ! i) \<noteq> le_lease_id (dr_leases d ! index)"
proof -
  define d1 where "d1 = tp_driver_record_node_id_cooldown h (le_node_id (dr_leases d ! index)) now d"
  have "length (dr_streams d1) = length (dr_streams d)"
    unfolding d1_def by (rule quiet_length [OF quiet_cooldown])
  then show ?thesis
    using assms by (simp add: end_lease_def Let_def d1_def [symmetric] tp_driver_release_producer_def tp_driver_remove_lease_def upd_stream_def)
qed

lemma end_lease_streams: "length (dr_streams (end_lease h index stream now d)) = length (dr_streams d)"
  using arg_cong [OF end_lease_epochs, of length] by (simp add: epochs_def)

lemma revoked_epochs: "epochs (snd (tp_driver_send_lease_revoked h lease reason msg d)) = epochs d"
  by (simp add: tp_driver_send_lease_revoked_def ask_def epochs_send) (simp add: epochs_def)

lemma renew_epochs:
  assumes "i < length (dr_streams d)"
  shows "epochs (renew_epoch K h i d) = (epochs d)[i := bumped (hs_clock h (dr_calls d)) (epochs d ! i)]"
proof -
  let ?d1 = "tp_driver_bump_epoch h i d"
  have bump: "epochs ?d1 = (epochs d)[i := bumped (hs_clock h (dr_calls d)) (epochs d ! i)]"
    using assms by (simp add: epochs_def tp_driver_bump_epoch_def ask_def upd_stream_def map_update bumped_def)
  obtain r d2 where c: "tp_driver_create_shm_epoch K h i ?d1 = (r, d2)" by (cases "tp_driver_create_shm_epoch K h i ?d1")
  have "epochs d2 = epochs ?d1" using epochly.create_epoch [of K h i ?d1] c by simp
  then show ?thesis using bump c by (cases r) (simp_all add: renew_epoch_def epochs_announce)
qed

text \<open>The stream of a lease at an index, and whether the sweep renews its epoch.\<close>

definition renews :: "driver \<Rightarrow> u64 \<Rightarrow> tp_driver_lease \<Rightarrow> nat \<Rightarrow> bool" where
  "renews d now lease i \<longleftrightarrow> lease_expired now lease \<and> le_role lease = PRODUCER \<and> tp_driver_find_stream d (le_stream_id lease) = Some i"

lemma expire_lease_spec:
  assumes "index < length (dr_leases d)"
  shows "dr_leases (expire_lease K h now index d) = take index (dr_leases d) @ drop (Suc index) (dr_leases d)"
    "sent_more d (expire_lease K h now index d)"
    "\<forall>m. hs_encodes h m \<Longrightarrow> \<exists>t. LeaseRevoked t (le_lease_id (dr_leases d ! index)) (le_stream_id (dr_leases d ! index))
       (le_client_id (dr_leases d ! index)) (le_role (dr_leases d ! index)) EXPIRED ''lease expired'' \<in> set (dr_sent (expire_lease K h now index d))"
    "\<exists>n. epochs (expire_lease K h now index d) =
       (case tp_driver_find_stream d (le_stream_id (dr_leases d ! index)) of
          Some i \<Rightarrow> if le_role (dr_leases d ! index) = PRODUCER then (epochs d)[i := bumped (hs_clock h n) (epochs d ! i)] else epochs d
        | None \<Rightarrow> epochs d)"
proof -
  let ?l = "dr_leases d ! index"
  define stream where "stream = tp_driver_find_stream d (le_stream_id ?l)"
  define d1 where "d1 = snd (tp_driver_send_lease_revoked h ?l EXPIRED ''lease expired'' d)"
  define d2 where "d2 = end_lease h index stream now d1"
  have f1: "dr_leases d1 = dr_leases d" "epochs d1 = epochs d" "sent_more d d1"
    unfolding d1_def by (rule quiet_leases [OF quiet_revoked], rule revoked_epochs, rule sent_revoked)
  have f2: "dr_leases d2 = take index (dr_leases d) @ drop (Suc index) (dr_leases d)" "epochs d2 = epochs d" "dr_sent d2 = dr_sent d1"
    using end_lease_leases [of index d1] assms f1 by (simp_all add: d2_def end_lease_epochs sent_end_lease)
  have res: "expire_lease K h now index d =
      (case stream of None \<Rightarrow> d2 | Some i \<Rightarrow> if le_role ?l = PRODUCER then renew_epoch K h i d2 else d2)"
    unfolding expire_lease_def Let_def stream_def d1_def d2_def ..
  have base: "sent_more d1 d2" using f2(3) by (simp add: sent_more_def)
  have more: "sent_more d1 (expire_lease K h now index d)"
    unfolding res using base sending.R_trans [OF base sent_renew] by (simp split: option.splits)
  show "dr_leases (expire_lease K h now index d) = take index (dr_leases d) @ drop (Suc index) (dr_leases d)"
    unfolding res using f2(1) by (auto simp: quiet_leases [OF quiet_renew] split: option.splits)
  show "sent_more d (expire_lease K h now index d)" by (rule sending.R_trans [OF f1(3) more])
  have "\<exists>t. LeaseRevoked t (le_lease_id ?l) (le_stream_id ?l) (le_client_id ?l) (le_role ?l) EXPIRED ''lease expired'' \<in> set (dr_sent d1)"
    if "\<forall>m. hs_encodes h m"
    using that by (simp add: d1_def tp_driver_send_lease_revoked_def send_message_def tp_driver_send_control_def ask_def) blast
  then show "\<exists>t. LeaseRevoked t (le_lease_id ?l) (le_stream_id ?l) (le_client_id ?l) (le_role ?l) EXPIRED ''lease expired''
      \<in> set (dr_sent (expire_lease K h now index d))" if "\<forall>m. hs_encodes h m"
    using that more unfolding sent_more_def by blast
  have len: "length (dr_streams d2) = length (dr_streams d)" using arg_cong [OF f2(2), of length] by (simp add: epochs_def)
  have renew: "epochs (renew_epoch K h i d2) = (epochs d)[i := bumped (hs_clock h (dr_calls d2)) (epochs d ! i)]" if "stream = Some i" for i
    using renew_epochs [of i d2 K h] find_stream_Some [of d "le_stream_id ?l" i] that len f2(2) by (simp add: stream_def)
  show "\<exists>n. epochs (expire_lease K h now index d) =
       (case tp_driver_find_stream d (le_stream_id ?l) of
          Some i \<Rightarrow> if le_role ?l = PRODUCER then (epochs d)[i := bumped (hs_clock h n) (epochs d ! i)] else epochs d
        | None \<Rightarrow> epochs d)"
    unfolding res stream_def [symmetric] using f2(2) renew
    by (intro exI [of _ "dr_calls d2"]) (simp split: option.splits)
qed

section \<open>The sweep\<close>

lemma expire_loop_leases:
  "dr_leases (expire_loop K h now i d) = take i (dr_leases d) @ filter (\<lambda>l. \<not> lease_expired now l) (drop i (dr_leases d))"
proof (induction K h now i d rule: expire_loop.induct)
  case (1 K h now i d)
  show ?case
  proof (cases "i < length (dr_leases d)")
    case True
    then have drop: "drop i (dr_leases d) = dr_leases d ! i # drop (Suc i) (dr_leases d)" by (simp add: Cons_nth_drop_Suc)
    show ?thesis
    proof (cases "lease_expired now (dr_leases d ! i)")
      case exp: True
      have "dr_leases (expire_lease K h now i d) = take i (dr_leases d) @ drop (Suc i) (dr_leases d)"
        by (rule expire_lease_spec(1) [OF True])
      then show ?thesis
        using "1.IH"(1) [OF True exp] True exp drop by (subst expire_loop.simps) simp
    next
      case False
      then show ?thesis
        using "1.IH"(2) [OF True False] True drop by (subst expire_loop.simps) (simp add: take_Suc_conv_app_nth)
    qed
  next
    case False
    then show ?thesis by (subst expire_loop.simps) simp
  qed
qed

lemma expire_loop_sent:
  "sent_more d (expire_loop K h now i d) \<and>
   ((\<forall>m. hs_encodes h m) \<longrightarrow> (\<forall>l \<in> set (drop i (dr_leases d)). lease_expired now l \<longrightarrow>
     (\<exists>t. LeaseRevoked t (le_lease_id l) (le_stream_id l) (le_client_id l) (le_role l) EXPIRED ''lease expired''
        \<in> set (dr_sent (expire_loop K h now i d)))))"
proof (induction K h now i d rule: expire_loop.induct)
  case (1 K h now i d)
  show ?case
  proof (cases "i < length (dr_leases d)")
    case True
    then have drop: "set (drop i (dr_leases d)) = insert (dr_leases d ! i) (set (drop (Suc i) (dr_leases d)))"
      by (simp add: Cons_nth_drop_Suc [symmetric])
    show ?thesis
    proof (cases "lease_expired now (dr_leases d ! i)")
      case exp: True
      let ?d1 = "expire_lease K h now i d"
      have loop: "expire_loop K h now i d = expire_loop K h now i ?d1" using True exp by (subst expire_loop.simps) simp
      have rest: "drop i (dr_leases ?d1) = drop (Suc i) (dr_leases d)"
        using expire_lease_spec(1) [OF True, of K h now] True by simp
      note IH = "1.IH"(1) [OF True exp, unfolded rest]
      show ?thesis
        unfolding loop drop
        using IH sending.R_trans [OF expire_lease_spec(2) [OF True] conjunct1 [OF IH]] expire_lease_spec(3) [OF True, of h K now]
        unfolding sent_more_def by blast
    next
      case False
      have loop: "expire_loop K h now i d = expire_loop K h now (Suc i) d" using True False by (subst expire_loop.simps) simp
      show ?thesis unfolding loop drop using "1.IH"(2) [OF True False] False by blast
    qed
  next
    case False
    then show ?thesis by (subst expire_loop.simps, subst expire_loop.simps) (simp add: sending.R_refl)
  qed
qed

text \<open>
  Epochs never go back in a sweep, and the epoch of a stream that loses its producer goes up. The
  bound keeps the counters from wrapping: each expired lease adds at most one to an epoch.
\<close>

definition epochs_below :: "host \<Rightarrow> driver \<Rightarrow> nat \<Rightarrow> bool" where
  "epochs_below h d n \<longleftrightarrow> (\<forall>e \<in> set (epochs d). unat e + n < 2 ^ 64) \<and> (\<forall>c. unat (hs_clock h c) + n < 2 ^ 64)"

lemma bumped_bounds:
  assumes "unat e + Suc n < 2 ^ 64" "unat now + Suc n < 2 ^ 64"
  shows "e < bumped now e" "unat (bumped now e) + n < 2 ^ 64"
proof -
  have ne: "e \<noteq> - 1"
  proof
    assume "e = - 1"
    then have "unat e = 2 ^ 64 - 1" by (simp add: unsigned_minus_1_eq_mask mask_eq_exp_minus_1)
    then show False using assms(1) by simp
  qed
  show "e < bumped now e" by (rule bumped_increases [OF ne])
  have "unat (e + 1) = unat e + 1" using assms(1) by (simp add: unat_word_ariths)
  then show "unat (bumped now e) + n < 2 ^ 64" using assms by (simp add: bumped_def)
qed

definition ids :: "driver \<Rightarrow> u32 list" where
  "ids d = List.map ss_stream_id (dr_streams d)"

lemma find_stream_ids: "ids d' = ids d \<Longrightarrow> tp_driver_find_stream d' s = tp_driver_find_stream d s"
proof -
  assume "ids d' = ids d"
  moreover have "find_index (\<lambda>st. ss_stream_id st = s) xs = find_index ((=) s) (List.map ss_stream_id xs)" for xs
    by (induction xs) auto
  ultimately show ?thesis unfolding tp_driver_find_stream_def ids_def by metis
qed

lemma ids_quiet: "quiet d d' \<Longrightarrow> ids d' = ids d"
proof -
  assume "quiet d d'"
  moreover have "ids x = List.map fst (stream_keys x)" for x by (simp add: ids_def stream_keys_def stream_key_def)
  ultimately show ?thesis by (simp add: quiet_def)
qed

lemma ids_end_lease: "ids (end_lease h index stream now d) = ids d"
proof -
  have "ids (tp_driver_release_producer stream lease d') = ids d'" for lease d'
  proof (cases stream)
    case (Some i)
    then show ?thesis
      by (cases "i < length (dr_streams d')")
        (simp_all add: tp_driver_release_producer_def ids_def upd_stream_def map_update list_update_same_conv list_update_beyond)
  qed (simp add: tp_driver_release_producer_def)
  moreover have "ids (tp_driver_remove_lease index d') = ids d'" for d' by (simp add: tp_driver_remove_lease_def ids_def)
  ultimately show ?thesis by (simp add: end_lease_def Let_def ids_quiet [OF quiet_cooldown])
qed

lemma ids_expire_lease: "ids (expire_lease K h now index d) = ids d"
  by (auto simp: expire_lease_def Let_def ids_end_lease ids_quiet [OF quiet_revoked] ids_quiet [OF quiet_renew] split: option.splits)

lemma expire_lease_epochs:
  assumes index: "index < length (dr_leases d)" and exp: "lease_expired now (dr_leases d ! index)"
    and below: "epochs_below h d (Suc n)"
  shows "epochs_below h (expire_lease K h now index d) n" "length (epochs (expire_lease K h now index d)) = length (epochs d)"
    "j < length (epochs d) \<Longrightarrow> epochs d ! j \<le> epochs (expire_lease K h now index d) ! j"
    "j < length (epochs d) \<Longrightarrow> renews d now (dr_leases d ! index) j \<Longrightarrow> epochs d ! j < epochs (expire_lease K h now index d) ! j"
proof -
  let ?l = "dr_leases d ! index"
  obtain c where ep: "epochs (expire_lease K h now index d) =
       (case tp_driver_find_stream d (le_stream_id ?l) of
          Some i \<Rightarrow> if le_role ?l = PRODUCER then (epochs d)[i := bumped (hs_clock h c) (epochs d ! i)] else epochs d
        | None \<Rightarrow> epochs d)"
    using expire_lease_spec(4) [OF index] by blast
  have len: "i < length (epochs d)" if "tp_driver_find_stream d (le_stream_id ?l) = Some i" for i
    using find_stream_Some [OF that] by (simp add: epochs_def)
  have b: "epochs d ! i < bumped (hs_clock h c) (epochs d ! i)" "unat (bumped (hs_clock h c) (epochs d ! i)) + n < 2 ^ 64"
    if "i < length (epochs d)" for i
    using bumped_bounds [of "epochs d ! i" n "hs_clock h c"] below nth_mem [OF that] by (simp_all add: epochs_below_def)
  have weak: "epochs_below h d n" using below by (auto simp: epochs_below_def intro: Suc_lessD)
  have upd: "unat e + n < 2 ^ 64" if "e \<in> set ((epochs d)[i := bumped (hs_clock h c) (epochs d ! i)])" "i < length (epochs d)" for e i
    using that(1) set_update_subset_insert [of "epochs d" i] weak b(2) [OF that(2)] unfolding epochs_below_def by blast
  show "epochs_below h (expire_lease K h now index d) n"
    using weak upd len unfolding epochs_below_def ep by (auto split: option.splits if_splits)
  show "length (epochs (expire_lease K h now index d)) = length (epochs d)" unfolding ep by (simp split: option.splits)
  show "epochs d ! j \<le> epochs (expire_lease K h now index d) ! j" if "j < length (epochs d)"
    unfolding ep using b(1) len that by (auto simp: nth_list_update less_imp_le split: option.splits)
  show "epochs d ! j < epochs (expire_lease K h now index d) ! j" if "j < length (epochs d)" "renews d now ?l j"
    unfolding ep using b(1) that by (simp add: renews_def)
qed

lemma expire_loop_epochs:
  "epochs_below h d (length (dr_leases d) - i) \<Longrightarrow>
    length (epochs (expire_loop K h now i d)) = length (epochs d) \<and>
    (\<forall>j<length (epochs d). epochs d ! j \<le> epochs (expire_loop K h now i d) ! j \<and>
      ((\<exists>l \<in> set (drop i (dr_leases d)). renews d now l j) \<longrightarrow> epochs d ! j < epochs (expire_loop K h now i d) ! j))"
proof (induction K h now i d rule: expire_loop.induct)
  case (1 K h now i d)
  show ?case
  proof (cases "i < length (dr_leases d)")
    case True
    then have drop: "set (drop i (dr_leases d)) = insert (dr_leases d ! i) (set (drop (Suc i) (dr_leases d)))"
      by (simp add: Cons_nth_drop_Suc [symmetric])
    have Suc: "length (dr_leases d) - i = Suc (length (dr_leases d) - Suc i)" using True by simp
    show ?thesis
    proof (cases "lease_expired now (dr_leases d ! i)")
      case exp: True
      let ?d1 = "expire_lease K h now i d"
      have loop: "expire_loop K h now i d = expire_loop K h now i ?d1" using True exp by (subst expire_loop.simps) simp
      have l1: "dr_leases ?d1 = take i (dr_leases d) @ drop (Suc i) (dr_leases d)" by (rule expire_lease_spec(1) [OF True])
      have rest: "drop i (dr_leases ?d1) = drop (Suc i) (dr_leases d)" "length (dr_leases ?d1) - i = length (dr_leases d) - Suc i"
        using l1 True by simp_all
      note e = expire_lease_epochs [OF True exp "1.prems" [unfolded Suc], where K = K]
      have ren: "renews ?d1 now l j \<longleftrightarrow> renews d now l j" for l j
        by (simp add: renews_def find_stream_ids [OF ids_expire_lease])
      note IH = "1.IH"(1) [OF True exp, unfolded rest e(2) ren, OF e(1)]
      have step: "epochs d ! j \<le> epochs (expire_loop K h now i ?d1) ! j \<and>
          ((\<exists>l \<in> insert (dr_leases d ! i) (set (drop (Suc i) (dr_leases d))). renews d now l j) \<longrightarrow>
            epochs d ! j < epochs (expire_loop K h now i ?d1) ! j)" if j: "j < length (epochs d)" for j
      proof -
        have ih: "epochs ?d1 ! j \<le> epochs (expire_loop K h now i ?d1) ! j"
          "(\<exists>l \<in> set (drop (Suc i) (dr_leases d)). renews d now l j) \<Longrightarrow> epochs ?d1 ! j < epochs (expire_loop K h now i ?d1) ! j"
          using IH j by simp_all
        show ?thesis
          using order_trans [OF e(3) [OF j] ih(1)] order_less_le_trans [OF e(4) [OF j] ih(1)] order_le_less_trans [OF e(3) [OF j] ih(2)]
          by (simp only: bex_simps) blast
      qed
      show ?thesis unfolding loop drop using step IH by simp
    next
      case False
      have loop: "expire_loop K h now i d = expire_loop K h now (Suc i) d" using True False by (subst expire_loop.simps) simp
      have "epochs_below h d (length (dr_leases d) - Suc i)"
        using "1.prems" unfolding Suc by (auto simp: epochs_below_def intro: Suc_lessD)
      then show ?thesis unfolding loop drop using "1.IH"(2) [OF True False] False by (auto simp: renews_def)
    qed
  next
    case False
    then show ?thesis by (subst expire_loop.simps, subst expire_loop.simps, subst expire_loop.simps) simp
  qed
qed

section \<open>Sample requests\<close>

definition sample_attach :: attach_request where
  "sample_attach = \<lparr>ar_correlation_id = 1, ar_stream_id = 7, ar_client_id = 42, ar_role = Some PRODUCER,
     ar_expected_layout_version = 1, ar_publish_mode = Some EXISTING_OR_CREATE, ar_require_hugepages = Some HP_UNSPECIFIED,
     ar_desired_node_id = 9\<rparr>"

definition sample_lease :: tp_driver_lease where
  "sample_lease = \<lparr>le_lease_id = 5, le_expiry_ns = 900, le_issued_ns = 100, le_stream_id = 7, le_client_id = 42,
     le_node_id = 9, le_role = PRODUCER\<rparr>"

definition leased_driver :: driver where
  "leased_driver = sample_driver\<lparr>dr_leases := [sample_lease], dr_lease_capacity := 8, dr_lease_counter := 5,
     dr_streams := [sample_stream\<lparr>ss_producer_lease_id := 5, ss_producer_client_id := 42\<rparr>]\<rparr>"

lemma one_producer:
  assumes "leases_ok L c S" "l \<in> set L" "l' \<in> set L" "le_role l = PRODUCER" "le_role l' = PRODUCER"
    "le_stream_id l = le_stream_id l'"
  shows "l = l'"
proof -
  have "le_stream_id l \<in> fst ` set S" using assms(1,2) by (simp add: leases_ok_def lease_ok_def)
  then obtain s pf pl pc where k: "(s, pf, pl, pc) \<in> set S" "s = le_stream_id l" by auto
  have "pl = le_lease_id l" "pl = le_lease_id l'"
    using assms k by (auto simp: leases_ok_def producers_ok_def split_def) (metis fst_conv snd_conv)+
  then show ?thesis
    using assms(1,2,3) by (auto simp: leases_ok_def distinct_map dest: inj_onD)
qed

section \<open>Properties\<close>

text \<open>
  C14: whatever requests, expiry sweeps and announcements follow the start of a driver, the lease
  table stays consistent: lease ids, client ids and node ids are unique, every lease belongs to a
  stream, a stream names its producer lease and that lease exists, and so no stream ever has two
  producer leases. The number of events is below the number of lease ids that are left after the
  random seed of the counter.
\<close>

theorem driver_run_ok:
  assumes "tp_driver_init h config files = Inr d" "distinct (List.map sd_stream_id (cf_streams config))"
    "length events < 2 ^ 63 - 1"
  shows "driver_ok (driver_run K h events d) \<and>
    (\<forall>l \<in> set (dr_leases (driver_run K h events d)). \<forall>l' \<in> set (dr_leases (driver_run K h events d)).
       le_role l = PRODUCER \<and> le_role l' = PRODUCER \<and> le_stream_id l = le_stream_id l' \<longrightarrow> l = l')"
proof -
  note init = init_ok [OF assms(1,2)]
  have ok: "driver_ok (driver_run K h events d)"
    by (rule driver_run_invariant [OF init(1), of 1]) (use init(2) assms(3) in simp_all)
  show ?thesis using ok one_producer [OF ok [unfolded driver_ok_def]] by blast
qed

theorem driver_run_ok_witness:
  "\<exists>d. tp_driver_init sample_host sample_config Map.empty = Inr d \<and>
     driver_ok (driver_run le_superblock sample_host [Request (Attach sample_attach), Sweep] d)"
proof -
  obtain d where d: "tp_driver_init sample_host sample_config Map.empty = Inr d"
    by (simp add: tp_driver_init_def Let_def guard_def sample_host_def)
  have "distinct (List.map sd_stream_id (cf_streams sample_config))" by (simp add: sample_config_def)
  from driver_run_ok [OF d this, of "[Request (Attach sample_attach), Sweep]" le_superblock] d show ?thesis by simp
qed


lemmas attach_eval = attach_decide_def attach_admit_def check_attach_def tp_driver_client_id_in_use_def attach_stream_def
  find_or_create_stream_def tp_driver_find_stream_def attach_pages_def attach_node_id_def tp_driver_node_id_in_use_def
  tp_driver_node_id_in_cooldown_def ask_def Let_def tp_driver_should_require_hugepages_def attach_grant_def attach_epoch_def
  attach_lease_def tp_driver_next_lease_id_def seed_counter_def tp_driver_add_lease_def HP_UNSPECIFIED_def HP_STANDARD_def
  HP_HUGEPAGES_def CONSUMER_def PRODUCER_def TP_NULL_U32_def TP_LAYOUT_VERSION_def

lemmas sample_eval = sample_host_def sample_config_def sample_stream_def sample_driver_def sample_profile_def sample_attach_def
  sample_lease_def leased_driver_def


text \<open>
  C25: an expiry sweep removes exactly the leases that have expired at the clock reading of the
  sweep and keeps the others in order; it sends a revocation notice for each of them; no stream's
  epoch goes back, and a stream that loses its producer this way gets a higher epoch, so that its
  consumers remap.
\<close>

theorem expired_leases_swept:
  assumes "now = hs_clock h (dr_calls d)" "\<forall>m. hs_encodes h m" "epochs_below h d (length (dr_leases d))"
    "d' = tp_driver_handle_expired_leases K h d"
  shows "dr_leases d' = filter (\<lambda>l. \<not> lease_expired now l) (dr_leases d) \<and>
    (\<forall>l \<in> set (dr_leases d). lease_expired now l \<longrightarrow>
      (\<exists>t. LeaseRevoked t (le_lease_id l) (le_stream_id l) (le_client_id l) (le_role l) EXPIRED ''lease expired'' \<in> set (dr_sent d'))) \<and>
    (\<forall>i<length (epochs d). epochs d ! i \<le> epochs d' ! i) \<and>
    (\<forall>l \<in> set (dr_leases d). \<forall>i. lease_expired now l \<and> le_role l = PRODUCER \<and> tp_driver_find_stream d (le_stream_id l) = Some i
      \<longrightarrow> epochs d ! i < epochs d' ! i)"
proof -
  let ?d1 = "d\<lparr>dr_calls := Suc (dr_calls d)\<rparr>"
  have d': "d' = expire_loop K h now 0 ?d1" using assms(1,4) by (simp add: tp_driver_handle_expired_leases_def ask_def)
  have same: "epochs ?d1 = epochs d" "dr_leases ?d1 = dr_leases d" "\<And>s. tp_driver_find_stream ?d1 s = tp_driver_find_stream d s"
    by (simp_all add: epochs_def tp_driver_find_stream_def)
  have "epochs_below h ?d1 (length (dr_leases ?d1) - 0)" using assms(3) same(1) by (simp add: epochs_below_def)
  note ep = expire_loop_epochs [OF this, where K = K and now = now, folded d', unfolded same renews_def, simplified]
  have bound: "i < length (epochs d)" if "tp_driver_find_stream d s = Some i" for s i
    using find_stream_Some [OF that] by (simp add: epochs_def)
  have up: "epochs d ! i < epochs d' ! i"
    if "l \<in> set (dr_leases d)" "lease_expired now l \<and> le_role l = PRODUCER \<and> tp_driver_find_stream d (le_stream_id l) = Some i" for l i
    using ep bound that by blast
  have keep: "dr_leases d' = filter (\<lambda>l. \<not> lease_expired now l) (dr_leases d)"
    using expire_loop_leases [of K h now 0 ?d1, folded d', unfolded same] by simp
  show ?thesis
    using keep expire_loop_sent [of ?d1 K h now 0, folded d', unfolded same drop_0] assms(2) ep up
    by blast
qed

theorem expired_leases_swept_witness:
  "\<exists>d'. d' = tp_driver_handle_expired_leases le_superblock (sample_host\<lparr>hs_clock := \<lambda>_. 1000\<rparr>) leased_driver \<and>
     dr_leases d' = [] \<and> (20 :: u64) < epochs d' ! 0"
proof -
  let ?h = "sample_host\<lparr>hs_clock := \<lambda>_. 1000\<rparr>"
  have hyps: "1000 = hs_clock ?h (dr_calls leased_driver)" "\<forall>m. hs_encodes ?h m" "epochs_below ?h leased_driver (length (dr_leases leased_driver))"
    by (simp_all add: sample_eval epochs_below_def epochs_def)
  have exp: "lease_expired 1000 sample_lease" "le_role sample_lease = PRODUCER" "sample_lease \<in> set (dr_leases leased_driver)"
    "tp_driver_find_stream leased_driver (le_stream_id sample_lease) = Some 0" "epochs leased_driver ! 0 = 20"
    by (simp_all add: lease_expired_def tp_driver_find_stream_def sample_eval epochs_def)
  note swept = expired_leases_swept [OF hyps refl, of le_superblock]
  have "epochs leased_driver ! 0 < epochs (tp_driver_handle_expired_leases le_superblock ?h leased_driver) ! 0"
    using swept exp by blast
  moreover have "filter (\<lambda>l. \<not> lease_expired 1000 l) (dr_leases leased_driver) = []"
    using exp(1) by (simp add: leased_driver_def)
  ultimately show ?thesis using swept exp(5) by simp
qed

text \<open>
  A detach request that names its lease correctly ends the lease: it is removed, a stream that
  had it as its producer has none any more, and the notice and the answer are sent. The epoch of every
  stream stays as it was, also when the lease was the producer's.
\<close>

theorem detach_keeps_epochs:
  assumes "tp_driver_find_lease d (dt_lease_id request) = Some index" "le_stream_id (dr_leases d ! index) = dt_stream_id request"
    "le_client_id (dr_leases d ! index) = dt_client_id request" "dt_role request = Some (le_role (dr_leases d ! index))"
    "tp_driver_handle_detach K h request d = (r, d')" "\<forall>m. hs_encodes h m"
  shows "dr_leases d' = take index (dr_leases d) @ drop (Suc index) (dr_leases d) \<and> epochs d' = epochs d \<and>
    (\<forall>i. tp_driver_find_stream d (dt_stream_id request) = Some i \<longrightarrow> ss_producer_lease_id (dr_streams d' ! i) \<noteq> dt_lease_id request) \<and>
    DetachResponse (dt_correlation_id request) OK [] \<in> set (dr_sent d') \<and>
    (\<exists>t. LeaseRevoked t (dt_lease_id request) (dt_stream_id request) (dt_client_id request) (le_role (dr_leases d ! index))
       DETACHED ''lease detached'' \<in> set (dr_sent d'))"
proof -
  let ?l = "dr_leases d ! index"
  have l: "index < length (dr_leases d)" "le_lease_id ?l = dt_lease_id request" "dt_lease_id request \<noteq> 0"
    using find_lease_Some [OF assms(1)] by auto
  define stream where "stream = tp_driver_find_stream d (dt_stream_id request)"
  define d0 where "d0 = snd (tp_driver_send_lease_revoked h ?l DETACHED ''lease detached'' d)"
  define d1 where "d1 = d0\<lparr>dr_calls := Suc (dr_calls d0)\<rparr>"
  define d2 where "d2 = end_lease h index stream (hs_clock h (dr_calls d0)) d1"
  have "(r, d') = tp_driver_send_detach_response h (dt_correlation_id request) OK [] d2"
    using assms(1-5) by (simp add: tp_driver_handle_detach_def Let_def is_producer_false ask_def d0_def d1_def d2_def stream_def)
  then have d': "d' = snd (tp_driver_send_detach_response h (dt_correlation_id request) OK [] d2)" by (metis snd_conv)
  have sent0: "\<exists>t. LeaseRevoked t (dt_lease_id request) (dt_stream_id request) (dt_client_id request) (le_role ?l) DETACHED ''lease detached''
      \<in> set (dr_sent d0)"
    using assms(2,3,6) l(2) by (simp add: d0_def tp_driver_send_lease_revoked_def send_message_def tp_driver_send_control_def ask_def) blast
  have sent2: "dr_sent d2 = dr_sent d0" by (simp add: d2_def d1_def sent_end_lease)
  have resp: "dr_sent d' = DetachResponse (dt_correlation_id request) OK [] # dr_sent d2" "dr_streams d' = dr_streams d2" "dr_leases d' = dr_leases d2"
    using assms(6) by (simp_all add: d' tp_driver_send_detach_response_def send_message_def tp_driver_send_control_def ask_def)
  have q: "quiet d d1" unfolding d1_def d0_def by (rule quiet_trans [OF quiet_revoked quiet_calls])
  have "epochs d1 = epochs d" unfolding d1_def d0_def using revoked_epochs by (simp add: epochs_def)
  moreover have "epochs d' = epochs d2" using resp(2) by (simp add: epochs_def)
  ultimately have ep: "epochs d' = epochs d" by (simp add: d2_def end_lease_epochs)
  have leases: "dr_leases d' = take index (dr_leases d) @ drop (Suc index) (dr_leases d)"
    using end_lease_leases [of index d1 h stream] quiet_leases [OF q] l(1) resp(3) by (simp add: d2_def)
  have len: "length (dr_streams d1) = length (dr_streams d)" by (rule quiet_length [OF q])
  have released: "ss_producer_lease_id (dr_streams d' ! i) \<noteq> dt_lease_id request" if "tp_driver_find_stream d (dt_stream_id request) = Some i" for i
  proof -
    have "stream = Some i" "i < length (dr_streams d1)" "le_lease_id (dr_leases d1 ! index) \<noteq> 0"
      using find_stream_Some [OF that] that len quiet_leases [OF q] l by (simp_all add: stream_def)
    from end_lease_released [OF this] show ?thesis
      unfolding resp(2) d2_def using quiet_leases [OF q] l(2) by simp
  qed
  have notice: "\<exists>t. LeaseRevoked t (dt_lease_id request) (dt_stream_id request) (dt_client_id request) (le_role ?l)
      DETACHED ''lease detached'' \<in> set (dr_sent d')"
    using sent0 sent2 resp(1) by simp
  show ?thesis using leases ep released notice resp(1) by simp
qed

end
