(* ===== verification/Tp_Mpsc.thy ===== *)
theory Tp_Mpsc
  imports Tp_Prelude
begin

text \<open>
  The command queue of the client conductor (src/src/common/tp_mpsc_queue.c): a bounded ring whose
  slots carry a sequence number that says who may use them next. \<open>offer\<close> and \<open>poll\<close> are
  given as the atomic steps of a thread, so that any number of threads can be interleaved; a call
  that runs alone is the iteration of its steps. The copy of an item is one step per byte.
\<close>

section \<open>State\<close>

text \<open>\<open>size_t\<close> is 64 bits wide. A slot is its sequence number and its data.\<close>

type_synonym tp_mpsc_slot = "u64 \<times> bytes"

record tp_mpsc_queue =
  mq_slots :: "tp_mpsc_slot list option"
  mq_capacity :: u64
  mq_mask :: u64
  mq_item_size :: u64
  mq_head :: u64
  mq_tail :: u64

definition is_power_of_two :: "u64 \<Rightarrow> bool" where
  "is_power_of_two v \<longleftrightarrow> v \<noteq> 0 \<and> v AND (v - 1) = 0"

definition tp_mpsc_queue_init :: "u64 \<Rightarrow> tp_mpsc_queue res" where
  "tp_mpsc_queue_init capacity =
     guard (capacity = 0 \<or> \<not> is_power_of_two capacity) (EINVAL ''tp_mpsc_queue_init: invalid input'')
       (Inr \<lparr>mq_slots = None, mq_capacity = capacity, mq_mask = capacity - 1, mq_item_size = 0, mq_head = 0, mq_tail = 0\<rparr>)"

text \<open>
  \<open>sizeof(tp_mpsc_slot_t)\<close> is 8; \<open>calloc\<close> may refuse, and zeroes the data. A size that
  wraps gives a buffer that is too small for the slots, so that their initialisation is undefined.
\<close>

definition tp_mpsc_queue_alloc_slots :: "bool \<Rightarrow> tp_mpsc_queue \<Rightarrow> u64 \<Rightarrow> tp_mpsc_queue res" where
  "tp_mpsc_queue_alloc_slots alloc_ok queue item_size =
     guard (item_size = 0) (EINVAL ''tp_mpsc_queue_alloc_slots: invalid item size'')
    (guard (\<not> alloc_ok) (ENOMEM ''tp_mpsc_queue_alloc_slots: alloc failed'')
    (guard (unat (mq_capacity queue) * (8 + unat item_size) \<ge> 2 ^ 64) (UB ''total_size'')
       (Inr (queue\<lparr>mq_slots := Some (List.map (\<lambda>i. (of_nat i, replicate (unat item_size) 0)) [0..<unat (mq_capacity queue)]),
          mq_item_size := item_size\<rparr>))))"

definition tp_mpsc_queue_close :: "tp_mpsc_queue \<Rightarrow> tp_mpsc_queue" where
  "tp_mpsc_queue_close queue = queue\<lparr>mq_slots := None, mq_item_size := 0, mq_capacity := 0, mq_mask := 0\<rparr>"

definition tp_mpsc_slot_at :: "tp_mpsc_queue \<Rightarrow> u64 \<Rightarrow> tp_mpsc_slot" where
  "tp_mpsc_slot_at queue pos = the (mq_slots queue) ! unat (pos AND mq_mask queue)"

definition put_slot :: "u64 \<Rightarrow> tp_mpsc_slot \<Rightarrow> tp_mpsc_queue \<Rightarrow> tp_mpsc_queue" where
  "put_slot pos slot queue = queue\<lparr>mq_slots := Some ((the (mq_slots queue))[unat (pos AND mq_mask queue) := slot])\<rparr>"

section \<open>Calls as atomic steps\<close>

text \<open>
  Where a thread is: before the load of the cursor, before the load of the slot's sequence, before
  the compare-and-swap, in the copy, or back from its call. A call of \<open>offer\<close> carries its item,
  the copy of \<open>poll\<close> the bytes it has read.
\<close>

datatype mpsc_result = Accepted | Polled bytes | Empty | Error tp_error

datatype mpsc_pc =
    OfferLoad bytes | OfferCheck bytes u64 | OfferCas bytes u64 | OfferCopy bytes u64 nat
  | PollLoad | PollCheck u64 | PollCas u64 | PollCopy u64 bytes
  | Returned mpsc_result

text \<open>
  One step. \<open>cas\<close> says whether a compare-and-swap that finds the expected value succeeds; the
  weak form may fail. A failing one leaves the current value of the cursor in \<open>pos\<close>.
\<close>

fun mpsc_step :: "bool \<Rightarrow> tp_mpsc_queue \<Rightarrow> mpsc_pc \<Rightarrow> tp_mpsc_queue \<times> mpsc_pc" where
  "mpsc_step cas q (OfferLoad item) = (q, OfferCheck item (mq_tail q))"
| "mpsc_step cas q (OfferCheck item pos) =
     (let diff = sint (fst (tp_mpsc_slot_at q pos)) - sint pos
      in (q, if \<not> in_int64 diff then Returned (Error (UB ''diff''))
             else if diff = 0 then OfferCas item pos
             else if diff < 0 then Returned (Error (EAGAIN ''tp_mpsc_queue_offer: queue full''))
             else OfferLoad item))"
| "mpsc_step cas q (OfferCas item pos) =
     (if mq_tail q = pos \<and> cas then (q\<lparr>mq_tail := pos + 1\<rparr>, OfferCopy item pos 0) else (q, OfferCheck item (mq_tail q)))"
| "mpsc_step cas q (OfferCopy item pos k) =
     (case tp_mpsc_slot_at q pos of
        (seq, data) \<Rightarrow>
          if k < unat (mq_item_size q) then (put_slot pos (seq, data[k := item ! k]) q, OfferCopy item pos (Suc k))
          else (put_slot pos (pos + 1, data) q, Returned Accepted))"
| "mpsc_step cas q PollLoad = (q, PollCheck (mq_head q))"
| "mpsc_step cas q (PollCheck pos) =
     (let diff = sint (fst (tp_mpsc_slot_at q pos)) - sint (pos + 1)
      in (q, if \<not> in_int64 diff then Returned (Error (UB ''diff''))
             else if diff = 0 then PollCas pos
             else if diff < 0 then Returned Empty
             else PollLoad))"
| "mpsc_step cas q (PollCas pos) =
     (if mq_head q = pos \<and> cas then (q\<lparr>mq_head := pos + 1\<rparr>, PollCopy pos []) else (q, PollCheck (mq_head q)))"
| "mpsc_step cas q (PollCopy pos out) =
     (case tp_mpsc_slot_at q pos of
        (seq, data) \<Rightarrow>
          if length out < unat (mq_item_size q) then (q, PollCopy pos (out @ [data ! length out]))
          else (put_slot pos (pos + mq_mask q + 1, data) q, Returned (Polled out)))"
| "mpsc_step cas q (Returned r) = (q, Returned r)"

text \<open>The checks before the loops; the first \<open>offer\<close> allocates the slots.\<close>

definition offer_enter :: "bool \<Rightarrow> tp_mpsc_queue \<Rightarrow> bytes \<Rightarrow> (tp_mpsc_queue \<times> mpsc_pc)" where
  "offer_enter alloc_ok queue item =
     (case (if mq_slots queue = None then tp_mpsc_queue_alloc_slots alloc_ok queue (of_nat (length item)) else Inr queue) of
        Inl e \<Rightarrow> (queue, Returned (Error e))
      | Inr queue \<Rightarrow>
          (queue, if length item \<noteq> unat (mq_item_size queue)
                  then Returned (Error (EINVAL ''tp_mpsc_queue_offer: item size mismatch'')) else OfferLoad item))"

definition poll_enter :: "tp_mpsc_queue \<Rightarrow> u64 \<Rightarrow> mpsc_pc" where
  "poll_enter queue item_size =
     (if mq_slots queue = None then Returned (Error (EINVAL ''tp_mpsc_queue_poll: invalid input''))
      else if item_size \<noteq> mq_item_size queue then Returned (Error (EINVAL ''tp_mpsc_queue_poll: item size mismatch''))
      else PollLoad)"

text \<open>
  A call that no other thread disturbs: an element of the list per step, \<open>None\<close> when the call
  has not returned after them.
\<close>

fun mpsc_run :: "bool list \<Rightarrow> tp_mpsc_queue \<times> mpsc_pc \<Rightarrow> (tp_mpsc_queue \<times> mpsc_result) option" where
  "mpsc_run cas (q, Returned r) = Some (q, r)"
| "mpsc_run [] (q, pc) = None"
| "mpsc_run (c # cas) (q, pc) = mpsc_run cas (mpsc_step c q pc)"

definition tp_mpsc_queue_offer :: "bool list \<Rightarrow> bool \<Rightarrow> tp_mpsc_queue \<Rightarrow> bytes \<Rightarrow> (tp_mpsc_queue \<times> mpsc_result) option" where
  "tp_mpsc_queue_offer cas alloc_ok queue item = mpsc_run cas (offer_enter alloc_ok queue item)"

definition tp_mpsc_queue_poll :: "bool list \<Rightarrow> tp_mpsc_queue \<Rightarrow> u64 \<Rightarrow> (tp_mpsc_queue \<times> mpsc_result) option" where
  "tp_mpsc_queue_poll cas queue item_size = mpsc_run cas (queue, poll_enter queue item_size)"

section \<open>Threads\<close>

text \<open>
  Any number of threads on a queue whose slots have been allocated. \<open>ms_offered\<close> are the items in
  the order in which \<open>offer\<close> claimed their positions, \<open>ms_polled\<close> the positions and items in
  the order in which \<open>poll\<close> returned them.
\<close>

record mpsc_state =
  ms_queue :: tp_mpsc_queue
  ms_thread :: "nat \<Rightarrow> mpsc_pc"
  ms_offered :: "bytes list"
  ms_polled :: "(nat \<times> bytes) list"

definition new_offers :: "mpsc_pc \<Rightarrow> mpsc_pc \<Rightarrow> bytes list" where
  "new_offers pc pc' = (case (pc, pc') of (OfferCas item pos, OfferCopy _ _ _) \<Rightarrow> [item] | _ \<Rightarrow> [])"

definition new_polls :: "mpsc_pc \<Rightarrow> mpsc_pc \<Rightarrow> (nat \<times> bytes) list" where
  "new_polls pc pc' = (case (pc, pc') of (PollCopy pos _, Returned (Polled out)) \<Rightarrow> [(unat pos, out)] | _ \<Rightarrow> [])"

inductive mpsc_reach :: "tp_mpsc_queue \<Rightarrow> mpsc_state \<Rightarrow> bool" for q0 where
  mpsc_start: "mpsc_reach q0 \<lparr>ms_queue = q0, ms_thread = (\<lambda>_. Returned Empty), ms_offered = [], ms_polled = []\<rparr>"
| mpsc_offer: "mpsc_reach q0 st \<Longrightarrow> ms_thread st t = Returned r \<Longrightarrow>
    mpsc_reach q0 (st\<lparr>ms_thread := (ms_thread st)(t := snd (offer_enter True (ms_queue st) item))\<rparr>)"
| mpsc_poll: "mpsc_reach q0 st \<Longrightarrow> ms_thread st t = Returned r \<Longrightarrow>
    mpsc_reach q0 (st\<lparr>ms_thread := (ms_thread st)(t := poll_enter (ms_queue st) item_size)\<rparr>)"
| mpsc_next: "mpsc_reach q0 st \<Longrightarrow> mpsc_step cas (ms_queue st) (ms_thread st t) = (q', pc') \<Longrightarrow>
    mpsc_reach q0 (st\<lparr>ms_queue := q', ms_thread := (ms_thread st)(t := pc'),
      ms_offered := ms_offered st @ new_offers (ms_thread st t) pc',
      ms_polled := ms_polled st @ new_polls (ms_thread st t) pc'\<rparr>)"

section \<open>The slots\<close>

text \<open>
  The slots as natural numbers: \<open>v j\<close> is the sequence number and the data of slot \<open>j\<close> of
  \<open>N\<close>. \<open>H\<close> and \<open>T\<close> are the cursors and \<open>X\<close> the items offered so far. A slot is free
  for the position in its sequence number, or being filled for it, or holds the item of the position
  before its sequence number.
\<close>

definition slot_ok :: "nat \<Rightarrow> nat \<Rightarrow> nat \<Rightarrow> bytes list \<Rightarrow> nat \<Rightarrow> nat \<times> bytes \<Rightarrow> bool" where
  "slot_ok N H T X j slot \<longleftrightarrow>
     (fst slot mod N = j \<and> (T \<le> fst slot \<and> fst slot < H + N \<or> H \<le> fst slot \<and> fst slot < T)) \<or>
     (\<exists>p. fst slot = Suc p \<and> p mod N = j \<and> p < T \<and> T \<le> p + N \<and> snd slot = X ! p)"

definition slots_ok :: "nat \<Rightarrow> nat \<Rightarrow> nat \<Rightarrow> bytes list \<Rightarrow> (nat \<Rightarrow> nat \<times> bytes) \<Rightarrow> bool" where
  "slots_ok N H T X v \<longleftrightarrow> (\<forall>j<N. slot_ok N H T X j (v j))"

text \<open>What a thread knows at each point of its call. \<open>Z\<close> is the size of an item.\<close>

fun pc_ok :: "nat \<Rightarrow> nat \<Rightarrow> nat \<Rightarrow> nat \<Rightarrow> bytes list \<Rightarrow> (nat \<Rightarrow> nat \<times> bytes) \<Rightarrow> mpsc_pc \<Rightarrow> bool" where
  "pc_ok N Z H T X v (OfferLoad item) \<longleftrightarrow> length item = Z"
| "pc_ok N Z H T X v (OfferCheck item pos) \<longleftrightarrow> length item = Z \<and> unat pos \<le> T"
| "pc_ok N Z H T X v (OfferCas item pos) \<longleftrightarrow> length item = Z \<and> unat pos \<le> T \<and> (unat pos = T \<longrightarrow> fst (v (T mod N)) = T)"
| "pc_ok N Z H T X v (OfferCopy item pos k) \<longleftrightarrow> unat pos < T \<and> H \<le> unat pos \<and> fst (v (unat pos mod N)) = unat pos \<and>
     X ! unat pos = item \<and> length item = Z \<and> k \<le> Z \<and> take k (snd (v (unat pos mod N))) = take k item"
| "pc_ok N Z H T X v PollLoad \<longleftrightarrow> True"
| "pc_ok N Z H T X v (PollCheck pos) \<longleftrightarrow> unat pos \<le> H"
| "pc_ok N Z H T X v (PollCas pos) \<longleftrightarrow> unat pos \<le> H \<and> (unat pos = H \<longrightarrow> fst (v (H mod N)) = Suc H)"
| "pc_ok N Z H T X v (PollCopy pos out) \<longleftrightarrow> unat pos < H \<and> fst (v (unat pos mod N)) = Suc (unat pos) \<and>
     length out \<le> Z \<and> out = take (length out) (X ! unat pos)"
| "pc_ok N Z H T X v (Returned r) \<longleftrightarrow> r \<noteq> Error (UB ''diff'')"

text \<open>The position that a thread has claimed and not released.\<close>

fun owned :: "mpsc_pc \<Rightarrow> (bool \<times> nat) option" where
  "owned (OfferCopy item pos k) = Some (True, unat pos)"
| "owned (PollCopy pos out) = Some (False, unat pos)"
| "owned _ = None"

lemma Suc_mod_neq: "2 \<le> N \<Longrightarrow> Suc p mod N \<noteq> p mod N"
  by (metis Suc_n_not_le_n diff_self_eq_0 mod_Suc n_not_Suc_n not_less_eq_eq numeral_2_eq_2)

lemma slot_cases:
  assumes "slot_ok N H T X j slot"
  obtains (idle) "fst slot mod N = j" "T \<le> fst slot \<and> fst slot < H + N \<or> H \<le> fst slot \<and> fst slot < T"
    | (full) p where "fst slot = Suc p" "p mod N = j" "p < T" "T \<le> p + N" "snd slot = X ! p"
  using assms unfolding slot_ok_def by blast

lemma slot_at_ok: "slots_ok N H T X v \<Longrightarrow> 2 \<le> N \<Longrightarrow> slot_ok N H T X (p mod N) (v (p mod N))"
  by (simp add: slots_ok_def)

lemma slots_writing:
  assumes "slots_ok N H T X v" "2 \<le> N" "fst (v (p mod N)) = p"
  shows "T \<le> p \<and> p < H + N \<or> H \<le> p \<and> p < T"
  using slot_at_ok [OF assms(1,2), of p] assms(3) Suc_mod_neq [OF assms(2)] unfolding slot_ok_def by metis

lemma slots_full:
  assumes "slots_ok N H T X v" "2 \<le> N" "fst (v (p mod N)) = Suc p"
  shows "p < T \<and> T \<le> p + N \<and> snd (v (p mod N)) = X ! p"
  using slot_at_ok [OF assms(1,2), of p] assms(3) Suc_mod_neq [OF assms(2)] unfolding slot_ok_def
  by (metis nat.inject)

section \<open>The effects of a step on the slots and on the other threads\<close>

text \<open>A position is claimed for writing.\<close>

lemma claim_write:
  assumes "slots_ok N H T X v" "2 \<le> N" "fst (v (T mod N)) = T" "T = length X" "H \<le> T"
  shows "slots_ok N H (Suc T) (X @ [item]) v" "T < H + N"
proof -
  show T: "T < H + N" using slots_writing [OF assms(1-3)] by auto
  have other: "T \<noteq> p + N" if "fst (v (p mod N)) = Suc p" for p
    using that assms(3) Suc_mod_neq [OF assms(2), of p] by (metis mod_add_self2 n_not_Suc_n)
  show "slots_ok N H (Suc T) (X @ [item]) v"
    unfolding slots_ok_def
  proof (intro allI impI)
    fix j assume "j < N"
    with assms(1) have "slot_ok N H T X j (v j)" by (simp add: slots_ok_def)
    then show "slot_ok N H (Suc T) (X @ [item]) j (v j)"
    proof (cases rule: slot_cases)
      case (full p)
      with other [of p] assms(4) show ?thesis unfolding slot_ok_def by (intro disjI2 exI [of _ p]) (simp add: nth_append)
    next
      case idle
      then show ?thesis using assms(5) unfolding slot_ok_def by linarith
    qed
  qed
qed

lemma claim_write_pc: "pc_ok N Z H T X v pc \<Longrightarrow> T = length X \<Longrightarrow> H \<le> T \<Longrightarrow> pc_ok N Z H (Suc T) (X @ [item]) v pc"
  by (cases pc) (auto simp: nth_append)

text \<open>A byte is written into the slot of a claimed position.\<close>

lemma write_byte:
  assumes "slots_ok N H T X v" "2 \<le> N" "fst (v (p mod N)) = p" "H \<le> p" "p < T"
  shows "slots_ok N H T X (v(p mod N := (p, d)))"
  using assms by (auto simp: slots_ok_def slot_ok_def)

lemma write_byte_pc:
  assumes "pc_ok N Z H T X v pc" "fst (v (p mod N)) = p" "owned pc \<noteq> Some (True, p)"
  shows "pc_ok N Z H T X (v(p mod N := (p, d))) pc"
  using assms by (cases pc) (simp_all, metis+)

text \<open>The item of a claimed position is published.\<close>

lemma publish:
  assumes "slots_ok N H T X v" "2 \<le> N" "p < T" "T \<le> p + N"
  shows "slots_ok N H T X (v(p mod N := (Suc p, X ! p)))"
  using assms by (auto simp: slots_ok_def slot_ok_def)

lemma publish_pc:
  assumes "pc_ok N Z H T X v pc" "2 \<le> N" "fst (v (p mod N)) = p" "p < T" "owned pc \<noteq> Some (True, p)"
  shows "pc_ok N Z H T X (v(p mod N := (Suc p, d))) pc"
  using assms Suc_mod_neq [OF assms(2)] by (cases pc) (auto, (metis n_not_Suc_n)+)

text \<open>A position is claimed for reading.\<close>

lemma claim_read:
  assumes "slots_ok N H T X v" "2 \<le> N" "fst (v (H mod N)) = Suc H"
  shows "slots_ok N (Suc H) T X v" "H < T"
proof -
  show "H < T" using slots_full [OF assms] by simp
  show "slots_ok N (Suc H) T X v"
    unfolding slots_ok_def
  proof (intro allI impI)
    fix j assume "j < N"
    with assms(1) have "slot_ok N H T X j (v j)" by (simp add: slots_ok_def)
    then show "slot_ok N (Suc H) T X j (v j)"
    proof (cases rule: slot_cases)
      case (full p)
      then show ?thesis unfolding slot_ok_def by (intro disjI2 exI [of _ p]) simp
    next
      case idle
      then have "fst (v j) \<noteq> H" using assms(3) by auto
      then show ?thesis using idle unfolding slot_ok_def by linarith
    qed
  qed
qed

lemma claim_read_pc:
  assumes "pc_ok N Z H T X v pc" "fst (v (H mod N)) = Suc H"
  shows "pc_ok N Z (Suc H) T X v pc"
  using assms by (cases pc) (auto simp: Suc_le_eq order_le_less)

text \<open>A slot is given back for the position one round later.\<close>

lemma release:
  assumes "slots_ok N H T X v" "2 \<le> N" "p < H" "T \<le> p + N"
  shows "slots_ok N H T X (v(p mod N := (p + N, d)))"
  using assms by (auto simp: slots_ok_def slot_ok_def)

lemma release_pc:
  assumes "pc_ok N Z H T X v pc" "2 \<le> N" "fst (v (p mod N)) = Suc p" "p < H" "owned pc \<noteq> Some (False, p)"
  shows "pc_ok N Z H T X (v(p mod N := (p + N, d))) pc"
  using assms Suc_mod_neq [OF assms(2)] by (cases pc) (auto, (metis n_not_Suc_n)+)

section \<open>Words and slots\<close>

definition shape :: "tp_mpsc_queue \<Rightarrow> bool" where
  "shape q \<longleftrightarrow> 2 \<le> unat (mq_capacity q) \<and> is_power_of_two (mq_capacity q) \<and> mq_mask q = mq_capacity q - 1 \<and>
     (\<exists>slots. mq_slots q = Some slots \<and> length slots = unat (mq_capacity q) \<and>
        (\<forall>slot \<in> set slots. length (snd slot) = unat (mq_item_size q)))"

definition view :: "tp_mpsc_queue \<Rightarrow> nat \<Rightarrow> nat \<times> bytes" where
  "view q j = (unat (fst (the (mq_slots q) ! j)), snd (the (mq_slots q) ! j))"

lemma slot_index: "shape q \<Longrightarrow> unat (pos AND mq_mask q) = unat pos mod unat (mq_capacity q)"
  by (auto simp: shape_def is_power_of_two_def unat_and_pred)

lemma slot_view:
  assumes "shape q"
  shows "tp_mpsc_slot_at q pos = (of_nat (fst (view q (unat pos mod unat (mq_capacity q)))), snd (view q (unat pos mod unat (mq_capacity q))))"
  by (simp add: tp_mpsc_slot_at_def slot_index [OF assms] view_def)

lemma length_view:
  assumes "shape q"
  shows "length (snd (view q (p mod unat (mq_capacity q)))) = unat (mq_item_size q)"
  using assms mod_less_divisor [of "unat (mq_capacity q)" p] by (auto simp: shape_def view_def)

lemma view_put:
  assumes "shape q"
  shows "view (put_slot pos (s, d) q) = (view q)(unat pos mod unat (mq_capacity q) := (unat s, d))"
proof
  fix j
  have "unat pos mod unat (mq_capacity q) < length (the (mq_slots q))" using assms by (auto simp: shape_def)
  then show "view (put_slot pos (s, d) q) j = ((view q)(unat pos mod unat (mq_capacity q) := (unat s, d))) j"
    using slot_index [OF assms, of pos] by (simp add: view_def put_slot_def nth_list_update)
qed

lemma shape_put:
  assumes "shape q" "length d = unat (mq_item_size q)"
  shows "shape (put_slot pos (s, d) q)"
  using assms set_update_subset_insert [of "the (mq_slots q)" _ "(s, d)"]
  by (fastforce simp: shape_def put_slot_def dest!: subsetD [OF set_update_subset_insert])

lemma put_slot_fields [simp]:
  "mq_capacity (put_slot pos s q) = mq_capacity q" "mq_mask (put_slot pos s q) = mq_mask q"
  "mq_item_size (put_slot pos s q) = mq_item_size q" "mq_head (put_slot pos s q) = mq_head q"
  "mq_tail (put_slot pos s q) = mq_tail q"
  by (simp_all add: put_slot_def)

lemma shape_cursor [simp]:
  "shape (q\<lparr>mq_head := h\<rparr>) = shape q" "shape (q\<lparr>mq_tail := h\<rparr>) = shape q"
  "view (q\<lparr>mq_head := h\<rparr>) = view q" "view (q\<lparr>mq_tail := h\<rparr>) = view q"
  by (simp_all add: shape_def view_def fun_eq_iff)

lemma shape_capacity: "shape q \<Longrightarrow> 2 \<le> unat (mq_capacity q)"
  by (simp add: shape_def)

lemma view_bound:
  assumes "slots_ok N H T X v" "2 \<le> N" "H \<le> T"
  shows "fst (v (p mod N)) \<le> T + N"
  using slot_at_ok [OF assms(1,2), of p] assms(3) by (auto simp: slot_ok_def)

text \<open>Below \<open>2 ^ 63\<close> the signed difference of two positions is exact.\<close>

lemma sint_small: "unat (w :: u64) < 2 ^ 63 \<Longrightarrow> sint w = int (unat w)"
  by (metis of_nat_less_iff of_nat_numeral of_nat_power sint_u64_small uint_nat)

lemma unat_plus_small: "unat (w :: u64) + n < 2 ^ 63 \<Longrightarrow> unat (w + of_nat n) = unat w + n"
  by (simp add: unat_of_nat unat_word_ariths)

lemma unat_Suc_small: "unat (w :: u64) < 2 ^ 63 \<Longrightarrow> unat (w + 1) = Suc (unat w)"
  by (simp add: unat_word_ariths)

section \<open>The invariant\<close>

definition core_ok :: "tp_mpsc_queue \<Rightarrow> bytes list \<Rightarrow> bool" where
  "core_ok q X \<longleftrightarrow> shape q \<and> unat (mq_tail q) = length X \<and> unat (mq_head q) \<le> length X \<and>
     length X \<le> unat (mq_head q) + unat (mq_capacity q) \<and> (\<forall>x \<in> set X. length x = unat (mq_item_size q)) \<and>
     slots_ok (unat (mq_capacity q)) (unat (mq_head q)) (length X) X (view q)"

definition at_pc :: "tp_mpsc_queue \<Rightarrow> bytes list \<Rightarrow> mpsc_pc \<Rightarrow> bool" where
  "at_pc q X pc \<longleftrightarrow>
     pc_ok (unat (mq_capacity q)) (unat (mq_item_size q)) (unat (mq_head q)) (length X) X (view q) pc"

definition owners_ok :: "(nat \<Rightarrow> mpsc_pc) \<Rightarrow> bool" where
  "owners_ok thr \<longleftrightarrow> (\<forall>t t' a. owned (thr t) = Some a \<and> owned (thr t') = Some a \<longrightarrow> t = t')"

definition polled_ok :: "nat \<Rightarrow> bytes list \<Rightarrow> (nat \<Rightarrow> mpsc_pc) \<Rightarrow> (nat \<times> bytes) list \<Rightarrow> bool" where
  "polled_ok H X thr polled \<longleftrightarrow> distinct (List.map fst polled) \<and>
     (\<forall>(p, x) \<in> set polled. p < H \<and> x = X ! p \<and> (\<forall>t. owned (thr t) \<noteq> Some (False, p))) \<and>
     (\<forall>p<H. p \<in> fst ` set polled \<or> (\<exists>t. owned (thr t) = Some (False, p)))"

definition mpsc_ok :: "mpsc_state \<Rightarrow> bool" where
  "mpsc_ok st \<longleftrightarrow> core_ok (ms_queue st) (ms_offered st) \<and> (\<forall>t. at_pc (ms_queue st) (ms_offered st) (ms_thread st t)) \<and>
     owners_ok (ms_thread st) \<and> polled_ok (unat (mq_head (ms_queue st))) (ms_offered st) (ms_thread st) (ms_polled st)"

lemma owners_same: "owners_ok thr \<Longrightarrow> owned (thr t) = owned pc \<Longrightarrow> owners_ok (thr(t := pc))"
  unfolding owners_ok_def by (metis fun_upd_apply)

lemma owners_drop: "owners_ok thr \<Longrightarrow> owned pc = None \<Longrightarrow> owners_ok (thr(t := pc))"
  unfolding owners_ok_def by (metis fun_upd_apply option.distinct(1))

lemma owners_take: "owners_ok thr \<Longrightarrow> \<forall>t'. t' \<noteq> t \<longrightarrow> owned (thr t') \<noteq> owned pc \<Longrightarrow> owners_ok (thr(t := pc))"
  unfolding owners_ok_def by (metis fun_upd_apply)

lemma polled_same:
  assumes "polled_ok H X thr polled" "\<And>p. owned (thr t) = Some (False, p) \<longleftrightarrow> owned pc = Some (False, p)"
  shows "polled_ok H X (thr(t := pc)) polled"
proof -
  have "owned ((thr(t := pc)) t') = Some (False, p) \<longleftrightarrow> owned (thr t') = Some (False, p)" for t' p
    using assms(2) by simp
  then show ?thesis using assms(1) unfolding polled_ok_def by (simp del: fun_upd_apply)
qed

lemma polled_longer: "polled_ok H X thr polled \<Longrightarrow> H \<le> length X \<Longrightarrow> polled_ok H (X @ [item]) thr polled"
  by (auto simp: polled_ok_def nth_append)

text \<open>A step that changes nothing but its own thread.\<close>

lemma local_step:
  assumes "mpsc_ok st" "at_pc (ms_queue st) (ms_offered st) pc" "owned pc = owned (ms_thread st t)"
  shows "mpsc_ok (st\<lparr>ms_thread := (ms_thread st)(t := pc)\<rparr>)"
  using assms owners_same [of "ms_thread st" t pc] polled_same [of _ _ "ms_thread st" _ t pc]
  unfolding mpsc_ok_def by simp

text \<open>The five steps that change the queue.\<close>

lemma offer_claims:
  assumes "mpsc_ok st" "ms_thread st t = OfferCas item pos" "mq_tail (ms_queue st) = pos"
    "length (ms_offered st) < 2 ^ 63"
  shows "mpsc_ok (st\<lparr>ms_queue := (ms_queue st)\<lparr>mq_tail := pos + 1\<rparr>, ms_thread := (ms_thread st)(t := OfferCopy item pos 0),
    ms_offered := ms_offered st @ [item]\<rparr>)"
proof -
  let ?q = "ms_queue st" and ?X = "ms_offered st" and ?thr = "ms_thread st"
  let ?N = "unat (mq_capacity ?q)" and ?H = "unat (mq_head ?q)" and ?T = "length ?X"
  have core: "core_ok ?q ?X" and pcs: "\<And>t. at_pc ?q ?X (?thr t)" and own: "owners_ok ?thr"
    and pol: "polled_ok ?H ?X ?thr (ms_polled st)" using assms(1) by (simp_all add: mpsc_ok_def)
  have c: "shape ?q" "unat (mq_tail ?q) = ?T" "?H \<le> ?T" "slots_ok ?N ?H ?T ?X (view ?q)"
    "\<forall>x \<in> set ?X. length x = unat (mq_item_size ?q)" using core by (simp_all add: core_ok_def)
  have pos: "unat pos = ?T" using c(2) assms(3) by simp
  have here: "length item = unat (mq_item_size ?q)" "fst (view ?q (?T mod ?N)) = ?T"
    using pcs [of t] pos by (simp_all add: at_pc_def assms(2))
  note cw = claim_write [OF c(4) shape_capacity [OF c(1)] here(2) refl c(3)]
  have "core_ok (?q\<lparr>mq_tail := pos + 1\<rparr>) (?X @ [item])"
    unfolding core_ok_def using c cw here unat_Suc_small [of pos] pos assms(4) by simp
  moreover have "at_pc (?q\<lparr>mq_tail := pos + 1\<rparr>) (?X @ [item]) (?thr t')" for t'
    using claim_write_pc [OF pcs [of t', unfolded at_pc_def] refl c(3), of item] by (simp add: at_pc_def)
  moreover have "at_pc (?q\<lparr>mq_tail := pos + 1\<rparr>) (?X @ [item]) (OfferCopy item pos 0)"
    using here pos c(3) by (simp add: at_pc_def)
  moreover have "owners_ok (?thr(t := OfferCopy item pos 0))"
  proof (rule owners_take [OF own], intro allI impI)
    fix t' assume "t' \<noteq> t"
    show "owned (?thr t') \<noteq> owned (OfferCopy item pos 0)"
      using pcs [of t'] pos by (cases "?thr t'") (auto simp: at_pc_def)
  qed
  moreover have "polled_ok ?H (?X @ [item]) (?thr(t := OfferCopy item pos 0)) (ms_polled st)"
    by (rule polled_same [OF polled_longer [OF pol c(3)]]) (simp add: assms(2))
  ultimately show ?thesis by (simp add: mpsc_ok_def)
qed

lemma put_core:
  assumes "core_ok q X" "length d = unat (mq_item_size q)"
    "slots_ok (unat (mq_capacity q)) (unat (mq_head q)) (length X) X ((view q)(unat pos mod unat (mq_capacity q) := (unat w, d)))"
  shows "core_ok (put_slot pos (w, d) q) X"
  using assms by (simp add: core_ok_def shape_put view_put)

lemma offer_copies:
  assumes "mpsc_ok st" "ms_thread st t = OfferCopy item pos k" "k < unat (mq_item_size (ms_queue st))"
    "tp_mpsc_slot_at (ms_queue st) pos = (seq, data)"
  shows "mpsc_ok (st\<lparr>ms_queue := put_slot pos (seq, data[k := item ! k]) (ms_queue st),
    ms_thread := (ms_thread st)(t := OfferCopy item pos (Suc k))\<rparr>)"
proof -
  let ?q = "ms_queue st" and ?X = "ms_offered st" and ?thr = "ms_thread st" and ?d = "data[k := item ! k]" and ?p = "unat pos"
  have core: "core_ok ?q ?X" and pcs: "\<And>t. at_pc ?q ?X (?thr t)" and own: "owners_ok ?thr"
    and pol: "polled_ok (unat (mq_head ?q)) ?X ?thr (ms_polled st)" and sh: "shape ?q"
    using assms(1) by (simp_all add: mpsc_ok_def core_ok_def)
  let ?j = "?p mod unat (mq_capacity ?q)"
  have here: "?p < length ?X" "unat (mq_head ?q) \<le> ?p" "fst (view ?q ?j) = ?p" "?X ! ?p = item"
    "length item = unat (mq_item_size ?q)" "take k (snd (view ?q ?j)) = take k item"
    using pcs [of t] by (simp_all add: at_pc_def assms(2))
  have seq: "unat seq = ?p" "data = snd (view ?q ?j)" using assms(4) here(3) unfolding slot_view [OF sh] by auto
  have d: "length ?d = unat (mq_item_size ?q)" using length_view [OF sh] seq(2) by simp
  have pre: "take (Suc k) ?d = take (Suc k) item"
    using here(5,6) assms(3) d seq(2) by (simp add: take_Suc_conv_app_nth)
  have v: "view (put_slot pos (seq, ?d) ?q) = (view ?q)(?j := (?p, ?d))" by (simp add: view_put [OF sh] seq(1))
  have "core_ok (put_slot pos (seq, ?d) ?q) ?X"
    by (rule put_core [OF core d], unfold seq(1))
      (rule write_byte, use core here in \<open>simp_all add: core_ok_def shape_def\<close>)
  moreover have "at_pc (put_slot pos (seq, ?d) ?q) ?X (?thr t')" if "t' \<noteq> t" for t'
  proof -
    have "owned (?thr t') \<noteq> Some (True, ?p)"
      using own that assms(2) unfolding owners_ok_def by (metis owned.simps(1))
    then show ?thesis
      using write_byte_pc [OF pcs [of t', unfolded at_pc_def] here(3)] by (simp add: at_pc_def v)
  qed
  moreover have "at_pc (put_slot pos (seq, ?d) ?q) ?X (OfferCopy item pos (Suc k))"
    using here assms(3) pre by (simp add: at_pc_def v)
  moreover have "owners_ok (?thr(t := OfferCopy item pos (Suc k)))"
    by (rule owners_same [OF own]) (simp add: assms(2))
  moreover have "polled_ok (unat (mq_head ?q)) ?X (?thr(t := OfferCopy item pos (Suc k))) (ms_polled st)"
    by (rule polled_same [OF pol]) (simp add: assms(2))
  ultimately show ?thesis by (simp add: mpsc_ok_def)
qed

lemma offer_publishes:
  assumes "mpsc_ok st" "ms_thread st t = OfferCopy item pos k" "\<not> k < unat (mq_item_size (ms_queue st))"
    "tp_mpsc_slot_at (ms_queue st) pos = (seq, data)" "length (ms_offered st) < 2 ^ 63"
  shows "mpsc_ok (st\<lparr>ms_queue := put_slot pos (pos + 1, data) (ms_queue st), ms_thread := (ms_thread st)(t := Returned Accepted)\<rparr>)"
proof -
  let ?q = "ms_queue st" and ?X = "ms_offered st" and ?thr = "ms_thread st" and ?p = "unat pos"
  have core: "core_ok ?q ?X" and pcs: "\<And>t. at_pc ?q ?X (?thr t)" and own: "owners_ok ?thr"
    and pol: "polled_ok (unat (mq_head ?q)) ?X ?thr (ms_polled st)" and sh: "shape ?q"
    using assms(1) by (simp_all add: mpsc_ok_def core_ok_def)
  let ?j = "?p mod unat (mq_capacity ?q)"
  have here: "?p < length ?X" "unat (mq_head ?q) \<le> ?p" "fst (view ?q ?j) = ?p" "?X ! ?p = item"
    "length item = unat (mq_item_size ?q)" "k \<le> unat (mq_item_size ?q)" "take k (snd (view ?q ?j)) = take k item"
    using pcs [of t] by (simp_all add: at_pc_def assms(2))
  have k: "k = unat (mq_item_size ?q)" using here(6) assms(3) by simp
  have data: "data = item" using assms(4) here(5,7) length_view [OF sh, of ?p] k unfolding slot_view [OF sh] by auto
  have w: "unat (pos + 1) = Suc ?p" using here(1) assms(5) by (intro unat_Suc_small) simp
  have v: "view (put_slot pos (pos + 1, data) ?q) = (view ?q)(?j := (Suc ?p, data))" by (simp add: view_put [OF sh] w)
  have "core_ok (put_slot pos (pos + 1, data) ?q) ?X"
  proof (rule put_core [OF core])
    show "slots_ok (unat (mq_capacity ?q)) (unat (mq_head ?q)) (length ?X) ?X ((view ?q)(?j := (unat (pos + 1), data)))"
      unfolding w data using publish [of "unat (mq_capacity ?q)" "unat (mq_head ?q)" "length ?X" ?X "view ?q" ?p] core here
      by (simp add: core_ok_def shape_def)
  qed (simp add: data here)
  moreover have "at_pc (put_slot pos (pos + 1, data) ?q) ?X (?thr t')" if "t' \<noteq> t" for t'
  proof -
    have "owned (?thr t') \<noteq> Some (True, ?p)"
      using own that assms(2) unfolding owners_ok_def by (metis owned.simps(1))
    then show ?thesis
      using publish_pc [OF pcs [of t', unfolded at_pc_def] shape_capacity [OF sh] here(3,1)] by (simp add: at_pc_def v)
  qed
  moreover have "owners_ok (?thr(t := Returned Accepted))" by (rule owners_drop [OF own]) simp
  moreover have "polled_ok (unat (mq_head ?q)) ?X (?thr(t := Returned Accepted)) (ms_polled st)"
    by (rule polled_same [OF pol]) (simp add: assms(2))
  ultimately show ?thesis by (simp add: mpsc_ok_def at_pc_def)
qed

lemma polled_claim:
  assumes "polled_ok H X thr polled" "owned (thr t) = None" "owned pc = Some (False, H)"
  shows "polled_ok (Suc H) X (thr(t := pc)) polled"
  unfolding polled_ok_def
proof (intro conjI allI impI)
  show "\<forall>(p, x) \<in> set polled. p < Suc H \<and> x = X ! p \<and> (\<forall>t'. owned ((thr(t := pc)) t') \<noteq> Some (False, p))"
  proof (intro ballI, split prod.split, intro allI impI)
    fix a p x assume "a \<in> set polled" "a = (p, x)"
    with assms(1) have "p < H" "x = X ! p" "\<forall>t. owned (thr t) \<noteq> Some (False, p)" unfolding polled_ok_def by auto
    then show "p < Suc H \<and> x = X ! p \<and> (\<forall>t'. owned ((thr(t := pc)) t') \<noteq> Some (False, p))" using assms(3) by simp
  qed
  fix p assume "p < Suc H"
  show "p \<in> fst ` set polled \<or> (\<exists>t'. owned ((thr(t := pc)) t') = Some (False, p))"
  proof (cases "p = H")
    case True
    then show ?thesis using assms(3) by (intro disjI2 exI [of _ t]) simp
  next
    case False
    with \<open>p < Suc H\<close> have "p < H" by simp
    with assms(1) consider "p \<in> fst ` set polled" | t' where "owned (thr t') = Some (False, p)"
      unfolding polled_ok_def by blast
    then show ?thesis
    proof cases
      case (2 t')
      then show ?thesis using assms(2) by (intro disjI2 exI [of _ t']) auto
    qed simp
  qed
qed (use assms(1) in \<open>simp add: polled_ok_def\<close>)

lemma polled_return:
  assumes "polled_ok H X thr polled" "owners_ok thr" "owned (thr t) = Some (False, p)" "owned pc = None" "p < H"
  shows "polled_ok H X (thr(t := pc)) (polled @ [(p, X ! p)])"
proof -
  have new: "p \<notin> fst ` set polled" using assms(1,3) unfolding polled_ok_def by fastforce
  have only: "owned (thr t') = Some (False, p) \<Longrightarrow> t' = t" for t' using assms(2,3) unfolding owners_ok_def by blast
  show ?thesis
    unfolding polled_ok_def
  proof (intro conjI allI impI)
    show "\<forall>(p', x) \<in> set (polled @ [(p, X ! p)]). p' < H \<and> x = X ! p' \<and> (\<forall>t'. owned ((thr(t := pc)) t') \<noteq> Some (False, p'))"
      using assms(1,4,5) only unfolding polled_ok_def by auto
    fix p' assume "p' < H"
    then show "p' \<in> fst ` set (polled @ [(p, X ! p)]) \<or> (\<exists>t'. owned ((thr(t := pc)) t') = Some (False, p'))"
      using assms(1,3) unfolding polled_ok_def by (cases "p' = p") (auto, metis option.inject prod.inject)
  qed (use assms(1) new in \<open>simp add: polled_ok_def\<close>)
qed

lemma poll_claims:
  assumes "mpsc_ok st" "ms_thread st t = PollCas pos" "mq_head (ms_queue st) = pos" "length (ms_offered st) < 2 ^ 63"
  shows "mpsc_ok (st\<lparr>ms_queue := (ms_queue st)\<lparr>mq_head := pos + 1\<rparr>, ms_thread := (ms_thread st)(t := PollCopy pos [])\<rparr>)"
proof -
  let ?q = "ms_queue st" and ?X = "ms_offered st" and ?thr = "ms_thread st" and ?H = "unat (mq_head (ms_queue st))"
  have core: "core_ok ?q ?X" and pcs: "\<And>t. at_pc ?q ?X (?thr t)" and own: "owners_ok ?thr"
    and pol: "polled_ok ?H ?X ?thr (ms_polled st)" and sh: "shape ?q"
    using assms(1) by (simp_all add: mpsc_ok_def core_ok_def)
  have here: "fst (view ?q (?H mod unat (mq_capacity ?q))) = Suc ?H"
    using pcs [of t] assms(3) by (simp add: at_pc_def assms(2))
  have sl: "slots_ok (unat (mq_capacity ?q)) ?H (length ?X) ?X (view ?q)" using core by (simp add: core_ok_def)
  note cr = claim_read [OF sl shape_capacity [OF sh] here]
  have w: "unat (pos + 1) = Suc ?H"
    using cr(2) assms(3,4) unat_Suc_small [of pos] by simp
  have "core_ok (?q\<lparr>mq_head := pos + 1\<rparr>) ?X"
    using core cr by (simp add: core_ok_def w)
  moreover have "at_pc (?q\<lparr>mq_head := pos + 1\<rparr>) ?X (?thr t')" for t'
    using claim_read_pc [OF pcs [of t', unfolded at_pc_def] here] by (simp add: at_pc_def w)
  moreover have "at_pc (?q\<lparr>mq_head := pos + 1\<rparr>) ?X (PollCopy pos [])"
    using here assms(3) by (simp add: at_pc_def w)
  moreover have "owners_ok (?thr(t := PollCopy pos []))"
  proof (rule owners_take [OF own], intro allI impI)
    fix t' assume "t' \<noteq> t"
    show "owned (?thr t') \<noteq> owned (PollCopy pos [])"
      using pcs [of t'] assms(3) by (cases "?thr t'") (auto simp: at_pc_def)
  qed
  moreover have "polled_ok (Suc ?H) ?X (?thr(t := PollCopy pos [])) (ms_polled st)"
    by (rule polled_claim [OF pol]) (simp_all add: assms(2,3))
  ultimately show ?thesis by (simp add: mpsc_ok_def w)
qed

lemma poll_releases:
  assumes "mpsc_ok st" "ms_thread st t = PollCopy pos out" "\<not> length out < unat (mq_item_size (ms_queue st))"
    "tp_mpsc_slot_at (ms_queue st) pos = (seq, data)" "length (ms_offered st) + unat (mq_capacity (ms_queue st)) < 2 ^ 63"
  shows "mpsc_ok (st\<lparr>ms_queue := put_slot pos (pos + mq_mask (ms_queue st) + 1, data) (ms_queue st),
    ms_thread := (ms_thread st)(t := Returned (Polled out)), ms_polled := ms_polled st @ [(unat pos, out)]\<rparr>)"
proof -
  let ?q = "ms_queue st" and ?X = "ms_offered st" and ?thr = "ms_thread st" and ?p = "unat pos"
  let ?N = "unat (mq_capacity ?q)" let ?j = "?p mod ?N" and ?w = "pos + mq_mask ?q + 1"
  have core: "core_ok ?q ?X" and pcs: "\<And>t. at_pc ?q ?X (?thr t)" and own: "owners_ok ?thr"
    and pol: "polled_ok (unat (mq_head ?q)) ?X ?thr (ms_polled st)" and sh: "shape ?q"
    using assms(1) by (simp_all add: mpsc_ok_def core_ok_def)
  have c: "slots_ok ?N (unat (mq_head ?q)) (length ?X) ?X (view ?q)" "unat (mq_head ?q) \<le> length ?X"
    "\<forall>x \<in> set ?X. length x = unat (mq_item_size ?q)" using core by (simp_all add: core_ok_def)
  have here: "?p < unat (mq_head ?q)" "fst (view ?q ?j) = Suc ?p" "length out \<le> unat (mq_item_size ?q)"
    "out = take (length out) (?X ! ?p)" using pcs [of t] by (simp_all add: at_pc_def assms(2))
  have "length (?X ! ?p) = unat (mq_item_size ?q)" using c here(1) by simp
  then have out: "out = ?X ! ?p" using here(3,4) assms(3) by simp
  have full: "length ?X \<le> ?p + ?N" using slots_full [OF c(1) shape_capacity [OF sh] here(2)] by simp
  have "?w = pos + of_nat ?N" using sh by (simp add: shape_def)
  then have w: "unat ?w = ?p + ?N"
    using unat_plus_small [of pos ?N] here(1) c(2) assms(5) by (simp only: order_less_le_trans)
  have data: "length data = unat (mq_item_size ?q)"
    using assms(4) length_view [OF sh, of ?p] unfolding slot_view [OF sh] by auto
  have v: "view (put_slot pos (?w, data) ?q) = (view ?q)(?j := (?p + ?N, data))" by (simp add: view_put [OF sh] w)
  have "core_ok (put_slot pos (?w, data) ?q) ?X"
    by (rule put_core [OF core data], unfold w) (rule release [OF c(1) shape_capacity [OF sh] here(1) full])
  moreover have "at_pc (put_slot pos (?w, data) ?q) ?X (?thr t')" if "t' \<noteq> t" for t'
  proof -
    have "owned (?thr t') \<noteq> Some (False, ?p)"
      using own that assms(2) unfolding owners_ok_def by (metis owned.simps(2))
    then show ?thesis
      using release_pc [OF pcs [of t', unfolded at_pc_def] shape_capacity [OF sh] here(2,1)] by (simp add: at_pc_def v)
  qed
  moreover have "owners_ok (?thr(t := Returned (Polled out)))" by (rule owners_drop [OF own]) simp
  moreover have "polled_ok (unat (mq_head ?q)) ?X (?thr(t := Returned (Polled out))) (ms_polled st @ [(?p, out)])"
    unfolding out by (rule polled_return [OF pol own]) (simp_all add: assms(2) here(1))
  ultimately show ?thesis by (simp add: mpsc_ok_def at_pc_def)
qed

text \<open>The comparison of a slot's sequence number with a position never overflows.\<close>

lemma slot_seq:
  assumes "core_ok q X" "length X + unat (mq_capacity q) < 2 ^ 63"
  shows "sint (fst (tp_mpsc_slot_at q pos)) = int (fst (view q (unat pos mod unat (mq_capacity q))))"
    "fst (view q (unat pos mod unat (mq_capacity q))) < 2 ^ 63"
proof -
  have c: "shape q" "slots_ok (unat (mq_capacity q)) (unat (mq_head q)) (length X) X (view q)" "unat (mq_head q) \<le> length X"
    using assms(1) by (simp_all add: core_ok_def)
  show b: "fst (view q (unat pos mod unat (mq_capacity q))) < 2 ^ 63"
    using view_bound [OF c(2) shape_capacity [OF c(1)] c(3), of "unat pos"] assms(2) by simp
  then show "sint (fst (tp_mpsc_slot_at q pos)) = int (fst (view q (unat pos mod unat (mq_capacity q))))"
    unfolding slot_view [OF c(1)] by (subst sint_small) (simp_all add: unat_of_nat)
qed

lemma diff_in_range: "a < 2 ^ 63 \<Longrightarrow> b < 2 ^ 63 \<Longrightarrow> in_int64 (int a - int b)"
  by (simp add: in_int64_def)

lemma offer_check:
  assumes "core_ok q X" "length X + unat (mq_capacity q) < 2 ^ 63" "at_pc q X (OfferCheck item pos)"
  shows "at_pc q X (snd (mpsc_step cas q (OfferCheck item pos)))"
proof -
  define p where "p = unat pos"
  have pos: "p \<le> length X" using assms(3) by (simp add: at_pc_def p_def)
  then have "sint pos = int p" using assms(2) unfolding p_def by (intro sint_small) simp
  moreover have "in_int64 (int (fst (view q (p mod unat (mq_capacity q)))) - int p)"
    using slot_seq(2) [OF assms(1,2), of pos] pos assms(2) by (intro diff_in_range) (simp_all add: p_def)
  ultimately show ?thesis using assms(3)
    by (auto simp: at_pc_def slot_seq(1) [OF assms(1,2)] Let_def p_def [symmetric])
qed

lemma poll_check:
  assumes "core_ok q X" "length X + unat (mq_capacity q) < 2 ^ 63" "at_pc q X (PollCheck pos)"
  shows "at_pc q X (snd (mpsc_step cas q (PollCheck pos)))"
proof -
  have "unat (mq_head q) \<le> length X" "2 \<le> unat (mq_capacity q)" using assms(1) by (simp_all add: core_ok_def shape_def)
  then have pos: "unat pos \<le> unat (mq_head q)" "unat pos + 2 < 2 ^ 63" using assms(2,3) by (simp_all add: at_pc_def)
  then have w: "unat (pos + 1) = Suc (unat pos)" by (intro unat_Suc_small) simp
  then have "sint (pos + 1) = int (Suc (unat pos))" using pos(2) by (subst sint_small) simp_all
  moreover have "in_int64 (int (fst (view q (unat pos mod unat (mq_capacity q)))) - int (Suc (unat pos)))"
    using slot_seq(2) [OF assms(1,2), of pos] pos(2) by (intro diff_in_range) simp_all
  ultimately show ?thesis using assms(3) pos(1)
    by (auto simp: at_pc_def slot_seq [OF assms(1,2)] Let_def simp del: of_nat_Suc)
qed

lemma poll_reads:
  assumes "core_ok q X" "at_pc q X (PollCopy pos out)" "length out < unat (mq_item_size q)"
    "tp_mpsc_slot_at q pos = (seq, data)"
  shows "at_pc q X (PollCopy pos (out @ [data ! length out]))"
proof -
  have c: "shape q" "slots_ok (unat (mq_capacity q)) (unat (mq_head q)) (length X) X (view q)" "unat (mq_head q) \<le> length X"
    "\<forall>x \<in> set X. length x = unat (mq_item_size q)" using assms(1) by (simp_all add: core_ok_def)
  have here: "unat pos < unat (mq_head q)" "fst (view q (unat pos mod unat (mq_capacity q))) = Suc (unat pos)"
    "out = take (length out) (X ! unat pos)" using assms(2) by (simp_all add: at_pc_def)
  have data: "data = X ! unat pos"
    using assms(4) slots_full [OF c(2) shape_capacity [OF c(1)] here(2)] unfolding slot_view [OF c(1)] by simp
  have len: "length (X ! unat pos) = unat (mq_item_size q)" using c(3,4) here(1) by simp
  with here(3) assms(3) have "out @ [data ! length out] = take (Suc (length out)) (X ! unat pos)"
    unfolding data by (simp add: take_Suc_conv_app_nth)
  then show ?thesis using here(1,2) assms(3) len by (simp add: at_pc_def)
qed

lemma step_ok:
  assumes "mpsc_ok st" "mpsc_step cas (ms_queue st) (ms_thread st t) = (q', pc')"
    "length (ms_offered st) + unat (mq_capacity (ms_queue st)) < 2 ^ 63"
  shows "mpsc_ok (st\<lparr>ms_queue := q', ms_thread := (ms_thread st)(t := pc'),
    ms_offered := ms_offered st @ new_offers (ms_thread st t) pc', ms_polled := ms_polled st @ new_polls (ms_thread st t) pc'\<rparr>)"
proof -
  have core: "core_ok (ms_queue st) (ms_offered st)" and here: "at_pc (ms_queue st) (ms_offered st) (ms_thread st t)"
    using assms(1) by (simp_all add: mpsc_ok_def)
  have c: "unat (mq_tail (ms_queue st)) = length (ms_offered st)" "length (ms_offered st) < 2 ^ 63"
    using core assms(3) by (simp_all add: core_ok_def)
  have same: ?thesis if "q' = ms_queue st" "at_pc (ms_queue st) (ms_offered st) pc'" "owned pc' = owned (ms_thread st t)"
    "new_offers (ms_thread st t) pc' = []" "new_polls (ms_thread st t) pc' = []"
    using local_step [OF assms(1) that(2,3)] that by simp
  show ?thesis
  proof (cases "ms_thread st t")
    case (OfferLoad item)
    then show ?thesis using assms(2) here c by (intro same) (auto simp: at_pc_def new_offers_def new_polls_def)
  next
    case (OfferCheck item pos)
    note at = offer_check [OF core assms(3) here [unfolded OfferCheck], of cas]
    have "q' = ms_queue st" "pc' = snd (mpsc_step cas (ms_queue st) (OfferCheck item pos))"
      using assms(2) OfferCheck by (auto simp: Let_def)
    with at OfferCheck show ?thesis by (intro same) (auto simp: Let_def new_offers_def new_polls_def)
  next
    case (OfferCas item pos)
    show ?thesis
    proof (cases "mq_tail (ms_queue st) = pos \<and> cas")
      case True
      then show ?thesis using offer_claims [OF assms(1) OfferCas] assms(2) OfferCas c(2)
        by (auto simp: new_offers_def new_polls_def)
    next
      case False
      then show ?thesis using assms(2) here c OfferCas by (intro same) (auto simp: at_pc_def new_offers_def new_polls_def)
    qed
  next
    case (OfferCopy item pos k)
    obtain seq data where slot: "tp_mpsc_slot_at (ms_queue st) pos = (seq, data)" by fastforce
    show ?thesis
      using offer_copies [OF assms(1) OfferCopy _ slot] offer_publishes [OF assms(1) OfferCopy _ slot c(2)] assms(2) OfferCopy slot
      by (auto simp: new_offers_def new_polls_def split: if_splits)
  next
    case PollLoad
    then show ?thesis using assms(2) by (intro same) (auto simp: at_pc_def new_offers_def new_polls_def)
  next
    case (PollCheck pos)
    note at = poll_check [OF core assms(3) here [unfolded PollCheck], of cas]
    have "q' = ms_queue st" "pc' = snd (mpsc_step cas (ms_queue st) (PollCheck pos))"
      using assms(2) PollCheck by (auto simp: Let_def)
    with at PollCheck show ?thesis by (intro same) (auto simp: Let_def new_offers_def new_polls_def)
  next
    case (PollCas pos)
    show ?thesis
    proof (cases "mq_head (ms_queue st) = pos \<and> cas")
      case True
      then show ?thesis using poll_claims [OF assms(1) PollCas] assms(2) PollCas c(2)
        by (auto simp: new_offers_def new_polls_def)
    next
      case False
      then show ?thesis using assms(2) PollCas by (intro same) (auto simp: at_pc_def new_offers_def new_polls_def)
    qed
  next
    case (PollCopy pos out)
    obtain seq data where slot: "tp_mpsc_slot_at (ms_queue st) pos = (seq, data)" by fastforce
    show ?thesis
    proof (cases "length out < unat (mq_item_size (ms_queue st))")
      case True
      have "at_pc (ms_queue st) (ms_offered st) (PollCopy pos (out @ [data ! length out]))"
        using poll_reads [OF core here [unfolded PollCopy] True slot] .
      then show ?thesis using assms(2) PollCopy slot True by (intro same) (auto simp: new_offers_def new_polls_def)
    next
      case False
      then show ?thesis using poll_releases [OF assms(1) PollCopy False slot assms(3)] assms(2) PollCopy slot
        by (auto simp: new_offers_def new_polls_def)
    qed
  next
    case (Returned r)
    then have "q' = ms_queue st" "pc' = Returned r" using assms(2) by simp_all
    then show ?thesis using here Returned by (intro same) (simp_all add: new_offers_def new_polls_def)
  qed
qed

lemma reach_ok:
  assumes "mpsc_reach q0 st" "core_ok q0 []" "length (ms_offered st) + unat (mq_capacity (ms_queue st)) < 2 ^ 63"
  shows "mpsc_ok st"
  using assms(1,3)
proof (induction rule: mpsc_reach.induct)
  case mpsc_start
  have "unat (mq_head q0) = 0" using assms(2) by (simp add: core_ok_def)
  then show ?case using assms(2) by (simp add: mpsc_ok_def at_pc_def owners_ok_def polled_ok_def)
next
  case (mpsc_offer st t r item)
  then have ok: "mpsc_ok st" by simp
  have "at_pc (ms_queue st) (ms_offered st) (snd (offer_enter True (ms_queue st) item))"
    using ok by (auto simp: mpsc_ok_def core_ok_def shape_def offer_enter_def at_pc_def)
  then show ?case using mpsc_offer.hyps(2) by (intro local_step [OF ok]) (auto simp: offer_enter_def split: sum.splits)
next
  case (mpsc_poll st t r item_size)
  then have ok: "mpsc_ok st" by simp
  show ?case using mpsc_poll.hyps(2) by (intro local_step [OF ok]) (auto simp: poll_enter_def at_pc_def)
next
  case (mpsc_next st cas t q' pc')
  have cap: "mq_capacity q' = mq_capacity (ms_queue st)"
    using mpsc_next.hyps(2) by (cases "(cas, ms_queue st, ms_thread st t)" rule: mpsc_step.cases)
      (auto simp: Let_def split: if_splits prod.splits)
  with mpsc_next.prems have b: "length (ms_offered st) + unat (mq_capacity (ms_queue st)) < 2 ^ 63" by simp
  then show ?case using step_ok [OF mpsc_next.IH mpsc_next.hyps(2)] by simp
qed

lemma fresh_core:
  assumes "tp_mpsc_queue_init capacity = Inr q" "capacity \<noteq> 1" "tp_mpsc_queue_alloc_slots True q item_size = Inr q0"
  shows "core_ok q0 []" "mq_capacity q0 = capacity" "mq_item_size q0 = item_size"
proof -
  have q: "capacity \<noteq> 0" "is_power_of_two capacity"
    "q0 = \<lparr>mq_slots = Some (List.map (\<lambda>i. (of_nat i, replicate (unat item_size) 0)) [0..<unat capacity]),
       mq_capacity = capacity, mq_mask = capacity - 1, mq_item_size = item_size, mq_head = 0, mq_tail = 0\<rparr>"
    using assms(1,3) by (auto simp: tp_mpsc_queue_init_def tp_mpsc_queue_alloc_slots_def res_simps)
  have "unat capacity \<noteq> 0" "unat capacity \<noteq> 1"
    using q(1) assms(2) by (simp_all add: word_unat_eq_iff)
  then have two: "2 \<le> unat capacity" by simp
  have "unat (of_nat j :: u64) = j" if "j < unat capacity" for j
    using order_less_trans [OF that unat_bounds(4) [of capacity]] by (simp add: unat_of_nat)
  then show "core_ok q0 []"
    using q two by (auto simp: core_ok_def shape_def slots_ok_def slot_ok_def view_def)
qed (use assms in \<open>auto simp: tp_mpsc_queue_init_def tp_mpsc_queue_alloc_slots_def res_simps\<close>)

lemma reach_capacity: "mpsc_reach q0 st \<Longrightarrow> mq_capacity (ms_queue st) = mq_capacity q0"
proof (induction rule: mpsc_reach.induct)
  case (mpsc_next st cas t q' pc')
  then show ?case
    by (cases "(cas, ms_queue st, ms_thread st t)" rule: mpsc_step.cases) (auto simp: Let_def split: if_splits prod.splits)
qed simp_all

text \<open>
  C10: the command queue loses, duplicates and tears no item, whatever the interleaving of its
  threads. For any number of threads that offer and poll, every item that a poll returns is the item
  whose offer claimed that position, byte for byte; no position is returned twice; every position that
  the head has passed was returned or is being copied by exactly the poll that claimed it, so that the
  \<open>k\<close>-th poll to claim gets the \<open>k\<close>-th item that was offered; and no more than the capacity
  is in the queue. The capacity is at least two and the positions stay below \<open>2 ^ 63\<close>; then the
  signed difference of the code does not overflow either.
\<close>

theorem mpsc_fifo:
  assumes "tp_mpsc_queue_init capacity = Inr q" "capacity \<noteq> 1" "tp_mpsc_queue_alloc_slots True q item_size = Inr q0"
    "mpsc_reach q0 st" "length (ms_offered st) + unat capacity < 2 ^ 63"
  shows "distinct (List.map fst (ms_polled st)) \<and>
    (\<forall>(p, x) \<in> set (ms_polled st). p < unat (mq_head (ms_queue st)) \<and> x = ms_offered st ! p) \<and>
    (\<forall>p < unat (mq_head (ms_queue st)). p \<in> fst ` set (ms_polled st) \<or>
       (\<exists>t. owned (ms_thread st t) = Some (False, p) \<and> (\<forall>t'. owned (ms_thread st t') = Some (False, p) \<longrightarrow> t' = t))) \<and>
    unat (mq_head (ms_queue st)) \<le> length (ms_offered st) \<and>
    length (ms_offered st) \<le> unat (mq_head (ms_queue st)) + unat capacity \<and>
    (\<forall>t. ms_thread st t \<noteq> Returned (Error (UB ''diff'')))"
proof -
  note fresh = fresh_core [OF assms(1-3)]
  have cap: "mq_capacity (ms_queue st) = capacity" using reach_capacity [OF assms(4)] fresh(2) by simp
  have ok: "mpsc_ok st" using reach_ok [OF assms(4) fresh(1)] assms(5) cap by simp
  then have pol: "polled_ok (unat (mq_head (ms_queue st))) (ms_offered st) (ms_thread st) (ms_polled st)"
    and own: "owners_ok (ms_thread st)" and core: "core_ok (ms_queue st) (ms_offered st)"
    and pcs: "\<And>t. at_pc (ms_queue st) (ms_offered st) (ms_thread st t)" by (simp_all add: mpsc_ok_def)
  have "ms_thread st t \<noteq> Returned (Error (UB ''diff''))" for t using pcs [of t] by (auto simp: at_pc_def)
  moreover have "\<forall>p < unat (mq_head (ms_queue st)). p \<in> fst ` set (ms_polled st) \<or>
       (\<exists>t. owned (ms_thread st t) = Some (False, p) \<and> (\<forall>t'. owned (ms_thread st t') = Some (False, p) \<longrightarrow> t' = t))"
    using pol own unfolding polled_ok_def owners_ok_def by metis
  moreover have "distinct (List.map fst (ms_polled st))"
    "\<forall>(p, x) \<in> set (ms_polled st). p < unat (mq_head (ms_queue st)) \<and> x = ms_offered st ! p"
    using pol unfolding polled_ok_def by auto
  ultimately show ?thesis using core cap by (simp add: core_ok_def)
qed

text \<open>A schedule of calls and steps, which only visits reachable states.\<close>

datatype mpsc_event = CallOffer nat bytes | CallPoll nat u64 | Step nat bool

fun sched_step :: "mpsc_event \<Rightarrow> mpsc_state \<Rightarrow> mpsc_state" where
  "sched_step (CallOffer t item) st =
     (case ms_thread st t of
        Returned r \<Rightarrow> st\<lparr>ms_thread := (ms_thread st)(t := snd (offer_enter True (ms_queue st) item))\<rparr> | _ \<Rightarrow> st)"
| "sched_step (CallPoll t n) st =
     (case ms_thread st t of Returned r \<Rightarrow> st\<lparr>ms_thread := (ms_thread st)(t := poll_enter (ms_queue st) n)\<rparr> | _ \<Rightarrow> st)"
| "sched_step (Step t cas) st =
     (case mpsc_step cas (ms_queue st) (ms_thread st t) of
        (q', pc') \<Rightarrow> st\<lparr>ms_queue := q', ms_thread := (ms_thread st)(t := pc'),
          ms_offered := ms_offered st @ new_offers (ms_thread st t) pc',
          ms_polled := ms_polled st @ new_polls (ms_thread st t) pc'\<rparr>)"

lemma sched_step_reach: "mpsc_reach q0 st \<Longrightarrow> mpsc_reach q0 (sched_step e st)"
  by (cases e) (auto intro: mpsc_offer mpsc_poll mpsc_next split: mpsc_pc.splits prod.splits)

lemma mpsc_schedule_reach: "mpsc_reach q0 st \<Longrightarrow> mpsc_reach q0 (fold sched_step es st)"
  by (induction es arbitrary: st) (simp_all add: sched_step_reach)

text \<open>Two threads offer at the same time, the second to claim finishes first, and one poll follows.\<close>

definition sample_schedule :: "mpsc_event list" where
  "sample_schedule = [CallOffer 1 [10], CallOffer 2 [20], Step 1 True, Step 2 True, Step 1 True, Step 2 True,
     Step 2 True, Step 1 True, Step 2 True, Step 2 True, Step 1 True, Step 1 True, Step 1 True, Step 1 True, CallPoll 3 1,
     Step 3 True, Step 3 True, Step 3 False, Step 3 True, Step 3 True, Step 3 True, Step 3 True]"

definition sample_queue :: tp_mpsc_queue where
  "sample_queue = \<lparr>mq_slots = Some [(0, [0]), (1, [0])], mq_capacity = 2, mq_mask = 1, mq_item_size = 1, mq_head = 0, mq_tail = 0\<rparr>"

definition sample_end :: mpsc_state where
  "sample_end = fold sched_step sample_schedule
     \<lparr>ms_queue = sample_queue, ms_thread = (\<lambda>_. Returned Empty), ms_offered = [], ms_polled = []\<rparr>"

lemmas sched_eval = sample_schedule_def sample_queue_def new_offers_def new_polls_def Let_def in_int64_def tp_mpsc_slot_at_def
  put_slot_def offer_enter_def poll_enter_def

lemma sample_end_value:
  "sample_end = \<lparr>ms_queue = \<lparr>mq_slots = Some [(2, [20]), (2, [10])], mq_capacity = 2, mq_mask = 1, mq_item_size = 1, mq_head = 1, mq_tail = 2\<rparr>,
     ms_thread = (\<lambda>_. Returned Empty)(1 := Returned Accepted, 2 := Returned Accepted, 3 := Returned (Polled [20])),
     ms_offered = [[20], [10]], ms_polled = [(0, [20])]\<rparr>"
  unfolding sample_end_def by (simp add: sched_eval fun_upd_twist)

lemma sample_init:
  "tp_mpsc_queue_init 2 = Inr \<lparr>mq_slots = None, mq_capacity = 2, mq_mask = 1, mq_item_size = 0, mq_head = 0, mq_tail = 0\<rparr>"
  by (simp add: tp_mpsc_queue_init_def is_power_of_two_def)

lemma sample_alloc:
  "tp_mpsc_queue_alloc_slots True
     \<lparr>mq_slots = None, mq_capacity = 2, mq_mask = 1, mq_item_size = 0, mq_head = 0, mq_tail = 0\<rparr> 1 = Inr sample_queue"
  by (simp add: tp_mpsc_queue_alloc_slots_def sample_queue_def upt_rec)

theorem mpsc_fifo_witness:
  "ms_polled sample_end = [(0, [20])] \<and> [20] = ms_offered sample_end ! 0 \<and>
     length (ms_offered sample_end) \<le> unat (mq_head (ms_queue sample_end)) + 2"
proof -
  have "mpsc_reach sample_queue sample_end"
    unfolding sample_end_def by (rule mpsc_schedule_reach [OF mpsc_start])
  from mpsc_fifo [OF sample_init _ sample_alloc this] show ?thesis by (simp add: sample_end_value)
qed

end
