(* ===== verification/Tp_Mpsc_Fifo.thy ===== *)
theory Tp_Mpsc_Fifo
  imports Tp_Mpsc
begin

text \<open>
  Calls of the command queue that follow one another: they behave as the operations of a list with a
  bounded length. The contract between such a list and an implementation is a locale, which the
  queue's calls are shown to satisfy.
\<close>

section \<open>Refinement of a data type\<close>

text \<open>The results of a run of calls, and of a run of the operations of the specification.\<close>

fun call_results :: "('q \<Rightarrow> 'op \<Rightarrow> ('q \<times> 'r) option) \<Rightarrow> 'q \<Rightarrow> 'op list \<Rightarrow> 'r list option" where
  "call_results call q [] = Some []"
| "call_results call q (x # ops) =
     (case call q x of None \<Rightarrow> None | Some (q', r) \<Rightarrow> map_option ((#) r) (call_results call q' ops))"

fun spec_results :: "('x \<Rightarrow> 'op \<Rightarrow> 'x \<times> 'r) \<Rightarrow> 'x \<Rightarrow> 'op list \<Rightarrow> 'r list" where
  "spec_results spec s [] = []"
| "spec_results spec s (x # ops) = snd (spec s x) # spec_results spec (fst (spec s x)) ops"

text \<open>
  \<open>ok n q\<close>: the state is good for \<open>n\<close> more calls. Every call returns, with the result of the
  specification, and leaves a state that stands for the specification's.
\<close>

locale refined =
  fixes call :: "'q \<Rightarrow> 'op \<Rightarrow> ('q \<times> 'r) option" and spec :: "'x \<Rightarrow> 'op \<Rightarrow> 'x \<times> 'r"
    and ok :: "nat \<Rightarrow> 'q \<Rightarrow> bool" and abs :: "'q \<Rightarrow> 'x" and valid :: "'op \<Rightarrow> bool"
  assumes call_step: "ok (Suc n) q \<Longrightarrow> valid x \<Longrightarrow>
    \<exists>q'. call q x = Some (q', snd (spec (abs q) x)) \<and> ok n q' \<and> abs q' = fst (spec (abs q) x)"
begin

lemma call_results_spec:
  "ok (length ops) q \<Longrightarrow> \<forall>x \<in> set ops. valid x \<Longrightarrow> call_results call q ops = Some (spec_results spec (abs q) ops)"
proof (induction ops arbitrary: q)
  case (Cons x ops)
  then obtain q' where "call q x = Some (q', snd (spec (abs q) x))" "ok (length ops) q'" "abs q' = fst (spec (abs q) x)"
    using call_step [of "length ops" q x] by auto
  with Cons show ?case by simp
qed simp

end

section \<open>Slots of a queue at rest\<close>

lemma slot_put [simp]: "shape q \<Longrightarrow> tp_mpsc_slot_at (put_slot pos s q) pos = s"
proof -
  assume sh: "shape q"
  have "unat (pos AND mq_mask q) < unat (mq_capacity q)"
    unfolding slot_index [OF sh] using shape_capacity [OF sh] by simp
  moreover have "length (the (mq_slots q)) = unat (mq_capacity q)" using sh by (auto simp: shape_def)
  ultimately show ?thesis by (simp add: tp_mpsc_slot_at_def put_slot_def)
qed

lemma put_put [simp]: "put_slot pos s (put_slot pos s' q) = put_slot pos s q"
  by (simp add: put_slot_def)

lemma put_cursor [simp]:
  "put_slot pos s (q\<lparr>mq_tail := t\<rparr>) = (put_slot pos s q)\<lparr>mq_tail := t\<rparr>"
  "put_slot pos s (q\<lparr>mq_head := t\<rparr>) = (put_slot pos s q)\<lparr>mq_head := t\<rparr>"
  "tp_mpsc_slot_at (q\<lparr>mq_tail := t\<rparr>) pos = tp_mpsc_slot_at q pos"
  "tp_mpsc_slot_at (q\<lparr>mq_head := t\<rparr>) pos = tp_mpsc_slot_at q pos"
  by (simp_all add: put_slot_def tp_mpsc_slot_at_def)

lemma put_same: "shape q \<Longrightarrow> put_slot pos (tp_mpsc_slot_at q pos) q = q"
  by (auto simp: put_slot_def tp_mpsc_slot_at_def shape_def)

definition at_rest :: "tp_mpsc_queue \<Rightarrow> bool" where
  "at_rest q \<longleftrightarrow> shape q \<and> unat (mq_head q) \<le> unat (mq_tail q) \<and> unat (mq_tail q) \<le> unat (mq_head q) + unat (mq_capacity q) \<and>
     (\<forall>p. unat (mq_head q) \<le> p \<and> p < unat (mq_tail q) \<longrightarrow> fst (view q (p mod unat (mq_capacity q))) = Suc p) \<and>
     (\<forall>p. unat (mq_tail q) \<le> p \<and> p < unat (mq_head q) + unat (mq_capacity q) \<longrightarrow> fst (view q (p mod unat (mq_capacity q))) = p)"

definition mpsc_items :: "tp_mpsc_queue \<Rightarrow> bytes list" where
  "mpsc_items q = List.map (\<lambda>p. snd (view q (p mod unat (mq_capacity q)))) [unat (mq_head q)..<unat (mq_tail q)]"

lemma length_items [simp]: "length (mpsc_items q) = unat (mq_tail q) - unat (mq_head q)"
  by (simp add: mpsc_items_def)

lemma mod_window: "a < b \<Longrightarrow> b < a + N \<Longrightarrow> a mod N \<noteq> b mod N" for a b N :: nat
  by (metis add_diff_cancel_left' diff_is_0_eq dvd_imp_le less_imp_le_nat linorder_not_less mod_eq_dvd_iff_nat
      nat_add_left_cancel_less ordered_cancel_comm_monoid_diff_class.add_diff_inverse zero_less_diff)

section \<open>One call\<close>

lemma offer_copy_run:
  assumes "shape q" "length item = unat (mq_item_size q)" "length d = unat (mq_item_size q)" "k \<le> unat (mq_item_size q)"
    "unat (mq_item_size q) - k < n"
  shows "mpsc_run (replicate n True) (put_slot pos (seq, take k item @ drop k d) q, OfferCopy item pos k) =
    Some (put_slot pos (pos + 1, item) q, Accepted)"
  using assms(4,5)
proof (induction n arbitrary: k)
  case (Suc n)
  let ?q = "put_slot pos (seq, take k item @ drop k d) q"
  have sl: "tp_mpsc_slot_at ?q pos = (seq, take k item @ drop k d)" by (rule slot_put [OF assms(1)])
  show ?case
  proof (cases "k < unat (mq_item_size q)")
    case True
    then have "(take k item @ drop k d)[k := item ! k] = take (Suc k) item @ drop (Suc k) d"
      using assms(2,3) by (simp add: list_update_append take_Suc_conv_app_nth Cons_nth_drop_Suc [symmetric])
    then show ?thesis using Suc True by (simp add: sl)
  next
    case False
    then show ?thesis using Suc.prems assms(1-3) by (simp add: sl)
  qed
qed simp

lemma poll_copy_run:
  assumes "shape q" "tp_mpsc_slot_at q pos = (seq, d)" "length d = unat (mq_item_size q)" "k \<le> unat (mq_item_size q)"
    "unat (mq_item_size q) - k < n"
  shows "mpsc_run (replicate n True) (q, PollCopy pos (take k d)) = Some (put_slot pos (pos + mq_mask q + 1, d) q, Polled d)"
  using assms(4,5)
proof (induction n arbitrary: k)
  case (Suc n)
  then show ?case
  proof (cases "k < unat (mq_item_size q)")
    case True
    then have "take k d @ [d ! k] = take (Suc k) d" using assms(3) by (simp add: take_Suc_conv_app_nth)
    then show ?thesis using Suc True assms(2,3) by simp
  qed (use assms(2,3) in simp)
qed simp

definition after_offer :: "bytes \<Rightarrow> tp_mpsc_queue \<Rightarrow> tp_mpsc_queue" where
  "after_offer item q = (put_slot (mq_tail q) (mq_tail q + 1, item) q)\<lparr>mq_tail := mq_tail q + 1\<rparr>"

definition after_poll :: "tp_mpsc_queue \<Rightarrow> tp_mpsc_queue" where
  "after_poll q = (put_slot (mq_head q) (mq_head q + mq_mask q + 1, snd (tp_mpsc_slot_at q (mq_head q))) q)\<lparr>mq_head := mq_head q + 1\<rparr>"

lemma rest_slot:
  assumes "at_rest q"
  shows "unat (mq_tail q) < unat (mq_head q) + unat (mq_capacity q) \<Longrightarrow> fst (tp_mpsc_slot_at q (mq_tail q)) = mq_tail q"
    "unat (mq_head q) < unat (mq_tail q) \<Longrightarrow> fst (tp_mpsc_slot_at q (mq_head q)) = mq_head q + 1"
    "unat (mq_head q) = unat (mq_tail q) \<Longrightarrow> fst (tp_mpsc_slot_at q (mq_head q)) = mq_head q"
    "unat (mq_tail q) = unat (mq_head q) + unat (mq_capacity q) \<Longrightarrow> fst (tp_mpsc_slot_at q (mq_tail q)) = mq_head q + 1"
proof -
  have sh: "shape q" and cap: "2 \<le> unat (mq_capacity q)" using assms by (simp_all add: at_rest_def shape_def)
  show "unat (mq_tail q) < unat (mq_head q) + unat (mq_capacity q) \<Longrightarrow> fst (tp_mpsc_slot_at q (mq_tail q)) = mq_tail q"
    "unat (mq_head q) < unat (mq_tail q) \<Longrightarrow> fst (tp_mpsc_slot_at q (mq_head q)) = mq_head q + 1"
    "unat (mq_tail q) = unat (mq_head q) + unat (mq_capacity q) \<Longrightarrow> fst (tp_mpsc_slot_at q (mq_tail q)) = mq_head q + 1"
    using assms cap unfolding slot_view [OF sh] at_rest_def by (simp_all add: add.commute)
  show "fst (tp_mpsc_slot_at q (mq_head q)) = mq_head q" if "unat (mq_head q) = unat (mq_tail q)"
  proof -
    have "mq_tail q = mq_head q" using that by (simp add: word_unat_eq_iff)
    then show ?thesis using assms cap unfolding slot_view [OF sh] at_rest_def by simp
  qed
qed

lemma offer_room:
  assumes "at_rest q" "unat (mq_tail q) < unat (mq_head q) + unat (mq_capacity q)" "length item = unat (mq_item_size q)"
    "unat (mq_item_size q) + 4 \<le> n"
  shows "tp_mpsc_queue_offer (replicate n True) alloc_ok q item = Some (after_offer item q, Accepted)"
proof -
  have sh: "shape q" using assms(1) by (simp add: at_rest_def)
  let ?q = "q\<lparr>mq_tail := mq_tail q + 1\<rparr>"
  have n: "n = Suc (Suc (Suc (n - 3)))" "unat (mq_item_size q) < n - 3" using assms(4) by simp_all
  have enter: "offer_enter alloc_ok q item = (q, OfferLoad item)"
    using sh assms(3) by (auto simp: offer_enter_def shape_def)
  obtain d where slot: "tp_mpsc_slot_at q (mq_tail q) = (mq_tail q, d)" "length d = unat (mq_item_size q)"
    using rest_slot(1) [OF assms(1,2)] length_view [OF sh, of "unat (mq_tail q)"] unfolding slot_view [OF sh] by auto
  have "mpsc_run (replicate (n - 3) True) (put_slot (mq_tail q) (mq_tail q, take 0 item @ drop 0 d) ?q, OfferCopy item (mq_tail q) 0) =
      Some (put_slot (mq_tail q) (mq_tail q + 1, item) ?q, Accepted)"
    by (rule offer_copy_run) (use sh assms(3) slot n in simp_all)
  moreover have "put_slot (mq_tail q) (mq_tail q, d) q = q" using put_same [OF sh, of "mq_tail q"] slot by simp
  ultimately show ?thesis
    unfolding tp_mpsc_queue_offer_def enter by (subst n(1)) (simp add: slot Let_def in_int64_def after_offer_def)
qed

lemma offer_full:
  assumes "at_rest q" "unat (mq_tail q) = unat (mq_head q) + unat (mq_capacity q)" "length item = unat (mq_item_size q)"
    "2 \<le> n" "unat (mq_tail q) < 2 ^ 63"
  shows "tp_mpsc_queue_offer (replicate n True) alloc_ok q item = Some (q, Error (EAGAIN ''tp_mpsc_queue_offer: queue full''))"
proof -
  have sh: "shape q" using assms(1) by (simp add: at_rest_def)
  have n: "n = Suc (Suc (n - 2))" using assms(4) by simp
  have enter: "offer_enter alloc_ok q item = (q, OfferLoad item)"
    using sh assms(3) by (auto simp: offer_enter_def shape_def)
  have head: "unat (mq_head q + 1) = Suc (unat (mq_head q))" "unat (mq_head q + 1) < unat (mq_tail q)"
    using assms(2,5) shape_capacity [OF sh] by (simp_all add: unat_Suc_small)
  then have "sint (mq_head q + 1) = int (unat (mq_head q + 1))" "sint (mq_tail q) = int (unat (mq_tail q))"
    using assms(5) by (simp_all only: sint_small order_less_trans)
  then have "sint (mq_head q + 1) - sint (mq_tail q) < 0" "in_int64 (sint (mq_head q + 1) - sint (mq_tail q))"
    using head(2) assms(5) diff_in_range [of "unat (mq_head q + 1)" "unat (mq_tail q)"] by (simp_all del: of_nat_unat)
  then show ?thesis
    unfolding tp_mpsc_queue_offer_def enter by (subst n) (simp add: rest_slot(4) [OF assms(1,2)] Let_def)
qed

lemma poll_some:
  assumes "at_rest q" "unat (mq_head q) < unat (mq_tail q)" "unat (mq_item_size q) + 4 \<le> n"
  shows "tp_mpsc_queue_poll (replicate n True) q (mq_item_size q) =
    Some (after_poll q, Polled (snd (view q (unat (mq_head q) mod unat (mq_capacity q)))))"
proof -
  have sh: "shape q" using assms(1) by (simp add: at_rest_def)
  let ?q = "q\<lparr>mq_head := mq_head q + 1\<rparr>" and ?d = "snd (view q (unat (mq_head q) mod unat (mq_capacity q)))"
  have n: "n = Suc (Suc (Suc (n - 3)))" "unat (mq_item_size q) < n - 3" using assms(3) by simp_all
  have enter: "poll_enter q (mq_item_size q) = PollLoad" using sh by (auto simp: poll_enter_def shape_def)
  have slot: "tp_mpsc_slot_at q (mq_head q) = (mq_head q + 1, ?d)"
    using rest_slot(2) [OF assms(1,2)] unfolding slot_view [OF sh] by simp
  have "mpsc_run (replicate (n - 3) True) (?q, PollCopy (mq_head q) (take 0 ?d)) =
      Some (put_slot (mq_head q) (mq_head q + mq_mask ?q + 1, ?d) ?q, Polled ?d)"
    by (rule poll_copy_run) (use sh slot n length_view [OF sh] in simp_all)
  then show ?thesis
    unfolding tp_mpsc_queue_poll_def enter by (subst n(1)) (simp add: slot Let_def in_int64_def after_poll_def)
qed

lemma poll_none:
  assumes "at_rest q" "unat (mq_head q) = unat (mq_tail q)" "2 \<le> n" "unat (mq_head q) + 1 < 2 ^ 63"
  shows "tp_mpsc_queue_poll (replicate n True) q (mq_item_size q) = Some (q, Empty)"
proof -
  have sh: "shape q" using assms(1) by (simp add: at_rest_def)
  have n: "n = Suc (Suc (n - 2))" using assms(3) by simp
  have enter: "poll_enter q (mq_item_size q) = PollLoad" using sh by (auto simp: poll_enter_def shape_def)
  have "sint (mq_head q) = int (unat (mq_head q))" using assms(4) by (intro sint_small) simp
  moreover have "sint (mq_head q + 1) = int (Suc (unat (mq_head q)))"
    using assms(4) by (subst sint_small) (simp_all add: unat_Suc_small)
  ultimately have "sint (mq_head q) - sint (mq_head q + 1) = - 1" by simp
  then show ?thesis
    unfolding tp_mpsc_queue_poll_def enter
    by (subst n) (simp add: rest_slot(3) [OF assms(1,2)] Let_def in_int64_def)
qed

section \<open>The queue is a bounded list\<close>

lemma after_offer_rest:
  assumes "at_rest q" "unat (mq_tail q) < unat (mq_head q) + unat (mq_capacity q)" "length item = unat (mq_item_size q)"
    "unat (mq_tail q) < 2 ^ 63"
  shows "at_rest (after_offer item q)" "mpsc_items (after_offer item q) = mpsc_items q @ [item]"
    "mq_capacity (after_offer item q) = mq_capacity q" "mq_item_size (after_offer item q) = mq_item_size q"
    "unat (mq_tail (after_offer item q)) = Suc (unat (mq_tail q))"
proof -
  let ?N = "unat (mq_capacity q)" and ?T = "unat (mq_tail q)" and ?H = "unat (mq_head q)"
  have r: "shape q" "?H \<le> ?T" "\<forall>p. ?H \<le> p \<and> p < ?T \<longrightarrow> fst (view q (p mod ?N)) = Suc p"
    "\<forall>p. ?T \<le> p \<and> p < ?H + ?N \<longrightarrow> fst (view q (p mod ?N)) = p"
    using assms(1) by (simp_all add: at_rest_def)
  have T: "unat (mq_tail q + 1) = Suc ?T" using assms(4) by (rule unat_Suc_small)
  have v: "view (after_offer item q) = (view q)(?T mod ?N := (Suc ?T, item))"
    by (simp add: after_offer_def view_put [OF r(1)] T)
  have sh: "shape (after_offer item q)" using shape_put [OF r(1) assms(3)] by (simp add: after_offer_def)
  have below: "p mod ?N \<noteq> ?T mod ?N" if "?H \<le> p" "p < ?T" for p
    using that assms(2) by (intro mod_window) simp_all
  have above: "p mod ?N \<noteq> ?T mod ?N" if "Suc ?T \<le> p" "p < ?H + ?N" for p
    using that r(2) mod_window [of ?T p ?N] by simp
  show "mq_capacity (after_offer item q) = mq_capacity q" "mq_item_size (after_offer item q) = mq_item_size q"
    and T': "unat (mq_tail (after_offer item q)) = Suc ?T" by (simp_all add: after_offer_def T)
  have H': "mq_head (after_offer item q) = mq_head q" "mq_capacity (after_offer item q) = mq_capacity q"
    by (simp_all add: after_offer_def)
  show "at_rest (after_offer item q)"
    unfolding at_rest_def H' T' v using sh r assms(2) below above by (auto simp: less_Suc_eq)
  show "mpsc_items (after_offer item q) = mpsc_items q @ [item]"
    unfolding mpsc_items_def H' T' v using r(2) below by simp
qed

lemma after_poll_rest:
  assumes "at_rest q" "unat (mq_head q) < unat (mq_tail q)" "unat (mq_head q) + unat (mq_capacity q) < 2 ^ 63"
  shows "at_rest (after_poll q)" "mpsc_items q = snd (view q (unat (mq_head q) mod unat (mq_capacity q))) # mpsc_items (after_poll q)"
    "mq_capacity (after_poll q) = mq_capacity q" "mq_item_size (after_poll q) = mq_item_size q"
    "mq_tail (after_poll q) = mq_tail q"
proof -
  let ?N = "unat (mq_capacity q)" and ?T = "unat (mq_tail q)" and ?H = "unat (mq_head q)"
  let ?d = "snd (view q (?H mod ?N))"
  have r: "shape q" "?T \<le> ?H + ?N" "\<forall>p. ?H \<le> p \<and> p < ?T \<longrightarrow> fst (view q (p mod ?N)) = Suc p"
    "\<forall>p. ?T \<le> p \<and> p < ?H + ?N \<longrightarrow> fst (view q (p mod ?N)) = p"
    using assms(1) by (simp_all add: at_rest_def)
  have H: "unat (mq_head q + 1) = Suc ?H" using assms(3) by (intro unat_Suc_small) simp
  have "mq_head q + mq_mask q + 1 = mq_head q + of_nat ?N" using r(1) by (simp add: shape_def)
  then have w: "unat (mq_head q + mq_mask q + 1) = ?H + ?N"
    using unat_plus_small [of "mq_head q" ?N] assms(3) by (simp only:)
  have d: "snd (tp_mpsc_slot_at q (mq_head q)) = ?d" "length ?d = unat (mq_item_size q)"
    by (simp_all add: slot_view [OF r(1)] length_view [OF r(1)])
  have v: "view (after_poll q) = (view q)(?H mod ?N := (?H + ?N, ?d))"
    by (simp add: after_poll_def view_put [OF r(1)] w d)
  have sh: "shape (after_poll q)" using shape_put [OF r(1) d(2)] by (simp add: after_poll_def d)
  have below: "p mod ?N \<noteq> ?H mod ?N" if "Suc ?H \<le> p" "p < ?H + ?N" for p
    using that mod_window [of ?H p ?N] by simp
  show "mq_capacity (after_poll q) = mq_capacity q" "mq_item_size (after_poll q) = mq_item_size q"
    "mq_tail (after_poll q) = mq_tail q" by (simp_all add: after_poll_def)
  have H': "unat (mq_head (after_poll q)) = Suc ?H" "mq_tail (after_poll q) = mq_tail q" "mq_capacity (after_poll q) = mq_capacity q"
    by (simp_all add: after_poll_def H)
  show "at_rest (after_poll q)"
    unfolding at_rest_def H' v using sh r assms(2) below by (auto simp: less_Suc_eq)
  show "mpsc_items q = ?d # mpsc_items (after_poll q)"
    unfolding mpsc_items_def H' v using assms(2) below r(2) by (subst upt_conv_Cons) auto
qed

datatype mpsc_op = Offer bytes | Poll

text \<open>A call that runs alone, with \<open>fuel\<close> steps and no spurious failure of a compare-and-swap.\<close>

fun mpsc_call :: "nat \<Rightarrow> tp_mpsc_queue \<Rightarrow> mpsc_op \<Rightarrow> (tp_mpsc_queue \<times> mpsc_result) option" where
  "mpsc_call fuel q (Offer item) = tp_mpsc_queue_offer (replicate fuel True) True q item"
| "mpsc_call fuel q Poll = tp_mpsc_queue_poll (replicate fuel True) q (mq_item_size q)"

fun fifo_spec :: "nat \<Rightarrow> bytes list \<Rightarrow> mpsc_op \<Rightarrow> bytes list \<times> mpsc_result" where
  "fifo_spec n xs (Offer item) =
     (if length xs < n then (xs @ [item], Accepted) else (xs, Error (EAGAIN ''tp_mpsc_queue_offer: queue full'')))"
| "fifo_spec n [] Poll = ([], Empty)"
| "fifo_spec n (x # xs) Poll = (xs, Polled x)"

definition fifo_ok :: "nat \<Rightarrow> nat \<Rightarrow> nat \<Rightarrow> tp_mpsc_queue \<Rightarrow> bool" where
  "fifo_ok N Z n q \<longleftrightarrow> at_rest q \<and> unat (mq_capacity q) = N \<and> unat (mq_item_size q) = Z \<and> unat (mq_tail q) + n + N < 2 ^ 63"

definition call_ok :: "nat \<Rightarrow> nat \<Rightarrow> mpsc_op \<Rightarrow> bool" where
  "call_ok fuel Z x \<longleftrightarrow> Z + 4 \<le> fuel \<and> (\<forall>item. x = Offer item \<longrightarrow> length item = Z)"

lemma offer_step:
  assumes "fifo_ok N Z (Suc n) q" "length item = Z" "Z + 4 \<le> fuel"
  shows "\<exists>q'. mpsc_call fuel q (Offer item) = Some (q', snd (fifo_spec N (mpsc_items q) (Offer item))) \<and> fifo_ok N Z n q' \<and>
    mpsc_items q' = fst (fifo_spec N (mpsc_items q) (Offer item))"
proof -
  have rest: "at_rest q" using assms(1) by (simp add: fifo_ok_def)
  then have a: "at_rest q" "unat (mq_capacity q) = N" "unat (mq_item_size q) = Z" "unat (mq_tail q) + Suc n + N < 2 ^ 63"
    "unat (mq_head q) \<le> unat (mq_tail q)" "unat (mq_tail q) \<le> unat (mq_head q) + unat (mq_capacity q)"
    using assms(1) by (simp_all add: fifo_ok_def) (simp_all add: at_rest_def)
  show ?thesis
  proof (cases "unat (mq_tail q) < unat (mq_head q) + N")
    case True
    note t = after_offer_rest [OF a(1), of item]
    have "fifo_ok N Z n (after_offer item q)" using t a True assms(2) by (simp add: fifo_ok_def)
    then show ?thesis using offer_room [OF a(1), of item fuel True] t(2) a True assms(2,3) by auto
  next
    case False
    then have "unat (mq_tail q) = unat (mq_head q) + unat (mq_capacity q)" using a(2,6) by simp
    moreover have "fifo_ok N Z n q" using assms(1) by (simp add: fifo_ok_def)
    ultimately show ?thesis using offer_full [OF a(1), of item fuel True] a(2-4) assms(2,3) by auto
  qed
qed

lemma poll_step:
  assumes "fifo_ok N Z (Suc n) q" "Z + 4 \<le> fuel"
  shows "\<exists>q'. mpsc_call fuel q Poll = Some (q', snd (fifo_spec N (mpsc_items q) Poll)) \<and> fifo_ok N Z n q' \<and>
    mpsc_items q' = fst (fifo_spec N (mpsc_items q) Poll)"
proof -
  have a: "at_rest q" "unat (mq_capacity q) = N" "unat (mq_item_size q) = Z" "unat (mq_tail q) + Suc n + N < 2 ^ 63"
    "unat (mq_head q) \<le> unat (mq_tail q)" using assms(1) by (simp_all add: fifo_ok_def) (simp add: at_rest_def)
  show ?thesis
  proof (cases "unat (mq_head q) < unat (mq_tail q)")
    case True
    have "unat (mq_head q) + unat (mq_capacity q) < 2 ^ 63" using a(2,4,5) by simp
    note t = after_poll_rest [OF a(1) True this]
    have "fifo_ok N Z n (after_poll q)" using t a by (simp add: fifo_ok_def)
    then show ?thesis using poll_some [OF a(1) True, of fuel] t(2) a(3) assms(2) by auto
  next
    case False
    then have eq: "unat (mq_head q) = unat (mq_tail q)" using a(5) by simp
    then have "mpsc_items q = []" by (simp add: mpsc_items_def)
    moreover have "fifo_ok N Z n q" using assms(1) by (simp add: fifo_ok_def)
    ultimately show ?thesis using poll_none [OF a(1) eq, of fuel] a(4) eq assms(2) by auto
  qed
qed

interpretation fifo: refined "mpsc_call fuel" "fifo_spec N" "fifo_ok N Z" mpsc_items "call_ok fuel Z" for fuel N Z
proof
  fix n q x
  assume "fifo_ok N Z (Suc n) q" "call_ok fuel Z x"
  then show "\<exists>q'. mpsc_call fuel q x = Some (q', snd (fifo_spec N (mpsc_items q) x)) \<and> fifo_ok N Z n q' \<and>
      mpsc_items q' = fst (fifo_spec N (mpsc_items q) x)"
    using offer_step poll_step by (cases x) (auto simp: call_ok_def)
qed

lemma fresh_rest:
  assumes "core_ok q []"
  shows "at_rest q" "mpsc_items q = []" "unat (mq_tail q) = 0"
proof -
  have c: "shape q" "unat (mq_tail q) = 0" "unat (mq_head q) = 0" "slots_ok (unat (mq_capacity q)) 0 0 [] (view q)"
    using assms by (auto simp: core_ok_def)
  have "fst (view q p) = p" if "p < unat (mq_capacity q)" for p
    using c(4) that unfolding slots_ok_def slot_ok_def by fastforce
  then show "at_rest q" using c by (simp add: at_rest_def)
  show "mpsc_items q = []" "unat (mq_tail q) = 0" using c by (simp_all add: mpsc_items_def)
qed



section \<open>A queue of one slot\<close>

definition one_slot :: tp_mpsc_queue where
  "one_slot = \<lparr>mq_slots = Some [(2, [8])], mq_capacity = 1, mq_mask = 0, mq_item_size = 1, mq_head = 0, mq_tail = 2\<rparr>"

lemma one_slot_spins: "mpsc_run cas (one_slot, PollLoad) = None" "mpsc_run cas (one_slot, PollCheck 0) = None"
proof (induction cas)
  case (Cons c cas)
  have "mpsc_step c one_slot PollLoad = (one_slot, PollCheck 0)" "mpsc_step c one_slot (PollCheck 0) = (one_slot, PollLoad)"
    by (simp_all add: one_slot_def tp_mpsc_slot_at_def Let_def in_int64_def)
  then show "mpsc_run (c # cas) (one_slot, PollLoad) = None" "mpsc_run (c # cas) (one_slot, PollCheck 0) = None"
    using Cons by (simp_all only: mpsc_run.simps)
qed simp_all

definition one_item :: tp_mpsc_queue where
  "one_item = \<lparr>mq_slots = Some [(1, [7])], mq_capacity = 1, mq_mask = 0, mq_item_size = 1, mq_head = 0, mq_tail = 1\<rparr>"

lemmas one_eval = offer_enter_def tp_mpsc_queue_offer_def tp_mpsc_queue_alloc_slots_def upt_rec Let_def in_int64_def
  tp_mpsc_slot_at_def put_slot_def

text \<open>
  \<open>tp_mpsc_queue_init\<close> accepts a capacity of one, for which the sequence numbers of a full slot
  and of a slot that is free again are the same. A second offer is accepted and overwrites the first item, and from
  then on a poll never returns.
\<close>

theorem mpsc_one_slot_stuck:
  "\<exists>q. tp_mpsc_queue_init 1 = Inr q \<and>
     tp_mpsc_queue_offer [True, True, True, True, True] True q [7] = Some (one_item, Accepted) \<and>
     tp_mpsc_queue_offer [True, True, True, True, True] True one_item [8] = Some (one_slot, Accepted) \<and>
     (\<forall>cas. tp_mpsc_queue_poll cas one_slot 1 = None)"
proof (intro exI conjI allI)
  let ?q = "\<lparr>mq_slots = None, mq_capacity = 1, mq_mask = 0, mq_item_size = 0, mq_head = 0, mq_tail = 0\<rparr>"
  show "tp_mpsc_queue_init 1 = Inr ?q" by (simp add: tp_mpsc_queue_init_def is_power_of_two_def)
  show "tp_mpsc_queue_offer [True, True, True, True, True] True ?q [7] = Some (one_item, Accepted)"
    by (simp add: one_eval one_item_def)
  show "tp_mpsc_queue_offer [True, True, True, True, True] True one_item [8] = Some (one_slot, Accepted)"
    by (simp add: one_eval one_item_def one_slot_def)
  show "tp_mpsc_queue_poll cas one_slot 1 = None" for cas
    using one_slot_spins(1) by (simp add: tp_mpsc_queue_poll_def poll_enter_def one_slot_def)
qed

end
