(* ===== verification/Tp_Consumer_Control.thy ===== *)
theory Tp_Consumer_Control
  imports Tp_Consumer Tp_Shm
begin

text \<open>
  The control half of the consumer (src/src/client/tp_consumer.c): mapping the regions of an epoch,
  applying pool announcements, consumer configurations and lease revocations, and the liveness checks
  that end a mapping. A control message is given decoded; strings are without a NUL. System calls,
  clock readings and allocations are arguments.
\<close>

section \<open>State\<close>

record tp_consumer_pool_config =
  pc_pool_id :: u16
  pc_nslots :: u32
  pc_stride_bytes :: u32
  pc_uri :: string

record tp_consumer_config =
  cg_stream_id :: u32
  cg_epoch :: u64
  cg_layout_version :: u32
  cg_header_nslots :: u32
  cg_header_uri :: string
  cg_pools :: "tp_consumer_pool_config list"

record tp_consumer_pool =
  cp_pool_id :: u16
  cp_nslots :: u32
  cp_stride_bytes :: u32
  cp_region :: tp_shm_region

text \<open>
  The consumer around its data half \<open>cx_data\<close>. \<open>cx_pools\<close> is the pointer to the pool array,
  \<open>None\<close> when it is null, and \<open>cx_pool_count\<close> the count the code keeps beside it. The
  context of the consumer (its stream and id, the layout version and the ids of its hello) and what it
  needs of the client are fields too. \<open>cx_hellos\<close> are the hellos sent, last first.
\<close>

record consumer =
  cx_data :: tp_consumer
  cx_header_region :: tp_shm_region
  cx_pools :: "tp_consumer_pool list option"
  cx_pool_count :: nat
  cx_layout_version :: u32
  cx_payload_fallback_uri :: string
  cx_announce_join_time_ns :: u64
  cx_last_announce_rx_ns :: u64
  cx_last_announce_timestamp_ns :: u64
  cx_last_announce_clock_domain :: u8
  cx_last_announce_epoch :: u64
  cx_assigned_descriptor_stream_id :: u32
  cx_assigned_control_stream_id :: u32
  cx_driver_attached :: bool
  cx_active_lease_id :: u64
  cx_stream_id :: u32
  cx_consumer_id :: u32
  cx_expected_layout_version :: u32
  cx_hello_ids :: "u32 \<times> u32"
  cx_announce_period_ns :: u64
  cx_control_publication :: bool
  cx_qos_publication :: bool
  cx_hellos :: "(u32 \<times> u32) list"

text \<open>
  The answers of the outside during one operation: \<open>cv_os n\<close> during the \<open>n\<close>-th mapping
  (the header ring is number 0), \<open>cv_statfs_os n\<close> for the stride check before it, the clock, and
  whether allocations and \<open>munmap\<close> succeed.
\<close>

record client_env =
  cv_os :: "nat \<Rightarrow> nat \<Rightarrow> os"
  cv_statfs_os :: "nat \<Rightarrow> os"
  cv_allowed :: tp_allowed_paths
  cv_alloc_ok :: bool
  cv_munmap_ok :: bool
  cv_join_ns :: u64
  cv_now_ns :: u64
  cv_realtime_ns :: u64
  cv_attach_ns :: u64
  cv_add_subscription :: "string \<Rightarrow> u32 \<Rightarrow> bool"

section \<open>Unmapping\<close>

definition unmap_header :: "client_env \<Rightarrow> tp_shm_region \<Rightarrow> tp_shm_region" where
  "unmap_header env region = (case tp_shm_unmap (cv_munmap_ok env) region of Inl e \<Rightarrow> region | Inr r \<Rightarrow> r)"

text \<open>
  The code visits \<open>pool_count\<close> elements of the array. It is undefined when the array has fewer,
  in particular when it is null.
\<close>

definition pools_reachable :: "consumer \<Rightarrow> bool" where
  "pools_reachable c \<longleftrightarrow> cx_pool_count c \<le> (case cx_pools c of None \<Rightarrow> 0 | Some ps \<Rightarrow> length ps)"

definition consumer_unmap_regions :: "client_env \<Rightarrow> consumer \<Rightarrow> consumer res" where
  "consumer_unmap_regions env c =
     guard (\<not> pools_reachable c) (UB ''consumer->pools'')
       (Inr (c\<lparr>cx_data := tp_consumer_unmap_regions (cx_data c), cx_header_region := unmap_header env (cx_header_region c),
          cx_pools := None, cx_pool_count := 0\<rparr>))"

definition consumer_enter_fallback :: "client_env \<Rightarrow> consumer \<Rightarrow> consumer res" where
  "consumer_enter_fallback env c =
     bind_res (consumer_unmap_regions env c) (\<lambda>c.
       Inr (c\<lparr>cx_data := (cx_data c)\<lparr>co_state := TP_CONSUMER_STATE_FALLBACK\<rparr>\<rparr>))"

section \<open>Attaching\<close>

definition read_pid :: "sb_codec \<Rightarrow> tp_shm_region \<Rightarrow> tp_shm_region res" where
  "read_pid K region = bind_res (tp_shm_read_pid K region) (\<lambda>pid. Inr (region\<lparr>rg_pid := pid\<rparr>))"

definition check_header :: "sb_codec \<Rightarrow> tp_consumer_config \<Rightarrow> tp_shm_region \<Rightarrow> tp_shm_region res" where
  "check_header K config region =
     bind_res (tp_shm_validate_superblock K region
         (Some (header_expected (cg_stream_id config) (cg_epoch config) (cg_header_nslots config)))) (\<lambda>_.
       read_pid K region)"

text \<open>Pool number \<open>i\<close> is mapping \<open>i + 1\<close>.\<close>

definition attach_pool :: "sb_codec \<Rightarrow> client_env \<Rightarrow> tp_consumer_config \<Rightarrow> nat \<Rightarrow> tp_consumer_pool_config \<Rightarrow> tp_consumer_pool res" where
  "attach_pool K env config i pool_cfg =
     guard (pc_nslots pool_cfg \<noteq> cg_header_nslots config) (EINVAL ''tp_consumer_attach: pool nslots mismatch'')
     (bind_res (tp_shm_validate_stride_alignment (cv_statfs_os env (Suc i)) (pc_uri pool_cfg) (pc_stride_bytes pool_cfg)) (\<lambda>_.
      bind_res (tp_shm_map (cv_os env (Suc i)) (pc_uri pool_cfg) False (cv_allowed env)) (\<lambda>region.
      bind_res (tp_shm_validate_superblock K region
          (Some (pool_expected (cg_stream_id config) (cg_epoch config) (pc_nslots pool_cfg) (pc_pool_id pool_cfg) (pc_stride_bytes pool_cfg)))) (\<lambda>_.
      bind_res (read_pid K region) (\<lambda>region.
        Inr \<lparr>cp_pool_id = pc_pool_id pool_cfg, cp_nslots = pc_nslots pool_cfg, cp_stride_bytes = pc_stride_bytes pool_cfg,
             cp_region = region\<rparr>)))))"

fun attach_pools :: "sb_codec \<Rightarrow> client_env \<Rightarrow> tp_consumer_config \<Rightarrow> nat \<Rightarrow> tp_consumer_pool_config list \<Rightarrow> tp_consumer_pool list res" where
  "attach_pools K env config i [] = Inr []"
| "attach_pools K env config i (pool_cfg # pool_cfgs) =
     bind_res (attach_pool K env config i pool_cfg) (\<lambda>pool.
     bind_res (attach_pools K env config (Suc i) pool_cfgs) (\<lambda>pools. Inr (pool # pools)))"

text \<open>
  The mappings of an attachment. A failure comes with the header region as it is then: untouched
  when no path is allowed, without a mapping when \<open>tp_shm_map\<close> fails, mapped when a later step
  does.
\<close>

definition attach_regions :: "sb_codec \<Rightarrow> client_env \<Rightarrow> tp_consumer_config \<Rightarrow> tp_shm_region \<Rightarrow>
    tp_error \<times> tp_shm_region + tp_shm_region \<times> tp_consumer_pool list" where
  "attach_regions K env config old =
     (case tp_shm_map (cv_os env 0) (cg_header_uri config) False (cv_allowed env) of
        Inl e \<Rightarrow> Inl (e, if ap_canonical_paths (cv_allowed env) = [] then old else unmapped_region)
      | Inr region \<Rightarrow>
          (case check_header K config region of
             Inl e \<Rightarrow> Inl (e, region)
           | Inr region \<Rightarrow>
               (case attach_pools K env config 0 (cg_pools config) of
                  Inl e \<Rightarrow> Inl (e, region)
                | Inr pools \<Rightarrow> Inr (region, pools))))"

text \<open>The pools as the data path sees them: the region of a pool is its index.\<close>

definition payload_pools :: "tp_consumer_pool list \<Rightarrow> tp_payload_pool list" where
  "payload_pools pools =
     List.map (\<lambda>(i, pool). \<lparr>pl_pool_id = cp_pool_id pool, pl_nslots = cp_nslots pool, pl_stride_bytes = cp_stride_bytes pool,
       pl_region = i\<rparr>) (List.enumerate 0 pools)"

definition tp_consumer_prepare_hello :: "consumer \<Rightarrow> u32 \<times> u32" where
  "tp_consumer_prepare_hello c =
     (if fst (cx_hello_ids c) \<noteq> 0 then fst (cx_hello_ids c)
      else if co_stream_id (cx_data c) \<noteq> 0 then co_stream_id (cx_data c) else cx_stream_id c,
      if snd (cx_hello_ids c) \<noteq> 0 then snd (cx_hello_ids c) else cx_consumer_id c)"

text \<open>
  An operation that can fail returns its result with the consumer it leaves; the outer \<open>Inl\<close> is
  reserved for undefined behaviour.

  The code after the label \<open>cleanup\<close>, with the error that led there: a consumer with a fallback
  URI ends in fallback and reports success.
\<close>

definition attach_cleanup :: "client_env \<Rightarrow> tp_error \<Rightarrow> consumer \<Rightarrow> (unit res \<times> consumer) res" where
  "attach_cleanup env e c =
     guard (cx_pools c \<noteq> None \<and> \<not> pools_reachable c) (UB ''consumer->pools'')
        (let c = c\<lparr>cx_header_region := unmap_header env (cx_header_region c), cx_pools := None, cx_pool_count := 0,
               cx_data := (cx_data c)\<lparr>co_pools := [], co_header_nslots := 0, co_state := TP_CONSUMER_STATE_UNMAPPED,
                 co_shm_mapped := False, co_mapped_epoch := 0, co_last_seq_seen := 0, co_drops_gap := 0, co_drops_late := 0,
                 co_last_qos_ns := 0\<rparr>\<rparr>
         in if cx_payload_fallback_uri c \<noteq> [] then bind_res (consumer_enter_fallback env c) (\<lambda>c. Inr (Inr (), c))
            else Inr (Inl e, c))"

text \<open>
  A failed allocation and a slot count that is not a power of two return at once, without the
  cleanup; the second leaves \<open>pool_count\<close> and \<open>header_nslots\<close> as the configuration has them.
\<close>

definition attach_success :: "client_env \<Rightarrow> tp_consumer_config \<Rightarrow> tp_shm_region \<Rightarrow> tp_consumer_pool list \<Rightarrow> consumer \<Rightarrow> consumer" where
  "attach_success env config header pools c =
     (let c = c\<lparr>cx_header_region := header, cx_pools := (if pools = [] then cx_pools c else Some pools)\<rparr>;
          c = (if cx_control_publication c then c\<lparr>cx_hellos := tp_consumer_prepare_hello c # cx_hellos c\<rparr> else c)
      in c\<lparr>cx_last_announce_epoch := cg_epoch config,
           cx_data := tp_consumer_clear_reattach ((cx_data c)\<lparr>co_pools := payload_pools pools, co_state := TP_CONSUMER_STATE_MAPPED,
             co_shm_mapped := True, co_mapped_epoch := cg_epoch config, co_attach_time_ns := cv_attach_ns env,
             co_last_seq_seen := 0, co_drops_gap := 0, co_drops_late := 0, co_last_qos_ns := 0\<rparr>)\<rparr>)"

definition tp_consumer_attach_config :: "sb_codec \<Rightarrow> client_env \<Rightarrow> tp_consumer_config \<Rightarrow> consumer \<Rightarrow> (unit res \<times> consumer) res" where
  "tp_consumer_attach_config K env config c =
     (let c = c\<lparr>cx_layout_version := cg_layout_version config, cx_pool_count := length (cg_pools config),
            cx_data := (cx_data c)\<lparr>co_stream_id := cg_stream_id config, co_epoch := cg_epoch config,
              co_header_nslots := cg_header_nslots config\<rparr>\<rparr>
      in if cg_layout_version config \<noteq> TP_LAYOUT_VERSION
         then attach_cleanup env (EINVAL ''tp_consumer_attach: unsupported layout version'') c
         else if \<not> tp_is_power_of_two (cg_header_nslots config)
         then Inr (Inl (EINVAL ''tp_consumer_attach: header_nslots must be power of two''), c)
         else if cg_pools config \<noteq> [] \<and> \<not> cv_alloc_ok env
         then Inr (Inl FAIL, c\<lparr>cx_pool_count := 0, cx_data := (cx_data c)\<lparr>co_header_nslots := 0\<rparr>\<rparr>)
         else
           (let c = (if cg_pools config \<noteq> []
                     then c\<lparr>cx_pools := Some (replicate (length (cg_pools config))
                       \<lparr>cp_pool_id = 0, cp_nslots = 0, cp_stride_bytes = 0, cp_region = unmapped_region\<lparr>rg_fd := 0\<rparr>\<rparr>)\<rparr> else c)
            in case attach_regions K env config (cx_header_region c) of
                 Inl (e, header) \<Rightarrow> attach_cleanup env e (c\<lparr>cx_header_region := header\<rparr>)
               | Inr (header, pools) \<Rightarrow> Inr (Inr (), attach_success env config header pools c)))"

section \<open>Control messages\<close>

record tp_shm_pool_desc =
  ds_pool_id :: u16
  ds_nslots :: u32
  ds_stride_bytes :: u32
  ds_region_uri :: string

record tp_shm_pool_announce_view =
  an_stream_id :: u32
  an_epoch :: u64
  an_timestamp_ns :: u64
  an_clock_domain :: u8
  an_layout_version :: u32
  an_header_nslots :: u32
  an_header_slot_bytes :: u16
  an_header_region_uri :: string
  an_pools :: "tp_shm_pool_desc list"

record tp_consumer_config_view =
  vw_consumer_id :: u32
  vw_use_shm :: u8
  vw_descriptor_stream_id :: u32
  vw_control_stream_id :: u32
  vw_payload_fallback_uri :: string
  vw_descriptor_channel :: string
  vw_control_channel :: string

definition TP_CLOCK_DOMAIN_MONOTONIC :: u8 where
  "TP_CLOCK_DOMAIN_MONOTONIC = 1"

definition TP_CLOCK_DOMAIN_REALTIME_SYNCED :: u8 where
  "TP_CLOCK_DOMAIN_REALTIME_SYNCED = 2"

definition TP_ROLE_CONSUMER :: u8 where
  "TP_ROLE_CONSUMER = 2"

text \<open>The copies of the URIs of an announcement: an empty one cannot be copied.\<close>

fun announce_pools :: "bool \<Rightarrow> u32 \<Rightarrow> tp_shm_pool_desc list \<Rightarrow> tp_consumer_pool_config list res" where
  "announce_pools alloc_ok header_nslots [] = Inr []"
| "announce_pools alloc_ok header_nslots (pool # pools) =
     guard (ds_region_uri pool = [] \<or> \<not> alloc_ok) (ENOMEM ''tp_consumer_apply_announce: pool uri allocation failed'')
     (guard (ds_nslots pool \<noteq> header_nslots) (EINVAL ''tp_consumer_apply_announce: pool nslots mismatch'')
     (bind_res (announce_pools alloc_ok header_nslots pools) (\<lambda>cfgs.
        Inr (\<lparr>pc_pool_id = ds_pool_id pool, pc_nslots = ds_nslots pool, pc_stride_bytes = ds_stride_bytes pool,
              pc_uri = ds_region_uri pool\<rparr> # cfgs))))"

definition announce_config :: "client_env \<Rightarrow> tp_shm_pool_announce_view \<Rightarrow> tp_consumer_config res" where
  "announce_config env announce =
     guard (an_header_region_uri announce = []) (EINVAL ''tp_consumer_apply_announce: missing header region uri'')
     (guard (ucast (an_header_slot_bytes announce) \<noteq> TP_HEADER_SLOT_BYTES) (EINVAL ''tp_consumer_apply_announce: header slot bytes mismatch'')
     (guard (an_pools announce = []) (EINVAL ''tp_consumer_apply_announce: missing payload pools'')
     (guard (\<not> cv_alloc_ok env) (ENOMEM ''tp_consumer_apply_announce: allocation failed'')
     (bind_res (announce_pools (cv_alloc_ok env) (an_header_nslots announce) (an_pools announce)) (\<lambda>pools.
        Inr \<lparr>cg_stream_id = an_stream_id announce, cg_epoch = an_epoch announce, cg_layout_version = an_layout_version announce,
             cg_header_nslots = an_header_nslots announce, cg_header_uri = an_header_region_uri announce, cg_pools = pools\<rparr>)))))"

definition tp_consumer_apply_announce :: "sb_codec \<Rightarrow> client_env \<Rightarrow> tp_shm_pool_announce_view \<Rightarrow> consumer \<Rightarrow> (unit res \<times> consumer) res" where
  "tp_consumer_apply_announce K env announce c =
     (case announce_config env announce of
        Inl e \<Rightarrow> Inr (Inl e, c)
      | Inr config \<Rightarrow>
          bind_res (consumer_unmap_regions env c) (\<lambda>c.
          bind_res (tp_consumer_attach_config K env config c) (\<lambda>(r, c).
            case r of
              Inl e \<Rightarrow> Inr (Inl e, c)
            | Inr _ \<Rightarrow>
                if co_state (cx_data c) = TP_CONSUMER_STATE_FALLBACK then Inr (Inr (), c)
                else
                  Inr (Inr (), c\<lparr>cx_data := (cx_data c)\<lparr>co_state := TP_CONSUMER_STATE_MAPPED, co_shm_mapped := True,
                     co_mapped_epoch := an_epoch announce\<rparr>\<rparr>))))"

text \<open>The tests of the handler before an announcement is applied.\<close>

definition announce_now :: "client_env \<Rightarrow> tp_shm_pool_announce_view \<Rightarrow> u64" where
  "announce_now env announce =
     (if an_clock_domain announce = TP_CLOCK_DOMAIN_REALTIME_SYNCED then cv_realtime_ns env else cv_now_ns env)"

definition announce_ignored :: "client_env \<Rightarrow> tp_shm_pool_announce_view \<Rightarrow> consumer \<Rightarrow> bool" where
  "announce_ignored env announce c \<longleftrightarrow>
     an_stream_id announce \<noteq> cx_stream_id c \<or>
     an_clock_domain announce = TP_CLOCK_DOMAIN_REALTIME_SYNCED \<and> cv_realtime_ns env = 0 \<or>
     announce_now env announce > an_timestamp_ns announce \<and>
       announce_now env announce - an_timestamp_ns announce > cx_announce_period_ns c * TP_ANNOUNCE_FRESHNESS_MULTIPLIER \<or>
     an_clock_domain announce = TP_CLOCK_DOMAIN_MONOTONIC \<and> an_timestamp_ns announce < cx_announce_join_time_ns c \<or>
     cx_expected_layout_version c \<noteq> 0 \<and> an_layout_version announce \<noteq> cx_expected_layout_version c"

definition announce_epoch :: "sb_codec \<Rightarrow> client_env \<Rightarrow> tp_shm_pool_announce_view \<Rightarrow> consumer \<Rightarrow> consumer res" where
  "announce_epoch K env announce c =
     (let mapped = co_shm_mapped (cx_data c) \<and> an_epoch announce \<noteq> co_mapped_epoch (cx_data c);
          older = an_epoch announce < co_mapped_epoch (cx_data c)
      in bind_res (if mapped then consumer_unmap_regions env c else Inr c) (\<lambda>c.
           if mapped \<and> older then Inr c
           else if cx_last_announce_epoch c \<noteq> 0 \<and> an_epoch announce < cx_last_announce_epoch c then Inr c
           else
             bind_res (tp_consumer_apply_announce K env announce c) (\<lambda>(r, c).
               case r of
                 Inl e \<Rightarrow> Inr c
               | Inr _ \<Rightarrow>
                  Inr (c\<lparr>cx_last_announce_rx_ns := cv_now_ns env, cx_last_announce_timestamp_ns := an_timestamp_ns announce,
                         cx_last_announce_clock_domain := an_clock_domain announce, cx_last_announce_epoch := an_epoch announce\<rparr>))))"

definition handle_announce :: "sb_codec \<Rightarrow> client_env \<Rightarrow> tp_shm_pool_announce_view \<Rightarrow> consumer \<Rightarrow> consumer res" where
  "handle_announce K env announce c =
     (if \<not> co_use_shm (cx_data c) then Inr c
      else
        (let c = (if cx_announce_join_time_ns c = 0 then c\<lparr>cx_announce_join_time_ns := cv_join_ns env\<rparr> else c)
         in if announce_ignored env announce c then Inr c else announce_epoch K env announce c))"

definition tp_consumer_set_payload_fallback :: "string \<Rightarrow> consumer \<Rightarrow> consumer" where
  "tp_consumer_set_payload_fallback uri c =
     c\<lparr>cx_payload_fallback_uri :=
        (if \<not> tp_payload_fallback_uri_supported uri (length uri) then [] else take (TP_URI_MAX_LENGTH - 1) uri)\<rparr>"

text \<open>A channel of the assignment replaces the subscription when the new one can be added.\<close>

definition assign_stream :: "client_env \<Rightarrow> string \<Rightarrow> u32 \<Rightarrow> u32" where
  "assign_stream env channel stream_id =
     (if channel \<noteq> [] \<and> stream_id > 0 \<and> cv_add_subscription env (take 4095 channel) stream_id then stream_id else 0)"

definition handle_config :: "client_env \<Rightarrow> tp_consumer_config_view \<Rightarrow> consumer \<Rightarrow> consumer res" where
  "handle_config env view c =
     (if vw_consumer_id view \<noteq> cx_consumer_id c then Inr c
      else if (vw_descriptor_channel view = []) \<noteq> (vw_descriptor_stream_id view = 0) then Inr c
      else if (vw_control_channel view = []) \<noteq> (vw_control_stream_id view = 0) then Inr c
      else
        (let use_shm = vw_use_shm view \<noteq> 0;
             c = tp_consumer_set_payload_fallback (vw_payload_fallback_uri view)
                   (c\<lparr>cx_assigned_descriptor_stream_id := 0, cx_assigned_control_stream_id := 0,
                      cx_data := (cx_data c)\<lparr>co_use_shm := use_shm\<rparr>\<rparr>)
         in bind_res (if \<not> use_shm then consumer_enter_fallback env c
                      else if co_state (cx_data c) = TP_CONSUMER_STATE_FALLBACK
                      then Inr (c\<lparr>cx_data := (cx_data c)\<lparr>co_state := TP_CONSUMER_STATE_UNMAPPED\<rparr>\<rparr>) else Inr c) (\<lambda>c.
              Inr (c\<lparr>cx_assigned_descriptor_stream_id := assign_stream env (vw_descriptor_channel view) (vw_descriptor_stream_id view),
                     cx_assigned_control_stream_id := assign_stream env (vw_control_channel view) (vw_control_stream_id view)\<rparr>))))"

definition handle_revoked :: "client_env \<Rightarrow> u32 \<Rightarrow> u8 \<Rightarrow> consumer \<Rightarrow> consumer res" where
  "handle_revoked env client_id role c =
     (if client_id = cx_consumer_id c \<and> role = TP_ROLE_CONSUMER then
        bind_res (consumer_unmap_regions env c) (\<lambda>c.
          Inr (c\<lparr>cx_active_lease_id := 0, cx_driver_attached := False,
                 cx_data := tp_consumer_schedule_reattach (cx_data c) (cv_now_ns env)\<rparr>))
      else Inr c)"

text \<open>
  The decoders are tried in this order. A shutdown notice is passed to the error handler of the
  client and changes nothing here; so does a message that no decoder accepts.
\<close>

datatype consumer_msg =
    PoolAnnounceMsg tp_shm_pool_announce_view
  | ConsumerConfigMsg tp_consumer_config_view
  | LeaseRevokedMsg u32 u8
  | OtherMsg

primrec tp_consumer_control_handler :: "sb_codec \<Rightarrow> client_env \<Rightarrow> consumer_msg \<Rightarrow> consumer \<Rightarrow> consumer res" where
  "tp_consumer_control_handler K env (PoolAnnounceMsg announce) c = handle_announce K env announce c"
| "tp_consumer_control_handler K env (ConsumerConfigMsg view) c = handle_config env view c"
| "tp_consumer_control_handler K env (LeaseRevokedMsg client_id role) c = handle_revoked env client_id role c"
| "tp_consumer_control_handler K env OtherMsg c = Inr c"

section \<open>Liveness\<close>

text \<open>The superblocks as they are when the check reads them are the contents of the regions.\<close>

definition consumer_check_activity :: "sb_codec \<Rightarrow> client_env \<Rightarrow> consumer \<Rightarrow> consumer res" where
  "consumer_check_activity K env c =
     (let data = tp_consumer_check_activity_liveness (cx_announce_period_ns c)
            (tp_shm_read_activity_timestamp K (cx_header_region c)) (cx_data c) (cv_now_ns env)
      in if data = cx_data c then Inr c else consumer_unmap_regions env c)"

fun pids_match :: "sb_codec \<Rightarrow> tp_shm_region list \<Rightarrow> bool option" where
  "pids_match K [] = Some True"
| "pids_match K (region # regions) =
     (case tp_shm_read_pid K region of
        Inl e \<Rightarrow> None
      | Inr pid \<Rightarrow> if pid \<noteq> rg_pid region then Some False else pids_match K regions)"

definition tp_consumer_check_pid_liveness :: "sb_codec \<Rightarrow> client_env \<Rightarrow> consumer \<Rightarrow> consumer res" where
  "tp_consumer_check_pid_liveness K env c =
     (if \<not> co_shm_mapped (cx_data c) then Inr c
      else guard (\<not> pools_reachable c) (UB ''consumer->pools'')
        (case pids_match K (cx_header_region c # List.map cp_region (case cx_pools c of None \<Rightarrow> [] | Some ps \<Rightarrow> take (cx_pool_count c) ps)) of
           Some False \<Rightarrow> consumer_unmap_regions env c
         | _ \<Rightarrow> Inr c))"

definition poll_qos :: "client_env \<Rightarrow> consumer \<Rightarrow> consumer" where
  "poll_qos env c =
     (let period = cx_announce_period_ns c; last_qos_ns = co_last_qos_ns (cx_data c)
      in if cx_qos_publication c \<and> period > 0 \<and> (last_qos_ns = 0 \<or> cv_now_ns env - last_qos_ns \<ge> period)
         then c\<lparr>cx_data := (cx_data c)\<lparr>co_last_qos_ns := cv_now_ns env\<rparr>\<rparr> else c)"

fun consumer_handle_all :: "sb_codec \<Rightarrow> (client_env \<times> consumer_msg) list \<Rightarrow> consumer \<Rightarrow> consumer res" where
  "consumer_handle_all K [] c = Inr c"
| "consumer_handle_all K ((env, msg) # msgs) c =
     bind_res (tp_consumer_control_handler K env msg c) (consumer_handle_all K msgs)"

text \<open>
  A poll of the control and announce subscriptions: the messages they deliver, each with the
  answers of the outside while it is handled, then the QoS report and the two liveness checks.
\<close>

definition tp_consumer_poll_control :: "sb_codec \<Rightarrow> (client_env \<times> consumer_msg) list \<Rightarrow> client_env \<Rightarrow> consumer \<Rightarrow> consumer res" where
  "tp_consumer_poll_control K msgs env c =
     bind_res (consumer_handle_all K msgs c) (\<lambda>c.
     bind_res (consumer_check_activity K env (poll_qos env c)) (\<lambda>c.
       tp_consumer_check_pid_liveness K env c))"

section \<open>The invariant\<close>

definition pools_consistent :: "consumer \<Rightarrow> bool" where
  "pools_consistent c \<longleftrightarrow> cx_pool_count c = (case cx_pools c of None \<Rightarrow> 0 | Some ps \<Rightarrow> length ps)"

definition pool_valid :: "sb_codec \<Rightarrow> u32 \<Rightarrow> u64 \<Rightarrow> u32 \<Rightarrow> tp_consumer_pool \<Rightarrow> bool" where
  "pool_valid K stream_id epoch nslots pool \<longleftrightarrow> cp_nslots pool = nslots \<and> 64 \<le> cp_stride_bytes pool \<and> cp_stride_bytes pool mod 64 = 0 \<and>
     tp_shm_validate_superblock K (cp_region pool)
       (Some (pool_expected stream_id epoch nslots (cp_pool_id pool) (cp_stride_bytes pool))) = Inr ()"

text \<open>A mapped consumer holds validated regions of one epoch of its stream.\<close>

definition mapping_valid :: "sb_codec \<Rightarrow> u32 \<Rightarrow> u64 \<Rightarrow> consumer \<Rightarrow> bool" where
  "mapping_valid K stream_id epoch c \<longleftrightarrow>
     co_state (cx_data c) = TP_CONSUMER_STATE_MAPPED \<and> co_stream_id (cx_data c) = stream_id \<and> co_epoch (cx_data c) = epoch \<and>
     co_mapped_epoch (cx_data c) = epoch \<and> tp_is_power_of_two (co_header_nslots (cx_data c)) \<and>
     tp_shm_validate_superblock K (cx_header_region c)
       (Some (header_expected stream_id epoch (co_header_nslots (cx_data c)))) = Inr () \<and>
     (\<exists>ps. cx_pools c = Some ps \<and> co_pools (cx_data c) = payload_pools ps \<and>
        list_all (pool_valid K stream_id epoch (co_header_nslots (cx_data c))) ps)"

definition consumer_ok :: "sb_codec \<Rightarrow> consumer \<Rightarrow> bool" where
  "consumer_ok K c \<longleftrightarrow> pools_consistent c \<and>
     (if co_shm_mapped (cx_data c) then mapping_valid K (cx_stream_id c) (co_mapped_epoch (cx_data c)) c
      else co_state (cx_data c) \<noteq> TP_CONSUMER_STATE_MAPPED \<and> co_header_nslots (cx_data c) = 0 \<and> co_pools (cx_data c) = [] \<and>
        cx_pools c = None)"

lemma consistent_reachable [simp]: "pools_consistent c \<Longrightarrow> pools_reachable c"
  by (simp add: pools_consistent_def pools_reachable_def)

lemma consumer_ok_consistent [simp]: "consumer_ok K c \<Longrightarrow> pools_consistent c"
  by (simp add: consumer_ok_def)

lemma unmapped_ok:
  "\<not> co_shm_mapped (cx_data c) \<Longrightarrow> co_state (cx_data c) \<noteq> TP_CONSUMER_STATE_MAPPED \<Longrightarrow> co_header_nslots (cx_data c) = 0 \<Longrightarrow>
   co_pools (cx_data c) = [] \<Longrightarrow> cx_pools c = None \<Longrightarrow> cx_pool_count c = 0 \<Longrightarrow> consumer_ok K c"
  by (simp add: consumer_ok_def pools_consistent_def)

definition unmapped :: "client_env \<Rightarrow> consumer \<Rightarrow> consumer" where
  "unmapped env c = c\<lparr>cx_data := tp_consumer_unmap_regions (cx_data c), cx_header_region := unmap_header env (cx_header_region c),
     cx_pools := None, cx_pool_count := 0\<rparr>"

lemma unmap_regions: "pools_reachable c \<Longrightarrow> consumer_unmap_regions env c = Inr (unmapped env c)"
  by (simp add: consumer_unmap_regions_def unmapped_def)

lemma unmapped_fields [simp]:
  "\<not> co_shm_mapped (cx_data (unmapped env c))" "cx_pools (unmapped env c) = None" "cx_pool_count (unmapped env c) = 0"
  "co_state (cx_data (unmapped env c)) = TP_CONSUMER_STATE_UNMAPPED" "co_header_nslots (cx_data (unmapped env c)) = 0"
  "co_pools (cx_data (unmapped env c)) = []" "cx_stream_id (unmapped env c) = cx_stream_id c"
  "cx_last_announce_epoch (unmapped env c) = cx_last_announce_epoch c"
  "cx_payload_fallback_uri (unmapped env c) = cx_payload_fallback_uri c"
  "co_use_shm (cx_data (unmapped env c)) = co_use_shm (cx_data c)" "cx_consumer_id (unmapped env c) = cx_consumer_id c"
  by (simp_all add: unmapped_def tp_consumer_unmap_regions_def)

lemma unmapped_unmapped_ok [simp]: "consumer_ok K (unmapped env c)"
  by (rule unmapped_ok) simp_all

section \<open>Attaching keeps the invariant\<close>

lemma read_pid_valid:
  "read_pid K region = Inr region' \<Longrightarrow> tp_shm_validate_superblock K region' e = tp_shm_validate_superblock K region e"
  by (auto simp: read_pid_def res_simps tp_shm_validate_superblock_def split: option.splits)

lemma check_header_valid:
  "check_header K config region = Inr region' \<Longrightarrow>
   tp_shm_validate_superblock K region' (Some (header_expected (cg_stream_id config) (cg_epoch config) (cg_header_nslots config))) = Inr ()"
  by (auto simp: check_header_def res_simps read_pid_valid)

lemma stride_aligned:
  "tp_shm_validate_stride_alignment os uri stride = Inr () \<Longrightarrow> 64 \<le> stride \<and> stride mod 64 = 0"
  unfolding tp_shm_validate_stride_alignment_def by (simp only: guard_Inr) (simp only: de_Morgan_disj not_less not_not)

lemma attach_pool_valid:
  "attach_pool K env config i pool_cfg = Inr pool \<Longrightarrow> pool_valid K (cg_stream_id config) (cg_epoch config) (cg_header_nslots config) pool"
  by (auto simp: attach_pool_def pool_valid_def res_simps read_pid_valid dest: stride_aligned)

lemma attach_pools_valid:
  "attach_pools K env config i cfgs = Inr pools \<Longrightarrow>
   length pools = length cfgs \<and> list_all (pool_valid K (cg_stream_id config) (cg_epoch config) (cg_header_nslots config)) pools"
  by (induction cfgs arbitrary: i pools) (auto simp: res_simps dest: attach_pool_valid)

lemma attach_regions_valid:
  assumes "attach_regions K env config old = Inr (header, pools)"
  shows "length pools = length (cg_pools config)"
    "tp_shm_validate_superblock K header (Some (header_expected (cg_stream_id config) (cg_epoch config) (cg_header_nslots config))) = Inr ()"
    "list_all (pool_valid K (cg_stream_id config) (cg_epoch config) (cg_header_nslots config)) pools"
  using assms
  by (auto simp: attach_regions_def check_header_valid dest: attach_pools_valid split: sum.splits)

lemma cleanup_ok:
  assumes "cx_pools c \<noteq> None \<longrightarrow> pools_reachable c"
  shows "\<exists>r c'. attach_cleanup env e c = Inr (r, c') \<and> consumer_ok K c' \<and> \<not> co_shm_mapped (cx_data c') \<and>
    cx_stream_id c' = cx_stream_id c \<and> cx_last_announce_epoch c' = cx_last_announce_epoch c \<and> (r = Inr () \<longrightarrow> co_state (cx_data c') = TP_CONSUMER_STATE_FALLBACK)"
  using assms by (auto simp: attach_cleanup_def Let_def consumer_enter_fallback_def unmap_regions pools_reachable_def
      tp_consumer_unmap_regions_def unmapped_def intro!: unmapped_ok)

end
