(* ===== verification/Tp_Consumer_Mapping.thy ===== *)
theory Tp_Consumer_Mapping
  imports Tp_Consumer_Control
begin

text \<open>
  What the control half of the consumer keeps: whatever arrives, a mapped consumer holds validated
  regions of one epoch of its own stream, and an announcement only ever moves it to a fresh epoch that
  is not older. The one message that breaks this is an announcement whose slot count is not a power of
  two; the last theorem shows what it does.
\<close>

section \<open>Attaching\<close>

lemma attach_success_ok:
  assumes "attach_regions K env config old = Inr (header, pools)"
    "cg_pools config \<noteq> []" "tp_is_power_of_two (cg_header_nslots config)" "cg_stream_id config = cx_stream_id c"
    "co_stream_id (cx_data c) = cg_stream_id config" "co_epoch (cx_data c) = cg_epoch config"
    "co_header_nslots (cx_data c) = cg_header_nslots config" "cx_pool_count c = length (cg_pools config)"
  shows "consumer_ok K (attach_success env config header pools c)"
  using attach_regions_valid [OF assms(1)] assms(2-)
  by (auto simp: consumer_ok_def pools_consistent_def mapping_valid_def attach_success_def Let_def tp_consumer_clear_reattach_def)

lemma attach_success_fields:
  "cx_stream_id (attach_success env config header pools c) = cx_stream_id c"
  "co_shm_mapped (cx_data (attach_success env config header pools c))"
  "co_state (cx_data (attach_success env config header pools c)) = TP_CONSUMER_STATE_MAPPED"
  "co_mapped_epoch (cx_data (attach_success env config header pools c)) = cg_epoch config"
  "cx_last_announce_epoch (attach_success env config header pools c) = cg_epoch config"
  by (simp_all add: attach_success_def Let_def tp_consumer_clear_reattach_def)

text \<open>
  A successful attachment of a consumer with a fallback URI may have ended in fallback; then it is not
  mapped.
\<close>

definition attached :: "sb_codec \<Rightarrow> u64 \<Rightarrow> consumer \<Rightarrow> unit res \<Rightarrow> consumer \<Rightarrow> bool" where
  "attached K epoch c r c' \<longleftrightarrow> consumer_ok K c' \<and> cx_stream_id c' = cx_stream_id c \<and>
     (co_shm_mapped (cx_data c') \<longrightarrow> r = Inr () \<and> co_mapped_epoch (cx_data c') = epoch) \<and>
     cx_last_announce_epoch c' = (if co_shm_mapped (cx_data c') then epoch else cx_last_announce_epoch c) \<and>
     (r = Inr () \<longrightarrow> co_shm_mapped (cx_data c') \<or> co_state (cx_data c') = TP_CONSUMER_STATE_FALLBACK)"

lemma attach_config_ok:
  assumes "consumer_ok K c" "\<not> co_shm_mapped (cx_data c)" "tp_is_power_of_two (cg_header_nslots config)"
    "cg_pools config \<noteq> []" "cg_stream_id config = cx_stream_id c"
  shows "\<exists>r c'. tp_consumer_attach_config K env config c = Inr (r, c') \<and> attached K (cg_epoch config) c r c'"
proof -
  have cleanup: "\<exists>r c'. attach_cleanup env e d = Inr (r, c') \<and> attached K (cg_epoch config) c r c'"
    if "cx_pools d \<noteq> None \<longrightarrow> pools_reachable d" "cx_stream_id d = cx_stream_id c"
      "cx_last_announce_epoch d = cx_last_announce_epoch c" for e d
    using cleanup_ok [OF that(1), of env e K] that(2,3) unfolding attached_def by auto
  let ?c = "c\<lparr>cx_layout_version := cg_layout_version config, cx_pool_count := length (cg_pools config),
            cx_data := (cx_data c)\<lparr>co_stream_id := cg_stream_id config, co_epoch := cg_epoch config,
              co_header_nslots := cg_header_nslots config\<rparr>\<rparr>"
  have none: "cx_pools c = None" using assms(1,2) by (simp add: consumer_ok_def)
  have nomem: "attached K (cg_epoch config) c (Inl FAIL) (?c\<lparr>cx_pool_count := 0, cx_data := (cx_data ?c)\<lparr>co_header_nslots := 0\<rparr>\<rparr>)"
    using assms(1,2) by (auto simp: attached_def consumer_ok_def pools_consistent_def)
  let ?d = "?c\<lparr>cx_pools := Some (replicate (length (cg_pools config))
                       \<lparr>cp_pool_id = 0, cp_nslots = 0, cp_stride_bytes = 0, cp_region = unmapped_region\<lparr>rg_fd := 0\<rparr>\<rparr>)\<rparr>"
  have success: "attached K (cg_epoch config) c (Inr ()) (attach_success env config header pools ?d)"
    if "attach_regions K env config (cx_header_region c) = Inr (header, pools)" for header pools
    using attach_success_ok [OF that assms(4,3), of ?d] assms(5) by (simp add: attached_def attach_success_fields)
  have version: "\<exists>r c'. attach_cleanup env e ?c = Inr (r, c') \<and> attached K (cg_epoch config) c r c'" for e
    by (rule cleanup) (simp_all add: none)
  have fail: "\<exists>r c'. attach_cleanup env e (?d\<lparr>cx_header_region := header\<rparr>) = Inr (r, c') \<and> attached K (cg_epoch config) c r c'"
    for e header
    by (rule cleanup) (simp_all add: pools_reachable_def)
  show ?thesis
  proof (cases "cg_layout_version config \<noteq> TP_LAYOUT_VERSION \<or> \<not> cv_alloc_ok env")
    case True
    then show ?thesis
      using version nomem assms(3,4) by (auto simp: tp_consumer_attach_config_def Let_def)
  next
    case False
    then show ?thesis
      using fail success assms(3,4)
      by (auto simp: tp_consumer_attach_config_def Let_def split: sum.split)
  qed
qed

section \<open>Announcements\<close>

definition consumer_inv :: "sb_codec \<Rightarrow> consumer \<Rightarrow> bool" where
  "consumer_inv K c \<longleftrightarrow> consumer_ok K c \<and> (co_shm_mapped (cx_data c) \<longrightarrow> co_mapped_epoch (cx_data c) = cx_last_announce_epoch c)"

text \<open>One step of the consumer: the invariant holds after it, and the epoch it knows is not older.\<close>

definition advances :: "sb_codec \<Rightarrow> consumer \<Rightarrow> consumer \<Rightarrow> bool" where
  "advances K c c' \<longleftrightarrow> consumer_inv K c' \<and> cx_stream_id c' = cx_stream_id c \<and> cx_last_announce_epoch c \<le> cx_last_announce_epoch c'"

lemma advances_refl: "consumer_inv K c \<Longrightarrow> advances K c c"
  by (simp add: advances_def)

lemma advances_trans: "advances K c c' \<Longrightarrow> advances K c' c'' \<Longrightarrow> advances K c c''"
  by (auto simp: advances_def)

lemma advances_inv: "advances K c c' \<Longrightarrow> consumer_inv K c'"
  by (simp add: advances_def)

lemma inv_consistent [simp]: "consumer_inv K c \<Longrightarrow> pools_reachable c"
  unfolding consumer_inv_def by (elim conjE) simp

lemma unmapped_advances: "advances K c (unmapped env c)"
  by (simp add: advances_def consumer_inv_def)

lemma announce_config_fields:
  "announce_config env announce = Inr config \<Longrightarrow> cg_stream_id config = an_stream_id announce \<and> cg_epoch config = an_epoch announce \<and>
   cg_header_nslots config = an_header_nslots announce \<and> cg_pools config \<noteq> []"
  by (cases "an_pools announce") (auto simp: announce_config_def res_simps)

lemma remap_same:
  assumes "co_state (cx_data c) = TP_CONSUMER_STATE_MAPPED" "co_shm_mapped (cx_data c)" "co_mapped_epoch (cx_data c) = epoch"
  shows "c\<lparr>cx_data := (cx_data c)\<lparr>co_state := TP_CONSUMER_STATE_MAPPED, co_shm_mapped := True, co_mapped_epoch := epoch\<rparr>\<rparr> = c"
proof -
  have "(cx_data c)\<lparr>co_state := TP_CONSUMER_STATE_MAPPED, co_shm_mapped := True, co_mapped_epoch := epoch\<rparr> = cx_data c"
    using assms by (cases "cx_data c") simp
  then show ?thesis by simp
qed

lemma apply_announce_ok:
  assumes "consumer_ok K c" "tp_is_power_of_two (an_header_nslots announce)" "an_stream_id announce = cx_stream_id c"
  shows "\<exists>r c'. tp_consumer_apply_announce K env announce c = Inr (r, c') \<and>
    (r \<noteq> Inr () \<and> c' = c \<or> attached K (an_epoch announce) (unmapped env c) r c')"
proof (cases "announce_config env announce")
  case (Inl e)
  then show ?thesis by (simp add: tp_consumer_apply_announce_def)
next
  case (Inr config)
  note fields = announce_config_fields [OF Inr]
  obtain r c' where attach: "tp_consumer_attach_config K env config (unmapped env c) = Inr (r, c')"
    and c': "attached K (an_epoch announce) (unmapped env c) r c'"
    using attach_config_ok [of K "unmapped env c" config env] fields assms by auto
  let ?c = "c'\<lparr>cx_data := (cx_data c')\<lparr>co_state := TP_CONSUMER_STATE_MAPPED, co_shm_mapped := True,
     co_mapped_epoch := an_epoch announce\<rparr>\<rparr>"
  have "?c = c'" if "r = Inr ()" "co_state (cx_data c') \<noteq> TP_CONSUMER_STATE_FALLBACK"
    by (rule remap_same) (use c' that in \<open>auto simp: attached_def consumer_ok_def mapping_valid_def\<close>)
  then show ?thesis
    using attach c' Inr assms(1)
    by (cases r) (auto simp: tp_consumer_apply_announce_def unmap_regions)
qed

text \<open>
  What an announcement does to a consumer that is mapped afterwards: it kept the mapping it had, or it
  mapped the regions of this announcement.
\<close>

definition same_mapping :: "consumer \<Rightarrow> consumer \<Rightarrow> bool" where
  "same_mapping c c' \<longleftrightarrow> cx_data c' = cx_data c \<and> cx_header_region c' = cx_header_region c \<and> cx_pools c' = cx_pools c"

lemma announce_epoch_ok:
  assumes inv: "consumer_inv K c" and pow: "tp_is_power_of_two (an_header_nslots announce)"
    and stream: "an_stream_id announce = cx_stream_id c"
  shows "\<exists>c'. announce_epoch K env announce c = Inr c' \<and> advances K c c' \<and>
    (co_shm_mapped (cx_data c') \<longrightarrow> same_mapping c c' \<or>
       co_mapped_epoch (cx_data c') = an_epoch announce \<and> cx_last_announce_epoch c \<le> an_epoch announce)"
proof -
  let ?mapped = "co_shm_mapped (cx_data c) \<and> an_epoch announce \<noteq> co_mapped_epoch (cx_data c)"
  define d where "d = (if ?mapped then unmapped env c else c)"
  have d: "advances K c d" "an_stream_id announce = cx_stream_id d" "cx_last_announce_epoch d = cx_last_announce_epoch c"
    "co_shm_mapped (cx_data d) \<longrightarrow> same_mapping c d"
    using inv stream by (auto simp: d_def unmapped_advances advances_refl same_mapping_def)
  have unmap: "(if ?mapped then consumer_unmap_regions env c else Inr c) = Inr d"
    using inv by (simp add: d_def unmap_regions)
  obtain r c' where app: "tp_consumer_apply_announce K env announce d = Inr (r, c')"
    and c': "r \<noteq> Inr () \<and> c' = d \<or> attached K (an_epoch announce) (unmapped env d) r c'"
    using apply_announce_ok [OF _ pow d(2), of K env] d(1) unfolding advances_def consumer_inv_def by blast
  let ?skip = "?mapped \<and> an_epoch announce < co_mapped_epoch (cx_data c) \<or>
    cx_last_announce_epoch d \<noteq> 0 \<and> an_epoch announce < cx_last_announce_epoch d"
  let ?d = "c'\<lparr>cx_last_announce_rx_ns := cv_now_ns env, cx_last_announce_timestamp_ns := an_timestamp_ns announce,
     cx_last_announce_clock_domain := an_clock_domain announce, cx_last_announce_epoch := an_epoch announce\<rparr>"
  have skip: "announce_epoch K env announce c = Inr d" if ?skip
    unfolding announce_epoch_def Let_def unmap using that by auto
  have go: "announce_epoch K env announce c = Inr (if r = Inr () then ?d else c')" if "\<not> ?skip"
    unfolding announce_epoch_def Let_def unmap using that app by (cases r) auto
  show ?thesis
  proof (cases ?skip)
    case True
    show ?thesis unfolding skip [OF True] using d by blast
  next
    case False
    then have le: "cx_last_announce_epoch c \<le> an_epoch announce" using d(3) by (auto simp: not_less)
    show ?thesis
    proof (cases "r \<noteq> Inr () \<and> c' = d")
      case True
      then show ?thesis unfolding go [OF False] using d by auto
    next
      case fresh: False
      then have att: "attached K (an_epoch announce) (unmapped env d) r c'" using c' by blast
      have frame: "consumer_ok K ?d = consumer_ok K c'"
        by (simp add: consumer_ok_def pools_consistent_def mapping_valid_def)
      have "advances K c (if r = Inr () then ?d else c') \<and>
        (co_shm_mapped (cx_data (if r = Inr () then ?d else c')) \<longrightarrow>
          co_mapped_epoch (cx_data (if r = Inr () then ?d else c')) = an_epoch announce)"
        using att d(2,3) stream le frame by (auto simp: attached_def advances_def consumer_inv_def)
      then show ?thesis unfolding go [OF False] using le by blast
    qed
  qed
qed

lemma inv_frame:
  "consumer_inv K (c\<lparr>cx_announce_join_time_ns := t\<rparr>) = consumer_inv K c"
  "consumer_inv K (c\<lparr>cx_assigned_descriptor_stream_id := x, cx_assigned_control_stream_id := y\<rparr>) = consumer_inv K c"
  "consumer_inv K (c\<lparr>cx_data := (cx_data c)\<lparr>co_last_qos_ns := t\<rparr>\<rparr>) = consumer_inv K c"
  by (simp_all add: consumer_inv_def consumer_ok_def pools_consistent_def mapping_valid_def)

text \<open>The consumer as the handler sees it once the join time is set.\<close>

definition joined :: "client_env \<Rightarrow> consumer \<Rightarrow> consumer" where
  "joined env c = (if cx_announce_join_time_ns c = 0 then c\<lparr>cx_announce_join_time_ns := cv_join_ns env\<rparr> else c)"

lemma joined_fields [simp]:
  "cx_data (joined env c) = cx_data c" "cx_header_region (joined env c) = cx_header_region c" "cx_pools (joined env c) = cx_pools c"
  "cx_stream_id (joined env c) = cx_stream_id c" "cx_last_announce_epoch (joined env c) = cx_last_announce_epoch c"
  "consumer_inv K (joined env c) = consumer_inv K c"
  by (simp_all add: joined_def inv_frame)

lemma handle_announce_joined:
  "handle_announce K env announce c =
     (if \<not> co_use_shm (cx_data c) then Inr c
      else if announce_ignored env announce (joined env c) then Inr (joined env c) else announce_epoch K env announce (joined env c))"
  by (simp add: handle_announce_def joined_def)

lemma handle_announce_ok:
  assumes inv: "consumer_inv K c" and pow: "tp_is_power_of_two (an_header_nslots announce)"
  shows "\<exists>c'. handle_announce K env announce c = Inr c' \<and> advances K c c' \<and>
    (co_shm_mapped (cx_data c') \<longrightarrow> same_mapping c c' \<or>
       co_use_shm (cx_data c) \<and> \<not> announce_ignored env announce (joined env c) \<and>
       co_mapped_epoch (cx_data c') = an_epoch announce \<and> cx_last_announce_epoch c \<le> an_epoch announce)"
proof (cases "co_use_shm (cx_data c) \<and> \<not> announce_ignored env announce (joined env c)")
  case True
  then have "an_stream_id announce = cx_stream_id (joined env c)" by (auto simp: announce_ignored_def)
  from announce_epoch_ok [OF _ pow this, of K env] obtain c' where
    "announce_epoch K env announce (joined env c) = Inr c'" "advances K (joined env c) c'"
    "co_shm_mapped (cx_data c') \<longrightarrow> same_mapping (joined env c) c' \<or>
       co_mapped_epoch (cx_data c') = an_epoch announce \<and> cx_last_announce_epoch (joined env c) \<le> an_epoch announce"
    using inv by auto
  then show ?thesis using True by (auto simp: handle_announce_joined same_mapping_def advances_def)
next
  case False
  then show ?thesis using inv by (auto simp: handle_announce_joined same_mapping_def advances_def)
qed

section \<open>The other messages\<close>

lemma handle_config_ok:
  assumes inv: "consumer_inv K c"
  shows "\<exists>c'. handle_config env view c = Inr c' \<and> advances K c c'"
proof -
  define d where "d = tp_consumer_set_payload_fallback (vw_payload_fallback_uri view)
    (c\<lparr>cx_assigned_descriptor_stream_id := 0, cx_assigned_control_stream_id := 0, cx_data := (cx_data c)\<lparr>co_use_shm := vw_use_shm view \<noteq> 0\<rparr>\<rparr>)"
  have d: "advances K c d" "pools_reachable d"
    using inv inv_consistent [OF inv]
    by (auto simp: d_def advances_def tp_consumer_set_payload_fallback_def consumer_inv_def consumer_ok_def pools_consistent_def
        mapping_valid_def pools_reachable_def)
  have "advances K d ((unmapped env d)\<lparr>cx_data := (cx_data (unmapped env d))\<lparr>co_state := TP_CONSUMER_STATE_FALLBACK\<rparr>\<rparr>)"
    by (auto simp: advances_def consumer_inv_def intro!: unmapped_ok)
  then obtain e where e: "consumer_enter_fallback env d = Inr e" "advances K d e"
    using d(2) by (auto simp: consumer_enter_fallback_def unmap_regions)
  have f: "advances K d (d\<lparr>cx_data := (cx_data d)\<lparr>co_state := TP_CONSUMER_STATE_UNMAPPED\<rparr>\<rparr>)"
    if "co_state (cx_data d) = TP_CONSUMER_STATE_FALLBACK"
    using d that by (auto simp: advances_def consumer_inv_def consumer_ok_def pools_consistent_def mapping_valid_def)
  have assign: "advances K c (x\<lparr>cx_assigned_descriptor_stream_id := y, cx_assigned_control_stream_id := z\<rparr>)"
    if "advances K d x" for x y z
    using advances_trans [OF d(1) that] by (simp add: advances_def inv_frame)
  show ?thesis
    using advances_refl [OF inv] assign e f advances_refl d(1)
    unfolding handle_config_def Let_def d_def [symmetric] by (auto simp: advances_def)
qed

lemma handle_revoked_ok:
  assumes "consumer_inv K c"
  shows "\<exists>c'. handle_revoked env client_id role c = Inr c' \<and> advances K c c'"
  using assms by (auto simp: handle_revoked_def unmap_regions advances_def consumer_inv_def tp_consumer_schedule_reattach_def intro!: unmapped_ok)

text \<open>An announcement whose slot count is a power of two; the other messages are unrestricted.\<close>

primrec msg_ok :: "consumer_msg \<Rightarrow> bool" where
  "msg_ok (PoolAnnounceMsg announce) = tp_is_power_of_two (an_header_nslots announce)"
| "msg_ok (ConsumerConfigMsg view) = True"
| "msg_ok (LeaseRevokedMsg client_id role) = True"
| "msg_ok OtherMsg = True"

lemma control_handler_ok:
  "consumer_inv K c \<Longrightarrow> msg_ok msg \<Longrightarrow> \<exists>c'. tp_consumer_control_handler K env msg c = Inr c' \<and> advances K c c'"
  using handle_announce_ok handle_config_ok handle_revoked_ok advances_refl by (cases msg) (simp_all, blast+)

section \<open>Polling\<close>

lemma check_activity_ok:
  "consumer_inv K c \<Longrightarrow> \<exists>c'. consumer_check_activity K env c = Inr c' \<and> advances K c c'"
  by (simp add: consumer_check_activity_def Let_def unmap_regions unmapped_advances advances_refl)

lemma check_pid_ok:
  "consumer_inv K c \<Longrightarrow> \<exists>c'. tp_consumer_check_pid_liveness K env c = Inr c' \<and> advances K c c'"
  by (simp add: tp_consumer_check_pid_liveness_def unmap_regions unmapped_advances advances_refl split: option.split bool.split)

lemma poll_qos_ok: "consumer_inv K c \<Longrightarrow> advances K c (poll_qos env c)"
  by (simp add: poll_qos_def Let_def advances_def inv_frame)

text \<open>
  Operations that return and keep a contract, and the runs of them. The contract is an invariant
  with a preorder on the states, here that the epoch does not go back.
\<close>

locale kept_steps =
  fixes inv :: "'s \<Rightarrow> bool" and le :: "'s \<Rightarrow> 's \<Rightarrow> bool" and ok :: "'m \<Rightarrow> bool" and step :: "'m \<Rightarrow> 's \<Rightarrow> 's res"
    and run :: "'m list \<Rightarrow> 's \<Rightarrow> 's res"
  assumes le_refl: "inv s \<Longrightarrow> le s s"
    and le_trans: "le s t \<Longrightarrow> le t u \<Longrightarrow> le s u"
    and le_inv: "le s t \<Longrightarrow> inv t"
    and step_kept: "inv s \<Longrightarrow> ok m \<Longrightarrow> \<exists>t. step m s = Inr t \<and> le s t"
    and run_Nil: "run [] s = Inr s"
    and run_Cons: "run (m # ms) s = bind_res (step m s) (run ms)"
begin

lemma run_kept:
  assumes "inv s" "list_all ok ms"
  shows "\<exists>t. run ms s = Inr t \<and> le s t"
  using assms
proof (induction ms arbitrary: s)
  case Nil
  then show ?case by (simp add: run_Nil le_refl)
next
  case (Cons m ms)
  then obtain t where t: "step m s = Inr t" "le s t" using step_kept by fastforce
  then obtain u where "run ms t = Inr u" "le t u" using Cons le_inv by fastforce
  then show ?case using t le_trans by (auto simp: run_Cons)
qed

end

interpretation messages: kept_steps "consumer_inv K" "advances K" "\<lambda>(env, msg). msg_ok msg"
  "\<lambda>(env, msg). tp_consumer_control_handler K env msg" "consumer_handle_all K" for K
proof unfold_locales
  show "\<exists>t. (case m of (env, msg) \<Rightarrow> tp_consumer_control_handler K env msg) s = Inr t \<and> advances K s t"
    if "consumer_inv K s" "case m of (env, msg) \<Rightarrow> msg_ok msg" for s m
    using control_handler_ok that by (cases m) auto
  show "consumer_handle_all K (m # ms) s =
      bind_res ((case m of (env, msg) \<Rightarrow> tp_consumer_control_handler K env msg) s) (consumer_handle_all K ms)" for m ms s
    by (cases m) simp
qed (simp_all add: advances_refl advances_inv advances_trans [rotated])

lemma poll_control_ok:
  assumes "consumer_inv K c" "list_all (\<lambda>(env, msg). msg_ok msg) msgs"
  shows "\<exists>c'. tp_consumer_poll_control K msgs env c = Inr c' \<and> advances K c c'"
proof -
  obtain d where d: "consumer_handle_all K msgs c = Inr d" "advances K c d"
    using messages.run_kept [OF assms] by blast
  have q: "advances K d (poll_qos env d)" by (rule poll_qos_ok) (rule advances_inv [OF d(2)])
  obtain e where e: "consumer_check_activity K env (poll_qos env d) = Inr e" "advances K (poll_qos env d) e"
    using check_activity_ok [OF advances_inv [OF q]] by blast
  obtain f where f: "tp_consumer_check_pid_liveness K env e = Inr f" "advances K e f"
    using check_pid_ok [OF advances_inv [OF e(2)]] by blast
  have "advances K c f"
    using advances_trans [OF advances_trans [OF advances_trans [OF d(2) q] e(2)] f(2)] .
  then show ?thesis using d(1) e(1) f(1) by (simp add: tp_consumer_poll_control_def)
qed

fun consumer_polls :: "sb_codec \<Rightarrow> ((client_env \<times> consumer_msg) list \<times> client_env) list \<Rightarrow> consumer \<Rightarrow> consumer res" where
  "consumer_polls K [] c = Inr c"
| "consumer_polls K ((msgs, env) # polls) c = bind_res (tp_consumer_poll_control K msgs env c) (consumer_polls K polls)"

interpretation polls: kept_steps "consumer_inv K" "advances K" "\<lambda>(msgs, env). list_all (\<lambda>(env, msg). msg_ok msg) msgs"
  "\<lambda>(msgs, env). tp_consumer_poll_control K msgs env" "consumer_polls K" for K
proof unfold_locales
  show "\<exists>t. (case m of (msgs, env) \<Rightarrow> tp_consumer_poll_control K msgs env) s = Inr t \<and> advances K s t"
    if "consumer_inv K s" "case m of (msgs, env) \<Rightarrow> list_all (\<lambda>(env, msg). msg_ok msg) msgs" for s m
    using poll_control_ok that by (cases m) auto
  show "consumer_polls K (m # ms) s =
      bind_res ((case m of (msgs, env) \<Rightarrow> tp_consumer_poll_control K msgs env) s) (consumer_polls K ms)" for m ms s
    by (cases m) simp
qed (simp_all add: advances_refl advances_inv advances_trans [rotated])

section \<open>A new consumer\<close>

text \<open>The instance that \<open>tp_consumer_init\<close> starts from: all zero but the context and \<open>use_shm\<close>.\<close>

definition consumer_instance :: "u32 \<Rightarrow> u32 \<Rightarrow> u32 \<Rightarrow> u32 \<times> u32 \<Rightarrow> bool \<Rightarrow> u64 \<Rightarrow> bool \<Rightarrow> bool \<Rightarrow> consumer" where
  "consumer_instance stream_id consumer_id expected_layout_version hello_ids use_driver period control qos =
     \<lparr>cx_data = \<lparr>co_pools = [], co_stream_id = 0, co_epoch = 0, co_header_nslots = 0, co_state = TP_CONSUMER_STATE_UNMAPPED,
        co_use_shm = True, co_shm_mapped = False, co_mapped_epoch = 0, co_attach_time_ns = 0, co_last_seq_seen = 0, co_drops_gap = 0,
        co_drops_late = 0, co_last_qos_ns = 0, co_use_driver = use_driver, co_next_attach_ns = 0, co_attach_failures = 0,
        co_reattach_requested = False\<rparr>,
      cx_header_region = unmapped_region\<lparr>rg_fd := 0\<rparr>, cx_pools = None, cx_pool_count = 0, cx_layout_version = 0,
      cx_payload_fallback_uri = [], cx_announce_join_time_ns = 0, cx_last_announce_rx_ns = 0, cx_last_announce_timestamp_ns = 0,
      cx_last_announce_clock_domain = 0, cx_last_announce_epoch = 0, cx_assigned_descriptor_stream_id = 0,
      cx_assigned_control_stream_id = 0, cx_driver_attached = False, cx_active_lease_id = 0, cx_stream_id = stream_id,
      cx_consumer_id = consumer_id, cx_expected_layout_version = expected_layout_version, cx_hello_ids = hello_ids,
      cx_announce_period_ns = period, cx_control_publication = control, cx_qos_publication = qos, cx_hellos = []\<rparr>"

lemma instance_inv: "consumer_inv K (consumer_instance stream_id consumer_id layout hello_ids use_driver period control qos)"
  by (simp add: consumer_inv_def consumer_ok_def pools_consistent_def consumer_instance_def)

lemma mapped_valid:
  "consumer_inv K c \<Longrightarrow> co_shm_mapped (cx_data c) \<Longrightarrow>
   mapping_valid K (cx_stream_id c) (co_mapped_epoch (cx_data c)) c \<and> co_mapped_epoch (cx_data c) = cx_last_announce_epoch c"
  unfolding consumer_inv_def consumer_ok_def by (metis (full_types))

text \<open>
  C9: whatever control messages a consumer receives, in whatever order, and whatever the system calls
  answer, its polls return. When it is mapped, its header region and all its pools have passed the
  validation of their superblocks for its own stream and for the one epoch it has mapped, with the slot
  count that frames are looked up with, and the pools the data path uses are those. The epoch it maps
  never goes back. The announcements have a slot count that is a power of two.
\<close>

theorem consumer_run_ok:
  assumes "list_all (\<lambda>(msgs, env). list_all (\<lambda>(env, msg). msg_ok msg) msgs) polls"
    "list_all (\<lambda>(msgs, env). list_all (\<lambda>(env, msg). msg_ok msg) msgs) later"
  shows "\<exists>c c'. consumer_polls K polls (consumer_instance s i v h d p ctl qos) = Inr c \<and> consumer_polls K later c = Inr c' \<and>
    (co_shm_mapped (cx_data c) \<longrightarrow> mapping_valid K s (co_mapped_epoch (cx_data c)) c) \<and>
    (co_shm_mapped (cx_data c') \<longrightarrow> mapping_valid K s (co_mapped_epoch (cx_data c')) c') \<and>
    (co_shm_mapped (cx_data c) \<and> co_shm_mapped (cx_data c') \<longrightarrow> co_mapped_epoch (cx_data c) \<le> co_mapped_epoch (cx_data c'))"
proof -
  let ?c = "consumer_instance s i v h d p ctl qos"
  obtain c where c: "consumer_polls K polls ?c = Inr c" "advances K ?c c"
    using polls.run_kept [OF instance_inv assms(1)] by blast
  obtain c' where c': "consumer_polls K later c = Inr c'" "advances K c c'"
    using polls.run_kept [OF advances_inv [OF c(2)] assms(2)] by blast
  have stream: "cx_stream_id c = s" "cx_stream_id c' = s"
    using c(2) c'(2) by (simp_all add: advances_def consumer_instance_def)
  note valid = mapped_valid [OF advances_inv [OF c(2)]] mapped_valid [OF advances_inv [OF c'(2)]]
  have "cx_last_announce_epoch c \<le> cx_last_announce_epoch c'" using c'(2) by (simp add: advances_def)
  then show ?thesis using c(1) c'(1) valid stream by auto
qed

text \<open>
  C12: a consumer that is mapped after an announcement either has the mapping it had before, unchanged,
  or has mapped the regions of this announcement: one for its own stream, whose time stamp is at most
  the freshness window old, with an epoch that is not older than the last one it accepted.
\<close>

theorem announce_moves_forward:
  assumes "consumer_inv K c" "tp_is_power_of_two (an_header_nslots announce)"
  shows "\<exists>c'. handle_announce K env announce c = Inr c' \<and> consumer_inv K c' \<and>
    (co_shm_mapped (cx_data c') \<longrightarrow> same_mapping c c' \<or>
       co_use_shm (cx_data c) \<and> an_stream_id announce = cx_stream_id c \<and>
       (an_timestamp_ns announce < announce_now env announce \<longrightarrow>
          announce_now env announce - an_timestamp_ns announce \<le> cx_announce_period_ns c * TP_ANNOUNCE_FRESHNESS_MULTIPLIER) \<and>
       cx_last_announce_epoch c \<le> an_epoch announce \<and> mapping_valid K (an_stream_id announce) (an_epoch announce) c')"
proof -
  obtain c' where c': "handle_announce K env announce c = Inr c'" "advances K c c'"
    and mapped: "co_shm_mapped (cx_data c') \<longrightarrow> same_mapping c c' \<or>
       co_use_shm (cx_data c) \<and> \<not> announce_ignored env announce (joined env c) \<and>
       co_mapped_epoch (cx_data c') = an_epoch announce \<and> cx_last_announce_epoch c \<le> an_epoch announce"
    using handle_announce_ok [OF assms, of env] by blast
  have stream: "cx_stream_id c' = cx_stream_id c" using c'(2) by (simp add: advances_def)
  have period: "cx_announce_period_ns (joined env c) = cx_announce_period_ns c" by (simp add: joined_def)
  show ?thesis
    using c' mapped mapped_valid [OF advances_inv [OF c'(2)]] stream advances_inv [OF c'(2)] period
    by (auto simp: announce_ignored_def not_less)
qed

text \<open>
  An announcement for its stream that the consumer does not ignore, and whose slot count is not a
  power of two, breaks the consumer: the attachment fails without its cleanup, the count of pools stays
  set with no pool array, and the revocation of its own lease then reads through the null pointer. So
  does every later unmapping.
\<close>

theorem bad_slot_count_breaks_consumer:
  assumes "consumer_inv K c" "co_use_shm (cx_data c)" "\<not> announce_ignored env announce (joined env c)"
    "\<not> co_shm_mapped (cx_data c)" "cx_last_announce_epoch c \<le> an_epoch announce" "announce_config env announce = Inr config"
    "an_layout_version announce = TP_LAYOUT_VERSION" "\<not> tp_is_power_of_two (an_header_nslots announce)"
  shows "\<exists>c'. tp_consumer_control_handler K env (PoolAnnounceMsg announce) c = Inr c' \<and> \<not> consumer_ok K c' \<and>
    consumer_unmap_regions env' c' = Inl (UB ''consumer->pools'') \<and>
    tp_consumer_control_handler K env' (LeaseRevokedMsg (cx_consumer_id c) TP_ROLE_CONSUMER) c' = Inl (UB ''consumer->pools'')"
proof -
  let ?u = "unmapped env (joined env c)"
  define c' where "c' = ?u\<lparr>cx_layout_version := cg_layout_version config, cx_pool_count := length (cg_pools config),
    cx_data := (cx_data ?u)\<lparr>co_stream_id := cg_stream_id config, co_epoch := cg_epoch config,
      co_header_nslots := cg_header_nslots config\<rparr>\<rparr>"
  note fields = announce_config_fields [OF assms(6)]
  have layout: "cg_layout_version config = TP_LAYOUT_VERSION"
    using assms(6,7) by (auto simp: announce_config_def res_simps)
  have attach: "tp_consumer_attach_config K env config ?u =
      Inr (Inl (EINVAL ''tp_consumer_attach: header_nslots must be power of two''), c')"
    unfolding tp_consumer_attach_config_def Let_def c'_def using layout fields assms(8) by simp
  have reach: "pools_reachable (joined env c)" using assms(1) by (intro inv_consistent [of K]) simp
  have "tp_consumer_apply_announce K env announce (joined env c) =
      Inr (Inl (EINVAL ''tp_consumer_attach: header_nslots must be power of two''), c')"
    using assms(6) attach reach by (simp add: tp_consumer_apply_announce_def unmap_regions)
  then have handled: "tp_consumer_control_handler K env (PoolAnnounceMsg announce) c = Inr c'"
    using assms(2-5) by (auto simp: handle_announce_joined announce_epoch_def not_less)
  have broken: "\<not> pools_reachable c'" "cx_consumer_id c' = cx_consumer_id c"
    using fields by (simp_all add: pools_reachable_def c'_def joined_def)
  then have unmap: "consumer_unmap_regions e c' = Inl (UB ''consumer->pools'')" for e
    by (simp add: consumer_unmap_regions_def)
  then have "handle_revoked env' (cx_consumer_id c) TP_ROLE_CONSUMER c' = Inl (UB ''consumer->pools'')"
    using broken(2) by (simp add: handle_revoked_def)
  then show ?thesis using handled broken(1) unmap by auto
qed

section \<open>Concrete evaluations\<close>

definition quiet_env :: client_env where
  "quiet_env = \<lparr>cv_os = \<lambda>_ _. \<lparr>os_realpath = \<lambda>_. None, os_stat = \<lambda>_. None, os_statfs = \<lambda>_. None, os_open_root = None,
       os_openat = \<lambda>_ _ _. None, os_fstat = \<lambda>_. None, os_fstatfs = \<lambda>_. None, os_mmap = \<lambda>_ _ _. None\<rparr>,
     cv_statfs_os = \<lambda>_. \<lparr>os_realpath = \<lambda>_. None, os_stat = \<lambda>_. None, os_statfs = \<lambda>_. None, os_open_root = None,
       os_openat = \<lambda>_ _ _. None, os_fstat = \<lambda>_. None, os_fstatfs = \<lambda>_. None, os_mmap = \<lambda>_ _ _. None\<rparr>,
     cv_allowed = \<lparr>ap_length = 0, ap_canonical_paths = [], ap_enforce_permissions = False, ap_expected_uid = 0,
       ap_expected_gid = 0, ap_forbidden_mode = 0\<rparr>,
     cv_alloc_ok = True, cv_munmap_ok = True, cv_join_ns = 10, cv_now_ns = 20, cv_realtime_ns = 0, cv_attach_ns = 25,
     cv_add_subscription = \<lambda>_ _. True\<rparr>"

definition sample_announce :: "u32 \<Rightarrow> tp_shm_pool_announce_view" where
  "sample_announce nslots = \<lparr>an_stream_id = 7, an_epoch = 20, an_timestamp_ns = 15, an_clock_domain = TP_CLOCK_DOMAIN_MONOTONIC,
     an_layout_version = TP_LAYOUT_VERSION, an_header_nslots = nslots, an_header_slot_bytes = 256,
     an_header_region_uri = ''shm:file?path=/h'',
     an_pools = [\<lparr>ds_pool_id = 1, ds_nslots = nslots, ds_stride_bytes = 64, ds_region_uri = ''shm:file?path=/p''\<rparr>]\<rparr>"

abbreviation "fresh_consumer \<equiv> consumer_instance 7 5 0 (0, 0) False 1000 True True"

theorem consumer_run_ok_witness:
  "\<exists>c c'. consumer_polls le_superblock [([(quiet_env, PoolAnnounceMsg (sample_announce 2))], quiet_env)] fresh_consumer = Inr c \<and>
     consumer_polls le_superblock [([(quiet_env, LeaseRevokedMsg 5 2)], quiet_env)] c = Inr c'"
  using consumer_run_ok [of "[([(quiet_env, PoolAnnounceMsg (sample_announce 2))], quiet_env)]"
      "[([(quiet_env, LeaseRevokedMsg 5 2)], quiet_env)]" le_superblock 7 5 0 "(0, 0)" False 1000 True True]
  by (auto simp: sample_announce_def tp_is_power_of_two_def)

theorem announce_moves_forward_witness:
  "\<exists>c'. handle_announce le_superblock quiet_env (sample_announce 2) fresh_consumer = Inr c' \<and> consumer_inv le_superblock c'"
  using announce_moves_forward [OF instance_inv [of le_superblock 7 5 0 "(0, 0)" False 1000 True True], of "sample_announce 2" quiet_env]
  by (auto simp: sample_announce_def tp_is_power_of_two_def)

end
