(* ===== verification/Tp_Epoch_Attach.thy ===== *)
theory Tp_Epoch_Attach
  imports Tp_Driver Tp_Consumer_Mapping
begin

text \<open>
  The driver and a consumer together: an epoch that the driver created and announced is one that a
  consumer maps, and what it maps are the driver's files.
\<close>

section \<open>A file that the system serves\<close>

text \<open>
  What the system calls of one mapping answer for a regular file that is where its path says: the path
  is canonical and below an allowed directory, the walk from the root opens the file, its status does
  not change, and its mapping shows its content.
\<close>

definition serves :: "tp_allowed_paths \<Rightarrow> (nat \<Rightarrow> os) \<Rightarrow> string \<Rightarrow> bool \<Rightarrow> bytes \<Rightarrow> bool" where
  "serves allowed os path flag content \<longleftrightarrow>
     list_ex (\<lambda>base. base \<noteq> None \<and> path_under path (the base)) (ap_canonical_paths allowed) \<and>
     (\<exists>fd t st. tp_shm_open_no_symlink os 2 path False = Inr (fd, t) \<and> st_regular st \<and> st_size st = int (length content) \<and>
        tp_shm_validate_permissions st allowed = Inr () \<and>
        (\<forall>n. os_realpath (os n) path = Some path \<and> os_stat (os n) path = Some st \<and> os_fstat (os n) fd = Some st \<and>
           (flag \<longrightarrow> os_fstatfs (os n) fd = Some HUGETLBFS_MAGIC) \<and> os_mmap (os n) fd (length content) False = Some content))"

lemma map_served:
  assumes "serves allowed os path flag content" "tp_shm_uri_parse uri = Inr \<lparr>su_path = path, su_require_hugepages = flag\<rparr>"
    "64 \<le> length content"
  shows "\<exists>region. tp_shm_map os uri False allowed = Inr region \<and> rg_addr region = Some content"
proof -
  obtain fd t st where os: "tp_shm_open_no_symlink os 2 path False = Inr (fd, t)" "st_regular st" "st_size st = int (length content)"
    "tp_shm_validate_permissions st allowed = Inr ()"
    "\<And>n. os_realpath (os n) path = Some path \<and> os_stat (os n) path = Some st \<and> os_fstat (os n) fd = Some st \<and>
       (flag \<longrightarrow> os_fstatfs (os n) fd = Some HUGETLBFS_MAGIC) \<and> os_mmap (os n) fd (length content) False = Some content"
    and allowed: "list_ex (\<lambda>base. base \<noteq> None \<and> path_under path (the base)) (ap_canonical_paths allowed)"
    using assms(1) by (auto simp: serves_def)
  have some: "ap_canonical_paths allowed \<noteq> []" using allowed by auto
  have "tp_shm_validate_path (os n) path allowed = Inr ()" for n
    using allowed some os(2,5) by (simp add: tp_shm_validate_path_def)
  then have "tp_shm_open_canonical os path allowed False = Inr (fd, t + 2)"
    using os by (simp add: tp_shm_open_canonical_def)
  moreover have "(if flag then tp_shm_check_hugepages (os n) fd else Inr ()) = Inr ()" for n
    using os(5) by (simp add: tp_shm_check_hugepages_def)
  ultimately show ?thesis
    using assms(2,3) os some by (simp add: tp_shm_map_def TP_SUPERBLOCK_SIZE_BYTES_def)
qed

section \<open>Attaching to served regions\<close>

text \<open>The region of pool \<open>i\<close> of a configuration is served with this content.\<close>

definition pool_served :: "sb_codec \<Rightarrow> client_env \<Rightarrow> tp_consumer_config \<Rightarrow> nat \<Rightarrow> tp_consumer_pool_config \<Rightarrow> bytes \<Rightarrow> bool" where
  "pool_served K env config i pool content \<longleftrightarrow>
     pc_nslots pool = cg_header_nslots config \<and> 64 \<le> pc_stride_bytes pool \<and> pc_stride_bytes pool mod 64 = 0 \<and> 64 \<le> length content \<and>
     (\<exists>path flag f_type. tp_shm_uri_parse (pc_uri pool) = Inr \<lparr>su_path = path, su_require_hugepages = flag\<rparr> \<and>
        os_statfs (cv_statfs_os env (Suc i)) path = Some f_type \<and> (flag \<longrightarrow> f_type = HUGETLBFS_MAGIC) \<and>
        serves (cv_allowed env) (cv_os env (Suc i)) path flag content) \<and>
     (\<forall>region. rg_addr region = Some content \<longrightarrow> tp_shm_validate_superblock K region (Some (pool_expected (cg_stream_id config)
        (cg_epoch config) (pc_nslots pool) (pc_pool_id pool) (pc_stride_bytes pool))) = Inr ())"

lemma read_pid_mapped: "rg_addr region = Some content \<Longrightarrow> \<exists>region'. read_pid K region = Inr region' \<and> rg_addr region' = Some content"
  by (simp add: read_pid_def tp_shm_read_pid_def)

lemma attach_pool_served:
  assumes "pool_served K env config i pool content"
  shows "\<exists>p. attach_pool K env config i pool = Inr p \<and> cp_pool_id p = pc_pool_id pool \<and> rg_addr (cp_region p) = Some content"
proof -
  obtain path flag f_type where parse: "tp_shm_uri_parse (pc_uri pool) = Inr \<lparr>su_path = path, su_require_hugepages = flag\<rparr>"
    and f: "os_statfs (cv_statfs_os env (Suc i)) path = Some f_type" "flag \<longrightarrow> f_type = HUGETLBFS_MAGIC"
    and served: "serves (cv_allowed env) (cv_os env (Suc i)) path flag content"
    using assms unfolding pool_served_def by blast
  have geometry: "pc_nslots pool = cg_header_nslots config" "\<not> pc_stride_bytes pool < 64" "pc_stride_bytes pool mod 64 = 0"
    "64 \<le> length content"
    using assms unfolding pool_served_def by (simp_all only: not_less simp_thms)
  obtain region where region: "tp_shm_map (cv_os env (Suc i)) (pc_uri pool) False (cv_allowed env) = Inr region"
    "rg_addr region = Some content"
    using map_served [OF served parse geometry(4)] by blast
  obtain region' where pid: "read_pid K region = Inr region'" "rg_addr region' = Some content"
    using read_pid_mapped [OF region(2)] by blast
  have "tp_shm_validate_stride_alignment (cv_statfs_os env (Suc i)) (pc_uri pool) (pc_stride_bytes pool) = Inr ()"
    unfolding tp_shm_validate_stride_alignment_def using geometry(2,3) parse f by (simp only: ) auto
  moreover have "tp_shm_validate_superblock K region (Some (pool_expected (cg_stream_id config) (cg_epoch config) (pc_nslots pool)
      (pc_pool_id pool) (pc_stride_bytes pool))) = Inr ()"
    using assms region(2) unfolding pool_served_def by blast
  ultimately show ?thesis using region(1) pid geometry(1) by (simp add: attach_pool_def)
qed

lemma attach_pools_served:
  assumes "length contents = length pools" "\<forall>k < length pools. pool_served K env config (i + k) (pools ! k) (contents ! k)"
  shows "\<exists>ps. attach_pools K env config i pools = Inr ps \<and> List.map (\<lambda>p. rg_addr (cp_region p)) ps = List.map Some contents"
  using assms
proof (induction pools arbitrary: i contents)
  case Nil
  then show ?case by simp
next
  case (Cons pool pools)
  then obtain content rest where contents: "contents = content # rest" by (cases contents) auto
  have "pool_served K env config i pool content" using Cons.prems(2) contents by fastforce
  then obtain p where p: "attach_pool K env config i pool = Inr p" "rg_addr (cp_region p) = Some content"
    using attach_pool_served by blast
  have "\<forall>k < length pools. pool_served K env config (Suc i + k) (pools ! k) (rest ! k)"
    using Cons.prems(2) contents by fastforce
  then obtain ps where "attach_pools K env config (Suc i) pools = Inr ps" "List.map (\<lambda>p. rg_addr (cp_region p)) ps = List.map Some rest"
    using Cons.IH [of rest "Suc i"] Cons.prems(1) contents by auto
  then show ?case using p contents by auto
qed

lemma attach_config_served:
  assumes "consumer_ok K c" "\<not> co_shm_mapped (cx_data c)" "cg_layout_version config = TP_LAYOUT_VERSION"
    "tp_is_power_of_two (cg_header_nslots config)" "cg_pools config \<noteq> []" "cv_alloc_ok env"
    "tp_shm_uri_parse (cg_header_uri config) = Inr \<lparr>su_path = path, su_require_hugepages = flag\<rparr>"
    "serves (cv_allowed env) (cv_os env 0) path flag header" "64 \<le> length header"
    "\<forall>region. rg_addr region = Some header \<longrightarrow> tp_shm_validate_superblock K region
       (Some (header_expected (cg_stream_id config) (cg_epoch config) (cg_header_nslots config))) = Inr ()"
    "length contents = length (cg_pools config)" "\<forall>k < length (cg_pools config). pool_served K env config k (cg_pools config ! k) (contents ! k)"
  shows "\<exists>c' ps. tp_consumer_attach_config K env config c = Inr (Inr (), c') \<and> co_shm_mapped (cx_data c') \<and>
    co_state (cx_data c') = TP_CONSUMER_STATE_MAPPED \<and> rg_addr (cx_header_region c') = Some header \<and> cx_pools c' = Some ps \<and>
    List.map (\<lambda>p. rg_addr (cp_region p)) ps = List.map Some contents"
proof -
  obtain region where region: "tp_shm_map (cv_os env 0) (cg_header_uri config) False (cv_allowed env) = Inr region"
    "rg_addr region = Some header"
    using map_served [OF assms(8,7,9)] by blast
  obtain region' where pid: "read_pid K region = Inr region'" "rg_addr region' = Some header"
    using read_pid_mapped [OF region(2)] by blast
  have check: "check_header K config region = Inr region'"
    using assms(10) region(2) pid(1) by (simp add: check_header_def)
  obtain ps where ps: "attach_pools K env config 0 (cg_pools config) = Inr ps" "List.map (\<lambda>p. rg_addr (cp_region p)) ps = List.map Some contents"
    using attach_pools_served [OF assms(11), of K env config 0] assms(12) by auto
  have regions: "attach_regions K env config old = Inr (region', ps)" for old
    using region(1) check ps(1) by (simp add: attach_regions_def)
  have "ps \<noteq> []" using ps(2) assms(5,11) by auto
  then show ?thesis
    using assms(3-6) regions pid(2) ps(2) unfolding tp_consumer_attach_config_def Let_def
    by (simp add: attach_success_def Let_def tp_consumer_clear_reattach_def)
qed

section \<open>The announcement of an epoch\<close>

text \<open>
  The announcement that \<open>tp_driver_send_announce\<close> publishes, as the decoder of the client gives it:
  the driver always names the monotonic clock, its own layout version and the slot size.
\<close>

definition announce_view :: "u32 \<Rightarrow> u64 \<Rightarrow> u64 \<Rightarrow> u32 \<Rightarrow> pool_entry list \<Rightarrow> string \<Rightarrow> tp_shm_pool_announce_view" where
  "announce_view s e now nslots pools uri =
     \<lparr>an_stream_id = s, an_epoch = e, an_timestamp_ns = now, an_clock_domain = TP_CLOCK_DOMAIN_MONOTONIC,
      an_layout_version = TP_LAYOUT_VERSION, an_header_nslots = nslots, an_header_slot_bytes = ucast TP_HEADER_SLOT_BYTES,
      an_header_region_uri = uri,
      an_pools = List.map (\<lambda>(pool_id, n, stride, uri). \<lparr>ds_pool_id = pool_id, ds_nslots = n, ds_stride_bytes = stride,
        ds_region_uri = uri\<rparr>) pools\<rparr>"

definition entry_config :: "pool_entry \<Rightarrow> tp_consumer_pool_config" where
  "entry_config = (\<lambda>(pool_id, n, stride, uri). \<lparr>pc_pool_id = pool_id, pc_nslots = n, pc_stride_bytes = stride, pc_uri = uri\<rparr>)"

lemma announce_pools_entries:
  "\<forall>(pool_id, n, stride, uri) \<in> set entries. uri \<noteq> [] \<and> n = nslots \<Longrightarrow>
   announce_pools True nslots (List.map (\<lambda>(pool_id, n, stride, uri). \<lparr>ds_pool_id = pool_id, ds_nslots = n, ds_stride_bytes = stride,
     ds_region_uri = uri\<rparr>) entries) = Inr (List.map entry_config entries)"
  by (induction entries) (auto simp: entry_config_def)

lemma announce_view_config:
  assumes "\<forall>(pool_id, n, stride, uri) \<in> set entries. uri \<noteq> [] \<and> n = nslots" "entries \<noteq> []" "uri \<noteq> []" "cv_alloc_ok env"
  shows "announce_config env (announce_view s e now nslots entries uri) =
    Inr \<lparr>cg_stream_id = s, cg_epoch = e, cg_layout_version = TP_LAYOUT_VERSION, cg_header_nslots = nslots, cg_header_uri = uri,
      cg_pools = List.map entry_config entries\<rparr>"
  using assms announce_pools_entries [OF assms(1)]
  by (simp add: announce_config_def announce_view_def TP_HEADER_SLOT_BYTES_def)

lemma pool_entries_nth:
  assumes "pool_entries h config s e flag nslots pools = Inr entries"
  shows "length entries = length pools \<and> (\<forall>k < length pools. \<exists>uri.
    tp_driver_build_region_uri h config s e (pd_pool_id (pools ! k)) PAYLOAD_POOL flag 4096 = Inr uri \<and>
    entries ! k = (pd_pool_id (pools ! k), nslots, pd_stride_bytes (pools ! k), uri))"
  using assms
proof (induction pools arbitrary: entries)
  case Nil
  then show ?case by simp
next
  case (Cons pool pools)
  then obtain uri rest where "tp_driver_build_region_uri h config s e (pd_pool_id pool) PAYLOAD_POOL flag 4096 = Inr uri"
    "pool_entries h config s e flag nslots pools = Inr rest" "entries = (pd_pool_id pool, nslots, pd_stride_bytes pool, uri) # rest"
    by (auto simp: res_simps)
  then show ?case using Cons.IH by (auto simp: nth_Cons split: nat.split)
qed

lemma region_uri_nonempty: "tp_driver_build_region_uri h config s e p rt flag n = Inr uri \<Longrightarrow> uri \<noteq> []"
  by (auto simp: tp_driver_build_region_uri_def res_simps Let_def)

text \<open>An announcement that is not ignored and not older is applied to the consumer without its old regions.\<close>

lemma announce_applied:
  assumes inv: "consumer_inv K c" and use: "co_use_shm (cx_data c)" "\<not> announce_ignored env announce (joined env c)"
    "cx_last_announce_epoch c \<le> an_epoch announce" "announce_config env announce = Inr config"
    and att: "\<And>u. consumer_ok K u \<Longrightarrow> \<not> co_shm_mapped (cx_data u) \<Longrightarrow> \<exists>c' ps. tp_consumer_attach_config K env config u = Inr (Inr (), c') \<and>
      co_shm_mapped (cx_data c') \<and> co_state (cx_data c') = TP_CONSUMER_STATE_MAPPED \<and> rg_addr (cx_header_region c') = header \<and>
      cx_pools c' = Some ps \<and> P ps"
  shows "\<exists>c' ps. handle_announce K env announce c = Inr c' \<and> co_shm_mapped (cx_data c') \<and>
    co_mapped_epoch (cx_data c') = an_epoch announce \<and> rg_addr (cx_header_region c') = header \<and> cx_pools c' = Some ps \<and> P ps"
proof -
  let ?j = "joined env c"
  let ?mapped = "co_shm_mapped (cx_data ?j) \<and> an_epoch announce \<noteq> co_mapped_epoch (cx_data ?j)"
  define d where "d = (if ?mapped then unmapped env ?j else ?j)"
  have reach: "pools_reachable ?j" by (rule inv_consistent [of K]) (simp add: inv)
  have unmap: "(if ?mapped then consumer_unmap_regions env ?j else Inr ?j) = Inr d"
    using reach by (simp add: d_def unmap_regions)
  have d: "pools_reachable d" "cx_last_announce_epoch d = cx_last_announce_epoch c"
    using reach by (auto simp: d_def pools_reachable_def)
  obtain c' ps where c': "tp_consumer_attach_config K env config (unmapped env d) = Inr (Inr (), c')"
    "co_state (cx_data c') = TP_CONSUMER_STATE_MAPPED" "rg_addr (cx_header_region c') = header" "cx_pools c' = Some ps" "P ps"
    using att [of "unmapped env d"] by auto
  let ?c = "c'\<lparr>cx_data := (cx_data c')\<lparr>co_state := TP_CONSUMER_STATE_MAPPED, co_shm_mapped := True,
     co_mapped_epoch := an_epoch announce\<rparr>\<rparr>"
  have "tp_consumer_apply_announce K env announce d = Inr (Inr (), ?c)"
    using use(4) d(1) c'(1,2) by (simp add: tp_consumer_apply_announce_def unmap_regions)
  moreover have "\<not> (?mapped \<and> an_epoch announce < co_mapped_epoch (cx_data ?j))"
    using mapped_valid [OF inv] use(3) by auto
  moreover have "\<not> (cx_last_announce_epoch d \<noteq> 0 \<and> an_epoch announce < cx_last_announce_epoch d)"
    using d(2) use(3) by auto
  ultimately have "\<exists>c''. announce_epoch K env announce ?j = Inr c'' \<and> cx_data c'' = cx_data ?c \<and> cx_header_region c'' = cx_header_region c' \<and>
    cx_pools c'' = cx_pools c'"
    unfolding announce_epoch_def Let_def unmap by auto
  then show ?thesis
    using use(1,2) c'(3-5) by (auto simp: handle_announce_joined)
qed

text \<open>The files of an epoch are served: the header ring to mapping 0 and pool \<open>k\<close> to mapping \<open>k + 1\<close>.\<close>

definition epoch_served ::
  "client_env \<Rightarrow> host \<Rightarrow> tp_driver_config \<Rightarrow> u32 \<Rightarrow> u64 \<Rightarrow> tp_driver_pool_def list \<Rightarrow> bool \<Rightarrow> (string \<Rightarrow> bytes option) \<Rightarrow> bool" where
  "epoch_served env h config s e pools flag files \<longleftrightarrow>
     (\<forall>path content. tp_driver_build_region_path h config s e 0 HEADER_RING 4096 = Inr path \<and> files path = Some content \<longrightarrow>
        serves (cv_allowed env) (cv_os env 0) path flag content) \<and>
     (\<forall>k < length pools. \<forall>path content.
        tp_driver_build_region_path h config s e (pd_pool_id (pools ! k)) PAYLOAD_POOL 4096 = Inr path \<and> files path = Some content \<longrightarrow>
        serves (cv_allowed env) (cv_os env (Suc k)) path flag content \<and>
        (\<exists>f_type. os_statfs (cv_statfs_os env (Suc k)) path = Some f_type \<and> (flag \<longrightarrow> f_type = HUGETLBFS_MAGIC)))"

definition profile_ok :: "tp_driver_profile \<Rightarrow> bool" where
  "profile_ok profile \<longleftrightarrow> pf_pools profile \<noteq> [] \<and> distinct (List.map pd_pool_id (pf_pools profile)) \<and>
     tp_is_power_of_two (pf_header_nslots profile) \<and> list_all (\<lambda>pool. 64 \<le> pd_stride_bytes pool \<and> pd_stride_bytes pool mod 64 = 0) (pf_pools profile)"

text \<open>The file of one region, its size, and that its superblock passes.\<close>

lemma epoch_region:
  assumes "superblock_codec K width known" "tp_driver_create_shm_epoch K h i d = (Inr (), d')" "i < length (dr_streams d)"
    "ss_profile (dr_streams d ! i) = Some profile" "distinct (List.map pd_pool_id (pf_pools profile))"
    "s = ss_stream_id (dr_streams d ! i)" "e = ss_epoch (dr_streams d ! i)"
    "rt = HEADER_RING \<and> p = 0 \<and> stride = 0 \<or> rt = PAYLOAD_POOL \<and> stride \<noteq> 0 \<and>
       (\<exists>pool \<in> set (pf_pools profile). pd_pool_id pool = p \<and> pd_stride_bytes pool = stride)"
    "tp_driver_build_region_path h (dr_config d) s e p rt 4096 = Inr path"
  shows "\<exists>content. dr_files d' path = Some content \<and> 64 \<le> length content \<and> (\<forall>region. rg_addr region = Some content \<longrightarrow>
     tp_shm_validate_superblock K region (Some (if rt = HEADER_RING then header_expected s e (pf_header_nslots profile)
       else pool_expected s e (pf_header_nslots profile) p stride)) = Inr ())"
proof -
  note steps = create_epoch_steps [OF assms(2,4,5,3), folded assms(6,7)]
  have "region_ready K h d' s e p rt (pf_header_nslots profile) stride"
    using steps assms(8) by fastforce
  from region_ready_valid [OF assms(1) this] assms(8,9) steps show ?thesis
    by (auto simp: region_file_size_def TP_SUPERBLOCK_SIZE_BYTES_def HEADER_RING_def PAYLOAD_POOL_def)
qed

text \<open>What the pools of an announced epoch are to the consumer that attaches.\<close>

lemma epoch_pools_served:
  assumes created: "superblock_codec K width known" "tp_driver_create_shm_epoch K h i d = (Inr (), d')" "i < length (dr_streams d)"
      "ss_profile (dr_streams d ! i) = Some profile" "profile_ok profile"
      "s = ss_stream_id (dr_streams d ! i)" "e = ss_epoch (dr_streams d ! i)"
    and base: "CHR ''|'' \<notin> set (cf_shm_base_dir (dr_config d))"
    and entries: "pool_entries h (dr_config d) s e flag (pf_header_nslots profile) (pf_pools profile) = Inr entries"
    and served: "epoch_served env h (dr_config d) s e (pf_pools profile) flag (dr_files d')"
    and config: "cg_stream_id config = s" "cg_epoch config = e" "cg_header_nslots config = pf_header_nslots profile"
    and k: "k < length (pf_pools profile)"
  shows "\<exists>path content. tp_driver_build_region_path h (dr_config d) s e (pd_pool_id (pf_pools profile ! k)) PAYLOAD_POOL 4096 = Inr path \<and>
    dr_files d' path = Some content \<and> pool_served K env config k (entry_config (entries ! k)) content"
proof -
  let ?pool = "pf_pools profile ! k"
  have pool: "64 \<le> pd_stride_bytes ?pool" "pd_stride_bytes ?pool mod 64 = 0" "distinct (List.map pd_pool_id (pf_pools profile))"
    using created(5) k unfolding profile_ok_def list_all_length by (simp_all only: simp_thms)
  then have nz: "pd_stride_bytes ?pool \<noteq> 0" by auto
  obtain uri where uri: "tp_driver_build_region_uri h (dr_config d) s e (pd_pool_id ?pool) PAYLOAD_POOL flag 4096 = Inr uri"
    and entry: "entries ! k = (pd_pool_id ?pool, pf_header_nslots profile, pd_stride_bytes ?pool, uri)"
    using pool_entries_nth [OF entries] k by blast
  obtain path where path: "tp_driver_build_region_path h (dr_config d) s e (pd_pool_id ?pool) PAYLOAD_POOL 4096 = Inr path"
    and parse: "tp_shm_uri_parse uri = Inr \<lparr>su_path = path, su_require_hugepages = flag\<rparr>"
    using region_uri_reads [OF uri base] by blast
  have mem: "PAYLOAD_POOL = HEADER_RING \<and> pd_pool_id ?pool = 0 \<and> pd_stride_bytes ?pool = 0 \<or> PAYLOAD_POOL = PAYLOAD_POOL \<and>
      pd_stride_bytes ?pool \<noteq> 0 \<and> (\<exists>pool \<in> set (pf_pools profile). pd_pool_id pool = pd_pool_id ?pool \<and> pd_stride_bytes pool = pd_stride_bytes ?pool)"
    using nz nth_mem [OF k] by blast
  obtain content where content: "dr_files d' path = Some content" "64 \<le> length content"
    and valid: "\<forall>region. rg_addr region = Some content \<longrightarrow> tp_shm_validate_superblock K region
      (Some (pool_expected s e (pf_header_nslots profile) (pd_pool_id ?pool) (pd_stride_bytes ?pool))) = Inr ()"
    using epoch_region [OF created(1-4) pool(3) created(6,7) mem path] by (auto simp: HEADER_RING_def PAYLOAD_POOL_def)
  have "serves (cv_allowed env) (cv_os env (Suc k)) path flag content"
    "\<exists>f_type. os_statfs (cv_statfs_os env (Suc k)) path = Some f_type \<and> (flag \<longrightarrow> f_type = HUGETLBFS_MAGIC)"
    using served k path content(1) unfolding epoch_served_def by blast+
  then have "pool_served K env config k (entry_config (entries ! k)) content"
    unfolding pool_served_def entry entry_config_def using pool(1,2) content(2) valid parse config by auto
  then show ?thesis using path content(1) by blast
qed

text \<open>
  C2: the driver and the consumer meet. After the driver created an epoch, a consumer that receives
  its announcement, does not ignore it and knows no newer epoch maps it: it ends mapped at this epoch,
  its header region is the file of the header ring and its pools are the files of the pools, one for
  one. The profile has a power of two of slots and pools with distinct ids and aligned strides, and the
  system serves the driver's files.
\<close>

theorem announced_epoch_mapped:
  assumes "superblock_codec K width known" "tp_driver_create_shm_epoch K h i d = (Inr (), d')" "i < length (dr_streams d)"
    "ss_profile (dr_streams d ! i) = Some profile" "profile_ok profile"
    "s = ss_stream_id (dr_streams d ! i)" "e = ss_epoch (dr_streams d ! i)" "CHR ''|'' \<notin> set (cf_shm_base_dir (dr_config d))"
    "region_entries h (dr_config d) (dr_streams d ! i) flag = Inr (entries, uri)"
    "announce = announce_view s e now (pf_header_nslots profile) entries uri"
    "epoch_served env h (dr_config d) s e (pf_pools profile) flag (dr_files d')" "cv_alloc_ok env"
    "consumer_inv K c" "co_use_shm (cx_data c)" "\<not> announce_ignored env announce (joined env c)" "cx_last_announce_epoch c \<le> e"
  shows "\<exists>c' ps. handle_announce K env announce c = Inr c' \<and> co_shm_mapped (cx_data c') \<and> co_mapped_epoch (cx_data c') = e \<and>
    (\<exists>path. tp_driver_build_region_path h (dr_config d) s e 0 HEADER_RING 4096 = Inr path \<and> rg_addr (cx_header_region c') = dr_files d' path) \<and>
    cx_pools c' = Some ps \<and> length ps = length (pf_pools profile) \<and>
    (\<forall>k < length ps. \<exists>path. tp_driver_build_region_path h (dr_config d) s e (pd_pool_id (pf_pools profile ! k)) PAYLOAD_POOL 4096 = Inr path \<and>
       rg_addr (cp_region (ps ! k)) = dr_files d' path)"
proof -
  have entries: "pool_entries h (dr_config d) s e flag (pf_header_nslots profile) (pf_pools profile) = Inr entries"
    and uri: "tp_driver_build_region_uri h (dr_config d) s e 0 HEADER_RING flag 4096 = Inr uri"
    using assms(4,6,7,9) by (auto simp: region_entries_def Let_def res_simps)
  note nth = pool_entries_nth [OF entries]
  have prof: "tp_is_power_of_two (pf_header_nslots profile)" "entries \<noteq> []" "distinct (List.map pd_pool_id (pf_pools profile))"
    using assms(5) nth unfolding profile_ok_def by auto
  have all: "\<forall>(pool_id, n, stride, uri) \<in> set entries. uri \<noteq> [] \<and> n = pf_header_nslots profile"
    using nth region_uri_nonempty by (fastforce simp: in_set_conv_nth)
  define config where "config = \<lparr>cg_stream_id = s, cg_epoch = e, cg_layout_version = TP_LAYOUT_VERSION,
    cg_header_nslots = pf_header_nslots profile, cg_header_uri = uri, cg_pools = List.map entry_config entries\<rparr>"
  have config: "announce_config env announce = Inr config"
    unfolding assms(10) config_def by (rule announce_view_config [OF all prof(2) region_uri_nonempty [OF uri] assms(12)])
  obtain path where path: "tp_driver_build_region_path h (dr_config d) s e 0 HEADER_RING 4096 = Inr path"
    and parse: "tp_shm_uri_parse uri = Inr \<lparr>su_path = path, su_require_hugepages = flag\<rparr>"
    using region_uri_reads [OF uri assms(8)] by blast
  obtain header where header: "dr_files d' path = Some header" "64 \<le> length header"
    and valid: "\<forall>region. rg_addr region = Some header \<longrightarrow>
      tp_shm_validate_superblock K region (Some (header_expected s e (pf_header_nslots profile))) = Inr ()"
    using epoch_region [OF assms(1-4) prof(3) assms(6,7) _ path, of 0] by auto
  have served: "serves (cv_allowed env) (cv_os env 0) path flag header"
    using assms(11) path header(1) unfolding epoch_served_def by blast
  have "\<forall>k < length (pf_pools profile). \<exists>content path.
      tp_driver_build_region_path h (dr_config d) s e (pd_pool_id (pf_pools profile ! k)) PAYLOAD_POOL 4096 = Inr path \<and>
      dr_files d' path = Some content \<and> pool_served K env config k (entry_config (entries ! k)) content"
    using epoch_pools_served [OF assms(1-8) entries assms(11), of config] by (fastforce simp: config_def)
  then obtain f where f: "\<forall>k < length (pf_pools profile). \<exists>path.
      tp_driver_build_region_path h (dr_config d) s e (pd_pool_id (pf_pools profile ! k)) PAYLOAD_POOL 4096 = Inr path \<and>
      dr_files d' path = Some (f k) \<and> pool_served K env config k (entry_config (entries ! k)) (f k)"
    by metis
  let ?contents = "List.map f [0..<length (pf_pools profile)]"
  have att: "\<exists>c' ps. tp_consumer_attach_config K env config u = Inr (Inr (), c') \<and> co_shm_mapped (cx_data c') \<and>
      co_state (cx_data c') = TP_CONSUMER_STATE_MAPPED \<and> rg_addr (cx_header_region c') = Some header \<and> cx_pools c' = Some ps \<and>
      List.map (\<lambda>p. rg_addr (cp_region p)) ps = List.map Some ?contents"
    if "consumer_ok K u" "\<not> co_shm_mapped (cx_data u)" for u
    by (rule attach_config_served [OF that]) (use prof parse served header(2) valid assms(12) nth f in \<open>auto simp: config_def\<close>)
  obtain c' ps where c': "handle_announce K env announce c = Inr c'" "co_shm_mapped (cx_data c')" "co_mapped_epoch (cx_data c') = e"
    "rg_addr (cx_header_region c') = Some header" "cx_pools c' = Some ps"
    and ps: "List.map (\<lambda>p. rg_addr (cp_region p)) ps = List.map Some ?contents"
    using announce_applied [OF assms(13-15) _ config att] assms(10,16) by (auto simp: announce_view_def)
  have len: "length ps = length (pf_pools profile)" using arg_cong [OF ps, of length] by simp
  have "rg_addr (cp_region (ps ! k)) = Some (f k)" if "k < length ps" for k
    using arg_cong [OF ps, of "\<lambda>l. l ! k"] that len by simp
  then show ?thesis using c' path header(1) len f by auto
qed

section \<open>A concrete evaluation\<close>

definition served_path :: "nat \<Rightarrow> string" where
  "served_path n = ''/dev/shm/tensorpool-tp_user/default/7/20/'' @ (if n = 0 then ''header.ring'' else ''1.pool'')"

definition served_stat :: "bytes \<Rightarrow> file_stat" where
  "served_stat content = \<lparr>st_regular = True, st_dev = 1, st_ino = 2, st_size = int (length content), st_mode = 0, st_uid = 0, st_gid = 0\<rparr>"

text \<open>A system that serves the file of mapping \<open>n\<close> under its path.\<close>

definition serving_os :: "(string \<Rightarrow> bytes option) \<Rightarrow> nat \<Rightarrow> os" where
  "serving_os files n = \<lparr>os_realpath = Some, os_stat = \<lambda>_. Some (served_stat (the (files (served_path n)))),
     os_statfs = \<lambda>_. Some 0x01021994, os_open_root = Some 3, os_openat = \<lambda>_ _ _. Some 4,
     os_fstat = \<lambda>_. Some (served_stat (the (files (served_path n)))), os_fstatfs = \<lambda>_. Some 0x01021994,
     os_mmap = \<lambda>_ _ _. files (served_path n)\<rparr>"

definition serving_env :: "(string \<Rightarrow> bytes option) \<Rightarrow> client_env" where
  "serving_env files = quiet_env\<lparr>cv_os := \<lambda>n _. serving_os files n, cv_statfs_os := serving_os files,
     cv_allowed := \<lparr>ap_length = 1, ap_canonical_paths = [Some ''/dev/shm''], ap_enforce_permissions = False, ap_expected_uid = 0,
       ap_expected_gid = 0, ap_forbidden_mode = 0\<rparr>\<rparr>"

lemma serving_open:
  "tp_shm_open_no_symlink (\<lambda>_. serving_os files n) 2 (served_path n) False = Inr (4, 10)"
  by (simp add: tp_shm_open_no_symlink_def serving_os_def served_path_def tp_shm_open_walk.simps NAME_MAX_def)

lemma serving_serves:
  "files (served_path n) = Some content \<Longrightarrow> serves (cv_allowed (serving_env files)) (cv_os (serving_env files) n) (served_path n) False content"
  using serving_open [of files n]
  by (auto simp: serves_def serving_env_def served_path_def path_under_def strncmp_eq_def serving_os_def served_stat_def
      tp_shm_validate_permissions_def)

lemma sample_paths:
  "tp_driver_build_region_path sample_host sample_config 7 20 0 HEADER_RING 4096 = Inr (served_path 0)"
  "tp_driver_build_region_path sample_host sample_config 7 20 1 PAYLOAD_POOL 4096 = Inr (served_path 1)"
  by code_simp+

lemma sample_entries:
  "region_entries sample_host sample_config sample_stream False =
     Inr ([(1, 2, 64, ''shm:file?path='' @ served_path 1 @ ''|require_hugepages=false'')],
       ''shm:file?path='' @ served_path 0 @ ''|require_hugepages=false'')"
  by code_simp

abbreviation "sample_created \<equiv> snd (tp_driver_create_shm_epoch le_superblock sample_host 0 sample_driver)"

theorem announced_epoch_mapped_witness:
  "\<exists>c' ps. handle_announce le_superblock (serving_env (dr_files sample_created))
       (announce_view 7 20 15 2 [(1, 2, 64, ''shm:file?path='' @ served_path 1 @ ''|require_hugepages=false'')]
         (''shm:file?path='' @ served_path 0 @ ''|require_hugepages=false'')) fresh_consumer = Inr c' \<and>
     co_shm_mapped (cx_data c') \<and> rg_addr (cx_header_region c') = dr_files sample_created (served_path 0) \<and>
     cx_pools c' = Some ps \<and> List.map (\<lambda>p. rg_addr (cp_region p)) ps = [dr_files sample_created (served_path 1)]"
proof -
  let ?env = "serving_env (dr_files sample_created)"
  let ?entries = "[(1, 2, 64, ''shm:file?path='' @ served_path 1 @ ''|require_hugepages=false'')] :: pool_entry list"
  let ?announce = "announce_view 7 20 15 2 ?entries (''shm:file?path='' @ served_path 0 @ ''|require_hugepages=false'')"
  have created: "tp_driver_create_shm_epoch le_superblock sample_host 0 sample_driver = (Inr (), sample_created)"
    using sample_epoch_created by (elim exE) simp
  have driver: "0 < length (dr_streams sample_driver)" "ss_profile (dr_streams sample_driver ! 0) = Some sample_profile"
    "profile_ok sample_profile" "7 = ss_stream_id (dr_streams sample_driver ! 0)" "20 = ss_epoch (dr_streams sample_driver ! 0)"
    "CHR ''|'' \<notin> set (cf_shm_base_dir (dr_config sample_driver))"
    "region_entries sample_host (dr_config sample_driver) (dr_streams sample_driver ! 0) False =
       Inr (?entries, ''shm:file?path='' @ served_path 0 @ ''|require_hugepages=false'')"
    by (simp_all add: sample_driver_def sample_stream_def sample_profile_def profile_ok_def tp_is_power_of_two_def sample_config_def)
      (simp add: sample_entries [unfolded sample_stream_def sample_profile_def sample_config_def])
  have announce: "?announce = announce_view 7 20 15 (pf_header_nslots sample_profile) ?entries
      (''shm:file?path='' @ served_path 0 @ ''|require_hugepages=false'')"
    by (simp add: sample_profile_def)
  have config: "dr_config sample_driver = sample_config" "pf_pools sample_profile = [\<lparr>pd_pool_id = 1, pd_stride_bytes = 64\<rparr>]"
    by (simp_all add: sample_driver_def sample_profile_def)
  have served: "epoch_served ?env sample_host (dr_config sample_driver) 7 20 (pf_pools sample_profile) False (dr_files sample_created)"
    unfolding epoch_served_def config using sample_paths serving_serves [of "dr_files sample_created"]
    by (auto simp: serving_env_def serving_os_def)
  have client: "cv_alloc_ok ?env" "co_use_shm (cx_data fresh_consumer)" "\<not> announce_ignored ?env ?announce (joined ?env fresh_consumer)"
    "cx_last_announce_epoch fresh_consumer \<le> 20"
    by (simp_all add: serving_env_def quiet_env_def consumer_instance_def announce_ignored_def joined_def announce_now_def
        announce_view_def TP_CLOCK_DOMAIN_MONOTONIC_def TP_CLOCK_DOMAIN_REALTIME_SYNCED_def TP_ANNOUNCE_FRESHNESS_MULTIPLIER_def)
  from announced_epoch_mapped [OF sbk.superblock_codec_axioms created driver announce served client(1) instance_inv client(2-4)]
  obtain c' ps where c': "handle_announce le_superblock ?env ?announce fresh_consumer = Inr c'" "co_shm_mapped (cx_data c')"
    "rg_addr (cx_header_region c') = dr_files sample_created (served_path 0)" "cx_pools c' = Some ps" "length ps = 1"
    "rg_addr (cp_region (ps ! 0)) = dr_files sample_created (served_path 1)"
    unfolding config using sample_paths by auto
  then show ?thesis by (intro exI [of _ c'] exI [of _ ps]) (auto simp: length_Suc_conv)
qed

end
