(* ===== verification/Tp_Driver_Client.thy ===== *)
theory Tp_Driver_Client
  imports Tp_Driver Tp_Consumer_Control
begin

text \<open>
  The client side of the driver protocol (src/src/client/tp_driver_client.c): decoding the answers of
  the driver, attaching with retries and a deadline, detaching, keepalives, and the bookkeeping of the
  lease. The generated accessors are a parameter, a record of functions on the bytes of a fragment;
  strings are without a NUL. Clock readings are non-negative 64-bit times in nanoseconds; offers and
  polls of Aeron answer as given by arguments.
\<close>

section \<open>State\<close>

record tp_driver_pool_info =
  pi_pool_id :: u16
  pi_nslots :: u32
  pi_stride_bytes :: u32
  pi_region_uri :: string

record tp_driver_attach_info =
  at_code :: response_code
  at_error_message :: string
  at_lease_id :: u64
  at_lease_expiry_timestamp_ns :: u64
  at_stream_id :: u32
  at_epoch :: u64
  at_layout_version :: u32
  at_header_nslots :: u32
  at_header_slot_bytes :: u16
  at_node_id :: u32
  at_header_region_uri :: string
  at_pools :: "tp_driver_pool_info list"

record tp_driver_attach_request =
  rq_correlation_id :: u64
  rq_stream_id :: u32
  rq_client_id :: u32
  rq_role :: u8
  rq_expected_layout_version :: u32
  rq_publish_mode :: u8
  rq_require_hugepages :: u8
  rq_desired_node_id :: u32

text \<open>What a client offers: an attach, a keepalive (lease, stream, client, role, time) or a detach.\<close>

datatype client_msg =
    AttachMsg tp_driver_attach_request
  | KeepaliveMsg u64 u32 u32 u8 u64
  | DetachMsg u64 u64 u32 u32 u8

text \<open>The client, with the settings of its context and the messages it has offered, last first.\<close>

record tp_driver_client =
  tc_active_lease_id :: u64
  tc_lease_expiry_timestamp_ns :: u64
  tc_last_keepalive_ns :: u64
  tc_active_stream_id :: u32
  tc_client_id :: u32
  tc_role :: u8
  tc_keepalive_interval_ns :: u64
  tc_lease_expiry_grace_intervals :: u64
  tc_sent :: "client_msg list"

section \<open>Accessors\<close>

text \<open>
  What the accessors of an attach response return. The pools are those that \<open>next\<close> reaches; a
  URI or a text is absent when its accessor returns NULL, a code when its accessor refuses the value.
\<close>

record attach_response =
  xr_correlation_id :: u64
  xr_code :: "response_code option"
  xr_lease_id :: u64
  xr_lease_expiry_timestamp_ns :: u64
  xr_stream_id :: u32
  xr_epoch :: u64
  xr_layout_version :: u32
  xr_header_nslots :: u32
  xr_header_slot_bytes :: u16
  xr_node_id :: u32
  xr_pool_count :: nat
  xr_pools :: "(u16 \<times> u32 \<times> u32 \<times> string option) list"
  xr_header_uri :: "string option"
  xr_error_message :: "string option"

record tp_driver_detach_info =
  di_correlation_id :: u64
  di_code :: response_code
  di_error_message :: string

record tp_driver_lease_revoked =
  lr_timestamp_ns :: u64
  lr_lease_id :: u64
  lr_stream_id :: u32
  lr_client_id :: u32
  lr_role :: u8
  lr_reason :: revoke_reason
  lr_error_message :: string

record client_codec =
  kc_header_length :: nat
  kc_header :: "bytes \<Rightarrow> u16 \<times> u16 \<times> u16 \<times> u16"
  kc_schema_id :: u16
  kc_schema_version :: u16
  kc_attach_template :: u16
  kc_attach_block :: u16
  kc_attach :: "bytes \<Rightarrow> attach_response"
  kc_detach_template :: u16
  kc_detach_block :: u16
  kc_detach :: "bytes \<Rightarrow> u64 \<times> response_code option \<times> string option"
  kc_revoked_template :: u16
  kc_revoked_block :: u16
  kc_revoked :: "bytes \<Rightarrow> u64 \<times> u64 \<times> u32 \<times> u32 \<times> u8 option \<times> revoke_reason option \<times> string option"
  kc_shutdown_template :: u16
  kc_shutdown_block :: u16
  kc_shutdown :: "bytes \<Rightarrow> u64 \<times> u8 option \<times> string option"

section \<open>Decoding\<close>

definition tp_copy_ascii :: "nat \<Rightarrow> string option \<Rightarrow> string" where
  "tp_copy_ascii dst_len src = (case src of None \<Rightarrow> [] | Some s \<Rightarrow> take (dst_len - 1) s)"

text \<open>
  The prologue that all decoders share: \<open>1\<close> for another message, \<open>-1\<close> for an error, \<open>0\<close>
  when the body can be read.
\<close>

definition decode_header :: "client_codec \<Rightarrow> u16 \<Rightarrow> u16 \<Rightarrow> bytes \<Rightarrow> int" where
  "decode_header C template block buffer =
     (if length buffer < kc_header_length C then - 1
      else
        (let (template_id, schema_id, block_length, version) = kc_header C buffer
         in if schema_id \<noteq> kc_schema_id C \<or> template_id \<noteq> template then 1
            else if version > kc_schema_version C then - 1
            else if block_length \<noteq> block then - 1
            else 0))"

definition zero_pool :: tp_driver_pool_info where
  "zero_pool = \<lparr>pi_pool_id = 0, pi_nslots = 0, pi_stride_bytes = 0, pi_region_uri = []\<rparr>"

text \<open>
  The pools of the response, with the text of the first error. The array is zeroed when it is
  allocated, and \<open>n\<close> of its elements are left to fill.
\<close>

fun decode_pools :: "u32 \<Rightarrow> nat \<Rightarrow> (u16 \<times> u32 \<times> u32 \<times> string option) list \<Rightarrow> string option \<times> tp_driver_pool_info list" where
  "decode_pools header_nslots 0 _ = (None, [])"
| "decode_pools header_nslots (Suc n) [] = (None, replicate (Suc n) zero_pool)"
| "decode_pools header_nslots (Suc n) ((pool_id, nslots, stride, uri) # rest) =
     (let pool = \<lparr>pi_pool_id = pool_id, pi_nslots = nslots, pi_stride_bytes = stride, pi_region_uri = []\<rparr>
      in if nslots = TP_NULL_U32 \<or> stride = TP_NULL_U32
         then (Some ''attach response pool missing required fields'', pool # replicate n zero_pool)
         else if nslots \<noteq> header_nslots then (Some ''attach response pool nslots mismatch'', pool # replicate n zero_pool)
         else if uri = None then (Some ''attach response invalid payload uri'', pool # replicate n zero_pool)
         else if tp_copy_ascii 4096 uri = [] then (Some ''attach response missing payload uri'', pool # replicate n zero_pool)
         else (case decode_pools header_nslots n rest of
                 (e, pools) \<Rightarrow> (e, pool\<lparr>pi_region_uri := tp_copy_ascii 4096 uri\<rparr> # pools)))"

definition refuse :: "response_code \<Rightarrow> string \<Rightarrow> tp_driver_attach_info \<Rightarrow> tp_driver_attach_info" where
  "refuse code text out = out\<lparr>at_code := code, at_error_message := text\<rparr>"

text \<open>The part for the code OK: what the response must have before a client may use it.\<close>

definition decode_attach_ok :: "bool \<Rightarrow> attach_response \<Rightarrow> tp_driver_attach_info \<Rightarrow> tp_driver_attach_info" where
  "decode_attach_ok alloc_ok r out =
     (let out = out\<lparr>at_code := OK, at_lease_id := xr_lease_id r, at_lease_expiry_timestamp_ns := xr_lease_expiry_timestamp_ns r,
            at_stream_id := xr_stream_id r, at_epoch := xr_epoch r, at_layout_version := xr_layout_version r,
            at_header_nslots := xr_header_nslots r, at_header_slot_bytes := xr_header_slot_bytes r, at_node_id := xr_node_id r\<rparr>
      in if xr_lease_id r = TP_NULL_U64 \<or> xr_stream_id r = TP_NULL_U32 \<or> xr_epoch r = TP_NULL_U64 \<or>
            xr_layout_version r = TP_NULL_U32 \<or> xr_header_nslots r = TP_NULL_U32 \<or> xr_header_slot_bytes r = 0xFFFF
         then refuse INTERNAL_ERROR ''attach response missing required fields'' out
         else if ucast (xr_header_slot_bytes r) \<noteq> TP_HEADER_SLOT_BYTES
         then refuse INVALID_PARAMS ''attach response header_slot_bytes mismatch'' out
         else if xr_header_nslots r = 0 then refuse INVALID_PARAMS ''attach response header_nslots invalid'' out
         else if xr_pool_count r = 0 then refuse INVALID_PARAMS ''attach response missing payload pools'' (out\<lparr>at_pools := []\<rparr>)
         else if \<not> alloc_ok then refuse INTERNAL_ERROR ''attach response pool allocation failed'' (out\<lparr>at_pools := []\<rparr>)
         else
           (case decode_pools (xr_header_nslots r) (xr_pool_count r) (xr_pools r) of
              (Some e, pools) \<Rightarrow> refuse INVALID_PARAMS e (out\<lparr>at_pools := pools\<rparr>)
            | (None, pools) \<Rightarrow>
                (let out = out\<lparr>at_pools := pools\<rparr>
                 in if xr_header_uri r = None then refuse INVALID_PARAMS ''attach response invalid header uri'' out
                    else
                      (let out = out\<lparr>at_header_region_uri := tp_copy_ascii 4096 (xr_header_uri r)\<rparr>
                       in if at_header_region_uri out = []
                          then refuse INVALID_PARAMS ''attach response missing header region uri'' out else out))))"

definition tp_driver_decode_attach_response ::
  "client_codec \<Rightarrow> bool \<Rightarrow> bytes \<Rightarrow> u64 \<Rightarrow> tp_driver_attach_info \<Rightarrow> int \<times> tp_driver_attach_info" where
  "tp_driver_decode_attach_response C alloc_ok buffer correlation_id out =
     (let h = decode_header C (kc_attach_template C) (kc_attach_block C) buffer; r = kc_attach C buffer
      in if h \<noteq> 0 then (h, out)
         else if xr_correlation_id r \<noteq> correlation_id then (1, out)
         else
           (case xr_code r of
              None \<Rightarrow> (- 1, out)
            | Some code \<Rightarrow>
                (0, if code = OK then decode_attach_ok alloc_ok r out
                    else out\<lparr>at_code := code, at_error_message := tp_copy_ascii 1024 (xr_error_message r)\<rparr>)))"

definition tp_driver_decode_detach_response :: "client_codec \<Rightarrow> bytes \<Rightarrow> tp_driver_detach_info \<Rightarrow> int \<times> tp_driver_detach_info" where
  "tp_driver_decode_detach_response C buffer out =
     (let h = decode_header C (kc_detach_template C) (kc_detach_block C) buffer;
          (correlation_id, code, error_message) = kc_detach C buffer
      in if h \<noteq> 0 then (h, out)
         else
           (case code of
              None \<Rightarrow> (- 1, out\<lparr>di_correlation_id := correlation_id\<rparr>)
            | Some code \<Rightarrow>
                (0, \<lparr>di_correlation_id = correlation_id, di_code = code, di_error_message = tp_copy_ascii 1024 error_message\<rparr>)))"

definition tp_driver_decode_lease_revoked :: "client_codec \<Rightarrow> bytes \<Rightarrow> int + tp_driver_lease_revoked" where
  "tp_driver_decode_lease_revoked C buffer =
     (let h = decode_header C (kc_revoked_template C) (kc_revoked_block C) buffer;
          (timestamp_ns, lease_id, stream_id, client_id, role, reason, error_message) = kc_revoked C buffer
      in if h \<noteq> 0 then Inl h
         else
           (case (role, reason) of
              (Some role, Some reason) \<Rightarrow>
                Inr \<lparr>lr_timestamp_ns = timestamp_ns, lr_lease_id = lease_id, lr_stream_id = stream_id, lr_client_id = client_id,
                     lr_role = role, lr_reason = reason, lr_error_message = tp_copy_ascii 1024 error_message\<rparr>
            | _ \<Rightarrow> Inl (- 1)))"

definition tp_driver_decode_shutdown :: "client_codec \<Rightarrow> bytes \<Rightarrow> int + u64 \<times> u8 \<times> string" where
  "tp_driver_decode_shutdown C buffer =
     (let h = decode_header C (kc_shutdown_template C) (kc_shutdown_block C) buffer;
          (timestamp_ns, reason, error_message) = kc_shutdown C buffer
      in if h \<noteq> 0 then Inl h
         else (case reason of None \<Rightarrow> Inl (- 1) | Some reason \<Rightarrow> Inr (timestamp_ns, reason, tp_copy_ascii 1024 error_message)))"

section \<open>Lease bookkeeping\<close>

definition tp_driver_client_update_lease :: "tp_driver_attach_info \<Rightarrow> u32 \<Rightarrow> u8 \<Rightarrow> tp_driver_client \<Rightarrow> tp_driver_client" where
  "tp_driver_client_update_lease info client_id role client =
     client\<lparr>tc_active_lease_id := at_lease_id info, tc_lease_expiry_timestamp_ns := at_lease_expiry_timestamp_ns info,
       tc_active_stream_id := at_stream_id info, tc_client_id := client_id, tc_role := role\<rparr>"

definition tp_driver_client_record_keepalive :: "u64 \<Rightarrow> tp_driver_client \<Rightarrow> tp_driver_client" where
  "tp_driver_client_record_keepalive now_ns client =
     (let client = client\<lparr>tc_last_keepalive_ns := now_ns\<rparr>;
          next_expiry = now_ns + tc_keepalive_interval_ns client * tc_lease_expiry_grace_intervals client
      in if tc_lease_expiry_timestamp_ns client \<noteq> TP_NULL_U64 \<and> tc_keepalive_interval_ns client > 0 \<and>
            tc_lease_expiry_grace_intervals client > 0 \<and> next_expiry > tc_lease_expiry_timestamp_ns client
         then client\<lparr>tc_lease_expiry_timestamp_ns := next_expiry\<rparr> else client)"

definition tp_driver_client_keepalive_due :: "tp_driver_client \<Rightarrow> u64 \<Rightarrow> u64 \<Rightarrow> bool" where
  "tp_driver_client_keepalive_due client now_ns interval_ns \<longleftrightarrow>
     tc_active_lease_id client \<noteq> 0 \<and> interval_ns \<noteq> 0 \<and> now_ns - tc_last_keepalive_ns client \<ge> interval_ns"

definition tp_driver_client_lease_expired :: "tp_driver_client \<Rightarrow> u64 \<Rightarrow> bool" where
  "tp_driver_client_lease_expired client now_ns \<longleftrightarrow>
     tc_active_lease_id client \<noteq> 0 \<and> tc_lease_expiry_timestamp_ns client \<noteq> TP_NULL_U64 \<and>
     now_ns \<ge> tc_lease_expiry_timestamp_ns client"

section \<open>Sending\<close>

text \<open>An offer answers a position or a negative code; the message counts as sent when it is not negative.\<close>

definition offer_msg :: "int \<Rightarrow> client_msg \<Rightarrow> tp_driver_client \<Rightarrow> int \<times> tp_driver_client" where
  "offer_msg result m client = (if result < 0 then (result, client) else (0, client\<lparr>tc_sent := m # tc_sent client\<rparr>))"

definition tp_driver_send_attach :: "int \<Rightarrow> tp_driver_attach_request \<Rightarrow> tp_driver_client \<Rightarrow> int \<times> tp_driver_client" where
  "tp_driver_send_attach result request client = offer_msg result (AttachMsg request) client"

definition tp_driver_keepalive :: "int \<Rightarrow> u64 \<Rightarrow> tp_driver_client \<Rightarrow> int \<times> tp_driver_client" where
  "tp_driver_keepalive result timestamp_ns client =
     (case offer_msg result (KeepaliveMsg (tc_active_lease_id client) (tc_active_stream_id client) (tc_client_id client)
             (tc_role client) timestamp_ns) client of
        (r, client) \<Rightarrow> if r < 0 then (r, client) else (0, tp_driver_client_record_keepalive timestamp_ns client))"

text \<open>\<open>next_id\<close> is what \<open>tp_driver_next_correlation_id\<close> gives when it is called.\<close>

definition tp_driver_detach :: "int \<Rightarrow> u64 \<Rightarrow> u64 \<Rightarrow> u64 \<Rightarrow> u32 \<Rightarrow> u32 \<Rightarrow> u8 \<Rightarrow> tp_driver_client \<Rightarrow> int \<times> tp_driver_client" where
  "tp_driver_detach result next_id correlation_id lease_id stream_id client_id role client =
     offer_msg result (DetachMsg (if correlation_id = 0 then next_id else correlation_id) lease_id stream_id client_id role) client"

definition tp_driver_detach_active :: "int \<Rightarrow> u64 \<Rightarrow> tp_driver_client \<Rightarrow> int \<times> tp_driver_client" where
  "tp_driver_detach_active result next_id client =
     (if tc_active_lease_id client = 0 then (0, client)
      else tp_driver_detach result next_id next_id (tc_active_lease_id client) (tc_active_stream_id client) (tc_client_id client)
             (tc_role client) client)"

section \<open>The blocking attach\<close>

text \<open>
  The ids that the counters give out, by number of the call. The theory of the counters shows that
  they are distinct and not zero.
\<close>

record id_source =
  is_correlation :: "nat \<Rightarrow> u64"
  is_client :: "nat \<Rightarrow> u32"

definition tp_driver_normalize_attach_request :: "u64 \<Rightarrow> u32 \<Rightarrow> tp_driver_attach_request \<Rightarrow> tp_driver_attach_request" where
  "tp_driver_normalize_attach_request correlation_id client_id request =
     (let request = (if rq_correlation_id request = 0 then request\<lparr>rq_correlation_id := correlation_id\<rparr> else request)
      in if rq_client_id request = 0 then request\<lparr>rq_client_id := client_id\<rparr> else request)"

definition zero_info :: tp_driver_attach_info where
  "zero_info = \<lparr>at_code = INTERNAL_ERROR, at_error_message = [], at_lease_id = 0, at_lease_expiry_timestamp_ns = 0, at_stream_id = 0,
     at_epoch = 0, at_layout_version = 0, at_header_nslots = 0, at_header_slot_bytes = 0, at_node_id = 0, at_header_region_uri = [],
     at_pools = []\<rparr>"

text \<open>\<open>tp_driver_response_ctx_t\<close>: the correlation id that is waited for, the result, and whether it is there.\<close>

record tp_driver_response_ctx =
  rx_correlation_id :: u64
  rx_out :: tp_driver_attach_info
  rx_done :: bool

definition tp_driver_response_handler :: "client_codec \<Rightarrow> bool \<Rightarrow> bytes \<Rightarrow> tp_driver_response_ctx \<Rightarrow> tp_driver_response_ctx" where
  "tp_driver_response_handler C alloc_ok buffer ctx =
     (if rx_done ctx \<and> at_code (rx_out ctx) = OK then ctx
      else
        (case tp_driver_decode_attach_response C alloc_ok buffer (rx_correlation_id ctx) (rx_out ctx) of
           (r, out) \<Rightarrow> ctx\<lparr>rx_out := out, rx_done := (rx_done ctx \<or> r \<le> 0)\<rparr>))"

text \<open>\<open>strstr\<close>\<close>

definition contains :: "string \<Rightarrow> string \<Rightarrow> bool" where
  "contains s t \<longleftrightarrow> (\<exists>i \<le> length s. take (length t) (drop i s) = t)"

definition retry_interval_ns :: int where
  "retry_interval_ns = 200 * 1000 * 1000"

text \<open>
  The loop of \<open>tp_driver_attach\<close>. One element of the list is one poll: the fragments it delivers,
  whether allocations succeed, and what the offers of a resend and of a retry answer in that round, or
  \<open>None\<close> for an error. \<open>clock t\<close> is the \<open>t\<close>-th
  clock reading and \<open>n\<close> the number of ids drawn so far. The list ends where the observation does: then
  the call has not returned, and the result is \<open>None\<close>.
\<close>

type_synonym attach_round = "bytes list \<times> bool \<times> int \<times> int"

record attach_state =
  al_request :: tp_driver_attach_request
  al_ctx :: tp_driver_response_ctx
  al_last_send_ns :: int
  al_time :: nat
  al_ids :: nat
  al_client :: tp_driver_client

definition attach_begin :: "(nat \<Rightarrow> int) \<Rightarrow> int \<Rightarrow> attach_state \<Rightarrow> attach_state" where
  "attach_begin clock offer st =
     st\<lparr>al_ctx := \<lparr>rx_correlation_id = rq_correlation_id (al_request st), rx_out = zero_info, rx_done = False\<rparr>,
        al_last_send_ns := clock (al_time st), al_time := Suc (al_time st),
        al_client := snd (tp_driver_send_attach offer (al_request st) (al_client st))\<rparr>"

definition attach_poll :: "client_codec \<Rightarrow> bool \<Rightarrow> (nat \<Rightarrow> int) \<Rightarrow> bytes list \<Rightarrow> attach_state \<Rightarrow> int \<times> attach_state" where
  "attach_poll C alloc_ok clock fragments st =
     (clock (al_time st), st\<lparr>al_ctx := fold (tp_driver_response_handler C alloc_ok) fragments (al_ctx st), al_time := Suc (al_time st)\<rparr>)"

definition attach_resend :: "int \<Rightarrow> int \<Rightarrow> attach_state \<Rightarrow> attach_state" where
  "attach_resend now offer st =
     (if now - al_last_send_ns st \<ge> retry_interval_ns
      then st\<lparr>al_last_send_ns := now, al_client := snd (tp_driver_send_attach offer (al_request st) (al_client st))\<rparr> else st)"

definition wants_retry :: "bool \<Rightarrow> tp_driver_attach_info \<Rightarrow> bool" where
  "wants_retry auto_client_id info \<longleftrightarrow>
     at_code info = REJECTED \<and> auto_client_id \<and> contains (at_error_message info) ''client_id already attached''"

definition attach_new_ids :: "id_source \<Rightarrow> attach_state \<Rightarrow> attach_state" where
  "attach_new_ids ids st =
     st\<lparr>al_request := (al_request st)\<lparr>rq_client_id := is_client ids (al_ids st), rq_correlation_id := is_correlation ids (al_ids st)\<rparr>,
        al_ids := Suc (al_ids st)\<rparr>"

fun attach_loop :: "client_codec \<Rightarrow> (nat \<Rightarrow> int) \<Rightarrow> int option \<Rightarrow> bool \<Rightarrow> id_source \<Rightarrow> attach_state \<Rightarrow>
    attach_round option list \<Rightarrow> (unit res \<times> attach_state) option" where
  "attach_loop C clock deadline auto_client_id ids st [] = None"
| "attach_loop C clock deadline auto_client_id ids st (None # polls) = Some (Inl FAIL, st)"
| "attach_loop C clock deadline auto_client_id ids st (Some (fragments, alloc_ok, offer, offer') # polls) =
     (case attach_poll C alloc_ok clock fragments st of
        (now, st) \<Rightarrow>
          if (case deadline of None \<Rightarrow> False | Some t \<Rightarrow> now > t) then Some (Inl (ERRNO ''tp_driver_attach: timeout''), st)
          else
            (let st = attach_resend now offer st
             in if \<not> rx_done (al_ctx st) then attach_loop C clock deadline auto_client_id ids st polls
                else if wants_retry auto_client_id (rx_out (al_ctx st))
                then attach_loop C clock deadline auto_client_id ids (attach_begin clock offer' (attach_new_ids ids st)) polls
                else Some (Inr (), st)))"

text \<open>Waiting for the connection: what \<open>tp_driver_client_ready\<close> answers, and the clock after it.\<close>

fun tp_driver_wait_connected :: "int \<Rightarrow> (int \<times> int) list \<Rightarrow> unit res option" where
  "tp_driver_wait_connected deadline_ns [] = None"
| "tp_driver_wait_connected deadline_ns ((ready, now) # rest) =
     (if ready = 0 then
        if deadline_ns > 0 \<and> now > deadline_ns then Some (Inl (ERRNO ''tp_driver_attach: control stream not connected''))
        else tp_driver_wait_connected deadline_ns rest
      else Some (if ready < 0 then Inl (EINVAL ''tp_driver_client_ready: invalid client'') else Inr ()))"

record attach_call =
  ac_clock :: "nat \<Rightarrow> int"
  ac_ids :: id_source
  ac_connects :: "(int \<times> int) list"
  ac_assembler_ok :: bool
  ac_offer :: int
  ac_polls :: "attach_round option list"

definition tp_driver_attach :: "client_codec \<Rightarrow> attach_call \<Rightarrow> tp_driver_attach_request \<Rightarrow> int \<Rightarrow> tp_driver_client \<Rightarrow>
    (unit res \<times> tp_driver_attach_info \<times> tp_driver_client) option" where
  "tp_driver_attach C a request timeout_ns client =
     (let auto_client_id = (rq_client_id request = 0);
          normalized = tp_driver_normalize_attach_request (is_correlation (ac_ids a) 0) (is_client (ac_ids a) 0) request;
          deadline = (if timeout_ns > 0 then ac_clock a 0 + timeout_ns else 0)
      in if \<not> in_int64 deadline then Some (Inl (UB ''tp_clock_now_ns() + timeout_ns''), zero_info, client)
         else
           (case tp_driver_wait_connected deadline (ac_connects a) of
              None \<Rightarrow> None
            | Some (Inl e) \<Rightarrow> Some (Inl e, zero_info, client)
            | Some (Inr _) \<Rightarrow>
                if \<not> ac_assembler_ok a then Some (Inl FAIL, zero_info, client)
                else
                  (case attach_loop C (ac_clock a) (if timeout_ns > 0 then Some deadline else None) auto_client_id (ac_ids a)
                          (attach_begin (ac_clock a) (ac_offer a)
                             \<lparr>al_request = normalized, al_ctx = \<lparr>rx_correlation_id = 0, rx_out = zero_info, rx_done = False\<rparr>,
                              al_last_send_ns = 0, al_time = 1, al_ids = 1, al_client = client\<rparr>) (ac_polls a) of
                     None \<Rightarrow> None
                   | Some (Inl e, st) \<Rightarrow> Some (Inl e, rx_out (al_ctx st), al_client st)
                   | Some (Inr _, st) \<Rightarrow>
                       (let out = rx_out (al_ctx st)
                        in Some (Inr (), out,
                             if at_code out = OK
                             then tp_driver_client_update_lease out (rq_client_id (al_request st)) (rq_role (al_request st)) (al_client st)
                             else al_client st)))))"

section \<open>The asynchronous calls\<close>

record tp_async_attach =
  as_request :: tp_driver_attach_request
  as_auto_client_id :: bool
  as_sent :: bool
  as_done :: bool
  as_last_send_ns :: int
  as_response :: tp_driver_attach_info

definition tp_driver_attach_async :: "u64 \<Rightarrow> u32 \<Rightarrow> tp_driver_attach_request \<Rightarrow> tp_async_attach" where
  "tp_driver_attach_async correlation_id client_id request =
     \<lparr>as_request = tp_driver_normalize_attach_request correlation_id client_id request,
      as_auto_client_id = (rq_client_id request = 0), as_sent = False, as_done = False, as_last_send_ns = 0, as_response = zero_info\<rparr>"

definition tp_driver_async_attach_handler :: "client_codec \<Rightarrow> bool \<Rightarrow> bytes \<Rightarrow> tp_async_attach \<Rightarrow> tp_async_attach" where
  "tp_driver_async_attach_handler C alloc_ok buffer async =
     (if as_done async \<and> at_code (as_response async) = OK then async
      else
        (case tp_driver_decode_attach_response C alloc_ok buffer (rq_correlation_id (as_request async)) (as_response async) of
           (r, out) \<Rightarrow> async\<lparr>as_response := out, as_done := (as_done async \<or> r = 0)\<rparr>))"

text \<open>
  What one poll meets: three clock readings, the answers of the offer, of the readiness test and of the
  assembler, the fragments of the poll (\<open>None\<close> for an error), and fresh ids for a retry.
\<close>

record poll_call =
  po_now1 :: int
  po_now2 :: int
  po_now3 :: int
  po_offer :: int
  po_ready :: int
  po_assembler_ok :: bool
  po_alloc_ok :: bool
  po_fragments :: "bytes list option"
  po_client_id :: u32
  po_correlation_id :: u64

definition NOT_CONNECTED :: int where "NOT_CONNECTED = - 1"
definition BACK_PRESSURED :: int where "BACK_PRESSURED = - 2"
definition ADMIN_ACTION :: int where "ADMIN_ACTION = - 3"

text \<open>
  Sending, when it is due: \<open>Some r\<close> when the poll returns \<open>r\<close> at once. The result is positive
  with the response when there is one, zero while there is none, negative for an error.
\<close>

definition async_send :: "poll_call \<Rightarrow> tp_async_attach \<Rightarrow> tp_driver_client \<Rightarrow> int option \<times> tp_async_attach \<times> tp_driver_client" where
  "async_send p async client =
     (if as_sent async then (None, async, client)
      else if as_last_send_ns async \<noteq> 0 \<and> po_now1 p - as_last_send_ns async < retry_interval_ns then (Some 0, async, client)
      else
        (case tp_driver_send_attach (po_offer p) (as_request async) client of
           (r, client) \<Rightarrow>
             (let async = async\<lparr>as_last_send_ns := po_now2 p\<rparr>
              in if r < 0 then (Some (if r = NOT_CONNECTED \<or> r = BACK_PRESSURED \<or> r = ADMIN_ACTION then 0 else - 1), async, client)
                 else if po_ready p < 0 then (Some (- 1), async, client)
                 else (None, async\<lparr>as_sent := True\<rparr>, client))))"

definition tp_driver_attach_poll :: "client_codec \<Rightarrow> poll_call \<Rightarrow> tp_async_attach \<Rightarrow> tp_driver_client \<Rightarrow>
    (int \<times> tp_driver_attach_info option) \<times> tp_async_attach \<times> tp_driver_client" where
  "tp_driver_attach_poll C p async client =
     (case async_send p async client of
        (Some r, async, client) \<Rightarrow> ((r, None), async, client)
      | (None, async, client) \<Rightarrow>
          if \<not> po_assembler_ok p then ((- 1, None), async, client)
          else
            (case po_fragments p of
               None \<Rightarrow> ((- 1, None), async, client)
             | Some fragments \<Rightarrow>
                 (let async = fold (tp_driver_async_attach_handler C (po_alloc_ok p)) fragments async
                  in if \<not> as_done async then ((0, None), async, client)
                     else if wants_retry (as_auto_client_id async) (as_response async)
                     then ((0, None),
                           async\<lparr>as_request := (as_request async)\<lparr>rq_client_id := po_client_id p, rq_correlation_id := po_correlation_id p\<rparr>,
                             as_response := (as_response async)\<lparr>at_code := INTERNAL_ERROR\<rparr>, as_done := False, as_sent := False,
                             as_last_send_ns := po_now3 p\<rparr>, client)
                     else
                       ((1, Some (as_response async)), async,
                        if at_code (as_response async) = OK
                        then tp_driver_client_update_lease (as_response async) (rq_client_id (as_request async)) (rq_role (as_request async)) client
                        else client))))"

record tp_async_detach =
  ad_response :: tp_driver_detach_info
  ad_sent :: bool
  ad_done :: bool

definition tp_driver_detach_async :: "u64 \<Rightarrow> tp_async_detach" where
  "tp_driver_detach_async correlation_id =
     \<lparr>ad_response = \<lparr>di_correlation_id = correlation_id, di_code = OK, di_error_message = []\<rparr>, ad_sent = False, ad_done = False\<rparr>"

definition tp_driver_async_detach_handler :: "client_codec \<Rightarrow> bytes \<Rightarrow> tp_async_detach \<Rightarrow> tp_async_detach" where
  "tp_driver_async_detach_handler C buffer async =
     (case tp_driver_decode_detach_response C buffer (ad_response async) of
        (r, out) \<Rightarrow> async\<lparr>ad_response := out, ad_done := (ad_done async \<or> r = 0)\<rparr>)"

definition tp_driver_detach_poll :: "client_codec \<Rightarrow> poll_call \<Rightarrow> tp_async_detach \<Rightarrow> tp_driver_client \<Rightarrow>
    (int \<times> tp_driver_detach_info option) \<times> tp_async_detach \<times> tp_driver_client" where
  "tp_driver_detach_poll C p async client =
     (case (if ad_sent async then (0, client)
            else tp_driver_detach (po_offer p) (po_correlation_id p) (di_correlation_id (ad_response async)) (tc_active_lease_id client)
                   (tc_active_stream_id client) (tc_client_id client) (tc_role client) client) of
        (r, client) \<Rightarrow>
          if r < 0 then ((- 1, None), async, client)
          else
            (let async = async\<lparr>ad_sent := True\<rparr>
             in if \<not> po_assembler_ok p then ((- 1, None), async, client)
                else
                  (case po_fragments p of
                     None \<Rightarrow> ((- 1, None), async, client)
                   | Some fragments \<Rightarrow>
                       (let async = fold (tp_driver_async_detach_handler C) fragments async
                        in (if ad_done async then (1, Some (ad_response async)) else (0, None), async, client)))))"

section \<open>Requests, configurations and events\<close>

definition TP_PUBLISH_MODE_EXISTING_OR_CREATE :: u8 where
  "TP_PUBLISH_MODE_EXISTING_OR_CREATE = 2"

definition TP_HUGEPAGES_UNSPECIFIED :: u8 where
  "TP_HUGEPAGES_UNSPECIFIED = 0"

definition tp_driver_attach_request_init :: "u32 \<Rightarrow> u8 \<Rightarrow> tp_driver_attach_request" where
  "tp_driver_attach_request_init stream_id role =
     \<lparr>rq_correlation_id = 0, rq_stream_id = stream_id, rq_client_id = 0, rq_role = role,
      rq_expected_layout_version = TP_LAYOUT_VERSION, rq_publish_mode = TP_PUBLISH_MODE_EXISTING_OR_CREATE,
      rq_require_hugepages = TP_HUGEPAGES_UNSPECIFIED, rq_desired_node_id = TP_NULL_U32\<rparr>"

definition tp_driver_attach_consumer_config :: "nat \<Rightarrow> tp_driver_attach_info \<Rightarrow> tp_consumer_config res" where
  "tp_driver_attach_consumer_config pool_capacity info =
     guard (pool_capacity < length (at_pools info)) (EINVAL ''tp_driver_attach_consumer_config: pool capacity too small'')
     (Inr \<lparr>cg_stream_id = at_stream_id info, cg_epoch = at_epoch info, cg_layout_version = at_layout_version info,
           cg_header_nslots = at_header_nslots info, cg_header_uri = at_header_region_uri info,
           cg_pools = List.map (\<lambda>p. \<lparr>pc_pool_id = pi_pool_id p, pc_nslots = pi_nslots p, pc_stride_bytes = pi_stride_bytes p,
             pc_uri = pi_region_uri p\<rparr>) (at_pools info)\<rparr>)"

text \<open>The decoders of the event poller, tried in this order where a handler is set.\<close>

datatype driver_event =
    DetachEvent tp_driver_detach_info
  | RevokedEvent tp_driver_lease_revoked
  | ShutdownEvent u64 u8 string

record tp_driver_event_handlers =
  eh_on_detach_response :: bool
  eh_on_lease_revoked :: bool
  eh_on_shutdown :: bool

definition tp_driver_event_handler :: "client_codec \<Rightarrow> tp_driver_event_handlers \<Rightarrow> bytes \<Rightarrow> driver_event option" where
  "tp_driver_event_handler C handlers buffer =
     (case (if eh_on_detach_response handlers
            then tp_driver_decode_detach_response C buffer \<lparr>di_correlation_id = 0, di_code = OK, di_error_message = []\<rparr>
            else (1, \<lparr>di_correlation_id = 0, di_code = OK, di_error_message = []\<rparr>)) of
        (r, info) \<Rightarrow>
          if r = 0 then Some (DetachEvent info)
          else
            (case (if eh_on_lease_revoked handlers then tp_driver_decode_lease_revoked C buffer else Inl 1) of
               Inr revoked \<Rightarrow> Some (RevokedEvent revoked)
             | Inl _ \<Rightarrow>
                 (case (if eh_on_shutdown handlers then tp_driver_decode_shutdown C buffer else Inl 1) of
                    Inr (timestamp_ns, reason, text) \<Rightarrow> Some (ShutdownEvent timestamp_ns reason text)
                  | Inl _ \<Rightarrow> None)))"

end
