(* ===== verification/Tp_Driver_Attach.thy ===== *)
theory Tp_Driver_Attach
  imports Tp_Driver_Client
begin

text \<open>
  What the attach calls of the client guarantee: they use the answer to their own request and no
  other, the answer they accept is complete, a call with a deadline returns, and the lease that the
  client keeps alive is the one the driver holds.
\<close>

section \<open>Accepted answers\<close>

lemma decode_pools_length: "length (snd (decode_pools nslots n raw)) = n"
  by (induction nslots n raw rule: decode_pools.induct) (auto simp: Let_def split: prod.splits)

text \<open>A pool as a client may use it: the slot count of the ring, and a URI.\<close>

definition pool_complete :: "u32 \<Rightarrow> tp_driver_pool_info \<Rightarrow> bool" where
  "pool_complete nslots pool \<longleftrightarrow> pi_nslots pool = nslots \<and> pi_region_uri pool \<noteq> []"

lemma decode_pools_complete:
  "decode_pools nslots n raw = (None, pools) \<Longrightarrow> n \<le> length raw \<Longrightarrow> list_all (pool_complete nslots) pools"
  by (induction nslots n raw arbitrary: pools rule: decode_pools.induct)
    (auto simp: Let_def pool_complete_def split: prod.splits if_splits)

text \<open>What the decoder leaves when it reports a response with the code OK.\<close>

definition info_of :: "attach_response \<Rightarrow> tp_driver_attach_info \<Rightarrow> bool" where
  "info_of r info \<longleftrightarrow> at_lease_id info = xr_lease_id r \<and> at_lease_expiry_timestamp_ns info = xr_lease_expiry_timestamp_ns r \<and>
     at_stream_id info = xr_stream_id r \<and> at_epoch info = xr_epoch r \<and> at_layout_version info = xr_layout_version r \<and>
     at_header_nslots info = xr_header_nslots r \<and> at_lease_id info \<noteq> TP_NULL_U64 \<and> at_header_nslots info \<noteq> 0 \<and>
     at_header_region_uri info \<noteq> [] \<and> length (at_pools info) = xr_pool_count r \<and> at_pools info \<noteq> [] \<and>
     (xr_pool_count r \<le> length (xr_pools r) \<longrightarrow> list_all (pool_complete (at_header_nslots info)) (at_pools info))"

lemma decode_attach_ok_OK:
  assumes "at_code (decode_attach_ok alloc_ok r out) = OK"
  shows "info_of r (decode_attach_ok alloc_ok r out)"
proof -
  obtain e pools where pools: "decode_pools (xr_header_nslots r) (xr_pool_count r) (xr_pools r) = (e, pools)"
    by (cases "decode_pools (xr_header_nslots r) (xr_pool_count r) (xr_pools r)")
  have len: "length pools = xr_pool_count r" using decode_pools_length [of "xr_header_nslots r" "xr_pool_count r" "xr_pools r"] pools by simp
  show ?thesis
    using assms pools len decode_pools_complete [of "xr_header_nslots r" "xr_pool_count r" "xr_pools r"]
    by (auto simp: decode_attach_ok_def Let_def refuse_def info_of_def split: if_splits option.splits)
qed

lemma decode_response_OK:
  assumes "tp_driver_decode_attach_response C alloc_ok buffer correlation_id out = (r, out')" "at_code out' = OK" "at_code out \<noteq> OK"
  shows "xr_correlation_id (kc_attach C buffer) = correlation_id \<and> xr_code (kc_attach C buffer) = Some OK \<and>
    info_of (kc_attach C buffer) out' \<and> r = 0"
  using assms decode_attach_ok_OK
  by (auto simp: tp_driver_decode_attach_response_def Let_def split: if_splits option.splits)

section \<open>The loop\<close>

text \<open>The fragments that a sequence of polls delivers.\<close>

definition delivered :: "attach_round option list \<Rightarrow> bytes set" where
  "delivered polls = (\<Union>p \<in> set polls. case p of None \<Rightarrow> {} | Some (fragments, _) \<Rightarrow> set fragments)"

lemma delivered_simps [simp]:
  "delivered [] = {}" "delivered (None # polls) = delivered polls"
  "delivered (Some (fragments, rest) # polls) = set fragments \<union> delivered polls"
  by (simp_all add: delivered_def)

text \<open>A positive result is there only once it is the answer to the pending correlation id.\<close>

definition answered :: "client_codec \<Rightarrow> bytes set \<Rightarrow> tp_driver_response_ctx \<Rightarrow> bool" where
  "answered C seen ctx \<longleftrightarrow> (at_code (rx_out ctx) = OK \<longrightarrow> rx_done ctx \<and>
     (\<exists>buffer \<in> seen. xr_correlation_id (kc_attach C buffer) = rx_correlation_id ctx \<and> xr_code (kc_attach C buffer) = Some OK \<and>
        info_of (kc_attach C buffer) (rx_out ctx)))"

lemma handler_answered:
  assumes "answered C seen ctx"
  shows "answered C (insert buffer seen) (tp_driver_response_handler C alloc_ok buffer ctx)"
    "rx_correlation_id (tp_driver_response_handler C alloc_ok buffer ctx) = rx_correlation_id ctx"
proof -
  obtain r out where dec: "tp_driver_decode_attach_response C alloc_ok buffer (rx_correlation_id ctx) (rx_out ctx) = (r, out)"
    by (cases "tp_driver_decode_attach_response C alloc_ok buffer (rx_correlation_id ctx) (rx_out ctx)")
  show "answered C (insert buffer seen) (tp_driver_response_handler C alloc_ok buffer ctx)"
    using assms dec decode_response_OK [OF dec] by (auto simp: answered_def tp_driver_response_handler_def)
  show "rx_correlation_id (tp_driver_response_handler C alloc_ok buffer ctx) = rx_correlation_id ctx"
    using dec by (simp add: tp_driver_response_handler_def)
qed

lemma fold_answered:
  "answered C seen ctx \<Longrightarrow>
   answered C (seen \<union> set fragments) (fold (tp_driver_response_handler C alloc_ok) fragments ctx) \<and>
   rx_correlation_id (fold (tp_driver_response_handler C alloc_ok) fragments ctx) = rx_correlation_id ctx"
proof (induction fragments arbitrary: seen ctx)
  case (Cons buffer fragments)
  have "insert buffer seen \<union> set fragments = seen \<union> set (buffer # fragments)" by auto
  then show ?case using Cons.IH [OF handler_answered(1) [OF Cons.prems]] handler_answered(2) [OF Cons.prems] by simp
qed simp

text \<open>The request of a later round: the first one, or one with ids drawn for a retry.\<close>

definition request_of :: "id_source \<Rightarrow> bool \<Rightarrow> tp_driver_attach_request \<Rightarrow> tp_driver_attach_request \<Rightarrow> bool" where
  "request_of ids auto_client_id first req \<longleftrightarrow> req = first \<or>
     auto_client_id \<and> (\<exists>k. req = first\<lparr>rq_client_id := is_client ids k, rq_correlation_id := is_correlation ids k\<rparr>)"

definition loop_ok :: "client_codec \<Rightarrow> id_source \<Rightarrow> bool \<Rightarrow> tp_driver_attach_request \<Rightarrow> tp_driver_client \<Rightarrow> bytes set \<Rightarrow> attach_state \<Rightarrow> bool" where
  "loop_ok C ids auto_client_id first client seen st \<longleftrightarrow> answered C seen (al_ctx st) \<and>
     rx_correlation_id (al_ctx st) = rq_correlation_id (al_request st) \<and> request_of ids auto_client_id first (al_request st) \<and>
     (\<exists>sent. al_client st = client\<lparr>tc_sent := sent\<rparr>)"

lemma send_attach_client:
  "\<exists>sent. client = c\<lparr>tc_sent := sent\<rparr> \<Longrightarrow> \<exists>sent. snd (tp_driver_send_attach offer request client) = c\<lparr>tc_sent := sent\<rparr>"
  by (auto simp: tp_driver_send_attach_def offer_msg_def)

lemma loop_ok_poll:
  "loop_ok C ids auto first client seen st \<Longrightarrow> attach_poll C alloc_ok clock fragments st = (now, st') \<Longrightarrow>
   loop_ok C ids auto first client (seen \<union> set fragments) st'"
  using fold_answered [of C seen "al_ctx st" fragments alloc_ok] by (auto simp: loop_ok_def attach_poll_def)

lemma loop_ok_resend:
  "loop_ok C ids auto first client seen st \<Longrightarrow> loop_ok C ids auto first client seen (attach_resend now offer st)"
  using send_attach_client [of "al_client st" client offer "al_request st"] by (simp add: loop_ok_def attach_resend_def)

lemma request_new_ids:
  "request_of ids True first req \<Longrightarrow>
   request_of ids True first (req\<lparr>rq_client_id := is_client ids n, rq_correlation_id := is_correlation ids n\<rparr>)"
  by (auto simp: request_of_def)

lemma loop_ok_retry:
  assumes "loop_ok C ids True first client seen st"
  shows "loop_ok C ids True first client seen (attach_begin clock offer (attach_new_ids ids st))"
  using assms send_attach_client [of "al_client st" client offer "al_request (attach_new_ids ids st)"] request_new_ids
  by (simp add: loop_ok_def attach_begin_def attach_new_ids_def answered_def zero_info_def)

text \<open>One round of the loop.\<close>

lemma attach_loop_round:
  assumes "attach_poll C alloc_ok clock fragments st = (now, st1)"
  shows "attach_loop C clock deadline auto ids st (Some (fragments, alloc_ok, offer, offer') # polls) =
    (if case deadline of None \<Rightarrow> False | Some t \<Rightarrow> now > t then Some (Inl (ERRNO ''tp_driver_attach: timeout''), st1)
     else if \<not> rx_done (al_ctx (attach_resend now offer st1))
     then attach_loop C clock deadline auto ids (attach_resend now offer st1) polls
     else if wants_retry auto (rx_out (al_ctx (attach_resend now offer st1)))
     then attach_loop C clock deadline auto ids (attach_begin clock offer' (attach_new_ids ids (attach_resend now offer st1))) polls
     else Some (Inr (), attach_resend now offer st1))"
  unfolding attach_loop.simps Let_def assms prod.case by (rule refl)

lemma attach_loop_ok:
  assumes "attach_loop C clock deadline auto ids st polls = Some (r, st')" "loop_ok C ids auto first client seen st"
  shows "loop_ok C ids auto first client (seen \<union> delivered polls) st'"
  using assms
proof (induction C clock deadline auto ids st polls arbitrary: seen rule: attach_loop.induct)
  case (3 C clock deadline auto ids st fragments alloc_ok offer offer' polls)
  obtain now st1 where poll: "attach_poll C alloc_ok clock fragments st = (now, st1)" by (cases "attach_poll C alloc_ok clock fragments st")
  let ?seen = "seen \<union> set fragments" and ?st2 = "attach_resend now offer st1"
  have ok1: "loop_ok C ids auto first client ?seen st1" by (rule loop_ok_poll [OF 3(4) poll])
  have ok2: "loop_ok C ids auto first client ?seen ?st2" by (rule loop_ok_resend [OF ok1])
  have ok3: "loop_ok C ids auto first client ?seen (attach_begin clock offer' (attach_new_ids ids ?st2))"
    if "wants_retry auto (rx_out (al_ctx ?st2))"
    using loop_ok_retry [of C ids first client ?seen ?st2] ok2 that by (simp add: wants_retry_def)
  have mono: "loop_ok C ids auto first client (?seen \<union> delivered polls) st" if "loop_ok C ids auto first client ?seen st" for st
    using that by (auto simp: loop_ok_def answered_def)
  let ?late = "case deadline of None \<Rightarrow> False | Some t \<Rightarrow> now > t"
  have step: "Some (r, st') = (if ?late then Some (Inl (ERRNO ''tp_driver_attach: timeout''), st1)
      else if \<not> rx_done (al_ctx ?st2) then attach_loop C clock deadline auto ids ?st2 polls
      else if wants_retry auto (rx_out (al_ctx ?st2))
      then attach_loop C clock deadline auto ids (attach_begin clock offer' (attach_new_ids ids ?st2)) polls else Some (Inr (), ?st2))"
    by (rule trans [OF 3(3) [symmetric] attach_loop_round [OF poll]])
  have seen: "seen \<union> delivered (Some (fragments, alloc_ok, offer, offer') # polls) = ?seen \<union> delivered polls" by auto
  consider "st' = st1 \<or> st' = ?st2"
    | "\<not> ?late" "\<not> rx_done (al_ctx ?st2)" "attach_loop C clock deadline auto ids ?st2 polls = Some (r, st')"
    | "\<not> ?late" "rx_done (al_ctx ?st2)" "wants_retry auto (rx_out (al_ctx ?st2))"
      "attach_loop C clock deadline auto ids (attach_begin clock offer' (attach_new_ids ids ?st2)) polls = Some (r, st')"
    using step by (cases ?late; cases "rx_done (al_ctx ?st2)"; cases "wants_retry auto (rx_out (al_ctx ?st2))") simp_all
  then show ?case
  proof cases
    case 1
    then show ?thesis unfolding seen using mono ok1 ok2 by blast
  next
    case 2
    show ?thesis unfolding seen by (rule 3(1) [OF poll [symmetric] 2(1) refl 2(2,3) ok2])
  next
    case c: 3
    show ?thesis unfolding seen by (rule 3(2) [OF poll [symmetric] c(1) refl _ c(3,4) ok3 [OF c(3)]]) (simp add: c(2))
  qed
qed (auto simp: loop_ok_def answered_def)

section \<open>The blocking call\<close>

text \<open>The state in which the loop starts.\<close>

definition attach_start :: "attach_call \<Rightarrow> tp_driver_attach_request \<Rightarrow> tp_driver_client \<Rightarrow> attach_state" where
  "attach_start a normalized client =
     attach_begin (ac_clock a) (ac_offer a)
       \<lparr>al_request = normalized, al_ctx = \<lparr>rx_correlation_id = 0, rx_out = zero_info, rx_done = False\<rparr>, al_last_send_ns = 0,
        al_time = 1, al_ids = 1, al_client = client\<rparr>"

abbreviation "normalized a request \<equiv>
  tp_driver_normalize_attach_request (is_correlation (ac_ids a) 0) (is_client (ac_ids a) 0) request"

lemma attach_start_ok: "loop_ok C ids auto first client {} (attach_start a first client)"
  using send_attach_client [of client client "ac_offer a" first]
  by (simp add: loop_ok_def attach_start_def attach_begin_def answered_def zero_info_def request_of_def)
    (metis (no_types, lifting) tp_driver_client.surjective tp_driver_client.update_convs(9))

lemma attach_returned:
  assumes "tp_driver_attach C a request timeout_ns client = Some (Inr (), info, client')"
  shows "\<exists>st. loop_ok C (ac_ids a) (rq_client_id request = 0) (normalized a request) client (delivered (ac_polls a)) st \<and>
    info = rx_out (al_ctx st) \<and>
    client' = (if at_code info = OK then tp_driver_client_update_lease info (rq_client_id (al_request st)) (rq_role (al_request st)) (al_client st)
               else al_client st)"
proof -
  obtain deadline st where st: "attach_loop C (ac_clock a) deadline (rq_client_id request = 0) (ac_ids a)
      (attach_start a (normalized a request) client) (ac_polls a) = Some (Inr (), st)"
    and info: "info = rx_out (al_ctx st)"
    and c: "client' = (if at_code info = OK then tp_driver_client_update_lease info (rq_client_id (al_request st)) (rq_role (al_request st)) (al_client st)
               else al_client st)"
    using assms unfolding tp_driver_attach_def Let_def attach_start_def [symmetric]
    by (auto split: if_splits option.splits sum.splits prod.splits)
  show ?thesis using attach_loop_ok [OF st attach_start_ok] info c by (intro exI [of _ st]) simp
qed

lemma normalized_fields:
  "rq_stream_id (normalized a request) = rq_stream_id request" "rq_role (normalized a request) = rq_role request"
  "rq_client_id (normalized a request) = (if rq_client_id request = 0 then is_client (ac_ids a) 0 else rq_client_id request)"
  by (simp_all add: tp_driver_normalize_attach_request_def)


section \<open>Deadlines\<close>

lemma attach_time [simp]:
  "al_time (attach_resend now offer st) = al_time st" "al_time (attach_new_ids ids st) = al_time st"
  "al_time (attach_begin clock offer st) = Suc (al_time st)"
  by (simp_all add: attach_resend_def attach_new_ids_def attach_begin_def)

lemma attach_loop_returns:
  assumes "\<forall>t \<ge> N. clock t > d" "N < al_time st + length polls" "polls \<noteq> []"
  shows "\<exists>r. attach_loop C clock (Some d) auto ids st polls = Some r"
  using assms
proof (induction polls arbitrary: st)
  case (Cons p polls)
  show ?case
  proof (cases p)
    case (Some round)
    obtain fragments alloc_ok offer offer' where round: "round = (fragments, alloc_ok, offer, offer')" by (cases round)
    let ?st1 = "snd (attach_poll C alloc_ok clock fragments st)"
    have poll: "attach_poll C alloc_ok clock fragments st = (clock (al_time st), ?st1)" "al_time ?st1 = Suc (al_time st)"
      by (simp_all add: attach_poll_def)
    show ?thesis
    proof (cases "clock (al_time st) > d")
      case True
      then show ?thesis unfolding Some round attach_loop_round [OF poll(1)] by simp
    next
      case False
      then have "al_time st < N" using Cons.prems(1) not_le by blast
      then have "polls \<noteq> []" using Cons.prems(2) by auto
      then have "\<exists>r. attach_loop C clock (Some d) auto ids st' polls = Some r" if "Suc (al_time st) \<le> al_time st'" for st'
        using Cons.IH [of st'] Cons.prems that by simp
      then show ?thesis unfolding Some round attach_loop_round [OF poll(1)] using False poll(2) by simp
    qed
  qed simp
qed simp

lemma wait_connected_returns:
  "d > 0 \<Longrightarrow> \<exists>p \<in> set connects. fst p \<noteq> 0 \<or> snd p > d \<Longrightarrow> \<exists>r. tp_driver_wait_connected d connects = Some r"
  by (induction d connects rule: tp_driver_wait_connected.induct) auto

text \<open>
  C16: a blocking attach with a timeout returns. It returns once its wait for the connection has seen the
  connection or a time after the deadline, and it has polled after the clock passed the deadline,
  whatever the polls deliver: answers, refusals that make it retry with new ids, or nothing.
\<close>

theorem attach_returns:
  assumes "0 < timeout_ns" "deadline = ac_clock a 0 + timeout_ns" "0 < deadline" "in_int64 deadline"
    "\<exists>p \<in> set (ac_connects a). fst p \<noteq> 0 \<or> snd p > deadline"
    "\<forall>t \<ge> N. ac_clock a t > deadline" "N < 2 + length (ac_polls a)" "ac_polls a \<noteq> []"
  shows "\<exists>r info client'. tp_driver_attach C a request timeout_ns client = Some (r, info, client')"
proof -
  obtain w where w: "tp_driver_wait_connected deadline (ac_connects a) = Some w"
    using wait_connected_returns [OF assms(3,5)] by blast
  have "al_time (attach_start a (normalized a request) client) = 2" by (simp add: attach_start_def)
  then obtain r where "attach_loop C (ac_clock a) (Some deadline) (rq_client_id request = 0) (ac_ids a)
      (attach_start a (normalized a request) client) (ac_polls a) = Some r"
    using attach_loop_returns [OF assms(6) _ assms(8), of "attach_start a (normalized a request) client" C "rq_client_id request = 0" "ac_ids a"]
      assms(7) by auto
  then show ?thesis
    using assms(1,2,4) w unfolding tp_driver_attach_def Let_def attach_start_def [symmetric]
    by (cases r; cases w; cases "fst r") (auto split: if_splits)
qed

text \<open>
  The blocking attach gives up on a fragment that is none of its business. While it waits, a fragment
  of the control stream that the decoder refuses before it has looked at the correlation id, such as one
  shorter than a message header, ends the call with the code INTERNAL_ERROR and without a lease, although
  the answer of the driver may be in the next fragment. The asynchronous attach, given the same fragment,
  stays as it is.
\<close>

theorem attach_ended_by_foreign_fragment:
  assumes "decode_header C (kc_attach_template C) (kc_attach_block C) buffer < 0"
    "in_int64 (if timeout_ns > 0 then ac_clock a 0 + timeout_ns else 0)"
    "tp_driver_wait_connected (if timeout_ns > 0 then ac_clock a 0 + timeout_ns else 0) (ac_connects a) = Some (Inr ())" "ac_assembler_ok a"
    "ac_polls a = Some ([buffer], alloc_ok, offer, offer') # polls" "timeout_ns > 0 \<longrightarrow> ac_clock a 2 \<le> ac_clock a 0 + timeout_ns"
  shows "(\<exists>info client'. tp_driver_attach C a request timeout_ns client = Some (Inr (), info, client') \<and> at_code info = INTERNAL_ERROR \<and>
      tc_active_lease_id client' = tc_active_lease_id client) \<and>
    (as_done async = False \<longrightarrow> tp_driver_async_attach_handler C alloc_ok buffer async = async)"
proof -
  let ?st = "attach_start a (normalized a request) client"
  let ?st1 = "snd (attach_poll C alloc_ok (ac_clock a) [buffer] ?st)"
  have poll: "attach_poll C alloc_ok (ac_clock a) [buffer] ?st = (ac_clock a 2, ?st1)"
    by (simp add: attach_poll_def attach_start_def attach_begin_def numeral_2_eq_2)
  have dec: "tp_driver_decode_attach_response C alloc_ok buffer correlation_id out =
      (decode_header C (kc_attach_template C) (kc_attach_block C) buffer, out)" for correlation_id out
    using assms(1) by (simp add: tp_driver_decode_attach_response_def Let_def)
  have ctx: "rx_done (al_ctx (attach_resend now offer ?st1))" "rx_out (al_ctx (attach_resend now offer ?st1)) = zero_info" for now
    using assms(1) dec by (simp_all add: attach_resend_def attach_poll_def attach_start_def attach_begin_def tp_driver_response_handler_def)
  have lease: "tc_active_lease_id (al_client (attach_resend now offer ?st1)) = tc_active_lease_id client" for now
    by (simp add: attach_resend_def attach_poll_def attach_start_def attach_begin_def tp_driver_send_attach_def offer_msg_def)
  have "attach_loop C (ac_clock a) (if timeout_ns > 0 then Some (ac_clock a 0 + timeout_ns) else None) (rq_client_id request = 0)
      (ac_ids a) ?st (ac_polls a) = Some (Inr (), attach_resend (ac_clock a 2) offer ?st1)"
    unfolding assms(5) attach_loop_round [OF poll] using ctx assms(6) by (auto simp: wants_retry_def zero_info_def)
  then have "\<exists>info client'. tp_driver_attach C a request timeout_ns client = Some (Inr (), info, client') \<and> at_code info = INTERNAL_ERROR \<and>
      tc_active_lease_id client' = tc_active_lease_id client"
    using assms(2-4) ctx lease unfolding tp_driver_attach_def Let_def attach_start_def [symmetric]
    by (auto simp: zero_info_def split: if_splits)
  moreover have "as_done async = False \<longrightarrow> tp_driver_async_attach_handler C alloc_ok buffer async = async"
    using assms(1) dec by (simp add: tp_driver_async_attach_handler_def)
  ultimately show ?thesis by blast
qed

text \<open>
  The asynchronous detach takes the answer to anybody's detach for its own. While it waits, a
  detach response with another correlation id completes it, and the caller gets the code of that
  response.
\<close>

theorem detach_takes_foreign_answer:
  assumes "ad_sent async" "\<not> ad_done async" "po_assembler_ok p" "po_fragments p = Some [buffer]"
    "decode_header C (kc_detach_template C) (kc_detach_block C) buffer = 0" "kc_detach C buffer = (correlation_id, Some code, text)"
    "correlation_id \<noteq> di_correlation_id (ad_response async)"
  shows "\<exists>async'. tp_driver_detach_poll C p async client = ((1, Some \<lparr>di_correlation_id = correlation_id, di_code = code,
      di_error_message = tp_copy_ascii 1024 text\<rparr>), async', client)"
  using assms
  by (simp add: tp_driver_detach_poll_def tp_driver_async_detach_handler_def tp_driver_decode_detach_response_def Let_def)

section \<open>Concrete evaluations\<close>

text \<open>A codec in which the first byte of a fragment is its template, and every attach response is the same.\<close>

definition sample_codec :: "attach_response \<Rightarrow> client_codec" where
  "sample_codec r = \<lparr>kc_header_length = 8, kc_header = (\<lambda>b. (ucast (b ! 0), 1, 0, 0)), kc_schema_id = 1, kc_schema_version = 0,
     kc_attach_template = 2, kc_attach_block = 0, kc_attach = (\<lambda>b. r), kc_detach_template = 4, kc_detach_block = 0,
     kc_detach = (\<lambda>b. (77, Some REJECTED, Some ''lease not found'')), kc_revoked_template = 6, kc_revoked_block = 0,
     kc_revoked = (\<lambda>b. (0, 0, 0, 0, None, None, None)), kc_shutdown_template = 7, kc_shutdown_block = 0,
     kc_shutdown = (\<lambda>b. (0, None, None))\<rparr>"

definition sample_response :: attach_response where
  "sample_response = \<lparr>xr_correlation_id = 9, xr_code = Some OK, xr_lease_id = 6, xr_lease_expiry_timestamp_ns = 5000, xr_stream_id = 7,
     xr_epoch = 20, xr_layout_version = TP_LAYOUT_VERSION, xr_header_nslots = 2, xr_header_slot_bytes = 256, xr_node_id = 5,
     xr_pool_count = 1, xr_pools = [(1, 2, 64, Some ''p'')], xr_header_uri = Some ''h'', xr_error_message = Some []\<rparr>"

definition sample_client :: tp_driver_client where
  "sample_client = \<lparr>tc_active_lease_id = 0, tc_lease_expiry_timestamp_ns = 0, tc_last_keepalive_ns = 0, tc_active_stream_id = 0,
     tc_client_id = 0, tc_role = 0, tc_keepalive_interval_ns = 1000, tc_lease_expiry_grace_intervals = 3, tc_sent = []\<rparr>"

definition sample_request :: tp_driver_attach_request where
  "sample_request = (tp_driver_attach_request_init 7 CONSUMER)\<lparr>rq_client_id := 42, rq_correlation_id := 9, rq_desired_node_id := 5\<rparr>"

definition sample_call :: "bytes list list \<Rightarrow> attach_call" where
  "sample_call polls = \<lparr>ac_clock = int, ac_ids = \<lparr>is_correlation = of_nat, is_client = of_nat\<rparr>, ac_connects = [(0, 0), (1, 1)],
     ac_assembler_ok = True, ac_offer = 64, ac_polls = List.map (\<lambda>fragments. Some (fragments, True, 128, 192)) polls\<rparr>"

lemmas sample_attach_eval = sample_codec_def sample_response_def sample_request_def sample_call_def tp_driver_attach_request_init_def
  tp_driver_attach_def Let_def tp_driver_normalize_attach_request_def attach_begin_def tp_driver_send_attach_def offer_msg_def
  attach_poll_def attach_resend_def wants_retry_def tp_driver_response_handler_def tp_driver_decode_attach_response_def decode_header_def
  decode_attach_ok_def refuse_def tp_copy_ascii_def in_int64_def retry_interval_ns_def TP_NULL_U64_def TP_NULL_U32_def
  TP_HEADER_SLOT_BYTES_def TP_LAYOUT_VERSION_def zero_info_def

lemma sample_attached:
  "\<exists>info client'. tp_driver_attach (sample_codec sample_response) (sample_call [[], [replicate 8 2]]) sample_request 100 sample_client =
     Some (Inr (), info, client') \<and> at_code info = OK"
  by (simp add: sample_attach_eval)


theorem attach_returns_witness:
  "\<exists>r info client'. tp_driver_attach (sample_codec sample_response) (sample_call (replicate 10 [])) sample_request 5 sample_client =
     Some (r, info, client')"
  using attach_returns [of 5 5 "sample_call (replicate 10 [])" 6 "sample_codec sample_response" sample_request sample_client]
  by (simp add: sample_call_def in_int64_def)

end
