(* ===== verification/Tp_Lease.thy ===== *)
theory Tp_Lease
  imports Tp_Driver_Attach Tp_Driver_Lifecycle
begin

text \<open>
  A lease as both sides see it. The driver grants it and extends it when a keepalive arrives; the client
  takes it from the response and extends its own copy of the expiry time when it sends a keepalive. The
  theorems show that the client's copy never outlives the lease of the driver.
\<close>

section \<open>The response of a grant\<close>

text \<open>
  What the accessors give for a response that the driver encoded: the fields it sets, and its layout
  version and slot size.
\<close>

definition response_view :: "u64 \<Rightarrow> attach_body \<Rightarrow> attach_response" where
  "response_view correlation_id body =
     \<lparr>xr_correlation_id = correlation_id, xr_code = Some OK, xr_lease_id = ab_lease_id body,
      xr_lease_expiry_timestamp_ns = ab_expiry_ns body, xr_stream_id = ab_stream_id body, xr_epoch = ab_epoch body,
      xr_layout_version = TP_LAYOUT_VERSION, xr_header_nslots = ab_header_nslots body,
      xr_header_slot_bytes = ucast TP_HEADER_SLOT_BYTES, xr_node_id = ab_node_id body, xr_pool_count = length (ab_pools body),
      xr_pools = List.map (\<lambda>(pool_id, nslots, stride, uri). (pool_id, nslots, stride, Some uri)) (ab_pools body),
      xr_header_uri = Some (ab_header_uri body), xr_error_message = Some []\<rparr>"

definition names_lease :: "attach_body \<Rightarrow> tp_driver_lease \<Rightarrow> bool" where
  "names_lease body lease \<longleftrightarrow> ab_lease_id body = le_lease_id lease \<and> ab_expiry_ns body = le_expiry_ns lease \<and>
     ab_stream_id body = le_stream_id lease"

lemma attach_ok_answers:
  assumes "send_attach_ok h correlation_id stream lease flag d = (0, d')" "ss_stream_id stream = le_stream_id lease"
  shows "\<exists>body text. hd (dr_sent d') = AttachResponse correlation_id OK (Some body) text \<and> names_lease body lease"
  using assms
  by (auto simp: send_attach_ok_def send_message_def tp_driver_send_control_def ask_def names_lease_def split: sum.splits if_splits)

lemma quiet_stream_id:
  assumes "quiet d d'" "i < length (dr_streams d)"
  shows "ss_stream_id (dr_streams d' ! i) = ss_stream_id (dr_streams d ! i)"
proof -
  have keys: "List.map stream_key (dr_streams d') = List.map stream_key (dr_streams d)" using assms(1) by (simp add: quiet_def stream_keys_def)
  then have "length (dr_streams d') = length (dr_streams d)" by (rule map_eq_imp_length_eq)
  then show ?thesis using arg_cong [OF keys, of "\<lambda>l. fst (l ! i)"] assms(2) by (simp add: stream_key_def)
qed

text \<open>A granted attach that was answered: the last message of the driver is the answer, and it names the new lease.\<close>

lemma grant_answered:
  assumes "tp_driver_handle_attach K h request d = (0, d')" "driver_ok d" "unat (dr_lease_counter d) < 2 ^ 64 - 1" "dr_leases d' \<noteq> dr_leases d"
  shows "\<exists>lease body text. dr_leases d' = dr_leases d @ [lease] \<and> driver_ok d' \<and> le_client_id lease = ar_client_id request \<and>
    Some (le_role lease) = ar_role request \<and> names_lease body lease \<and>
    hd (dr_sent d') = AttachResponse (ar_correlation_id request) OK (Some body) text"
proof -
  obtain q d1 where q: "attach_decide K h request d = (q, d1)" "quiet d1 d'" "epochs d' = epochs d1"
    by (rule handle_attach_cases [OF assms(1)])
  note spec = attach_decide_spec [OF q(1) assms(2,3)]
  have leases: "dr_leases d' = dr_leases d1" by (rule quiet_leases [OF q(2)])
  obtain i flag lease where y: "q = Inr (i, flag, lease)" using spec assms(4) leases by (cases q) auto
  let ?d2 = "snd (tp_driver_send_announce h i flag d1)"
  have sent: "send_attach_ok h (ar_correlation_id request) (dr_streams ?d2 ! i) lease flag ?d2 = (0, d')"
    using assms(1) by (simp add: tp_driver_handle_attach_def q(1) y Let_def)
  have "ss_stream_id (dr_streams ?d2 ! i) = ss_stream_id (dr_streams d1 ! i)"
    using quiet_stream_id [OF quiet_announce [of d1 h i flag]] spec y by auto
  then have "ss_stream_id (dr_streams ?d2 ! i) = le_stream_id lease" using spec y by simp
  from attach_ok_answers [OF sent this] show ?thesis
    using spec y leases quiet_ok [OF q(2)] by auto
qed

section \<open>Both sides in step\<close>

text \<open>
  A client and a lease of the driver: the client holds this lease, and its copy of the expiry time is
  not later than the lease's.
\<close>

definition in_step :: "tp_driver_client \<Rightarrow> tp_driver_lease \<Rightarrow> bool" where
  "in_step client lease \<longleftrightarrow> tc_active_lease_id client = le_lease_id lease \<and> tc_active_stream_id client = le_stream_id lease \<and>
     tc_client_id client = le_client_id lease \<and> tc_role client = le_role lease \<and>
     tc_lease_expiry_timestamp_ns client \<le> le_expiry_ns lease"

text \<open>The requests as the driver decodes them.\<close>

definition received_attach :: "tp_driver_attach_request \<Rightarrow> attach_request" where
  "received_attach req = \<lparr>ar_correlation_id = rq_correlation_id req, ar_stream_id = rq_stream_id req, ar_client_id = rq_client_id req,
     ar_role = Some (rq_role req), ar_expected_layout_version = rq_expected_layout_version req,
     ar_publish_mode = Some (rq_publish_mode req), ar_require_hugepages = Some (rq_require_hugepages req),
     ar_desired_node_id = rq_desired_node_id req\<rparr>"

fun received_keepalive :: "client_msg \<Rightarrow> keepalive_request option" where
  "received_keepalive (KeepaliveMsg lease_id stream_id client_id role timestamp_ns) =
     Some \<lparr>ka_lease_id = lease_id, ka_stream_id = stream_id, ka_client_id = client_id, ka_role = Some role\<rparr>"
| "received_keepalive _ = None"

text \<open>
  C4: the driver and a client agree on a lease. When the driver grants the request of a client that
  chose its id and answers it, and the blocking attach of that client reports OK, then the table of the
  driver has one more lease, and it is the lease that the client holds: the same id, stream, client, role
  and expiry time. The fragments of the client have no other answer to its correlation id.
\<close>

theorem attach_in_step:
  assumes grant: "tp_driver_handle_attach K h (received_attach (normalized a request)) d = (0, d')" "driver_ok d"
      "unat (dr_lease_counter d) < 2 ^ 64 - 1" "dr_leases d' \<noteq> dr_leases d"
    and client: "tp_driver_attach C a request timeout_ns client = Some (Inr (), info, client')" "at_code info = OK" "rq_client_id request \<noteq> 0"
    and carried: "\<forall>buffer \<in> delivered (ac_polls a). xr_correlation_id (kc_attach C buffer) = rq_correlation_id (normalized a request) \<longrightarrow>
      (\<exists>body text. hd (dr_sent d') = AttachResponse (rq_correlation_id (normalized a request)) OK (Some body) text \<and>
         kc_attach C buffer = response_view (rq_correlation_id (normalized a request)) body)"
  shows "\<exists>lease. dr_leases d' = dr_leases d @ [lease] \<and> driver_ok d' \<and> in_step client' lease \<and>
    tc_lease_expiry_timestamp_ns client' = le_expiry_ns lease"
proof -
  obtain lease body msg where lease: "dr_leases d' = dr_leases d @ [lease]" "driver_ok d'" "le_client_id lease = rq_client_id (normalized a request)"
    "le_role lease = rq_role (normalized a request)" "names_lease body lease"
    "hd (dr_sent d') = AttachResponse (rq_correlation_id (normalized a request)) OK (Some body) msg"
    using grant_answered [OF grant] by (auto simp: received_attach_def)
  obtain st where ok: "loop_ok C (ac_ids a) (rq_client_id request = 0) (normalized a request) client (delivered (ac_polls a)) st"
    and info: "info = rx_out (al_ctx st)"
    and c: "client' = (if at_code info = OK then tp_driver_client_update_lease info (rq_client_id (al_request st)) (rq_role (al_request st)) (al_client st)
               else al_client st)"
    using attach_returned [OF client(1)] by (elim exE conjE) (rule that)
  have req: "al_request st = normalized a request" using ok client(3) by (auto simp: loop_ok_def request_of_def)
  then obtain buffer where b: "buffer \<in> delivered (ac_polls a)" "xr_correlation_id (kc_attach C buffer) = rq_correlation_id (normalized a request)"
    "info_of (kc_attach C buffer) info"
    using ok info client(2) by (auto simp: loop_ok_def answered_def)
  then have view: "kc_attach C buffer = response_view (rq_correlation_id (normalized a request)) body"
    using carried lease(6) by auto
  have "in_step client' lease \<and> tc_lease_expiry_timestamp_ns client' = le_expiry_ns lease"
    using c client(2) b(3) lease(3-5) req unfolding view
    by (simp add: in_step_def tp_driver_client_update_lease_def info_of_def response_view_def names_lease_def)
  then show ?thesis using lease(1,2) by blast
qed

section \<open>Keepalives\<close>

definition lease_term :: "tp_driver_config \<Rightarrow> nat" where
  "lease_term config = unat (cf_lease_keepalive_interval_ms config) * 1000000 * unat (cf_lease_expiry_grace_intervals config)"

lemma unat_eqI: "w = of_nat n \<Longrightarrow> n < 2 ^ 64 \<Longrightarrow> unat (w :: u64) = n"
  by (simp add: unat_of_nat)

lemma le_TP_NULL_U64: "x \<le> TP_NULL_U64"
proof -
  have "TP_NULL_U64 = - 1" by (simp add: TP_NULL_U64_def)
  then show ?thesis using word_n1_ge [of x] by metis
qed

lemma unat_lease_expiry:
  assumes "unat now + lease_term config < 2 ^ 64"
  shows "unat (lease_expiry config now) = unat now + lease_term config"
  by (rule unat_eqI [OF _ assms]) (simp add: lease_expiry_def lease_term_def)

lemma keepalive_handled:
  assumes "driver_ok d" "lease \<in> set (dr_leases d)" "req = \<lparr>ka_lease_id = le_lease_id lease, ka_stream_id = le_stream_id lease,
     ka_client_id = le_client_id lease, ka_role = Some (le_role lease)\<rparr>"
  shows "dr_leases (tp_driver_handle_keepalive h req d) = List.map (\<lambda>l. if l = lease then
      lease\<lparr>le_expiry_ns := lease_expiry (dr_config d) (hs_clock h (dr_calls d))\<rparr> else l) (dr_leases d)"
proof -
  obtain i where i: "i < length (dr_leases d)" "dr_leases d ! i = lease" using assms(2) by (auto simp: in_set_conv_nth)
  have dist: "distinct (List.map le_lease_id (dr_leases d))" and nz: "le_lease_id lease \<noteq> 0"
    using assms(1,2) by (auto simp: driver_ok_def leases_ok_def lease_ok_def)
  have same: "j = i" if "j < length (dr_leases d)" "le_lease_id (dr_leases d ! j) = le_lease_id lease" for j
    using nth_eq_iff_index_eq [OF dist, of j i] that i by simp
  have "find_index (\<lambda>l. le_lease_id l = le_lease_id lease) (dr_leases d) = Some i"
  proof (rule find_index_SomeI [OF i(1)])
    show "le_lease_id (dr_leases d ! i) = le_lease_id lease" using i(2) by simp
    show "le_lease_id (dr_leases d ! j) \<noteq> le_lease_id lease" if "j < i" for j
      using same [of j] that i(1) by linarith
  qed
  then have find: "tp_driver_find_lease d (le_lease_id lease) = Some i" using nz by (simp add: tp_driver_find_lease_def)
  have "(dr_leases d)[i := x] = List.map (\<lambda>l. if l = lease then x else l) (dr_leases d)" for x
  proof (rule nth_equalityI)
    fix j
    assume "j < length ((dr_leases d)[i := x])"
    then have j: "j < length (dr_leases d)" by simp
    then have "dr_leases d ! j = lease \<longleftrightarrow> j = i" using same [OF j] i(2) by metis
    then show "(dr_leases d)[i := x] ! j = List.map (\<lambda>l. if l = lease then x else l) (dr_leases d) ! j"
      using j i(1) by (simp add: nth_list_update)
  qed simp
  then show ?thesis using find i assms(3) by (simp add: tp_driver_handle_keepalive_def ask_def)
qed

lemma record_keepalive_expiry:
  assumes "unat ts + unat (tc_keepalive_interval_ns client) * unat (tc_lease_expiry_grace_intervals client) < 2 ^ 64"
  shows "unat (tc_lease_expiry_timestamp_ns (tp_driver_client_record_keepalive ts client)) \<le>
    max (unat (tc_lease_expiry_timestamp_ns client))
      (unat ts + unat (tc_keepalive_interval_ns client) * unat (tc_lease_expiry_grace_intervals client))"
proof -
  have "unat (ts + tc_keepalive_interval_ns client * tc_lease_expiry_grace_intervals client) =
      unat ts + unat (tc_keepalive_interval_ns client) * unat (tc_lease_expiry_grace_intervals client)"
    by (rule unat_eqI [OF _ assms]) simp
  then show ?thesis by (simp add: tp_driver_client_record_keepalive_def Let_def)
qed

text \<open>
  C3: keepalives keep the two sides in step. A keepalive that the client sends and the driver handles
  renews exactly this lease, to the driver's full term from its own clock, and leaves the other leases
  alone. The client's copy of the expiry time is again not later than the lease's, so that a client that
  believes in its lease is right: at no time at which it does not consider the lease expired would a
  sweep of the driver end it. The clocks of both sides are the same monotonic clock, and the term that the
  client is configured with is not longer than the driver's.
\<close>

theorem keepalive_in_step:
  assumes "driver_ok d" "lease \<in> set (dr_leases d)" "in_step client lease" "tp_driver_keepalive result ts client = (0, client')"
    "tc_sent client' = m # tc_sent client" "received_keepalive m = Some req" "now = hs_clock h (dr_calls d)" "ts \<le> now"
    "le_expiry_ns lease \<le> lease_expiry (dr_config d) now" "unat now + lease_term (dr_config d) < 2 ^ 64"
    "unat (tc_keepalive_interval_ns client) * unat (tc_lease_expiry_grace_intervals client) \<le> lease_term (dr_config d)"
  shows "\<exists>lease'. dr_leases (tp_driver_handle_keepalive h req d) = List.map (\<lambda>l. if l = lease then lease' else l) (dr_leases d) \<and>
    unat (le_expiry_ns lease') = unat now + lease_term (dr_config d) \<and> in_step client' lease' \<and>
    (\<forall>t. \<not> tp_driver_client_lease_expired client' t \<longrightarrow> \<not> lease_expired t lease')"
proof -
  let ?lease' = "lease\<lparr>le_expiry_ns := lease_expiry (dr_config d) now\<rparr>"
  let ?span = "unat (tc_keepalive_interval_ns client) * unat (tc_lease_expiry_grace_intervals client)"
  have sent: "result \<ge> 0" "m = KeepaliveMsg (tc_active_lease_id client) (tc_active_stream_id client) (tc_client_id client) (tc_role client) ts"
    "client' = tp_driver_client_record_keepalive ts (client\<lparr>tc_sent := m # tc_sent client\<rparr>)"
    using assms(4,5) by (auto simp: tp_driver_keepalive_def offer_msg_def tp_driver_client_record_keepalive_def Let_def split: if_splits)
  have req: "req = \<lparr>ka_lease_id = le_lease_id lease, ka_stream_id = le_stream_id lease, ka_client_id = le_client_id lease,
      ka_role = Some (le_role lease)\<rparr>"
    using assms(3,6) sent(2) by (auto simp: in_step_def)
  have leases: "dr_leases (tp_driver_handle_keepalive h req d) = List.map (\<lambda>l. if l = lease then ?lease' else l) (dr_leases d)"
    using keepalive_handled [OF assms(1,2) req, of h] assms(7) by simp
  have expiry: "unat (lease_expiry (dr_config d) now) = unat now + lease_term (dr_config d)" by (rule unat_lease_expiry [OF assms(10)])
  have bound: "unat ts + ?span \<le> unat now + lease_term (dr_config d)" using assms(8,11) by (simp add: word_le_nat_alt add_mono)
  have "unat (tc_lease_expiry_timestamp_ns client') \<le> max (unat (tc_lease_expiry_timestamp_ns client)) (unat ts + ?span)"
    using record_keepalive_expiry [of ts "client\<lparr>tc_sent := m # tc_sent client\<rparr>"] bound assms(10) sent(3) by simp
  also have "\<dots> \<le> unat (lease_expiry (dr_config d) now)"
    using bound expiry assms(3,9) by (simp add: in_step_def word_le_nat_alt)
  finally have le: "tc_lease_expiry_timestamp_ns client' \<le> lease_expiry (dr_config d) now" by (simp add: word_le_nat_alt)
  have step: "in_step client' ?lease'"
    using assms(3) le sent(3) by (simp add: in_step_def tp_driver_client_record_keepalive_def Let_def)
  have "le_lease_id lease \<noteq> 0" using assms(1,2) by (auto simp: driver_ok_def leases_ok_def lease_ok_def)
  then have "\<not> lease_expired t ?lease'" if "\<not> tp_driver_client_lease_expired client' t" for t
    using that step by (auto simp: lease_expired_def tp_driver_client_lease_expired_def in_step_def not_le dest: less_le_trans [OF _ le_TP_NULL_U64])
  then show ?thesis using leases expiry step by (intro exI [of _ ?lease']) simp
qed

section \<open>Concrete evaluations\<close>

definition consumer_driver :: driver where
  "consumer_driver = sample_driver\<lparr>dr_lease_counter := 5\<rparr>"

definition consumer_lease :: tp_driver_lease where
  "consumer_lease = \<lparr>le_lease_id = 6, le_expiry_ns = 3000001001, le_issued_ns = 1001, le_stream_id = 7, le_client_id = 42, le_node_id = 5,
     le_role = CONSUMER\<rparr>"

definition consumer_body :: attach_body where
  "consumer_body = \<lparr>ab_lease_id = 6, ab_expiry_ns = 3000001001, ab_stream_id = 7, ab_epoch = 20, ab_header_nslots = 2, ab_node_id = 5,
     ab_pools = [(1, 2, 64, ''shm:file?path=/dev/shm/tensorpool-tp_user/default/7/20/1.pool|require_hugepages=false'')],
     ab_header_uri = ''shm:file?path=/dev/shm/tensorpool-tp_user/default/7/20/header.ring|require_hugepages=false''\<rparr>"

lemma consumer_regions: "region_entries sample_host sample_config sample_stream False = Inr (ab_pools consumer_body, ab_header_uri consumer_body)"
  by code_simp

lemma announced_regions: "region_entries h c (s\<lparr>ss_last_announce_ns := t\<rparr>) f = region_entries h c s f"
  by (simp add: region_entries_def)

lemma consumer_decided:
  "\<exists>d1. attach_decide le_superblock sample_host (received_attach sample_request) consumer_driver = (Inr (0, False, consumer_lease), d1) \<and>
     dr_streams d1 = [sample_stream] \<and> dr_config d1 = sample_config \<and> dr_leases d1 = [consumer_lease]"
  by (simp add: attach_eval sample_eval received_attach_def sample_request_def tp_driver_attach_request_init_def consumer_driver_def
      consumer_lease_def TP_PUBLISH_MODE_EXISTING_OR_CREATE_def TP_HUGEPAGES_UNSPECIFIED_def lease_expiry_def)

lemma host_sends: "hs_encodes sample_host m" "hs_offer sample_host n = 1"
  by (simp_all add: sample_host_def)

lemma consumer_granted:
  "\<exists>d'. tp_driver_handle_attach le_superblock sample_host (received_attach sample_request) consumer_driver = (0, d') \<and>
     dr_leases d' = [consumer_lease] \<and> hd (dr_sent d') = AttachResponse 9 OK (Some consumer_body) []"
proof -
  obtain d1 where d1: "attach_decide le_superblock sample_host (received_attach sample_request) consumer_driver = (Inr (0, False, consumer_lease), d1)"
    "dr_streams d1 = [sample_stream]" "dr_config d1 = sample_config" "dr_leases d1 = [consumer_lease]"
    using consumer_decided by blast
  have "\<lparr>ab_lease_id = le_lease_id consumer_lease, ab_expiry_ns = le_expiry_ns consumer_lease, ab_stream_id = ss_stream_id sample_stream,
      ab_epoch = ss_epoch sample_stream, ab_header_nslots = pf_header_nslots (the (ss_profile sample_stream)),
      ab_node_id = le_node_id consumer_lease, ab_pools = ab_pools consumer_body, ab_header_uri = ab_header_uri consumer_body\<rparr> = consumer_body"
    by (simp add: consumer_body_def consumer_lease_def sample_stream_def sample_profile_def)
  moreover have "ar_correlation_id (received_attach sample_request) = 9" by (simp add: received_attach_def sample_request_def)
  ultimately show ?thesis
    using d1 consumer_regions by (simp add: tp_driver_handle_attach_def tp_driver_send_announce_def ask_def Let_def host_sends
        tp_driver_send_control_def upd_stream_def send_attach_ok_def send_message_def announced_regions)
qed

abbreviation "lease_codec \<equiv> sample_codec (response_view 9 consumer_body)"

abbreviation "lease_call \<equiv> sample_call [[], [replicate 8 2]]"

lemma consumer_attached:
  "\<exists>info client'. tp_driver_attach lease_codec lease_call sample_request 100 sample_client = Some (Inr (), info, client') \<and> at_code info = OK"
  by (simp add: sample_attach_eval response_view_def consumer_body_def)

theorem attach_in_step_witness:
  "\<exists>info client'. tp_driver_attach lease_codec lease_call sample_request 100 sample_client = Some (Inr (), info, client') \<and>
     in_step client' consumer_lease"
proof -
  obtain d' where d': "tp_driver_handle_attach le_superblock sample_host (received_attach sample_request) consumer_driver = (0, d')"
    "dr_leases d' = [consumer_lease]" "hd (dr_sent d') = AttachResponse 9 OK (Some consumer_body) []"
    using consumer_granted by blast
  obtain info client' where c: "tp_driver_attach lease_codec lease_call sample_request 100 sample_client = Some (Inr (), info, client')"
    "at_code info = OK"
    using consumer_attached by blast
  have norm: "normalized lease_call sample_request = sample_request"
    by (simp add: tp_driver_normalize_attach_request_def sample_request_def)
  have ids: "rq_client_id sample_request \<noteq> 0" "rq_correlation_id sample_request = 9" by (simp_all add: sample_request_def)
  have ok: "driver_ok consumer_driver" "unat (dr_lease_counter consumer_driver) < 2 ^ 64 - 1" "dr_leases d' \<noteq> dr_leases consumer_driver"
    using d'(2) by (simp_all add: consumer_driver_def driver_ok_def leases_ok_def producers_ok_def stream_keys_def stream_key_def
        unique_ids_def sample_eval)
  have "\<exists>lease. dr_leases d' = dr_leases consumer_driver @ [lease] \<and> driver_ok d' \<and> in_step client' lease \<and>
      tc_lease_expiry_timestamp_ns client' = le_expiry_ns lease"
  proof (rule attach_in_step [where a = lease_call and request = sample_request, unfolded norm, OF d'(1) ok c ids(1)])
    show "\<forall>buffer \<in> delivered (ac_polls lease_call). xr_correlation_id (kc_attach lease_codec buffer) = rq_correlation_id sample_request \<longrightarrow>
      (\<exists>body text. hd (dr_sent d') = AttachResponse (rq_correlation_id sample_request) OK (Some body) text \<and>
        kc_attach lease_codec buffer = response_view (rq_correlation_id sample_request) body)"
      unfolding ids d'(3) by (simp add: sample_codec_def)
  qed
  then show ?thesis using c(1) d'(2) by (auto simp: consumer_driver_def sample_driver_def)
qed

definition consumer_client :: tp_driver_client where
  "consumer_client = sample_client\<lparr>tc_active_lease_id := 6, tc_lease_expiry_timestamp_ns := 3000001001, tc_active_stream_id := 7,
     tc_client_id := 42, tc_role := CONSUMER\<rparr>"

theorem keepalive_in_step_witness:
  "\<exists>lease'. dr_leases (tp_driver_handle_keepalive sample_host \<lparr>ka_lease_id = 6, ka_stream_id = 7, ka_client_id = 42, ka_role = Some CONSUMER\<rparr>
       (consumer_driver\<lparr>dr_leases := [consumer_lease], dr_lease_counter := 6, dr_calls := 5000\<rparr>)) = [lease'] \<and>
     unat (le_expiry_ns lease') = 3000006000 \<and> in_step (snd (tp_driver_keepalive 64 5500 consumer_client)) lease'"
proof -
  let ?d = "consumer_driver\<lparr>dr_leases := [consumer_lease], dr_lease_counter := 6, dr_calls := 5000\<rparr>"
  let ?m = "KeepaliveMsg 6 7 42 CONSUMER 5500"
  have ok: "driver_ok ?d"
    by (simp add: consumer_driver_def driver_ok_def leases_ok_def lease_ok_def producers_ok_def stream_keys_def stream_key_def unique_ids_def
        sample_driver_def sample_stream_def consumer_lease_def TP_NULL_U32_def CONSUMER_def PRODUCER_def)
  have step: "in_step consumer_client consumer_lease" by (simp add: in_step_def consumer_client_def consumer_lease_def)
  have sent: "tp_driver_keepalive 64 5500 consumer_client = (0, snd (tp_driver_keepalive 64 5500 consumer_client))"
    "tc_sent (snd (tp_driver_keepalive 64 5500 consumer_client)) = ?m # tc_sent consumer_client"
    by (simp_all add: tp_driver_keepalive_def offer_msg_def consumer_client_def tp_driver_client_record_keepalive_def Let_def)
  have clock: "hs_clock sample_host (dr_calls ?d) = 6000" by (simp add: sample_host_def)
  have config: "lease_term (dr_config ?d) = 3000000000" "le_expiry_ns consumer_lease \<le> lease_expiry (dr_config ?d) 6000"
    "unat (tc_keepalive_interval_ns consumer_client) * unat (tc_lease_expiry_grace_intervals consumer_client) \<le> lease_term (dr_config ?d)"
    by (simp_all add: consumer_driver_def sample_driver_def sample_config_def lease_term_def lease_expiry_def consumer_lease_def
        consumer_client_def sample_client_def)
  from keepalive_in_step [OF ok _ step sent, of "\<lparr>ka_lease_id = 6, ka_stream_id = 7, ka_client_id = 42, ka_role = Some CONSUMER\<rparr>" 6000 sample_host]
  show ?thesis using clock config by simp blast
qed

end
