(* ===== verification/Tp_Consumer_Attach.thy ===== *)
theory Tp_Consumer_Attach
  imports Tp_Driver_Attach Tp_Consumer_Mapping
begin

text \<open>
  Attaching and closing a consumer (src/src/client/tp_consumer.c): the request it makes of the driver,
  the configuration it takes from the answer, and what is left when a step fails. The driver client and
  the attachment of a configuration are those of the other theories.
\<close>

section \<open>The request\<close>

definition TP_PUBLISH_MODE_REQUIRE_EXISTING :: u8 where
  "TP_PUBLISH_MODE_REQUIRE_EXISTING = 1"

text \<open>
  \<open>template\<close> is the request of the context; \<open>correlation_id\<close> and \<open>client_id\<close> are what the
  counters give when they are asked. A client id that is drawn is stored in the context.
\<close>

definition tp_consumer_fill_driver_request ::
  "u64 \<Rightarrow> u32 \<Rightarrow> tp_driver_attach_request \<Rightarrow> consumer \<Rightarrow> tp_driver_attach_request \<times> consumer" where
  "tp_consumer_fill_driver_request correlation_id client_id template c =
     (let out = (if rq_correlation_id template = 0 then template\<lparr>rq_correlation_id := correlation_id\<rparr> else template);
          out = (if rq_stream_id out = 0 then out\<lparr>rq_stream_id := cx_stream_id c\<rparr> else out);
          c = (if rq_client_id out = 0 \<and> cx_consumer_id c = 0 then c\<lparr>cx_consumer_id := client_id\<rparr> else c);
          out = (if rq_client_id out = 0 then out\<lparr>rq_client_id := cx_consumer_id c\<rparr> else out);
          out = (if rq_role out = 0 then out\<lparr>rq_role := CONSUMER\<rparr> else out);
          out = (if rq_publish_mode out = 0 then out\<lparr>rq_publish_mode := TP_PUBLISH_MODE_REQUIRE_EXISTING\<rparr> else out);
          out = (if rq_require_hugepages out = 0 then out\<lparr>rq_require_hugepages := TP_HUGEPAGES_UNSPECIFIED\<rparr> else out)
      in (out, c))"

section \<open>Attaching\<close>

text \<open>
  The part after the answer, shared by the blocking and the polled attachment: the configuration of the
  answer is attached, and a failure gives the answer up. The outer \<open>Inl\<close> is undefined behaviour.
\<close>

definition attach_answer ::
  "sb_codec \<Rightarrow> client_env \<Rightarrow> tp_driver_attach_info \<Rightarrow> u64 \<Rightarrow> consumer \<Rightarrow> (unit res \<times> consumer) res" where
  "attach_answer K env info lease_id c =
     (if at_code info \<noteq> OK then Inr (Inl (EINVAL ''tp_consumer_attach_driver: driver attach failed''), c)
      else
        (let c = c\<lparr>cx_driver_attached := True, cx_active_lease_id := lease_id\<rparr>
         in if \<not> cv_alloc_ok env
            then Inr (Inl (ENOMEM ''tp_consumer_attach_driver: pool allocation failed''), c\<lparr>cx_driver_attached := False\<rparr>)
            else
              (case tp_driver_attach_consumer_config (length (at_pools info)) info of
                 Inl e \<Rightarrow> Inr (Inl e, c\<lparr>cx_driver_attached := False\<rparr>)
               | Inr config \<Rightarrow>
                   bind_res (tp_consumer_attach_config K env config c) (\<lambda>(r, c).
                     case r of
                       Inl e \<Rightarrow> Inr (Inl e, c\<lparr>cx_driver_attached := False\<rparr>)
                     | Inr _ \<Rightarrow> Inr (Inr (), c)))))"

text \<open>
  \<open>driver_ok\<close>: the driver client is there or could be made. \<open>None\<close> when the wait for the
  driver has not ended.
\<close>

record driver_call =
  dv_ok :: bool
  dv_call :: attach_call
  dv_template :: tp_driver_attach_request
  dv_timeout_ns :: int
  dv_correlation_id :: u64
  dv_client_id :: u32

definition tp_consumer_attach_driver :: "client_codec \<Rightarrow> sb_codec \<Rightarrow> client_env \<Rightarrow> driver_call \<Rightarrow> consumer \<Rightarrow> tp_driver_client \<Rightarrow>
    (unit res \<times> consumer \<times> tp_driver_client) res option" where
  "tp_consumer_attach_driver C K env v c client =
     (if \<not> dv_ok v then Some (Inr (Inl FAIL, c, client))
      else
        (case tp_consumer_fill_driver_request (dv_correlation_id v) (dv_client_id v) (dv_template v) c of
           (request, c) \<Rightarrow>
             (case tp_driver_attach C (dv_call v) request (dv_timeout_ns v) client of
                None \<Rightarrow> None
              | Some (Inl e, info, client) \<Rightarrow> Some (Inr (Inl e, c, client))
              | Some (Inr _, info, client) \<Rightarrow>
                  Some (bind_res (attach_answer K env info (tc_active_lease_id client) c) (\<lambda>(r, c). Inr (r, c, client))))))"

text \<open>A configuration is for consumers without a driver.\<close>

definition tp_consumer_attach :: "client_codec \<Rightarrow> sb_codec \<Rightarrow> client_env \<Rightarrow> driver_call \<Rightarrow> tp_consumer_config option \<Rightarrow> consumer \<Rightarrow>
    tp_driver_client \<Rightarrow> (unit res \<times> consumer \<times> tp_driver_client) res option" where
  "tp_consumer_attach C K env v config c client =
     (if co_use_driver (cx_data c) then
        (if config \<noteq> None then Some (Inr (Inl (EINVAL ''tp_consumer_attach: driver mode ignores manual config''), c, client))
         else tp_consumer_attach_driver C K env v c client)
      else
        (case config of
           None \<Rightarrow> Some (Inr (Inl (EINVAL ''tp_consumer_attach: null config''), c, client))
         | Some config \<Rightarrow> Some (bind_res (tp_consumer_attach_config K env config c) (\<lambda>(r, c). Inr (r, c, client)))))"

definition tp_consumer_attach_driver_async ::
  "bool \<Rightarrow> u64 \<Rightarrow> u32 \<Rightarrow> tp_driver_attach_request \<Rightarrow> consumer \<Rightarrow> (tp_async_attach \<times> consumer) res" where
  "tp_consumer_attach_driver_async driver_ok correlation_id client_id template c =
     guard (\<not> driver_ok) FAIL
     (case tp_consumer_fill_driver_request correlation_id client_id template c of
        (request, c) \<Rightarrow> Inr (tp_driver_attach_async correlation_id client_id request, c))"

text \<open>The result is 1 when the consumer is attached, 0 while the answer is awaited, -1 for a failure.\<close>

definition tp_consumer_attach_driver_poll :: "client_codec \<Rightarrow> sb_codec \<Rightarrow> client_env \<Rightarrow> poll_call \<Rightarrow> tp_async_attach \<Rightarrow> consumer \<Rightarrow>
    tp_driver_client \<Rightarrow> (int \<times> tp_async_attach \<times> consumer \<times> tp_driver_client) res" where
  "tp_consumer_attach_driver_poll C K env p async c client =
     (case tp_driver_attach_poll C p async client of
        ((r, info), async, client) \<Rightarrow>
          if r \<le> 0 then Inr (r, async, c, client)
          else
            bind_res (attach_answer K env (the info) (tc_active_lease_id client) c) (\<lambda>(r, c).
              Inr (case r of Inl e \<Rightarrow> - 1 | Inr _ \<Rightarrow> 1, async, c, client)))"

text \<open>
  Closing: the regions are unmapped, and a consumer that holds a lease offers a detach, whose
  correlation id is the clock. What the consumer was is freed; what remains is the driver client.
\<close>

definition tp_consumer_close :: "client_env \<Rightarrow> int \<Rightarrow> u64 \<Rightarrow> u64 \<Rightarrow> consumer \<Rightarrow> tp_driver_client \<Rightarrow> tp_driver_client res" where
  "tp_consumer_close env offer now next_id c client =
     bind_res (consumer_unmap_regions env c) (\<lambda>c.
       Inr (if cx_driver_attached c
            then snd (tp_driver_detach offer next_id now (tc_active_lease_id client) (tc_active_stream_id client) (tc_client_id client)
                        (tc_role client) client)
            else client))"

section \<open>What an attachment leaves\<close>

lemma fill_request_consumer:
  assumes "tp_consumer_fill_driver_request correlation_id client_id template c = (request, c')"
  shows "c' = c \<or> c' = c\<lparr>cx_consumer_id := client_id\<rparr>"
proof -
  have pick: "(if P then x else y) = y \<or> (if P then x else y) = x" for P and x y :: consumer by simp
  have "snd (tp_consumer_fill_driver_request correlation_id client_id template c) = c \<or>
      snd (tp_consumer_fill_driver_request correlation_id client_id template c) = c\<lparr>cx_consumer_id := client_id\<rparr>"
    unfolding tp_consumer_fill_driver_request_def Let_def snd_conv by (rule pick)
  then show ?thesis using assms by simp
qed

lemma attach_frame:
  "consumer_inv K (c\<lparr>cx_consumer_id := x\<rparr>) = consumer_inv K c"
  "consumer_inv K (c\<lparr>cx_driver_attached := b\<rparr>) = consumer_inv K c"
  "consumer_inv K (c\<lparr>cx_driver_attached := b, cx_active_lease_id := l\<rparr>) = consumer_inv K c"
  "consumer_inv K (c\<lparr>cx_active_lease_id := l\<rparr>) = consumer_inv K c"
  by (simp_all add: consumer_inv_def consumer_ok_def pools_consistent_def mapping_valid_def)

text \<open>
  What an attachment through the driver leaves: validated regions of the stream and epoch of the answer
  and the lease, or no mapping; a failed one holds no lease.
\<close>

definition attached_through :: "sb_codec \<Rightarrow> tp_driver_attach_info \<Rightarrow> u64 \<Rightarrow> unit res \<Rightarrow> consumer \<Rightarrow> bool" where
  "attached_through K info lease_id r c' \<longleftrightarrow> consumer_inv K c' \<and>
     (r = Inr () \<longrightarrow> at_code info = OK \<and> cx_driver_attached c' \<and> cx_active_lease_id c' = lease_id \<and>
        (if co_shm_mapped (cx_data c') then mapping_valid K (at_stream_id info) (at_epoch info) c'
         else co_state (cx_data c') = TP_CONSUMER_STATE_FALLBACK)) \<and>
     (r \<noteq> Inr () \<longrightarrow> \<not> co_shm_mapped (cx_data c') \<and> \<not> cx_driver_attached c')"

lemma consumer_config_fields:
  "tp_driver_attach_consumer_config (length (at_pools info)) info = Inr config \<Longrightarrow> cg_stream_id config = at_stream_id info \<and>
   cg_epoch config = at_epoch info \<and> cg_header_nslots config = at_header_nslots info \<and> (cg_pools config = [] \<longleftrightarrow> at_pools info = [])"
  by (auto simp: tp_driver_attach_consumer_config_def)

definition lease_fields :: "consumer \<Rightarrow> bool \<times> u64" where
  "lease_fields c = (cx_driver_attached c, cx_active_lease_id c)"

lemma unmapped_lease: "consumer_unmap_regions env c = Inr c' \<Longrightarrow> lease_fields c' = lease_fields c"
  by (auto simp: consumer_unmap_regions_def lease_fields_def res_simps)

lemma cleanup_lease: "attach_cleanup env e c = Inr (r, c') \<Longrightarrow> lease_fields c' = lease_fields c"
  by (auto simp: attach_cleanup_def consumer_enter_fallback_def res_simps Let_def lease_fields_def dest!: unmapped_lease split: if_splits)

lemma success_lease: "lease_fields (attach_success env config header pools c) = lease_fields c"
  by (simp add: attach_success_def Let_def lease_fields_def)

lemma attach_config_lease:
  assumes "tp_consumer_attach_config K env config c = Inr (r, c')"
  shows "lease_fields c' = lease_fields c"
proof -
  have eq: "lease_fields c' = lease_fields d" if "attach_cleanup env e d = Inr (r, c')" for d e using cleanup_lease [OF that] .
  show ?thesis
    using assms success_lease unfolding tp_consumer_attach_config_def Let_def
    by (auto simp: lease_fields_def dest!: eq split: if_splits sum.splits)
qed

lemma attached_inv:
  assumes "attached K epoch c r c'" "consumer_inv K c" "\<not> co_shm_mapped (cx_data c)"
  shows "consumer_inv K c'"
  using assms by (auto simp: attached_def consumer_inv_def)

lemma attach_answer_ok:
  assumes inv: "consumer_inv K c" "\<not> co_shm_mapped (cx_data c)" "\<not> cx_driver_attached c"
    and info: "at_code info = OK \<longrightarrow> at_stream_id info = cx_stream_id c \<and> tp_is_power_of_two (at_header_nslots info) \<and> at_pools info \<noteq> []"
  shows "\<exists>r c'. attach_answer K env info lease_id c = Inr (r, c') \<and> attached_through K info lease_id r c'"
proof (cases "at_code info = OK \<and> cv_alloc_ok env")
  case True
  let ?c = "c\<lparr>cx_driver_attached := True, cx_active_lease_id := lease_id\<rparr>"
  obtain config where config: "tp_driver_attach_consumer_config (length (at_pools info)) info = Inr config"
    by (simp add: tp_driver_attach_consumer_config_def)
  note fields = consumer_config_fields [OF config]
  have c: "consumer_ok K ?c" "\<not> co_shm_mapped (cx_data ?c)" using inv attach_frame(3) by (auto simp: consumer_inv_def)
  obtain r c' where att: "tp_consumer_attach_config K env config ?c = Inr (r, c')" and c': "attached K (cg_epoch config) ?c r c'"
    using attach_config_ok [OF c, of config env] fields info True by auto
  have inv': "consumer_inv K c'" by (rule attached_inv [OF c']) (use inv attach_frame(3) in auto)
  have lease: "cx_driver_attached c'" "cx_active_lease_id c' = lease_id"
    using attach_config_lease [OF att] by (simp_all add: lease_fields_def)
  show ?thesis
  proof (cases r)
    case (Inl e)
    have "attached_through K info lease_id (Inl e) (c'\<lparr>cx_driver_attached := False\<rparr>)"
      using inv' c' Inl attach_frame(2) [of K False c'] by (auto simp: attached_through_def attached_def)
    then show ?thesis using config att True Inl by (simp add: attach_answer_def)
  next
    case (Inr u)
    have "mapping_valid K (at_stream_id info) (at_epoch info) c'" if "co_shm_mapped (cx_data c')"
      using mapped_valid [OF inv' that] c' that info fields True by (auto simp: attached_def)
    then have "attached_through K info lease_id (Inr ()) c'"
      using inv' c' lease Inr True by (auto simp: attached_through_def attached_def)
    then show ?thesis using config att True Inr by (simp add: attach_answer_def)
  qed
next
  case False
  then show ?thesis
    using inv by (auto simp: attach_answer_def attached_through_def attach_frame)
qed



end
