(* ===== verification/Tp_Stream.thy ===== *)
theory Tp_Stream
  imports Tp_Sbe
begin

text \<open>
  Messages that are read and written from front to back. The messages with nested groups and texts have no
  fixed offsets: the generated accessors keep a position, and a call that moves it decides where the next one reads.
  The accessors are a parameter here, too; for a decoder the position is the rest of the buffer, for an encoder
  the bytes written so far. The locale \<open>stream_laws\<close> states what the sources rely on, in which order they have
  to be used included; the little-endian layout of the schemas is an instance.
\<close>

section \<open>Texts\<close>

definition text_bytes :: "string \<Rightarrow> bytes" where
  "text_bytes s = map (\<lambda>c. of_nat (of_char c)) s"

definition bytes_text :: "bytes \<Rightarrow> string" where
  "bytes_text b = map (\<lambda>x. char_of (unat x)) b"

lemma bytes_text_of [simp]: "bytes_text (text_bytes s) = s"
proof -
  have "char_of (unat (of_nat (of_char c) :: u8)) = c" for c :: char
    by (simp add: unat_of_nat)
  then show ?thesis by (simp add: bytes_text_def text_bytes_def comp_def)
qed

lemma length_text_bytes [simp]: "length (text_bytes s) = length s"
  by (simp add: text_bytes_def)

lemma bytes_text_append [simp]: "bytes_text (a @ b) = bytes_text a @ bytes_text b"
  by (simp add: bytes_text_def)

text \<open>A C string ends at the first NUL.\<close>

definition c_string :: "string \<Rightarrow> string" where
  "c_string s = takeWhile (\<lambda>c. c \<noteq> char_of (0 :: nat)) s"

definition no_nul :: "string \<Rightarrow> bool" where
  "no_nul s \<longleftrightarrow> char_of (0 :: nat) \<notin> set s"

lemma c_string_id: "no_nul s \<Longrightarrow> c_string s = s"
  unfolding c_string_def no_nul_def by (rule takeWhile_eq_all_conv [THEN iffD2]) blast

section \<open>The generated accessors as a parameter\<close>

text \<open>
  Messages and groups go by their schema names.

  Decoding: \<open>sq_get_header\<close> reads template id, schema id, block length and version; \<open>sq_field g nm b\<close> a
  field of the block at the front of \<open>b\<close>; \<open>sq_skip m b\<close> is what follows the block of the message
  \<open>m\<close>; \<open>sq_wrap g b\<close> the group's count and what follows its dimensions; \<open>sq_next g i n b\<close> what follows the
  block of the \<open>i\<close>-th of \<open>n\<close> entries, or NULL; \<open>sq_length\<close> and \<open>sq_get\<close> the length accessor and
  the data accessor of a text, the latter with the new position, which is the old one when it returns NULL;
  \<open>sq_tag\<close> the next and tag accessors of a group of texts: the length and what follows it.

  Encoding, into a buffer of \<open>cap\<close> bytes: \<open>sq_block g kvs\<close> is the block after the setter calls \<open>kvs\<close>;
  \<open>sq_dim\<close> the dimensions; \<open>sq_data\<close> a text with its length. \<open>sq_room\<close>, \<open>sq_tag_room\<close>: the
  next accessor, and the next and tag accessors, do not return NULL. \<open>sq_put_dim\<close> and \<open>sq_put_data\<close> have no
  result when the code sees them fail.
\<close>

record stream_codec =
  sq_header_length :: nat
  sq_template_id :: "string \<Rightarrow> u16"
  sq_schema_id :: u16
  sq_schema_version :: u16
  sq_block_length :: "string \<Rightarrow> u16"
  sq_get_header :: "bytes \<Rightarrow> u16 \<times> u16 \<times> u16 \<times> u16"
  sq_field :: "string \<Rightarrow> string \<Rightarrow> bytes \<Rightarrow> u64"
  sq_enum :: "string \<Rightarrow> u64 \<Rightarrow> bool"
  sq_null :: "string \<Rightarrow> u64"
  sq_skip :: "string \<Rightarrow> bytes \<Rightarrow> bytes"
  sq_wrap :: "string \<Rightarrow> bytes \<Rightarrow> u16 \<times> bytes"
  sq_next :: "string \<Rightarrow> nat \<Rightarrow> nat \<Rightarrow> bytes \<Rightarrow> bytes option"
  sq_length :: "bytes \<Rightarrow> u32"
  sq_get :: "bytes \<Rightarrow> string option \<times> bytes"
  sq_tag :: "string \<Rightarrow> nat \<Rightarrow> nat \<Rightarrow> bytes \<Rightarrow> (u32 \<times> bytes) option"
  sq_put_header :: "string \<Rightarrow> bytes"
  sq_block :: "string \<Rightarrow> (string \<times> u64) list \<Rightarrow> bytes"
  sq_dim :: "string \<Rightarrow> u16 \<Rightarrow> bytes"
  sq_data :: "string \<Rightarrow> bytes"
  sq_put_dim :: "string \<Rightarrow> nat \<Rightarrow> u16 \<Rightarrow> bytes \<Rightarrow> bytes option"
  sq_room :: "string \<Rightarrow> nat \<Rightarrow> nat \<Rightarrow> nat \<Rightarrow> bytes \<Rightarrow> bool"
  sq_tag_room :: "string \<Rightarrow> nat \<Rightarrow> nat \<Rightarrow> nat \<Rightarrow> bytes \<Rightarrow> bool"
  sq_put_data :: "nat \<Rightarrow> string \<Rightarrow> bytes \<Rightarrow> bytes option"

text \<open>The checks at the head of a decoder: 0 to go on, 1 for another message, -1 for one that is refused.\<close>

definition stream_head :: "stream_codec \<Rightarrow> string \<Rightarrow> bytes \<Rightarrow> int" where
  "stream_head S m b =
     (if length b < sq_header_length S then - 1
      else
        (case sq_get_header S b of
           (template_id, schema_id, block_length, version) \<Rightarrow>
             if schema_id \<noteq> sq_schema_id S \<or> template_id \<noteq> sq_template_id S m then 1
             else if version > sq_schema_version S then - 1
             else if block_length \<noteq> sq_block_length S m then - 1
             else 0))"

section \<open>What the sources rely on\<close>

text \<open>\<open>fits g kvs\<close>: the setter calls of a block, every field once and within its width.\<close>

locale stream_laws =
  fixes S :: stream_codec and fits :: "string \<Rightarrow> (string \<times> u64) list \<Rightarrow> bool"
  assumes length_header: "length (sq_put_header S m) = sq_header_length S"
    and get_header: "sq_get_header S (sq_put_header S m @ r) =
        (sq_template_id S m, sq_schema_id S, sq_block_length S m, sq_schema_version S)"
    and field_block: "fits g kvs \<Longrightarrow> (nm, v) \<in> set kvs \<Longrightarrow> sq_field S g nm (sq_block S g kvs @ r) = v"
    and skip_block: "fits g kvs \<Longrightarrow> sq_skip S g (sq_block S g kvs @ r) = r"
    and length_block: "fits g kvs \<Longrightarrow> length (sq_block S g kvs) = unat (sq_block_length S g)"
    and wrap_dim: "sq_wrap S g (sq_dim S g c @ r) = (c, r)"
    and next_block: "fits g kvs \<Longrightarrow> i < n \<Longrightarrow> sq_next S g i n (sq_block S g kvs @ r) = Some r"
    and length_data: "length d < 2 ^ 32 \<Longrightarrow> sq_length S (sq_data S d @ r) = of_nat (length d)"
    and get_data: "length d < 2 ^ 32 \<Longrightarrow> sq_get S (sq_data S d @ r) = (Some d, r)"
    and tag_data: "length d < 2 ^ 32 \<Longrightarrow> i < n \<Longrightarrow> sq_tag S g i n (sq_data S d @ r) = Some (of_nat (length d), text_bytes d @ r)"
    and put_dim: "length w + length (sq_dim S g c) \<le> cap \<Longrightarrow> sq_put_dim S g cap c w = Some (w @ sq_dim S g c)"
    and room: "i < n \<Longrightarrow> length w + unat (sq_block_length S g) \<le> cap \<Longrightarrow> sq_room S g cap n i w"
    and tag_room: "i < n \<Longrightarrow> length w + length (sq_data S []) \<le> cap \<Longrightarrow> sq_tag_room S g cap n i w"
    and empty_data: "length (sq_data S []) \<le> length (sq_data S d)"
    and put_data: "length w + length (sq_data S d) \<le> cap \<Longrightarrow> sq_put_data S cap d w = Some (w @ sq_data S d)"
begin

lemma head_written: "stream_head S m (sq_put_header S m @ r) = 0"
  by (simp add: stream_head_def length_header get_header)

end

section \<open>The little-endian layout of the schemas\<close>

text \<open>
  A schema: its id and version, the template ids of its messages, the fields of the blocks with their
  widths in bytes, the valid values of the enumerations and the null values. A message header has eight bytes, the
  dimensions of a group are the length of its block and the count, two bytes each, and a text has a length of four
  bytes. The element of a group of texts is a text.
\<close>

record stream_schema =
  sy_schema_id :: u16
  sy_version :: u16
  sy_templates :: "(string \<times> u16) list"
  sy_blocks :: "(string \<times> (string \<times> nat) list) list"
  sy_enums :: "(string \<times> u64 list) list"
  sy_nulls :: "(string \<times> u64) list"

definition lookup_or :: "'v \<Rightarrow> (string \<times> 'v) list \<Rightarrow> string \<Rightarrow> 'v" where
  "lookup_or d kvs k = (case map_of kvs k of None \<Rightarrow> d | Some v \<Rightarrow> v)"

definition fields_of :: "stream_schema \<Rightarrow> string \<Rightarrow> (string \<times> nat) list" where
  "fields_of Y g = lookup_or [] (sy_blocks Y) g"

definition block_bytes :: "(string \<times> nat) list \<Rightarrow> (string \<times> u64) list \<Rightarrow> bytes" where
  "block_bytes fs kvs = concat (map (\<lambda>(nm, n). le_bytes n (lookup_or 0 kvs nm)) fs)"

fun field_at :: "(string \<times> nat) list \<Rightarrow> string \<Rightarrow> bytes \<Rightarrow> u64" where
  "field_at [] nm b = 0"
| "field_at ((nm', n) # fs) nm b = (if nm = nm' then le_val (take n b) else field_at fs nm (drop n b))"

definition block_width :: "(string \<times> nat) list \<Rightarrow> nat" where
  "block_width fs = sum_list (map snd fs)"

definition le_u32 :: "bytes \<Rightarrow> u32" where
  "le_u32 b = ucast (le_val (take 4 b))"

definition le_stream :: "stream_schema \<Rightarrow> stream_codec" where
  "le_stream Y =
     \<lparr>sq_header_length = 8, sq_template_id = lookup_or 0 (sy_templates Y), sq_schema_id = sy_schema_id Y, sq_schema_version = sy_version Y,
      sq_block_length = (\<lambda>g. of_nat (block_width (fields_of Y g))),
      sq_get_header = (\<lambda>b. (ucast (le_val (take 2 (drop 2 b))), ucast (le_val (take 2 (drop 4 b))), ucast (le_val (take 2 b)),
        ucast (le_val (take 2 (drop 6 b))))),
      sq_field = (\<lambda>g. field_at (fields_of Y g)), sq_enum = (\<lambda>nm v. v \<in> set (lookup_or [] (sy_enums Y) nm)),
      sq_null = lookup_or 0 (sy_nulls Y),
      sq_skip = (\<lambda>g. drop (block_width (fields_of Y g))),
      sq_wrap = (\<lambda>g b. (ucast (le_val (take 2 (drop 2 b))), drop 4 b)),
      sq_next = (\<lambda>g i n b. if i < n \<and> block_width (fields_of Y g) \<le> length b then Some (drop (block_width (fields_of Y g)) b) else None),
      sq_length = le_u32,
      sq_get = (\<lambda>b. if 4 + unat (le_u32 b) \<le> length b then (Some (bytes_text (take (unat (le_u32 b)) (drop 4 b))), drop (4 + unat (le_u32 b)) b)
        else (None, b)),
      sq_tag = (\<lambda>g i n b. if i < n \<and> 4 \<le> length b then Some (le_u32 b, drop 4 b) else None),
      sq_put_header = (\<lambda>m. le_bytes 2 (of_nat (block_width (fields_of Y m))) @ le_bytes 2 (ucast (lookup_or 0 (sy_templates Y) m)) @
        le_bytes 2 (ucast (sy_schema_id Y)) @ le_bytes 2 (ucast (sy_version Y))),
      sq_block = (\<lambda>g. block_bytes (fields_of Y g)),
      sq_dim = (\<lambda>g n. le_bytes 2 (of_nat (block_width (fields_of Y g))) @ le_bytes 2 (ucast n)),
      sq_data = (\<lambda>d. le_bytes 4 (of_nat (length d)) @ text_bytes d),
      sq_put_dim = (\<lambda>g cap n w. if length w + 4 \<le> cap
        then Some (w @ le_bytes 2 (of_nat (block_width (fields_of Y g))) @ le_bytes 2 (ucast n)) else None),
      sq_room = (\<lambda>g cap n i w. i < n \<and> length w + block_width (fields_of Y g) \<le> cap),
      sq_tag_room = (\<lambda>g cap n i w. i < n \<and> length w + 4 \<le> cap),
      sq_put_data = (\<lambda>cap d w. if length w + 4 + length d \<le> cap then Some (w @ le_bytes 4 (of_nat (length d)) @ text_bytes d) else None)\<rparr>"

definition le_fits :: "stream_schema \<Rightarrow> string \<Rightarrow> (string \<times> u64) list \<Rightarrow> bool" where
  "le_fits Y g kvs \<longleftrightarrow> distinct (map fst kvs) \<and> distinct (map fst (fields_of Y g)) \<and>
     (\<forall>(nm, v)\<in>set kvs. \<exists>n. (nm, n) \<in> set (fields_of Y g) \<and> unat v < 2 ^ (8 * n))"

definition schema_ok :: "stream_schema \<Rightarrow> bool" where
  "schema_ok Y \<longleftrightarrow> (\<forall>(g, fs)\<in>set (sy_blocks Y). block_width fs < 2 ^ 16)"

lemma fields_of_bound: "schema_ok Y \<Longrightarrow> block_width (fields_of Y g) < 2 ^ 16"
  by (auto simp: fields_of_def lookup_or_def schema_ok_def block_width_def split: option.split dest!: map_of_SomeD)

lemma length_block_bytes: "length (block_bytes fs kvs) = block_width fs"
  by (induction fs) (auto simp: block_bytes_def block_width_def)

lemma block_bytes_Cons: "block_bytes ((nm, n) # fs) kvs = le_bytes n (lookup_or 0 kvs nm) @ block_bytes fs kvs"
  by (simp add: block_bytes_def)

lemma field_at_block:
  assumes "distinct (map fst fs)" "(nm, n) \<in> set fs" "unat v < 2 ^ (8 * n)" "lookup_or 0 kvs nm = v"
  shows "field_at fs nm (block_bytes fs kvs @ r) = v"
  using assms(1,2)
proof (induction fs)
  case (Cons f fs)
  obtain m k where f: "f = (m, k)" by force
  show ?case
  proof (cases "m = nm")
    case True
    then have "k = n" using Cons.prems f by (auto simp: rev_image_eqI)
    then show ?thesis using True f assms(3,4) by (simp add: block_bytes_Cons le_val_le_bytes take_bit_of_lt)
  next
    case False
    then show ?thesis using Cons f by (auto simp: block_bytes_Cons)
  qed
qed simp

lemma le_val_bytes_u16: "le_val (le_bytes 2 (ucast (v :: u16))) = ucast v"
proof -
  have "unat v < 2 ^ 16" using unsigned_less [of v, where ?'a = nat] by simp
  then show ?thesis by (simp add: le_val_le_bytes take_bit_of_lt)
qed

lemma ucast_of_nat_u64: "n < 2 ^ 64 \<Longrightarrow> (ucast (of_nat n :: u64) :: 'a :: len word) = of_nat n"
  by (simp add: unsigned_of_nat take_bit_nat_eq_self)

lemma le_val_bytes_nat: "n < 2 ^ 16 \<Longrightarrow> le_val (le_bytes 2 (of_nat n)) = of_nat n"
  by (simp add: le_val_le_bytes take_bit_of_lt unat_of_nat)

lemma le_u32_bytes: "n < 2 ^ 32 \<Longrightarrow> le_u32 (le_bytes 4 (of_nat n) @ r) = of_nat n"
  by (simp add: le_u32_def le_val_le_bytes take_bit_of_lt unat_of_nat ucast_of_nat_u64)

lemma stream_laws_le:
  assumes "schema_ok Y"
  shows "stream_laws (le_stream Y) (le_fits Y)"
proof
  note bound = fields_of_bound [OF assms]
  have lookup: "lookup_or 0 kvs nm = v" if "le_fits Y g kvs" "(nm, v) \<in> set kvs" for g kvs nm v
    using that by (simp add: lookup_or_def le_fits_def)
  fix m g :: string and kvs :: "(string \<times> u64) list" and nm d :: string and v :: u64 and r w :: bytes and i n cap :: nat and c :: u16
  show "length (sq_put_header (le_stream Y) m) = sq_header_length (le_stream Y)" by (simp add: le_stream_def)
  show "sq_get_header (le_stream Y) (sq_put_header (le_stream Y) m @ r) =
      (sq_template_id (le_stream Y) m, sq_schema_id (le_stream Y), sq_block_length (le_stream Y) m, sq_schema_version (le_stream Y))"
    using bound [of m] by (simp add: le_stream_def le_val_bytes_u16 le_val_bytes_nat ucast_of_nat_u64)
  show "sq_field (le_stream Y) g nm (sq_block (le_stream Y) g kvs @ r) = v" if f: "le_fits Y g kvs" "(nm, v) \<in> set kvs"
  proof -
    obtain k where "(nm, k) \<in> set (fields_of Y g)" "unat v < 2 ^ (8 * k)" "distinct (map fst (fields_of Y g))"
      using f by (auto simp: le_fits_def)
    then show ?thesis using field_at_block lookup [OF f] by (simp add: le_stream_def)
  qed
  show "sq_skip (le_stream Y) g (sq_block (le_stream Y) g kvs @ r) = r" by (simp add: le_stream_def length_block_bytes)
  show "length (sq_block (le_stream Y) g kvs) = unat (sq_block_length (le_stream Y) g)"
    using bound [of g] by (simp add: le_stream_def length_block_bytes unat_of_nat)
  show "sq_wrap (le_stream Y) g (sq_dim (le_stream Y) g c @ r) = (c, r)"
    by (simp add: le_stream_def le_val_bytes_u16)
  show "sq_next (le_stream Y) g i n (sq_block (le_stream Y) g kvs @ r) = Some r" if "i < n"
    using that by (simp add: le_stream_def length_block_bytes)
  show "sq_length (le_stream Y) (sq_data (le_stream Y) d @ r) = of_nat (length d)" if "length d < 2 ^ 32"
    using that le_u32_bytes [of "length d"] by (simp add: le_stream_def)
  show "sq_get (le_stream Y) (sq_data (le_stream Y) d @ r) = (Some d, r)" if "length d < 2 ^ 32"
    using that le_u32_bytes [of "length d"] by (simp add: le_stream_def unat_of_nat)
  show "sq_tag (le_stream Y) g i n (sq_data (le_stream Y) d @ r) = Some (of_nat (length d), text_bytes d @ r)" if "length d < 2 ^ 32" "i < n"
    using that le_u32_bytes [of "length d"] by (simp add: le_stream_def)
  show "sq_put_dim (le_stream Y) g cap c w = Some (w @ sq_dim (le_stream Y) g c)" if "length w + length (sq_dim (le_stream Y) g c) \<le> cap"
    using that by (simp add: le_stream_def)
  show "sq_room (le_stream Y) g cap n i w" if "i < n" "length w + unat (sq_block_length (le_stream Y) g) \<le> cap"
    using that bound [of g] by (simp add: le_stream_def unat_of_nat)
  show "sq_tag_room (le_stream Y) g cap n i w" if "i < n" "length w + length (sq_data (le_stream Y) []) \<le> cap"
    using that by (simp add: le_stream_def)
  show "length (sq_data (le_stream Y) []) \<le> length (sq_data (le_stream Y) d)" by (simp add: le_stream_def)
  show "sq_put_data (le_stream Y) cap d w = Some (w @ sq_data (le_stream Y) d)" if "length w + length (sq_data (le_stream Y) d) \<le> cap"
    using that by (simp add: le_stream_def)
qed

section \<open>Lengths and counts as numbers\<close>

lemma unat_u8_le: "unat (x :: u8) \<le> 255"
  using unat_bounds(1) [of x] by linarith

lemma le_val_Cons_unat:
  assumes "unat v < 2 ^ 56"
  shows "unat (ucast (x :: u8) OR push_bit 8 v :: u64) = unat x + 256 * unat v"
proof -
  have low: "bit (ucast x :: u64) n \<Longrightarrow> n < 8" for n using bit_imp_le_length [of x n] by (simp add: bit_ucast_iff)
  then have "ucast x OR push_bit 8 v = ucast x + push_bit 8 v"
    by (intro disjunctive_add [symmetric]) (auto simp: bit_push_bit_iff dest!: low)
  moreover have "push_bit 8 v = 256 * v" by (simp add: push_bit_eq_mult)
  moreover have small: "256 * unat v < 2 ^ 64" "unat x + 256 * unat v < 2 ^ 64" using assms unat_u8_le [of x] by simp_all
  moreover have "unat (256 * v) = 256 * unat v"
    using small(1) unat_mult_lem [of "256 :: u64" v] by simp
  ultimately show ?thesis using unat_add_lem [of "ucast x :: u64" "256 * v"] by simp
qed

lemma le_val_bound: "length b \<le> 7 \<Longrightarrow> unat (le_val b) < 2 ^ (8 * length b)"
proof (induction b)
  case (Cons x b)
  have "unat (le_val b) < 2 ^ (8 * length b)" using Cons by simp
  moreover have "(2 :: nat) ^ (8 * length b) \<le> 2 ^ 48" using Cons.prems by (intro power_increasing) simp_all
  ultimately have "unat (le_val b) < 2 ^ 56" by simp
  then have "unat (le_val (x # b)) = unat x + 256 * unat (le_val b)" by (simp add: le_val_Cons_unat)
  moreover have "unat (le_val b) + 1 \<le> 2 ^ (8 * length b)" using \<open>unat (le_val b) < 2 ^ (8 * length b)\<close> by simp
  then have "256 * (unat (le_val b) + 1) \<le> 256 * 2 ^ (8 * length b)" by simp
  ultimately show ?case using unat_u8_le [of x] by (simp add: power_add)
qed simp

lemma unat_le_u32: "unat (le_u32 (x # y # z # w # r)) = unat x + 256 * unat y + 65536 * unat z + 16777216 * unat w"
proof -
  note b = unat_u8_le [of x] unat_u8_le [of y] unat_u8_le [of z] unat_u8_le [of w]
  have v: "unat (le_val (p # q)) = unat p + 256 * unat (le_val q)" if "length q \<le> 3" for p q
  proof -
    have "(2 :: nat) ^ (8 * length q) \<le> 2 ^ 24" using that by (intro power_increasing) simp_all
    then show ?thesis using le_val_bound [of q] that le_val_Cons_unat [of "le_val q" p] by simp
  qed
  have "unat (le_val [x, y, z, w]) = unat x + 256 * unat y + 65536 * unat z + 16777216 * unat w"
    using v [of "[y, z, w]" x] v [of "[z, w]" y] v [of "[w]" z] v [of "[]" w] by (simp del: le_val.simps(2))
  moreover have "le_u32 (x # y # z # w # r) = ucast (le_val [x, y, z, w])" by (simp add: le_u32_def)
  ultimately show ?thesis using b
    by (simp add: unsigned_ucast_eq take_bit_nat_eq_self)
qed

end
