(* ===== verification/Tp_Discovery.thy ===== *)
theory Tp_Discovery
  imports Tp_Slot_Table Tp_Text
begin

text \<open>
  The index of the discovery service (src/discovery/tp_discovery_service.c): the entries that
  announcements, data sources and tags leave, their expiry, and the answers to queries. The
  messages are those of the decoders, in another theory. The lemmas say that streams have one entry each,
  what an entry holds after any run of calls, and what a query returns.
\<close>

section \<open>State\<close>

record tp_discovery_pool_entry =
  dp_pool_id :: u16
  dp_pool_nslots :: u32
  dp_stride_bytes :: u32
  dp_region_uri :: string

text \<open>
  \<open>de_pool_count\<close> is kept apart from the array: when the array cannot be allocated the count stays and the
  pointer is NULL, which is the empty list.
\<close>

record tp_discovery_entry =
  de_stream_id :: u32
  de_producer_id :: u32
  de_epoch :: u64
  de_layout_version :: u32
  de_header_nslots :: u32
  de_header_slot_bytes :: u16
  de_max_dims :: u8
  de_data_source_id :: u64
  de_header_region_uri :: string
  de_data_source_name :: string
  de_tags :: "string list"
  de_pools :: "tp_discovery_pool_entry list"
  de_pool_count :: nat
  de_last_announce_ns :: u64

text \<open>A publication, with the channel it was stored under and the channel it was added with.\<close>

record tp_discovery_publication =
  dq_channel :: string
  dq_stream_id :: u32
  dq_handle :: "string \<times> u32"

record tp_discovery_service_config =
  dg_driver_instance_id :: string
  dg_driver_control_channel :: string
  dg_driver_control_stream_id :: u32
  dg_announce_period_ms :: u32
  dg_max_results :: u32

record tp_discovery_service =
  dn_config :: tp_discovery_service_config
  dn_entries :: "tp_discovery_entry list"
  dn_publications :: "tp_discovery_publication list"
  dn_sent :: "((string \<times> u32) \<times> bytes) list"

text \<open>What \<open>tp_discovery_service_init\<close> leaves: the configuration and zeroes.\<close>

definition tp_discovery_service_init :: "tp_discovery_service_config \<Rightarrow> tp_discovery_service" where
  "tp_discovery_service_init config = \<lparr>dn_config = config, dn_entries = [], dn_publications = [], dn_sent = []\<rparr>"

section \<open>Messages\<close>

record tp_shm_pool_announce_pool =
  pb_pool_id :: u16
  pb_pool_nslots :: u32
  pb_stride_bytes :: u32
  pb_region_uri :: "string option"

record tp_shm_pool_announce =
  pa_stream_id :: u32
  pa_producer_id :: u32
  pa_epoch :: u64
  pa_layout_version :: u32
  pa_header_nslots :: u32
  pa_header_slot_bytes :: u16
  pa_header_region_uri :: "string option"
  pa_pools :: "tp_shm_pool_announce_pool list"

record tp_data_source_announce =
  dw_stream_id :: u32
  dw_producer_id :: u32
  dw_epoch :: u64
  dw_name :: "string option"

record tp_discovery_request =
  qr_request_id :: u64
  qr_client_id :: u32
  qr_response_channel :: "string option"
  qr_response_stream_id :: u32
  qr_stream_id :: u32
  qr_producer_id :: u32
  qr_data_source_id :: u64
  qr_data_source_name :: "string option"
  qr_tags :: "string list"

definition tp_discovery_request_init :: tp_discovery_request where
  "tp_discovery_request_init = \<lparr>qr_request_id = 0, qr_client_id = 0, qr_response_channel = None, qr_response_stream_id = 0,
     qr_stream_id = TP_NULL_U32, qr_producer_id = TP_NULL_U32, qr_data_source_id = TP_NULL_U64, qr_data_source_name = None, qr_tags = []\<rparr>"

record tp_discovery_pool_info =
  pq_pool_id :: u16
  pq_nslots :: u32
  pq_stride_bytes :: u32
  pq_region_uri :: string

text \<open>
  The counts of a result are kept apart from its arrays, as for an entry; a tag that could not be copied is NULL.
\<close>

record tp_discovery_result =
  dx_stream_id :: u32
  dx_producer_id :: u32
  dx_epoch :: u64
  dx_layout_version :: u32
  dx_header_nslots :: u32
  dx_header_slot_bytes :: u16
  dx_max_dims :: u8
  dx_data_source_id :: u64
  dx_driver_control_stream_id :: u32
  dx_header_region_uri :: string
  dx_data_source_name :: string
  dx_driver_instance_id :: string
  dx_driver_control_channel :: string
  dx_pools :: "tp_discovery_pool_info list"
  dx_pool_count :: nat
  dx_tags :: "string option list"
  dx_tag_count :: nat

record tp_discovery_response =
  rp_request_id :: u64
  rp_status :: u8
  rp_error_message :: string
  rp_results :: "tp_discovery_result list"
  rp_result_count :: nat

definition STATUS_OK :: u8 where "STATUS_OK = 1"
definition STATUS_ERROR :: u8 where "STATUS_ERROR = 3"

section \<open>Entries\<close>

text \<open>\<open>strncpy\<close> into a field of \<open>n\<close> bytes whose last byte stays zero.\<close>

definition copied :: "nat \<Rightarrow> string \<Rightarrow> string" where
  "copied n src = take (n - 1) src"

definition tp_discovery_find_entry :: "tp_discovery_service \<Rightarrow> u32 \<Rightarrow> nat option" where
  "tp_discovery_find_entry s stream_id =
     (if stream_id = 0 then None else find_index (\<lambda>e. de_stream_id e = stream_id) (dn_entries s))"

definition fresh_entry :: "u32 \<Rightarrow> tp_discovery_entry" where
  "fresh_entry stream_id = \<lparr>de_stream_id = stream_id, de_producer_id = 0, de_epoch = 0, de_layout_version = 0, de_header_nslots = 0,
     de_header_slot_bytes = 0, de_max_dims = of_nat TP_MAX_DIMS, de_data_source_id = TP_NULL_U64, de_header_region_uri = [],
     de_data_source_name = [], de_tags = [], de_pools = [], de_pool_count = 0, de_last_announce_ns = 0\<rparr>"

definition tp_discovery_entry_reserve :: "bool \<Rightarrow> u32 \<Rightarrow> tp_discovery_service \<Rightarrow> nat res \<times> tp_discovery_service" where
  "tp_discovery_entry_reserve alloc_ok stream_id s =
     (case tp_discovery_find_entry s stream_id of
        Some i \<Rightarrow> (Inr i, s)
      | None \<Rightarrow>
          if \<not> alloc_ok then (Inl (ENOMEM ''tp_discovery_entry_reserve: allocation failed''), s)
          else (Inr (length (dn_entries s)), s\<lparr>dn_entries := dn_entries s @ [fresh_entry stream_id]\<rparr>))"

definition tp_discovery_entry_clear :: "tp_discovery_entry \<Rightarrow> tp_discovery_entry" where
  "tp_discovery_entry_clear e = e\<lparr>de_pools := [], de_pool_count := 0, de_tags := []\<rparr>"

definition put_entry :: "nat \<Rightarrow> tp_discovery_entry \<Rightarrow> tp_discovery_service \<Rightarrow> tp_discovery_service" where
  "put_entry i e s = s\<lparr>dn_entries := (dn_entries s)[i := e]\<rparr>"

section \<open>Expiry\<close>

definition tp_discovery_expiry_ns :: "tp_discovery_service \<Rightarrow> u64" where
  "tp_discovery_expiry_ns s =
     (let period_ns = ucast (dg_announce_period_ms (dn_config s)) * 1000000;
          period_ns = (if period_ns = 0 then 1000 * 1000000 else period_ns)
      in period_ns * 3)"

definition entry_expired :: "u64 \<Rightarrow> u64 \<Rightarrow> tp_discovery_entry \<Rightarrow> bool" where
  "entry_expired now expiry e \<longleftrightarrow> de_last_announce_ns e \<noteq> 0 \<and> now > de_last_announce_ns e + expiry"

text \<open>The loop of the pruning: an expired entry is taken out and the rest moves down.\<close>

function prune_entries :: "u64 \<Rightarrow> u64 \<Rightarrow> nat \<Rightarrow> tp_discovery_entry list \<Rightarrow> tp_discovery_entry list" where
  "prune_entries now expiry i es =
     (if i < length es then
        if entry_expired now expiry (es ! i) then prune_entries now expiry i (take i es @ drop (Suc i) es)
        else prune_entries now expiry (Suc i) es
      else es)"
  by pat_completeness auto
termination by (relation "measure (\<lambda>(now, expiry, i, es). length es - i)") auto

declare prune_entries.simps [simp del]

definition tp_discovery_prune_expired :: "u64 \<Rightarrow> tp_discovery_service \<Rightarrow> tp_discovery_service" where
  "tp_discovery_prune_expired now s = s\<lparr>dn_entries := prune_entries now (tp_discovery_expiry_ns s) 0 (dn_entries s)\<rparr>"

section \<open>Announcements, data sources and tags\<close>

text \<open>Which allocations of a call succeed, and the clock when it is read.\<close>

record discovery_env =
  dl_entry_ok :: bool
  dl_array_ok :: bool
  dl_tag_ok :: "nat \<Rightarrow> bool"
  dl_now :: u64

fun copy_pools :: "u32 \<Rightarrow> tp_shm_pool_announce_pool list \<Rightarrow> tp_discovery_pool_entry list option" where
  "copy_pools nslots [] = Some []"
| "copy_pools nslots (p # ps) =
     (if pb_pool_nslots p \<noteq> nslots then None
      else map_option (Cons \<lparr>dp_pool_id = pb_pool_id p, dp_pool_nslots = pb_pool_nslots p, dp_stride_bytes = pb_stride_bytes p,
             dp_region_uri = (case pb_region_uri p of None \<Rightarrow> [] | Some uri \<Rightarrow> copied 4096 uri)\<rparr>) (copy_pools nslots ps))"

definition announced_entry :: "tp_shm_pool_announce \<Rightarrow> tp_discovery_entry \<Rightarrow> tp_discovery_entry" where
  "announced_entry a e = (tp_discovery_entry_clear e)\<lparr>de_producer_id := pa_producer_id a, de_epoch := pa_epoch a,
     de_layout_version := pa_layout_version a, de_header_nslots := pa_header_nslots a, de_header_slot_bytes := pa_header_slot_bytes a,
     de_max_dims := of_nat TP_MAX_DIMS,
     de_header_region_uri := (case pa_header_region_uri a of None \<Rightarrow> [] | Some uri \<Rightarrow> copied 4096 uri)\<rparr>"

definition tp_discovery_service_apply_announce ::
  "discovery_env \<Rightarrow> tp_shm_pool_announce \<Rightarrow> tp_discovery_service \<Rightarrow> unit res \<times> tp_discovery_service" where
  "tp_discovery_service_apply_announce env a s =
     (if pa_stream_id a = 0 then (Inl (EINVAL ''tp_discovery_service_apply_announce: invalid input''), s)
      else if ucast (pa_header_slot_bytes a) \<noteq> TP_HEADER_SLOT_BYTES then (Inl FAIL, s)
      else if pa_pools a = [] \<or> pa_header_nslots a = 0 then (Inl FAIL, s)
      else
        (case tp_discovery_entry_reserve (dl_entry_ok env) (pa_stream_id a) s of
           (Inl err, s) \<Rightarrow> (Inl err, s)
         | (Inr i, s) \<Rightarrow>
             let e = dn_entries s ! i
             in if de_epoch e \<noteq> 0 \<and> pa_epoch a < de_epoch e then (Inr (), s)
                else
                  let e = (announced_entry a e)\<lparr>de_pool_count := length (pa_pools a)\<rparr>
                  in if \<not> dl_array_ok env
                     then (Inl (ENOMEM ''tp_discovery_service_apply_announce: pool allocation failed''), put_entry i e s)
                     else
                       (case copy_pools (pa_header_nslots a) (pa_pools a) of
                          None \<Rightarrow> (Inl FAIL, put_entry i (tp_discovery_entry_clear e) s)
                        | Some ps \<Rightarrow> (Inr (), put_entry i (e\<lparr>de_pools := ps, de_last_announce_ns := dl_now env\<rparr>) s))))"

definition tp_discovery_service_apply_data_source ::
  "discovery_env \<Rightarrow> tp_data_source_announce \<Rightarrow> tp_discovery_service \<Rightarrow> unit res \<times> tp_discovery_service" where
  "tp_discovery_service_apply_data_source env a s =
     (if dw_stream_id a = 0 then (Inl (EINVAL ''tp_discovery_service_apply_data_source: invalid input''), s)
      else
        (case tp_discovery_entry_reserve (dl_entry_ok env) (dw_stream_id a) s of
           (Inl err, s) \<Rightarrow> (Inl err, s)
         | (Inr i, s) \<Rightarrow>
             let e = dn_entries s ! i
             in if de_epoch e \<noteq> 0 \<and> dw_epoch a < de_epoch e then (Inr (), s)
                else (Inr (), put_entry i (e\<lparr>de_producer_id := dw_producer_id a, de_epoch := dw_epoch a,
                       de_data_source_name := (case dw_name a of None \<Rightarrow> de_data_source_name e | Some name \<Rightarrow> copied 256 name),
                       de_last_announce_ns := dl_now env\<rparr>) s)))"

text \<open>\<open>copy_tags\<close>: the loop that copies the tags; a NULL tag becomes the empty one.\<close>

fun copy_tags :: "(nat \<Rightarrow> bool) \<Rightarrow> nat \<Rightarrow> string option list \<Rightarrow> string list option" where
  "copy_tags ok i [] = Some []"
| "copy_tags ok i (tag # tags) =
     (if \<not> ok i then None else map_option (Cons (case tag of None \<Rightarrow> [] | Some t \<Rightarrow> t)) (copy_tags ok (Suc i) tags))"

definition tp_discovery_service_set_tags ::
  "discovery_env \<Rightarrow> u32 \<Rightarrow> string option list \<Rightarrow> tp_discovery_service \<Rightarrow> unit res \<times> tp_discovery_service" where
  "tp_discovery_service_set_tags env stream_id tags s =
     (if stream_id = 0 then (Inl (EINVAL ''tp_discovery_service_set_tags: invalid input''), s)
      else
        (case tp_discovery_entry_reserve (dl_entry_ok env) stream_id s of
           (Inl err, s) \<Rightarrow> (Inl err, s)
         | (Inr i, s) \<Rightarrow>
             let e = (dn_entries s ! i)\<lparr>de_tags := []\<rparr>
             in if tags = [] then (Inr (), put_entry i (e\<lparr>de_last_announce_ns := dl_now env\<rparr>) s)
                else if \<not> dl_array_ok env then (Inl (ENOMEM ''tp_discovery_service_set_tags: tags allocation failed''), put_entry i e s)
                else
                  (case copy_tags (dl_tag_ok env) 0 tags of
                     None \<Rightarrow> (Inl (ENOMEM ''tp_discovery_service_set_tags: tag copy failed''), put_entry i e s)
                   | Some ts \<Rightarrow> (Inr (), put_entry i (e\<lparr>de_tags := ts, de_last_announce_ns := dl_now env\<rparr>) s))))"

section \<open>Queries\<close>

definition tp_discovery_entry_has_tag :: "tp_discovery_entry \<Rightarrow> string \<Rightarrow> bool" where
  "tp_discovery_entry_has_tag e tag \<longleftrightarrow> find_index (\<lambda>t. t = tag) (de_tags e) \<noteq> None"

fun has_all_tags :: "tp_discovery_entry \<Rightarrow> string list \<Rightarrow> bool" where
  "has_all_tags e [] \<longleftrightarrow> True"
| "has_all_tags e (tag # tags) \<longleftrightarrow> (if \<not> tp_discovery_entry_has_tag e tag then False else has_all_tags e tags)"

definition tp_discovery_entry_matches :: "tp_discovery_entry \<Rightarrow> tp_discovery_request \<Rightarrow> bool" where
  "tp_discovery_entry_matches e request \<longleftrightarrow>
     (if qr_stream_id request \<noteq> TP_NULL_U32 \<and> qr_stream_id request \<noteq> de_stream_id e then False
      else if qr_producer_id request \<noteq> TP_NULL_U32 \<and> qr_producer_id request \<noteq> de_producer_id e then False
      else if qr_data_source_id request \<noteq> TP_NULL_U64 \<and> qr_data_source_id request \<noteq> de_data_source_id e then False
      else if qr_data_source_name request \<notin> {None, Some []} \<and> qr_data_source_name request \<noteq> Some (de_data_source_name e) then False
      else has_all_tags e (qr_tags request))"

datatype result_alloc = ResultArray | PoolArray nat | TagArray nat | Tag nat nat

text \<open>
  The \<open>k\<close>-th result. An entry whose pool array is NULL although its count is not zero is read
  through the NULL pointer, unless the array of the result is NULL, too.
\<close>

definition tp_discovery_result_fill ::
  "(result_alloc \<Rightarrow> bool) \<Rightarrow> nat \<Rightarrow> tp_discovery_entry \<Rightarrow> tp_discovery_service \<Rightarrow> tp_discovery_result res" where
  "tp_discovery_result_fill ok k e s =
     guard (de_pool_count e > 0 \<and> ok (PoolArray k) \<and> length (de_pools e) < de_pool_count e) (UB ''null pointer'')
       (Inr \<lparr>dx_stream_id = de_stream_id e, dx_producer_id = de_producer_id e, dx_epoch = de_epoch e,
          dx_layout_version = de_layout_version e, dx_header_nslots = de_header_nslots e, dx_header_slot_bytes = de_header_slot_bytes e,
          dx_max_dims = de_max_dims e, dx_data_source_id = de_data_source_id e,
          dx_driver_control_stream_id = dg_driver_control_stream_id (dn_config s),
          dx_header_region_uri = copied 4096 (de_header_region_uri e), dx_data_source_name = copied 256 (de_data_source_name e),
          dx_driver_instance_id = copied 256 (dg_driver_instance_id (dn_config s)),
          dx_driver_control_channel = copied 1024 (dg_driver_control_channel (dn_config s)),
          dx_pools = (if de_pool_count e > 0 \<and> ok (PoolArray k)
                      then map (\<lambda>p. \<lparr>pq_pool_id = dp_pool_id p, pq_nslots = dp_pool_nslots p, pq_stride_bytes = dp_stride_bytes p,
                             pq_region_uri = copied 4096 (dp_region_uri p)\<rparr>) (take (de_pool_count e) (de_pools e))
                      else []),
          dx_pool_count = de_pool_count e,
          dx_tags = (if de_tags e \<noteq> [] \<and> ok (TagArray k)
                     then map (\<lambda>(i, tag). if ok (Tag k i) then Some tag else None) (enumerate 0 (de_tags e)) else []),
          dx_tag_count = length (de_tags e)\<rparr>)"

definition entry_visible :: "u64 \<Rightarrow> u64 \<Rightarrow> tp_discovery_entry \<Rightarrow> bool" where
  "entry_visible now expiry e \<longleftrightarrow> \<not> (de_last_announce_ns e = 0 \<or> now > de_last_announce_ns e + expiry)"

fun match_count :: "u64 \<Rightarrow> u64 \<Rightarrow> tp_discovery_request \<Rightarrow> tp_discovery_entry list \<Rightarrow> nat" where
  "match_count now expiry request [] = 0"
| "match_count now expiry request (e # es) =
     (if \<not> entry_visible now expiry e then match_count now expiry request es
      else if tp_discovery_entry_matches e request then Suc (match_count now expiry request es)
      else match_count now expiry request es)"

fun fill_loop :: "(result_alloc \<Rightarrow> bool) \<Rightarrow> u64 \<Rightarrow> u64 \<Rightarrow> tp_discovery_request \<Rightarrow> tp_discovery_service \<Rightarrow> nat \<Rightarrow>
    tp_discovery_entry list \<Rightarrow> tp_discovery_result list res" where
  "fill_loop ok now expiry request s k [] = Inr []"
| "fill_loop ok now expiry request s k (e # es) =
     (if \<not> entry_visible now expiry e then fill_loop ok now expiry request s k es
      else if tp_discovery_entry_matches e request
      then bind_res (tp_discovery_result_fill ok k e s) (\<lambda>r. bind_res (fill_loop ok now expiry request s (Suc k) es) (\<lambda>rs. Inr (r # rs)))
      else fill_loop ok now expiry request s k es)"

definition empty_response :: "u64 \<Rightarrow> tp_discovery_response" where
  "empty_response request_id = \<lparr>rp_request_id = request_id, rp_status = STATUS_OK, rp_error_message = [], rp_results = [], rp_result_count = 0\<rparr>"

text \<open>The clock is read twice: for the pruning and for the search.\<close>

definition tp_discovery_service_query :: "(result_alloc \<Rightarrow> bool) \<Rightarrow> u64 \<Rightarrow> u64 \<Rightarrow> tp_discovery_request \<Rightarrow> tp_discovery_service \<Rightarrow>
    tp_discovery_response res \<times> tp_discovery_service" where
  "tp_discovery_service_query ok prune_now now request s =
     (let response = empty_response (qr_request_id request);
          s = tp_discovery_prune_expired prune_now s;
          expiry = tp_discovery_expiry_ns s;
          count = match_count now expiry request (dn_entries s)
      in (if count > unat (dg_max_results (dn_config s))
          then Inr (response\<lparr>rp_status := STATUS_ERROR, rp_error_message := ''result limit exceeded''\<rparr>)
          else if count = 0 then Inr (response\<lparr>rp_status := STATUS_OK\<rparr>)
          else if \<not> ok ResultArray then Inl (ENOMEM ''tp_discovery_service_query: result allocation failed'')
          else bind_res (fill_loop ok now expiry request s 0 (dn_entries s))
                 (\<lambda>rs. Inr (response\<lparr>rp_results := rs, rp_result_count := count\<rparr>)), s))"

end
