(* ===== verification/Tp_Discovery_Index.thy ===== *)
theory Tp_Discovery_Index
  imports Tp_Discovery
begin

text \<open>
  What the discovery index is: a finite map from stream ids to what is known of the stream. The operations
  of the code on its array are related to that map, any run of them keeps one complete entry per
  stream, and a query returns the visible entries that match, each once.
\<close>

section \<open>The array as a map\<close>

abbreviation stream_ids :: "tp_discovery_entry list \<Rightarrow> u32 list" where
  "stream_ids es \<equiv> map de_stream_id es"

definition index :: "tp_discovery_entry list \<Rightarrow> u32 \<Rightarrow> tp_discovery_entry option" where
  "index es = map_of (map (\<lambda>e. (de_stream_id e, e)) es)"

lemma index_Nil [simp]: "index [] = Map.empty"
  by (simp add: index_def)

lemma index_Cons [simp]: "index (e # es) = (index es)(de_stream_id e \<mapsto> e)"
  by (simp add: index_def)

lemma index_None: "index es k = None \<longleftrightarrow> k \<notin> set (stream_ids es)"
  by (induction es) auto

lemma index_Some: "distinct (stream_ids es) \<Longrightarrow> index es k = Some e \<longleftrightarrow> e \<in> set es \<and> de_stream_id e = k"
proof (induction es)
  case (Cons x es)
  then show ?case by (auto simp: image_iff)
qed simp

lemma index_update:
  "distinct (stream_ids es) \<Longrightarrow> i < length es \<Longrightarrow> de_stream_id e = de_stream_id (es ! i) \<Longrightarrow>
   index (es[i := e]) = (index es)(de_stream_id e \<mapsto> e)"
proof (induction es arbitrary: i)
  case (Cons x es)
  show ?case
  proof (cases i)
    case (Suc j)
    then have "de_stream_id x \<noteq> de_stream_id e" using Cons.prems by auto
    then show ?thesis using Suc Cons by (auto simp: fun_eq_iff)
  qed (use Cons.prems in \<open>auto simp: fun_eq_iff\<close>)
qed simp

lemma index_append: "de_stream_id e \<notin> set (stream_ids es) \<Longrightarrow> index (es @ [e]) = (index es)(de_stream_id e \<mapsto> e)"
proof (induction es)
  case (Cons x es)
  then show ?case by (auto simp: fun_eq_iff)
qed simp

lemma index_filter:
  "distinct (stream_ids es) \<Longrightarrow>
   index (filter p es) = (\<lambda>k. case index es k of None \<Rightarrow> None | Some e \<Rightarrow> if p e then Some e else None)"
proof (induction es)
  case (Cons x es)
  then have "index es (de_stream_id x) = None" by (simp add: index_None)
  then show ?case using Cons by (auto simp: fun_eq_iff)
qed (simp add: fun_eq_iff)

lemma find_entry_index:
  assumes "distinct (stream_ids (dn_entries s))" "k \<noteq> 0"
  shows "map_option (\<lambda>i. dn_entries s ! i) (tp_discovery_find_entry s k) = index (dn_entries s) k"
proof (cases "tp_discovery_find_entry s k")
  case None
  then have "index (dn_entries s) k = None" using assms(2) by (auto simp: tp_discovery_find_entry_def index_None)
  then show ?thesis using None by simp
next
  case (Some i)
  then have i: "i < length (dn_entries s)" "de_stream_id (dn_entries s ! i) = k"
    using assms(2) find_index_Some [of _ "dn_entries s" i] by (auto simp: tp_discovery_find_entry_def)
  then have "index (dn_entries s) k = Some (dn_entries s ! i)" using index_Some [OF assms(1)] by auto
  then show ?thesis using Some by simp
qed

section \<open>Entries stay complete\<close>

text \<open>
  The pools of an entry have the slot count of its header; their array is whole, or missing after a failed
  allocation.
\<close>

definition stream_entry_ok :: "tp_discovery_entry \<Rightarrow> bool" where
  "stream_entry_ok e \<longleftrightarrow> de_stream_id e \<noteq> 0 \<and> (de_pools e = [] \<or> length (de_pools e) = de_pool_count e) \<and>
     (\<forall>p\<in>set (de_pools e). dp_pool_nslots p = de_header_nslots e)"

definition index_ok :: "tp_discovery_service \<Rightarrow> bool" where
  "index_ok s \<longleftrightarrow> distinct (stream_ids (dn_entries s)) \<and> (\<forall>e\<in>set (dn_entries s). stream_entry_ok e)"

lemma index_okD:
  assumes "index_ok s"
  shows "distinct (stream_ids (dn_entries s))" and "e \<in> set (dn_entries s) \<Longrightarrow> stream_entry_ok e"
  using assms by (simp_all add: index_ok_def)

lemma fresh_entry_ok: "k \<noteq> 0 \<Longrightarrow> stream_entry_ok (fresh_entry k)"
  by (simp add: stream_entry_ok_def fresh_entry_def)

lemma fresh_entry_id [simp]: "de_stream_id (fresh_entry k) = k"
  by (simp add: fresh_entry_def)

text \<open>What reserving an entry leaves, and what a write to the reserved entry then is to the map.\<close>

definition known_entry :: "tp_discovery_service \<Rightarrow> u32 \<Rightarrow> tp_discovery_entry" where
  "known_entry s k = (case index (dn_entries s) k of Some e \<Rightarrow> e | None \<Rightarrow> fresh_entry k)"

lemma known_entry_ok: "index_ok s \<Longrightarrow> k \<noteq> 0 \<Longrightarrow> stream_entry_ok (known_entry s k) \<and> de_stream_id (known_entry s k) = k"
  using index_Some [of "dn_entries s" k] index_okD(2) [of s] index_okD(1) [of s]
  by (auto simp: known_entry_def fresh_entry_ok split: option.splits)

lemma distinct_ids_update:
  assumes "distinct (stream_ids es)" "i < length es" "de_stream_id e = de_stream_id (es ! i)"
  shows "distinct (stream_ids (es[i := e]))"
proof -
  have "stream_ids (es[i := e]) = stream_ids es" using assms(2,3) by (metis list_update_id map_update nth_map)
  then show ?thesis using assms(1) by simp
qed

lemma reserved:
  assumes "index_ok s" "k \<noteq> 0" "tp_discovery_entry_reserve alloc k s = (Inr i, s')"
  shows "index_ok s'" "i < length (dn_entries s')" "dn_entries s' ! i = known_entry s k"
    "index (dn_entries s') = (index (dn_entries s))(k \<mapsto> known_entry s k)"
    "dn_config s' = dn_config s"
    "stream_entry_ok e \<Longrightarrow> de_stream_id e = k \<Longrightarrow> index_ok (put_entry i e s')"
    "de_stream_id e = k \<Longrightarrow> index (dn_entries (put_entry i e s')) = (index (dn_entries s))(k \<mapsto> e)"
proof -
  note d = index_okD(1) [OF assms(1)]
  note found = find_entry_index [OF d assms(2)]
  have main: "index_ok s' \<and> i < length (dn_entries s') \<and> dn_entries s' ! i = known_entry s k \<and>
      index (dn_entries s') = (index (dn_entries s))(k \<mapsto> known_entry s k) \<and> dn_config s' = dn_config s"
  proof (cases "tp_discovery_find_entry s k")
    case None
    then have new: "index (dn_entries s) k = None" using found by simp
    then have k: "k \<notin> set (stream_ids (dn_entries s))" using index_None by blast
    have s': "s' = s\<lparr>dn_entries := dn_entries s @ [fresh_entry k]\<rparr>" "i = length (dn_entries s)"
      using assms(3) None by (auto simp: tp_discovery_entry_reserve_def split: if_splits)
    show ?thesis
      using assms(1,2) new k index_append [of "fresh_entry k" "dn_entries s"]
      by (simp add: s' index_ok_def fresh_entry_ok known_entry_def)
  next
    case (Some j)
    then have s': "s' = s" "j = i" using assms(3) by (auto simp: tp_discovery_entry_reserve_def)
    have known: "index (dn_entries s) k = Some (dn_entries s ! i)" using found Some s' by simp
    have "i < length (dn_entries s)" using Some s' assms(2) by (auto simp: tp_discovery_find_entry_def)
    then show ?thesis using assms(1) known by (simp add: s' known_entry_def fun_upd_idem)
  qed
  then show "index_ok s'" "i < length (dn_entries s')" "dn_entries s' ! i = known_entry s k"
    "index (dn_entries s') = (index (dn_entries s))(k \<mapsto> known_entry s k)" "dn_config s' = dn_config s" by simp_all
  note m = main [THEN conjunct1] main [THEN conjunct2, THEN conjunct1]
  have id: "de_stream_id (dn_entries s' ! i) = k" using main known_entry_ok [OF assms(1,2)] by simp
  show "index_ok (put_entry i e s')" if "stream_entry_ok e" "de_stream_id e = k"
    using m id that distinct_ids_update [of "dn_entries s'" i e] set_update_subset_insert [of "dn_entries s'" i e]
    by (auto simp: index_ok_def put_entry_def)
  show "index (dn_entries (put_entry i e s')) = (index (dn_entries s))(k \<mapsto> e)" if "de_stream_id e = k"
    using m id that main index_update [of "dn_entries s'" i e] by (simp add: put_entry_def index_ok_def)
qed

lemma reserve_fails: "tp_discovery_entry_reserve alloc k s = (Inl e, s') \<Longrightarrow> s' = s"
  by (auto simp: tp_discovery_entry_reserve_def split: option.splits if_splits)

section \<open>Expiry\<close>

lemma prune_entries_filter: "prune_entries now expiry i es = take i es @ filter (\<lambda>e. \<not> entry_expired now expiry e) (drop i es)"
proof (induction now expiry i es rule: prune_entries.induct)
  case (1 now expiry i es)
  show ?case
  proof (cases "i < length es")
    case True
    note split = Cons_nth_drop_Suc [OF True, symmetric] take_Suc_conv_app_nth [OF True]
    show ?thesis
    proof (cases "entry_expired now expiry (es ! i)")
      case expired: True
      have "drop i (take i es @ drop (Suc i) es) = drop (Suc i) es" "take i (take i es @ drop (Suc i) es) = take i es"
        using True by simp_all
      then show ?thesis using "1.IH"(1) [OF True expired] expired True split(1) by (simp add: prune_entries.simps [of now expiry i es])
    next
      case False
      then show ?thesis using "1.IH"(2) [OF True False] True split by (simp add: prune_entries.simps [of now expiry i es])
    qed
  qed (simp add: prune_entries.simps [of now expiry i es])
qed

lemma pruned:
  "dn_entries (tp_discovery_prune_expired now s) = filter (\<lambda>e. \<not> entry_expired now (tp_discovery_expiry_ns s) e) (dn_entries s)"
  "dn_config (tp_discovery_prune_expired now s) = dn_config s"
  "tp_discovery_expiry_ns (tp_discovery_prune_expired now s) = tp_discovery_expiry_ns s"
  by (simp_all add: tp_discovery_prune_expired_def prune_entries_filter tp_discovery_expiry_ns_def)

lemma pruned_ok: "index_ok s \<Longrightarrow> index_ok (tp_discovery_prune_expired now s)"
  by (auto simp: index_ok_def pruned distinct_map_filter)

section \<open>Announcements\<close>

lemma copy_pools_Some:
  "copy_pools n ps = Some qs \<Longrightarrow> length qs = length ps \<and> (\<forall>q\<in>set qs. dp_pool_nslots q = n) \<and> (\<forall>p\<in>set ps. pb_pool_nslots p = n)"
  by (induction ps arbitrary: qs) (auto split: if_splits)

lemma announced_entry_id [simp]: "de_stream_id (announced_entry a e) = de_stream_id e"
  by (simp add: announced_entry_def tp_discovery_entry_clear_def)

lemma cleared_entry_id [simp]: "de_stream_id (tp_discovery_entry_clear e) = de_stream_id e"
  by (simp add: tp_discovery_entry_clear_def)

lemma announce_ok:
  assumes "index_ok s" "tp_discovery_service_apply_announce env a s = (r, s')"
  shows "index_ok s'"
proof (cases "pa_stream_id a = 0 \<or> ucast (pa_header_slot_bytes a) \<noteq> TP_HEADER_SLOT_BYTES \<or> pa_pools a = [] \<or> pa_header_nslots a = 0")
  case True
  then show ?thesis using assms by (auto simp: tp_discovery_service_apply_announce_def split: if_splits)
next
  case False
  obtain q s1 where res: "tp_discovery_entry_reserve (dl_entry_ok env) (pa_stream_id a) s = (q, s1)" by force
  show ?thesis
  proof (cases q)
    case (Inl e)
    then show ?thesis using assms False res reserve_fails [OF res [unfolded Inl]] by (auto simp: tp_discovery_service_apply_announce_def)
  next
    case (Inr i)
    note rv = reserved [OF assms(1) _ res [unfolded Inr]]
    have k: "pa_stream_id a \<noteq> 0" using False by simp
    note known = known_entry_ok [OF assms(1) k]
    note put = rv(6) [OF k]
    let ?e = "(announced_entry a (known_entry s (pa_stream_id a)))\<lparr>de_pool_count := length (pa_pools a)\<rparr>"
    have e: "stream_entry_ok ?e" "stream_entry_ok (tp_discovery_entry_clear ?e)"
      using known k by (simp_all add: stream_entry_ok_def announced_entry_def tp_discovery_entry_clear_def)
    have full: "stream_entry_ok (?e\<lparr>de_pools := ps, de_last_announce_ns := t\<rparr>)" if "copy_pools (pa_header_nslots a) (pa_pools a) = Some ps" for ps t
      using copy_pools_Some [OF that] known k by (simp add: stream_entry_ok_def announced_entry_def tp_discovery_entry_clear_def)
    show ?thesis
      using assms False rv(1) [OF k] rv(3) [OF k] put e full known
      by (auto simp: tp_discovery_service_apply_announce_def res Inr Let_def split: if_splits option.splits)
  qed
qed

lemma data_source_ok:
  assumes "index_ok s" "tp_discovery_service_apply_data_source env a s = (r, s')"
  shows "index_ok s'"
proof (cases "dw_stream_id a = 0")
  case True
  then show ?thesis using assms by (simp add: tp_discovery_service_apply_data_source_def)
next
  case k: False
  obtain q s1 where res: "tp_discovery_entry_reserve (dl_entry_ok env) (dw_stream_id a) s = (q, s1)" by force
  show ?thesis
  proof (cases q)
    case (Inl e)
    then show ?thesis using assms k res reserve_fails [OF res [unfolded Inl]] by (auto simp: tp_discovery_service_apply_data_source_def)
  next
    case (Inr i)
    note rv = reserved [OF assms(1) k res [unfolded Inr]]
    have "stream_entry_ok ((known_entry s (dw_stream_id a))\<lparr>de_producer_id := p, de_epoch := ep, de_data_source_name := n, de_last_announce_ns := t\<rparr>)"
      "stream_entry_ok ((known_entry s (dw_stream_id a))\<lparr>de_producer_id := p, de_epoch := ep, de_last_announce_ns := t\<rparr>)"
      for p ep n t using known_entry_ok [OF assms(1) k] k by (simp_all add: stream_entry_ok_def)
    then show ?thesis
      using assms k rv(1,3) rv(6) known_entry_ok [OF assms(1) k]
      by (auto simp: tp_discovery_service_apply_data_source_def res Inr Let_def split: if_splits option.splits)
  qed
qed

lemma set_tags_ok:
  assumes "index_ok s" "tp_discovery_service_set_tags env k tags s = (r, s')"
  shows "index_ok s'"
proof (cases "k = 0")
  case True
  then show ?thesis using assms by (simp add: tp_discovery_service_set_tags_def)
next
  case k: False
  obtain q s1 where res: "tp_discovery_entry_reserve (dl_entry_ok env) k s = (q, s1)" by force
  show ?thesis
  proof (cases q)
    case (Inl e)
    then show ?thesis using assms k res reserve_fails [OF res [unfolded Inl]] by (auto simp: tp_discovery_service_set_tags_def)
  next
    case (Inr i)
    note rv = reserved [OF assms(1) k res [unfolded Inr]]
    have e: "stream_entry_ok ((known_entry s k)\<lparr>de_tags := ts\<rparr>)" "stream_entry_ok ((known_entry s k)\<lparr>de_tags := ts, de_last_announce_ns := t\<rparr>)" for ts t
      using known_entry_ok [OF assms(1) k] k by (simp_all add: stream_entry_ok_def)
    show ?thesis
      using assms k rv(3) rv(6) e known_entry_ok [OF assms(1) k]
      by (auto simp: tp_discovery_service_set_tags_def res Inr Let_def split: if_splits option.splits)
  qed
qed

section \<open>Runs\<close>

datatype discovery_event =
    Announced discovery_env tp_shm_pool_announce
  | Described discovery_env tp_data_source_announce
  | Tagged discovery_env u32 "string option list"
  | Pruned u64
  | Queried "result_alloc \<Rightarrow> bool" u64 u64 tp_discovery_request

fun discovery_step :: "discovery_event \<Rightarrow> tp_discovery_service \<Rightarrow> tp_discovery_service" where
  "discovery_step (Announced env a) s = snd (tp_discovery_service_apply_announce env a s)"
| "discovery_step (Described env a) s = snd (tp_discovery_service_apply_data_source env a s)"
| "discovery_step (Tagged env k tags) s = snd (tp_discovery_service_set_tags env k tags s)"
| "discovery_step (Pruned now) s = tp_discovery_prune_expired now s"
| "discovery_step (Queried ok prune_now now request) s = snd (tp_discovery_service_query ok prune_now now request s)"

lemma query_state [simp]: "snd (tp_discovery_service_query ok prune_now now request s) = tp_discovery_prune_expired prune_now s"
  by (simp add: tp_discovery_service_query_def Let_def)

lemma discovery_step_ok: "index_ok s \<Longrightarrow> index_ok (discovery_step ev s)"
  by (cases ev) (auto simp: pruned_ok intro: announce_ok data_source_ok set_tags_ok prod.collapse [symmetric])

lemma discovery_run_invariant: "index_ok s \<Longrightarrow> index_ok (fold discovery_step evs s)"
  by (induction evs arbitrary: s) (auto intro: discovery_step_ok)

lemma init_index_ok: "index_ok (tp_discovery_service_init config)"
  by (simp add: index_ok_def tp_discovery_service_init_def)

section \<open>The specification of the index\<close>

text \<open>
  What is known of a stream: its epoch and producer, the layout of the announcement that is current, its name,
  its tags and when it was last heard of.
\<close>

record stream_view =
  vz_epoch :: u64
  vz_producer :: u32
  vz_layout :: "(u32 \<times> u32 \<times> string \<times> tp_discovery_pool_entry list) option"
  vz_name :: string
  vz_tags :: "string list"
  vz_seen :: u64

type_synonym stream_map = "u32 \<Rightarrow> stream_view option"

definition unknown_stream :: stream_view where
  "unknown_stream = \<lparr>vz_epoch = 0, vz_producer = 0, vz_layout = None, vz_name = [], vz_tags = [], vz_seen = 0\<rparr>"

definition view_at :: "stream_map \<Rightarrow> u32 \<Rightarrow> stream_view" where
  "view_at m k = (case m k of Some v \<Rightarrow> v | None \<Rightarrow> unknown_stream)"

text \<open>The newest epoch wins: what carries an older epoch than the one that is known changes nothing.\<close>

definition if_newest :: "u64 \<Rightarrow> u32 \<Rightarrow> (stream_view \<Rightarrow> stream_view) \<Rightarrow> stream_map \<Rightarrow> stream_map" where
  "if_newest epoch k f m = (if epoch < vz_epoch (view_at m k) then m else m(k \<mapsto> f (view_at m k)))"

definition pool_of :: "tp_shm_pool_announce_pool \<Rightarrow> tp_discovery_pool_entry" where
  "pool_of p = \<lparr>dp_pool_id = pb_pool_id p, dp_pool_nslots = pb_pool_nslots p, dp_stride_bytes = pb_stride_bytes p,
     dp_region_uri = (case pb_region_uri p of None \<Rightarrow> [] | Some uri \<Rightarrow> copied 4096 uri)\<rparr>"

definition announce_accepted :: "tp_shm_pool_announce \<Rightarrow> bool" where
  "announce_accepted a \<longleftrightarrow> pa_stream_id a \<noteq> 0 \<and> ucast (pa_header_slot_bytes a) = TP_HEADER_SLOT_BYTES \<and> pa_pools a \<noteq> [] \<and>
     pa_header_nslots a \<noteq> 0"

definition pools_match :: "tp_shm_pool_announce \<Rightarrow> bool" where
  "pools_match a \<longleftrightarrow> (\<forall>p\<in>set (pa_pools a). pb_pool_nslots p = pa_header_nslots a)"

definition spec_prune :: "u64 \<Rightarrow> u64 \<Rightarrow> stream_map \<Rightarrow> stream_map" where
  "spec_prune expiry now m k =
     (case m k of None \<Rightarrow> None | Some v \<Rightarrow> if vz_seen v \<noteq> 0 \<and> now > vz_seen v + expiry then None else Some v)"

fun spec_step :: "u64 \<Rightarrow> discovery_event \<Rightarrow> stream_map \<Rightarrow> stream_map" where
  "spec_step expiry (Announced env a) m =
     (if announce_accepted a
      then if_newest (pa_epoch a) (pa_stream_id a) (\<lambda>v. v\<lparr>vz_epoch := pa_epoch a, vz_producer := pa_producer_id a,
             vz_layout := Some (pa_layout_version a, pa_header_nslots a,
               case pa_header_region_uri a of None \<Rightarrow> [] | Some uri \<Rightarrow> copied 4096 uri, map pool_of (pa_pools a)),
             vz_tags := [], vz_seen := dl_now env\<rparr>) m
      else m)"
| "spec_step expiry (Described env a) m =
     (if dw_stream_id a = 0 then m
      else if_newest (dw_epoch a) (dw_stream_id a) (\<lambda>v. v\<lparr>vz_epoch := dw_epoch a, vz_producer := dw_producer_id a,
             vz_name := (case dw_name a of None \<Rightarrow> vz_name v | Some name \<Rightarrow> copied 256 name), vz_seen := dl_now env\<rparr>) m)"
| "spec_step expiry (Tagged env k tags) m =
     (if k = 0 then m
      else m(k \<mapsto> (view_at m k)\<lparr>vz_tags := map (case_option [] id) tags, vz_seen := dl_now env\<rparr>))"
| "spec_step expiry (Pruned now) m = spec_prune expiry now m"
| "spec_step expiry (Queried ok prune_now now request) m = spec_prune expiry prune_now m"

text \<open>The array as a specification state.\<close>

definition view_of :: "tp_discovery_entry \<Rightarrow> stream_view" where
  "view_of e = \<lparr>vz_epoch = de_epoch e, vz_producer = de_producer_id e,
     vz_layout = (if de_pools e = [] then None else Some (de_layout_version e, de_header_nslots e, de_header_region_uri e, de_pools e)),
     vz_name = de_data_source_name e, vz_tags = de_tags e, vz_seen = de_last_announce_ns e\<rparr>"

definition known_streams :: "tp_discovery_service \<Rightarrow> stream_map" where
  "known_streams s k = map_option view_of (index (dn_entries s) k)"

lemma view_fresh: "view_of (fresh_entry k) = unknown_stream"
  by (simp add: view_of_def fresh_entry_def unknown_stream_def)

lemma view_known: "view_of (known_entry s k) = view_at (known_streams s) k"
  by (simp add: known_entry_def view_at_def known_streams_def view_fresh split: option.splits)

lemma known_epoch: "de_epoch (known_entry s k) = vz_epoch (view_at (known_streams s) k)"
  using view_known [of s k] by (metis stream_view.select_convs(1) view_of_def)

lemma known_streams_put:
  assumes "index_ok s" "k \<noteq> 0" "tp_discovery_entry_reserve alloc k s = (Inr i, s')"
  shows "de_stream_id e = k \<Longrightarrow> known_streams (put_entry i e s') = (known_streams s)(k \<mapsto> view_of e)"
  using reserved(7) [OF assms, of e] by (simp add: known_streams_def fun_eq_iff)

lemma known_streams_stale:
  assumes "index_ok s" "k \<noteq> 0" "tp_discovery_entry_reserve alloc k s = (Inr i, s')" "epoch < de_epoch (known_entry s k)"
  shows "known_streams s' = known_streams s"
proof -
  have "index (dn_entries s) k \<noteq> None"
  proof
    assume "index (dn_entries s) k = None"
    then show False using assms(4) by (simp add: known_entry_def fresh_entry_def)
  qed
  then have "(index (dn_entries s))(k \<mapsto> known_entry s k) = index (dn_entries s)" by (auto simp: known_entry_def)
  then show ?thesis using reserved(4) [OF assms(1-3)] by (simp add: known_streams_def fun_eq_iff)
qed

lemma copy_pools_match: "\<forall>p\<in>set ps. pb_pool_nslots p = n \<Longrightarrow> copy_pools n ps = Some (map pool_of ps)"
  by (induction ps) (simp_all add: pool_of_def)

text \<open>
  The allocations of a step succeed, and an announcement that gets as far as its pools has pools of the slot count of
  its header.
\<close>

definition env_ok :: "discovery_env \<Rightarrow> bool" where
  "env_ok env \<longleftrightarrow> dl_entry_ok env \<and> dl_array_ok env \<and> (\<forall>i. dl_tag_ok env i)"

fun clean_event :: "discovery_event \<Rightarrow> bool" where
  "clean_event (Announced env a) \<longleftrightarrow> env_ok env \<and> (announce_accepted a \<longrightarrow> pools_match a)"
| "clean_event (Described env a) \<longleftrightarrow> env_ok env"
| "clean_event (Tagged env k tags) \<longleftrightarrow> env_ok env"
| "clean_event (Pruned now) \<longleftrightarrow> True"
| "clean_event (Queried ok prune_now now request) \<longleftrightarrow> True"

lemma reserve_done: "env_ok env \<Longrightarrow> \<exists>i s'. tp_discovery_entry_reserve (dl_entry_ok env) k s = (Inr i, s')"
  by (simp add: tp_discovery_entry_reserve_def env_ok_def split: option.split)

lemma prune_refines: "index_ok s \<Longrightarrow> known_streams (tp_discovery_prune_expired now s) = spec_prune (tp_discovery_expiry_ns s) now (known_streams s)"
  by (auto simp: known_streams_def pruned index_filter index_ok_def fun_eq_iff spec_prune_def view_of_def entry_expired_def
      split: option.splits)

lemma announce_refines:
  assumes "index_ok s" "env_ok env" "announce_accepted a \<longrightarrow> pools_match a"
  shows "known_streams (snd (tp_discovery_service_apply_announce env a s)) = spec_step expiry (Announced env a) (known_streams s)"
proof (cases "announce_accepted a")
  case False
  then show ?thesis by (auto simp: tp_discovery_service_apply_announce_def announce_accepted_def)
next
  case True
  let ?k = "pa_stream_id a"
  let ?e = "(announced_entry a (known_entry s ?k))\<lparr>de_pool_count := length (pa_pools a)\<rparr>"
  have k: "?k \<noteq> 0" using True by (simp add: announce_accepted_def)
  obtain i s1 where res: "tp_discovery_entry_reserve (dl_entry_ok env) ?k s = (Inr i, s1)" using reserve_done [OF assms(2)] by blast
  have copy: "copy_pools (pa_header_nslots a) (pa_pools a) = Some (map pool_of (pa_pools a))"
    using assms(3) True by (intro copy_pools_match) (simp add: pools_match_def)
  have apply_eq: "snd (tp_discovery_service_apply_announce env a s) =
      (if pa_epoch a < de_epoch (known_entry s ?k) then s1
       else put_entry i (?e\<lparr>de_pools := map pool_of (pa_pools a), de_last_announce_ns := dl_now env\<rparr>) s1)"
    using True assms(2) res copy reserved(3) [OF assms(1) k res]
    by (auto simp: tp_discovery_service_apply_announce_def announce_accepted_def env_ok_def Let_def)
  have id: "de_stream_id (known_entry s ?k) = ?k" using known_entry_ok [OF assms(1) k] by simp
  have view: "view_of (?e\<lparr>de_pools := map pool_of (pa_pools a), de_last_announce_ns := dl_now env\<rparr>) =
      (view_of (known_entry s ?k))\<lparr>vz_epoch := pa_epoch a, vz_producer := pa_producer_id a,
         vz_layout := Some (pa_layout_version a, pa_header_nslots a,
           case pa_header_region_uri a of None \<Rightarrow> [] | Some uri \<Rightarrow> copied 4096 uri, map pool_of (pa_pools a)),
         vz_tags := [], vz_seen := dl_now env\<rparr>"
    using True by (simp add: view_of_def announced_entry_def tp_discovery_entry_clear_def announce_accepted_def)
  show ?thesis
  proof (cases "pa_epoch a < de_epoch (known_entry s ?k)")
    case stale: True
    then show ?thesis
      using True apply_eq known_streams_stale [OF assms(1) k res stale] by (simp add: if_newest_def known_epoch)
  next
    case False
    then show ?thesis
      using True apply_eq view id known_streams_put [OF assms(1) k res, of "?e\<lparr>de_pools := map pool_of (pa_pools a), de_last_announce_ns := dl_now env\<rparr>"]
      by (simp add: if_newest_def known_epoch view_known)
  qed
qed

lemma data_source_refines:
  assumes "index_ok s" "env_ok env"
  shows "known_streams (snd (tp_discovery_service_apply_data_source env a s)) = spec_step expiry (Described env a) (known_streams s)"
proof (cases "dw_stream_id a = 0")
  case True
  then show ?thesis by (simp add: tp_discovery_service_apply_data_source_def)
next
  case k: False
  let ?k = "dw_stream_id a"
  obtain i s1 where res: "tp_discovery_entry_reserve (dl_entry_ok env) ?k s = (Inr i, s1)" using reserve_done [OF assms(2)] by blast
  let ?e = "(known_entry s ?k)\<lparr>de_producer_id := dw_producer_id a, de_epoch := dw_epoch a,
      de_data_source_name := (case dw_name a of None \<Rightarrow> de_data_source_name (known_entry s ?k) | Some name \<Rightarrow> copied 256 name),
      de_last_announce_ns := dl_now env\<rparr>"
  have apply_eq: "snd (tp_discovery_service_apply_data_source env a s) =
      (if dw_epoch a < de_epoch (known_entry s ?k) then s1 else put_entry i ?e s1)"
    using k res reserved(3) [OF assms(1) k res] by (auto simp: tp_discovery_service_apply_data_source_def Let_def cong: option.case_cong)
  have id: "de_stream_id ?e = ?k" using known_entry_ok [OF assms(1) k] by simp
  have view: "view_of ?e = (view_of (known_entry s ?k))\<lparr>vz_epoch := dw_epoch a, vz_producer := dw_producer_id a,
      vz_name := (case dw_name a of None \<Rightarrow> vz_name (view_of (known_entry s ?k)) | Some name \<Rightarrow> copied 256 name), vz_seen := dl_now env\<rparr>"
    by (simp add: view_of_def split: option.split)
  show ?thesis
  proof (cases "dw_epoch a < de_epoch (known_entry s ?k)")
    case stale: True
    then show ?thesis using k apply_eq known_streams_stale [OF assms(1) k res stale] by (simp add: if_newest_def known_epoch)
  next
    case False
    have newest: "\<not> dw_epoch a < vz_epoch (view_at (known_streams s) ?k)" using False by (simp add: known_epoch)
    have "known_streams (snd (tp_discovery_service_apply_data_source env a s)) = (known_streams s)(?k \<mapsto> view_of ?e)"
      using False apply_eq known_streams_put [OF assms(1) k res id] by simp
    then show ?thesis unfolding spec_step.simps if_newest_def using k newest by (simp add: view view_known cong: option.case_cong)
  qed
qed

lemma copy_tags_all: "(\<And>i. ok i) \<Longrightarrow> copy_tags ok n tags = Some (map (case_option [] id) tags)"
  by (induction tags arbitrary: n) (auto split: option.split)

lemma set_tags_refines:
  assumes "index_ok s" "env_ok env"
  shows "known_streams (snd (tp_discovery_service_set_tags env k tags s)) = spec_step expiry (Tagged env k tags) (known_streams s)"
proof (cases "k = 0")
  case True
  then show ?thesis by (simp add: tp_discovery_service_set_tags_def)
next
  case k: False
  obtain i s1 where res: "tp_discovery_entry_reserve (dl_entry_ok env) k s = (Inr i, s1)" using reserve_done [OF assms(2)] by blast
  let ?e = "(known_entry s k)\<lparr>de_tags := map (case_option [] id) tags, de_last_announce_ns := dl_now env\<rparr>"
  have copy: "copy_tags (dl_tag_ok env) 0 tags = Some (map (case_option [] id) tags)"
    using assms(2) by (intro copy_tags_all) (simp add: env_ok_def)
  have "snd (tp_discovery_service_set_tags env k tags s) = put_entry i ?e s1"
    using k assms(2) res copy reserved(3) [OF assms(1) k res] by (auto simp: tp_discovery_service_set_tags_def Let_def env_ok_def)
  then have "known_streams (snd (tp_discovery_service_set_tags env k tags s)) = (known_streams s)(k \<mapsto> view_of ?e)"
    using known_streams_put [OF assms(1) k res, of ?e] known_entry_ok [OF assms(1) k] by simp
  moreover have "view_of ?e = (view_of (known_entry s k))\<lparr>vz_tags := map (case_option [] id) tags, vz_seen := dl_now env\<rparr>"
    by (simp add: view_of_def)
  ultimately show ?thesis using k by (simp add: view_known)
qed

lemma step_refines:
  assumes "index_ok s" "clean_event ev"
  shows "known_streams (discovery_step ev s) = spec_step (tp_discovery_expiry_ns s) ev (known_streams s)"
proof (cases ev)
  case (Announced env a)
  then show ?thesis using announce_refines [OF assms(1)] assms(2) by (simp del: spec_step.simps)
next
  case (Described env a)
  then show ?thesis using data_source_refines [OF assms(1)] assms(2) by (simp del: spec_step.simps)
next
  case (Tagged env k tags)
  then show ?thesis using set_tags_refines [OF assms(1)] assms(2) by (simp del: spec_step.simps)
qed (simp_all add: prune_refines [OF assms(1)])

lemma put_config [simp]: "dn_config (put_entry i e s) = dn_config s"
  by (simp add: put_entry_def)

lemma reserve_config: "tp_discovery_entry_reserve alloc k s = (r, s') \<Longrightarrow> dn_config s' = dn_config s"
  by (auto simp: tp_discovery_entry_reserve_def split: option.splits if_splits)

lemma step_config: "dn_config (discovery_step ev s) = dn_config s"
proof (cases ev)
  case (Announced env a)
  obtain r s' where "tp_discovery_entry_reserve (dl_entry_ok env) (pa_stream_id a) s = (r, s')" by force
  then show ?thesis using reserve_config Announced
    by (fastforce simp: tp_discovery_service_apply_announce_def Let_def split: sum.split option.split)
next
  case (Described env a)
  obtain r s' where "tp_discovery_entry_reserve (dl_entry_ok env) (dw_stream_id a) s = (r, s')" by force
  then show ?thesis using reserve_config Described
    by (fastforce simp: tp_discovery_service_apply_data_source_def Let_def split: sum.split)
next
  case (Tagged env k tags)
  obtain r s' where "tp_discovery_entry_reserve (dl_entry_ok env) k s = (r, s')" by force
  then show ?thesis using reserve_config Tagged
    by (fastforce simp: tp_discovery_service_set_tags_def Let_def split: sum.split option.split)
qed (simp_all add: pruned)

lemma expiry_config: "dn_config s' = dn_config s \<Longrightarrow> tp_discovery_expiry_ns s' = tp_discovery_expiry_ns s"
  by (simp add: tp_discovery_expiry_ns_def)

lemma run_refines:
  "index_ok s \<Longrightarrow> \<forall>ev\<in>set evs. clean_event ev \<Longrightarrow>
   known_streams (fold discovery_step evs s) = fold (spec_step (tp_discovery_expiry_ns s)) evs (known_streams s)"
proof (induction evs arbitrary: s)
  case (Cons ev evs)
  have "tp_discovery_expiry_ns (discovery_step ev s) = tp_discovery_expiry_ns s" by (rule expiry_config [OF step_config])
  then show ?case using Cons step_refines [of s ev] discovery_step_ok [of s ev] by simp
qed simp

section \<open>Queries\<close>

text \<open>The filters of a request, all of which have to hold.\<close>

definition request_admits :: "tp_discovery_request \<Rightarrow> tp_discovery_entry \<Rightarrow> bool" where
  "request_admits request e \<longleftrightarrow>
     qr_stream_id request \<in> {TP_NULL_U32, de_stream_id e} \<and> qr_producer_id request \<in> {TP_NULL_U32, de_producer_id e} \<and>
     qr_data_source_id request \<in> {TP_NULL_U64, de_data_source_id e} \<and>
     qr_data_source_name request \<in> {None, Some [], Some (de_data_source_name e)} \<and> set (qr_tags request) \<subseteq> set (de_tags e)"

lemma has_all_tags_eq: "has_all_tags e tags \<longleftrightarrow> set tags \<subseteq> set (de_tags e)"
  by (induction tags) (auto simp: tp_discovery_entry_has_tag_def)

lemma matches_eq: "tp_discovery_entry_matches e request \<longleftrightarrow> request_admits request e"
  unfolding tp_discovery_entry_matches_def request_admits_def has_all_tags_eq by auto

definition answers :: "u64 \<Rightarrow> u64 \<Rightarrow> tp_discovery_request \<Rightarrow> tp_discovery_entry \<Rightarrow> bool" where
  "answers now expiry request e \<longleftrightarrow> entry_visible now expiry e \<and> request_admits request e"

lemma match_count_eq: "match_count now expiry request es = length (filter (answers now expiry request) es)"
  by (induction es) (simp_all add: answers_def matches_eq)

text \<open>The result that shows an entry, when all allocations succeed.\<close>

definition shown :: "tp_discovery_service_config \<Rightarrow> tp_discovery_entry \<Rightarrow> tp_discovery_result" where
  "shown config e = \<lparr>dx_stream_id = de_stream_id e, dx_producer_id = de_producer_id e, dx_epoch = de_epoch e,
     dx_layout_version = de_layout_version e, dx_header_nslots = de_header_nslots e, dx_header_slot_bytes = de_header_slot_bytes e,
     dx_max_dims = de_max_dims e, dx_data_source_id = de_data_source_id e,
     dx_driver_control_stream_id = dg_driver_control_stream_id config,
     dx_header_region_uri = copied 4096 (de_header_region_uri e), dx_data_source_name = copied 256 (de_data_source_name e),
     dx_driver_instance_id = copied 256 (dg_driver_instance_id config), dx_driver_control_channel = copied 1024 (dg_driver_control_channel config),
     dx_pools = map (\<lambda>p. \<lparr>pq_pool_id = dp_pool_id p, pq_nslots = dp_pool_nslots p, pq_stride_bytes = dp_stride_bytes p,
       pq_region_uri = copied 4096 (dp_region_uri p)\<rparr>) (de_pools e),
     dx_pool_count = length (de_pools e), dx_tags = map Some (de_tags e), dx_tag_count = length (de_tags e)\<rparr>"

lemma fill_shown:
  assumes "\<And>x. ok x" "length (de_pools e) = de_pool_count e"
  shows "tp_discovery_result_fill ok k e s = Inr (shown (dn_config s) e)"
proof -
  have "map (\<lambda>(i, tag). if ok (Tag k i) then Some tag else None) (enumerate n ts) = map Some ts" for n ts
    using assms(1) by (induction ts arbitrary: n) simp_all
  then show ?thesis using assms by (auto simp: tp_discovery_result_fill_def shown_def simp flip: assms(2))
qed

lemma fill_loop_shown:
  assumes "\<And>x. ok x" "\<forall>e\<in>set es. length (de_pools e) = de_pool_count e"
  shows "fill_loop ok now expiry request s k es = Inr (map (shown (dn_config s)) (filter (answers now expiry request) es))"
  using assms(2)
proof (induction es arbitrary: k)
  case (Cons e es)
  then show ?case using fill_shown [OF assms(1), of e] by (simp add: answers_def matches_eq)
qed simp

text \<open>Arrays of entries are whole as long as no allocation fails.\<close>

definition whole :: "tp_discovery_service \<Rightarrow> bool" where
  "whole s \<longleftrightarrow> (\<forall>e\<in>set (dn_entries s). length (de_pools e) = de_pool_count e)"

fun allocations_ok :: "discovery_event \<Rightarrow> bool" where
  "allocations_ok (Announced env a) \<longleftrightarrow> env_ok env"
| "allocations_ok (Described env a) \<longleftrightarrow> env_ok env"
| "allocations_ok (Tagged env k tags) \<longleftrightarrow> env_ok env"
| "allocations_ok (Pruned now) \<longleftrightarrow> True"
| "allocations_ok (Queried ok prune_now now request) \<longleftrightarrow> True"

lemma whole_put: "whole s \<Longrightarrow> length (de_pools e) = de_pool_count e \<Longrightarrow> whole (put_entry i e s)"
  using set_update_subset_insert [of "dn_entries s" i e] by (auto simp: whole_def put_entry_def)

lemma reserve_whole:
  assumes "whole s" "index_ok s" "k \<noteq> 0" "tp_discovery_entry_reserve alloc k s = (Inr i, s')"
  shows "whole s'" "length (de_pools (known_entry s k)) = de_pool_count (known_entry s k)"
proof -
  show "whole s'" using assms(1,4)
    by (auto simp: tp_discovery_entry_reserve_def whole_def fresh_entry_def split: option.splits if_splits)
  then show "length (de_pools (known_entry s k)) = de_pool_count (known_entry s k)"
    using reserved(2,3) [OF assms(2-4)] by (metis nth_mem whole_def)
qed

lemma step_whole:
  assumes "index_ok s" "whole s" "allocations_ok ev"
  shows "whole (discovery_step ev s)"
proof (cases ev)
  case (Announced env a)
  then have env: "env_ok env" using assms(3) by simp
  obtain i s1 where res: "tp_discovery_entry_reserve (dl_entry_ok env) (pa_stream_id a) s = (Inr i, s1)" using reserve_done [OF env] by blast
  show ?thesis
  proof (cases "announce_accepted a")
    case False
    then show ?thesis using assms(2) Announced by (auto simp: tp_discovery_service_apply_announce_def announce_accepted_def)
  next
    case True
    then have k: "pa_stream_id a \<noteq> 0" by (simp add: announce_accepted_def)
    note w = reserve_whole [OF assms(2,1) k res]
    show ?thesis
      using True res env w(1) Announced copy_pools_Some
      by (auto simp: tp_discovery_service_apply_announce_def announce_accepted_def env_ok_def Let_def announced_entry_def
          tp_discovery_entry_clear_def split: option.split intro!: whole_put)
  qed
next
  case (Described env a)
  then have env: "env_ok env" using assms(3) by simp
  obtain i s1 where res: "tp_discovery_entry_reserve (dl_entry_ok env) (dw_stream_id a) s = (Inr i, s1)" using reserve_done [OF env] by blast
  show ?thesis
    using Described assms(2) res reserve_whole [OF assms(2,1) _ res] reserved(3) [OF assms(1) _ res]
    by (auto simp: tp_discovery_service_apply_data_source_def Let_def intro!: whole_put)
next
  case (Tagged env k tags)
  then have env: "env_ok env" using assms(3) by simp
  obtain i s1 where res: "tp_discovery_entry_reserve (dl_entry_ok env) k s = (Inr i, s1)" using reserve_done [OF env] by blast
  show ?thesis
    using Tagged assms(2) res env reserve_whole [OF assms(2,1) _ res] reserved(3) [OF assms(1) _ res]
    by (auto simp: tp_discovery_service_set_tags_def Let_def env_ok_def split: option.split intro!: whole_put)
qed (use assms(2) in \<open>auto simp: whole_def pruned\<close>)

lemma run_whole:
  "index_ok s \<Longrightarrow> whole s \<Longrightarrow> \<forall>ev\<in>set evs. allocations_ok ev \<Longrightarrow> whole (fold discovery_step evs s)"
  by (induction evs arbitrary: s) (auto intro: step_whole discovery_step_ok)

end
