(* ===== verification/Tp_Discovery_Codec.thy ===== *)
theory Tp_Discovery_Codec
  imports Tp_Stream Tp_Discovery_Index
begin

text \<open>
  The discovery messages: the request, which src/client/tp_discovery_client.c writes and
  src/discovery/tp_discovery_service.c reads, and the response, the other way round. The accessors are those of
  \<open>Tp_Stream\<close>.
\<close>

section \<open>Writing a response\<close>

text \<open>The pools of a result; \<open>k\<close> entries are left. A count without an array is read through the NULL pointer.\<close>

fun put_pools :: "stream_codec \<Rightarrow> nat \<Rightarrow> nat \<Rightarrow> nat \<Rightarrow> nat \<Rightarrow> tp_discovery_pool_info list \<Rightarrow> bytes \<Rightarrow> bytes res" where
  "put_pools S cap n 0 j ps w = Inr w"
| "put_pools S cap n (Suc k) j ps w =
     guard (\<not> sq_room S ''payloadPools'' cap n j w) (EINVAL ''tp_discovery_encode_response: pools next failed'')
       (case ps of
          [] \<Rightarrow> Inl (UB ''null pointer'')
        | p # ps \<Rightarrow>
            (case sq_put_data S cap (pq_region_uri p)
                    (w @ sq_block S ''payloadPools'' [(''poolId'', ucast (pq_pool_id p)), (''poolNslots'', ucast (pq_nslots p)),
                       (''strideBytes'', ucast (pq_stride_bytes p))]) of
               None \<Rightarrow> Inl (EINVAL ''tp_discovery_encode_response: pool uri encode failed'')
             | Some w \<Rightarrow> put_pools S cap n k (Suc j) ps w))"

text \<open>
  The tags. The text is copied to its place before the accessor that moves the position checks that there is room for it,
  so a long tag is written past the end of the buffer.
\<close>

definition put_tag :: "stream_codec \<Rightarrow> tp_error \<Rightarrow> nat \<Rightarrow> nat \<Rightarrow> nat \<Rightarrow> string \<Rightarrow> bytes \<Rightarrow> bytes res" where
  "put_tag S err cap n j tag w =
     guard (\<not> sq_tag_room S ''tags'' cap n j w) err
       (guard (tag \<noteq> [] \<and> length w + length (sq_data S tag) > cap) (UB ''write past the buffer'') (Inr (w @ sq_data S tag)))"

fun put_tags :: "stream_codec \<Rightarrow> nat \<Rightarrow> nat \<Rightarrow> nat \<Rightarrow> nat \<Rightarrow> string option list \<Rightarrow> bytes \<Rightarrow> bytes res" where
  "put_tags S cap n 0 j ts w = Inr w"
| "put_tags S cap n (Suc k) j ts w =
     (case ts of
        [] \<Rightarrow> Inl (UB ''null pointer'')
      | t # ts \<Rightarrow>
          bind_res (put_tag S (EINVAL ''tp_discovery_encode_response: tags next failed'') cap n j (case t of None \<Rightarrow> [] | Some tag \<Rightarrow> tag) w) (\<lambda>w.
            put_tags S cap n k (Suc j) ts w))"

definition result_fields :: "tp_discovery_result \<Rightarrow> (string \<times> u64) list" where
  "result_fields r =
     [(''streamId'', ucast (dx_stream_id r)), (''producerId'', ucast (dx_producer_id r)), (''epoch'', dx_epoch r),
      (''layoutVersion'', ucast (dx_layout_version r)), (''headerNslots'', ucast (dx_header_nslots r)),
      (''headerSlotBytes'', ucast (dx_header_slot_bytes r)), (''maxDims'', ucast (dx_max_dims r)), (''dataSourceId'', dx_data_source_id r),
      (''driverControlStreamId'', ucast (dx_driver_control_stream_id r))]"

definition put_text :: "stream_codec \<Rightarrow> nat \<Rightarrow> tp_error \<Rightarrow> string \<Rightarrow> bytes \<Rightarrow> bytes res" where
  "put_text S cap err d w = (case sq_put_data S cap d w of None \<Rightarrow> Inl err | Some w \<Rightarrow> Inr w)"

definition put_dimensions :: "stream_codec \<Rightarrow> nat \<Rightarrow> tp_error \<Rightarrow> string \<Rightarrow> nat \<Rightarrow> bytes \<Rightarrow> bytes res" where
  "put_dimensions S cap err g count w = (case sq_put_dim S g cap (of_nat count) w of None \<Rightarrow> Inl err | Some w \<Rightarrow> Inr w)"

text \<open>The count of a group has sixteen bits; the loops run over the whole arrays.\<close>

abbreviation group_count :: "nat \<Rightarrow> nat" where
  "group_count n \<equiv> unat (of_nat n :: u16)"

definition put_result :: "stream_codec \<Rightarrow> nat \<Rightarrow> tp_discovery_result \<Rightarrow> bytes \<Rightarrow> bytes res" where
  "put_result S cap r w =
     bind_res (put_dimensions S cap (EINVAL ''tp_discovery_encode_response: pools wrap failed'') ''payloadPools'' (dx_pool_count r)
                 (w @ sq_block S ''results'' (result_fields r))) (\<lambda>w.
     bind_res (put_pools S cap (group_count (dx_pool_count r)) (dx_pool_count r) 0 (dx_pools r) w) (\<lambda>w.
     bind_res (put_dimensions S cap (EINVAL ''tp_discovery_encode_response: tags wrap failed'') ''tags'' (dx_tag_count r) w) (\<lambda>w.
     bind_res (put_tags S cap (group_count (dx_tag_count r)) (dx_tag_count r) 0 (dx_tags r) w) (\<lambda>w.
     bind_res (put_text S cap (EINVAL ''tp_discovery_encode_response: header uri encode failed'') (dx_header_region_uri r) w) (\<lambda>w.
     bind_res (put_text S cap (EINVAL ''tp_discovery_encode_response: data source name encode failed'') (dx_data_source_name r) w) (\<lambda>w.
     bind_res (put_text S cap (EINVAL ''tp_discovery_encode_response: driver instance encode failed'') (dx_driver_instance_id r) w) (\<lambda>w.
     put_text S cap (EINVAL ''tp_discovery_encode_response: driver control channel encode failed'') (dx_driver_control_channel r) w)))))))"

fun put_results :: "stream_codec \<Rightarrow> nat \<Rightarrow> nat \<Rightarrow> nat \<Rightarrow> tp_discovery_result list \<Rightarrow> bytes \<Rightarrow> bytes res" where
  "put_results S cap n i [] w = Inr w"
| "put_results S cap n i (r # rs) w =
     guard (\<not> sq_room S ''results'' cap n i w) (EINVAL ''tp_discovery_encode_response: results next failed'')
       (bind_res (put_result S cap r w) (\<lambda>w. put_results S cap n (Suc i) rs w))"

definition tp_discovery_encode_response :: "stream_codec \<Rightarrow> nat \<Rightarrow> tp_discovery_response \<Rightarrow> bytes res" where
  "tp_discovery_encode_response S cap response =
     (let w = sq_put_header S ''DiscoveryResponse'' @ sq_block S ''DiscoveryResponse''
                [(''requestId'', rp_request_id response), (''status'', ucast (rp_status response))]
      in bind_res (put_dimensions S cap (EINVAL ''tp_discovery_encode_response: results wrap failed'') ''results'' (rp_result_count response) w) (\<lambda>w.
         bind_res (put_results S cap (group_count (rp_result_count response)) 0 (rp_results response) w) (\<lambda>w.
         put_text S cap (EINVAL ''tp_discovery_encode_response: error message encode failed'') (rp_error_message response) w)))"

section \<open>Reading a response\<close>

text \<open>At most \<open>dst_len - 1\<close> characters; as a C string the copy ends at a NUL.\<close>

definition tp_discovery_copy_ascii :: "nat \<Rightarrow> string option \<Rightarrow> string" where
  "tp_discovery_copy_ascii dst_len src =
     (if dst_len = 0 then [] else (case src of None \<Rightarrow> [] | Some s \<Rightarrow> c_string (take (dst_len - 1) s)))"

definition blank_pool :: tp_discovery_pool_info where
  "blank_pool = \<lparr>pq_pool_id = 0, pq_nslots = 0, pq_stride_bytes = 0, pq_region_uri = []\<rparr>"

text \<open>
  The loops return the message of the error that ended the decoding, if any, the array and the position.
  Arrays are zeroed when they are allocated, and a next accessor that returns NULL ends a loop without an error.
\<close>

fun get_pools :: "stream_codec \<Rightarrow> u32 \<Rightarrow> nat \<Rightarrow> nat \<Rightarrow> nat \<Rightarrow> bytes \<Rightarrow> string option \<times> tp_discovery_pool_info list \<times> bytes" where
  "get_pools S nslots n 0 p b = (None, [], b)"
| "get_pools S nslots n (Suc k) p b =
     (case sq_next S ''payloadPools'' p n b of
        None \<Rightarrow> (None, replicate (Suc k) blank_pool, b)
      | Some b' \<Rightarrow>
          let pool = \<lparr>pq_pool_id = ucast (sq_field S ''payloadPools'' ''poolId'' b), pq_nslots = ucast (sq_field S ''payloadPools'' ''poolNslots'' b),
                pq_stride_bytes = ucast (sq_field S ''payloadPools'' ''strideBytes'' b), pq_region_uri = []\<rparr>
          in if pq_nslots pool \<noteq> nslots then (Some ''discovery response pool nslots mismatch'', pool # replicate k blank_pool, b')
             else
               (case sq_get S b' of
                  (uri, b'') \<Rightarrow>
                    let pool = pool\<lparr>pq_region_uri := tp_discovery_copy_ascii 4096 uri\<rparr>
                    in if pq_region_uri pool = [] then (Some ''discovery response missing payload uri'', pool # replicate k blank_pool, b'')
                       else (case get_pools S nslots n k (Suc p) b'' of (e, ps, b) \<Rightarrow> (e, pool # ps, b))))"

text \<open>A tag is copied before the position is moved over it: its length is trusted. An empty tag is NULL.\<close>

fun get_tags :: "stream_codec \<Rightarrow> (nat \<Rightarrow> bool) \<Rightarrow> nat \<Rightarrow> nat \<Rightarrow> nat \<Rightarrow> bytes \<Rightarrow> (string option \<times> string option list \<times> bytes) res" where
  "get_tags S ok n 0 t b = Inr (None, [], b)"
| "get_tags S ok n (Suc k) t b =
     (case sq_tag S ''tags'' t n b of
        None \<Rightarrow> Inr (None, replicate (Suc k) None, b)
      | Some (len, b') \<Rightarrow>
          if len > 0 \<and> \<not> ok t then Inr (Some ''discovery response tag string allocation failed'', replicate (Suc k) None, b')
          else guard (unat len > length b') (UB ''read past the fragment'')
            (bind_res (get_tags S ok n k (Suc t) (drop (unat len) b')) (\<lambda>(e, ts, b).
               Inr (e, (if len > 0 then Some (c_string (bytes_text (take (unat len) b'))) else None) # ts, b))))"

definition blank_result :: tp_discovery_result where
  "blank_result = \<lparr>dx_stream_id = 0, dx_producer_id = 0, dx_epoch = 0, dx_layout_version = 0, dx_header_nslots = 0, dx_header_slot_bytes = 0,
     dx_max_dims = 0, dx_data_source_id = 0, dx_driver_control_stream_id = 0, dx_header_region_uri = [], dx_data_source_name = [],
     dx_driver_instance_id = [], dx_driver_control_channel = [], dx_pools = [], dx_pool_count = 0, dx_tags = [], dx_tag_count = 0\<rparr>"

definition get_result_fields :: "stream_codec \<Rightarrow> bytes \<Rightarrow> tp_discovery_result" where
  "get_result_fields S b =
     (let field = sq_field S ''results''
      in blank_result\<lparr>dx_stream_id := ucast (field ''streamId'' b), dx_producer_id := ucast (field ''producerId'' b), dx_epoch := field ''epoch'' b,
           dx_layout_version := ucast (field ''layoutVersion'' b), dx_header_nslots := ucast (field ''headerNslots'' b),
           dx_header_slot_bytes := ucast (field ''headerSlotBytes'' b), dx_max_dims := ucast (field ''maxDims'' b),
           dx_data_source_id := (if field ''dataSourceId'' b = sq_null S ''dataSourceId'' then TP_NULL_U64 else field ''dataSourceId'' b),
           dx_driver_control_stream_id := ucast (field ''driverControlStreamId'' b)\<rparr>)"

text \<open>The texts after the groups.\<close>

definition get_result_texts :: "stream_codec \<Rightarrow> tp_discovery_result \<Rightarrow> bytes \<Rightarrow> string option \<times> tp_discovery_result \<times> bytes" where
  "get_result_texts S r b =
     (case sq_get S b of
        (uri, b) \<Rightarrow>
          let r = r\<lparr>dx_header_region_uri := tp_discovery_copy_ascii 4096 uri\<rparr>
          in if dx_header_region_uri r = [] then (Some ''discovery response missing header uri'', r, b)
             else
               (case sq_get S b of
                  (name, b) \<Rightarrow>
                    (case sq_get S b of
                       (inst, b) \<Rightarrow>
                         (case sq_get S b of
                            (channel, b) \<Rightarrow>
                              let r = r\<lparr>dx_data_source_name := tp_discovery_copy_ascii 256 name, dx_driver_instance_id := tp_discovery_copy_ascii 256 inst,
                                    dx_driver_control_channel := tp_discovery_copy_ascii 1024 channel\<rparr>
                              in if dx_driver_control_stream_id r = 0 \<or> dx_driver_control_channel r = []
                                 then (Some ''discovery response missing driver control endpoint'', r, b) else (None, r, b)))))"

text \<open>The \<open>i\<close>-th result, from the block at the front of \<open>b\<close> and what follows it.\<close>

definition get_result :: "stream_codec \<Rightarrow> (result_alloc \<Rightarrow> bool) \<Rightarrow> nat \<Rightarrow> bytes \<Rightarrow> bytes \<Rightarrow> (string option \<times> tp_discovery_result \<times> bytes) res" where
  "get_result S ok i b b' =
     (let r = get_result_fields S b
      in if ucast (dx_header_slot_bytes r) \<noteq> TP_HEADER_SLOT_BYTES \<or> unat (dx_max_dims r) \<noteq> TP_MAX_DIMS
         then Inr (Some ''discovery response slot bytes/max dims mismatch'', r, b')
         else
           (case sq_wrap S ''payloadPools'' b' of
              (count, b) \<Rightarrow>
                let r = r\<lparr>dx_pool_count := unat count\<rparr>
                in if count = 0 then Inr (Some ''discovery response missing payload pools'', r, b)
                   else if \<not> ok (PoolArray i) then Inr (Some ''discovery response pool allocation failed'', r\<lparr>dx_pool_count := 0\<rparr>, b)
                   else
                     (case get_pools S (dx_header_nslots r) (unat count) (unat count) 0 b of
                        (e, ps, b) \<Rightarrow>
                          let r = r\<lparr>dx_pools := ps\<rparr>
                          in if e \<noteq> None then Inr (e, r, b)
                             else
                               (case sq_wrap S ''tags'' b of
                                  (count, b) \<Rightarrow>
                                    let r = r\<lparr>dx_tag_count := unat count\<rparr>
                                    in if count > 0 \<and> \<not> ok (TagArray i) then Inr (Some ''discovery response tag allocation failed'', r\<lparr>dx_tag_count := 0\<rparr>, b)
                                       else
                                         bind_res (get_tags S (\<lambda>t. ok (Tag i t)) (unat count) (unat count) 0 b) (\<lambda>(e, ts, b).
                                           let r = r\<lparr>dx_tags := ts\<rparr>
                                           in if e \<noteq> None then Inr (e, r, b) else Inr (get_result_texts S r b))))))"

fun get_results :: "stream_codec \<Rightarrow> (result_alloc \<Rightarrow> bool) \<Rightarrow> nat \<Rightarrow> nat \<Rightarrow> nat \<Rightarrow> bytes \<Rightarrow> (string option \<times> tp_discovery_result list) res" where
  "get_results S ok n 0 i b = Inr (None, [])"
| "get_results S ok n (Suc k) i b =
     (case sq_next S ''results'' i n b of
        None \<Rightarrow> Inr (None, replicate (Suc k) blank_result)
      | Some b' \<Rightarrow>
          bind_res (get_result S ok i b b') (\<lambda>(e, r, b).
            if e \<noteq> None then Inr (e, r # replicate k blank_result)
            else bind_res (get_results S ok n k (Suc i) b) (\<lambda>(e, rs). Inr (e, r # rs))))"

text \<open>
  What the call returns and what it leaves in \<open>out\<close>, which the callers have zeroed. A response whose status is not OK has its
  message read from where the results would be.
\<close>

definition tp_discovery_decode_response ::
  "stream_codec \<Rightarrow> (result_alloc \<Rightarrow> bool) \<Rightarrow> u64 \<Rightarrow> bytes \<Rightarrow> tp_discovery_response \<Rightarrow> (int \<times> tp_discovery_response) res" where
  "tp_discovery_decode_response S ok request_id buffer out =
     (if stream_head S ''DiscoveryResponse'' buffer \<noteq> 0 then Inr (stream_head S ''DiscoveryResponse'' buffer, out)
      else
        (let b = drop (sq_header_length S) buffer;
             id = sq_field S ''DiscoveryResponse'' ''requestId'' b;
             raw = sq_field S ''DiscoveryResponse'' ''status'' b
         in if request_id \<noteq> 0 \<and> id \<noteq> request_id then Inr (1, out)
            else
              (let out = out\<lparr>rp_request_id := id, rp_status := (if sq_enum S ''status'' raw then ucast raw else STATUS_ERROR)\<rparr>;
                   b = sq_skip S ''DiscoveryResponse'' b
               in if rp_status out \<noteq> STATUS_OK
                  then Inr (0, out\<lparr>rp_error_message := tp_discovery_copy_ascii 1024 (fst (sq_get S b))\<rparr>)
                  else
                    (case sq_wrap S ''results'' b of
                       (count, b) \<Rightarrow>
                         let out = out\<lparr>rp_result_count := unat count\<rparr>
                         in if count > 0 \<and> \<not> ok ResultArray
                            then Inr (0, out\<lparr>rp_result_count := 0, rp_status := STATUS_ERROR, rp_error_message := ''discovery response allocation failed''\<rparr>)
                            else
                              bind_res (get_results S ok (unat count) (unat count) 0 b) (\<lambda>(e, rs).
                                Inr (0, (case e of None \<Rightarrow> out\<lparr>rp_results := rs\<rparr>
                                   | Some text \<Rightarrow> out\<lparr>rp_results := rs, rp_status := STATUS_ERROR, rp_error_message := text\<rparr>)))))))"

section \<open>Writing a request\<close>

text \<open>
  The result of the offer is a parameter. \<open>context_channel\<close> is the response channel of the client's context. A failed put
  or next accessor is a plain -1.
\<close>

fun put_request_tags :: "stream_codec \<Rightarrow> nat \<Rightarrow> nat \<Rightarrow> nat \<Rightarrow> string list \<Rightarrow> bytes \<Rightarrow> bytes res" where
  "put_request_tags S cap n j [] w = Inr w"
| "put_request_tags S cap n j (tag # tags) w =
     bind_res (put_tag S FAIL cap n j tag w) (\<lambda>w. put_request_tags S cap n (Suc j) tags w)"

definition request_fields :: "stream_codec \<Rightarrow> tp_discovery_request \<Rightarrow> (string \<times> u64) list" where
  "request_fields S request =
     [(''requestId'', qr_request_id request), (''clientId'', ucast (qr_client_id request)), (''responseStreamId'', ucast (qr_response_stream_id request)),
      (''streamId'', if qr_stream_id request = TP_NULL_U32 then sq_null S ''streamId'' else ucast (qr_stream_id request)),
      (''producerId'', if qr_producer_id request = TP_NULL_U32 then sq_null S ''producerId'' else ucast (qr_producer_id request)),
      (''dataSourceId'', if qr_data_source_id request = TP_NULL_U64 then sq_null S ''dataSourceId'' else qr_data_source_id request)]"

definition encode_request :: "stream_codec \<Rightarrow> nat \<Rightarrow> string \<Rightarrow> tp_discovery_request \<Rightarrow> bytes res" where
  "encode_request S cap channel request =
     (let w = sq_put_header S ''DiscoveryRequest'' @ sq_block S ''DiscoveryRequest'' (request_fields S request)
      in bind_res (put_dimensions S cap FAIL ''tags'' (length (qr_tags request)) w) (\<lambda>w.
         bind_res (put_request_tags S cap (group_count (length (qr_tags request))) 0 (qr_tags request) w) (\<lambda>w.
         bind_res (put_text S cap FAIL channel w) (\<lambda>w.
         if qr_data_source_name request \<in> {None, Some []} then Inr w
         else put_text S cap FAIL (the (qr_data_source_name request)) w))))"

text \<open>The bytes that are offered; the return value of the offer is passed on when it is negative.\<close>

definition tp_discovery_request_send :: "stream_codec \<Rightarrow> string \<Rightarrow> tp_discovery_request \<Rightarrow> bytes res" where
  "tp_discovery_request_send S context_channel request =
     (case qr_response_channel request of
        None \<Rightarrow> Inl (EINVAL ''tp_discovery_request: response channel required'')
      | Some channel \<Rightarrow>
          guard (channel = [] \<or> qr_response_stream_id request = 0) (EINVAL ''tp_discovery_request: response channel required'')
          (guard (context_channel \<noteq> [] \<and> context_channel \<noteq> channel) (EINVAL ''tp_discovery_request: response channel mismatch'')
          (encode_request S 1024 channel request)))"

section \<open>Reading a request\<close>

datatype request_alloc = ChannelCopy | NameCopy | TagPointers | TagCopy nat

text \<open>
  A text is copied when its length is not zero. The accessor returns NULL when the text would end after the buffer, and
  the copy is then made from NULL. The channel and the name are read before the tags.
\<close>

definition get_copy :: "stream_codec \<Rightarrow> bool \<Rightarrow> string \<Rightarrow> bytes \<Rightarrow> (string option \<times> bytes) res" where
  "get_copy S ok message b =
     (case sq_get S b of
        (val, b') \<Rightarrow>
          if sq_length S b = 0 then Inr (None, b')
          else guard (\<not> ok) (ENOMEM message)
            (case val of None \<Rightarrow> Inl (UB ''copy from null'') | Some s \<Rightarrow> Inr (Some (c_string s), b')))"

fun get_request_tags :: "stream_codec \<Rightarrow> (request_alloc \<Rightarrow> bool) \<Rightarrow> nat \<Rightarrow> nat \<Rightarrow> nat \<Rightarrow> bytes \<Rightarrow> string list res" where
  "get_request_tags S ok n 0 i b = Inr []"
| "get_request_tags S ok n (Suc k) i b =
     (case sq_tag S ''tags'' i n b of
        None \<Rightarrow> Inl (EINVAL ''tp_discovery_decode_request: tags next failed'')
      | Some (len, b') \<Rightarrow>
          guard (\<not> ok (TagCopy i)) (ENOMEM ''tp_discovery_decode_request: tag alloc failed'')
          (guard (unat len > length b') (UB ''read past the fragment'')
          (bind_res (get_request_tags S ok n k (Suc i) b') (\<lambda>ts. Inr (c_string (bytes_text (take (unat len) b')) # ts)))))"

definition decode_request_body :: "stream_codec \<Rightarrow> (request_alloc \<Rightarrow> bool) \<Rightarrow> bytes \<Rightarrow> tp_discovery_request res" where
  "decode_request_body S ok b =
     (let field = (\<lambda>nm. sq_field S ''DiscoveryRequest'' nm b);
          out = tp_discovery_request_init\<lparr>qr_request_id := field ''requestId'', qr_client_id := ucast (field ''clientId''),
            qr_response_stream_id := ucast (field ''responseStreamId''), qr_stream_id := ucast (field ''streamId''),
            qr_producer_id := ucast (field ''producerId''), qr_data_source_id := field ''dataSourceId''\<rparr>
      in bind_res (get_copy S (ok ChannelCopy) ''tp_discovery_decode_request: response_channel alloc failed'' (sq_skip S ''DiscoveryRequest'' b)) (\<lambda>(channel, b).
         bind_res (get_copy S (ok NameCopy) ''tp_discovery_decode_request: data_source_name alloc failed'' b) (\<lambda>(name, b).
           case sq_wrap S ''tags'' b of
             (count, b) \<Rightarrow>
               let out = out\<lparr>qr_response_channel := channel, qr_data_source_name := name\<rparr>
               in if count = 0 then Inr out
                  else guard (\<not> ok TagPointers) (ENOMEM ''tp_discovery_decode_request: tags alloc failed'')
                    (bind_res (get_request_tags S ok (unat count) (unat count) 0 b) (\<lambda>ts. Inr (out\<lparr>qr_tags := ts\<rparr>))))))"

text \<open>\<open>Inr None\<close>: a return value other than 0 without an error.\<close>

definition tp_discovery_decode_request :: "stream_codec \<Rightarrow> (request_alloc \<Rightarrow> bool) \<Rightarrow> bytes \<Rightarrow> tp_discovery_request option res" where
  "tp_discovery_decode_request S ok buffer =
     (if stream_head S ''DiscoveryRequest'' buffer \<noteq> 0 then Inr None
      else bind_res (decode_request_body S ok (drop (sq_header_length S) buffer)) (\<lambda>request. Inr (Some request)))"

end
