(* ===== verification/Tp_Discovery_Wire.thy ===== *)
theory Tp_Discovery_Wire
  imports Tp_Discovery_Codec
begin

text \<open>
  What reaches the other side: a response that fits its buffer is read back by the client as the service
  wrote it, entry by entry, and what a client gets for a query. The requests do not fare as well: the
  service reads the fields of a request in another order than they are written.
\<close>

section \<open>The bytes of a response\<close>

definition pool_block :: "stream_codec \<Rightarrow> tp_discovery_pool_info \<Rightarrow> bytes" where
  "pool_block S p = sq_block S ''payloadPools'' [(''poolId'', ucast (pq_pool_id p)), (''poolNslots'', ucast (pq_nslots p)),
     (''strideBytes'', ucast (pq_stride_bytes p))]"

definition pool_bytes :: "stream_codec \<Rightarrow> tp_discovery_pool_info list \<Rightarrow> bytes" where
  "pool_bytes S ps = concat (map (\<lambda>p. pool_block S p @ sq_data S (pq_region_uri p)) ps)"

definition tag_bytes :: "stream_codec \<Rightarrow> string list \<Rightarrow> bytes" where
  "tag_bytes S ts = concat (map (sq_data S) ts)"

definition texts_bytes :: "stream_codec \<Rightarrow> tp_discovery_result \<Rightarrow> bytes" where
  "texts_bytes S r = sq_data S (dx_header_region_uri r) @ sq_data S (dx_data_source_name r) @ sq_data S (dx_driver_instance_id r) @
     sq_data S (dx_driver_control_channel r)"

definition body_bytes :: "stream_codec \<Rightarrow> tp_discovery_result \<Rightarrow> bytes" where
  "body_bytes S r = sq_dim S ''payloadPools'' (of_nat (dx_pool_count r)) @ pool_bytes S (dx_pools r) @
     sq_dim S ''tags'' (of_nat (dx_tag_count r)) @ tag_bytes S (map the (dx_tags r)) @ texts_bytes S r"

definition result_bytes :: "stream_codec \<Rightarrow> tp_discovery_result \<Rightarrow> bytes" where
  "result_bytes S r = sq_block S ''results'' (result_fields r) @ body_bytes S r"

definition response_bytes :: "stream_codec \<Rightarrow> tp_discovery_response \<Rightarrow> bytes" where
  "response_bytes S x = sq_put_header S ''DiscoveryResponse'' @
     sq_block S ''DiscoveryResponse'' [(''requestId'', rp_request_id x), (''status'', ucast (rp_status x))] @
     sq_dim S ''results'' (of_nat (rp_result_count x)) @ concat (map (result_bytes S) (rp_results x)) @ sq_data S (rp_error_message x)"

text \<open>The arrays of a result are whole and their counts fit in sixteen bits.\<close>

definition result_whole :: "tp_discovery_result \<Rightarrow> bool" where
  "result_whole r \<longleftrightarrow> length (dx_pools r) = dx_pool_count r \<and> length (dx_tags r) = dx_tag_count r \<and> None \<notin> set (dx_tags r) \<and>
     dx_pool_count r < 2 ^ 16 \<and> dx_tag_count r < 2 ^ 16"

definition response_whole :: "tp_discovery_response \<Rightarrow> bool" where
  "response_whole x \<longleftrightarrow> length (rp_results x) = rp_result_count x \<and> rp_result_count x < 2 ^ 16 \<and> (\<forall>r\<in>set (rp_results x). result_whole r)"

text \<open>\<open>text_ok n s\<close>: a text that survives the copy into \<open>n\<close> bytes.\<close>

definition text_ok :: "nat \<Rightarrow> string \<Rightarrow> bool" where
  "text_ok n s \<longleftrightarrow> no_nul s \<and> length s < n"

definition pool_ok :: "u32 \<Rightarrow> tp_discovery_pool_info \<Rightarrow> bool" where
  "pool_ok nslots p \<longleftrightarrow> pq_nslots p = nslots \<and> pq_region_uri p \<noteq> [] \<and> text_ok 4096 (pq_region_uri p)"

text \<open>What the client accepts in a result.\<close>

definition deliverable :: "tp_discovery_result \<Rightarrow> bool" where
  "deliverable r \<longleftrightarrow> result_whole r \<and> ucast (dx_header_slot_bytes r) = TP_HEADER_SLOT_BYTES \<and> unat (dx_max_dims r) = TP_MAX_DIMS \<and>
     dx_pools r \<noteq> [] \<and> (\<forall>p\<in>set (dx_pools r). pool_ok (dx_header_nslots r) p) \<and>
     (\<forall>t\<in>set (dx_tags r). the t \<noteq> [] \<and> no_nul (the t) \<and> length (the t) < 2 ^ 32) \<and>
     dx_header_region_uri r \<noteq> [] \<and> text_ok 4096 (dx_header_region_uri r) \<and> text_ok 256 (dx_data_source_name r) \<and>
     text_ok 256 (dx_driver_instance_id r) \<and> dx_driver_control_channel r \<noteq> [] \<and> text_ok 1024 (dx_driver_control_channel r) \<and>
     dx_driver_control_stream_id r \<noteq> 0"

definition head_of :: "tp_discovery_result \<Rightarrow> tp_discovery_result" where
  "head_of r = blank_result\<lparr>dx_stream_id := dx_stream_id r, dx_producer_id := dx_producer_id r, dx_epoch := dx_epoch r,
     dx_layout_version := dx_layout_version r, dx_header_nslots := dx_header_nslots r, dx_header_slot_bytes := dx_header_slot_bytes r,
     dx_max_dims := dx_max_dims r, dx_data_source_id := dx_data_source_id r, dx_driver_control_stream_id := dx_driver_control_stream_id r\<rparr>"

definition out_zero :: tp_discovery_response where
  "out_zero = \<lparr>rp_request_id = 0, rp_status = 0, rp_error_message = [], rp_results = [], rp_result_count = 0\<rparr>"

section \<open>The discovery messages\<close>

text \<open>What the sources rely on for the messages of the discovery schema.\<close>

locale discovery_codec = stream_laws +
  assumes fits_response: "fits ''DiscoveryResponse'' [(''requestId'', a), (''status'', ucast (b :: u8))]"
    and fits_result: "fits ''results'' (result_fields r)"
    and fits_pool: "fits ''payloadPools'' [(''poolId'', ucast (c :: u16)), (''poolNslots'', ucast (d :: u32)), (''strideBytes'', ucast (e :: u32))]"
    and status_ok: "sq_enum S ''status'' 1"
    and null_source: "sq_null S ''dataSourceId'' = TP_NULL_U64"
begin

lemma length_pool_block [simp]: "length (pool_block S p) = unat (sq_block_length S ''payloadPools'')"
  unfolding pool_block_def by (rule length_block [OF fits_pool])

lemma put_pools_fits:
  "length w + length (pool_bytes S ps) \<le> cap \<Longrightarrow> n = j + length ps \<Longrightarrow>
   put_pools S cap n (length ps) j ps w = Inr (w @ pool_bytes S ps)"
proof (induction ps arbitrary: j w)
  case Nil
  then show ?case by (simp add: pool_bytes_def)
next
  case (Cons p ps)
  let ?w = "w @ pool_block S p" and ?d = "sq_data S (pq_region_uri p)"
  have len: "length ?w + length ?d + length (pool_bytes S ps) \<le> cap" using Cons.prems(1) by (simp add: pool_bytes_def)
  have room: "sq_room S ''payloadPools'' cap n j w" using len Cons.prems(2) by (intro room) simp_all
  have put: "sq_put_data S cap (pq_region_uri p) ?w = Some (?w @ ?d)" using len by (intro put_data) simp
  have "put_pools S cap n (length ps) (Suc j) ps (?w @ ?d) = Inr ((?w @ ?d) @ pool_bytes S ps)"
    using len Cons.prems(2) by (intro Cons.IH) simp_all
  then show ?case using room put by (simp add: pool_block_def pool_bytes_def)
qed

lemma put_tag_fits:
  "length w + length (sq_data S tag) \<le> cap \<Longrightarrow> j < n \<Longrightarrow> put_tag S err cap n j tag w = Inr (w @ sq_data S tag)"
  using tag_room [of j n w cap "''tags''"] empty_data [of tag] by (simp add: put_tag_def)

lemma put_tags_fits:
  "length w + length (tag_bytes S ts) \<le> cap \<Longrightarrow> n = j + length ts \<Longrightarrow>
   put_tags S cap n (length ts) j (map Some ts) w = Inr (w @ tag_bytes S ts)"
proof (induction ts arbitrary: j w)
  case Nil
  then show ?case by (simp add: tag_bytes_def)
next
  case (Cons t ts)
  have len: "length w + length (sq_data S t) + length (tag_bytes S ts) \<le> cap" using Cons.prems(1) by (simp add: tag_bytes_def)
  have "put_tags S cap n (length ts) (Suc j) (map Some ts) (w @ sq_data S t) = Inr ((w @ sq_data S t) @ tag_bytes S ts)"
    using len Cons.prems(2) by (intro Cons.IH) simp_all
  then show ?case using len Cons.prems(2) by (simp add: put_tag_fits tag_bytes_def)
qed

lemma put_text_fits: "length w + length (sq_data S d) \<le> cap \<Longrightarrow> put_text S cap err d w = Inr (w @ sq_data S d)"
  by (simp add: put_text_def put_data)

lemma put_dimensions_fits: "length w + length (sq_dim S g (of_nat n)) \<le> cap \<Longrightarrow> put_dimensions S cap err g n w = Inr (w @ sq_dim S g (of_nat n))"
  by (simp add: put_dimensions_def put_dim)

lemma whole_tags: "result_whole r \<Longrightarrow> map Some (map the (dx_tags r)) = dx_tags r"
  unfolding result_whole_def map_map by (rule map_idI) (metis comp_apply option.collapse)

lemma put_result_fits:
  assumes "result_whole r" "length w + length (result_bytes S r) \<le> cap"
  shows "put_result S cap r w = Inr (w @ result_bytes S r)"
proof -
  let ?ts = "map the (dx_tags r)"
  let ?w1 = "w @ sq_block S ''results'' (result_fields r)"
  let ?w2 = "?w1 @ sq_dim S ''payloadPools'' (of_nat (dx_pool_count r))"
  let ?w3 = "?w2 @ pool_bytes S (dx_pools r)"
  let ?w4 = "?w3 @ sq_dim S ''tags'' (of_nat (dx_tag_count r))"
  let ?w5 = "?w4 @ tag_bytes S ?ts"
  have n: "group_count (dx_pool_count r) = dx_pool_count r" "group_count (dx_tag_count r) = dx_tag_count r"
    "length (dx_pools r) = dx_pool_count r" "length ?ts = dx_tag_count r"
    using assms(1) by (simp_all add: result_whole_def unat_of_nat_u16)
  have len: "length ?w5 + length (texts_bytes S r) \<le> cap" using assms(2) by (simp add: result_bytes_def body_bytes_def)
  have parts: "length ?w1 + length (sq_dim S ''payloadPools'' (of_nat (dx_pool_count r))) \<le> cap" "length ?w2 + length (pool_bytes S (dx_pools r)) \<le> cap"
    "length ?w3 + length (sq_dim S ''tags'' (of_nat (dx_tag_count r))) \<le> cap" "length ?w4 + length (tag_bytes S ?ts) \<le> cap"
    using len unfolding length_append by linarith+
  note g1 = put_dimensions_fits [OF parts(1)] and g2 = put_dimensions_fits [OF parts(3)]
  have p: "put_pools S cap (dx_pool_count r) (dx_pool_count r) 0 (dx_pools r) ?w2 = Inr ?w3"
    using put_pools_fits [OF parts(2), of "dx_pool_count r" 0] unfolding n(3) by simp
  have t: "put_tags S cap (dx_tag_count r) (dx_tag_count r) 0 (dx_tags r) ?w4 = Inr ?w5"
    using put_tags_fits [OF parts(4), of "dx_tag_count r" 0] unfolding n(4) whole_tags [OF assms(1)] by simp
  have "put_result S cap r w = Inr (?w5 @ texts_bytes S r)"
    using len unfolding put_result_def n g1 g2 p t bind_res_simps by (simp add: texts_bytes_def put_text_fits)
  then show ?thesis by (simp add: result_bytes_def body_bytes_def)
qed

lemma put_results_fits:
  "\<forall>r\<in>set rs. result_whole r \<Longrightarrow> length w + length (concat (map (result_bytes S) rs)) \<le> cap \<Longrightarrow> n = i + length rs \<Longrightarrow>
   put_results S cap n i rs w = Inr (w @ concat (map (result_bytes S) rs))"
proof (induction rs arbitrary: i w)
  case (Cons r rs)
  have len: "length w + length (result_bytes S r) + length (concat (map (result_bytes S) rs)) \<le> cap" using Cons.prems(2) by simp
  have "sq_room S ''results'' cap n i w"
    using len Cons.prems(3) length_block [OF fits_result, of r] by (intro room) (simp_all add: result_bytes_def)
  moreover have "put_results S cap n (Suc i) rs (w @ result_bytes S r) = Inr ((w @ result_bytes S r) @ concat (map (result_bytes S) rs))"
    using len Cons.prems by (intro Cons.IH) simp_all
  ultimately show ?case using len Cons.prems(1) by (simp add: put_result_fits)
qed simp

lemma encode_response_fits:
  assumes "response_whole x" "length (response_bytes S x) \<le> cap"
  shows "tp_discovery_encode_response S cap x = Inr (response_bytes S x)"
proof -
  have n: "group_count (rp_result_count x) = length (rp_results x)" using assms(1) by (simp add: response_whole_def unat_of_nat_u16)
  have whole: "\<forall>r\<in>set (rp_results x). result_whole r" using assms(1) by (simp add: response_whole_def)
  show ?thesis
    using assms(2) put_results_fits [OF whole, of _ cap "length (rp_results x)" 0]
    unfolding tp_discovery_encode_response_def Let_def n by (simp add: response_bytes_def put_dimensions_fits put_text_fits)
qed

section \<open>Reading a result back\<close>

lemma field_pool:
  "sq_field S ''payloadPools'' ''poolId'' (pool_block S p @ y) = ucast (pq_pool_id p)"
  "sq_field S ''payloadPools'' ''poolNslots'' (pool_block S p @ y) = ucast (pq_nslots p)"
  "sq_field S ''payloadPools'' ''strideBytes'' (pool_block S p @ y) = ucast (pq_stride_bytes p)"
  unfolding pool_block_def by (rule field_block [OF fits_pool], simp)+

lemma next_pool: "i < n \<Longrightarrow> sq_next S ''payloadPools'' i n (pool_block S p @ y) = Some y"
  unfolding pool_block_def by (rule next_block [OF fits_pool])

lemma copy_text: "text_ok n s \<Longrightarrow> tp_discovery_copy_ascii n (Some s) = s"
  by (cases n) (simp_all add: tp_discovery_copy_ascii_def text_ok_def c_string_id)

lemma get_text: "text_ok n s \<Longrightarrow> n \<le> 4096 \<Longrightarrow> sq_get S (sq_data S s @ y) = (Some s, y)"
  by (rule get_data) (simp add: text_ok_def)

lemma get_pools_written:
  "\<forall>p\<in>set ps. pool_ok nslots p \<Longrightarrow> n = i + length ps \<Longrightarrow> get_pools S nslots n (length ps) i (pool_bytes S ps @ y) = (None, ps, y)"
proof (induction ps arbitrary: i)
  case (Cons p ps)
  have p: "pq_nslots p = nslots" "pq_region_uri p \<noteq> []" "text_ok 4096 (pq_region_uri p)" using Cons.prems(1) by (auto simp: pool_ok_def)
  have "get_pools S nslots n (length ps) (Suc i) (pool_bytes S ps @ y) = (None, ps, y)" using Cons by simp
  then show ?case
    using p Cons.prems(2) by (simp add: pool_bytes_def next_pool field_pool copy_text get_text narrow_widen)
qed (simp add: pool_bytes_def)

lemma get_tags_written:
  "\<forall>t\<in>set ts. t \<noteq> [] \<and> no_nul t \<and> length t < 2 ^ 32 \<Longrightarrow> n = i + length ts \<Longrightarrow>
   get_tags S (\<lambda>t. True) n (length ts) i (tag_bytes S ts @ y) = Inr (None, map Some ts, y)"
proof (induction ts arbitrary: i)
  case (Cons t ts)
  have t: "t \<noteq> []" "no_nul t" "length t < 2 ^ 32" using Cons.prems(1) by auto
  have len: "unat (of_nat (length t) :: u32) = length t" using t(3) by (simp add: unat_of_nat)
  then have pos: "(0 :: u32) < of_nat (length t)" using t(1) by (metis length_greater_0_conv unat_0 word_less_nat_alt)
  have "get_tags S (\<lambda>t. True) n (length ts) (Suc i) (tag_bytes S ts @ y) = Inr (None, map Some ts, y)" using Cons by simp
  then show ?case
    using t len pos Cons.prems(2) tag_data [OF t(3), of i n "''tags''" "tag_bytes S ts @ y"]
    by (simp add: tag_bytes_def c_string_id)
qed (simp add: tag_bytes_def)

lemma field_result:
  "sq_field S ''results'' ''streamId'' (sq_block S ''results'' (result_fields r) @ y) = ucast (dx_stream_id r)"
  "sq_field S ''results'' ''producerId'' (sq_block S ''results'' (result_fields r) @ y) = ucast (dx_producer_id r)"
  "sq_field S ''results'' ''epoch'' (sq_block S ''results'' (result_fields r) @ y) = dx_epoch r"
  "sq_field S ''results'' ''layoutVersion'' (sq_block S ''results'' (result_fields r) @ y) = ucast (dx_layout_version r)"
  "sq_field S ''results'' ''headerNslots'' (sq_block S ''results'' (result_fields r) @ y) = ucast (dx_header_nslots r)"
  "sq_field S ''results'' ''headerSlotBytes'' (sq_block S ''results'' (result_fields r) @ y) = ucast (dx_header_slot_bytes r)"
  "sq_field S ''results'' ''maxDims'' (sq_block S ''results'' (result_fields r) @ y) = ucast (dx_max_dims r)"
  "sq_field S ''results'' ''dataSourceId'' (sq_block S ''results'' (result_fields r) @ y) = dx_data_source_id r"
  "sq_field S ''results'' ''driverControlStreamId'' (sq_block S ''results'' (result_fields r) @ y) = ucast (dx_driver_control_stream_id r)"
  by (rule field_block [OF fits_result], simp add: result_fields_def)+

lemma get_fields_written: "get_result_fields S (sq_block S ''results'' (result_fields r) @ y) = head_of r"
  by (simp add: get_result_fields_def head_of_def Let_def field_result null_source narrow_widen)

lemma next_result: "i < n \<Longrightarrow> sq_next S ''results'' i n (result_bytes S r @ y) = Some (body_bytes S r @ y)"
  unfolding result_bytes_def append_assoc by (rule next_block [OF fits_result])

lemma get_texts_written:
  assumes "deliverable r" "dx_header_region_uri x = []" "dx_driver_control_stream_id x = dx_driver_control_stream_id r"
  shows "get_result_texts S x (texts_bytes S r @ y) =
    (None, x\<lparr>dx_header_region_uri := dx_header_region_uri r, dx_data_source_name := dx_data_source_name r,
       dx_driver_instance_id := dx_driver_instance_id r, dx_driver_control_channel := dx_driver_control_channel r\<rparr>, y)"
  using assms unfolding deliverable_def
  by (simp add: get_result_texts_def texts_bytes_def get_text [where n = 4096] get_text [where n = 256] get_text [where n = 1024] copy_text)

lemma get_result_written:
  assumes "deliverable r"
  shows "get_result S (\<lambda>x. True) i (result_bytes S r @ y) (body_bytes S r @ y) = Inr (None, r, y)"
proof -
  let ?ts = "map the (dx_tags r)"
  have whole: "result_whole r" and pools: "dx_pools r \<noteq> []" "\<forall>p\<in>set (dx_pools r). pool_ok (dx_header_nslots r) p"
    and tags: "\<forall>t\<in>set ?ts. t \<noteq> [] \<and> no_nul t \<and> length t < 2 ^ 32"
    and head: "ucast (dx_header_slot_bytes r) = TP_HEADER_SLOT_BYTES" "unat (dx_max_dims r) = TP_MAX_DIMS"
    using assms by (auto simp: deliverable_def)
  have n: "unat (of_nat (dx_pool_count r) :: u16) = length (dx_pools r)" "unat (of_nat (dx_tag_count r) :: u16) = length ?ts"
    "dx_pool_count r = length (dx_pools r)" "dx_tag_count r = length (dx_tags r)"
    using whole by (simp_all add: result_whole_def unat_of_nat_u16)
  have count: "(of_nat (dx_pool_count r) :: u16) \<noteq> 0" using n(1) pools(1) by (metis length_0_conv unat_0)
  have gp: "get_pools S (dx_header_nslots r) (length (dx_pools r)) (length (dx_pools r)) 0 (pool_bytes S (dx_pools r) @ z) = (None, dx_pools r, z)" for z
    by (rule get_pools_written [OF pools(2)]) simp
  have gt: "get_tags S (\<lambda>t. True) (length (dx_tags r)) (length (dx_tags r)) 0 (tag_bytes S ?ts @ z) = Inr (None, dx_tags r, z)" for z
    using get_tags_written [OF tags, of "length (dx_tags r)" 0 z] unfolding whole_tags [OF whole] length_map by simp
  have fields: "get_result_fields S (result_bytes S r @ y) = head_of r" unfolding result_bytes_def append_assoc by (rule get_fields_written)
  have h: "dx_header_slot_bytes (head_of r) = dx_header_slot_bytes r" "dx_max_dims (head_of r) = dx_max_dims r"
    "dx_header_nslots (head_of r) = dx_header_nslots r" by (simp_all add: head_of_def)
  let ?x = "head_of r\<lparr>dx_pool_count := length (dx_pools r), dx_pools := dx_pools r, dx_tag_count := length (dx_tags r), dx_tags := dx_tags r\<rparr>"
  have texts: "get_result_texts S ?x (texts_bytes S r @ y) = (None, r, y)"
    using n by (subst get_texts_written [OF assms]) (simp_all add: head_of_def blank_result_def)
  show ?thesis
    unfolding get_result_def Let_def fields
    by (simp add: h head count body_bytes_def wrap_dim n(1,2) gp gt texts)
qed

lemma get_results_written:
  "\<forall>r\<in>set rs. deliverable r \<Longrightarrow> n = i + length rs \<Longrightarrow>
   get_results S (\<lambda>x. True) n (length rs) i (concat (map (result_bytes S) rs) @ y) = Inr (None, rs)"
proof (induction rs arbitrary: i)
  case (Cons r rs)
  have "get_results S (\<lambda>x. True) n (length rs) (Suc i) (concat (map (result_bytes S) rs) @ y) = Inr (None, rs)" using Cons by simp
  then show ?case using Cons.prems by (simp add: next_result get_result_written)
qed simp

lemma response_head:
  "stream_head S ''DiscoveryResponse'' (response_bytes S x) = 0"
  "drop (sq_header_length S) (response_bytes S x) =
   sq_block S ''DiscoveryResponse'' [(''requestId'', rp_request_id x), (''status'', ucast (rp_status x))] @
     sq_dim S ''results'' (of_nat (rp_result_count x)) @ concat (map (result_bytes S) (rp_results x)) @ sq_data S (rp_error_message x)"
  unfolding response_bytes_def by (simp_all add: head_written length_header)

lemma field_response:
  "sq_field S ''DiscoveryResponse'' ''requestId'' (sq_block S ''DiscoveryResponse'' [(''requestId'', a), (''status'', ucast (b :: u8))] @ y) = a"
  "sq_field S ''DiscoveryResponse'' ''status'' (sq_block S ''DiscoveryResponse'' [(''requestId'', a), (''status'', ucast (b :: u8))] @ y) = ucast b"
  by (rule field_block [OF fits_response], simp)+

lemma decode_response_written:
  assumes "rp_status x = STATUS_OK" "rp_result_count x = length (rp_results x)" "rp_result_count x < 2 ^ 16"
    and "get_results S ok (length (rp_results x)) (length (rp_results x)) 0
      (concat (map (result_bytes S) (rp_results x)) @ sq_data S (rp_error_message x)) = Inr (e, rs)"
    and "request_id \<in> {0, rp_request_id x}" "ok ResultArray"
  shows "tp_discovery_decode_response S ok request_id (response_bytes S x) out_zero =
    Inr (0, case e of None \<Rightarrow> \<lparr>rp_request_id = rp_request_id x, rp_status = STATUS_OK, rp_error_message = [], rp_results = rs,
               rp_result_count = length (rp_results x)\<rparr>
           | Some message \<Rightarrow> \<lparr>rp_request_id = rp_request_id x, rp_status = STATUS_ERROR, rp_error_message = message, rp_results = rs,
               rp_result_count = length (rp_results x)\<rparr>)"
proof -
  have n: "unat (of_nat (rp_result_count x) :: u16) = length (rp_results x)" using assms(2,3) by (simp add: unat_of_nat_u16)
  let ?kvs = "[(''requestId'', rp_request_id x), (''status'', 1)]"
  have status: "ucast STATUS_OK = (1 :: u64)" "(ucast (1 :: u64) :: u8) = STATUS_OK" by (simp_all add: STATUS_OK_def)
  note f = field_response [of "rp_request_id x" STATUS_OK, unfolded status(1)] skip_block [OF fits_response [of "rp_request_id x" STATUS_OK], unfolded status(1)]
  have id: "\<not> (request_id \<noteq> 0 \<and> rp_request_id x \<noteq> request_id)" using assms(5) by auto
  show ?thesis
    unfolding tp_discovery_decode_response_def Let_def response_head assms(1) status(1) f
    using assms(4,6) id by (auto simp: STATUS_OK_def status_ok wrap_dim n out_zero_def split: option.splits)
qed

text \<open>A result the client refuses ends the decoding; those before it have been read.\<close>

lemma get_results_refused:
  "\<forall>r\<in>set rs. deliverable r \<Longrightarrow> ucast (dx_header_slot_bytes x) \<noteq> TP_HEADER_SLOT_BYTES \<Longrightarrow> n = i + length rs + Suc k \<Longrightarrow>
   \<exists>out. get_results S (\<lambda>x. True) n (length rs + Suc k) i (concat (map (result_bytes S) rs) @ result_bytes S x @ y) =
     Inr (Some ''discovery response slot bytes/max dims mismatch'', out)"
proof (induction rs arbitrary: i)
  case Nil
  have fields: "get_result_fields S (result_bytes S x @ y) = head_of x"
    unfolding result_bytes_def append_assoc by (rule get_fields_written)
  have "dx_header_slot_bytes (head_of x) = dx_header_slot_bytes x" by (simp add: head_of_def)
  then show ?case using Nil by (simp add: next_result get_result_def Let_def fields)
next
  case (Cons r rs)
  then obtain out where "get_results S (\<lambda>x. True) n (length rs + Suc k) (Suc i) (concat (map (result_bytes S) rs) @ result_bytes S x @ y) =
      Inr (Some ''discovery response slot bytes/max dims mismatch'', out)" by fastforce
  then show ?case using Cons.prems by (simp add: next_result get_result_written)
qed

text \<open>A response with results that the client accepts comes back as it was.\<close>

lemma response_received:
  assumes "rp_status x = STATUS_OK" "rp_error_message x = []" "rp_result_count x = length (rp_results x)" "rp_result_count x < 2 ^ 16"
    "\<forall>r\<in>set (rp_results x). deliverable r" "length (response_bytes S x) \<le> cap" "request_id \<in> {0, rp_request_id x}"
  shows "tp_discovery_encode_response S cap x = Inr (response_bytes S x)"
    "tp_discovery_decode_response S (\<lambda>x. True) request_id (response_bytes S x) out_zero = Inr (0, x)"
proof -
  have "response_whole x" using assms(3-5) by (simp add: response_whole_def deliverable_def)
  then show "tp_discovery_encode_response S cap x = Inr (response_bytes S x)" using assms(6) by (rule encode_response_fits)
  have "get_results S (\<lambda>x. True) (length (rp_results x)) (length (rp_results x)) 0
      (concat (map (result_bytes S) (rp_results x)) @ sq_data S (rp_error_message x)) = Inr (None, rp_results x)"
    by (rule get_results_written [OF assms(5)]) simp
  from decode_response_written [OF assms(1,3,4) this assms(7)] assms(1-3)
  show "tp_discovery_decode_response S (\<lambda>x. True) request_id (response_bytes S x) out_zero = Inr (0, x)" by simp
qed

end

section \<open>What a decoded response may hold\<close>

text \<open>Every text fits the array it is in, and every count is the length of its array.\<close>

definition result_typed :: "tp_discovery_result \<Rightarrow> bool" where
  "result_typed r \<longleftrightarrow> length (dx_header_region_uri r) < 4096 \<and> length (dx_data_source_name r) < 256 \<and> length (dx_driver_instance_id r) < 256 \<and>
     length (dx_driver_control_channel r) < 1024 \<and> (dx_pools r = [] \<or> length (dx_pools r) = dx_pool_count r) \<and>
     (\<forall>p\<in>set (dx_pools r). length (pq_region_uri p) < 4096) \<and> (dx_tags r = [] \<or> length (dx_tags r) = dx_tag_count r)"

definition response_typed :: "tp_discovery_response \<Rightarrow> bool" where
  "response_typed x \<longleftrightarrow> length (rp_error_message x) < 1024 \<and> length (rp_results x) = rp_result_count x \<and> (\<forall>r\<in>set (rp_results x). result_typed r)"

lemma copy_length: "0 < n \<Longrightarrow> length (tp_discovery_copy_ascii n src) < n"
  using length_takeWhile_le [of "\<lambda>c. c \<noteq> char_of (0 :: nat)" "take (n - 1) (the src)"]
  by (auto simp: tp_discovery_copy_ascii_def c_string_def split: option.split)

lemma get_pools_typed:
  "get_pools S nslots n k i b = (e, ps, b') \<Longrightarrow> length ps = k \<and> (\<forall>p\<in>set ps. length (pq_region_uri p) < 4096)"
proof (induction k arbitrary: i b e ps b')
  case (Suc k)
  then show ?case by (auto simp: blank_pool_def Let_def copy_length split: option.splits if_splits prod.splits)
qed simp

lemma get_tags_typed: "get_tags S ok n k i b = Inr (e, ts, b') \<Longrightarrow> length ts = k"
proof (induction k arbitrary: i b e ts b')
  case (Suc k)
  then show ?case by (auto simp: res_simps split: option.splits if_splits)
qed simp

lemma blank_typed: "result_typed blank_result"
  by (simp add: result_typed_def blank_result_def)

lemma get_fields_typed: "result_typed (get_result_fields S b)" "dx_pools (get_result_fields S b) = []" "dx_tags (get_result_fields S b) = []"
  by (simp_all add: get_result_fields_def Let_def result_typed_def blank_result_def)

lemma get_texts_typed: "result_typed r \<Longrightarrow> get_result_texts S r b = (e, r', b') \<Longrightarrow> result_typed r'"
  by (auto simp: get_result_texts_def Let_def result_typed_def copy_length split: prod.splits if_splits)

text \<open>The ways a result can end: before its arrays, with its pools, with its tags, or with its texts.\<close>

lemma get_result_cases:
  assumes "get_result S ok i b b' = Inr (e, r, b'')"
  obtains (head) c m where "r = (get_result_fields S b)\<lparr>dx_pool_count := c\<rparr>" "e = Some m" "length m < 1024"
    | (pools) n b1 ps b2 where "get_pools S (dx_header_nslots (get_result_fields S b)) n n 0 b1 = (e, ps, b2)"
        "r = (get_result_fields S b)\<lparr>dx_pool_count := n, dx_pools := ps\<rparr>"
    | (counted) n b1 e1 ps b2 m where "get_pools S (dx_header_nslots (get_result_fields S b)) n n 0 b1 = (e1, ps, b2)"
        "r = (get_result_fields S b)\<lparr>dx_pool_count := n, dx_pools := ps, dx_tag_count := 0\<rparr>" "e = Some m" "length m < 1024"
    | (tags) n b1 e1 ps b2 k b3 ts b4 where "get_pools S (dx_header_nslots (get_result_fields S b)) n n 0 b1 = (e1, ps, b2)"
        "get_tags S (\<lambda>t. ok (Tag i t)) k k 0 b3 = Inr (e, ts, b4)"
        "r = (get_result_fields S b)\<lparr>dx_pool_count := n, dx_pools := ps, dx_tag_count := k, dx_tags := ts\<rparr>"
    | (texts) n b1 e1 ps b2 k b3 e2 ts b4 where "get_pools S (dx_header_nslots (get_result_fields S b)) n n 0 b1 = (e1, ps, b2)"
        "get_tags S (\<lambda>t. ok (Tag i t)) k k 0 b3 = Inr (e2, ts, b4)"
        "get_result_texts S ((get_result_fields S b)\<lparr>dx_pool_count := n, dx_pools := ps, dx_tag_count := k, dx_tags := ts\<rparr>) b4 = (e, r, b'')"
proof -
  let ?r = "get_result_fields S b"
  obtain count b1 where w1: "sq_wrap S ''payloadPools'' b' = (count, b1)" by force
  obtain e1 ps b2 where gp: "get_pools S (dx_header_nslots ?r) (unat count) (unat count) 0 b1 = (e1, ps, b2)"
    by (cases "get_pools S (dx_header_nslots ?r) (unat count) (unat count) 0 b1")
  obtain tcount b3 where w2: "sq_wrap S ''tags'' b2 = (tcount, b3)" by force
  note res = assms [unfolded get_result_def Let_def w1 prod.case gp w2]
  have same: "?r = ?r\<lparr>dx_pool_count := 0\<rparr>" by (simp add: get_result_fields_def Let_def blank_result_def)
  consider (bad) "ucast (dx_header_slot_bytes ?r) \<noteq> TP_HEADER_SLOT_BYTES \<or> unat (dx_max_dims ?r) \<noteq> TP_MAX_DIMS"
    | (empty) "\<not> (ucast (dx_header_slot_bytes ?r) \<noteq> TP_HEADER_SLOT_BYTES \<or> unat (dx_max_dims ?r) \<noteq> TP_MAX_DIMS)" "count = 0"
    | (full) "\<not> (ucast (dx_header_slot_bytes ?r) \<noteq> TP_HEADER_SLOT_BYTES \<or> unat (dx_max_dims ?r) \<noteq> TP_MAX_DIMS)" "count \<noteq> 0" by blast
  then show thesis
  proof cases
    case bad
    then have "r = ?r" "e = Some ''discovery response slot bytes/max dims mismatch''" using res by simp_all
    then show ?thesis by (intro head [of 0]) (use same in \<open>simp, simp, simp\<close>)
  next
    case empty
    then show ?thesis using res by (intro head) auto
  next
    case full
    note res = res [unfolded if_not_P [OF full(1)] if_not_P [OF full(2)]]
    show ?thesis
    proof (cases "ok (PoolArray i)")
      case False
      then show ?thesis using res by (intro head [of 0]) auto
    next
      case True
      show ?thesis
      proof (cases "e1 = None")
        case False
        then show ?thesis using res True gp by (intro pools [of "unat count" b1 ps b2]) auto
      next
        case none: True
        show ?thesis
        proof (cases "tcount > 0 \<and> \<not> ok (TagArray i)")
          case failed: True
          then show ?thesis using res True none gp w2 by (intro counted [of "unat count" b1 e1 ps b2 "''discovery response tag allocation failed''"]) auto
        next
          case False
          then obtain e2 ts b4 where gt: "get_tags S (\<lambda>t. ok (Tag i t)) (unat tcount) (unat tcount) 0 b3 = Inr (e2, ts, b4)"
            using res True none gp w2 by (auto simp: bind_res_Inr)
          show ?thesis
          proof (cases "e2 = None")
            case read: True
            then show ?thesis using res True none False gt gp w2 by (intro texts [OF gp gt]) auto
          next
            case tag_error: False
            then show ?thesis using res True none False gt gp w2 by (intro tags [OF gp, of "unat tcount" b3 ts b4]) auto
          qed
        qed
      qed
    qed
  qed
qed

lemma get_result_typed:
  assumes "get_result S ok i b b' = Inr (e, r, b'')"
  shows "result_typed r"
  using assms
proof (cases rule: get_result_cases)
  case head
  then show ?thesis using get_fields_typed [of S b] by (simp add: result_typed_def)
next
  case pools
  then show ?thesis using get_fields_typed [of S b] get_pools_typed [OF pools(1)] by (simp add: result_typed_def)
next
  case counted
  then show ?thesis using get_fields_typed [of S b] get_pools_typed [OF counted(1)] by (simp add: result_typed_def)
next
  case tags
  then show ?thesis
    using get_fields_typed [of S b] get_pools_typed [OF tags(1)] get_tags_typed [OF tags(2)] by (simp add: result_typed_def)
next
  case texts
  show ?thesis
    by (rule get_texts_typed [OF _ texts(3)])
      (use get_fields_typed [of S b] get_pools_typed [OF texts(1)] get_tags_typed [OF texts(2)] in \<open>simp add: result_typed_def\<close>)
qed

lemma get_results_typed:
  "get_results S ok n k i b = Inr (e, rs) \<Longrightarrow> length rs = k \<and> (\<forall>r\<in>set rs. result_typed r)"
proof (induction k arbitrary: i b e rs)
  case (Suc k)
  show ?case
  proof (cases "sq_next S ''results'' i n b")
    case None
    then show ?thesis using Suc.prems blank_typed by auto
  next
    case (Some b')
    then obtain e1 r b2 where r: "get_result S ok i b b' = Inr (e1, r, b2)" using Suc.prems by (auto simp: bind_res_Inr)
    show ?thesis
      using Suc.prems Suc.IH get_result_typed [OF r] blank_typed by (auto simp: Some r bind_res_Inr split: if_splits)
  qed
qed simp

lemma get_pools_message: "get_pools S nslots n k i b = (Some e, ps, b') \<Longrightarrow> length e < 1024"
proof (induction k arbitrary: i b ps b')
  case (Suc k)
  then show ?case by (auto simp: Let_def split: option.splits if_splits prod.splits)
qed simp

lemma get_tags_message: "get_tags S ok n k i b = Inr (Some e, ts, b') \<Longrightarrow> length e < 1024"
proof (induction k arbitrary: i b ts b')
  case (Suc k)
  then show ?case by (auto simp: res_simps split: option.splits if_splits)
qed simp

lemma get_texts_message: "get_result_texts S r b = (Some e, r', b') \<Longrightarrow> length e < 1024"
  by (auto simp: get_result_texts_def Let_def split: prod.splits if_splits)

lemma get_result_message:
  assumes "get_result S ok i b b' = Inr (Some e, r, b'')"
  shows "length e < 1024"
  using assms
proof (cases rule: get_result_cases)
  case pools
  then show ?thesis using get_pools_message by blast
next
  case tags
  then show ?thesis using get_tags_message by blast
next
  case texts
  then show ?thesis using get_texts_message by blast
qed simp_all

lemma get_results_message: "get_results S ok n k i b = Inr (Some e, rs) \<Longrightarrow> length e < 1024"
proof (induction k arbitrary: i b rs)
  case (Suc k)
  then show ?case by (auto simp: bind_res_Inr get_result_message split: option.splits if_splits)
qed simp

end
