(* ===== verification/Tp_Discovery_Answer.thy ===== *)
theory Tp_Discovery_Answer
  imports Tp_Discovery_Wire
begin

text \<open>
  The properties of discovery: the schema as an instance of the codec, what the index is after any run of
  messages, and what a client gets for its queries.
\<close>

section \<open>The schema\<close>

text \<open>schemas/discovery-schema.xml.\<close>

definition discovery_schema :: stream_schema where
  "discovery_schema =
     \<lparr>sy_schema_id = 910, sy_version = 1, sy_templates = [(''DiscoveryRequest'', 1), (''DiscoveryResponse'', 2)],
      sy_blocks =
        [(''DiscoveryRequest'', [(''requestId'', 8), (''clientId'', 4), (''responseStreamId'', 4), (''streamId'', 4), (''producerId'', 4), (''dataSourceId'', 8)]),
         (''tags'', [(''tag'', 4)]),
         (''DiscoveryResponse'', [(''requestId'', 8), (''status'', 1)]),
         (''results'', [(''streamId'', 4), (''producerId'', 4), (''epoch'', 8), (''layoutVersion'', 4), (''headerNslots'', 4), (''headerSlotBytes'', 2),
            (''maxDims'', 1), (''dataSourceId'', 8), (''driverControlStreamId'', 4)]),
         (''payloadPools'', [(''poolId'', 2), (''poolNslots'', 4), (''strideBytes'', 4)])],
      sy_enums = [(''status'', [1, 2, 3, 255])],
      sy_nulls = [(''streamId'', 0xFFFFFFFF), (''producerId'', 0xFFFFFFFF), (''dataSourceId'', 0xFFFFFFFFFFFFFFFF)]\<rparr>"

abbreviation "discovery_stream \<equiv> le_stream discovery_schema"

lemma discovery_fields:
  "fields_of discovery_schema ''DiscoveryRequest'' = [(''requestId'', 8), (''clientId'', 4), (''responseStreamId'', 4), (''streamId'', 4),
     (''producerId'', 4), (''dataSourceId'', 8)]"
  "fields_of discovery_schema ''tags'' = [(''tag'', 4)]"
  "fields_of discovery_schema ''DiscoveryResponse'' = [(''requestId'', 8), (''status'', 1)]"
  "fields_of discovery_schema ''results'' = [(''streamId'', 4), (''producerId'', 4), (''epoch'', 8), (''layoutVersion'', 4), (''headerNslots'', 4),
     (''headerSlotBytes'', 2), (''maxDims'', 1), (''dataSourceId'', 8), (''driverControlStreamId'', 4)]"
  "fields_of discovery_schema ''payloadPools'' = [(''poolId'', 2), (''poolNslots'', 4), (''strideBytes'', 4)]"
  by (simp_all add: fields_of_def discovery_schema_def lookup_or_def)

lemma unat_narrow_bounds:
  "unat (ucast (a :: u8) :: u64) < 256" "unat (ucast (b :: u16) :: u64) < 65536" "unat (ucast (c :: u32) :: u64) < 4294967296"
  by simp_all

interpretation discovery: discovery_codec discovery_stream "le_fits discovery_schema"
proof (unfold discovery_codec_def discovery_codec_axioms_def, intro conjI allI)
  show "stream_laws discovery_stream (le_fits discovery_schema)"
    by (rule stream_laws_le) (simp add: schema_ok_def discovery_schema_def block_width_def)
  show "le_fits discovery_schema ''DiscoveryResponse'' [(''requestId'', a), (''status'', ucast b)]" for a and b :: u8
    by (simp add: le_fits_def discovery_fields)
  show "le_fits discovery_schema ''results'' (result_fields r)" for r
    by (simp add: le_fits_def discovery_fields result_fields_def)
  show "le_fits discovery_schema ''payloadPools'' [(''poolId'', ucast c), (''poolNslots'', ucast d), (''strideBytes'', ucast e)]"
    for c :: u16 and d e :: u32
    by (simp add: le_fits_def discovery_fields)
  show "sq_enum discovery_stream ''status'' 1" "sq_null discovery_stream ''dataSourceId'' = TP_NULL_U64"
    by (simp_all add: le_stream_def discovery_schema_def lookup_or_def TP_NULL_U64_def)
qed

section \<open>Queries of a run\<close>

lemma query_eq:
  assumes "index_ok s" "whole s" "\<And>x. ok x" "live = filter (answers now (tp_discovery_expiry_ns s) request)
      (filter (\<lambda>e. \<not> entry_expired prune_now (tp_discovery_expiry_ns s) e) (dn_entries s))"
  shows "fst (tp_discovery_service_query ok prune_now now request s) =
    Inr (if length live > unat (dg_max_results (dn_config s))
         then (empty_response (qr_request_id request))\<lparr>rp_status := STATUS_ERROR, rp_error_message := ''result limit exceeded''\<rparr>
         else (empty_response (qr_request_id request))\<lparr>rp_results := map (shown (dn_config s)) live, rp_result_count := length live\<rparr>)"
proof -
  let ?s = "tp_discovery_prune_expired prune_now s"
  have whole: "\<forall>e\<in>set (dn_entries ?s). length (de_pools e) = de_pool_count e" using assms(2) by (auto simp: pruned whole_def)
  have count: "match_count now (tp_discovery_expiry_ns ?s) request (dn_entries ?s) = length live"
    using assms(4) by (simp add: match_count_eq pruned)
  have fill: "fill_loop ok now (tp_discovery_expiry_ns ?s) request ?s 0 (dn_entries ?s) = Inr (map (shown (dn_config s)) live)"
    using fill_loop_shown [of ok "dn_entries ?s" now "tp_discovery_expiry_ns ?s" request ?s 0, OF assms(3) whole] assms(4) by (simp add: pruned)
  show ?thesis
    using assms(3) count fill by (auto simp: tp_discovery_service_query_def Let_def empty_response_def pruned)
qed

lemma distinct_answers: "index_ok s \<Longrightarrow> distinct (map de_stream_id (filter p (filter q (dn_entries s))))"
  by (simp add: index_ok_def distinct_map_filter)

lemma unfiltered: "request_admits (tp_discovery_request_init\<lparr>qr_request_id := rid, qr_client_id := c, qr_response_channel := ch, qr_response_stream_id := st\<rparr>) e"
  by (simp add: request_admits_def tp_discovery_request_init_def)

section \<open>A run at concrete values\<close>

definition discovery_sample_config :: tp_discovery_service_config where
  "discovery_sample_config = \<lparr>dg_driver_instance_id = ''driver'', dg_driver_control_channel = ''aeron:ipc'', dg_driver_control_stream_id = 1000,
     dg_announce_period_ms = 100, dg_max_results = 10\<rparr>"

definition discovery_sample_env :: discovery_env where
  "discovery_sample_env = \<lparr>dl_entry_ok = True, dl_array_ok = True, dl_tag_ok = (\<lambda>i. True), dl_now = 1000\<rparr>"

definition discovery_sample_announce :: tp_shm_pool_announce where
  "discovery_sample_announce = \<lparr>pa_stream_id = 5, pa_producer_id = 6, pa_epoch = 1, pa_layout_version = 1, pa_header_nslots = 8, pa_header_slot_bytes = 256,
     pa_header_region_uri = Some ''shm:file?path=/h'',
     pa_pools = [\<lparr>pb_pool_id = 1, pb_pool_nslots = 8, pb_stride_bytes = 64, pb_region_uri = Some ''shm:file?path=/p''\<rparr>]\<rparr>"

definition discovery_sample_run :: "discovery_event list" where
  "discovery_sample_run = [Announced discovery_sample_env discovery_sample_announce, Tagged discovery_sample_env 5 [Some ''lab'']]"

definition discovery_sample_state :: tp_discovery_service where
  "discovery_sample_state = fold discovery_step discovery_sample_run (tp_discovery_service_init discovery_sample_config)"

definition discovery_sample_entry :: tp_discovery_entry where
  "discovery_sample_entry = \<lparr>de_stream_id = 5, de_producer_id = 6, de_epoch = 1, de_layout_version = 1, de_header_nslots = 8, de_header_slot_bytes = 256,
     de_max_dims = 8, de_data_source_id = TP_NULL_U64, de_header_region_uri = ''shm:file?path=/h'', de_data_source_name = [], de_tags = [''lab''],
     de_pools = [\<lparr>dp_pool_id = 1, dp_pool_nslots = 8, dp_stride_bytes = 64, dp_region_uri = ''shm:file?path=/p''\<rparr>], de_pool_count = 1,
     de_last_announce_ns = 1000\<rparr>"

lemma copied_short: "length s < n \<Longrightarrow> copied n s = s"
  by (simp add: copied_def)

lemma discovery_sample_reserved:
  "tp_discovery_entry_reserve True 5 (tp_discovery_service_init discovery_sample_config) =
     (Inr 0, \<lparr>dn_config = discovery_sample_config, dn_entries = [fresh_entry 5], dn_publications = [], dn_sent = []\<rparr>)"
  "tp_discovery_entry_reserve True 5 \<lparr>dn_config = discovery_sample_config, dn_entries = [discovery_sample_entry\<lparr>de_tags := ts\<rparr>], dn_publications = [], dn_sent = []\<rparr> =
     (Inr 0, \<lparr>dn_config = discovery_sample_config, dn_entries = [discovery_sample_entry\<lparr>de_tags := ts\<rparr>], dn_publications = [], dn_sent = []\<rparr>)"
  by (simp_all add: tp_discovery_entry_reserve_def tp_discovery_find_entry_def tp_discovery_service_init_def) (simp_all add: discovery_sample_entry_def)

lemma discovery_sample_fields:
  "pa_stream_id discovery_sample_announce = 5" "pa_header_slot_bytes discovery_sample_announce = 256" "pa_pools discovery_sample_announce \<noteq> []" "length (pa_pools discovery_sample_announce) = 1"
  "pa_header_nslots discovery_sample_announce = 8" "dl_entry_ok discovery_sample_env" "dl_array_ok discovery_sample_env" "dl_tag_ok discovery_sample_env i" "dl_now discovery_sample_env = 1000"
  by (simp_all add: discovery_sample_announce_def discovery_sample_env_def)

lemma discovery_sample_pools: "copy_pools 8 (pa_pools discovery_sample_announce) = Some (de_pools discovery_sample_entry)"
  by (simp add: discovery_sample_announce_def discovery_sample_entry_def copied_short)

lemma discovery_sample_header: "(announced_entry discovery_sample_announce (fresh_entry 5))\<lparr>de_pool_count := 1, de_pools := de_pools discovery_sample_entry, de_last_announce_ns := 1000\<rparr> =
    discovery_sample_entry\<lparr>de_tags := []\<rparr>"
  by (simp add: announced_entry_def tp_discovery_entry_clear_def fresh_entry_def discovery_sample_announce_def discovery_sample_entry_def copied_short TP_MAX_DIMS_def)

lemma discovery_sample_announced: "snd (tp_discovery_service_apply_announce discovery_sample_env discovery_sample_announce (tp_discovery_service_init discovery_sample_config)) =
    \<lparr>dn_config = discovery_sample_config, dn_entries = [discovery_sample_entry\<lparr>de_tags := []\<rparr>], dn_publications = [], dn_sent = []\<rparr>"
proof -
  have fresh: "de_epoch (fresh_entry 5) = 0" by (simp add: fresh_entry_def)
  show ?thesis
    using discovery_sample_header
    by (simp add: tp_discovery_service_apply_announce_def discovery_sample_fields discovery_sample_reserved discovery_sample_pools fresh TP_HEADER_SLOT_BYTES_def put_entry_def)
qed

lemma discovery_sample_tagged: "snd (tp_discovery_service_set_tags discovery_sample_env 5 [Some ''lab'']
      \<lparr>dn_config = discovery_sample_config, dn_entries = [discovery_sample_entry\<lparr>de_tags := []\<rparr>], dn_publications = [], dn_sent = []\<rparr>) =
    \<lparr>dn_config = discovery_sample_config, dn_entries = [discovery_sample_entry], dn_publications = [], dn_sent = []\<rparr>"
  by (simp add: tp_discovery_service_set_tags_def discovery_sample_fields discovery_sample_reserved put_entry_def Let_def) (simp add: discovery_sample_entry_def)

lemma discovery_sample_state_eq: "discovery_sample_state = \<lparr>dn_config = discovery_sample_config, dn_entries = [discovery_sample_entry], dn_publications = [], dn_sent = []\<rparr>"
  by (simp add: discovery_sample_state_def discovery_sample_run_def discovery_sample_announced discovery_sample_tagged)

definition discovery_sample_response :: tp_discovery_response where
  "discovery_sample_response = (empty_response 0)\<lparr>rp_results := [shown discovery_sample_config discovery_sample_entry], rp_result_count := 1\<rparr>"

lemma char_of_nul: "char_of (0 :: nat) = CHR 0x00"
  by (simp add: char_of_def)

lemma discovery_sample_deliverable: "deliverable (shown discovery_sample_config discovery_sample_entry)"
  by (simp add: deliverable_def shown_def result_whole_def discovery_sample_config_def discovery_sample_entry_def copied_short text_ok_def pool_ok_def no_nul_def char_of_nul
      TP_HEADER_SLOT_BYTES_def TP_MAX_DIMS_def)

lemma discovery_sample_live: "filter (answers 2000 (tp_discovery_expiry_ns discovery_sample_state) tp_discovery_request_init)
      (filter (\<lambda>e. \<not> entry_expired 2000 (tp_discovery_expiry_ns discovery_sample_state) e) (dn_entries discovery_sample_state)) = [discovery_sample_entry]"
proof -
  have "tp_discovery_expiry_ns discovery_sample_state = 300000000" by (simp add: discovery_sample_state_eq tp_discovery_expiry_ns_def discovery_sample_config_def)
  then show ?thesis
    by (simp add: discovery_sample_state_eq answers_def entry_visible_def entry_expired_def request_admits_def tp_discovery_request_init_def discovery_sample_entry_def)
qed

lemma discovery_sample_config_eq: "dn_config discovery_sample_state = discovery_sample_config" "unat (dg_max_results discovery_sample_config) = 10"
  by (simp_all add: discovery_sample_state_eq discovery_sample_config_def)

lemma discovery_sample_response_eq:
  "(empty_response (qr_request_id tp_discovery_request_init))\<lparr>rp_results := map (shown discovery_sample_config) [discovery_sample_entry], rp_result_count := length [discovery_sample_entry]\<rparr> =
    discovery_sample_response"
  by (simp add: discovery_sample_response_def tp_discovery_request_init_def)

lemma discovery_sample_kept: "discovery_sample_state\<lparr>dn_entries := filter (\<lambda>e. \<not> entry_expired 2000 (tp_discovery_expiry_ns discovery_sample_state) e) (dn_entries discovery_sample_state)\<rparr> =
    discovery_sample_state"
proof -
  have "tp_discovery_expiry_ns discovery_sample_state = 300000000" by (simp add: discovery_sample_state_eq tp_discovery_expiry_ns_def discovery_sample_config_def)
  then show ?thesis by (simp add: discovery_sample_state_eq entry_expired_def) (simp add: discovery_sample_entry_def)
qed

lemma discovery_sample_clean: "\<forall>ev\<in>set discovery_sample_run. clean_event ev" "\<forall>ev\<in>set discovery_sample_run. allocations_ok ev"
  by (simp_all add: discovery_sample_run_def env_ok_def discovery_sample_env_def discovery_sample_announce_def announce_accepted_def pools_match_def)

lemma discovery_sample_fits: "length (response_bytes discovery_stream discovery_sample_response) \<le> 4096"
  by (simp add: response_bytes_def result_bytes_def body_bytes_def pool_bytes_def pool_block_def tag_bytes_def texts_bytes_def discovery_sample_response_def
      empty_response_def le_stream_def length_block_bytes discovery_fields block_width_def shown_def discovery_sample_entry_def discovery_sample_config_def copied_short)

section \<open>Properties\<close>

text \<open>
  C27: the index of the discovery service is well formed after any run of announcements, data sources, tags,
  expiries and queries, whatever allocations fail: every stream has one entry, with an id that is not zero; the
  pools of an entry are all there, or none after a failed allocation, and have the slot count of its header.
\<close>

theorem index_run_ok:
  "distinct (map de_stream_id (dn_entries (fold discovery_step evs (tp_discovery_service_init config)))) \<and>
   (\<forall>e\<in>set (dn_entries (fold discovery_step evs (tp_discovery_service_init config))).
      de_stream_id e \<noteq> 0 \<and> (de_pools e = [] \<or> length (de_pools e) = de_pool_count e) \<and>
      (\<forall>p\<in>set (de_pools e). dp_pool_nslots p = de_header_nslots e))"
  using discovery_run_invariant [OF init_index_ok] by (auto simp: index_ok_def stream_entry_ok_def)

corollary index_run_ok_witness:
  "\<exists>e. dn_entries (fold discovery_step discovery_sample_run (tp_discovery_service_init discovery_sample_config)) = [e] \<and>
     de_stream_id e \<noteq> 0 \<and> map dp_pool_nslots (de_pools e) = replicate (de_pool_count e) (de_header_nslots e)"
  using index_run_ok [of discovery_sample_run discovery_sample_config]
  by (simp add: discovery_sample_state_eq [unfolded discovery_sample_state_def] discovery_sample_entry_def)





text \<open>
  C6: an answer arrives as it was given. When every entry of an answer has what the client insists on (pools, texts that fit,
  the endpoint of the driver) and the whole answer fits the buffer, the client decodes the bytes that the
  service encoded to the response of the query, field by field.
\<close>

theorem answer_received:
  assumes "discovery_codec S fits" "\<forall>ev\<in>set evs. allocations_ok ev" "s = fold discovery_step evs (tp_discovery_service_init config)"
    "live = filter (answers now (tp_discovery_expiry_ns s) request)
      (filter (\<lambda>e. \<not> entry_expired prune_now (tp_discovery_expiry_ns s) e) (dn_entries s))"
    "\<forall>e\<in>set live. deliverable (shown (dn_config s) e)" "length live \<le> unat (dg_max_results (dn_config s))" "length live < 2 ^ 16"
    "response = (empty_response (qr_request_id request))\<lparr>rp_results := map (shown (dn_config s)) live, rp_result_count := length live\<rparr>"
    "length (response_bytes S response) \<le> 4096"
  shows "fst (tp_discovery_service_query (\<lambda>x. True) prune_now now request s) = Inr response \<and>
    (\<exists>buffer. tp_discovery_encode_response S 4096 response = Inr buffer \<and>
       tp_discovery_decode_response S (\<lambda>x. True) (qr_request_id request) buffer out_zero = Inr (0, response))"
proof -
  have ok: "index_ok s" unfolding assms(3) by (rule discovery_run_invariant [OF init_index_ok])
  have whole: "whole s"
    unfolding assms(3) by (rule run_whole [OF init_index_ok _ assms(2)]) (simp add: whole_def tp_discovery_service_init_def)
  have query: "fst (tp_discovery_service_query (\<lambda>x. True) prune_now now request s) = Inr response"
    using query_eq [OF ok whole _ assms(4)] assms(6,8) by simp
  have x: "rp_status response = STATUS_OK" "rp_error_message response = []" "rp_result_count response = length (rp_results response)"
    "rp_result_count response < 2 ^ 16" "\<forall>r\<in>set (rp_results response). deliverable r" "qr_request_id request \<in> {0, rp_request_id response}"
    using assms(5,7,8) by (simp_all add: empty_response_def)
  from discovery_codec.response_received [OF assms(1) x(1-5) assms(9) x(6)] query show ?thesis by blast
qed

corollary answer_received_witness:
  "\<exists>buffer. tp_discovery_encode_response discovery_stream 4096 discovery_sample_response = Inr buffer \<and>
     tp_discovery_decode_response discovery_stream (\<lambda>x. True) 0 buffer out_zero = Inr (0, discovery_sample_response)"
proof -
  have "\<forall>e\<in>set [discovery_sample_entry]. deliverable (shown (dn_config discovery_sample_state) e)" by (simp add: discovery_sample_config_eq discovery_sample_deliverable)
  from answer_received [OF discovery.discovery_codec_axioms discovery_sample_clean(2) discovery_sample_state_def discovery_sample_live [symmetric] this, of discovery_sample_response]
  show ?thesis unfolding discovery_sample_config_eq discovery_sample_response_eq using discovery_sample_fits by (simp add: tp_discovery_request_init_def)
qed

text \<open>
  C28: whatever bytes arrive, a decoded response is within its types: every text is shorter than the array that
  holds it, the results are as many as their count says, and so are the pools and the tags of a result.
\<close>

theorem decoded_response_typed:
  assumes "tp_discovery_decode_response S ok request_id buffer out_zero = Inr (0, out)"
  shows "response_typed out"
proof (cases "stream_head S ''DiscoveryResponse'' buffer = 0")
  case False
  then show ?thesis using assms by (auto simp: tp_discovery_decode_response_def)
next
  case True
  obtain count b where wrap: "sq_wrap S ''results'' (sq_skip S ''DiscoveryResponse'' (drop (sq_header_length S) buffer)) = (count, b)" by force
  have zero: "response_typed (out_zero\<lparr>rp_request_id := i, rp_status := st\<rparr>)"
    "length m < 1024 \<Longrightarrow> response_typed (out_zero\<lparr>rp_request_id := i, rp_status := st, rp_error_message := m\<rparr>)"
    "length m < 1024 \<Longrightarrow> response_typed (out_zero\<lparr>rp_request_id := i, rp_result_count := 0, rp_status := st, rp_error_message := m\<rparr>)" for i st m
    by (simp_all add: response_typed_def out_zero_def)
  have read: "response_typed (out_zero\<lparr>rp_request_id := i, rp_status := st, rp_result_count := unat count, rp_results := rs\<rparr>)"
    "e = Some m \<Longrightarrow> response_typed (out_zero\<lparr>rp_request_id := i, rp_result_count := unat count, rp_results := rs, rp_status := st, rp_error_message := m\<rparr>)"
    if "get_results S ok (unat count) (unat count) 0 b = Inr (e, rs)" for e rs i st m
    using get_results_typed [OF that] get_results_message [of S ok "unat count" "unat count" 0 b m rs] that
    by (auto simp: response_typed_def out_zero_def)
  show ?thesis
    using assms True wrap zero read copy_length [of 1024]
    by (auto simp: tp_discovery_decode_response_def Let_def bind_res_Inr split: if_splits option.splits prod.splits)
qed

corollary decoded_response_typed_witness: "response_typed discovery_sample_response"
  by (rule decoded_response_typed [OF discovery.response_received(2) [of discovery_sample_response 4096 0]])
    (use discovery_sample_deliverable discovery_sample_fits in \<open>simp_all add: discovery_sample_response_def empty_response_def\<close>)

end
