(* ===== verification/Tp_Discovery_Service.thy ===== *)
theory Tp_Discovery_Service
  imports Tp_Discovery_Answer
begin

text \<open>
  The handlers around the index: what the service does with the fragments it polls
  (src/discovery/tp_discovery_service.c), and how the client waits for its answer (src/client/tp_discovery_client.c).
  The lemmas say what is sent for a request and where, what fragments leave in the index, and when a
  client stops waiting.
\<close>

section \<open>Publications\<close>

text \<open>\<open>pn_alloc_ok\<close>: the array can grow; \<open>pn_add_ok\<close>: the publication can be added.\<close>

record publication_env =
  pn_alloc_ok :: bool
  pn_add_ok :: bool

definition tp_discovery_get_publication ::
  "publication_env \<Rightarrow> string \<Rightarrow> u32 \<Rightarrow> tp_discovery_service \<Rightarrow> nat option \<times> tp_discovery_service" where
  "tp_discovery_get_publication env channel stream_id s =
     (case find_index (\<lambda>p. dq_stream_id p = stream_id \<and> dq_channel p = channel) (dn_publications s) of
        Some i \<Rightarrow> (Some i, s)
      | None \<Rightarrow>
          if \<not> pn_alloc_ok env then (None, s)
          else if \<not> pn_add_ok env then (None, s)
          else (Some (length (dn_publications s)),
                s\<lparr>dn_publications := dn_publications s @
                   [\<lparr>dq_channel = copied 1024 channel, dq_stream_id = stream_id, dq_handle = (channel, stream_id)\<rparr>]\<rparr>))"

text \<open>The result of an offer is not used.\<close>

definition offer_to :: "nat \<Rightarrow> bytes \<Rightarrow> tp_discovery_service \<Rightarrow> tp_discovery_service" where
  "offer_to i buffer s = s\<lparr>dn_sent := dn_sent s @ [(dq_handle (dn_publications s ! i), buffer)]\<rparr>"

section \<open>Requests\<close>

text \<open>An error that the caller only sees as a return value; what is undefined stays so.\<close>

definition or_else :: "'a res \<Rightarrow> 'b \<Rightarrow> ('a \<Rightarrow> 'b res) \<Rightarrow> 'b res" where
  "or_else r s f = (case r of Inr x \<Rightarrow> f x | Inl (UB m) \<Rightarrow> Inl (UB m) | Inl _ \<Rightarrow> Inr s)"

definition send_encoded ::
  "stream_codec \<Rightarrow> publication_env \<Rightarrow> nat \<Rightarrow> tp_discovery_request \<Rightarrow> tp_discovery_response \<Rightarrow> tp_discovery_service \<Rightarrow> tp_discovery_service res" where
  "send_encoded S env cap request response s =
     or_else (tp_discovery_encode_response S cap response) s (\<lambda>buffer.
       case tp_discovery_get_publication env (the (qr_response_channel request)) (qr_response_stream_id request) s of
         (None, s) \<Rightarrow> Inr s
       | (Some i, s) \<Rightarrow> Inr (offer_to i buffer s))"

definition tp_discovery_send_error ::
  "stream_codec \<Rightarrow> publication_env \<Rightarrow> tp_discovery_request \<Rightarrow> string \<Rightarrow> tp_discovery_service \<Rightarrow> tp_discovery_service res" where
  "tp_discovery_send_error S env request message s =
     (if qr_response_channel request \<in> {None, Some []} then Inr s
      else if qr_response_stream_id request = 0 then Inr s
      else send_encoded S env 1024 request
             ((empty_response (qr_request_id request))\<lparr>rp_status := STATUS_ERROR, rp_error_message := copied 1024 message\<rparr>) s)"

text \<open>
  What a request meets: the allocations of the decoder and of the query, the clock for the pruning and for
  the search, the publication, and the text of the last error.
\<close>

record request_env =
  qe_decode_ok :: "request_alloc \<Rightarrow> bool"
  qe_query_ok :: "result_alloc \<Rightarrow> bool"
  qe_prune_now :: u64
  qe_now :: u64
  qe_publication :: publication_env
  qe_errmsg :: string

definition tp_discovery_handle_request :: "stream_codec \<Rightarrow> request_env \<Rightarrow> bytes \<Rightarrow> tp_discovery_service \<Rightarrow> tp_discovery_service res" where
  "tp_discovery_handle_request S env buffer s =
     or_else (tp_discovery_decode_request S (qe_decode_ok env) buffer) s (\<lambda>decoded.
       case decoded of
         None \<Rightarrow> Inr s
       | Some request \<Rightarrow>
           if qr_response_channel request \<in> {None, Some []} then Inr s
           else if qr_response_stream_id request = 0
           then tp_discovery_send_error S (qe_publication env) request ''response_stream_id must be non-zero'' s
           else
             (case tp_discovery_service_query (qe_query_ok env) (qe_prune_now env) (qe_now env) request s of
                (Inl (UB m), s) \<Rightarrow> Inl (UB m)
              | (Inl e, s) \<Rightarrow> tp_discovery_send_error S (qe_publication env) request (qe_errmsg env) s
              | (Inr response, s) \<Rightarrow> send_encoded S (qe_publication env) 4096 request response s))"

definition tp_discovery_on_request_fragment :: "stream_codec \<Rightarrow> request_env \<Rightarrow> bytes \<Rightarrow> tp_discovery_service \<Rightarrow> tp_discovery_service res" where
  "tp_discovery_on_request_fragment S env buffer s =
     (if length buffer < sq_header_length S then Inr s
      else
        (case sq_get_header S buffer of
           (template_id, schema_id, block_length, version) \<Rightarrow>
             if schema_id \<noteq> sq_schema_id S then Inr s else tp_discovery_handle_request S env buffer s))"

section \<open>Announcements and data sources\<close>

text \<open>
  The accessors of texts return pointers into the fragment, and the handlers pass them on as C strings: a text ends at
  the first NUL after it, whatever stands between. \<open>behind\<close> is the memory behind the fragment.
\<close>

definition pointed_text :: "bytes \<Rightarrow> string option \<times> bytes \<Rightarrow> string option" where
  "pointed_text behind r = (case r of (None, b) \<Rightarrow> None | (Some d, b) \<Rightarrow> Some (c_string (d @ bytes_text (b @ behind))))"

fun announced_pools :: "stream_codec \<Rightarrow> bytes \<Rightarrow> nat \<Rightarrow> nat \<Rightarrow> nat \<Rightarrow> bytes \<Rightarrow> tp_shm_pool_announce_pool list" where
  "announced_pools S behind n 0 i b = []"
| "announced_pools S behind n (Suc k) i b =
     (case sq_next S ''payloadPools'' i n b of
        None \<Rightarrow> replicate (Suc k) \<lparr>pb_pool_id = 0, pb_pool_nslots = 0, pb_stride_bytes = 0, pb_region_uri = None\<rparr>
      | Some b' \<Rightarrow>
          \<lparr>pb_pool_id = ucast (sq_field S ''payloadPools'' ''poolId'' b), pb_pool_nslots = ucast (sq_field S ''payloadPools'' ''poolNslots'' b),
            pb_stride_bytes = ucast (sq_field S ''payloadPools'' ''strideBytes'' b), pb_region_uri = pointed_text behind (sq_get S b')\<rparr> #
          announced_pools S behind n k (Suc i) (snd (sq_get S b')))"

text \<open>The text of the header region is read before the group of the pools.\<close>

definition tp_discovery_on_announce_fragment ::
  "stream_codec \<Rightarrow> bool \<Rightarrow> discovery_env \<Rightarrow> bytes \<Rightarrow> bytes \<Rightarrow> tp_discovery_service \<Rightarrow> tp_discovery_service" where
  "tp_discovery_on_announce_fragment S alloc_ok env behind buffer s =
     (if stream_head S ''ShmPoolAnnounce'' buffer \<noteq> 0 then s
      else
        let b = drop (sq_header_length S) buffer;
            field = (\<lambda>nm. sq_field S ''ShmPoolAnnounce'' nm b);
            uri = sq_get S (sq_skip S ''ShmPoolAnnounce'' b)
        in case sq_wrap S ''payloadPools'' (snd uri) of
             (count, b) \<Rightarrow>
               if count > 0 \<and> \<not> alloc_ok then s
               else snd (tp_discovery_service_apply_announce env
                      \<lparr>pa_stream_id = ucast (field ''streamId''), pa_producer_id = ucast (field ''producerId''), pa_epoch = field ''epoch'',
                        pa_layout_version = ucast (field ''layoutVersion''), pa_header_nslots = ucast (field ''headerNslots''),
                        pa_header_slot_bytes = ucast (field ''headerSlotBytes''), pa_header_region_uri = pointed_text behind uri,
                        pa_pools = announced_pools S behind (unat count) (unat count) 0 b\<rparr> s))"

definition tp_discovery_on_metadata_fragment ::
  "stream_codec \<Rightarrow> discovery_env \<Rightarrow> bytes \<Rightarrow> bytes \<Rightarrow> tp_discovery_service \<Rightarrow> tp_discovery_service" where
  "tp_discovery_on_metadata_fragment S env behind buffer s =
     (if stream_head S ''DataSourceAnnounce'' buffer \<noteq> 0 then s
      else
        let b = drop (sq_header_length S) buffer;
            field = (\<lambda>nm. sq_field S ''DataSourceAnnounce'' nm b)
        in snd (tp_discovery_service_apply_data_source env
             \<lparr>dw_stream_id = ucast (field ''streamId''), dw_producer_id = ucast (field ''producerId''), dw_epoch = field ''epoch'',
               dw_name = pointed_text behind (sq_get S (sq_skip S ''DataSourceAnnounce'' b))\<rparr> s))"

text \<open>
  A cycle of the service: the fragments of its subscriptions, announcements first, and what is expired. Every fragment comes with
  what its handler meets.
\<close>

definition tp_discovery_service_do_work ::
  "stream_codec \<Rightarrow> stream_codec \<Rightarrow> (bool \<times> discovery_env \<times> bytes \<times> bytes) list \<Rightarrow> (discovery_env \<times> bytes \<times> bytes) list \<Rightarrow>
    (request_env \<times> bytes) list \<Rightarrow> u64 \<Rightarrow> tp_discovery_service \<Rightarrow> tp_discovery_service res" where
  "tp_discovery_service_do_work W S announces metadata requests prune_now s =
     (let s = fold (\<lambda>(alloc_ok, env, behind, buffer). tp_discovery_on_announce_fragment W alloc_ok env behind buffer) announces s;
          s = fold (\<lambda>(env, behind, buffer). tp_discovery_on_metadata_fragment W env behind buffer) metadata s
      in bind_res (fold (\<lambda>(env, buffer) r. bind_res r (tp_discovery_on_request_fragment S env buffer)) requests (Inr s)) (\<lambda>s.
         Inr (tp_discovery_prune_expired prune_now s)))"

text \<open>What closing leaves.\<close>

definition tp_discovery_service_close :: "tp_discovery_service \<Rightarrow> tp_discovery_service" where
  "tp_discovery_service_close s = s\<lparr>dn_publications := [], dn_entries := [],
     dn_config := \<lparr>dg_driver_instance_id = [], dg_driver_control_channel = [], dg_driver_control_stream_id = 0, dg_announce_period_ms = 0,
       dg_max_results = 0\<rparr>\<rparr>"

section \<open>The client\<close>

record tp_discovery_response_ctx =
  dz_out :: tp_discovery_response
  dz_done :: bool

definition tp_discovery_response_handler ::
  "stream_codec \<Rightarrow> (result_alloc \<Rightarrow> bool) \<Rightarrow> u64 \<Rightarrow> bytes \<Rightarrow> tp_discovery_response_ctx \<Rightarrow> tp_discovery_response_ctx res" where
  "tp_discovery_response_handler S ok request_id buffer ctx =
     bind_res (tp_discovery_decode_response S ok request_id buffer (dz_out ctx)) (\<lambda>(decode_result, out).
       let ctx = ctx\<lparr>dz_out := out\<rparr>
       in Inr (if decode_result = 0 \<or> decode_result < 0 then ctx\<lparr>dz_done := True\<rparr> else ctx))"

fun handle_fragments ::
  "stream_codec \<Rightarrow> (result_alloc \<Rightarrow> bool) \<Rightarrow> u64 \<Rightarrow> bytes list \<Rightarrow> tp_discovery_response_ctx \<Rightarrow> tp_discovery_response_ctx res" where
  "handle_fragments S ok request_id [] ctx = Inr ctx"
| "handle_fragments S ok request_id (buffer # buffers) ctx =
     bind_res (tp_discovery_response_handler S ok request_id buffer ctx) (handle_fragments S ok request_id buffers)"

text \<open>
  One round of the loop: the fragments of the poll, \<open>None\<close> when it fails, and the two readings of the clock. The loop has no result when it is
  still waiting after the last round.
\<close>

fun response_loop ::
  "stream_codec \<Rightarrow> (result_alloc \<Rightarrow> bool) \<Rightarrow> u64 \<Rightarrow> int \<Rightarrow> int \<Rightarrow> (bytes list option \<times> int \<times> int) list \<Rightarrow> tp_discovery_response_ctx \<Rightarrow>
    tp_discovery_response res option" where
  "response_loop S ok request_id timeout_ns deadline [] ctx = (if dz_done ctx then Some (Inr (dz_out ctx)) else None)"
| "response_loop S ok request_id timeout_ns deadline ((fragments, now1, now2) # rounds) ctx =
     (if dz_done ctx then Some (Inr (dz_out ctx))
      else
        (case fragments of
           None \<Rightarrow> Some (Inl FAIL)
         | Some buffers \<Rightarrow>
             (case handle_fragments S ok request_id buffers ctx of
                Inl e \<Rightarrow> Some (Inl e)
              | Inr ctx \<Rightarrow>
                  if timeout_ns > 0 then
                    let deadline = (if deadline = 0 then now1 + timeout_ns else deadline)
                    in if \<not> in_int64 deadline then Some (Inl (UB ''tp_clock_now_ns() + timeout_ns''))
                       else if now2 > deadline then Some (Inl (ERRNO ''tp_discovery_poll: timeout''))
                       else response_loop S ok request_id timeout_ns deadline rounds ctx
                  else response_loop S ok request_id timeout_ns deadline rounds ctx)))"

definition tp_discovery_poll ::
  "stream_codec \<Rightarrow> (result_alloc \<Rightarrow> bool) \<Rightarrow> bool \<Rightarrow> u64 \<Rightarrow> int \<Rightarrow> (bytes list option \<times> int \<times> int) list \<Rightarrow> tp_discovery_response res option" where
  "tp_discovery_poll S ok assembler_ok request_id timeout_ns rounds =
     (if \<not> assembler_ok then Some (Inl FAIL)
      else response_loop S ok request_id timeout_ns 0 rounds \<lparr>dz_out = out_zero, dz_done = False\<rparr>)"

text \<open>The responses a poller hands on; it takes those of every request.\<close>

definition tp_discovery_poller_handler ::
  "stream_codec \<Rightarrow> (result_alloc \<Rightarrow> bool) \<Rightarrow> bytes \<Rightarrow> tp_discovery_response list \<Rightarrow> tp_discovery_response list res" where
  "tp_discovery_poller_handler S ok buffer seen =
     bind_res (tp_discovery_decode_response S ok 0 buffer out_zero) (\<lambda>(decode_result, response).
       Inr (if decode_result = 0 then seen @ [response] else seen))"

definition tp_discovery_result_has_tag :: "tp_discovery_result \<Rightarrow> string \<Rightarrow> bool" where
  "tp_discovery_result_has_tag result tag \<longleftrightarrow> find_index (\<lambda>t. t = Some tag) (dx_tags result) \<noteq> None"

definition tp_discovery_result_matches :: "tp_discovery_result \<Rightarrow> u32 \<Rightarrow> u32 \<Rightarrow> string option \<Rightarrow> bool" where
  "tp_discovery_result_matches result stream_id producer_id data_source_name \<longleftrightarrow>
     (if stream_id \<noteq> TP_NULL_U32 \<and> dx_stream_id result \<noteq> stream_id then False
      else if producer_id \<noteq> TP_NULL_U32 \<and> dx_producer_id result \<noteq> producer_id then False
      else if data_source_name \<notin> {None, Some []} \<and> Some (dx_data_source_name result) \<noteq> data_source_name then False
      else True)"

section \<open>What the client waits for\<close>

text \<open>\<open>own_answer\<close>: nothing was decoded into the response, or an answer to the request.\<close>

definition own_answer :: "u64 \<Rightarrow> tp_discovery_response \<Rightarrow> bool" where
  "own_answer request_id out \<longleftrightarrow> out = out_zero \<or> request_id \<in> {0, rp_request_id out}"

lemma decode_own:
  assumes "tp_discovery_decode_response S ok request_id buffer out = Inr (d, out')" "own_answer request_id out"
  shows "own_answer request_id out'"
proof (cases "stream_head S ''DiscoveryResponse'' buffer = 0")
  case False
  then show ?thesis using assms by (auto simp: tp_discovery_decode_response_def)
next
  case True
  let ?id = "sq_field S ''DiscoveryResponse'' ''requestId'' (drop (sq_header_length S) buffer)"
  have "out' = out \<or> rp_request_id out' = ?id \<and> request_id \<in> {0, ?id}"
    using assms(1) True
    by (auto simp: tp_discovery_decode_response_def Let_def bind_res_Inr split: if_splits option.splits prod.splits)
  then show ?thesis using assms(2) by (auto simp: own_answer_def)
qed

lemma handle_own: "handle_fragments S ok request_id bs ctx = Inr ctx' \<Longrightarrow> own_answer request_id (dz_out ctx) \<Longrightarrow> own_answer request_id (dz_out ctx')"
proof (induction bs arbitrary: ctx)
  case (Cons b bs)
  then show ?case by (auto simp: bind_res_Inr tp_discovery_response_handler_def Let_def dest!: decode_own split: if_splits)
qed simp

lemma loop_own:
  "response_loop S ok request_id timeout_ns deadline rounds ctx = Some (Inr out) \<Longrightarrow> own_answer request_id (dz_out ctx) \<Longrightarrow> own_answer request_id out"
proof (induction S ok request_id timeout_ns deadline rounds ctx rule: response_loop.induct)
  case (2 S ok request_id timeout_ns deadline fragments now1 now2 rounds ctx)
  then show ?case
    by (auto simp: Let_def dest: handle_own split: if_splits option.splits sum.splits)
qed (auto split: if_splits)

text \<open>With a deadline the loop ends at the first round after it.\<close>

lemma loop_ends:
  assumes "0 < timeout_ns" "deadline \<noteq> 0" "\<exists>r\<in>set rounds. snd (snd r) > deadline"
  shows "response_loop S ok request_id timeout_ns deadline rounds ctx \<noteq> None"
  using assms(3)
proof (induction rounds arbitrary: ctx)
  case (Cons r rounds)
  obtain fragments now1 now2 where r: "r = (fragments, now1, now2)" by (cases r)
  show ?case
  proof (cases "now2 > deadline")
    case True
    then show ?thesis using assms(1,2) r by (auto simp: Let_def split: option.split sum.split)
  next
    case False
    then have "\<exists>r\<in>set rounds. snd (snd r) > deadline" using Cons.prems r by auto
    then show ?thesis using Cons.IH assms(1,2) r by (auto simp: Let_def split: option.split sum.split)
  qed
qed simp

section \<open>Properties\<close>

text \<open>
  C24: waiting for an answer ends. With a timeout the call returns when a round of its loop reads the clock after the deadline, whatever
  the polls deliver; what it returns as an answer carries the id of the request, or nothing was decoded.
\<close>

theorem discovery_poll_returns:
  assumes "0 < timeout_ns" "first = (fragments, now1, now2)" "0 < now1" "\<exists>r\<in>set (first # rounds). snd (snd r) > now1 + timeout_ns"
  shows "\<exists>r. tp_discovery_poll S ok assembler_ok request_id timeout_ns (first # rounds) = Some r \<and>
    (\<forall>out. r = Inr out \<longrightarrow> out = out_zero \<or> request_id \<in> {0, rp_request_id out})"
proof -
  let ?r = "tp_discovery_poll S ok assembler_ok request_id timeout_ns (first # rounds)"
  have "?r \<noteq> None"
  proof (cases "now2 > now1 + timeout_ns")
    case True
    then show ?thesis using assms(1,2) by (auto simp: tp_discovery_poll_def Let_def split: option.split sum.split)
  next
    case False
    then have "\<exists>r\<in>set rounds. snd (snd r) > now1 + timeout_ns" using assms(2,4) by auto
    from loop_ends [OF assms(1) _ this] assms(1,2,3)
    show ?thesis by (auto simp: tp_discovery_poll_def Let_def split: option.split sum.split)
  qed
  then obtain r where r: "?r = Some r" by blast
  have "own_answer request_id out" if "r = Inr out" for out
    using r that loop_own [of S ok request_id timeout_ns 0 "first # rounds" _ out] by (auto simp: tp_discovery_poll_def own_answer_def split: if_splits)
  with r show ?thesis by (auto simp: own_answer_def)
qed

corollary discovery_poll_returns_witness:
  "tp_discovery_poll discovery_stream (\<lambda>x. True) True 7 5 [(Some [], 10, 11), (Some [], 12, 16)] \<noteq> None"
  using discovery_poll_returns [of 5 "(Some [], 10, 11)" "Some []" 10 11 "[(Some [], 12, 16)]" discovery_stream "\<lambda>x. True" True 7] by auto

text \<open>
  A fragment that the decoder refuses ends the wait as if it were the answer: one that is too short, of a later version or of another block
  length. The call succeeds, and the response is the zeroed one, whose status is none of the schema.
\<close>

theorem poll_ended_by_refused_fragment:
  assumes "stream_head S ''DiscoveryResponse'' buffer = - 1" "0 < timeout_ns \<longrightarrow> in_int64 (now1 + timeout_ns) \<and> now2 \<le> now1 + timeout_ns"
  shows "tp_discovery_poll S ok True request_id timeout_ns ((Some [buffer], now1, now2) # rounds) = Some (Inr out_zero) \<and>
    rp_status out_zero \<noteq> STATUS_OK \<and> rp_status out_zero \<noteq> STATUS_ERROR"
proof -
  let ?ctx = "\<lparr>dz_out = out_zero, dz_done = True\<rparr>"
  have "handle_fragments S ok request_id [buffer] \<lparr>dz_out = out_zero, dz_done = False\<rparr> = Inr ?ctx"
    using assms(1) by (simp add: tp_discovery_response_handler_def tp_discovery_decode_response_def)
  moreover have "response_loop S ok request_id timeout_ns deadline rounds ?ctx = Some (Inr out_zero)" for deadline
    by (cases rounds) auto
  ultimately show ?thesis
    using assms(2) by (auto simp: tp_discovery_poll_def Let_def out_zero_def STATUS_OK_def STATUS_ERROR_def)
qed

corollary poll_ended_by_refused_fragment_witness:
  "tp_discovery_poll discovery_stream (\<lambda>x. True) True 7 5 [(Some [[1, 2, 3]], 10, 11)] = Some (Inr out_zero)"
  using poll_ended_by_refused_fragment [of discovery_stream "[1, 2, 3]" 5 10 11 "\<lambda>x. True" 7 "[]"]
  by (simp add: stream_head_def le_stream_def in_int64_def)

end
