(* ===== verification/Tp_Discovery_Errors.thy ===== *)
theory Tp_Discovery_Errors
  imports Tp_Discovery_Answer
begin

text \<open>
  Where discovery fails: requests that the service cannot read, error messages that do not arrive, streams that spoil the
  answer of others, and announcements that are refused after they have taken effect. The bytes are those of the
  schema.
\<close>

section \<open>Requests\<close>

lemma put_text_le:
  "put_text discovery_stream cap err d w = Inr w' \<Longrightarrow> w' = w @ le_bytes 4 (of_nat (length d)) @ text_bytes d \<and> length w' \<le> cap"
  by (auto simp: put_text_def le_stream_def split: if_splits)

lemma put_dimensions_le:
  "put_dimensions discovery_stream cap err g n w = Inr w' \<Longrightarrow>
   w' = w @ le_bytes 2 (of_nat (block_width (fields_of discovery_schema g))) @ le_bytes 2 (ucast (of_nat n :: u16))"
  by (auto simp: put_dimensions_def le_stream_def split: if_splits)

lemma tag_room_le: "sq_tag_room discovery_stream g cap n j w \<Longrightarrow> j < n"
  by (simp add: le_stream_def)

lemma put_request_tags_le:
  "put_request_tags discovery_stream cap n j ts w = Inr w' \<Longrightarrow> (\<exists>x. w' = w @ x) \<and> (ts = [] \<longrightarrow> w' = w) \<and> (ts \<noteq> [] \<longrightarrow> j < n)"
proof (induction ts arbitrary: j w)
  case (Cons t ts)
  from Cons.prems obtain w1 where w1: "put_tag discovery_stream FAIL cap n j t w = Inr w1" "put_request_tags discovery_stream cap n (Suc j) ts w1 = Inr w'"
    by (auto simp: bind_res_Inr)
  have "w1 = w @ sq_data discovery_stream t \<and> j < n"
    using w1(1) tag_room_le by (auto simp: put_tag_def res_simps)
  with Cons.IH [OF w1(2)] show ?case by auto
qed simp

text \<open>The bytes of a request, and how long they may be.\<close>

lemma request_bytes:
  assumes "tp_discovery_request_send discovery_stream context_channel request = Inr buffer" "qr_response_channel request = Some channel"
  shows "\<exists>tags name count. buffer = sq_put_header discovery_stream ''DiscoveryRequest'' @
      sq_block discovery_stream ''DiscoveryRequest'' (request_fields discovery_stream request) @ le_bytes 2 4 @ le_bytes 2 (ucast (count :: u16)) @
      tags @ le_bytes 4 (of_nat (length channel)) @ text_bytes channel @ name \<and> length buffer \<le> 1024 \<and>
    (qr_tags request = [] \<longrightarrow> count = 0 \<and> tags = []) \<and> (qr_tags request \<noteq> [] \<longrightarrow> count \<noteq> 0)"
proof -
  let ?w = "sq_put_header discovery_stream ''DiscoveryRequest'' @ sq_block discovery_stream ''DiscoveryRequest'' (request_fields discovery_stream request)"
  let ?count = "of_nat (length (qr_tags request)) :: u16"
  have enc: "encode_request discovery_stream 1024 channel request = Inr buffer"
    using assms by (auto simp: tp_discovery_request_send_def res_simps)
  obtain w1 w2 w3 where w: "put_dimensions discovery_stream 1024 FAIL ''tags'' (length (qr_tags request)) ?w = Inr w1"
    "put_request_tags discovery_stream 1024 (unat ?count) 0 (qr_tags request) w1 = Inr w2"
    "put_text discovery_stream 1024 FAIL channel w2 = Inr w3"
    "(if qr_data_source_name request \<in> {None, Some []} then Inr w3
      else put_text discovery_stream 1024 FAIL (the (qr_data_source_name request)) w3) = Inr buffer"
    using enc unfolding encode_request_def Let_def bind_res_Inr by blast
  have w1: "w1 = ?w @ le_bytes 2 4 @ le_bytes 2 (ucast ?count)"
    using put_dimensions_le [OF w(1)] by (simp add: discovery_fields block_width_def)
  obtain tags where tags: "w2 = w1 @ tags" "qr_tags request = [] \<longrightarrow> tags = []" "qr_tags request \<noteq> [] \<longrightarrow> 0 < unat ?count"
    using put_request_tags_le [OF w(2)] by auto
  have w3: "w3 = w2 @ le_bytes 4 (of_nat (length channel)) @ text_bytes channel" "length w3 \<le> 1024"
    using put_text_le [OF w(3)] by blast+
  obtain name where name: "buffer = w3 @ name" "length buffer \<le> 1024"
    using w(4) w3(2) put_text_le [of 1024 FAIL "the (qr_data_source_name request)" w3 buffer] by (auto split: if_splits)
  have count: "qr_tags request = [] \<longrightarrow> ?count = 0" "qr_tags request \<noteq> [] \<longrightarrow> ?count \<noteq> 0" using tags(3) by (auto simp del: of_nat_0_less_iff)
  show ?thesis
    by (rule exI [of _ tags], rule exI [of _ name], rule exI [of _ ?count]) (use w1 tags w3 name count in simp)
qed

lemma le_bytes_two: "le_bytes 2 v = [ucast v, ucast (drop_bit 8 v)]"
  by (simp add: numeral_2_eq_2)

lemma unat_u64_u8: "unat (ucast (w :: u64) :: u8) = unat w mod 256"
  using unsigned_ucast_eq [of w, where ?'a = nat and ?'c = 8] by (simp add: take_bit_eq_mod)

lemma unat_u16_bytes: "unat (ucast (ucast (c :: u16) :: u64) :: u8) + 256 * unat (ucast (drop_bit 8 (ucast c :: u64)) :: u8) = unat c"
proof -
  have c: "unat c < 65536" using unsigned_less [of c, where ?'a = nat] by simp
  have w: "unat (ucast c :: u64) = unat c" by simp
  have "unat (drop_bit 8 (ucast c :: u64)) = unat c div 256"
    using unat_drop_bit_eq [of 8 "ucast c :: u64"] by (simp add: drop_bit_eq_div)
  with c have "unat (drop_bit 8 (ucast c :: u64)) mod 256 = unat c div 256" by (simp add: less_mult_imp_div_less)
  then show ?thesis unfolding unat_u64_u8 w by simp
qed

text \<open>A text that would end after the buffer.\<close>

lemma get_copy_past:
  assumes "length b < unat (le_u32 b)"
  shows "get_copy discovery_stream ok message b = Inl (if ok then UB ''copy from null'' else ENOMEM message)"
proof -
  have "le_u32 b \<noteq> 0" using assms by auto
  then show ?thesis using assms by (simp add: get_copy_def le_stream_def guard_def)
qed

lemma head_of_request: "stream_head discovery_stream m (sq_put_header discovery_stream m @ r) = 0"
  by (rule discovery.head_written)

lemma request_skip:
  "sq_skip discovery_stream ''DiscoveryRequest'' (sq_block discovery_stream ''DiscoveryRequest'' kvs @ r) = r"
  "drop (sq_header_length discovery_stream) (sq_put_header discovery_stream m @ r) = r"
  by (simp_all add: le_stream_def length_block_bytes)

text \<open>The dimensions of the tags, read as the length of a text.\<close>

lemma unat_dimensions:
  assumes "n < 256"
  shows "unat (le_u32 (le_bytes 2 (of_nat n) @ le_bytes 2 (ucast (count :: u16)) @ r)) = n + 65536 * unat count"
proof -
  have n: "unat (of_nat n :: u64) = n" using assms by (simp add: unat_of_nat)
  then have "unat (ucast (of_nat n :: u64) :: u8) = n" using assms by (simp only: unat_u64_u8) simp
  moreover have "unat (drop_bit 8 (of_nat n :: u64)) = 0" using assms n unat_drop_bit_eq [of 8 "of_nat n :: u64"] by (simp add: drop_bit_eq_div)
  then have "drop_bit 8 (of_nat n :: u64) = 0" using unat_eq_zero by blast
  ultimately obtain x where x: "le_bytes 2 (of_nat n) = [x, 0]" "unat x = n" by (simp add: le_bytes_two)
  define lo hi where "lo = (ucast (ucast count :: u64) :: u8)" and "hi = (ucast (drop_bit 8 (ucast count :: u64)) :: u8)"
  have two: "le_bytes 2 (ucast count) = [lo, hi]" unfolding le_bytes_two lo_def hi_def ..
  have "unat lo + 256 * unat hi = unat count" unfolding lo_def hi_def by (rule unat_u16_bytes)
  then show ?thesis unfolding x(1) two append_Cons append_Nil unat_le_u32 x(2) by simp
qed

lemma unat_dimensions_tags: "unat (le_u32 (le_bytes 2 4 @ le_bytes 2 (ucast (count :: u16)) @ r)) = 4 + 65536 * unat count"
  using unat_dimensions [of 4 count r] by simp

lemma unat_text_length:
  assumes "4 \<le> length d" "no_nul d"
  shows "16777216 \<le> unat (le_u32 (text_bytes d @ r))"
proof -
  have "length (take 4 d) = Suc (Suc (Suc (Suc 0)))" using assms(1) by simp
  then obtain x y z w where "take 4 d = [x, y, z, w]" unfolding length_Suc_conv by auto
  then have d: "d = x # y # z # w # drop 4 d" using append_take_drop_id [of 4 d] by simp
  have w: "of_char w \<noteq> (0 :: nat)"
  proof
    assume "of_char w = (0 :: nat)"
    then have "w = char_of (0 :: nat)" by (metis char_of_char)
    moreover have "w \<in> set d" by (subst d) simp
    ultimately show False using assms(2) by (simp add: no_nul_def)
  qed
  have "unat (of_nat (of_char w) :: u8) = of_char w" by (simp add: unat_of_nat)
  with w have "16777216 \<le> 16777216 * unat (of_nat (of_char w) :: u8)" by simp
  moreover have "text_bytes d @ r = of_nat (of_char x) # of_nat (of_char y) # of_nat (of_char z) # of_nat (of_char w) # text_bytes (drop 4 d) @ r"
    by (subst d) (simp add: text_bytes_def)
  ultimately show ?thesis by (simp add: unat_le_u32)
qed

text \<open>
  C22: no request that the client can send is read by the service. The client writes the tags before the texts, the
  service reads the response channel first and finds the dimensions of the tags there: with tags their length goes past the
  buffer, without tags the four bytes of the length of the channel are taken for the channel, and its first characters for the length of
  the name. The decoder copies from NULL, or fails to allocate what it would copy to.
\<close>

theorem request_never_read:
  assumes "tp_discovery_request_send discovery_stream context_channel request = Inr buffer"
    "qr_response_channel request = Some channel" "4 \<le> length channel" "no_nul channel"
  shows "(\<exists>e. tp_discovery_decode_request discovery_stream ok buffer = Inl e) \<and>
    tp_discovery_decode_request discovery_stream (\<lambda>x. True) buffer = Inl (UB ''copy from null'')"
proof -
  let ?S = discovery_stream
  obtain tags name count where b: "buffer = sq_put_header ?S ''DiscoveryRequest'' @ sq_block ?S ''DiscoveryRequest'' (request_fields ?S request) @
      le_bytes 2 4 @ le_bytes 2 (ucast (count :: u16)) @ tags @ le_bytes 4 (of_nat (length channel)) @ text_bytes channel @ name"
    and len: "length buffer \<le> 1024" and none: "qr_tags request = [] \<longrightarrow> count = 0 \<and> tags = []" "qr_tags request \<noteq> [] \<longrightarrow> count \<noteq> 0"
    using request_bytes [OF assms(1,2)] by blast
  let ?c = "le_bytes 2 4 @ le_bytes 2 (ucast count) @ tags @ le_bytes 4 (of_nat (length channel)) @ text_bytes channel @ name"
  have past: "length ?c \<le> 1024" "length (text_bytes channel @ name) \<le> 1024" using len unfolding b by simp_all
  have read: "tp_discovery_decode_request ?S ok buffer =
      bind_res (decode_request_body ?S ok (sq_block ?S ''DiscoveryRequest'' (request_fields ?S request) @ ?c)) (\<lambda>request. Inr (Some request))" for ok
    unfolding tp_discovery_decode_request_def b head_of_request request_skip by simp
  have "\<exists>e. decode_request_body ?S ok (sq_block ?S ''DiscoveryRequest'' (request_fields ?S request) @ ?c) = Inl e \<and>
      ((\<forall>x. ok x) \<longrightarrow> e = UB ''copy from null'')" for ok
  proof (cases "count = 0")
    case False
    then have "1 \<le> unat count" by (simp add: Suc_le_eq unat_gt_0)
    then have "length ?c < unat (le_u32 ?c)" using past(1) unfolding unat_dimensions_tags by linarith
    then show ?thesis by (simp add: decode_request_body_def Let_def request_skip get_copy_past)
  next
    case True
    then have c: "?c = le_bytes 2 4 @ le_bytes 2 (ucast (0 :: u16)) @ le_bytes 4 (of_nat (length channel)) @ text_bytes channel @ name"
      using none by auto
    have u: "unat (le_u32 ?c) = 4" unfolding unat_dimensions_tags using True by simp
    then have "le_u32 ?c \<noteq> 0" by auto
    then have first: "get_copy ?S okc m ?c = (if okc then Inr (Some (c_string (bytes_text (le_bytes 4 (of_nat (length channel))))), text_bytes channel @ name)
        else Inl (ENOMEM m))" for okc m
      using u unfolding c by (simp add: get_copy_def le_stream_def guard_def)
    have "length (text_bytes channel @ name) < unat (le_u32 (text_bytes channel @ name))"
      using past(2) unat_text_length [OF assms(3,4), of name] by linarith
    then show ?thesis
      by (auto simp: decode_request_body_def Let_def request_skip first get_copy_past)
  qed
  then show ?thesis unfolding read by (metis bind_res_simps(1))
qed

definition discovery_sample_request :: tp_discovery_request where
  "discovery_sample_request = tp_discovery_request_init\<lparr>qr_response_channel := Some ''aeron:ipc'', qr_response_stream_id := 1\<rparr>"

lemma discovery_sample_request_sent: "\<exists>buffer. tp_discovery_request_send discovery_stream [] discovery_sample_request = Inr buffer"
  by (simp add: tp_discovery_request_send_def discovery_sample_request_def tp_discovery_request_init_def encode_request_def put_dimensions_def put_text_def le_stream_def
      length_block_bytes discovery_fields block_width_def guard_def)

corollary request_never_read_witness:
  "\<exists>buffer. tp_discovery_request_send discovery_stream [] discovery_sample_request = Inr buffer \<and>
     tp_discovery_decode_request discovery_stream (\<lambda>x. True) buffer = Inl (UB ''copy from null'')"
proof -
  obtain buffer where sent: "tp_discovery_request_send discovery_stream [] discovery_sample_request = Inr buffer" using discovery_sample_request_sent by blast
  have "qr_response_channel discovery_sample_request = Some ''aeron:ipc''" "4 \<le> length ''aeron:ipc''" "no_nul ''aeron:ipc''"
    by (simp_all add: discovery_sample_request_def no_nul_def char_of_nul)
  from request_never_read [OF sent this] sent show ?thesis by blast
qed

section \<open>Answers\<close>

text \<open>The group header of an answer without results, read as the length of a text, is the length of the block of a result.\<close>

lemma empty_group_length: "le_u32 (sq_dim discovery_stream ''results'' 0 @ r) = 39"
proof -
  have bytes: "le_bytes 2 39 = [39, 0]" "le_bytes 2 0 = [0, 0]" by (simp_all add: le_bytes_two)
  have "sq_dim discovery_stream ''results'' 0 @ r = 39 # 0 # 0 # 0 # r"
    by (simp add: le_stream_def discovery_fields block_width_def bytes)
  moreover have "unat (le_u32 (39 # 0 # 0 # 0 # r)) = unat (39 :: u32)" unfolding unat_le_u32 by simp
  ultimately show ?thesis by (metis unsigned_word_eqI)
qed

text \<open>
  The message of a refused query does not arrive. The client reads the text of an answer whose status is not OK from where the
  results begin, and takes the length of a result for its length: a message of less than 35 characters, as
  all those that the service sends, is decoded as the empty one.
\<close>

theorem error_message_lost:
  assumes "rp_status x \<noteq> STATUS_OK" "sq_enum discovery_stream ''status'' (ucast (rp_status x))" "rp_results x = []" "rp_result_count x = 0"
    "length (rp_error_message x) < 35" "request_id \<in> {0, rp_request_id x}"
  shows "tp_discovery_encode_response discovery_stream 1024 x = Inr (response_bytes discovery_stream x) \<and>
    tp_discovery_decode_response discovery_stream ok request_id (response_bytes discovery_stream x) out_zero =
      Inr (0, \<lparr>rp_request_id = rp_request_id x, rp_status = rp_status x, rp_error_message = [], rp_results = [], rp_result_count = 0\<rparr>)"
proof
  let ?S = discovery_stream
  have width: "length (response_bytes ?S x) = 25 + length (rp_error_message x)"
    using assms(3,4) by (simp add: response_bytes_def le_stream_def length_block_bytes discovery_fields block_width_def)
  have "response_whole x" using assms(3,4) by (simp add: response_whole_def)
  then show "tp_discovery_encode_response ?S 1024 x = Inr (response_bytes ?S x)"
    by (rule discovery.encode_response_fits) (use width assms(5) in simp)
  note f = discovery.field_response [of "rp_request_id x" "rp_status x"]
    discovery.skip_block [OF discovery.fits_response [of "rp_request_id x" "rp_status x"]]
  have id: "\<not> (request_id \<noteq> 0 \<and> rp_request_id x \<noteq> request_id)" using assms(6) by auto
  have get: "sq_get ?S (sq_dim ?S ''results'' 0 @ sq_data ?S (rp_error_message x)) =
      (None, sq_dim ?S ''results'' 0 @ sq_data ?S (rp_error_message x))"
  proof -
    have "length (sq_dim ?S ''results'' 0 @ sq_data ?S (rp_error_message x)) < 43" using assms(5) by (simp add: le_stream_def)
    moreover have "sq_get ?S b = (if 4 + unat (le_u32 b) \<le> length b
        then (Some (bytes_text (take (unat (le_u32 b)) (drop 4 b))), drop (4 + unat (le_u32 b)) b) else (None, b))" for b
      by (simp add: le_stream_def)
    ultimately show ?thesis by (simp add: empty_group_length)
  qed
  have status: "(ucast (ucast (rp_status x) :: u64) :: u8) = rp_status x" by simp
  show "tp_discovery_decode_response ?S ok request_id (response_bytes ?S x) out_zero =
      Inr (0, \<lparr>rp_request_id = rp_request_id x, rp_status = rp_status x, rp_error_message = [], rp_results = [], rp_result_count = 0\<rparr>)"
    unfolding tp_discovery_decode_response_def Let_def discovery.response_head f
    using id assms(1-4) get status by (auto simp: out_zero_def tp_discovery_copy_ascii_def)
qed

corollary error_message_lost_witness:
  "tp_discovery_decode_response discovery_stream (\<lambda>x. True) 7
      (response_bytes discovery_stream ((empty_response 7)\<lparr>rp_status := STATUS_ERROR, rp_error_message := ''result limit exceeded''\<rparr>)) out_zero =
    Inr (0, (empty_response 7)\<lparr>rp_status := STATUS_ERROR\<rparr>)"
proof -
  let ?x = "(empty_response 7)\<lparr>rp_status := STATUS_ERROR, rp_error_message := ''result limit exceeded''\<rparr>"
  have "rp_status ?x \<noteq> STATUS_OK" "sq_enum discovery_stream ''status'' (ucast (rp_status ?x))" "rp_results ?x = []" "rp_result_count ?x = 0"
    "length (rp_error_message ?x) < 35" "7 \<in> {0, rp_request_id ?x}"
    by (simp_all add: empty_response_def STATUS_OK_def STATUS_ERROR_def le_stream_def discovery_schema_def lookup_or_def)
  from error_message_lost [OF this, of "\<lambda>x. True"] show ?thesis by (simp add: empty_response_def)
qed

text \<open>The entry that a data source leaves for a stream that no announcement has described.\<close>

definition described_entry :: "discovery_env \<Rightarrow> tp_data_source_announce \<Rightarrow> tp_discovery_entry" where
  "described_entry env a = (fresh_entry (dw_stream_id a))\<lparr>de_producer_id := dw_producer_id a, de_epoch := dw_epoch a,
     de_data_source_name := (case dw_name a of None \<Rightarrow> [] | Some name \<Rightarrow> copied 256 name), de_last_announce_ns := dl_now env\<rparr>"

lemma run_config: "dn_config (fold discovery_step evs s) = dn_config s"
  by (induction evs arbitrary: s) (simp_all add: step_config)

lemma described_unknown:
  assumes "dw_stream_id a \<noteq> 0" "dl_entry_ok env" "dw_stream_id a \<notin> set (map de_stream_id (dn_entries s))"
  shows "snd (tp_discovery_service_apply_data_source env a s) = s\<lparr>dn_entries := dn_entries s @ [described_entry env a]\<rparr>"
proof -
  have "tp_discovery_find_entry s (dw_stream_id a) = None"
    using assms(1,3) by (metis (mono_tags, lifting) find_index_None image_eqI list.set_map tp_discovery_find_entry_def)
  then have "tp_discovery_entry_reserve (dl_entry_ok env) (dw_stream_id a) s =
      (Inr (length (dn_entries s)), s\<lparr>dn_entries := dn_entries s @ [fresh_entry (dw_stream_id a)]\<rparr>)"
    using assms(2) by (simp add: tp_discovery_entry_reserve_def)
  then show ?thesis
    using assms(1) by (cases "dw_name a") (simp_all add: tp_discovery_service_apply_data_source_def Let_def put_entry_def described_entry_def fresh_entry_def)
qed

text \<open>
  A data source of a stream without an announcement spoils the answers for all others. It leaves an entry without a
  layout that queries show like any other, and a client that finds it takes the whole answer for an error, although
  every other entry of the answer is one it accepts.
\<close>

theorem described_stream_spoils_answer:
  assumes "\<forall>ev\<in>set evs. allocations_ok ev" "s0 = fold discovery_step evs (tp_discovery_service_init config)"
    "dw_stream_id a \<noteq> 0" "dw_stream_id a \<notin> set (map de_stream_id (dn_entries s0))" "dl_entry_ok env"
    "s = discovery_step (Described env a) s0"
    "\<not> entry_expired prune_now (tp_discovery_expiry_ns s) (described_entry env a)"
    "answers now (tp_discovery_expiry_ns s) request (described_entry env a)"
    "known = filter (answers now (tp_discovery_expiry_ns s) request)
      (filter (\<lambda>e. \<not> entry_expired prune_now (tp_discovery_expiry_ns s) e) (dn_entries s0))"
    "\<forall>e\<in>set known. deliverable (shown config e)" "length known < unat (dg_max_results config)" "length known < 2 ^ 16 - 1"
    "response = (empty_response (qr_request_id request))\<lparr>rp_results := map (shown config) (known @ [described_entry env a]),
       rp_result_count := Suc (length known)\<rparr>"
    "length (response_bytes discovery_stream response) \<le> 4096"
  shows "fst (tp_discovery_service_query (\<lambda>x. True) prune_now now request s) = Inr response \<and>
    tp_discovery_encode_response discovery_stream 4096 response = Inr (response_bytes discovery_stream response) \<and>
    (\<exists>out. tp_discovery_decode_response discovery_stream (\<lambda>x. True) (qr_request_id request) (response_bytes discovery_stream response) out_zero =
        Inr (0, out) \<and> rp_status out = STATUS_ERROR \<and> rp_error_message out = ''discovery response slot bytes/max dims mismatch'')"
proof -
  let ?S = discovery_stream and ?new = "described_entry env a"
  have ok0: "index_ok s0" unfolding assms(2) by (rule discovery_run_invariant [OF init_index_ok])
  have whole0: "whole s0"
    unfolding assms(2) by (rule run_whole [OF init_index_ok _ assms(1)]) (simp add: whole_def tp_discovery_service_init_def)
  have s: "s = s0\<lparr>dn_entries := dn_entries s0 @ [?new]\<rparr>" using assms(6) described_unknown [OF assms(3,5,4)] by simp
  have config: "dn_config s = config"
    unfolding s assms(2) by (simp add: run_config) (simp add: tp_discovery_service_init_def)
  have new: "de_pools ?new = []" "de_pool_count ?new = 0" "de_header_slot_bytes ?new = 0" "de_tags ?new = []"
    "de_stream_id ?new = dw_stream_id a" "de_header_nslots ?new = 0"
    by (simp_all add: described_entry_def fresh_entry_def)
  have ok: "index_ok s" using ok0 assms(3,4) new by (auto simp: s index_ok_def stream_entry_ok_def)
  have whole: "whole s" using whole0 new by (simp add: s whole_def)
  have live: "filter (answers now (tp_discovery_expiry_ns s) request)
      (filter (\<lambda>e. \<not> entry_expired prune_now (tp_discovery_expiry_ns s) e) (dn_entries s)) = known @ [?new]"
    using assms(7,8,9) by (simp add: s)
  have query: "fst (tp_discovery_service_query (\<lambda>x. True) prune_now now request s) = Inr response"
    using query_eq [OF ok whole _ live [symmetric]] assms(11,13) by (simp add: config)
  have kept: "\<forall>r\<in>set (map (shown config) known). result_whole r" using assms(10) by (simp add: deliverable_def)
  have "result_whole (shown config ?new)" by (simp add: result_whole_def shown_def new)
  then have "response_whole response" using kept assms(12) by (auto simp: assms(13) response_whole_def)
  then have encode: "tp_discovery_encode_response ?S 4096 response = Inr (response_bytes ?S response)"
    using assms(14) by (rule discovery.encode_response_fits)
  have slots: "ucast (dx_header_slot_bytes (shown config ?new)) \<noteq> TP_HEADER_SLOT_BYTES"
    by (simp add: shown_def new TP_HEADER_SLOT_BYTES_def)
  have results: "rp_results response = map (shown config) known @ [shown config ?new]" by (simp add: assms(13))
  obtain out where "get_results ?S (\<lambda>x. True) (length (rp_results response)) (length (rp_results response)) 0
      (concat (map (result_bytes ?S) (rp_results response)) @ sq_data ?S (rp_error_message response)) =
      Inr (Some ''discovery response slot bytes/max dims mismatch'', out)"
    using discovery.get_results_refused [of "map (shown config) known" "shown config ?new" "Suc (length known)" 0 0 "sq_data ?S (rp_error_message response)"]
      assms(10) slots by (auto simp: results)
  from discovery.decode_response_written [OF _ _ _ this, of "qr_request_id request"] query encode assms(12,13)
  show ?thesis by (simp add: empty_response_def)
qed

definition discovery_sample_source :: tp_data_source_announce where
  "discovery_sample_source = \<lparr>dw_stream_id = 9, dw_producer_id = 6, dw_epoch = 1, dw_name = Some ''camera''\<rparr>"

lemma discovery_sample_source_run:
  "tp_discovery_expiry_ns (discovery_step (Described discovery_sample_env discovery_sample_source) discovery_sample_state) = tp_discovery_expiry_ns discovery_sample_state"
  "tp_discovery_expiry_ns discovery_sample_state = 300000000"
  by (rule expiry_config [OF step_config]) (simp add: discovery_sample_state_eq tp_discovery_expiry_ns_def discovery_sample_config_def)

lemma discovery_sample_source_shown:
  "\<not> entry_expired 2000 300000000 (described_entry discovery_sample_env discovery_sample_source)"
  "answers 2000 300000000 tp_discovery_request_init (described_entry discovery_sample_env discovery_sample_source)"
  by (simp_all add: answers_def entry_visible_def entry_expired_def request_admits_def described_entry_def tp_discovery_request_init_def fresh_entry_def discovery_sample_env_def)

lemma discovery_sample_source_fits:
  "length (response_bytes discovery_stream ((empty_response 0)\<lparr>rp_results := map (shown discovery_sample_config) ([discovery_sample_entry] @ [described_entry discovery_sample_env discovery_sample_source]),
      rp_result_count := Suc (length [discovery_sample_entry])\<rparr>)) \<le> 4096"
  by (simp add: response_bytes_def result_bytes_def body_bytes_def pool_bytes_def pool_block_def tag_bytes_def texts_bytes_def
      empty_response_def le_stream_def length_block_bytes discovery_fields block_width_def shown_def discovery_sample_entry_def discovery_sample_config_def copied_short
      described_entry_def fresh_entry_def discovery_sample_source_def)

end
