(* ===== verification/Tp_Discovery_Fragments.thy ===== *)
theory Tp_Discovery_Fragments
  imports Tp_Discovery_Service Tp_Discovery_Errors
begin

text \<open>
  Runs of the discovery service over the fragments it receives: what is sent for a request and to whom, and what
  announcements and data sources leave in the index when they come as messages of schemas/wire-schema.xml.
\<close>

section \<open>Runs\<close>

datatype service_fragment =
    AnnounceFragment bool discovery_env bytes bytes
  | MetadataFragment discovery_env bytes bytes
  | RequestFragment request_env bytes
  | Expiry u64

fun service_step :: "stream_codec \<Rightarrow> stream_codec \<Rightarrow> service_fragment \<Rightarrow> tp_discovery_service \<Rightarrow> tp_discovery_service res" where
  "service_step W S (AnnounceFragment ok env behind buffer) s = Inr (tp_discovery_on_announce_fragment W ok env behind buffer s)"
| "service_step W S (MetadataFragment env behind buffer) s = Inr (tp_discovery_on_metadata_fragment W env behind buffer s)"
| "service_step W S (RequestFragment env buffer) s = tp_discovery_on_request_fragment S env buffer s"
| "service_step W S (Expiry now) s = Inr (tp_discovery_prune_expired now s)"

fun service_run :: "stream_codec \<Rightarrow> stream_codec \<Rightarrow> service_fragment list \<Rightarrow> tp_discovery_service \<Rightarrow> tp_discovery_service res" where
  "service_run W S [] s = Inr s"
| "service_run W S (f # fs) s = bind_res (service_step W S f s) (service_run W S fs)"

text \<open>What holds before a step and after it holds for a run.\<close>

lemma service_run_keeps:
  assumes "service_run W S fs s = Inr s'" "I s" "\<And>f s s'. f \<in> set fs \<Longrightarrow> service_step W S f s = Inr s' \<Longrightarrow> I s \<Longrightarrow> I s'"
  shows "I s'"
  using assms
proof (induction fs arbitrary: s)
  case (Cons f fs)
  then obtain s1 where "service_step W S f s = Inr s1" "service_run W S fs s1 = Inr s'" by (auto simp: bind_res_Inr)
  then show ?case using Cons.IH [of s1] Cons.prems(2,3) by (metis list.set_intros(1,2))
qed simp

lemma service_run_append: "service_run W S (fs @ gs) s = bind_res (service_run W S fs s) (service_run W S gs)"
  by (induction fs arbitrary: s) (auto simp: bind_res_def split: sum.splits)

text \<open>A cycle of the service is a run.\<close>

lemma discovery_work_run:
  "tp_discovery_service_do_work W S announces metadata requests prune_now s =
     service_run W S (map (\<lambda>(ok, env, behind, buffer). AnnounceFragment ok env behind buffer) announces @
       map (\<lambda>(env, behind, buffer). MetadataFragment env behind buffer) metadata @
       map (\<lambda>(env, buffer). RequestFragment env buffer) requests @ [Expiry prune_now]) s"
proof -
  have a: "service_run W S (map (\<lambda>(ok, env, behind, buffer). AnnounceFragment ok env behind buffer) xs @ gs) s =
      service_run W S gs (fold (\<lambda>(ok, env, behind, buffer). tp_discovery_on_announce_fragment W ok env behind buffer) xs s)" for xs gs s
    by (induction xs arbitrary: s) (auto split: prod.split)
  have m: "service_run W S (map (\<lambda>(env, behind, buffer). MetadataFragment env behind buffer) xs @ gs) s =
      service_run W S gs (fold (\<lambda>(env, behind, buffer). tp_discovery_on_metadata_fragment W env behind buffer) xs s)" for xs gs s
    by (induction xs arbitrary: s) (auto split: prod.split)
  have stop: "fold (\<lambda>(env, buffer) r. bind_res r (tp_discovery_on_request_fragment S env buffer)) xs (Inl e) = Inl e" for xs e
    by (induction xs) auto
  have r: "service_run W S (map (\<lambda>(env, buffer). RequestFragment env buffer) xs @ gs) s =
      bind_res (fold (\<lambda>(env, buffer) r. bind_res r (tp_discovery_on_request_fragment S env buffer)) xs (Inr s)) (service_run W S gs)" for xs gs s
  proof (induction xs arbitrary: s)
    case (Cons x xs)
    then show ?case by (cases x; cases "tp_discovery_on_request_fragment S (fst x) (snd x) s") (simp_all add: stop)
  qed simp
  have "service_run W S [Expiry prune_now] = (\<lambda>s. Inr (tp_discovery_prune_expired prune_now s))" by (rule ext) simp
  then show ?thesis by (simp add: tp_discovery_service_do_work_def Let_def a m r)
qed

section \<open>Publications\<close>

text \<open>A publication is stored under what fits of the channel it was added with.\<close>

definition publications_ok :: "tp_discovery_service \<Rightarrow> bool" where
  "publications_ok s \<longleftrightarrow> (\<forall>p\<in>set (dn_publications s). dq_channel p = copied 1024 (fst (dq_handle p)) \<and> dq_stream_id p = snd (dq_handle p))"

lemma get_publication_cases:
  assumes "tp_discovery_get_publication env channel stream_id s = (r, s')"
  obtains (old) i where "find_index (\<lambda>p. dq_stream_id p = stream_id \<and> dq_channel p = channel) (dn_publications s) = Some i" "r = Some i" "s' = s"
    | (no) "r = None" "s' = s" "\<not> (pn_alloc_ok env \<and> pn_add_ok env)"
    | (new) "r = Some (length (dn_publications s))" "s' = s\<lparr>dn_publications := dn_publications s @
        [\<lparr>dq_channel = copied 1024 channel, dq_stream_id = stream_id, dq_handle = (channel, stream_id)\<rparr>]\<rparr>"
proof (cases "find_index (\<lambda>p. dq_stream_id p = stream_id \<and> dq_channel p = channel) (dn_publications s)")
  case None
  show thesis
  proof (cases "pn_alloc_ok env \<and> pn_add_ok env")
    case True
    then show thesis using assms None by (intro new) (simp_all add: tp_discovery_get_publication_def del: find_index_None)
  next
    case False
    then show thesis using assms None by (intro no) (auto simp: tp_discovery_get_publication_def simp del: find_index_None split: if_splits)
  qed
next
  case (Some j)
  then show thesis using assms by (intro old [of j]) (simp_all add: tp_discovery_get_publication_def)
qed

lemma get_publication:
  assumes "tp_discovery_get_publication env channel stream_id s = (r, s')" "publications_ok s"
  shows "publications_ok s'" "dn_entries s' = dn_entries s" "dn_sent s' = dn_sent s" "dn_config s' = dn_config s"
    "r = Some i \<Longrightarrow> length channel < 1023 \<Longrightarrow> dq_handle (dn_publications s' ! i) = (channel, stream_id)"
    "pn_alloc_ok env \<Longrightarrow> pn_add_ok env \<Longrightarrow> r \<noteq> None"
proof -
  show "publications_ok s'" "dn_entries s' = dn_entries s" "dn_sent s' = dn_sent s" "dn_config s' = dn_config s"
    using assms by (cases rule: get_publication_cases; simp add: publications_ok_def)+
  show "r \<noteq> None" if "pn_alloc_ok env" "pn_add_ok env" using assms(1) that by (cases rule: get_publication_cases) simp_all
  show "dq_handle (dn_publications s' ! i) = (channel, stream_id)" if r: "r = Some i" and short: "length channel < 1023"
    using assms(1)
  proof (cases rule: get_publication_cases)
    case (old j)
    let ?p = "dn_publications s ! i"
    have p: "?p \<in> set (dn_publications s)" "dq_stream_id ?p = stream_id" "dq_channel ?p = channel"
      using find_index_Some [OF old(1)] r old(2) by auto
    then have c: "copied 1024 (fst (dq_handle ?p)) = channel" "snd (dq_handle ?p) = stream_id" using assms(2) by (auto simp: publications_ok_def)
    have "length (copied 1024 (fst (dq_handle ?p))) < 1023" using c(1) short by simp
    then have "copied 1024 (fst (dq_handle ?p)) = fst (dq_handle ?p)" by (simp add: copied_def)
    then show ?thesis using c old(3) by (metis prod.collapse)
  qed (use r in auto)
qed

section \<open>What the handlers leave alone\<close>

lemma put_frame [simp]:
  "dn_publications (put_entry i e s) = dn_publications s" "dn_sent (put_entry i e s) = dn_sent s"
  by (simp_all add: put_entry_def)

lemma reserve_frame:
  "tp_discovery_entry_reserve alloc k s = (r, s') \<Longrightarrow> dn_publications s' = dn_publications s \<and> dn_sent s' = dn_sent s"
  by (auto simp: tp_discovery_entry_reserve_def split: option.splits if_splits)

lemma announce_frame:
  "dn_publications (snd (tp_discovery_service_apply_announce env a s)) = dn_publications s \<and>
   dn_sent (snd (tp_discovery_service_apply_announce env a s)) = dn_sent s"
proof -
  obtain r s' where "tp_discovery_entry_reserve (dl_entry_ok env) (pa_stream_id a) s = (r, s')" by force
  then show ?thesis using reserve_frame
    by (fastforce simp: tp_discovery_service_apply_announce_def Let_def split: sum.split option.split)
qed

lemma data_source_frame:
  "dn_publications (snd (tp_discovery_service_apply_data_source env a s)) = dn_publications s \<and>
   dn_sent (snd (tp_discovery_service_apply_data_source env a s)) = dn_sent s"
proof -
  obtain r s' where "tp_discovery_entry_reserve (dl_entry_ok env) (dw_stream_id a) s = (r, s')" by force
  then show ?thesis using reserve_frame
    by (fastforce simp: tp_discovery_service_apply_data_source_def Let_def split: sum.split)
qed

lemma prune_frame [simp]:
  "dn_publications (tp_discovery_prune_expired now s) = dn_publications s" "dn_sent (tp_discovery_prune_expired now s) = dn_sent s"
  by (simp_all add: tp_discovery_prune_expired_def)

text \<open>The event of the index that the fragment of an announcement or a data source is.\<close>

lemma announce_event:
  obtains (ignored) "tp_discovery_on_announce_fragment W ok env behind buffer s = s"
    | (applied) a where "tp_discovery_on_announce_fragment W ok env behind buffer s = discovery_step (Announced env a) s"
proof -
  have "tp_discovery_on_announce_fragment W ok env behind buffer s = s \<or>
      (\<exists>a. tp_discovery_on_announce_fragment W ok env behind buffer s = discovery_step (Announced env a) s)"
    by (simp add: tp_discovery_on_announce_fragment_def Let_def split: prod.split) blast
  then show thesis using ignored applied by blast
qed

lemma metadata_event:
  obtains (ignored) "tp_discovery_on_metadata_fragment W env behind buffer s = s"
    | (applied) a where "tp_discovery_on_metadata_fragment W env behind buffer s = discovery_step (Described env a) s"
proof -
  have "tp_discovery_on_metadata_fragment W env behind buffer s = s \<or>
      (\<exists>a. tp_discovery_on_metadata_fragment W env behind buffer s = discovery_step (Described env a) s)"
    by (simp add: tp_discovery_on_metadata_fragment_def Let_def) blast
  then show thesis using ignored applied by blast
qed

section \<open>What a request sends\<close>

lemma or_else_Inr: "or_else r s f = Inr s' \<Longrightarrow> s' = s \<or> (\<exists>x. r = Inr x \<and> f x = Inr s')"
  by (auto simp: or_else_def split: sum.splits tp_error.splits)

lemma send_encoded_keeps:
  assumes "send_encoded S env cap request response s = Inr s'" "publications_ok s"
  shows "publications_ok s' \<and> dn_entries s' = dn_entries s \<and> (dn_sent s' = dn_sent s \<or> (\<exists>x. dn_sent s' = dn_sent s @ [x]))"
proof -
  obtain r s1 where g: "tp_discovery_get_publication env (the (qr_response_channel request)) (qr_response_stream_id request) s = (r, s1)" by force
  then show ?thesis
    using or_else_Inr [OF assms(1) [unfolded send_encoded_def]] get_publication(1-3) [OF g assms(2)] assms(2)
    by (auto simp: offer_to_def publications_ok_def split: option.splits)
qed

lemma send_error_keeps:
  "tp_discovery_send_error S env request message s = Inr s' \<Longrightarrow> publications_ok s \<Longrightarrow>
   publications_ok s' \<and> dn_entries s' = dn_entries s \<and> (dn_sent s' = dn_sent s \<or> (\<exists>x. dn_sent s' = dn_sent s @ [x]))"
  by (auto simp: tp_discovery_send_error_def split: if_splits dest: send_encoded_keeps)

lemma send_encoded_sent:
  assumes "tp_discovery_encode_response S cap response = Inr buffer" "qr_response_channel request = Some channel" "length channel < 1023"
    "pn_alloc_ok env" "pn_add_ok env" "publications_ok s"
  shows "\<exists>s'. send_encoded S env cap request response s = Inr s' \<and> dn_entries s' = dn_entries s \<and>
    dn_sent s' = dn_sent s @ [((channel, qr_response_stream_id request), buffer)]"
proof -
  obtain r s1 where g: "tp_discovery_get_publication env channel (qr_response_stream_id request) s = (r, s1)" by force
  note p = get_publication [OF g assms(6)]
  obtain i where "r = Some i" using p(6) [OF assms(4,5)] by auto
  then show ?thesis using g p(2,3) p(5) [of i] assms(1-3)
    by (simp add: send_encoded_def or_else_def offer_to_def)
qed

lemma handle_request_keeps:
  assumes "tp_discovery_handle_request S env buffer s = Inr s'" "publications_ok s"
  shows "publications_ok s' \<and> dn_entries s' \<in> {dn_entries s, dn_entries (tp_discovery_prune_expired (qe_prune_now env) s)} \<and>
    (dn_sent s' = dn_sent s \<or> (\<exists>x. dn_sent s' = dn_sent s @ [x]))"
proof -
  consider (none) "s' = s"
    | (error) request message where "tp_discovery_send_error S (qe_publication env) request message s = Inr s'"
    | (failed) request message where
        "tp_discovery_send_error S (qe_publication env) request message (tp_discovery_prune_expired (qe_prune_now env) s) = Inr s'"
    | (sent) request response where
        "send_encoded S (qe_publication env) 4096 request response (tp_discovery_prune_expired (qe_prune_now env) s) = Inr s'"
  proof (cases "s' = s")
    case False
    then obtain request where request: "(if qr_response_channel request \<in> {None, Some []} then Inr s
        else if qr_response_stream_id request = 0
        then tp_discovery_send_error S (qe_publication env) request ''response_stream_id must be non-zero'' s
        else (case tp_discovery_service_query (qe_query_ok env) (qe_prune_now env) (qe_now env) request s of
                (Inl (UB m), s) \<Rightarrow> Inl (UB m)
              | (Inl e, s) \<Rightarrow> tp_discovery_send_error S (qe_publication env) request (qe_errmsg env) s
              | (Inr response, s) \<Rightarrow> send_encoded S (qe_publication env) 4096 request response s)) = Inr s'"
      using or_else_Inr [OF assms(1) [unfolded tp_discovery_handle_request_def]] by (auto split: option.splits)
    obtain r where query: "tp_discovery_service_query (qe_query_ok env) (qe_prune_now env) (qe_now env) request s =
        (r, tp_discovery_prune_expired (qe_prune_now env) s)"
      by (metis prod.collapse query_state)
    show thesis
    proof (cases r)
      case (Inl e)
      then show thesis using request query False error failed by (cases e) (auto split: if_splits)
    next
      case (Inr response)
      then show thesis using request query False error sent by (auto split: if_splits)
    qed
  qed (use none in simp)
  then show ?thesis
  proof cases
    case error
    then show ?thesis using send_error_keeps [OF error assms(2)] by simp
  next
    case failed
    have "publications_ok (tp_discovery_prune_expired (qe_prune_now env) s)" using assms(2) by (simp add: publications_ok_def)
    from send_error_keeps [OF failed this] show ?thesis by simp
  next
    case sent
    have "publications_ok (tp_discovery_prune_expired (qe_prune_now env) s)" using assms(2) by (simp add: publications_ok_def)
    from send_encoded_keeps [OF sent this] show ?thesis by simp
  qed (use assms(2) in simp)
qed

lemma request_fragment_keeps:
  "tp_discovery_on_request_fragment S env buffer s = Inr s' \<Longrightarrow> publications_ok s \<Longrightarrow>
   publications_ok s' \<and> dn_entries s' \<in> {dn_entries s, dn_entries (tp_discovery_prune_expired (qe_prune_now env) s)} \<and>
     (dn_sent s' = dn_sent s \<or> (\<exists>x. dn_sent s' = dn_sent s @ [x]))"
  using handle_request_keeps by (auto simp: tp_discovery_on_request_fragment_def split: if_splits prod.splits)

lemma step_publications: "service_step W S f s = Inr s' \<Longrightarrow> publications_ok s \<Longrightarrow> publications_ok s'"
proof (cases f)
  case (AnnounceFragment ok env behind buffer)
  assume "service_step W S f s = Inr s'" "publications_ok s"
  then show ?thesis using AnnounceFragment
    by (cases rule: announce_event [of W ok env behind buffer s]) (auto simp: publications_ok_def announce_frame)
next
  case (MetadataFragment env behind buffer)
  assume "service_step W S f s = Inr s'" "publications_ok s"
  then show ?thesis using MetadataFragment
    by (cases rule: metadata_event [of W env behind buffer s]) (auto simp: publications_ok_def data_source_frame)
next
  case (RequestFragment env buffer)
  assume "service_step W S f s = Inr s'" "publications_ok s"
  then show ?thesis using RequestFragment request_fragment_keeps by simp
next
  case (Expiry now)
  assume "service_step W S f s = Inr s'" "publications_ok s"
  then show ?thesis using Expiry by (auto simp: publications_ok_def)
qed

lemma run_publications: "service_run W S fs (tp_discovery_service_init config) = Inr s \<Longrightarrow> publications_ok s"
  by (erule service_run_keeps [where I = publications_ok])
    (simp add: publications_ok_def tp_discovery_service_init_def, rule step_publications)

section \<open>Announcements as messages\<close>

text \<open>The announcements of schemas/wire-schema.xml, as far as the service reads them.\<close>

definition announce_schema :: stream_schema where
  "announce_schema =
     \<lparr>sy_schema_id = 900, sy_version = 1, sy_templates = [(''ShmPoolAnnounce'', 1), (''DataSourceAnnounce'', 7)],
      sy_blocks =
        [(''ShmPoolAnnounce'', [(''streamId'', 4), (''producerId'', 4), (''epoch'', 8), (''announceTimestampNs'', 8), (''announceClockDomain'', 1),
            (''layoutVersion'', 4), (''headerNslots'', 4), (''headerSlotBytes'', 2)]),
         (''payloadPools'', [(''poolId'', 2), (''poolNslots'', 4), (''strideBytes'', 4)]),
         (''DataSourceAnnounce'', [(''streamId'', 4), (''producerId'', 4), (''epoch'', 8), (''metaVersion'', 4)])],
      sy_enums = [], sy_nulls = []\<rparr>"

abbreviation "announce_stream \<equiv> le_stream announce_schema"

text \<open>The start of an announcement; its pools and the text of the header region follow.\<close>

definition announce_bytes :: "(string \<times> u64) list \<Rightarrow> u16 \<Rightarrow> bytes \<Rightarrow> bytes" where
  "announce_bytes kvs count rest = sq_put_header announce_stream ''ShmPoolAnnounce'' @ sq_block announce_stream ''ShmPoolAnnounce'' kvs @
     sq_dim announce_stream ''payloadPools'' count @ rest"

lemma announce_uri:
  assumes "count \<noteq> 0" "length (announce_bytes kvs count rest) \<le> 65536"
  shows "sq_get announce_stream (sq_skip announce_stream ''ShmPoolAnnounce'' (drop (sq_header_length announce_stream) (announce_bytes kvs count rest))) =
    (None, sq_dim announce_stream ''payloadPools'' count @ rest)"
proof -
  let ?b = "sq_dim announce_stream ''payloadPools'' count @ rest"
  have b: "sq_skip announce_stream ''ShmPoolAnnounce'' (drop (sq_header_length announce_stream) (announce_bytes kvs count rest)) = ?b"
    by (simp add: announce_bytes_def le_stream_def length_block_bytes)
  have "sq_dim announce_stream ''payloadPools'' count = le_bytes 2 (of_nat 10) @ le_bytes 2 (ucast count)"
    by (simp add: le_stream_def fields_of_def announce_schema_def lookup_or_def block_width_def)
  then have "unat (le_u32 ?b) = 10 + 65536 * unat count" using unat_dimensions [of 10 count rest] by simp
  moreover have "1 \<le> unat count" using assms(1) by (simp add: Suc_le_eq unat_gt_0)
  moreover have "length ?b \<le> 65536" using assms(2) by (simp add: announce_bytes_def)
  ultimately have past: "\<not> 4 + unat (le_u32 ?b) \<le> length ?b" by linarith
  have "sq_get announce_stream b = (if 4 + unat (le_u32 b) \<le> length b
      then (Some (bytes_text (take (unat (le_u32 b)) (drop 4 b))), drop (4 + unat (le_u32 b)) b) else (None, b))" for b
    by (simp add: le_stream_def)
  then show ?thesis unfolding b if_not_P [OF past] by (simp only: if_not_P [OF past])
qed

lemma reserve_entries: "tp_discovery_entry_reserve alloc k s = (r, s') \<Longrightarrow> set (dn_entries s') \<subseteq> insert (fresh_entry k) (set (dn_entries s))"
  by (auto simp: tp_discovery_entry_reserve_def split: option.splits if_splits)

lemma put_entries: "set (dn_entries (put_entry i e s)) \<subseteq> insert e (set (dn_entries s))"
  by (simp add: put_entry_def set_update_subset_insert)

text \<open>The entries without the text of a header region.\<close>

definition uris_lost :: "tp_discovery_service \<Rightarrow> bool" where
  "uris_lost s \<longleftrightarrow> (\<forall>e\<in>set (dn_entries s). de_header_region_uri e = [])"

lemma reserve_lost: "tp_discovery_entry_reserve alloc k s = (r, s') \<Longrightarrow> uris_lost s \<Longrightarrow> uris_lost s'"
  using reserve_entries [of alloc k s r s'] by (auto simp: uris_lost_def fresh_entry_def)

lemma put_lost: "uris_lost s \<Longrightarrow> de_header_region_uri e = [] \<Longrightarrow> uris_lost (put_entry i e s)"
  using put_entries [of i e s] by (auto simp: uris_lost_def)

lemma announced_lost: "pa_header_region_uri a = None \<Longrightarrow> de_header_region_uri (announced_entry a e) = []"
  by (simp add: announced_entry_def)

lemma announce_lost:
  assumes "uris_lost s" "pa_header_region_uri a = None"
  shows "uris_lost (snd (tp_discovery_service_apply_announce env a s))"
proof -
  obtain r s' where r: "tp_discovery_entry_reserve (dl_entry_ok env) (pa_stream_id a) s = (r, s')" by force
  then have "uris_lost s'" using assms(1) by (rule reserve_lost)
  then show ?thesis
    using assms announced_lost [OF assms(2)] r
    by (cases r) (auto simp: tp_discovery_service_apply_announce_def Let_def tp_discovery_entry_clear_def intro!: put_lost split: option.split)
qed

lemma data_source_lost:
  assumes "uris_lost s" "index_ok s"
  shows "uris_lost (snd (tp_discovery_service_apply_data_source env a s))"
proof (cases "dw_stream_id a = 0")
  case False
  obtain r s' where r: "tp_discovery_entry_reserve (dl_entry_ok env) (dw_stream_id a) s = (r, s')" by force
  then have lost: "uris_lost s'" using assms(1) by (rule reserve_lost)
  show ?thesis
  proof (cases r)
    case (Inr i)
    then have "dn_entries s' ! i \<in> set (dn_entries s')" using reserved(2) [OF assms(2) False] r by simp
    then have "de_header_region_uri (dn_entries s' ! i) = []" using lost by (simp add: uris_lost_def)
    then show ?thesis using r Inr lost assms(1)
      by (auto simp: tp_discovery_service_apply_data_source_def Let_def intro!: put_lost)
  qed (use r lost assms(1) in \<open>simp add: tp_discovery_service_apply_data_source_def\<close>)
qed (use assms(1) in \<open>simp add: tp_discovery_service_apply_data_source_def\<close>)

fun encoded_announcement :: "service_fragment \<Rightarrow> bool" where
  "encoded_announcement (AnnounceFragment ok env behind buffer) \<longleftrightarrow>
     (\<exists>kvs count rest. buffer = announce_bytes kvs count rest \<and> count \<noteq> 0 \<and> length buffer \<le> 65536)"
| "encoded_announcement (MetadataFragment env behind buffer) \<longleftrightarrow> True"
| "encoded_announcement (RequestFragment env buffer) \<longleftrightarrow> True"
| "encoded_announcement (Expiry now) \<longleftrightarrow> True"

lemma announce_fragment_lost:
  assumes "count \<noteq> 0" "length (announce_bytes kvs count rest) \<le> 65536" "uris_lost s"
  shows "uris_lost (tp_discovery_on_announce_fragment announce_stream ok env behind (announce_bytes kvs count rest) s)"
  using assms(3) announce_lost [OF assms(3)]
  unfolding tp_discovery_on_announce_fragment_def Let_def announce_uri [OF assms(1,2)]
  by (auto simp: pointed_text_def split: prod.split)

lemma entries_ok:
  "dn_entries s' \<in> {dn_entries s, dn_entries (tp_discovery_prune_expired now s)} \<Longrightarrow> index_ok s \<Longrightarrow> index_ok s'"
  "dn_entries s' \<in> {dn_entries s, dn_entries (tp_discovery_prune_expired now s)} \<Longrightarrow> uris_lost s \<Longrightarrow> uris_lost s'"
  using pruned_ok [of s now] by (auto simp: index_ok_def uris_lost_def pruned)

lemma step_index: "service_step W S f s = Inr s' \<Longrightarrow> publications_ok s \<and> index_ok s \<Longrightarrow> publications_ok s' \<and> index_ok s'"
proof (cases f)
  case (AnnounceFragment ok env behind buffer)
  assume "service_step W S f s = Inr s'" "publications_ok s \<and> index_ok s"
  then show ?thesis using AnnounceFragment step_publications [of W S f s s'] discovery_step_ok [of s]
    by (cases rule: announce_event [of W ok env behind buffer s]) (auto simp del: discovery_step.simps)
next
  case (MetadataFragment env behind buffer)
  assume "service_step W S f s = Inr s'" "publications_ok s \<and> index_ok s"
  then show ?thesis using MetadataFragment step_publications [of W S f s s'] discovery_step_ok [of s]
    by (cases rule: metadata_event [of W env behind buffer s]) (auto simp del: discovery_step.simps)
next
  case (RequestFragment env buffer)
  assume "service_step W S f s = Inr s'" "publications_ok s \<and> index_ok s"
  then show ?thesis using RequestFragment request_fragment_keeps [of S env buffer s s'] entries_ok(1) [of s' s "qe_prune_now env"] by simp
next
  case (Expiry now)
  assume "service_step W S f s = Inr s'" "publications_ok s \<and> index_ok s"
  then show ?thesis using Expiry pruned_ok by (auto simp: publications_ok_def)
qed

lemma init_publications: "publications_ok (tp_discovery_service_init config) \<and> index_ok (tp_discovery_service_init config)"
  using init_index_ok by (simp add: publications_ok_def tp_discovery_service_init_def)

lemma run_index: "service_run W S fs (tp_discovery_service_init config) = Inr s \<Longrightarrow> publications_ok s \<and> index_ok s"
  by (erule service_run_keeps [where I = "\<lambda>s. publications_ok s \<and> index_ok s"]) (rule init_publications, rule step_index)

lemma step_lost:
  assumes "encoded_announcement f" "service_step announce_stream S f s = Inr s'" "publications_ok s \<and> index_ok s" "uris_lost s"
  shows "uris_lost s'"
proof (cases f)
  case (AnnounceFragment ok env behind buffer)
  then show ?thesis using assms announce_fragment_lost by auto
next
  case (MetadataFragment env behind buffer)
  then show ?thesis using assms data_source_lost by (cases rule: metadata_event [of announce_stream env behind buffer s]) auto
next
  case (RequestFragment env buffer)
  then show ?thesis using assms request_fragment_keeps [of S env buffer s s'] entries_ok(2) [of s' s "qe_prune_now env"] by simp
next
  case (Expiry now)
  then show ?thesis using assms entries_ok(2) [of s' s now] by simp
qed

lemma run_lost:
  assumes "service_run announce_stream S fs (tp_discovery_service_init config) = Inr s" "\<forall>f\<in>set fs. encoded_announcement f"
  shows "(publications_ok s \<and> index_ok s) \<and> uris_lost s"
proof (rule service_run_keeps [OF assms(1), where I = "\<lambda>s. (publications_ok s \<and> index_ok s) \<and> uris_lost s"])
  show "(publications_ok (tp_discovery_service_init config) \<and> index_ok (tp_discovery_service_init config)) \<and> uris_lost (tp_discovery_service_init config)"
    using init_publications by (simp add: uris_lost_def tp_discovery_service_init_def)
  show "(publications_ok s' \<and> index_ok s') \<and> uris_lost s'"
    if "f \<in> set fs" "service_step announce_stream S f s = Inr s'" "(publications_ok s \<and> index_ok s) \<and> uris_lost s" for f s s'
    using that assms(2) step_index [OF that(2)] step_lost [OF _ that(2)] by blast
qed

text \<open>The results of a query have the texts of the entries.\<close>

lemma fill_uris:
  "fill_loop ok now expiry request s k es = Inr rs \<Longrightarrow> r \<in> set rs \<Longrightarrow> \<exists>e\<in>set es. dx_header_region_uri r = copied 4096 (de_header_region_uri e)"
proof (induction es arbitrary: k rs)
  case (Cons e es)
  then show ?case by (fastforce simp: bind_res_Inr tp_discovery_result_fill_def guard_def split: if_splits)
qed simp

lemma query_uris:
  assumes "fst (tp_discovery_service_query ok prune_now now request s) = Inr response" "uris_lost s" "r \<in> set (rp_results response)"
  shows "dx_header_region_uri r = []"
proof -
  have lost: "uris_lost (tp_discovery_prune_expired prune_now s)" using entries_ok(2) [of "tp_discovery_prune_expired prune_now s" s prune_now] assms(2) by simp
  obtain k where "fill_loop ok now (tp_discovery_expiry_ns s) request (tp_discovery_prune_expired prune_now s) 0
      (dn_entries (tp_discovery_prune_expired prune_now s)) = Inr (rp_results response)"
    using assms(1,3) by (auto simp: tp_discovery_service_query_def Let_def empty_response_def pruned bind_res_Inr split: if_splits)
  from fill_uris [OF this assms(3)] lost show ?thesis by (auto simp: uris_lost_def copied_def)
qed

section \<open>Data sources as messages\<close>

definition metadata_bytes :: "(string \<times> u64) list \<Rightarrow> string \<Rightarrow> string \<Rightarrow> bytes" where
  "metadata_bytes kvs name summary = sq_put_header announce_stream ''DataSourceAnnounce'' @ sq_block announce_stream ''DataSourceAnnounce'' kvs @
     sq_data announce_stream name @ sq_data announce_stream summary"

lemma announce_laws: "stream_laws announce_stream (le_fits announce_schema)"
  by (rule stream_laws_le) (simp add: schema_ok_def announce_schema_def block_width_def)

lemma small_length_bytes:
  assumes "0 < n" "n < 256"
  shows "\<exists>r. bytes_text (le_bytes 4 (of_nat n)) = char_of n # char_of (0 :: nat) # r"
proof -
  have n: "unat (of_nat n :: u64) = n" using assms by (simp add: unat_of_nat)
  then have lo: "unat (ucast (of_nat n :: u64) :: u8) = n" using assms by (simp only: unat_u64_u8) simp
  have "unat (drop_bit 8 (of_nat n :: u64)) = 0" using assms n unat_drop_bit_eq [of 8 "of_nat n :: u64"] by (simp add: drop_bit_eq_div)
  then have hi: "drop_bit 8 (of_nat n :: u64) = 0" using unat_eq_zero by blast
  have "le_bytes 4 v = ucast v # ucast (drop_bit 8 v) # le_bytes 2 (drop_bit 8 (drop_bit 8 v))" for v :: u64
  proof -
    have four: "(4 :: nat) = Suc (Suc 2)" by simp
    show ?thesis unfolding four le_bytes.simps ..
  qed
  then show ?thesis using lo hi by (simp add: bytes_text_def)
qed

text \<open>The text of the name runs on into the length of the summary.\<close>

lemma metadata_name:
  assumes "no_nul name" "length name < 2 ^ 32" "0 < length summary" "length summary < 256"
  shows "pointed_text behind (sq_get announce_stream (sq_skip announce_stream ''DataSourceAnnounce''
      (drop (sq_header_length announce_stream) (metadata_bytes kvs name summary)))) = Some (name @ [char_of (length summary)])"
proof -
  have skip: "sq_skip announce_stream ''DataSourceAnnounce'' (drop (sq_header_length announce_stream) (metadata_bytes kvs name summary)) =
      sq_data announce_stream name @ sq_data announce_stream summary"
    by (simp add: metadata_bytes_def le_stream_def length_block_bytes)
  have get: "sq_get announce_stream (sq_data announce_stream name @ sq_data announce_stream summary) = (Some name, sq_data announce_stream summary)"
    by (rule stream_laws.get_data [OF announce_laws assms(2)])
  obtain r where r: "bytes_text (sq_data announce_stream summary) = char_of (length summary) # char_of (0 :: nat) # r"
    using small_length_bytes [OF assms(3,4)] by (auto simp: le_stream_def)
  have last: "char_of (length summary) \<noteq> char_of (0 :: nat)"
  proof
    assume "char_of (length summary) = char_of (0 :: nat)"
    then have "(of_char (char_of (length summary)) :: nat) = of_char (char_of (0 :: nat))" by simp
    then show False using assms(3,4) by simp
  qed
  have "c_string (name @ bytes_text (sq_data announce_stream summary @ behind)) = name @ [char_of (length summary)]"
    using assms(1) last unfolding bytes_text_append r c_string_def
    by (subst takeWhile_append2) (auto simp: no_nul_def)
  then show ?thesis unfolding skip get pointed_text_def by simp
qed

section \<open>Messages at concrete values\<close>

text \<open>A request in the order in which the service reads it.\<close>

definition readable_request :: tp_discovery_request where
  "readable_request = tp_discovery_request_init\<lparr>qr_request_id := 7, qr_client_id := 3, qr_response_channel := Some ''aeron:ipc'', qr_response_stream_id := 1\<rparr>"

definition readable_bytes :: bytes where
  "readable_bytes = sq_put_header discovery_stream ''DiscoveryRequest'' @
     sq_block discovery_stream ''DiscoveryRequest'' (request_fields discovery_stream readable_request) @
     sq_data discovery_stream ''aeron:ipc'' @ sq_data discovery_stream [] @ sq_dim discovery_stream ''tags'' 0"

definition readable_env :: request_env where
  "readable_env = \<lparr>qe_decode_ok = (\<lambda>x. True), qe_query_ok = (\<lambda>x. True), qe_prune_now = 2000, qe_now = 2000,
     qe_publication = \<lparr>pn_alloc_ok = True, pn_add_ok = True\<rparr>, qe_errmsg = []\<rparr>"

lemma readable_fields: "request_fields discovery_stream readable_request =
    [(''requestId'', 7), (''clientId'', 3), (''responseStreamId'', 1), (''streamId'', 0xFFFFFFFF), (''producerId'', 0xFFFFFFFF),
      (''dataSourceId'', 0xFFFFFFFFFFFFFFFF)]"
  by (simp add: request_fields_def readable_request_def tp_discovery_request_init_def le_stream_def discovery_schema_def lookup_or_def)

lemma readable_fits: "le_fits discovery_schema ''DiscoveryRequest'' (request_fields discovery_stream readable_request)"
  unfolding readable_fields le_fits_def discovery_fields by simp

lemma readable_decoded: "tp_discovery_decode_request discovery_stream (qe_decode_ok readable_env) readable_bytes = Inr (Some readable_request)"
proof -
  let ?S = discovery_stream and ?kvs = "request_fields discovery_stream readable_request"
  let ?t = "sq_data ?S ''aeron:ipc'' @ sq_data ?S [] @ sq_dim ?S ''tags'' 0"
  note field = discovery.field_block [OF readable_fits, of _ _ ?t]
  have fields: "sq_field ?S ''DiscoveryRequest'' ''requestId'' (sq_block ?S ''DiscoveryRequest'' ?kvs @ ?t) = 7"
    "sq_field ?S ''DiscoveryRequest'' ''clientId'' (sq_block ?S ''DiscoveryRequest'' ?kvs @ ?t) = 3"
    "sq_field ?S ''DiscoveryRequest'' ''responseStreamId'' (sq_block ?S ''DiscoveryRequest'' ?kvs @ ?t) = 1"
    "sq_field ?S ''DiscoveryRequest'' ''streamId'' (sq_block ?S ''DiscoveryRequest'' ?kvs @ ?t) = 0xFFFFFFFF"
    "sq_field ?S ''DiscoveryRequest'' ''producerId'' (sq_block ?S ''DiscoveryRequest'' ?kvs @ ?t) = 0xFFFFFFFF"
    "sq_field ?S ''DiscoveryRequest'' ''dataSourceId'' (sq_block ?S ''DiscoveryRequest'' ?kvs @ ?t) = 0xFFFFFFFFFFFFFFFF"
    by (rule field, simp add: readable_fields)+
  have copies: "get_copy ?S True m (sq_data ?S ''aeron:ipc'' @ r) = Inr (Some ''aeron:ipc'', r)" "get_copy ?S True m (sq_data ?S [] @ r) = Inr (None, r)" for m r
    using discovery.get_data [of "''aeron:ipc''" r] discovery.length_data [of "''aeron:ipc''" r] discovery.get_data [of "[]" r] discovery.length_data [of "[]" r]
    by (simp_all add: get_copy_def c_string_def char_of_nul)
  have wrap: "sq_wrap ?S ''tags'' (sq_dim ?S ''tags'' 0) = (0, [])" using discovery.wrap_dim [of "''tags''" 0 "[]"] by simp
  have ok: "qe_decode_ok readable_env x" for x by (simp add: readable_env_def)
  have "decode_request_body ?S (qe_decode_ok readable_env) (sq_block ?S ''DiscoveryRequest'' ?kvs @ ?t) = Inr readable_request"
    by (simp add: decode_request_body_def Let_def fields request_skip ok copies wrap)
      (simp add: readable_request_def tp_discovery_request_init_def TP_NULL_U32_def TP_NULL_U64_def)
  then show ?thesis
    unfolding tp_discovery_decode_request_def readable_bytes_def head_of_request request_skip by simp
qed

definition sample_metadata :: "(string \<times> u64) list" where
  "sample_metadata = [(''streamId'', 9), (''producerId'', 6), (''epoch'', 1), (''metaVersion'', 1)]"

definition sample_announcement :: "(string \<times> u64) list" where
  "sample_announcement = [(''streamId'', 5), (''producerId'', 6), (''epoch'', 1), (''announceTimestampNs'', 900), (''announceClockDomain'', 1),
     (''layoutVersion'', 1), (''headerNslots'', 8), (''headerSlotBytes'', 256)]"

definition sample_pools_bytes :: bytes where
  "sample_pools_bytes = sq_block announce_stream ''payloadPools'' [(''poolId'', 1), (''poolNslots'', 8), (''strideBytes'', 64)] @
     sq_data announce_stream ''shm:file?path=/p'' @ sq_data announce_stream ''shm:file?path=/h''"

lemma sample_announcement_small: "length (announce_bytes sample_announcement 1 sample_pools_bytes) \<le> 65536"
  by (simp add: announce_bytes_def sample_pools_bytes_def le_stream_def length_block_bytes fields_of_def announce_schema_def lookup_or_def block_width_def)

lemma sample_announcement_fits:
  "le_fits announce_schema ''ShmPoolAnnounce'' sample_announcement"
  "le_fits announce_schema ''payloadPools'' [(''poolId'', 1), (''poolNslots'', 8), (''strideBytes'', 64)]"
  by (simp_all add: le_fits_def sample_announcement_def announce_schema_def fields_of_def lookup_or_def)

lemma sample_announced_pools:
  "\<exists>uri. announced_pools announce_stream [] 1 1 0 sample_pools_bytes =
     [\<lparr>pb_pool_id = 1, pb_pool_nslots = 8, pb_stride_bytes = 64, pb_region_uri = uri\<rparr>]"
proof -
  let ?kvs = "[(''poolId'', 1), (''poolNslots'', 8), (''strideBytes'', 64)] :: (string \<times> u64) list"
  let ?t = "sq_data announce_stream ''shm:file?path=/p'' @ sq_data announce_stream ''shm:file?path=/h''"
  note field = stream_laws.field_block [OF announce_laws sample_announcement_fits(2), of _ _ ?t]
  have fields: "sq_field announce_stream ''payloadPools'' ''poolId'' (sq_block announce_stream ''payloadPools'' ?kvs @ ?t) = 1"
    "sq_field announce_stream ''payloadPools'' ''poolNslots'' (sq_block announce_stream ''payloadPools'' ?kvs @ ?t) = 8"
    "sq_field announce_stream ''payloadPools'' ''strideBytes'' (sq_block announce_stream ''payloadPools'' ?kvs @ ?t) = 64"
    by (rule field, simp)+
  have nxt: "sq_next announce_stream ''payloadPools'' 0 1 (sq_block announce_stream ''payloadPools'' ?kvs @ ?t) = Some ?t"
    by (rule stream_laws.next_block [OF announce_laws sample_announcement_fits(2)]) simp
  have one: "(1 :: nat) = Suc 0" by simp
  have "announced_pools announce_stream [] 1 (Suc 0) 0 sample_pools_bytes =
      [\<lparr>pb_pool_id = 1, pb_pool_nslots = 8, pb_stride_bytes = 64, pb_region_uri = pointed_text [] (sq_get announce_stream ?t)\<rparr>]"
    unfolding sample_pools_bytes_def announced_pools.simps nxt option.case fields by simp
  then show ?thesis by auto
qed

lemma sample_announcement_event:
  "\<exists>a. tp_discovery_on_announce_fragment announce_stream True discovery_sample_env [] (announce_bytes sample_announcement 1 sample_pools_bytes) s =
      discovery_step (Announced discovery_sample_env a) s \<and> announce_accepted a \<and> pools_match a \<and> pa_stream_id a = 5 \<and> pa_epoch a = 1"
proof -
  let ?b = "drop (sq_header_length announce_stream) (announce_bytes sample_announcement 1 sample_pools_bytes)"
  have head: "stream_head announce_stream ''ShmPoolAnnounce'' (announce_bytes sample_announcement 1 sample_pools_bytes) = 0"
    unfolding announce_bytes_def by (rule stream_laws.head_written [OF announce_laws])
  have body: "?b = sq_block announce_stream ''ShmPoolAnnounce'' sample_announcement @ sq_dim announce_stream ''payloadPools'' 1 @ sample_pools_bytes"
    by (simp add: announce_bytes_def le_stream_def)
  note field = stream_laws.field_block [OF announce_laws sample_announcement_fits(1), of _ _ "sq_dim announce_stream ''payloadPools'' 1 @ sample_pools_bytes"]
  have fields: "sq_field announce_stream ''ShmPoolAnnounce'' ''streamId'' ?b = 5" "sq_field announce_stream ''ShmPoolAnnounce'' ''epoch'' ?b = 1"
    "sq_field announce_stream ''ShmPoolAnnounce'' ''headerNslots'' ?b = 8" "sq_field announce_stream ''ShmPoolAnnounce'' ''headerSlotBytes'' ?b = 256"
    unfolding body by (rule field, simp add: sample_announcement_def)+
  have one: "(1 :: u16) \<noteq> 0" by simp
  note uri = announce_uri [OF one sample_announcement_small]
  have wrap: "sq_wrap announce_stream ''payloadPools'' (sq_dim announce_stream ''payloadPools'' 1 @ sample_pools_bytes) = (1, sample_pools_bytes)"
    by (rule stream_laws.wrap_dim [OF announce_laws])
  obtain u where pools: "announced_pools announce_stream [] 1 1 0 sample_pools_bytes =
      [\<lparr>pb_pool_id = 1, pb_pool_nslots = 8, pb_stride_bytes = 64, pb_region_uri = u\<rparr>]" using sample_announced_pools by blast
  define a where "a = \<lparr>pa_stream_id = 5, pa_producer_id = ucast (sq_field announce_stream ''ShmPoolAnnounce'' ''producerId'' ?b), pa_epoch = 1,
      pa_layout_version = ucast (sq_field announce_stream ''ShmPoolAnnounce'' ''layoutVersion'' ?b), pa_header_nslots = 8,
      pa_header_slot_bytes = 256, pa_header_region_uri = None,
      pa_pools = [\<lparr>pb_pool_id = 1, pb_pool_nslots = 8, pb_stride_bytes = 64, pb_region_uri = u\<rparr>]\<rparr>"
  have "tp_discovery_on_announce_fragment announce_stream True discovery_sample_env [] (announce_bytes sample_announcement 1 sample_pools_bytes) s =
      discovery_step (Announced discovery_sample_env a) s"
    unfolding tp_discovery_on_announce_fragment_def head Let_def uri snd_conv wrap prod.case fields a_def pointed_text_def
    by (simp add: pools [simplified])
  moreover have "announce_accepted a" "pools_match a" "pa_stream_id a = 5" "pa_epoch a = 1"
    by (simp_all add: a_def announce_accepted_def pools_match_def TP_HEADER_SLOT_BYTES_def)
  ultimately show ?thesis by blast
qed

section \<open>Properties\<close>





text \<open>
  The name of a data source that has a summary cannot be found. The handler takes the pointer to the name in the message for a
  C string, which runs on into the length of the summary: the entry is stored under the name and one more
  character, and does not match a query for the name.
\<close>

theorem metadata_name_spoiled:
  assumes "service_run W S fs (tp_discovery_service_init config) = Inr s" "env_ok env"
    "le_fits announce_schema ''DataSourceAnnounce'' kvs" "(''streamId'', ucast k) \<in> set kvs" "(''epoch'', epoch) \<in> set kvs" "k \<noteq> 0"
    "\<forall>e\<in>set (dn_entries s). de_stream_id e = k \<longrightarrow> de_epoch e \<le> epoch"
    "no_nul name" "name \<noteq> []" "length name < 255" "0 < length summary" "length summary < 256"
  shows "\<exists>e\<in>set (dn_entries (tp_discovery_on_metadata_fragment announce_stream env behind (metadata_bytes kvs name summary) s)).
    de_stream_id e = k \<and> de_data_source_name e = name @ [char_of (length summary)] \<and>
    \<not> tp_discovery_entry_matches e (request\<lparr>qr_data_source_name := Some name\<rparr>)"
proof -
  let ?b = "drop (sq_header_length announce_stream) (metadata_bytes kvs name summary)"
  have ok: "index_ok s"
    using run_index [OF assms(1)] by blast
  have head: "stream_head announce_stream ''DataSourceAnnounce'' (metadata_bytes kvs name summary) = 0"
    unfolding metadata_bytes_def by (rule stream_laws.head_written [OF announce_laws])
  have body: "?b = sq_block announce_stream ''DataSourceAnnounce'' kvs @ sq_data announce_stream name @ sq_data announce_stream summary"
    by (simp add: metadata_bytes_def le_stream_def)
  have field: "sq_field announce_stream ''DataSourceAnnounce'' nm ?b = v" if "(nm, v) \<in> set kvs" for nm v
    unfolding body by (rule stream_laws.field_block [OF announce_laws assms(3) that])
  define a where "a = \<lparr>dw_stream_id = ucast (sq_field announce_stream ''DataSourceAnnounce'' ''streamId'' ?b),
      dw_producer_id = ucast (sq_field announce_stream ''DataSourceAnnounce'' ''producerId'' ?b),
      dw_epoch = sq_field announce_stream ''DataSourceAnnounce'' ''epoch'' ?b,
      dw_name = pointed_text behind (sq_get announce_stream (sq_skip announce_stream ''DataSourceAnnounce'' ?b))\<rparr>"
  have s': "tp_discovery_on_metadata_fragment announce_stream env behind (metadata_bytes kvs name summary) s = discovery_step (Described env a) s"
    by (simp add: tp_discovery_on_metadata_fragment_def head Let_def a_def)
  have "length name < 2 ^ 32" using assms(10) by simp
  note stored = metadata_name [OF assms(8) this assms(11,12), of behind kvs]
  have a: "dw_stream_id a = k" "dw_epoch a = epoch" "dw_name a = Some (name @ [char_of (length summary)])"
    unfolding a_def stored field [OF assms(4)] field [OF assms(5)] by simp_all
  let ?m = "known_streams s"
  have "\<not> epoch < vz_epoch (view_at ?m k)"
  proof (cases "index (dn_entries s) k")
    case (Some e)
    then have "e \<in> set (dn_entries s)" "de_stream_id e = k" using index_Some [OF index_okD(1) [OF ok]] Some by auto
    then show ?thesis using assms(7) Some by (auto simp: view_at_def known_streams_def view_of_def not_less)
  qed (simp add: view_at_def known_streams_def unknown_stream_def)
  then have spec: "spec_step (tp_discovery_expiry_ns s) (Described env a) ?m =
      ?m(k \<mapsto> (view_at ?m k)\<lparr>vz_epoch := epoch, vz_producer := dw_producer_id a, vz_name := copied 256 (name @ [char_of (length summary)]),
        vz_seen := dl_now env\<rparr>)"
    using assms(6) a by (simp add: if_newest_def)
  have "known_streams (discovery_step (Described env a) s) = spec_step (tp_discovery_expiry_ns s) (Described env a) ?m"
    by (rule step_refines [OF ok]) (simp add: assms(2))
  then have "known_streams (discovery_step (Described env a) s) k = Some ((view_at ?m k)\<lparr>vz_epoch := epoch, vz_producer := dw_producer_id a,
      vz_name := copied 256 (name @ [char_of (length summary)]), vz_seen := dl_now env\<rparr>)"
    unfolding spec by (simp only: fun_upd_same)
  then obtain v where v: "known_streams (discovery_step (Described env a) s) k = Some v" "vz_name v = copied 256 (name @ [char_of (length summary)])"
    by simp
  then obtain e where e: "index (dn_entries (discovery_step (Described env a) s)) k = Some e" "de_data_source_name e = name @ [char_of (length summary)]"
    using v assms(10) by (cases "index (dn_entries (discovery_step (Described env a) s)) k") (auto simp: known_streams_def view_of_def copied_short simp del: discovery_step.simps)
  have "e \<in> set (dn_entries (discovery_step (Described env a) s)) \<and> de_stream_id e = k"
    using e(1) index_Some [OF index_okD(1) [OF discovery_step_ok [OF ok]]] by blast
  then show ?thesis unfolding s' using e(2) assms(9) by (intro bexI [of _ e]) (simp_all add: matches_eq request_admits_def)
qed

corollary metadata_name_spoiled_witness:
  "\<exists>e\<in>set (dn_entries (tp_discovery_on_metadata_fragment announce_stream discovery_sample_env [] (metadata_bytes sample_metadata ''camera'' ''front door'')
      (tp_discovery_service_init discovery_sample_config))). de_stream_id e = 9 \<and> de_data_source_name e = ''camera'' @ [CHR 0x0A]"
proof -
  have run: "service_run announce_stream discovery_stream [] (tp_discovery_service_init discovery_sample_config) = Inr (tp_discovery_service_init discovery_sample_config)"
    by simp
  have "env_ok discovery_sample_env" by (simp add: env_ok_def discovery_sample_env_def)
  moreover have "le_fits announce_schema ''DataSourceAnnounce'' sample_metadata"
    by (simp add: le_fits_def sample_metadata_def announce_schema_def fields_of_def lookup_or_def)
  moreover have "(''streamId'', ucast (9 :: u32)) \<in> set sample_metadata" "(''epoch'', 1) \<in> set sample_metadata" by (simp_all add: sample_metadata_def)
  moreover have "no_nul ''camera''" by (simp add: no_nul_def char_of_nul)
  ultimately have "\<exists>e\<in>set (dn_entries (tp_discovery_on_metadata_fragment announce_stream discovery_sample_env [] (metadata_bytes sample_metadata ''camera'' ''front door'')
      (tp_discovery_service_init discovery_sample_config))). de_stream_id e = 9 \<and> de_data_source_name e = ''camera'' @ [char_of (length ''front door'')]"
    using metadata_name_spoiled [OF run, of discovery_sample_env sample_metadata 9 1 "''camera''" "''front door''" "[]" tp_discovery_request_init]
    by (auto simp: tp_discovery_service_init_def)
  moreover have n: "length ''front door'' = 10" by simp
  have "''camera'' @ [char_of (length ''front door'')] = ''camera'' @ [CHR 0x0A]" unfolding n by (simp add: char_of_def bit_simps)
  ultimately show ?thesis by (simp only: )
qed

end
