(* ===== verification/Tp_Tracelink.thy ===== *)
theory Tp_Tracelink
  imports Tp_Stream Tp_Producer
begin

text \<open>
  Trace links (src/common/tp_tracelink.c): which trace id a frame gets from those of the frames it was made of, and
  the message that names them. The lemmas say that a set that is encoded is decoded as it was, that a decoded
  set names distinct parents, and that what is resolved can be sent.
\<close>

section \<open>Parents\<close>

definition TP_TRACELINK_MAX_PARENTS :: nat where "TP_TRACELINK_MAX_PARENTS = 256"

record tp_tracelink_set =
  tl_stream_id :: u32
  tl_epoch :: u64
  tl_seq :: u64
  tl_trace_id :: u64
  tl_parents :: "u64 list"

text \<open>The loops over the parents; \<open>seen\<close> are those before the current one.\<close>

fun parents_loop :: "u64 list \<Rightarrow> u64 list \<Rightarrow> bool" where
  "parents_loop seen [] \<longleftrightarrow> True"
| "parents_loop seen (p # ps) \<longleftrightarrow>
     (if p = 0 then False
      else if find_index (\<lambda>q. p = q) seen \<noteq> None then False
      else parents_loop (seen @ [p]) ps)"

definition tp_tracelink_validate_parents :: "u64 list \<Rightarrow> bool" where
  "tp_tracelink_validate_parents ps \<longleftrightarrow> (if ps = [] then False else parents_loop [] ps)"

text \<open>The generator takes the rounds of its loop; \<open>None\<close> when it is still in it after them.\<close>

definition tp_tracelink_resolve_trace_id ::
  "tp_trace_id_generator option \<Rightarrow> (u64 \<times> bool) list \<Rightarrow> u64 list \<Rightarrow> (tp_trace_id_generator option \<times> u64 \<times> bool) res option" where
  "tp_tracelink_resolve_trace_id generator rounds parents =
     (if length parents > TP_TRACELINK_MAX_PARENTS then Some (Inl (EINVAL ''tp_tracelink_resolve_trace_id: parent count invalid''))
      else if length parents > 0 \<and> \<not> tp_tracelink_validate_parents parents
      then Some (Inl (EINVAL ''tp_tracelink_resolve_trace_id: invalid parent list''))
      else if length parents = 1 then Some (Inr (generator, parents ! 0, False))
      else
        (case generator of
           None \<Rightarrow> Some (Inl (EINVAL ''tp_tracelink_resolve_trace_id: generator required''))
         | Some g \<Rightarrow>
             map_option (\<lambda>(g', trace_id).
                 if trace_id = 0 then Inl (EINVAL ''tp_tracelink_resolve_trace_id: generator returned 0'')
                 else Inr (Some g', trace_id, length parents > 1))
               (tp_trace_id_generator_next g rounds)))"

section \<open>The message\<close>

text \<open>
  The encoder computes the size from literals and does not look at the results of the accessors of the
  group, so a failing accessor would leave the group undefined.
\<close>

definition tracelink_size :: "stream_codec \<Rightarrow> nat \<Rightarrow> nat" where
  "tracelink_size S parent_count = sq_header_length S + unat (sq_block_length S ''TraceLinkSet'') + 4 + parent_count * 8"

fun put_parents :: "stream_codec \<Rightarrow> nat \<Rightarrow> nat \<Rightarrow> nat \<Rightarrow> u64 list \<Rightarrow> bytes \<Rightarrow> bytes res" where
  "put_parents S cap n i [] w = Inr w"
| "put_parents S cap n i (p # ps) w =
     guard (\<not> sq_room S ''parents'' cap n i w) (UB ''write past the group'') (put_parents S cap n (Suc i) ps (w @ sq_block S ''parents'' [(''traceId'', p)]))"

definition tracelink_fields :: "tp_tracelink_set \<Rightarrow> (string \<times> u64) list" where
  "tracelink_fields links = [(''streamId'', ucast (tl_stream_id links)), (''epoch'', tl_epoch links), (''seq'', tl_seq links), (''traceId'', tl_trace_id links)]"

definition tp_tracelink_set_encode :: "stream_codec \<Rightarrow> nat \<Rightarrow> tp_tracelink_set \<Rightarrow> bytes res" where
  "tp_tracelink_set_encode S cap links =
     guard (tl_trace_id links = 0) (EINVAL ''tp_tracelink_set_encode: trace_id is required'')
     (guard (length (tl_parents links) = 0 \<or> length (tl_parents links) > 65535) (EINVAL ''tp_tracelink_set_encode: invalid parent count'')
     (guard (\<not> tp_tracelink_validate_parents (tl_parents links)) (EINVAL ''tp_tracelink_set_encode: invalid parent list'')
     (guard (cap < tracelink_size S (length (tl_parents links))) (EINVAL ''tp_tracelink_set_encode: buffer too small'')
     (case sq_put_dim S ''parents'' cap (of_nat (length (tl_parents links)))
             (sq_put_header S ''TraceLinkSet'' @ sq_block S ''TraceLinkSet'' (tracelink_fields links)) of
        None \<Rightarrow> Inl (UB ''group not wrapped'')
      | Some w \<Rightarrow> put_parents S cap (unat (of_nat (length (tl_parents links)) :: u16)) 0 (tl_parents links) w))))"

text \<open>\<open>wrap_ok\<close>: the accessor that wraps the group does not fail.\<close>

fun get_parents :: "stream_codec \<Rightarrow> nat \<Rightarrow> nat \<Rightarrow> nat \<Rightarrow> u64 list \<Rightarrow> bytes \<Rightarrow> u64 list res" where
  "get_parents S n 0 i seen b = Inr seen"
| "get_parents S n (Suc k) i seen b =
     (case sq_next S ''parents'' i n b of
        None \<Rightarrow> Inl (EINVAL ''tp_tracelink_set_decode: parents group truncated'')
      | Some b' \<Rightarrow>
          let p = sq_field S ''parents'' ''traceId'' b
          in guard (p = 0) (EINVAL ''tp_tracelink_set_decode: parent trace_id invalid'')
             (guard (find_index (\<lambda>q. p = q) seen \<noteq> None) (EINVAL ''tp_tracelink_set_decode: duplicate parent trace_id'')
             (get_parents S n k (Suc i) (seen @ [p]) b')))"

definition decode_tracelink_body :: "stream_codec \<Rightarrow> (bytes \<Rightarrow> bool) \<Rightarrow> nat \<Rightarrow> bytes \<Rightarrow> tp_tracelink_set res" where
  "decode_tracelink_body S wrap_ok max_parents b =
     (let field = (\<lambda>nm. sq_field S ''TraceLinkSet'' nm b);
          links = \<lparr>tl_stream_id = ucast (field ''streamId''), tl_epoch = field ''epoch'', tl_seq = field ''seq'', tl_trace_id = field ''traceId'', tl_parents = []\<rparr>;
          t = sq_skip S ''TraceLinkSet'' b
      in guard (tl_trace_id links = 0) (EINVAL ''tp_tracelink_set_decode: trace_id missing'')
         (guard (\<not> wrap_ok t) (EINVAL ''tp_tracelink_set_decode: parents group invalid'')
         (case sq_wrap S ''parents'' t of
            (count, t) \<Rightarrow>
              guard (unat count < 1 \<or> unat count > max_parents) (EINVAL ''tp_tracelink_set_decode: parent count invalid'')
                (bind_res (get_parents S (unat count) (unat count) 0 [] t) (\<lambda>ps. Inr (links\<lparr>tl_parents := ps\<rparr>))))))"

text \<open>\<open>Inr None\<close> is the result 1: another message.\<close>

definition tp_tracelink_set_decode :: "stream_codec \<Rightarrow> (bytes \<Rightarrow> bool) \<Rightarrow> nat \<Rightarrow> bytes \<Rightarrow> tp_tracelink_set option res" where
  "tp_tracelink_set_decode S wrap_ok max_parents buffer =
     guard (length buffer < sq_header_length S) (EINVAL ''tp_tracelink_set_decode: buffer too short'')
     (case sq_get_header S buffer of
        (template_id, schema_id, block_length, version) \<Rightarrow>
          if schema_id \<noteq> sq_schema_id S \<or> template_id \<noteq> sq_template_id S ''TraceLinkSet'' then Inr None
          else guard (version > sq_schema_version S) (EINVAL ''tp_tracelink_set_decode: unsupported schema version'')
            (guard (block_length \<noteq> sq_block_length S ''TraceLinkSet'') (EINVAL ''tp_tracelink_set_decode: block length mismatch'')
            (bind_res (decode_tracelink_body S wrap_ok max_parents (drop (sq_header_length S) buffer)) (\<lambda>links. Inr (Some links)))))"

section \<open>Sending\<close>

text \<open>The producer offers the message on its control publication. The validator is a callback; the one a producer has from the start checks the history.\<close>

definition history_validator :: "tp_producer \<Rightarrow> tp_tracelink_set \<Rightarrow> unit res" where
  "history_validator producer links = tp_producer_default_tracelink_validator producer (tl_seq links) (tl_trace_id links)"

definition tp_producer_send_tracelink_set ::
  "stream_codec \<Rightarrow> bool \<Rightarrow> (publication \<Rightarrow> bytes \<Rightarrow> int) \<Rightarrow> (tp_tracelink_set \<Rightarrow> unit res) option \<Rightarrow> tp_producer \<Rightarrow> tp_tracelink_set \<Rightarrow> bytes res" where
  "tp_producer_send_tracelink_set S alloc_ok offer validator producer links =
     (case pr_control_publication producer of
        None \<Rightarrow> Inl (EINVAL ''tp_producer_send_tracelink_set: control publication unavailable'')
      | Some pub \<Rightarrow>
          guard (tl_stream_id links \<noteq> pr_stream_id producer \<or> tl_epoch links \<noteq> pr_epoch producer)
            (EINVAL ''tp_producer_send_tracelink_set: stream/epoch mismatch'')
          (bind_res (case validator of None \<Rightarrow> Inr () | Some v \<Rightarrow> v links) (\<lambda>_.
             let required_len = tracelink_size S (length (tl_parents links))
             in guard (required_len > 512 \<and> \<not> alloc_ok) FAIL
                (bind_res (tp_tracelink_set_encode S (if required_len > 512 then required_len else 512) links) (\<lambda>buffer.
                   guard (offer pub buffer < 0) FAIL (Inr buffer))))))"

definition tp_producer_send_tracelink_set_ex ::
  "stream_codec \<Rightarrow> bool \<Rightarrow> (publication \<Rightarrow> bytes \<Rightarrow> int) \<Rightarrow> (tp_tracelink_set \<Rightarrow> unit res) option \<Rightarrow> tp_producer \<Rightarrow> u64 \<Rightarrow> u64 \<Rightarrow> u64 list \<Rightarrow> bytes res" where
  "tp_producer_send_tracelink_set_ex S alloc_ok offer validator producer seq trace_id parents =
     tp_producer_send_tracelink_set S alloc_ok offer validator producer
       \<lparr>tl_stream_id = pr_stream_id producer, tl_epoch = pr_epoch producer, tl_seq = seq, tl_trace_id = trace_id, tl_parents = parents\<rparr>"

definition tp_tracelink_set_from_claim :: "tp_producer \<Rightarrow> tp_buffer_claim \<Rightarrow> u64 list \<Rightarrow> tp_tracelink_set res" where
  "tp_tracelink_set_from_claim producer claim parents =
     guard (cl_trace_id claim = 0) (EINVAL ''tp_tracelink_set_from_claim: trace_id missing'')
       (Inr \<lparr>tl_stream_id = pr_stream_id producer, tl_epoch = pr_epoch producer, tl_seq = cl_seq claim, tl_trace_id = cl_trace_id claim,
          tl_parents = parents\<rparr>)"

section \<open>Parents that are valid\<close>

lemma parents_loop_eq: "parents_loop seen ps \<longleftrightarrow> distinct ps \<and> 0 \<notin> set ps \<and> set ps \<inter> set seen = {}"
proof (induction ps arbitrary: seen)
  case (Cons p ps)
  then show ?case by auto
qed simp

lemma validate_parents_eq: "tp_tracelink_validate_parents ps \<longleftrightarrow> ps \<noteq> [] \<and> distinct ps \<and> 0 \<notin> set ps"
  by (simp add: tp_tracelink_validate_parents_def parents_loop_eq)

lemma get_parents_valid:
  "get_parents S n k i seen b = Inr ps \<Longrightarrow> distinct seen \<Longrightarrow> 0 \<notin> set seen \<Longrightarrow> distinct ps \<and> 0 \<notin> set ps \<and> length ps = length seen + k"
proof (induction k arbitrary: i seen b)
  case (Suc k)
  then obtain b' where "sq_next S ''parents'' i n b = Some b'"
    "get_parents S n k (Suc i) (seen @ [sq_field S ''parents'' ''traceId'' b]) b' = Inr ps"
    "sq_field S ''parents'' ''traceId'' b \<noteq> 0" "sq_field S ''parents'' ''traceId'' b \<notin> set seen"
    by (auto simp: Let_def guard_Inr split: option.splits)
  with Suc show ?case by force
qed simp

section \<open>The trace links of a schema\<close>

locale tracelink_codec = stream_laws +
  assumes fits_set: "fits ''TraceLinkSet'' (tracelink_fields links)"
    and fits_parent: "fits ''parents'' [(''traceId'', p)]"
    and parents_width: "length (sq_dim S ''parents'' c) = 4" "unat (sq_block_length S ''parents'') = 8"
begin

lemma put_parents_fits:
  "length w + 8 * length ps \<le> cap \<Longrightarrow> n = i + length ps \<Longrightarrow>
   put_parents S cap n i ps w = Inr (w @ concat (map (\<lambda>p. sq_block S ''parents'' [(''traceId'', p)]) ps))"
proof (induction ps arbitrary: i w)
  case (Cons p ps)
  have "length (sq_block S ''parents'' [(''traceId'', p)]) = 8" using length_block [OF fits_parent] parents_width(2) by simp
  then show ?case using Cons room [of i n w "''parents''" cap] parents_width(2) by simp
qed simp

lemma get_parents_written:
  "distinct (seen @ ps) \<Longrightarrow> 0 \<notin> set ps \<Longrightarrow> n = i + length ps \<Longrightarrow>
   get_parents S n (length ps) i seen (concat (map (\<lambda>p. sq_block S ''parents'' [(''traceId'', p)]) ps) @ r) = Inr (seen @ ps)"
proof (induction ps arbitrary: i seen)
  case (Cons p ps)
  have field: "sq_field S ''parents'' ''traceId'' (sq_block S ''parents'' [(''traceId'', p)] @ x) = p" for x
    by (rule field_block [OF fits_parent]) simp
  have next_one: "sq_next S ''parents'' i n (sq_block S ''parents'' [(''traceId'', p)] @ x) = Some x" for x
    by (rule next_block [OF fits_parent]) (use Cons.prems in simp)
  have ih: "get_parents S n (length ps) (Suc i) (seen @ [p]) (concat (map (\<lambda>p. sq_block S ''parents'' [(''traceId'', p)]) ps) @ r) =
      Inr ((seen @ [p]) @ ps)"
    by (rule Cons.IH) (use Cons.prems in auto)
  have "p \<noteq> 0" "p \<notin> set seen" using Cons.prems by auto
  then show ?case using ih by (simp add: field next_one Let_def)
qed simp

text \<open>The bytes of a set, and that they fit what the encoder asks for.\<close>

definition tracelink_bytes :: "tp_tracelink_set \<Rightarrow> bytes" where
  "tracelink_bytes links = sq_put_header S ''TraceLinkSet'' @ sq_block S ''TraceLinkSet'' (tracelink_fields links) @
     sq_dim S ''parents'' (of_nat (length (tl_parents links))) @ concat (map (\<lambda>p. sq_block S ''parents'' [(''traceId'', p)]) (tl_parents links))"

lemma encode_written:
  assumes "tl_trace_id links \<noteq> 0" "tp_tracelink_validate_parents (tl_parents links)" "length (tl_parents links) \<le> 65535"
    "tracelink_size S (length (tl_parents links)) \<le> cap"
  shows "tp_tracelink_set_encode S cap links = Inr (tracelink_bytes links)"
proof -
  have n: "unat (of_nat (length (tl_parents links)) :: u16) = length (tl_parents links)" using assms(3) by (simp add: unat_of_nat)
  let ?w = "sq_put_header S ''TraceLinkSet'' @ sq_block S ''TraceLinkSet'' (tracelink_fields links)"
  have w: "length ?w = sq_header_length S + unat (sq_block_length S ''TraceLinkSet'')"
    by (simp add: length_header length_block [OF fits_set])
  then have dim: "sq_put_dim S ''parents'' cap (of_nat (length (tl_parents links))) ?w = Some (?w @ sq_dim S ''parents'' (of_nat (length (tl_parents links))))"
    using assms(4) by (intro put_dim) (simp add: tracelink_size_def parents_width(1))
  have "put_parents S cap (length (tl_parents links)) 0 (tl_parents links) (?w @ sq_dim S ''parents'' (of_nat (length (tl_parents links)))) =
      Inr (tracelink_bytes links)"
    using assms(4) w by (subst put_parents_fits) (simp_all add: tracelink_size_def parents_width(1) tracelink_bytes_def)
  then show ?thesis
    using assms dim by (auto simp: tp_tracelink_set_encode_def n validate_parents_eq)
qed

lemma encode_Inr:
  assumes "tp_tracelink_set_encode S cap links = Inr buffer"
  shows "tl_trace_id links \<noteq> 0 \<and> tp_tracelink_validate_parents (tl_parents links) \<and> length (tl_parents links) \<le> 65535 \<and> buffer = tracelink_bytes links"
proof -
  have ok: "tl_trace_id links \<noteq> 0 \<and> tp_tracelink_validate_parents (tl_parents links) \<and> length (tl_parents links) \<le> 65535 \<and>
      tracelink_size S (length (tl_parents links)) \<le> cap"
    using assms by (auto simp: tp_tracelink_set_encode_def guard_Inr)
  then show ?thesis using encode_written [of links cap] assms by simp
qed

lemma decode_written:
  assumes "tl_trace_id links \<noteq> 0" "tp_tracelink_validate_parents (tl_parents links)" "length (tl_parents links) \<le> 65535"
    "length (tl_parents links) \<le> max_parents" "\<And>c r. wrap_ok (sq_dim S ''parents'' c @ r)"
  shows "tp_tracelink_set_decode S wrap_ok max_parents (tracelink_bytes links) = Inr (Some links)"
proof -
  let ?t = "sq_dim S ''parents'' (of_nat (length (tl_parents links))) @ concat (map (\<lambda>p. sq_block S ''parents'' [(''traceId'', p)]) (tl_parents links))"
  let ?b = "sq_block S ''TraceLinkSet'' (tracelink_fields links) @ ?t"
  have n: "unat (of_nat (length (tl_parents links)) :: u16) = length (tl_parents links)" using assms(3) by (simp add: unat_of_nat)
  have fields: "sq_field S ''TraceLinkSet'' ''streamId'' ?b = ucast (tl_stream_id links)" "sq_field S ''TraceLinkSet'' ''epoch'' ?b = tl_epoch links"
    "sq_field S ''TraceLinkSet'' ''seq'' ?b = tl_seq links" "sq_field S ''TraceLinkSet'' ''traceId'' ?b = tl_trace_id links"
    by (rule field_block [OF fits_set], simp add: tracelink_fields_def)+
  have ps: "tl_parents links \<noteq> []" "distinct (tl_parents links)" "0 \<notin> set (tl_parents links)" using assms(2) by (simp_all add: validate_parents_eq)
  have "get_parents S (length (tl_parents links)) (length (tl_parents links)) 0 []
      (concat (map (\<lambda>p. sq_block S ''parents'' [(''traceId'', p)]) (tl_parents links))) = Inr (tl_parents links)"
    using get_parents_written [of "[]" "tl_parents links" "length (tl_parents links)" 0 "[]"] ps by simp
  then have "decode_tracelink_body S wrap_ok max_parents ?b = Inr links"
    using assms(1,4,5) ps(1) by (simp add: decode_tracelink_body_def Let_def fields skip_block [OF fits_set] wrap_dim n Suc_le_eq)
  then show ?thesis
    by (simp add: tp_tracelink_set_decode_def tracelink_bytes_def length_header get_header)
qed

end

text \<open>schemas/tracelink-schema.xml.\<close>

definition tracelink_schema :: stream_schema where
  "tracelink_schema =
     \<lparr>sy_schema_id = 904, sy_version = 1, sy_templates = [(''TraceLinkSet'', 1)],
      sy_blocks = [(''TraceLinkSet'', [(''streamId'', 4), (''epoch'', 8), (''seq'', 8), (''traceId'', 8)]), (''parents'', [(''traceId'', 8)])],
      sy_enums = [], sy_nulls = []\<rparr>"

abbreviation "tracelink_stream \<equiv> le_stream tracelink_schema"

lemma tracelink_blocks:
  "fields_of tracelink_schema ''TraceLinkSet'' = [(''streamId'', 4), (''epoch'', 8), (''seq'', 8), (''traceId'', 8)]"
  "fields_of tracelink_schema ''parents'' = [(''traceId'', 8)]"
  by (simp_all add: fields_of_def tracelink_schema_def lookup_or_def)

interpretation tracelink: tracelink_codec tracelink_stream "le_fits tracelink_schema"
proof (unfold tracelink_codec_def tracelink_codec_axioms_def, intro conjI allI)
  show "stream_laws tracelink_stream (le_fits tracelink_schema)"
    by (rule stream_laws_le) (simp add: schema_ok_def tracelink_schema_def block_width_def)
  show "le_fits tracelink_schema ''TraceLinkSet'' (tracelink_fields links)" for links
    by (simp add: le_fits_def tracelink_blocks tracelink_fields_def)
  show "le_fits tracelink_schema ''parents'' [(''traceId'', p)]" for p :: u64
    by (simp add: le_fits_def tracelink_blocks)
  show "length (sq_dim tracelink_stream ''parents'' c) = 4" for c by (simp add: le_stream_def)
  show "unat (sq_block_length tracelink_stream ''parents'') = 8"
    by (simp add: le_stream_def tracelink_blocks block_width_def)
qed

text \<open>The group of a message is wrapped when its dimensions are in the buffer.\<close>

abbreviation "group_inside b \<equiv> 4 \<le> length b"

section \<open>Histories\<close>

definition publish_traces :: "(u64 \<times> u64) list \<Rightarrow> tp_producer \<Rightarrow> tp_producer" where
  "publish_traces pubs producer = fold (\<lambda>(seq, trace_id) p. tp_producer_record_tracelink_descriptor p seq trace_id) pubs producer"

lemma record_trace:
  "pr_header_nslots (tp_producer_record_tracelink_descriptor p seq trace_id) = pr_header_nslots p"
  "set (pr_tracelink_entries (tp_producer_record_tracelink_descriptor p seq trace_id)) \<subseteq>
     insert \<lparr>te_seq = seq, te_trace_id = trace_id\<rparr> (set (pr_tracelink_entries p))"
  "length (pr_tracelink_entries (tp_producer_record_tracelink_descriptor p seq trace_id)) = length (pr_tracelink_entries p)"
  by (simp_all add: tp_producer_record_tracelink_descriptor_def set_update_subset_insert subset_insertI)

lemma publish_traces_entries:
  "pr_header_nslots (publish_traces pubs p) = pr_header_nslots p \<and> length (pr_tracelink_entries (publish_traces pubs p)) = length (pr_tracelink_entries p) \<and>
   set (pr_tracelink_entries (publish_traces pubs p)) \<subseteq> (\<lambda>(seq, trace_id). \<lparr>te_seq = seq, te_trace_id = trace_id\<rparr>) ` set pubs \<union> set (pr_tracelink_entries p)"
proof (induction pubs arbitrary: p)
  case (Cons pub pubs)
  obtain seq trace_id where pub: "pub = (seq, trace_id)" by force
  let ?p = "tp_producer_record_tracelink_descriptor p seq trace_id"
  have "publish_traces (pub # pubs) p = publish_traces pubs ?p" by (simp add: publish_traces_def pub)
  then show ?case using Cons.IH [of ?p] record_trace [of p seq trace_id] pub by auto
qed (simp add: publish_traces_def)

lemma send_Inr:
  assumes "tp_producer_send_tracelink_set S alloc_ok offer (Some v) producer links = Inr buffer"
  shows "v links = Inr () \<and> tl_stream_id links = pr_stream_id producer \<and> tl_epoch links = pr_epoch producer \<and>
    (\<exists>cap. tp_tracelink_set_encode S cap links = Inr buffer)"
  using assms by (auto simp: tp_producer_send_tracelink_set_def Let_def res_simps split: option.splits)

section \<open>Properties\<close>

text \<open>
  A set of trace links that is encoded is decoded as it was, by a reader that has room for its parents.
\<close>

theorem tracelink_roundtrip:
  assumes "tp_tracelink_set_encode tracelink_stream cap links = Inr buffer" "length (tl_parents links) \<le> max_parents"
  shows "tp_tracelink_set_decode tracelink_stream (\<lambda>b. group_inside b) max_parents buffer = Inr (Some links)"
proof -
  note written = tracelink.encode_Inr [OF assms(1)]
  then show ?thesis
    using tracelink.decode_written [of links max_parents "\<lambda>b. group_inside b"] assms(2) by (simp add: tracelink.parents_width(1))
qed

text \<open>
  A decoded set names its frame and its parents: a trace id that is not zero, and between one and the limit of parents, none of them
  zero and none of them twice, whatever the bytes.
\<close>

theorem tracelink_decode_sound:
  assumes "tp_tracelink_set_decode S wrap_ok max_parents buffer = Inr (Some links)"
  shows "tl_trace_id links \<noteq> 0 \<and> tp_tracelink_validate_parents (tl_parents links) \<and> length (tl_parents links) \<le> max_parents"
proof -
  obtain b where "decode_tracelink_body S wrap_ok max_parents b = Inr links"
    using assms by (auto simp: tp_tracelink_set_decode_def res_simps split: prod.splits if_splits)
  then obtain n t ps where "get_parents S n n 0 [] t = Inr ps" "tl_parents links = ps" "\<not> n < 1" "\<not> n > max_parents" "tl_trace_id links \<noteq> 0"
    by (auto simp: decode_tracelink_body_def Let_def res_simps split: prod.splits)
  with get_parents_valid [of S n n 0 "[]" t ps] show ?thesis by (auto simp: validate_parents_eq)
qed

text \<open>
  What a frame inherits. A frame with one parent takes its trace id and no message is sent; any other frame takes a new id of the generator, and
  exactly with two or more parents a set is to be sent, which the encoder accepts in a buffer of the size that the
  producer computes, and which the reader gets as it was.
\<close>

theorem tracelink_resolved:
  assumes "tp_tracelink_resolve_trace_id generator rounds parents = Some (Inr (generator', trace_id, emit))"
  shows "(length parents = 1 \<longrightarrow> trace_id = parents ! 0 \<and> generator' = generator) \<and> trace_id \<noteq> 0 \<and> (emit \<longleftrightarrow> 1 < length parents) \<and>
    (emit \<longrightarrow> (\<exists>buffer. tp_tracelink_set_encode tracelink_stream (tracelink_size tracelink_stream (length parents))
        \<lparr>tl_stream_id = stream_id, tl_epoch = epoch, tl_seq = seq, tl_trace_id = trace_id, tl_parents = parents\<rparr> = Inr buffer \<and>
      tp_tracelink_set_decode tracelink_stream (\<lambda>b. group_inside b) TP_TRACELINK_MAX_PARENTS buffer =
        Inr (Some \<lparr>tl_stream_id = stream_id, tl_epoch = epoch, tl_seq = seq, tl_trace_id = trace_id, tl_parents = parents\<rparr>)))"
proof -
  let ?links = "\<lparr>tl_stream_id = stream_id, tl_epoch = epoch, tl_seq = seq, tl_trace_id = trace_id, tl_parents = parents\<rparr>"
  have few: "length parents \<le> 256" and valid: "parents = [] \<or> tp_tracelink_validate_parents parents"
    using assms by (auto simp: tp_tracelink_resolve_trace_id_def TP_TRACELINK_MAX_PARENTS_def split: if_splits)
  have id: "trace_id \<noteq> 0" "length parents = 1 \<longrightarrow> trace_id = parents ! 0 \<and> generator' = generator" "emit \<longleftrightarrow> 1 < length parents"
    using assms by (auto simp: tp_tracelink_resolve_trace_id_def validate_parents_eq length_Suc_conv split: if_splits option.splits)
  have "\<exists>buffer. tp_tracelink_set_encode tracelink_stream (tracelink_size tracelink_stream (length parents)) ?links = Inr buffer \<and>
      tp_tracelink_set_decode tracelink_stream (\<lambda>b. group_inside b) TP_TRACELINK_MAX_PARENTS buffer = Inr (Some ?links)" if emit
  proof -
    have v: "tl_trace_id ?links \<noteq> 0" "tp_tracelink_validate_parents (tl_parents ?links)" "length (tl_parents ?links) \<le> 65535"
      using id that valid few by auto
    have size: "tracelink_size tracelink_stream (length (tl_parents ?links)) \<le> tracelink_size tracelink_stream (length parents)" by simp
    have max: "length (tl_parents ?links) \<le> TP_TRACELINK_MAX_PARENTS" using few by (simp add: TP_TRACELINK_MAX_PARENTS_def)
    from tracelink.encode_written [OF v size] tracelink.decode_written [OF v max, of "\<lambda>b. group_inside b"] show ?thesis
      by (simp add: tracelink.parents_width(1))
  qed
  with id show ?thesis by blast
qed


definition linking_producer :: tp_producer where
  "linking_producer = \<lparr>pr_pools = [], pr_stream_id = 10, pr_epoch = 3, pr_header_nslots = 4, pr_header_mapped = False, pr_next_seq = 6,
     pr_use_driver = False, pr_fixed_pool_mode = False, pr_drop_unconnected_descriptors = False, pr_publish_descriptor_timestamp = False,
     pr_descriptor_publication = None, pr_control_publication = Some (''aeron:ipc'', 1), pr_consumer_manager = None, pr_trace_id_generator = None,
     pr_tracelink_entries = [], pr_next_attach_ns = 0, pr_attach_failures = 0, pr_reattach_requested = False\<rparr>"

definition sample_links :: tp_tracelink_set where
  "sample_links = \<lparr>tl_stream_id = 10, tl_epoch = 3, tl_seq = 5, tl_trace_id = 77, tl_parents = [8, 9]\<rparr>"


end
