(* ===== verification/Tp_Progress_Poller.thy ===== *)
theory Tp_Progress_Poller
  imports Tp_Stream Tp_Consumer
begin

text \<open>
  The progress poller (src/client/tp_progress_poller.c): which reports about frames that are still being written are
  handed to the application. The lemmas say that the array of reports stays consistent, that reports respect the
  limit and the validator, and in which sense the progress of a frame does not go back.
\<close>

section \<open>State\<close>

record tp_progress_view = tp_frame_progress +
  fp_state :: u8

definition TP_PROGRESS_UNKNOWN :: u8 where "TP_PROGRESS_UNKNOWN = 0"
definition TP_PROGRESS_TRACKER_CAPACITY :: nat where "TP_PROGRESS_TRACKER_CAPACITY = 64"

record tp_progress_tracker_entry =
  pt_stream_id :: u32
  pt_epoch :: u64
  pt_seq :: u64
  pt_last_bytes :: u64
  pt_in_use :: bool

text \<open>The empty list is the tracker that is NULL, with capacity zero.\<close>

record tp_progress_poller =
  pg_tracker :: "tp_progress_tracker_entry list"
  pg_tracker_cursor :: nat
  pg_header_nslots :: u32
  pg_max_payload_bytes :: u64

definition zero_tracker_entry :: tp_progress_tracker_entry where
  "zero_tracker_entry = \<lparr>pt_stream_id = 0, pt_epoch = 0, pt_seq = 0, pt_last_bytes = 0, pt_in_use = False\<rparr>"

definition tp_progress_poller_init :: "bool \<Rightarrow> bool \<Rightarrow> tp_progress_poller res" where
  "tp_progress_poller_init alloc_ok assembler_ok =
     guard (\<not> alloc_ok) (ENOMEM ''tp_progress_poller_init: tracker allocation failed'')
     (guard (\<not> assembler_ok) FAIL
     (Inr \<lparr>pg_tracker = replicate TP_PROGRESS_TRACKER_CAPACITY zero_tracker_entry, pg_tracker_cursor = 0, pg_header_nslots = 0,
        pg_max_payload_bytes = 0\<rparr>))"

definition tp_progress_poller_set_max_payload_bytes :: "u64 \<Rightarrow> tp_progress_poller \<Rightarrow> tp_progress_poller" where
  "tp_progress_poller_set_max_payload_bytes max_payload_bytes poller = poller\<lparr>pg_max_payload_bytes := max_payload_bytes\<rparr>"

definition tp_progress_poller_resize :: "bool \<Rightarrow> nat \<Rightarrow> tp_progress_poller \<Rightarrow> unit res \<times> tp_progress_poller" where
  "tp_progress_poller_resize alloc_ok capacity poller =
     (if capacity = 0 then (Inl (EINVAL ''tp_progress_poller_resize: invalid input''), poller)
      else if length (pg_tracker poller) \<ge> capacity then (Inr (), poller)
      else if \<not> alloc_ok then (Inl (ENOMEM ''tp_progress_poller_resize: allocation failed''), poller)
      else (Inr (), poller\<lparr>pg_tracker := pg_tracker poller @ replicate (capacity - length (pg_tracker poller)) zero_tracker_entry,
              pg_tracker_cursor := (if pg_tracker_cursor poller \<ge> capacity then 0 else pg_tracker_cursor poller)\<rparr>))"

text \<open>The consumer whose frames are watched, by the number of its header slots; \<open>None\<close> is NULL. The validator is set with it.\<close>

definition tp_progress_poller_set_consumer :: "bool \<Rightarrow> u32 option \<Rightarrow> tp_progress_poller \<Rightarrow> tp_progress_poller" where
  "tp_progress_poller_set_consumer alloc_ok consumer poller =
     (case consumer of
        Some nslots \<Rightarrow>
          if nslots > 0 then
            (case tp_progress_poller_resize alloc_ok (unat nslots) (poller\<lparr>pg_header_nslots := nslots\<rparr>) of
               (Inl e, poller) \<Rightarrow> poller\<lparr>pg_tracker := [], pg_tracker_cursor := 0, pg_header_nslots := 0\<rparr>
             | (Inr u, poller) \<Rightarrow> poller)
          else poller\<lparr>pg_header_nslots := 0\<rparr>
      | None \<Rightarrow> poller\<lparr>pg_header_nslots := 0\<rparr>)"

section \<open>Reports\<close>

definition tracks :: "tp_progress_tracker_entry \<Rightarrow> tp_progress_view \<Rightarrow> bool" where
  "tracks entry view \<longleftrightarrow> pt_in_use entry \<and> pt_seq entry = fp_seq view \<and> pt_stream_id entry = fp_stream_id view \<and> pt_epoch entry = fp_epoch view"

definition entry_of :: "tp_progress_view \<Rightarrow> tp_progress_tracker_entry" where
  "entry_of view = \<lparr>pt_stream_id = fp_stream_id view, pt_epoch = fp_epoch view, pt_seq = fp_seq view, pt_last_bytes = fp_payload_bytes_filled view,
     pt_in_use = True\<rparr>"

text \<open>The validator, if there is one, returns 0 for a report that it accepts.\<close>

definition validated :: "(tp_progress_view \<Rightarrow> bool) option \<Rightarrow> tp_progress_view \<Rightarrow> bool" where
  "validated validator view \<longleftrightarrow> (case validator of None \<Rightarrow> True | Some accepts \<Rightarrow> accepts view)"

text \<open>What happens to the entry \<open>i\<close> of the frame.\<close>

definition tracked_report :: "(tp_progress_view \<Rightarrow> bool) option \<Rightarrow> nat \<Rightarrow> tp_progress_view \<Rightarrow> tp_progress_poller \<Rightarrow> unit res \<times> tp_progress_poller" where
  "tracked_report validator i view poller =
     (let entry = pg_tracker poller ! i
      in if fp_payload_bytes_filled view < pt_last_bytes entry then (Inl (EINVAL ''tp_progress_poller_validate: payload bytes regressed''), poller)
         else if \<not> validated validator view then (Inl FAIL, poller)
         else (Inr (), poller\<lparr>pg_tracker := (pg_tracker poller)[i := entry\<lparr>pt_last_bytes := fp_payload_bytes_filled view\<rparr>]\<rparr>))"

definition slot_of :: "u32 \<Rightarrow> tp_progress_view \<Rightarrow> nat" where
  "slot_of nslots view = unat (fp_seq view AND ucast (nslots - 1))"

definition ring_report :: "(tp_progress_view \<Rightarrow> bool) option \<Rightarrow> tp_progress_view \<Rightarrow> tp_progress_poller \<Rightarrow> unit res \<times> tp_progress_poller" where
  "ring_report validator view poller =
     (let i = slot_of (pg_header_nslots poller) view
      in if tracks (pg_tracker poller ! i) view then tracked_report validator i view poller
         else if \<not> validated validator view then (Inl FAIL, poller)
         else (Inr (), poller\<lparr>pg_tracker := (pg_tracker poller)[i := entry_of view]\<rparr>))"

definition cursor_report :: "(tp_progress_view \<Rightarrow> bool) option \<Rightarrow> tp_progress_view \<Rightarrow> tp_progress_poller \<Rightarrow> unit res \<times> tp_progress_poller" where
  "cursor_report validator view poller =
     (case find_index (\<lambda>entry. tracks entry view) (pg_tracker poller) of
        Some i \<Rightarrow> tracked_report validator i view poller
      | None \<Rightarrow>
          if \<not> validated validator view then (Inl FAIL, poller)
          else (Inr (), poller\<lparr>pg_tracker := (pg_tracker poller)[pg_tracker_cursor poller := entry_of view],
                  pg_tracker_cursor := (pg_tracker_cursor poller + 1) mod length (pg_tracker poller)\<rparr>))"

definition tp_progress_poller_validate ::
  "bool \<Rightarrow> (tp_progress_view \<Rightarrow> bool) option \<Rightarrow> tp_progress_view \<Rightarrow> tp_progress_poller \<Rightarrow> unit res \<times> tp_progress_poller" where
  "tp_progress_poller_validate alloc_ok validator view poller =
     (if pg_max_payload_bytes poller > 0 \<and> fp_payload_bytes_filled view > pg_max_payload_bytes poller
      then (Inl (EINVAL ''tp_progress_poller_validate: payload bytes exceed max''), poller)
      else
        (case (if pg_header_nslots poller > 0 \<and> length (pg_tracker poller) < unat (pg_header_nslots poller)
               then tp_progress_poller_resize alloc_ok (unat (pg_header_nslots poller)) poller else (Inr (), poller)) of
           (Inl e, poller) \<Rightarrow> (Inl FAIL, poller)
         | (Inr u, poller) \<Rightarrow>
             if pg_tracker poller = [] then (Inl (EINVAL ''tp_progress_poller_validate: tracker unavailable''), poller)
             else if pg_header_nslots poller > 0 then
               (if length (pg_tracker poller) < unat (pg_header_nslots poller)
                then (Inl (EINVAL ''tp_progress_poller_validate: tracker capacity too small''), poller)
                else ring_report validator view poller)
             else cursor_report validator view poller))"

text \<open>
  A fragment. The block length and the version of the message are not looked at. \<open>delivered\<close> are the reports handed to the
  application so far.
\<close>

definition progress_view :: "stream_codec \<Rightarrow> bytes \<Rightarrow> tp_progress_view" where
  "progress_view S b =
     (let field = (\<lambda>nm. sq_field S ''FrameProgress'' nm b)
      in \<lparr>fp_stream_id = ucast (field ''streamId''), fp_epoch = field ''epoch'', fp_seq = field ''seq'',
           fp_payload_bytes_filled = field ''payloadBytesFilled'',
           fp_state = (if sq_enum S ''state'' (field ''state'') then ucast (field ''state'') else TP_PROGRESS_UNKNOWN)\<rparr>)"

definition tp_progress_poller_handler ::
  "stream_codec \<Rightarrow> bool \<Rightarrow> (tp_progress_view \<Rightarrow> bool) option \<Rightarrow> bytes \<Rightarrow> tp_progress_poller \<times> tp_progress_view list \<Rightarrow> tp_progress_poller \<times> tp_progress_view list" where
  "tp_progress_poller_handler S alloc_ok validator buffer st =
     (case st of
        (poller, delivered) \<Rightarrow>
          if length buffer < sq_header_length S then (poller, delivered)
          else
            (case sq_get_header S buffer of
               (template_id, schema_id, block_length, version) \<Rightarrow>
                 if schema_id \<noteq> sq_schema_id S \<or> template_id \<noteq> sq_template_id S ''FrameProgress'' then (poller, delivered)
                 else
                   let view = progress_view S (drop (sq_header_length S) buffer)
                   in (case tp_progress_poller_validate alloc_ok validator view poller of
                         (Inl e, poller) \<Rightarrow> (poller, delivered)
                       | (Inr u, poller) \<Rightarrow> (poller, delivered @ [view]))))"

text \<open>The consumer as validator: a report is accepted when its check returns 0.\<close>

definition tp_progress_validate_consumer ::
  "sbe \<Rightarrow> (tp_slot \<Rightarrow> bytes option) \<Rightarrow> shm \<times> shm \<times> shm \<Rightarrow> tp_consumer \<Rightarrow> tp_progress_view \<Rightarrow> bool" where
  "tp_progress_validate_consumer C header_bytes_of mem consumer view \<longleftrightarrow>
     tp_consumer_validate_progress C header_bytes_of mem consumer (tp_frame_progress.truncate view) = Inr True"

section \<open>Runs\<close>

datatype progress_event =
    ProgressFragment bool "(tp_progress_view \<Rightarrow> bool) option" bytes
  | WatchConsumer bool "u32 option"
  | LimitPayload u64

fun progress_step :: "stream_codec \<Rightarrow> progress_event \<Rightarrow> tp_progress_poller \<times> tp_progress_view list \<Rightarrow> tp_progress_poller \<times> tp_progress_view list" where
  "progress_step S (ProgressFragment alloc_ok validator buffer) st = tp_progress_poller_handler S alloc_ok validator buffer st"
| "progress_step S (WatchConsumer alloc_ok consumer) st = (tp_progress_poller_set_consumer alloc_ok consumer (fst st), snd st)"
| "progress_step S (LimitPayload bytes) st = (tp_progress_poller_set_max_payload_bytes bytes (fst st), snd st)"

text \<open>The cursor is in the array, and the array covers the ring.\<close>

definition tracker_ok :: "tp_progress_poller \<Rightarrow> bool" where
  "tracker_ok poller \<longleftrightarrow> (pg_tracker poller = [] \<or> pg_tracker_cursor poller < length (pg_tracker poller)) \<and>
     (pg_header_nslots poller > 0 \<longrightarrow> unat (pg_header_nslots poller) \<le> length (pg_tracker poller))"

lemma slot_of_less: "nslots > 0 \<Longrightarrow> slot_of nslots view < unat nslots"
proof -
  assume "nslots > 0"
  then have n: "nslots \<noteq> 0" "0 < unat nslots" by (simp_all add: unat_gt_0)
  have "slot_of nslots view \<le> unat (ucast (nslots - 1) :: u64)"
    unfolding slot_of_def using word_and_le1 [of "fp_seq view" "ucast (nslots - 1)"] by (simp add: word_le_nat_alt)
  then show ?thesis using n by (simp add: unat_minus_one)
qed

lemma resize_ok:
  assumes "tp_progress_poller_resize alloc_ok capacity poller = (r, poller')"
    "pg_tracker poller = [] \<or> pg_tracker_cursor poller < length (pg_tracker poller)"
  shows "pg_tracker poller' = [] \<or> pg_tracker_cursor poller' < length (pg_tracker poller')" "r = Inr u \<Longrightarrow> capacity \<le> length (pg_tracker poller')"
    "pg_header_nslots poller' = pg_header_nslots poller" "pg_max_payload_bytes poller' = pg_max_payload_bytes poller"
  using assms by (auto simp: tp_progress_poller_resize_def split: if_splits)

lemma report_tracker:
  assumes "tp_progress_poller_validate alloc_ok validator view poller = (r, poller')" "tracker_ok poller"
  shows "tracker_ok poller'" "pg_header_nslots poller' = pg_header_nslots poller" "pg_max_payload_bytes poller' = pg_max_payload_bytes poller"
  using assms
  by (auto simp: tp_progress_poller_validate_def tracker_ok_def ring_report_def cursor_report_def tracked_report_def Let_def
      split: if_splits option.splits)

lemma set_consumer_ok:
  assumes "tracker_ok poller"
  shows "tracker_ok (tp_progress_poller_set_consumer alloc_ok consumer poller)"
proof (cases consumer)
  case (Some nslots)
  obtain r p where r: "tp_progress_poller_resize alloc_ok (unat nslots) (poller\<lparr>pg_header_nslots := nslots\<rparr>) = (r, p)" by force
  from resize_ok [OF r] assms Some r show ?thesis
    by (cases r) (auto simp: tp_progress_poller_set_consumer_def tracker_ok_def)
qed (use assms in \<open>simp add: tp_progress_poller_set_consumer_def tracker_ok_def\<close>)

lemma handler_cases:
  obtains (ignored) "tp_progress_poller_handler S alloc_ok validator buffer (poller, delivered) = (poller, delivered)"
    | (refused) e poller' where "tp_progress_poller_validate alloc_ok validator (progress_view S (drop (sq_header_length S) buffer)) poller = (Inl e, poller')"
        "tp_progress_poller_handler S alloc_ok validator buffer (poller, delivered) = (poller', delivered)"
    | (accepted) poller' where "tp_progress_poller_validate alloc_ok validator (progress_view S (drop (sq_header_length S) buffer)) poller = (Inr (), poller')"
        "tp_progress_poller_handler S alloc_ok validator buffer (poller, delivered) =
           (poller', delivered @ [progress_view S (drop (sq_header_length S) buffer)])"
proof -
  let ?view = "progress_view S (drop (sq_header_length S) buffer)"
  obtain r p where r: "tp_progress_poller_validate alloc_ok validator ?view poller = (r, p)" by force
  show thesis
  proof (cases "tp_progress_poller_handler S alloc_ok validator buffer (poller, delivered) = (poller, delivered)")
    case False
    then have "tp_progress_poller_handler S alloc_ok validator buffer (poller, delivered) =
        (case (r, p) of (Inl e, p) \<Rightarrow> (p, delivered) | (Inr u, p) \<Rightarrow> (p, delivered @ [?view]))"
      using r by (auto simp: tp_progress_poller_handler_def Let_def split: if_splits prod.splits)
    then show thesis using r refused accepted by (cases r) auto
  qed (rule ignored)
qed

lemma step_tracker:
  assumes "tracker_ok (fst st)"
  shows "tracker_ok (fst (progress_step S ev st))"
proof (cases ev)
  case (ProgressFragment alloc_ok validator buffer)
  then show ?thesis using assms report_tracker(1)
    by (cases st; cases rule: handler_cases [of S alloc_ok validator buffer "fst st" "snd st"]) auto
next
  case (WatchConsumer alloc_ok consumer)
  then show ?thesis using set_consumer_ok [OF assms] by simp
next
  case (LimitPayload bytes)
  then show ?thesis using assms by (simp add: tp_progress_poller_set_max_payload_bytes_def tracker_ok_def)
qed

lemma init_tracker: "tp_progress_poller_init alloc_ok assembler_ok = Inr poller \<Longrightarrow> tracker_ok poller"
  by (auto simp: tp_progress_poller_init_def guard_Inr tracker_ok_def TP_PROGRESS_TRACKER_CAPACITY_def)

lemma run_tracker: "tracker_ok (fst st) \<Longrightarrow> tracker_ok (fst (fold (progress_step S) evs st))"
proof (induction evs arbitrary: st)
  case (Cons ev evs)
  then show ?case using Cons.IH [of "progress_step S ev st"] step_tracker [OF Cons.prems] by simp
qed simp

section \<open>The progress of a frame\<close>

definition same_frame :: "tp_progress_view \<Rightarrow> tp_progress_view \<Rightarrow> bool" where
  "same_frame u v \<longleftrightarrow> fp_stream_id u = fp_stream_id v \<and> fp_epoch u = fp_epoch v \<and> fp_seq u = fp_seq v"

definition not_back :: "tp_progress_view \<Rightarrow> tp_progress_view \<Rightarrow> bool" where
  "not_back u v \<longleftrightarrow> (same_frame u v \<longrightarrow> fp_payload_bytes_filled u \<le> fp_payload_bytes_filled v)"

text \<open>
  The entry of a slot is the last report that was delivered for the slot, and what was delivered for a slot does not go
  back from one report to the next.
\<close>

definition slots_follow :: "u32 \<Rightarrow> tp_progress_poller \<Rightarrow> tp_progress_view list \<Rightarrow> bool" where
  "slots_follow nslots poller delivered \<longleftrightarrow>
     (\<forall>i. let reports = filter (\<lambda>v. slot_of nslots v = i) delivered
          in successively not_back reports \<and> (reports \<noteq> [] \<longrightarrow> pg_tracker poller ! i = entry_of (last reports)))"

lemma validate_ring:
  assumes "tp_progress_poller_validate alloc_ok validator view poller = (r, poller')" "tracker_ok poller" "pg_header_nslots poller = nslots" "nslots > 0"
  shows "r = Inl e \<Longrightarrow> poller' = poller"
    "r = Inr u \<Longrightarrow> pg_tracker poller' = (pg_tracker poller)[slot_of nslots view := entry_of view] \<and> validated validator view \<and>
       (pg_max_payload_bytes poller > 0 \<longrightarrow> fp_payload_bytes_filled view \<le> pg_max_payload_bytes poller) \<and>
       (tracks (pg_tracker poller ! slot_of nslots view) view \<longrightarrow>
          pt_last_bytes (pg_tracker poller ! slot_of nslots view) \<le> fp_payload_bytes_filled view)"
proof -
  have "0 < unat nslots" using assms(4) by (simp add: word_less_nat_alt)
  then have n: "\<not> length (pg_tracker poller) < unat nslots" "pg_tracker poller \<noteq> []"
    using assms(2-4) by (auto simp: tracker_ok_def)
  have entry: "(pg_tracker poller ! slot_of nslots view)\<lparr>pt_last_bytes := fp_payload_bytes_filled view\<rparr> = entry_of view"
    if "tracks (pg_tracker poller ! slot_of nslots view) view"
    using that by (cases "pg_tracker poller ! slot_of nslots view") (simp add: tracks_def entry_of_def)
  note step = assms(1) [unfolded tp_progress_poller_validate_def assms(3)]
  show "poller' = poller" if "r = Inl e"
    using step that n assms(3,4) by (auto simp: ring_report_def tracked_report_def Let_def split: if_splits)
  show "pg_tracker poller' = (pg_tracker poller)[slot_of nslots view := entry_of view] \<and> validated validator view \<and>
       (pg_max_payload_bytes poller > 0 \<longrightarrow> fp_payload_bytes_filled view \<le> pg_max_payload_bytes poller) \<and>
       (tracks (pg_tracker poller ! slot_of nslots view) view \<longrightarrow>
          pt_last_bytes (pg_tracker poller ! slot_of nslots view) \<le> fp_payload_bytes_filled view)" if "r = Inr u"
    using step that n assms(3,4) entry by (auto simp: ring_report_def tracked_report_def Let_def split: if_splits)
qed

lemma follow_report:
  assumes "slots_follow nslots poller delivered" "tracker_ok poller" "pg_header_nslots poller = nslots" "nslots > 0"
    "pg_tracker poller' = (pg_tracker poller)[slot_of nslots view := entry_of view]"
    "tracks (pg_tracker poller ! slot_of nslots view) view \<longrightarrow>
      pt_last_bytes (pg_tracker poller ! slot_of nslots view) \<le> fp_payload_bytes_filled view"
  shows "slots_follow nslots poller' (delivered @ [view])"
proof -
  let ?s = "slot_of nslots view"
  have inside: "?s < length (pg_tracker poller)"
    using slot_of_less [OF assms(4), of view] assms(2,3,4) by (auto simp: tracker_ok_def)
  have "not_back (last (filter (\<lambda>v. slot_of nslots v = ?s) delivered)) view" if "filter (\<lambda>v. slot_of nslots v = ?s) delivered \<noteq> []"
  proof -
    have "pg_tracker poller ! ?s = entry_of (last (filter (\<lambda>v. slot_of nslots v = ?s) delivered))"
      using assms(1) that by (auto simp: slots_follow_def Let_def)
    then show ?thesis using assms(6) by (auto simp: not_back_def same_frame_def tracks_def entry_of_def)
  qed
  then show ?thesis
    using assms(1,5) inside unfolding slots_follow_def Let_def
    by (auto simp: successively_append_iff nth_list_update)
qed

lemma follow_fragment:
  assumes "slots_follow nslots poller delivered" "tracker_ok poller" "pg_header_nslots poller = nslots" "nslots > 0"
    "tp_progress_poller_handler S alloc_ok validator buffer (poller, delivered) = (poller', delivered')"
  shows "slots_follow nslots poller' delivered' \<and> tracker_ok poller' \<and> pg_header_nslots poller' = nslots \<and>
    pg_max_payload_bytes poller' = pg_max_payload_bytes poller \<and>
    (\<forall>v\<in>set delivered'. v \<in> set delivered \<or> validated validator v \<and>
      (pg_max_payload_bytes poller > 0 \<longrightarrow> fp_payload_bytes_filled v \<le> pg_max_payload_bytes poller))"
proof (cases rule: handler_cases [of S alloc_ok validator buffer poller delivered])
  case ignored
  then show ?thesis using assms by simp
next
  case (refused e p)
  then show ?thesis using assms validate_ring(1) [OF refused(1) assms(2-4)] by simp
next
  case (accepted p)
  note v = validate_ring(2) [OF accepted(1) assms(2-4) refl]
  have "slots_follow nslots p (delivered @ [progress_view S (drop (sq_header_length S) buffer)])"
    using follow_report [OF assms(1-4)] v by blast
  then show ?thesis using assms(3,5) accepted v report_tracker [OF accepted(1) assms(2)] by auto
qed

lemma follow_run:
  assumes "slots_follow nslots poller delivered" "tracker_ok poller" "pg_header_nslots poller = nslots" "nslots > 0"
    "fold (\<lambda>(alloc_ok, validator, buffer). tp_progress_poller_handler S alloc_ok validator buffer) fragments (poller, delivered) = (poller', delivered')"
  shows "slots_follow nslots poller' delivered' \<and>
    (\<forall>v\<in>set delivered'. v \<in> set delivered \<or> (\<exists>f\<in>set fragments. validated (fst (snd f)) v) \<and>
      (pg_max_payload_bytes poller > 0 \<longrightarrow> fp_payload_bytes_filled v \<le> pg_max_payload_bytes poller))"
  using assms
proof (induction fragments arbitrary: poller delivered)
  case (Cons f fragments)
  obtain alloc_ok validator buffer where f: "f = (alloc_ok, validator, buffer)" by (cases f)
  obtain p d where step: "tp_progress_poller_handler S alloc_ok validator buffer (poller, delivered) = (p, d)" by force
  note one = follow_fragment [OF Cons.prems(1-4) step]
  have "fold (\<lambda>(alloc_ok, validator, buffer). tp_progress_poller_handler S alloc_ok validator buffer) fragments (p, d) = (poller', delivered')"
    using Cons.prems(5) f step by simp
  note rest = Cons.IH [OF _ _ _ Cons.prems(4) this]
  have follows: "slots_follow nslots poller' delivered'" using rest one by blast
  have "v \<in> set delivered \<or> (\<exists>f\<in>set (f # fragments). validated (fst (snd f)) v) \<and>
      (pg_max_payload_bytes poller > 0 \<longrightarrow> fp_payload_bytes_filled v \<le> pg_max_payload_bytes poller)" if "v \<in> set delivered'" for v
    using rest one that f by fastforce
  with follows show ?case by blast
qed simp

section \<open>Reports at concrete values\<close>

definition progress_schema :: stream_schema where
  "progress_schema =
     \<lparr>sy_schema_id = 900, sy_version = 1, sy_templates = [(''FrameProgress'', 11)],
      sy_blocks = [(''FrameProgress'', [(''streamId'', 4), (''epoch'', 8), (''seq'', 8), (''payloadBytesFilled'', 8), (''state'', 1)])],
      sy_enums = [(''state'', [0, 1, 2, 3])], sy_nulls = []\<rparr>"

definition report_bytes :: "u64 \<Rightarrow> u64 \<Rightarrow> bytes" where
  "report_bytes seq filled = sq_put_header (le_stream progress_schema) ''FrameProgress'' @
     sq_block (le_stream progress_schema) ''FrameProgress''
       [(''streamId'', 10), (''epoch'', 3), (''seq'', seq), (''payloadBytesFilled'', filled), (''state'', 2)]"

definition sample_poller :: tp_progress_poller where
  "sample_poller = \<lparr>pg_tracker = replicate 4 zero_tracker_entry, pg_tracker_cursor = 0, pg_header_nslots = 4, pg_max_payload_bytes = 64\<rparr>"

lemma sample_reports:
  "snd (fold (\<lambda>(alloc_ok, validator, buffer). tp_progress_poller_handler (le_stream progress_schema) alloc_ok validator buffer)
     [(True, None, report_bytes 5 16), (True, None, report_bytes 5 8), (True, None, report_bytes 5 32), (True, None, report_bytes 5 65)]
     (sample_poller, [])) =
   map (\<lambda>filled. \<lparr>fp_stream_id = 10, fp_epoch = 3, fp_seq = 5, fp_payload_bytes_filled = filled, fp_state = 2\<rparr>) [16, 32]"
  by code_simp

section \<open>Properties\<close>

text \<open>
  Whatever an initialised poller is asked to do, in whatever order and whatever allocations fail, its array stays
  usable: the cursor is inside the array, the array covers the ring of the watched consumer, and therefore every
  report is looked up and stored inside the array.
\<close>

lemma progress_run_ok:
  assumes "tp_progress_poller_init alloc_ok assembler_ok = Inr fresh" "fold (progress_step S) evs (fresh, []) = (poller, delivered)"
  shows "(pg_tracker poller \<noteq> [] \<longrightarrow> pg_tracker_cursor poller < length (pg_tracker poller)) \<and>
    (pg_header_nslots poller > 0 \<longrightarrow> slot_of (pg_header_nslots poller) view < length (pg_tracker poller))"
proof -
  have "tracker_ok poller" using run_tracker [of "(fresh, [])" S evs] init_tracker [OF assms(1)] assms(2) by simp
  then show ?thesis using slot_of_less [of "pg_header_nslots poller" view] by (auto simp: tracker_ok_def)
qed

text \<open>
  C30: what the poller hands on while it watches a consumer. From a consistent poller on, every report that is
  handed to the application was accepted by the validator in force and respects the limit, and among the reports of
  one slot of the ring the progress of a frame never goes back from one report to the next.
\<close>

theorem progress_not_back:
  assumes "tracker_ok poller" "pg_header_nslots poller = nslots" "nslots > 0"
    "fold (\<lambda>(alloc_ok, validator, buffer). tp_progress_poller_handler S alloc_ok validator buffer) fragments (poller, []) = (poller', delivered)"
  shows "successively not_back (filter (\<lambda>v. slot_of nslots v = i) delivered) \<and>
    (\<forall>v\<in>set delivered. (\<exists>f\<in>set fragments. validated (fst (snd f)) v) \<and>
       (pg_max_payload_bytes poller > 0 \<longrightarrow> fp_payload_bytes_filled v \<le> pg_max_payload_bytes poller))"
proof -
  have "slots_follow nslots poller []" by (simp add: slots_follow_def)
  from follow_run [OF this assms] show ?thesis by (simp add: slots_follow_def Let_def)
qed

corollary progress_not_back_witness:
  "\<exists>delivered. snd (fold (\<lambda>(alloc_ok, validator, buffer). tp_progress_poller_handler (le_stream progress_schema) alloc_ok validator buffer)
       [(True, None, report_bytes 5 16), (True, None, report_bytes 5 8), (True, None, report_bytes 5 32), (True, None, report_bytes 5 65)]
       (sample_poller, [])) = delivered \<and>
     map fp_payload_bytes_filled delivered = [16, 32] \<and> successively not_back (filter (\<lambda>v. slot_of 4 v = 1) delivered)"
proof -
  obtain poller' delivered where run: "fold (\<lambda>(alloc_ok, validator, buffer). tp_progress_poller_handler (le_stream progress_schema) alloc_ok validator buffer)
       [(True, None, report_bytes 5 16), (True, None, report_bytes 5 8), (True, None, report_bytes 5 32), (True, None, report_bytes 5 65)]
       (sample_poller, []) = (poller', delivered)" by force
  have "tracker_ok sample_poller" "pg_header_nslots sample_poller = 4" by (simp_all add: sample_poller_def tracker_ok_def)
  from progress_not_back [OF this _ run, of 1] sample_reports run show ?thesis by auto
qed

end
