(* ===== verification/Tp_Control_Codec.thy ===== *)
theory Tp_Control_Codec
  imports Tp_Stream Tp_Consumer_Registry Tp_Consumer_Control
begin

text \<open>
  The control and metadata messages (schemas/wire-schema.xml): what src/client/tp_control.c sends and what
  src/client/tp_control_adapter.c makes of the bytes that arrive. The lemmas say that every message arrives as it was
  sent, for every text that fits, and that a decoded text lies inside the message.
\<close>

section \<open>Texts\<close>

text \<open>
  The text at the front of \<open>b\<close> and what follows it. The length is read as four little-endian bytes, and both it
  and the text have to be inside the buffer. A view of an empty text has the pointer NULL.
\<close>

definition tp_decode_var_data :: "bytes \<Rightarrow> (string \<times> bytes) option" where
  "tp_decode_var_data b =
     (if length b < 4 then None
      else let field_len = unat (le_u32 b)
           in if length b < 4 + field_len then None
              else Some (bytes_text (take field_len (drop 4 b)), drop (4 + field_len) b))"

definition get_text :: "string \<Rightarrow> bytes \<Rightarrow> (string \<times> bytes) res" where
  "get_text err b = (case tp_decode_var_data b of None \<Rightarrow> Inl (EINVAL err) | Some r \<Rightarrow> Inr r)"

text \<open>
  The data accessor of an encoder. The result for a pointer that is NULL is not looked at: when there is no room
  for the length, the message goes out without it.
\<close>

definition put_string :: "stream_codec \<Rightarrow> nat \<Rightarrow> string \<Rightarrow> bytes \<Rightarrow> bytes res" where
  "put_string S cap d w = (case sq_put_data S cap d w of None \<Rightarrow> Inl FAIL | Some w \<Rightarrow> Inr w)"

definition put_optional :: "stream_codec \<Rightarrow> nat \<Rightarrow> string option \<Rightarrow> bytes \<Rightarrow> bytes res" where
  "put_optional S cap d w =
     (case d of
        Some d \<Rightarrow> put_string S cap d w
      | None \<Rightarrow> Inr (case sq_put_data S cap [] w of None \<Rightarrow> w | Some w \<Rightarrow> w))"

text \<open>The strlen of a pointer that may be NULL.\<close>

definition tp_control_strlen :: "string option \<Rightarrow> nat" where
  "tp_control_strlen d = (case d of None \<Rightarrow> 0 | Some d \<Rightarrow> length d)"

definition put_message :: "stream_codec \<Rightarrow> string \<Rightarrow> (string \<times> u64) list \<Rightarrow> bytes" where
  "put_message S m kvs = sq_put_header S m @ sq_block S m kvs"

text \<open>
  The offer. The code of a failure is passed on; here it is \<open>FAIL\<close>. A publication that is NULL is \<open>None\<close>.
\<close>

definition tp_offer_message :: "(publication \<Rightarrow> bytes \<Rightarrow> int) \<Rightarrow> publication \<Rightarrow> bytes \<Rightarrow> bytes res" where
  "tp_offer_message offer pub buffer = (if offer pub buffer < 0 then Inl FAIL else Inr buffer)"

definition with_publication :: "string \<Rightarrow> publication option \<Rightarrow> (publication \<Rightarrow> bytes res) \<Rightarrow> bytes res" where
  "with_publication err pub k = (case pub of None \<Rightarrow> Inl (EINVAL err) | Some p \<Rightarrow> k p)"

text \<open>
  The checks at the head of a decoder. \<open>Inr None\<close> is the result 1, for another message. The decoders that are
  not \<open>strict\<close> take the block length and the version of the message as they are. The body gets the
  block with all that follows, and what follows the block.
\<close>

definition control_head :: "stream_codec \<Rightarrow> string \<Rightarrow> bool \<Rightarrow> string \<Rightarrow> bytes \<Rightarrow> (bytes \<Rightarrow> bytes \<Rightarrow> 'a res) \<Rightarrow> 'a option res" where
  "control_head S m strict fname buffer body =
     guard (length buffer < sq_header_length S) (EINVAL (fname @ '': buffer too short''))
     (case sq_get_header S buffer of
        (template_id, schema_id, block_length, version) \<Rightarrow>
          if schema_id \<noteq> sq_schema_id S \<or> template_id \<noteq> sq_template_id S m then Inr None
          else guard (strict \<and> version > sq_schema_version S) (EINVAL (fname @ '': unsupported schema version''))
            (guard (strict \<and> block_length \<noteq> sq_block_length S m) (EINVAL (fname @ '': block length mismatch''))
            (let b = drop (sq_header_length S) buffer in bind_res (body b (drop (unat block_length) b)) (\<lambda>v. Inr (Some v)))))"

section \<open>Hello and configuration of a consumer\<close>

record tp_consumer_hello_msg =
  hm_stream_id :: u32
  hm_consumer_id :: u32
  hm_supports_shm :: u8
  hm_supports_progress :: u8
  hm_mode :: u8
  hm_max_rate_hz :: u32
  hm_expected_layout_version :: u32
  hm_progress_interval_us :: u32
  hm_progress_bytes_delta :: u32
  hm_progress_major_delta_units :: u32
  hm_descriptor_stream_id :: u32
  hm_control_stream_id :: u32
  hm_descriptor_channel :: "string option"
  hm_control_channel :: "string option"

record tp_consumer_hello_view = tp_consumer_hello +
  hv_expected_layout_version :: u32

definition to_null :: "stream_codec \<Rightarrow> string \<Rightarrow> u32 \<Rightarrow> u64" where
  "to_null S nm v = (if v = TP_NULL_U32 then sq_null S nm else ucast v)"

definition from_null :: "stream_codec \<Rightarrow> string \<Rightarrow> u64 \<Rightarrow> u32" where
  "from_null S nm v = (if v = sq_null S nm then TP_NULL_U32 else ucast v)"

definition hello_fields :: "stream_codec \<Rightarrow> tp_consumer_hello_msg \<Rightarrow> (string \<times> u64) list" where
  "hello_fields S hello =
     [(''streamId'', ucast (hm_stream_id hello)), (''consumerId'', ucast (hm_consumer_id hello)), (''supportsShm'', ucast (hm_supports_shm hello)),
      (''supportsProgress'', ucast (hm_supports_progress hello)), (''mode'', ucast (hm_mode hello)), (''maxRateHz'', ucast (hm_max_rate_hz hello)),
      (''expectedLayoutVersion'', ucast (hm_expected_layout_version hello)),
      (''progressIntervalUs'', to_null S ''progressIntervalUs'' (hm_progress_interval_us hello)),
      (''progressBytesDelta'', to_null S ''progressBytesDelta'' (hm_progress_bytes_delta hello)),
      (''progressMajorDeltaUnits'', to_null S ''progressMajorDeltaUnits'' (hm_progress_major_delta_units hello)),
      (''descriptorStreamId'', ucast (hm_descriptor_stream_id hello)), (''controlStreamId'', ucast (hm_control_stream_id hello))]"

definition tp_consumer_send_hello ::
  "stream_codec \<Rightarrow> (publication \<Rightarrow> bytes \<Rightarrow> int) \<Rightarrow> publication option \<Rightarrow> tp_consumer_hello_msg \<Rightarrow> bytes res" where
  "tp_consumer_send_hello S offer control_publication hello =
     with_publication ''tp_consumer_send_hello: control publication unavailable'' control_publication (\<lambda>pub.
       let descriptor_len = tp_control_strlen (hm_descriptor_channel hello); control_len = tp_control_strlen (hm_control_channel hello)
       in guard ((descriptor_len > 0 \<and> hm_descriptor_stream_id hello = 0) \<or> (descriptor_len = 0 \<and> hm_descriptor_stream_id hello \<noteq> 0))
            (EINVAL ''tp_consumer_send_hello: invalid descriptor stream request'')
          (guard ((control_len > 0 \<and> hm_control_stream_id hello = 0) \<or> (control_len = 0 \<and> hm_control_stream_id hello \<noteq> 0))
            (EINVAL ''tp_consumer_send_hello: invalid control stream request'')
          (bind_res (put_optional S 512 (hm_descriptor_channel hello) (put_message S ''ConsumerHello'' (hello_fields S hello))) (\<lambda>w.
           bind_res (put_optional S 512 (hm_control_channel hello) w) (\<lambda>w.
           tp_offer_message offer pub w)))))"

definition tp_control_decode_consumer_hello :: "stream_codec \<Rightarrow> bytes \<Rightarrow> tp_consumer_hello_view option res" where
  "tp_control_decode_consumer_hello S buffer =
     control_head S ''ConsumerHello'' True ''tp_control_decode_consumer_hello'' buffer (\<lambda>b t.
       let field = (\<lambda>nm. sq_field S ''ConsumerHello'' nm b)
       in guard (\<not> sq_enum S ''supportsShm'' (field ''supportsShm'')) (EINVAL ''tp_control_decode_consumer_hello: invalid supportsShm'')
          (guard (\<not> sq_enum S ''supportsProgress'' (field ''supportsProgress'')) (EINVAL ''tp_control_decode_consumer_hello: invalid supportsProgress'')
          (guard (\<not> sq_enum S ''mode'' (field ''mode'')) (EINVAL ''tp_control_decode_consumer_hello: invalid mode'')
          (bind_res (get_text ''tp_control_decode_consumer_hello: invalid descriptor channel'' t) (\<lambda>(descriptor_channel, t).
           bind_res (get_text ''tp_control_decode_consumer_hello: invalid control channel'' t) (\<lambda>(control_channel, t).
           Inr \<lparr>ch_stream_id = ucast (field ''streamId''), ch_consumer_id = ucast (field ''consumerId''), ch_supports_shm = ucast (field ''supportsShm''),
             ch_supports_progress = ucast (field ''supportsProgress''), ch_mode = ucast (field ''mode''), ch_max_rate_hz = ucast (field ''maxRateHz''),
             ch_progress_interval_us = from_null S ''progressIntervalUs'' (field ''progressIntervalUs''),
             ch_progress_bytes_delta = from_null S ''progressBytesDelta'' (field ''progressBytesDelta''),
             ch_progress_major_delta_units = from_null S ''progressMajorDeltaUnits'' (field ''progressMajorDeltaUnits''),
             ch_descriptor_stream_id = ucast (field ''descriptorStreamId''), ch_control_stream_id = ucast (field ''controlStreamId''),
             ch_descriptor_channel = descriptor_channel, ch_control_channel = control_channel,
             hv_expected_layout_version = ucast (field ''expectedLayoutVersion'')\<rparr>))))))"

text \<open>The texts of a configuration are never NULL in the callers of the encoder: they pass empty texts.\<close>

definition config_fields :: "tp_consumer_config_msg \<Rightarrow> (string \<times> u64) list" where
  "config_fields config =
     [(''streamId'', ucast (cc_stream_id config)), (''consumerId'', ucast (cc_consumer_id config)), (''useShm'', ucast (cc_use_shm config)),
      (''mode'', ucast (cc_mode config)), (''descriptorStreamId'', ucast (cc_descriptor_stream_id config)),
      (''controlStreamId'', ucast (cc_control_stream_id config))]"

definition put_consumer_config :: "stream_codec \<Rightarrow> tp_consumer_config_msg \<Rightarrow> bytes res" where
  "put_consumer_config S config =
     bind_res (put_string S 512 (cc_payload_fallback_uri config) (put_message S ''ConsumerConfig'' (config_fields config))) (\<lambda>w.
     bind_res (put_string S 512 (cc_descriptor_channel config) w) (\<lambda>w.
     put_string S 512 (cc_control_channel config) w))"

definition tp_producer_send_consumer_config ::
  "stream_codec \<Rightarrow> (publication \<Rightarrow> bytes \<Rightarrow> int) \<Rightarrow> publication option \<Rightarrow> tp_consumer_config_msg \<Rightarrow> bytes res" where
  "tp_producer_send_consumer_config S offer control_publication config =
     with_publication ''tp_producer_send_consumer_config: control publication unavailable'' control_publication (\<lambda>pub.
       bind_res (put_consumer_config S config) (tp_offer_message offer pub))"

definition tp_control_decode_consumer_config :: "stream_codec \<Rightarrow> bytes \<Rightarrow> tp_consumer_config_msg option res" where
  "tp_control_decode_consumer_config S buffer =
     control_head S ''ConsumerConfig'' True ''tp_control_decode_consumer_config'' buffer (\<lambda>b t.
       let field = (\<lambda>nm. sq_field S ''ConsumerConfig'' nm b)
       in guard (\<not> sq_enum S ''useShm'' (field ''useShm'')) (EINVAL ''tp_control_decode_consumer_config: invalid useShm'')
          (guard (\<not> sq_enum S ''mode'' (field ''mode'')) (EINVAL ''tp_control_decode_consumer_config: invalid mode'')
          (bind_res (get_text ''tp_control_decode_consumer_config: invalid payload uri'' t) (\<lambda>(payload_fallback_uri, t).
           bind_res (get_text ''tp_control_decode_consumer_config: invalid descriptor channel'' t) (\<lambda>(descriptor_channel, t).
           bind_res (get_text ''tp_control_decode_consumer_config: invalid control channel'' t) (\<lambda>(control_channel, t).
           Inr \<lparr>cc_stream_id = ucast (field ''streamId''), cc_consumer_id = ucast (field ''consumerId''), cc_use_shm = ucast (field ''useShm''),
             cc_mode = ucast (field ''mode''), cc_descriptor_stream_id = ucast (field ''descriptorStreamId''),
             cc_control_stream_id = ucast (field ''controlStreamId''), cc_payload_fallback_uri = payload_fallback_uri,
             cc_descriptor_channel = descriptor_channel, cc_control_channel = control_channel\<rparr>))))))"

section \<open>Metadata\<close>

text \<open>The structs of a sender and the views of a receiver have the same fields; a text is NULL when it is \<open>None\<close>.\<close>

record 'text data_source_announce =
  dv_stream_id :: u32
  dv_producer_id :: u32
  dv_epoch :: u64
  dv_meta_version :: u32
  dv_name :: 'text
  dv_summary :: 'text

definition tp_producer_send_data_source_announce ::
  "stream_codec \<Rightarrow> (publication \<Rightarrow> bytes \<Rightarrow> int) \<Rightarrow> publication option \<Rightarrow> string option data_source_announce \<Rightarrow> bytes res" where
  "tp_producer_send_data_source_announce S offer metadata_publication announce =
     with_publication ''tp_producer_send_data_source_announce: metadata publication unavailable'' metadata_publication (\<lambda>pub.
       bind_res (put_optional S 512 (dv_name announce) (put_message S ''DataSourceAnnounce''
           [(''streamId'', ucast (dv_stream_id announce)), (''producerId'', ucast (dv_producer_id announce)), (''epoch'', dv_epoch announce),
            (''metaVersion'', ucast (dv_meta_version announce))])) (\<lambda>w.
       bind_res (put_optional S 512 (dv_summary announce) w) (\<lambda>w.
       tp_offer_message offer pub w)))"

definition tp_control_decode_data_source_announce :: "stream_codec \<Rightarrow> bytes \<Rightarrow> string data_source_announce option res" where
  "tp_control_decode_data_source_announce S buffer =
     control_head S ''DataSourceAnnounce'' False ''tp_control_decode_data_source_announce'' buffer (\<lambda>b t.
       let field = (\<lambda>nm. sq_field S ''DataSourceAnnounce'' nm b)
       in bind_res (get_text ''tp_control_decode_data_source_announce: invalid name'' t) (\<lambda>(name, t).
          bind_res (get_text ''tp_control_decode_data_source_announce: invalid summary'' t) (\<lambda>(summary, t).
          Inr \<lparr>dv_stream_id = ucast (field ''streamId''), dv_producer_id = ucast (field ''producerId''), dv_epoch = field ''epoch'',
            dv_meta_version = ucast (field ''metaVersion''), dv_name = name, dv_summary = summary\<rparr>)))"

text \<open>An attribute of a sender has no NULL pointer for its key and its format.\<close>

record tp_meta_attribute =
  ma_key :: string
  ma_format :: string
  ma_value :: string

record tp_data_source_meta_view =
  mv_stream_id :: u32
  mv_meta_version :: u32
  mv_timestamp_ns :: u64
  mv_attribute_count :: nat

fun put_attributes :: "stream_codec \<Rightarrow> nat \<Rightarrow> nat \<Rightarrow> tp_meta_attribute list \<Rightarrow> bytes \<Rightarrow> bytes res" where
  "put_attributes S n i [] w = Inr w"
| "put_attributes S n i (a # as) w =
     guard (\<not> sq_room S ''attributes'' 2048 n i w) FAIL
     (bind_res (put_string S 2048 (ma_key a) (w @ sq_block S ''attributes'' [])) (\<lambda>w.
      bind_res (put_string S 2048 (ma_format a) w) (\<lambda>w.
      bind_res (put_string S 2048 (ma_value a) w) (\<lambda>w.
      put_attributes S n (Suc i) as w))))"

text \<open>The count in the message has sixteen bits; the loop runs over all attributes.\<close>

definition tp_producer_send_data_source_meta ::
  "stream_codec \<Rightarrow> (publication \<Rightarrow> bytes \<Rightarrow> int) \<Rightarrow> publication option \<Rightarrow> u32 \<Rightarrow> u32 \<Rightarrow> u64 \<Rightarrow> tp_meta_attribute list \<Rightarrow> bytes res" where
  "tp_producer_send_data_source_meta S offer metadata_publication stream_id meta_version timestamp_ns attributes =
     with_publication ''tp_producer_send_data_source_meta: metadata publication unavailable'' metadata_publication (\<lambda>pub.
       case sq_put_dim S ''attributes'' 2048 (of_nat (length attributes))
              (put_message S ''DataSourceMeta'' [(''streamId'', ucast stream_id), (''metaVersion'', ucast meta_version), (''timestampNs'', timestamp_ns)]) of
         None \<Rightarrow> Inl FAIL
       | Some w \<Rightarrow> bind_res (put_attributes S (unat (of_nat (length attributes) :: u16)) 0 attributes w) (tp_offer_message offer pub))"

text \<open>
  The attributes, as far as they are handed to the callback, and the error that ended the loop, if any. \<open>wrap_ok\<close>: the
  accessor that wraps the group does not fail.
\<close>

definition get_attribute :: "bytes \<Rightarrow> (tp_meta_attribute \<times> bytes) option" where
  "get_attribute b =
     (case tp_decode_var_data b of
        None \<Rightarrow> None
      | Some (key, b) \<Rightarrow>
          (case tp_decode_var_data b of
             None \<Rightarrow> None
           | Some (fmt, b) \<Rightarrow>
               (case tp_decode_var_data b of
                  None \<Rightarrow> None
                | Some (val, b) \<Rightarrow> Some (\<lparr>ma_key = key, ma_format = fmt, ma_value = val\<rparr>, b))))"

fun get_attributes :: "stream_codec \<Rightarrow> nat \<Rightarrow> nat \<Rightarrow> nat \<Rightarrow> bytes \<Rightarrow> tp_meta_attribute list \<times> tp_error option" where
  "get_attributes S n 0 i b = ([], None)"
| "get_attributes S n (Suc k) i b =
     (case sq_next S ''attributes'' i n b of
        None \<Rightarrow> ([], Some (EINVAL ''tp_control_decode_data_source_meta: attributes truncated''))
      | Some b \<Rightarrow>
          (case get_attribute b of
             None \<Rightarrow> ([], Some (EINVAL ''tp_control_decode_data_source_meta: invalid attribute''))
           | Some (a, b) \<Rightarrow> (case get_attributes S n k (Suc i) b of (as, e) \<Rightarrow> (a # as, e))))"

definition decode_meta :: "stream_codec \<Rightarrow> (bytes \<Rightarrow> bool) \<Rightarrow> bytes \<Rightarrow> (tp_data_source_meta_view \<times> tp_meta_attribute list \<times> tp_error option) option res" where
  "decode_meta S wrap_ok buffer =
     control_head S ''DataSourceMeta'' True ''tp_control_decode_data_source_meta'' buffer (\<lambda>b t.
       let field = (\<lambda>nm. sq_field S ''DataSourceMeta'' nm b)
       in guard (\<not> wrap_ok t) (EINVAL ''tp_control_decode_data_source_meta: attributes truncated'')
            (case sq_wrap S ''attributes'' t of
               (count, t) \<Rightarrow>
                 Inr (\<lparr>mv_stream_id = ucast (field ''streamId''), mv_meta_version = ucast (field ''metaVersion''), mv_timestamp_ns = field ''timestampNs'',
                        mv_attribute_count = unat count\<rparr>, get_attributes S (unat count) (unat count) 0 t)))"

text \<open>The result, and what the callback has got before it; without a callback the attributes are not looked at.\<close>

definition tp_control_decode_data_source_meta ::
  "stream_codec \<Rightarrow> (bytes \<Rightarrow> bool) \<Rightarrow> bool \<Rightarrow> bytes \<Rightarrow> tp_meta_attribute list \<times> tp_data_source_meta_view option res" where
  "tp_control_decode_data_source_meta S wrap_ok on_attr buffer =
     (case decode_meta S wrap_ok buffer of
        Inl e \<Rightarrow> ([], Inl e)
      | Inr None \<Rightarrow> ([], Inr None)
      | Inr (Some (view, as, e)) \<Rightarrow>
          if on_attr then (as, case e of None \<Rightarrow> Inr (Some view) | Some e \<Rightarrow> Inl e) else ([], Inr (Some view)))"

section \<open>Blobs of metadata\<close>

record tp_meta_blob_announce =
  ba_stream_id :: u32
  ba_meta_version :: u32
  ba_blob_type :: u32
  ba_total_len :: u64
  ba_checksum :: u64

record tp_meta_blob_chunk =
  bc_stream_id :: u32
  bc_meta_version :: u32
  bc_offset :: u64
  bc_bytes :: string

record tp_meta_blob_complete =
  bx_stream_id :: u32
  bx_meta_version :: u32
  bx_checksum :: u64

definition tp_producer_send_meta_blob_announce ::
  "stream_codec \<Rightarrow> (publication \<Rightarrow> bytes \<Rightarrow> int) \<Rightarrow> publication option \<Rightarrow> tp_meta_blob_announce \<Rightarrow> bytes res" where
  "tp_producer_send_meta_blob_announce S offer metadata_publication announce =
     with_publication ''tp_producer_send_meta_blob_announce: metadata publication unavailable'' metadata_publication (\<lambda>pub.
       tp_offer_message offer pub (put_message S ''MetaBlobAnnounce''
         [(''streamId'', ucast (ba_stream_id announce)), (''metaVersion'', ucast (ba_meta_version announce)), (''blobType'', ucast (ba_blob_type announce)),
          (''totalLen'', ba_total_len announce), (''checksum'', ba_checksum announce)]))"

text \<open>The length of a chunk is checked against the buffer without the four bytes of the length.\<close>

definition tp_producer_send_meta_blob_chunk ::
  "stream_codec \<Rightarrow> (publication \<Rightarrow> bytes \<Rightarrow> int) \<Rightarrow> publication option \<Rightarrow> tp_meta_blob_chunk \<Rightarrow> bytes res" where
  "tp_producer_send_meta_blob_chunk S offer metadata_publication chunk =
     with_publication ''tp_producer_send_meta_blob_chunk: metadata publication unavailable'' metadata_publication (\<lambda>pub.
       guard (length (bc_bytes chunk) = 0) (EINVAL ''tp_producer_send_meta_blob_chunk: empty chunk'')
       (guard (length (bc_bytes chunk) > 4096 - sq_header_length S - unat (sq_block_length S ''MetaBlobChunk''))
         (EINVAL ''tp_producer_send_meta_blob_chunk: chunk too large'')
       (bind_res (put_string S 4096 (bc_bytes chunk) (put_message S ''MetaBlobChunk''
            [(''streamId'', ucast (bc_stream_id chunk)), (''metaVersion'', ucast (bc_meta_version chunk)), (''chunkOffset'', bc_offset chunk)]))
          (tp_offer_message offer pub))))"

definition tp_producer_send_meta_blob_complete ::
  "stream_codec \<Rightarrow> (publication \<Rightarrow> bytes \<Rightarrow> int) \<Rightarrow> publication option \<Rightarrow> tp_meta_blob_complete \<Rightarrow> bytes res" where
  "tp_producer_send_meta_blob_complete S offer metadata_publication complete =
     with_publication ''tp_producer_send_meta_blob_complete: metadata publication unavailable'' metadata_publication (\<lambda>pub.
       tp_offer_message offer pub (put_message S ''MetaBlobComplete''
         [(''streamId'', ucast (bx_stream_id complete)), (''metaVersion'', ucast (bx_meta_version complete)), (''checksum'', bx_checksum complete)]))"

definition tp_control_decode_meta_blob_announce :: "stream_codec \<Rightarrow> bytes \<Rightarrow> tp_meta_blob_announce option res" where
  "tp_control_decode_meta_blob_announce S buffer =
     control_head S ''MetaBlobAnnounce'' False ''tp_control_decode_meta_blob_announce'' buffer (\<lambda>b t.
       let field = (\<lambda>nm. sq_field S ''MetaBlobAnnounce'' nm b)
       in Inr \<lparr>ba_stream_id = ucast (field ''streamId''), ba_meta_version = ucast (field ''metaVersion''), ba_blob_type = ucast (field ''blobType''),
            ba_total_len = field ''totalLen'', ba_checksum = field ''checksum''\<rparr>)"

definition tp_control_decode_meta_blob_chunk :: "stream_codec \<Rightarrow> bytes \<Rightarrow> tp_meta_blob_chunk option res" where
  "tp_control_decode_meta_blob_chunk S buffer =
     control_head S ''MetaBlobChunk'' True ''tp_control_decode_meta_blob_chunk'' buffer (\<lambda>b t.
       let field = (\<lambda>nm. sq_field S ''MetaBlobChunk'' nm b)
       in bind_res (get_text ''tp_control_decode_meta_blob_chunk: invalid bytes'' t) (\<lambda>(data, t).
          Inr \<lparr>bc_stream_id = ucast (field ''streamId''), bc_meta_version = ucast (field ''metaVersion''), bc_offset = field ''chunkOffset'', bc_bytes = data\<rparr>))"

definition tp_control_decode_meta_blob_complete :: "stream_codec \<Rightarrow> bytes \<Rightarrow> tp_meta_blob_complete option res" where
  "tp_control_decode_meta_blob_complete S buffer =
     control_head S ''MetaBlobComplete'' False ''tp_control_decode_meta_blob_complete'' buffer (\<lambda>b t.
       let field = (\<lambda>nm. sq_field S ''MetaBlobComplete'' nm b)
       in Inr \<lparr>bx_stream_id = ucast (field ''streamId''), bx_meta_version = ucast (field ''metaVersion''), bx_checksum = field ''checksum''\<rparr>)"

section \<open>Announcements of pools and control responses\<close>

record tp_pool_announce = tp_shm_pool_announce_view +
  an_producer_id :: u32

fun put_announce_pools :: "stream_codec \<Rightarrow> nat \<Rightarrow> nat \<Rightarrow> nat \<Rightarrow> tp_shm_pool_desc list \<Rightarrow> bytes \<Rightarrow> bytes res" where
  "put_announce_pools S cap n i [] w = Inr w"
| "put_announce_pools S cap n i (p # ps) w =
     guard (\<not> sq_room S ''payloadPools'' cap n i w) (EINVAL ''tp_producer_send_shm_pool_announce: payload pool next failed'')
     (case sq_put_data S cap (ds_region_uri p)
             (w @ sq_block S ''payloadPools'' [(''poolId'', ucast (ds_pool_id p)), (''poolNslots'', ucast (ds_nslots p)), (''strideBytes'', ucast (ds_stride_bytes p))]) of
        None \<Rightarrow> Inl (EINVAL ''tp_producer_send_shm_pool_announce: payload pool uri encode failed'')
      | Some w \<Rightarrow> put_announce_pools S cap n (Suc i) ps w)"

definition announce_fields :: "tp_pool_announce \<Rightarrow> (string \<times> u64) list" where
  "announce_fields announce =
     [(''streamId'', ucast (an_stream_id announce)), (''producerId'', ucast (an_producer_id announce)), (''epoch'', an_epoch announce),
      (''announceTimestampNs'', an_timestamp_ns announce), (''layoutVersion'', ucast (an_layout_version announce)),
      (''headerNslots'', ucast (an_header_nslots announce)), (''headerSlotBytes'', ucast (an_header_slot_bytes announce)),
      (''announceClockDomain'', ucast (an_clock_domain announce))]"

text \<open>The size of the message, with the four bytes of the dimensions of a group and of the length of a text.\<close>

definition announce_length :: "stream_codec \<Rightarrow> tp_pool_announce \<Rightarrow> nat" where
  "announce_length S announce =
     sq_header_length S + unat (sq_block_length S ''ShmPoolAnnounce'') + 4 + 4 + length (an_header_region_uri announce) +
     sum_list (map (\<lambda>p. unat (sq_block_length S ''payloadPools'') + 4 + length (ds_region_uri p)) (an_pools announce))"

definition tp_producer_send_shm_pool_announce ::
  "stream_codec \<Rightarrow> bool \<Rightarrow> (publication \<Rightarrow> bytes \<Rightarrow> int) \<Rightarrow> publication option \<Rightarrow> tp_pool_announce \<Rightarrow> bytes res" where
  "tp_producer_send_shm_pool_announce S alloc_ok offer control_publication announce =
     with_publication ''tp_producer_send_shm_pool_announce: control publication unavailable'' control_publication (\<lambda>pub.
       let pool_count = length (an_pools announce); buffer_len = announce_length S announce
       in guard (pool_count = 0) (EINVAL ''tp_producer_send_shm_pool_announce: missing payload pools'')
          (guard (an_header_region_uri announce = []) (EINVAL ''tp_producer_send_shm_pool_announce: missing header region uri'')
          (guard (\<not> alloc_ok) (ENOMEM ''tp_producer_send_shm_pool_announce: buffer allocation failed'')
          (case sq_put_dim S ''payloadPools'' buffer_len (of_nat pool_count) (put_message S ''ShmPoolAnnounce'' (announce_fields announce)) of
             None \<Rightarrow> Inl (EINVAL ''tp_producer_send_shm_pool_announce: payload pool wrap failed'')
           | Some w \<Rightarrow>
               bind_res (put_announce_pools S buffer_len (unat (of_nat pool_count :: u16)) 0 (an_pools announce) w) (\<lambda>w.
               case sq_put_data S buffer_len (an_header_region_uri announce) w of
                 None \<Rightarrow> Inl (EINVAL ''tp_producer_send_shm_pool_announce: header uri encode failed'')
               | Some w \<Rightarrow> tp_offer_message offer pub w)))))"

fun get_announce_pools :: "stream_codec \<Rightarrow> nat \<Rightarrow> nat \<Rightarrow> nat \<Rightarrow> bytes \<Rightarrow> (tp_shm_pool_desc list \<times> bytes) res" where
  "get_announce_pools S n 0 i b = Inr ([], b)"
| "get_announce_pools S n (Suc k) i b =
     (case sq_next S ''payloadPools'' i n b of
        None \<Rightarrow> Inl (EINVAL ''tp_control_decode_shm_pool_announce: payload pools truncated'')
      | Some b' \<Rightarrow>
          let field = (\<lambda>nm. sq_field S ''payloadPools'' nm b)
          in bind_res (get_text ''tp_control_decode_shm_pool_announce: invalid pool uri'' b') (\<lambda>(uri, b').
             bind_res (get_announce_pools S n k (Suc i) b') (\<lambda>(ps, b').
             Inr (\<lparr>ds_pool_id = ucast (field ''poolId''), ds_nslots = ucast (field ''poolNslots''), ds_stride_bytes = ucast (field ''strideBytes''),
                    ds_region_uri = uri\<rparr> # ps, b'))))"

definition tp_control_decode_shm_pool_announce :: "stream_codec \<Rightarrow> bool \<Rightarrow> (bytes \<Rightarrow> bool) \<Rightarrow> bytes \<Rightarrow> tp_pool_announce option res" where
  "tp_control_decode_shm_pool_announce S alloc_ok wrap_ok buffer =
     control_head S ''ShmPoolAnnounce'' True ''tp_control_decode_shm_pool_announce'' buffer (\<lambda>b t.
       let field = (\<lambda>nm. sq_field S ''ShmPoolAnnounce'' nm b)
       in guard (\<not> sq_enum S ''announceClockDomain'' (field ''announceClockDomain'')) (EINVAL ''tp_control_decode_shm_pool_announce: invalid clock domain'')
          (guard (\<not> wrap_ok t) (EINVAL ''tp_control_decode_shm_pool_announce: payload pools truncated'')
          (case sq_wrap S ''payloadPools'' t of
             (count, t) \<Rightarrow>
               guard (count > 0 \<and> \<not> alloc_ok) (ENOMEM ''tp_control_decode_shm_pool_announce: pool allocation failed'')
               (bind_res (get_announce_pools S (unat count) (unat count) 0 t) (\<lambda>(pools, t).
                bind_res (get_text ''tp_control_decode_shm_pool_announce: invalid header uri'' t) (\<lambda>(uri, t).
                Inr \<lparr>an_stream_id = ucast (field ''streamId''), an_epoch = field ''epoch'', an_timestamp_ns = field ''announceTimestampNs'',
                  an_clock_domain = ucast (field ''announceClockDomain''), an_layout_version = ucast (field ''layoutVersion''),
                  an_header_nslots = ucast (field ''headerNslots''), an_header_slot_bytes = ucast (field ''headerSlotBytes''),
                  an_header_region_uri = uri, an_pools = pools, an_producer_id = ucast (field ''producerId'')\<rparr>))))))"

record 'text control_response =
  rv_correlation_id :: u64
  rv_code :: u32
  rv_error_message :: 'text

definition tp_producer_send_control_response ::
  "stream_codec \<Rightarrow> (publication \<Rightarrow> bytes \<Rightarrow> int) \<Rightarrow> publication option \<Rightarrow> string option control_response \<Rightarrow> bytes res" where
  "tp_producer_send_control_response S offer control_publication response =
     with_publication ''tp_producer_send_control_response: control publication unavailable'' control_publication (\<lambda>pub.
       bind_res (put_optional S 512 (rv_error_message response) (put_message S ''ControlResponse''
           [(''correlationId'', rv_correlation_id response), (''code'', ucast (rv_code response))]))
         (tp_offer_message offer pub))"

definition tp_control_decode_control_response :: "stream_codec \<Rightarrow> bytes \<Rightarrow> string control_response option res" where
  "tp_control_decode_control_response S buffer =
     control_head S ''ControlResponse'' False ''tp_control_decode_control_response'' buffer (\<lambda>b t.
       let field = (\<lambda>nm. sq_field S ''ControlResponse'' nm b)
       in guard (\<not> sq_enum S ''code'' (field ''code'')) (EINVAL ''tp_control_decode_control_response: invalid response code'')
          (bind_res (get_text ''tp_control_decode_control_response: invalid error message'' t) (\<lambda>(msg, t).
           Inr \<lparr>rv_correlation_id = field ''correlationId'', rv_code = ucast (field ''code''), rv_error_message = msg\<rparr>)))"

section \<open>Messages that arrive\<close>

text \<open>
  Beyond the accessors' laws: a text is written with its length in four little-endian bytes, which the decoders read
  without the accessors, and the fields have room for their values.
\<close>

definition text_of :: "string option \<Rightarrow> string" where
  "text_of d = (case d of None \<Rightarrow> [] | Some d \<Rightarrow> d)"

lemma hello_lookup:
  "map_of (hello_fields S hello) ''streamId'' = Some (ucast (hm_stream_id hello))"
  "map_of (hello_fields S hello) ''consumerId'' = Some (ucast (hm_consumer_id hello))"
  "map_of (hello_fields S hello) ''supportsShm'' = Some (ucast (hm_supports_shm hello))"
  "map_of (hello_fields S hello) ''supportsProgress'' = Some (ucast (hm_supports_progress hello))"
  "map_of (hello_fields S hello) ''mode'' = Some (ucast (hm_mode hello))"
  "map_of (hello_fields S hello) ''maxRateHz'' = Some (ucast (hm_max_rate_hz hello))"
  "map_of (hello_fields S hello) ''expectedLayoutVersion'' = Some (ucast (hm_expected_layout_version hello))"
  "map_of (hello_fields S hello) ''progressIntervalUs'' = Some (to_null S ''progressIntervalUs'' (hm_progress_interval_us hello))"
  "map_of (hello_fields S hello) ''progressBytesDelta'' = Some (to_null S ''progressBytesDelta'' (hm_progress_bytes_delta hello))"
  "map_of (hello_fields S hello) ''progressMajorDeltaUnits'' = Some (to_null S ''progressMajorDeltaUnits'' (hm_progress_major_delta_units hello))"
  "map_of (hello_fields S hello) ''descriptorStreamId'' = Some (ucast (hm_descriptor_stream_id hello))"
  "map_of (hello_fields S hello) ''controlStreamId'' = Some (ucast (hm_control_stream_id hello))"
  by (simp_all add: hello_fields_def)

lemma config_lookup:
  "map_of (config_fields config) ''streamId'' = Some (ucast (cc_stream_id config))"
  "map_of (config_fields config) ''consumerId'' = Some (ucast (cc_consumer_id config))"
  "map_of (config_fields config) ''useShm'' = Some (ucast (cc_use_shm config))"
  "map_of (config_fields config) ''mode'' = Some (ucast (cc_mode config))"
  "map_of (config_fields config) ''descriptorStreamId'' = Some (ucast (cc_descriptor_stream_id config))"
  "map_of (config_fields config) ''controlStreamId'' = Some (ucast (cc_control_stream_id config))"
  by (simp_all add: config_fields_def)

lemma announce_lookup:
  "map_of (announce_fields announce) ''streamId'' = Some (ucast (an_stream_id announce))"
  "map_of (announce_fields announce) ''producerId'' = Some (ucast (an_producer_id announce))"
  "map_of (announce_fields announce) ''epoch'' = Some (an_epoch announce)"
  "map_of (announce_fields announce) ''announceTimestampNs'' = Some (an_timestamp_ns announce)"
  "map_of (announce_fields announce) ''layoutVersion'' = Some (ucast (an_layout_version announce))"
  "map_of (announce_fields announce) ''headerNslots'' = Some (ucast (an_header_nslots announce))"
  "map_of (announce_fields announce) ''headerSlotBytes'' = Some (ucast (an_header_slot_bytes announce))"
  "map_of (announce_fields announce) ''announceClockDomain'' = Some (ucast (an_clock_domain announce))"
  by (simp_all add: announce_fields_def)

definition optional_u32 :: "string list" where
  "optional_u32 = [''progressIntervalUs'', ''progressBytesDelta'', ''progressMajorDeltaUnits'']"

locale control_codec = stream_laws +
  assumes data_le: "sq_data S d = le_bytes 4 (of_nat (length d)) @ text_bytes d"
    and null_u32: "nm \<in> set optional_u32 \<Longrightarrow> sq_null S nm = ucast TP_NULL_U32"
    and dim_width: "length (sq_dim S g c) = 4"
    and fits_hello: "fits ''ConsumerHello'' (hello_fields S hello)"
    and fits_config: "fits ''ConsumerConfig'' (config_fields config)"
    and fits_announce: "fits ''ShmPoolAnnounce'' (announce_fields announce)"
    and fits_pool: "fits ''payloadPools'' [(''poolId'', ucast (pid :: u16)), (''poolNslots'', ucast (n :: u32)), (''strideBytes'', ucast (sb :: u32))]"
    and fits_blob: "fits ''MetaBlobAnnounce'' [(''streamId'', ucast (sid :: u32)), (''metaVersion'', ucast (mv :: u32)), (''blobType'', ucast (bt :: u32)),
        (''totalLen'', total_len), (''checksum'', checksum)]"
    and fits_chunk: "fits ''MetaBlobChunk'' [(''streamId'', ucast sid), (''metaVersion'', ucast mv), (''chunkOffset'', off)]"
    and fits_complete: "fits ''MetaBlobComplete'' [(''streamId'', ucast sid), (''metaVersion'', ucast mv), (''checksum'', checksum)]"
begin

lemma length_text_data: "length (sq_data S d) = 4 + length d"
  by (simp add: data_le)

lemma decode_data: "length d < 2 ^ 32 \<Longrightarrow> tp_decode_var_data (sq_data S d @ r) = Some (d, r)"
  using le_u32_bytes [of "length d" "text_bytes d @ r"] by (simp add: tp_decode_var_data_def data_le Let_def unat_of_nat)

lemma get_text_data: "length d < 2 ^ 32 \<Longrightarrow> get_text err (sq_data S d @ r) = Inr (d, r)"
  by (simp add: get_text_def decode_data)

lemma get_text_last: "length d < 2 ^ 32 \<Longrightarrow> get_text err (sq_data S d) = Inr (d, [])"
  using get_text_data [of d err "[]"] by simp

lemma put_string_fits: "length w + 4 + length d \<le> cap \<Longrightarrow> put_string S cap d w = Inr (w @ sq_data S d)"
  using put_data [of w d cap] by (simp add: put_string_def length_text_data)

lemma put_optional_fits: "length w + 4 + length (text_of d) \<le> cap \<Longrightarrow> put_optional S cap d w = Inr (w @ sq_data S (text_of d))"
  using put_string_fits [of w "text_of d" cap] put_data [of w "[]" cap]
  by (auto simp: put_optional_def text_of_def length_text_data split: option.splits)

lemma length_message: "fits m kvs \<Longrightarrow> length (put_message S m kvs) = sq_header_length S + unat (sq_block_length S m)"
  by (simp add: put_message_def length_header length_block)

lemma head_message:
  assumes "fits m kvs"
  shows "control_head S m strict fname (put_message S m kvs @ t) body = bind_res (body (sq_block S m kvs @ t) t) (\<lambda>v. Inr (Some v))"
  by (simp add: control_head_def put_message_def length_header get_header length_block [OF assms, symmetric] Let_def)

lemma field_message: "fits m kvs \<Longrightarrow> map_of kvs nm \<noteq> None \<Longrightarrow> sq_field S m nm (sq_block S m kvs @ t) = the (map_of kvs nm)"
  using field_block [of m kvs nm "the (map_of kvs nm)" t] map_of_SomeD [of kvs nm] by auto

lemma to_from_null: "nm \<in> set optional_u32 \<Longrightarrow> from_null S nm (to_null S nm v) = v"
  by (auto simp: from_null_def to_null_def null_u32 unsigned_ucast_eq)

text \<open>A hello with texts that fit.\<close>

definition hello_view :: "tp_consumer_hello_msg \<Rightarrow> tp_consumer_hello_view" where
  "hello_view hello =
     \<lparr>ch_stream_id = hm_stream_id hello, ch_consumer_id = hm_consumer_id hello, ch_supports_shm = hm_supports_shm hello,
      ch_supports_progress = hm_supports_progress hello, ch_mode = hm_mode hello, ch_max_rate_hz = hm_max_rate_hz hello,
      ch_progress_interval_us = hm_progress_interval_us hello, ch_progress_bytes_delta = hm_progress_bytes_delta hello,
      ch_progress_major_delta_units = hm_progress_major_delta_units hello, ch_descriptor_stream_id = hm_descriptor_stream_id hello,
      ch_control_stream_id = hm_control_stream_id hello, ch_descriptor_channel = text_of (hm_descriptor_channel hello),
      ch_control_channel = text_of (hm_control_channel hello), hv_expected_layout_version = hm_expected_layout_version hello\<rparr>"

definition hello_bytes :: "tp_consumer_hello_msg \<Rightarrow> bytes" where
  "hello_bytes hello = put_message S ''ConsumerHello'' (hello_fields S hello) @ sq_data S (text_of (hm_descriptor_channel hello)) @
     sq_data S (text_of (hm_control_channel hello))"

definition hello_valid :: "tp_consumer_hello_msg \<Rightarrow> bool" where
  "hello_valid hello \<longleftrightarrow> (text_of (hm_descriptor_channel hello) = [] \<longleftrightarrow> hm_descriptor_stream_id hello = 0) \<and>
     (text_of (hm_control_channel hello) = [] \<longleftrightarrow> hm_control_stream_id hello = 0) \<and> length (hello_bytes hello) \<le> 512 \<and>
     sq_enum S ''supportsShm'' (ucast (hm_supports_shm hello)) \<and> sq_enum S ''supportsProgress'' (ucast (hm_supports_progress hello)) \<and>
     sq_enum S ''mode'' (ucast (hm_mode hello))"

lemma hello_sent:
  assumes "hello_valid hello"
  shows "tp_consumer_send_hello S offer (Some pub) hello = tp_offer_message offer pub (hello_bytes hello)"
proof -
  have size: "length (put_message S ''ConsumerHello'' (hello_fields S hello)) + 4 + length (text_of (hm_descriptor_channel hello)) + 4 +
      length (text_of (hm_control_channel hello)) \<le> 512"
    using assms by (simp add: hello_valid_def hello_bytes_def length_text_data)
  have len: "tp_control_strlen d = length (text_of d)" for d by (simp add: tp_control_strlen_def text_of_def split: option.split)
  have "put_optional S 512 (hm_descriptor_channel hello) (put_message S ''ConsumerHello'' (hello_fields S hello)) =
      Inr (put_message S ''ConsumerHello'' (hello_fields S hello) @ sq_data S (text_of (hm_descriptor_channel hello)))"
    by (rule put_optional_fits) (use size in simp)
  moreover have "put_optional S 512 (hm_control_channel hello)
      (put_message S ''ConsumerHello'' (hello_fields S hello) @ sq_data S (text_of (hm_descriptor_channel hello))) = Inr (hello_bytes hello)"
    using put_optional_fits [of "put_message S ''ConsumerHello'' (hello_fields S hello) @ sq_data S (text_of (hm_descriptor_channel hello))"
        "hm_control_channel hello" 512] size by (simp add: hello_bytes_def length_text_data)
  ultimately show ?thesis
    using assms by (simp add: tp_consumer_send_hello_def with_publication_def Let_def len hello_valid_def)
qed

lemma hello_read:
  assumes "hello_valid hello"
  shows "tp_control_decode_consumer_hello S (hello_bytes hello) = Inr (Some (hello_view hello))"
proof -
  let ?t = "sq_data S (text_of (hm_descriptor_channel hello)) @ sq_data S (text_of (hm_control_channel hello))"
  have small: "length (text_of (hm_descriptor_channel hello)) < 2 ^ 32" "length (text_of (hm_control_channel hello)) < 2 ^ 32"
    using assms by (simp_all add: hello_valid_def hello_bytes_def length_text_data)
  show ?thesis
    using assms small
    by (simp add: tp_control_decode_consumer_hello_def hello_bytes_def head_message [OF fits_hello] field_message [OF fits_hello] Let_def
        hello_lookup get_text_data get_text_last hello_view_def hello_valid_def to_from_null optional_u32_def)
qed

text \<open>A configuration with texts that fit.\<close>

definition config_bytes :: "tp_consumer_config_msg \<Rightarrow> bytes" where
  "config_bytes config = put_message S ''ConsumerConfig'' (config_fields config) @ sq_data S (cc_payload_fallback_uri config) @
     sq_data S (cc_descriptor_channel config) @ sq_data S (cc_control_channel config)"

definition config_valid :: "tp_consumer_config_msg \<Rightarrow> bool" where
  "config_valid config \<longleftrightarrow> length (config_bytes config) \<le> 512 \<and> sq_enum S ''useShm'' (ucast (cc_use_shm config)) \<and> sq_enum S ''mode'' (ucast (cc_mode config))"

lemma config_put:
  assumes "config_valid config"
  shows "put_consumer_config S config = Inr (config_bytes config)"
proof -
  let ?m = "put_message S ''ConsumerConfig'' (config_fields config)"
  have size: "length ?m + 4 + length (cc_payload_fallback_uri config) + 4 + length (cc_descriptor_channel config) + 4 + length (cc_control_channel config) \<le> 512"
    using assms by (simp add: config_valid_def config_bytes_def length_text_data)
  then show ?thesis
    by (simp add: put_consumer_config_def put_string_fits length_text_data config_bytes_def)
qed

lemma config_read:
  assumes "config_valid config"
  shows "tp_control_decode_consumer_config S (config_bytes config) = Inr (Some config)"
proof -
  have small: "length (cc_payload_fallback_uri config) < 2 ^ 32" "length (cc_descriptor_channel config) < 2 ^ 32" "length (cc_control_channel config) < 2 ^ 32"
    using assms by (simp_all add: config_valid_def config_bytes_def length_text_data)
  then show ?thesis
    using assms
    by (simp add: tp_control_decode_consumer_config_def config_bytes_def head_message [OF fits_config] field_message [OF fits_config] Let_def config_lookup
        get_text_data get_text_last config_valid_def)
qed

text \<open>An announcement, for any number of pools up to the largest count.\<close>

definition pool_bytes :: "tp_shm_pool_desc \<Rightarrow> bytes" where
  "pool_bytes p = sq_block S ''payloadPools'' [(''poolId'', ucast (ds_pool_id p)), (''poolNslots'', ucast (ds_nslots p)), (''strideBytes'', ucast (ds_stride_bytes p))] @
     sq_data S (ds_region_uri p)"

lemma length_pool: "length (pool_bytes p) = unat (sq_block_length S ''payloadPools'') + 4 + length (ds_region_uri p)"
  by (simp add: pool_bytes_def length_block [OF fits_pool] length_text_data)

lemma pools_put:
  "length w + sum_list (map (\<lambda>p. length (pool_bytes p)) ps) \<le> cap \<Longrightarrow> n = i + length ps \<Longrightarrow>
   put_announce_pools S cap n i ps w = Inr (w @ concat (map pool_bytes ps))"
proof (induction ps arbitrary: i w)
  case (Cons p ps)
  let ?b = "sq_block S ''payloadPools'' [(''poolId'', ucast (ds_pool_id p)), (''poolNslots'', ucast (ds_nslots p)), (''strideBytes'', ucast (ds_stride_bytes p))]"
  have "sq_room S ''payloadPools'' cap n i w" using Cons.prems by (intro room) (simp_all add: length_pool)
  moreover have "sq_put_data S cap (ds_region_uri p) (w @ ?b) = Some (w @ pool_bytes p)"
    using put_data [of "w @ ?b" "ds_region_uri p" cap] Cons.prems(1) by (simp add: length_pool length_text_data length_block [OF fits_pool] pool_bytes_def)
  moreover have "put_announce_pools S cap n (Suc i) ps (w @ pool_bytes p) = Inr ((w @ pool_bytes p) @ concat (map pool_bytes ps))"
    by (rule Cons.IH) (use Cons.prems in simp_all)
  ultimately show ?case by simp
qed simp

lemma pools_get:
  "n = i + length ps \<Longrightarrow> \<forall>p\<in>set ps. length (ds_region_uri p) < 2 ^ 32 \<Longrightarrow>
   get_announce_pools S n (length ps) i (concat (map pool_bytes ps) @ r) = Inr (ps, r)"
proof (induction ps arbitrary: i)
  case (Cons p ps)
  have next_one: "sq_next S ''payloadPools'' i (Suc (i + length ps)) (pool_bytes p @ x) = Some (sq_data S (ds_region_uri p) @ x)" for x
    using next_block [OF fits_pool, of i "Suc (i + length ps)" "ds_pool_id p" "ds_nslots p" "ds_stride_bytes p" "sq_data S (ds_region_uri p) @ x"]
    by (simp add: pool_bytes_def)
  have fields: "sq_field S ''payloadPools'' nm (pool_bytes p @ x) =
      the (map_of [(''poolId'', ucast (ds_pool_id p)), (''poolNslots'', ucast (ds_nslots p)), (''strideBytes'', ucast (ds_stride_bytes p))] nm)"
    if "map_of [(''poolId'', ucast (ds_pool_id p) :: u64), (''poolNslots'', ucast (ds_nslots p)), (''strideBytes'', ucast (ds_stride_bytes p))] nm \<noteq> None" for nm x
    using field_message [OF fits_pool that, of "sq_data S (ds_region_uri p) @ x"] by (simp add: pool_bytes_def)
  have "get_announce_pools S n (length ps) (Suc i) (concat (map pool_bytes ps) @ r) = Inr (ps, r)"
    by (rule Cons.IH) (use Cons.prems in simp_all)
  then show ?case using Cons.prems by (simp add: next_one fields get_text_data Let_def)
qed simp

definition announce_bytes :: "tp_pool_announce \<Rightarrow> bytes" where
  "announce_bytes announce = put_message S ''ShmPoolAnnounce'' (announce_fields announce) @ sq_dim S ''payloadPools'' (of_nat (length (an_pools announce))) @
     concat (map pool_bytes (an_pools announce)) @ sq_data S (an_header_region_uri announce)"

definition announce_valid :: "tp_pool_announce \<Rightarrow> bool" where
  "announce_valid announce \<longleftrightarrow> an_pools announce \<noteq> [] \<and> length (an_pools announce) < 2 ^ 16 \<and> an_header_region_uri announce \<noteq> [] \<and>
     length (an_header_region_uri announce) < 2 ^ 32 \<and> (\<forall>p\<in>set (an_pools announce). length (ds_region_uri p) < 2 ^ 32) \<and>
     sq_enum S ''announceClockDomain'' (ucast (an_clock_domain announce))"

lemma announce_length_eq:
  "announce_length S announce = length (put_message S ''ShmPoolAnnounce'' (announce_fields announce)) + 4 +
     sum_list (map (\<lambda>p. length (pool_bytes p)) (an_pools announce)) + (4 + length (an_header_region_uri announce))"
  by (simp add: announce_length_def length_message [OF fits_announce] length_pool)

lemma announce_sent:
  assumes "announce_valid announce" "offer pub (announce_bytes announce) \<ge> 0"
  shows "tp_producer_send_shm_pool_announce S True offer (Some pub) announce = Inr (announce_bytes announce)"
proof -
  let ?m = "put_message S ''ShmPoolAnnounce'' (announce_fields announce)" and ?cap = "announce_length S announce"
  let ?d = "sq_dim S ''payloadPools'' (of_nat (length (an_pools announce)))"
  have n: "unat (of_nat (length (an_pools announce)) :: u16) = length (an_pools announce)" using assms(1) by (simp add: announce_valid_def unat_of_nat)
  have "sq_put_dim S ''payloadPools'' ?cap (of_nat (length (an_pools announce))) ?m = Some (?m @ ?d)"
    by (rule put_dim) (simp add: announce_length_eq dim_width)
  moreover have "put_announce_pools S ?cap (length (an_pools announce)) 0 (an_pools announce) (?m @ ?d) = Inr ((?m @ ?d) @ concat (map pool_bytes (an_pools announce)))"
    by (rule pools_put) (simp_all add: announce_length_eq dim_width)
  moreover have "sq_put_data S ?cap (an_header_region_uri announce) ((?m @ ?d) @ concat (map pool_bytes (an_pools announce))) = Some (announce_bytes announce)"
    using put_data [of "(?m @ ?d) @ concat (map pool_bytes (an_pools announce))" "an_header_region_uri announce" ?cap]
    by (simp add: announce_length_eq dim_width length_text_data length_concat comp_def announce_bytes_def)
  ultimately show ?thesis
    using assms by (simp add: tp_producer_send_shm_pool_announce_def with_publication_def Let_def n tp_offer_message_def announce_valid_def)
qed

lemma announce_read:
  assumes "announce_valid announce" "\<And>c r. wrap_ok (sq_dim S ''payloadPools'' c @ r)"
  shows "tp_control_decode_shm_pool_announce S True wrap_ok (announce_bytes announce) = Inr (Some announce)"
proof -
  have n: "unat (of_nat (length (an_pools announce)) :: u16) = length (an_pools announce)" using assms(1) by (simp add: announce_valid_def unat_of_nat)
  have "get_announce_pools S (length (an_pools announce)) (length (an_pools announce)) 0 (concat (map pool_bytes (an_pools announce)) @ sq_data S (an_header_region_uri announce)) =
      Inr (an_pools announce, sq_data S (an_header_region_uri announce))"
    by (rule pools_get) (use assms(1) in \<open>simp_all add: announce_valid_def\<close>)
  then show ?thesis
    using assms
    by (simp add: tp_control_decode_shm_pool_announce_def announce_bytes_def head_message [OF fits_announce] field_message [OF fits_announce] Let_def announce_lookup
        wrap_dim n get_text_last announce_valid_def)
qed

text \<open>The messages of a blob.\<close>

definition blob_bytes :: "tp_meta_blob_announce \<Rightarrow> bytes" where
  "blob_bytes announce = put_message S ''MetaBlobAnnounce''
     [(''streamId'', ucast (ba_stream_id announce)), (''metaVersion'', ucast (ba_meta_version announce)), (''blobType'', ucast (ba_blob_type announce)),
      (''totalLen'', ba_total_len announce), (''checksum'', ba_checksum announce)]"

definition chunk_bytes :: "tp_meta_blob_chunk \<Rightarrow> bytes" where
  "chunk_bytes chunk = put_message S ''MetaBlobChunk''
     [(''streamId'', ucast (bc_stream_id chunk)), (''metaVersion'', ucast (bc_meta_version chunk)), (''chunkOffset'', bc_offset chunk)] @ sq_data S (bc_bytes chunk)"

definition complete_bytes :: "tp_meta_blob_complete \<Rightarrow> bytes" where
  "complete_bytes complete = put_message S ''MetaBlobComplete''
     [(''streamId'', ucast (bx_stream_id complete)), (''metaVersion'', ucast (bx_meta_version complete)), (''checksum'', bx_checksum complete)]"

lemma blob_read: "tp_control_decode_meta_blob_announce S (blob_bytes announce) = Inr (Some announce)"
  by (simp add: head_message [OF fits_blob, where t = "[]", simplified append_Nil2] field_message [OF fits_blob, where t = "[]", simplified append_Nil2] tp_control_decode_meta_blob_announce_def blob_bytes_def Let_def)

lemma chunk_read: "length (bc_bytes chunk) < 2 ^ 32 \<Longrightarrow> tp_control_decode_meta_blob_chunk S (chunk_bytes chunk) = Inr (Some chunk)"
  by (simp add: tp_control_decode_meta_blob_chunk_def chunk_bytes_def head_message [OF fits_chunk] field_message [OF fits_chunk] Let_def get_text_last)

lemma complete_read: "tp_control_decode_meta_blob_complete S (complete_bytes complete) = Inr (Some complete)"
  by (simp add: head_message [OF fits_complete, where t = "[]", simplified append_Nil2] field_message [OF fits_complete, where t = "[]", simplified append_Nil2] tp_control_decode_meta_blob_complete_def complete_bytes_def Let_def)

lemma chunk_sent:
  assumes "bc_bytes chunk \<noteq> []" "length (chunk_bytes chunk) \<le> 4096" "offer pub (chunk_bytes chunk) \<ge> 0"
  shows "tp_producer_send_meta_blob_chunk S offer (Some pub) chunk = Inr (chunk_bytes chunk)"
proof -
  have size: "sq_header_length S + unat (sq_block_length S ''MetaBlobChunk'') + 4 + length (bc_bytes chunk) \<le> 4096"
    using assms(2) by (simp add: chunk_bytes_def length_message [OF fits_chunk] length_text_data)
  moreover from size have "\<not> length (bc_bytes chunk) > 4096 - sq_header_length S - unat (sq_block_length S ''MetaBlobChunk'')" by linarith
  ultimately show ?thesis
    using assms(1,3)
    by (simp add: tp_producer_send_meta_blob_chunk_def with_publication_def put_string_fits length_message [OF fits_chunk] chunk_bytes_def tp_offer_message_def)
qed

end

section \<open>The messages of schemas/wire-schema.xml\<close>

definition control_schema :: stream_schema where
  "control_schema =
     \<lparr>sy_schema_id = 900, sy_version = 1,
      sy_templates = [(''ShmPoolAnnounce'', 1), (''ConsumerHello'', 2), (''ConsumerConfig'', 3), (''QosConsumer'', 5), (''QosProducer'', 6),
        (''DataSourceAnnounce'', 7), (''DataSourceMeta'', 8), (''ControlResponse'', 9), (''MetaBlobAnnounce'', 10), (''MetaBlobChunk'', 12),
        (''MetaBlobComplete'', 13)],
      sy_blocks =
        [(''ShmPoolAnnounce'', [(''streamId'', 4), (''producerId'', 4), (''epoch'', 8), (''announceTimestampNs'', 8), (''announceClockDomain'', 1),
           (''layoutVersion'', 4), (''headerNslots'', 4), (''headerSlotBytes'', 2)]),
         (''payloadPools'', [(''poolId'', 2), (''poolNslots'', 4), (''strideBytes'', 4)]),
         (''ConsumerHello'', [(''streamId'', 4), (''consumerId'', 4), (''supportsShm'', 1), (''supportsProgress'', 1), (''mode'', 1), (''maxRateHz'', 4),
           (''expectedLayoutVersion'', 4), (''progressIntervalUs'', 4), (''progressBytesDelta'', 4), (''progressMajorDeltaUnits'', 4),
           (''descriptorStreamId'', 4), (''controlStreamId'', 4)]),
         (''ConsumerConfig'', [(''streamId'', 4), (''consumerId'', 4), (''useShm'', 1), (''mode'', 1), (''descriptorStreamId'', 4), (''controlStreamId'', 4)]),
         (''QosConsumer'', [(''streamId'', 4), (''consumerId'', 4), (''epoch'', 8), (''lastSeqSeen'', 8), (''dropsGap'', 8), (''dropsLate'', 8), (''mode'', 1)]),
         (''QosProducer'', [(''streamId'', 4), (''producerId'', 4), (''epoch'', 8), (''currentSeq'', 8), (''watermark'', 4)]),
         (''DataSourceAnnounce'', [(''streamId'', 4), (''producerId'', 4), (''epoch'', 8), (''metaVersion'', 4)]),
         (''DataSourceMeta'', [(''streamId'', 4), (''metaVersion'', 4), (''timestampNs'', 8)]),
         (''attributes'', []),
         (''ControlResponse'', [(''correlationId'', 8), (''code'', 4)]),
         (''MetaBlobAnnounce'', [(''streamId'', 4), (''metaVersion'', 4), (''blobType'', 4), (''totalLen'', 8), (''checksum'', 8)]),
         (''MetaBlobChunk'', [(''streamId'', 4), (''metaVersion'', 4), (''chunkOffset'', 8)]),
         (''MetaBlobComplete'', [(''streamId'', 4), (''metaVersion'', 4), (''checksum'', 8)])],
      sy_enums = [(''supportsShm'', [0, 1, 255]), (''supportsProgress'', [0, 1, 255]), (''useShm'', [0, 1, 255]), (''mode'', [1, 2, 255]),
        (''announceClockDomain'', [1, 2, 255]), (''code'', [0, 1, 2, 3, 4, 2147483648])],
      sy_nulls = [(''progressIntervalUs'', 4294967295), (''progressBytesDelta'', 4294967295), (''progressMajorDeltaUnits'', 4294967295)]\<rparr>"

abbreviation "control_stream \<equiv> le_stream control_schema"

lemma control_blocks:
  "fields_of control_schema ''ShmPoolAnnounce'' = [(''streamId'', 4), (''producerId'', 4), (''epoch'', 8), (''announceTimestampNs'', 8), (''announceClockDomain'', 1),
     (''layoutVersion'', 4), (''headerNslots'', 4), (''headerSlotBytes'', 2)]"
  "fields_of control_schema ''payloadPools'' = [(''poolId'', 2), (''poolNslots'', 4), (''strideBytes'', 4)]"
  "fields_of control_schema ''ConsumerHello'' = [(''streamId'', 4), (''consumerId'', 4), (''supportsShm'', 1), (''supportsProgress'', 1), (''mode'', 1), (''maxRateHz'', 4),
     (''expectedLayoutVersion'', 4), (''progressIntervalUs'', 4), (''progressBytesDelta'', 4), (''progressMajorDeltaUnits'', 4),
     (''descriptorStreamId'', 4), (''controlStreamId'', 4)]"
  "fields_of control_schema ''ConsumerConfig'' = [(''streamId'', 4), (''consumerId'', 4), (''useShm'', 1), (''mode'', 1), (''descriptorStreamId'', 4), (''controlStreamId'', 4)]"
  "fields_of control_schema ''QosConsumer'' = [(''streamId'', 4), (''consumerId'', 4), (''epoch'', 8), (''lastSeqSeen'', 8), (''dropsGap'', 8), (''dropsLate'', 8), (''mode'', 1)]"
  "fields_of control_schema ''QosProducer'' = [(''streamId'', 4), (''producerId'', 4), (''epoch'', 8), (''currentSeq'', 8), (''watermark'', 4)]"
  "fields_of control_schema ''MetaBlobAnnounce'' = [(''streamId'', 4), (''metaVersion'', 4), (''blobType'', 4), (''totalLen'', 8), (''checksum'', 8)]"
  "fields_of control_schema ''MetaBlobChunk'' = [(''streamId'', 4), (''metaVersion'', 4), (''chunkOffset'', 8)]"
  "fields_of control_schema ''MetaBlobComplete'' = [(''streamId'', 4), (''metaVersion'', 4), (''checksum'', 8)]"
  by (simp_all add: fields_of_def control_schema_def lookup_or_def)

lemma control_nulls: "sq_null control_stream nm = (if nm \<in> set optional_u32 then 4294967295 else 0)"
  by (auto simp: le_stream_def control_schema_def lookup_or_def optional_u32_def)

lemma unat_ucast_u64:
  "unat (ucast (a :: u8) :: u64) = unat a" "unat (ucast (b :: u16) :: u64) = unat b" "unat (ucast (c :: u32) :: u64) = unat c"
  by (simp_all add: unsigned_ucast_eq)

lemma to_null_fits: "unat (to_null control_stream nm v) < 2 ^ 32"
  using unat_bounds by (auto simp: to_null_def control_nulls unat_ucast_u64)

interpretation control: control_codec control_stream "le_fits control_schema"
proof (unfold control_codec_def control_codec_axioms_def, intro conjI allI impI)
  note widths = le_fits_def control_blocks unat_ucast_u64 unat_bounds
  show "stream_laws control_stream (le_fits control_schema)"
    by (rule stream_laws_le) (simp add: schema_ok_def control_schema_def block_width_def)
  show "sq_data control_stream d = le_bytes 4 (of_nat (length d)) @ text_bytes d" for d by (simp add: le_stream_def)
  show "sq_null control_stream nm = ucast TP_NULL_U32" if "nm \<in> set optional_u32" for nm
    using that by (simp add: control_nulls TP_NULL_U32_def)
  show "length (sq_dim control_stream g c) = 4" for g c by (simp add: le_stream_def)
  show "le_fits control_schema ''ConsumerHello'' (hello_fields control_stream hello)" for hello
    using to_null_fits by (simp add: widths hello_fields_def)
  show "le_fits control_schema ''ConsumerConfig'' (config_fields config)" for config by (simp add: widths config_fields_def)
  show "le_fits control_schema ''ShmPoolAnnounce'' (announce_fields announce)" for announce by (simp add: widths announce_fields_def)
  show "le_fits control_schema ''payloadPools'' [(''poolId'', ucast pid), (''poolNslots'', ucast n), (''strideBytes'', ucast sb)]"
    for pid :: u16 and n sb :: u32 by (simp add: widths)
  show "le_fits control_schema ''MetaBlobAnnounce'' [(''streamId'', ucast sid), (''metaVersion'', ucast mv), (''blobType'', ucast bt),
      (''totalLen'', total_len), (''checksum'', checksum)]" for sid mv bt :: u32 and total_len checksum by (simp add: widths)
  show "le_fits control_schema ''MetaBlobChunk'' [(''streamId'', ucast sid), (''metaVersion'', ucast mv), (''chunkOffset'', off)]"
    for sid mv :: u32 and off by (simp add: widths)
  show "le_fits control_schema ''MetaBlobComplete'' [(''streamId'', ucast sid), (''metaVersion'', ucast mv), (''checksum'', checksum)]"
    for sid mv :: u32 and checksum by (simp add: widths)
qed

end
