(* ===== verification/Tp_Metadata_Poller.thy ===== *)
theory Tp_Metadata_Poller
  imports Tp_Control_Codec
begin

text \<open>
  The metadata poller (src/client/tp_metadata_poller.c): the messages about data sources, and the blobs of metadata that come
  in chunks. The lemmas say that a blob that is reported as complete has been handed on whole and in order,
  whatever fragments arrive, and that a blob sent by a producer is handed on.
\<close>

section \<open>Handlers and state\<close>

text \<open>Which callbacks are set, and their calls.\<close>

record tp_metadata_handlers =
  mh_data_source_announce :: bool
  mh_meta_begin :: bool
  mh_meta_attr :: bool
  mh_meta_end :: bool
  mh_blob_announce :: bool
  mh_blob_chunk :: bool
  mh_blob_complete :: bool

datatype metadata_call =
    OnDataSource "string data_source_announce"
  | OnMetaAttr tp_meta_attribute
  | OnMetaBegin tp_data_source_meta_view
  | OnMetaEnd tp_data_source_meta_view
  | OnBlobAnnounce tp_meta_blob_announce
  | OnBlobChunk tp_meta_blob_chunk
  | OnBlobComplete tp_meta_blob_complete

record tp_metadata_poller =
  mp_handlers :: tp_metadata_handlers
  mp_blob_active :: bool
  mp_blob_stream_id :: u32
  mp_blob_meta_version :: u32
  mp_blob_type :: u32
  mp_blob_total_len :: u64
  mp_blob_checksum :: u64
  mp_blob_next_offset :: u64

definition tp_metadata_blob_reset :: "tp_metadata_poller \<Rightarrow> tp_metadata_poller" where
  "tp_metadata_blob_reset poller = poller\<lparr>mp_blob_active := False, mp_blob_stream_id := 0, mp_blob_meta_version := 0, mp_blob_type := 0,
     mp_blob_total_len := 0, mp_blob_checksum := 0, mp_blob_next_offset := 0\<rparr>"

definition tp_metadata_blob_begin :: "tp_meta_blob_announce \<Rightarrow> tp_metadata_poller \<Rightarrow> tp_metadata_poller" where
  "tp_metadata_blob_begin announce poller = poller\<lparr>mp_blob_active := True, mp_blob_stream_id := ba_stream_id announce,
     mp_blob_meta_version := ba_meta_version announce, mp_blob_type := ba_blob_type announce, mp_blob_total_len := ba_total_len announce,
     mp_blob_checksum := ba_checksum announce, mp_blob_next_offset := 0\<rparr>"

text \<open>The length of a chunk is a 32-bit field of its view; as a 64-bit number it is compared as it is.\<close>

definition tp_metadata_blob_validate_chunk :: "tp_meta_blob_chunk \<Rightarrow> tp_metadata_poller \<Rightarrow> unit res \<times> tp_metadata_poller" where
  "tp_metadata_blob_validate_chunk chunk poller =
     (if \<not> mp_blob_active poller then (Inl (EINVAL ''tp_metadata_blob_validate_chunk: no active blob''), poller)
      else if bc_stream_id chunk \<noteq> mp_blob_stream_id poller \<or> bc_meta_version chunk \<noteq> mp_blob_meta_version poller
      then (Inl (EINVAL ''tp_metadata_blob_validate_chunk: blob identity mismatch''), tp_metadata_blob_reset poller)
      else if length (bc_bytes chunk) = 0
      then (Inl (EINVAL ''tp_metadata_blob_validate_chunk: empty chunk''), tp_metadata_blob_reset poller)
      else if bc_offset chunk \<noteq> mp_blob_next_offset poller
      then (Inl (EINVAL ''tp_metadata_blob_validate_chunk: non-contiguous chunk''), tp_metadata_blob_reset poller)
      else if bc_offset chunk > mp_blob_total_len poller
      then (Inl (EINVAL ''tp_metadata_blob_validate_chunk: chunk offset beyond total length''), tp_metadata_blob_reset poller)
      else
        let remaining = mp_blob_total_len poller - bc_offset chunk
        in if length (bc_bytes chunk) > unat remaining
           then (Inl (EINVAL ''tp_metadata_blob_validate_chunk: chunk overruns blob''), tp_metadata_blob_reset poller)
           else (Inr (), poller\<lparr>mp_blob_next_offset := bc_offset chunk + of_nat (length (bc_bytes chunk))\<rparr>))"

definition tp_metadata_blob_validate_complete :: "tp_meta_blob_complete \<Rightarrow> tp_metadata_poller \<Rightarrow> unit res \<times> tp_metadata_poller" where
  "tp_metadata_blob_validate_complete complete poller =
     (if \<not> mp_blob_active poller then (Inl (EINVAL ''tp_metadata_blob_validate_complete: no active blob''), poller)
      else if bx_stream_id complete \<noteq> mp_blob_stream_id poller \<or> bx_meta_version complete \<noteq> mp_blob_meta_version poller
      then (Inl (EINVAL ''tp_metadata_blob_validate_complete: blob identity mismatch''), tp_metadata_blob_reset poller)
      else if bx_checksum complete \<noteq> mp_blob_checksum poller
      then (Inl (EINVAL ''tp_metadata_blob_validate_complete: checksum mismatch''), tp_metadata_blob_reset poller)
      else if mp_blob_next_offset poller \<noteq> mp_blob_total_len poller
      then (Inl (EINVAL ''tp_metadata_blob_validate_complete: blob incomplete''), tp_metadata_blob_reset poller)
      else (Inr (), poller))"

definition tp_metadata_poller_init :: "bool \<Rightarrow> tp_metadata_handlers \<Rightarrow> tp_metadata_poller res" where
  "tp_metadata_poller_init assembler_ok handlers =
     guard (\<not> assembler_ok) FAIL
       (Inr (tp_metadata_blob_reset \<lparr>mp_handlers = handlers, mp_blob_active = False, mp_blob_stream_id = 0, mp_blob_meta_version = 0,
          mp_blob_type = 0, mp_blob_total_len = 0, mp_blob_checksum = 0, mp_blob_next_offset = 0\<rparr>))"

section \<open>Fragments\<close>

text \<open>The result of a decoder that returns 0.\<close>

definition decoded :: "'a option res \<Rightarrow> 'a option" where
  "decoded r = (case r of Inr (Some v) \<Rightarrow> Some v | _ \<Rightarrow> None)"

text \<open>
  The calls for a message about a data source. The decoder hands out the attributes while it reads them, before the
  call that announces them.
\<close>

definition meta_calls :: "stream_codec \<Rightarrow> (bytes \<Rightarrow> bool) \<Rightarrow> tp_metadata_handlers \<Rightarrow> bytes \<Rightarrow> metadata_call list" where
  "meta_calls S wrap_ok handlers buffer =
     (if mh_meta_begin handlers \<or> mh_meta_attr handlers \<or> mh_meta_end handlers then
        (case tp_control_decode_data_source_meta S wrap_ok (mh_meta_attr handlers) buffer of
           (attributes, r) \<Rightarrow>
             map OnMetaAttr attributes @
             (case decoded r of
                Some meta \<Rightarrow> (if mh_meta_begin handlers then [OnMetaBegin meta] else []) @ (if mh_meta_end handlers then [OnMetaEnd meta] else [])
              | None \<Rightarrow> []))
      else [])"

definition blob_calls :: "stream_codec \<Rightarrow> bytes \<Rightarrow> tp_metadata_poller \<Rightarrow> tp_metadata_poller \<times> metadata_call list" where
  "blob_calls S buffer poller =
     (case decoded (tp_control_decode_meta_blob_announce S buffer) of
        Some announce \<Rightarrow> (tp_metadata_blob_begin announce poller, if mh_blob_announce (mp_handlers poller) then [OnBlobAnnounce announce] else [])
      | None \<Rightarrow>
         (case decoded (tp_control_decode_meta_blob_chunk S buffer) of
            Some chunk \<Rightarrow>
              (case tp_metadata_blob_validate_chunk chunk poller of
                 (Inl e, poller) \<Rightarrow> (poller, [])
               | (Inr u, poller) \<Rightarrow> (poller, if mh_blob_chunk (mp_handlers poller) then [OnBlobChunk chunk] else []))
          | None \<Rightarrow>
             (case decoded (tp_control_decode_meta_blob_complete S buffer) of
                Some complete \<Rightarrow>
                  (case tp_metadata_blob_validate_complete complete poller of
                     (Inl e, poller) \<Rightarrow> (tp_metadata_blob_reset poller, [])
                   | (Inr u, poller) \<Rightarrow>
                       (tp_metadata_blob_reset poller, if mh_blob_complete (mp_handlers poller) then [OnBlobComplete complete] else []))
              | None \<Rightarrow> (poller, []))))"

definition tp_metadata_poller_handler ::
  "stream_codec \<Rightarrow> (bytes \<Rightarrow> bool) \<Rightarrow> bytes \<Rightarrow> tp_metadata_poller \<times> metadata_call list \<Rightarrow> tp_metadata_poller \<times> metadata_call list" where
  "tp_metadata_poller_handler S wrap_ok buffer st =
     (case st of
        (poller, calls) \<Rightarrow>
          (case (if mh_data_source_announce (mp_handlers poller) then decoded (tp_control_decode_data_source_announce S buffer) else None) of
             Some announce \<Rightarrow> (poller, calls @ [OnDataSource announce])
           | None \<Rightarrow>
               (case blob_calls S buffer poller of
                  (poller', blob) \<Rightarrow> (poller', calls @ meta_calls S wrap_ok (mp_handlers poller) buffer @ blob))))"

section \<open>Whole blobs\<close>

definition blob_call :: "metadata_call \<Rightarrow> bool" where
  "blob_call c \<longleftrightarrow> (case c of OnBlobAnnounce a \<Rightarrow> True | OnBlobChunk x \<Rightarrow> True | OnBlobComplete x \<Rightarrow> True | _ \<Rightarrow> False)"

definition blob_data :: "tp_meta_blob_chunk list \<Rightarrow> string" where
  "blob_data chunks = concat (map bc_bytes chunks)"

text \<open>The chunks belong to the announcement, and each begins where the ones before it end.\<close>

definition chunks_of :: "tp_meta_blob_announce \<Rightarrow> tp_meta_blob_chunk list \<Rightarrow> bool" where
  "chunks_of announce chunks \<longleftrightarrow>
     (\<forall>chunk\<in>set chunks. bc_stream_id chunk = ba_stream_id announce \<and> bc_meta_version chunk = ba_meta_version announce) \<and>
     (\<forall>k<length chunks. unat (bc_offset (chunks ! k)) = length (blob_data (take k chunks)))"

text \<open>What has been handed on when a blob is reported as complete.\<close>

definition whole_blob :: "metadata_call list \<Rightarrow> tp_meta_blob_complete \<Rightarrow> bool" where
  "whole_blob before complete \<longleftrightarrow>
     (\<exists>earlier announce chunks. before = earlier @ OnBlobAnnounce announce # map OnBlobChunk chunks \<and> chunks_of announce chunks \<and>
        length (blob_data chunks) = unat (ba_total_len announce) \<and> bx_stream_id complete = ba_stream_id announce \<and>
        bx_meta_version complete = ba_meta_version announce \<and> bx_checksum complete = ba_checksum announce)"

fun blobs_whole :: "metadata_call list \<Rightarrow> metadata_call list \<Rightarrow> bool" where
  "blobs_whole before [] \<longleftrightarrow> True"
| "blobs_whole before (c # cs) \<longleftrightarrow>
     (case c of OnBlobComplete complete \<Rightarrow> whole_blob before complete | _ \<Rightarrow> True) \<and> blobs_whole (before @ [c]) cs"

lemma blobs_whole_append: "blobs_whole before (cs @ ds) \<longleftrightarrow> blobs_whole before cs \<and> blobs_whole (before @ cs) ds"
  by (induction cs arbitrary: before) auto

text \<open>While a blob is active, the chunks so far have been handed on.\<close>

definition blob_open :: "tp_metadata_poller \<Rightarrow> metadata_call list \<Rightarrow> bool" where
  "blob_open poller calls \<longleftrightarrow> (mp_blob_active poller \<longrightarrow>
     (\<exists>earlier announce chunks. calls = earlier @ OnBlobAnnounce announce # map OnBlobChunk chunks \<and> chunks_of announce chunks \<and>
        mp_blob_stream_id poller = ba_stream_id announce \<and> mp_blob_meta_version poller = ba_meta_version announce \<and>
        mp_blob_total_len poller = ba_total_len announce \<and> mp_blob_checksum poller = ba_checksum announce \<and>
        unat (mp_blob_next_offset poller) = length (blob_data chunks) \<and> length (blob_data chunks) \<le> unat (ba_total_len announce)))"

definition blob_inv :: "tp_metadata_poller \<times> metadata_call list \<Rightarrow> bool" where
  "blob_inv st \<longleftrightarrow> mh_blob_announce (mp_handlers (fst st)) \<and> mh_blob_chunk (mp_handlers (fst st)) \<and> mh_blob_complete (mp_handlers (fst st)) \<and>
     blobs_whole [] (filter blob_call (snd st)) \<and> blob_open (fst st) (filter blob_call (snd st))"

lemma chunks_of_snoc:
  assumes "chunks_of announce chunks" "bc_stream_id chunk = ba_stream_id announce" "bc_meta_version chunk = ba_meta_version announce"
    "unat (bc_offset chunk) = length (blob_data chunks)"
  shows "chunks_of announce (chunks @ [chunk])"
proof -
  have "unat (bc_offset ((chunks @ [chunk]) ! k)) = length (blob_data (take k (chunks @ [chunk])))" if "k < length (chunks @ [chunk])" for k
  proof (cases "k < length chunks")
    case True
    then show ?thesis using assms(1) by (simp add: chunks_of_def nth_append)
  next
    case False
    with that have "k = length chunks" by simp
    then show ?thesis using assms(4) by simp
  qed
  then show ?thesis using assms(1-3) by (auto simp: chunks_of_def)
qed

lemma unat_remaining: "x \<le> y \<Longrightarrow> n \<le> unat (y - x :: u64) \<Longrightarrow> unat (x + of_nat n) = unat x + n"
proof -
  assume "x \<le> y" "n \<le> unat (y - x)"
  then have sub: "unat x + n \<le> unat y" by (simp add: unat_minus_le word_le_nat_alt)
  moreover have "unat y < 2 ^ 64" using unsigned_less [of y, where ?'a = nat] by simp
  ultimately have fit: "unat x + n < 2 ^ 64" by linarith
  then have n: "unat (of_nat n :: u64) = n" by (simp add: unat_of_nat)
  have "unat (x + of_nat n) = unat x + unat (of_nat n :: u64)"
    by (rule unat_add_lem [THEN iffD1]) (use n fit in simp)
  then show ?thesis using n by simp
qed

lemma reset_simps [simp]: "\<not> mp_blob_active (tp_metadata_blob_reset poller)" "mp_handlers (tp_metadata_blob_reset poller) = mp_handlers poller"
  by (simp_all add: tp_metadata_blob_reset_def)

lemma closed_open: "\<not> mp_blob_active poller \<Longrightarrow> blob_open poller calls"
  by (simp add: blob_open_def)

lemma begin_open: "blob_open (tp_metadata_blob_begin announce poller) (calls @ [OnBlobAnnounce announce])"
proof -
  have "calls @ [OnBlobAnnounce announce] = calls @ OnBlobAnnounce announce # map OnBlobChunk []" "chunks_of announce []"
    by (simp_all add: chunks_of_def)
  then show ?thesis unfolding blob_open_def by (force simp: tp_metadata_blob_begin_def blob_data_def)
qed

lemma chunk_handlers: "tp_metadata_blob_validate_chunk chunk poller = (r, poller') \<Longrightarrow> mp_handlers poller' = mp_handlers poller"
  by (auto simp: tp_metadata_blob_validate_chunk_def Let_def split: if_splits)

lemma refused_chunk:
  assumes "tp_metadata_blob_validate_chunk chunk poller = (Inl e, poller')" "blob_open poller calls"
  shows "blob_open poller' calls \<and> mp_handlers poller' = mp_handlers poller"
  using assms by (auto simp: tp_metadata_blob_validate_chunk_def Let_def closed_open split: if_splits)

lemma accepted_chunk:
  assumes "tp_metadata_blob_validate_chunk chunk poller = (Inr u, poller')" "blob_open poller calls"
  shows "blob_open poller' (calls @ [OnBlobChunk chunk]) \<and> mp_handlers poller' = mp_handlers poller"
proof -
  have chunk: "mp_blob_active poller" "bc_stream_id chunk = mp_blob_stream_id poller" "bc_meta_version chunk = mp_blob_meta_version poller"
      "bc_offset chunk = mp_blob_next_offset poller" "bc_offset chunk \<le> mp_blob_total_len poller"
      "length (bc_bytes chunk) \<le> unat (mp_blob_total_len poller - bc_offset chunk)"
      "poller' = poller\<lparr>mp_blob_next_offset := bc_offset chunk + of_nat (length (bc_bytes chunk))\<rparr>"
    using assms(1) by (auto simp: tp_metadata_blob_validate_chunk_def Let_def split: if_splits)
  obtain earlier announce chunks where calls: "calls = earlier @ OnBlobAnnounce announce # map OnBlobChunk chunks" "chunks_of announce chunks"
      "mp_blob_stream_id poller = ba_stream_id announce" "mp_blob_meta_version poller = ba_meta_version announce"
      "mp_blob_total_len poller = ba_total_len announce" "mp_blob_checksum poller = ba_checksum announce"
      "unat (mp_blob_next_offset poller) = length (blob_data chunks)"
    using assms(2) chunk(1) unfolding blob_open_def by blast
  have next_offset: "unat (mp_blob_next_offset poller') = length (blob_data (chunks @ [chunk]))"
    using chunk calls unat_remaining [OF chunk(5,6)] by (simp add: blob_data_def)
  have "length (blob_data (chunks @ [chunk])) \<le> unat (ba_total_len announce)"
    using chunk calls by (simp add: blob_data_def unat_minus_le word_le_nat_alt)
  moreover have "chunks_of announce (chunks @ [chunk])" by (rule chunks_of_snoc) (use chunk calls in simp_all)
  moreover have "calls @ [OnBlobChunk chunk] = earlier @ OnBlobAnnounce announce # map OnBlobChunk (chunks @ [chunk])" using calls(1) by simp
  ultimately show ?thesis unfolding blob_open_def using next_offset chunk(7) calls by (intro conjI impI exI) (assumption | simp)+
qed

lemma accepted_complete:
  assumes "tp_metadata_blob_validate_complete complete poller = (Inr u, poller')" "blob_open poller calls"
  shows "whole_blob calls complete \<and> poller' = poller"
proof -
  have complete: "mp_blob_active poller" "bx_stream_id complete = mp_blob_stream_id poller" "bx_meta_version complete = mp_blob_meta_version poller"
      "bx_checksum complete = mp_blob_checksum poller" "mp_blob_next_offset poller = mp_blob_total_len poller" "poller' = poller"
    using assms(1) by (auto simp: tp_metadata_blob_validate_complete_def split: if_splits)
  then obtain earlier announce chunks where "calls = earlier @ OnBlobAnnounce announce # map OnBlobChunk chunks" "chunks_of announce chunks"
      "mp_blob_stream_id poller = ba_stream_id announce" "mp_blob_meta_version poller = ba_meta_version announce"
      "mp_blob_total_len poller = ba_total_len announce" "mp_blob_checksum poller = ba_checksum announce"
      "unat (mp_blob_next_offset poller) = length (blob_data chunks)"
    using assms(2) unfolding blob_open_def by blast
  then show ?thesis using complete unfolding whole_blob_def by (intro conjI exI) (assumption | simp)+
qed

text \<open>The four things that can become of a fragment that is not a data source.\<close>

lemma blob_calls_cases:
  obtains (announced) announce where "blob_calls S buffer poller =
        (tp_metadata_blob_begin announce poller, if mh_blob_announce (mp_handlers poller) then [OnBlobAnnounce announce] else [])"
    | (chunk) chunk poller' u where "tp_metadata_blob_validate_chunk chunk poller = (Inr u, poller')"
        "blob_calls S buffer poller = (poller', if mh_blob_chunk (mp_handlers poller) then [OnBlobChunk chunk] else [])"
    | (complete) complete u poller' where "tp_metadata_blob_validate_complete complete poller = (Inr u, poller')"
        "blob_calls S buffer poller = (tp_metadata_blob_reset poller', if mh_blob_complete (mp_handlers poller) then [OnBlobComplete complete] else [])"
    | (refused) chunk e poller' where "tp_metadata_blob_validate_chunk chunk poller = (Inl e, poller')" "blob_calls S buffer poller = (poller', [])"
    | (dropped) poller' where "blob_calls S buffer poller = (tp_metadata_blob_reset poller', [])" "mp_handlers poller' = mp_handlers poller"
    | (ignored) "blob_calls S buffer poller = (poller, [])"
proof -
  show thesis
  proof (cases "decoded (tp_control_decode_meta_blob_announce S buffer)")
    case (Some announce)
    then show thesis by (intro announced) (simp add: blob_calls_def)
  next
    case no_announce: None
    show thesis
    proof (cases "decoded (tp_control_decode_meta_blob_chunk S buffer)")
      case (Some c)
      obtain r p where r: "tp_metadata_blob_validate_chunk c poller = (r, p)" by force
      then show thesis using Some no_announce chunk [of c _ p] refused [of c _ p]
        by (cases r) (simp_all add: blob_calls_def chunk_handlers)
    next
      case no_chunk: None
      show thesis
      proof (cases "decoded (tp_control_decode_meta_blob_complete S buffer)")
        case (Some x)
        obtain r p where r: "tp_metadata_blob_validate_complete x poller = (r, p)" by force
        then have "mp_handlers p = mp_handlers poller" by (auto simp: tp_metadata_blob_validate_complete_def split: if_splits)
        then show thesis using Some no_announce no_chunk r complete [of x _ p] dropped [of p]
          by (cases r) (simp_all add: blob_calls_def)
      next
        case None
        then have "blob_calls S buffer poller = (poller, [])" using no_announce no_chunk by (simp add: blob_calls_def)
        then show thesis by (rule ignored)
      qed
    qed
  qed
qed

lemma meta_calls_no_blob: "filter blob_call (meta_calls S wrap_ok handlers buffer) = []"
proof (cases "tp_control_decode_data_source_meta S wrap_ok (mh_meta_attr handlers) buffer")
  case (Pair attributes r)
  then show ?thesis unfolding meta_calls_def by (cases "decoded r"; simp only: prod.case option.case; auto simp: blob_call_def filter_empty_conv)
qed

lemma blob_inv_calls:
  assumes "blob_inv (poller, calls)" "blob_calls S buffer poller = (poller', blob)"
  shows "blob_inv (poller', calls @ blob)"
proof -
  note inv = assms(1) [unfolded blob_inv_def fst_conv snd_conv]
  then have opened: "blob_open poller (filter blob_call calls)" by simp
  show ?thesis
  proof (cases rule: blob_calls_cases [of S buffer poller])
    case (announced announce)
    then show ?thesis using inv assms(2) begin_open [of announce poller "filter blob_call calls"]
      by (auto simp: blob_inv_def blobs_whole_append blob_call_def tp_metadata_blob_begin_def)
  next
    case (chunk c p u)
    then show ?thesis using inv assms(2) accepted_chunk [OF chunk(1) opened] by (auto simp: blob_inv_def blobs_whole_append blob_call_def)
  next
    case (complete c u p)
    then show ?thesis using inv assms(2) accepted_complete [OF complete(1) opened]
      by (auto simp: blob_inv_def blobs_whole_append blob_call_def closed_open)
  next
    case (refused c e p)
    then show ?thesis using inv assms(2) refused_chunk [OF refused(1) opened] by (auto simp: blob_inv_def)
  next
    case (dropped p)
    then show ?thesis using inv assms(2) by (auto simp: blob_inv_def closed_open)
  next
    case ignored
    then show ?thesis using assms by simp
  qed
qed

lemma blob_inv_step:
  assumes "blob_inv st"
  shows "blob_inv (tp_metadata_poller_handler S wrap_ok buffer st)"
proof -
  obtain poller calls where st: "st = (poller, calls)" by force
  obtain p blob where b: "blob_calls S buffer poller = (p, blob)" by force
  have other: "blob_inv (poller, calls @ [OnDataSource a])" for a using assms st by (simp add: blob_inv_def blob_call_def)
  have "blob_inv (p, calls @ meta_calls S wrap_ok (mp_handlers poller) buffer @ blob)"
    using blob_inv_calls [OF _ b, of "calls @ meta_calls S wrap_ok (mp_handlers poller) buffer"] assms st
    by (simp add: blob_inv_def meta_calls_no_blob)
  with other show ?thesis by (auto simp: tp_metadata_poller_handler_def st b split: sum.split option.split)
qed

lemma blob_inv_run: "blob_inv st \<Longrightarrow> blob_inv (fold (tp_metadata_poller_handler S wrap_ok) buffers st)"
  by (induction buffers arbitrary: st) (simp_all add: blob_inv_step)

section \<open>A blob that is sent\<close>

context control_codec
begin

lemma other_message:
  "sq_template_id S m \<noteq> sq_template_id S m' \<Longrightarrow> control_head S m strict fname (put_message S m' kvs @ t) body = Inr None"
  by (simp add: control_head_def put_message_def length_header get_header)

lemmas other_alone = other_message [where t = "[]", simplified append_Nil2]

end

lemma control_templates:
  "sq_template_id control_stream ''DataSourceAnnounce'' = 7" "sq_template_id control_stream ''DataSourceMeta'' = 8"
  "sq_template_id control_stream ''MetaBlobAnnounce'' = 10" "sq_template_id control_stream ''MetaBlobChunk'' = 12"
  "sq_template_id control_stream ''MetaBlobComplete'' = 13"
  by (simp_all add: le_stream_def control_schema_def lookup_or_def)

lemma decoded_simps [simp]: "decoded (Inr (Some v)) = Some v" "decoded (Inr None) = None" "decoded (Inl e) = None"
  by (simp_all add: decoded_def)

lemmas blob_decoders = tp_control_decode_data_source_announce_def tp_control_decode_data_source_meta_def decode_meta_def
  tp_control_decode_meta_blob_announce_def tp_control_decode_meta_blob_chunk_def tp_control_decode_meta_blob_complete_def

text \<open>A blob message is no other message.\<close>

lemma not_data_source:
  "m \<in> {''MetaBlobAnnounce'', ''MetaBlobChunk'', ''MetaBlobComplete''} \<Longrightarrow>
   tp_control_decode_data_source_announce control_stream (put_message control_stream m kvs @ t) = Inr None \<and>
   meta_calls control_stream wrap_ok handlers (put_message control_stream m kvs @ t) = []"
  by (auto simp: blob_decoders meta_calls_def control.other_message control_templates)

lemma announce_handled:
  "tp_metadata_poller_handler control_stream wrap_ok (control.blob_bytes announce) (poller, calls) =
     (tp_metadata_blob_begin announce poller, calls @ (if mh_blob_announce (mp_handlers poller) then [OnBlobAnnounce announce] else []))"
  using not_data_source [of "''MetaBlobAnnounce''" _ "[]"] control.blob_read [of announce]
  by (simp add: tp_metadata_poller_handler_def blob_calls_def control.blob_bytes_def)

lemma chunk_handled:
  assumes "tp_metadata_blob_validate_chunk chunk poller = (Inr u, poller')" "length (bc_bytes chunk) < 2 ^ 32"
  shows "tp_metadata_poller_handler control_stream wrap_ok (control.chunk_bytes chunk) (poller, calls) =
     (poller', calls @ (if mh_blob_chunk (mp_handlers poller) then [OnBlobChunk chunk] else []))"
proof -
  have "decoded (tp_control_decode_meta_blob_announce control_stream (control.chunk_bytes chunk)) = None"
    by (simp add: tp_control_decode_meta_blob_announce_def control.chunk_bytes_def control.other_message control_templates)
  then show ?thesis
    using not_data_source [of "''MetaBlobChunk''"] control.chunk_read [OF assms(2)] assms(1) chunk_handlers [OF assms(1)]
    by (simp add: tp_metadata_poller_handler_def blob_calls_def control.chunk_bytes_def)
qed

lemma complete_handled:
  assumes "tp_metadata_blob_validate_complete complete poller = (Inr u, poller')"
  shows "tp_metadata_poller_handler control_stream wrap_ok (control.complete_bytes complete) (poller, calls) =
     (tp_metadata_blob_reset poller, calls @ (if mh_blob_complete (mp_handlers poller) then [OnBlobComplete complete] else []))"
proof -
  have "decoded (tp_control_decode_meta_blob_announce control_stream (control.complete_bytes complete)) = None"
    "decoded (tp_control_decode_meta_blob_chunk control_stream (control.complete_bytes complete)) = None"
    by (simp_all add: tp_control_decode_meta_blob_announce_def tp_control_decode_meta_blob_chunk_def control.complete_bytes_def control.other_alone control_templates)
  moreover have "poller' = poller" using assms by (auto simp: tp_metadata_blob_validate_complete_def split: if_splits)
  ultimately show ?thesis
    using not_data_source [of "''MetaBlobComplete''" _ "[]"] control.complete_read [of complete] assms
    by (simp add: tp_metadata_poller_handler_def blob_calls_def control.complete_bytes_def)
qed

text \<open>The chunks of a blob that is cut into pieces.\<close>

fun blob_chunks :: "tp_meta_blob_announce \<Rightarrow> u64 \<Rightarrow> string list \<Rightarrow> tp_meta_blob_chunk list" where
  "blob_chunks announce off [] = []"
| "blob_chunks announce off (p # ps) =
     \<lparr>bc_stream_id = ba_stream_id announce, bc_meta_version = ba_meta_version announce, bc_offset = off, bc_bytes = p\<rparr> #
     blob_chunks announce (off + of_nat (length p)) ps"

lemma blob_chunks_data: "blob_data (blob_chunks announce off ps) = concat ps"
  by (induction ps arbitrary: off) (simp_all add: blob_data_def)

lemma blob_chunk_pieces: "chunk \<in> set (blob_chunks announce off ps) \<Longrightarrow> bc_bytes chunk \<in> set ps"
  by (induction ps arbitrary: off) auto

definition blob_going :: "tp_meta_blob_announce \<Rightarrow> u64 \<Rightarrow> tp_metadata_poller \<Rightarrow> bool" where
  "blob_going announce off poller \<longleftrightarrow> mp_blob_active poller \<and> mp_blob_stream_id poller = ba_stream_id announce \<and>
     mp_blob_meta_version poller = ba_meta_version announce \<and> mp_blob_total_len poller = ba_total_len announce \<and>
     mp_blob_checksum poller = ba_checksum announce \<and> mp_blob_next_offset poller = off"

lemma chunk_accepted:
  assumes "blob_going announce off poller" "p \<noteq> []" "unat off + length p \<le> unat (ba_total_len announce)"
  shows "tp_metadata_blob_validate_chunk \<lparr>bc_stream_id = ba_stream_id announce, bc_meta_version = ba_meta_version announce, bc_offset = off, bc_bytes = p\<rparr> poller =
    (Inr (), poller\<lparr>mp_blob_next_offset := off + of_nat (length p)\<rparr>)"
proof -
  have "off \<le> ba_total_len announce" using assms(3) by (simp add: word_le_nat_alt)
  moreover have "\<not> length p > unat (ba_total_len announce) - unat off" using assms(3) by linarith
  ultimately show ?thesis using assms by (simp add: tp_metadata_blob_validate_chunk_def blob_going_def Let_def unat_minus_le not_less)
qed

lemma chunks_handled:
  assumes "blob_going announce off poller" "\<forall>p\<in>set ps. p \<noteq> [] \<and> length p < 2 ^ 32" "unat off + length (concat ps) = unat (ba_total_len announce)"
    "mh_blob_chunk (mp_handlers poller)"
  shows "\<exists>poller'. fold (tp_metadata_poller_handler control_stream wrap_ok) (map control.chunk_bytes (blob_chunks announce off ps)) (poller, calls) =
      (poller', calls @ map OnBlobChunk (blob_chunks announce off ps)) \<and> blob_going announce (ba_total_len announce) poller' \<and>
      mp_handlers poller' = mp_handlers poller"
  using assms
proof (induction ps arbitrary: off poller calls)
  case Nil
  then have "off = ba_total_len announce" by (simp add: word_unat_eq_iff)
  then show ?case using Nil by simp
next
  case (Cons p ps)
  let ?c = "\<lparr>bc_stream_id = ba_stream_id announce, bc_meta_version = ba_meta_version announce, bc_offset = off, bc_bytes = p\<rparr>"
  let ?p = "poller\<lparr>mp_blob_next_offset := off + of_nat (length p)\<rparr>"
  have valid: "tp_metadata_blob_validate_chunk ?c poller = (Inr (), ?p)" using Cons.prems by (intro chunk_accepted) auto
  have step: "tp_metadata_poller_handler control_stream wrap_ok (control.chunk_bytes ?c) (poller, calls) = (?p, calls @ [OnBlobChunk ?c])"
    using chunk_handled [OF valid, of wrap_ok calls] Cons.prems by simp
  have "unat (off + of_nat (length p)) = unat off + length p"
  proof (rule unat_remaining)
    show "off \<le> ba_total_len announce" using Cons.prems(3) by (simp add: word_le_nat_alt)
    then show "length p \<le> unat (ba_total_len announce - off)" using Cons.prems(3) by (simp add: unat_minus_le)
  qed
  then have rest: "unat (off + of_nat (length p)) + length (concat ps) = unat (ba_total_len announce)" using Cons.prems(3) by simp
  have "blob_going announce (off + of_nat (length p)) ?p" using Cons.prems(1) by (simp add: blob_going_def)
  from Cons.IH [OF this _ rest, of "calls @ [OnBlobChunk ?c]"] Cons.prems step show ?case by simp
qed

lemma length_chunk: "length (control.chunk_bytes chunk) = 28 + length (bc_bytes chunk)"
proof -
  have "sq_header_length control_stream = 8" "unat (sq_block_length control_stream ''MetaBlobChunk'') = 16"
    by (simp_all add: le_stream_def control_blocks block_width_def)
  then show ?thesis by (simp add: control.chunk_bytes_def control.length_message [OF control.fits_chunk] control.length_text_data)
qed

section \<open>Properties\<close>

text \<open>
  C32: no blob is reported as complete before all of it has been handed on. Whatever fragments a poller gets, when it calls
  back for the completion of a blob, its last announcement is followed, among the calls for blobs, by the chunks of this
  blob, each beginning where the one before ended and together as long as announced, with the same ids and checksum.
\<close>

theorem complete_blob_whole:
  assumes "tp_metadata_poller_init assembler_ok handlers = Inr poller"
    "mh_blob_announce handlers \<and> mh_blob_chunk handlers \<and> mh_blob_complete handlers"
    "fold (tp_metadata_poller_handler S wrap_ok) buffers (poller, []) = (poller', calls)"
    "filter blob_call calls = before @ OnBlobComplete complete # later"
  shows "\<exists>earlier announce chunks. before = earlier @ OnBlobAnnounce announce # map OnBlobChunk chunks \<and>
    (\<forall>chunk\<in>set chunks. bc_stream_id chunk = bx_stream_id complete \<and> bc_meta_version chunk = bx_meta_version complete) \<and>
    (\<forall>k<length chunks. unat (bc_offset (chunks ! k)) = length (blob_data (take k chunks))) \<and>
    length (blob_data chunks) = unat (ba_total_len announce) \<and> bx_stream_id complete = ba_stream_id announce \<and>
    bx_meta_version complete = ba_meta_version announce \<and> bx_checksum complete = ba_checksum announce"
proof -
  have "blob_inv (poller, [])"
    using assms(1,2) by (auto simp: tp_metadata_poller_init_def guard_Inr blob_inv_def closed_open)
  then have "blob_inv (poller', calls)" using blob_inv_run [of "(poller, [])" S wrap_ok buffers] assms(3) by simp
  then have "whole_blob before complete" using assms(4) by (simp add: blob_inv_def blobs_whole_append)
  then obtain earlier announce chunks where "before = earlier @ OnBlobAnnounce announce # map OnBlobChunk chunks" "chunks_of announce chunks"
      "length (blob_data chunks) = unat (ba_total_len announce)" "bx_stream_id complete = ba_stream_id announce"
      "bx_meta_version complete = ba_meta_version announce" "bx_checksum complete = ba_checksum announce"
    unfolding whole_blob_def by blast
  then show ?thesis unfolding chunks_of_def by (intro exI conjI) (assumption | simp)+
qed

text \<open>
  C35: a blob that is sent arrives. When a producer announces a blob, sends it in pieces and completes it, and these messages
  are what a poller gets next, the poller hands on the announcement, all pieces in order and the completion, whatever
  it had received before; the pieces are accepted by the sender when they leave room for the header in 4096 bytes.
\<close>

theorem blob_arrives:
  assumes "\<forall>p\<in>set ps. p \<noteq> [] \<and> length p \<le> 4068" "length (concat ps) = unat (ba_total_len announce)" "chunks = blob_chunks announce 0 ps"
    "complete = \<lparr>bx_stream_id = ba_stream_id announce, bx_meta_version = ba_meta_version announce, bx_checksum = ba_checksum announce\<rparr>"
    "\<forall>b. offer pub b \<ge> 0" "mh_blob_announce (mp_handlers poller) \<and> mh_blob_chunk (mp_handlers poller) \<and> mh_blob_complete (mp_handlers poller)"
  shows "\<exists>first chunk_messages final poller'. tp_producer_send_meta_blob_announce control_stream offer (Some pub) announce = Inr first \<and>
    list_all2 (\<lambda>chunk b. tp_producer_send_meta_blob_chunk control_stream offer (Some pub) chunk = Inr b) chunks chunk_messages \<and>
    tp_producer_send_meta_blob_complete control_stream offer (Some pub) complete = Inr final \<and>
    fold (tp_metadata_poller_handler control_stream wrap_ok) (first # chunk_messages @ [final]) (poller, calls) =
      (poller', calls @ OnBlobAnnounce announce # map OnBlobChunk chunks @ [OnBlobComplete complete]) \<and>
    blob_data chunks = concat ps \<and> \<not> mp_blob_active poller'"
proof -
  let ?begun = "tp_metadata_blob_begin announce poller"
  have going: "blob_going announce 0 ?begun" "mh_blob_chunk (mp_handlers ?begun)" using assms(6) by (simp_all add: blob_going_def tp_metadata_blob_begin_def)
  have pieces: "\<forall>p\<in>set ps. p \<noteq> [] \<and> length p < 2 ^ 32" using assms(1) by force
  obtain p where p: "fold (tp_metadata_poller_handler control_stream wrap_ok) (map control.chunk_bytes chunks) (?begun, calls @ [OnBlobAnnounce announce]) =
      (p, (calls @ [OnBlobAnnounce announce]) @ map OnBlobChunk chunks)" "blob_going announce (ba_total_len announce) p" "mp_handlers p = mp_handlers ?begun"
    using chunks_handled [OF going(1) pieces _ going(2), of wrap_ok "calls @ [OnBlobAnnounce announce]"] assms(2,3) by auto
  have "tp_metadata_blob_validate_complete complete p = (Inr (), p)"
    using p(2) assms(4) by (simp add: tp_metadata_blob_validate_complete_def blob_going_def)
  note final = complete_handled [OF this]
  have run: "fold (tp_metadata_poller_handler control_stream wrap_ok) (control.blob_bytes announce # map control.chunk_bytes chunks @ [control.complete_bytes complete])
      (poller, calls) = (tp_metadata_blob_reset p, calls @ OnBlobAnnounce announce # map OnBlobChunk chunks @ [OnBlobComplete complete])"
    using p final assms(6) by (simp add: announce_handled tp_metadata_blob_begin_def)
  have sent: "tp_producer_send_meta_blob_chunk control_stream offer (Some pub) chunk = Inr (control.chunk_bytes chunk)" if "chunk \<in> set chunks" for chunk
  proof (rule control.chunk_sent)
    have "bc_bytes chunk \<in> set ps" using blob_chunk_pieces that assms(3) by blast
    then show "bc_bytes chunk \<noteq> []" "length (control.chunk_bytes chunk) \<le> 4096"
      using assms(1) by (auto simp: length_chunk)
  qed (use assms(5) in simp)
  have "list_all2 (\<lambda>chunk b. tp_producer_send_meta_blob_chunk control_stream offer (Some pub) chunk = Inr b) chunks (map control.chunk_bytes chunks)"
    by (simp add: list_all2_map2 list.rel_refl_strong sent)
  moreover have "tp_producer_send_meta_blob_announce control_stream offer (Some pub) announce = Inr (control.blob_bytes announce)"
    "tp_producer_send_meta_blob_complete control_stream offer (Some pub) complete = Inr (control.complete_bytes complete)"
    using assms(5) by (simp_all add: tp_producer_send_meta_blob_announce_def tp_producer_send_meta_blob_complete_def with_publication_def tp_offer_message_def
        control.blob_bytes_def control.complete_bytes_def not_less)
  ultimately show ?thesis using run assms(3) by (intro exI conjI) (assumption | simp add: blob_chunks_data)+
qed

definition sample_handlers :: tp_metadata_handlers where
  "sample_handlers = \<lparr>mh_data_source_announce = False, mh_meta_begin = False, mh_meta_attr = False, mh_meta_end = False, mh_blob_announce = True,
     mh_blob_chunk = True, mh_blob_complete = True\<rparr>"

definition sample_metadata_poller :: tp_metadata_poller where
  "sample_metadata_poller = \<lparr>mp_handlers = sample_handlers, mp_blob_active = False, mp_blob_stream_id = 0, mp_blob_meta_version = 0,
     mp_blob_type = 0, mp_blob_total_len = 0, mp_blob_checksum = 0, mp_blob_next_offset = 0\<rparr>"

definition sample_blob :: tp_meta_blob_announce where
  "sample_blob = \<lparr>ba_stream_id = 5, ba_meta_version = 2, ba_blob_type = 1, ba_total_len = 5, ba_checksum = 9\<rparr>"

definition sample_complete :: tp_meta_blob_complete where
  "sample_complete = \<lparr>bx_stream_id = 5, bx_meta_version = 2, bx_checksum = 9\<rparr>"

lemma sample_initialised: "tp_metadata_poller_init True sample_handlers = Inr sample_metadata_poller"
  by (simp add: tp_metadata_poller_init_def tp_metadata_blob_reset_def sample_metadata_poller_def)

lemma sample_blob_chunks: "blob_chunks sample_blob 0 [''abc'', ''de''] =
    [\<lparr>bc_stream_id = 5, bc_meta_version = 2, bc_offset = 0, bc_bytes = ''abc''\<rparr>, \<lparr>bc_stream_id = 5, bc_meta_version = 2, bc_offset = 3, bc_bytes = ''de''\<rparr>]"
  by (simp add: sample_blob_def)

corollary blob_arrives_witness:
  "\<exists>messages poller'. fold (tp_metadata_poller_handler control_stream (\<lambda>b. True)) messages (sample_metadata_poller, []) =
     (poller', OnBlobAnnounce sample_blob # map OnBlobChunk (blob_chunks sample_blob 0 [''abc'', ''de'']) @ [OnBlobComplete sample_complete]) \<and>
     blob_data (blob_chunks sample_blob 0 [''abc'', ''de'']) = ''abcde''"
proof -
  have "\<forall>p\<in>set [''abc'', ''de'']. p \<noteq> [] \<and> length p \<le> 4068" "length (concat [''abc'', ''de'']) = unat (ba_total_len sample_blob)"
    "sample_complete = \<lparr>bx_stream_id = ba_stream_id sample_blob, bx_meta_version = ba_meta_version sample_blob, bx_checksum = ba_checksum sample_blob\<rparr>"
    "mh_blob_announce (mp_handlers sample_metadata_poller) \<and> mh_blob_chunk (mp_handlers sample_metadata_poller) \<and>
      mh_blob_complete (mp_handlers sample_metadata_poller)"
    by (simp_all add: sample_blob_def sample_complete_def sample_metadata_poller_def sample_handlers_def)
  from blob_arrives [OF this(1,2) refl this(3) _ this(4), of "\<lambda>pub b. 0" "(''aeron:ipc'', 1)" "\<lambda>b. True" "[]"]
  obtain first chunk_messages final poller' where
    "fold (tp_metadata_poller_handler control_stream (\<lambda>b. True)) (first # chunk_messages @ [final]) (sample_metadata_poller, []) =
       (poller', [] @ OnBlobAnnounce sample_blob # map OnBlobChunk (blob_chunks sample_blob 0 [''abc'', ''de'']) @ [OnBlobComplete sample_complete])"
    by auto
  moreover have "blob_data (blob_chunks sample_blob 0 [''abc'', ''de'']) = ''abcde''" by (simp only: blob_chunks_data) simp
  ultimately show ?thesis unfolding append_Nil by blast
qed

corollary complete_blob_whole_witness:
  "\<exists>messages poller' calls before. fold (tp_metadata_poller_handler control_stream (\<lambda>b. True)) messages (sample_metadata_poller, []) = (poller', calls) \<and>
     filter blob_call calls = before @ [OnBlobComplete sample_complete] \<and>
     (\<exists>earlier announce chunks. before = earlier @ OnBlobAnnounce announce # map OnBlobChunk chunks \<and> length (blob_data chunks) = unat (ba_total_len announce))"
proof -
  let ?chunks = "blob_chunks sample_blob 0 [''abc'', ''de'']"
  obtain poller' where p: "fold (tp_metadata_poller_handler control_stream (\<lambda>b. True)) (map control.chunk_bytes ?chunks)
      (tp_metadata_blob_begin sample_blob sample_metadata_poller, [OnBlobAnnounce sample_blob]) = (poller', [OnBlobAnnounce sample_blob] @ map OnBlobChunk ?chunks)"
      "blob_going sample_blob (ba_total_len sample_blob) poller'" "mp_handlers poller' = sample_handlers"
    using chunks_handled [of sample_blob 0 "tp_metadata_blob_begin sample_blob sample_metadata_poller" "[''abc'', ''de'']" "\<lambda>b. True" "[OnBlobAnnounce sample_blob]"]
    by (auto simp: blob_going_def tp_metadata_blob_begin_def sample_blob_def sample_metadata_poller_def sample_handlers_def)
  have "tp_metadata_blob_validate_complete sample_complete poller' = (Inr (), poller')"
    using p(2) by (simp add: tp_metadata_blob_validate_complete_def blob_going_def sample_complete_def sample_blob_def)
  note final = complete_handled [OF this]
  let ?m = "control.blob_bytes sample_blob # map control.chunk_bytes ?chunks @ [control.complete_bytes sample_complete]"
  have run: "fold (tp_metadata_poller_handler control_stream (\<lambda>b. True)) ?m (sample_metadata_poller, []) =
      (tp_metadata_blob_reset poller', ([OnBlobAnnounce sample_blob] @ map OnBlobChunk ?chunks) @ [OnBlobComplete sample_complete])"
    using p(1,3) by (simp add: announce_handled final) (simp add: sample_metadata_poller_def sample_handlers_def)
  have calls: "filter blob_call (([OnBlobAnnounce sample_blob] @ map OnBlobChunk ?chunks) @ [OnBlobComplete sample_complete]) =
      ([OnBlobAnnounce sample_blob] @ map OnBlobChunk ?chunks) @ OnBlobComplete sample_complete # []"
    by (simp add: blob_call_def)
  have handlers: "mh_blob_announce sample_handlers \<and> mh_blob_chunk sample_handlers \<and> mh_blob_complete sample_handlers" by (simp add: sample_handlers_def)
  from complete_blob_whole [OF sample_initialised handlers run calls] run calls show ?thesis by blast
qed

end
