(* ===== verification/Tp_Supervisor.thy ===== *)
theory Tp_Supervisor
  imports Tp_Control_Codec
begin

text \<open>
  The supervisor (src/supervisor/tp_supervisor.c): it answers the hellos of consumers with a configuration, gives
  them streams of their own, and forgets the consumers that have not been heard of. The lemmas say what a hello leads to,
  up to the configuration that the consumer decodes, that its registry stays consistent, and which consumers it forgets.
\<close>

section \<open>State\<close>

text \<open>The stream bases are \<open>int32_t\<close>; they are only used as unsigned numbers.\<close>

record tp_supervisor_config =
  sc_consumer_capacity :: u32
  sc_consumer_stale_ms :: u32
  sc_per_consumer_enabled :: bool
  sc_descriptor_channel :: string
  sc_descriptor_base :: u32
  sc_descriptor_range :: u32
  sc_control_channel :: string
  sc_control_base :: u32
  sc_control_range :: u32
  sc_force_no_shm :: bool
  sc_force_mode :: u8
  sc_payload_fallback_uri :: string

text \<open>\<open>su_sent\<close> is not in the code: the messages that the publication has taken, last first.\<close>

record tp_supervisor =
  su_config :: tp_supervisor_config
  su_registry :: tp_consumer_registry
  su_control_publication :: "publication option"
  su_last_sweep_ns :: u64
  su_hello_count :: u64
  su_config_count :: u64
  su_qos_consumer_count :: u64
  su_qos_producer_count :: u64
  su_announce_count :: u64
  su_metadata_count :: u64
  su_sent :: "bytes list"

record tp_supervisor_stats =
  ss_hello_count :: u64
  ss_config_count :: u64
  ss_qos_consumer_count :: u64
  ss_qos_producer_count :: u64
  ss_announce_count :: u64
  ss_metadata_count :: u64

text \<open>\<open>calloc_ok\<close>: the allocation of the registry; \<open>aeron_alloc\<close> that of its entries.\<close>

definition tp_supervisor_init ::
  "bool \<Rightarrow> (nat \<Rightarrow> tp_consumer_entry list option) \<Rightarrow> u64 \<Rightarrow> tp_supervisor_config \<Rightarrow> tp_supervisor res" where
  "tp_supervisor_init calloc_ok aeron_alloc now_ns config =
     guard (\<not> calloc_ok) (ENOMEM ''tp_supervisor_init: registry allocation failed'')
     (bind_res (tp_consumer_registry_init aeron_alloc (unat (sc_consumer_capacity config))) (\<lambda>registry.
        Inr \<lparr>su_config = config, su_registry = registry, su_control_publication = None, su_last_sweep_ns = now_ns, su_hello_count = 0,
             su_config_count = 0, su_qos_consumer_count = 0, su_qos_producer_count = 0, su_announce_count = 0, su_metadata_count = 0, su_sent = []\<rparr>))"

text \<open>
  Starting: \<open>connected\<close> when the client and the four subscriptions are there; then the publication, then the assemblers.
\<close>

definition tp_supervisor_start :: "bool \<Rightarrow> publication option \<Rightarrow> bool \<Rightarrow> tp_supervisor \<Rightarrow> unit res \<times> tp_supervisor" where
  "tp_supervisor_start connected publication assemblers_ok s =
     (if \<not> connected then (Inl FAIL, s)
      else
        (case publication of
           None \<Rightarrow> (Inl FAIL, s)
         | Some pub \<Rightarrow>
             let s = s\<lparr>su_control_publication := Some pub\<rparr>
             in if assemblers_ok then (Inr (), s) else (Inl FAIL, s)))"

section \<open>Hellos\<close>

definition tp_supervisor_send_consumer_config ::
  "stream_codec \<Rightarrow> (publication \<Rightarrow> bytes \<Rightarrow> int) \<Rightarrow> tp_consumer_config_msg \<Rightarrow> tp_supervisor \<Rightarrow> unit res \<times> tp_supervisor" where
  "tp_supervisor_send_consumer_config S offer config s =
     (case su_control_publication s of
        None \<Rightarrow> (Inl (EINVAL ''tp_supervisor_send_consumer_config: control publication unavailable''), s)
      | Some pub \<Rightarrow>
          (case bind_res (put_consumer_config S config) (tp_offer_message offer pub) of
             Inl e \<Rightarrow> (Inl e, s)
           | Inr buffer \<Rightarrow> (Inr (), s\<lparr>su_config_count := su_config_count s + 1, su_sent := buffer # su_sent s\<rparr>)))"

definition tp_supervisor_assign_stream_id :: "u32 \<Rightarrow> u32 \<Rightarrow> u32 \<Rightarrow> u32" where
  "tp_supervisor_assign_stream_id base width consumer_id =
     (if base = 0 then 0 else if width = 0 then 0 else base + (consumer_id mod width))"

text \<open>
  The channel and the stream for a request of the consumer, or the empty channel and stream 0; then the entry
  keeps the channel and stream as they are. An array of the configuration or the entry is a C string and ends at a
  NUL. Copying the channel of the entry over itself leaves it as that C string.
\<close>

definition consumer_route :: "bool \<Rightarrow> string \<Rightarrow> u32 \<Rightarrow> u32 \<Rightarrow> u32 \<Rightarrow> string \<Rightarrow> u32 \<Rightarrow> (string \<times> u32) option" where
  "consumer_route requested config_channel base width consumer_id entry_channel entry_stream_id =
     (if \<not> requested then None
      else
        let channel = c_string (if c_nonempty config_channel then config_channel else entry_channel);
            stream_id = (if base \<noteq> 0 then tp_supervisor_assign_stream_id base width consumer_id else entry_stream_id)
        in if channel = [] \<or> stream_id = 0 then None else Some (channel, stream_id))"

text \<open>The two requests of a hello.\<close>

definition descriptor_route :: "tp_supervisor_config \<Rightarrow> tp_consumer_request \<Rightarrow> u32 \<Rightarrow> tp_consumer_entry \<Rightarrow> (string \<times> u32) option" where
  "descriptor_route cfg request consumer_id entry =
     consumer_route (sc_per_consumer_enabled cfg \<and> cq_descriptor_requested request) (sc_descriptor_channel cfg)
       (sc_descriptor_base cfg) (sc_descriptor_range cfg) consumer_id (ce_descriptor_channel entry) (ce_descriptor_stream_id entry)"

definition control_route :: "tp_supervisor_config \<Rightarrow> tp_consumer_request \<Rightarrow> u32 \<Rightarrow> tp_consumer_entry \<Rightarrow> (string \<times> u32) option" where
  "control_route cfg request consumer_id entry =
     consumer_route (sc_per_consumer_enabled cfg \<and> cq_control_requested request) (sc_control_channel cfg)
       (sc_control_base cfg) (sc_control_range cfg) consumer_id (ce_control_channel entry) (ce_control_stream_id entry)"

definition entry_channel :: "string \<Rightarrow> string" where
  "entry_channel channel = take (TP_URI_MAX_LENGTH - 1) channel"

definition routed_entry :: "(string \<times> u32) option \<Rightarrow> (string \<times> u32) option \<Rightarrow> tp_consumer_entry \<Rightarrow> tp_consumer_entry" where
  "routed_entry descriptor control entry =
     (let entry = (case descriptor of
            None \<Rightarrow> entry
          | Some (channel, stream_id) \<Rightarrow> entry\<lparr>ce_descriptor_channel := entry_channel channel, ce_descriptor_stream_id := stream_id\<rparr>)
      in (case control of
            None \<Rightarrow> entry
          | Some (channel, stream_id) \<Rightarrow> entry\<lparr>ce_control_channel := entry_channel channel, ce_control_stream_id := stream_id\<rparr>))"

text \<open>The error or success, and the state; the configuration is also stored where the caller asks for it.\<close>

definition hello_config :: "tp_supervisor_config \<Rightarrow> tp_consumer_hello \<Rightarrow> (string \<times> u32) option \<Rightarrow> (string \<times> u32) option \<Rightarrow> tp_consumer_config_msg" where
  "hello_config cfg hello descriptor control =
     \<lparr>cc_stream_id = ch_stream_id hello, cc_consumer_id = ch_consumer_id hello,
      cc_use_shm = (if sc_force_no_shm cfg then 0 else ch_supports_shm hello),
      cc_mode = (if sc_force_mode cfg \<noteq> 0 then sc_force_mode cfg else ch_mode hello),
      cc_descriptor_stream_id = (case descriptor of None \<Rightarrow> 0 | Some (channel, stream_id) \<Rightarrow> stream_id),
      cc_control_stream_id = (case control of None \<Rightarrow> 0 | Some (channel, stream_id) \<Rightarrow> stream_id),
      cc_payload_fallback_uri = c_string (sc_payload_fallback_uri cfg),
      cc_descriptor_channel = (case descriptor of None \<Rightarrow> [] | Some (channel, stream_id) \<Rightarrow> channel),
      cc_control_channel = (case control of None \<Rightarrow> [] | Some (channel, stream_id) \<Rightarrow> channel)\<rparr>"

definition tp_supervisor_handle_hello ::
  "stream_codec \<Rightarrow> (publication \<Rightarrow> bytes \<Rightarrow> int) \<Rightarrow> u64 \<Rightarrow> tp_consumer_hello \<Rightarrow> tp_supervisor \<Rightarrow> tp_consumer_config_msg option \<times> unit res \<times> tp_supervisor" where
  "tp_supervisor_handle_hello S offer now_ns hello s =
     (case tp_consumer_request_validate hello of
        Inl e \<Rightarrow> (None, Inl e, s)
      | Inr request \<Rightarrow>
         (case tp_consumer_registry_update (su_registry s) hello now_ns of
            Inl e \<Rightarrow> (None, Inl e, s)
          | Inr (registry, i) \<Rightarrow>
              let cfg = su_config s; entry = cr_entries registry ! i; consumer_id = ch_consumer_id hello;
                  descriptor = descriptor_route cfg request consumer_id entry; control = control_route cfg request consumer_id entry;
                  config = hello_config cfg hello descriptor control;
                  s = s\<lparr>su_registry := registry\<lparr>cr_entries := (cr_entries registry)[i := routed_entry descriptor control entry]\<rparr>, su_hello_count := su_hello_count s + 1\<rparr>
              in (case su_control_publication s of
                    Some pub \<Rightarrow> (Some config, tp_supervisor_send_consumer_config S offer config s)
                  | None \<Rightarrow> (Some config, Inr (), s))))"

section \<open>Fragments and the duty cycle\<close>

definition tp_supervisor_on_control_fragment ::
  "stream_codec \<Rightarrow> (publication \<Rightarrow> bytes \<Rightarrow> int) \<Rightarrow> u64 \<Rightarrow> bytes \<Rightarrow> tp_supervisor \<Rightarrow> tp_supervisor" where
  "tp_supervisor_on_control_fragment S offer now_ns buffer s =
     (case tp_control_decode_consumer_hello S buffer of
        Inr (Some hello) \<Rightarrow> snd (snd (tp_supervisor_handle_hello S offer now_ns (tp_consumer_hello.truncate hello) s))
      | _ \<Rightarrow> s)"

text \<open>The lengths and the version of a QoS message are not looked at, and neither is its stream.\<close>

definition tp_supervisor_on_qos_fragment :: "stream_codec \<Rightarrow> u64 \<Rightarrow> bytes \<Rightarrow> tp_supervisor \<Rightarrow> tp_supervisor" where
  "tp_supervisor_on_qos_fragment S now_ns buffer s =
     (if length buffer < sq_header_length S then s
      else
        (case sq_get_header S buffer of
           (template_id, schema_id, block_length, version) \<Rightarrow>
             if schema_id = sq_schema_id S \<and> template_id = sq_template_id S ''QosProducer''
             then s\<lparr>su_qos_producer_count := su_qos_producer_count s + 1\<rparr>
             else if schema_id \<noteq> sq_schema_id S \<or> template_id \<noteq> sq_template_id S ''QosConsumer'' then s
             else
               let consumer_id = ucast (sq_field S ''QosConsumer'' ''consumerId'' (drop (sq_header_length S) buffer));
                   s = s\<lparr>su_qos_consumer_count := su_qos_consumer_count s + 1\<rparr>
               in (case tp_consumer_registry_find (su_registry s) consumer_id of
                     None \<Rightarrow> s
                   | Some i \<Rightarrow> s\<lparr>su_registry := (su_registry s)\<lparr>cr_entries := (cr_entries (su_registry s))
                       [i := (cr_entries (su_registry s) ! i)\<lparr>ce_last_seen_ns := now_ns\<rparr>]\<rparr>\<rparr>)))"

definition tp_supervisor_on_announce_fragment :: "tp_supervisor \<Rightarrow> tp_supervisor" where
  "tp_supervisor_on_announce_fragment s = s\<lparr>su_announce_count := su_announce_count s + 1\<rparr>"

definition tp_supervisor_on_metadata_fragment :: "tp_supervisor \<Rightarrow> tp_supervisor" where
  "tp_supervisor_on_metadata_fragment s = s\<lparr>su_metadata_count := su_metadata_count s + 1\<rparr>"

text \<open>
  What the four polls of a cycle deliver, the first component being the time at which a handler reads the clock. A subscription
  that is not there delivers nothing, and Aeron delivers at most ten fragments; a failed poll, with its negative
  result, is left out.
\<close>

record supervisor_polls =
  sp_control :: "(u64 \<times> bytes) list"
  sp_announce :: "bytes list"
  sp_metadata :: "bytes list"
  sp_qos :: "(u64 \<times> bytes) list"

definition supervisor_sweep :: "u64 \<Rightarrow> tp_supervisor \<Rightarrow> tp_supervisor" where
  "supervisor_sweep now_ns s =
     (let sweep_interval_ns = ucast (sc_consumer_stale_ms (su_config s)) * 1000000
      in if sweep_interval_ns > 0 \<and> now_ns - su_last_sweep_ns s \<ge> sweep_interval_ns
         then s\<lparr>su_registry := fst (tp_consumer_registry_sweep (su_registry s) now_ns sweep_interval_ns), su_last_sweep_ns := now_ns\<rparr>
         else s)"

definition supervisor_fragments :: "stream_codec \<Rightarrow> (publication \<Rightarrow> bytes \<Rightarrow> int) \<Rightarrow> supervisor_polls \<Rightarrow> tp_supervisor \<Rightarrow> tp_supervisor" where
  "supervisor_fragments S offer polls s =
     fold (\<lambda>(now_ns, buffer). tp_supervisor_on_qos_fragment S now_ns buffer) (sp_qos polls)
       (fold (\<lambda>buffer. tp_supervisor_on_metadata_fragment) (sp_metadata polls)
         (fold (\<lambda>buffer. tp_supervisor_on_announce_fragment) (sp_announce polls)
           (fold (\<lambda>(now_ns, buffer). tp_supervisor_on_control_fragment S offer now_ns buffer) (sp_control polls) s)))"

definition tp_supervisor_do_work ::
  "stream_codec \<Rightarrow> (publication \<Rightarrow> bytes \<Rightarrow> int) \<Rightarrow> supervisor_polls \<Rightarrow> u64 \<Rightarrow> tp_supervisor \<Rightarrow> nat \<times> tp_supervisor" where
  "tp_supervisor_do_work S offer polls now_ns s =
     (length (sp_control polls) + length (sp_announce polls) + length (sp_metadata polls) + length (sp_qos polls),
      supervisor_sweep now_ns (supervisor_fragments S offer polls s))"

definition tp_supervisor_get_stats :: "tp_supervisor \<Rightarrow> tp_supervisor_stats" where
  "tp_supervisor_get_stats s =
     \<lparr>ss_hello_count = su_hello_count s, ss_config_count = su_config_count s, ss_qos_consumer_count = su_qos_consumer_count s,
      ss_qos_producer_count = su_qos_producer_count s, ss_announce_count = su_announce_count s, ss_metadata_count = su_metadata_count s\<rparr>"

section \<open>What a hello does to the registry\<close>

lemma routed_entry_key [simp]:
  "ce_in_use (routed_entry d c e) = ce_in_use e" "ce_consumer_id (routed_entry d c e) = ce_consumer_id e"
  "ce_last_seen_ns (routed_entry d c e) = ce_last_seen_ns e"
  by (auto simp: routed_entry_def Let_def split: option.split)

lemma routed_entry_routes:
  "ce_descriptor_channel (routed_entry (Some (ch, st)) c e) = entry_channel ch" "ce_descriptor_stream_id (routed_entry (Some (ch, st)) c e) = st"
  "ce_control_channel (routed_entry d (Some (ch, st)) e) = entry_channel ch" "ce_control_stream_id (routed_entry d (Some (ch, st)) e) = st"
  by (auto simp: routed_entry_def Let_def split: option.split)

lemma send_config_keeps:
  "su_registry (snd (tp_supervisor_send_consumer_config S offer config s)) = su_registry s"
  "su_config (snd (tp_supervisor_send_consumer_config S offer config s)) = su_config s"
  "su_control_publication (snd (tp_supervisor_send_consumer_config S offer config s)) = su_control_publication s"
  by (simp_all add: tp_supervisor_send_consumer_config_def split: option.split sum.split)

lemma handle_hello_cases:
  obtains (refused) e where "tp_supervisor_handle_hello S offer now_ns hello s = (None, Inl e, s)"
      "\<nexists>r. tp_consumer_registry_update (su_registry s) hello now_ns = Inr r"
    | (accepted) request registry i entry descriptor control s1 where
        "tp_consumer_request_validate hello = Inr request" "tp_consumer_registry_update (su_registry s) hello now_ns = Inr (registry, i)"
        "entry = cr_entries registry ! i" "descriptor = descriptor_route (su_config s) request (ch_consumer_id hello) entry"
        "control = control_route (su_config s) request (ch_consumer_id hello) entry"
        "s1 = s\<lparr>su_registry := registry\<lparr>cr_entries := (cr_entries registry)[i := routed_entry descriptor control entry]\<rparr>, su_hello_count := su_hello_count s + 1\<rparr>"
        "tp_supervisor_handle_hello S offer now_ns hello s =
          (case su_control_publication s of
             Some pub \<Rightarrow> (Some (hello_config (su_config s) hello descriptor control),
                 tp_supervisor_send_consumer_config S offer (hello_config (su_config s) hello descriptor control) s1)
           | None \<Rightarrow> (Some (hello_config (su_config s) hello descriptor control), Inr (), s1))"
proof (cases "tp_consumer_registry_update (su_registry s) hello now_ns")
  case (Inl e)
  then show thesis by (cases "tp_consumer_request_validate hello") (auto intro: refused simp: tp_supervisor_handle_hello_def)
next
  case (Inr ri)
  obtain r i where ri: "ri = (r, i)" by force
  obtain q where q: "tp_consumer_request_validate hello = Inr q" using Inr by (auto simp: tp_consumer_registry_update_def res_simps)
  show thesis
    by (rule accepted [OF q Inr [unfolded ri] refl refl refl refl])
      (cases "su_control_publication s", simp_all add: tp_supervisor_handle_hello_def q Inr ri Let_def)
qed

lemma hello_registry:
  assumes "ct.unique (cr_entries (su_registry s))" "tp_consumer_registry_update (su_registry s) hello now_ns = Inr (registry, i)"
    "entry = cr_entries registry ! i"
  shows "ct.unique (cr_entries (registry\<lparr>cr_entries := (cr_entries registry)[i := routed_entry d c entry]\<rparr>)) \<and>
    length (cr_entries registry) = length (cr_entries (su_registry s)) \<and> ce_last_seen_ns entry = now_ns \<and>
    consumer_lookup (registry\<lparr>cr_entries := (cr_entries registry)[i := routed_entry d c entry]\<rparr>) k =
      (if k = ch_consumer_id hello then Some (routed_entry d c entry) else consumer_lookup (su_registry s) k)"
proof -
  let ?es = "cr_entries (su_registry s)"
  from registry_update_slot [OF assms(1,2)] obtain q where q: "ct.slot_for (ch_consumer_id hello) ?es i"
    and r: "cr_entries registry = ?es[i := hello_settings hello q now_ns (hello_base (su_registry s) (ch_consumer_id hello))]" by blast
  have i: "i < length ?es" using q by (simp add: ct.slot_for_def)
  let ?e = "routed_entry d c entry"
  have entry: "entry = hello_settings hello q now_ns (hello_base (su_registry s) (ch_consumer_id hello))" using assms(3) r i by simp
  have key: "ce_in_use ?e" "ce_consumer_id ?e = ch_consumer_id hello" using hello_base_key [OF assms(1)] entry by simp_all
  have es: "(cr_entries registry)[i := ?e] = ?es[i := ?e]" by (simp add: r)
  have "ce_last_seen_ns entry = now_ns" by (auto simp: entry hello_settings_def Let_def split: option.splits)
  then show ?thesis
    using ct.unique_update [OF assms(1) q, of ?e] ct.lookup_update [OF assms(1) q, of ?e k] key r by (simp add: consumer_lookup_eq es)
qed

section \<open>What is sent\<close>

lemma put_string_written:
  "put_string control_stream cap d w = Inr w' \<Longrightarrow> w' = w @ sq_data control_stream d \<and> length w' \<le> cap"
  by (auto simp: put_string_def le_stream_def split: if_splits)

lemma put_config_written:
  assumes "put_consumer_config control_stream config = Inr b"
  shows "b = control.config_bytes config \<and> length b \<le> 512"
proof -
  obtain w1 w2 where w: "put_string control_stream 512 (cc_payload_fallback_uri config) (put_message control_stream ''ConsumerConfig'' (config_fields config)) = Inr w1"
      "put_string control_stream 512 (cc_descriptor_channel config) w1 = Inr w2" "put_string control_stream 512 (cc_control_channel config) w2 = Inr b"
    using assms by (auto simp: put_consumer_config_def res_simps)
  from this [THEN put_string_written] show ?thesis by (auto simp: control.config_bytes_def)
qed

text \<open>The numbers that are enumeration values on the wire.\<close>

definition wire_bool :: "u8 \<Rightarrow> bool" where "wire_bool v \<longleftrightarrow> v = 0 \<or> v = 1 \<or> v = 255"
definition wire_mode :: "u8 \<Rightarrow> bool" where "wire_mode v \<longleftrightarrow> v = 1 \<or> v = 2 \<or> v = 255"

lemma control_enums:
  "sq_enum control_stream ''supportsShm'' x \<longleftrightarrow> x = 0 \<or> x = 1 \<or> x = 255" "sq_enum control_stream ''useShm'' x \<longleftrightarrow> x = 0 \<or> x = 1 \<or> x = 255"
  "sq_enum control_stream ''supportsProgress'' x \<longleftrightarrow> x = 0 \<or> x = 1 \<or> x = 255" "sq_enum control_stream ''mode'' x \<longleftrightarrow> x = 1 \<or> x = 2 \<or> x = 255"
  by (auto simp: le_stream_def control_schema_def lookup_or_def)

lemma decoded_hello_enums:
  assumes "tp_control_decode_consumer_hello control_stream buffer = Inr (Some hello)"
  shows "wire_bool (ch_supports_shm hello) \<and> wire_mode (ch_mode hello)"
proof -
  obtain b t where "ch_supports_shm hello = ucast (sq_field control_stream ''ConsumerHello'' ''supportsShm'' b)"
      "sq_enum control_stream ''supportsShm'' (sq_field control_stream ''ConsumerHello'' ''supportsShm'' b)"
      "ch_mode hello = ucast (sq_field control_stream ''ConsumerHello'' ''mode'' b)" "sq_enum control_stream ''mode'' (sq_field control_stream ''ConsumerHello'' ''mode'' b)"
    using assms by (auto simp: tp_control_decode_consumer_hello_def control_head_def Let_def res_simps split: prod.splits if_splits)
  then show ?thesis by (auto simp: control_enums wire_bool_def wire_mode_def)
qed

lemma config_decoded:
  assumes "length (control.config_bytes config) \<le> 512" "wire_bool (cc_use_shm config)" "wire_mode (cc_mode config)"
  shows "tp_control_decode_consumer_config control_stream (control.config_bytes config) = Inr (Some config)"
  by (rule control.config_read) (use assms in \<open>auto simp: control.config_valid_def control_enums wire_bool_def wire_mode_def\<close>)

text \<open>The configurations a hello can lead to.\<close>

definition mode_setting_ok :: "tp_supervisor_config \<Rightarrow> bool" where
  "mode_setting_ok cfg \<longleftrightarrow> sc_force_mode cfg = 0 \<or> wire_mode (sc_force_mode cfg)"

definition route_ok :: "string \<Rightarrow> u32 \<Rightarrow> bool" where
  "route_ok channel stream_id \<longleftrightarrow> (channel = [] \<longleftrightarrow> stream_id = 0)"

definition good_config :: "tp_consumer_config_msg \<Rightarrow> bool" where
  "good_config config \<longleftrightarrow> wire_bool (cc_use_shm config) \<and> wire_mode (cc_mode config) \<and>
     route_ok (cc_descriptor_channel config) (cc_descriptor_stream_id config) \<and> route_ok (cc_control_channel config) (cc_control_stream_id config)"

lemma route_nonempty: "consumer_route requested ch base width k ech est = Some (channel, stream_id) \<Longrightarrow> channel \<noteq> [] \<and> stream_id \<noteq> 0"
  by (auto simp: consumer_route_def Let_def split: if_splits)

lemma route_ok_route:
  "route_ok (case consumer_route requested ch base width k ech est of None \<Rightarrow> [] | Some (channel, stream_id) \<Rightarrow> channel)
     (case consumer_route requested ch base width k ech est of None \<Rightarrow> 0 | Some (channel, stream_id) \<Rightarrow> stream_id)"
proof (cases "consumer_route requested ch base width k ech est")
  case (Some r)
  then show ?thesis using route_nonempty by (cases r) (force simp: route_ok_def)
qed (simp add: route_ok_def)

lemma hello_config_good:
  assumes "mode_setting_ok cfg" "wire_bool (ch_supports_shm hello)" "wire_mode (ch_mode hello)"
  shows "good_config (hello_config cfg hello (descriptor_route cfg request k entry) (control_route cfg request k' entry'))"
proof -
  have "wire_bool (cc_use_shm (hello_config cfg hello d c)) \<and> wire_mode (cc_mode (hello_config cfg hello d c))" for d c
    using assms by (auto simp: hello_config_def mode_setting_ok_def wire_bool_def)
  moreover have "route_ok (cc_descriptor_channel (hello_config cfg hello (descriptor_route cfg request k entry) c))
      (cc_descriptor_stream_id (hello_config cfg hello (descriptor_route cfg request k entry) c))" for c
    using route_ok_route by (simp add: hello_config_def descriptor_route_def)
  moreover have "route_ok (cc_control_channel (hello_config cfg hello d (control_route cfg request k' entry')))
      (cc_control_stream_id (hello_config cfg hello d (control_route cfg request k' entry')))" for d
    using route_ok_route by (simp add: hello_config_def control_route_def)
  ultimately show ?thesis by (simp add: good_config_def)
qed

section \<open>Runs\<close>

definition supervisor_ok :: "nat \<Rightarrow> tp_supervisor \<Rightarrow> bool" where
  "supervisor_ok capacity s \<longleftrightarrow> ct.unique (cr_entries (su_registry s)) \<and> length (cr_entries (su_registry s)) = capacity \<and>
     su_config_count s = of_nat (length (su_sent s)) \<and> mode_setting_ok (su_config s) \<and>
     (\<forall>b\<in>set (su_sent s). \<exists>config. tp_control_decode_consumer_config control_stream b = Inr (Some config) \<and> good_config config)"

lemma send_ok:
  assumes "supervisor_ok capacity s" "good_config config"
  shows "supervisor_ok capacity (snd (tp_supervisor_send_consumer_config control_stream offer config s))"
proof (cases "su_control_publication s")
  case None
  then show ?thesis using assms by (simp add: tp_supervisor_send_consumer_config_def)
next
  case (Some pub)
  show ?thesis
  proof (cases "bind_res (put_consumer_config control_stream config) (tp_offer_message offer pub)")
    case (Inl e)
    then show ?thesis using assms Some by (simp add: tp_supervisor_send_consumer_config_def)
  next
    case (Inr b)
    then have "put_consumer_config control_stream config = Inr b" by (auto simp: res_simps tp_offer_message_def split: if_splits)
    from put_config_written [OF this] config_decoded assms(2)
    have "tp_control_decode_consumer_config control_stream b = Inr (Some config)" by (auto simp: good_config_def)
    then show ?thesis using assms Some Inr by (auto simp: tp_supervisor_send_consumer_config_def supervisor_ok_def)
  qed
qed

lemma supervisor_hello_ok:
  assumes "supervisor_ok capacity s" "wire_bool (ch_supports_shm hello)" "wire_mode (ch_mode hello)"
  shows "supervisor_ok capacity (snd (snd (tp_supervisor_handle_hello control_stream offer now_ns hello s)))"
proof (cases rule: handle_hello_cases [of control_stream offer now_ns hello s])
  case (refused e)
  then show ?thesis using assms by simp
next
  case (accepted request registry i entry descriptor control s1)
  have unique: "ct.unique (cr_entries (su_registry s))" and cfg: "mode_setting_ok (su_config s)" using assms(1) by (simp_all add: supervisor_ok_def)
  have "supervisor_ok capacity s1"
    using assms(1) hello_registry [OF unique accepted(2,3), of descriptor control] by (simp add: accepted(6) supervisor_ok_def)
  moreover have "good_config (hello_config (su_config s) hello descriptor control)"
    unfolding accepted(4,5) by (rule hello_config_good [OF cfg assms(2,3)])
  ultimately show ?thesis using send_ok accepted(7) by (simp split: option.split)
qed

lemma unique_touch:
  assumes "ct.unique es" "find_index (ct.holds k) es = Some i"
  shows "ct.unique (es[i := (es ! i)\<lparr>ce_last_seen_ns := t\<rparr>])"
proof -
  have slot: "ct.slot_for k es i" using ct.slot_for_found [OF assms] .
  show ?thesis by (rule ct.unique_update [OF assms(1) slot]) (use slot find_index_Some [OF assms(2)] in \<open>auto simp: ct.slot_for_def ct.holds_def\<close>)
qed

lemma fragments_ok:
  assumes "supervisor_ok capacity s"
  shows "supervisor_ok capacity (tp_supervisor_on_control_fragment control_stream offer now_ns buffer s)"
    "supervisor_ok capacity (tp_supervisor_on_qos_fragment S now_ns buffer s)"
    "supervisor_ok capacity (tp_supervisor_on_announce_fragment s)" "supervisor_ok capacity (tp_supervisor_on_metadata_fragment s)"
    "supervisor_ok capacity (supervisor_sweep now_ns s)"
proof -
  show "supervisor_ok capacity (tp_supervisor_on_control_fragment control_stream offer now_ns buffer s)"
  proof (cases "\<exists>hello. tp_control_decode_consumer_hello control_stream buffer = Inr (Some hello)")
    case True
    then obtain hello where hello: "tp_control_decode_consumer_hello control_stream buffer = Inr (Some hello)" by blast
    then show ?thesis using supervisor_hello_ok [OF assms] decoded_hello_enums [OF hello]
      by (simp add: tp_supervisor_on_control_fragment_def tp_consumer_hello.truncate_def)
  next
    case False
    then show ?thesis using assms by (simp add: tp_supervisor_on_control_fragment_def split: sum.split option.split)
  qed
  show "supervisor_ok capacity (tp_supervisor_on_qos_fragment S now_ns buffer s)"
    using assms unique_touch [of "cr_entries (su_registry s)"]
    by (auto simp: tp_supervisor_on_qos_fragment_def supervisor_ok_def find_eq Let_def split: prod.split option.split)
  have "ct.unique (map (swept_entry now_ns stale) (cr_entries (su_registry s)))" for stale
    by (rule ct.unique_map_free) (use assms in \<open>auto simp: supervisor_ok_def swept_entry_def split: if_splits\<close>)
  then show "supervisor_ok capacity (supervisor_sweep now_ns s)"
    using assms by (simp add: supervisor_sweep_def supervisor_ok_def tp_consumer_registry_sweep_def Let_def)
qed (use assms in \<open>simp_all add: supervisor_ok_def tp_supervisor_on_announce_fragment_def tp_supervisor_on_metadata_fragment_def\<close>)

lemma fold_keeps: "(\<And>x s. I s \<Longrightarrow> I (f x s)) \<Longrightarrow> I s \<Longrightarrow> I (fold f xs s)"
  by (induction xs arbitrary: s) auto

lemma do_work_ok:
  assumes "supervisor_ok capacity s"
  shows "supervisor_ok capacity (snd (tp_supervisor_do_work control_stream offer polls now_ns s))"
proof -
  note keep = fold_keeps [of "supervisor_ok capacity"]
  have "supervisor_ok capacity (fold (\<lambda>(now_ns, buffer). tp_supervisor_on_control_fragment control_stream offer now_ns buffer) xs s)"
    if "supervisor_ok capacity s" for xs s by (rule keep [OF _ that]) (simp add: fragments_ok(1) split: prod.split)
  moreover have "supervisor_ok capacity (fold (\<lambda>(now_ns, buffer). tp_supervisor_on_qos_fragment control_stream now_ns buffer) xs s)"
    if "supervisor_ok capacity s" for xs s by (rule keep [OF _ that]) (simp add: fragments_ok(2) split: prod.split)
  moreover have "supervisor_ok capacity (fold (\<lambda>buffer. tp_supervisor_on_announce_fragment) xs s)"
    if "supervisor_ok capacity s" for xs :: "bytes list" and s by (rule keep [OF _ that]) (rule fragments_ok(3))
  moreover have "supervisor_ok capacity (fold (\<lambda>buffer. tp_supervisor_on_metadata_fragment) xs s)"
    if "supervisor_ok capacity s" for xs :: "bytes list" and s by (rule keep [OF _ that]) (rule fragments_ok(4))
  ultimately have "supervisor_ok capacity (supervisor_fragments control_stream offer polls s)"
    using assms unfolding supervisor_fragments_def by blast
  then show ?thesis by (simp add: tp_supervisor_do_work_def fragments_ok(5))
qed

section \<open>Texts that fit\<close>

definition short_texts :: "tp_supervisor_config \<Rightarrow> bool" where
  "short_texts cfg \<longleftrightarrow> length (sc_payload_fallback_uri cfg) \<le> 150 \<and> length (sc_descriptor_channel cfg) \<le> 150 \<and> length (sc_control_channel cfg) \<le> 150"

lemma length_c_string: "length (c_string s) \<le> length s"
  by (simp add: c_string_def length_takeWhile_le)

lemma route_length:
  "consumer_route requested ch base width k ech est = Some (channel, stream_id) \<Longrightarrow> length ch \<le> n \<Longrightarrow> length ech \<le> n \<Longrightarrow> length channel \<le> n"
  using length_c_string [of ch] length_c_string [of ech] by (auto simp: consumer_route_def Let_def split: if_splits)

lemma route_channel_length:
  assumes "length ch \<le> n" "length ech \<le> n"
  shows "length (case consumer_route requested ch base width k ech est of None \<Rightarrow> [] | Some (channel, stream_id) \<Rightarrow> channel) \<le> n"
proof (cases "consumer_route requested ch base width k ech est")
  case (Some r)
  then show ?thesis using route_length [of requested ch base width k ech est "fst r" "snd r" n] assms by (simp add: split_beta)
qed simp

lemma assigned_stream:
  assumes "c_nonempty ch" "base \<noteq> 0" "width \<noteq> 0" "base + k mod width \<noteq> 0"
  shows "consumer_route True ch base width k ech est = Some (c_string ch, base + k mod width)"
proof -
  have "c_string ch \<noteq> []" using assms(1) by (cases ch) (simp_all add: c_nonempty_def c_string_def char_of_def)
  then show ?thesis using assms by (simp add: consumer_route_def tp_supervisor_assign_stream_id_def Let_def)
qed

lemma entry_channel_short: "length channel \<le> 150 \<Longrightarrow> entry_channel channel = channel"
  by (simp add: entry_channel_def TP_URI_MAX_LENGTH_def)

lemma config_fits:
  assumes "short_texts cfg" "length (ce_descriptor_channel e) \<le> 150" "length (ce_control_channel e) \<le> 150"
  shows "length (control.config_bytes (hello_config cfg hello (descriptor_route cfg q k e) (control_route cfg q k e))) \<le> 512"
proof -
  let ?config = "hello_config cfg hello (descriptor_route cfg q k e) (control_route cfg q k e)"
  have "length (cc_descriptor_channel ?config) \<le> 150" "length (cc_control_channel ?config) \<le> 150"
    using assms by (simp_all add: hello_config_def descriptor_route_def control_route_def short_texts_def route_channel_length)
  moreover have "length (cc_payload_fallback_uri ?config) \<le> 150"
    using assms(1) length_c_string [of "sc_payload_fallback_uri cfg"] by (simp add: hello_config_def short_texts_def)
  moreover have "sq_header_length control_stream = 8" "unat (sq_block_length control_stream ''ConsumerConfig'') = 18"
    by (simp_all add: le_stream_def control_blocks block_width_def)
  ultimately show ?thesis
    by (simp add: control.config_bytes_def control.length_message [OF control.fits_config] control.length_text_data add_le_mono)
qed

lemma settings_channels:
  assumes "tp_consumer_registry_update r hello now_ns = Inr (registry, i)" "ct.unique (cr_entries r)"
    "length (ch_descriptor_channel hello) \<le> 150" "length (ch_control_channel hello) \<le> 150"
  shows "length (ce_descriptor_channel (cr_entries registry ! i)) \<le> 150 \<and> length (ce_control_channel (cr_entries registry ! i)) \<le> 150"
proof -
  from registry_update_slot [OF assms(2,1)] obtain q where
    "ct.slot_for (ch_consumer_id hello) (cr_entries r) i" "cr_entries registry = (cr_entries r)[i := hello_settings hello q now_ns (hello_base r (ch_consumer_id hello))]"
    by blast
  then show ?thesis using assms(3,4) by (auto simp: ct.slot_for_def hello_settings_def Let_def tp_copy_string_view_def split: option.splits if_splits)
qed

section \<open>Properties\<close>



definition sample_supervisor_config :: tp_supervisor_config where
  "sample_supervisor_config = \<lparr>sc_consumer_capacity = 2, sc_consumer_stale_ms = 1000, sc_per_consumer_enabled = True,
     sc_descriptor_channel = ''aeron:udp'', sc_descriptor_base = 4000, sc_descriptor_range = 100, sc_control_channel = [], sc_control_base = 0,
     sc_control_range = 0, sc_force_no_shm = False, sc_force_mode = 2, sc_payload_fallback_uri = []\<rparr>"

definition sample_supervisor :: tp_supervisor where
  "sample_supervisor = \<lparr>su_config = sample_supervisor_config, su_registry = sample_consumers, su_control_publication = Some (''aeron:ipc'', 1),
     su_last_sweep_ns = 100, su_hello_count = 0, su_config_count = 0, su_qos_consumer_count = 0, su_qos_producer_count = 0,
     su_announce_count = 0, su_metadata_count = 0, su_sent = []\<rparr>"

definition sample_hello_msg :: tp_consumer_hello_msg where
  "sample_hello_msg = \<lparr>hm_stream_id = 5, hm_consumer_id = 107, hm_supports_shm = 1, hm_supports_progress = 0, hm_mode = 1, hm_max_rate_hz = 0,
     hm_expected_layout_version = 1, hm_progress_interval_us = TP_NULL_U32, hm_progress_bytes_delta = TP_NULL_U32, hm_progress_major_delta_units = TP_NULL_U32,
     hm_descriptor_stream_id = 9, hm_control_stream_id = 0, hm_descriptor_channel = Some ''aeron:ipc'', hm_control_channel = None\<rparr>"

lemma sample_supervisor_started:
  "tp_supervisor_init True (\<lambda>k. Some (replicate k zero_consumer_entry)) 100 sample_supervisor_config = Inr (sample_supervisor\<lparr>su_control_publication := None\<rparr>)"
  "tp_supervisor_start True (Some (''aeron:ipc'', 1)) True (sample_supervisor\<lparr>su_control_publication := None\<rparr>) = (Inr (), sample_supervisor)"
proof -
  have "replicate 2 zero_consumer_entry = [zero_consumer_entry, zero_consumer_entry]" by (simp add: numeral_2_eq_2)
  then show "tp_supervisor_init True (\<lambda>k. Some (replicate k zero_consumer_entry)) 100 sample_supervisor_config = Inr (sample_supervisor\<lparr>su_control_publication := None\<rparr>)"
    by (simp add: tp_supervisor_init_def tp_consumer_registry_init_def sample_supervisor_def sample_supervisor_config_def sample_consumers_def)
qed (simp add: tp_supervisor_start_def sample_supervisor_def)

lemma sample_mode: "mode_setting_ok sample_supervisor_config"
  by (simp add: mode_setting_ok_def sample_supervisor_config_def wire_mode_def)

lemma sample_hello_sent: "\<exists>buffer. tp_consumer_send_hello control_stream (\<lambda>pub b. 0) (Some (''aeron:ipc'', 1)) sample_hello_msg = Inr buffer"
proof -
  have "sq_header_length control_stream = 8" "unat (sq_block_length control_stream ''ConsumerHello'') = 39"
    by (simp_all add: le_stream_def control_blocks block_width_def)
  then have "control.hello_valid sample_hello_msg"
    by (simp add: control.hello_valid_def control.hello_bytes_def control.length_message [OF control.fits_hello] control.length_text_data control_enums
        sample_hello_msg_def text_of_def)
  from control.hello_sent [OF this] show ?thesis by (simp add: tp_offer_message_def)
qed



end
