(* ===== verification/Tp_Qos.thy ===== *)
theory Tp_Qos
  imports Tp_Supervisor
begin

text \<open>
  The QoS messages (src/client/tp_qos.c): what producers and consumers report, and the poller that hands the reports
  on. The lemmas say that a report arrives as it was published, and that the reports of a consumer keep it known to the
  supervisor.
\<close>

section \<open>Publishing and polling\<close>

datatype tp_qos_event_type = TP_QOS_EVENT_PRODUCER | TP_QOS_EVENT_CONSUMER

record tp_qos_event =
  qe_type :: tp_qos_event_type
  qe_stream_id :: u32
  qe_producer_id :: u32
  qe_consumer_id :: u32
  qe_epoch :: u64
  qe_current_seq :: u64
  qe_watermark :: u32
  qe_last_seq_seen :: u64
  qe_drops_gap :: u64
  qe_drops_late :: u64
  qe_mode :: u8

definition TP_MODE_NULL :: u8 where "TP_MODE_NULL = 255"

definition zero_qos_event :: tp_qos_event where
  "zero_qos_event = \<lparr>qe_type = TP_QOS_EVENT_PRODUCER, qe_stream_id = 0, qe_producer_id = 0, qe_consumer_id = 0, qe_epoch = 0, qe_current_seq = 0,
     qe_watermark = 0, qe_last_seq_seen = 0, qe_drops_gap = 0, qe_drops_late = 0, qe_mode = 0\<rparr>"

definition qos_producer_fields :: "u32 \<Rightarrow> u32 \<Rightarrow> u64 \<Rightarrow> u64 \<Rightarrow> u32 \<Rightarrow> (string \<times> u64) list" where
  "qos_producer_fields stream_id producer_id epoch current_seq watermark =
     [(''streamId'', ucast stream_id), (''producerId'', ucast producer_id), (''epoch'', epoch), (''currentSeq'', current_seq), (''watermark'', ucast watermark)]"

definition qos_consumer_fields :: "u32 \<Rightarrow> u32 \<Rightarrow> u64 \<Rightarrow> u64 \<Rightarrow> u64 \<Rightarrow> u64 \<Rightarrow> u8 \<Rightarrow> (string \<times> u64) list" where
  "qos_consumer_fields stream_id consumer_id epoch last_seq_seen drops_gap drops_late mode =
     [(''streamId'', ucast stream_id), (''consumerId'', ucast consumer_id), (''epoch'', epoch), (''lastSeqSeen'', last_seq_seen),
      (''dropsGap'', drops_gap), (''dropsLate'', drops_late), (''mode'', ucast mode)]"

text \<open>The stream, the id and the epoch are those of the producer or the consumer.\<close>

definition tp_qos_publish_producer ::
  "stream_codec \<Rightarrow> (publication \<Rightarrow> bytes \<Rightarrow> int) \<Rightarrow> publication option \<Rightarrow> u32 \<Rightarrow> u32 \<Rightarrow> u64 \<Rightarrow> u64 \<Rightarrow> u32 \<Rightarrow> bytes res" where
  "tp_qos_publish_producer S offer qos_publication stream_id producer_id epoch current_seq watermark =
     with_publication ''tp_qos_publish_producer: qos publication unavailable'' qos_publication (\<lambda>pub.
       tp_offer_message offer pub (put_message S ''QosProducer'' (qos_producer_fields stream_id producer_id epoch current_seq watermark)))"

definition tp_qos_publish_consumer ::
  "stream_codec \<Rightarrow> (publication \<Rightarrow> bytes \<Rightarrow> int) \<Rightarrow> publication option \<Rightarrow> tp_consumer \<Rightarrow> u32 \<Rightarrow> u64 \<Rightarrow> u64 \<Rightarrow> u64 \<Rightarrow> u8 \<Rightarrow> bytes res" where
  "tp_qos_publish_consumer S offer qos_publication consumer consumer_id last_seq_seen drops_gap drops_late mode =
     with_publication ''tp_qos_publish_consumer: qos publication unavailable'' qos_publication (\<lambda>pub.
       tp_offer_message offer pub (put_message S ''QosConsumer''
         (qos_consumer_fields (co_stream_id consumer) consumer_id (co_epoch consumer) last_seq_seen drops_gap drops_late mode)))"

text \<open>The event for a fragment. The block length and the version of the message are not looked at.\<close>

definition tp_qos_poller_handler :: "stream_codec \<Rightarrow> bytes \<Rightarrow> tp_qos_event option" where
  "tp_qos_poller_handler S buffer =
     (if length buffer < sq_header_length S then None
      else
        (case sq_get_header S buffer of
           (template_id, schema_id, block_length, version) \<Rightarrow>
             let b = drop (sq_header_length S) buffer
             in if schema_id \<noteq> sq_schema_id S then None
                else if template_id = sq_template_id S ''QosProducer'' then
                  let field = (\<lambda>nm. sq_field S ''QosProducer'' nm b)
                  in Some (zero_qos_event\<lparr>qe_type := TP_QOS_EVENT_PRODUCER, qe_stream_id := ucast (field ''streamId''), qe_producer_id := ucast (field ''producerId''),
                       qe_epoch := field ''epoch'', qe_current_seq := field ''currentSeq'', qe_watermark := ucast (field ''watermark'')\<rparr>)
                else if template_id = sq_template_id S ''QosConsumer'' then
                  let field = (\<lambda>nm. sq_field S ''QosConsumer'' nm b)
                  in Some (zero_qos_event\<lparr>qe_type := TP_QOS_EVENT_CONSUMER, qe_stream_id := ucast (field ''streamId''), qe_consumer_id := ucast (field ''consumerId''),
                       qe_epoch := field ''epoch'', qe_last_seq_seen := field ''lastSeqSeen'', qe_drops_gap := field ''dropsGap'', qe_drops_late := field ''dropsLate'',
                       qe_mode := (if sq_enum S ''mode'' (field ''mode'') then ucast (field ''mode'') else TP_MODE_NULL)\<rparr>)
                else None))"

section \<open>Reports on the wire\<close>

lemma qos_fits:
  "le_fits control_schema ''QosProducer'' (qos_producer_fields stream_id producer_id epoch current_seq watermark)"
  "le_fits control_schema ''QosConsumer'' (qos_consumer_fields stream_id consumer_id epoch last_seq_seen drops_gap drops_late mode)"
  by (simp_all add: le_fits_def control_blocks unat_ucast_u64 unat_bounds qos_producer_fields_def qos_consumer_fields_def)

lemma qos_templates: "sq_template_id control_stream ''QosProducer'' = 6" "sq_template_id control_stream ''QosConsumer'' = 5"
  by (simp_all add: le_stream_def control_schema_def lookup_or_def)

lemma message_header:
  "\<not> length (put_message control_stream m kvs) < sq_header_length control_stream"
  "sq_get_header control_stream (put_message control_stream m kvs) =
     (sq_template_id control_stream m, sq_schema_id control_stream, sq_block_length control_stream m, sq_schema_version control_stream)"
  "drop (sq_header_length control_stream) (put_message control_stream m kvs) = sq_block control_stream m kvs"
  by (simp_all add: put_message_def control.length_header control.get_header)

lemma qos_fields:
  "map_of (qos_producer_fields sid pid ep seq wm) nm \<noteq> None \<Longrightarrow>
   sq_field control_stream ''QosProducer'' nm (sq_block control_stream ''QosProducer'' (qos_producer_fields sid pid ep seq wm)) = the (map_of (qos_producer_fields sid pid ep seq wm) nm)"
  "map_of (qos_consumer_fields sid cid ep seq gap late mode) nm \<noteq> None \<Longrightarrow>
   sq_field control_stream ''QosConsumer'' nm (sq_block control_stream ''QosConsumer'' (qos_consumer_fields sid cid ep seq gap late mode)) =
     the (map_of (qos_consumer_fields sid cid ep seq gap late mode) nm)"
  using control.field_message [OF qos_fits(1), where t = "[]"] control.field_message [OF qos_fits(2), where t = "[]"] by simp_all

lemma qos_lookup:
  "map_of (qos_producer_fields sid pid ep seq wm) ''streamId'' = Some (ucast sid)" "map_of (qos_producer_fields sid pid ep seq wm) ''producerId'' = Some (ucast pid)"
  "map_of (qos_producer_fields sid pid ep seq wm) ''epoch'' = Some ep" "map_of (qos_producer_fields sid pid ep seq wm) ''currentSeq'' = Some seq"
  "map_of (qos_producer_fields sid pid ep seq wm) ''watermark'' = Some (ucast wm)"
  "map_of (qos_consumer_fields sid cid ep seq gap late mode) ''streamId'' = Some (ucast sid)"
  "map_of (qos_consumer_fields sid cid ep seq gap late mode) ''consumerId'' = Some (ucast cid)"
  "map_of (qos_consumer_fields sid cid ep seq gap late mode) ''epoch'' = Some ep" "map_of (qos_consumer_fields sid cid ep seq gap late mode) ''lastSeqSeen'' = Some seq"
  "map_of (qos_consumer_fields sid cid ep seq gap late mode) ''dropsGap'' = Some gap" "map_of (qos_consumer_fields sid cid ep seq gap late mode) ''dropsLate'' = Some late"
  "map_of (qos_consumer_fields sid cid ep seq gap late mode) ''mode'' = Some (ucast mode)"
  by (simp_all add: qos_producer_fields_def qos_consumer_fields_def)

lemma ucast_u8_eq:
  "(ucast (w :: u8) = (1 :: u64)) = (w = 1)" "(ucast (w :: u8) = (2 :: u64)) = (w = 2)" "(ucast (w :: u8) = (255 :: u64)) = (w = 255)"
  by (auto simp: word_unat_eq_iff unat_ucast_u64)

lemma wire_mode_enum: "sq_enum control_stream ''mode'' (ucast (mode :: u8)) \<longleftrightarrow> wire_mode mode"
  by (simp add: control_enums wire_mode_def ucast_u8_eq)

lemma offered: "tp_offer_message offer pub m = Inr b \<Longrightarrow> b = m"
  by (auto simp: tp_offer_message_def split: if_splits)

text \<open>
  A report that is published arrives as it was; an invalid mode arrives as the null mode.
\<close>

theorem qos_arrives:
  "tp_qos_publish_producer control_stream offer (Some pub) sid pid ep seq wm = Inr buffer \<Longrightarrow>
   tp_qos_poller_handler control_stream buffer = Some (zero_qos_event\<lparr>qe_type := TP_QOS_EVENT_PRODUCER, qe_stream_id := sid, qe_producer_id := pid, qe_epoch := ep,
     qe_current_seq := seq, qe_watermark := wm\<rparr>)"
  "tp_qos_publish_consumer control_stream offer (Some pub) consumer cid seq gap late mode = Inr buffer \<Longrightarrow>
   tp_qos_poller_handler control_stream buffer = Some (zero_qos_event\<lparr>qe_type := TP_QOS_EVENT_CONSUMER, qe_stream_id := co_stream_id consumer, qe_consumer_id := cid,
     qe_epoch := co_epoch consumer, qe_last_seq_seen := seq, qe_drops_gap := gap, qe_drops_late := late, qe_mode := (if wire_mode mode then mode else TP_MODE_NULL)\<rparr>)"
  by (auto simp: tp_qos_publish_producer_def tp_qos_publish_consumer_def with_publication_def tp_qos_poller_handler_def message_header qos_templates
      qos_fields qos_lookup Let_def wire_mode_enum dest!: offered)

section \<open>Keeping a consumer known\<close>

text \<open>What a cycle changes of a consumer \<open>k\<close> that is known as \<open>e\<close>, before its sweep.\<close>

definition same_cycle :: "tp_supervisor \<Rightarrow> tp_supervisor \<Rightarrow> bool" where
  "same_cycle s s' \<longleftrightarrow> su_config s' = su_config s \<and> su_last_sweep_ns s' = su_last_sweep_ns s \<and>
     (ct.unique (cr_entries (su_registry s)) \<longrightarrow> ct.unique (cr_entries (su_registry s')))"

definition keeps_consumer :: "u32 \<Rightarrow> tp_supervisor \<Rightarrow> tp_supervisor \<Rightarrow> bool" where
  "keeps_consumer k s s' \<longleftrightarrow> same_cycle s s' \<and>
     (ct.unique (cr_entries (su_registry s)) \<longrightarrow> consumer_lookup (su_registry s') k = consumer_lookup (su_registry s) k)"

lemma same_cycle_refl: "same_cycle s s" "keeps_consumer k s s"
  by (simp_all add: same_cycle_def keeps_consumer_def)

lemma same_cycle_trans: "same_cycle s s' \<Longrightarrow> same_cycle s' s'' \<Longrightarrow> same_cycle s s''"
  by (auto simp: same_cycle_def)

lemma keeps_consumer_trans: "keeps_consumer k s s' \<Longrightarrow> keeps_consumer k s' s'' \<Longrightarrow> keeps_consumer k s s''"
  by (auto simp: same_cycle_def keeps_consumer_def)

lemma keeps_consumer_fold:
  assumes "\<And>x s. x \<in> set xs \<Longrightarrow> ct.unique (cr_entries (su_registry s)) \<Longrightarrow> keeps_consumer k s (f x s)" "ct.unique (cr_entries (su_registry s))"
  shows "keeps_consumer k s (fold f xs s)"
  using assms(1)
proof (induction xs rule: rev_induct)
  case (snoc x xs)
  then have before: "keeps_consumer k s (fold f xs s)" by simp
  then have "ct.unique (cr_entries (su_registry (fold f xs s)))" using assms(2) by (simp add: keeps_consumer_def same_cycle_def)
  then show ?case using keeps_consumer_trans [OF before] snoc.prems [of x] by simp
qed (simp add: same_cycle_refl)

text \<open>The control fragments that are no hello of \<open>k\<close>.\<close>

definition no_hello :: "u32 \<Rightarrow> bytes \<Rightarrow> bool" where
  "no_hello k buffer \<longleftrightarrow> (\<forall>hello. tp_control_decode_consumer_hello control_stream buffer = Inr (Some hello) \<longrightarrow> ch_consumer_id hello \<noteq> k)"

lemma send_config_last_sweep: "su_last_sweep_ns (snd (tp_supervisor_send_consumer_config S offer config s)) = su_last_sweep_ns s"
  by (simp add: tp_supervisor_send_consumer_config_def split: option.split sum.split)

lemma hello_keeps_others:
  assumes "ch_consumer_id h \<noteq> k" "ct.unique (cr_entries (su_registry s))"
  shows "keeps_consumer k s (snd (snd (tp_supervisor_handle_hello S offer t h s)))"
proof (cases rule: handle_hello_cases [of S offer t h s])
  case (refused e)
  then show ?thesis by (simp add: same_cycle_refl)
next
  case (accepted request registry i entry descriptor control s1)
  from hello_registry [OF assms(2) accepted(2,3), of descriptor control k] have "keeps_consumer k s s1"
    using assms(1) by (simp add: keeps_consumer_def same_cycle_def accepted(6))
  then show ?thesis by (simp add: accepted(7) keeps_consumer_def same_cycle_def send_config_keeps send_config_last_sweep split: option.split)
qed

lemma control_keeps_others:
  assumes "no_hello k buffer" "ct.unique (cr_entries (su_registry s))"
  shows "keeps_consumer k s (tp_supervisor_on_control_fragment control_stream offer t buffer s)"
proof (cases "\<exists>hello. tp_control_decode_consumer_hello control_stream buffer = Inr (Some hello)")
  case False
  then show ?thesis by (simp add: tp_supervisor_on_control_fragment_def same_cycle_refl split: sum.split option.split)
next
  case True
  then obtain h where h: "tp_control_decode_consumer_hello control_stream buffer = Inr (Some h)" by blast
  with assms(1) have "ch_consumer_id (tp_consumer_hello.truncate h) \<noteq> k" by (simp add: no_hello_def tp_consumer_hello.truncate_def)
  from hello_keeps_others [OF this assms(2)] show ?thesis by (simp add: tp_supervisor_on_control_fragment_def h)
qed

lemma touch_lookup:
  assumes "ct.unique (cr_entries r)" "tp_consumer_registry_find r k' = Some i"
  shows "consumer_lookup (r\<lparr>cr_entries := (cr_entries r)[i := (cr_entries r ! i)\<lparr>ce_last_seen_ns := t\<rparr>]\<rparr>) k =
    (if k = k' then map_option (ce_last_seen_ns_update (\<lambda>_. t)) (consumer_lookup r k) else consumer_lookup r k)"
proof -
  have i: "find_index (ct.holds k') (cr_entries r) = Some i" using assms(2) by (simp add: find_eq)
  have slot: "ct.slot_for k' (cr_entries r) i" using ct.slot_for_found [OF assms(1) i] .
  have e: "ce_in_use (cr_entries r ! i)" "ce_consumer_id (cr_entries r ! i) = k'" using find_index_Some [OF i] by (simp_all add: ct.holds_def)
  have "consumer_lookup r k' = Some (cr_entries r ! i)" using assms(2) by (simp add: consumer_lookup_def)
  then show ?thesis using ct.lookup_update [OF assms(1) slot, of "(cr_entries r ! i)\<lparr>ce_last_seen_ns := t\<rparr>" k] e by (simp add: consumer_lookup_eq)
qed

text \<open>The consumer that a QoS message comes from, for a supervisor.\<close>

definition qos_consumer_of :: "bytes \<Rightarrow> u32 option" where
  "qos_consumer_of buffer = map_option qe_consumer_id
     (case tp_qos_poller_handler control_stream buffer of None \<Rightarrow> None | Some event \<Rightarrow> if qe_type event = TP_QOS_EVENT_CONSUMER then Some event else None)"

lemma qos_fragment_touches:
  assumes "ct.unique (cr_entries (su_registry s))"
  shows "same_cycle s (tp_supervisor_on_qos_fragment control_stream t buffer s) \<and>
    consumer_lookup (su_registry (tp_supervisor_on_qos_fragment control_stream t buffer s)) k =
      (if qos_consumer_of buffer = Some k then map_option (ce_last_seen_ns_update (\<lambda>_. t)) (consumer_lookup (su_registry s) k)
       else consumer_lookup (su_registry s) k)"
proof (cases "qos_consumer_of buffer")
  case None
  then have "su_registry (tp_supervisor_on_qos_fragment control_stream t buffer s) = su_registry s \<and> same_cycle s (tp_supervisor_on_qos_fragment control_stream t buffer s)"
    by (auto simp: qos_consumer_of_def tp_qos_poller_handler_def tp_supervisor_on_qos_fragment_def Let_def qos_templates zero_qos_event_def
        same_cycle_def split: prod.splits if_splits)
  then show ?thesis using assms None by simp
next
  case (Some k')
  then have eq: "tp_supervisor_on_qos_fragment control_stream t buffer s =
      (let s = s\<lparr>su_qos_consumer_count := su_qos_consumer_count s + 1\<rparr>
       in (case tp_consumer_registry_find (su_registry s) k' of None \<Rightarrow> s
           | Some i \<Rightarrow> s\<lparr>su_registry := (su_registry s)\<lparr>cr_entries := (cr_entries (su_registry s))
                [i := (cr_entries (su_registry s) ! i)\<lparr>ce_last_seen_ns := t\<rparr>]\<rparr>\<rparr>))"
    by (auto simp: qos_consumer_of_def tp_qos_poller_handler_def tp_supervisor_on_qos_fragment_def Let_def qos_templates zero_qos_event_def split: prod.splits if_splits)
  show ?thesis
  proof (cases "tp_consumer_registry_find (su_registry s) k'")
    case None
    then have "consumer_lookup (su_registry s) k' = None" by (simp add: consumer_lookup_def)
    then show ?thesis using assms None Some by (auto simp: eq Let_def same_cycle_def)
  next
    case (Some i)
    then show ?thesis using assms \<open>qos_consumer_of buffer = Some k'\<close> touch_lookup [OF assms Some] unique_touch [OF assms, of k' i t]
      by (auto simp: eq Let_def find_eq same_cycle_def)
  qed
qed

text \<open>After the QoS messages of a cycle: as before, or as fresh as one of the messages that came from \<open>k\<close>.\<close>

lemma qos_fold:
  assumes "ct.unique (cr_entries (su_registry s))" "consumer_lookup (su_registry s) k = Some e"
  shows "same_cycle s (fold (\<lambda>(t, buffer). tp_supervisor_on_qos_fragment control_stream t buffer) xs s) \<and>
    (\<exists>e'. consumer_lookup (su_registry (fold (\<lambda>(t, buffer). tp_supervisor_on_qos_fragment control_stream t buffer) xs s)) k = Some e' \<and>
      (if \<exists>(t, buffer)\<in>set xs. qos_consumer_of buffer = Some k then \<exists>(t, buffer)\<in>set xs. ce_last_seen_ns e' = t else e' = e))"
proof (induction xs rule: rev_induct)
  case Nil
  then show ?case using assms by (simp add: same_cycle_refl)
next
  case (snoc x xs)
  obtain t b where x: "x = (t, b)" by force
  let ?s = "fold (\<lambda>(t, buffer). tp_supervisor_on_qos_fragment control_stream t buffer) xs s"
  have same: "same_cycle s ?s" and u: "ct.unique (cr_entries (su_registry ?s))" using snoc assms(1) by (auto simp: same_cycle_def)
  note step = qos_fragment_touches [OF u, of t b k]
  have "same_cycle s (tp_supervisor_on_qos_fragment control_stream t b ?s)" using same_cycle_trans [OF same] step by blast
  then show ?case using snoc step by (auto simp: x split: if_splits)
qed

text \<open>
  C34: who is forgotten. A cycle in which a sweep is due, and whose clock readings are no further apart than the
  stale interval, keeps a consumer that sends no hello known exactly when it was fresh enough at the sweep or a QoS
  report of it arrived in the cycle.
\<close>

theorem report_keeps_known:
  assumes "supervisor_ok capacity s" "consumer_lookup (su_registry s) k = Some e"
    "stale = ucast (sc_consumer_stale_ms (su_config s)) * 1000000" "stale > 0" "now_ns - su_last_sweep_ns s \<ge> stale"
    "\<forall>(t, buffer)\<in>set (sp_qos polls). now_ns - t \<le> stale" "\<forall>(t, buffer)\<in>set (sp_control polls). no_hello k buffer"
    "s' = snd (tp_supervisor_do_work control_stream offer polls now_ns s)"
  shows "consumer_lookup (su_registry s') k \<noteq> None \<longleftrightarrow>
    now_ns - ce_last_seen_ns e \<le> stale \<or> (\<exists>(t, buffer)\<in>set (sp_qos polls). qos_consumer_of buffer = Some k)"
proof -
  have unique: "ct.unique (cr_entries (su_registry s))" using assms(1) by (simp add: supervisor_ok_def)
  define s1 where "s1 = fold (\<lambda>(t, buffer). tp_supervisor_on_control_fragment control_stream offer t buffer) (sp_control polls) s"
  define s2 where "s2 = fold (\<lambda>buffer. tp_supervisor_on_metadata_fragment) (sp_metadata polls) (fold (\<lambda>buffer. tp_supervisor_on_announce_fragment) (sp_announce polls) s1)"
  define s3 where "s3 = fold (\<lambda>(t, buffer). tp_supervisor_on_qos_fragment control_stream t buffer) (sp_qos polls) s2"
  have k1: "keeps_consumer k s s1" unfolding s1_def
    by (rule keeps_consumer_fold [OF _ unique]) (use assms(7) control_keeps_others in \<open>auto split: prod.split\<close>)
  have u1: "ct.unique (cr_entries (su_registry s1))" using k1 unique by (simp add: keeps_consumer_def same_cycle_def)
  define s1' where "s1' = fold (\<lambda>buffer. tp_supervisor_on_announce_fragment) (sp_announce polls) s1"
  have announce: "keeps_consumer k s1 s1'" unfolding s1'_def
    by (rule keeps_consumer_fold [OF _ u1]) (simp add: keeps_consumer_def same_cycle_def tp_supervisor_on_announce_fragment_def)
  then have u1': "ct.unique (cr_entries (su_registry s1'))" using u1 by (simp add: keeps_consumer_def same_cycle_def)
  have "keeps_consumer k s1' s2" unfolding s2_def s1'_def [symmetric]
    by (rule keeps_consumer_fold [OF _ u1']) (simp add: keeps_consumer_def same_cycle_def tp_supervisor_on_metadata_fragment_def)
  with announce have "keeps_consumer k s1 s2" by (rule keeps_consumer_trans)
  with k1 have k2: "keeps_consumer k s s2" by (rule keeps_consumer_trans)
  then have u2: "ct.unique (cr_entries (su_registry s2))" and e2: "consumer_lookup (su_registry s2) k = Some e"
    using unique assms(2) by (simp_all add: keeps_consumer_def same_cycle_def)
  from qos_fold [OF u2 e2, of "sp_qos polls", folded s3_def] obtain e' where same: "same_cycle s2 s3" and e': "consumer_lookup (su_registry s3) k = Some e'"
    "if \<exists>(t, buffer)\<in>set (sp_qos polls). qos_consumer_of buffer = Some k then \<exists>(t, buffer)\<in>set (sp_qos polls). ce_last_seen_ns e' = t else e' = e"
    by blast
  have s3: "su_config s3 = su_config s" "su_last_sweep_ns s3 = su_last_sweep_ns s" "ct.unique (cr_entries (su_registry s3))"
    using k2 same u2 by (simp_all add: keeps_consumer_def same_cycle_def)
  have "supervisor_fragments control_stream offer polls s = s3" by (simp add: supervisor_fragments_def s1_def s2_def s3_def)
  then have "su_registry s' = fst (tp_consumer_registry_sweep (su_registry s3) now_ns stale)"
    using assms(3-5) s3 by (simp add: assms(8) tp_supervisor_do_work_def supervisor_sweep_def Let_def)
  then have "consumer_lookup (su_registry s') k \<noteq> None \<longleftrightarrow> now_ns - ce_last_seen_ns e' \<le> stale"
    using registry_sweep_spec [OF s3(3) prod.collapse [symmetric], of now_ns stale k] e'(1) by (auto split: if_splits)
  then show ?thesis using e'(2) assms(6) by (auto split: if_splits)
qed

lemma published_consumer:
  "tp_qos_publish_consumer control_stream offer (Some pub) consumer k seq gap late mode = Inr buffer \<Longrightarrow> qos_consumer_of buffer = Some k"
  by (drule qos_arrives(2)) (simp add: qos_consumer_of_def)

definition known_supervisor :: tp_supervisor where
  "known_supervisor = sample_supervisor\<lparr>su_registry := \<lparr>cr_entries = [zero_consumer_entry\<lparr>ce_in_use := True, ce_consumer_id := 107, ce_last_seen_ns := 50\<rparr>, zero_consumer_entry]\<rparr>\<rparr>"

definition qos_report :: bytes where
  "qos_report = put_message control_stream ''QosConsumer'' (qos_consumer_fields 5 107 1 10 0 0 1)"

lemma qos_report_from: "qos_consumer_of qos_report = Some 107"
  by (simp add: qos_consumer_of_def qos_report_def tp_qos_poller_handler_def message_header qos_templates qos_fields qos_lookup Let_def zero_qos_event_def)

lemma known_supervisor_ok: "supervisor_ok 2 known_supervisor"
  by (simp add: supervisor_ok_def known_supervisor_def sample_supervisor_def sample_mode ct.unique_def ct.holds_def zero_consumer_entry_def less_Suc_eq numeral_2_eq_2)

corollary report_keeps_known_witness:
  "consumer_lookup (su_registry (snd (tp_supervisor_do_work control_stream (\<lambda>pub b. 0)
      \<lparr>sp_control = [], sp_announce = [], sp_metadata = [], sp_qos = [(1999999999, qos_report)]\<rparr> 2000000100 known_supervisor))) 107 \<noteq> None \<and>
   consumer_lookup (su_registry (snd (tp_supervisor_do_work control_stream (\<lambda>pub b. 0)
      \<lparr>sp_control = [], sp_announce = [], sp_metadata = [], sp_qos = []\<rparr> 2000000100 known_supervisor))) 107 = None"
proof -
  let ?e = "zero_consumer_entry\<lparr>ce_in_use := True, ce_consumer_id := 107, ce_last_seen_ns := 50\<rparr>"
  have known: "consumer_lookup (su_registry known_supervisor) 107 = Some ?e"
    by (simp add: consumer_lookup_def tp_consumer_registry_find_def known_supervisor_def find_index.simps)
  have stale: "1000000000 = ucast (sc_consumer_stale_ms (su_config known_supervisor)) * (1000000 :: u64)" "(1000000000 :: u64) > 0"
    "(2000000100 :: u64) - su_last_sweep_ns known_supervisor \<ge> 1000000000"
    by (simp_all add: known_supervisor_def sample_supervisor_def sample_supervisor_config_def)
  note cycle = report_keeps_known [OF known_supervisor_ok known stale _ _ refl, of _ "\<lambda>pub b. 0"]
  from cycle [of "\<lparr>sp_control = [], sp_announce = [], sp_metadata = [], sp_qos = [(1999999999, qos_report)]\<rparr>"]
    cycle [of "\<lparr>sp_control = [], sp_announce = [], sp_metadata = [], sp_qos = []\<rparr>"] qos_report_from
  show ?thesis by simp
qed

end
