(* ===== verification/Spec2Isabelle.thy ===== *)
theory Spec2Isabelle
  imports Tp_Merge_Codec Tp_Join_Barrier Tp_Tensor_Codec Tp_Seqlock Tp_Consumer_Registry Tp_Trace Tp_Data_Path Tp_Driver_Lifecycle Tp_Mpsc_Fifo Tp_Epoch_Attach Tp_Lease Tp_Consumer_Attach
    Tp_Discovery_Fragments Tp_Tracelink Tp_Progress_Poller Tp_Metadata_Poller Tp_Qos
begin

text \<open>
  \<^bold>\<open>A verification library for tensor_pool.\<close>

  Tensor pool moves tensors between processes through shared memory. A \<^emph>\<open>driver\<close> owns the
  memory: for every stream it creates the files of an \<^emph>\<open>epoch\<close>, one ring of header slots and some
  payload pools, and grants leases on them. A \<^emph>\<open>producer\<close> writes a frame into the slot and the pool
  entry that belong to its sequence number and announces it with a descriptor message; a
  \<^emph>\<open>consumer\<close> that maps the same files reads it without a lock. A \<^emph>\<open>join barrier\<close> tells an
  application when the inputs of a joined stream are far enough for the next output.

  \<^bold>\<open>Theories and sources.\<close> Paths are relative to the root of the repository.

  \<^item> \<open>Tp_Prelude\<close>: words for the C integers, the results \<open>Inr v\<close> and \<open>Inl e\<close> with the
    errors of \<open>TP_SET_ERR\<close>, guards in the order the code tests them, and the collections
    \<open>res_simps\<close> and others that the component proofs use. \<open>Tp_Text\<close>: the C string
    functions. \<open>Tp_Slot_Table\<close>: the locale of arrays that are a finite map from keys to entries.
  \<^item> \<open>Tp_Sbe\<close>: the generated message accessors as a record, with their laws in the locales
    \<open>sbe_codec\<close> and \<open>message_codec\<close>. The codec locales of the message theories extend them and
    are interpreted on the little-endian layouts of the schemas under schemas/.
  \<^item> \<open>Tp_Merge_Map\<close>, \<open>Tp_Merge_Codec\<close>: src/common/tp_merge_map.c. The registry keeps at most
    one map per kind and stream, a lookup returns the last accepted announce under its own epoch, and the
    four messages survive encoding and decoding; a decoded map has only valid rules.
  \<^item> \<open>Tp_Join_Barrier\<close>: src/common/tp_join_barrier.c. Every call keeps the barrier consistent; the
    readiness tests decide the condition of the specification; sequence readiness is stable.
  \<^item> \<open>Tp_Tensor\<close>, \<open>Tp_Tensor_Codec\<close>: src/common/tp_tensor.c and the header encoder of
    src/client/tp_producer.c. Elements of a validated header do not overlap when its innermost stride covers an
    element, and a header survives encoding and decoding.
  \<^item> \<open>Tp_Seqlock\<close>: include/tensor_pool/common/tp_seqlock.h. The commit word, and the interleavings
    of a writer and a reader one memory access at a time: no torn read is accepted.
  \<^item> \<open>Tp_Consumer_Registry\<close>: src/client/tp_consumer_registry.c and tp_consumer_manager.c. One entry per
    consumer, exact effect of a hello and of a sweep, and the progress policy that is the least hint.
  \<^item> \<open>Tp_Trace\<close>: src/common/tp_trace.c. Ids are strictly increasing over all threads that share a
    generator; when a call returns and with which id.
  \<^item> \<open>Tp_Frame\<close>, \<open>Tp_Descriptor\<close>, \<open>Tp_Producer\<close>, \<open>Tp_Consumer\<close>,
    \<open>Tp_Data_Path\<close>: src/common/tp_slot.c and the data paths of src/client/tp_producer.c and
    tp_consumer.c. The stores of a publication are a list, so that the memory between two of them can be read.
    After any run of offers the last \<open>header_nslots\<close> frames are read back as they were offered, a
    reader in the middle of a publication never accepts a mixture, all stores are in bounds, and the
    consumer counts exactly the missing descriptors.
  \<^item> \<open>Tp_Uri\<close>, \<open>Tp_Shm\<close>: src/common/tp_uri.c and tp_shm.c. What \<open>tp_shm_map\<close> maps lies
    below an allowed directory, whatever happens to the file system between its system calls; superblock validation.
  \<^item> \<open>Tp_Driver_Region\<close>, \<open>Tp_Driver_Files\<close>: the region files of src/driver/tp_driver.c.
    Different regions have different files, the URI of a region parses to its path, and an epoch that the driver
    reports as created passes the validation of its clients, after the removal of old epochs.
  \<^item> \<open>Tp_Driver\<close>, \<open>Tp_Driver_Leases\<close>, \<open>Tp_Driver_Lifecycle\<close>: the handlers, the expiry
    sweep and the duty cycle of src/driver/tp_driver.c. Lease, client and node ids stay unique and a stream has at
    most one producer lease in every reachable state; what an attach grants; what a sweep and a detach end.
  \<^item> \<open>Tp_Mpsc\<close>, \<open>Tp_Mpsc_Fifo\<close>: src/common/tp_mpsc_queue.c. The loops of offer and poll one
    atomic access at a time, for any number of offering threads: items come out once, complete and in the order
    of their positions. Called one after the other the operations are a bounded list; a queue of one slot is
    broken.
  \<^item> \<open>Tp_Consumer_Control\<close>, \<open>Tp_Consumer_Mapping\<close>, \<open>Tp_Consumer_Attach\<close>: the
    control half of src/client/tp_consumer.c. Attaching a configuration, the control messages and the
    checks of a poll; what a mapping may be after any run of polls; the attachment through the driver, which
    leaves a mapping and a lease, or neither.
  \<^item> \<open>Tp_Driver_Client\<close>, \<open>Tp_Driver_Attach\<close>: src/client/tp_driver_client.c. Decoding
    of the driver's messages, the blocking and the polled attach and detach, keepalives. An attach takes the answer
    to its own request, and returns.
  \<^item> \<open>Tp_Epoch_Attach\<close>, \<open>Tp_Lease\<close>: compositions. From the epoch that the driver creates over its
    announcement to the consumer that maps its files; from the driver's grant to the client that holds the
    lease, and the keepalives that keep their expiry times in step.
  \<^item> \<open>Tp_Stream\<close>: the accessors of messages with nested groups and texts, which keep a position, with
    their laws in the locale \<open>stream_laws\<close> and the little-endian layout of a schema as its instance.
  \<^item> \<open>Tp_Discovery\<close>, \<open>Tp_Discovery_Index\<close>: the index of
    src/discovery/tp_discovery_service.c. It implements a map from streams to what is known of them, in which the newest
    epoch wins and streams expire.
  \<^item> \<open>Tp_Discovery_Codec\<close>, \<open>Tp_Discovery_Wire\<close>, \<open>Tp_Discovery_Answer\<close>: the messages between
    the service and src/client/tp_discovery_client.c (schemas/discovery-schema.xml). A query returns exactly
    the streams it asks for, and its answer arrives as it was given; a decoded response is within its types.
  \<^item> \<open>Tp_Discovery_Service\<close>, \<open>Tp_Discovery_Fragments\<close>, \<open>Tp_Discovery_Errors\<close>: the handlers of the
    service and the waiting client. What is sent for a request and to whom, when the client stops waiting, and what
    goes wrong: requests of the client that the service cannot read, URIs that announcements lose, answers
    that one stream spoils, error messages that do not arrive.
  \<^item> \<open>Tp_Tracelink\<close>: src/common/tp_tracelink.c (schemas/tracelink-schema.xml). The trace id of a frame with
    parents, and the sets that name them: what is resolved can be sent, a producer sends only sets of frames it has
    published, and a set arrives as it was.
  \<^item> \<open>Tp_Progress_Poller\<close>: src/client/tp_progress_poller.c. The array of reports stays consistent, and
    in the ring of a watched consumer the progress that is handed on does not go back.
  \<^item> \<open>Tp_Control_Codec\<close>: the control and metadata messages of schemas/wire-schema.xml, the senders of
    src/client/tp_control.c and the decoders of src/client/tp_control_adapter.c. The locale \<open>control_codec\<close>
    states what the schema gives them, and has the lemmas that a message arrives as it was sent.
  \<^item> \<open>Tp_Metadata_Poller\<close>: src/client/tp_metadata_poller.c. A blob that is reported as complete has been
    handed on whole and in order, whatever fragments arrive; a blob that a producer sends is handed on.
  \<^item> \<open>Tp_Supervisor\<close>, \<open>Tp_Qos\<close>: src/supervisor/tp_supervisor.c and src/client/tp_qos.c. What a
    hello leads to, up to the configuration that the consumer decodes; the registry stays consistent in every run; which
    consumers a sweep forgets, and how their QoS reports keep them known.

  \<^bold>\<open>How the parts meet.\<close> The URI built by \<open>tp_driver_build_region_uri\<close> is parsed by
  \<open>tp_shm_uri_parse\<close>; the superblock written by \<open>tp_driver_create_region_file\<close> is validated by
  \<open>tp_shm_validate_superblock\<close> with the expectations that a consumer builds when it attaches; the frames
  stored by \<open>tp_producer_publish_frame\<close> are read by \<open>tp_consumer_read_frame\<close>; the descriptor of
  \<open>tp_producer_publish_descriptor_to\<close> is decoded by \<open>tp_consumer_descriptor_handler\<close>; the maps of
  the codec are the rules of the barrier; the bytes that \<open>tp_discovery_encode_response\<close> writes are decoded by
  \<open>tp_discovery_decode_response\<close>; the hello of \<open>tp_consumer_send_hello\<close> is handled by
  \<open>tp_supervisor_handle_hello\<close>, whose configuration \<open>tp_control_decode_consumer_config\<close> reads.

  \<^bold>\<open>Conventions.\<close> A struct is a record, an array or a pointer to one a list, a pointer into a table an
  index. An operation returns the new state, or the error and the state it leaves. Unsigned arithmetic wraps as a word
  does; signed arithmetic is done on the value and has the outcome \<open>UB\<close> where C leaves it undefined. The
  checks for null arguments and the log calls are left out. What is not in the repository is a parameter: Aeron (the
  result of an offer, the fragments a poll delivers), the SBE accessors, the operating system and the allocator, the
  clock and the random device. A parameter that can answer differently each time takes the number of the
  call, which the state counts. Shared memory is sequentially consistent.

  \<^bold>\<open>Bounds.\<close> Every loop of the modelled code is a total function: a recursion over a list, the expiry sweep
  with the number of leases left as its measure, the 1024 attempts of \<open>tp_driver_next_node_id\<close> as they
  are in the code. The compare-and-swap loop of the trace ids takes the list of its clock readings, and the theorem about it
  says which lists let it return. The invariant of the driver bounds the number of events by \<open>2 ^ 63 - 1\<close>,
  so that the 64-bit lease counter, whose seed has 63 bits, does not wrap.

  A poll of the queue and the blocking attach take the list of what they observe; \<open>None\<close> means that the call has not
  returned when the list ends, and the theorems say which lists let it return.

  \<^bold>\<open>Not modelled.\<close> The control half of the producer (attaching, announcing, polling) and the dispatch
  of control messages to callbacks (src/client/tp_control_poller.c, the subscription of tp_control_adapter.c) are not
  modelled. The client conductor, the Aeron wrappers, the agents, the clock and the
  log only call other libraries, and so do the calls that create and close publications and subscriptions; the
  configuration files are read by a TOML library, and the tools, examples, tests and fuzzers are programs around the library.
\<close>

end
